(* ===== verification/Prelude.thy ===== *)
theory Prelude
  imports Complex_Main
begin

text \<open>
  Shared ground of the development: the collections of simplification facts the component
  theories add to, and generic facts about the tables (lists of rows) that stand for the
  database and about the ordered in-memory maps of the worker.
\<close>

named_theorems money_simps \<open>facts about cent amounts\<close>
named_theorems row_simps \<open>field accesses and updates of rows and tables\<close>

section \<open>Integers inside the rationals\<close>

lemma abs_of_int_le_iff: "\<bar>of_int n :: rat\<bar> \<le> of_int m \<longleftrightarrow> \<bar>n\<bar> \<le> m"
  by (metis of_int_abs of_int_le_iff)

section \<open>Tables as lists\<close>

lemma find_append: "List.find P (xs @ ys) = (case List.find P xs of Some r \<Rightarrow> Some r | None \<Rightarrow> List.find P ys)"
  by (induction xs) auto

end
