(* ===== verification/JsNumber.thy ===== *)
theory JsNumber
  imports Prelude "HOL-Library.Log_Nat"
begin

text \<open>
  The JavaScript number type: IEEE-754 binary64 with round-to-nearest, ties to even.
  A finite value is kept as the rational it denotes; every arithmetic operation computes the
  exact rational result and rounds it once (\<open>rnd\<close>), as the standard prescribes. The two zeros
  are one value here: the code modelled never observes the sign of a zero (it never divides
  by a value that can be a negative zero, and never uses \<open>Object.is\<close>).
\<close>

section \<open>Rounding a rational to binary64\<close>

text \<open>Position of the leading binary digit of a positive rational.\<close>

definition ilog2 :: "rat \<Rightarrow> int" where
  "ilog2 x = (if 1 \<le> x then bitlen \<lfloor>x\<rfloor> - 1 else - bitlen (\<lceil>1 / x\<rceil> - 1))"

text \<open>Round half to even, on the integers.\<close>

definition rne :: "rat \<Rightarrow> int" where
  "rne x = (let f = \<lfloor>x\<rfloor>; d = x - of_int f in
     if d < 1 / 2 then f else if 1 / 2 < d then f + 1 else if even f then f else f + 1)"

text \<open>Exponent of the last place of the binary64 values around \<open>x\<close> (subnormals share the last one).\<close>

definition ulp_exp :: "rat \<Rightarrow> int" where
  "ulp_exp x = max (ilog2 \<bar>x\<bar> - 52) (- 1074)"

text \<open>Rounding without the overflow check.\<close>

definition rnd_rat :: "rat \<Rightarrow> rat" where
  "rnd_rat x = (if x = 0 then 0
     else of_int (rne (x / 2 powi ulp_exp x)) * 2 powi ulp_exp x)"

lemma bitlen_one [simp]: "bitlen 1 = 1"
  by (simp add: bitlen_alt_def)

lemma ilog2_bounds:
  assumes "0 < x"
  shows "2 powi ilog2 x \<le> x" and "x < 2 powi (ilog2 x + 1)"
proof -
  have "2 powi ilog2 x \<le> x \<and> x < 2 powi (ilog2 x + 1)"
  proof (cases "1 \<le> x")
    case True
    let ?n = "\<lfloor>x\<rfloor>"
    have n: "0 < ?n" using True by linarith
    have b: "1 \<le> bitlen ?n" using n by (metis bitlen_eq_zero_iff bitlen_nonneg int_one_le_iff_zero_less linorder_not_le order_le_less)
    have lo: "2 ^ nat (bitlen ?n - 1) \<le> ?n" and hi: "?n < 2 ^ nat (bitlen ?n)"
      using bitlen_bounds [OF n] by auto
    have "(2::rat) ^ nat (bitlen ?n - 1) \<le> of_int ?n"
      using lo by (metis of_int_le_iff of_int_numeral of_int_power)
    also have "\<dots> \<le> x" by simp
    finally have l: "(2::rat) ^ nat (bitlen ?n - 1) \<le> x" .
    have "?n + 1 \<le> 2 ^ nat (bitlen ?n)" using hi by simp
    then have "of_int (?n + 1) \<le> (2::rat) ^ nat (bitlen ?n)"
      by (metis of_int_le_iff of_int_numeral of_int_power)
    moreover have "x < of_int (?n + 1)" by linarith
    ultimately have "x < 2 ^ nat (bitlen ?n)" by linarith
    with l b True show ?thesis
      by (simp add: ilog2_def power_int_nonneg_exp)
  next
    case False
    let ?m = "\<lceil>1 / x\<rceil> - 1"
    have "1 < 1 / x" using False assms by (simp add: less_divide_eq)
    then have m: "0 < ?m" by linarith
    have b: "1 \<le> bitlen ?m" using m by (metis bitlen_eq_zero_iff bitlen_nonneg int_one_le_iff_zero_less linorder_not_le order_le_less)
    have lo: "2 ^ nat (bitlen ?m - 1) \<le> ?m" and hi: "?m < 2 ^ nat (bitlen ?m)"
      using bitlen_bounds [OF m] by auto
    have "(2::rat) ^ nat (bitlen ?m - 1) \<le> of_int ?m"
      using lo by (metis of_int_le_iff of_int_numeral of_int_power)
    also have "of_int ?m < 1 / x" by linarith
    finally have l: "(2::rat) ^ nat (bitlen ?m - 1) < 1 / x" .
    have "\<lceil>1 / x\<rceil> \<le> 2 ^ nat (bitlen ?m)" using hi by simp
    then have "of_int \<lceil>1 / x\<rceil> \<le> (2::rat) ^ nat (bitlen ?m)"
      by (metis of_int_le_iff of_int_numeral of_int_power)
    then have h: "1 / x \<le> 2 ^ nat (bitlen ?m)" using le_of_int_ceiling order_trans by blast
    have "1 / 2 ^ nat (bitlen ?m) \<le> x"
      using h assms by (simp add: field_simps)
    moreover have "x < 1 / 2 ^ nat (bitlen ?m - 1)"
      using l assms by (simp add: field_simps)
    moreover have "(2::rat) powi (- bitlen ?m) = 1 / 2 ^ nat (bitlen ?m)"
      using b by (simp add: power_int_minus_divide power_int_nonneg_exp)
    moreover have "(2::rat) powi (- bitlen ?m + 1) = 1 / 2 ^ nat (bitlen ?m - 1)"
      using b power_int_minus_divide [of "2::rat" "bitlen ?m - 1"]
      by (simp add: power_int_nonneg_exp)
    ultimately show ?thesis using b False by (simp add: ilog2_def)
  qed
  then show "2 powi ilog2 x \<le> x" and "x < 2 powi (ilog2 x + 1)" by auto
qed

lemma powi2_less_iff [simp]: "(2::rat) powi a < 2 powi b \<longleftrightarrow> a < b"
  by (metis linorder_neqE_linordered_idom one_less_numeral_iff order_less_asym power_int_strict_increasing semiring_norm(76) order_less_irrefl)

lemma powi2_le_iff [simp]: "(2::rat) powi a \<le> 2 powi b \<longleftrightarrow> a \<le> b"
  by (meson leD leI powi2_less_iff)

lemma ilog2_unique:
  assumes "2 powi k \<le> x" and "x < 2 powi (k + 1)"
  shows "ilog2 x = k"
proof -
  have "0 < x" using assms(1) by (meson less_le_trans zero_less_numeral zero_less_power_int)
  note b = ilog2_bounds [OF this]
  from order_le_less_trans [OF b(1) assms(2)] have "ilog2 x < k + 1" by simp
  moreover from order_le_less_trans [OF assms(1) b(2)] have "k < ilog2 x + 1" by simp
  ultimately show ?thesis by simp
qed

lemma ilog2_mono: "0 < x \<Longrightarrow> x \<le> y \<Longrightarrow> ilog2 x \<le> ilog2 y"
proof -
  assume "0 < x" "x \<le> y"
  then have "2 powi ilog2 x \<le> x" "y < 2 powi (ilog2 y + 1)"
    using ilog2_bounds [of x] ilog2_bounds [of y] by auto
  with \<open>x \<le> y\<close> have "(2::rat) powi ilog2 x < 2 powi (ilog2 y + 1)" by linarith
  then show ?thesis by simp
qed

section \<open>Rounding to the nearest integer, ties to even\<close>

lemma rne_of_int [simp]: "rne (of_int n) = n"
  by (simp add: rne_def)

lemma rne_numeral [simp]: "rne (numeral w) = numeral w" "rne 0 = 0" "rne 1 = 1"
  using rne_of_int [of "numeral w"] rne_of_int [of 0] rne_of_int [of 1] by simp_all

lemma rne_cases:
  "rne x = \<lfloor>x\<rfloor> \<and> x - of_int \<lfloor>x\<rfloor> \<le> 1 / 2 \<or> rne x = \<lfloor>x\<rfloor> + 1 \<and> 1 / 2 \<le> x - of_int \<lfloor>x\<rfloor>"
  unfolding rne_def Let_def by (auto simp: not_less intro: less_imp_le)

lemma rne_error: "\<bar>of_int (rne x) - x\<bar> \<le> 1 / 2"
proof -
  have "of_int \<lfloor>x\<rfloor> \<le> x" and "x < of_int \<lfloor>x\<rfloor> + 1" by linarith+
  then show ?thesis using rne_cases [of x]
    by (elim disjE conjE) (simp_all only: of_int_add of_int_1 abs_le_iff, linarith+)
qed

lemma rne_mono: "x \<le> y \<Longrightarrow> rne x \<le> rne y"
proof (rule ccontr)
  assume le: "x \<le> y" and "\<not> rne x \<le> rne y"
  then have gt: "rne y + 1 \<le> rne x" by simp
  then have "of_int (rne y) + 1 \<le> (of_int (rne x) :: rat)"
    by (metis of_int_1 of_int_add of_int_le_iff)
  with rne_error [of x] rne_error [of y] le
  have x: "x = of_int (rne x) - 1 / 2" and "y = x" and "rne y + 1 = rne x" by linarith+
  then show False by simp
qed

lemma rne_minus: "rne (- x) = - rne x"
proof (cases "of_int \<lfloor>x\<rfloor> = x")
  case True
  then show ?thesis by (metis of_int_minus rne_of_int)
next
  case False
  then have f: "\<lfloor>- x\<rfloor> = - \<lfloor>x\<rfloor> - 1" by linarith
  show ?thesis by (auto simp: rne_def Let_def f)
qed

lemma rne_le: "x \<le> of_int n \<Longrightarrow> rne x \<le> n"
  using rne_mono [of x "of_int n"] by simp

lemma rne_ge: "of_int n \<le> x \<Longrightarrow> n \<le> rne x"
  using rne_mono [of "of_int n" x] by simp

section \<open>Properties of the binary64 rounding\<close>

lemma powi2_split: "(2::rat) powi (a + b) = 2 powi a * 2 powi b"
  by (simp add: power_int_add)

lemma powi2_pos [simp]: "0 < (2::rat) powi k"
  by simp

lemma rnd_rat_0 [simp]: "rnd_rat 0 = 0"
  by (simp add: rnd_rat_def)

lemma rnd_rat_minus: "rnd_rat (- x) = - rnd_rat x"
  by (simp add: rnd_rat_def ulp_exp_def rne_minus)

lemma ulp_exp_mono: "0 < x \<Longrightarrow> x \<le> y \<Longrightarrow> ulp_exp x \<le> ulp_exp y"
  using ilog2_mono [of x y] by (auto simp: ulp_exp_def)

lemma rnd_rat_nonneg: "0 \<le> x \<Longrightarrow> 0 \<le> rnd_rat x"
  using rne_ge [of 0 "x / 2 powi ulp_exp x"] by (simp add: rnd_rat_def)

lemma rnd_rat_upper: "0 < x \<Longrightarrow> rnd_rat x \<le> 2 powi (ulp_exp x + 53)"
proof -
  assume "0 < x"
  then have "x < 2 powi (ilog2 x + 1)" by (rule ilog2_bounds)
  also have "\<dots> \<le> 2 powi (ulp_exp x + 53)" using \<open>0 < x\<close> by (simp add: ulp_exp_def)
  finally have "x / 2 powi ulp_exp x \<le> of_int (2 ^ 53)"
    by (simp add: powi2_split divide_le_eq mult.commute)
  then have "rne (x / 2 powi ulp_exp x) \<le> 2 ^ 53" by (rule rne_le)
  then have "of_int (rne (x / 2 powi ulp_exp x)) \<le> (of_int (2 ^ 53) :: rat)"
    by (rule of_int_le_iff [THEN iffD2])
  then show ?thesis using \<open>0 < x\<close>
    by (simp add: rnd_rat_def powi2_split mult.commute)
qed

lemma rnd_rat_lower: "0 < y \<Longrightarrow> - 1074 < ulp_exp y \<Longrightarrow> 2 powi (ulp_exp y + 52) \<le> rnd_rat y"
proof -
  assume y: "0 < y" and e: "- 1074 < ulp_exp y"
  then have "ulp_exp y + 52 = ilog2 y" by (simp add: ulp_exp_def)
  with ilog2_bounds [OF y] have "2 powi (ulp_exp y + 52) \<le> y" by simp
  then have "of_int (2 ^ 52) \<le> y / 2 powi ulp_exp y"
    by (simp add: powi2_split le_divide_eq mult.commute)
  then have "2 ^ 52 \<le> rne (y / 2 powi ulp_exp y)" by (rule rne_ge)
  then have "of_int (2 ^ 52) \<le> (of_int (rne (y / 2 powi ulp_exp y)) :: rat)"
    by (rule of_int_le_iff [THEN iffD2])
  then show ?thesis using y
    by (simp add: rnd_rat_def powi2_split mult.commute)
qed

lemma rnd_rat_mono_pos: "0 < x \<Longrightarrow> x \<le> y \<Longrightarrow> rnd_rat x \<le> rnd_rat y"
proof -
  assume x: "0 < x" and xy: "x \<le> y"
  then have y: "0 < y" by simp
  show ?thesis
  proof (cases "ulp_exp x = ulp_exp y")
    case True
    have "rne (x / 2 powi ulp_exp y) \<le> rne (y / 2 powi ulp_exp y)"
      by (rule rne_mono) (use xy in \<open>simp add: divide_right_mono\<close>)
    then show ?thesis using x y True by (simp add: rnd_rat_def)
  next
    case False
    with ulp_exp_mono [OF x xy] have lt: "ulp_exp x + 1 \<le> ulp_exp y" by simp
    then have "- 1074 < ulp_exp y" by (simp add: ulp_exp_def)
    note lo = rnd_rat_lower [OF y this]
    have "rnd_rat x \<le> 2 powi (ulp_exp x + 53)" by (rule rnd_rat_upper [OF x])
    also have "\<dots> \<le> 2 powi (ulp_exp y + 52)" using lt by simp
    also note lo
    finally show ?thesis .
  qed
qed

lemma rnd_rat_mono: "x \<le> y \<Longrightarrow> rnd_rat x \<le> rnd_rat y"
proof -
  assume xy: "x \<le> y"
  consider "0 < x" | "x \<le> 0" "0 \<le> y" | "y < 0" by linarith
  then show ?thesis
  proof cases
    case 1
    then show ?thesis using xy by (rule rnd_rat_mono_pos)
  next
    case 2
    have "rnd_rat x \<le> 0" using rnd_rat_nonneg [of "- x"] 2 by (simp add: rnd_rat_minus)
    also have "0 \<le> rnd_rat y" using 2 by (simp add: rnd_rat_nonneg)
    finally show ?thesis .
  next
    case 3
    then show ?thesis using rnd_rat_mono_pos [of "- y" "- x"] xy by (simp add: rnd_rat_minus)
  qed
qed

text \<open>
  The rationals that are binary64 values (leaving the exponent's upper bound aside) are the
  fixed points of rounding.
\<close>

definition dyadic53 :: "rat \<Rightarrow> bool" where
  "dyadic53 r \<longleftrightarrow> rnd_rat r = r"

lemma rnd_rat_exact:
  assumes r: "r = of_int m * 2 powi e" and m: "\<bar>m\<bar> \<le> 2 ^ 53" and e: "- 1074 \<le> e"
  shows "rnd_rat r = r"
proof (cases "r = 0")
  case True
  then show ?thesis by simp
next
  case False
  let ?u = "ulp_exp r"
  have integral: "\<exists>k. r / 2 powi ?u = of_int k"
  proof (cases "\<bar>m\<bar> = 2 ^ 53")
    case True
    have "\<bar>r\<bar> = 2 powi (e + 53)"
      using True r by (simp add: abs_mult powi2_split flip: of_int_abs)
    then have "ilog2 \<bar>r\<bar> = e + 53"
      by (intro ilog2_unique) simp_all
    then have u: "?u = e + 1" using e by (simp add: ulp_exp_def)
    have "m = 2 ^ 53 \<or> m = - (2 ^ 53)" using True by linarith
    then have "m = 2 * (m div 2)" by auto
    then obtain h where h: "m = 2 * h" by blast
    have "r = of_int h * 2 powi (e + 1)" by (simp add: r h powi2_split)
    then have "r / 2 powi ?u = of_int h" unfolding u by simp
    then show ?thesis ..
  next
    case False
    then have "\<bar>m\<bar> < 2 ^ 53" using m by simp
    then have "of_int \<bar>m\<bar> < (2 ^ 53 :: rat)"
      by (metis of_int_less_iff of_int_numeral of_int_power)
    then have "\<bar>r\<bar> < 2 powi (e + 53)"
      by (simp add: r abs_mult powi2_split)
    moreover have "2 powi ilog2 \<bar>r\<bar> \<le> \<bar>r\<bar>" using \<open>r \<noteq> 0\<close> by (intro ilog2_bounds) simp
    ultimately have "(2::rat) powi ilog2 \<bar>r\<bar> < 2 powi (e + 53)" by linarith
    then have "?u \<le> e" using e by (simp add: ulp_exp_def)
    then obtain d where d: "e = ?u + int d" by (metis zle_iff_zadd)
    have "r = of_int m * 2 powi (?u + int d)" using r d by simp
    then have "r = of_int (m * 2 ^ d) * 2 powi ?u" by (simp add: powi2_split mult_ac)
    then have "r / 2 powi ?u = of_int (m * 2 ^ d)" by (simp add: divide_eq_eq)
    then show ?thesis ..
  qed
  then obtain k where k: "r / 2 powi ?u = of_int k" by blast
  then have "r = of_int k * 2 powi ?u" by (simp add: divide_eq_eq)
  with k False show ?thesis by (simp add: rnd_rat_def)
qed

lemma rnd_rat_idem [simp]: "rnd_rat (rnd_rat x) = rnd_rat x"
proof (cases "x = 0")
  case False
  let ?k = "rne (x / 2 powi ulp_exp x)"
  have "rnd_rat \<bar>x\<bar> \<le> 2 powi (ulp_exp \<bar>x\<bar> + 53)" using False by (intro rnd_rat_upper) simp
  moreover have "\<bar>rnd_rat x\<bar> = rnd_rat \<bar>x\<bar>"
    using rnd_rat_nonneg [of x] rnd_rat_nonneg [of "- x"] by (cases "0 \<le> x") (simp_all add: rnd_rat_minus)
  moreover have "ulp_exp \<bar>x\<bar> = ulp_exp x" by (simp add: ulp_exp_def)
  moreover have "\<bar>rnd_rat x\<bar> = of_int \<bar>?k\<bar> * 2 powi ulp_exp x"
    using False by (simp add: rnd_rat_def abs_mult)
  ultimately have "of_int \<bar>?k\<bar> * 2 powi ulp_exp x \<le> (2 ^ 53 :: rat) * 2 powi ulp_exp x"
    by (simp add: powi2_split mult.commute)
  then have "of_int \<bar>?k\<bar> \<le> (2 ^ 53 :: rat)" by (rule mult_right_le_imp_le) simp
  then have "\<bar>?k\<bar> \<le> 2 ^ 53"
    by (metis of_int_le_iff of_int_numeral of_int_power)
  moreover have "rnd_rat x = of_int ?k * 2 powi ulp_exp x" using False by (simp add: rnd_rat_def)
  ultimately show ?thesis
    using rnd_rat_exact [of "rnd_rat x" ?k "ulp_exp x"] by (simp add: ulp_exp_def)
qed simp

lemma rnd_rat_of_int [simp]: "\<bar>n\<bar> \<le> 2 ^ 53 \<Longrightarrow> rnd_rat (of_int n) = of_int n"
  by (rule rnd_rat_exact [where e = 0]) simp_all

lemma rnd_rat_numeral [simp]: "(numeral w :: int) \<le> 2 ^ 53 \<Longrightarrow> rnd_rat (numeral w) = numeral w"
  using rnd_rat_of_int [of "numeral w"] by simp

lemma rnd_rat_one [simp]: "rnd_rat 1 = 1"
  using rnd_rat_of_int [of 1] by simp

text \<open>The error of one rounding: half a unit in the last place.\<close>

lemma rnd_rat_error: "\<bar>rnd_rat x - x\<bar> \<le> \<bar>x\<bar> / 2 ^ 53 + 1 / 2 ^ 1075"
proof (cases "x = 0")
  case False
  let ?p = "(2::rat) powi ulp_exp x"
  have "rnd_rat x - x = (of_int (rne (x / ?p)) - x / ?p) * ?p"
    using False by (simp add: rnd_rat_def left_diff_distrib)
  then have "\<bar>rnd_rat x - x\<bar> = \<bar>of_int (rne (x / ?p)) - x / ?p\<bar> * ?p"
    by (simp add: abs_mult)
  also have "\<dots> \<le> 1 / 2 * ?p"
    by (intro mult_right_mono rne_error) simp
  also have "?p \<le> 2 powi (ilog2 \<bar>x\<bar> - 52) + 2 powi (- 1074)"
    by (simp add: ulp_exp_def max_def add_increasing add_increasing2)
  also have "(2::rat) powi (ilog2 \<bar>x\<bar> - 52) = 2 powi ilog2 \<bar>x\<bar> / 2 ^ 52"
    by (simp add: power_int_diff)
  also have "2 powi ilog2 \<bar>x\<bar> \<le> \<bar>x\<bar>" using False by (intro ilog2_bounds) simp
  finally show ?thesis by (simp add: power_int_minus_divide field_simps)
qed simp

section \<open>The number type and its operations\<close>

datatype number = NaN | PInf | NInf | Fin rat

definition rnd :: "rat \<Rightarrow> number" where
  "rnd x = (let y = rnd_rat x in
     if 2 ^ 1024 \<le> y then PInf else if y \<le> - (2 ^ 1024) then NInf else Fin y)"

text \<open>A numeric literal of the source, and an integer (a count, a length) used as a number.\<close>

definition lit :: "rat \<Rightarrow> number" where
  "lit r = rnd r"

definition num_of_int :: "int \<Rightarrow> number" where
  "num_of_int n = rnd (of_int n)"

fun js_neg :: "number \<Rightarrow> number" where
  "js_neg NaN = NaN"
| "js_neg PInf = NInf"
| "js_neg NInf = PInf"
| "js_neg (Fin a) = Fin (- a)"

fun js_add :: "number \<Rightarrow> number \<Rightarrow> number" where
  "js_add NaN _ = NaN"
| "js_add _ NaN = NaN"
| "js_add PInf NInf = NaN"
| "js_add NInf PInf = NaN"
| "js_add PInf _ = PInf"
| "js_add _ PInf = PInf"
| "js_add NInf _ = NInf"
| "js_add _ NInf = NInf"
| "js_add (Fin a) (Fin b) = rnd (a + b)"

definition signed_inf :: "bool \<Rightarrow> number" where
  "signed_inf pos = (if pos then PInf else NInf)"

fun js_mul :: "number \<Rightarrow> number \<Rightarrow> number" where
  "js_mul NaN _ = NaN"
| "js_mul _ NaN = NaN"
| "js_mul (Fin a) (Fin b) = rnd (a * b)"
| "js_mul (Fin a) y = (if a = 0 then NaN else signed_inf ((0 < a) = (y = PInf)))"
| "js_mul x (Fin b) = (if b = 0 then NaN else signed_inf ((x = PInf) = (0 < b)))"
| "js_mul x y = signed_inf (x = y)"

text \<open>A zero divisor counts as the positive zero.\<close>

fun js_div :: "number \<Rightarrow> number \<Rightarrow> number" where
  "js_div NaN _ = NaN"
| "js_div _ NaN = NaN"
| "js_div (Fin a) (Fin b) =
     (if b = 0 then (if a = 0 then NaN else signed_inf (0 < a)) else rnd (a / b))"
| "js_div (Fin a) _ = Fin 0"
| "js_div x (Fin b) = signed_inf ((x = PInf) = (0 \<le> b))"
| "js_div _ _ = NaN"

fun js_less :: "number \<Rightarrow> number \<Rightarrow> bool" where
  "js_less NaN _ = False"
| "js_less _ NaN = False"
| "js_less (Fin a) (Fin b) = (a < b)"
| "js_less x y = (x \<noteq> y \<and> (x = NInf \<or> y = PInf))"

fun js_le :: "number \<Rightarrow> number \<Rightarrow> bool" where
  "js_le NaN _ = False"
| "js_le _ NaN = False"
| "js_le (Fin a) (Fin b) = (a \<le> b)"
| "js_le x y = (x = y \<or> x = NInf \<or> y = PInf)"

text \<open>
  The operators of the source are the HOL operators at this type: \<open>+ - * /\<close> round, and the
  comparisons with a \<open>NaN\<close> are false.
\<close>

instantiation number :: "{zero, one, plus, minus, uminus, times, inverse, ord}"
begin
definition zero_number :: number where "0 = Fin 0"
definition one_number :: number where "1 = Fin 1"
definition plus_number :: "number \<Rightarrow> number \<Rightarrow> number" where "x + y = js_add x y"
definition uminus_number :: "number \<Rightarrow> number" where "- x = js_neg x"
definition minus_number :: "number \<Rightarrow> number \<Rightarrow> number" where "x - y = js_add x (js_neg y)"
definition times_number :: "number \<Rightarrow> number \<Rightarrow> number" where "x * y = js_mul x y"
definition divide_number :: "number \<Rightarrow> number \<Rightarrow> number" where "x div y = js_div x y"
definition inverse_number :: "number \<Rightarrow> number" where "inverse x = js_div (Fin 1) x"
definition less_number :: "number \<Rightarrow> number \<Rightarrow> bool" where "x < y = js_less x y"
definition less_eq_number :: "number \<Rightarrow> number \<Rightarrow> bool" where "x \<le> y = js_le x y"
instance ..
end

lemmas number_op_defs = plus_number_def uminus_number_def minus_number_def times_number_def
  divide_number_def inverse_number_def less_number_def less_eq_number_def
  zero_number_def one_number_def

fun isFinite :: "number \<Rightarrow> bool" where
  "isFinite (Fin _) = True"
| "isFinite _ = False"

text \<open>\<open>===\<close> on numbers, and the truthiness test \<open>if (x)\<close>.\<close>

definition js_eq :: "number \<Rightarrow> number \<Rightarrow> bool" where
  "js_eq x y \<longleftrightarrow> x \<noteq> NaN \<and> x = y"

definition truthy :: "number \<Rightarrow> bool" where
  "truthy x \<longleftrightarrow> x \<noteq> NaN \<and> x \<noteq> Fin 0"

fun Math_round :: "number \<Rightarrow> number" where
  "Math_round (Fin a) = Fin (of_int \<lfloor>a + 1 / 2\<rfloor>)"
| "Math_round x = x"

fun Math_floor :: "number \<Rightarrow> number" where
  "Math_floor (Fin a) = Fin (of_int \<lfloor>a\<rfloor>)"
| "Math_floor x = x"

fun Math_ceil :: "number \<Rightarrow> number" where
  "Math_ceil (Fin a) = Fin (of_int \<lceil>a\<rceil>)"
| "Math_ceil x = x"

fun Math_abs :: "number \<Rightarrow> number" where
  "Math_abs (Fin a) = Fin \<bar>a\<bar>"
| "Math_abs NInf = PInf"
| "Math_abs x = x"

definition Math_max :: "number \<Rightarrow> number \<Rightarrow> number" where
  "Math_max x y = (if x = NaN \<or> y = NaN then NaN else if x < y then y else x)"

definition Math_min :: "number \<Rightarrow> number \<Rightarrow> number" where
  "Math_min x y = (if x = NaN \<or> y = NaN then NaN else if y < x then y else x)"

text \<open>
  \<open>10 ** d\<close>: exact for the non-negative exponents in use (at most 22 digits); for negative
  ones the standard leaves the last bit to the engine and the nearest value is taken.
\<close>

definition pow10 :: "int \<Rightarrow> number" where
  "pow10 d = rnd (10 powi d)"

section \<open>Evaluation of closed terms by the simplifier\<close>

lemma bitlen_numeral [simp]:
  "bitlen (numeral (Num.Bit0 w)) = bitlen (numeral w) + 1"
  "bitlen (numeral (Num.Bit1 w)) = bitlen (numeral w) + 1"
  by (subst compute_bitlen, simp)+

lemma rat_floor_eval [simp]:
  "\<lfloor>numeral a / numeral b :: rat\<rfloor> = numeral a div numeral b"
  "\<lfloor>1 / numeral b :: rat\<rfloor> = 1 div numeral b"
  "\<lfloor>- (numeral a / numeral b) :: rat\<rfloor> = (- numeral a) div numeral b"
  "\<lfloor>- (1 / numeral b) :: rat\<rfloor> = (- 1) div numeral b"
  using floor_divide_of_int_eq [where 'a = rat, of "numeral a" "numeral b"]
    floor_divide_of_int_eq [where 'a = rat, of 1 "numeral b"]
    floor_divide_of_int_eq [where 'a = rat, of "- numeral a" "numeral b"]
    floor_divide_of_int_eq [where 'a = rat, of "- 1" "numeral b"]
  by simp_all

lemma rat_ceiling_eval [simp]:
  "\<lceil>numeral a / numeral b :: rat\<rceil> = - (- numeral a div numeral b)"
  "\<lceil>- (numeral a / numeral b) :: rat\<rceil> = - (numeral a div numeral b)"
  "\<lceil>1 / numeral b :: rat\<rceil> = - (- 1 div numeral b)"
  by (simp_all add: ceiling_def)

lemmas js_eval = number_op_defs rnd_def rnd_rat_def ulp_exp_def ilog2_def rne_def Let_def
  lit_def num_of_int_def Math_max_def Math_min_def js_eq_def truthy_def pow10_def

section \<open>Order and rounding\<close>

lemma Fin_arith [simp]:
  "Fin a + Fin b = rnd (a + b)" "Fin a - Fin b = rnd (a - b)" "Fin a * Fin b = rnd (a * b)"
  "- Fin a = Fin (- a)" "b \<noteq> 0 \<Longrightarrow> Fin a / Fin b = rnd (a / b)"
  by (simp_all add: number_op_defs)

lemma Fin_order [simp]:
  "Fin a \<le> Fin b \<longleftrightarrow> a \<le> b" "Fin a < Fin b \<longleftrightarrow> a < b" "0 = Fin 0" "1 = Fin 1"
  by (simp_all add: number_op_defs)

lemma NaN_order [simp]:
  "\<not> NaN \<le> x" "\<not> x \<le> NaN" "\<not> NaN < x" "\<not> x < NaN"
  by (cases x; simp add: number_op_defs)+

lemma inf_order [simp]:
  "x \<le> PInf \<longleftrightarrow> x \<noteq> NaN" "NInf \<le> x \<longleftrightarrow> x \<noteq> NaN" "PInf \<le> x \<longleftrightarrow> x = PInf" "x \<le> NInf \<longleftrightarrow> x = NInf"
  "\<not> PInf < x" "\<not> x < NInf" "x < PInf \<longleftrightarrow> x \<noteq> NaN \<and> x \<noteq> PInf" "NInf < x \<longleftrightarrow> x \<noteq> NaN \<and> x \<noteq> NInf"
  by (cases x; simp add: number_op_defs)+

lemma number_le_refl [simp]: "x \<le> x \<longleftrightarrow> x \<noteq> NaN" for x :: number
  by (cases x) simp_all

lemma number_less_irrefl [simp]: "\<not> x < x" for x :: number
  by (cases x) simp_all

lemma number_le_trans [trans]: "x \<le> y \<Longrightarrow> y \<le> z \<Longrightarrow> x \<le> z" for x y z :: number
  by (cases x; cases y; cases z) simp_all

lemma number_less_le_trans [trans]: "x < y \<Longrightarrow> y \<le> z \<Longrightarrow> x < z" for x y z :: number
  by (cases x; cases y; cases z) simp_all

lemma number_le_less_trans [trans]: "x \<le> y \<Longrightarrow> y < z \<Longrightarrow> x < z" for x y z :: number
  by (cases x; cases y; cases z) simp_all

lemma number_le_antisym: "x \<le> y \<Longrightarrow> y \<le> x \<Longrightarrow> x = y" for x y :: number
  by (cases x; cases y) simp_all

lemma number_not_le: "x \<noteq> NaN \<Longrightarrow> y \<noteq> NaN \<Longrightarrow> \<not> x \<le> y \<longleftrightarrow> y < x" for x y :: number
  by (cases x; cases y) auto

lemma number_not_less: "x \<noteq> NaN \<Longrightarrow> y \<noteq> NaN \<Longrightarrow> \<not> x < y \<longleftrightarrow> y \<le> x" for x y :: number
  by (cases x; cases y) auto

lemma number_less_imp_le: "x < y \<Longrightarrow> x \<le> y" for x y :: number
  by (cases x; cases y) simp_all

lemma number_le_not_NaN: "x \<le> y \<Longrightarrow> x \<noteq> NaN \<and> y \<noteq> NaN" for x y :: number
  by auto

lemma rnd_not_NaN [simp]: "rnd x \<noteq> NaN"
  by (simp add: rnd_def Let_def)

lemma rnd_mono: "x \<le> y \<Longrightarrow> rnd x \<le> rnd y"
  using rnd_rat_mono [of x y] by (auto simp: rnd_def Let_def)

lemma rnd_minus: "rnd (- x) = - rnd x"
  by (auto simp: rnd_def Let_def rnd_rat_minus uminus_number_def)

lemma rnd_small: "\<bar>x\<bar> \<le> 2 ^ 1000 \<Longrightarrow> rnd x = Fin (rnd_rat x)"
proof -
  assume x: "\<bar>x\<bar> \<le> 2 ^ 1000"
  have "rnd_rat (2 ^ 1000) = 2 ^ 1000"
    by (rule rnd_rat_exact [where m = 1 and e = 1000]) simp_all
  moreover have "rnd_rat x \<le> rnd_rat (2 ^ 1000)" "rnd_rat (- (2 ^ 1000)) \<le> rnd_rat x"
    using x by (auto intro: rnd_rat_mono simp: abs_le_iff)
  ultimately have "\<bar>rnd_rat x\<bar> \<le> 2 ^ 1000" by (simp add: rnd_rat_minus abs_le_iff)
  then show ?thesis by (auto simp: rnd_def Let_def)
qed

lemma rnd_of_int: "\<bar>n\<bar> \<le> 2 ^ 53 \<Longrightarrow> rnd (of_int n) = Fin (of_int n)"
proof -
  assume n: "\<bar>n\<bar> \<le> 2 ^ 53"
  then have "of_int \<bar>n\<bar> \<le> (of_int (2 ^ 53) :: rat)" by (rule of_int_le_iff [THEN iffD2])
  then have "\<bar>of_int n :: rat\<bar> \<le> 2 ^ 1000" by simp
  with n show ?thesis by (simp add: rnd_small)
qed

lemma rnd_numeral [simp]: "rnd 0 = Fin 0" "rnd 1 = Fin 1"
  "(numeral w :: int) \<le> 2 ^ 53 \<Longrightarrow> rnd (numeral w) = Fin (numeral w)"
  using rnd_of_int [of 0] rnd_of_int [of 1] rnd_of_int [of "numeral w"] by simp_all

lemma lit_numeral [simp]: "lit 0 = Fin 0" "lit 1 = Fin 1" "lit (- 1) = Fin (- 1)"
  "(numeral w :: int) \<le> 2 ^ 53 \<Longrightarrow> lit (numeral w) = Fin (numeral w)"
  by (simp_all add: lit_def rnd_minus)

lemma isFinite_iff: "isFinite x \<longleftrightarrow> (\<exists>a. x = Fin a)"
  by (cases x) simp_all

lemma Math_max_le [simp]: "x \<noteq> NaN \<Longrightarrow> y \<noteq> NaN \<Longrightarrow> x \<le> Math_max x y \<and> y \<le> Math_max x y"
  by (cases x; cases y) (auto simp: Math_max_def)

lemma Math_min_le [simp]: "x \<noteq> NaN \<Longrightarrow> y \<noteq> NaN \<Longrightarrow> Math_min x y \<le> x \<and> Math_min x y \<le> y"
  by (cases x; cases y) (auto simp: Math_min_def)

lemma Math_max_Fin [simp]: "Math_max (Fin a) (Fin b) = Fin (max a b)"
  by (simp add: Math_max_def max_def)

lemma Math_min_Fin [simp]: "Math_min (Fin a) (Fin b) = Fin (min a b)"
  by (simp add: Math_min_def min_def)

end
