(* ===== verification/Money.thy ===== *)
theory Money
  imports JsNumber
begin

text \<open>
  Money in the platform (\<open>src/lib/services/calculations.ts\<close>, \<open>roundCurrency\<close> and the two drawdown
  percentages): amounts are binary64 numbers that every persistence boundary rounds to cents.
  \<open>cents n\<close> is the number the code holds for an amount of \<open>n\<close> cents; the lemmas of this theory
  show that, below \<open>2 ^ 47\<close> cents, rounding, adding, subtracting and comparing such numbers is
  exact integer arithmetic on cents.
\<close>

section \<open>roundCurrency\<close>

definition roundCurrency :: "number \<Rightarrow> number" where
  "roundCurrency value =
     (let sign = (if value < lit 0 then lit (- 1) else lit 1)
      in (sign * Math_round (Math_abs value * lit 100)) / lit 100)"

definition currentDrawdownPercent :: "number \<Rightarrow> number \<Rightarrow> number" where
  "currentDrawdownPercent highWaterMark equity =
     (if highWaterMark \<le> lit 0 then lit 0
      else Math_max (lit 0) (((highWaterMark - equity) / highWaterMark) * lit 100))"

definition dailyDrawdownPercent :: "number \<Rightarrow> number \<Rightarrow> number" where
  "dailyDrawdownPercent dailyAnchorBalance equity =
     (if dailyAnchorBalance \<le> lit 0 then lit 0
      else Math_max (lit 0) (((dailyAnchorBalance - equity) / dailyAnchorBalance) * lit 100))"

text \<open>The number that stands for an amount of \<open>n\<close> cents: the nearest one to \<open>n / 100\<close>.\<close>

definition cents :: "int \<Rightarrow> number" where
  "cents n = rnd (of_int n / 100)"

text \<open>Amounts for which cent arithmetic is exact: up to about 1.4 trillion ETB.\<close>

definition money_ok :: "int \<Rightarrow> bool" where
  "money_ok n \<longleftrightarrow> \<bar>n\<bar> \<le> 2 ^ 47"

section \<open>Sign and order\<close>

lemma inf_scale [simp]:
  "0 < c \<Longrightarrow> PInf * Fin c = PInf" "0 < c \<Longrightarrow> NInf * Fin c = NInf" "NaN * x = NaN"
  "0 < c \<Longrightarrow> Fin c * PInf = PInf" "0 < c \<Longrightarrow> Fin c * NInf = NInf"
  "c < 0 \<Longrightarrow> Fin c * PInf = NInf" "c < 0 \<Longrightarrow> Fin c * NInf = PInf" "x * NaN = NaN"
  "0 < c \<Longrightarrow> PInf / Fin c = PInf" "0 < c \<Longrightarrow> NInf / Fin c = NInf" "NaN / x = NaN"
  by (cases x; simp add: number_op_defs signed_inf_def)+

lemma mult_pos_mono: "0 < c \<Longrightarrow> x \<le> y \<Longrightarrow> x * Fin c \<le> y * Fin c"
  by (cases x; cases y) (auto intro: rnd_mono)

lemma div_pos_mono: "0 < c \<Longrightarrow> x \<le> y \<Longrightarrow> x / Fin c \<le> y / Fin c"
  by (cases x; cases y) (auto intro!: rnd_mono divide_right_mono)

lemma lit_mult_mono: "0 < c \<Longrightarrow> x \<le> y \<Longrightarrow> Fin c * x \<le> Fin c * y"
  by (cases x; cases y) (auto intro: rnd_mono)

lemma Math_round_mono: "x \<le> y \<Longrightarrow> Math_round x \<le> Math_round y"
  by (cases x; cases y) (auto intro: floor_mono)

text \<open>The unsigned part of \<open>roundCurrency\<close>.\<close>

definition roundAbs :: "number \<Rightarrow> number" where
  "roundAbs v = (Fin 1 * Math_round (v * Fin 100)) / Fin 100"

lemma roundAbs_mono: "x \<le> y \<Longrightarrow> roundAbs x \<le> roundAbs y"
  unfolding roundAbs_def by (intro div_pos_mono lit_mult_mono Math_round_mono mult_pos_mono) simp_all

lemma roundAbs_nonneg: "Fin 0 \<le> x \<Longrightarrow> Fin 0 \<le> roundAbs x"
  using roundAbs_mono [of "Fin 0" x] by (simp add: roundAbs_def)

lemma number_minus_minus [simp]: "- (- x) = x" for x :: number
  by (cases x) (simp_all add: uminus_number_def)

lemma number_minus_le: "- x \<le> - y \<longleftrightarrow> y \<le> x" for x y :: number
  by (cases x; cases y) (auto simp: uminus_number_def less_eq_number_def)

lemma number_minus_div: "c \<noteq> 0 \<Longrightarrow> - x / Fin c = - (x / Fin c)"
  by (cases x) (auto simp: number_op_defs signed_inf_def rnd_minus minus_divide_left [symmetric])

lemma minus_lit_mult: "Fin (- 1) * x = - (Fin 1 * x)"
  by (cases x) (simp_all add: number_op_defs signed_inf_def rnd_minus)

lemma roundCurrency_nonneg: "Fin 0 \<le> x \<Longrightarrow> roundCurrency x = roundAbs x"
  by (cases x) (auto simp: roundCurrency_def roundAbs_def)

lemma roundCurrency_neg: "x < Fin 0 \<Longrightarrow> roundCurrency x = - roundAbs (- x)"
proof -
  assume x: "x < Fin 0"
  then have "Math_abs x = - x" by (cases x) (auto simp: uminus_number_def)
  with x show ?thesis
    by (simp add: roundCurrency_def roundAbs_def minus_lit_mult number_minus_div)
qed

lemma roundAbs_0: "roundAbs (Fin 0) = Fin 0"
  by (simp add: roundAbs_def)

text \<open>Rounding treats gains and losses alike and keeps the order of amounts.\<close>

lemma roundCurrency_minus: "roundCurrency (- x) = - roundCurrency x"
proof -
  consider "x = NaN" | "x < Fin 0" | "x = Fin 0" | "Fin 0 < x"
    by (cases x) (auto intro: linorder_cases)
  then show ?thesis
  proof cases
    case 1
    then show ?thesis by (simp add: roundCurrency_def uminus_number_def)
  next
    case 2
    then have "Fin 0 \<le> - x" by (cases x) (auto simp: uminus_number_def)
    with 2 show ?thesis by (simp add: roundCurrency_nonneg roundCurrency_neg)
  next
    case 3
    then show ?thesis by (simp add: roundCurrency_nonneg roundAbs_0)
  next
    case 4
    then have "- x < Fin 0" by (cases x) (auto simp: uminus_number_def)
    with 4 show ?thesis by (simp add: roundCurrency_nonneg roundCurrency_neg number_less_imp_le)
  qed
qed

lemma roundCurrency_sign: "Fin 0 \<le> x \<Longrightarrow> Fin 0 \<le> roundCurrency x"
  by (simp add: roundCurrency_nonneg roundAbs_nonneg)

lemma roundCurrency_mono: "x \<le> y \<Longrightarrow> roundCurrency x \<le> roundCurrency y"
proof -
  assume xy: "x \<le> y"
  consider "Fin 0 \<le> x" | "x < Fin 0" "Fin 0 \<le> y" | "y < Fin 0"
    using xy by (metis number_le_not_NaN number_not_le number.distinct(5))
  then show ?thesis
  proof cases
    case 1
    moreover have "Fin 0 \<le> y" using 1 xy by (rule number_le_trans)
    ultimately show ?thesis by (simp add: roundCurrency_nonneg roundAbs_mono xy)
  next
    case 2
    then have "Fin 0 \<le> - x" by (cases x) (auto simp: uminus_number_def)
    then have "Fin 0 \<le> - roundCurrency x" using roundCurrency_sign [of "- x"] by (simp add: roundCurrency_minus)
    then have "roundCurrency x \<le> Fin 0" by (cases "roundCurrency x") (auto simp: uminus_number_def)
    also have "Fin 0 \<le> roundCurrency y" using 2 by (simp add: roundCurrency_sign)
    finally show ?thesis .
  next
    case 3
    then have "x < Fin 0" using xy by (metis number_le_less_trans)
    moreover have "roundAbs (- y) \<le> roundAbs (- x)"
      by (rule roundAbs_mono) (simp add: number_minus_le xy)
    ultimately show ?thesis using 3 by (simp add: roundCurrency_neg number_minus_le)
  qed
qed

lemma roundCurrency_not_NaN: "x \<noteq> NaN \<Longrightarrow> roundCurrency x \<noteq> NaN"
  using roundCurrency_mono [of x x] by (cases "roundCurrency x") auto

section \<open>Cent amounts\<close>

text \<open>The error of one operation on amounts below \<open>2 ^ 42\<close> ETB is far below a tenth of a cent.\<close>

lemma tiny: "1 / 2 ^ 1075 \<le> (1 / 100000 :: rat)"
  by simp

lemma rnd_money:
  assumes "\<bar>v\<bar> \<le> 2 ^ 42"
  obtains v' where "rnd v = Fin v'" and "\<bar>v' - v\<bar> \<le> 1 / 2000"
proof -
  have "\<bar>v\<bar> \<le> 2 ^ 1000" by (rule order_trans [OF assms]) simp
  then have 1: "rnd v = Fin (rnd_rat v)" by (rule rnd_small)
  have "\<bar>v\<bar> / 2 ^ 53 \<le> 2 ^ 42 / 2 ^ 53" using assms by (rule divide_right_mono) simp
  also have "\<dots> = (1 / 2048 :: rat)" by simp
  finally have "\<bar>rnd_rat v - v\<bar> \<le> 1 / 2048 + 1 / 100000"
    using rnd_rat_error [of v] tiny by linarith
  then have "\<bar>rnd_rat v - v\<bar> \<le> 1 / 2000" by simp
  with 1 show thesis by (rule that)
qed

lemma money_ok_bound: "money_ok n \<Longrightarrow> \<bar>of_int n / 100 :: rat\<bar> \<le> 2 ^ 41"
proof -
  assume "money_ok n"
  then have "of_int \<bar>n\<bar> \<le> (of_int (2 ^ 47) :: rat)" unfolding money_ok_def by (rule of_int_le_iff [THEN iffD2])
  then show ?thesis by (simp add: abs_le_iff)
qed

lemma cents_near:
  assumes "money_ok n"
  obtains c where "cents n = Fin c" and "\<bar>c - of_int n / 100\<bar> \<le> 1 / 2000"
proof -
  have "\<bar>of_int n / 100 :: rat\<bar> \<le> 2 ^ 42" using money_ok_bound [OF assms] by simp
  then obtain c where "rnd (of_int n / 100) = Fin c" and "\<bar>c - of_int n / 100\<bar> \<le> 1 / 2000"
    by (rule rnd_money)
  then show thesis by (intro that [of c]) (simp_all add: cents_def)
qed

lemma cents_0 [simp]: "cents 0 = Fin 0"
  by (simp add: cents_def)

lemma cents_minus: "cents (- n) = - cents n"
  using rnd_minus [of "of_int n / 100"] by (simp add: cents_def)

lemma cents_mono: "m \<le> n \<Longrightarrow> cents m \<le> cents n"
  by (simp add: cents_def rnd_mono divide_right_mono)

lemma roundAbs_near:
  assumes n: "0 \<le> n" "n \<le> 2 ^ 48" and x: "0 \<le> x" "\<bar>x - of_int n / 100\<bar> \<le> 1 / 400"
  shows "roundAbs (Fin x) = cents n"
proof -
  have "of_int n \<le> (of_int (2 ^ 48) :: rat)" using n(2) by (rule of_int_le_iff [THEN iffD2])
  then have "of_int n \<le> (281474976710656 :: rat)" by simp
  then have x': "\<bar>x * 100 - of_int n\<bar> \<le> 1 / 4" "x * 100 \<le> 281474976710656 + 1 / 4" "0 \<le> x * 100"
    using x by linarith+
  have "\<bar>x * 100\<bar> \<le> 2 ^ 1000" by (rule order_trans [of _ "281474976710656 + 1 / 4"]) (use x' in simp_all)
  then have r: "rnd (x * 100) = Fin (rnd_rat (x * 100))" by (rule rnd_small)
  have "\<bar>x * 100\<bar> / 2 ^ 53 \<le> (281474976710656 + 1 / 4) / 2 ^ 53" using x' by (intro divide_right_mono) simp_all
  also have "\<dots> \<le> (1 / 10 :: rat)" by simp
  finally have e: "\<bar>rnd_rat (x * 100) - x * 100\<bar> \<le> 1 / 10 + 1 / 100000"
    using rnd_rat_error [of "x * 100"] tiny by linarith
  have "\<lfloor>rnd_rat (x * 100) + 1 / 2\<rfloor> = n"
    using e x'(1) by (intro floor_unique; linarith)
  moreover have "rnd (of_int n) = Fin (of_int n)" using n by (intro rnd_of_int) simp
  ultimately show ?thesis by (simp add: roundAbs_def r cents_def)
qed

text \<open>
  The rounding lemma everything else rests on: a number within a quarter of a cent of \<open>n\<close> cents
  is rounded to exactly \<open>n\<close> cents.
\<close>

lemma roundCurrency_near:
  assumes n: "\<bar>n\<bar> \<le> 2 ^ 48" and x: "\<bar>x - of_int n / 100\<bar> \<le> 1 / 400"
  shows "roundCurrency (Fin x) = cents n"
proof (cases "0 \<le> x")
  case True
  have "- 1 < (of_int n :: rat)" using x True by linarith
  then have "0 \<le> n" by linarith
  then show ?thesis using True roundAbs_near [of n x] n x by (simp add: roundCurrency_nonneg)
next
  case False
  have "(of_int n :: rat) < 1" using x False by linarith
  then have "n \<le> 0" by simp
  moreover have "\<bar>- x - of_int (- n) / 100\<bar> \<le> 1 / 400"
    using x by (simp add: abs_minus_commute)
  ultimately have "roundAbs (Fin (- x)) = cents (- n)"
    using False n by (intro roundAbs_near) simp_all
  then show ?thesis using False by (simp add: roundCurrency_neg cents_minus)
qed

section \<open>Exact arithmetic on cents\<close>

lemma of_int_cents_add: "of_int (a + b) / 100 = (of_int a / 100 + of_int b / 100 :: rat)"
  by (simp add: add_divide_distrib)

lemma roundCurrency_cents [money_simps]: "money_ok n \<Longrightarrow> roundCurrency (cents n) = cents n"
proof -
  assume n: "money_ok n"
  then obtain c where c: "cents n = Fin c" "\<bar>c - of_int n / 100\<bar> \<le> 1 / 2000" by (rule cents_near)
  have "roundCurrency (Fin c) = cents n"
    using n c(2) by (intro roundCurrency_near) (simp_all add: money_ok_def)
  with c(1) show ?thesis by simp
qed

lemma cents_add_near:
  assumes "money_ok a" and "money_ok b"
  obtains v where "cents a + cents b = Fin v" and "\<bar>v - of_int (a + b) / 100\<bar> \<le> 3 / 2000"
proof -
  obtain ca where a: "cents a = Fin ca" "\<bar>ca - of_int a / 100\<bar> \<le> 1 / 2000"
    using assms(1) by (rule cents_near)
  obtain cb where b: "cents b = Fin cb" "\<bar>cb - of_int b / 100\<bar> \<le> 1 / 2000"
    using assms(2) by (rule cents_near)
  have "\<bar>of_int a / 100 :: rat\<bar> \<le> 2199023255552 / 10 * 9" "\<bar>of_int b / 100 :: rat\<bar> \<le> 2199023255552 / 10 * 9"
    using assms by (simp_all add: money_ok_def abs_le_iff)
  then have "\<bar>ca + cb\<bar> \<le> 4398046511104" using a(2) b(2) by linarith
  then have "\<bar>ca + cb\<bar> \<le> 2 ^ 42" by simp
  then obtain v where v: "rnd (ca + cb) = Fin v" "\<bar>v - (ca + cb)\<bar> \<le> 1 / 2000"
    by (rule rnd_money)
  have "\<bar>v - of_int (a + b) / 100\<bar> \<le> 3 / 2000"
    unfolding of_int_cents_add using v(2) a(2) b(2) by linarith
  with a(1) b(1) v(1) show thesis by (intro that [of v]) simp_all
qed

text \<open>Rounding the sum of two cent amounts gives their exact sum, whatever their binary errors.\<close>

lemma roundCurrency_add [money_simps]:
  "money_ok a \<Longrightarrow> money_ok b \<Longrightarrow> roundCurrency (cents a + cents b) = cents (a + b)"
proof -
  assume ab: "money_ok a" "money_ok b"
  then obtain v where v: "cents a + cents b = Fin v" "\<bar>v - of_int (a + b) / 100\<bar> \<le> 3 / 2000"
    by (rule cents_add_near)
  have "\<bar>a + b\<bar> \<le> 2 ^ 48" using ab by (simp add: money_ok_def abs_le_iff)
  then have "roundCurrency (Fin v) = cents (a + b)"
    using v(2) by (intro roundCurrency_near) simp_all
  with v(1) show ?thesis by simp
qed

lemma number_diff_eq: "x - y = x + - y" for x y :: number
  by (simp add: minus_number_def plus_number_def uminus_number_def)

lemma money_ok_minus [simp]: "money_ok (- n) = money_ok n"
  by (simp add: money_ok_def)

lemma money_ok_0 [simp]: "money_ok 0"
  by (simp add: money_ok_def)

lemma roundCurrency_diff [money_simps]:
  "money_ok a \<Longrightarrow> money_ok b \<Longrightarrow> roundCurrency (cents a - cents b) = cents (a - b)"
  using roundCurrency_add [of a "- b"] by (simp add: number_diff_eq cents_minus)

lemma cents_add_diff_near:
  assumes "money_ok a" "money_ok b" "money_ok c" "money_ok (a - b)"
  shows "roundCurrency (cents a - cents b - cents c) = cents (a - b - c)"
proof -
  obtain v where v: "cents a + cents (- b) = Fin v" "\<bar>v - of_int (a + - b) / 100\<bar> \<le> 3 / 2000"
    using assms(1,2) cents_add_near [of a "- b"] by auto
  obtain cc where c: "cents (- c) = Fin cc" "\<bar>cc - of_int (- c) / 100\<bar> \<le> 1 / 2000"
    using assms(3) cents_near [of "- c"] by auto
  have "\<bar>of_int (a + - b) / 100 :: rat\<bar> \<le> 2199023255552 / 10 * 9" "\<bar>of_int (- c) / 100 :: rat\<bar> \<le> 2199023255552 / 10 * 9"
    using assms by (simp_all add: money_ok_def abs_le_iff)
  then have "\<bar>v + cc\<bar> \<le> 4398046511104" using v(2) c(2) by linarith
  then have "\<bar>v + cc\<bar> \<le> 2 ^ 42" by simp
  then obtain w where w: "rnd (v + cc) = Fin w" "\<bar>w - (v + cc)\<bar> \<le> 1 / 2000"
    by (rule rnd_money)
  have e: "of_int (a - b - c) / 100 = (of_int (a + - b) / 100 + of_int (- c) / 100 :: rat)"
    by (simp add: of_int_cents_add [symmetric])
  have "\<bar>w - of_int (a - b - c) / 100\<bar> \<le> 1 / 400"
    unfolding e using w(2) v(2) c(2) by linarith
  moreover have "\<bar>a - b - c\<bar> \<le> 2 ^ 48" using assms by (simp add: money_ok_def abs_le_iff)
  ultimately have "roundCurrency (Fin w) = cents (a - b - c)" by (intro roundCurrency_near)
  moreover have "cents a - cents b - cents c = Fin w"
    using v(1) c(1) w(1) by (simp add: number_diff_eq cents_minus)
  ultimately show ?thesis by simp
qed

text \<open>Comparisons of cent amounts are comparisons of the integers.\<close>

lemma cents_inj: "money_ok a \<Longrightarrow> money_ok b \<Longrightarrow> cents a = cents b \<longleftrightarrow> a = b"
proof
  assume ab: "money_ok a" "money_ok b" and eq: "cents a = cents b"
  obtain ca where a: "cents a = Fin ca" "\<bar>ca - of_int a / 100\<bar> \<le> 1 / 2000"
    using ab(1) by (rule cents_near)
  obtain cb where b: "cents b = Fin cb" "\<bar>cb - of_int b / 100\<bar> \<le> 1 / 2000"
    using ab(2) by (rule cents_near)
  have "ca = cb" using eq a(1) b(1) by simp
  then have "\<bar>of_int a - of_int b :: rat\<bar> < 1" using a(2) b(2) by linarith
  then show "a = b" by linarith
qed simp

lemma cents_le_iff [money_simps]: "money_ok a \<Longrightarrow> money_ok b \<Longrightarrow> cents a \<le> cents b \<longleftrightarrow> a \<le> b"
  by (metis cents_inj cents_mono linear number_le_antisym)

lemma cents_not_NaN [simp]: "cents n \<noteq> NaN"
  by (simp add: cents_def)

lemma cents_less_iff [money_simps]: "money_ok a \<Longrightarrow> money_ok b \<Longrightarrow> cents a < cents b \<longleftrightarrow> a < b"
  by (metis cents_le_iff cents_not_NaN number_not_le not_le)

lemma cents_pos_iff [money_simps]:
  "money_ok a \<Longrightarrow> Fin 0 < cents a \<longleftrightarrow> 0 < a" "money_ok a \<Longrightarrow> cents a < Fin 0 \<longleftrightarrow> a < 0"
  "money_ok a \<Longrightarrow> Fin 0 \<le> cents a \<longleftrightarrow> 0 \<le> a" "money_ok a \<Longrightarrow> cents a \<le> Fin 0 \<longleftrightarrow> a \<le> 0"
  "money_ok a \<Longrightarrow> cents a = Fin 0 \<longleftrightarrow> a = 0"
  using cents_less_iff [of 0 a] cents_less_iff [of a 0] cents_le_iff [of 0 a] cents_le_iff [of a 0]
    cents_inj [of a 0] by simp_all

lemma cents_whole: "\<bar>S\<bar> \<le> 2 ^ 40 \<Longrightarrow> cents (100 * S) = Fin (of_int S)"
  by (simp add: cents_def rnd_of_int)

text \<open>
  A whole percentage of a whole amount, as the rule engine computes it
  (\<open>startingBalance * (percent / 100)\<close>), is exact to the cent although \<open>percent / 100\<close> is not a
  binary number.
\<close>

lemma roundCurrency_percent [money_simps]:
  assumes S: "\<bar>S\<bar> \<le> 2 ^ 40" and p: "\<bar>p\<bar> \<le> 2 ^ 40" and Sp: "money_ok (S * p)"
  shows "roundCurrency (Fin (of_int S) * (Fin (of_int p) / Fin 100)) = cents (S * p)"
proof -
  let ?q = "rnd_rat (of_int p / 100)"
  have "\<bar>of_int p :: rat\<bar> \<le> 1099511627776"
    using p abs_of_int_le_iff [of p 1099511627776] by simp
  then have "\<bar>of_int p / 100 :: rat\<bar> \<le> 2 ^ 1000" by (simp add: abs_le_iff)
  then have q: "rnd (of_int p / 100) = Fin ?q" by (rule rnd_small)
  have Sb: "\<bar>of_int S :: rat\<bar> \<le> 1099511627776"
    using S abs_of_int_le_iff [of S 1099511627776] by simp
  have Spb: "\<bar>of_int (S * p) / 100 :: rat\<bar> \<le> 2 ^ 41" by (rule money_ok_bound [OF Sp])
  have "\<bar>of_int S * ?q - of_int (S * p) / 100\<bar> = \<bar>of_int S\<bar> * \<bar>?q - of_int p / 100\<bar>"
    by (simp add: right_diff_distrib flip: abs_mult)
  also have "\<dots> \<le> \<bar>of_int S\<bar> * (\<bar>of_int p / 100\<bar> / 2 ^ 53 + 1 / 2 ^ 1075)"
    by (intro mult_left_mono rnd_rat_error) simp
  also have "\<dots> = \<bar>of_int (S * p) / 100\<bar> / 2 ^ 53 + \<bar>of_int S\<bar> / 2 ^ 1075"
    by (simp add: distrib_left abs_mult)
  also have "\<dots> \<le> 2 ^ 41 / 2 ^ 53 + 1099511627776 / 2 ^ 1075"
    by (intro add_mono divide_right_mono Spb Sb) simp_all
  also have "\<dots> \<le> (1 / 1000 :: rat)" by simp
  finally have e: "\<bar>of_int S * ?q - of_int (S * p) / 100\<bar> \<le> 1 / 1000" .
  have "\<bar>of_int (S * p) / 100 :: rat\<bar> \<le> 2199023255552" using Spb by simp
  then have "\<bar>of_int S * ?q\<bar> \<le> 4398046511104" using e by linarith
  then have "\<bar>of_int S * ?q\<bar> \<le> 2 ^ 42" by simp
  then obtain v where v: "rnd (of_int S * ?q) = Fin v" "\<bar>v - of_int S * ?q\<bar> \<le> 1 / 2000"
    by (rule rnd_money)
  have "\<bar>v - of_int (S * p) / 100\<bar> \<le> 1 / 400" using v(2) e by linarith
  then have "roundCurrency (Fin v) = cents (S * p)"
    using Sp by (intro roundCurrency_near) (simp_all add: money_ok_def)
  with q v(1) show ?thesis by simp
qed

text \<open>Every rounded amount is a cent amount, at most half a cent (and binary noise) away.\<close>

lemma roundCurrency_is_cents:
  assumes "\<bar>x\<bar> \<le> 2 ^ 40"
  obtains n where "money_ok n" and "roundCurrency (Fin x) = cents n" and "\<bar>x * 100 - of_int n\<bar> \<le> 3 / 4"
proof -
  let ?r = "\<lambda>y. \<lfloor>rnd_rat (y * 100) + 1 / 2\<rfloor>"
  have key: "roundAbs (Fin y) = cents (?r y) \<and> \<bar>?r y\<bar> \<le> 2 ^ 47 \<and> \<bar>y * 100 - of_int (?r y)\<bar> \<le> 3 / 4"
    if y: "0 \<le> y" "y \<le> 1099511627776" for y
  proof -
    have b: "\<bar>y * 100\<bar> \<le> 109951162777600" "0 \<le> y * 100" using y by simp_all
    then have "\<bar>y * 100\<bar> \<le> 2 ^ 1000" by (elim order_trans) simp
    then have 1: "rnd (y * 100) = Fin (rnd_rat (y * 100))" by (rule rnd_small)
    have "\<bar>y * 100\<bar> / 2 ^ 53 \<le> 109951162777600 / 2 ^ 53" by (intro divide_right_mono b) simp
    also have "\<dots> \<le> (1 / 8 :: rat)" by simp
    finally have e: "\<bar>rnd_rat (y * 100) - y * 100\<bar> \<le> 1 / 8 + 1 / 100000"
      using rnd_rat_error [of "y * 100"] tiny by linarith
    have f: "of_int (?r y) \<le> rnd_rat (y * 100) + 1 / 2" "rnd_rat (y * 100) + 1 / 2 < of_int (?r y) + 1"
      by linarith+
    then have d: "\<bar>y * 100 - of_int (?r y)\<bar> \<le> 3 / 4" using e by linarith
    then have "\<bar>of_int (?r y) :: rat\<bar> \<le> 140737488355328" using b by linarith
    then have m: "\<bar>?r y\<bar> \<le> 2 ^ 47"
      using abs_of_int_le_iff [of "?r y" 140737488355328] by simp
    then have "rnd (of_int (?r y)) = Fin (of_int (?r y))" by (intro rnd_of_int) simp
    then show ?thesis using 1 m d by (simp add: roundAbs_def cents_def)
  qed
  show thesis
  proof (cases "0 \<le> x")
    case True
    then show thesis using key [of x] assms
      by (intro that [of "?r x"]) (simp_all add: money_ok_def roundCurrency_nonneg)
  next
    case False
    have "\<bar>x * 100 - of_int (- ?r (- x))\<bar> = \<bar>- x * 100 - of_int (?r (- x))\<bar>"
      by (simp add: abs_if)
    then show thesis using False key [of "- x"] assms
      by (intro that [of "- ?r (- x)"]) (simp_all add: money_ok_def roundCurrency_neg cents_minus)
  qed
qed

section \<open>Sums of amounts\<close>

text \<open>
  The code adds amounts with plain floating-point \<open>+\<close> and rounds once at the end. For up to 2048
  amounts of at most \<open>2 ^ 37\<close> cents in all (1.3 billion ETB), the rounded sum is exact.
\<close>

definition js_sum :: "number list \<Rightarrow> number" where
  "js_sum xs = foldl (+) (Fin 0) xs"

lemma rnd_err_small:
  assumes "\<bar>x\<bar> \<le> 2147483648"
  obtains v where "rnd x = Fin v" and "\<bar>v - x\<bar> \<le> 1 / 2 ^ 21"
proof -
  have "\<bar>x\<bar> \<le> 2 ^ 1000" using assms by (elim order_trans) simp
  then have 1: "rnd x = Fin (rnd_rat x)" by (rule rnd_small)
  have "\<bar>x\<bar> / 2 ^ 53 \<le> 2147483648 / 2 ^ 53" by (intro divide_right_mono assms) simp
  then have "\<bar>rnd_rat x - x\<bar> \<le> 2147483648 / 2 ^ 53 + 1 / 2 ^ 1075"
    using rnd_rat_error [of x] by linarith
  also have "\<dots> \<le> (1 / 2 ^ 21 :: rat)" by simp
  finally show thesis using that 1 by blast
qed

lemma js_sum_near_aux:
  assumes "\<bar>a - of_int m / 100\<bar> \<le> of_nat k / 2 ^ 20" and "\<bar>m\<bar> + (\<Sum>n\<leftarrow>ns. \<bar>n\<bar>) \<le> 2 ^ 37"
    and "k + length ns \<le> 2048"
  shows "\<exists>v. foldl (+) (Fin a) (map cents ns) = Fin v
    \<and> \<bar>v - of_int (m + sum_list ns) / 100\<bar> \<le> of_nat (k + length ns) / 2 ^ 20"
  using assms
proof (induction ns arbitrary: a m k)
  case (Cons n ns)
  have nn: "0 \<le> (\<Sum>n\<leftarrow>ns. \<bar>n\<bar>)" by (rule sum_list_nonneg) auto
  have k: "(of_nat k :: rat) / 2 ^ 20 \<le> 1 / 400"
  proof -
    have "(of_nat k :: rat) \<le> of_nat 2048" using Cons.prems(3) by (intro of_nat_mono) simp
    then show ?thesis by (simp add: field_simps)
  qed
  have b: "\<bar>of_int n :: rat\<bar> \<le> 137438953472" "\<bar>of_int (m + n) :: rat\<bar> \<le> 137438953472"
    using Cons.prems(2) nn abs_of_int_le_iff [of n 137438953472] abs_of_int_le_iff [of "m + n" 137438953472]
    by (simp_all add: abs_le_iff) linarith+
  have "\<bar>of_int n / 100 :: rat\<bar> \<le> 2147483648" using b(1) by (simp add: abs_le_iff)
  then obtain c where c: "cents n = Fin c" "\<bar>c - of_int n / 100\<bar> \<le> 1 / 2 ^ 21"
    unfolding cents_def by (rule rnd_err_small)
  have d: "\<bar>a + c - of_int (m + n) / 100\<bar> \<le> of_nat k / 2 ^ 20 + 1 / 2 ^ 21"
    using Cons.prems(1) c(2) unfolding of_int_cents_add by linarith
  have "\<bar>a + c - of_int (m + n) / 100\<bar> \<le> 1 / 100" using d k by (simp add: field_simps)
  then have "\<bar>a + c\<bar> \<le> 2147483648" using b(2) unfolding abs_le_iff by (simp del: of_int_add)
  then obtain v where v: "rnd (a + c) = Fin v" "\<bar>v - (a + c)\<bar> \<le> 1 / 2 ^ 21" by (rule rnd_err_small)
  have e: "\<bar>v - of_int (m + n) / 100\<bar> \<le> of_nat (Suc k) / 2 ^ 20"
  proof -
    have "of_nat (Suc k) / 2 ^ 20 = (of_nat k / 2 ^ 20 + 1 / 2 ^ 21 + 1 / 2 ^ 21 :: rat)" by (simp add: field_simps)
    then show ?thesis using d v(2) by linarith
  qed
  have "\<bar>m + n\<bar> + (\<Sum>n\<leftarrow>ns. \<bar>n\<bar>) \<le> 2 ^ 37" using Cons.prems(2) by simp
  from Cons.IH [OF e this] Cons.prems(3) show ?case by (simp add: c(1) v(1) add.assoc)
qed simp

lemma js_sum_near:
  assumes "(\<Sum>n\<leftarrow>ns. \<bar>n\<bar>) \<le> 2 ^ 37" and "length ns \<le> 2048"
  obtains v where "js_sum (map cents ns) = Fin v" and "\<bar>v - of_int (sum_list ns) / 100\<bar> \<le> 1 / 500"
proof -
  obtain v where v: "foldl (+) (Fin 0) (map cents ns) = Fin v"
    "\<bar>v - of_int (sum_list ns) / 100\<bar> \<le> of_nat (length ns) / 2 ^ 20"
    using js_sum_near_aux [of 0 0 0 ns] assms by auto
  have "(of_nat (length ns) :: rat) \<le> of_nat 2048" using assms(2) by (intro of_nat_mono)
  then have "(of_nat (length ns) :: rat) / 2 ^ 20 \<le> 1 / 500" by (simp add: field_simps)
  then show thesis using that [of v] v by (simp add: js_sum_def)
qed

lemma sum_list_abs_le: "\<bar>sum_list ns\<bar> \<le> (\<Sum>n\<leftarrow>ns. \<bar>n\<bar>)" for ns :: "int list"
  by (induction ns) auto

lemma roundCurrency_sum [money_simps]:
  assumes "(\<Sum>n\<leftarrow>ns. \<bar>n\<bar>) \<le> 2 ^ 37" and "length ns \<le> 2048"
  shows "roundCurrency (js_sum (map cents ns)) = cents (sum_list ns)"
proof -
  obtain v where v: "js_sum (map cents ns) = Fin v" "\<bar>v - of_int (sum_list ns) / 100\<bar> \<le> 1 / 500"
    using js_sum_near [OF assms] .
  have "\<bar>sum_list ns\<bar> \<le> 2 ^ 48" using sum_list_abs_le [of ns] assms(1) by simp
  then have "roundCurrency (Fin v) = cents (sum_list ns)"
    using v(2) by (intro roundCurrency_near) linarith+
  then show ?thesis by (simp add: v(1))
qed

text \<open>A whole percentage of any cent amount is computed to within a tenth of a cent.\<close>

lemma percent_near:
  assumes t: "\<bar>t\<bar> \<le> 2 ^ 37" and l: "0 \<le> l" "l \<le> 100"
  obtains x where "cents t * (Fin (of_int l) / Fin 100) = Fin x" and "\<bar>x - of_int (t * l) / 10000\<bar> \<le> 1 / 1000"
proof -
  have tb: "\<bar>of_int t :: rat\<bar> \<le> 137438953472" using t abs_of_int_le_iff [of t 137438953472] by simp
  have "\<bar>of_int t / 100 :: rat\<bar> \<le> 2147483648" using tb by (simp add: abs_le_iff)
  then obtain c where c: "cents t = Fin c" "\<bar>c - of_int t / 100\<bar> \<le> 1 / 2 ^ 21"
    unfolding cents_def by (rule rnd_err_small)
  define q where "q = rnd_rat (of_int l / 100)"
  have lb: "0 \<le> (of_int l / 100 :: rat)" "(of_int l / 100 :: rat) \<le> 1" using l by simp_all
  have "\<bar>of_int l / 100 :: rat\<bar> \<le> 2 ^ 1000" using lb by (simp add: abs_le_iff)
  then have 1: "rnd (of_int l / 100) = Fin q" unfolding q_def by (rule rnd_small)
  have "\<bar>q - of_int l / 100\<bar> \<le> \<bar>of_int l / 100\<bar> / 2 ^ 53 + 1 / 2 ^ 1075" unfolding q_def by (rule rnd_rat_error)
  also have "\<dots> \<le> 1 / 2 ^ 53 + 1 / 2 ^ 1075" using lb by (intro add_mono divide_right_mono) (simp_all add: abs_le_iff)
  also have "\<dots> \<le> (1 / 2 ^ 52 :: rat)" by simp
  finally have q: "\<bar>q - of_int l / 100\<bar> \<le> 1 / 2 ^ 52" .
  have "(1 / 2 ^ 52 :: rat) \<le> 1" by simp
  then have q2: "\<bar>q\<bar> \<le> 2" using q lb by linarith
  have "c * q - of_int (t * l) / 10000 = (c - of_int t / 100) * q + of_int t / 100 * (q - of_int l / 100)"
    by (simp add: field_simps)
  also have "\<bar>\<dots>\<bar> \<le> \<bar>c - of_int t / 100\<bar> * \<bar>q\<bar> + \<bar>of_int t / 100\<bar> * \<bar>q - of_int l / 100\<bar>"
    by (metis abs_mult abs_triangle_ineq)
  also have "\<dots> \<le> 1 / 2 ^ 21 * 2 + 2147483648 * (1 / 2 ^ 52)"
    using c(2) q q2 \<open>\<bar>of_int t / 100\<bar> \<le> 2147483648\<close> by (intro add_mono mult_mono) simp_all
  finally have e: "\<bar>c * q - of_int (t * l) / 10000\<bar> \<le> 1 / 2 ^ 19" by simp
  have "\<bar>of_int (t * l) / 10000 :: rat\<bar> = \<bar>of_int t / 100\<bar> * \<bar>of_int l / 100\<bar>" by (simp add: abs_mult)
  also have "\<dots> \<le> 1374389535 * 1" using tb lb by (intro mult_mono) (simp_all add: abs_le_iff)
  finally have "\<bar>of_int (t * l) / 10000 :: rat\<bar> \<le> 1374389535" by simp
  moreover have "(1 / 2 ^ 19 :: rat) \<le> 1" by simp
  ultimately have "\<bar>c * q\<bar> \<le> 2147483648" using e by linarith
  then obtain x where x: "rnd (c * q) = Fin x" "\<bar>x - c * q\<bar> \<le> 1 / 2 ^ 21" by (rule rnd_err_small)
  have "\<bar>x - of_int (t * l) / 10000\<bar> \<le> \<bar>x - c * q\<bar> + \<bar>c * q - of_int (t * l) / 10000\<bar>" by linarith
  also have "\<dots> \<le> 1 / 2 ^ 21 + 1 / 2 ^ 19" using e x(2) by (rule add_mono [rotated])
  finally have "\<bar>x - of_int (t * l) / 10000\<bar> \<le> 1 / 1000" by simp
  then show thesis using that [of x] by (simp add: c(1) 1 x(1))
qed

section \<open>The interface of the rounding functions\<close>

text \<open>
  \<open>roundCurrency\<close>, \<open>roundPrice\<close> and \<open>roundVolume\<close> share one contract: they keep the order of
  numbers. Clients use it to carry bounds through a rounding.
\<close>

locale monotone_rounding =
  fixes rd :: "number \<Rightarrow> number"
  assumes rd_mono: "x \<le> y \<Longrightarrow> rd x \<le> rd y"
begin

lemma rd_not_NaN: "x \<noteq> NaN \<Longrightarrow> rd x \<noteq> NaN"
  using rd_mono [of x x] number_le_not_NaN by auto

lemma rd_upper: "x \<le> b \<Longrightarrow> rd b = b \<Longrightarrow> rd x \<le> b"
  using rd_mono [of x b] by simp

lemma rd_lower: "a \<le> x \<Longrightarrow> rd a = a \<Longrightarrow> a \<le> rd x"
  using rd_mono [of a x] by simp

lemma rd_between: "a \<le> x \<Longrightarrow> x \<le> b \<Longrightarrow> rd a = a \<Longrightarrow> rd b = b \<Longrightarrow> a \<le> rd x \<and> rd x \<le> b"
  by (simp add: rd_upper rd_lower)

end

interpretation currency: monotone_rounding roundCurrency
  by unfold_locales (rule roundCurrency_mono)

end
