(* ===== verification/ChallengeRules.thy ===== *)
theory ChallengeRules
  imports Money
begin

text \<open>
  The pure challenge rules of \<open>src/lib/services/challengeRules.ts\<close>: the drawdown and daily-loss
  floors, the decision of the status machine, the consistency rule and the legal manual changes of
  status. \<open>Number.NEGATIVE_INFINITY\<close> is \<open>NInf\<close>.
\<close>

datatype AccountStatus = ACTIVE | PASSED | FAILED | SUSPENDED | FROZEN | FUNDED

datatype TemplatePhase = PHASE_1 | PHASE_2 | PHASE_FUNDED

datatype DrawdownMode = STATIC | TRAILING

datatype FailureReason = MAX_DRAWDOWN | DAILY_LOSS | EXPIRED | ADMIN_REASON string

definition AUTO_EVALUATION_TERMINAL_STATUSES :: "AccountStatus list" where
  "AUTO_EVALUATION_TERMINAL_STATUSES = [SUSPENDED, FROZEN, FAILED, PASSED]"

record RuleSnapshot =
  r_maxDrawdown :: number
  r_dailyDrawdown :: number
  r_profitTarget :: "number option"
  r_minTradingDays :: int
  r_drawdownMode :: "DrawdownMode option"

record ConsistencyResult =
  c_enabled :: bool
  c_ok :: bool
  c_limitPercent :: "number option"
  c_bestDay :: number
  c_total :: number
  c_ratioPercent :: "number option"

record DecisionInput =
  i_status :: AccountStatus
  i_phase :: TemplatePhase
  i_startingBalance :: number
  i_netPnl :: number
  i_equity :: number
  i_highWaterMark :: number
  i_dailyAnchorBalance :: number
  i_tradingDays :: int
  i_snapshot :: RuleSnapshot
  i_expired :: bool
  i_consistency :: "ConsistencyResult option"

record Decision =
  nextStatus :: AccountStatus
  canAutoEvaluate :: bool
  ddBreach :: bool
  dailyBreach :: bool
  meetsTarget :: bool
  meetsMinDays :: bool
  meetsConsistency :: bool
  failureReason :: "FailureReason option"
  d_maxDrawdownFloor :: number
  d_dailyLossFloor :: number

definition maxDrawdownFloor :: "number \<Rightarrow> number \<Rightarrow> number \<Rightarrow> DrawdownMode option \<Rightarrow> number" where
  "maxDrawdownFloor startBal highWater maxDrawdownPercent mode =
     (let limit = roundCurrency (startBal * (maxDrawdownPercent / lit 100)) in
      if limit \<le> lit 0 then NInf
      else if mode = Some TRAILING then
        (let trailing = roundCurrency (Math_max highWater startBal - limit) in Math_min trailing startBal)
      else roundCurrency (startBal - limit))"

definition dailyLossFloor :: "number \<Rightarrow> number \<Rightarrow> number" where
  "dailyLossFloor anchor dailyPercent =
     (let limit = roundCurrency (anchor * (dailyPercent / lit 100)) in
      if limit \<le> lit 0 then NInf else roundCurrency (anchor - limit))"

definition targetAmount :: "number \<Rightarrow> number option \<Rightarrow> number option" where
  "targetAmount startBal profitTarget =
     (case profitTarget of
        Some t \<Rightarrow> if t > lit 0 then Some (roundCurrency (startBal * (t / lit 100))) else None
      | None \<Rightarrow> None)"

definition determineChallengeTransition :: "DecisionInput \<Rightarrow> Decision" where
  "determineChallengeTransition input =
     (let auto = i_status input \<notin> set AUTO_EVALUATION_TERMINAL_STATUSES;
          equityC = roundCurrency (i_equity input);
          netPnlC = roundCurrency (i_netPnl input);
          snap = i_snapshot input;
          ddFloor = maxDrawdownFloor (i_startingBalance input) (i_highWaterMark input) (r_maxDrawdown snap) (r_drawdownMode snap);
          ddB = (auto \<and> equityC \<le> ddFloor);
          dlFloor = dailyLossFloor (i_dailyAnchorBalance input) (r_dailyDrawdown snap);
          dlB = (auto \<and> equityC \<le> dlFloor);
          target = targetAmount (i_startingBalance input) (r_profitTarget snap);
          tgt = (case target of Some t \<Rightarrow> netPnlC \<ge> t | None \<Rightarrow> False);
          days = (i_tradingDays input \<ge> r_minTradingDays snap);
          cons = (case i_consistency input of None \<Rightarrow> True | Some c \<Rightarrow> c_ok c);
          (next, reason) =
            (if \<not> auto then (i_status input, None)
             else if ddB then (FAILED, Some MAX_DRAWDOWN)
             else if dlB then (FAILED, Some DAILY_LOSS)
             else if i_phase input \<noteq> PHASE_FUNDED \<and> i_status input = ACTIVE \<and> tgt \<and> days \<and> cons then (PASSED, None)
             else if i_expired input \<and> i_phase input \<noteq> PHASE_FUNDED \<and> i_status input = ACTIVE then (FAILED, Some EXPIRED)
             else (i_status input, None))
      in \<lparr>nextStatus = next, canAutoEvaluate = auto, ddBreach = ddB, dailyBreach = dlB, meetsTarget = tgt,
          meetsMinDays = days, meetsConsistency = cons, failureReason = reason,
          d_maxDrawdownFloor = ddFloor, d_dailyLossFloor = dlFloor\<rparr>)"

text \<open>\<open>Math.max(0, ...days)\<close> folds \<open>Math_max\<close> from 0; \<open>reduce\<close> adds from 0.\<close>

definition consistencyCheck :: "number list \<Rightarrow> number option \<Rightarrow> ConsistencyResult" where
  "consistencyCheck dailyNetProfits limitPercent =
     (let limit = (case limitPercent of Some l \<Rightarrow> if isFinite l \<and> l > lit 0 then Some l else None | None \<Rightarrow> None);
          total = roundCurrency (js_sum dailyNetProfits);
          bestDay = roundCurrency (foldl Math_max (lit 0) dailyNetProfits);
          ratio = (if total > lit 0 then Some (Math_round (bestDay / total * Fin 10000) / lit 100) else None)
      in case limit of
           None \<Rightarrow> \<lparr>c_enabled = False, c_ok = True, c_limitPercent = None, c_bestDay = bestDay, c_total = total,
                    c_ratioPercent = ratio\<rparr>
         | Some l \<Rightarrow> \<lparr>c_enabled = True, c_ok = (total > lit 0 \<and> bestDay \<le> roundCurrency (total * (l / lit 100))),
                    c_limitPercent = Some l, c_bestDay = bestDay, c_total = total, c_ratioPercent = ratio\<rparr>)"

definition isLegalManualTransition :: "AccountStatus \<Rightarrow> AccountStatus \<Rightarrow> TemplatePhase \<Rightarrow> bool" where
  "isLegalManualTransition frm to phase =
     (if frm = to then False
      else let reinstateTarget = (if phase = PHASE_FUNDED then FUNDED else ACTIVE) in
        (case to of
           SUSPENDED \<Rightarrow> frm = ACTIVE \<or> frm = FUNDED \<or> frm = SUSPENDED \<or> frm = FROZEN
         | FROZEN \<Rightarrow> frm = ACTIVE \<or> frm = FUNDED \<or> frm = SUSPENDED \<or> frm = FROZEN
         | FAILED \<Rightarrow> frm = ACTIVE \<or> frm = FUNDED \<or> frm = SUSPENDED \<or> frm = FROZEN
         | ACTIVE \<Rightarrow> to = reinstateTarget \<and> (frm = SUSPENDED \<or> frm = FROZEN \<or> frm = FAILED)
         | FUNDED \<Rightarrow> to = reinstateTarget \<and> (frm = SUSPENDED \<or> frm = FROZEN \<or> frm = FAILED)
         | PASSED \<Rightarrow> False))"

section \<open>Floors in cents\<close>

lemma lit_100 [simp]: "lit 100 = Fin 100"
  by (simp add: lit_def js_eval)

lemma percent_cents:
  assumes "\<bar>S\<bar> \<le> 2 ^ 40" "\<bar>p\<bar> \<le> 2 ^ 40" "money_ok (S * p)"
  shows "roundCurrency (cents (100 * S) * (Fin (of_int p) / lit 100)) = cents (S * p)"
  using roundCurrency_percent [OF assms] by (simp add: cents_whole [OF assms(1)] del: Fin_arith)

definition floor_cents :: "int \<Rightarrow> int \<Rightarrow> number" where
  "floor_cents base limit = (if limit \<le> 0 then NInf else cents (base - limit))"

lemma maxDrawdownFloor_static:
  assumes "\<bar>S\<bar> \<le> 2 ^ 40" "\<bar>p\<bar> \<le> 2 ^ 40" "money_ok (S * p)" "mode \<noteq> Some TRAILING"
  shows "maxDrawdownFloor (cents (100 * S)) hwm (Fin (of_int p)) mode = floor_cents (100 * S) (S * p)"
proof -
  have "money_ok (100 * S)" using assms(1) by (simp add: money_ok_def abs_mult)
  then show ?thesis using assms
    by (simp add: maxDrawdownFloor_def floor_cents_def percent_cents [simplified] roundCurrency_diff cents_pos_iff)
qed

lemma maxDrawdownFloor_trailing:
  assumes "\<bar>S\<bar> \<le> 2 ^ 40" "\<bar>p\<bar> \<le> 2 ^ 40" "money_ok (S * p)" "money_ok h" "money_ok (max h (100 * S) - S * p)"
  shows "maxDrawdownFloor (cents (100 * S)) (cents h) (Fin (of_int p)) (Some TRAILING)
    = (if S * p \<le> 0 then NInf else cents (min (max h (100 * S) - S * p) (100 * S)))"
proof -
  have S: "money_ok (100 * S)" using assms(1) by (simp add: money_ok_def abs_mult)
  have mx: "Math_max (cents a) (cents b) = cents (max a b)" if "money_ok a" "money_ok b" for a b
    using that by (auto simp: Math_max_def cents_le_iff cents_less_iff max_def)
  have mn: "Math_min (cents a) (cents b) = cents (min a b)" if "money_ok a" "money_ok b" for a b
    using that by (auto simp: Math_min_def cents_le_iff cents_less_iff min_def)
  have "money_ok (max h (100 * S))" using S assms(4) by (simp add: max_def)
  then show ?thesis using assms S
    by (simp add: maxDrawdownFloor_def percent_cents [simplified] roundCurrency_diff cents_pos_iff mx mn)
qed

lemma dailyLossFloor_cents:
  assumes "\<bar>A\<bar> \<le> 2 ^ 40" "\<bar>p\<bar> \<le> 2 ^ 40" "money_ok (A * p)"
  shows "dailyLossFloor (cents (100 * A)) (Fin (of_int p)) = floor_cents (100 * A) (A * p)"
proof -
  have "money_ok (100 * A)" using assms(1) by (simp add: money_ok_def abs_mult)
  then show ?thesis using assms
    by (simp add: dailyLossFloor_def floor_cents_def percent_cents [simplified] roundCurrency_diff cents_pos_iff)
qed

lemma targetAmount_cents:
  assumes "\<bar>S\<bar> \<le> 2 ^ 40" "\<bar>p\<bar> \<le> 2 ^ 40" "money_ok (S * p)" "0 < p"
  shows "targetAmount (cents (100 * S)) (Some (Fin (of_int p))) = Some (cents (S * p))"
  using assms by (simp add: targetAmount_def percent_cents [simplified])

lemma percent_ok:
  assumes "0 \<le> S" "S \<le> 2 ^ 36" "0 \<le> p" "p \<le> 1000"
  shows "\<bar>S\<bar> \<le> 2 ^ 40" "\<bar>p\<bar> \<le> 2 ^ 40" "money_ok (S * p)" "money_ok (100 * S - S * p)" "money_ok (100 * S)"
proof -
  define q where "q = S * p"
  have q: "q \<le> 68719476736000" "0 \<le> q" "S \<le> 68719476736"
    using assms mult_mono [of S "2 ^ 36" p 1000] unfolding q_def by simp_all
  then show "money_ok (S * p)" "money_ok (100 * S - S * p)"
    using assms(1) unfolding q_def [symmetric] money_ok_def abs_le_iff by simp_all
  show "\<bar>S\<bar> \<le> 2 ^ 40" "\<bar>p\<bar> \<le> 2 ^ 40" "money_ok (100 * S)"
    using assms q(3) by (auto simp: money_ok_def abs_le_iff)
qed

lemma cents_not_NInf: "money_ok e \<Longrightarrow> cents e \<noteq> NInf"
  by (elim cents_near) simp

lemma floor_cents_le:
  "money_ok e \<Longrightarrow> money_ok (b - l) \<Longrightarrow> cents e \<le> floor_cents b l \<longleftrightarrow> 0 < l \<and> e \<le> b - l"
  by (auto simp: floor_cents_def cents_le_iff cents_not_NInf)

section \<open>Properties\<close>

lemma trailing_limit_ok:
  assumes "0 \<le> S" "S \<le> 2 ^ 36" "0 \<le> p" "p \<le> 1000" "0 \<le> h" "h \<le> 2 ^ 46"
  shows "money_ok h" "money_ok (max h (100 * S) - S * p)" "money_ok (min (max h (100 * S) - S * p) (100 * S))"
proof -
  define q where "q = S * p"
  have q: "q \<le> 68719476736000" "0 \<le> q" "S \<le> 68719476736" "h \<le> 70368744177664"
    using assms mult_mono [of S "2 ^ 36" p 1000] unfolding q_def by simp_all
  then show "money_ok h" "money_ok (max h (100 * S) - S * p)" "money_ok (min (max h (100 * S) - S * p) (100 * S))"
    using assms(1,5) unfolding q_def [symmetric] money_ok_def abs_le_iff max_def min_def by auto
qed

text \<open>
  C2: On a whole-number challenge (balances and anchor in whole ETB, whole percents, the rest whole
  cents) the decision and its reason are exact to the cent, in every status and phase: an account
  under automatic evaluation fails with MAX_DRAWDOWN exactly at its drawdown floor, static or
  trailing, else with DAILY_LOSS exactly at its daily floor, else passes exactly when an active
  challenge reaches its target with the trading days and the consistency rule met, else fails with
  EXPIRED when an active challenge has run out, and else keeps its status; any other account keeps it.
\<close>

theorem decision_exact_to_the_cent:
  assumes "i_startingBalance d = cents (100 * S)" "0 \<le> S" "S \<le> 2 ^ 36"
    and "i_dailyAnchorBalance d = cents (100 * A)" "0 \<le> A" "A \<le> 2 ^ 36"
    and "i_highWaterMark d = cents h" "0 \<le> h" "h \<le> 2 ^ 46"
    and "r_maxDrawdown (i_snapshot d) = Fin (of_int dd)" "0 \<le> dd" "dd \<le> 1000"
    and "r_dailyDrawdown (i_snapshot d) = Fin (of_int dl)" "0 \<le> dl" "dl \<le> 1000"
    and "r_profitTarget (i_snapshot d) = map_option (\<lambda>p. Fin (of_int p)) tp" "tp \<noteq> None \<Longrightarrow> the tp \<le> 1000"
    and "i_equity d = cents e" "money_ok e" and "i_netPnl d = cents n" "money_ok n"
  shows "(nextStatus (determineChallengeTransition d), failureReason (determineChallengeTransition d)) =
    (if i_status d \<in> {SUSPENDED, FROZEN, FAILED, PASSED} then (i_status d, None)
     else if 0 < S * dd \<and> e \<le> (if r_drawdownMode (i_snapshot d) = Some TRAILING
         then min (max h (100 * S) - S * dd) (100 * S) else 100 * S - S * dd) then (FAILED, Some MAX_DRAWDOWN)
     else if 0 < A * dl \<and> e \<le> 100 * A - A * dl then (FAILED, Some DAILY_LOSS)
     else if i_phase d \<noteq> PHASE_FUNDED \<and> i_status d = ACTIVE
         \<and> (case tp of Some p \<Rightarrow> 0 < p \<and> S * p \<le> n | None \<Rightarrow> False)
         \<and> r_minTradingDays (i_snapshot d) \<le> i_tradingDays d
         \<and> (case i_consistency d of Some c \<Rightarrow> c_ok c | None \<Rightarrow> True) then (PASSED, None)
     else if i_phase d \<noteq> PHASE_FUNDED \<and> i_status d = ACTIVE \<and> i_expired d then (FAILED, Some EXPIRED)
     else (i_status d, None))"
proof -
  note P = percent_ok [OF assms(2,3,11,12)] and Q = percent_ok [OF assms(5,6,14,15)]
    and H = trailing_limit_ok [OF assms(2,3,11,12,8,9)]
  define fl where "fl = maxDrawdownFloor (i_startingBalance d) (i_highWaterMark d) (r_maxDrawdown (i_snapshot d))
      (r_drawdownMode (i_snapshot d))"
  have D: "cents e \<le> fl \<longleftrightarrow> 0 < S * dd \<and> e \<le> (if r_drawdownMode (i_snapshot d) = Some TRAILING
         then min (max h (100 * S) - S * dd) (100 * S) else 100 * S - S * dd)"
  proof (cases "r_drawdownMode (i_snapshot d) = Some TRAILING")
    case True
    then have "fl = (if S * dd \<le> 0 then NInf else cents (min (max h (100 * S) - S * dd) (100 * S)))"
      using maxDrawdownFloor_trailing [OF P(1-3) H(1,2)] by (simp add: fl_def assms(1,7,10))
    then show ?thesis using True H(3) assms(19) by (auto simp: cents_le_iff cents_not_NInf)
  next
    case False
    then have "fl = floor_cents (100 * S) (S * dd)"
      using maxDrawdownFloor_static [OF P(1-3)] by (simp add: fl_def assms(1,7,10))
    then show ?thesis using False floor_cents_le [OF assms(19) P(4)] by simp
  qed
  have L: "cents e \<le> dailyLossFloor (i_dailyAnchorBalance d) (r_dailyDrawdown (i_snapshot d))
      \<longleftrightarrow> 0 < A * dl \<and> e \<le> 100 * A - A * dl"
    using dailyLossFloor_cents [OF Q(1-3)] floor_cents_le [OF assms(19) Q(4)] by (simp add: assms(4,13))
  have T: "(case targetAmount (i_startingBalance d) (r_profitTarget (i_snapshot d)) of Some t \<Rightarrow> cents n \<ge> t | None \<Rightarrow> False)
      \<longleftrightarrow> (case tp of Some p \<Rightarrow> 0 < p \<and> S * p \<le> n | None \<Rightarrow> False)"
  proof (cases tp)
    case None
    then show ?thesis by (simp add: assms(16) targetAmount_def)
  next
    case (Some p)
    show ?thesis
    proof (cases "0 < p")
      case True
      with Some assms(17) have pp: "0 \<le> p" "p \<le> 1000" by simp_all
      note R = percent_ok [OF assms(2,3) pp]
      then show ?thesis using True targetAmount_cents [OF R(1-3) True] assms(21)
        by (simp add: Some assms(1,16) cents_le_iff)
    qed (simp add: Some assms(16) targetAmount_def)
  qed
  have rc: "roundCurrency (i_equity d) = cents e" "roundCurrency (i_netPnl d) = cents n"
    using assms(18-21) by (simp_all add: roundCurrency_cents)
  show ?thesis
    unfolding determineChallengeTransition_def Let_def fl_def [symmetric] rc D L T AUTO_EVALUATION_TERMINAL_STATUSES_def
    by (auto split: option.splits)
qed

definition sampleDecision :: "DrawdownMode \<Rightarrow> int \<Rightarrow> DecisionInput" where
  "sampleDecision mode n = \<lparr>i_status = ACTIVE, i_phase = PHASE_1, i_startingBalance = cents (100 * 10000),
     i_netPnl = cents n, i_equity = cents (1000000 + n), i_highWaterMark = cents 1080000,
     i_dailyAnchorBalance = cents (100 * 10000), i_tradingDays = 5,
     i_snapshot = \<lparr>r_maxDrawdown = Fin 10, r_dailyDrawdown = Fin 5, r_profitTarget = Some (Fin 8),
       r_minTradingDays = 5, r_drawdownMode = Some mode\<rparr>, i_expired = False, i_consistency = None\<rparr>"

theorem decision_exact_to_the_cent_witness:
  "let outcome = (\<lambda>mode n. let r = determineChallengeTransition (sampleDecision mode n) in (nextStatus r, failureReason r)) in
     outcome STATIC 80000 = (PASSED, None) \<and> outcome STATIC 79999 = (ACTIVE, None)
     \<and> outcome STATIC (- 49999) = (ACTIVE, None) \<and> outcome STATIC (- 50000) = (FAILED, Some DAILY_LOSS)
     \<and> outcome STATIC (- 99999) = (FAILED, Some DAILY_LOSS) \<and> outcome STATIC (- 100000) = (FAILED, Some MAX_DRAWDOWN)
     \<and> outcome TRAILING (- 19999) = (ACTIVE, None) \<and> outcome TRAILING (- 20000) = (FAILED, Some MAX_DRAWDOWN)"
proof -
  note t = decision_exact_to_the_cent [where S = 10000 and A = 10000 and h = 1080000 and dd = 10 and dl = 5 and tp = "Some 8"]
  have "(nextStatus (determineChallengeTransition (sampleDecision mode n)),
      failureReason (determineChallengeTransition (sampleDecision mode n))) =
    (if 1000000 + n \<le> (if mode = TRAILING then 980000 else 900000) then (FAILED, Some MAX_DRAWDOWN)
     else if 1000000 + n \<le> 950000 then (FAILED, Some DAILY_LOSS)
     else if 80000 \<le> n then (PASSED, None) else (ACTIVE, None))"
    if "\<bar>n\<bar> \<le> 100000" for mode n
    using that by (subst t [where e = "1000000 + n" and n = n])
      (auto simp: sampleDecision_def money_ok_def)
  then show ?thesis by (simp add: Let_def)
qed

text \<open>
  Whatever the inputs, an automatic decision only moves an account that is ACTIVE or FUNDED, only
  to PASSED or FAILED, and passes only an ACTIVE challenge phase that is at its target, breaches no
  floor, and meets the days and the consistency rule; a failure reason is recorded exactly when it
  decides FAILED, and a breach always decides FAILED, target or not.
\<close>

theorem decision_frame:
  "(let r = determineChallengeTransition d in
     (nextStatus r = i_status d \<and> failureReason r = None
      \<or> i_status d \<in> {ACTIVE, FUNDED} \<and>
         (nextStatus r = FAILED \<and> failureReason r \<in> {Some MAX_DRAWDOWN, Some DAILY_LOSS, Some EXPIRED}
          \<or> nextStatus r = PASSED \<and> failureReason r = None \<and> i_status d = ACTIVE \<and> i_phase d \<in> {PHASE_1, PHASE_2}
            \<and> meetsTarget r \<and> meetsMinDays r \<and> meetsConsistency r
            \<and> \<not> (roundCurrency (i_equity d) \<le> d_maxDrawdownFloor r) \<and> \<not> (roundCurrency (i_equity d) \<le> d_dailyLossFloor r)))
     \<and> (ddBreach r \<or> dailyBreach r) = (failureReason r \<in> {Some MAX_DRAWDOWN, Some DAILY_LOSS} \<and> nextStatus r = FAILED))"
  by (cases "i_status d"; cases "i_phase d")
    (simp_all add: determineChallengeTransition_def Let_def AUTO_EVALUATION_TERMINAL_STATUSES_def)

text \<open>
  A trailing drawdown floor follows the peak and locks: in cents it is the peak (at least the
  starting balance) less the limit, capped at the starting balance; it never falls when the peak
  rises, and equals the starting balance exactly from the peak that is a full limit above it.
\<close>

theorem trailing_floor_locks:
  assumes "0 < S" "S \<le> 2 ^ 36" "0 < dd" "dd \<le> 100" "0 \<le> h" "h \<le> h'" "h' \<le> 2 ^ 46"
  shows "let fl = (\<lambda>x. maxDrawdownFloor (cents (100 * S)) (cents x) (Fin (of_int dd)) (Some TRAILING)) in
    fl h \<le> fl h' \<and> fl h \<le> cents (100 * S) \<and> (fl h = cents (100 * S)) = (100 * S + S * dd \<le> h)
    \<and> cents (100 * S - S * dd) \<le> fl h"
proof -
  note P = percent_ok [of S dd]
  have pos: "0 < S * dd" using assms by simp
  have lim: "S * dd \<le> 100 * S" using assms mult_left_mono [of dd 100 S] by simp
  have Sb: "100 * S \<le> 6871947673600" and h46: "(2::int) ^ 46 = 70368744177664" using assms by simp_all
  define q where "q = S * dd"
  have lim0: "0 < q" "q \<le> 100 * S" using pos lim by (simp_all add: q_def)
  let ?f = "\<lambda>x. min (max x (100 * S) - S * dd) (100 * S)"
  have fl: "maxDrawdownFloor (cents (100 * S)) (cents x) (Fin (of_int dd)) (Some TRAILING) = cents (?f x)"
    and ok: "money_ok (?f x)" if "0 \<le> x" "x \<le> 2 ^ 46" for x
  proof -
    have m: "money_ok x" "money_ok (max x (100 * S) - S * dd)"
      using that lim0 Sb h46 unfolding q_def [symmetric] money_ok_def abs_le_iff max_def by auto
    show "maxDrawdownFloor (cents (100 * S)) (cents x) (Fin (of_int dd)) (Some TRAILING) = cents (?f x)"
      using maxDrawdownFloor_trailing [OF P(1-3) m] pos assms by simp
    show "money_ok (?f x)" using m(2) P(5) assms by (auto simp: min_def)
  qed
  have "?f h \<le> ?f h'" "?f h \<le> 100 * S" "?f h = 100 * S \<longleftrightarrow> 100 * S + S * dd \<le> h" "100 * S - S * dd \<le> ?f h"
    using assms lim0 unfolding q_def [symmetric] by (auto simp: min_def max_def)
  then show ?thesis using fl [of h] fl [of h'] ok [of h] ok [of h'] P(4,5) assms
    by (simp add: Let_def cents_le_iff cents_inj)
qed

theorem trailing_floor_locks_witness:
  "maxDrawdownFloor (cents (100 * 10000)) (cents 1100000) (Fin 10) (Some TRAILING) = cents (100 * 10000)
   \<and> maxDrawdownFloor (cents (100 * 10000)) (cents 1099999) (Fin 10) (Some TRAILING) \<noteq> cents (100 * 10000)"
  using trailing_floor_locks [of 10000 10 1100000 1100000] trailing_floor_locks [of 10000 10 1099999 1099999]
  by (simp add: Let_def)

text \<open>
  Admin status changes, in any number: PASSED is never entered and never left, the live status of
  the other kind of account (ACTIVE on a funded account, FUNDED on a challenge) is never entered, and
  every other status is reachable from every other.
\<close>

theorem manual_transitions_reach:
  "(\<lambda>x y. isLegalManualTransition x y phase)\<^sup>*\<^sup>* a b =
    (a = b \<or> a \<noteq> PASSED \<and> b \<noteq> PASSED \<and> b \<noteq> (if phase = PHASE_FUNDED then ACTIVE else FUNDED))"
proof -
  let ?L = "\<lambda>x y. isLegalManualTransition x y phase"
  let ?live = "if phase = PHASE_FUNDED then FUNDED else ACTIVE"
  have step: "x \<noteq> PASSED \<and> y \<noteq> PASSED \<and> y \<noteq> (if phase = PHASE_FUNDED then ACTIVE else FUNDED)" if "?L x y" for x y
    using that by (cases x; cases y) (auto simp: isLegalManualTransition_def split: if_splits)
  have up: "?L\<^sup>*\<^sup>* x ?live" if "x \<noteq> PASSED" for x
  proof -
    have "?L SUSPENDED ?live" by (simp add: isLegalManualTransition_def)
    moreover have "x = ?live \<or> x = SUSPENDED \<or> ?L x SUSPENDED \<or> ?L x ?live"
      using that by (cases x) (simp_all add: isLegalManualTransition_def)
    moreover have "?L\<^sup>*\<^sup>* u w" if "?L u v" "?L v w" for u v w
      using that by (rule converse_rtranclp_into_rtranclp [OF _ r_into_rtranclp])
    ultimately show ?thesis by (elim disjE) auto
  qed
  have down: "?L\<^sup>*\<^sup>* ?live y" if "y \<noteq> PASSED" "y \<noteq> (if phase = PHASE_FUNDED then ACTIVE else FUNDED)" for y
  proof -
    have "y = ?live \<or> ?L ?live y" using that by (cases y) (simp_all add: isLegalManualTransition_def split: if_splits)
    then show ?thesis by auto
  qed
  have "a = b \<or> a \<noteq> PASSED \<and> b \<noteq> PASSED \<and> b \<noteq> (if phase = PHASE_FUNDED then ACTIVE else FUNDED)" if "?L\<^sup>*\<^sup>* a b"
    using that by (induction rule: rtranclp_induct) (use step in blast)+
  then show ?thesis using up [of a] down [of b] by (meson rtranclp.rtrancl_refl rtranclp_trans)
qed

section \<open>Consistency\<close>

lemma Math_max_cents: "money_ok a \<Longrightarrow> money_ok b \<Longrightarrow> Math_max (cents a) (cents b) = cents (max a b)"
  by (auto simp: Math_max_def cents_less_iff max_def)

lemma foldl_max_cents:
  assumes "money_ok m" "\<forall>n\<in>set ns. money_ok n"
  shows "foldl Math_max (cents m) (map cents ns) = cents (foldl max m ns)"
  using assms
proof (induction ns arbitrary: m)
  case (Cons n ns)
  then have "money_ok (max m n)" by (simp add: max_def)
  with Cons show ?case by (simp add: Math_max_cents)
qed simp

lemma foldl_max_bounds: "m \<le> foldl max m ns \<and> foldl max m ns \<le> \<bar>m\<bar> + (\<Sum>n\<leftarrow>ns. \<bar>n\<bar>)" for m :: int
proof (induction ns arbitrary: m)
  case (Cons n ns)
  have "\<bar>max m n\<bar> \<le> \<bar>m\<bar> + \<bar>n\<bar>" "m \<le> max m n" by auto
  with Cons.IH [of "max m n"] show ?case by simp
qed simp

lemma member_le_sum_abs: "n \<in> set ns \<Longrightarrow> \<bar>n\<bar> \<le> (\<Sum>n\<leftarrow>ns. \<bar>n\<bar>)" for n :: int
proof (induction ns)
  case (Cons a ns)
  moreover have "0 \<le> (\<Sum>n\<leftarrow>ns. \<bar>n\<bar>)" by (rule sum_list_nonneg) auto
  ultimately show ?case by auto
qed simp

text \<open>
  With a limit of \<open>l\<close> percent the consistency rule compares, in cents, the best day with \<open>l\<close>
  percent of the total: it holds exactly when the total is positive and \<open>100 * best \<le> total * l\<close>
  whenever that percentage is a whole number of cents (a best day of exactly the limit passes), and
  is never more than one cent off otherwise.
\<close>

theorem consistency_exact:
  assumes "(\<Sum>n\<leftarrow>ns. \<bar>n\<bar>) \<le> 2 ^ 37" "length ns \<le> 2048" "0 < l" "l \<le> 100"
  shows "let r = consistencyCheck (map cents ns) (Some (Fin (of_int l)));
      t = sum_list ns; b = foldl max 0 ns in
    c_total r = cents t \<and> c_bestDay r = cents b
    \<and> (100 dvd t * l \<longrightarrow> c_ok r = (0 < t \<and> 100 * b \<le> t * l))
    \<and> (c_ok r \<longrightarrow> 0 < t \<and> 100 * b \<le> t * l + 100) \<and> (0 < t \<and> 100 * b + 100 \<le> t * l \<longrightarrow> c_ok r)"
proof -
  define t b where "t = sum_list ns" and "b = foldl max 0 ns"
  define r where "r = consistencyCheck (map cents ns) (Some (Fin (of_int l)))"
  have tb: "\<bar>t\<bar> \<le> 2 ^ 37" using sum_list_abs_le [of ns] assms(1) by (simp add: t_def)
  have bb: "0 \<le> b" "b \<le> 2 ^ 37" using foldl_max_bounds [of 0 ns] assms(1) by (simp_all add: b_def)
  have mok: "money_ok t" "money_ok b" using tb bb by (simp_all add: money_ok_def)
  have ns: "\<forall>n\<in>set ns. money_ok n"
    using member_le_sum_abs [of _ ns] assms(1) by (fastforce simp: money_ok_def)
  have T: "roundCurrency (js_sum (map cents ns)) = cents t" unfolding t_def by (rule roundCurrency_sum [OF assms(1,2)])
  have "foldl Math_max (Fin 0) (map cents ns) = cents b"
    using foldl_max_cents [OF money_ok_0 ns] by (simp add: b_def)
  then have B: "roundCurrency (foldl Math_max (Fin 0) (map cents ns)) = cents b"
    using roundCurrency_cents [OF mok(2)] by simp
  obtain x where x: "cents t * (Fin (of_int l) / Fin 100) = Fin x" "\<bar>x - of_int (t * l) / 10000\<bar> \<le> 1 / 1000"
    using percent_near [OF tb, of l] assms(3,4) by auto
  have "\<bar>t * l\<bar> \<le> 2 ^ 37 * 100" using mult_mono [of "\<bar>t\<bar>" "2 ^ 37" "\<bar>l\<bar>" 100] tb assms(3,4) by (simp add: abs_mult)
  then have tl: "\<bar>of_int (t * l) :: rat\<bar> \<le> 13743895347200"
    using abs_of_int_le_iff [of "t * l" 13743895347200] by simp
  have ok: "c_ok r \<longleftrightarrow> 0 < t \<and> cents b \<le> roundCurrency (Fin x)"
    using assms(3) x(1) by (simp add: r_def consistencyCheck_def Let_def T B cents_pos_iff mok del: Fin_arith)
  have "\<bar>x\<bar> \<le> 1099511627776" using x(2) tl by linarith
  then have xb: "\<bar>x\<bar> \<le> 2 ^ 40" by simp
  then obtain n where n: "money_ok n" "roundCurrency (Fin x) = cents n" "\<bar>x * 100 - of_int n\<bar> \<le> 3 / 4"
    by (rule roundCurrency_is_cents)
  have near: "\<bar>of_int (t * l) - of_int (100 * n) :: rat\<bar> < 100"
    using n(3) x(2) unfolding abs_le_iff abs_less_iff by (simp add: field_simps)
  then have nb: "t * l < 100 * n + 100" "100 * n < t * l + 100" by linarith+
  have exact: "n = k" if "t * l = 100 * k" for k
  proof -
    have "\<bar>n - k\<bar> < 1" using nb that by linarith
    then show ?thesis by simp
  qed
  have "c_ok r \<longleftrightarrow> 0 < t \<and> b \<le> n" using ok n(1,2) mok by (simp add: cents_le_iff)
  moreover have "c_total r = cents t" "c_bestDay r = cents b"
    using assms(3) by (simp_all add: r_def consistencyCheck_def Let_def T B)
  ultimately show ?thesis using nb exact unfolding Let_def r_def [symmetric] t_def [symmetric] b_def [symmetric]
    by (auto elim!: dvdE)
qed

theorem consistency_exact_witness:
  "c_ok (consistencyCheck (map cents [30000, 40000, 30000]) (Some (Fin 40)))
   \<and> \<not> c_ok (consistencyCheck (map cents [30000, 40100, 30000]) (Some (Fin 40)))"
  using consistency_exact [of "[30000, 40000, 30000]" 40] consistency_exact [of "[30000, 40100, 30000]" 40]
  by (simp add: Let_def)

end
