(* ===== verification/TradingMath.thy ===== *)
theory TradingMath
  imports Money
begin

text \<open>
  \<open>src/trading/math.ts\<close>: the pure trading arithmetic of the engine. Prices and volumes are
  binary64 numbers; \<open>null\<close> / \<open>undefined\<close> arguments are \<open>None\<close>.
\<close>

section \<open>Data\<close>

datatype Side = BUY | SELL

datatype OrderKind = MARKET | LIMIT | STOP

record Quote =
  bid :: number
  ask :: number

datatype StopTrigger = STOP_LOSS | TAKE_PROFIT

datatype RejectCode =
    INVALID_VOLUME | INVALID_PRICE | INVALID_STOP_LOSS | INVALID_TAKE_PROFIT | MAX_POSITIONS
  | MAX_POSITION_SIZE | INSUFFICIENT_MARGIN | NO_FX_PATH | MARKET_HALTED | WEEKEND_CLOSED
  | OVERNIGHT_CLOSED | NEWS_WINDOW | UNKNOWN_SYMBOL | ACCOUNT_NOT_TRADABLE | FORBIDDEN
  | NOT_FOUND | INTERNAL

record VolumeLimits =
  minVolume :: number
  maxVolume :: number
  volumeStep :: number

section \<open>Prices\<close>

definition direction :: "Side \<Rightarrow> number" where
  "direction side = (if side = BUY then lit 1 else lit (- 1))"

definition roundPrice :: "number \<Rightarrow> int \<Rightarrow> number" where
  "roundPrice price digits = (let scale = pow10 digits in Math_round (price * scale) / scale)"

definition fillPrice :: "Side \<Rightarrow> 'a Quote_scheme \<Rightarrow> number" where
  "fillPrice side q = (if side = BUY then ask q else bid q)"

definition markPrice :: "Side \<Rightarrow> 'a Quote_scheme \<Rightarrow> number" where
  "markPrice side q = (if side = BUY then bid q else ask q)"

definition applyMarkup :: "'a Quote_scheme \<Rightarrow> number \<Rightarrow> int \<Rightarrow> Quote" where
  "applyMarkup q markupPoints digits =
     (if \<not> truthy markupPoints \<or> markupPoints \<le> lit 0 then \<lparr>bid = bid q, ask = ask q\<rparr>
      else let half = (markupPoints / lit 2) * pow10 (- digits) in
        \<lparr>bid = roundPrice (Math_max (lit 0) (bid q - half)) digits,
         ask = roundPrice (ask q + half) digits\<rparr>)"

definition grossPnlQuote :: "Side \<Rightarrow> number \<Rightarrow> number \<Rightarrow> number \<Rightarrow> number \<Rightarrow> number" where
  "grossPnlQuote side entryPrice exitPrice volume contractSize =
     (exitPrice - entryPrice) * volume * contractSize * direction side"

definition notionalQuote :: "number \<Rightarrow> number \<Rightarrow> number \<Rightarrow> number" where
  "notionalQuote volume contractSize price = volume * contractSize * price"

definition requiredMargin :: "number \<Rightarrow> number \<Rightarrow> number \<Rightarrow> number \<Rightarrow> number \<Rightarrow> number" where
  "requiredMargin volume contractSize price quoteToAccountRate leverage =
     (let lev = (if leverage > lit 0 then leverage else lit 1)
      in roundCurrency ((notionalQuote volume contractSize price * quoteToAccountRate) / lev))"

section \<open>Stops and pending orders\<close>

definition checkStops :: "Side \<Rightarrow> 'a Quote_scheme \<Rightarrow> number option \<Rightarrow> number option \<Rightarrow> StopTrigger option" where
  "checkStops side q stopLoss takeProfit =
     (let mark = markPrice side q in
      if side = BUY then
        (if (case stopLoss of None \<Rightarrow> False | Some sl \<Rightarrow> mark \<le> sl) then Some STOP_LOSS
         else if (case takeProfit of None \<Rightarrow> False | Some tp \<Rightarrow> mark \<ge> tp) then Some TAKE_PROFIT
         else None)
      else
        (if (case stopLoss of None \<Rightarrow> False | Some sl \<Rightarrow> mark \<ge> sl) then Some STOP_LOSS
         else if (case takeProfit of None \<Rightarrow> False | Some tp \<Rightarrow> mark \<le> tp) then Some TAKE_PROFIT
         else None))"

text \<open>The source casts a possible \<open>null\<close> to a number; the option is kept.\<close>

definition stopExitPrice :: "StopTrigger \<Rightarrow> number option \<Rightarrow> number option \<Rightarrow> number option" where
  "stopExitPrice trigger stopLoss takeProfit = (if trigger = STOP_LOSS then stopLoss else takeProfit)"

definition pendingTriggered :: "Side \<Rightarrow> OrderKind \<Rightarrow> number \<Rightarrow> 'a Quote_scheme \<Rightarrow> bool" where
  "pendingTriggered side type price q =
     (if type = MARKET then True
      else if side = BUY then (if type = LIMIT then ask q \<le> price else ask q \<ge> price)
      else (if type = LIMIT then bid q \<ge> price else bid q \<le> price))"

definition pendingFillPrice :: "Side \<Rightarrow> OrderKind \<Rightarrow> number \<Rightarrow> 'a Quote_scheme \<Rightarrow> number" where
  "pendingFillPrice side type price q =
     (if type = LIMIT then (if side = BUY then Math_min price (ask q) else Math_max price (bid q))
      else fillPrice side q)"

section \<open>Validation\<close>

definition validateVolume :: "number \<Rightarrow> 'a VolumeLimits_scheme \<Rightarrow> RejectCode option" where
  "validateVolume volume inst =
     (if \<not> isFinite volume \<or> volume \<le> lit 0 then Some INVALID_VOLUME
      else if volume < minVolume inst - lit (1 / 10 ^ 9) \<or> volume > maxVolume inst + lit (1 / 10 ^ 9) then Some INVALID_VOLUME
      else let step = (if volumeStep inst > lit 0 then volumeStep inst else lit (1 / 100));
               steps = volume / step
           in if Math_abs (steps - Math_round steps) > lit (1 / 10 ^ 6) then Some INVALID_VOLUME else None)"

definition stopLossInvalid :: "Side \<Rightarrow> number \<Rightarrow> number \<Rightarrow> bool" where
  "stopLossInvalid side reference sl \<longleftrightarrow>
     (\<not> isFinite sl \<or> sl \<le> lit 0) \<or> (if side = BUY then sl \<ge> reference else sl \<le> reference)"

definition takeProfitInvalid :: "Side \<Rightarrow> number \<Rightarrow> number \<Rightarrow> bool" where
  "takeProfitInvalid side reference tp \<longleftrightarrow>
     (\<not> isFinite tp \<or> tp \<le> lit 0) \<or> (if side = BUY then tp \<le> reference else tp \<ge> reference)"

definition validateStops :: "Side \<Rightarrow> number \<Rightarrow> number option \<Rightarrow> number option \<Rightarrow> RejectCode option" where
  "validateStops side reference stopLoss takeProfit =
     (if (case stopLoss of None \<Rightarrow> False | Some sl \<Rightarrow> stopLossInvalid side reference sl) then Some INVALID_STOP_LOSS
      else if (case takeProfit of None \<Rightarrow> False | Some tp \<Rightarrow> takeProfitInvalid side reference tp) then Some INVALID_TAKE_PROFIT
      else None)"

definition validatePendingPrice :: "Side \<Rightarrow> OrderKind \<Rightarrow> number option \<Rightarrow> 'a Quote_scheme \<Rightarrow> RejectCode option" where
  "validatePendingPrice side type price q =
     (case price of
        None \<Rightarrow> Some INVALID_PRICE
      | Some p \<Rightarrow>
         (if \<not> isFinite p \<or> p \<le> lit 0 then Some INVALID_PRICE
          else if side = BUY then
            (if type = LIMIT \<and> p \<ge> ask q then Some INVALID_PRICE
             else if type = STOP \<and> p \<le> ask q then Some INVALID_PRICE else None)
          else
            (if type = LIMIT \<and> p \<le> bid q then Some INVALID_PRICE
             else if type = STOP \<and> p \<ge> bid q then Some INVALID_PRICE else None)))"

definition roundVolume :: "number \<Rightarrow> number" where
  "roundVolume v = Math_round (v * lit 100) / lit 100"

section \<open>Signs and order\<close>

lemma rnd_pos_sign [simp]: "0 \<le> x \<Longrightarrow> Fin 0 \<le> rnd x" "x \<le> 0 \<Longrightarrow> rnd x \<le> Fin 0"
  using rnd_mono [of 0 x] rnd_mono [of x 0] by simp_all

lemma number_diff_sign:
  fixes x y :: number
  shows "isFinite x \<Longrightarrow> isFinite y \<Longrightarrow> x \<le> y \<Longrightarrow> x - y \<le> Fin 0 \<and> Fin 0 \<le> y - x"
  by (cases x; cases y) simp_all

lemma number_mult_nonneg: "Fin 0 \<le> x \<Longrightarrow> 0 < c \<Longrightarrow> Fin 0 \<le> x * Fin c"
  by (cases x) simp_all

lemma number_mult_nonpos: "x \<le> Fin 0 \<Longrightarrow> 0 < c \<Longrightarrow> x * Fin c \<le> Fin 0"
  by (cases x) (simp_all add: mult_le_0_iff)

lemma number_mult_direction:
  "x \<le> Fin 0 \<Longrightarrow> x * Fin 1 \<le> Fin 0" "Fin 0 \<le> x \<Longrightarrow> Fin 0 \<le> x * Fin 1"
  "Fin 0 \<le> x \<Longrightarrow> x * Fin (- 1) \<le> Fin 0" "x \<le> Fin 0 \<Longrightarrow> Fin 0 \<le> x * Fin (- 1)"
  by (cases x; simp add: number_op_defs signed_inf_def flip: less_eq_number_def)+

lemma pow10_Fin:
  assumes "\<bar>d\<bar> \<le> 22"
  obtains s where "pow10 d = Fin s" and "0 < s"
proof -
  have up: "(10::rat) powi d \<le> 10 powi 22" and lo: "(10::rat) powi (- 22) \<le> 10 powi d"
    using assms power_int_increasing [of d 22 "10::rat"] power_int_increasing [of "- 22" d "10::rat"]
    by auto
  have "\<bar>(10::rat) powi d\<bar> \<le> 2 ^ 1000" using up by (simp add: order_trans)
  then have 1: "pow10 d = Fin (rnd_rat (10 powi d))" by (simp add: pow10_def rnd_small)
  have "rnd_rat (2 powi (- 100)) \<le> rnd_rat (10 powi d)"
    by (rule rnd_rat_mono) (rule order_trans [OF _ lo], simp)
  moreover have "rnd_rat (2 powi (- 100)) = 2 powi (- 100)"
    by (rule rnd_rat_exact [where m = 1 and e = "- 100"]) simp_all
  ultimately have "0 < rnd_rat (10 powi d)" by (simp add: less_le_trans)
  with 1 show thesis by (rule that)
qed

text \<open>Prices have at most 22 digits, so the scale is a positive number and rounding keeps the order.\<close>

lemma roundPrice_rounding: "\<bar>d\<bar> \<le> 22 \<Longrightarrow> monotone_rounding (\<lambda>x. roundPrice x d)"
proof
  fix x y :: number assume d: "\<bar>d\<bar> \<le> 22" and xy: "x \<le> y"
  obtain s where s: "pow10 d = Fin s" "0 < s" using d by (rule pow10_Fin)
  then show "roundPrice x d \<le> roundPrice y d"
    unfolding roundPrice_def Let_def s(1) by (intro div_pos_mono Math_round_mono mult_pos_mono xy)
qed

lemma roundVolume_mono: "x \<le> y \<Longrightarrow> roundVolume x \<le> roundVolume y"
  unfolding roundVolume_def by simp (intro div_pos_mono Math_round_mono mult_pos_mono; simp)

interpretation lots: monotone_rounding roundVolume
  by unfold_locales (rule roundVolume_mono)

section \<open>Properties\<close>

lemma stop_loss_valid_side:
  assumes "\<not> stopLossInvalid side e s" and "isFinite e"
  shows "isFinite s \<and> (if side = BUY then s < e else e < s)"
  using assms by (cases s; cases e) (auto simp: stopLossInvalid_def split: if_splits)

lemma take_profit_valid_side:
  assumes "\<not> takeProfitInvalid side e t" and "isFinite e"
  shows "isFinite t \<and> (if side = BUY then e < t else t < e)"
  using assms by (cases t; cases e) (auto simp: takeProfitInvalid_def split: if_splits)

lemma grossPnlQuote_sign:
  assumes "isFinite e" "isFinite x" "0 < v" "0 < c"
  shows "(if side = BUY then x \<le> e else e \<le> x) \<Longrightarrow> grossPnlQuote side e x (Fin v) (Fin c) \<le> Fin 0"
    and "(if side = BUY then e \<le> x else x \<le> e) \<Longrightarrow> Fin 0 \<le> grossPnlQuote side e x (Fin v) (Fin c)"
proof -
  have up: "x \<le> e \<Longrightarrow> (x - e) * Fin v * Fin c \<le> Fin 0" and dn: "e \<le> x \<Longrightarrow> Fin 0 \<le> (x - e) * Fin v * Fin c"
    using assms number_diff_sign [of x e] number_diff_sign [of e x]
    by (simp_all add: number_mult_nonneg number_mult_nonpos)
  then show "(if side = BUY then x \<le> e else e \<le> x) \<Longrightarrow> grossPnlQuote side e x (Fin v) (Fin c) \<le> Fin 0"
    and "(if side = BUY then e \<le> x else x \<le> e) \<Longrightarrow> Fin 0 \<le> grossPnlQuote side e x (Fin v) (Fin c)"
    by (cases side; simp add: grossPnlQuote_def direction_def number_mult_direction)+
qed

text \<open>
  A stop-loss and a take-profit accepted for a reference price are not hit at that price, and
  closing at them has the right sign: at the stop-loss the gross result is never a gain and at
  the take-profit never a loss, for either side.
\<close>

theorem validated_stops_sound:
  assumes "validateStops side e sl tp = None" and "isFinite e" and "0 < v" and "0 < c"
  shows "(markPrice side q = e \<longrightarrow> checkStops side q sl tp = None)
    \<and> (\<forall>s. stopExitPrice STOP_LOSS sl tp = Some s \<longrightarrow> grossPnlQuote side e s (Fin v) (Fin c) \<le> Fin 0)
    \<and> (\<forall>t. stopExitPrice TAKE_PROFIT sl tp = Some t \<longrightarrow> Fin 0 \<le> grossPnlQuote side e t (Fin v) (Fin c))"
proof -
  have sl: "isFinite s \<and> (if side = BUY then s < e else e < s)" if "sl = Some s" for s
    using assms(1,2) that by (intro stop_loss_valid_side) (auto simp: validateStops_def split: if_splits)
  have tp: "isFinite t \<and> (if side = BUY then e < t else t < e)" if "tp = Some t" for t
    using assms(1,2) that
    by (intro take_profit_valid_side) (auto simp: validateStops_def split: if_splits option.splits)
  have "markPrice side q = e \<Longrightarrow> checkStops side q sl tp = None"
    using sl tp assms(2) by (cases sl; cases tp; cases side)
      (fastforce simp: checkStops_def isFinite_iff)+
  moreover have "grossPnlQuote side e s (Fin v) (Fin c) \<le> Fin 0" if "sl = Some s" for s
    using sl [OF that] assms by (intro grossPnlQuote_sign) (auto intro: number_less_imp_le split: if_splits)
  moreover have "Fin 0 \<le> grossPnlQuote side e t (Fin v) (Fin c)" if "tp = Some t" for t
    using tp [OF that] assms by (intro grossPnlQuote_sign) (auto intro: number_less_imp_le split: if_splits)
  ultimately show ?thesis by (simp add: stopExitPrice_def)
qed

theorem validated_stops_sound_witness:
  "grossPnlQuote BUY (Fin 100) (Fin 90) (Fin 2) (Fin 10) \<le> Fin 0
   \<and> Fin 0 \<le> grossPnlQuote BUY (Fin 100) (Fin 120) (Fin 2) (Fin 10)"
proof -
  have "validateStops BUY (Fin 100) (Some (Fin 90)) (Some (Fin 120)) = None"
    by (simp add: validateStops_def stopLossInvalid_def takeProfitInvalid_def)
  from validated_stops_sound [OF this, of 2 10 "\<lparr>bid = Fin 100, ask = Fin 101\<rparr>"] show ?thesis
    by (simp add: stopExitPrice_def)
qed

text \<open>
  Stop evaluation decides exactly as documented: the stop-loss wins whenever it is hit, even
  if the take-profit is hit on the same tick, and the take-profit fires only when it alone is hit.
\<close>

theorem checkStops_priority:
  "checkStops side q sl tp =
     (if \<exists>s. sl = Some s \<and> (if side = BUY then bid q \<le> s else s \<le> ask q) then Some STOP_LOSS
      else if \<exists>t. tp = Some t \<and> (if side = BUY then t \<le> bid q else ask q \<le> t) then Some TAKE_PROFIT
      else None)"
  by (cases sl; cases tp; cases side) (simp_all add: checkStops_def markPrice_def)

text \<open>
  A pending order whose price was accepted for a quote is not triggered by that same quote, and
  a triggered LIMIT order never fills at a price worse than its own.
\<close>

theorem pending_price_sound:
  assumes "validatePendingPrice side type (Some p) q = None" and "type \<noteq> MARKET"
    and "isFinite (ask q)" and "isFinite (bid q)" and "isFinite (ask r)" and "isFinite (bid r)"
  shows "\<not> pendingTriggered side type p q
    \<and> (type = LIMIT \<longrightarrow>
         (if side = BUY then pendingFillPrice side type p r \<le> p else p \<le> pendingFillPrice side type p r))"
proof -
  have p: "isFinite p" using assms(1) by (simp add: validatePendingPrice_def split: if_splits)
  have "\<not> pendingTriggered side type p q"
    using assms p by (cases type; cases side)
      (auto simp: validatePendingPrice_def pendingTriggered_def isFinite_iff split: if_splits)
  moreover have "if side = BUY then pendingFillPrice side LIMIT p r \<le> p else p \<le> pendingFillPrice side LIMIT p r"
    using assms(5,6) p by (auto simp: pendingFillPrice_def isFinite_iff)
  ultimately show ?thesis by (cases side) auto
qed

theorem pending_price_sound_witness:
  "\<not> pendingTriggered BUY LIMIT (Fin 90) \<lparr>bid = Fin 99, ask = Fin 100\<rparr>
   \<and> pendingFillPrice BUY LIMIT (Fin 90) \<lparr>bid = Fin 80, ask = Fin 85\<rparr> \<le> Fin 90"
proof -
  have "validatePendingPrice BUY LIMIT (Some (Fin 90)) \<lparr>bid = Fin 99, ask = Fin 100\<rparr> = None"
    by (simp add: validatePendingPrice_def)
  from pending_price_sound [OF this, of "\<lparr>bid = Fin 80, ask = Fin 85\<rparr>"] show ?thesis by simp
qed

lemma Fin_rnd_fixed: "rnd x = Fin b \<Longrightarrow> rnd b = Fin b"
  by (auto simp: rnd_def Let_def split: if_splits)

lemma roundPrice_fixed_double: "\<bar>d\<bar> \<le> 22 \<Longrightarrow> roundPrice x d = Fin b \<Longrightarrow> rnd b = Fin b"
proof -
  assume d: "\<bar>d\<bar> \<le> 22" and x: "roundPrice x d = Fin b"
  obtain s where s: "pow10 d = Fin s" "0 < s" using d by (rule pow10_Fin)
  from x s show ?thesis unfolding roundPrice_def Let_def
    by (cases "Math_round (x * Fin s)") (auto intro: Fin_rnd_fixed)
qed

lemma number_widen:
  assumes "rnd b = Fin b" and "Fin 0 \<le> h"
  shows "Fin b - h \<le> Fin b" and "Fin b \<le> Fin b + h"
  using assms rnd_mono [of "b - _" b] rnd_mono [of b "b + _"]
  by (cases h; simp add: minus_number_def plus_number_def)+

text \<open>
  The spread markup only ever widens a quote: the effective bid is at most the raw bid and the
  effective ask at least the raw ask, for raw prices already on the instrument's price grid.
\<close>

theorem applyMarkup_widens:
  assumes d: "\<bar>d\<bar> \<le> 22" and pts: "isFinite pts" and b: "0 \<le> b" and "bid q = Fin b" and "ask q = Fin a"
    and grid: "roundPrice (Fin b) d = Fin b" "roundPrice (Fin a) d = Fin a"
  shows "bid (applyMarkup q pts d) \<le> bid q \<and> ask q \<le> ask (applyMarkup q pts d)"
proof (cases "truthy pts \<and> \<not> pts \<le> Fin 0")
  case False
  then show ?thesis using assms by (auto simp: applyMarkup_def)
next
  case True
  note price = roundPrice_rounding [OF d]
  define half where "half = (pts / lit 2) * pow10 (- d)"
  obtain s where s: "pow10 (- d) = Fin s" "0 < s" using d pow10_Fin [of "- d"] by auto
  have "Fin 0 \<le> pts / Fin 2" using True pts by (cases pts) auto
  then have half: "Fin 0 \<le> half" unfolding half_def s(1) using s(2) by (simp add: number_mult_nonneg)
  have eq: "applyMarkup q pts d = \<lparr>bid = roundPrice (Math_max (lit 0) (Fin b - half)) d, ask = roundPrice (Fin a + half) d\<rparr>"
    using True assms(4,5) by (simp add: applyMarkup_def half_def Let_def)
  note db = roundPrice_fixed_double [OF d grid(1)] and da = roundPrice_fixed_double [OF d grid(2)]
  have "Math_max (Fin 0) (Fin b - half) \<le> Fin b"
    using number_widen(1) [OF db half] b by (auto simp: Math_max_def)
  moreover have "Fin a \<le> Fin a + half" by (rule number_widen(2) [OF da half])
  ultimately show ?thesis
    using monotone_rounding.rd_upper [OF price _ grid(1)] monotone_rounding.rd_lower [OF price _ grid(2)]
    by (simp add: eq assms(4,5))
qed

theorem applyMarkup_widens_witness:
  "bid (applyMarkup \<lparr>bid = Fin 100, ask = Fin 102\<rparr> (Fin 4) 0) \<le> Fin 100"
proof -
  have "roundPrice (Fin 100) 0 = Fin 100" "roundPrice (Fin 102) 0 = Fin 102"
    by (simp_all add: roundPrice_def pow10_def)
  from applyMarkup_widens [OF _ _ _ _ _ this, of "Fin 4" "\<lparr>bid = Fin 100, ask = Fin 102\<rparr>"] show ?thesis
    by simp
qed

end
