(* ===== verification/Database.thy ===== *)
theory Database
  imports ChallengeRules TradingMath
begin

text \<open>
  The tables the services read and write (\<open>prisma/schema.prisma\<close>, \<open>src/types/index.ts\<close>) and the Prisma
  operations they use. A table is the list of its rows in creation order, ids are natural numbers
  drawn from \<open>next_id\<close>, instants are integers (milliseconds), a nullable column is an option. A
  transaction is a function from the database to an error or a result with the new database: an error
  leaves the database as it was. Columns nothing here reads (\<open>updatedAt\<close>, JSON payloads of audit
  rows, display texts) are left out.
\<close>

section \<open>Templates\<close>

datatype TemplateStatus = TPL_DRAFT | TPL_ACTIVE | TPL_INACTIVE | TPL_ARCHIVED

datatype ProgramType = STANDARD | SWING_TRADER | AGGRESSIVE | INSTANT_FUNDING | CONSISTENCY | ELITE | CRYPTO_PROGRAM

record TemplateRules =
  tpl_id :: nat
  tpl_name :: string
  tpl_price :: number
  tpl_currency :: string
  tpl_phase :: TemplatePhase
  tpl_programType :: ProgramType
  tpl_groupName :: string
  tpl_groupKey :: string
  tpl_startingBalance :: number
  tpl_accountSize :: number
  tpl_leverage :: number
  tpl_accountCurrency :: string
  tpl_profitTarget :: "number option"
  tpl_profitSplit :: number
  tpl_maxDrawdown :: number
  tpl_drawdownMode :: "DrawdownMode option"
  tpl_dailyDrawdown :: number
  tpl_minTradingDays :: int
  tpl_maxPositionSize :: "number option"
  tpl_maxPositions :: "int option"
  tpl_durationDays :: "int option"
  tpl_weekendHoldingAllowed :: bool
  tpl_overnightHoldingAllowed :: bool
  tpl_newsTradingAllowed :: bool
  tpl_stopLossRequired :: bool
  tpl_dailyLossResetTime :: "string option"
  tpl_consistencyRequirement :: "number option"
  tpl_nextPhaseId :: "nat option"

text \<open>\<open>TemplateSnapshot\<close>: the frozen rules with the frozen next phase.\<close>

datatype TemplateSnapshot = Snapshot (rules: TemplateRules) (nextPhaseSnapshot: "TemplateSnapshot option")

record Template =
  tmpl_rules :: TemplateRules
  tmpl_status :: TemplateStatus

definition toTemplateSnapshot :: "Template \<Rightarrow> TemplateSnapshot option \<Rightarrow> TemplateSnapshot" where
  "toTemplateSnapshot template nextPhase = Snapshot (tmpl_rules template) nextPhase"

section \<open>Accounts and trading rows\<close>

record TradingAccount =
  acc_id :: nat
  acc_userId :: nat
  acc_purchaseId :: "nat option"
  acc_templateId :: "nat option"
  acc_previousAccountId :: "nat option"
  acc_snapshot :: TemplateSnapshot
  acc_phase :: TemplatePhase
  acc_status :: AccountStatus
  acc_startingBalance :: number
  acc_balance :: number
  acc_equity :: number
  acc_highWaterMark :: number
  acc_dailyAnchorBalance :: number
  acc_dailyAnchorDate :: int
  acc_realizedPnl :: number
  acc_tradeCount :: nat
  acc_winCount :: nat
  acc_lossCount :: nat
  acc_grossProfit :: number
  acc_grossLoss :: number
  acc_marginUsed :: number
  acc_lastTradeAt :: "int option"
  acc_expiresAt :: "int option"
  acc_failureReason :: "FailureReason option"
  acc_statusChangedAt :: int
  acc_passedAt :: "int option"
  acc_failedAt :: "int option"
  acc_fundedAt :: "int option"
  acc_createdAt :: int

datatype PositionStatus = POS_OPEN | POS_CLOSED

datatype CloseReason = CR_MANUAL | CR_STOP_LOSS | CR_TAKE_PROFIT | CR_BREACH | CR_ADMIN | CR_STOP_OUT | CR_EXPIRED
  | CR_WEEKEND | CR_OVERNIGHT | CR_NEWS

record Position =
  pos_id :: nat
  pos_accountId :: nat
  pos_symbol :: string
  pos_side :: Side
  pos_volume :: number
  pos_entryPrice :: number
  pos_stopLoss :: "number option"
  pos_takeProfit :: "number option"
  pos_currentPrice :: "number option"
  pos_floatingPnl :: number
  pos_marginUsed :: number
  pos_status :: PositionStatus
  pos_openedAt :: int
  pos_entryTickTs :: "int option"
  pos_feedSource :: "string option"
  pos_closedAt :: "int option"
  pos_closePrice :: "number option"
  pos_closeReason :: "CloseReason option"

datatype OrderStatus = ORD_PENDING | ORD_FILLED | ORD_CANCELLED | ORD_REJECTED

record Order =
  ord_id :: nat
  ord_accountId :: nat
  ord_symbol :: string
  ord_clientOrderId :: string
  ord_side :: Side
  ord_type :: OrderKind
  ord_volume :: number
  ord_price :: "number option"
  ord_stopLoss :: "number option"
  ord_takeProfit :: "number option"
  ord_status :: OrderStatus
  ord_rejectReason :: "string option"
  ord_filledPrice :: "number option"
  ord_filledAt :: "int option"
  ord_positionId :: "nat option"

datatype TradeStatus = TRD_OPEN | TRD_CLOSED

record Trade =
  trd_id :: nat
  trd_accountId :: nat
  trd_symbol :: string
  trd_side :: Side
  trd_volume :: number
  trd_entryPrice :: number
  trd_exitPrice :: "number option"
  trd_stopLoss :: "number option"
  trd_takeProfit :: "number option"
  trd_openTime :: int
  trd_closeTime :: "int option"
  trd_profit :: number
  trd_commission :: number
  trd_swap :: number
  trd_netProfit :: number
  trd_status :: TradeStatus
  trd_archivedAt :: "int option"
  trd_positionId :: "nat option"
  trd_closeReason :: "CloseReason option"
  trd_entryTickTs :: "int option"
  trd_exitTickTs :: "int option"
  trd_feedSource :: "string option"
  trd_quoteCurrency :: "string option"
  trd_fxRate :: "number option"

datatype LedgerEntryType = LE_PURCHASE | LE_REFUND | LE_TRADE_PNL | LE_COMMISSION | LE_SWAP | LE_PAYOUT | LE_ADJUSTMENT

record LedgerEntry =
  led_userId :: nat
  led_accountId :: "nat option"
  led_purchaseId :: "nat option"
  led_type :: LedgerEntryType
  led_amount :: number
  led_currency :: string
  led_fxRate :: "number option"
  led_refType :: string
  led_refId :: nat

record EquitySnapshot =
  eqs_accountId :: nat
  eqs_at :: int
  eqs_balance :: number
  eqs_equity :: number
  eqs_marginUsed :: number

datatype CertificateType = CERT_CHALLENGE_PASSED | CERT_FUNDED | CERT_PAYOUT

record Certificate =
  crt_type :: CertificateType
  crt_ref :: nat
  crt_userId :: nat
  crt_accountId :: "nat option"
  crt_amount :: "number option"

record AuditLog =
  aud_actorId :: "nat option"
  aud_action :: string
  aud_targetType :: string
  aud_targetId :: nat

record Notification =
  ntf_userId :: nat
  ntf_title :: string

datatype InstrumentCategory = FOREX | METAL | CRYPTO | INDEX

record Instrument = VolumeLimits +
  ins_symbol :: string
  ins_category :: InstrumentCategory
  ins_baseCurrency :: string
  ins_quoteCurrency :: string
  ins_digits :: int
  ins_contractSize :: number
  ins_spreadMarkupPoints :: number
  ins_commissionPerLot :: number
  ins_enabled :: bool
  ins_sortOrder :: int

text \<open>The trading part of the database.\<close>

record db =
  accounts_t :: "TradingAccount list"
  positions_t :: "Position list"
  orders_t :: "Order list"
  trades_t :: "Trade list"
  ledger_t :: "LedgerEntry list"
  equity_t :: "EquitySnapshot list"
  certificates_t :: "Certificate list"
  audit_t :: "AuditLog list"
  notifications_t :: "Notification list"
  templates_t :: "Template list"
  instruments_t :: "Instrument list"
  next_id :: nat

section \<open>Prisma operations\<close>

datatype db_error = NotFoundError | UniqueViolation string | ConflictError string | BadRequest string | Forbidden string | ServiceFault string

definition findUnique :: "('r \<Rightarrow> bool) \<Rightarrow> 'r list \<Rightarrow> 'r option" where
  "findUnique p rows = List.find p rows"

text \<open>\<open>updateMany\<close> returns the number of rows it changed.\<close>

definition updateMany :: "('r \<Rightarrow> bool) \<Rightarrow> ('r \<Rightarrow> 'r) \<Rightarrow> 'r list \<Rightarrow> nat \<times> 'r list" where
  "updateMany p f rows = (length (filter p rows), map (\<lambda>r. if p r then f r else r) rows)"

definition logAudit :: "nat option \<Rightarrow> string \<Rightarrow> string \<Rightarrow> nat \<Rightarrow> db \<Rightarrow> db" where
  "logAudit actor action targetType targetId d =
     d\<lparr>audit_t := audit_t d @ [\<lparr>aud_actorId = actor, aud_action = action, aud_targetType = targetType,
       aud_targetId = targetId\<rparr>]\<rparr>"

definition notifyUser :: "nat \<Rightarrow> string \<Rightarrow> db \<Rightarrow> db" where
  "notifyUser user title d = d\<lparr>notifications_t := notifications_t d @ [\<lparr>ntf_userId = user, ntf_title = title\<rparr>]\<rparr>"

definition accountRow :: "nat \<Rightarrow> db \<Rightarrow> TradingAccount option" where
  "accountRow i d = findUnique (\<lambda>r. acc_id r = i) (accounts_t d)"

definition positionRow :: "nat \<Rightarrow> db \<Rightarrow> Position option" where
  "positionRow i d = findUnique (\<lambda>r. pos_id r = i) (positions_t d)"

definition updateAccount :: "nat \<Rightarrow> (TradingAccount \<Rightarrow> TradingAccount) \<Rightarrow> db \<Rightarrow> db" where
  "updateAccount i f d = d\<lparr>accounts_t := snd (updateMany (\<lambda>r. acc_id r = i) f (accounts_t d))\<rparr>"

lemma find_map_key:
  assumes "\<And>r. key (f r) = key r"
  shows "List.find (\<lambda>r. key r = k) (map (\<lambda>r. if key r = j then f r else r) rows) =
    map_option (\<lambda>r. if key r = j then f r else r) (List.find (\<lambda>r. key r = k) rows)"
  by (induction rows) (auto simp: assms)

lemma updateMany_count_0: "fst (updateMany p f rows) = 0 \<longleftrightarrow> (\<forall>r\<in>set rows. \<not> p r)"
  by (simp add: updateMany_def filter_empty_conv)

lemma updateMany_none: "\<forall>r\<in>set rows. \<not> p r \<Longrightarrow> snd (updateMany p f rows) = rows"
  by (simp add: updateMany_def map_idI)

lemma updateMany_length [simp]: "length (snd (updateMany p f rows)) = length rows"
  by (simp add: updateMany_def)

lemma findUnique_Some: "findUnique p rows = Some r \<Longrightarrow> r \<in> set rows \<and> p r"
  by (simp add: findUnique_def find_Some_iff) (metis nth_mem)

lemma accountRow_update [row_simps]:
  assumes "\<And>r. acc_id (f r) = acc_id r"
  shows "accountRow i (updateAccount j f d) = map_option (\<lambda>r. if i = j then f r else r) (accountRow i d)"
proof -
  have "accountRow i (updateAccount j f d) = map_option (\<lambda>r. if acc_id r = j then f r else r) (accountRow i d)"
    using find_map_key [of acc_id f i j] assms by (simp add: accountRow_def updateAccount_def findUnique_def updateMany_def)
  also have "\<dots> = map_option (\<lambda>r. if i = j then f r else r) (accountRow i d)"
    by (cases "accountRow i d") (auto simp: accountRow_def dest: findUnique_Some)
  finally show ?thesis .
qed

lemma accountRow_id: "accountRow i d = Some r \<Longrightarrow> acc_id r = i"
  by (auto simp: accountRow_def dest: findUnique_Some)

lemma positionRow_id: "positionRow i d = Some r \<Longrightarrow> pos_id r = i"
  by (auto simp: positionRow_def dest: findUnique_Some)

lemma log_rows [simp]:
  "accounts_t (logAudit a b c i d) = accounts_t d" "accounts_t (notifyUser u t d) = accounts_t d"
  "positions_t (logAudit a b c i d) = positions_t d" "positions_t (notifyUser u t d) = positions_t d"
  "orders_t (logAudit a b c i d) = orders_t d" "orders_t (notifyUser u t d) = orders_t d"
  "trades_t (logAudit a b c i d) = trades_t d" "trades_t (notifyUser u t d) = trades_t d"
  "ledger_t (logAudit a b c i d) = ledger_t d" "ledger_t (notifyUser u t d) = ledger_t d"
  "equity_t (logAudit a b c i d) = equity_t d" "equity_t (notifyUser u t d) = equity_t d"
  "certificates_t (logAudit a b c i d) = certificates_t d" "certificates_t (notifyUser u t d) = certificates_t d"
  "templates_t (logAudit a b c i d) = templates_t d" "templates_t (notifyUser u t d) = templates_t d"
  "instruments_t (logAudit a b c i d) = instruments_t d" "instruments_t (notifyUser u t d) = instruments_t d"
  "next_id (logAudit a b c i d) = next_id d" "next_id (notifyUser u t d) = next_id d"
  by (simp_all add: logAudit_def notifyUser_def)

lemma accountRow_cong: "accounts_t d = accounts_t d' \<Longrightarrow> accountRow i d = accountRow i d'"
  by (simp add: accountRow_def)

section \<open>Claims\<close>

text \<open>
  The services claim a state change with \<open>updateMany WHERE id = k AND status = s\<close> and act only when one
  row was changed. A provider of claims keeps keys, takes the row out of the claimed status, and does
  nothing when no row is in it; clients conclude that a claim is won at most once.
\<close>

locale claims =
  fixes claim :: "nat \<Rightarrow> 'r list \<Rightarrow> nat \<times> 'r list"
    and claimable :: "nat \<Rightarrow> 'r list \<Rightarrow> bool"
  assumes claim_some: "fst (claim k rows) \<noteq> 0 \<longleftrightarrow> claimable k rows"
    and claim_leaves: "\<not> claimable k (snd (claim k rows))"
    and claim_lost: "\<not> claimable k rows \<Longrightarrow> snd (claim k rows) = rows"
begin

lemma claim_once: "fst (claim k (snd (claim k rows))) = 0"
  using claim_leaves claim_some by blast

lemma claim_idem: "snd (claim k (snd (claim k rows))) = snd (claim k rows)"
  using claim_leaves by (rule claim_lost)

lemma exactly_one_winner:
  "claimable k rows \<Longrightarrow> fst (claim k rows) \<noteq> 0 \<and> fst (claim k (snd (claim k rows))) = 0"
  using claim_some claim_once by blast

end

lemma updateMany_claims:
  assumes "\<And>k r. p k r \<Longrightarrow> \<not> p k (f k r)"
  shows "claims (\<lambda>k. updateMany (p k) (f k)) (\<lambda>k rows. \<exists>r\<in>set rows. p k r)"
  using assms by unfold_locales (auto simp: updateMany_def filter_empty_conv map_idI)

section \<open>A sample challenge\<close>

text \<open>Concrete rows for the examples: a 10000 ETB first phase, 10 percent drawdown, 5 percent daily loss, 8 percent target.\<close>

definition emptyDb :: db where
  "emptyDb = \<lparr>accounts_t = [], positions_t = [], orders_t = [], trades_t = [], ledger_t = [], equity_t = [],
     certificates_t = [], audit_t = [], notifications_t = [], templates_t = [], instruments_t = [], next_id = 100\<rparr>"

definition sampleRules :: TemplateRules where
  "sampleRules = \<lparr>tpl_id = 1, tpl_name = ''Standard'', tpl_price = Fin 1000, tpl_currency = ''ETB'', tpl_phase = PHASE_1,
     tpl_programType = STANDARD, tpl_groupName = ''Standard'', tpl_groupKey = ''std'', tpl_startingBalance = Fin 10000,
     tpl_accountSize = Fin 10000, tpl_leverage = Fin 100, tpl_accountCurrency = ''ETB'', tpl_profitTarget = Some (Fin 8),
     tpl_profitSplit = Fin 80, tpl_maxDrawdown = Fin 10, tpl_drawdownMode = Some STATIC, tpl_dailyDrawdown = Fin 5,
     tpl_minTradingDays = 0, tpl_maxPositionSize = None, tpl_maxPositions = None, tpl_durationDays = None,
     tpl_weekendHoldingAllowed = True, tpl_overnightHoldingAllowed = True, tpl_newsTradingAllowed = True,
     tpl_stopLossRequired = False, tpl_dailyLossResetTime = Some ''00:00 UTC'', tpl_consistencyRequirement = None,
     tpl_nextPhaseId = None\<rparr>"

definition fundedRules :: TemplateRules where
  "fundedRules = sampleRules\<lparr>tpl_id := 2, tpl_phase := PHASE_FUNDED, tpl_profitTarget := None\<rparr>"

definition sampleSnapshot :: TemplateSnapshot where
  "sampleSnapshot = Snapshot sampleRules (Some (Snapshot fundedRules None))"

definition sampleAccount :: TradingAccount where
  "sampleAccount = \<lparr>acc_id = 7, acc_userId = 3, acc_purchaseId = None, acc_templateId = Some 1, acc_previousAccountId = None,
     acc_snapshot = sampleSnapshot, acc_phase = PHASE_1, acc_status = ACTIVE, acc_startingBalance = Fin 10000,
     acc_balance = Fin 10000, acc_equity = Fin 10000, acc_highWaterMark = Fin 10000, acc_dailyAnchorBalance = Fin 10000,
     acc_dailyAnchorDate = 86400000, acc_realizedPnl = Fin 0, acc_tradeCount = 0, acc_winCount = 0, acc_lossCount = 0,
     acc_grossProfit = Fin 0, acc_grossLoss = Fin 0, acc_marginUsed = Fin 0, acc_lastTradeAt = None, acc_expiresAt = None,
     acc_failureReason = None, acc_statusChangedAt = 0, acc_passedAt = None, acc_failedAt = None, acc_fundedAt = None,
     acc_createdAt = 0\<rparr>"

definition sampleTrade :: "nat \<Rightarrow> number \<Rightarrow> Trade" where
  "sampleTrade i net = \<lparr>trd_id = i, trd_accountId = 7, trd_symbol = ''EURUSD'', trd_side = BUY, trd_volume = Fin 1,
     trd_entryPrice = Fin 1, trd_exitPrice = Some (Fin 1), trd_stopLoss = None, trd_takeProfit = None, trd_openTime = 86400000, trd_closeTime = Some 86500000,
     trd_profit = net, trd_commission = Fin 0, trd_swap = Fin 0, trd_netProfit = net, trd_status = TRD_CLOSED,
     trd_archivedAt = None, trd_positionId = None, trd_closeReason = Some CR_MANUAL,
     trd_entryTickTs = None, trd_exitTickTs = None, trd_feedSource = None, trd_quoteCurrency = None, trd_fxRate = None\<rparr>"

end
