(* ===== verification/JsString.thy ===== *)
theory JsString
  imports Prelude
begin

text \<open>
  What the program uses of JavaScript strings: case mapping, \<open>trim\<close>, digit runs and decimal
  rendering. A string is the list of its characters; the code's inputs here (currency codes, reset
  times, phone numbers, coupon codes) are ASCII, so case mapping is the ASCII one.
\<close>

definition code :: "char \<Rightarrow> nat" where
  "code c = of_char c"

definition upper_char :: "char \<Rightarrow> char" where
  "upper_char c = (if 97 \<le> code c \<and> code c \<le> 122 then char_of (code c - 32) else c)"

definition toUpperCase :: "string \<Rightarrow> string" where
  "toUpperCase s = map upper_char s"

definition is_space :: "char \<Rightarrow> bool" where
  "is_space c \<longleftrightarrow> code c = 32 \<or> (9 \<le> code c \<and> code c \<le> 13)"

definition trim :: "string \<Rightarrow> string" where
  "trim s = rev (dropWhile is_space (rev (dropWhile is_space s)))"

definition is_digit :: "char \<Rightarrow> bool" where
  "is_digit c \<longleftrightarrow> 48 \<le> code c \<and> code c \<le> 57"

definition digit_val :: "char \<Rightarrow> int" where
  "digit_val c = int (code c) - 48"

definition is_letter :: "char \<Rightarrow> bool" where
  "is_letter c \<longleftrightarrow> (65 \<le> code c \<and> code c \<le> 90) \<or> (97 \<le> code c \<and> code c \<le> 122)"

text \<open>The value of a run of digits, as \<open>Number(...)\<close> reads it.\<close>

definition digits_val :: "string \<Rightarrow> int" where
  "digits_val ds = foldl (\<lambda>n c. 10 * n + digit_val c) 0 ds"

definition dig :: "nat \<Rightarrow> char" where
  "dig n = char_of (48 + n mod 10)"

lemma code_dig [simp]: "code (dig n) = 48 + n mod 10"
  by (simp add: dig_def code_def)

lemma is_digit_dig [simp]: "is_digit (dig n)"
  using mod_less_divisor [of 10 n] by (simp add: is_digit_def)

lemma digit_val_dig [simp]: "digit_val (dig n) = int (n mod 10)"
  by (simp add: digit_val_def)

lemma digit_val_bounds: "is_digit c \<Longrightarrow> 0 \<le> digit_val c \<and> digit_val c \<le> 9"
  by (simp add: is_digit_def digit_val_def)

lemma digits_val_nonneg_aux:
  "0 \<le> n \<Longrightarrow> \<forall>c\<in>set ds. is_digit c \<Longrightarrow> 0 \<le> foldl (\<lambda>n c. 10 * n + digit_val c) n ds"
proof (induction ds arbitrary: n)
  case (Cons d ds)
  have "0 \<le> 10 * n + digit_val d" using Cons.prems digit_val_bounds [of d] by simp
  with Cons.IH [of "10 * n + digit_val d"] Cons.prems show ?case by simp
qed simp

lemma digits_val_nonneg: "\<forall>c\<in>set ds. is_digit c \<Longrightarrow> 0 \<le> digits_val ds"
  unfolding digits_val_def by (rule digits_val_nonneg_aux) simp_all

lemma upper_char_idem [simp]: "upper_char (upper_char c) = upper_char c"
  by (auto simp: upper_char_def code_def)

lemma toUpperCase_idem [simp]: "toUpperCase (toUpperCase s) = toUpperCase s"
  by (simp add: toUpperCase_def)

lemma trim_id: "s = [] \<or> \<not> is_space (hd s) \<and> \<not> is_space (last s) \<Longrightarrow> trim s = s"
proof -
  assume s: "s = [] \<or> \<not> is_space (hd s) \<and> \<not> is_space (last s)"
  have "dropWhile is_space s = s" using s by (cases s) auto
  moreover have "dropWhile is_space (rev s) = rev s" using s by (cases "rev s") (auto simp: hd_rev [symmetric])
  ultimately show ?thesis by (simp add: trim_def)
qed

text \<open>\<open>s.toLowerCase()\<close>, \<open>s.startsWith(p)\<close> and \<open>s.split(sep)\<close>.\<close>

definition lower_char :: "char \<Rightarrow> char" where
  "lower_char c = (if 65 \<le> code c \<and> code c \<le> 90 then char_of (code c + 32) else c)"

definition toLowerCase :: "string \<Rightarrow> string" where
  "toLowerCase s = map lower_char s"

definition startsWith :: "string \<Rightarrow> string \<Rightarrow> bool" where
  "startsWith s p \<longleftrightarrow> take (length p) s = p"

fun splitAt :: "char \<Rightarrow> string \<Rightarrow> string list" where
  "splitAt sep [] = [[]]"
| "splitAt sep (c # cs) = (if c = sep then [] # splitAt sep cs
     else (case splitAt sep cs of [] \<Rightarrow> [[c]] | p # ps \<Rightarrow> (c # p) # ps))"

text \<open>Splitting is undone by joining with the separator.\<close>

fun joinWith :: "char \<Rightarrow> string list \<Rightarrow> string" where
  "joinWith sep [] = []"
| "joinWith sep [p] = p"
| "joinWith sep (p # q # ps) = p @ sep # joinWith sep (q # ps)"

lemma splitAt_nonempty [simp]: "splitAt sep s \<noteq> []"
  by (induction s) (auto split: list.splits)

lemma join_split: "joinWith sep (splitAt sep s) = s"
proof (induction s)
  case (Cons c s)
  obtain p ps where "splitAt sep s = p # ps" by (cases "splitAt sep s") auto
  with Cons show ?case by (cases ps) auto
qed simp

lemma split_plain: "sep \<notin> set s \<Longrightarrow> splitAt sep s = [s]"
  by (induction s) auto

lemma split_append: "sep \<notin> set s \<Longrightarrow> splitAt sep (s @ sep # t) = s # splitAt sep t"
  by (induction s) auto

lemma split_parts: "p \<in> set (splitAt sep s) \<Longrightarrow> sep \<notin> set p"
proof (induction s arbitrary: p)
  case (Cons c s)
  obtain q qs where s: "splitAt sep s = q # qs" by (cases "splitAt sep s") auto
  with Cons show ?case by (auto split: if_splits)
qed simp

text \<open>\<open>Math.ceil(ms / 1000)\<close> for whole milliseconds.\<close>

definition ceilSeconds :: "int \<Rightarrow> int" where
  "ceilSeconds ms = - ((- ms) div 1000)"

lemma ceilSeconds_bound: "ms \<le> 1000 * ceilSeconds ms"
  unfolding ceilSeconds_def by presburger

end
