(* ===== verification/Clock.thy ===== *)
theory Clock
  imports JsString
begin

text \<open>
  The two clocks of the rules: the daily-loss boundary of \<open>src/lib/services/dailyReset.ts\<close> and the
  New York trading session of \<open>src/trading/sessions.ts\<close>. Instants are integers (epoch
  milliseconds), a calendar date is its day number (days since 1970-01-01), so that
  \<open>Date.UTC (getUTCFullYear d) (getUTCMonth d) (getUTCDate d)\<close> is the floor of the instant to a day.
\<close>

section \<open>Dates\<close>

definition MINUTE :: int where "MINUTE = 60000"
definition DAY_MS :: int where "DAY_MS = 86400000"

definition utcDate :: "int \<Rightarrow> int" where
  "utcDate ms = ms div DAY_MS"

text \<open>\<open>Date.UTC\<close> of a date, hour and minute.\<close>

definition dateUTC :: "int \<Rightarrow> int \<Rightarrow> int \<Rightarrow> int" where
  "dateUTC d hour minute = d * DAY_MS + (hour * 60 + minute) * MINUTE"

text \<open>1970-01-01 was a Thursday; 0 is Sunday, as \<open>getUTCDay\<close> counts.\<close>

definition weekdayOf :: "int \<Rightarrow> int" where
  "weekdayOf d = (d + 4) mod 7"

section \<open>The daily-loss boundary\<close>

record ResetTime =
  rt_hour :: int
  rt_minute :: int
  offsetMinutes :: int

definition NAMED_ZONES :: "string \<rightharpoonup> int" where
  "NAMED_ZONES = map_of [(''UTC'', 0), (''GMT'', 0), (''EAT'', 3 * 60), (''CET'', 60), (''EET'', 120)]"

definition DEFAULT_RESET_TIME :: string where
  "DEFAULT_RESET_TIME = ''00:00 EAT''"

text \<open>The zone group of the regular expression: letters, or a sign and two pairs of digits.\<close>

definition zoneGroup :: "string \<Rightarrow> string option option" where
  "zoneGroup z =
     (if z = [] then Some None
      else if list_all is_letter z then Some (Some z)
      else case z of
        [s, a, b, c, d] \<Rightarrow> if s \<in> {CHR ''+'', CHR ''-''} \<and> list_all is_digit [a, b, c, d] then Some (Some z) else None
      | [s, a, b, k, c, d] \<Rightarrow>
          if s \<in> {CHR ''+'', CHR ''-''} \<and> k = CHR '':'' \<and> list_all is_digit [a, b, c, d] then Some (Some z) else None
      | _ \<Rightarrow> None)"

text \<open>\<open>text.match(...)\<close>: the three groups.\<close>

definition matchResetTime :: "string \<Rightarrow> (string \<times> string \<times> string option) option" where
  "matchResetTime t =
     (let h = takeWhile is_digit t; r = dropWhile is_digit t in
      if length h = 0 \<or> 2 < length h then None
      else case r of
        k # m1 # m2 # rest \<Rightarrow>
          if k = CHR '':'' \<and> is_digit m1 \<and> is_digit m2
          then map_option (\<lambda>z. (h, [m1, m2], z)) (zoneGroup (dropWhile is_space rest)) else None
      | _ \<Rightarrow> None)"

definition zoneOffset :: "string \<Rightarrow> int" where
  "zoneOffset zone =
     (case zone of
        s # rest \<Rightarrow>
          if s \<in> {CHR ''+'', CHR ''-''} then
            (let digits = filter (\<lambda>c. c \<noteq> CHR '':'') rest in
             (if s = CHR ''-'' then - 1 else 1) * (digits_val (take 2 digits) * 60 + digits_val (take 2 (drop 2 digits))))
          else (case NAMED_ZONES (toUpperCase zone) of Some n \<Rightarrow> n | None \<Rightarrow> 180)
      | [] \<Rightarrow> 180)"

definition resetTimeOf :: "string \<times> string \<times> string option \<Rightarrow> ResetTime" where
  "resetTimeOf g =
     (let (h, m, z) = g; zone = (case z of Some z \<Rightarrow> z | None \<Rightarrow> ''EAT'') in
      \<lparr>rt_hour = min 23 (max 0 (digits_val h)), rt_minute = min 59 (max 0 (digits_val m)),
       offsetMinutes = zoneOffset zone\<rparr>)"

definition parseResetTime :: "string option \<Rightarrow> ResetTime" where
  "parseResetTime input =
     (case matchResetTime (trim (case input of Some s \<Rightarrow> s | None \<Rightarrow> DEFAULT_RESET_TIME)) of
        Some g \<Rightarrow> resetTimeOf g
      | None \<Rightarrow> \<lparr>rt_hour = 0, rt_minute = 0, offsetMinutes = 180\<rparr>)"

definition currentDayStart :: "ResetTime \<Rightarrow> int \<Rightarrow> int" where
  "currentDayStart resetTime now =
     (let shifted = now + offsetMinutes resetTime * 60000;
          boundary = dateUTC (utcDate shifted) (rt_hour resetTime) (rt_minute resetTime);
          boundaryInstant = boundary - offsetMinutes resetTime * 60000
      in if boundaryInstant > now then boundaryInstant - DAY_MS else boundaryInstant)"

definition nextDayStart :: "ResetTime \<Rightarrow> int \<Rightarrow> int" where
  "nextDayStart resetTime now = currentDayStart resetTime now + DAY_MS"

definition needsDailyReset :: "int \<Rightarrow> ResetTime \<Rightarrow> int \<Rightarrow> bool" where
  "needsDailyReset anchorDate resetTime now \<longleftrightarrow> anchorDate < currentDayStart resetTime now"

text \<open>The day number stands for its \<open>YYYY-MM-DD\<close> rendering.\<close>

definition tradingDayKey :: "int \<Rightarrow> ResetTime \<Rightarrow> int" where
  "tradingDayKey instant resetTime =
     utcDate (instant + offsetMinutes resetTime * 60000 - (rt_hour resetTime * 60 + rt_minute resetTime) * 60000)"

definition reset_ok :: "ResetTime \<Rightarrow> bool" where
  "reset_ok rt \<longleftrightarrow> 0 \<le> rt_hour rt \<and> rt_hour rt \<le> 23 \<and> 0 \<le> rt_minute rt \<and> rt_minute rt \<le> 59"

lemma reset_ok_parse [intro, simp]: "reset_ok (parseResetTime s)"
  by (auto simp: reset_ok_def parseResetTime_def resetTimeOf_def Let_def split: option.splits prod.splits)

lemma parseResetTime_default: "parseResetTime None = \<lparr>rt_hour = 0, rt_minute = 0, offsetMinutes = 180\<rparr>"
  by code_simp

lemma floor_shift:
  assumes "0 \<le> m" "m < DAY_MS"
  shows "(s - m) div DAY_MS = (if s div DAY_MS * DAY_MS + m > s then s div DAY_MS - 1 else s div DAY_MS)"
proof -
  define q where "q = s div DAY_MS"
  have D: "0 < DAY_MS" by (simp add: DAY_MS_def)
  have s: "q * DAY_MS \<le> s" "s < q * DAY_MS + DAY_MS"
    using pos_mod_sign [OF D, of s] pos_mod_bound [OF D, of s] div_mult_mod_eq [of s DAY_MS]
    unfolding q_def by linarith+
  have u: "x div DAY_MS = k" if "k * DAY_MS \<le> x" "x < k * DAY_MS + DAY_MS" for x k
    using int_div_pos_eq [of x DAY_MS k "x - k * DAY_MS"] that by (simp add: mult.commute)
  show ?thesis unfolding q_def [symmetric]
    using s assms u [of "q - 1" "s - m"] u [of q "s - m"] by (auto simp: left_diff_distrib)
qed

lemma currentDayStart_eq:
  assumes "reset_ok rt"
  shows "currentDayStart rt now =
    ((now + offsetMinutes rt * 60000 - (rt_hour rt * 60 + rt_minute rt) * 60000) div DAY_MS) * DAY_MS
      + (rt_hour rt * 60 + rt_minute rt) * 60000 - offsetMinutes rt * 60000"
proof -
  have "0 \<le> (rt_hour rt * 60 + rt_minute rt) * 60000" "(rt_hour rt * 60 + rt_minute rt) * 60000 < DAY_MS"
    using assms by (auto simp: reset_ok_def DAY_MS_def)
  from floor_shift [OF this, of "now + offsetMinutes rt * 60000"] show ?thesis
    by (auto simp: currentDayStart_def Let_def dateUTC_def utcDate_def MINUTE_def left_diff_distrib)
qed

lemma currentDayStart_key:
  "reset_ok rt \<Longrightarrow> currentDayStart rt now =
     tradingDayKey now rt * DAY_MS + (rt_hour rt * 60 + rt_minute rt) * 60000 - offsetMinutes rt * 60000"
  by (simp add: currentDayStart_eq tradingDayKey_def utcDate_def)

text \<open>
  C5: The daily-loss boundary of an instant is the last one at or before it: it lies less than a day
  back and the next one is a day after it, a boundary is its own boundary, the boundary of the
  earlier of two instants is the earlier boundary (it is monotone), two instants share a boundary
  exactly when they share a trading-day key, and an anchor taken at any instant asks for a reset
  exactly from the next boundary on.
\<close>

theorem day_boundary_laws:
  "(let rt = parseResetTime text; b = currentDayStart rt now in
      b \<le> now \<and> now < b + DAY_MS \<and> nextDayStart rt now = b + DAY_MS
      \<and> currentDayStart rt b = b
      \<and> currentDayStart rt (min now other) = min b (currentDayStart rt other)
      \<and> (currentDayStart rt other = b \<longleftrightarrow> tradingDayKey other rt = tradingDayKey now rt)
      \<and> (needsDailyReset now rt other \<longleftrightarrow> nextDayStart rt now \<le> currentDayStart rt other))"
  (is "let rt = _; b = _ in ?P rt b")
proof -
  have "?P rt (currentDayStart rt now)" if ok: "reset_ok rt" for rt
  proof -
    define m where "m = (rt_hour rt * 60 + rt_minute rt) * 60000 - offsetMinutes rt * 60000"
    have D: "0 < DAY_MS" by (simp add: DAY_MS_def)
    have k: "tradingDayKey t rt = (t - m) div DAY_MS" for t
      by (simp add: tradingDayKey_def utcDate_def m_def algebra_simps)
    have b: "currentDayStart rt t = (t - m) div DAY_MS * DAY_MS + m" for t
      using currentDayStart_key [OF ok] k by (simp add: m_def)
    have lo: "currentDayStart rt t \<le> t" "t < currentDayStart rt t + DAY_MS" for t
      using pos_mod_sign [OF D, of "t - m"] pos_mod_bound [OF D, of "t - m"] div_mult_mod_eq [of "t - m" DAY_MS]
      unfolding b by linarith+
    have "now < currentDayStart rt other \<longleftrightarrow> currentDayStart rt now + DAY_MS \<le> currentDayStart rt other"
    proof
      assume "now < currentDayStart rt other"
      then have "(now - m) div DAY_MS * DAY_MS < (other - m) div DAY_MS * DAY_MS"
        using lo(1) [of now] unfolding b by linarith
      then have "(now - m) div DAY_MS + 1 \<le> (other - m) div DAY_MS" using D by simp
      then have "((now - m) div DAY_MS + 1) * DAY_MS \<le> (other - m) div DAY_MS * DAY_MS"
        using D by simp
      then show "currentDayStart rt now + DAY_MS \<le> currentDayStart rt other"
        unfolding b by (simp add: distrib_right)
    qed (use lo(2) [of now] in linarith)
    moreover have "currentDayStart rt (currentDayStart rt now) = currentDayStart rt now"
      using D unfolding b by simp
    moreover have mono: "currentDayStart rt t \<le> currentDayStart rt u" if "t \<le> u" for t u
      using zdiv_mono1 [of "t - m" "u - m" DAY_MS] that D by (simp add: b)
    moreover have "currentDayStart rt (min now other) = min (currentDayStart rt now) (currentDayStart rt other)"
      using mono [of now other] mono [of other now] by (auto simp: min_def)
    ultimately show ?thesis
      using lo [of now] D by (simp add: nextDayStart_def needsDailyReset_def k b)
  qed
  then show ?thesis by (simp add: Let_def)
qed

end
