(* ===== verification/AccountMetrics.thy ===== *)
theory AccountMetrics
  imports Database Clock "HOL-Library.AList" "HOL-Library.Multiset"
begin

text \<open>
  Trade-history metrics: the SQL aggregates of \<open>src/lib/services/accountMetrics.ts\<close> and their
  in-memory counterparts in \<open>src/lib/services/calculations.ts\<close>. A SQL \<open>sum\<close> adds the matching rows in
  the order the database happens to scan them, which it does not promise: the list \<open>trades_t d\<close> is the
  order of one scan, the theorems that compare the two sides hold for every permutation of it, and
  sums are compared to the cent. \<open>coalesce\<close> and \<open>FILTER\<close> are written out. A calendar day is its day number.
\<close>

section \<open>SQL aggregates\<close>

definition liveTrades :: "nat \<Rightarrow> db \<Rightarrow> Trade list" where
  "liveTrades accountId d = filter (\<lambda>t. trd_accountId t = accountId \<and> trd_archivedAt t = None) (trades_t d)"

definition tradeInstant :: "Trade \<Rightarrow> int" where
  "tradeInstant t = (case trd_closeTime t of Some c \<Rightarrow> c | None \<Rightarrow> trd_openTime t)"

text \<open>\<open>date(coalesce(closeTime, openTime) + make_interval(mins => shift))\<close>.\<close>

definition sqlDay :: "int \<Rightarrow> Trade \<Rightarrow> int" where
  "sqlDay shiftMinutes t = utcDate (tradeInstant t + shiftMinutes * 60000)"

definition shiftOf :: "ResetTime \<Rightarrow> int" where
  "shiftOf resetTime = offsetMinutes resetTime - (rt_hour resetTime * 60 + rt_minute resetTime)"

definition closed :: "Trade \<Rightarrow> bool" where
  "closed t \<longleftrightarrow> trd_status t = TRD_CLOSED"

definition sql_max :: "number list \<Rightarrow> number" where
  "sql_max xs = (case xs of [] \<Rightarrow> Fin 0 | y # ys \<Rightarrow> foldl Math_max y ys)"

definition sql_min :: "number list \<Rightarrow> number" where
  "sql_min xs = (case xs of [] \<Rightarrow> Fin 0 | y # ys \<Rightarrow> foldl Math_min y ys)"

record TradeAggregates =
  ag_closed :: nat
  ag_open :: nat
  ag_realized :: number
  ag_unrealizedLegacy :: number
  ag_wins :: nat
  ag_losses :: nat
  ag_grossProfit :: number
  ag_grossLoss :: number
  ag_largestWin :: number
  ag_largestLoss :: number
  ag_totalVolume :: number
  ag_tradingDays :: nat

definition aggregateTrades :: "nat \<Rightarrow> ResetTime \<Rightarrow> db \<Rightarrow> TradeAggregates" where
  "aggregateTrades accountId resetTime d =
     (let ts = liveTrades accountId d; cl = filter closed ts; op = filter (\<lambda>t. \<not> closed t) ts;
          wn = filter (\<lambda>t. trd_netProfit t > Fin 0) cl; ls = filter (\<lambda>t. trd_netProfit t < Fin 0) cl
      in \<lparr>ag_closed = length cl, ag_open = length op,
          ag_realized = js_sum (map trd_netProfit cl), ag_unrealizedLegacy = js_sum (map trd_profit op),
          ag_wins = length wn, ag_losses = length ls,
          ag_grossProfit = js_sum (map trd_netProfit wn), ag_grossLoss = Math_abs (js_sum (map trd_netProfit ls)),
          ag_largestWin = Math_max (lit 0) (sql_max (map trd_netProfit cl)),
          ag_largestLoss = Math_min (lit 0) (sql_min (map trd_netProfit cl)),
          ag_totalVolume = js_sum (map trd_volume ts),
          ag_tradingDays = length (remdups (map (sqlDay (shiftOf resetTime)) cl))\<rparr>)"

definition sumOpenPositionFloating :: "nat \<Rightarrow> db \<Rightarrow> number" where
  "sumOpenPositionFloating accountId d =
     js_sum (map pos_floatingPnl (filter (\<lambda>p. pos_accountId p = accountId \<and> pos_status p = POS_OPEN) (positions_t d)))"

record AccountMetrics =
  m_netPnl :: number
  m_realizedPnl :: number
  m_unrealizedPnl :: number
  m_balance :: number
  m_equity :: number
  m_totalTrades :: nat
  m_closedTrades :: nat
  m_openTrades :: nat
  m_winningTrades :: nat
  m_losingTrades :: nat
  m_winRate :: number
  m_profitFactor :: "number option"
  m_avgWin :: number
  m_avgLoss :: number
  m_largestWin :: number
  m_largestLoss :: number
  m_totalVolume :: number
  m_grossProfit :: number
  m_grossLoss :: number
  m_tradingDays :: nat

definition nat_num :: "nat \<Rightarrow> number" where
  "nat_num n = num_of_int (int n)"

definition computeAccountMetricsFromDb :: "TradingAccount \<Rightarrow> db \<Rightarrow> AccountMetrics" where
  "computeAccountMetricsFromDb account d =
     (let resetTime = parseResetTime (tpl_dailyLossResetTime (rules (acc_snapshot account)));
          agg = aggregateTrades (acc_id account) resetTime d;
          positionFloating = sumOpenPositionFloating (acc_id account) d;
          realizedPnl = roundCurrency (ag_realized agg);
          unrealizedPnl = roundCurrency (ag_unrealizedLegacy agg + positionFloating);
          balance = roundCurrency (acc_startingBalance account + realizedPnl);
          equity = roundCurrency (balance + unrealizedPnl);
          winRate = (if ag_closed agg > 0 then (nat_num (ag_wins agg) / nat_num (ag_closed agg)) * lit 100 else lit 0);
          profitFactor = (if ag_grossLoss agg > lit 0 then Some (ag_grossProfit agg / ag_grossLoss agg)
                          else if ag_wins agg > 0 then None else Some (lit 0))
      in \<lparr>m_netPnl = realizedPnl, m_realizedPnl = realizedPnl, m_unrealizedPnl = unrealizedPnl, m_balance = balance,
          m_equity = equity, m_totalTrades = ag_closed agg + ag_open agg, m_closedTrades = ag_closed agg,
          m_openTrades = ag_open agg, m_winningTrades = ag_wins agg, m_losingTrades = ag_losses agg,
          m_winRate = winRate, m_profitFactor = profitFactor,
          m_avgWin = (if ag_wins agg > 0 then ag_grossProfit agg / nat_num (ag_wins agg) else lit 0),
          m_avgLoss = (if ag_losses agg > 0 then ag_grossLoss agg / nat_num (ag_losses agg) else lit 0),
          m_largestWin = ag_largestWin agg, m_largestLoss = ag_largestLoss agg, m_totalVolume = ag_totalVolume agg,
          m_grossProfit = ag_grossProfit agg, m_grossLoss = ag_grossLoss agg, m_tradingDays = ag_tradingDays agg\<rparr>)"

text \<open>\<open>GROUP BY day ORDER BY day\<close>: the days in order, with the sum of the group.\<close>

definition sqlGroupSum :: "(Trade \<Rightarrow> int) \<Rightarrow> Trade list \<Rightarrow> (int \<times> number) list" where
  "sqlGroupSum day ts =
     map (\<lambda>k. (k, js_sum (map trd_netProfit (filter (\<lambda>t. day t = k) ts)))) (sort (remdups (map day ts)))"

fun curvePoints :: "number \<Rightarrow> (int \<times> number) list \<Rightarrow> (int option \<times> number) list" where
  "curvePoints running [] = []"
| "curvePoints running ((day, pnl) # rest) =
     (let r = roundCurrency (running + pnl) in (Some day, r) # curvePoints r rest)"

definition buildEquityCurveFromDb :: "nat \<Rightarrow> number \<Rightarrow> db \<Rightarrow> (int option \<times> number) list" where
  "buildEquityCurveFromDb accountId startBal d =
     (let rows = sqlGroupSum (sqlDay 0) (filter (\<lambda>t. closed t \<and> trd_closeTime t \<noteq> None) (liveTrades accountId d))
      in (case rows of [] \<Rightarrow> None | (day, _) # _ \<Rightarrow> Some day, startBal) # curvePoints startBal rows)"

definition dailyNetProfits :: "nat \<Rightarrow> ResetTime \<Rightarrow> db \<Rightarrow> number list" where
  "dailyNetProfits accountId resetTime d =
     map (\<lambda>(day, net). roundCurrency net) (sqlGroupSum (sqlDay (shiftOf resetTime)) (filter closed (liveTrades accountId d)))"

definition computeConsistency :: "TradingAccount \<Rightarrow> db \<Rightarrow> ConsistencyResult" where
  "computeConsistency account d =
     (let snap = rules (acc_snapshot account) in
      case tpl_consistencyRequirement snap of
        None \<Rightarrow> consistencyCheck [] None
      | Some l \<Rightarrow>
         if \<not> (l > lit 0) then consistencyCheck [] None
         else consistencyCheck (dailyNetProfits (acc_id account) (parseResetTime (tpl_dailyLossResetTime snap)) d) (Some l))"

definition countTradingDays :: "nat \<Rightarrow> ResetTime \<Rightarrow> db \<Rightarrow> nat" where
  "countTradingDays accountId resetTime d = ag_tradingDays (aggregateTrades accountId resetTime d)"

section \<open>The in-memory calculation\<close>

record MetricAcc =
  x_closed :: nat
  x_open :: nat
  x_realized :: number
  x_unrealized :: number
  x_wins :: nat
  x_losses :: nat
  x_grossProfit :: number
  x_grossLoss :: number
  x_largestWin :: number
  x_largestLoss :: number
  x_volume :: number
  x_days :: "int list"

text \<open>One round of the loop over the trades.\<close>

definition metricStep :: "MetricAcc \<Rightarrow> Trade \<Rightarrow> MetricAcc" where
  "metricStep a t =
     (if trd_archivedAt t \<noteq> None then a
      else let a = a\<lparr>x_volume := x_volume a + trd_volume t\<rparr>; n = trd_netProfit t in
        if trd_status t = TRD_CLOSED then
          (let a = a\<lparr>x_closed := x_closed a + 1, x_realized := x_realized a + n\<rparr>;
               a = (if n > lit 0 then a\<lparr>x_wins := x_wins a + 1, x_grossProfit := x_grossProfit a + n,
                      x_largestWin := (if n > x_largestWin a then n else x_largestWin a)\<rparr>
                    else if n < lit 0 then a\<lparr>x_losses := x_losses a + 1, x_grossLoss := x_grossLoss a + - n,
                      x_largestLoss := (if n < x_largestLoss a then n else x_largestLoss a)\<rparr>
                    else a)
           in a\<lparr>x_days := List.insert (utcDate (tradeInstant t)) (x_days a)\<rparr>)
        else a\<lparr>x_open := x_open a + 1, x_unrealized := x_unrealized a + trd_profit t\<rparr>)"

definition metricInit :: MetricAcc where
  "metricInit = \<lparr>x_closed = 0, x_open = 0, x_realized = Fin 0, x_unrealized = Fin 0, x_wins = 0, x_losses = 0,
     x_grossProfit = Fin 0, x_grossLoss = Fin 0, x_largestWin = Fin 0, x_largestLoss = Fin 0, x_volume = Fin 0, x_days = []\<rparr>"

definition computeAccountMetrics :: "number \<Rightarrow> Trade list \<Rightarrow> AccountMetrics" where
  "computeAccountMetrics startBal trades =
     (let a = foldl metricStep metricInit trades;
          balance = startBal + x_realized a;
          equity = balance + x_unrealized a;
          winRate = (if x_closed a > 0 then (nat_num (x_wins a) / nat_num (x_closed a)) * lit 100 else lit 0);
          profitFactor = (if x_grossLoss a > lit 0 then Some (x_grossProfit a / x_grossLoss a)
                          else if x_wins a > 0 then None else Some (lit 0))
      in \<lparr>m_netPnl = x_realized a, m_realizedPnl = x_realized a, m_unrealizedPnl = x_unrealized a, m_balance = balance,
          m_equity = equity, m_totalTrades = x_closed a + x_open a, m_closedTrades = x_closed a,
          m_openTrades = x_open a, m_winningTrades = x_wins a, m_losingTrades = x_losses a,
          m_winRate = winRate, m_profitFactor = profitFactor,
          m_avgWin = (if x_wins a > 0 then x_grossProfit a / nat_num (x_wins a) else lit 0),
          m_avgLoss = (if x_losses a > 0 then x_grossLoss a / nat_num (x_losses a) else lit 0),
          m_largestWin = x_largestWin a, m_largestLoss = x_largestLoss a, m_totalVolume = x_volume a,
          m_grossProfit = x_grossProfit a, m_grossLoss = x_grossLoss a, m_tradingDays = length (x_days a)\<rparr>)"

definition curveUpdate :: "(int \<times> number) list \<Rightarrow> Trade \<Rightarrow> (int \<times> number) list" where
  "curveUpdate byDay t =
     (if trd_archivedAt t \<noteq> None \<or> trd_status t \<noteq> TRD_CLOSED then byDay
      else case trd_closeTime t of None \<Rightarrow> byDay
      | Some c \<Rightarrow> (let key = utcDate c in
          AList.update key ((case map_of byDay key of Some v \<Rightarrow> v | None \<Rightarrow> Fin 0) + trd_netProfit t) byDay))"

definition buildEquityCurve :: "number \<Rightarrow> Trade list \<Rightarrow> (int option \<times> number) list" where
  "buildEquityCurve startBal trades =
     (let byDay = foldl curveUpdate [] trades; days = sort (map fst byDay)
      in (case days of [] \<Rightarrow> None | day # _ \<Rightarrow> Some day, startBal)
         # curvePoints startBal (map (\<lambda>k. (k, case map_of byDay k of Some v \<Rightarrow> v | None \<Rightarrow> Fin 0)) days))"

section \<open>The two equity curves\<close>

lemma js_sum_snoc: "js_sum (xs @ [x]) = js_sum xs + x"
  by (simp add: js_sum_def)

lemma js_sum_Nil [simp]: "js_sum [] = Fin 0"
  by (simp add: js_sum_def)

definition curveTrade :: "Trade \<Rightarrow> bool" where
  "curveTrade t \<longleftrightarrow> trd_archivedAt t = None \<and> closed t \<and> trd_closeTime t \<noteq> None"

lemma curve_map:
  "distinct (map fst (foldl curveUpdate [] ts)) \<and>
   map_of (foldl curveUpdate [] ts) k =
     (let F = filter curveTrade ts in
      if k \<in> sqlDay 0 ` set F then Some (js_sum (map trd_netProfit (filter (\<lambda>t. sqlDay 0 t = k) F))) else None)"
proof (induction ts arbitrary: k rule: rev_induct)
  case (snoc t ts)
  show ?case
  proof (cases "curveTrade t")
    case True
    then obtain c where c: "trd_closeTime t = Some c" "sqlDay 0 t = utcDate c" "trd_archivedAt t = None" "trd_status t = TRD_CLOSED"
      by (auto simp: curveTrade_def closed_def sqlDay_def tradeInstant_def)
    have step: "foldl curveUpdate [] (ts @ [t]) = AList.update (utcDate c)
        ((case map_of (foldl curveUpdate [] ts) (utcDate c) of Some v \<Rightarrow> v | None \<Rightarrow> Fin 0) + trd_netProfit t) (foldl curveUpdate [] ts)"
      using c by (simp add: curveUpdate_def Let_def)
    have "filter (\<lambda>t. sqlDay 0 t = k) (filter curveTrade ts) = []" if "k \<notin> sqlDay 0 ` set (filter curveTrade ts)"
      using that by (auto simp: filter_empty_conv)
    then show ?thesis using snoc.IH [of k] snoc.IH [of "utcDate c"] True c(2) unfolding step
      by (auto simp: Let_def update_conv' distinct_update js_sum_snoc)
  next
    case False
    then have "foldl curveUpdate [] (ts @ [t]) = foldl curveUpdate [] ts"
      by (auto simp: curveUpdate_def curveTrade_def closed_def split: option.splits)
    then show ?thesis using snoc.IH [of k] False by simp
  qed
qed simp

text \<open>
  The equity curve computed in SQL and the one computed from the loaded trades are the same
  points when both visit the trades in the same order: one per calendar day with closed trades, in
  order, each the running balance rounded to cents.
\<close>

theorem equity_curve_equivalent:
  "buildEquityCurve startBal (filter (\<lambda>t. trd_accountId t = i) (trades_t d)) = buildEquityCurveFromDb i startBal d"
proof -
  let ?ts = "filter (\<lambda>t. trd_accountId t = i) (trades_t d)"
  let ?F = "filter curveTrade ?ts"
  let ?m = "foldl curveUpdate [] ?ts"
  have F: "filter (\<lambda>t. closed t \<and> trd_closeTime t \<noteq> None) (liveTrades i d) = ?F"
    unfolding liveTrades_def filter_filter by (rule filter_cong) (auto simp: curveTrade_def)
  have "fst ` set ?m = dom (map_of ?m)" by (simp add: dom_map_of_conv_image_fst)
  also have "\<dots> = sqlDay 0 ` set ?F" using curve_map [of ?ts] by (auto simp: dom_def Let_def split: if_splits)
  finally have "sort (map fst ?m) = sort (remdups (map (sqlDay 0) ?F))"
    using curve_map [of ?ts] by (intro sorted_distinct_set_unique) auto
  moreover have "(case map_of ?m k of Some v \<Rightarrow> v | None \<Rightarrow> Fin 0) =
      js_sum (map trd_netProfit (filter (\<lambda>t. sqlDay 0 t = k) ?F))" if "k \<in> sqlDay 0 ` set ?F" for k
    using curve_map [of ?ts k] that by (simp add: Let_def)
  then have "map (\<lambda>k. (k, case map_of ?m k of Some v \<Rightarrow> v | None \<Rightarrow> Fin 0)) (sort (remdups (map (sqlDay 0) ?F)))
      = sqlGroupSum (sqlDay 0) ?F"
    unfolding sqlGroupSum_def by (intro map_cong) auto
  moreover have "(case sort (remdups (map (sqlDay 0) ?F)) of [] \<Rightarrow> None | day # _ \<Rightarrow> Some day)
      = (case sqlGroupSum (sqlDay 0) ?F of [] \<Rightarrow> None | (day, _) # _ \<Rightarrow> Some day)"
    by (cases "sort (remdups (map (sqlDay 0) ?F))") (simp_all add: sqlGroupSum_def)
  ultimately show ?thesis unfolding buildEquityCurve_def buildEquityCurveFromDb_def F Let_def by (simp only:)
qed

section \<open>The two calculations of the metrics\<close>

lemma js_neg_rnd: "js_neg (rnd (a + b)) = rnd (- a - b)"
  using rnd_minus [of "a + b"] by (simp add: uminus_number_def)

lemma number_minus_add: "- (x + y) = - x + - y" for x y :: number
  by (cases x; cases y) (simp_all add: number_op_defs js_neg_rnd)

lemma js_sum_nonpos: "\<forall>x\<in>set xs. x < Fin 0 \<Longrightarrow> js_sum xs \<le> Fin 0"
proof (induction xs rule: rev_induct)
  case (snoc x xs)
  then have "js_sum xs \<le> Fin 0" "x < Fin 0" by auto
  then show ?case unfolding js_sum_snoc
    by (cases "js_sum xs"; cases x) (auto simp: plus_number_def)
qed simp

lemma Math_abs_nonpos: "x \<le> Fin 0 \<Longrightarrow> Math_abs x = - x"
  by (cases x) (auto simp: uminus_number_def)

lemma sql_max_snoc: "xs \<noteq> [] \<Longrightarrow> sql_max (xs @ [x]) = Math_max (sql_max xs) x"
  by (cases xs) (simp_all add: sql_max_def)

lemma sql_min_snoc: "xs \<noteq> [] \<Longrightarrow> sql_min (xs @ [x]) = Math_min (sql_min xs) x"
  by (cases xs) (simp_all add: sql_min_def)

lemma sql_max_Fin: "\<forall>x\<in>set xs. isFinite x \<Longrightarrow> isFinite (sql_max xs)"
proof (induction xs rule: rev_induct)
  case (snoc x xs)
  then have x: "isFinite x" "isFinite (sql_max xs)" by simp_all
  show ?case
  proof (cases "xs = []")
    case True
    then show ?thesis using x(1) by (simp add: sql_max_def)
  next
    case False
    then show ?thesis using x by (auto simp: sql_max_snoc isFinite_iff)
  qed
qed (simp add: sql_max_def)

lemma sql_min_Fin: "\<forall>x\<in>set xs. isFinite x \<Longrightarrow> isFinite (sql_min xs)"
proof (induction xs rule: rev_induct)
  case (snoc x xs)
  then have x: "isFinite x" "isFinite (sql_min xs)" by simp_all
  show ?case
  proof (cases "xs = []")
    case True
    then show ?thesis using x(1) by (simp add: sql_min_def)
  next
    case False
    then show ?thesis using x by (auto simp: sql_min_snoc isFinite_iff)
  qed
qed (simp add: sql_min_def)

lemma sql_max_step:
  assumes "\<forall>y\<in>set xs. isFinite y" "isFinite x"
  shows "Math_max (Fin 0) (sql_max (xs @ [x])) =
    (if Fin 0 < x \<and> Math_max (Fin 0) (sql_max xs) < x then x else Math_max (Fin 0) (sql_max xs))"
proof (cases "xs = []")
  case False
  then show ?thesis using sql_max_Fin [OF assms(1)] assms(2)
    by (auto simp: sql_max_snoc isFinite_iff max_def split: if_splits)
qed (use assms in \<open>auto simp: sql_max_def isFinite_iff max_def\<close>)

lemma sql_min_step:
  assumes "\<forall>y\<in>set xs. isFinite y" "isFinite x"
  shows "Math_min (Fin 0) (sql_min (xs @ [x])) =
    (if x < Fin 0 \<and> x < Math_min (Fin 0) (sql_min xs) then x else Math_min (Fin 0) (sql_min xs))"
proof (cases "xs = []")
  case False
  then show ?thesis using sql_min_Fin [OF assms(1)] assms(2)
    by (auto simp: sql_min_snoc isFinite_iff min_def split: if_splits)
qed (use assms in \<open>auto simp: sql_min_def isFinite_iff min_def\<close>)

definition liveIn :: "Trade list \<Rightarrow> Trade list" where
  "liveIn ts = filter (\<lambda>t. trd_archivedAt t = None) ts"

definition metricState :: "Trade list \<Rightarrow> MetricAcc \<Rightarrow> bool" where
  "metricState ts a \<longleftrightarrow>
     (let L = liveIn ts; cl = filter closed L; op = filter (\<lambda>t. \<not> closed t) L;
          wn = filter (\<lambda>t. trd_netProfit t > Fin 0) cl; ls = filter (\<lambda>t. trd_netProfit t < Fin 0) cl
      in x_closed a = length cl \<and> x_open a = length op \<and> x_realized a = js_sum (map trd_netProfit cl)
       \<and> x_unrealized a = js_sum (map trd_profit op) \<and> x_wins a = length wn \<and> x_losses a = length ls
       \<and> x_grossProfit a = js_sum (map trd_netProfit wn) \<and> x_grossLoss a = - js_sum (map trd_netProfit ls)
       \<and> x_largestWin a = Math_max (Fin 0) (sql_max (map trd_netProfit cl))
       \<and> x_largestLoss a = Math_min (Fin 0) (sql_min (map trd_netProfit cl))
       \<and> x_volume a = js_sum (map trd_volume L)
       \<and> distinct (x_days a) \<and> set (x_days a) = sqlDay 0 ` set cl)"

lemma metricState_step:
  assumes "metricState ts a" "\<forall>t\<in>set (ts @ [t]). isFinite (trd_netProfit t)"
  shows "metricState (ts @ [t]) (metricStep a t)"
proof -
  have f: "\<forall>y\<in>set (map trd_netProfit (filter closed (liveIn ts))). isFinite y" "isFinite (trd_netProfit t)"
    using assms(2) by (auto simp: liveIn_def)
  have day: "utcDate (tradeInstant t) = sqlDay 0 t" by (simp add: sqlDay_def)
  have order: "\<not> (Fin 0 < trd_netProfit t \<and> trd_netProfit t < Fin 0)"
    by (cases "trd_netProfit t") auto
  note M = assms(1) [unfolded metricState_def Let_def]
  show ?thesis
  proof (cases "trd_archivedAt t = None")
    case False
    then have "metricStep a t = a" "liveIn (ts @ [t]) = liveIn ts" by (simp_all add: metricStep_def liveIn_def)
    then show ?thesis using assms(1) by (simp add: metricState_def)
  next
    case live: True
    then have L: "liveIn (ts @ [t]) = liveIn ts @ [t]" by (simp add: liveIn_def)
    show ?thesis
    proof (cases "closed t")
      case True
      then have c: "trd_status t = TRD_CLOSED" by (simp add: closed_def)
      have ins: "{x \<in> insert t A. closed x} = insert t {x \<in> A. closed x}" for A using True by auto
      consider "Fin 0 < trd_netProfit t" "\<not> trd_netProfit t < Fin 0" | "trd_netProfit t < Fin 0" "\<not> Fin 0 < trd_netProfit t"
        | "\<not> Fin 0 < trd_netProfit t" "\<not> trd_netProfit t < Fin 0" using order by blast
      then show ?thesis
        by cases (simp_all add: M metricState_def metricStep_def Let_def L live c True js_sum_snoc number_minus_add day
          sql_max_step [OF f] sql_min_step [OF f] ins del: insert_iff)
    next
      case False
      then have c: "trd_status t \<noteq> TRD_CLOSED" by (simp add: closed_def)
      have ins: "{x \<in> insert t A. closed x} = {x \<in> A. closed x}" for A using False by auto
      show ?thesis by (simp add: M metricState_def metricStep_def Let_def L live c False js_sum_snoc ins del: insert_iff)
    qed
  qed
qed

lemma metricState_fold:
  "\<forall>t\<in>set ts. isFinite (trd_netProfit t) \<Longrightarrow> metricState ts (foldl metricStep metricInit ts)"
proof (induction ts rule: rev_induct)
  case Nil
  show ?case by (simp add: metricState_def metricInit_def liveIn_def sql_max_def sql_min_def uminus_number_def)
next
  case (snoc t ts)
  then show ?case using metricState_step [of ts "foldl metricStep metricInit ts" t] by simp
qed

text \<open>
  The SQL aggregates of a scan are the state of the loop over the same trades in scan order.
\<close>

lemma aggregates_are_the_loop:
  assumes "\<forall>t\<in>set ts. isFinite (trd_netProfit t)"
    and "ts = filter (\<lambda>t. trd_accountId t = i) (trades_t d)"
  shows "metricState ts (foldl metricStep metricInit ts)"
    and "aggregateTrades i (parseResetTime (Some ''00:00 UTC'')) d
      = (let a = foldl metricStep metricInit ts in
         \<lparr>ag_closed = x_closed a, ag_open = x_open a, ag_realized = x_realized a, ag_unrealizedLegacy = x_unrealized a,
          ag_wins = x_wins a, ag_losses = x_losses a, ag_grossProfit = x_grossProfit a, ag_grossLoss = x_grossLoss a,
          ag_largestWin = x_largestWin a, ag_largestLoss = x_largestLoss a, ag_totalVolume = x_volume a,
          ag_tradingDays = length (x_days a)\<rparr>)"
proof -
  let ?a = "foldl metricStep metricInit ts"
  let ?cl = "filter closed (liveIn ts)"
  let ?ls = "filter (\<lambda>t. trd_netProfit t < Fin 0) ?cl"
  show M: "metricState ts ?a" using assms by (intro metricState_fold) auto
  have L: "liveTrades i d = liveIn ts" using assms(2) by (simp add: liveTrades_def liveIn_def conj_commute)
  have shift: "shiftOf (parseResetTime (Some ''00:00 UTC'')) = 0" by code_simp
  have days: "length (x_days ?a) = length (remdups (map (sqlDay 0) ?cl))"
    using M by (simp add: metricState_def Let_def length_remdups_card_conv flip: distinct_card)
  have loss: "Math_abs (js_sum (map trd_netProfit ?ls)) = - js_sum (map trd_netProfit ?ls)"
    by (rule Math_abs_nonpos, rule js_sum_nonpos) auto
  note M' = M [unfolded metricState_def Let_def]
  show "aggregateTrades i (parseResetTime (Some ''00:00 UTC'')) d
      = (let a = ?a in
         \<lparr>ag_closed = x_closed a, ag_open = x_open a, ag_realized = x_realized a, ag_unrealizedLegacy = x_unrealized a,
          ag_wins = x_wins a, ag_losses = x_losses a, ag_grossProfit = x_grossProfit a, ag_grossLoss = x_grossLoss a,
          ag_largestWin = x_largestWin a, ag_largestLoss = x_largestLoss a, ag_totalVolume = x_volume a,
          ag_tradingDays = length (x_days a)\<rparr>)"
    using loss by (simp only: aggregateTrades_def Let_def L shift M' days lit_numeral)
qed

section \<open>Sums in different orders\<close>

text \<open>
  A sum of cent amounts on doubles depends on the order of its terms; \<open>closeTo x n k\<close> says that
  \<open>x\<close> is within \<open>k\<close> rounding steps of \<open>n\<close> cents, which no order can leave.
\<close>

definition closeTo :: "number \<Rightarrow> int \<Rightarrow> nat \<Rightarrow> bool" where
  "closeTo x n k \<longleftrightarrow> (\<exists>v. x = Fin v \<and> \<bar>v - of_int n / 100\<bar> \<le> of_nat k / 2 ^ 20)"

lemma closeTo_cents:
  assumes "\<bar>n\<bar> \<le> 2 ^ 37"
  shows "closeTo (cents n) n 1"
proof -
  have "\<bar>of_int n :: rat\<bar> \<le> 137438953472" using assms abs_of_int_le_iff [of n 137438953472] by simp
  then have "\<bar>of_int n / 100 :: rat\<bar> \<le> 2147483648" by (simp add: abs_le_iff)
  then obtain v where v: "cents n = Fin v" "\<bar>v - of_int n / 100\<bar> \<le> 1 / 2 ^ 21"
    unfolding cents_def by (rule rnd_err_small)
  moreover have "(1 / 2 ^ 21 :: rat) \<le> of_nat 1 / 2 ^ 20" by simp
  ultimately show ?thesis unfolding closeTo_def by (intro exI [of _ v]) linarith
qed

lemma closeTo_sum:
  assumes "(\<Sum>n\<leftarrow>ns. \<bar>n\<bar>) \<le> 2 ^ 37" and "length ns \<le> 2048"
  shows "closeTo (js_sum (map cents ns)) (sum_list ns) (length ns)"
  using js_sum_near_aux [of 0 0 0 ns] assms by (simp add: closeTo_def js_sum_def)

lemma closeTo_small:
  assumes "k \<le> 2600"
  shows "(of_nat k :: rat) / 2 ^ 20 \<le> 1 / 400"
proof -
  have "(of_nat k :: rat) \<le> of_nat 2600" using assms by (rule of_nat_mono)
  then show ?thesis by (simp add: field_simps)
qed

lemma closeTo_add:
  assumes x: "closeTo x m j" and y: "closeTo y n k" and b: "\<bar>m\<bar> + \<bar>n\<bar> \<le> 2 ^ 37" "j + k < 2600"
  shows "closeTo (x + y) (m + n) (j + k + 1)"
proof -
  obtain v where v: "x = Fin v" "\<bar>v - of_int m / 100\<bar> \<le> of_nat j / 2 ^ 20" using x by (auto simp: closeTo_def)
  obtain w where w: "y = Fin w" "\<bar>w - of_int n / 100\<bar> \<le> of_nat k / 2 ^ 20" using y by (auto simp: closeTo_def)
  have d: "\<bar>v + w - of_int (m + n) / 100\<bar> \<le> of_nat (j + k) / 2 ^ 20"
    using v(2) w(2) unfolding of_int_cents_add of_nat_add add_divide_distrib by linarith
  have "\<bar>m + n\<bar> \<le> 137438953472" using abs_triangle_ineq [of m n] b(1) by simp
  then have s: "\<bar>of_int (m + n) :: rat\<bar> \<le> 137438953472" by (simp only: abs_of_int_le_iff)
  have "\<bar>v + w - of_int (m + n) / 100\<bar> \<le> 1 / 400" using d closeTo_small [of "j + k"] b(2) by simp
  then have "\<bar>v + w\<bar> \<le> 2147483648"
    using s abs_triangle_ineq [of "v + w - of_int (m + n) / 100" "of_int (m + n) / 100"]
    by (simp del: of_int_add)
  then obtain u where u: "rnd (v + w) = Fin u" "\<bar>u - (v + w)\<bar> \<le> 1 / 2 ^ 21" by (rule rnd_err_small)
  have "of_nat (j + k + 1) / 2 ^ 20 = (of_nat (j + k) / 2 ^ 20 + 1 / 2 ^ 21 + 1 / 2 ^ 21 :: rat)" by (simp add: field_simps)
  moreover have "0 \<le> (1 / 2 ^ 21 :: rat)" by simp
  ultimately have "\<bar>u - of_int (m + n) / 100\<bar> \<le> of_nat (j + k + 1) / 2 ^ 20" using d u(2) by linarith
  then show ?thesis by (simp add: closeTo_def v(1) w(1) u(1))
qed

lemma closeTo_minus:
  assumes "closeTo x n k"
  shows "closeTo (- x) (- n) k"
proof -
  obtain v where v: "x = Fin v" "\<bar>v - of_int n / 100\<bar> \<le> of_nat k / 2 ^ 20" using assms by (auto simp: closeTo_def)
  have "\<bar>- v - of_int (- n) / 100\<bar> \<le> of_nat k / 2 ^ 20" using v(2) by (simp add: abs_minus_commute)
  then show ?thesis by (simp add: closeTo_def v(1) uminus_number_def)
qed

lemma closeTo_round:
  assumes "closeTo x n k" and "k \<le> 2600" and "\<bar>n\<bar> \<le> 2 ^ 48"
  shows "roundCurrency x = cents n"
proof -
  obtain v where v: "x = Fin v" "\<bar>v - of_int n / 100\<bar> \<le> of_nat k / 2 ^ 20" using assms(1) by (auto simp: closeTo_def)
  have "\<bar>v - of_int n / 100\<bar> \<le> 1 / 400" using v(2) closeTo_small [OF assms(2)] by linarith
  then show ?thesis using assms(3) by (simp add: v(1) roundCurrency_near)
qed

lemma closeTo_pos:
  assumes "closeTo x n k" and "k \<le> 2600" and "0 < n"
  shows "Fin 0 < x"
proof -
  obtain v where v: "x = Fin v" "\<bar>v - of_int n / 100\<bar> \<le> of_nat k / 2 ^ 20" using assms(1) by (auto simp: closeTo_def)
  have "(1 :: rat) \<le> of_int n" using assms(3) by simp
  moreover have "\<bar>v - of_int n / 100\<bar> \<le> 1 / 400" using v(2) closeTo_small [OF assms(2)] by linarith
  ultimately have "0 < v" by linarith
  then show ?thesis by (simp add: v(1))
qed


section \<open>One account, scanned in two orders\<close>

lemma perm_filter:
  assumes "mset ts = mset us"
  shows "length (filter P ts) = length (filter P us)"
    and "sum_list (map f (filter P ts)) = (sum_list (map f (filter P us)) :: int)"
  using assms by (metis mset_filter size_mset, metis mset_filter mset_map sum_mset_sum_list)

lemma perm_group:
  assumes "mset ts = mset us"
  shows "mset (filter P (liveIn ts)) = mset (filter P (liveIn us))"
  using assms by (simp add: liveIn_def)

lemma sql_max_greatest:
  assumes "\<forall>x\<in>set xs. isFinite x"
  shows "Math_max (Fin 0) (sql_max xs) \<in> insert (Fin 0) (set xs)
    \<and> (\<forall>x\<in>insert (Fin 0) (set xs). x \<le> Math_max (Fin 0) (sql_max xs))"
  using assms
proof (induction xs rule: rev_induct)
  case (snoc x xs)
  then have f: "\<forall>y\<in>set xs. isFinite y" "isFinite x" by simp_all
  let ?m = "Math_max (Fin 0) (sql_max xs)"
  have m: "?m \<in> insert (Fin 0) (set xs)" "\<forall>x\<in>insert (Fin 0) (set xs). x \<le> ?m" using snoc.IH f(1) by auto
  then have "isFinite ?m" using f(1) by auto
  then obtain q where q: "?m = Fin q" unfolding isFinite_iff by blast
  obtain p where p: "x = Fin p" using f(2) unfolding isFinite_iff by blast
  have fin: "y = Fin 0 \<or> y \<in> set xs \<Longrightarrow> \<exists>r. y = Fin r \<and> r \<le> q" for y
  proof -
    assume y: "y = Fin 0 \<or> y \<in> set xs"
    then obtain r where "y = Fin r" using f(1) by (auto simp: isFinite_iff)
    moreover have "y \<le> Fin q" using y m(2) q by auto
    ultimately show ?thesis by simp
  qed
  have z: "Math_max (Fin 0) (sql_max (xs @ [x])) = Fin (max q p)"
    using sql_max_step [OF f] fin [of "Fin 0"] unfolding q p by (auto simp: max_def)
  show ?case unfolding z
  proof (intro conjI ballI)
    show "Fin (max q p) \<in> insert (Fin 0) (set (xs @ [x]))" using m(1) q p by (auto simp: max_def)
    fix y assume "y \<in> insert (Fin 0) (set (xs @ [x]))"
    then consider "y = Fin 0 \<or> y \<in> set xs" | "y = x" by auto
    then show "y \<le> Fin (max q p)" using fin [of y] p by cases auto
  qed
qed (simp add: sql_max_def)

lemma sql_min_least:
  assumes "\<forall>x\<in>set xs. isFinite x"
  shows "Math_min (Fin 0) (sql_min xs) \<in> insert (Fin 0) (set xs)
    \<and> (\<forall>x\<in>insert (Fin 0) (set xs). Math_min (Fin 0) (sql_min xs) \<le> x)"
  using assms
proof (induction xs rule: rev_induct)
  case (snoc x xs)
  then have f: "\<forall>y\<in>set xs. isFinite y" "isFinite x" by simp_all
  let ?m = "Math_min (Fin 0) (sql_min xs)"
  have m: "?m \<in> insert (Fin 0) (set xs)" "\<forall>x\<in>insert (Fin 0) (set xs). ?m \<le> x" using snoc.IH f(1) by auto
  then have "isFinite ?m" using f(1) by auto
  then obtain q where q: "?m = Fin q" unfolding isFinite_iff by blast
  obtain p where p: "x = Fin p" using f(2) unfolding isFinite_iff by blast
  have fin: "y = Fin 0 \<or> y \<in> set xs \<Longrightarrow> \<exists>r. y = Fin r \<and> q \<le> r" for y
  proof -
    assume y: "y = Fin 0 \<or> y \<in> set xs"
    then obtain r where "y = Fin r" using f(1) by (auto simp: isFinite_iff)
    moreover have "Fin q \<le> y" using y m(2) q by auto
    ultimately show ?thesis by simp
  qed
  have z: "Math_min (Fin 0) (sql_min (xs @ [x])) = Fin (min q p)"
    using sql_min_step [OF f] fin [of "Fin 0"] unfolding q p by (auto simp: min_def)
  show ?case unfolding z
  proof (intro conjI ballI)
    show "Fin (min q p) \<in> insert (Fin 0) (set (xs @ [x]))" using m(1) q p by (auto simp: min_def)
    fix y assume "y \<in> insert (Fin 0) (set (xs @ [x]))"
    then consider "y = Fin 0 \<or> y \<in> set xs" | "y = x" by auto
    then show "Fin (min q p) \<le> y" using fin [of y] p by cases auto
  qed
qed (simp add: sql_min_def)

text \<open>The largest win and the largest loss do not depend on the order of the trades.\<close>

lemma extremes_perm:
  assumes "\<forall>x\<in>set xs. isFinite x" and "set xs = set ys"
  shows "Math_max (Fin 0) (sql_max xs) = Math_max (Fin 0) (sql_max ys)"
    and "Math_min (Fin 0) (sql_min xs) = Math_min (Fin 0) (sql_min ys)"
  using sql_max_greatest [of xs] sql_max_greatest [of ys] sql_min_least [of xs] sql_min_least [of ys] assms
  by (metis number_le_antisym)+

lemma metricState_perm:
  assumes a: "metricState ts a" and b: "metricState us b" and p: "mset ts = mset us"
    and f: "\<forall>t\<in>set ts. isFinite (trd_netProfit t)"
  shows "x_closed a = x_closed b" "x_open a = x_open b" "x_wins a = x_wins b" "x_losses a = x_losses b"
    "x_largestWin a = x_largestWin b" "x_largestLoss a = x_largestLoss b" "length (x_days a) = length (x_days b)"
proof -
  note A = a [unfolded metricState_def Let_def]
  note B = b [unfolded metricState_def Let_def]
  have set: "set ts = set us" using p by (rule mset_eq_setD)
  have len: "length (filter P (filter closed (liveIn ts))) = length (filter P (filter closed (liveIn us)))" for P
    using perm_filter(1) [OF perm_group [OF p]] .
  show "x_closed a = x_closed b" "x_open a = x_open b"
    using A B perm_group [OF p] by (metis size_mset)+
  show "x_wins a = x_wins b" "x_losses a = x_losses b"
    using A B len by simp_all
  have cl: "set (filter closed (liveIn ts)) = set (filter closed (liveIn us))" using set by (simp add: liveIn_def)
  have fc: "\<forall>x\<in>set (map trd_netProfit (filter closed (liveIn ts))). isFinite x" using f by (auto simp: liveIn_def)
  have sc: "set (map trd_netProfit (filter closed (liveIn ts))) = set (map trd_netProfit (filter closed (liveIn us)))"
    by (simp only: set_map cl)
  show "x_largestWin a = x_largestWin b" "x_largestLoss a = x_largestLoss b"
    using A B extremes_perm [OF fc sc] by simp_all
  have "distinct (x_days a)" "distinct (x_days b)" using A B by simp_all
  then have "length (x_days a) = card (set (x_days a))" "length (x_days b) = card (set (x_days b))"
    by (simp_all only: distinct_card)
  moreover have "set (x_days a) = set (x_days b)" using A B cl by simp
  ultimately show "length (x_days a) = length (x_days b)" by simp
qed

definition tradeSize :: "(Trade \<Rightarrow> int) \<Rightarrow> (Trade \<Rightarrow> int) \<Rightarrow> (Trade \<Rightarrow> int) \<Rightarrow> Trade \<Rightarrow> int" where
  "tradeSize net fl vol t = \<bar>net t\<bar> + \<bar>fl t\<bar> + \<bar>vol t\<bar>"

lemma sum_filter_le:
  "(\<And>t. 0 \<le> f t) \<Longrightarrow> (\<Sum>t\<leftarrow>filter P us. f t) \<le> (\<Sum>t\<leftarrow>us. f t)" for f :: "'a \<Rightarrow> int"
  by (induction us) (auto intro: add_increasing)

lemma sum_filter_split:
  "(\<Sum>t\<leftarrow>filter P us. f t) + (\<Sum>t\<leftarrow>filter (\<lambda>t. \<not> P t) us. f t) = (\<Sum>t\<leftarrow>us. f t)" for f :: "'a \<Rightarrow> int"
  by (induction us) auto

lemma perm_sum: "mset us = mset vs \<Longrightarrow> (\<Sum>t\<leftarrow>us. f t) = (\<Sum>t\<leftarrow>vs. f t)" for f :: "'a \<Rightarrow> int"
  using perm_filter(2) [of us vs f "\<lambda>_. True"] by simp

lemma sum_member_le: "t \<in> set us \<Longrightarrow> (\<And>t. 0 \<le> f t) \<Longrightarrow> f t \<le> (\<Sum>t\<leftarrow>us. f t)" for f :: "'a \<Rightarrow> int"
proof (induction us)
  case (Cons u us)
  have "0 \<le> (\<Sum>t\<leftarrow>us. f t)" using Cons.prems(2) by (intro sum_list_nonneg) auto
  then show ?case using Cons by (cases "t = u") (auto intro: add_increasing)
qed simp

lemma group_near:
  assumes "\<forall>t\<in>set us. h t = cents (g t)" and "(\<Sum>t\<leftarrow>us. \<bar>g t\<bar>) \<le> 2 ^ 36" and "length us \<le> 2048"
  shows "closeTo (js_sum (map h us)) (\<Sum>t\<leftarrow>us. g t) (length us)" and "\<bar>\<Sum>t\<leftarrow>us. g t\<bar> \<le> 2 ^ 36"
proof -
  have m: "map h us = map cents (map g us)" using assms(1) by simp
  show "closeTo (js_sum (map h us)) (\<Sum>t\<leftarrow>us. g t) (length us)"
    unfolding m using closeTo_sum [of "map g us"] assms(2,3) by (simp add: comp_def)
  show "\<bar>\<Sum>t\<leftarrow>us. g t\<bar> \<le> 2 ^ 36" using sum_list_abs_le [of "map g us"] assms(2) by (simp add: comp_def)
qed

lemma loop_near:
  assumes a: "metricState ts a"
    and c: "\<forall>t\<in>set ts. trd_netProfit t = cents (net t) \<and> trd_profit t = cents (fl t) \<and> trd_volume t = cents (vol t)"
    and len: "length ts \<le> 2048" and b: "(\<Sum>t\<leftarrow>ts. tradeSize net fl vol t) \<le> 2 ^ 36"
  shows "closeTo (x_realized a) (\<Sum>t\<leftarrow>filter closed (liveIn ts). net t) (x_closed a)" (is ?realized)
    and "closeTo (x_unrealized a) (\<Sum>t\<leftarrow>filter (\<lambda>t. \<not> closed t) (liveIn ts). fl t) (x_open a)" (is ?unrealized)
    and "closeTo (x_grossProfit a)
           (\<Sum>t\<leftarrow>filter (\<lambda>t. trd_netProfit t > Fin 0) (filter closed (liveIn ts)). net t) (x_wins a)" (is ?wins)
    and "closeTo (x_grossLoss a)
           (- (\<Sum>t\<leftarrow>filter (\<lambda>t. trd_netProfit t < Fin 0) (filter closed (liveIn ts)). net t)) (x_losses a)" (is ?losses)
    and "closeTo (x_volume a) (\<Sum>t\<leftarrow>liveIn ts. vol t) (x_closed a + x_open a)" (is ?volume)
    and "x_closed a + x_open a \<le> 2048" (is ?trades) and "x_wins a \<le> x_closed a" and "x_losses a \<le> x_closed a"
    and "\<bar>\<Sum>t\<leftarrow>filter closed (liveIn ts). net t\<bar> + \<bar>\<Sum>t\<leftarrow>filter (\<lambda>t. \<not> closed t) (liveIn ts). fl t\<bar> \<le> 2 ^ 36" (is ?both)
    and "\<bar>\<Sum>t\<leftarrow>filter P (filter closed (liveIn ts)). net t\<bar> \<le> 2 ^ 36" (is ?part)
    and "\<bar>\<Sum>t\<leftarrow>liveIn ts. vol t\<bar> \<le> 2 ^ 36" (is ?vol)
proof -
  note A = a [unfolded metricState_def Let_def]
  let ?L = "liveIn ts"
  have W0: "0 \<le> tradeSize net fl vol t" for t by (simp add: tradeSize_def)
  have W: "\<bar>net t\<bar> \<le> tradeSize net fl vol t" "\<bar>fl t\<bar> \<le> tradeSize net fl vol t" "\<bar>vol t\<bar> \<le> tradeSize net fl vol t" for t
    by (simp_all add: tradeSize_def)
  have LW: "(\<Sum>t\<leftarrow>?L. tradeSize net fl vol t) \<le> 2 ^ 36"
    using sum_filter_le [of "tradeSize net fl vol" "\<lambda>t. trd_archivedAt t = None" ts, OF W0] b unfolding liveIn_def by linarith
  have fW: "(\<Sum>t\<leftarrow>filter Q us. tradeSize net fl vol t) \<le> 2 ^ 36" if "(\<Sum>t\<leftarrow>us. tradeSize net fl vol t) \<le> 2 ^ 36" for Q us
    using sum_filter_le [of "tradeSize net fl vol" Q us, OF W0] that by linarith
  have gW: "(\<Sum>t\<leftarrow>us. \<bar>g t\<bar>) \<le> (\<Sum>t\<leftarrow>us. tradeSize net fl vol t)" if "\<And>t. \<bar>g t\<bar> \<le> tradeSize net fl vol t" for g us
    using that by (intro sum_list_mono) auto
  have L: "length ?L \<le> 2048" using length_filter_le len unfolding liveIn_def by (rule order_trans)
  have fl: "length (filter Q ?L) \<le> 2048" for Q using L length_filter_le [of Q ?L] by linarith
  have gr: "closeTo (js_sum (map h (filter Q ?L))) (\<Sum>t\<leftarrow>filter Q ?L. g t) (length (filter Q ?L))"
      "\<bar>\<Sum>t\<leftarrow>filter Q ?L. g t\<bar> \<le> 2 ^ 36"
    if "\<forall>t\<in>set ts. h t = cents (g t)" "\<And>t. \<bar>g t\<bar> \<le> tradeSize net fl vol t" for h g Q
  proof -
    have "\<forall>t\<in>set (filter Q ?L). h t = cents (g t)" using that(1) by (auto simp: liveIn_def)
    moreover have "(\<Sum>t\<leftarrow>filter Q ?L. \<bar>g t\<bar>) \<le> 2 ^ 36" using gW [of g, OF that(2)] fW [OF LW, of Q] by (rule order_trans)
    ultimately show "closeTo (js_sum (map h (filter Q ?L))) (\<Sum>t\<leftarrow>filter Q ?L. g t) (length (filter Q ?L))"
      "\<bar>\<Sum>t\<leftarrow>filter Q ?L. g t\<bar> \<le> 2 ^ 36" using fl by (intro group_near; simp)+
  qed
  have n: "\<forall>t\<in>set ts. trd_netProfit t = cents (net t)" "\<forall>t\<in>set ts. trd_profit t = cents (fl t)"
    "\<forall>t\<in>set ts. trd_volume t = cents (vol t)" using c by simp_all
  note net = gr [OF n(1) W(1)] and flo = gr [OF n(2) W(2)] and vo = gr [OF n(3) W(3)]
  show ?realized using net(1) [of closed] A by simp
  show ?unrealized using flo(1) [of "\<lambda>t. \<not> closed t"] A by simp
  show ?wins using net(1) [of "\<lambda>t. closed t \<and> trd_netProfit t > Fin 0"] A by simp
  show ?losses using closeTo_minus [OF net(1) [of "\<lambda>t. closed t \<and> trd_netProfit t < Fin 0"]] A by simp
  have k: "x_closed a + x_open a = length ?L" using A sum_length_filter_compl [of closed ?L] by simp
  show ?volume using vo(1) [of "\<lambda>_. True"] A k by simp
  show ?vol using vo(2) [of "\<lambda>_. True"] by simp
  show ?trades using k L by simp
  show "x_wins a \<le> x_closed a" "x_losses a \<le> x_closed a" using A length_filter_le by metis+
  show ?part using net(2) [of "\<lambda>t. closed t \<and> P t"] by simp
  have "\<bar>\<Sum>t\<leftarrow>filter closed ?L. net t\<bar> \<le> (\<Sum>t\<leftarrow>filter closed ?L. tradeSize net fl vol t)"
    using sum_list_abs_le [of "map net (filter closed ?L)"] gW [of net "filter closed ?L", OF W(1)] by (simp add: comp_def)
  moreover have "\<bar>\<Sum>t\<leftarrow>filter (\<lambda>t. \<not> closed t) ?L. fl t\<bar> \<le> (\<Sum>t\<leftarrow>filter (\<lambda>t. \<not> closed t) ?L. tradeSize net fl vol t)"
    using sum_list_abs_le [of "map fl (filter (\<lambda>t. \<not> closed t) ?L)"] gW [of fl "filter (\<lambda>t. \<not> closed t) ?L", OF W(2)]
    by (simp add: comp_def)
  ultimately show ?both using sum_filter_split [of "tradeSize net fl vol" closed ?L] LW by linarith
qed

lemma sum_negatives: "us \<noteq> [] \<Longrightarrow> \<forall>t\<in>set us. g t < 0 \<Longrightarrow> (\<Sum>t\<leftarrow>us. g t) < 0" for g :: "'a \<Rightarrow> int"
proof (induction us)
  case (Cons t us)
  then show ?case by (cases "us = []") (auto intro: add_neg_neg)
qed simp

text \<open>The profit factor is left out exactly when there are wins and no losses, in any order.\<close>

lemma gross_loss_positive:
  assumes a: "metricState ts a"
    and c: "\<forall>t\<in>set ts. trd_netProfit t = cents (net t) \<and> trd_profit t = cents (fl t) \<and> trd_volume t = cents (vol t)"
    and len: "length ts \<le> 2048" and b: "(\<Sum>t\<leftarrow>ts. tradeSize net fl vol t) \<le> 2 ^ 36"
  shows "Fin 0 < x_grossLoss a \<longleftrightarrow> 0 < x_losses a"
proof (cases "x_losses a = 0")
  case True
  then show ?thesis using a by (simp add: metricState_def Let_def uminus_number_def)
next
  case False
  let ?ls = "filter (\<lambda>t. trd_netProfit t < Fin 0) (filter closed (liveIn ts))"
  have "net t < 0" if "t \<in> set ?ls" for t
  proof (rule ccontr)
    assume "\<not> net t < 0"
    then have "cents 0 \<le> cents (net t)" by (intro cents_mono) simp
    moreover have "cents (net t) < Fin 0" using that c by (auto simp: liveIn_def)
    ultimately show False by (cases "cents (net t)") auto
  qed
  moreover have "?ls \<noteq> []" using False a by (simp add: metricState_def Let_def)
  ultimately have "(\<Sum>t\<leftarrow>?ls. net t) < 0" using sum_negatives by blast
  moreover note N = loop_near [OF a c len b]
  have "x_losses a \<le> 2600" using N(6,8) by linarith
  ultimately show ?thesis using closeTo_pos [OF N(4)] False by simp
qed

text \<open>
  C4: The metrics computed in memory from the loaded trades agree with those computed by the SQL
  aggregates, in whatever order either side visits the trades, for an account whose day starts at
  00:00 UTC and amounts in whole cents: the counts, the win rate, the largest win and loss and the
  trading days are equal; net and realised P&L and the balance of the SQL version are the in-memory
  ones rounded to cents; so are unrealised P&L and equity when no position is open (only SQL counts
  positions); gross profit, gross loss and volume round to the same cents; the profit factor is
  missing on both sides or on neither; and visited in the same order, the ratios are equal to the bit.
\<close>

theorem metrics_equivalent:
  assumes "tpl_dailyLossResetTime (rules (acc_snapshot account)) = Some ''00:00 UTC''"
    and "mset ts = mset (filter (\<lambda>t. trd_accountId t = acc_id account) (trades_t d))"
    and "\<forall>t\<in>set ts. trd_netProfit t = cents (net t) \<and> trd_profit t = cents (fl t) \<and> trd_volume t = cents (vol t)"
    and "length ts \<le> 2048" and "(\<Sum>t\<leftarrow>ts. tradeSize net fl vol t) \<le> 2 ^ 36"
    and "acc_startingBalance account = cents s" and "\<bar>s\<bar> \<le> 2 ^ 36"
  shows "let m = computeAccountMetrics (acc_startingBalance account) ts; q = computeAccountMetricsFromDb account d in
    m_closedTrades m = m_closedTrades q \<and> m_totalTrades m = m_totalTrades q \<and> m_openTrades m = m_openTrades q
    \<and> m_winningTrades m = m_winningTrades q \<and> m_losingTrades m = m_losingTrades q \<and> m_winRate m = m_winRate q
    \<and> m_largestWin m = m_largestWin q \<and> m_largestLoss m = m_largestLoss q \<and> m_tradingDays m = m_tradingDays q
    \<and> roundCurrency (m_netPnl m) = m_netPnl q \<and> roundCurrency (m_realizedPnl m) = m_realizedPnl q
    \<and> roundCurrency (m_balance m) = m_balance q
    \<and> ((\<forall>p\<in>set (positions_t d). \<not> (pos_accountId p = acc_id account \<and> pos_status p = POS_OPEN)) \<longrightarrow>
         roundCurrency (m_unrealizedPnl m) = m_unrealizedPnl q \<and> roundCurrency (m_equity m) = m_equity q)
    \<and> roundCurrency (m_grossProfit m) = roundCurrency (m_grossProfit q)
    \<and> roundCurrency (m_grossLoss m) = roundCurrency (m_grossLoss q)
    \<and> roundCurrency (m_totalVolume m) = roundCurrency (m_totalVolume q)
    \<and> (m_profitFactor m = None) = (m_profitFactor q = None)
    \<and> (ts = filter (\<lambda>t. trd_accountId t = acc_id account) (trades_t d) \<longrightarrow>
         m_profitFactor m = m_profitFactor q \<and> m_avgWin m = m_avgWin q \<and> m_avgLoss m = m_avgLoss q
         \<and> m_grossProfit m = m_grossProfit q \<and> m_grossLoss m = m_grossLoss q \<and> m_totalVolume m = m_totalVolume q)"
proof -
  let ?us = "filter (\<lambda>t. trd_accountId t = acc_id account) (trades_t d)"
  let ?a = "foldl metricStep metricInit ts" and ?b = "foldl metricStep metricInit ?us"
  have set: "set ts = set ?us" using assms(2) by (rule mset_eq_setD)
  have cu: "\<forall>t\<in>set ?us. trd_netProfit t = cents (net t) \<and> trd_profit t = cents (fl t) \<and> trd_volume t = cents (vol t)"
    using assms(3) unfolding set .
  have lu: "length ?us \<le> 2048" using assms(2,4) by (metis size_mset)
  have bu: "(\<Sum>t\<leftarrow>?us. tradeSize net fl vol t) \<le> 2 ^ 36"
    using perm_sum [OF assms(2), of "tradeSize net fl vol"] assms(5) by simp
  have "isFinite (trd_netProfit t)" if "t \<in> set ts" for t
  proof -
    have "\<bar>net t\<bar> \<le> 2 ^ 37"
      using sum_member_le [OF that, of "tradeSize net fl vol"] assms(5) by (simp add: tradeSize_def)
    then show ?thesis using closeTo_cents [of "net t"] assms(3) that by (auto simp: closeTo_def)
  qed
  then have ft: "\<forall>t\<in>set ts. isFinite (trd_netProfit t)" "\<forall>t\<in>set ?us. isFinite (trd_netProfit t)"
    using set by auto
  note A = metricState_fold [OF ft(1)] and B = aggregates_are_the_loop [OF ft(2) refl]
  note N = loop_near [OF A assms(3-5)] and N' = loop_near [OF B(1) cu lu bu]
  note E = metricState_perm [OF A B(1) assms(2) ft(1)]
  note P = perm_sum [OF perm_group [OF assms(2)]]
  define R where "R = (\<Sum>t\<leftarrow>filter closed (liveIn ts). net t)"
  define U where "U = (\<Sum>t\<leftarrow>filter (\<lambda>t. \<not> closed t) (liveIn ts). fl t)"
  have V: "(\<Sum>t\<leftarrow>liveIn ts. vol t) = (\<Sum>t\<leftarrow>liveIn ?us. vol t)"
    using perm_sum [OF perm_group [OF assms(2), of "\<lambda>_. True"], of vol] by simp
  have pos: "Fin 0 < x_grossLoss ?a \<longleftrightarrow> Fin 0 < x_grossLoss ?b"
    using gross_loss_positive [OF A assms(3-5)] gross_loss_positive [OF B(1) cu lu bu] E(4) by simp
  have small: "x_wins ?a \<le> 2600" "x_losses ?a \<le> 2600" "x_closed ?a \<le> 2600" "x_closed ?a + x_open ?a \<le> 2600"
    using N(6-8) by linarith+
  have R: "roundCurrency (x_realized ?a) = cents R" "roundCurrency (x_realized ?b) = cents R"
    using closeTo_round [OF N(1)] closeTo_round [OF N'(1)] P [of net closed] small N(9) E(1) by (simp_all add: R_def)
  have sR: "\<bar>s\<bar> + \<bar>R\<bar> + \<bar>U\<bar> \<le> 2 ^ 37" using N(9) assms(7) by (simp add: R_def U_def)
  have bal: "closeTo (cents s + x_realized ?a) (s + R) (1 + x_closed ?a + 1)"
    using closeTo_add [OF closeTo_cents [of s] N(1)] sR N(6) by (simp add: R_def)
  have eq: "closeTo (cents s + x_realized ?a + x_unrealized ?a) (s + R + U) (1 + x_closed ?a + 1 + x_open ?a + 1)"
    using closeTo_add [OF bal N(2)] sR N(6) abs_triangle_ineq [of s R] by (simp add: U_def)
  have "\<bar>s + R\<bar> \<le> 2 ^ 37" "\<bar>s + R + U\<bar> \<le> 2 ^ 37"
    using sR abs_triangle_ineq [of s R] abs_triangle_ineq [of "s + R" U] by linarith+
  then have ok: "money_ok s" "money_ok R" "money_ok U" "money_ok (s + R)" "\<bar>s + R\<bar> \<le> 2 ^ 48" "\<bar>s + R + U\<bar> \<le> 2 ^ 48"
    using sR by (simp_all add: money_ok_def)
  have balance: "roundCurrency (cents s + x_realized ?a) = roundCurrency (cents s + cents R)"
    using closeTo_round [OF bal] ok N(6) by (simp add: roundCurrency_add)
  have equity: "roundCurrency (cents s + x_realized ?a + x_unrealized ?a) = roundCurrency (roundCurrency (cents s + cents R) + cents U)"
    using closeTo_round [OF eq] ok N(6) by (simp add: roundCurrency_add)
  have "closeTo (x_unrealized ?b + Fin 0) (U + 0) (x_open ?b + 0 + 1)"
    using closeTo_add [OF N'(2), of "Fin 0" 0 0] P [of fl "\<lambda>t. \<not> closed t"] sR N'(6) by (simp add: U_def closeTo_def)
  then have U: "roundCurrency (x_unrealized ?a) = cents U" "roundCurrency (x_unrealized ?b + Fin 0) = cents U"
    using closeTo_round [OF N(2)] closeTo_round [of "x_unrealized ?b + Fin 0"] sR N(6) N'(6) by (simp_all add: U_def)
  have big: "\<bar>n\<bar> \<le> 2 ^ 48" "\<bar>- n\<bar> \<le> 2 ^ 48" if "\<bar>n\<bar> \<le> 2 ^ 36" for n :: int using that by simp_all
  have gp: "roundCurrency (x_grossProfit ?a) = roundCurrency (x_grossProfit ?b)"
    using closeTo_round [OF N(3) small(1) big(1) [OF N(10)]]
      closeTo_round [OF N'(3) small(1) [unfolded E(3)] big(1) [OF N'(10)]] P by simp
  have gl: "roundCurrency (x_grossLoss ?a) = roundCurrency (x_grossLoss ?b)"
    using closeTo_round [OF N(4) small(2) big(2) [OF N(10)]]
      closeTo_round [OF N'(4) small(2) [unfolded E(4)] big(2) [OF N'(10)]] P by simp
  have tv: "roundCurrency (x_volume ?a) = roundCurrency (x_volume ?b)"
    using closeTo_round [OF N(5)] closeTo_round [OF N'(5)] small E(1,2) N(11) V by simp
  have none: "sumOpenPositionFloating (acc_id account) d = Fin 0"
    if "\<forall>p\<in>set (positions_t d). \<not> (pos_accountId p = acc_id account \<and> pos_status p = POS_OPEN)"
  proof -
    have "filter (\<lambda>p. pos_accountId p = acc_id account \<and> pos_status p = POS_OPEN) (positions_t d) = []"
      using that by (simp add: filter_empty_conv)
    then show ?thesis unfolding sumOpenPositionFloating_def by (simp only: list.map js_sum_Nil)
  qed
  show ?thesis
    unfolding computeAccountMetrics_def computeAccountMetricsFromDb_def assms(1,6) Let_def B(2)
    using E R balance U equity gp gl tv pos none by simp
qed

theorem metrics_equivalent_witness:
  "(let d = emptyDb\<lparr>trades_t := [sampleTrade 1 (cents 15000), sampleTrade 2 (cents (- 5000))]\<rparr>;
        m = computeAccountMetrics (acc_startingBalance sampleAccount) [sampleTrade 2 (cents (- 5000)), sampleTrade 1 (cents 15000)];
        q = computeAccountMetricsFromDb sampleAccount d
    in roundCurrency (m_equity m) = m_equity q \<and> roundCurrency (m_grossLoss m) = roundCurrency (m_grossLoss q)
     \<and> m_largestWin q = Fin 150 \<and> m_closedTrades q = 2 \<and> m_tradingDays m = m_tradingDays q)"
proof -
  let ?d = "emptyDb\<lparr>trades_t := [sampleTrade 1 (cents 15000), sampleTrade 2 (cents (- 5000))]\<rparr>"
  let ?ts = "[sampleTrade 2 (cents (- 5000)), sampleTrade 1 (cents 15000)]"
  let ?net = "\<lambda>t. if trd_id t = 1 then 15000 else - 5000 :: int"
  have c: "cents 15000 = Fin 150" "cents (- 5000) = Fin (- 50)" "cents 1000000 = Fin 10000" "cents 100 = Fin 1"
    using cents_whole [of 150] cents_whole [of "- 50"] cents_whole [of 10000] cents_whole [of 1] by simp_all
  have r: "tpl_dailyLossResetTime (rules (acc_snapshot sampleAccount)) = Some ''00:00 UTC''"
    by (simp add: sampleAccount_def sampleSnapshot_def sampleRules_def)
  have p: "mset ?ts = mset (filter (\<lambda>t. trd_accountId t = acc_id sampleAccount) (trades_t ?d))"
    by (simp add: sampleTrade_def sampleAccount_def)
  have v: "\<forall>t\<in>set ?ts. trd_netProfit t = cents (?net t) \<and> trd_profit t = cents (?net t) \<and> trd_volume t = cents 100"
    by (simp add: sampleTrade_def c)
  have b: "(\<Sum>t\<leftarrow>?ts. tradeSize ?net ?net (\<lambda>_. 100) t) \<le> 2 ^ 36"
    by (simp add: tradeSize_def sampleTrade_def)
  have s: "acc_startingBalance sampleAccount = cents 1000000" by (simp add: sampleAccount_def c)
  have o: "\<forall>p\<in>set (positions_t ?d). \<not> (pos_accountId p = acc_id sampleAccount \<and> pos_status p = POS_OPEN)"
    by (simp add: emptyDb_def)
  have m: "m_largestWin (computeAccountMetrics x ?ts) = Fin 150" "m_closedTrades (computeAccountMetrics x ?ts) = 2" for x
    by (simp_all add: c computeAccountMetrics_def Let_def sampleTrade_def metricStep_def metricInit_def)
  show ?thesis using metrics_equivalent [OF r p v _ b s] o m by (simp add: Let_def)
qed

end
