(* ===== verification/ChallengeEngine.thy ===== *)
theory ChallengeEngine
  imports AccountMetrics
begin

text \<open>
  The challenge state machine on the database: \<open>src/lib/services/challengeEngine.ts\<close> and the
  certificate issue of \<open>src/lib/services/certificates.ts\<close> it triggers. \<open>evaluateAccount\<close> is split where
  the code awaits: the reads and the decision give a plan, and committing the plan claims the
  transition; between the two any other service may run. The random public id of a certificate and
  the display texts of notifications are not modelled.
\<close>

section \<open>New accounts\<close>

definition resetTimeOfSnapshot :: "TemplateSnapshot \<Rightarrow> ResetTime" where
  "resetTimeOfSnapshot s = parseResetTime (tpl_dailyLossResetTime (rules s))"

definition newAccountColumns :: "TemplateSnapshot \<Rightarrow> int \<Rightarrow> TradingAccount \<Rightarrow> TradingAccount" where
  "newAccountColumns s now r =
     (let start = tpl_startingBalance (rules s) in
      r\<lparr>acc_startingBalance := start, acc_balance := start, acc_equity := start, acc_highWaterMark := start,
        acc_dailyAnchorBalance := start, acc_dailyAnchorDate := currentDayStart (resetTimeOfSnapshot s) now,
        acc_expiresAt := (case tpl_durationDays (rules s) of
            Some n \<Rightarrow> if n > 0 then Some (now + n * DAY_MS) else None | None \<Rightarrow> None),
        acc_realizedPnl := Fin 0, acc_tradeCount := 0, acc_winCount := 0, acc_lossCount := 0,
        acc_grossProfit := Fin 0, acc_grossLoss := Fin 0, acc_marginUsed := Fin 0\<rparr>)"

definition newAccountRow :: "nat \<Rightarrow> nat \<Rightarrow> nat option \<Rightarrow> nat option \<Rightarrow> nat option \<Rightarrow> TemplateSnapshot \<Rightarrow> int \<Rightarrow> TradingAccount" where
  "newAccountRow i userId purchaseId templateId prev s now =
     newAccountColumns s now
       \<lparr>acc_id = i, acc_userId = userId, acc_purchaseId = purchaseId, acc_templateId = templateId,
        acc_previousAccountId = prev, acc_snapshot = s, acc_phase = tpl_phase (rules s),
        acc_status = (if tpl_phase (rules s) = PHASE_FUNDED then FUNDED else ACTIVE),
        acc_startingBalance = Fin 0, acc_balance = Fin 0, acc_equity = Fin 0, acc_highWaterMark = Fin 0,
        acc_dailyAnchorBalance = Fin 0, acc_dailyAnchorDate = now, acc_realizedPnl = Fin 0, acc_tradeCount = 0,
        acc_winCount = 0, acc_lossCount = 0, acc_grossProfit = Fin 0, acc_grossLoss = Fin 0, acc_marginUsed = Fin 0,
        acc_lastTradeAt = None, acc_expiresAt = None, acc_failureReason = None, acc_statusChangedAt = now,
        acc_passedAt = None, acc_failedAt = None,
        acc_fundedAt = (if tpl_phase (rules s) = PHASE_FUNDED then Some now else None), acc_createdAt = now\<rparr>"

section \<open>Certificates\<close>

text \<open>The dedupe key \<open>"<type>:<id>"\<close> is the pair of the type and the referenced id.\<close>

definition certificateDedupeKey :: "CertificateType \<Rightarrow> nat option \<Rightarrow> nat option \<Rightarrow> db_error + CertificateType \<times> nat" where
  "certificateDedupeKey type accountId payoutId =
     (case (if type = CERT_PAYOUT then payoutId else accountId) of
        None \<Rightarrow> Inl (ServiceFault ''certificate needs an id'')
      | Some i \<Rightarrow> Inr (type, i))"

definition findCertificate :: "CertificateType \<times> nat \<Rightarrow> db \<Rightarrow> Certificate option" where
  "findCertificate k d = findUnique (\<lambda>c. (crt_type c, crt_ref c) = k) (certificates_t d)"

definition issueCertificate :: "CertificateType \<Rightarrow> nat \<Rightarrow> nat option \<Rightarrow> nat option \<Rightarrow> number option \<Rightarrow> db \<Rightarrow> db_error + Certificate \<times> db" where
  "issueCertificate type userId accountId payoutId amount d =
     (case certificateDedupeKey type accountId payoutId of
        Inl e \<Rightarrow> Inl e
      | Inr k \<Rightarrow>
         (case findCertificate k d of
            Some existing \<Rightarrow> Inr (existing, d)
          | None \<Rightarrow>
             (let row = \<lparr>crt_type = type, crt_ref = snd k, crt_userId = userId, crt_accountId = accountId,
                         crt_amount = map_option roundCurrency amount\<rparr>
              in Inr (row, notifyUser userId ''Certificate issued'' (d\<lparr>certificates_t := certificates_t d @ [row]\<rparr>)))))"

section \<open>Evaluation\<close>

definition ensureAggregatesBackfilled :: "TradingAccount \<Rightarrow> string option \<Rightarrow> db \<Rightarrow> TradingAccount \<times> db" where
  "ensureAggregatesBackfilled account resetTimeText d =
     (if acc_tradeCount account > 0 then (account, d)
      else let agg = aggregateTrades (acc_id account) (parseResetTime resetTimeText) d in
        if ag_closed agg = 0 then (account, d)
        else let upd = (\<lambda>r. r\<lparr>acc_realizedPnl := roundCurrency (ag_realized agg),
                   acc_balance := roundCurrency (acc_startingBalance account + ag_realized agg),
                   acc_tradeCount := ag_closed agg, acc_winCount := ag_wins agg, acc_lossCount := ag_losses agg,
                   acc_grossProfit := roundCurrency (ag_grossProfit agg), acc_grossLoss := roundCurrency (ag_grossLoss agg)\<rparr>)
             in (upd account, updateAccount (acc_id account) upd d))"

text \<open>The latest equity snapshot of the quarter of an hour before the boundary, if any.\<close>

definition boundarySnapshot :: "nat \<Rightarrow> int \<Rightarrow> db \<Rightarrow> EquitySnapshot option" where
  "boundarySnapshot accountId boundary d =
     (case sort_key (\<lambda>s. - eqs_at s) (filter (\<lambda>s. eqs_accountId s = accountId \<and> eqs_at s \<le> boundary
        \<and> boundary - 15 * 60000 \<le> eqs_at s) (equity_t d)) of [] \<Rightarrow> None | s # _ \<Rightarrow> Some s)"

definition reconstructBoundaryEquity :: "nat \<Rightarrow> number \<Rightarrow> int \<Rightarrow> db \<Rightarrow> number" where
  "reconstructBoundaryEquity accountId currentBalance boundary d =
     (case boundarySnapshot accountId boundary d of
        Some s \<Rightarrow> roundCurrency (eqs_equity s)
      | None \<Rightarrow> roundCurrency (currentBalance - js_sum (map trd_netProfit
          (filter (\<lambda>t. closed t \<and> (case trd_closeTime t of Some c \<Rightarrow> boundary \<le> c | None \<Rightarrow> False))
            (liveTrades accountId d)))))"

record EvalPlan =
  ev_account :: TradingAccount
  ev_now :: int
  ev_balance :: number
  ev_equity :: number
  ev_highWaterMark :: number
  ev_dailyAnchorBalance :: number
  ev_dailyAnchorDate :: int
  ev_expiresAt :: "int option"
  ev_decision :: Decision

text \<open>The values \<open>evaluateAccount\<close> computes from the account row before it writes the outcome.\<close>

definition evalEquity :: "TradingAccount \<Rightarrow> db \<Rightarrow> number" where
  "evalEquity account d =
     roundCurrency (roundCurrency (acc_balance account)
       + js_sum (map trd_profit (filter (\<lambda>t. \<not> closed t) (liveTrades (acc_id account) d)))
       + sumOpenPositionFloating (acc_id account) d)"

definition evalAnchor :: "TradingAccount \<Rightarrow> int \<Rightarrow> db \<Rightarrow> number \<times> int" where
  "evalAnchor account now d =
     (let resetTime = resetTimeOfSnapshot (acc_snapshot account) in
      if needsDailyReset (acc_dailyAnchorDate account) resetTime now
      then (let boundary = currentDayStart resetTime now
            in (reconstructBoundaryEquity (acc_id account) (roundCurrency (acc_balance account)) boundary d, boundary))
      else (acc_dailyAnchorBalance account, acc_dailyAnchorDate account))"

definition evalHighWaterMark :: "TradingAccount \<Rightarrow> db \<Rightarrow> number" where
  "evalHighWaterMark account d =
     (if evalEquity account d > acc_highWaterMark account then evalEquity account d else acc_highWaterMark account)"

definition needsTradingDays :: "TradingAccount \<Rightarrow> bool" where
  "needsTradingDays account \<longleftrightarrow> tpl_profitTarget (rules (acc_snapshot account)) \<noteq> None
     \<and> acc_phase account \<noteq> PHASE_FUNDED \<and> acc_status account = ACTIVE"

definition evalExpiresAt :: "TradingAccount \<Rightarrow> int option" where
  "evalExpiresAt account =
     (case acc_expiresAt account of Some e \<Rightarrow> Some e
      | None \<Rightarrow> (case tpl_durationDays (rules (acc_snapshot account)) of
          Some n \<Rightarrow> if n \<noteq> 0 then Some (acc_createdAt account + n * DAY_MS) else None | None \<Rightarrow> None))"

definition evalConsistency :: "TradingAccount \<Rightarrow> db \<Rightarrow> ConsistencyResult option" where
  "evalConsistency account d =
     (case tpl_consistencyRequirement (rules (acc_snapshot account)) of
        None \<Rightarrow> None
      | Some l \<Rightarrow>
         (case targetAmount (acc_startingBalance account) (tpl_profitTarget (rules (acc_snapshot account))) of
            None \<Rightarrow> None
          | Some t \<Rightarrow>
             if needsTradingDays account \<and> l > lit 0 \<and> roundCurrency (acc_realizedPnl account) \<ge> t
             then Some (consistencyCheck (dailyNetProfits (acc_id account) (resetTimeOfSnapshot (acc_snapshot account)) d) (Some l))
             else None))"

definition decisionInput :: "TradingAccount \<Rightarrow> int \<Rightarrow> db \<Rightarrow> DecisionInput" where
  "decisionInput account now d =
     (let snapshot = rules (acc_snapshot account) in
      \<lparr>i_status = acc_status account, i_phase = acc_phase account, i_startingBalance = acc_startingBalance account,
       i_netPnl = acc_realizedPnl account, i_equity = evalEquity account d, i_highWaterMark = evalHighWaterMark account d,
       i_dailyAnchorBalance = fst (evalAnchor account now d),
       i_tradingDays = (if needsTradingDays account
          then int (ag_tradingDays (aggregateTrades (acc_id account) (resetTimeOfSnapshot (acc_snapshot account)) d)) else 0),
       i_snapshot = \<lparr>r_maxDrawdown = tpl_maxDrawdown snapshot, r_dailyDrawdown = tpl_dailyDrawdown snapshot,
         r_profitTarget = tpl_profitTarget snapshot, r_minTradingDays = tpl_minTradingDays snapshot,
         r_drawdownMode = Some (case tpl_drawdownMode snapshot of Some m \<Rightarrow> m | None \<Rightarrow> STATIC)\<rparr>,
       i_expired = (case evalExpiresAt account of Some e \<Rightarrow> e < now | None \<Rightarrow> False),
       i_consistency = evalConsistency account d\<rparr>)"

definition evaluatePlan :: "TradingAccount \<Rightarrow> int \<Rightarrow> db \<Rightarrow> EvalPlan" where
  "evaluatePlan account now d =
     \<lparr>ev_account = account, ev_now = now, ev_balance = roundCurrency (acc_balance account), ev_equity = evalEquity account d,
      ev_highWaterMark = evalHighWaterMark account d, ev_dailyAnchorBalance = fst (evalAnchor account now d),
      ev_dailyAnchorDate = snd (evalAnchor account now d), ev_expiresAt = evalExpiresAt account,
      ev_decision = determineChallengeTransition (decisionInput account now d)\<rparr>"

definition evaluateRead :: "nat \<Rightarrow> int \<Rightarrow> db \<Rightarrow> db_error + EvalPlan \<times> db" where
  "evaluateRead accountId now d =
     (case accountRow accountId d of
        None \<Rightarrow> Inl NotFoundError
      | Some row \<Rightarrow>
         (let (account, d') = ensureAggregatesBackfilled row (tpl_dailyLossResetTime (rules (acc_snapshot row))) d
          in Inr (evaluatePlan account now d', d')))"

definition numericFields :: "EvalPlan \<Rightarrow> TradingAccount \<Rightarrow> TradingAccount" where
  "numericFields p r = r\<lparr>acc_balance := ev_balance p, acc_equity := ev_equity p, acc_highWaterMark := ev_highWaterMark p,
     acc_dailyAnchorBalance := ev_dailyAnchorBalance p, acc_dailyAnchorDate := ev_dailyAnchorDate p,
     acc_expiresAt := ev_expiresAt p\<rparr>"

text \<open>The next phase: from the frozen chain, else from the live template when it is active.\<close>

definition nextPhaseOf :: "TemplateSnapshot \<Rightarrow> db \<Rightarrow> (TemplateSnapshot \<times> nat) option" where
  "nextPhaseOf s d =
     (case nextPhaseSnapshot s of
        Some n \<Rightarrow> Some (n, tpl_id (rules n))
      | None \<Rightarrow>
         (case tpl_nextPhaseId (rules s) of
            None \<Rightarrow> None
          | Some i \<Rightarrow>
             (case findUnique (\<lambda>t. tpl_id (tmpl_rules t) = i) (templates_t d) of
                None \<Rightarrow> None
              | Some t \<Rightarrow> if tmpl_status t \<noteq> TPL_ACTIVE then None
                          else Some (toTemplateSnapshot t None, tpl_id (tmpl_rules t)))))"

text \<open>The unique violation on \<open>previousAccountId\<close> is caught and ends the step.\<close>

definition advanceToNextPhase :: "nat \<Rightarrow> nat \<Rightarrow> TemplateSnapshot \<Rightarrow> int \<Rightarrow> db \<Rightarrow> db_error + unit \<times> db" where
  "advanceToNextPhase accountId userId s now d =
     (case nextPhaseOf s d of
        None \<Rightarrow> Inr ((), d)
      | Some (next, templateId) \<Rightarrow>
         if (\<exists>r\<in>set (accounts_t d). acc_previousAccountId r = Some accountId) then Inr ((), d)
         else let created = newAccountRow (next_id d) userId None (Some templateId) (Some accountId) next now;
                  d1 = d\<lparr>accounts_t := accounts_t d @ [created], next_id := next_id d + 1\<rparr>;
                  d2 = logAudit None ''ACCOUNT_PHASE_ADVANCED'' ''TradingAccount'' (acc_id created) d1
              in if acc_status created = FUNDED
                 then (case issueCertificate CERT_FUNDED userId (Some (acc_id created)) None None d2 of
                         Inl e \<Rightarrow> Inl e | Inr (_, d3) \<Rightarrow> Inr ((), d3))
                 else Inr ((), d2))"

text \<open>The columns a claimed transition writes.\<close>

definition transitionRow :: "EvalPlan \<Rightarrow> TradingAccount \<Rightarrow> TradingAccount" where
  "transitionRow p r =
     (let account = ev_account p; status = nextStatus (ev_decision p); now = ev_now p in
      (numericFields p r)\<lparr>acc_status := status,
         acc_passedAt := (if status = PASSED then Some now else acc_passedAt account),
         acc_failedAt := (if status = FAILED then Some now else acc_failedAt account),
         acc_statusChangedAt := now, acc_failureReason := failureReason (ev_decision p)\<rparr>)"

text \<open>The transaction of a transition: the claim, the audit row, the notice, and for PASSED the
  certificate and the next phase.\<close>

definition transitionTx :: "EvalPlan \<Rightarrow> nat option \<Rightarrow> db \<Rightarrow> db_error + unit \<times> db" where
  "transitionTx p actorId d =
     (let account = ev_account p; accountId = acc_id account; previousStatus = acc_status account;
          status = nextStatus (ev_decision p); now = ev_now p;
          (n, rows) = updateMany (\<lambda>r. acc_id r = accountId \<and> acc_status r = previousStatus) (transitionRow p) (accounts_t d)
      in if n = 0 then Inr ((), updateAccount accountId (numericFields p) d)
         else let d1 = notifyUser (acc_userId account) (if status = PASSED then ''Challenge passed'' else ''Challenge failed'')
                    (logAudit actorId ''ACCOUNT_STATUS_AUTO_TRANSITION'' ''TradingAccount'' accountId (d\<lparr>accounts_t := rows\<rparr>))
              in if status = PASSED
                 then (case issueCertificate CERT_CHALLENGE_PASSED (acc_userId account) (Some accountId) None None d1 of
                         Inl e \<Rightarrow> Inl e
                       | Inr (_, d2) \<Rightarrow> advanceToNextPhase accountId (acc_userId account) (acc_snapshot account) now d2)
                 else Inr ((), d1))"

definition findAccountOrThrow :: "nat \<Rightarrow> db \<Rightarrow> (db_error + TradingAccount) \<times> db" where
  "findAccountOrThrow i d = (case accountRow i d of Some r \<Rightarrow> Inr r | None \<Rightarrow> Inl NotFoundError, d)"

definition evaluateCommit :: "EvalPlan \<Rightarrow> nat option \<Rightarrow> db \<Rightarrow> (db_error + TradingAccount) \<times> db" where
  "evaluateCommit p actorId d =
     (if nextStatus (ev_decision p) = acc_status (ev_account p)
      then findAccountOrThrow (acc_id (ev_account p)) (updateAccount (acc_id (ev_account p)) (numericFields p) d)
      else (case transitionTx p actorId d of
              Inl e \<Rightarrow> (Inl e, d)
            | Inr (_, d') \<Rightarrow> findAccountOrThrow (acc_id (ev_account p)) d'))"

definition evaluateAccount :: "nat \<Rightarrow> nat option \<Rightarrow> int \<Rightarrow> db \<Rightarrow> (db_error + TradingAccount) \<times> db" where
  "evaluateAccount accountId actorId now d =
     (case evaluateRead accountId now d of
        Inl e \<Rightarrow> (Inl e, d)
      | Inr (p, d') \<Rightarrow> evaluateCommit p actorId d')"

section \<open>Transitions asked for from outside\<close>

definition failAccountForBreach :: "nat \<Rightarrow> FailureReason \<Rightarrow> number \<Rightarrow> int \<Rightarrow> db \<Rightarrow> db_error + TradingAccount \<times> db" where
  "failAccountForBreach accountId reason equity now d =
     (case accountRow accountId d of
        None \<Rightarrow> Inl NotFoundError
      | Some before \<Rightarrow>
         if acc_status before \<noteq> ACTIVE \<and> acc_status before \<noteq> FUNDED then Inr (before, d)
         else let (n, rows) = updateMany (\<lambda>r. acc_id r = accountId \<and> acc_status r = acc_status before)
                    (\<lambda>r. r\<lparr>acc_status := FAILED, acc_failedAt := Some now, acc_statusChangedAt := now,
                       acc_failureReason := Some reason, acc_equity := roundCurrency equity\<rparr>) (accounts_t d);
                  d1 = (if n = 0 then d
                        else notifyUser (acc_userId before) ''Challenge failed''
                          (logAudit None ''ACCOUNT_STATUS_AUTO_TRANSITION'' ''TradingAccount'' accountId (d\<lparr>accounts_t := rows\<rparr>)))
              in (case accountRow accountId d1 of None \<Rightarrow> Inl NotFoundError | Some r \<Rightarrow> Inr (r, d1)))"

definition setAccountStatusManually :: "nat \<Rightarrow> AccountStatus \<Rightarrow> nat \<Rightarrow> string option \<Rightarrow> int \<Rightarrow> db \<Rightarrow> db_error + TradingAccount \<times> db" where
  "setAccountStatusManually accountId status actorId reason now d =
     (case accountRow accountId d of
        None \<Rightarrow> Inl NotFoundError
      | Some before \<Rightarrow>
         if \<not> isLegalManualTransition (acc_status before) status (acc_phase before)
         then Inl (ConflictError ''Cannot change status'')
         else let reinstating = (status = ACTIVE \<or> status = FUNDED);
                  upd = (\<lambda>r. let r1 = r\<lparr>acc_status := status, acc_statusChangedAt := now,
                      acc_failedAt := (if status = FAILED then Some now else if reinstating then None else acc_failedAt before),
                      acc_fundedAt := (if status = FUNDED \<and> acc_fundedAt before = None then Some now else acc_fundedAt before),
                      acc_failureReason := (if status = FAILED then Some (ADMIN_REASON (case reason of Some s \<Rightarrow> s | None \<Rightarrow> ''ADMIN''))
                                            else if reinstating then None else acc_failureReason before)\<rparr>
                    in if reinstating
                       then r1\<lparr>acc_highWaterMark := Math_max (acc_equity before) (acc_startingBalance before),
                               acc_dailyAnchorBalance := acc_equity before,
                               acc_dailyAnchorDate := currentDayStart (resetTimeOfSnapshot (acc_snapshot before)) now\<rparr>
                       else r1);
                  d1 = updateAccount accountId upd d
              in Inr (upd before, notifyUser (acc_userId before) ''Account status changed''
                   (logAudit (Some actorId) ''ACCOUNT_STATUS_MANUAL_CHANGE'' ''TradingAccount'' accountId d1)))"

definition resetAccount :: "nat \<Rightarrow> nat \<Rightarrow> int \<Rightarrow> db \<Rightarrow> db_error + TradingAccount \<times> db" where
  "resetAccount accountId actorId now d =
     (case accountRow accountId d of
        None \<Rightarrow> Inl NotFoundError
      | Some before \<Rightarrow>
         if (\<exists>r\<in>set (accounts_t d). acc_previousAccountId r = Some accountId)
         then Inl (ConflictError ''This account has already progressed to a next phase and cannot be reset'')
         else let ts = snd (updateMany (\<lambda>t. trd_accountId t = accountId \<and> trd_archivedAt t = None)
                        (\<lambda>t. t\<lparr>trd_archivedAt := Some now\<rparr>) (trades_t d));
                  ps = snd (updateMany (\<lambda>p. pos_accountId p = accountId \<and> pos_status p = POS_OPEN)
                        (\<lambda>p. p\<lparr>pos_status := POS_CLOSED, pos_closedAt := Some now, pos_closeReason := Some CR_ADMIN,
                           pos_floatingPnl := Fin 0, pos_marginUsed := Fin 0\<rparr>) (positions_t d));
                  upd = (\<lambda>r. (newAccountColumns (acc_snapshot before) now r)
                      \<lparr>acc_status := (if acc_phase before = PHASE_FUNDED then FUNDED else ACTIVE), acc_statusChangedAt := now,
                       acc_passedAt := None, acc_failedAt := None, acc_failureReason := None,
                       acc_fundedAt := (if acc_phase before = PHASE_FUNDED
                          then Some (case acc_fundedAt before of Some f \<Rightarrow> f | None \<Rightarrow> now) else None)\<rparr>);
                  d1 = updateAccount accountId upd (d\<lparr>trades_t := ts, positions_t := ps\<rparr>)
              in Inr (upd before, logAudit (Some actorId) ''ACCOUNT_RESET'' ''TradingAccount'' accountId d1))"

section \<open>The risk sweep\<close>

text \<open>
  A page of the sweep: live accounts in id order, from the cursor on; \<open>skip: 1\<close> drops the first row of
  the result (Prisma compares ids with the cursor row and applies the filter and the offset to the
  result, whether or not the cursor row still matches the filter).
\<close>

definition sweepPage :: "nat option \<Rightarrow> nat \<Rightarrow> db \<Rightarrow> TradingAccount list" where
  "sweepPage cursor batchSize d =
     (let live = sort_key acc_id (filter (\<lambda>r. acc_status r = ACTIVE \<or> acc_status r = FUNDED) (accounts_t d)) in
      case cursor of
        None \<Rightarrow> take batchSize live
      | Some c \<Rightarrow> take batchSize (drop 1 (filter (\<lambda>r. c \<le> acc_id r) live)))"

record SweepResult =
  sw_evaluated :: "nat list"
  sw_transitioned :: nat
  sw_errors :: nat

text \<open>The evaluated accounts are listed where the code counts them.\<close>

fun sweepBatch :: "int \<Rightarrow> TradingAccount list \<Rightarrow> SweepResult \<Rightarrow> db \<Rightarrow> SweepResult \<times> db" where
  "sweepBatch now [] res d = (res, d)"
| "sweepBatch now (row # rest) res d =
     (case evaluateAccount (acc_id row) None now d of
        (Inl _, d') \<Rightarrow> sweepBatch now rest (res\<lparr>sw_errors := sw_errors res + 1\<rparr>) d'
      | (Inr after, d') \<Rightarrow> sweepBatch now rest
          (res\<lparr>sw_evaluated := sw_evaluated res @ [acc_id row],
               sw_transitioned := (if acc_status after \<noteq> acc_status row then sw_transitioned res + 1 else sw_transitioned res)\<rparr>) d')"

text \<open>The loop, with fuel; \<open>None\<close> when the fuel runs out.\<close>

fun riskSweepLoop :: "nat \<Rightarrow> nat \<Rightarrow> int \<Rightarrow> nat option \<Rightarrow> SweepResult \<Rightarrow> db \<Rightarrow> (SweepResult \<times> db) option" where
  "riskSweepLoop 0 batchSize now cursor res d = None"
| "riskSweepLoop (Suc fuel) batchSize now cursor res d =
     (let batch = sweepPage cursor batchSize d in
      if batch = [] then Some (res, d)
      else let (res', d') = sweepBatch now batch res d in
        if length batch < batchSize then Some (res', d')
        else riskSweepLoop fuel batchSize now (Some (acc_id (last batch))) res' d')"

definition runRiskSweep :: "nat \<Rightarrow> nat \<Rightarrow> int \<Rightarrow> db \<Rightarrow> (SweepResult \<times> db) option" where
  "runRiskSweep fuel batchSize now d =
     riskSweepLoop fuel batchSize now None \<lparr>sw_evaluated = [], sw_transitioned = 0, sw_errors = 0\<rparr> d"

end
