(* ===== verification/TradeLedger.thy ===== *)
theory TradeLedger
  imports ChallengeEngine
begin

text \<open>
  \<open>src/lib/services/tradeLedger.ts\<close>: the only writer of trading activity. A transaction that fails
  leaves the database as it was; what the code does after a transaction (the duplicate lookup of
  \<open>openPosition\<close>, the evaluation after a close) is a separate step on the resulting database.
\<close>

section \<open>Fills\<close>

record OpenInput =
  oi_accountId :: nat
  oi_symbol :: string
  oi_side :: Side
  oi_volume :: number
  oi_entryPrice :: number
  oi_stopLoss :: "number option"
  oi_takeProfit :: "number option"
  oi_marginUsed :: number
  oi_entryTickTs :: "int option"
  oi_feedSource :: "string option"
  oi_clientOrderId :: string
  oi_type :: OrderKind
  oi_price :: "number option"
  oi_existingOrderId :: "nat option"

record OpenResult =
  or_position :: "Position option"
  or_order :: Order
  or_duplicate :: bool

definition orderRow :: "nat \<Rightarrow> db \<Rightarrow> Order option" where
  "orderRow i d = findUnique (\<lambda>o1. ord_id o1 = i) (orders_t d)"

definition orderByClientId :: "nat \<Rightarrow> string \<Rightarrow> db \<Rightarrow> Order option" where
  "orderByClientId accountId clientOrderId d =
     findUnique (\<lambda>o1. ord_accountId o1 = accountId \<and> ord_clientOrderId o1 = clientOrderId) (orders_t d)"

definition newPositionRow :: "nat \<Rightarrow> OpenInput \<Rightarrow> int \<Rightarrow> Position" where
  "newPositionRow i input now =
     \<lparr>pos_id = i, pos_accountId = oi_accountId input, pos_symbol = oi_symbol input, pos_side = oi_side input,
      pos_volume = oi_volume input, pos_entryPrice = oi_entryPrice input, pos_stopLoss = oi_stopLoss input,
      pos_takeProfit = oi_takeProfit input, pos_currentPrice = Some (oi_entryPrice input), pos_floatingPnl = Fin 0,
      pos_marginUsed = roundCurrency (oi_marginUsed input), pos_status = POS_OPEN, pos_openedAt = now,
      pos_entryTickTs = oi_entryTickTs input, pos_feedSource = oi_feedSource input, pos_closedAt = None,
      pos_closePrice = None, pos_closeReason = None\<rparr>"

definition newOrderRow :: "nat \<Rightarrow> OpenInput \<Rightarrow> nat \<Rightarrow> int \<Rightarrow> Order" where
  "newOrderRow i input positionId now =
     \<lparr>ord_id = i, ord_accountId = oi_accountId input, ord_symbol = oi_symbol input, ord_clientOrderId = oi_clientOrderId input,
      ord_side = oi_side input, ord_type = oi_type input, ord_volume = oi_volume input, ord_price = oi_price input,
      ord_stopLoss = oi_stopLoss input, ord_takeProfit = oi_takeProfit input, ord_status = ORD_FILLED,
      ord_rejectReason = None, ord_filledPrice = Some (oi_entryPrice input), ord_filledAt = Some now,
      ord_positionId = Some positionId\<rparr>"

definition openTx :: "OpenInput \<Rightarrow> int \<Rightarrow> db \<Rightarrow> db_error + OpenResult \<times> db" where
  "openTx input now d =
     (case accountRow (oi_accountId input) d of
        None \<Rightarrow> Inl NotFoundError
      | Some account \<Rightarrow>
         if acc_status account \<noteq> ACTIVE \<and> acc_status account \<noteq> FUNDED
         then Inl (ConflictError ''trading is not allowed'')
         else let position = newPositionRow (next_id d) input now;
                  d1 = d\<lparr>positions_t := positions_t d @ [position], next_id := next_id d + 1\<rparr>;
                  margin = (\<lambda>r. r\<lparr>acc_marginUsed := roundCurrency (acc_marginUsed account + oi_marginUsed input)\<rparr>)
              in (case oi_existingOrderId input of
                    Some oid \<Rightarrow>
                      (case orderRow oid d1 of
                         None \<Rightarrow> Inl NotFoundError
                       | Some o1 \<Rightarrow>
                          (let upd = (\<lambda>o1. o1\<lparr>ord_status := ORD_FILLED, ord_filledPrice := Some (oi_entryPrice input),
                                        ord_filledAt := Some now, ord_positionId := Some (pos_id position)\<rparr>);
                               d2 = d1\<lparr>orders_t := snd (updateMany (\<lambda>o1. ord_id o1 = oid) upd (orders_t d1))\<rparr>
                           in Inr (\<lparr>or_position = Some position, or_order = upd o1, or_duplicate = False\<rparr>,
                                updateAccount (oi_accountId input) margin d2)))
                  | None \<Rightarrow>
                      if orderByClientId (oi_accountId input) (oi_clientOrderId input) d1 \<noteq> None
                      then Inl (UniqueViolation ''clientOrderId'')
                      else let o1 = newOrderRow (next_id d1) input (pos_id position) now;
                               d2 = d1\<lparr>orders_t := orders_t d1 @ [o1], next_id := next_id d1 + 1\<rparr>
                           in Inr (\<lparr>or_position = Some position, or_order = o1, or_duplicate = False\<rparr>,
                                updateAccount (oi_accountId input) margin d2)))"

definition openPosition :: "OpenInput \<Rightarrow> int \<Rightarrow> db \<Rightarrow> db_error + OpenResult \<times> db" where
  "openPosition input now d =
     (case openTx input now d of
        Inr r \<Rightarrow> Inr r
      | Inl e \<Rightarrow>
         if e = UniqueViolation ''clientOrderId''
         then (case orderByClientId (oi_accountId input) (oi_clientOrderId input) d of
                 None \<Rightarrow> Inl NotFoundError
               | Some o1 \<Rightarrow> Inr (\<lparr>or_position = (case ord_positionId o1 of Some p \<Rightarrow> positionRow p d | None \<Rightarrow> None),
                              or_order = o1, or_duplicate = True\<rparr>, d))
         else Inl e)"

record RejectInput =
  ri_accountId :: nat
  ri_symbol :: string
  ri_side :: Side
  ri_volume :: number
  ri_type :: OrderKind
  ri_price :: "number option"
  ri_clientOrderId :: string
  ri_reason :: string

text \<open>\<open>null\<close> (here \<open>None\<close>) when the client order id is already recorded.\<close>

definition recordRejectedOrder :: "RejectInput \<Rightarrow> db \<Rightarrow> Order option \<times> db" where
  "recordRejectedOrder input d =
     (if orderByClientId (ri_accountId input) (ri_clientOrderId input) d \<noteq> None then (None, d)
      else let o1 = \<lparr>ord_id = next_id d, ord_accountId = ri_accountId input, ord_symbol = ri_symbol input,
             ord_clientOrderId = ri_clientOrderId input, ord_side = ri_side input, ord_type = ri_type input,
             ord_volume = ri_volume input, ord_price = ri_price input, ord_stopLoss = None, ord_takeProfit = None,
             ord_status = ORD_REJECTED, ord_rejectReason = Some (take 200 (ri_reason input)), ord_filledPrice = None,
             ord_filledAt = None, ord_positionId = None\<rparr>
           in (Some o1, d\<lparr>orders_t := orders_t d @ [o1], next_id := next_id d + 1\<rparr>))"

section \<open>Closes\<close>

record CloseInput =
  ci_positionId :: nat
  ci_closePrice :: number
  ci_closedAt :: "int option"
  ci_closeReason :: CloseReason
  ci_grossProfit :: number
  ci_commission :: "number option"
  ci_swap :: "number option"
  ci_volume :: "number option"
  ci_exitTickTs :: "int option"
  ci_fxRate :: "number option"
  ci_quoteCurrency :: "string option"
  ci_actorId :: "nat option"

record CloseResult =
  cr_trade :: "Trade option"
  cr_position :: Position
  cr_accountId :: nat
  cr_changed :: bool

definition latestTradeOf :: "nat \<Rightarrow> db \<Rightarrow> Trade option" where
  "latestTradeOf positionId d =
     (case sort_key (\<lambda>t. case trd_closeTime t of Some c \<Rightarrow> - c | None \<Rightarrow> 0)
        (filter (\<lambda>t. trd_positionId t = Some positionId) (trades_t d)) of
        [] \<Rightarrow> None | t # _ \<Rightarrow> Some t)"

text \<open>The money of a close: commission, swap, gross and net, each rounded to cents.\<close>

definition closeMoney :: "CloseInput \<Rightarrow> number \<times> number \<times> number \<times> number" where
  "closeMoney input =
     (let commission = roundCurrency (case ci_commission input of Some c \<Rightarrow> c | None \<Rightarrow> lit 0);
          swap = roundCurrency (case ci_swap input of Some s \<Rightarrow> s | None \<Rightarrow> lit 0);
          gross = roundCurrency (ci_grossProfit input)
      in (gross, commission, swap, roundCurrency (gross - commission - swap)))"

definition closeVolumeOf :: "CloseInput \<Rightarrow> Position \<Rightarrow> number" where
  "closeVolumeOf input position =
     Math_min (pos_volume position) (case ci_volume input of Some v \<Rightarrow> v | None \<Rightarrow> pos_volume position)"

definition fullClose :: "CloseInput \<Rightarrow> Position \<Rightarrow> bool" where
  "fullClose input position \<longleftrightarrow> closeVolumeOf input position \<ge> pos_volume position - lit (1 / 10 ^ 9)"

definition marginReleasedOf :: "CloseInput \<Rightarrow> Position \<Rightarrow> number" where
  "marginReleasedOf input position =
     (if fullClose input position then pos_marginUsed position
      else roundCurrency (pos_marginUsed position * (closeVolumeOf input position / pos_volume position)))"

definition closedPositionRow :: "CloseInput \<Rightarrow> Position \<Rightarrow> int \<Rightarrow> Position \<Rightarrow> Position" where
  "closedPositionRow input position closedAt p =
     (if fullClose input position
      then p\<lparr>pos_status := POS_CLOSED, pos_closedAt := Some closedAt, pos_closePrice := Some (ci_closePrice input),
             pos_closeReason := Some (ci_closeReason input), pos_floatingPnl := Fin 0, pos_marginUsed := Fin 0,
             pos_currentPrice := Some (ci_closePrice input)\<rparr>
      else p\<lparr>pos_volume := roundVolume (pos_volume position - closeVolumeOf input position),
             pos_marginUsed := roundCurrency (pos_marginUsed position - marginReleasedOf input position),
             pos_currentPrice := Some (ci_closePrice input)\<rparr>)"

definition closeTradeRow :: "CloseInput \<Rightarrow> Position \<Rightarrow> int \<Rightarrow> nat \<Rightarrow> Trade" where
  "closeTradeRow input position closedAt i =
     (let (gross, commission, swap, net) = closeMoney input in
      \<lparr>trd_id = i, trd_accountId = pos_accountId position, trd_symbol = pos_symbol position, trd_side = pos_side position,
       trd_volume = closeVolumeOf input position, trd_entryPrice = pos_entryPrice position,
       trd_exitPrice = Some (ci_closePrice input), trd_stopLoss = pos_stopLoss position, trd_takeProfit = pos_takeProfit position,
       trd_openTime = pos_openedAt position, trd_closeTime = Some closedAt,
       trd_profit = gross, trd_commission = commission, trd_swap = swap, trd_netProfit = net, trd_status = TRD_CLOSED,
       trd_archivedAt = None, trd_positionId = Some (pos_id position), trd_closeReason = Some (ci_closeReason input),
       trd_entryTickTs = pos_entryTickTs position, trd_exitTickTs = ci_exitTickTs input, trd_feedSource = pos_feedSource position,
       trd_quoteCurrency = ci_quoteCurrency input, trd_fxRate = ci_fxRate input\<rparr>)"

definition closeEntries :: "CloseInput \<Rightarrow> TradingAccount \<Rightarrow> nat \<Rightarrow> LedgerEntry list" where
  "closeEntries input account tradeId =
     (let (gross, commission, swap, net) = closeMoney input;
          entry = (\<lambda>type amount rate. \<lparr>led_userId = acc_userId account, led_accountId = Some (acc_id account),
                    led_purchaseId = None, led_type = type, led_amount = amount, led_currency = ''ETB'', led_fxRate = rate,
                    led_refType = ''Trade'', led_refId = tradeId\<rparr>)
      in entry LE_TRADE_PNL gross (ci_fxRate input)
         # (if \<not> js_eq commission (lit 0) then [entry LE_COMMISSION (- commission) None] else [])
         @ (if \<not> js_eq swap (lit 0) then [entry LE_SWAP (- swap) None] else []))"

definition closeAccountRow :: "CloseInput \<Rightarrow> Position \<Rightarrow> TradingAccount \<Rightarrow> int \<Rightarrow> TradingAccount \<Rightarrow> TradingAccount" where
  "closeAccountRow input position account closedAt r =
     (let (gross, commission, swap, net) = closeMoney input in
      r\<lparr>acc_balance := roundCurrency (acc_balance account + net),
        acc_realizedPnl := roundCurrency (acc_realizedPnl account + net),
        acc_tradeCount := acc_tradeCount r + 1,
        acc_winCount := (if net > lit 0 then acc_winCount r + 1 else acc_winCount r),
        acc_lossCount := (if net < lit 0 then acc_lossCount r + 1 else acc_lossCount r),
        acc_grossProfit := (if net > lit 0 then roundCurrency (acc_grossProfit account + net) else acc_grossProfit r),
        acc_grossLoss := (if net < lit 0 then roundCurrency (acc_grossLoss account - net) else acc_grossLoss r),
        acc_marginUsed := roundCurrency (Math_max (lit 0) (acc_marginUsed account - marginReleasedOf input position)),
        acc_lastTradeAt := Some closedAt\<rparr>)"

definition closeTx :: "CloseInput \<Rightarrow> int \<Rightarrow> db \<Rightarrow> db_error + CloseResult \<times> db" where
  "closeTx input now d =
     (let closedAt = (case ci_closedAt input of Some c \<Rightarrow> c | None \<Rightarrow> now) in
      case positionRow (ci_positionId input) d of
        None \<Rightarrow> Inl NotFoundError
      | Some position \<Rightarrow>
         if pos_status position \<noteq> POS_OPEN
         then Inr (\<lparr>cr_trade = latestTradeOf (pos_id position) d, cr_position = position, cr_accountId = pos_accountId position,
                    cr_changed = False\<rparr>, d)
         else let (n, rows) = updateMany (\<lambda>p. pos_id p = pos_id position \<and> pos_status p = POS_OPEN)
                    (closedPositionRow input position closedAt) (positions_t d)
              in if n = 0
                 then Inr (\<lparr>cr_trade = latestTradeOf (pos_id position) d, cr_position = position,
                            cr_accountId = pos_accountId position, cr_changed = False\<rparr>, d)
                 else let trade = closeTradeRow input position closedAt (next_id d) in
                   (case accountRow (pos_accountId position) d of
                      None \<Rightarrow> Inl NotFoundError
                    | Some account \<Rightarrow>
                       (let d1 = updateAccount (acc_id account) (closeAccountRow input position account closedAt)
                                (d\<lparr>positions_t := rows, trades_t := trades_t d @ [trade], next_id := next_id d + 1,
                                   ledger_t := ledger_t d @ closeEntries input account (trd_id trade)\<rparr>)
                        in (case positionRow (pos_id position) d1 of
                              None \<Rightarrow> Inl NotFoundError
                            | Some refreshed \<Rightarrow> Inr (\<lparr>cr_trade = Some trade, cr_position = refreshed,
                                  cr_accountId = pos_accountId position, cr_changed = True\<rparr>, d1)))))"

record CloseOutcome =
  co_trade :: "Trade option"
  co_account :: TradingAccount
  co_position :: Position

definition recordPositionClose :: "CloseInput \<Rightarrow> int \<Rightarrow> db \<Rightarrow> (db_error + CloseOutcome) \<times> db" where
  "recordPositionClose input now d =
     (case closeTx input now d of
        Inl e \<Rightarrow> (Inl e, d)
      | Inr (result, d1) \<Rightarrow>
         (case (if cr_changed result then evaluateAccount (cr_accountId result) (ci_actorId input) now d1
                else findAccountOrThrow (cr_accountId result) d1) of
            (Inl e, d2) \<Rightarrow> (Inl e, d2)
          | (Inr account, d2) \<Rightarrow> (Inr \<lparr>co_trade = cr_trade result, co_account = account, co_position = cr_position result\<rparr>, d2)))"

section \<open>Risk, marks, anchors, loading\<close>

text \<open>\<open>None\<close> is \<open>undefined\<close> (keep), \<open>Some None\<close> is \<open>null\<close> (clear).\<close>

definition updatePositionRisk :: "nat \<Rightarrow> number option option \<Rightarrow> number option option \<Rightarrow> db \<Rightarrow> db_error + Position \<times> db" where
  "updatePositionRisk positionId stopLoss takeProfit d =
     (let (n, rows) = updateMany (\<lambda>p. pos_id p = positionId \<and> pos_status p = POS_OPEN)
            (\<lambda>p. p\<lparr>pos_stopLoss := (case stopLoss of Some v \<Rightarrow> v | None \<Rightarrow> pos_stopLoss p),
                   pos_takeProfit := (case takeProfit of Some v \<Rightarrow> v | None \<Rightarrow> pos_takeProfit p)\<rparr>) (positions_t d);
          d1 = d\<lparr>positions_t := rows\<rparr>
      in if n = 0 then Inl (ConflictError ''Position is not open'')
         else (case positionRow positionId d1 of None \<Rightarrow> Inl NotFoundError | Some p \<Rightarrow> Inr (p, d1)))"

record Mark =
  mk_positionId :: nat
  mk_currentPrice :: number
  mk_floatingPnl :: number

record AccountMark =
  am_accountId :: nat
  am_equity :: number
  am_marginUsed :: number

definition persistMark :: "Mark \<Rightarrow> db \<Rightarrow> db" where
  "persistMark m d = d\<lparr>positions_t := snd (updateMany (\<lambda>p. pos_id p = mk_positionId m \<and> pos_status p = POS_OPEN)
     (\<lambda>p. p\<lparr>pos_currentPrice := Some (mk_currentPrice m), pos_floatingPnl := roundCurrency (mk_floatingPnl m)\<rparr>) (positions_t d))\<rparr>"

definition persistAccountMark :: "AccountMark \<Rightarrow> db \<Rightarrow> db" where
  "persistAccountMark a d = updateAccount (am_accountId a)
     (\<lambda>r. r\<lparr>acc_equity := roundCurrency (am_equity a), acc_marginUsed := roundCurrency (am_marginUsed a)\<rparr>) d"

definition persistMarks :: "Mark list \<Rightarrow> AccountMark list \<Rightarrow> db \<Rightarrow> db" where
  "persistMarks marks accts d = fold persistAccountMark accts (fold persistMark marks d)"

definition captureDailyAnchor :: "nat \<Rightarrow> number \<Rightarrow> int \<Rightarrow> db \<Rightarrow> db" where
  "captureDailyAnchor accountId equity boundary d =
     d\<lparr>accounts_t := snd (updateMany (\<lambda>r. acc_id r = accountId \<and> acc_dailyAnchorDate r < boundary)
        (\<lambda>r. r\<lparr>acc_dailyAnchorBalance := roundCurrency equity, acc_dailyAnchorDate := boundary\<rparr>) (accounts_t d))\<rparr>"

definition recordEquitySnapshot :: "nat \<Rightarrow> number \<Rightarrow> number \<Rightarrow> number \<Rightarrow> int \<Rightarrow> db \<Rightarrow> db" where
  "recordEquitySnapshot accountId balance equity marginUsed now d =
     d\<lparr>equity_t := equity_t d @ [\<lparr>eqs_accountId = accountId, eqs_at = now, eqs_balance = roundCurrency balance,
        eqs_equity = roundCurrency equity, eqs_marginUsed = roundCurrency marginUsed\<rparr>]\<rparr>"

definition openPositionsOf :: "nat \<Rightarrow> db \<Rightarrow> Position list" where
  "openPositionsOf accountId d = filter (\<lambda>p. pos_accountId p = accountId \<and> pos_status p = POS_OPEN) (positions_t d)"

definition loadEngineAccounts :: "db \<Rightarrow> (TradingAccount \<times> Position list) list" where
  "loadEngineAccounts d =
     map (\<lambda>r. (r, openPositionsOf (acc_id r) d)) (filter (\<lambda>r. acc_status r = ACTIVE \<or> acc_status r = FUNDED) (accounts_t d))"

definition loadEngineAccount :: "nat \<Rightarrow> db \<Rightarrow> (TradingAccount \<times> Position list) option" where
  "loadEngineAccount accountId d = map_option (\<lambda>r. (r, openPositionsOf (acc_id r) d)) (accountRow accountId d)"

definition loadEnabledInstruments :: "db \<Rightarrow> Instrument list" where
  "loadEnabledInstruments d = sort_key ins_sortOrder (filter ins_enabled (instruments_t d))"

end
