(* ===== verification/ChallengeProofs.thy ===== *)
theory ChallengeProofs
  imports ChallengeEngine
begin

text \<open>
  What the challenge state machine guarantees: a transition is claimed once, the chain of accounts
  stays consistent under every interleaving of evaluations, breaches and admin actions, and what
  reinstating and resetting an account do.
\<close>

section \<open>Claims on accounts\<close>

interpretation transition: claims
  "\<lambda>k. updateMany (\<lambda>r. acc_id r = k \<and> acc_status r = s) (\<lambda>r. (f r)\<lparr>acc_status := (if s = FAILED then PASSED else FAILED)\<rparr>)"
  "\<lambda>k rows. \<exists>r\<in>set rows. acc_id r = k \<and> acc_status r = s" for f s
  by (rule updateMany_claims) auto

lemma account_claims:
  "(\<And>r. acc_status (f r) \<noteq> s) \<Longrightarrow>
    claims (\<lambda>k. updateMany (\<lambda>r. acc_id r = k \<and> acc_status r = s) f) (\<lambda>k rows. \<exists>r\<in>set rows. acc_id r = k \<and> acc_status r = s)"
  by (rule updateMany_claims) simp

section \<open>Certificates\<close>

lemma issueCertificate_Inr:
  assumes "issueCertificate t u a p am d = Inr (c, d')"
  shows "\<exists>k. certificateDedupeKey t a p = Inr k \<and> findCertificate k d' \<noteq> None"
    and "set (certificates_t d) \<subseteq> set (certificates_t d')"
    and "accounts_t d' = accounts_t d" "next_id d' = next_id d"
    and "distinct (map (\<lambda>c. (crt_type c, crt_ref c)) (certificates_t d)) \<Longrightarrow>
      distinct (map (\<lambda>c. (crt_type c, crt_ref c)) (certificates_t d'))"
proof -
  obtain k where k: "certificateDedupeKey t a p = Inr k"
    using assms by (auto simp: issueCertificate_def split: sum.splits)
  then have t: "t = fst k" by (auto simp: certificateDedupeKey_def split: option.splits)
  have s: "findCertificate k d' \<noteq> None \<and> set (certificates_t d) \<subseteq> set (certificates_t d') \<and> accounts_t d' = accounts_t d
    \<and> next_id d' = next_id d \<and> (distinct (map (\<lambda>c. (crt_type c, crt_ref c)) (certificates_t d)) \<longrightarrow>
      distinct (map (\<lambda>c. (crt_type c, crt_ref c)) (certificates_t d')))"
  proof (cases "findCertificate k d")
    case (Some e)
    then show ?thesis using assms k by (simp add: issueCertificate_def)
  next
    case None
    define row where "row = \<lparr>crt_type = t, crt_ref = snd k, crt_userId = u, crt_accountId = a, crt_amount = map_option roundCurrency am\<rparr>"
    have d': "certificates_t d' = certificates_t d @ [row]" "accounts_t d' = accounts_t d" "next_id d' = next_id d"
      using assms k None by (auto simp: issueCertificate_def Let_def row_def)
    have key: "(crt_type row, crt_ref row) = k" by (simp add: row_def t)
    have "\<forall>c\<in>set (certificates_t d). (crt_type c, crt_ref c) \<noteq> k"
      using None by (simp add: findCertificate_def findUnique_def find_None_iff)
    then show ?thesis using key d' by (auto simp: findCertificate_def findUnique_def find_None_iff simp del: prod.inject)
  qed
  then show "\<exists>k. certificateDedupeKey t a p = Inr k \<and> findCertificate k d' \<noteq> None" using k by blast
  show "set (certificates_t d) \<subseteq> set (certificates_t d')" "accounts_t d' = accounts_t d" "next_id d' = next_id d"
    "distinct (map (\<lambda>c. (crt_type c, crt_ref c)) (certificates_t d)) \<Longrightarrow>
      distinct (map (\<lambda>c. (crt_type c, crt_ref c)) (certificates_t d'))"
    using s by blast+
qed

lemma issueCertificate_total:
  assumes "t \<noteq> CERT_PAYOUT"
  shows "\<exists>c d'. issueCertificate t u (Some a) None am d = Inr (c, d')"
proof -
  have k: "certificateDedupeKey t (Some a) None = Inr (t, a)" using assms by (simp add: certificateDedupeKey_def)
  show ?thesis unfolding issueCertificate_def k by (cases "findCertificate (t, a) d") (simp_all add: Let_def)
qed

section \<open>The chain of accounts\<close>

definition hasNext :: "nat \<Rightarrow> db \<Rightarrow> bool" where
  "hasNext k d \<longleftrightarrow> (\<exists>r\<in>set (accounts_t d). acc_previousAccountId r = Some k)"

definition chain_ok :: "db \<Rightarrow> bool" where
  "chain_ok d \<longleftrightarrow> distinct (map acc_id (accounts_t d)) \<and> (\<forall>r\<in>set (accounts_t d). acc_id r < next_id d)
     \<and> (\<forall>r\<in>set (accounts_t d). \<forall>s\<in>set (accounts_t d).
          acc_previousAccountId r = acc_previousAccountId s \<and> acc_previousAccountId r \<noteq> None \<longrightarrow> acc_id r = acc_id s)
     \<and> (\<forall>r\<in>set (accounts_t d). \<forall>k. acc_previousAccountId r = Some k \<longrightarrow>
          (\<exists>p\<in>set (accounts_t d). acc_id p = k \<and> acc_status p = PASSED))
     \<and> (\<forall>r\<in>set (accounts_t d). acc_status r = PASSED \<longrightarrow> findCertificate (CERT_CHALLENGE_PASSED, acc_id r) d \<noteq> None)
     \<and> distinct (map (\<lambda>c. (crt_type c, crt_ref c)) (certificates_t d))"

lemma findCertificate_mono:
  "set (certificates_t d) \<subseteq> set (certificates_t d') \<Longrightarrow> findCertificate k d \<noteq> None \<Longrightarrow> findCertificate k d' \<noteq> None"
  by (auto simp: findCertificate_def findUnique_def find_None_iff)

text \<open>Updating the row of one account keeps the chain, if it does not leave PASSED under a next account
  and enters PASSED only with a certificate.\<close>

lemma chain_update:
  assumes ok: "chain_ok d"
    and acc: "accounts_t d' = map (\<lambda>r. if P r then f r else r) (accounts_t d)" and nid: "next_id d' = next_id d"
    and cert: "set (certificates_t d) \<subseteq> set (certificates_t d')"
      "distinct (map (\<lambda>c. (crt_type c, crt_ref c)) (certificates_t d'))"
    and keep: "\<And>r. acc_id (f r) = acc_id r" "\<And>r. acc_previousAccountId (f r) = acc_previousAccountId r"
    and out: "\<And>r. r \<in> set (accounts_t d) \<Longrightarrow> P r \<Longrightarrow> acc_status r = PASSED \<Longrightarrow> acc_status (f r) = PASSED \<or> \<not> hasNext (acc_id r) d"
    and into: "\<And>r. r \<in> set (accounts_t d) \<Longrightarrow> P r \<Longrightarrow> acc_status (f r) = PASSED \<Longrightarrow>
      findCertificate (CERT_CHALLENGE_PASSED, acc_id r) d' \<noteq> None"
  shows "chain_ok d'"
proof -
  let ?g = "\<lambda>r. if P r then f r else r"
  have ids: "acc_id (?g r) = acc_id r" "acc_previousAccountId (?g r) = acc_previousAccountId r" for r by (simp_all add: keep)
  have m: "map acc_id (accounts_t d') = map acc_id (accounts_t d)" by (simp add: acc ids)
  have set': "set (accounts_t d') = ?g ` set (accounts_t d)" by (simp add: acc)
  note C = ok [unfolded chain_ok_def]
  have next_passed: "\<exists>p\<in>set (accounts_t d'). acc_id p = k \<and> acc_status p = PASSED"
    if r: "r \<in> set (accounts_t d)" "acc_previousAccountId r = Some k" for r k
  proof -
    obtain p where p: "p \<in> set (accounts_t d)" "acc_id p = k" "acc_status p = PASSED" using C r by blast
    have "hasNext (acc_id p) d" using r p(2) by (auto simp: hasNext_def)
    then have "acc_status (?g p) = PASSED" using out [OF p(1) _ p(3)] p(3) by auto
    then show ?thesis using p(1,2) ids(1) [of p] unfolding set' by (intro bexI [of _ "?g p"]) simp_all
  qed
  have passed_cert: "findCertificate (CERT_CHALLENGE_PASSED, acc_id r) d' \<noteq> None"
    if r: "r \<in> set (accounts_t d)" "acc_status (?g r) = PASSED" for r
  proof (cases "P r")
    case True
    then show ?thesis using into r by simp
  next
    case False
    then have "findCertificate (CERT_CHALLENGE_PASSED, acc_id r) d \<noteq> None" using C r by simp
    with findCertificate_mono [OF cert(1)] show ?thesis .
  qed
  have "\<forall>r\<in>set (accounts_t d'). acc_id r < next_id d'"
    using C unfolding set' nid by (auto simp: keep)
  moreover have "\<forall>r\<in>set (accounts_t d'). \<forall>s\<in>set (accounts_t d').
      acc_previousAccountId r = acc_previousAccountId s \<and> acc_previousAccountId r \<noteq> None \<longrightarrow> acc_id r = acc_id s"
  proof (intro ballI)
    fix r' s' assume "r' \<in> set (accounts_t d')" "s' \<in> set (accounts_t d')"
    then obtain r s where "r \<in> set (accounts_t d)" "s \<in> set (accounts_t d)" "r' = ?g r" "s' = ?g s"
      unfolding set' by blast
    then show "acc_previousAccountId r' = acc_previousAccountId s' \<and> acc_previousAccountId r' \<noteq> None \<longrightarrow> acc_id r' = acc_id s'"
      using C unfolding \<open>r' = ?g r\<close> \<open>s' = ?g s\<close> ids by blast
  qed
  moreover have "\<forall>r\<in>set (accounts_t d'). \<forall>k. acc_previousAccountId r = Some k \<longrightarrow>
      (\<exists>p\<in>set (accounts_t d'). acc_id p = k \<and> acc_status p = PASSED)"
  proof (intro ballI allI impI)
    fix r' k assume r': "r' \<in> set (accounts_t d')" "acc_previousAccountId r' = Some k"
    then obtain r where "r \<in> set (accounts_t d)" "r' = ?g r" unfolding set' by blast
    then show "\<exists>p\<in>set (accounts_t d'). acc_id p = k \<and> acc_status p = PASSED"
      using r'(2) ids(2) [of r] by (intro next_passed) auto
  qed
  moreover have "\<forall>r\<in>set (accounts_t d'). acc_status r = PASSED \<longrightarrow> findCertificate (CERT_CHALLENGE_PASSED, acc_id r) d' \<noteq> None"
  proof (intro ballI impI)
    fix r' assume r': "r' \<in> set (accounts_t d')" "acc_status r' = PASSED"
    then obtain r where "r \<in> set (accounts_t d)" "r' = ?g r" unfolding set' by blast
    then show "findCertificate (CERT_CHALLENGE_PASSED, acc_id r') d' \<noteq> None"
      using passed_cert [of r] r'(2) ids(1) [of r] by auto
  qed
  ultimately show ?thesis using C cert(2) unfolding chain_ok_def m by blast
qed

lemma chain_append:
  assumes "chain_ok d" "accounts_t d' = accounts_t d @ [r]" "next_id d' = next_id d + 1" "acc_id r = next_id d"
    and "acc_status r \<noteq> PASSED" and "certificates_t d' = certificates_t d"
    and "acc_previousAccountId r = Some k" "\<not> hasNext k d"
    and "\<exists>p\<in>set (accounts_t d). acc_id p = k \<and> acc_status p = PASSED"
  shows "chain_ok d'"
proof -
  note C = assms(1) [unfolded chain_ok_def]
  have c: "findCertificate x d' = findCertificate x d" for x by (simp add: findCertificate_def assms(6))
  have n: "\<forall>s\<in>set (accounts_t d). acc_id s \<noteq> next_id d \<and> acc_previousAccountId s \<noteq> Some k \<and> acc_id s < next_id d + 1"
    using C assms(8) by (fastforce simp: hasNext_def)
  have C1: "distinct (map acc_id (accounts_t d))" using C by blast
  have C4: "\<exists>p\<in>set (accounts_t d). acc_id p = j \<and> acc_status p = PASSED"
    if "x \<in> set (accounts_t d)" "acc_previousAccountId x = Some j" for x j using C that by blast
  have "acc_id r \<notin> acc_id ` set (accounts_t d)" using n assms(4) by auto
  then have "distinct (map acc_id (accounts_t d'))" using C1 assms(2) by simp
  moreover have "\<forall>s\<in>set (accounts_t d'). \<forall>j. acc_previousAccountId s = Some j \<longrightarrow>
      (\<exists>p\<in>set (accounts_t d'). acc_id p = j \<and> acc_status p = PASSED)"
  proof (intro ballI allI impI)
    fix x j assume x: "x \<in> set (accounts_t d')" "acc_previousAccountId x = Some j"
    then have "x = r \<or> x \<in> set (accounts_t d)" using assms(2) by auto
    then have "\<exists>p\<in>set (accounts_t d). acc_id p = j \<and> acc_status p = PASSED"
      using C4 [of x j] x(2) assms(7,9) by auto
    then show "\<exists>p\<in>set (accounts_t d'). acc_id p = j \<and> acc_status p = PASSED" using assms(2) by auto
  qed
  moreover have "\<forall>r\<in>set (accounts_t d'). \<forall>s\<in>set (accounts_t d').
      acc_previousAccountId r = acc_previousAccountId s \<and> acc_previousAccountId r \<noteq> None \<longrightarrow> acc_id r = acc_id s"
  proof (intro ballI impI)
    fix a b assume ab: "a \<in> set (accounts_t d')" "b \<in> set (accounts_t d')"
      and eq: "acc_previousAccountId a = acc_previousAccountId b \<and> acc_previousAccountId a \<noteq> None"
    have "a = r \<or> a \<in> set (accounts_t d)" "b = r \<or> b \<in> set (accounts_t d)" using ab assms(2) by auto
    moreover have "x \<notin> set (accounts_t d)" if "acc_previousAccountId x = Some k" for x using n that by blast
    moreover have "acc_id a = acc_id b" if "a \<in> set (accounts_t d)" "b \<in> set (accounts_t d)" using C eq that by blast
    ultimately show "acc_id a = acc_id b" using eq assms(7) by metis
  qed
  moreover have "\<forall>s\<in>set (accounts_t d'). acc_id s < next_id d'"
    using n assms(2,3,4) by auto
  moreover have "\<forall>s\<in>set (accounts_t d'). acc_status s = PASSED \<longrightarrow> findCertificate (CERT_CHALLENGE_PASSED, acc_id s) d' \<noteq> None"
  proof -
    have "\<forall>s\<in>set (accounts_t d). acc_status s = PASSED \<longrightarrow> findCertificate (CERT_CHALLENGE_PASSED, acc_id s) d \<noteq> None"
      using C by blast
    then show ?thesis using assms(2,5) by (simp add: c)
  qed
  moreover have "distinct (map (\<lambda>c. (crt_type c, crt_ref c)) (certificates_t d'))" using C assms(6) by simp
  ultimately show ?thesis unfolding chain_ok_def by blast
qed

lemma chain_ok_log [simp]:
  "chain_ok (logAudit a b c i d) = chain_ok d" "chain_ok (notifyUser u t d) = chain_ok d"
  by (simp_all add: chain_ok_def findCertificate_def)

lemma hasNext_log [simp]: "hasNext k (logAudit a b c i d) = hasNext k d" "hasNext k (notifyUser u t d) = hasNext k d"
  by (simp_all add: hasNext_def)

lemma chain_cert:
  assumes "chain_ok d" "issueCertificate t u a p am d = Inr (c, d')"
  shows "chain_ok d'"
  using issueCertificate_Inr [OF assms(2)] assms(1)
  by (intro chain_update [OF assms(1), where P = "\<lambda>r. False" and f = "\<lambda>r. r"]) (simp_all add: chain_ok_def)

lemma chain_money:
  assumes "chain_ok d" "\<And>r. acc_id (f r) = acc_id r" "\<And>r. acc_previousAccountId (f r) = acc_previousAccountId r"
    "\<And>r. acc_status (f r) = acc_status r"
  shows "chain_ok (updateAccount i f d)"
proof -
  let ?d = "updateAccount i f d"
  have c: "findCertificate (CERT_CHALLENGE_PASSED, acc_id r) ?d \<noteq> None" if "r \<in> set (accounts_t d)" "acc_status r = PASSED" for r
    using assms(1) that by (simp add: chain_ok_def findCertificate_def updateAccount_def)
  have e: "accounts_t ?d = map (\<lambda>r. if acc_id r = i then f r else r) (accounts_t d)" "next_id ?d = next_id d"
    "certificates_t ?d = certificates_t d"
    by (simp_all add: updateAccount_def updateMany_def)
  have "distinct (map (\<lambda>c. (crt_type c, crt_ref c)) (certificates_t d))" using assms(1) by (simp add: chain_ok_def)
  then show ?thesis
  proof (intro chain_update [OF assms(1) e(1,2)])
    show "findCertificate (CERT_CHALLENGE_PASSED, acc_id r) ?d \<noteq> None"
      if "r \<in> set (accounts_t d)" "acc_id r = i" "acc_status (f r) = PASSED" for r
      using c [of r] that assms(4) by metis
  qed (use assms(2-4) e(3) in simp_all)
qed

lemma newAccountRow_simps [simp]:
  "acc_id (newAccountRow i u p t prev s now) = i" "acc_previousAccountId (newAccountRow i u p t prev s now) = prev"
  "acc_status (newAccountRow i u p t prev s now) = (if tpl_phase (rules s) = PHASE_FUNDED then FUNDED else ACTIVE)"
  by (simp_all add: newAccountRow_def newAccountColumns_def Let_def)

lemma chain_advance:
  assumes "chain_ok d" "advanceToNextPhase k u s now d = Inr (x, d')"
    and "\<exists>p\<in>set (accounts_t d). acc_id p = k \<and> acc_status p = PASSED"
  shows "chain_ok d'"
proof (cases "nextPhaseOf s d = None \<or> hasNext k d")
  case True
  then have "d' = d" using assms(2) unfolding advanceToNextPhase_def hasNext_def
    by (cases "nextPhaseOf s d") (simp_all split: prod.splits)
  then show ?thesis using assms(1) by simp
next
  case False
  then obtain n ti where n: "nextPhaseOf s d = Some (n, ti)" and hn: "\<not> hasNext k d" by auto
  define row where "row = newAccountRow (next_id d) u None (Some ti) (Some k) n now"
  define d2 where "d2 = logAudit None ''ACCOUNT_PHASE_ADVANCED'' ''TradingAccount'' (acc_id row)
    (d\<lparr>accounts_t := accounts_t d @ [row], next_id := next_id d + 1\<rparr>)"
  have "chain_ok d2" using hn assms(3)
    by (intro chain_append [OF assms(1), of _ row k]) (simp_all add: d2_def row_def)
  moreover have "d' = d2 \<or> (\<exists>c. issueCertificate CERT_FUNDED u (Some (acc_id row)) None None d2 = Inr (c, d'))"
    using assms(2) n hn unfolding advanceToNextPhase_def hasNext_def d2_def row_def Let_def
    by (auto split: sum.splits if_splits)
  ultimately show ?thesis by (auto dest: chain_cert)
qed

section \<open>Plans\<close>

text \<open>What a plan may ask for, whatever was read: only live accounts move, to PASSED or FAILED.\<close>

definition plan_ok :: "EvalPlan \<Rightarrow> bool" where
  "plan_ok p \<longleftrightarrow> nextStatus (ev_decision p) = acc_status (ev_account p)
     \<or> acc_status (ev_account p) \<in> {ACTIVE, FUNDED} \<and> nextStatus (ev_decision p) \<in> {PASSED, FAILED}"

lemma determine_moves:
  "nextStatus (determineChallengeTransition i) = i_status i
   \<or> i_status i \<in> {ACTIVE, FUNDED} \<and> nextStatus (determineChallengeTransition i) \<in> {PASSED, FAILED}"
  by (cases "i_status i")
    (simp_all add: determineChallengeTransition_def Let_def AUTO_EVALUATION_TERMINAL_STATUSES_def)

lemma plan_ok_evaluatePlan: "plan_ok (evaluatePlan account now d)"
  using determine_moves [of "decisionInput account now d"]
  by (simp add: plan_ok_def evaluatePlan_def decisionInput_def Let_def)

lemma ensure_id [simp]:
  "acc_id (fst (ensureAggregatesBackfilled r t d)) = acc_id r"
  "acc_status (fst (ensureAggregatesBackfilled r t d)) = acc_status r"
  by (simp_all add: ensureAggregatesBackfilled_def Let_def)

lemma evaluateRead_Inr:
  assumes "evaluateRead i now d = Inr (p, d')"
  shows "plan_ok p" and "chain_ok d \<Longrightarrow> chain_ok d'"
proof -
  obtain row where row: "accountRow i d = Some row"
    and p: "(p, d') = (let (a, d') = ensureAggregatesBackfilled row (tpl_dailyLossResetTime (rules (acc_snapshot row))) d
       in (evaluatePlan a now d', d'))"
    using assms by (auto simp: evaluateRead_def split: option.splits prod.splits)
  then show "plan_ok p" using plan_ok_evaluatePlan by (auto split: prod.splits)
  have d': "d' = snd (ensureAggregatesBackfilled row (tpl_dailyLossResetTime (rules (acc_snapshot row))) d)"
    using p by (auto split: prod.splits)
  show "chain_ok d \<Longrightarrow> chain_ok d'"
    unfolding d' ensureAggregatesBackfilled_def Let_def by (auto intro: chain_money)
qed

lemma numericFields_simps [simp]:
  "acc_id (numericFields p r) = acc_id r" "acc_status (numericFields p r) = acc_status r"
  "acc_previousAccountId (numericFields p r) = acc_previousAccountId r"
  by (simp_all add: numericFields_def)

text \<open>A committed transition: either the claim is lost and only money columns change, or the row moves.\<close>

lemma transitionRow_simps [simp]:
  "acc_id (transitionRow p r) = acc_id r" "acc_previousAccountId (transitionRow p r) = acc_previousAccountId r"
  "acc_status (transitionRow p r) = nextStatus (ev_decision p)"
  by (simp_all add: transitionRow_def Let_def)

definition claimedBy :: "EvalPlan \<Rightarrow> TradingAccount \<Rightarrow> bool" where
  "claimedBy p r \<longleftrightarrow> acc_id r = acc_id (ev_account p) \<and> acc_status r = acc_status (ev_account p)"

definition noticed :: "EvalPlan \<Rightarrow> nat option \<Rightarrow> db \<Rightarrow> db" where
  "noticed p actor d =
     notifyUser (acc_userId (ev_account p)) (if nextStatus (ev_decision p) = PASSED then ''Challenge passed'' else ''Challenge failed'')
       (logAudit actor ''ACCOUNT_STATUS_AUTO_TRANSITION'' ''TradingAccount'' (acc_id (ev_account p))
          (d\<lparr>accounts_t := snd (updateMany (claimedBy p) (transitionRow p) (accounts_t d))\<rparr>))"

lemma noticed_simps [simp]:
  "accounts_t (noticed p actor d) = map (\<lambda>r. if claimedBy p r then transitionRow p r else r) (accounts_t d)"
  "next_id (noticed p actor d) = next_id d" "certificates_t (noticed p actor d) = certificates_t d"
  by (simp_all add: noticed_def updateMany_def)

lemma transitionTx_cases:
  assumes "transitionTx p actor d = Inr (x, d')"
  obtains (lost) "fst (updateMany (claimedBy p) (transitionRow p) (accounts_t d)) = 0"
      "d' = updateAccount (acc_id (ev_account p)) (numericFields p) d"
    | (failed) "fst (updateMany (claimedBy p) (transitionRow p) (accounts_t d)) \<noteq> 0"
      "nextStatus (ev_decision p) \<noteq> PASSED" "d' = noticed p actor d"
    | (passed) c d2 where "fst (updateMany (claimedBy p) (transitionRow p) (accounts_t d)) \<noteq> 0"
      "nextStatus (ev_decision p) = PASSED"
      "issueCertificate CERT_CHALLENGE_PASSED (acc_userId (ev_account p)) (Some (acc_id (ev_account p))) None None
         (noticed p actor d) = Inr (c, d2)"
      "advanceToNextPhase (acc_id (ev_account p)) (acc_userId (ev_account p)) (acc_snapshot (ev_account p)) (ev_now p) d2 = Inr (x, d')"
proof -
  let ?n = "fst (updateMany (claimedBy p) (transitionRow p) (accounts_t d))"
  let ?c = "issueCertificate CERT_CHALLENGE_PASSED (acc_userId (ev_account p)) (Some (acc_id (ev_account p))) None None
     (noticed p actor d)"
  have m: "(\<lambda>r. acc_id r = acc_id (ev_account p) \<and> acc_status r = acc_status (ev_account p)) = claimedBy p"
    by (rule ext) (simp add: claimedBy_def)
  have tx: "transitionTx p actor d =
      (if ?n = 0 then Inr ((), updateAccount (acc_id (ev_account p)) (numericFields p) d)
       else if nextStatus (ev_decision p) = PASSED then
         (case ?c of Inl e \<Rightarrow> Inl e
          | Inr (_, d2) \<Rightarrow> advanceToNextPhase (acc_id (ev_account p)) (acc_userId (ev_account p)) (acc_snapshot (ev_account p)) (ev_now p) d2)
       else Inr ((), noticed p actor d))"
    by (simp add: transitionTx_def Let_def split_beta noticed_def m)
  show thesis
  proof (cases "?n = 0")
    case True
    then show thesis using assms lost unfolding tx by simp
  next
    case False
    note nz = this
    show thesis
    proof (cases "nextStatus (ev_decision p) = PASSED")
      case True
      then show thesis using assms passed nz unfolding tx by (cases ?c) (auto split: prod.splits)
    qed (use assms failed nz in \<open>simp add: tx\<close>)
  qed
qed

lemma claimed_exists:
  assumes "fst (updateMany (claimedBy p) f (accounts_t d)) \<noteq> 0"
  shows "\<exists>r\<in>set (accounts_t d). claimedBy p r"
proof -
  have "\<not> (\<forall>r\<in>set (accounts_t d). \<not> claimedBy p r)" using assms unfolding updateMany_count_0 .
  then show ?thesis by blast
qed

lemma chain_transitionTx:
  assumes "chain_ok d" "plan_ok p" "nextStatus (ev_decision p) \<noteq> acc_status (ev_account p)" "transitionTx p actor d = Inr (x, d')"
  shows "chain_ok d'"
proof -
  have live: "acc_status (ev_account p) \<in> {ACTIVE, FUNDED}" using assms(2,3) by (auto simp: plan_ok_def)
  have distinct_c: "distinct (map (\<lambda>c. (crt_type c, crt_ref c)) (certificates_t d))" using assms(1) by (simp add: chain_ok_def)
  have out: "acc_status (transitionRow p r) = PASSED \<or> \<not> hasNext (acc_id r) d" if "claimedBy p r" "acc_status r = PASSED" for r
    using that live by (auto simp: claimedBy_def)
  from assms(4) show ?thesis
  proof (cases rule: transitionTx_cases)
    case lost
    then show ?thesis by (simp add: chain_money assms(1))
  next
    case failed
    show ?thesis unfolding failed(3)
      by (rule chain_update [OF assms(1) noticed_simps(1,2)]) (use distinct_c failed(2) out in simp_all)
  next
    case (passed c d2)
    note i = issueCertificate_Inr [OF passed(3)]
    have cert: "findCertificate (CERT_CHALLENGE_PASSED, acc_id (ev_account p)) d2 \<noteq> None"
      using i(1) by (auto simp: certificateDedupeKey_def)
    have acc2: "accounts_t d2 = map (\<lambda>r. if claimedBy p r then transitionRow p r else r) (accounts_t d)" "next_id d2 = next_id d"
      using i(3,4) by simp_all
    have ok2: "chain_ok d2"
    proof (rule chain_update [OF assms(1) acc2])
      show "findCertificate (CERT_CHALLENGE_PASSED, acc_id r) d2 \<noteq> None" if "claimedBy p r" for r
        using that cert unfolding claimedBy_def by metis
    qed (use i(2,5) distinct_c out in simp_all)
    obtain r where r: "r \<in> set (accounts_t d)" "claimedBy p r" using claimed_exists [OF passed(1)] by blast
    then have "transitionRow p r \<in> set (accounts_t d2)"
      unfolding acc2(1) set_map by (intro image_eqI [where x = r]) simp_all
    then have "\<exists>q\<in>set (accounts_t d2). acc_id q = acc_id (ev_account p) \<and> acc_status q = PASSED"
      by (rule bexI [rotated]) (use r(2) passed(2) in \<open>simp add: claimedBy_def\<close>)
    with ok2 passed(4) show ?thesis by (rule chain_advance)
  qed
qed

lemma chain_evaluateCommit:
  assumes "chain_ok d" "plan_ok p" "evaluateCommit p actor d = (res, d')"
  shows "chain_ok d'"
proof (cases "nextStatus (ev_decision p) = acc_status (ev_account p)")
  case True
  then have "d' = updateAccount (acc_id (ev_account p)) (numericFields p) d"
    using assms(3) by (simp add: evaluateCommit_def findAccountOrThrow_def)
  then show ?thesis by (simp add: chain_money assms(1))
next
  case False
  then show ?thesis using assms chain_transitionTx [OF assms(1,2) False]
    by (auto simp: evaluateCommit_def findAccountOrThrow_def split: sum.splits prod.splits)
qed

lemma chain_breach:
  assumes "chain_ok d" "failAccountForBreach i reason e now d = Inr (r, d')"
  shows "chain_ok d'"
proof -
  obtain b where b: "accountRow i d = Some b" using assms(2) by (auto simp: failAccountForBreach_def split: option.splits)
  let ?P = "\<lambda>r. acc_id r = i \<and> acc_status r = acc_status b"
  let ?f = "\<lambda>r. r\<lparr>acc_status := FAILED, acc_failedAt := Some now, acc_statusChangedAt := now,
     acc_failureReason := Some reason, acc_equity := roundCurrency e\<rparr>"
  let ?d1 = "notifyUser (acc_userId b) ''Challenge failed''
     (logAudit None ''ACCOUNT_STATUS_AUTO_TRANSITION'' ''TradingAccount'' i (d\<lparr>accounts_t := snd (updateMany ?P ?f (accounts_t d))\<rparr>))"
  have "d' = d \<or> acc_status b \<in> {ACTIVE, FUNDED} \<and> d' = ?d1"
    using assms(2) b by (auto simp: failAccountForBreach_def Let_def split_beta split: if_splits option.splits)
  moreover have "chain_ok ?d1" if "acc_status b \<in> {ACTIVE, FUNDED}"
  proof (rule chain_update [OF assms(1), where P = ?P and f = ?f])
    show "acc_status (?f r) = PASSED \<or> \<not> hasNext (acc_id r) d" if "?P r" "acc_status r = PASSED" for r
      using that \<open>acc_status b \<in> _\<close> by auto
  qed (use assms(1) in \<open>simp_all add: updateMany_def chain_ok_def\<close>)
  ultimately show ?thesis using assms(1) by blast
qed

lemma manual_not_passed:
  "isLegalManualTransition a b ph \<Longrightarrow> a \<noteq> PASSED \<and> b \<noteq> PASSED"
  by (cases a; cases b) (simp_all add: isLegalManualTransition_def)

lemma accountRow_unique:
  "distinct (map acc_id (accounts_t d)) \<Longrightarrow> accountRow i d = Some b \<Longrightarrow> r \<in> set (accounts_t d) \<Longrightarrow> acc_id r = i \<Longrightarrow> r = b"
  by (auto simp: accountRow_def dest!: findUnique_Some dest: map_inj_on [of acc_id] simp: distinct_map inj_on_def)

lemma chain_manual:
  assumes "chain_ok d" "setAccountStatusManually i st actor why now d = Inr (r, d')"
  shows "chain_ok d'"
proof -
  obtain b where b: "accountRow i d = Some b" "isLegalManualTransition (acc_status b) st (acc_phase b)"
    using assms(2) by (auto simp: setAccountStatusManually_def split: option.splits if_splits)
  obtain f where f: "accounts_t d' = map (\<lambda>r. if acc_id r = i then f r else r) (accounts_t d)" "next_id d' = next_id d"
      "certificates_t d' = certificates_t d"
    and keep: "\<And>r. acc_id (f r) = acc_id r" "\<And>r. acc_previousAccountId (f r) = acc_previousAccountId r"
      "\<And>r. acc_status (f r) = st"
    using assms(2) b by (force simp: setAccountStatusManually_def Let_def updateAccount_def updateMany_def)
  note m = manual_not_passed [OF b(2)]
  have "acc_status r \<noteq> PASSED" if "r \<in> set (accounts_t d)" "acc_id r = i" for r
    using accountRow_unique [OF _ b(1) that] assms(1) m by (simp add: chain_ok_def)
  then show ?thesis
    by (intro chain_update [OF assms(1) f(1,2)]) (use f(3) keep m assms(1) in \<open>auto simp: chain_ok_def\<close>)
qed

lemma chain_reset:
  assumes "chain_ok d" "resetAccount i actor now d = Inr (r, d')"
  shows "chain_ok d'"
proof -
  obtain b where b: "accountRow i d = Some b" "\<not> hasNext i d"
    using assms(2) by (auto simp: resetAccount_def hasNext_def split: option.splits if_splits)
  obtain f where f: "accounts_t d' = map (\<lambda>r. if acc_id r = i then f r else r) (accounts_t d)" "next_id d' = next_id d"
      "certificates_t d' = certificates_t d"
    and keep: "\<And>r. acc_id (f r) = acc_id r" "\<And>r. acc_previousAccountId (f r) = acc_previousAccountId r"
      "\<And>r. acc_status (f r) \<noteq> PASSED"
  proof -
    define f where "f = (\<lambda>r. (newAccountColumns (acc_snapshot b) now r)
      \<lparr>acc_status := (if acc_phase b = PHASE_FUNDED then FUNDED else ACTIVE), acc_statusChangedAt := now,
       acc_passedAt := None, acc_failedAt := None, acc_failureReason := None,
       acc_fundedAt := (if acc_phase b = PHASE_FUNDED
          then Some (case acc_fundedAt b of Some f \<Rightarrow> f | None \<Rightarrow> now) else None)\<rparr>)"
    show thesis
      using assms(2) b by (intro that [of f])
        (auto simp: resetAccount_def Let_def updateAccount_def updateMany_def hasNext_def newAccountColumns_def f_def)
  qed
  show ?thesis
    by (intro chain_update [OF assms(1) f(1,2)]) (use f(3) keep b(2) assms(1) in \<open>auto simp: chain_ok_def\<close>)
qed

section \<open>Interleavings\<close>

text \<open>
  The web application, the sweep and the worker run concurrently: a state is the database with the
  plans of evaluations that have read but not yet written. \<open>money\<close> stands for the writers of money
  columns (the trade ledger), which keep ids, statuses and links.
\<close>

inductive challenge_step :: "db \<times> EvalPlan list \<Rightarrow> db \<times> EvalPlan list \<Rightarrow> bool" where
  read: "evaluateRead i now d = Inr (p, d') \<Longrightarrow> challenge_step (d, ps) (d', p # ps)"
| commit: "p \<in> set ps \<Longrightarrow> evaluateCommit p actor d = (res, d') \<Longrightarrow> challenge_step (d, ps) (d', remove1 p ps)"
| breach: "failAccountForBreach i reason e now d = Inr (r, d') \<Longrightarrow> challenge_step (d, ps) (d', ps)"
| manual: "setAccountStatusManually i st admin why now d = Inr (r, d') \<Longrightarrow> challenge_step (d, ps) (d', ps)"
| reset: "resetAccount i admin now d = Inr (r, d') \<Longrightarrow> challenge_step (d, ps) (d', ps)"
| money: "(\<And>r. acc_id (f r) = acc_id r) \<Longrightarrow> (\<And>r. acc_previousAccountId (f r) = acc_previousAccountId r)
    \<Longrightarrow> (\<And>r. acc_status (f r) = acc_status r) \<Longrightarrow> challenge_step (d, ps) (updateAccount i f d, ps)"

inductive_cases challenge_stepE: "challenge_step (d, ps) s"

lemma challenge_step_ok:
  assumes "challenge_step s s'" "chain_ok (fst s) \<and> (\<forall>p\<in>set (snd s). plan_ok p)"
  shows "chain_ok (fst s') \<and> (\<forall>p\<in>set (snd s'). plan_ok p)"
  using assms
proof cases
  case (commit p ps actor d res d')
  then show ?thesis using assms(2) chain_evaluateCommit [of d p actor res d'] by (auto dest: notin_set_remove1 set_remove1_subset [THEN subsetD])
qed (use assms(2) in \<open>auto dest: evaluateRead_Inr chain_breach chain_manual chain_reset intro: chain_money\<close>)

lemma challenge_reach_ok:
  assumes "challenge_step\<^sup>*\<^sup>* s s'" "chain_ok (fst s)" "snd s = []"
  shows "chain_ok (fst s') \<and> (\<forall>p\<in>set (snd s'). plan_ok p)"
  using assms by (induction rule: rtranclp_induct) (auto dest: challenge_step_ok)

section \<open>Properties\<close>

lemma key_count:
  assumes "distinct (map f xs)" "x \<in> set xs"
  shows "length (filter (\<lambda>y. f y = f x) xs) = 1"
  using assms
proof (induction xs)
  case (Cons a xs)
  show ?case
  proof (cases "a = x")
    case True
    then have "filter (\<lambda>y. f y = f x) xs = []" using Cons.prems by (auto simp: filter_empty_conv image_iff)
    then show ?thesis using True by simp
  next
    case False
    then have "x \<in> set xs" "f a \<noteq> f x" using Cons.prems by (auto simp: image_iff)
    then show ?thesis using Cons by simp
  qed
qed simp

lemma key_count_le:
  assumes "distinct (map g xs)" "\<And>x y. x \<in> set xs \<Longrightarrow> y \<in> set xs \<Longrightarrow> P x \<Longrightarrow> P y \<Longrightarrow> g x = g y"
  shows "length (filter P xs) \<le> 1"
proof (cases "filter P xs")
  case (Cons a ys)
  have d: "distinct (map g (filter P xs))" using assms(1) by (simp add: distinct_map_filter)
  have "ys = []"
  proof (cases ys)
    case (Cons b zs)
    have "a \<in> set (filter P xs)" "b \<in> set (filter P xs)" using \<open>filter P xs = a # ys\<close> Cons by simp_all
    then have "g a = g b" using assms(2) [of a b] by simp
    then show ?thesis using d unfolding \<open>filter P xs = a # ys\<close> Cons by simp
  qed simp
  then show ?thesis using Cons by simp
qed simp

text \<open>
  C3: Whatever evaluations, breaches, admin changes, resets and ledger writes are interleaved, with
  plans computed from stale reads included: a next-phase account exists only under an account that is
  PASSED, an account has at most one next-phase account, and a PASSED account has exactly one
  certificate of its pass.
\<close>

theorem account_chain_safe:
  assumes "challenge_step\<^sup>*\<^sup>* (d0, []) (d, ps)" "chain_ok d0" "r \<in> set (accounts_t d)"
  shows "(acc_previousAccountId r = None \<or>
      (\<exists>p\<in>set (accounts_t d). acc_previousAccountId r = Some (acc_id p) \<and> acc_status p = PASSED))
    \<and> length (filter (\<lambda>s. acc_previousAccountId s = Some (acc_id r)) (accounts_t d)) \<le> 1
    \<and> (acc_status r = PASSED \<longrightarrow>
        length (filter (\<lambda>c. (crt_type c, crt_ref c) = (CERT_CHALLENGE_PASSED, acc_id r)) (certificates_t d)) = 1)"
proof -
  have "chain_ok d" using challenge_reach_ok [OF assms(1)] assms(2) by simp
  note C = this [unfolded chain_ok_def]
  have "acc_previousAccountId r = None \<or>
      (\<exists>p\<in>set (accounts_t d). acc_previousAccountId r = Some (acc_id p) \<and> acc_status p = PASSED)"
    using C assms(3) by (cases "acc_previousAccountId r") blast+
  moreover have "length (filter (\<lambda>s. acc_previousAccountId s = Some (acc_id r)) (accounts_t d)) \<le> 1"
  proof (rule key_count_le [where g = acc_id])
    show "distinct (map acc_id (accounts_t d))" using C by blast
    show "acc_id x = acc_id y" if "x \<in> set (accounts_t d)" "y \<in> set (accounts_t d)"
      "acc_previousAccountId x = Some (acc_id r)" "acc_previousAccountId y = Some (acc_id r)" for x y
    proof -
      have "acc_previousAccountId x = acc_previousAccountId y \<and> acc_previousAccountId x \<noteq> None" using that by simp
      then show ?thesis using C that(1,2) by blast
    qed
  qed
  moreover have "length (filter (\<lambda>c. (crt_type c, crt_ref c) = (CERT_CHALLENGE_PASSED, acc_id r)) (certificates_t d)) = 1"
    if "acc_status r = PASSED"
  proof -
    have "findCertificate (CERT_CHALLENGE_PASSED, acc_id r) d \<noteq> None" using C assms(3) that by blast
    then obtain c where c: "c \<in> set (certificates_t d)" "(crt_type c, crt_ref c) = (CERT_CHALLENGE_PASSED, acc_id r)"
      unfolding findCertificate_def findUnique_def find_None_iff by blast
    have "distinct (map (\<lambda>c. (crt_type c, crt_ref c)) (certificates_t d))" using C by blast
    from key_count [OF this c(1)] show ?thesis unfolding c(2) .
  qed
  ultimately show ?thesis by blast
qed

theorem account_chain_safe_witness:
  "\<exists>d. setAccountStatusManually 7 SUSPENDED 1 None 0 (emptyDb\<lparr>accounts_t := [sampleAccount]\<rparr>) \<in> {Inr (r, d) | r. True}
    \<and> length (filter (\<lambda>s. acc_previousAccountId s = Some 7) (accounts_t d)) \<le> 1"
proof -
  let ?d0 = "emptyDb\<lparr>accounts_t := [sampleAccount]\<rparr>"
  have ok: "chain_ok ?d0"
    by (simp add: chain_ok_def emptyDb_def sampleAccount_def)
  have row: "accountRow 7 ?d0 = Some sampleAccount" by (simp add: accountRow_def findUnique_def sampleAccount_def)
  obtain r d where e: "setAccountStatusManually 7 SUSPENDED 1 None 0 ?d0 = Inr (r, d)"
    using row by (simp add: setAccountStatusManually_def sampleAccount_def isLegalManualTransition_def Let_def)
  have step: "challenge_step\<^sup>*\<^sup>* (?d0, []) (d, [])" using challenge_step.manual [OF e] by blast
  obtain q where q: "q \<in> set (accounts_t d)" "acc_id q = 7"
    using e row by (auto simp: setAccountStatusManually_def isLegalManualTransition_def Let_def updateAccount_def
        updateMany_def sampleAccount_def)
  from account_chain_safe [OF step ok q(1)] e q(2) show ?thesis by auto
qed

lemma advance_accounts:
  assumes "advanceToNextPhase k u s now d = Inr (x, d')"
  shows "\<exists>new. accounts_t d' = accounts_t d @ new \<and> (\<forall>r\<in>set new. acc_id r = next_id d)"
proof (cases "nextPhaseOf s d = None \<or> hasNext k d")
  case True
  then have "d' = d" using assms unfolding advanceToNextPhase_def hasNext_def
    by (cases "nextPhaseOf s d") (simp_all split: prod.splits)
  then show ?thesis by simp
next
  case False
  then obtain n ti where n: "nextPhaseOf s d = Some (n, ti)" and hn: "\<not> hasNext k d" by auto
  define row where "row = newAccountRow (next_id d) u None (Some ti) (Some k) n now"
  have "accounts_t d' = accounts_t d @ [row]"
    using assms n hn unfolding advanceToNextPhase_def hasNext_def row_def Let_def
    by (auto split: sum.splits if_splits dest: issueCertificate_Inr(3))
  then show ?thesis by (simp add: row_def)
qed

text \<open>
  Two evaluations of one account that read the same live status before either wrote: when the
  first claims its transition, the second finds its claim lost and changes nothing but the money
  columns: no second audit row, notice, certificate or next-phase account, and no status.
\<close>

theorem evaluation_transitions_once:
  assumes "chain_ok d" "plan_ok p1" "plan_ok p2"
    and same: "acc_id (ev_account p2) = acc_id (ev_account p1)" "acc_status (ev_account p2) = acc_status (ev_account p1)"
    and moves: "nextStatus (ev_decision p1) \<noteq> acc_status (ev_account p1)" "nextStatus (ev_decision p2) \<noteq> acc_status (ev_account p2)"
    and row: "accountRow (acc_id (ev_account p1)) d = Some r0" "acc_status r0 = acc_status (ev_account p1)"
    and first: "evaluateCommit p1 a1 d = (Inr r1, d1)" and second: "evaluateCommit p2 a2 d1 = (res2, d2)"
  shows "map (\<lambda>r. (acc_id r, acc_status r)) (accounts_t d2) = map (\<lambda>r. (acc_id r, acc_status r)) (accounts_t d1)
    \<and> audit_t d2 = audit_t d1 \<and> notifications_t d2 = notifications_t d1 \<and> certificates_t d2 = certificates_t d1"
proof -
  obtain x where tx: "transitionTx p1 a1 d = Inr (x, d1)"
    using first moves(1) by (auto simp: evaluateCommit_def findAccountOrThrow_def split: sum.splits)
  have id0: "acc_id r0 = acc_id (ev_account p1)" using accountRow_id [OF row(1)] .
  have r0: "r0 \<in> set (accounts_t d)" using row(1) by (auto simp: accountRow_def dest: findUnique_Some)
  have c0: "claimedBy p1 r0" using id0 row(2) by (simp add: claimedBy_def)
  have none: "\<not> claimedBy p1 r" if "r \<in> set (accounts_t d1)" for r
    using tx
  proof (cases rule: transitionTx_cases)
    case lost
    then show ?thesis using r0 c0 unfolding updateMany_count_0 by blast
  next
    case failed
    then have "r \<in> (\<lambda>r. if claimedBy p1 r then transitionRow p1 r else r) ` set (accounts_t d)" using that by simp
    then show ?thesis using moves(1) by (auto simp: claimedBy_def)
  next
    case (passed c d2')
    have acc: "accounts_t d2' = map (\<lambda>r. if claimedBy p1 r then transitionRow p1 r else r) (accounts_t d)" "next_id d2' = next_id d"
      using issueCertificate_Inr(3,4) [OF passed(3)] by simp_all
    obtain new where new: "accounts_t d1 = accounts_t d2' @ new" "\<forall>r\<in>set new. acc_id r = next_id d"
      using advance_accounts [OF passed(4)] acc(2) by auto
    have "acc_id (ev_account p1) < next_id d" using assms(1) r0 id0 by (auto simp: chain_ok_def)
    then have "\<not> claimedBy p1 r" if "r \<in> set new" using new(2) that by (auto simp: claimedBy_def)
    moreover have "\<not> claimedBy p1 r" if "r \<in> set (accounts_t d2')"
    proof -
      have "r \<in> (\<lambda>r. if claimedBy p1 r then transitionRow p1 r else r) ` set (accounts_t d)" using that acc(1) by simp
      then show ?thesis using moves(1) by (auto simp: claimedBy_def)
    qed
    ultimately show ?thesis using that new(1) by auto
  qed
  have "claimedBy p2 = claimedBy p1" by (rule ext) (simp add: claimedBy_def same)
  then have lost2: "fst (updateMany (claimedBy p2) (transitionRow p2) (accounts_t d1)) = 0"
    using none by (simp add: updateMany_count_0)
  have m: "(\<lambda>r. acc_id r = acc_id (ev_account p2) \<and> acc_status r = acc_status (ev_account p2)) = claimedBy p2"
    by (rule ext) (simp add: claimedBy_def)
  have "transitionTx p2 a2 d1 = Inr ((), updateAccount (acc_id (ev_account p2)) (numericFields p2) d1)"
    using lost2 by (simp add: transitionTx_def Let_def split_beta m)
  then have "d2 = updateAccount (acc_id (ev_account p2)) (numericFields p2) d1"
    using second moves(2) by (simp add: evaluateCommit_def findAccountOrThrow_def)
  then show ?thesis by (simp add: updateAccount_def updateMany_def comp_def)
qed

definition samplePlan :: EvalPlan where
  "samplePlan = \<lparr>ev_account = sampleAccount, ev_now = 86500000, ev_balance = Fin 8000, ev_equity = Fin 8000,
     ev_highWaterMark = Fin 10000, ev_dailyAnchorBalance = Fin 10000, ev_dailyAnchorDate = 86400000, ev_expiresAt = None,
     ev_decision = \<lparr>nextStatus = FAILED, canAutoEvaluate = True, ddBreach = True, dailyBreach = True, meetsTarget = False,
       meetsMinDays = True, meetsConsistency = True, failureReason = Some MAX_DRAWDOWN,
       d_maxDrawdownFloor = Fin 9000, d_dailyLossFloor = Fin 9500\<rparr>\<rparr>"

theorem evaluation_transitions_once_witness:
  "\<exists>d1 d2 r1. evaluateCommit samplePlan None (emptyDb\<lparr>accounts_t := [sampleAccount]\<rparr>) = (Inr r1, d1)
    \<and> acc_status r1 = FAILED \<and> d2 = snd (evaluateCommit samplePlan None d1) \<and> audit_t d2 = audit_t d1"
proof -
  let ?d = "emptyDb\<lparr>accounts_t := [sampleAccount]\<rparr>"
  have ok: "chain_ok ?d" by (simp add: chain_ok_def emptyDb_def sampleAccount_def)
  have p: "plan_ok samplePlan" "nextStatus (ev_decision samplePlan) \<noteq> acc_status (ev_account samplePlan)"
    by (simp_all add: plan_ok_def samplePlan_def sampleAccount_def)
  have row: "accountRow (acc_id (ev_account samplePlan)) ?d = Some sampleAccount"
    "acc_status sampleAccount = acc_status (ev_account samplePlan)"
    by (simp_all add: accountRow_def findUnique_def samplePlan_def)
  obtain r1 d1 where e: "evaluateCommit samplePlan None ?d = (Inr r1, d1)" and st: "acc_status r1 = FAILED"
    by (simp add: evaluateCommit_def findAccountOrThrow_def transitionTx_def transitionRow_def samplePlan_def
        sampleAccount_def updateMany_def accountRow_def findUnique_def numericFields_def)
  obtain q d2 where e2: "evaluateCommit samplePlan None d1 = (q, d2)" by fastforce
  from evaluation_transitions_once [OF ok p(1) p(1) refl refl p(2) p(2) row e e2] e e2 st show ?thesis by auto
qed

text \<open>
  Passing through a frozen chain: committing a PASSED decision on a row still in the status read
  marks it PASSED, adds its certificate, and opens exactly one next account, of the same user, linked
  to it, with the rules frozen at purchase and balance, equity, peak and anchor at its starting
  balance; a funded phase starts FUNDED and gets its own certificate.
\<close>

theorem passing_opens_next_phase:
  assumes "chain_ok d" "nextStatus (ev_decision p) = PASSED" "acc_status (ev_account p) = ACTIVE"
    and "accountRow (acc_id (ev_account p)) d = Some r0" "acc_status r0 = ACTIVE"
    and "nextPhaseSnapshot (acc_snapshot (ev_account p)) = Some s"
    and "\<not> hasNext (acc_id (ev_account p)) d"
  shows "\<exists>d' r new. evaluateCommit p actor d = (Inr r, d') \<and> acc_status r = PASSED \<and> acc_passedAt r = Some (ev_now p)
    \<and> accounts_t d' = map (\<lambda>r. if acc_id r = acc_id (ev_account p) then transitionRow p r else r) (accounts_t d) @ [new]
    \<and> acc_userId new = acc_userId (ev_account p) \<and> acc_previousAccountId new = Some (acc_id (ev_account p))
    \<and> acc_snapshot new = s \<and> acc_phase new = tpl_phase (rules s)
    \<and> acc_status new = (if tpl_phase (rules s) = PHASE_FUNDED then FUNDED else ACTIVE)
    \<and> (\<forall>b\<in>{acc_balance new, acc_equity new, acc_highWaterMark new, acc_dailyAnchorBalance new}. b = tpl_startingBalance (rules s))
    \<and> findCertificate (CERT_CHALLENGE_PASSED, acc_id (ev_account p)) d' \<noteq> None
    \<and> (tpl_phase (rules s) = PHASE_FUNDED \<longrightarrow> findCertificate (CERT_FUNDED, acc_id new) d' \<noteq> None)"
proof -
  let ?k = "acc_id (ev_account p)" and ?u = "acc_userId (ev_account p)"
  have id0: "acc_id r0 = ?k" and r0: "r0 \<in> set (accounts_t d)"
    using assms(4) by (auto simp: accountRow_def dest: findUnique_Some)
  have dist: "distinct (map acc_id (accounts_t d))" using assms(1) by (simp add: chain_ok_def)
  have claimed: "claimedBy p r \<longleftrightarrow> acc_id r = ?k" if "r \<in> set (accounts_t d)" for r
    using that assms(3,5) accountRow_unique [OF dist assms(4) that] by (auto simp: claimedBy_def)
  have n: "fst (updateMany (claimedBy p) (transitionRow p) (accounts_t d)) \<noteq> 0"
    unfolding updateMany_count_0 using claimed [OF r0] r0 id0 by blast
  have rows: "accounts_t (noticed p actor d) = map (\<lambda>r. if acc_id r = ?k then transitionRow p r else r) (accounts_t d)"
    using claimed by (simp cong: map_cong)
  obtain c d2 where c: "issueCertificate CERT_CHALLENGE_PASSED ?u (Some ?k) None None (noticed p actor d) = Inr (c, d2)"
    using issueCertificate_total [of CERT_CHALLENGE_PASSED] by blast
  note i = issueCertificate_Inr [OF c]
  have acc2: "accounts_t d2 = map (\<lambda>r. if acc_id r = ?k then transitionRow p r else r) (accounts_t d)" "next_id d2 = next_id d"
    using i(3,4) rows by simp_all
  have hn: "\<not> hasNext ?k d2" using assms(7) unfolding hasNext_def acc2 by auto
  define new where "new = newAccountRow (next_id d) ?u None (Some (tpl_id (rules s))) (Some ?k) s (ev_now p)"
  define d3 where "d3 = logAudit None ''ACCOUNT_PHASE_ADVANCED'' ''TradingAccount'' (acc_id new)
    (d2\<lparr>accounts_t := accounts_t d2 @ [new], next_id := next_id d2 + 1\<rparr>)"
  have adv: "advanceToNextPhase ?k ?u (acc_snapshot (ev_account p)) (ev_now p) d2 =
    (if acc_status new = FUNDED then (case issueCertificate CERT_FUNDED ?u (Some (acc_id new)) None None d3 of
       Inl e \<Rightarrow> Inl e | Inr (_, d3) \<Rightarrow> Inr ((), d3)) else Inr ((), d3))"
    using hn assms(6) by (simp add: advanceToNextPhase_def nextPhaseOf_def hasNext_def Let_def new_def d3_def acc2(2))
  obtain c3 d4 where c3: "issueCertificate CERT_FUNDED ?u (Some (acc_id new)) None None d3 = Inr (c3, d4)"
    using issueCertificate_total [of CERT_FUNDED] by blast
  note j = issueCertificate_Inr [OF c3]
  define d' where "d' = (if acc_status new = FUNDED then d4 else d3)"
  have tx: "transitionTx p actor d = Inr ((), d')"
    using n assms(2) c adv c3 unfolding d'_def transitionTx_def Let_def split_beta noticed_def claimedBy_def by simp
  have acc': "accounts_t d' = map (\<lambda>r. if acc_id r = ?k then transitionRow p r else r) (accounts_t d) @ [new]"
    using j(3) acc2(1) by (simp add: d'_def d3_def)
  have row': "accountRow ?k d' = Some (transitionRow p r0)"
  proof -
    have "accountRow ?k d' = (case accountRow ?k (d\<lparr>accounts_t := map (\<lambda>r. if acc_id r = ?k then transitionRow p r else r) (accounts_t d)\<rparr>) of
        Some r \<Rightarrow> Some r | None \<Rightarrow> List.find (\<lambda>r. acc_id r = ?k) [new])"
      by (simp add: accountRow_def findUnique_def acc' find_append split: option.splits)
    also have "\<dots> = Some (transitionRow p r0)"
      using find_map_key [of acc_id "transitionRow p" ?k ?k] assms(4) by (simp add: accountRow_def findUnique_def id0)
    finally show ?thesis .
  qed
  have cert1: "findCertificate (CERT_CHALLENGE_PASSED, ?k) d' \<noteq> None"
  proof -
    have "findCertificate (CERT_CHALLENGE_PASSED, ?k) d2 \<noteq> None" using i(1) by (auto simp: certificateDedupeKey_def)
    moreover have "set (certificates_t d2) \<subseteq> set (certificates_t d')" using j(2) by (simp add: d'_def d3_def)
    ultimately show ?thesis by (rule findCertificate_mono [rotated])
  qed
  have cert2: "findCertificate (CERT_FUNDED, acc_id new) d' \<noteq> None" if "tpl_phase (rules s) = PHASE_FUNDED"
    using j(1) that by (auto simp: d'_def new_def certificateDedupeKey_def)
  have E: "evaluateCommit p actor d = (Inr (transitionRow p r0), d')"
    using tx assms(2,3) row' by (simp add: evaluateCommit_def findAccountOrThrow_def)
  have T: "acc_status (transitionRow p r0) = PASSED" "acc_passedAt (transitionRow p r0) = Some (ev_now p)"
    using assms(2) by (simp_all add: transitionRow_def Let_def)
  have N: "acc_userId new = ?u" "acc_previousAccountId new = Some ?k" "acc_snapshot new = s" "acc_phase new = tpl_phase (rules s)"
    "acc_status new = (if tpl_phase (rules s) = PHASE_FUNDED then FUNDED else ACTIVE)"
    "\<forall>b\<in>{acc_balance new, acc_equity new, acc_highWaterMark new, acc_dailyAnchorBalance new}. b = tpl_startingBalance (rules s)"
    by (simp_all add: new_def newAccountRow_def newAccountColumns_def Let_def)
  show ?thesis
    by (rule exI [of _ d'], rule exI [of _ "transitionRow p r0"], rule exI [of _ new])
      (intro conjI impI E T acc' N cert1 cert2)
qed

theorem passing_opens_next_phase_witness:
  "\<exists>d' r new. evaluateCommit (samplePlan\<lparr>ev_decision := (ev_decision samplePlan)\<lparr>nextStatus := PASSED\<rparr>\<rparr>) None
      (emptyDb\<lparr>accounts_t := [sampleAccount]\<rparr>) = (Inr r, d')
    \<and> acc_status r = PASSED \<and> last (accounts_t d') = new \<and> acc_status new = FUNDED \<and> acc_balance new = Fin 10000"
proof -
  let ?d = "emptyDb\<lparr>accounts_t := [sampleAccount]\<rparr>"
  let ?p = "samplePlan\<lparr>ev_decision := (ev_decision samplePlan)\<lparr>nextStatus := PASSED\<rparr>\<rparr>"
  have ok: "chain_ok ?d" by (simp add: chain_ok_def emptyDb_def sampleAccount_def)
  have h: "nextStatus (ev_decision ?p) = PASSED" "acc_status (ev_account ?p) = ACTIVE"
    "accountRow (acc_id (ev_account ?p)) ?d = Some sampleAccount" "acc_status sampleAccount = ACTIVE"
    "nextPhaseSnapshot (acc_snapshot (ev_account ?p)) = Some (Snapshot fundedRules None)"
    "\<not> hasNext (acc_id (ev_account ?p)) ?d"
    by (simp_all add: samplePlan_def sampleAccount_def accountRow_def findUnique_def sampleSnapshot_def hasNext_def)
  have f: "tpl_phase (rules (Snapshot fundedRules None)) = PHASE_FUNDED"
    "tpl_startingBalance (rules (Snapshot fundedRules None)) = Fin 10000"
    by (simp_all add: fundedRules_def sampleRules_def)
  from passing_opens_next_phase [OF ok h, of None] show ?thesis
  proof (elim exE conjE, intro exI conjI)
    fix d' r new
    assume a: "evaluateCommit ?p None ?d = (Inr r, d')" "acc_status r = PASSED"
      "accounts_t d' = map (\<lambda>r. if acc_id r = acc_id (ev_account ?p) then transitionRow ?p r else r) (accounts_t ?d) @ [new]"
      "acc_status new = (if tpl_phase (rules (Snapshot fundedRules None)) = PHASE_FUNDED then FUNDED else ACTIVE)"
      "\<forall>b\<in>{acc_balance new, acc_equity new, acc_highWaterMark new, acc_dailyAnchorBalance new}.
         b = tpl_startingBalance (rules (Snapshot fundedRules None))"
    show "evaluateCommit ?p None ?d = (Inr r, d')" "acc_status r = PASSED" using a(1,2) by blast+
    show "last (accounts_t d') = new" using a(3) by simp
    show "acc_status new = FUNDED" using a(4) f(1) by simp
    show "acc_balance new = Fin 10000" using a(5) f(2) by simp
  qed
qed

section \<open>Reset and reinstatement\<close>

lemma accountRow_map_update:
  "accountRow i d = Some b \<Longrightarrow> (\<And>r. acc_id (f r) = acc_id r) \<Longrightarrow> accountRow i (updateAccount i f d) = Some (f b)"
  by (simp add: accountRow_update)

lemma filter_archived:
  "filter (\<lambda>t. trd_accountId t = i \<and> trd_archivedAt t = None)
     (map (\<lambda>t. if trd_accountId t = i \<and> trd_archivedAt t = None then t\<lparr>trd_archivedAt := Some now\<rparr> else t) ts) = []"
  by (induction ts) simp_all

lemma filter_closed_positions:
  assumes "\<And>p. pos_accountId (g p) = pos_accountId p" "\<And>p. pos_status (g p) = POS_CLOSED"
  shows "filter (\<lambda>p. pos_accountId p = i \<and> pos_status p = POS_OPEN)
     (map (\<lambda>p. if pos_accountId p = i \<and> pos_status p = POS_OPEN then g p else p) ps) = []"
  by (induction ps) (simp_all add: assms)

lemma determine_at_start:
  assumes "i_startingBalance x = cents (100 * S)" "0 < S" "S \<le> 2 ^ 36" "i_dailyAnchorBalance x = cents (100 * S)"
    and "i_equity x = cents (100 * S)" "i_netPnl x = Fin 0" "i_highWaterMark x = cents (100 * S)"
    and "r_maxDrawdown (i_snapshot x) = Fin (of_int dd)" "0 \<le> dd" "dd \<le> 100"
    and "r_dailyDrawdown (i_snapshot x) = Fin (of_int dl)" "0 \<le> dl" "dl \<le> 100"
    and "r_profitTarget (i_snapshot x) = None \<or> r_profitTarget (i_snapshot x) = Some (Fin (of_int tp)) \<and> 0 < tp \<and> tp \<le> 1000"
    and "\<not> i_expired x"
  shows "nextStatus (determineChallengeTransition x) = i_status x"
proof -
  note P = percent_ok [of S dd] and Q = percent_ok [of S dl]
  have ok: "money_ok (100 * S)" using P(5) assms by simp
  have mx: "money_ok (max (100 * S) (100 * S) - S * dd)" using P(4) assms by simp
  have ddf: "maxDrawdownFloor (cents (100 * S)) (cents (100 * S)) (Fin (of_int dd)) m = floor_cents (100 * S) (S * dd)" for m
  proof (cases "m = Some TRAILING")
    case True
    have "min (100 * S - S * dd) (100 * S) = 100 * S - S * dd" using assms by simp
    then show ?thesis using maxDrawdownFloor_trailing [OF P(1-3) ok mx] assms True by (simp add: floor_cents_def)
  next
    case False
    then show ?thesis using maxDrawdownFloor_static [OF P(1-3)] assms by simp
  qed
  have dlf: "dailyLossFloor (cents (100 * S)) (Fin (of_int dl)) = floor_cents (100 * S) (S * dl)"
    using dailyLossFloor_cents [OF Q(1-3)] assms by simp
  have no: "\<not> cents (100 * S) \<le> floor_cents (100 * S) (S * dd)" "\<not> cents (100 * S) \<le> floor_cents (100 * S) (S * dl)"
    using floor_cents_le [OF ok P(4)] floor_cents_le [OF ok Q(4)] assms by auto
  have tgt: "(case targetAmount (cents (100 * S)) (r_profitTarget (i_snapshot x)) of None \<Rightarrow> False | Some t \<Rightarrow> t \<le> Fin 0) = False"
  proof (cases "r_profitTarget (i_snapshot x)")
    case (Some t)
    then have tp: "t = Fin (of_int tp)" "0 < tp" "tp \<le> 1000" using assms(14) by auto
    have p: "0 < S * tp" using assms(2) tp by simp
    note T = percent_ok(1-3) [of S tp]
    have m: "money_ok (S * tp)" using T tp assms(2,3) by simp
    have "\<not> cents (S * tp) \<le> Fin 0" unfolding cents_pos_iff(4) [OF m] using p by linarith
    then show ?thesis using targetAmount_cents [of S tp] T tp assms(2,3) Some by simp
  qed (simp add: targetAmount_def)
  have z: "roundCurrency (Fin 0) = Fin 0" using roundCurrency_cents [of 0] by simp
  show ?thesis
    unfolding determineChallengeTransition_def Let_def assms(1,4-8,11) ddf dlf roundCurrency_cents [OF ok] z tgt
    by (simp add: no assms(15))
qed

text \<open>What an evaluation sees of an account with no live trades and no open positions.\<close>

lemma evaluate_idle:
  assumes "accountRow i d = Some r" "liveTrades i d = []"
    and "filter (\<lambda>p. pos_accountId p = i \<and> pos_status p = POS_OPEN) (positions_t d) = []"
    and "acc_tradeCount r = 0" and "acc_balance r = cents b" "money_ok b" "acc_highWaterMark r = cents h" "money_ok h"
  shows "evaluateRead i now d = Inr (evaluatePlan r now d, d)"
    and "evalEquity r d = cents b" and "evalHighWaterMark r d = cents (max h b)"
proof -
  have i: "acc_id r = i" using assms(1) by (rule accountRow_id)
  have agg: "ag_closed (aggregateTrades i rt d) = 0" for rt by (simp add: aggregateTrades_def assms(2))
  show "evaluateRead i now d = Inr (evaluatePlan r now d, d)"
    using assms(1,4) i agg by (simp add: evaluateRead_def ensureAggregatesBackfilled_def)
  have z: "cents b + Fin 0 = cents b"
  proof -
    obtain c where c: "cents b = Fin c" using assms(6) by (rule cents_near)
    have "rnd c = Fin c" using c by (simp add: cents_def) (metis Fin_rnd_fixed)
    then show ?thesis by (simp add: c)
  qed
  show e: "evalEquity r d = cents b"
    unfolding evalEquity_def i assms(2,5) sumOpenPositionFloating_def assms(3)
    by (simp add: roundCurrency_cents [OF assms(6)] z)
  show "evalHighWaterMark r d = cents (max h b)"
    unfolding evalHighWaterMark_def e assms(7) using cents_less_iff [OF assms(8,6)] by (auto simp: max_def)
qed

text \<open>
  A reset account starts over: its trades are archived, its positions closed, its status is live,
  and the very next evaluation, at that instant, finds equity, peak and anchor at the starting balance
  and leaves the status as it is.
\<close>

theorem reset_starts_over:
  assumes "resetAccount i admin now d = Inr (r, d')"
    and "tpl_startingBalance (rules (acc_snapshot r)) = cents (100 * S)" "0 < S" "S \<le> 2 ^ 36"
    and "tpl_maxDrawdown (rules (acc_snapshot r)) = Fin (of_int dd)" "0 \<le> dd" "dd \<le> 100"
    and "tpl_dailyDrawdown (rules (acc_snapshot r)) = Fin (of_int dl)" "0 \<le> dl" "dl \<le> 100"
    and "tpl_profitTarget (rules (acc_snapshot r)) = None
      \<or> tpl_profitTarget (rules (acc_snapshot r)) = Some (Fin (of_int tp)) \<and> 0 < tp \<and> tp \<le> 1000"
    and "tpl_durationDays (rules (acc_snapshot r)) = None \<or> (\<exists>n>0. tpl_durationDays (rules (acc_snapshot r)) = Some n)"
  shows "liveTrades i d' = [] \<and> sumOpenPositionFloating i d' = Fin 0
    \<and> acc_status r = (if acc_phase r = PHASE_FUNDED then FUNDED else ACTIVE)
    \<and> (\<exists>r'. fst (evaluateAccount i None now d') = Inr r' \<and> acc_status r' = acc_status r
        \<and> acc_equity r' = cents (100 * S) \<and> acc_highWaterMark r' = cents (100 * S))"
proof -
  obtain b where b: "accountRow i d = Some b" "\<not> hasNext i d"
    using assms(1) by (auto simp: resetAccount_def hasNext_def split: option.splits if_splits)
  define f where "f = (\<lambda>r. (newAccountColumns (acc_snapshot b) now r)
      \<lparr>acc_status := (if acc_phase b = PHASE_FUNDED then FUNDED else ACTIVE), acc_statusChangedAt := now,
       acc_passedAt := None, acc_failedAt := None, acc_failureReason := None,
       acc_fundedAt := (if acc_phase b = PHASE_FUNDED
          then Some (case acc_fundedAt b of Some f \<Rightarrow> f | None \<Rightarrow> now) else None)\<rparr>)"
  define d1 where "d1 = d\<lparr>trades_t := snd (updateMany (\<lambda>t. trd_accountId t = i \<and> trd_archivedAt t = None)
        (\<lambda>t. t\<lparr>trd_archivedAt := Some now\<rparr>) (trades_t d)),
     positions_t := snd (updateMany (\<lambda>p. pos_accountId p = i \<and> pos_status p = POS_OPEN)
        (\<lambda>p. p\<lparr>pos_status := POS_CLOSED, pos_closedAt := Some now, pos_closeReason := Some CR_ADMIN,
           pos_floatingPnl := Fin 0, pos_marginUsed := Fin 0\<rparr>) (positions_t d))\<rparr>"
  have rd: "r = f b" "d' = logAudit (Some admin) ''ACCOUNT_RESET'' ''TradingAccount'' i (updateAccount i f d1)"
    using assms(1) b by (simp_all add: resetAccount_def hasNext_def Let_def f_def d1_def)
  have fid: "acc_id (f x) = acc_id x" for x by (simp add: f_def newAccountColumns_def Let_def)
  have row: "accountRow i d' = Some r"
  proof -
    have "accountRow i d1 = Some b" using b(1) by (simp add: accountRow_def d1_def)
    from accountRow_map_update [of i d1 b f, OF this fid] show ?thesis by (simp add: rd accountRow_def)
  qed
  have lt: "liveTrades i d' = []"
    by (simp add: liveTrades_def rd(2) updateAccount_def d1_def updateMany_def filter_archived)
  have op: "filter (\<lambda>p. pos_accountId p = i \<and> pos_status p = POS_OPEN) (positions_t d') = []"
    unfolding rd(2) by (simp add: updateAccount_def d1_def updateMany_def filter_closed_positions)
  have snap: "acc_snapshot r = acc_snapshot b" "acc_phase r = acc_phase b"
    by (simp_all add: rd(1) f_def newAccountColumns_def Let_def)
  have cols: "acc_tradeCount r = 0" "acc_balance r = cents (100 * S)" "acc_highWaterMark r = cents (100 * S)"
    "acc_dailyAnchorBalance r = cents (100 * S)" "acc_startingBalance r = cents (100 * S)" "acc_realizedPnl r = Fin 0"
    "acc_dailyAnchorDate r = currentDayStart (resetTimeOfSnapshot (acc_snapshot r)) now"
    "acc_status r = (if acc_phase r = PHASE_FUNDED then FUNDED else ACTIVE)"
    using assms(2) by (simp_all add: snap) (simp_all add: rd(1) f_def newAccountColumns_def Let_def)
  have ok: "money_ok (100 * S)" using percent_ok(5) [of S 0] assms(3,4) by simp
  note idle = evaluate_idle [OF row lt op cols(1,2) ok cols(3) ok]
  have anchor: "evalAnchor r now d' = (cents (100 * S), acc_dailyAnchorDate r)"
    by (simp add: evalAnchor_def Let_def needsDailyReset_def cols)
  have exp: "\<not> (case evalExpiresAt r of Some e \<Rightarrow> e < now | None \<Rightarrow> False)"
  proof -
    have "acc_expiresAt r = (case tpl_durationDays (rules (acc_snapshot r)) of
        Some n \<Rightarrow> if n > 0 then Some (now + n * DAY_MS) else None | None \<Rightarrow> None)"
      unfolding snap by (simp add: rd(1) f_def newAccountColumns_def Let_def)
    then show ?thesis using assms(12) by (auto simp: evalExpiresAt_def DAY_MS_def)
  qed
  have "nextStatus (determineChallengeTransition (decisionInput r now d')) = i_status (decisionInput r now d')"
    using assms(3-11) exp
    by (intro determine_at_start [where S = S and dd = dd and dl = dl and tp = tp])
      (simp_all add: decisionInput_def Let_def cols idle(2,3) anchor)
  then have st: "nextStatus (ev_decision (evaluatePlan r now d')) = acc_status (ev_account (evaluatePlan r now d'))"
    by (simp add: evaluatePlan_def decisionInput_def Let_def)
  have ai: "acc_id r = i" using row by (rule accountRow_id)
  have ev: "ev_account (evaluatePlan r now d') = r" by (simp add: evaluatePlan_def)
  have up: "accountRow i (updateAccount i (numericFields (evaluatePlan r now d')) d') = Some (numericFields (evaluatePlan r now d') r)"
    by (rule accountRow_map_update [OF row]) simp
  have "fst (evaluateAccount i None now d') = Inr (numericFields (evaluatePlan r now d') r)"
    using st by (simp add: evaluateAccount_def idle(1) evaluateCommit_def findAccountOrThrow_def ev ai up)
  moreover have "acc_equity (numericFields (evaluatePlan r now d') r) = cents (100 * S)"
    "acc_highWaterMark (numericFields (evaluatePlan r now d') r) = cents (100 * S)"
    by (simp_all add: numericFields_def evaluatePlan_def idle(2,3))
  ultimately show ?thesis using lt op cols(8) by (simp add: sumOpenPositionFloating_def)
qed

theorem reset_starts_over_witness:
  "\<exists>r d'. resetAccount 7 1 86500000 (emptyDb\<lparr>accounts_t := [sampleAccount\<lparr>acc_status := FAILED, acc_balance := Fin 1\<rparr>],
      trades_t := [sampleTrade 1 (Fin (- 9999))]\<rparr>) = Inr (r, d') \<and> liveTrades 7 d' = [] \<and> acc_status r = ACTIVE"
proof -
  let ?a = "sampleAccount\<lparr>acc_status := FAILED, acc_balance := Fin 1\<rparr>"
  let ?d = "emptyDb\<lparr>accounts_t := [?a], trades_t := [sampleTrade 1 (Fin (- 9999))]\<rparr>"
  have row: "accountRow 7 ?d = Some ?a" by (simp add: accountRow_def findUnique_def sampleAccount_def)
  have nn: "\<not> (\<exists>r\<in>set (accounts_t ?d). acc_previousAccountId r = Some 7)" by (simp add: sampleAccount_def)
  obtain r d' where e: "resetAccount 7 1 86500000 ?d = Inr (r, d')" and s: "acc_snapshot r = sampleSnapshot" "acc_phase r = PHASE_1"
    unfolding resetAccount_def row using nn
    by (simp add: Let_def newAccountColumns_def sampleAccount_def)
  have c: "cents (100 * 10000) = Fin 10000" using cents_whole [of 10000] by simp
  have "tpl_startingBalance (rules (acc_snapshot r)) = cents (100 * 10000)"
    "tpl_maxDrawdown (rules (acc_snapshot r)) = Fin (of_int 10)" "tpl_dailyDrawdown (rules (acc_snapshot r)) = Fin (of_int 5)"
    "tpl_profitTarget (rules (acc_snapshot r)) = Some (Fin (of_int 8))" "tpl_durationDays (rules (acc_snapshot r)) = None"
    unfolding s sampleSnapshot_def c by (simp_all add: sampleRules_def)
  then show ?thesis using reset_starts_over [OF e, where S = 10000 and dd = 10 and dl = 5 and tp = 8] e s(2) by simp
qed

text \<open>
  Reinstating a failed account by hand re-anchors its daily loss and its peak, but a static
  drawdown floor hangs from the starting balance: an account whose equity is still at or under that
  floor is failed again, for MAX_DRAWDOWN, by the next evaluation at any time.
\<close>

theorem reinstated_under_static_floor_fails_again:
  assumes "setAccountStatusManually i st admin why now d = Inr (r, d')" "st \<in> {ACTIVE, FUNDED}"
    and "acc_startingBalance r = cents (100 * S)" "0 < S" "S \<le> 2 ^ 36"
    and "tpl_maxDrawdown (rules (acc_snapshot r)) = Fin (of_int dd)" "0 < dd" "dd \<le> 100"
    and "tpl_drawdownMode (rules (acc_snapshot r)) \<noteq> Some TRAILING"
    and "evalEquity r d' = cents e" "money_ok e" "e \<le> 100 * S - S * dd"
  shows "acc_status r = st \<and> acc_dailyAnchorBalance r = acc_equity r
    \<and> nextStatus (ev_decision (evaluatePlan r later d')) = FAILED
    \<and> failureReason (ev_decision (evaluatePlan r later d')) = Some MAX_DRAWDOWN"
proof -
  have r: "acc_status r = st" "acc_dailyAnchorBalance r = acc_equity r"
    using assms(1,2) by (auto simp: setAccountStatusManually_def Let_def split: option.splits if_splits)
  let ?x = "decisionInput r later d'"
  have floor: "maxDrawdownFloor (i_startingBalance ?x) (i_highWaterMark ?x) (r_maxDrawdown (i_snapshot ?x)) (r_drawdownMode (i_snapshot ?x))
      = floor_cents (100 * S) (S * dd)"
  proof -
    have "(case tpl_drawdownMode (rules (acc_snapshot r)) of Some m \<Rightarrow> m | None \<Rightarrow> STATIC) \<noteq> TRAILING"
      using assms(9) by (auto split: option.splits)
    then show ?thesis using maxDrawdownFloor_static [OF percent_ok(1-3) [of S dd]] assms(3-8)
      by (simp add: decisionInput_def Let_def)
  qed
  have "0 < S * dd" using assms(4,7) by simp
  then have under: "cents e \<le> floor_cents (100 * S) (S * dd)"
    unfolding floor_cents_le [OF assms(11) percent_ok(4) [of S dd, OF less_imp_le [OF assms(4)] assms(5) less_imp_le [OF assms(7)] order_trans [OF assms(8)], simplified]]
    using assms(12) by simp
  have x: "i_equity ?x = cents e" "i_status ?x = st" by (simp_all add: decisionInput_def Let_def assms(10) r(1))
  have "nextStatus (determineChallengeTransition ?x) = FAILED \<and> failureReason (determineChallengeTransition ?x) = Some MAX_DRAWDOWN"
    unfolding determineChallengeTransition_def Let_def floor x roundCurrency_cents [OF assms(11)]
    using under assms(2) by (auto simp: AUTO_EVALUATION_TERMINAL_STATUSES_def)
  then show ?thesis using r by (simp add: evaluatePlan_def)
qed

theorem reinstated_under_static_floor_fails_again_witness:
  "\<exists>r d'. setAccountStatusManually 7 ACTIVE 1 None 86500000
      (emptyDb\<lparr>accounts_t := [sampleAccount\<lparr>acc_status := FAILED, acc_balance := Fin 8000, acc_equity := Fin 8000\<rparr>]\<rparr>) = Inr (r, d')
    \<and> acc_status r = ACTIVE \<and> nextStatus (ev_decision (evaluatePlan r 90000000 d')) = FAILED"
proof -
  let ?a = "sampleAccount\<lparr>acc_status := FAILED, acc_balance := Fin 8000, acc_equity := Fin 8000\<rparr>"
  let ?d = "emptyDb\<lparr>accounts_t := [?a]\<rparr>"
  have row: "accountRow 7 ?d = Some ?a" by (simp add: accountRow_def findUnique_def sampleAccount_def)
  obtain r d' where e: "setAccountStatusManually 7 ACTIVE 1 None 86500000 ?d = Inr (r, d')"
    and s: "acc_snapshot r = sampleSnapshot" "acc_startingBalance r = Fin 10000" "acc_balance r = Fin 8000"
    and t: "trades_t d' = []" "positions_t d' = []"
    unfolding setAccountStatusManually_def row
    by (simp add: Let_def isLegalManualTransition_def sampleAccount_def updateAccount_def emptyDb_def)
  have c: "cents (100 * 10000) = Fin 10000" "cents 800000 = Fin 8000" using cents_whole [of 10000] cents_whole [of 8000] by simp_all
  have rc: "roundCurrency (Fin 8000) = Fin 8000" using roundCurrency_cents [of 800000] c(2) by (simp add: money_ok_def)
  have q: "evalEquity r d' = cents 800000"
    unfolding evalEquity_def s(3) c(2) liveTrades_def sumOpenPositionFloating_def t by (simp add: rc rnd_of_int [of 8000, simplified])
  have h: "tpl_maxDrawdown (rules (acc_snapshot r)) = Fin (of_int 10)" "tpl_drawdownMode (rules (acc_snapshot r)) \<noteq> Some TRAILING"
    "acc_startingBalance r = cents (100 * 10000)"
    unfolding s sampleSnapshot_def c by (simp_all add: sampleRules_def)
  show ?thesis
    using reinstated_under_static_floor_fails_again [OF e _ h(3) _ _ h(1) _ _ h(2) q, of 90000000] e by (simp add: money_ok_def)
qed

section \<open>The sweep\<close>

lemma sort_key_least:
  assumes "distinct (map f xs)" "x \<in> set xs" "\<forall>y\<in>set xs. f x \<le> f y"
  shows "sort_key f xs = x # sort_key f (filter (\<lambda>y. f y \<noteq> f x) xs)"
  using assms
proof (induction xs)
  case (Cons a xs)
  show ?case
  proof (cases "a = x")
    case True
    then have "filter (\<lambda>y. f y \<noteq> f x) xs = xs" using Cons.prems(1) by (auto simp: filter_id_conv image_iff)
    then show ?thesis using True Cons.prems(3) by (simp add: insort_is_Cons)
  next
    case False
    then have x: "x \<in> set xs" using Cons.prems(2) by simp
    have "f x \<noteq> f a" using Cons.prems(1) x by (metis distinct.simps(2) image_eqI list.simps(9) set_map)
    then have lt: "f x < f a" using Cons.prems(3) by (simp add: order_le_less)
    have e: "sort_key f xs = x # sort_key f (filter (\<lambda>y. f y \<noteq> f x) xs)"
      using Cons.prems x by (intro Cons.IH) simp_all
    have f: "filter (\<lambda>y. f y \<noteq> f x) (a # xs) = a # filter (\<lambda>y. f y \<noteq> f x) xs" "\<not> f a \<le> f x" using lt by simp_all
    show ?thesis unfolding f(1) sort_key_simps e insort_key.simps using f(2) by simp
  qed
qed simp

definition liveRow :: "TradingAccount \<Rightarrow> bool" where
  "liveRow r \<longleftrightarrow> acc_status r = ACTIVE \<or> acc_status r = FUNDED"

text \<open>
  The page after a cursor: while the cursor account is still live it is the live accounts with
  greater ids, in order, up to the batch size; once the cursor account has left the live statuses
  (the last account of the batch was just failed or passed) the first of them is missing, and since
  later pages start further on, this sweep never evaluates it.
\<close>

theorem sweep_page_after_cursor:
  assumes "distinct (map acc_id (accounts_t d))"
  shows "sweepPage (Some c) n d =
    (let later = sort_key acc_id (filter (\<lambda>r. liveRow r \<and> c < acc_id r) (accounts_t d)) in
     if (\<exists>r\<in>set (accounts_t d). acc_id r = c \<and> liveRow r) then take n later else take n (drop 1 later))"
proof -
  let ?xs = "filter (\<lambda>r. liveRow r \<and> c \<le> acc_id r) (accounts_t d)"
  have page: "sweepPage (Some c) n d = take n (drop 1 (sort_key acc_id ?xs))"
    unfolding sweepPage_def Let_def liveRow_def by (simp add: filter_sort conj_commute)
  show ?thesis
  proof (cases "\<exists>r\<in>set (accounts_t d). acc_id r = c \<and> liveRow r")
    case True
    then obtain r where r: "r \<in> set (accounts_t d)" "acc_id r = c" "liveRow r" by blast
    have dist: "distinct (map acc_id ?xs)" using assms by (simp add: distinct_map_filter)
    have "filter (\<lambda>y. acc_id y \<noteq> acc_id r) ?xs = filter (\<lambda>r. liveRow r \<and> c < acc_id r) (accounts_t d)"
      unfolding filter_filter r(2) by (rule filter_cong) auto
    then have "sort_key acc_id ?xs = r # sort_key acc_id (filter (\<lambda>r. liveRow r \<and> c < acc_id r) (accounts_t d))"
      using sort_key_least [OF dist, of r] r by simp
    then show ?thesis using True by (simp add: page Let_def)
  next
    case False
    then have "?xs = filter (\<lambda>r. liveRow r \<and> c < acc_id r) (accounts_t d)"
      by (intro filter_cong) (auto simp: order_le_less)
    then show ?thesis unfolding page Let_def if_not_P [OF False] by simp
  qed
qed

theorem sweep_page_after_cursor_witness:
  "sweepPage (Some 7) 200 (emptyDb\<lparr>accounts_t := [sampleAccount, sampleAccount\<lparr>acc_id := 8\<rparr>]\<rparr>) = [sampleAccount\<lparr>acc_id := 8\<rparr>]
   \<and> sweepPage (Some 7) 200 (emptyDb\<lparr>accounts_t := [sampleAccount\<lparr>acc_status := FAILED\<rparr>, sampleAccount\<lparr>acc_id := 8\<rparr>]\<rparr>) = []"
  using sweep_page_after_cursor [of "emptyDb\<lparr>accounts_t := [sampleAccount, sampleAccount\<lparr>acc_id := 8\<rparr>]\<rparr>" 7 200]
    sweep_page_after_cursor [of "emptyDb\<lparr>accounts_t := [sampleAccount\<lparr>acc_status := FAILED\<rparr>, sampleAccount\<lparr>acc_id := 8\<rparr>]\<rparr>" 7 200]
  by (simp add: liveRow_def sampleAccount_def)

end
