(* ===== verification/LedgerProofs.thy ===== *)
theory LedgerProofs
  imports TradeLedger ChallengeProofs
begin

text \<open>
  The trade ledger: closes are exact in cents and counted once, fills are idempotent, and the
  balance of an account always differs from its start by the sum of its ledger entries.
\<close>

section \<open>Rows after an update\<close>

lemma find_map_cond:
  assumes "\<And>r. key (f r) = key r"
  shows "List.find (\<lambda>r. key r = k) (map (\<lambda>r. if key r = j \<and> Q r then f r else r) rows) =
    map_option (\<lambda>r. if key r = j \<and> Q r then f r else r) (List.find (\<lambda>r. key r = k) rows)"
  by (induction rows) (auto simp: assms)

lemma closedPositionRow_id [simp]: "pos_id (closedPositionRow input position t p) = pos_id p"
  "pos_accountId (closedPositionRow input position t p) = pos_accountId p"
  by (simp_all add: closedPositionRow_def)

lemma closeAccountRow_simps [simp]:
  "acc_id (closeAccountRow input position a t r) = acc_id r" "acc_status (closeAccountRow input position a t r) = acc_status r"
  "acc_previousAccountId (closeAccountRow input position a t r) = acc_previousAccountId r"
  "acc_tradeCount (closeAccountRow input position a t r) = acc_tradeCount r + 1"
  by (simp_all add: closeAccountRow_def split_beta)

text \<open>The claim on an open position is won once: the provider of the interface for closes.\<close>

interpretation position_close: claims
  "\<lambda>k. updateMany (\<lambda>p. pos_id p = k \<and> pos_status p = POS_OPEN) (\<lambda>p. (g p)\<lparr>pos_status := POS_CLOSED\<rparr>)"
  "\<lambda>k rows. \<exists>p\<in>set rows. pos_id p = k \<and> pos_status p = POS_OPEN" for g
  by (rule updateMany_claims) simp

lemma closeTx_changed:
  assumes "closeTx input now d = Inr (res, d1)" "cr_changed res"
  obtains position account closedAt where
    "positionRow (ci_positionId input) d = Some position" "pos_status position = POS_OPEN"
    "accountRow (pos_accountId position) d = Some account"
    "closedAt = (case ci_closedAt input of Some c \<Rightarrow> c | None \<Rightarrow> now)"
    "d1 = updateAccount (acc_id account) (closeAccountRow input position account closedAt)
        (d\<lparr>positions_t := snd (updateMany (\<lambda>p. pos_id p = pos_id position \<and> pos_status p = POS_OPEN)
             (closedPositionRow input position closedAt) (positions_t d)),
           trades_t := trades_t d @ [closeTradeRow input position closedAt (next_id d)], next_id := next_id d + 1,
           ledger_t := ledger_t d @ closeEntries input account (next_id d)\<rparr>)"
    "cr_accountId res = pos_accountId position" "cr_trade res = Some (closeTradeRow input position closedAt (next_id d))"
    "positionRow (pos_id position) d1 = Some (cr_position res)"
proof -
  let ?t = "case ci_closedAt input of Some c \<Rightarrow> c | None \<Rightarrow> now"
  obtain position where p: "positionRow (ci_positionId input) d = Some position"
    using assms(1) by (auto simp: closeTx_def Let_def split: option.splits)
  have o: "pos_status position = POS_OPEN"
    using assms p by (auto simp: closeTx_def Let_def split: if_splits)
  have n: "fst (updateMany (\<lambda>p. pos_id p = pos_id position \<and> pos_status p = POS_OPEN)
      (closedPositionRow input position ?t) (positions_t d)) \<noteq> 0"
    using assms p o by (auto simp: closeTx_def Let_def split_beta split: if_splits)
  obtain account where a: "accountRow (pos_accountId position) d = Some account"
    using assms p o n by (auto simp: closeTx_def Let_def split_beta split: option.splits)
  have t: "trd_id (closeTradeRow input position ?t (next_id d)) = next_id d"
    by (simp add: closeTradeRow_def split_beta)
  show thesis
    using assms(1) p o n a
    by (intro that [of position account ?t])
      (auto simp: closeTx_def Let_def split_beta t split: option.splits)
qed

text \<open>
  A position that was fully closed is closed once: any later close request for it, whatever its
  price, volume or reason (a retry after a crash, a stop racing a manual close), returns a recorded
  trade of that position and changes nothing: no second trade, ledger entry or balance change.
\<close>

theorem close_is_idempotent:
  assumes "closeTx input now d = Inr (res, d1)" "cr_changed res"
    and "positionRow (ci_positionId input) d = Some position" "fullClose input position"
    and "ci_positionId retry = ci_positionId input"
  shows "\<exists>res2 t. closeTx retry later d1 = Inr (res2, d1) \<and> \<not> cr_changed res2
    \<and> cr_trade res2 = Some t \<and> trd_positionId t = Some (ci_positionId input)"
  using assms(1,2)
proof (cases rule: closeTx_changed)
  case (1 p a closedAt)
  have p: "p = position" using 1(1) assms(3) by simp
  have pid: "pos_id position = ci_positionId input" using assms(3) by (rule positionRow_id)
  have status: "pos_status (closedPositionRow input position closedAt r) = POS_CLOSED" for r
    using assms(4) by (simp add: closedPositionRow_def)
  have row: "positionRow (ci_positionId input) d1 = Some (closedPositionRow input position closedAt position)"
    using find_map_cond [of pos_id "closedPositionRow input position closedAt" "ci_positionId input" "pos_id position"
        "\<lambda>p. pos_status p = POS_OPEN" "positions_t d"] 1(1,2) pid
    unfolding 1(5) p by (simp add: positionRow_def findUnique_def updateAccount_def updateMany_def)
  have "trades_t d1 = trades_t d @ [closeTradeRow input position closedAt (next_id d)]"
    unfolding 1(5) p by (simp add: updateAccount_def)
  moreover have "trd_positionId (closeTradeRow input position closedAt (next_id d)) = Some (ci_positionId input)"
    by (simp add: closeTradeRow_def split_beta pid)
  ultimately have "filter (\<lambda>t. trd_positionId t = Some (ci_positionId input)) (trades_t d1) \<noteq> []" by simp
  then obtain t ts where t: "sort_key (\<lambda>t. case trd_closeTime t of Some c \<Rightarrow> - c | None \<Rightarrow> 0)
      (filter (\<lambda>t. trd_positionId t = Some (ci_positionId input)) (trades_t d1)) = t # ts"
    by (metis length_0_conv length_sort list.exhaust)
  then have "t \<in> set (filter (\<lambda>t. trd_positionId t = Some (ci_positionId input)) (trades_t d1))"
    by (metis list.set_intros(1) set_sort)
  then show ?thesis using row t status assms(5)
    by (simp add: closeTx_def Let_def latestTradeOf_def pid)
qed

section \<open>Money of a close\<close>

lemma round_small:
  assumes "\<bar>x\<bar> \<le> 2 ^ 27"
  obtains n where "roundCurrency (Fin x) = cents n" "\<bar>n\<bar> \<le> 2 ^ 34" "\<bar>x * 100 - of_int n\<bar> \<le> 3 / 4"
proof -
  have x: "\<bar>x\<bar> \<le> 134217728" using assms by simp
  then have "\<bar>x\<bar> \<le> 2 ^ 40" by (elim order_trans) simp
  then obtain n where n: "roundCurrency (Fin x) = cents n" "\<bar>x * 100 - of_int n\<bar> \<le> 3 / 4" by (rule roundCurrency_is_cents)
  have "\<bar>of_int n :: rat\<bar> \<le> 17179869184" using n(2) x by linarith
  then have "\<bar>n\<bar> \<le> 2 ^ 34" using abs_of_int_le_iff [of n 17179869184] by simp
  with n that show thesis by blast
qed

text \<open>The input of a close with amounts an account can have: at most \<open>2 ^ 27\<close> ETB each.\<close>

definition money_input :: "CloseInput \<Rightarrow> bool" where
  "money_input input \<longleftrightarrow> (\<exists>g c s. ci_grossProfit input = Fin g \<and> \<bar>g\<bar> \<le> 2 ^ 27
     \<and> (case ci_commission input of Some x \<Rightarrow> x | None \<Rightarrow> lit 0) = Fin c \<and> \<bar>c\<bar> \<le> 2 ^ 27
     \<and> (case ci_swap input of Some x \<Rightarrow> x | None \<Rightarrow> lit 0) = Fin s \<and> \<bar>s\<bar> \<le> 2 ^ 27)"

lemma closeMoney_cents:
  assumes "money_input input"
  obtains g c s where "closeMoney input = (cents g, cents c, cents s, cents (g - c - s))"
    and "\<bar>g\<bar> \<le> 2 ^ 34" "\<bar>c\<bar> \<le> 2 ^ 34" "\<bar>s\<bar> \<le> 2 ^ 34"
proof -
  obtain xg xc xs where x: "ci_grossProfit input = Fin xg" "\<bar>xg\<bar> \<le> 2 ^ 27"
    "(case ci_commission input of Some x \<Rightarrow> x | None \<Rightarrow> lit 0) = Fin xc" "\<bar>xc\<bar> \<le> 2 ^ 27"
    "(case ci_swap input of Some x \<Rightarrow> x | None \<Rightarrow> lit 0) = Fin xs" "\<bar>xs\<bar> \<le> 2 ^ 27"
    using assms unfolding money_input_def by blast
  obtain g where g: "roundCurrency (Fin xg) = cents g" "\<bar>g\<bar> \<le> 2 ^ 34" using x(2) by (rule round_small)
  obtain c where c: "roundCurrency (Fin xc) = cents c" "\<bar>c\<bar> \<le> 2 ^ 34" using x(4) by (rule round_small)
  obtain s where s: "roundCurrency (Fin xs) = cents s" "\<bar>s\<bar> \<le> 2 ^ 34" using x(6) by (rule round_small)
  have "money_ok g" "money_ok c" "money_ok s" "money_ok (g - c)"
    using g(2) c(2) s(2) by (auto simp: money_ok_def abs_le_iff)
  then have "closeMoney input = (cents g, cents c, cents s, cents (g - c - s))"
    by (simp add: closeMoney_def Let_def x(1,3,5) g(1) c(1) s(1) cents_add_diff_near)
  with g(2) c(2) s(2) that show thesis by blast
qed

lemma closeEntries_sum:
  assumes "money_input input"
  obtains n ns where "map led_amount (closeEntries input a i) = map cents ns" "sum_list ns = n" "\<bar>n\<bar> \<le> 2 ^ 36"
    "snd (snd (snd (closeMoney input))) = cents n" "\<forall>e\<in>set (closeEntries input a i). led_accountId e = Some (acc_id a)"
proof -
  obtain g c s where m: "closeMoney input = (cents g, cents c, cents s, cents (g - c - s))"
    "\<bar>g\<bar> \<le> 2 ^ 34" "\<bar>c\<bar> \<le> 2 ^ 34" "\<bar>s\<bar> \<le> 2 ^ 34"
    using assms by (rule closeMoney_cents)
  have ok: "money_ok c" "money_ok s" using m(3,4) by (auto simp: money_ok_def)
  have z: "js_eq (cents c) (lit 0) \<longleftrightarrow> c = 0" "js_eq (cents s) (lit 0) \<longleftrightarrow> s = 0"
    using cents_pos_iff(5) [OF ok(1)] cents_pos_iff(5) [OF ok(2)] by (simp_all add: js_eq_def)
  define ns where "ns = g # (if c = 0 then [] else [- c]) @ (if s = 0 then [] else [- s])"
  show thesis
  proof (rule that [of ns "g - c - s"])
    show "map led_amount (closeEntries input a i) = map cents ns"
      unfolding closeEntries_def m(1) Let_def split z ns_def by (simp add: cents_minus)
    show "sum_list ns = g - c - s" by (simp add: ns_def)
    show "\<bar>g - c - s\<bar> \<le> 2 ^ 36" using m(2-4) by (simp add: abs_le_iff)
    show "snd (snd (snd (closeMoney input))) = cents (g - c - s)" by (simp add: m(1))
    show "\<forall>e\<in>set (closeEntries input a i). led_accountId e = Some (acc_id a)"
      by (auto simp: closeEntries_def m(1) Let_def)
  qed
qed

section \<open>The books\<close>

text \<open>
  The balance of account \<open>i\<close> is \<open>base\<close> cents plus the sum of its ledger entries: the entries are
  cent amounts \<open>ns\<close> of absolute total at most \<open>bound\<close>.
\<close>

definition accountEntries :: "nat \<Rightarrow> db \<Rightarrow> LedgerEntry list" where
  "accountEntries i d = filter (\<lambda>e. led_accountId e = Some i) (ledger_t d)"

definition books :: "nat \<Rightarrow> int \<Rightarrow> int list \<Rightarrow> db \<Rightarrow> bool" where
  "books i base ns d \<longleftrightarrow> (\<exists>a. accountRow i d = Some a \<and> acc_balance a = cents (base + sum_list ns)
     \<and> map led_amount (accountEntries i d) = map cents ns
     \<and> (acc_tradeCount a > 0 \<or> (\<forall>rt. ag_closed (aggregateTrades i rt d) = 0)))"

lemma accountRow_other:
  assumes "\<And>r. acc_id (f r) = acc_id r" "i \<noteq> j"
  shows "accountRow i (updateAccount j f d) = accountRow i d"
  by (simp add: accountRow_update [of f, OF assms(1)] assms(2) option.map_ident)

lemma accountRow_append: "accountRow i d = Some a \<Longrightarrow> accounts_t d' = accounts_t d @ new \<Longrightarrow> accountRow i d' = Some a"
  by (simp add: accountRow_def findUnique_def find_append)

lemma closeTx_books:
  assumes "closeTx input now d = Inr (res, d1)" "cr_changed res" "money_input input"
    and "accountRow (cr_accountId res) d = Some a"
  obtains n ns a1 entries where "ledger_t d1 = ledger_t d @ entries" "map led_amount entries = map cents ns" "sum_list ns = n"
    "\<bar>n\<bar> \<le> 2 ^ 36" "\<forall>e\<in>set entries. led_accountId e = Some (cr_accountId res)"
    "accountRow (cr_accountId res) d1 = Some a1" "acc_balance a1 = roundCurrency (acc_balance a + cents n)"
    "acc_realizedPnl a1 = roundCurrency (acc_realizedPnl a + cents n)"
    "acc_tradeCount a1 = acc_tradeCount a + 1" "acc_status a1 = acc_status a"
    "map_option trd_netProfit (cr_trade res) = Some (cents n)"
  using assms(1,2)
proof (cases rule: closeTx_changed)
  case (1 p account closedAt)
  have a: "account = a" and i: "cr_accountId res = pos_accountId p" using 1(3,6) assms(4) by simp_all
  have ai: "acc_id a = cr_accountId res" using assms(4) by (rule accountRow_id)
  obtain n ns where e: "map led_amount (closeEntries input a (next_id d)) = map cents ns" "sum_list ns = n" "\<bar>n\<bar> \<le> 2 ^ 36"
    "snd (snd (snd (closeMoney input))) = cents n" "\<forall>e\<in>set (closeEntries input a (next_id d)). led_accountId e = Some (acc_id a)"
    using assms(3) by (rule closeEntries_sum)
  define d0 where "d0 = d\<lparr>positions_t := snd (updateMany (\<lambda>q. pos_id q = pos_id p \<and> pos_status q = POS_OPEN)
       (closedPositionRow input p closedAt) (positions_t d)),
     trades_t := trades_t d @ [closeTradeRow input p closedAt (next_id d)], next_id := next_id d + 1,
     ledger_t := ledger_t d @ closeEntries input a (next_id d)\<rparr>"
  have d1: "d1 = updateAccount (acc_id a) (closeAccountRow input p a closedAt) d0"
    unfolding 1(5) d0_def a ..
  have "accountRow (cr_accountId res) d0 = Some a" using assms(4) by (simp add: d0_def accountRow_def)
  then have row: "accountRow (cr_accountId res) d1 = Some (closeAccountRow input p a closedAt a)"
    unfolding d1 ai by (rule accountRow_map_update) simp
  show thesis
  proof (rule that [OF _ e(1,2,3) _ row])
    show "ledger_t d1 = ledger_t d @ closeEntries input a (next_id d)" by (simp add: d1 d0_def updateAccount_def)
    show "\<forall>e\<in>set (closeEntries input a (next_id d)). led_accountId e = Some (cr_accountId res)" using e(5) ai by simp
    show "acc_balance (closeAccountRow input p a closedAt a) = roundCurrency (acc_balance a + cents n)"
      "acc_realizedPnl (closeAccountRow input p a closedAt a) = roundCurrency (acc_realizedPnl a + cents n)"
      using e(4) by (simp_all add: closeAccountRow_def split_beta)
    show "map_option trd_netProfit (cr_trade res) = Some (cents n)"
      using e(4) by (simp add: 1(7) closeTradeRow_def split_beta)
  qed simp_all
qed

text \<open>
  A close is exact to the cent: the entries it writes to the ledger (gross profit, minus commission,
  minus swap) add up, in cents, to the net profit of the trade it records, and the balance and the
  realised P&L of the account move by exactly that many cents.
\<close>

theorem close_exact_in_cents:
  assumes "closeTx input now d = Inr (res, d1)" "cr_changed res" "money_input input"
    and "accountRow (cr_accountId res) d = Some a" "acc_balance a = cents b" "\<bar>b\<bar> \<le> 2 ^ 46"
    and "acc_realizedPnl a = cents z" "\<bar>z\<bar> \<le> 2 ^ 46"
  shows "\<exists>n ns a1 entries. ledger_t d1 = ledger_t d @ entries \<and> map led_amount entries = map cents ns \<and> sum_list ns = n
    \<and> map_option trd_netProfit (cr_trade res) = Some (cents n)
    \<and> accountRow (cr_accountId res) d1 = Some a1 \<and> acc_balance a1 = cents (b + n) \<and> acc_realizedPnl a1 = cents (z + n)
    \<and> acc_tradeCount a1 = acc_tradeCount a + 1"
proof (rule closeTx_books [OF assms(1-4)])
  fix n ns a1 entries
  assume h: "\<bar>n\<bar> \<le> 2 ^ 36" "acc_balance a1 = roundCurrency (acc_balance a + cents n)"
    "acc_realizedPnl a1 = roundCurrency (acc_realizedPnl a + cents n)"
    and rest: "ledger_t d1 = ledger_t d @ entries" "map led_amount entries = map cents ns" "sum_list ns = n"
    "accountRow (cr_accountId res) d1 = Some a1" "acc_tradeCount a1 = acc_tradeCount a + 1"
    "map_option trd_netProfit (cr_trade res) = Some (cents n)"
  have "money_ok b" "money_ok n" "money_ok z" using assms(6,8) h(1) by (auto simp: money_ok_def)
  then have "acc_balance a1 = cents (b + n)" "acc_realizedPnl a1 = cents (z + n)"
    using h(2,3) assms(5,7) by (simp_all add: roundCurrency_add)
  with rest show ?thesis by blast
qed

section \<open>A sample position\<close>

definition samplePosition :: Position where
  "samplePosition = \<lparr>pos_id = 50, pos_accountId = 7, pos_symbol = ''EURUSD'', pos_side = BUY, pos_volume = Fin 1,
     pos_entryPrice = Fin 1, pos_stopLoss = None, pos_takeProfit = None, pos_currentPrice = Some (Fin 1),
     pos_floatingPnl = Fin 0, pos_marginUsed = Fin 0, pos_status = POS_OPEN, pos_openedAt = 86400000,
     pos_entryTickTs = None, pos_feedSource = None, pos_closedAt = None, pos_closePrice = None, pos_closeReason = None\<rparr>"

definition sampleClose :: CloseInput where
  "sampleClose = \<lparr>ci_positionId = 50, ci_closePrice = Fin 1, ci_closedAt = Some 86500000, ci_closeReason = CR_MANUAL,
     ci_grossProfit = Fin 20, ci_commission = Some (Fin 7), ci_swap = None, ci_volume = None, ci_exitTickTs = None, ci_fxRate = None,
     ci_quoteCurrency = None, ci_actorId = None\<rparr>"

definition sampleTrading :: db where
  "sampleTrading = emptyDb\<lparr>accounts_t := [sampleAccount], positions_t := [samplePosition]\<rparr>"

lemma sample_rows: "accountRow 7 sampleTrading = Some sampleAccount" "positionRow 50 sampleTrading = Some samplePosition"
  by (simp_all add: sampleTrading_def accountRow_def positionRow_def findUnique_def sampleAccount_def samplePosition_def)

lemma sample_full: "fullClose sampleClose samplePosition"
  by (simp add: fullClose_def closeVolumeOf_def sampleClose_def samplePosition_def js_eval)

lemma sample_money: "money_input sampleClose"
  by (simp add: money_input_def sampleClose_def js_eval)

lemma sample_close_runs: "\<exists>res d1. closeTx sampleClose 0 sampleTrading = Inr (res, d1) \<and> cr_changed res \<and> cr_accountId res = 7"
proof -
  have "updateMany (\<lambda>p. pos_id p = pos_id samplePosition \<and> pos_status p = POS_OPEN) f (positions_t sampleTrading)
      = (1, [f samplePosition])" for f
    by (simp add: updateMany_def sampleTrading_def samplePosition_def)
  moreover have "pos_id (closedPositionRow sampleClose samplePosition t samplePosition) = 50" for t
    by (simp add: closedPositionRow_def samplePosition_def)
  ultimately show ?thesis
    using sample_rows by (simp add: closeTx_def sampleClose_def [THEN arg_cong [where f = ci_positionId]]
        sampleClose_def [THEN arg_cong [where f = ci_closedAt]] samplePosition_def [THEN arg_cong [where f = pos_accountId]]
        samplePosition_def [THEN arg_cong [where f = pos_status]] samplePosition_def [THEN arg_cong [where f = pos_id]]
        accountRow_def positionRow_def findUnique_def updateAccount_def Let_def)
qed

theorem close_is_idempotent_witness:
  "\<exists>res d1 res2. closeTx sampleClose 0 sampleTrading = Inr (res, d1) \<and> cr_changed res
    \<and> closeTx (sampleClose\<lparr>ci_closePrice := Fin 2, ci_closeReason := CR_STOP_LOSS\<rparr>) 9 d1 = Inr (res2, d1) \<and> \<not> cr_changed res2"
proof -
  obtain res d1 where e: "closeTx sampleClose 0 sampleTrading = Inr (res, d1)" "cr_changed res"
    using sample_close_runs by blast
  have "positionRow (ci_positionId sampleClose) sampleTrading = Some samplePosition"
    using sample_rows by (simp add: sampleClose_def)
  from close_is_idempotent [OF e this sample_full, of "sampleClose\<lparr>ci_closePrice := Fin 2, ci_closeReason := CR_STOP_LOSS\<rparr>" 9] e
  show ?thesis by auto
qed

theorem close_exact_in_cents_witness:
  "\<exists>res d1 a1. closeTx sampleClose 0 sampleTrading = Inr (res, d1) \<and> accountRow 7 d1 = Some a1 \<and> acc_tradeCount a1 = 1"
proof -
  obtain res d1 where e: "closeTx sampleClose 0 sampleTrading = Inr (res, d1)" "cr_changed res" "cr_accountId res = 7"
    using sample_close_runs by blast
  have m: "acc_balance sampleAccount = cents 1000000" "acc_realizedPnl sampleAccount = cents 0" "acc_tradeCount sampleAccount = 0"
    using cents_whole [of 10000] by (simp_all add: sampleAccount_def)
  have row: "accountRow (cr_accountId res) sampleTrading = Some sampleAccount" using e(3) sample_rows by simp
  from close_exact_in_cents [OF e(1,2) sample_money row m(1) _ m(2)] m(3) e show ?thesis by auto
qed

section \<open>Evaluation keeps the books\<close>

lemma issueCertificate_ledger: "issueCertificate t u a p am d = Inr (c, d') \<Longrightarrow> ledger_t d' = ledger_t d \<and> trades_t d' = trades_t d"
  by (auto simp: issueCertificate_def Let_def split: sum.splits option.splits)

lemma advance_ledger: "advanceToNextPhase k u s now d = Inr (x, d') \<Longrightarrow> ledger_t d' = ledger_t d \<and> trades_t d' = trades_t d"
  by (auto simp: advanceToNextPhase_def Let_def split: option.splits prod.splits if_splits sum.splits dest: issueCertificate_ledger)

lemma noticed_ledger [simp]: "ledger_t (noticed p actor d) = ledger_t d" "trades_t (noticed p actor d) = trades_t d"
  by (simp_all add: noticed_def)

lemma updateAccount_other_tables [simp]: "ledger_t (updateAccount i f d) = ledger_t d" "trades_t (updateAccount i f d) = trades_t d"
  "positions_t (updateAccount i f d) = positions_t d" "orders_t (updateAccount i f d) = orders_t d"
  by (simp_all add: updateAccount_def)

text \<open>What committing a plan does to the row of an account: at most the money columns of the plan.\<close>

lemma evaluateCommit_row:
  assumes "evaluateCommit p actor d = (res, d')" "accountRow i d = Some a"
  shows "ledger_t d' = ledger_t d \<and> trades_t d' = trades_t d \<and> (\<exists>a'. accountRow i d' = Some a' \<and> acc_tradeCount a' = acc_tradeCount a
    \<and> (acc_balance a' = acc_balance a \<or> i = acc_id (ev_account p) \<and> acc_balance a' = ev_balance p))"
proof -
  let ?k = "acc_id (ev_account p)"
  have ai: "acc_id a = i" using assms(2) by (rule accountRow_id)
  have upd: "accountRow i (updateAccount ?k (numericFields p) d) = Some (if i = ?k then numericFields p a else a)"
    using assms(2) by (simp add: accountRow_update)
  have nf: "acc_tradeCount (numericFields p a) = acc_tradeCount a" "acc_balance (numericFields p a) = ev_balance p"
    "acc_tradeCount (transitionRow p a) = acc_tradeCount a" "acc_balance (transitionRow p a) = ev_balance p"
    by (simp_all add: numericFields_def transitionRow_def Let_def)
  have money: ?thesis if "d' = updateAccount ?k (numericFields p) d" using that upd nf by auto
  have nrow: "accountRow i (noticed p actor d) = Some (if claimedBy p a then transitionRow p a else a)"
    using find_map_cond [of acc_id "transitionRow p" i ?k "\<lambda>r. acc_status r = acc_status (ev_account p)" "accounts_t d"] assms(2)
    by (simp add: accountRow_def findUnique_def claimedBy_def)
  have claim: "i = ?k" if "claimedBy p a" using that ai by (simp add: claimedBy_def)
  show ?thesis
  proof (cases "nextStatus (ev_decision p) = acc_status (ev_account p)")
    case True
    then show ?thesis using assms(1) by (intro money) (simp add: evaluateCommit_def findAccountOrThrow_def)
  next
    case False
    show ?thesis
    proof (cases "transitionTx p actor d")
      case (Inl e)
      then have "d' = d" using assms(1) False by (simp add: evaluateCommit_def)
      then show ?thesis using assms(2) by simp
    next
      case (Inr xd)
      then have tx: "transitionTx p actor d = Inr (fst xd, d')"
        using assms(1) False by (cases xd) (simp add: evaluateCommit_def findAccountOrThrow_def)
      then show ?thesis
      proof (cases rule: transitionTx_cases)
        case lost
        then show ?thesis by (intro money)
      next
        case failed
        then show ?thesis using nrow nf claim by auto
      next
        case (passed c d2)
        have acc2: "accounts_t d2 = accounts_t (noticed p actor d)" using issueCertificate_Inr(3) [OF passed(3)] .
        obtain new where "accounts_t d' = accounts_t d2 @ new" using advance_accounts [OF passed(4)] by blast
        then have "accountRow i d' = Some (if claimedBy p a then transitionRow p a else a)"
          using accountRow_append [OF nrow] acc2 by simp
        moreover have "ledger_t d' = ledger_t d \<and> trades_t d' = trades_t d"
          using advance_ledger [OF passed(4)] issueCertificate_ledger [OF passed(3)] by simp
        ultimately show ?thesis using nf claim by auto
      qed
    qed
  qed
qed

lemma evaluateAccount_books:
  assumes "evaluateAccount j actor now d = (res, d')" "books i base ns d" "money_ok (base + sum_list ns)"
  shows "books i base ns d'"
proof (cases "evaluateRead j now d")
  case (Inl e)
  then show ?thesis using assms(1,2) by (simp add: evaluateAccount_def)
next
  case (Inr pd)
  obtain p d1 where pd: "pd = (p, d1)" by fastforce
  obtain a where a: "accountRow i d = Some a" "acc_balance a = cents (base + sum_list ns)"
    "map led_amount (accountEntries i d) = map cents ns"
    "acc_tradeCount a > 0 \<or> (\<forall>rt. ag_closed (aggregateTrades i rt d) = 0)"
    using assms(2) unfolding books_def by blast
  obtain row where row: "accountRow j d = Some row"
    using Inr by (auto simp: evaluateRead_def split: option.splits)
  define tx where "tx = tpl_dailyLossResetTime (rules (acc_snapshot row))"
  have e: "p = evaluatePlan (fst (ensureAggregatesBackfilled row tx d)) now (snd (ensureAggregatesBackfilled row tx d))"
    "d1 = snd (ensureAggregatesBackfilled row tx d)"
    using Inr pd row by (auto simp: evaluateRead_def tx_def split_beta)
  have rid: "acc_id row = j" using row by (rule accountRow_id)
  have same: "d1 = d \<and> p = evaluatePlan row now d" if "i = j"
  proof -
    have "row = a" using that row a(1) by simp
    then have "ensureAggregatesBackfilled row tx d = (row, d)"
      using a(4) that rid by (auto simp: ensureAggregatesBackfilled_def)
    then show ?thesis using e by simp
  qed
  have ens: "ledger_t d1 = ledger_t d \<and> trades_t d1 = trades_t d"
    unfolding e(2) ensureAggregatesBackfilled_def Let_def by simp
  have row1: "accountRow i d1 = Some a"
  proof (cases "i = j")
    case True
    then show ?thesis using same a(1) by simp
  next
    case False
    then show ?thesis unfolding e(2) ensureAggregatesBackfilled_def Let_def
      using a(1) rid by (simp add: accountRow_other)
  qed
  have c: "evaluateCommit p actor d1 = (res, d')" using assms(1) Inr pd by (simp add: evaluateAccount_def)
  have idp: "acc_id (ev_account p) = j" using e(1) rid by (simp add: evaluatePlan_def)
  have bal: "ev_balance p = acc_balance a" if "i = j"
    using same [OF that] that row a(1,2) by (simp add: evaluatePlan_def roundCurrency_cents [OF assms(3)])
  obtain a' where a': "accountRow i d' = Some a'" "acc_tradeCount a' = acc_tradeCount a" "acc_balance a' = acc_balance a"
    and l: "ledger_t d' = ledger_t d1" "trades_t d' = trades_t d1"
    using evaluateCommit_row [OF c row1] idp bal by auto
  have "ag_closed (aggregateTrades i rt d') = ag_closed (aggregateTrades i rt d)" for rt
    using l ens by (simp add: aggregateTrades_def liveTrades_def Let_def)
  then show ?thesis unfolding books_def using a' a(2-4) l ens by (intro exI [of _ a']) (simp add: accountEntries_def)
qed

lemma closeTx_keeps_books:
  assumes "closeTx input now d = Inr (res, d1)" "cr_changed res" "money_input input" "books i base ns d"
    and "\<bar>base + sum_list ns\<bar> \<le> 2 ^ 46"
  shows "\<exists>ms. books i base (ns @ ms) d1 \<and> \<bar>sum_list ms\<bar> \<le> 2 ^ 36"
proof -
  obtain a where a: "accountRow i d = Some a" "acc_balance a = cents (base + sum_list ns)"
    "map led_amount (accountEntries i d) = map cents ns"
    "acc_tradeCount a > 0 \<or> (\<forall>rt. ag_closed (aggregateTrades i rt d) = 0)"
    using assms(4) unfolding books_def by blast
  obtain c where c: "accountRow (cr_accountId res) d = Some c"
    by (rule closeTx_changed [OF assms(1,2)]) (metis that)
  obtain n ms a1 entries where e: "ledger_t d1 = ledger_t d @ entries" "map led_amount entries = map cents ms" "sum_list ms = n"
    "\<bar>n\<bar> \<le> 2 ^ 36" "\<forall>e\<in>set entries. led_accountId e = Some (cr_accountId res)"
    "accountRow (cr_accountId res) d1 = Some a1" "acc_balance a1 = roundCurrency (acc_balance c + cents n)"
    "acc_tradeCount a1 = acc_tradeCount c + 1"
    using closeTx_books [OF assms(1-3) c] by metis
  show ?thesis
  proof (cases "i = cr_accountId res")
    case True
    have "money_ok (base + sum_list ns)" "money_ok n" using assms(5) e(4) by (auto simp: money_ok_def)
    then have "acc_balance a1 = cents (base + sum_list (ns @ ms))"
      using e(3,7) a(2) True c a(1) by (simp add: roundCurrency_add add.assoc)
    moreover have "accountEntries i d1 = accountEntries i d @ entries"
      using e(1,5) True by (simp add: accountEntries_def)
    ultimately have "books i base (ns @ ms) d1"
      unfolding books_def using e(2,6,8) True a(3) by simp
    then show ?thesis using e(3,4) by blast
  next
    case False
    have "accountEntries i d1 = accountEntries i d" using e(1,5) False by (auto simp: accountEntries_def filter_empty_conv)
    moreover have "accountRow i d1 = Some a \<and> (\<forall>rt. aggregateTrades i rt d1 = aggregateTrades i rt d)"
      using assms(1,2)
    proof (cases rule: closeTx_changed)
      case (1 p account closedAt)
      have ne: "acc_id account \<noteq> i" using False 1(6) accountRow_id [OF 1(3)] by simp
      have "accountRow i d1 = Some a"
        unfolding 1(5) using a(1) accountRow_other [of "closeAccountRow input p account closedAt" i "acc_id account"] ne
        by (simp add: accountRow_def)
      moreover have "trd_accountId (closeTradeRow input p closedAt (next_id d)) \<noteq> i"
        using False 1(6) by (simp add: closeTradeRow_def split_beta)
      then have "liveTrades i d1 = liveTrades i d" unfolding 1(5) by (simp add: liveTrades_def)
      ultimately show ?thesis by (simp add: aggregateTrades_def)
    qed
    ultimately have "books i base (ns @ []) d1" unfolding books_def using a by simp
    then show ?thesis by (intro exI [of _ "[]"]) simp
  qed
qed

lemma recordPositionClose_books:
  assumes "books i base ns d" "\<bar>base + sum_list ns\<bar> \<le> 2 ^ 46" "money_input input"
  shows "\<exists>ms. books i base (ns @ ms) (snd (recordPositionClose input now d)) \<and> \<bar>sum_list ms\<bar> \<le> 2 ^ 36"
proof (cases "closeTx input now d")
  case (Inl e)
  then show ?thesis using assms(1) by (intro exI [of _ "[]"]) (simp add: recordPositionClose_def)
next
  case (Inr rd)
  obtain res d1 where rd: "rd = (res, d1)" by fastforce
  show ?thesis
  proof (cases "cr_changed res")
    case False
    have "d1 = d" using Inr rd False
      by (auto simp: closeTx_def Let_def split_beta split: option.splits if_splits)
    then have "snd (recordPositionClose input now d) = d"
      using Inr rd False by (simp add: recordPositionClose_def findAccountOrThrow_def split: sum.splits option.splits)
    then show ?thesis using assms(1) by (intro exI [of _ "[]"]) simp
  next
    case True
    obtain ms where ms: "books i base (ns @ ms) d1" "\<bar>sum_list ms\<bar> \<le> 2 ^ 36"
      using closeTx_keeps_books [OF _ True assms(3,1,2), of now] Inr rd by auto
    obtain r2 d2 where ev: "evaluateAccount (cr_accountId res) (ci_actorId input) now d1 = (r2, d2)" by fastforce
    have "money_ok (base + sum_list (ns @ ms))" using assms(2) ms(2) by (simp add: money_ok_def abs_le_iff)
    from evaluateAccount_books [OF ev ms(1) this] have "books i base (ns @ ms) d2" .
    moreover have "snd (recordPositionClose input now d) = d2"
      using Inr rd True ev by (simp add: recordPositionClose_def split: sum.splits)
    ultimately show ?thesis using ms(2) by auto
  qed
qed

text \<open>A sequence of close requests, each with the evaluation that follows it; failed ones included.\<close>

definition runCloses :: "(CloseInput \<times> int) list \<Rightarrow> db \<Rightarrow> db" where
  "runCloses reqs d = fold (\<lambda>(input, now) d. snd (recordPositionClose input now d)) reqs d"

lemma runCloses_books:
  assumes "books i base ns d" "\<bar>base + sum_list ns\<bar> + int (length reqs) * 2 ^ 36 \<le> 2 ^ 46" "\<forall>(input, now)\<in>set reqs. money_input input"
  shows "\<exists>ms. books i base (ns @ ms) (runCloses reqs d)"
  using assms
proof (induction reqs arbitrary: d ns)
  case Nil
  then show ?case by (intro exI [of _ "[]"]) (simp add: runCloses_def)
next
  case (Cons q reqs)
  obtain input now where q: "q = (input, now)" by fastforce
  have b: "\<bar>base + sum_list ns\<bar> \<le> 2 ^ 46" using Cons.prems(2) by simp
  obtain m where m: "books i base (ns @ m) (snd (recordPositionClose input now d))" "\<bar>sum_list m\<bar> \<le> 2 ^ 36"
    using recordPositionClose_books [OF Cons.prems(1) b, of input now] Cons.prems(3) q by auto
  have "\<bar>base + sum_list (ns @ m)\<bar> + int (length reqs) * 2 ^ 36 \<le> 2 ^ 46"
  proof -
    have "int (length (q # reqs)) * (2 ^ 36 :: int) = int (length reqs) * 2 ^ 36 + 2 ^ 36" by (simp add: algebra_simps)
    moreover have "\<bar>base + sum_list (ns @ m)\<bar> \<le> \<bar>base + sum_list ns\<bar> + \<bar>sum_list m\<bar>"
      using abs_triangle_ineq [of "base + sum_list ns" "sum_list m"] by (simp add: add.assoc)
    ultimately show ?thesis using Cons.prems(2) m(2) by linarith
  qed
  from Cons.IH [OF m(1) this] Cons.prems(3) show ?case by (auto simp: runCloses_def q)
qed

text \<open>
  C1: The books balance: after any sequence of close requests (on any accounts, repeated, failing, each
  followed by its evaluation, which may fail or pass accounts) the balance of an account is still, to
  the cent, its opening balance plus the sum of its ledger entries.
\<close>

theorem ledger_balances:
  assumes "accountRow i d = Some a" "acc_balance a = cents base" "accountEntries i d = []"
    and "acc_tradeCount a > 0 \<or> (\<forall>rt. ag_closed (aggregateTrades i rt d) = 0)"
    and "\<bar>base\<bar> \<le> 2 ^ 45" "length reqs \<le> 500" "\<forall>(input, now)\<in>set reqs. money_input input"
  shows "\<exists>a' ms. accountRow i (runCloses reqs d) = Some a' \<and> map led_amount (accountEntries i (runCloses reqs d)) = map cents ms
    \<and> acc_balance a' = cents (base + sum_list ms)"
proof -
  have b: "books i base [] d" using assms(1-4) by (simp add: books_def)
  have "\<bar>base + sum_list []\<bar> + int (length reqs) * 2 ^ 36 \<le> 2 ^ 46"
  proof -
    have "int (length reqs) \<le> 500" using assms(6) by simp
    then show ?thesis using assms(5) by simp
  qed
  from runCloses_books [OF b this assms(7)] show ?thesis by (auto simp: books_def)
qed

theorem ledger_balances_witness:
  "\<exists>a' ms. accountRow 7 (runCloses [(sampleClose, 0), (sampleClose, 5)] sampleTrading) = Some a'
    \<and> acc_balance a' = cents (1000000 + sum_list ms)"
proof -
  have h: "acc_balance sampleAccount = cents 1000000" "accountEntries 7 sampleTrading = []"
    using cents_whole [of 10000] by (simp_all add: sampleAccount_def accountEntries_def sampleTrading_def emptyDb_def)
  have t: "\<forall>rt. ag_closed (aggregateTrades 7 rt sampleTrading) = 0"
    by (simp add: aggregateTrades_def liveTrades_def sampleTrading_def emptyDb_def Let_def)
  from ledger_balances [OF sample_rows(1) h, of "[(sampleClose, 0), (sampleClose, 5)]"] t sample_money show ?thesis by auto
qed

section \<open>Fills\<close>

text \<open>Ids come from a counter: every stored position has one below it.\<close>

definition ids_fresh :: "db \<Rightarrow> bool" where
  "ids_fresh d \<longleftrightarrow> (\<forall>p\<in>set (positions_t d). pos_id p < next_id d)"

lemma find_append_fresh: "(\<And>x. x \<in> set xs \<Longrightarrow> \<not> P x) \<Longrightarrow> P y \<Longrightarrow> List.find P (xs @ [y]) = Some y"
  by (induction xs) auto

lemma openTx_new:
  assumes "openTx input now d = Inr (r, d1)" "oi_existingOrderId input = None"
  obtains account where "accountRow (oi_accountId input) d = Some account" "acc_status account \<in> {ACTIVE, FUNDED}"
    "orderByClientId (oi_accountId input) (oi_clientOrderId input) d = None"
    "or_position r = Some (newPositionRow (next_id d) input now)"
    "or_order r = newOrderRow (next_id d + 1) input (next_id d) now" "\<not> or_duplicate r"
    "positions_t d1 = positions_t d @ [newPositionRow (next_id d) input now]"
    "orders_t d1 = orders_t d @ [newOrderRow (next_id d + 1) input (next_id d) now]"
    "accountRow (oi_accountId input) d1 =
       Some (account\<lparr>acc_marginUsed := roundCurrency (acc_marginUsed account + oi_marginUsed input)\<rparr>)"
    "trades_t d1 = trades_t d" "ledger_t d1 = ledger_t d"
proof -
  obtain account where a: "accountRow (oi_accountId input) d = Some account" "acc_status account \<in> {ACTIVE, FUNDED}"
    using assms(1) by (auto simp: openTx_def split: option.splits if_splits)
  have n: "orderByClientId (oi_accountId input) (oi_clientOrderId input) d = None"
    using assms a by (auto simp: openTx_def orderByClientId_def Let_def split: if_splits)
  let ?d0 = "d\<lparr>positions_t := positions_t d @ [newPositionRow (next_id d) input now],
    orders_t := orders_t d @ [newOrderRow (next_id d + 1) input (next_id d) now], next_id := next_id d + 2\<rparr>"
  let ?f = "\<lambda>r. r\<lparr>acc_marginUsed := roundCurrency (acc_marginUsed account + oi_marginUsed input)\<rparr>"
  have pid: "pos_id (newPositionRow i input now) = i" for i by (simp add: newPositionRow_def)
  have e: "d1 = updateAccount (oi_accountId input) ?f ?d0" "\<not> or_duplicate r"
    "or_position r = Some (newPositionRow (next_id d) input now)"
    "or_order r = newOrderRow (next_id d + 1) input (next_id d) now"
    using assms a n by (auto simp: openTx_def orderByClientId_def Let_def pid)
  have "accountRow (oi_accountId input) ?d0 = Some account" using a(1) by (simp add: accountRow_def)
  then have "accountRow (oi_accountId input) d1 = Some (?f account)"
    unfolding e(1) by (rule accountRow_map_update) simp
  with a n e show thesis by (intro that) (simp_all add: updateAccount_def)
qed

text \<open>
  An order that was filled is filled once: a retry with the same client order id on the same account,
  whatever else it asks for, reports a duplicate with the stored order and the position of the first
  fill, and changes nothing (no second position, no margin).
\<close>

theorem open_is_idempotent:
  assumes "openPosition input now d = Inr (r, d1)" "oi_existingOrderId input = None" "\<not> or_duplicate r" "ids_fresh d"
    and "oi_accountId retry = oi_accountId input" "oi_clientOrderId retry = oi_clientOrderId input" "oi_existingOrderId retry = None"
  shows "openPosition retry later d1 = Inr (r\<lparr>or_duplicate := True\<rparr>, d1)"
proof -
  have tx: "openTx input now d = Inr (r, d1)"
    using assms(1,3) by (auto simp: openPosition_def split: sum.splits if_splits option.splits)
  show ?thesis using tx assms(2)
  proof (cases rule: openTx_new)
    case (1 account)
    let ?o = "newOrderRow (next_id d + 1) input (next_id d) now"
    let ?p = "newPositionRow (next_id d) input now"
    have o: "orderByClientId (oi_accountId input) (oi_clientOrderId input) d1 = Some ?o"
      using 1(3) unfolding orderByClientId_def findUnique_def 1(8)
      by (simp add: find_append newOrderRow_def)
    have pid: "pos_id ?p = next_id d" by (simp add: newPositionRow_def)
    have p: "positionRow (next_id d) d1 = Some ?p"
      unfolding positionRow_def findUnique_def 1(7) using assms(4) pid by (intro find_append_fresh) (auto simp: ids_fresh_def)
    have "openTx retry later d1 = Inl (UniqueViolation ''clientOrderId'')"
      using 1(2,9) o by (auto simp: openTx_def assms(5-7) orderByClientId_def Let_def)
    moreover have "ord_positionId ?o = Some (next_id d)" by (simp add: newOrderRow_def)
    ultimately show ?thesis using o p 1(4-6) by (cases r) (simp add: openPosition_def assms(5,6))
  qed
qed

definition sampleOpen :: OpenInput where
  "sampleOpen = \<lparr>oi_accountId = 7, oi_symbol = ''EURUSD'', oi_side = BUY, oi_volume = Fin 1, oi_entryPrice = Fin 1,
     oi_stopLoss = None, oi_takeProfit = None, oi_marginUsed = Fin 10, oi_entryTickTs = None, oi_feedSource = None,
     oi_clientOrderId = ''c1'', oi_type = MARKET, oi_price = None, oi_existingOrderId = None\<rparr>"

lemma sample_open_runs: "\<exists>r d1. openPosition sampleOpen 0 sampleTrading = Inr (r, d1) \<and> \<not> or_duplicate r"
  using sample_rows(1)
  by (simp add: openPosition_def openTx_def sampleOpen_def Let_def orderByClientId_def findUnique_def
      sampleTrading_def emptyDb_def accountRow_def sampleAccount_def)

theorem open_is_idempotent_witness:
  "\<exists>r d1. openPosition sampleOpen 0 sampleTrading = Inr (r, d1)
    \<and> openPosition (sampleOpen\<lparr>oi_volume := Fin 9\<rparr>) 5 d1 = Inr (r\<lparr>or_duplicate := True\<rparr>, d1)"
proof -
  obtain r d1 where e: "openPosition sampleOpen 0 sampleTrading = Inr (r, d1)" "\<not> or_duplicate r"
    using sample_open_runs by blast
  have f: "ids_fresh sampleTrading" by (simp add: ids_fresh_def sampleTrading_def samplePosition_def emptyDb_def)
  from open_is_idempotent [OF e(1) _ e(2) f, of "sampleOpen\<lparr>oi_volume := Fin 9\<rparr>" 5] e show ?thesis by (simp add: sampleOpen_def)
qed

section \<open>Margin\<close>

lemma share_le:
  assumes "0 \<le> v" "v \<le> V" "0 < V" "0 \<le> m" "rnd m = Fin m"
  obtains x where "Fin m * (Fin v / Fin V) = Fin x" "0 \<le> x" "x \<le> m"
proof -
  have q: "0 \<le> v / V" "v / V \<le> 1" using assms(1-3) by simp_all
  have "rnd 0 \<le> rnd (v / V)" "rnd (v / V) \<le> rnd 1" using q by (simp_all only: rnd_mono)
  then obtain y where y: "rnd (v / V) = Fin y" "0 \<le> y" "y \<le> 1" by (cases "rnd (v / V)") auto
  have my: "0 \<le> m * y" "m * y \<le> m" using assms(4) y mult_left_le [of y m] by auto
  have "rnd 0 \<le> rnd (m * y)" "rnd (m * y) \<le> Fin m" using rnd_mono [OF my(1)] rnd_mono [OF my(2)] assms(5) by simp_all
  then obtain x where "rnd (m * y) = Fin x" "0 \<le> x" "x \<le> m" by (cases "rnd (m * y)") auto
  with that [of x] y(1) assms(3) show thesis by simp
qed

lemma marginReleased_cents:
  assumes "pos_marginUsed p = cents M" "0 \<le> M" "M \<le> 2 ^ 40"
    and "pos_volume p = Fin V" "0 < V" "closeVolumeOf input p = Fin v" "0 \<le> v" "v \<le> V"
  obtains R where "marginReleasedOf input p = cents R" "0 \<le> R" "R \<le> M" "fullClose input p \<Longrightarrow> R = M"
proof (cases "fullClose input p")
  case True
  with assms(1-3) that [of M] show thesis by (simp add: marginReleasedOf_def)
next
  case False
  have M: "money_ok M" using assms(2,3) by (simp add: money_ok_def)
  obtain m where m: "cents M = Fin m" "\<bar>m - of_int M / 100\<bar> \<le> 1 / 2000" using cents_near [OF M] by blast
  have "Fin 0 \<le> cents M" using M assms(2) by (simp add: cents_pos_iff)
  then have m0: "0 \<le> m" by (simp add: m(1))
  have "(of_int M :: rat) \<le> of_int (2 ^ 40)" using assms(3) by (simp only: of_int_le_iff)
  then have "(of_int M :: rat) \<le> 1099511627776" by simp
  then have "m \<le> 1099511627776" using m(2) by linarith
  then have mb: "m \<le> 2 ^ 40" by simp
  have "m = rnd_rat (of_int M / 100)" using m(1) by (simp add: cents_def rnd_def Let_def split: if_splits)
  then have "rnd m = Fin m" using m(1) by (simp add: cents_def rnd_def Let_def split: if_splits)
  then obtain x where x: "Fin m * (Fin v / Fin V) = Fin x" "0 \<le> x" "x \<le> m"
    using share_le [OF assms(7,8,5) m0] by blast
  have "\<bar>x\<bar> \<le> 2 ^ 40" using x mb by simp
  then obtain R where R: "money_ok R" "roundCurrency (Fin x) = cents R" by (rule roundCurrency_is_cents)
  have "roundCurrency (Fin 0) \<le> cents R" "cents R \<le> roundCurrency (Fin m)"
    using x(2,3) R(2) roundCurrency_mono [of "Fin 0" "Fin x"] roundCurrency_mono [of "Fin x" "Fin m"] by simp_all
  then have "cents 0 \<le> cents R" "cents R \<le> cents M"
    using roundCurrency_cents [of 0] roundCurrency_cents [OF M] m(1) by simp_all
  then have "0 \<le> R" "R \<le> M" using R(1) M cents_le_iff [of 0 R] cents_le_iff [of R M] by simp_all
  moreover have "marginReleasedOf input p = cents R"
    using False assms(1,4,6) m(1) x(1) R(2) by (simp add: marginReleasedOf_def)
  ultimately show thesis using that False by blast
qed

text \<open>
  A close, full or partial, releases the same margin from the position and from the account, to the
  cent: between nothing and all of the position's margin, all of it when the close is full. The margin
  the account reserves for its other positions is what it was.
\<close>

theorem close_releases_margin:
  assumes "closeTx input now d = Inr (res, d1)" "cr_changed res" "positionRow (ci_positionId input) d = Some p"
    and "accountRow (cr_accountId res) d = Some a" "acc_marginUsed a = cents A" "pos_marginUsed p = cents M"
    and "0 \<le> M" "M \<le> A" "A \<le> 2 ^ 40"
    and "pos_volume p = Fin V" "0 < V" "closeVolumeOf input p = Fin v" "0 \<le> v" "v \<le> V"
  shows "\<exists>R a1. 0 \<le> R \<and> R \<le> M \<and> (fullClose input p \<longrightarrow> R = M) \<and> pos_marginUsed (cr_position res) = cents (M - R)
    \<and> accountRow (cr_accountId res) d1 = Some a1 \<and> acc_marginUsed a1 = cents (A - R)"
  using assms(1,2)
proof (cases rule: closeTx_changed)
  case (1 q account closedAt)
  have q: "q = p" and account: "account = a" using 1(1,3,6) assms(3,4) by simp_all
  have ids: "pos_id p = ci_positionId input" "acc_id a = cr_accountId res"
    using positionRow_id [OF assms(3)] accountRow_id [OF assms(4)] by simp_all
  have "M \<le> 2 ^ 40" using assms(8,9) by simp
  then obtain R where R: "marginReleasedOf input p = cents R" "0 \<le> R" "R \<le> M" "fullClose input p \<Longrightarrow> R = M"
    using marginReleased_cents [OF assms(6,7) _ assms(10-14)] by blast
  have ok: "money_ok A" "money_ok M" "money_ok R" "money_ok (A - R)" using R(2,3) assms(7-9) by (auto simp: money_ok_def)
  define d0 where "d0 = d\<lparr>positions_t := snd (updateMany (\<lambda>r. pos_id r = pos_id p \<and> pos_status r = POS_OPEN)
       (closedPositionRow input p closedAt) (positions_t d)),
     trades_t := trades_t d @ [closeTradeRow input p closedAt (next_id d)], next_id := next_id d + 1,
     ledger_t := ledger_t d @ closeEntries input a (next_id d)\<rparr>"
  have d1: "d1 = updateAccount (acc_id a) (closeAccountRow input p a closedAt) d0"
    unfolding 1(5) d0_def account q ..
  have "accountRow (cr_accountId res) d0 = Some a" using assms(4) by (simp add: d0_def accountRow_def)
  then have row: "accountRow (cr_accountId res) d1 = Some (closeAccountRow input p a closedAt a)"
    unfolding d1 ids(2) by (rule accountRow_map_update) (simp add: closeAccountRow_def split_beta)
  have "acc_marginUsed (closeAccountRow input p a closedAt a) = roundCurrency (Math_max (lit 0) (cents A - cents R))"
    using R(1) assms(5) by (simp add: closeAccountRow_def split_beta)
  also have "\<dots> = cents (A - R)"
  proof -
    have "roundCurrency (cents A - cents R) = cents (A - R)" using ok by (simp add: roundCurrency_diff)
    moreover have "Math_max (lit 0) (cents A - cents R) = cents A - cents R"
    proof -
      obtain x y where xy: "cents A = Fin x" "cents R = Fin y" using ok(1,3) by (metis cents_near)
      have "0 \<le> x - y" using R(3) assms(8) cents_mono [of R A] by (simp add: xy)
      then have "rnd 0 \<le> rnd (x - y)" by (rule rnd_mono)
      then show ?thesis by (cases "rnd (x - y)") (auto simp: xy Math_max_def lit_def)
    qed
    ultimately show ?thesis by simp
  qed
  finally have acc: "acc_marginUsed (closeAccountRow input p a closedAt a) = cents (A - R)" .
  have "cr_position res = closedPositionRow input p closedAt p"
  proof -
    have "positionRow (pos_id p) d1 = Some (closedPositionRow input p closedAt p)"
      using find_map_cond [of pos_id "closedPositionRow input p closedAt" "ci_positionId input" "pos_id p"
          "\<lambda>r. pos_status r = POS_OPEN" "positions_t d"] 1(1,2) ids
      unfolding d1 d0_def q by (simp add: positionRow_def findUnique_def updateAccount_def updateMany_def)
    then show ?thesis using 1(8) q by simp
  qed
  then have "pos_marginUsed (cr_position res) = cents (M - R)"
    using R(1,4) assms(6) ok by (simp add: closedPositionRow_def roundCurrency_diff)
  with R row acc show ?thesis by blast
qed

theorem close_releases_margin_witness:
  "\<exists>res d1 a1. closeTx sampleClose 0 (emptyDb\<lparr>accounts_t := [sampleAccount\<lparr>acc_marginUsed := cents 900\<rparr>],
      positions_t := [samplePosition\<lparr>pos_marginUsed := cents 500\<rparr>]\<rparr>) = Inr (res, d1)
    \<and> accountRow 7 d1 = Some a1 \<and> acc_marginUsed a1 = cents 400 \<and> pos_marginUsed (cr_position res) = cents 0"
proof -
  let ?a = "sampleAccount\<lparr>acc_marginUsed := cents 900\<rparr>"
  let ?p = "samplePosition\<lparr>pos_marginUsed := cents 500\<rparr>"
  let ?d = "emptyDb\<lparr>accounts_t := [?a], positions_t := [?p]\<rparr>"
  have rows: "accountRow 7 ?d = Some ?a" "positionRow (ci_positionId sampleClose) ?d = Some ?p"
    by (simp_all add: accountRow_def positionRow_def findUnique_def sampleAccount_def samplePosition_def sampleClose_def)
  have p: "pos_id ?p = 50" "pos_status ?p = POS_OPEN" "pos_accountId ?p = 7" "pos_volume ?p = Fin 1" "pos_marginUsed ?p = cents 500"
    by (simp_all add: samplePosition_def)
  have cv: "closeVolumeOf sampleClose ?p = Fin 1"
    by (simp add: closeVolumeOf_def sampleClose_def samplePosition_def)
  have full: "fullClose sampleClose ?p" by (simp add: fullClose_def cv p(4) js_eval)
  have um: "updateMany (\<lambda>p. pos_id p = 50 \<and> pos_status p = POS_OPEN) f (positions_t ?d) = (1, [f ?p])" for f
    using p(1,2) by (simp add: updateMany_def)
  have pid: "pos_id (closedPositionRow sampleClose ?p t ?p) = 50" for t using p(1) by (simp add: closedPositionRow_def)
  obtain res d1 where e: "closeTx sampleClose 0 ?d = Inr (res, d1)" "cr_changed res" "cr_accountId res = 7"
    using rows um pid p(1-3) by (simp add: closeTx_def Let_def accountRow_def positionRow_def findUnique_def updateAccount_def)
  have row: "accountRow (cr_accountId res) ?d = Some ?a" using e(3) rows(1) by simp
  from close_releases_margin [OF e(1,2) rows(2) row _ p(5) _ _ _ p(4) _ cv, of 900] full e show ?thesis by auto
qed

end
