(* ===== verification/Fx.thy ===== *)
theory Fx
  imports TradingMath JsString
begin

text \<open>
  \<open>src/trading/fx.ts\<close>: the \<open>Converter\<close> from a quote currency to the account currency. Currency codes
  are upper-cased by \<open>toUpperCase\<close> before they are looked up.
\<close>

section \<open>The converter\<close>

datatype FxRateSource = FX_RATE_TABLE | SYSTEM_SETTING | ENV_FALLBACK | MANUAL_RATE

record Converter =
  accountCurrency :: string
  usdToAccount :: "number option"
  usdSource :: "FxRateSource option"
  mids :: "string \<rightharpoonup> number"

definition new_Converter :: "string \<Rightarrow> Converter" where
  "new_Converter cur = \<lparr>accountCurrency = cur, usdToAccount = None, usdSource = None, mids = Map.empty\<rparr>"

definition USD_EQUIVALENTS :: "string list" where
  "USD_EQUIVALENTS = [''USD'', ''USDT'', ''USDC'']"

definition setUsdRate :: "Converter \<Rightarrow> number \<Rightarrow> FxRateSource \<Rightarrow> Converter" where
  "setUsdRate c rate source =
     (if \<not> isFinite rate \<or> rate \<le> lit 0 then c
      else c\<lparr>usdToAccount := Some rate, usdSource := Some source\<rparr>)"

text \<open>\<open>null\<close> and \<open>0\<close> are both falsy; \<open>usdToAccount\<close> is tested for truth.\<close>

definition truthy_opt :: "number option \<Rightarrow> number option" where
  "truthy_opt x = (case x of Some r \<Rightarrow> if truthy r then Some r else None | None \<Rightarrow> None)"

definition updateMid :: "Converter \<Rightarrow> string \<Rightarrow> number \<Rightarrow> Converter" where
  "updateMid c symbol mid = (if isFinite mid \<and> mid > lit 0 then c\<lparr>mids := (mids c)(symbol \<mapsto> mid)\<rparr> else c)"

definition quoteToUsd :: "Converter \<Rightarrow> string \<Rightarrow> number option" where
  "quoteToUsd c quote =
     (let q = toUpperCase quote in
      if q \<in> set USD_EQUIVALENTS then Some (lit 1)
      else case truthy_opt (mids c (q @ ''USD'')) of
        Some direct \<Rightarrow> Some direct
      | None \<Rightarrow> (case truthy_opt (mids c (''USD'' @ q)) of
          Some inverted \<Rightarrow> Some (lit 1 / inverted)
        | None \<Rightarrow> None))"

definition fx_rate :: "Converter \<Rightarrow> string \<Rightarrow> number option" where
  "fx_rate c quote =
     (let q = toUpperCase quote in
      if q = accountCurrency c then Some (lit 1)
      else case truthy_opt (usdToAccount c) of
        None \<Rightarrow> None
      | Some usd \<Rightarrow> (case quoteToUsd c q of None \<Rightarrow> None | Some toUsd \<Rightarrow> Some (toUsd * usd)))"

text \<open>\<open>toAccountCurrency\<close> throws \<open>NoFxPathError\<close> when there is no rate.\<close>

definition toAccountCurrency :: "Converter \<Rightarrow> number \<Rightarrow> string \<Rightarrow> RejectCode + number \<times> number" where
  "toAccountCurrency c amountInQuote quoteCurrency =
     (case fx_rate c quoteCurrency of
        None \<Rightarrow> Inl NO_FX_PATH
      | Some rate \<Rightarrow> Inr (roundCurrency (amountInQuote * rate), rate))"

text \<open>
  \<open>loadUsdEtbRate\<close>: the latest \<open>FxRate\<close> row, else the \<open>fx.usd_etb\<close> setting, else the environment,
  else 125. The three sources are arguments, already read; \<open>NaN\<close> is the failed \<open>Number(...)\<close>.
\<close>

definition loadUsdEtbRate :: "number option \<Rightarrow> number \<Rightarrow> number \<Rightarrow> number \<times> FxRateSource" where
  "loadUsdEtbRate row settingRate fallback =
     (case row of
        Some r \<Rightarrow> if r > lit 0 then (r, FX_RATE_TABLE)
                  else if isFinite settingRate \<and> settingRate > lit 0 then (settingRate, SYSTEM_SETTING)
                  else (if isFinite fallback \<and> fallback > lit 0 then fallback else lit 125, ENV_FALLBACK)
      | None \<Rightarrow> if isFinite settingRate \<and> settingRate > lit 0 then (settingRate, SYSTEM_SETTING)
                  else (if isFinite fallback \<and> fallback > lit 0 then fallback else lit 125, ENV_FALLBACK))"

section \<open>Well-formed converters\<close>

definition positive_number :: "number \<Rightarrow> bool" where
  "positive_number x \<longleftrightarrow> isFinite x \<and> Fin 0 < x"

definition converter_ok :: "Converter \<Rightarrow> bool" where
  "converter_ok c \<longleftrightarrow> (\<forall>r. usdToAccount c = Some r \<longrightarrow> positive_number r)
     \<and> (\<forall>s m. mids c s = Some m \<longrightarrow> positive_number m)"

lemma converter_ok_new [intro]: "converter_ok (new_Converter cur)"
  by (simp add: converter_ok_def new_Converter_def)

lemma converter_ok_setUsdRate [intro]: "converter_ok c \<Longrightarrow> converter_ok (setUsdRate c r src)"
  by (cases r) (auto simp: converter_ok_def setUsdRate_def positive_number_def)

lemma converter_ok_updateMid [intro]: "converter_ok c \<Longrightarrow> converter_ok (updateMid c s m)"
  by (auto simp: converter_ok_def updateMid_def positive_number_def)

lemma positive_number_truthy: "positive_number m \<Longrightarrow> truthy_opt (Some m) = Some m"
  by (auto simp: truthy_opt_def truthy_def positive_number_def isFinite_iff)

lemma positive_number_le: "positive_number m \<Longrightarrow> Fin 0 \<le> m"
  by (simp add: positive_number_def number_less_imp_le)

lemma positive_number_inverse: "positive_number m \<Longrightarrow> Fin 0 \<le> lit 1 / m"
  by (auto simp: positive_number_def isFinite_iff)

lemma converter_ok_mid: "converter_ok c \<Longrightarrow> truthy_opt (mids c s) = Some m \<Longrightarrow> positive_number m"
  by (auto simp: converter_ok_def truthy_opt_def split: option.splits if_splits)

lemma quoteToUsd_nonneg: "converter_ok c \<Longrightarrow> quoteToUsd c q = Some r \<Longrightarrow> Fin 0 \<le> r"
  by (auto simp: quoteToUsd_def Let_def split: option.splits if_splits
      dest: converter_ok_mid intro: positive_number_le positive_number_inverse [unfolded lit_numeral])

section \<open>Properties\<close>

text \<open>
  In every converter built by the code (rates set through \<open>setUsdRate\<close>, mids through
  \<open>updateMid\<close>), a conversion rate is never negative and never NaN, so a conversion cannot turn a
  loss into a gain.
\<close>

theorem fx_rate_nonneg:
  assumes "converter_ok c" and "fx_rate c quote = Some r" and "Fin 0 \<le> x" and "isFinite x" and "isFinite r"
  shows "Fin 0 \<le> r \<and> (\<exists>a. toAccountCurrency c x quote = Inr (a, r) \<and> Fin 0 \<le> a)
    \<and> (\<exists>a. toAccountCurrency c (- x) quote = Inr (a, r) \<and> a \<le> Fin 0)"
proof -
  have r: "Fin 0 \<le> r"
  proof (cases "toUpperCase quote = accountCurrency c")
    case True
    then show ?thesis using assms(2) by (auto simp: fx_rate_def)
  next
    case False
    then obtain usd toUsd where u: "usdToAccount c = Some usd" "quoteToUsd c (toUpperCase quote) = Some toUsd"
      and eq: "r = toUsd * usd"
      using assms(2) by (auto simp: fx_rate_def Let_def truthy_opt_def split: option.splits if_splits)
    have "positive_number usd" using assms(1) u(1) by (simp add: converter_ok_def)
    moreover have "Fin 0 \<le> toUsd" using quoteToUsd_nonneg [OF assms(1) u(2)] .
    ultimately show ?thesis unfolding eq by (auto simp: positive_number_def isFinite_iff number_mult_nonneg)
  qed
  obtain a b where ab: "x = Fin a" "r = Fin b" "0 \<le> a" "0 \<le> b" using assms(3,4,5) r by (auto simp: isFinite_iff)
  have "Fin 0 \<le> roundCurrency (x * r)" using ab by (simp add: roundCurrency_sign)
  moreover have "roundCurrency (- x * r) \<le> Fin 0"
    using roundCurrency_mono [of "- x * r" "Fin 0"] ab by (simp add: roundCurrency_nonneg roundAbs_0)
  ultimately show ?thesis using r assms(2) by (simp add: toAccountCurrency_def)
qed

theorem fx_rate_nonneg_witness:
  "toAccountCurrency (setUsdRate (new_Converter ''ETB'') (Fin 125) MANUAL_RATE) (Fin 2) ''usd'' = Inr (Fin 250, Fin 125)
   \<and> Fin 0 \<le> Fin 125"
proof -
  let ?c = "setUsdRate (new_Converter ''ETB'') (Fin 125) MANUAL_RATE"
  have c: "converter_ok ?c" by blast
  have up: "toUpperCase ''usd'' = ''USD''" "toUpperCase ''USD'' = ''USD''" by code_simp+
  have r: "fx_rate ?c ''usd'' = Some (Fin 125)"
    by (simp add: fx_rate_def setUsdRate_def new_Converter_def up quoteToUsd_def USD_EQUIVALENTS_def
        truthy_opt_def truthy_def rnd_def Let_def)
  from fx_rate_nonneg [OF c r, of "Fin 2"] r show ?thesis
    by (simp add: toAccountCurrency_def roundCurrency_def)
qed

end
