(* ===== verification/Sessions.thy ===== *)
theory Sessions
  imports Clock
begin

text \<open>
  \<open>src/trading/sessions.ts\<close>: the FX week in New York wall time. The zone data of \<open>Intl\<close> is the
  argument \<open>zone\<close>, the UTC offset of New York (milliseconds) at an instant; \<open>ny_zone\<close> states what
  the IANA rule for America/New_York provides. A calendar date is its day number.
\<close>

definition WEEK_OPEN_CLOSE :: int where "WEEK_OPEN_CLOSE = 17 * 60"
definition WEEKEND_CUTOFF :: int where "WEEKEND_CUTOFF = 16 * 60 + 45"
definition ROLLOVER_CUTOFF :: int where "ROLLOVER_CUTOFF = 16 * 60 + 55"

record ZonedParts =
  z_date :: int
  z_hour :: int
  z_minute :: int
  z_second :: int
  z_weekday :: int

definition newYorkParts :: "(int \<Rightarrow> int) \<Rightarrow> int \<Rightarrow> ZonedParts" where
  "newYorkParts zone ms =
     (let s = (ms + zone ms) div 1000; d = s div 86400 in
      \<lparr>z_date = d, z_hour = s div 3600 mod 24, z_minute = s div 60 mod 60, z_second = s mod 60,
       z_weekday = weekdayOf d\<rparr>)"

definition offsetAt :: "(int \<Rightarrow> int) \<Rightarrow> int \<Rightarrow> int" where
  "offsetAt zone ms =
     (let p = newYorkParts zone ms in
      dateUTC (z_date p) (z_hour p) (z_minute p) + z_second p * 1000 - ms div 1000 * 1000)"

definition newYorkWallTime :: "(int \<Rightarrow> int) \<Rightarrow> int \<Rightarrow> int \<Rightarrow> int \<Rightarrow> int" where
  "newYorkWallTime zone d hour minute =
     (let wall = dateUTC d hour minute; t = wall - offsetAt zone wall in wall - offsetAt zone t)"

definition addDays :: "ZonedParts \<Rightarrow> int \<Rightarrow> int" where
  "addDays p days = utcDate (z_date p * DAY_MS + days * DAY_MS)"

definition minutesOf :: "ZonedParts \<Rightarrow> int" where
  "minutesOf p = z_hour p * 60 + z_minute p"

definition isWeekendClosed :: "(int \<Rightarrow> int) \<Rightarrow> int \<Rightarrow> bool" where
  "isWeekendClosed zone now =
     (let p = newYorkParts zone now; m = minutesOf p in
      (z_weekday p = 5 \<and> m \<ge> WEEK_OPEN_CLOSE) \<or> z_weekday p = 6 \<or> (z_weekday p = 0 \<and> m < WEEK_OPEN_CLOSE))"

definition weekendCutoff :: "(int \<Rightarrow> int) \<Rightarrow> int \<Rightarrow> int" where
  "weekendCutoff zone now =
     (let p = newYorkParts zone now; m = minutesOf p;
          delta = (if z_weekday p = 6 then - 1
                   else if z_weekday p = 0 then (if m < WEEK_OPEN_CLOSE then - 2 else 5)
                   else 5 - z_weekday p)
      in newYorkWallTime zone (addDays p delta) (WEEKEND_CUTOFF div 60) (WEEKEND_CUTOFF mod 60))"

definition weekendReopen :: "(int \<Rightarrow> int) \<Rightarrow> int \<Rightarrow> int" where
  "weekendReopen zone now =
     (let friday = newYorkParts zone (weekendCutoff zone now)
      in newYorkWallTime zone (addDays friday 2) (WEEK_OPEN_CLOSE div 60) (WEEK_OPEN_CLOSE mod 60))"

definition isWeekendRestricted :: "(int \<Rightarrow> int) \<Rightarrow> int \<Rightarrow> bool" where
  "isWeekendRestricted zone t \<longleftrightarrow> t \<ge> weekendCutoff zone t \<and> t < weekendReopen zone t"

text \<open>The loop of \<open>dailyRolloverCutoff\<close> over the days \<open>back, back + 1, ... 6\<close> before the date; it throws
  (\<open>None\<close>) when none qualifies.\<close>

fun rolloverSearch :: "(int \<Rightarrow> int) \<Rightarrow> int \<Rightarrow> ZonedParts \<Rightarrow> int list \<Rightarrow> int option" where
  "rolloverSearch zone t p [] = None"
| "rolloverSearch zone t p (back # backs) =
     (let d = addDays p (- back); weekday = weekdayOf (utcDate (d * DAY_MS)) in
      if weekday = 0 \<or> weekday = 6 then rolloverSearch zone t p backs
      else (let cutoff = newYorkWallTime zone d (ROLLOVER_CUTOFF div 60) (ROLLOVER_CUTOFF mod 60) in
            if cutoff \<le> t then Some cutoff else rolloverSearch zone t p backs))"

definition dailyRolloverCutoff :: "(int \<Rightarrow> int) \<Rightarrow> int \<Rightarrow> int option" where
  "dailyRolloverCutoff zone t = rolloverSearch zone t (newYorkParts zone t) [0, 1, 2, 3, 4, 5, 6]"

definition isRolloverWindow :: "(int \<Rightarrow> int) \<Rightarrow> int \<Rightarrow> bool" where
  "isRolloverWindow zone now =
     (let p = newYorkParts zone now; m = minutesOf p in
      1 \<le> z_weekday p \<and> z_weekday p \<le> 5 \<and> m \<ge> ROLLOVER_CUTOFF \<and> m < WEEK_OPEN_CLOSE)"

definition dailyRollover :: "(int \<Rightarrow> int) \<Rightarrow> int \<Rightarrow> int option" where
  "dailyRollover zone now =
     map_option (\<lambda>cutoff. cutoff + (WEEK_OPEN_CLOSE - ROLLOVER_CUTOFF) * 60000) (dailyRolloverCutoff zone now)"

section \<open>The zone rule\<close>

text \<open>
  New York is 5 hours behind UTC, or 4 in summer, and changes only on Sundays at 06:00 or 07:00 UTC
  (02:00 wall time). \<open>changeInstant t\<close> says that \<open>t\<close> is such a Sunday instant.
\<close>

definition HOUR :: int where "HOUR = 3600000"

definition changeInstant :: "int \<Rightarrow> bool" where
  "changeInstant t \<longleftrightarrow> weekdayOf (t div DAY_MS) = 0 \<and> t mod DAY_MS \<in> {6 * HOUR, 7 * HOUR}"

definition ny_zone :: "(int \<Rightarrow> int) \<Rightarrow> bool" where
  "ny_zone zone \<longleftrightarrow> (\<forall>t. zone t \<in> {- 4 * HOUR, - 5 * HOUR}) \<and> (\<forall>t. zone t \<noteq> zone (t - 1) \<longrightarrow> changeInstant t)"

lemma zone_step: "ny_zone zone \<Longrightarrow> \<not> changeInstant t \<Longrightarrow> zone t = zone (t - 1)"
  unfolding ny_zone_def by blast

lemma zone_const:
  assumes "ny_zone zone" "a \<le> b" "\<forall>t. a < t \<and> t \<le> b \<longrightarrow> \<not> changeInstant t"
  shows "zone b = zone a"
  using assms(2,3)
proof (induction b rule: int_ge_induct)
  case (step b)
  have "zone (b + 1) = zone (b + 1 - 1)" using step.hyps step.prems by (intro zone_step assms(1)) auto
  with step show ?case by simp
qed simp

lemma zone_range:
  assumes "ny_zone zone"
  shows "- 5 * HOUR \<le> zone t \<and> zone t \<le> - 4 * HOUR"
proof -
  have "zone t \<in> {- 4 * HOUR, - 5 * HOUR}" using assms by (simp add: ny_zone_def)
  then show ?thesis by (auto simp: HOUR_def)
qed

lemma zone_seconds: "ny_zone zone \<Longrightarrow> \<exists>k. zone t = 1000 * k"
proof -
  assume "ny_zone zone"
  then have "zone t \<in> {- 4 * HOUR, - 5 * HOUR}" by (simp add: ny_zone_def)
  then have "zone t = 1000 * (- 14400) \<or> zone t = 1000 * (- 18000)" by (auto simp: HOUR_def)
  then show ?thesis by blast
qed

lemma wall_fields:
  "s = x * 60 + s0 \<Longrightarrow> x = y * 60 + x0 \<Longrightarrow> y = z * 24 + y0 \<Longrightarrow>
    z * 86400000 + (y0 * 60 + x0) * 60000 + s0 * 1000 = s * 1000" for s :: int
  by simp

lemma offsetAt_eq: "ny_zone zone \<Longrightarrow> offsetAt zone t = zone t"
proof -
  assume "ny_zone zone"
  then obtain k where k: "zone t = 1000 * k" using zone_seconds by blast
  have s: "s div 86400 * 86400000 + (s div 3600 mod 24 * 60 + s div 60 mod 60) * 60000 + s mod 60 * 1000 = s * 1000" for s :: int
  proof -
    have "s div (60 * 60) = s div 60 div 60" "s div (60 * 60 * 24) = s div (60 * 60) div 24"
      by (rule zdiv_zmult2_eq; simp)+
    then have "s div 3600 = s div 60 div 60" "s div 86400 = s div 60 div 60 div 24" by simp_all
    moreover have "s = s div 60 * 60 + s mod 60" "s div 60 = s div 60 div 60 * 60 + s div 60 mod 60"
      "s div 60 div 60 = s div 60 div 60 div 24 * 24 + s div 60 div 60 mod 24"
      by (rule div_mult_mod_eq [symmetric])+
    ultimately show ?thesis using wall_fields by metis
  qed
  have "(t + 1000 * k) div 1000 = t div 1000 + k" by simp
  then show ?thesis
    using s [of "(t + 1000 * k) div 1000"]
    by (simp add: offsetAt_def newYorkParts_def Let_def dateUTC_def DAY_MS_def MINUTE_def k)
qed

text \<open>No change from 07:00 UTC of a day to 06:00 UTC of the next.\<close>

lemma no_change:
  assumes "d * DAY_MS + 7 * HOUR < t" "t < d * DAY_MS + 30 * HOUR"
  shows "\<not> changeInstant t"
proof -
  have "t mod DAY_MS = (t - d * DAY_MS) mod DAY_MS" by (simp add: mod_diff_eq [symmetric, of t])
  moreover have "(t - d * DAY_MS) mod DAY_MS = (if t - d * DAY_MS < DAY_MS then t - d * DAY_MS else t - d * DAY_MS - DAY_MS)"
  proof (cases "t - d * DAY_MS < DAY_MS")
    case False
    have "(t - d * DAY_MS) mod DAY_MS = (t - d * DAY_MS - DAY_MS) mod DAY_MS" by simp
    also have "\<dots> = t - d * DAY_MS - DAY_MS"
      using assms False by (intro mod_pos_pos_trivial) (auto simp: HOUR_def DAY_MS_def)
    finally show ?thesis using False by simp
  qed (use assms in \<open>auto simp: HOUR_def DAY_MS_def intro: mod_pos_pos_trivial\<close>)
  ultimately have "t mod DAY_MS \<noteq> 6 * HOUR" "t mod DAY_MS \<noteq> 7 * HOUR"
    using assms by (auto simp: HOUR_def DAY_MS_def split: if_splits)
  then show ?thesis by (simp add: changeInstant_def)
qed

lemma zone_same_day:
  assumes "ny_zone zone" "d * DAY_MS + 7 * HOUR \<le> a" "a < d * DAY_MS + 30 * HOUR"
    "d * DAY_MS + 7 * HOUR \<le> b" "b < d * DAY_MS + 30 * HOUR"
  shows "zone a = zone b"
proof -
  have "zone y = zone x" if "x \<le> y" "d * DAY_MS + 7 * HOUR \<le> x" "y < d * DAY_MS + 30 * HOUR" for x y
    using that by (intro zone_const [OF assms(1)]) (auto simp: no_change [of d])
  then show ?thesis using assms by (metis linear)
qed

section \<open>Wall times\<close>

text \<open>The wall times used, 16:45 to 17:00, identify one instant, and comparing an instant with it
  compares its New York wall time.\<close>

definition local_ms :: "(int \<Rightarrow> int) \<Rightarrow> int \<Rightarrow> int" where
  "local_ms zone t = t + zone t"

lemma newYorkWallTime_local:
  assumes "ny_zone zone" "16 * 60 \<le> h * 60 + m" "h * 60 + m \<le> 17 * 60"
  shows "local_ms zone (newYorkWallTime zone d h m) = dateUTC d h m"
    and "newYorkWallTime zone d h m \<in> {dateUTC d h m + 4 * HOUR .. dateUTC d h m + 5 * HOUR}"
proof -
  let ?w = "dateUTC d h m"
  let ?t1 = "?w - zone ?w"
  let ?t = "?w - zone ?t1"
  have w: "d * DAY_MS + 16 * HOUR \<le> ?w" "?w \<le> d * DAY_MS + 17 * HOUR"
    using assms(2,3) by (auto simp: dateUTC_def HOUR_def MINUTE_def)
  have H: "0 < HOUR" by (simp add: HOUR_def)
  have eq: "newYorkWallTime zone d h m = ?t"
    by (simp add: newYorkWallTime_def Let_def offsetAt_eq [OF assms(1)])
  have "zone ?t = zone ?t1"
    using zone_range [OF assms(1), of ?w] zone_range [OF assms(1), of ?t1] w H
    by (intro zone_same_day [OF assms(1), of d]) linarith+
  then show "local_ms zone (newYorkWallTime zone d h m) = ?w"
    by (simp add: eq local_ms_def)
  show "newYorkWallTime zone d h m \<in> {?w + 4 * HOUR .. ?w + 5 * HOUR}"
    using zone_range [OF assms(1), of ?t1] by (simp add: eq)
qed

lemma newYorkWallTime_le:
  assumes z: "ny_zone zone" "16 * 60 \<le> h * 60 + m" "h * 60 + m \<le> 17 * 60"
  shows "newYorkWallTime zone d h m \<le> t \<longleftrightarrow> dateUTC d h m \<le> local_ms zone t"
proof -
  let ?w = "dateUTC d h m" and ?T = "newYorkWallTime zone d h m"
  have T: "?T + zone ?T = ?w" "?w + 4 * HOUR \<le> ?T" "?T \<le> ?w + 5 * HOUR"
    using newYorkWallTime_local [OF z, of d] by (auto simp: local_ms_def)
  have w: "d * DAY_MS + 16 * HOUR \<le> ?w" "?w \<le> d * DAY_MS + 17 * HOUR"
    using assms(2,3) by (auto simp: dateUTC_def HOUR_def MINUTE_def)
  have H: "0 < HOUR" by (simp add: HOUR_def)
  consider "t < d * DAY_MS + 7 * HOUR" | "d * DAY_MS + 7 * HOUR \<le> t" "t < d * DAY_MS + 30 * HOUR"
    | "d * DAY_MS + 30 * HOUR \<le> t" by linarith
  then show ?thesis
  proof cases
    case 2
    then have "zone t = zone ?T" using T w H by (intro zone_same_day [OF z(1), of d]) linarith+
    then show ?thesis using T by (simp add: local_ms_def) linarith
  qed (use T w H zone_range [OF z(1), of t] zone_range [OF z(1), of ?T] in \<open>auto simp: local_ms_def\<close>)
qed

section \<open>Wall clock of an instant\<close>

lemma div_parts:
  fixes x :: int
  shows "x div 1000 div 86400 = x div 86400000"
    and "x div 1000 div 3600 mod 24 * 60 + x div 1000 div 60 mod 60 = x mod 86400000 div 60000"
proof -
  have n: "(86400000::int) = 1000 * 86400" "(60000::int) = 1000 * 60" "(3600::int) = 60 * 60" by simp_all
  have a: "x div 86400000 = x div 1000 div 86400" unfolding n(1) by (rule zdiv_zmult2_eq) simp
  have b: "x div 60000 = x div 1000 div 60" unfolding n(2) by (rule zdiv_zmult2_eq) simp
  have c: "y div 3600 = y div 60 div 60" for y :: int unfolding n(3) by (rule zdiv_zmult2_eq) simp
  show "x div 1000 div 86400 = x div 86400000" by (rule a [symmetric])
  have "y div 60 mod 24 * 60 + y mod 60 = y mod (60 * 24)" for y :: int
    using zmod_zmult2_eq [of 24 y 60] by simp
  from this [of "x div 60000"] have "x div 60000 div 60 mod 24 * 60 + x div 60000 mod 60 = x div 60000 mod 1440" by simp
  moreover have "x mod (60000 * 1440) = 60000 * (x div 60000 mod 1440) + x mod 60000"
    by (rule zmod_zmult2_eq) simp
  then have "x mod 86400000 div 60000 = x div 60000 mod 1440" by simp
  ultimately show "x div 1000 div 3600 mod 24 * 60 + x div 1000 div 60 mod 60 = x mod 86400000 div 60000"
    by (simp only: b c)
qed

lemma newYorkParts_local:
  "z_date (newYorkParts zone t) = local_ms zone t div DAY_MS"
  "minutesOf (newYorkParts zone t) = local_ms zone t mod DAY_MS div MINUTE"
  "z_weekday (newYorkParts zone t) = weekdayOf (z_date (newYorkParts zone t))"
  unfolding newYorkParts_def Let_def minutesOf_def local_ms_def ZonedParts.simps DAY_MS_def MINUTE_def
  by (simp_all only: div_parts)

lemma dateUTC_le:
  assumes "0 \<le> h * 60 + m" "h * 60 + m < 1440"
  shows "dateUTC d h m \<le> x \<longleftrightarrow> d < x div DAY_MS \<or> d = x div DAY_MS \<and> h * 60 + m \<le> x mod DAY_MS div MINUTE"
proof -
  define D r where "D = x div DAY_MS" and "r = x mod DAY_MS"
  have x: "x = D * DAY_MS + r" "0 \<le> r" "r < DAY_MS" by (simp_all add: D_def r_def DAY_MS_def)
  define k where "k = h * 60 + m"
  have k: "0 \<le> k" "k < 1440" using assms by (simp_all add: k_def)
  have le: "k \<le> r div MINUTE \<longleftrightarrow> k * MINUTE \<le> r"
    unfolding MINUTE_def by (auto dest: mult_left_mono [of _ _ "60000::int"] simp: zdiv_mono1)
  consider "d < D" | "d = D" | "D < d" by linarith
  then have "d * DAY_MS + k * MINUTE \<le> D * DAY_MS + r \<longleftrightarrow> d < D \<or> d = D \<and> k * MINUTE \<le> r"
    using x k by cases (auto simp: DAY_MS_def MINUTE_def)
  then show ?thesis by (simp add: dateUTC_def k_def [symmetric] le flip: D_def r_def) (simp add: x(1))
qed

lemma wall_le_parts:
  assumes "ny_zone zone" "16 * 60 \<le> h * 60 + m" "h * 60 + m \<le> 17 * 60"
  shows "newYorkWallTime zone d h m \<le> t \<longleftrightarrow>
    d < z_date (newYorkParts zone t) \<or> d = z_date (newYorkParts zone t) \<and> h * 60 + m \<le> minutesOf (newYorkParts zone t)"
  using assms by (simp add: newYorkWallTime_le [OF assms] dateUTC_le newYorkParts_local)

lemma wall_date:
  assumes "ny_zone zone" "16 * 60 \<le> h * 60 + m" "h * 60 + m \<le> 17 * 60"
  shows "z_date (newYorkParts zone (newYorkWallTime zone d h m)) = d"
proof -
  have "(d * DAY_MS + (h * 60 + m) * MINUTE) div DAY_MS = d"
    using assms by (intro int_div_pos_eq [of _ _ _ "(h * 60 + m) * MINUTE"]) (auto simp: DAY_MS_def MINUTE_def)
  then show ?thesis using newYorkWallTime_local(1) [OF assms, of d]
    by (simp add: newYorkParts_local dateUTC_def)
qed

lemma addDays_eq [simp]: "addDays p n = z_date p + n"
proof -
  have "(z_date p + n) * DAY_MS div DAY_MS = z_date p + n" by (simp add: DAY_MS_def)
  then show ?thesis by (simp only: addDays_def utcDate_def distrib_right)
qed

lemma weekdayOf_range: "0 \<le> weekdayOf d" "weekdayOf d \<le> 6"
  by (auto simp: weekdayOf_def)

lemma rolloverSearch_later:
  assumes "ny_zone zone" "\<forall>b\<in>set backs. 0 < b"
    "\<exists>b\<in>set backs. weekdayOf (z_date (newYorkParts zone t) - b) \<notin> {0, 6}"
  shows "\<exists>d < z_date (newYorkParts zone t). rolloverSearch zone t (newYorkParts zone t) backs
     = Some (newYorkWallTime zone d 16 55)"
  using assms(2,3)
proof (induction backs)
  case (Cons b backs)
  let ?d = "z_date (newYorkParts zone t) - b"
  have "newYorkWallTime zone ?d 16 55 \<le> t"
    using Cons.prems wall_le_parts [OF assms(1), of 16 55 ?d t] by simp
  moreover have "?d < z_date (newYorkParts zone t)" using Cons.prems by simp
  moreover have "?d < z_date (newYorkParts zone t)" using Cons.prems by simp
  moreover have step: "rolloverSearch zone t (newYorkParts zone t) (b # backs) =
      (if weekdayOf ?d \<in> {0, 6} then rolloverSearch zone t (newYorkParts zone t) backs
       else if newYorkWallTime zone ?d 16 55 \<le> t then Some (newYorkWallTime zone ?d 16 55)
       else rolloverSearch zone t (newYorkParts zone t) backs)"
    by (simp add: Let_def ROLLOVER_CUTOFF_def utcDate_def DAY_MS_def)
  ultimately show ?case
  proof (cases "weekdayOf ?d \<in> {0, 6}")
    case True
    then show ?thesis unfolding step using Cons by auto
  next
    case False
    then show ?thesis unfolding step using \<open>newYorkWallTime zone ?d 16 55 \<le> t\<close> \<open>?d < _\<close>
      by (intro exI [of _ ?d]) simp
  qed
qed simp

lemma some_weekday: "\<exists>b\<in>{1, 2, 3, 4, 5, 6}. weekdayOf (d - b) \<notin> {0, 6}"
proof -
  have m: "weekdayOf (d - b) = (d mod 7 - b + 4) mod 7" for b
  proof -
    have "d - b + 4 = d mod 7 - b + 4 + d div 7 * 7" by simp
    then show ?thesis unfolding weekdayOf_def by (metis mod_mult_self1)
  qed
  have "d mod 7 \<in> {0, 1, 2, 3, 4, 5, 6}" using pos_mod_bound [of 7 d] pos_mod_sign [of 7 d] by simp presburger
  then have "weekdayOf (d - 1) \<notin> {0, 6} \<or> weekdayOf (d - 2) \<notin> {0, 6} \<or> weekdayOf (d - 3) \<notin> {0, 6}"
    unfolding m by (elim insertE emptyE) simp_all
  then show ?thesis by blast
qed

lemma rollover_wall:
  assumes "ny_zone zone"
  shows "newYorkWallTime zone d 16 55 + 5 * MINUTE = newYorkWallTime zone d 17 0"
proof -
  have a: "newYorkWallTime zone d 16 55 + zone (newYorkWallTime zone d 16 55) = dateUTC d 16 55"
    "newYorkWallTime zone d 17 0 + zone (newYorkWallTime zone d 17 0) = dateUTC d 17 0"
    using newYorkWallTime_local(1) [OF assms] by (simp_all add: local_ms_def)
  have "zone (newYorkWallTime zone d 16 55) = zone (newYorkWallTime zone d 17 0)"
    using newYorkWallTime_local(2) [OF assms, of 16 55 d] newYorkWallTime_local(2) [OF assms, of 17 0 d]
    by (intro zone_same_day [OF assms, of d]) (auto simp: dateUTC_def HOUR_def MINUTE_def DAY_MS_def)
  with a show ?thesis by (simp add: dateUTC_def MINUTE_def)
qed

section \<open>Properties\<close>

text \<open>
  The weekend restriction is exactly Friday 16:45 to Sunday 17:00 New York wall time, in both
  daylight-saving regimes and across the change inside a weekend; it contains the closed market.
\<close>

theorem weekend_restricted_wall_clock:
  assumes "ny_zone zone"
  shows "isWeekendRestricted zone now =
      (let p = newYorkParts zone now in
       z_weekday p = 5 \<and> 16 * 60 + 45 \<le> minutesOf p \<or> z_weekday p = 6 \<or> z_weekday p = 0 \<and> minutesOf p < 17 * 60)
    \<and> (isWeekendClosed zone now \<longrightarrow> isWeekendRestricted zone now)"
proof -
  let ?p = "newYorkParts zone now"
  define D W M where "D = z_date ?p" and "W = z_weekday ?p" and "M = minutesOf ?p"
  define delta where "delta = (if W = 6 then - 1 else if W = 0 then (if M < 17 * 60 then - 2 else 5) else 5 - W)"
  have W: "0 \<le> W" "W \<le> 6" using weekdayOf_range by (simp_all add: W_def newYorkParts_local(3))
  have c: "weekendCutoff zone now = newYorkWallTime zone (D + delta) 16 45"
    by (simp add: weekendCutoff_def Let_def WEEKEND_CUTOFF_def WEEK_OPEN_CLOSE_def D_def W_def M_def delta_def)
  then have r: "weekendReopen zone now = newYorkWallTime zone (D + delta + 2) 17 0"
    using wall_date [OF assms, of 16 45] by (simp add: weekendReopen_def Let_def WEEK_OPEN_CLOSE_def)
  have "isWeekendRestricted zone now \<longleftrightarrow>
      (delta < 0 \<or> delta = 0 \<and> 16 * 60 + 45 \<le> M) \<and> \<not> (delta + 2 < 0 \<or> delta + 2 = 0 \<and> 17 * 60 \<le> M)"
    using wall_le_parts [OF assms, of 16 45 "D + delta" now] wall_le_parts [OF assms, of 17 0 "D + delta + 2" now]
    by (simp add: isWeekendRestricted_def c r D_def [symmetric] M_def [symmetric] not_le [symmetric])
  also have "\<dots> \<longleftrightarrow> W = 5 \<and> 16 * 60 + 45 \<le> M \<or> W = 6 \<or> W = 0 \<and> M < 17 * 60"
    using W by (auto simp: delta_def)
  finally show ?thesis
    by (auto simp: Let_def W_def M_def isWeekendClosed_def WEEK_OPEN_CLOSE_def)
qed

text \<open>New York in 2026: summer time from 8 March to 1 November.\<close>

definition ny2026 :: "int \<Rightarrow> int" where
  "ny2026 t = (if 20520 * DAY_MS + 7 * HOUR \<le> t \<and> t < 20758 * DAY_MS + 6 * HOUR then - 4 * HOUR else - 5 * HOUR)"

lemma ny_zone_2026: "ny_zone ny2026"
proof -
  have "changeInstant t" if "ny2026 t \<noteq> ny2026 (t - 1)" for t
  proof -
    have "t = 20520 * DAY_MS + 7 * HOUR \<or> t = 20758 * DAY_MS + 6 * HOUR"
      using that by (auto simp: ny2026_def split: if_splits)
    then show ?thesis by (elim disjE) (simp_all add: changeInstant_def DAY_MS_def HOUR_def weekdayOf_def)
  qed
  then show ?thesis by (simp add: ny_zone_def ny2026_def)
qed

text \<open>Saturday 7 March 2026 noon, the weekend of the spring change.\<close>

theorem weekend_restricted_wall_clock_witness:
  "isWeekendRestricted ny2026 (20519 * DAY_MS + 12 * HOUR)
   \<and> \<not> isWeekendRestricted ny2026 (20520 * DAY_MS + 21 * HOUR)"
proof -
  note w = weekend_restricted_wall_clock [OF ny_zone_2026]
  show ?thesis
    using w [of "20519 * DAY_MS + 12 * HOUR"] w [of "20520 * DAY_MS + 21 * HOUR"]
    by (simp add: ny2026_def newYorkParts_def minutesOf_def Let_def weekdayOf_def DAY_MS_def HOUR_def)
qed

text \<open>
  The search for the last weekday 16:55 always succeeds, and the order guard (wall clock between
  16:55 and 17:00 on a weekday) agrees with the instants the holding-rule sweep uses: the window of
  \<open>dailyRolloverCutoff\<close> up to \<open>dailyRollover\<close>.
\<close>

theorem rollover_window_agrees:
  assumes "ny_zone zone"
  shows "\<exists>c r. dailyRolloverCutoff zone t = Some c \<and> dailyRollover zone t = Some r \<and> c \<le> t
    \<and> isRolloverWindow zone t = (t < r)"
proof -
  let ?p = "newYorkParts zone t"
  define D M where "D = z_date ?p" and "M = minutesOf ?p"
  have W: "z_weekday ?p = weekdayOf D" by (simp add: D_def newYorkParts_local)
  have wd: "1 \<le> weekdayOf D \<and> weekdayOf D \<le> 5 \<longleftrightarrow> weekdayOf D \<notin> {0, 6}"
    using weekdayOf_range [of D] by auto
  have before: "newYorkWallTime zone d 16 55 \<le> t \<and> \<not> t < newYorkWallTime zone d 17 0" if "d < D" for d
    using that wall_le_parts [OF assms, of 16 55 d t] wall_le_parts [OF assms, of 17 0 d t] by (simp add: D_def)
  have now: "newYorkWallTime zone D 16 55 \<le> t \<longleftrightarrow> 16 * 60 + 55 \<le> M" "t < newYorkWallTime zone D 17 0 \<longleftrightarrow> M < 17 * 60"
    using wall_le_parts [OF assms, of 16 55 D t] wall_le_parts [OF assms, of 17 0 D t] by (auto simp: D_def M_def)
  have later: "\<exists>d<D. rolloverSearch zone t ?p [1, 2, 3, 4, 5, 6] = Some (newYorkWallTime zone d 16 55)"
    using some_weekday [of D] unfolding D_def by (intro rolloverSearch_later [OF assms]) auto
  have step: "dailyRolloverCutoff zone t =
      (if weekdayOf D \<in> {0, 6} then rolloverSearch zone t ?p [1, 2, 3, 4, 5, 6]
       else if newYorkWallTime zone D 16 55 \<le> t then Some (newYorkWallTime zone D 16 55)
       else rolloverSearch zone t ?p [1, 2, 3, 4, 5, 6])"
    unfolding dailyRolloverCutoff_def rolloverSearch.simps(2) [of _ _ _ 0]
    by (simp add: Let_def ROLLOVER_CUTOFF_def utcDate_def DAY_MS_def D_def del: rolloverSearch.simps)
  have roll: "dailyRollover zone t = map_option (\<lambda>c. c + 5 * MINUTE) (dailyRolloverCutoff zone t)"
    by (simp add: dailyRollover_def WEEK_OPEN_CLOSE_def ROLLOVER_CUTOFF_def MINUTE_def)
  have win: "isRolloverWindow zone t \<longleftrightarrow> weekdayOf D \<notin> {0, 6} \<and> 16 * 60 + 55 \<le> M \<and> M < 17 * 60"
    unfolding isRolloverWindow_def Let_def W ROLLOVER_CUTOFF_def WEEK_OPEN_CLOSE_def M_def [symmetric] using wd by auto
  show ?thesis
  proof (cases "weekdayOf D \<notin> {0, 6} \<and> 16 * 60 + 55 \<le> M")
    case True
    then have "dailyRolloverCutoff zone t = Some (newYorkWallTime zone D 16 55)" by (simp add: step now(1))
    then show ?thesis using True by (simp add: roll win now rollover_wall [OF assms])
  next
    case False
    then obtain d where d: "d < D" "dailyRolloverCutoff zone t = Some (newYorkWallTime zone d 16 55)"
      using later by (auto simp: step now(1))
    then show ?thesis using False before [OF d(1)] by (auto simp: roll win rollover_wall [OF assms])
  qed
qed

text \<open>Thursday 5 March 2026, 16:57 in New York, and the Saturday after.\<close>

theorem rollover_window_agrees_witness:
  "isRolloverWindow ny2026 (20517 * DAY_MS + 21 * HOUR + 57 * MINUTE)
   \<and> (\<exists>r. dailyRollover ny2026 (20519 * DAY_MS + 12 * HOUR) = Some r \<and> r \<le> 20519 * DAY_MS + 12 * HOUR)"
proof -
  have a: "isRolloverWindow ny2026 (20517 * DAY_MS + 21 * HOUR + 57 * MINUTE)"
    "\<not> isRolloverWindow ny2026 (20519 * DAY_MS + 12 * HOUR)"
    by (simp_all add: isRolloverWindow_def ny2026_def newYorkParts_def minutesOf_def Let_def weekdayOf_def
        DAY_MS_def HOUR_def MINUTE_def ROLLOVER_CUTOFF_def WEEK_OPEN_CLOSE_def)
  with rollover_window_agrees [OF ny_zone_2026, of "20519 * DAY_MS + 12 * HOUR"] show ?thesis
    by (auto simp: not_less)
qed

end
