(* ===== verification/News.thy ===== *)
theory News
  imports JsNumber JsString "HOL-Library.List_Lexorder" "HOL-Library.Char_ord"
begin

text \<open>
  The news-trading rule of \<open>src/trading/news.ts\<close>. Instants and the window are integers
  (milliseconds); the setting is read in minutes by \<open>normalizeNewsWindowMinutes\<close>.
\<close>

record NewsEvent =
  ne_id :: nat
  ne_title :: string
  ne_currency :: string
  scheduledAt :: int

record NewsWindow =
  nw_event :: NewsEvent
  nw_start :: int
  nw_end :: int

text \<open>The setting value, already read as a JavaScript number (\<open>NaN\<close> for anything else).\<close>

definition normalizeNewsWindowMinutes :: "number \<Rightarrow> number" where
  "normalizeNewsWindowMinutes n = (if \<not> isFinite n \<or> n < lit 0 then Fin 2 else Math_min (Fin 120) n)"

definition affectsInstrument :: "NewsEvent \<Rightarrow> string \<Rightarrow> string \<Rightarrow> bool" where
  "affectsInstrument event baseCurrency quoteCurrency =
     (let c = toUpperCase (trim (ne_currency event)) in
      c \<noteq> [] \<and> (toUpperCase baseCurrency = c \<or> toUpperCase quoteCurrency = c))"

definition windowOf :: "NewsEvent \<Rightarrow> int \<Rightarrow> NewsWindow" where
  "windowOf event windowMs =
     \<lparr>nw_event = event, nw_start = scheduledAt event - windowMs, nw_end = scheduledAt event + windowMs\<rparr>"

text \<open>The loop of \<open>activeNewsWindow\<close>; \<open>best\<close> is its accumulator.\<close>

fun newsLoop :: "string \<Rightarrow> string \<Rightarrow> int \<Rightarrow> int \<Rightarrow> NewsEvent list \<Rightarrow> NewsWindow option \<Rightarrow> NewsWindow option" where
  "newsLoop base qte now windowMs [] best = best"
| "newsLoop base qte now windowMs (e # es) best =
     (if \<not> affectsInstrument e base qte then newsLoop base qte now windowMs es best
      else (let w = windowOf e windowMs in
        if now < nw_start w \<or> now > nw_end w then newsLoop base qte now windowMs es best
        else newsLoop base qte now windowMs es
          (case best of None \<Rightarrow> Some w | Some b \<Rightarrow> if nw_end w > nw_end b then Some w else best)))"

definition activeNewsWindow :: "NewsEvent list \<Rightarrow> string \<Rightarrow> string \<Rightarrow> int \<Rightarrow> int \<Rightarrow> NewsWindow option" where
  "activeNewsWindow events base qte now windowMs =
     (if windowMs \<le> 0 then None else newsLoop base qte now windowMs events None)"

text \<open>Sorted by start, then by currency; \<open>sort_key\<close> is stable like \<open>Array.prototype.sort\<close>.\<close>

definition upcomingNewsWindows :: "NewsEvent list \<Rightarrow> int \<Rightarrow> int \<Rightarrow> int \<Rightarrow> NewsWindow list" where
  "upcomingNewsWindows events now windowMs horizonMs =
     (if windowMs \<le> 0 then []
      else sort_key nw_start (sort_key (\<lambda>w. ne_currency (nw_event w))
        (filter (\<lambda>w. nw_end w \<ge> now \<and> nw_start w \<le> now + horizonMs) (map (\<lambda>e. windowOf e windowMs) events))))"

definition covers :: "string \<Rightarrow> string \<Rightarrow> int \<Rightarrow> int \<Rightarrow> NewsEvent \<Rightarrow> bool" where
  "covers base qte now windowMs e \<longleftrightarrow> affectsInstrument e base qte \<and> \<bar>now - scheduledAt e\<bar> \<le> windowMs"

lemma newsLoop_spec:
  "case newsLoop base qte now w es best of
     None \<Rightarrow> best = None \<and> \<not> (\<exists>e\<in>set es. covers base qte now w e)
   | Some r \<Rightarrow> (best = Some r \<or> (\<exists>e\<in>set es. covers base qte now w e \<and> r = windowOf e w))
       \<and> (\<forall>b. best = Some b \<longrightarrow> nw_end b \<le> nw_end r)
       \<and> (\<forall>e\<in>set es. covers base qte now w e \<longrightarrow> nw_end (windowOf e w) \<le> nw_end r)"
proof (induction es arbitrary: best)
  case Nil
  then show ?case by (cases best) auto
next
  case (Cons e es)
  have c: "covers base qte now w e \<longleftrightarrow>
      affectsInstrument e base qte \<and> \<not> (now < nw_start (windowOf e w) \<or> now > nw_end (windowOf e w))"
    by (auto simp: covers_def windowOf_def)
  define best' where "best' = (if covers base qte now w e
    then case best of None \<Rightarrow> Some (windowOf e w) | Some b \<Rightarrow> if nw_end (windowOf e w) > nw_end b then Some (windowOf e w) else best
    else best)"
  have step: "newsLoop base qte now w (e # es) best = newsLoop base qte now w es best'"
    using c by (auto simp: Let_def best'_def)
  show ?case using Cons.IH [of best'] unfolding step
    by (auto simp: best'_def split: option.splits if_splits)
qed

text \<open>
  An instrument is inside a news window exactly when an event in one of its currencies lies at
  most the window away, both edges included; the window reported is the one that ends last, and a
  window of 0 disables the rule.
\<close>

theorem activeNewsWindow_exact:
  "(activeNewsWindow events base qte now w = None \<longleftrightarrow> w \<le> 0 \<or> \<not> (\<exists>e\<in>set events. covers base qte now w e))
   \<and> (case activeNewsWindow events base qte now w of None \<Rightarrow> True
      | Some r \<Rightarrow> (\<exists>e\<in>set events. covers base qte now w e \<and> r = windowOf e w)
          \<and> (\<forall>e\<in>set events. covers base qte now w e \<longrightarrow> nw_end (windowOf e w) \<le> nw_end r))"
  using newsLoop_spec [where base = base and qte = qte and now = now and w = w and es = events and best = None]
  by (auto simp: activeNewsWindow_def split: option.splits)

definition cpi :: NewsEvent where
  "cpi = \<lparr>ne_id = 1, ne_title = ''CPI'', ne_currency = '' usd'', scheduledAt = 1000000\<rparr>"

theorem activeNewsWindow_exact_witness:
  "activeNewsWindow [cpi] ''EUR'' ''USD'' 1120000 120000 \<noteq> None
   \<and> activeNewsWindow [cpi] ''EUR'' ''USD'' 1120001 120000 = None
   \<and> activeNewsWindow [cpi] ''EUR'' ''GBP'' 1120000 120000 = None"
proof -
  note a = activeNewsWindow_exact [of "[cpi]" "''EUR''" "''USD''" 1120000 120000, THEN conjunct1]
  note b = activeNewsWindow_exact [of "[cpi]" "''EUR''" "''USD''" 1120001 120000, THEN conjunct1]
  note c = activeNewsWindow_exact [of "[cpi]" "''EUR''" "''GBP''" 1120000 120000, THEN conjunct1]
  have i: "affectsInstrument cpi ''EUR'' ''USD''" "\<not> affectsInstrument cpi ''EUR'' ''GBP''" "scheduledAt cpi = 1000000"
    by code_simp+
  show ?thesis unfolding a b c by (simp add: covers_def i)
qed

end
