(* ===== verification/EngineState.thy ===== *)
theory EngineState
  imports TradeLedger Fx Sessions News
begin

text \<open>
  The memory of the live engine (\<open>src/trading/engine.ts\<close>) and the operations on it that no message
  triggers alone: marks, equity, floors, the account state sent to terminals, market state.

  An \<open>EngineAccount\<close> object is referred to by number: \<open>eng_heap\<close> holds every object ever created,
  \<open>eng_accounts\<close> is the \<open>accounts\<close> map (account id to object, in insertion order). Closures keep the
  object, so queued tasks carry its number: a task can outlive the tracking of its account. A map of
  positions is the list of its values in insertion order; the two symbol indexes hold (symbol, object,
  id). An awaited call returns before the next task or tick is handled; \<open>eng_faults\<close> says which of the
  coming database calls throw without effect. Logging, latency samples and operator alerts are left out.
\<close>

section \<open>State\<close>

record EngineQuote = Quote +
  eq_raw :: Quote
  eq_ts :: int
  eq_receivedAt :: int
  eq_source :: string

record Tick = Quote +
  tk_symbol :: string
  tk_ts :: int
  tk_source :: string

record EnginePosition =
  ep_id :: nat
  ep_accountId :: nat
  ep_symbol :: string
  ep_side :: Side
  ep_volume :: number
  ep_entryPrice :: number
  ep_stopLoss :: "number option"
  ep_takeProfit :: "number option"
  ep_marginUsed :: number
  ep_openedAt :: int
  ep_currentPrice :: "number option"
  ep_floatingPnl :: number
  ep_feedSource :: "string option"
  ep_closing :: bool
  ep_dirty :: bool

record EnginePending =
  eo_id :: nat
  eo_accountId :: nat
  eo_symbol :: string
  eo_side :: Side
  eo_type :: OrderKind
  eo_volume :: number
  eo_price :: number
  eo_stopLoss :: "number option"
  eo_takeProfit :: "number option"
  eo_clientOrderId :: string
  eo_triggering :: bool

datatype HoldingRule = RULE_WEEKEND | RULE_OVERNIGHT

record EngineAccount =
  ea_id :: nat
  ea_userId :: nat
  ea_status :: AccountStatus
  ea_phase :: TemplatePhase
  ea_snapshot :: TemplateSnapshot
  ea_startingBalance :: number
  ea_balance :: number
  ea_highWaterMark :: number
  ea_dailyAnchorBalance :: number
  ea_dailyAnchorDate :: int
  ea_realizedPnl :: number
  ea_marginUsed :: number
  ea_expiresAt :: "int option"
  ea_positions :: "EnginePosition list"
  ea_pending :: "EnginePending list"
  ea_equity :: number
  ea_floating :: number
  ea_dirty :: bool
  ea_breaching :: bool
  ea_untracked :: bool
  ea_tradingDays :: nat
  ea_resetTime :: ResetTime
  ea_nextBoundary :: int
  ea_lastSnapshotEquity :: number
  ea_lastSnapshotAt :: int
  ea_emitTimer :: bool
  ea_ruleSweeps :: "HoldingRule \<Rightarrow> int option"
  ea_ruleRetryAt :: int

definition TRADABLE :: "AccountStatus \<Rightarrow> bool" where
  "TRADABLE s \<longleftrightarrow> s = ACTIVE \<or> s = FUNDED"

text \<open>What goes to terminals and onto the bus. Display texts (messages, reject details) are left out.\<close>

record PositionInfo =
  pi_id :: nat
  pi_accountId :: nat
  pi_symbol :: string
  pi_side :: Side
  pi_volume :: number
  pi_entryPrice :: number
  pi_currentPrice :: "number option"
  pi_stopLoss :: "number option"
  pi_takeProfit :: "number option"
  pi_floatingPnl :: number
  pi_marginUsed :: number
  pi_openedAt :: int

record AccountState =
  as_accountId :: nat
  as_status :: AccountStatus
  as_currency :: string
  as_balance :: number
  as_equity :: number
  as_marginUsed :: number
  as_freeMargin :: number
  as_realizedPnl :: number
  as_floatingPnl :: number
  as_dailyAnchor :: number
  as_dailyLossUsed :: number
  as_dailyLossLimit :: number
  as_drawdownFloor :: number
  as_drawdownRemaining :: number
  as_profitTarget :: "number option"
  as_profitProgress :: "number option"
  as_tradingDays :: nat
  as_minTradingDays :: int
  as_positions :: "PositionInfo list"

datatype MarketState = MS_OPEN | MS_HALTED

datatype HaltReason = NoFeedYet | ManualHalt string | NoDataReceived | NoDataFor int

record MarketStatusEvent =
  ms_state :: MarketState
  ms_reason :: "HaltReason option"
  ms_symbols :: "(string \<times> int option \<times> bool) list"
  ms_news :: "(int \<times> NewsEvent list) option"

datatype OrderReplyStatus = RS_FILLED | RS_REJECTED | RS_PENDING

record OrderReply =
  rp_clientOrderId :: string
  rp_status :: OrderReplyStatus
  rp_orderId :: "nat option"
  rp_positionId :: "nat option"
  rp_filledPrice :: "number option"
  rp_reason :: "string option"

datatype PositionEventKind = OPENED | CLOSED_EVENT | MODIFIED

datatype BusEvent =
    BusAccount AccountState
  | BusPosition nat PositionEventKind PositionInfo "CloseReason option" "number option"
  | BusOrderResult nat OrderReply
  | BusMarketStatus MarketStatusEvent

record Ctx =
  cx_userId :: nat
  cx_admin :: bool

record OrderPlace =
  op_accountId :: nat
  op_clientOrderId :: string
  op_symbol :: string
  op_side :: Side
  op_orderType :: OrderKind
  op_volume :: number
  op_price :: "number option"
  op_stopLoss :: "number option"
  op_takeProfit :: "number option"

record ClosePlace =
  cp_accountId :: nat
  cp_positionId :: nat
  cp_volume :: "number option"

text \<open>A stop field is absent (\<open>None\<close>), \<open>null\<close> (\<open>Some None\<close>) or a number.\<close>

record ModifyPlace =
  mp_accountId :: nat
  mp_positionId :: nat
  mp_stopLoss :: "number option option"
  mp_takeProfit :: "number option option"

datatype ClientMessage = OrderPlaceMsg OrderPlace | PositionCloseMsg ClosePlace | PositionModifyMsg ModifyPlace
  | AccountGetMsg nat | OtherMsg

datatype ServerMessage = ErrorMsg string "nat option" | AccountMsg AccountState | OrderResultMsg OrderReply

text \<open>The closures the code puts on a queue.\<close>

datatype EngineTask =
    TStopClose nat nat number StopTrigger EngineQuote
  | TTriggerPending nat nat EngineQuote
  | TBreach nat FailureReason number number
  | TAnchor nat int
  | TFlatten nat HoldingRule
  | TPlaceOrder Ctx OrderPlace
  | TClosePosition Ctx ClosePlace
  | TModifyPosition Ctx ModifyPlace
  | TCloseAll nat string
  | TDropClosed nat nat
  | TReload nat

record QueuedTask =
  qt_ticket :: nat
  qt_accountId :: nat
  qt_task :: EngineTask

record Engine =
  eng_instruments :: "Instrument list"
  eng_heap :: "nat \<Rightarrow> EngineAccount"
  eng_nextRef :: nat
  eng_accounts :: "(nat \<times> nat) list"
  eng_positionsBySymbol :: "(string \<times> nat \<times> nat) list"
  eng_pendingBySymbol :: "(string \<times> nat \<times> nat) list"
  eng_quotes :: "string \<rightharpoonup> EngineQuote"
  eng_queue :: "QueuedTask list"
  eng_nextTicket :: nat
  eng_waiting :: "(nat \<times> nat) list"
  eng_lastTickAt :: "int option"
  eng_manualHalt :: bool
  eng_manualHaltReason :: "string option"
  eng_marketState :: MarketStatusEvent
  eng_staleSymbols :: "string list"
  eng_newsEvents :: "NewsEvent list"
  eng_newsWindowMs :: int
  eng_newsKey :: "int \<times> (nat \<times> int) list"
  eng_started :: bool
  eng_fx :: Converter
  eng_bus :: "BusEvent list"
  eng_faults :: "bool list"
  eng_killSwitch :: bool
  eng_db :: db

section \<open>Access\<close>

definition instrumentOf :: "string \<Rightarrow> Engine \<Rightarrow> Instrument option" where
  "instrumentOf symbol e = List.find (\<lambda>i. ins_symbol i = symbol) (eng_instruments e)"

definition refOf :: "nat \<Rightarrow> Engine \<Rightarrow> nat option" where
  "refOf accountId e = map_of (eng_accounts e) accountId"

definition onAcct :: "nat \<Rightarrow> (EngineAccount \<Rightarrow> EngineAccount) \<Rightarrow> Engine \<Rightarrow> Engine" where
  "onAcct r f e = e\<lparr>eng_heap := (eng_heap e)(r := f (eng_heap e r))\<rparr>"

definition posOf :: "nat \<Rightarrow> nat \<Rightarrow> Engine \<Rightarrow> EnginePosition option" where
  "posOf r i e = List.find (\<lambda>p. ep_id p = i) (ea_positions (eng_heap e r))"

definition pendingOf :: "nat \<Rightarrow> nat \<Rightarrow> Engine \<Rightarrow> EnginePending option" where
  "pendingOf r i e = List.find (\<lambda>o1. eo_id o1 = i) (ea_pending (eng_heap e r))"

definition onPos :: "nat \<Rightarrow> nat \<Rightarrow> (EnginePosition \<Rightarrow> EnginePosition) \<Rightarrow> Engine \<Rightarrow> Engine" where
  "onPos r i f = onAcct r (\<lambda>a. a\<lparr>ea_positions := map (\<lambda>p. if ep_id p = i then f p else p) (ea_positions a)\<rparr>)"

definition onPending :: "nat \<Rightarrow> nat \<Rightarrow> (EnginePending \<Rightarrow> EnginePending) \<Rightarrow> Engine \<Rightarrow> Engine" where
  "onPending r i f = onAcct r (\<lambda>a. a\<lparr>ea_pending := map (\<lambda>o1. if eo_id o1 = i then f o1 else o1) (ea_pending a)\<rparr>)"

definition emit :: "BusEvent \<Rightarrow> Engine \<Rightarrow> Engine" where
  "emit ev e = e\<lparr>eng_bus := eng_bus e @ [ev]\<rparr>"

text \<open>An awaited database call: the next element of \<open>eng_faults\<close> makes it throw without effect.\<close>

definition dbCall :: "(db \<Rightarrow> (db_error + 'a) \<times> db) \<Rightarrow> Engine \<Rightarrow> (db_error + 'a) \<times> Engine" where
  "dbCall f e =
     (case eng_faults e of
        True # fs \<Rightarrow> (Inl (ServiceFault ''database''), e\<lparr>eng_faults := fs\<rparr>)
      | fs0 \<Rightarrow> (let (r, d) = f (eng_db e) in (r, e\<lparr>eng_faults := tl fs0, eng_db := d\<rparr>)))"

text \<open>A transaction that fails leaves the database as it was.\<close>

definition txn :: "(db \<Rightarrow> db_error + 'a \<times> db) \<Rightarrow> db \<Rightarrow> (db_error + 'a) \<times> db" where
  "txn f d = (case f d of Inl err \<Rightarrow> (Inl err, d) | Inr (x, d') \<Rightarrow> (Inr x, d'))"

definition dbWrite :: "(db \<Rightarrow> db) \<Rightarrow> db \<Rightarrow> (db_error + unit) \<times> db" where
  "dbWrite f d = (Inr (), f d)"

text \<open>\<open>enqueue\<close>: the task starts when every earlier task of its account has settled.\<close>

definition enqueue :: "nat \<Rightarrow> EngineTask \<Rightarrow> Engine \<Rightarrow> Engine" where
  "enqueue accountId task e =
     e\<lparr>eng_queue := eng_queue e @ [\<lparr>qt_ticket = eng_nextTicket e, qt_accountId = accountId, qt_task = task\<rparr>],
       eng_nextTicket := eng_nextTicket e + 1\<rparr>"

section \<open>Marks, equity, floors\<close>

definition markedPosition :: "Engine \<Rightarrow> EngineQuote \<Rightarrow> EnginePosition \<Rightarrow> EnginePosition" where
  "markedPosition e q p =
     (case instrumentOf (ep_symbol p) e of
        None \<Rightarrow> p
      | Some inst \<Rightarrow>
         (let mark = markPrice (ep_side p) q in
          case fx_rate (eng_fx e) (ins_quoteCurrency inst) of
            None \<Rightarrow> p
          | Some rate \<Rightarrow> p\<lparr>ep_currentPrice := Some mark,
              ep_floatingPnl := roundCurrency (grossPnlQuote (ep_side p) (ep_entryPrice p) mark (ep_volume p) (ins_contractSize inst) * rate),
              ep_dirty := True\<rparr>))"

definition markPosition :: "nat \<Rightarrow> nat \<Rightarrow> EngineQuote \<Rightarrow> Engine \<Rightarrow> Engine" where
  "markPosition r i q e = onPos r i (markedPosition e q) e"

definition recomputed :: "EngineAccount \<Rightarrow> EngineAccount" where
  "recomputed a =
     (let floating = roundCurrency (js_sum (map ep_floatingPnl (ea_positions a)));
          margin = roundCurrency (js_sum (map ep_marginUsed (ea_positions a)));
          equity = roundCurrency (ea_balance a + floating)
      in a\<lparr>ea_floating := floating, ea_marginUsed := margin, ea_equity := equity,
           ea_highWaterMark := (if equity > ea_highWaterMark a then equity else ea_highWaterMark a), ea_dirty := True\<rparr>)"

definition recompute :: "nat \<Rightarrow> Engine \<Rightarrow> Engine" where
  "recompute r = onAcct r recomputed"

definition holdsStaleSymbol :: "nat \<Rightarrow> Engine \<Rightarrow> bool" where
  "holdsStaleSymbol r e \<longleftrightarrow> (\<exists>p\<in>set (ea_positions (eng_heap e r)). ep_symbol p \<in> set (eng_staleSymbols e))"

definition floors :: "EngineAccount \<Rightarrow> number \<times> number" where
  "floors a = (maxDrawdownFloor (ea_startingBalance a) (ea_highWaterMark a) (tpl_maxDrawdown (rules (ea_snapshot a)))
       (case tpl_drawdownMode (rules (ea_snapshot a)) of None \<Rightarrow> Some STATIC | m \<Rightarrow> m),
     dailyLossFloor (ea_dailyAnchorBalance a) (tpl_dailyDrawdown (rules (ea_snapshot a))))"

text \<open>The reason and the floor of a breach of the floors by the current equity.\<close>

definition breachOf :: "EngineAccount \<Rightarrow> (FailureReason \<times> number) option" where
  "breachOf a =
     (let (ddFloor, dlFloor) = floors a; equity = roundCurrency (ea_equity a) in
      if equity \<le> ddFloor then Some (MAX_DRAWDOWN, ddFloor)
      else if equity \<le> dlFloor then Some (DAILY_LOSS, dlFloor) else None)"

definition checkBreach :: "nat \<Rightarrow> Engine \<Rightarrow> Engine" where
  "checkBreach r e =
     (case breachOf (eng_heap e r) of
        None \<Rightarrow> e
      | Some (reason, level) \<Rightarrow>
         enqueue (ea_id (eng_heap e r)) (TBreach r reason (roundCurrency (ea_equity (eng_heap e r))) level)
           (onAcct r (\<lambda>a. a\<lparr>ea_breaching := True\<rparr>) e))"

section \<open>Views\<close>

definition positionInfo :: "EnginePosition \<Rightarrow> PositionInfo" where
  "positionInfo p =
     \<lparr>pi_id = ep_id p, pi_accountId = ep_accountId p, pi_symbol = ep_symbol p, pi_side = ep_side p, pi_volume = ep_volume p,
      pi_entryPrice = ep_entryPrice p, pi_currentPrice = ep_currentPrice p, pi_stopLoss = ep_stopLoss p,
      pi_takeProfit = ep_takeProfit p, pi_floatingPnl = ep_floatingPnl p, pi_marginUsed = ep_marginUsed p,
      pi_openedAt = ep_openedAt p\<rparr>"

definition accountState :: "Engine \<Rightarrow> EngineAccount \<Rightarrow> AccountState" where
  "accountState e a =
     (let (ddFloor, dlFloor) = floors a;
          dailyLimit = (if isFinite dlFloor then roundCurrency (ea_dailyAnchorBalance a - dlFloor) else lit 0);
          target = targetAmount (ea_startingBalance a) (tpl_profitTarget (rules (ea_snapshot a)));
          currency = tpl_accountCurrency (rules (ea_snapshot a))
      in \<lparr>as_accountId = ea_id a, as_status = ea_status a,
          as_currency = (if currency = [] then accountCurrency (eng_fx e) else currency),
          as_balance = roundCurrency (ea_balance a), as_equity = roundCurrency (ea_equity a),
          as_marginUsed = roundCurrency (ea_marginUsed a), as_freeMargin = roundCurrency (ea_equity a - ea_marginUsed a),
          as_realizedPnl = roundCurrency (ea_realizedPnl a), as_floatingPnl = roundCurrency (ea_floating a),
          as_dailyAnchor = roundCurrency (ea_dailyAnchorBalance a),
          as_dailyLossUsed = roundCurrency (Math_max (lit 0) (ea_dailyAnchorBalance a - ea_equity a)),
          as_dailyLossLimit = dailyLimit, as_drawdownFloor = (if isFinite ddFloor then ddFloor else lit 0),
          as_drawdownRemaining = (if isFinite ddFloor then roundCurrency (ea_equity a - ddFloor) else ea_equity a),
          as_profitTarget = target,
          as_profitProgress = (case target of
             Some t \<Rightarrow> if truthy t then Some (Math_round (ea_realizedPnl a / t * lit 10000) / lit 100) else None
           | None \<Rightarrow> None),
          as_tradingDays = ea_tradingDays a, as_minTradingDays = tpl_minTradingDays (rules (ea_snapshot a)),
          as_positions = map positionInfo (ea_positions a)\<rparr>)"

definition getAccountState :: "nat \<Rightarrow> Engine \<Rightarrow> AccountState option" where
  "getAccountState accountId e = map_option (\<lambda>r. accountState e (eng_heap e r)) (refOf accountId e)"

text \<open>An immediate emission clears the timer; otherwise a timer is started unless one runs.\<close>

definition emitAccount :: "nat \<Rightarrow> bool \<Rightarrow> Engine \<Rightarrow> Engine" where
  "emitAccount r immediate e =
     (if immediate
      then emit (BusAccount (accountState e (eng_heap e r))) (onAcct r (\<lambda>a. a\<lparr>ea_emitTimer := False\<rparr>) e)
      else onAcct r (\<lambda>a. a\<lparr>ea_emitTimer := True\<rparr>) e)"

definition emitTimerFires :: "nat \<Rightarrow> Engine \<Rightarrow> Engine" where
  "emitTimerFires r e =
     (if \<not> ea_emitTimer (eng_heap e r) then e
      else let e1 = onAcct r (\<lambda>a. a\<lparr>ea_emitTimer := False\<rparr>) e in
        if ea_untracked (eng_heap e1 r) then e1 else emit (BusAccount (accountState e1 (eng_heap e1 r))) e1)"

end
