(* ===== verification/EngineOps.thy ===== *)
theory EngineOps
  imports EngineState
begin

text \<open>
  \<open>src/trading/engine.ts\<close>: tracking accounts, positions and pending orders; market state and holding
  rules; closing a position through the ledger; what a breach and a holding rule do to an account.
  \<open>zone\<close> is the New York offset used by the session clock.
\<close>

section \<open>Positions and pending orders of an account\<close>

text \<open>\<open>Map.prototype.set\<close>: a known key keeps its place.\<close>

definition map_set :: "('v \<Rightarrow> nat) \<Rightarrow> 'v \<Rightarrow> 'v list \<Rightarrow> 'v list" where
  "map_set key v xs = (if key v \<in> key ` set xs then map (\<lambda>x. if key x = key v then v else x) xs else xs @ [v])"

definition enginePosition :: "Position \<Rightarrow> EnginePosition" where
  "enginePosition p =
     \<lparr>ep_id = pos_id p, ep_accountId = pos_accountId p, ep_symbol = pos_symbol p, ep_side = pos_side p,
      ep_volume = pos_volume p, ep_entryPrice = pos_entryPrice p, ep_stopLoss = pos_stopLoss p,
      ep_takeProfit = pos_takeProfit p, ep_marginUsed = pos_marginUsed p, ep_openedAt = pos_openedAt p,
      ep_currentPrice = pos_currentPrice p, ep_floatingPnl = pos_floatingPnl p, ep_feedSource = pos_feedSource p,
      ep_closing = False, ep_dirty = False\<rparr>"

text \<open>The new object enters the account's map and the index of its symbol.\<close>

definition insertPosition :: "nat \<Rightarrow> EnginePosition \<Rightarrow> Engine \<Rightarrow> Engine" where
  "insertPosition r pos e =
     (onAcct r (\<lambda>a. a\<lparr>ea_positions := map_set ep_id pos (ea_positions a)\<rparr>) e)
       \<lparr>eng_positionsBySymbol := eng_positionsBySymbol e @ [(ep_symbol pos, r, ep_id pos)]\<rparr>"

definition addPosition :: "nat \<Rightarrow> Position \<Rightarrow> Engine \<Rightarrow> Engine" where
  "addPosition r p e =
     (let pos = enginePosition p; e1 = insertPosition r pos e
      in (case eng_quotes e1 (ep_symbol pos) of Some q \<Rightarrow> markPosition r (ep_id pos) q e1 | None \<Rightarrow> e1))"

definition removePosition :: "nat \<Rightarrow> EnginePosition \<Rightarrow> Engine \<Rightarrow> Engine" where
  "removePosition r p e =
     (onAcct r (\<lambda>a. a\<lparr>ea_positions := filter (\<lambda>x. ep_id x \<noteq> ep_id p) (ea_positions a)\<rparr>) e)
       \<lparr>eng_positionsBySymbol := filter (\<lambda>k. k \<noteq> (ep_symbol p, r, ep_id p)) (eng_positionsBySymbol e)\<rparr>"

definition enginePending :: "Order \<Rightarrow> number \<Rightarrow> EnginePending" where
  "enginePending o1 price =
     \<lparr>eo_id = ord_id o1, eo_accountId = ord_accountId o1, eo_symbol = ord_symbol o1, eo_side = ord_side o1,
      eo_type = ord_type o1, eo_volume = ord_volume o1, eo_price = price, eo_stopLoss = ord_stopLoss o1,
      eo_takeProfit = ord_takeProfit o1, eo_clientOrderId = ord_clientOrderId o1, eo_triggering = False\<rparr>"

definition insertPending :: "nat \<Rightarrow> EnginePending \<Rightarrow> Engine \<Rightarrow> Engine" where
  "insertPending r o1 e =
     (onAcct r (\<lambda>a. a\<lparr>ea_pending := map_set eo_id o1 (ea_pending a)\<rparr>) e)
       \<lparr>eng_pendingBySymbol := eng_pendingBySymbol e @ [(eo_symbol o1, r, eo_id o1)]\<rparr>"

definition addPending :: "nat \<Rightarrow> Order \<Rightarrow> Engine \<Rightarrow> Engine" where
  "addPending r o1 e =
     (case ord_price o1 of
        None \<Rightarrow> e
      | Some price \<Rightarrow> if ord_type o1 = MARKET then e else insertPending r (enginePending o1 price) e)"

definition removePending :: "nat \<Rightarrow> EnginePending \<Rightarrow> Engine \<Rightarrow> Engine" where
  "removePending r o1 e =
     (onAcct r (\<lambda>a. a\<lparr>ea_pending := filter (\<lambda>x. eo_id x \<noteq> eo_id o1) (ea_pending a)\<rparr>) e)
       \<lparr>eng_pendingBySymbol := filter (\<lambda>k. k \<noteq> (eo_symbol o1, r, eo_id o1)) (eng_pendingBySymbol e)\<rparr>"

definition untrack :: "nat \<Rightarrow> Engine \<Rightarrow> Engine" where
  "untrack accountId e =
     (case refOf accountId e of
        None \<Rightarrow> e
      | Some r \<Rightarrow>
         (let e1 = fold (removePosition r) (ea_positions (eng_heap e r)) e;
              e2 = fold (removePending r) (ea_pending (eng_heap e1 r)) e1;
              e3 = onAcct r (\<lambda>a. a\<lparr>ea_emitTimer := False, ea_untracked := True\<rparr>) e2
          in e3\<lparr>eng_accounts := filter (\<lambda>(i, _). i \<noteq> accountId) (eng_accounts e3)\<rparr>))"

definition refreshTradingDays :: "nat \<Rightarrow> Engine \<Rightarrow> Engine" where
  "refreshTradingDays r e =
     (let a = eng_heap e r in
      case dbCall (\<lambda>d. (Inr (countTradingDays (ea_id a) (ea_resetTime a) d), d)) e of
        (Inl _, e1) \<Rightarrow> e1
      | (Inr n, e1) \<Rightarrow> onAcct r (\<lambda>a. a\<lparr>ea_tradingDays := n\<rparr>) e1)"

section \<open>Rows from the database\<close>

definition applyAccountRow :: "TradingAccount \<Rightarrow> EngineAccount \<Rightarrow> EngineAccount" where
  "applyAccountRow row a =
     a\<lparr>ea_status := acc_status row, ea_balance := acc_balance row, ea_realizedPnl := acc_realizedPnl row,
       ea_highWaterMark := Math_max (ea_highWaterMark a) (acc_highWaterMark row),
       ea_dailyAnchorBalance := acc_dailyAnchorBalance row, ea_dailyAnchorDate := acc_dailyAnchorDate row\<rparr>"

definition mergedColumns :: "TradingAccount \<Rightarrow> EngineAccount \<Rightarrow> EngineAccount" where
  "mergedColumns row a =
     a\<lparr>ea_status := acc_status row, ea_balance := acc_balance row, ea_realizedPnl := acc_realizedPnl row,
       ea_highWaterMark := Math_max (ea_highWaterMark a) (acc_highWaterMark row),
       ea_dailyAnchorBalance := acc_dailyAnchorBalance row, ea_dailyAnchorDate := acc_dailyAnchorDate row,
       ea_expiresAt := acc_expiresAt row, ea_snapshot := acc_snapshot row\<rparr>"

definition mergeRow :: "nat \<Rightarrow> TradingAccount \<times> Position list \<Rightarrow> Engine \<Rightarrow> Engine" where
  "mergeRow r row e =
     (let e1 = onAcct r (mergedColumns (fst row)) e;
          e2 = fold (\<lambda>p e. if posOf r (pos_id p) e = None then addPosition r p e else e) (snd row) e1;
          e3 = fold (\<lambda>p e. if ep_id p \<notin> pos_id ` set (snd row) \<and> \<not> ep_closing p then removePosition r p e else e)
                 (ea_positions (eng_heap e2 r)) e2
      in recompute r e3)"

definition newEngineAccount :: "TradingAccount \<Rightarrow> int \<Rightarrow> EngineAccount" where
  "newEngineAccount row now =
     (let resetTime = parseResetTime (tpl_dailyLossResetTime (rules (acc_snapshot row))) in
      \<lparr>ea_id = acc_id row, ea_userId = acc_userId row, ea_status = acc_status row, ea_phase = acc_phase row,
       ea_snapshot = acc_snapshot row, ea_startingBalance = acc_startingBalance row, ea_balance = acc_balance row,
       ea_highWaterMark = acc_highWaterMark row, ea_dailyAnchorBalance = acc_dailyAnchorBalance row,
       ea_dailyAnchorDate = acc_dailyAnchorDate row, ea_realizedPnl = acc_realizedPnl row, ea_marginUsed = acc_marginUsed row,
       ea_expiresAt = acc_expiresAt row, ea_positions = [], ea_pending = [], ea_equity = acc_equity row, ea_floating = lit 0,
       ea_dirty = False, ea_breaching = False, ea_untracked = False, ea_tradingDays = 0, ea_resetTime = resetTime,
       ea_nextBoundary = nextDayStart resetTime now, ea_lastSnapshotEquity = acc_equity row, ea_lastSnapshotAt = now,
       ea_emitTimer = False, ea_ruleSweeps = (\<lambda>_. None), ea_ruleRetryAt = 0\<rparr>)"

definition statusName :: "AccountStatus \<Rightarrow> string" where
  "statusName s = (case s of ACTIVE \<Rightarrow> ''ACTIVE'' | PASSED \<Rightarrow> ''PASSED'' | FAILED \<Rightarrow> ''FAILED'' | SUSPENDED \<Rightarrow> ''SUSPENDED''
     | FROZEN \<Rightarrow> ''FROZEN'' | FUNDED \<Rightarrow> ''FUNDED'')"

text \<open>\<open>closeAllAndUntrack\<close> puts the work on the account's own queue and waits for it.\<close>

definition closeAllAndUntrack :: "nat \<Rightarrow> string \<Rightarrow> Engine \<Rightarrow> Engine" where
  "closeAllAndUntrack r why e = enqueue (ea_id (eng_heap e r)) (TCloseAll r why) e"

definition pendingRows :: "nat \<Rightarrow> db \<Rightarrow> Order list" where
  "pendingRows accountId d = filter (\<lambda>o1. ord_accountId o1 = accountId \<and> ord_status o1 = ORD_PENDING
     \<and> (ord_type o1 = LIMIT \<or> ord_type o1 = STOP)) (orders_t d)"

text \<open>The anchor at load: the rules engine re-anchors, or, when that throws, the current equity is taken.\<close>

definition reanchorAtLoad :: "nat \<Rightarrow> int \<Rightarrow> Engine \<Rightarrow> (db_error + bool) \<times> Engine" where
  "reanchorAtLoad r now e =
     (let a = eng_heap e r in
      if \<not> needsDailyReset (ea_dailyAnchorDate a) (ea_resetTime a) now then (Inr True, e)
      else case dbCall (evaluateAccount (ea_id a) None now) e of
        (Inr fresh, e1) \<Rightarrow>
          (let e2 = onAcct r (applyAccountRow fresh) e1 in
           if TRADABLE (acc_status fresh) then (Inr True, e2) else (Inr False, untrack (ea_id a) e2))
      | (Inl _, e1) \<Rightarrow>
          (let boundary = currentDayStart (ea_resetTime a) now;
               e2 = recompute r e1;
               equity = ea_equity (eng_heap e2 r)
           in case dbCall (dbWrite (captureDailyAnchor (ea_id a) equity boundary)) e2 of
                (Inl err, e3) \<Rightarrow> (Inl err, e3)
              | (Inr _, e3) \<Rightarrow> (Inr True, onAcct r (\<lambda>a. a\<lparr>ea_dailyAnchorBalance := equity, ea_dailyAnchorDate := boundary\<rparr>) e3)))"

text \<open>\<open>trackFromRow\<close> returns the object, or nothing when the account is not tradable.\<close>

definition trackFromRow :: "TradingAccount \<times> Position list \<Rightarrow> int \<Rightarrow> Engine \<Rightarrow> (db_error + nat option) \<times> Engine" where
  "trackFromRow row now e =
     (let i = acc_id (fst row) in
      if \<not> TRADABLE (acc_status (fst row))
      then (Inr None, case refOf i e of Some r \<Rightarrow> closeAllAndUntrack r (''status '' @ statusName (acc_status (fst row))) e | None \<Rightarrow> e)
      else (case refOf i e of
              Some r \<Rightarrow> (Inr (Some r), mergeRow r row e)
            | None \<Rightarrow>
               (let r = eng_nextRef e;
                    e1 = onAcct r (\<lambda>_. newEngineAccount (fst row) now) (e\<lparr>eng_nextRef := r + 1\<rparr>);
                    e2 = fold (addPosition r) (snd row) e1
                in case dbCall (\<lambda>d. (Inr (pendingRows i d), d)) e2 of
                     (Inl err, e3) \<Rightarrow> (Inl err, e3)
                   | (Inr orders, e3) \<Rightarrow>
                      (let e4 = fold (addPending r) orders e3;
                           e5 = e4\<lparr>eng_accounts := eng_accounts e4 @ [(i, r)]\<rparr>;
                           (res, e6) = reanchorAtLoad r now e5
                       in (case res of
                             Inl err \<Rightarrow> (Inl err, e6)
                           | Inr False \<Rightarrow> (Inr None, e6)
                           | Inr True \<Rightarrow> (Inr (Some r), emitAccount r True (recompute r (refreshTradingDays r e6))))))))"

definition reloadAccount :: "nat \<Rightarrow> int \<Rightarrow> Engine \<Rightarrow> (db_error + nat option) \<times> Engine" where
  "reloadAccount accountId now e =
     (case dbCall (\<lambda>d. (Inr (loadEngineAccount accountId d), d)) e of
        (Inl err, e1) \<Rightarrow> (Inl err, e1)
      | (Inr None, e1) \<Rightarrow> (Inr None, untrack accountId e1)
      | (Inr (Some row), e1) \<Rightarrow> trackFromRow row now e1)"

definition resolveAccount :: "Ctx \<Rightarrow> nat \<Rightarrow> int \<Rightarrow> Engine \<Rightarrow> (db_error + nat option) \<times> Engine" where
  "resolveAccount ctx accountId now e =
     (let (found, e1) = (case refOf accountId e of Some r \<Rightarrow> (Inr (Some r), e) | None \<Rightarrow> reloadAccount accountId now e) in
      case found of
        Inl err \<Rightarrow> (Inl err, e1)
      | Inr None \<Rightarrow> (Inr None, e1)
      | Inr (Some r) \<Rightarrow> (Inr (if ea_userId (eng_heap e1 r) \<noteq> cx_userId ctx \<and> \<not> cx_admin ctx then None else Some r), e1))"

definition reloadInstruments :: "Engine \<Rightarrow> Engine" where
  "reloadInstruments e =
     (case dbCall (\<lambda>d. (Inr (loadEnabledInstruments d), d)) e of
        (Inl _, e1) \<Rightarrow> e1
      | (Inr rows, e1) \<Rightarrow>
         (let known = filter (\<lambda>i. ins_symbol i \<in> ins_symbol ` set rows) (eng_instruments e1);
              fresh = filter (\<lambda>i. ins_symbol i \<notin> ins_symbol ` set (eng_instruments e1)) rows
          in e1\<lparr>eng_instruments :=
               map (\<lambda>i. case List.find (\<lambda>x. ins_symbol x = ins_symbol i) rows of Some x \<Rightarrow> x | None \<Rightarrow> i) known @ fresh\<rparr>))"

section \<open>News and market state\<close>

definition FEED_STALE_MS :: int where "FEED_STALE_MS = 5000"

definition marketNews :: "int \<Rightarrow> Engine \<Rightarrow> int \<times> NewsEvent list" where
  "marketNews now e = (eng_newsWindowMs e,
     filter (\<lambda>n. scheduledAt n + eng_newsWindowMs e \<ge> now \<and> scheduledAt n \<le> now + DAY_MS) (eng_newsEvents e))"

definition symbolStale :: "int \<Rightarrow> Engine \<Rightarrow> string \<Rightarrow> bool" where
  "symbolStale now e symbol \<longleftrightarrow>
     (case eng_quotes e symbol of None \<Rightarrow> True | Some q \<Rightarrow> now - eq_receivedAt q > FEED_STALE_MS)"

definition marketStateOf :: "int \<Rightarrow> Engine \<Rightarrow> MarketState \<times> HaltReason option" where
  "marketStateOf now e =
     (if eng_manualHalt e then (MS_HALTED, Some (ManualHalt (case eng_manualHaltReason e of Some r \<Rightarrow> r | None \<Rightarrow> ''manual halt'')))
      else case eng_lastTickAt e of
        None \<Rightarrow> (MS_HALTED, Some NoDataReceived)
      | Some t \<Rightarrow> if now - t > FEED_STALE_MS then (MS_HALTED, Some (NoDataFor ((now - t + 500) div 1000))) else (MS_OPEN, None))"

definition updateMarketState :: "bool \<Rightarrow> int \<Rightarrow> Engine \<Rightarrow> Engine" where
  "updateMarketState force now e =
     (let symbols = map ins_symbol (eng_instruments e);
          stale = filter (symbolStale now e) symbols;
          (state, reason) = marketStateOf now e;
          news = marketNews now e;
          newsKey = (fst news, map (\<lambda>n. (ne_id n, scheduledAt n)) (snd news));
          staleChanged = (set stale \<noteq> set (eng_staleSymbols e));
          changed = (force \<or> state \<noteq> ms_state (eng_marketState e) \<or> reason \<noteq> ms_reason (eng_marketState e) \<or> staleChanged);
          status = \<lparr>ms_state = state, ms_reason = reason,
            ms_symbols = map (\<lambda>s. (s, map_option eq_receivedAt (eng_quotes e s), symbolStale now e s)) symbols, ms_news = Some news\<rparr>;
          e1 = e\<lparr>eng_newsKey := newsKey, eng_staleSymbols := stale, eng_marketState := status\<rparr>
      in if changed \<or> newsKey \<noteq> eng_newsKey e then emit (BusMarketStatus status) e1 else e1)"

text \<open>
  The rows are those of \<open>EconomicEvent\<close> with HIGH impact; the query keeps two hours back to a week ahead,
  sorts by time and takes 1000. The window is in whole milliseconds.
\<close>

definition reloadNewsEvents :: "NewsEvent list \<Rightarrow> number \<Rightarrow> int \<Rightarrow> Engine \<Rightarrow> Engine" where
  "reloadNewsEvents rows setting now e =
     (let e1 = e\<lparr>eng_newsEvents := map (\<lambda>r. r\<lparr>ne_currency := toUpperCase (ne_currency r)\<rparr>)
            (take 1000 (sort_key scheduledAt (filter (\<lambda>r. now - 7200000 \<le> scheduledAt r \<and> scheduledAt r \<le> now + 7 * DAY_MS) rows))),
          eng_newsWindowMs := (case normalizeNewsWindowMinutes setting * lit 60000 of Fin x \<Rightarrow> \<lfloor>x\<rfloor> | _ \<Rightarrow> 0)\<rparr>
      in if eng_started e1 then updateMarketState False now e1 else e1)"

definition setManualHalt :: "bool \<Rightarrow> string option \<Rightarrow> int \<Rightarrow> Engine \<Rightarrow> (db_error + unit) \<times> Engine" where
  "setManualHalt halted reason now e =
     (let e1 = e\<lparr>eng_manualHalt := halted,
            eng_manualHaltReason := (if halted then Some (case reason of Some r \<Rightarrow> r | None \<Rightarrow> ''manual halt'') else None)\<rparr>
      in case dbCall (\<lambda>d. (Inr (), d)) e1 of
           (Inl err, e2) \<Rightarrow> (Inl err, e2)
         | (Inr _, e2) \<Rightarrow> (Inr (), updateMarketState True now (e2\<lparr>eng_killSwitch := halted\<rparr>)))"

text \<open>A quote that may be traded on: known, not stale, market open.\<close>

definition freshQuote :: "string \<Rightarrow> Engine \<Rightarrow> EngineQuote option" where
  "freshQuote symbol e =
     (case eng_quotes e symbol of
        None \<Rightarrow> None
      | Some q \<Rightarrow> if symbol \<in> set (eng_staleSymbols e) \<or> ms_state (eng_marketState e) \<noteq> MS_OPEN then None else Some q)"

definition ruleRestriction :: "(int \<Rightarrow> int) \<Rightarrow> EngineAccount \<Rightarrow> Instrument \<Rightarrow> int \<Rightarrow> Engine \<Rightarrow> RejectCode option" where
  "ruleRestriction zone a inst now e =
     (let r = rules (ea_snapshot a) in
      if ins_category inst \<noteq> CRYPTO \<and> \<not> tpl_weekendHoldingAllowed r \<and> isWeekendRestricted zone now then Some WEEKEND_CLOSED
      else if ins_category inst \<noteq> CRYPTO \<and> \<not> tpl_overnightHoldingAllowed r \<and> isRolloverWindow zone now then Some OVERNIGHT_CLOSED
      else if \<not> tpl_newsTradingAllowed r
              \<and> activeNewsWindow (eng_newsEvents e) (ins_baseCurrency inst) (ins_quoteCurrency inst) now (eng_newsWindowMs e) \<noteq> None
           then Some NEWS_WINDOW
      else None)"

end
