(* ===== verification/EngineHandlers.thy ===== *)
theory EngineHandlers
  imports EngineOps
begin

text \<open>
  \<open>src/trading/engine.ts\<close>: what the queued tasks and the handlers of client messages do, the tick, the
  timers, and the queue that runs them.
\<close>

section \<open>Closing\<close>

text \<open>\<open>cancelPendingOrders\<close> returns how many; a failing update is logged and the memory still cleared.\<close>

definition cancelPendingOrders :: "nat \<Rightarrow> string \<Rightarrow> (EnginePending \<Rightarrow> bool) \<Rightarrow> Engine \<Rightarrow> nat \<times> Engine" where
  "cancelPendingOrders r reason keep e =
     (let orders = filter keep (ea_pending (eng_heap e r)); ids = eo_id ` set orders in
      if orders = [] then (0, e)
      else let (_, e1) = dbCall (dbWrite (\<lambda>d. d\<lparr>orders_t := snd (updateMany (\<lambda>o1. ord_id o1 \<in> ids \<and> ord_status o1 = ORD_PENDING)
                 (\<lambda>o1. o1\<lparr>ord_status := ORD_CANCELLED, ord_rejectReason := Some (take 200 reason)\<rparr>) (orders_t d))\<rparr>)) e;
               e2 = fold (\<lambda>o1 e. emit (BusOrderResult (ea_id (eng_heap e r)) \<lparr>rp_clientOrderId = eo_clientOrderId o1,
                 rp_status = RS_REJECTED, rp_orderId = Some (eo_id o1), rp_positionId = None, rp_filledPrice = None,
                 rp_reason = Some reason\<rparr>) (removePending r o1 e)) orders e1
           in (length orders, e2))"

definition netProfitOf :: "CloseOutcome \<Rightarrow> number option" where
  "netProfitOf res = map_option trd_netProfit (co_trade res)"

definition closedInfo :: "EnginePosition \<Rightarrow> number \<Rightarrow> PositionInfo" where
  "closedInfo p exit = (positionInfo p)\<lparr>pi_currentPrice := Some exit, pi_floatingPnl := lit 0, pi_marginUsed := lit 0\<rparr>"

text \<open>What the outcome of a close does to memory.\<close>

definition applyClose :: "nat \<Rightarrow> EnginePosition \<Rightarrow> number \<Rightarrow> CloseReason \<Rightarrow> EngineQuote option \<Rightarrow> CloseOutcome \<Rightarrow> Engine \<Rightarrow> Engine" where
  "applyClose r p exit reason q res e =
     (let e1 = onAcct r (applyAccountRow (co_account res)) e; i = ea_id (eng_heap e1 r) in
      if pos_status (co_position res) = POS_CLOSED
      then emit (BusPosition i CLOSED_EVENT (closedInfo p exit) (Some reason) (netProfitOf res)) (removePosition r p e1)
      else let e2 = onPos r (ep_id p) (\<lambda>p. p\<lparr>ep_volume := pos_volume (co_position res), ep_marginUsed := pos_marginUsed (co_position res),
                 ep_closing := False\<rparr>) e1;
               e3 = (case q of Some q \<Rightarrow> markPosition r (ep_id p) q e2 | None \<Rightarrow> e2);
               p3 = (case posOf r (ep_id p) e3 of Some p3 \<Rightarrow> p3 | None \<Rightarrow> p)
           in emit (BusPosition i MODIFIED (positionInfo p3) (Some reason) (netProfitOf res)) e3)"

definition closeRequestOf :: "EnginePosition \<Rightarrow> Instrument \<Rightarrow> number \<Rightarrow> number \<times> number \<Rightarrow> CloseReason \<Rightarrow> number \<Rightarrow> nat option \<Rightarrow>
    EngineQuote option \<Rightarrow> CloseInput" where
  "closeRequestOf p inst exit conv reason closeVolume actorId q =
     \<lparr>ci_positionId = ep_id p, ci_closePrice = exit, ci_closedAt = None, ci_closeReason = reason, ci_grossProfit = fst conv,
      ci_commission = Some (roundCurrency (ins_commissionPerLot inst * closeVolume)), ci_swap = Some (lit 0),
      ci_volume = Some closeVolume, ci_exitTickTs = map_option eq_ts q, ci_fxRate = Some (snd conv),
      ci_quoteCurrency = Some (ins_quoteCurrency inst), ci_actorId = actorId\<rparr>"

definition closePositionInternal :: "nat \<Rightarrow> nat \<Rightarrow> number \<Rightarrow> CloseReason \<Rightarrow> number option \<Rightarrow> nat option \<Rightarrow> EngineQuote option \<Rightarrow>
    bool \<Rightarrow> int \<Rightarrow> Engine \<Rightarrow> (db_error + number option) \<times> Engine" where
  "closePositionInternal r i price reason volume actorId q keepTrackedOnFail now e =
     (case posOf r i e of
        None \<Rightarrow> (Inr None, e)
      | Some p \<Rightarrow>
         (case instrumentOf (ep_symbol p) e of
            None \<Rightarrow> (Inl (ServiceFault ''instrument not loaded''), e)
          | Some inst \<Rightarrow>
             (let closeVolume = (case volume of Some v \<Rightarrow> v | None \<Rightarrow> ep_volume p);
                  exit = roundPrice price (ins_digits inst)
              in case toAccountCurrency (eng_fx e)
                   (grossPnlQuote (ep_side p) (ep_entryPrice p) exit closeVolume (ins_contractSize inst)) (ins_quoteCurrency inst) of
                   Inl _ \<Rightarrow> (Inl (ServiceFault ''no fx path''), e)
                 | Inr conv \<Rightarrow>
                    (case dbCall (recordPositionClose (closeRequestOf p inst exit conv reason closeVolume actorId q) now) e of
                       (Inl err, e1) \<Rightarrow> (Inl err, e1)
                     | (Inr res, e1) \<Rightarrow>
                        (let e2 = refreshTradingDays r (recompute r (applyClose r p exit reason q res e1)) in
                         if \<not> TRADABLE (acc_status (co_account res)) \<and> \<not> keepTrackedOnFail
                         then let (_, e3) = cancelPendingOrders r (''ACCOUNT_'' @ statusName (acc_status (co_account res))) (\<lambda>_. True) e2
                              in (Inr (netProfitOf res), untrack (ea_id (eng_heap e3 r)) (emitAccount r True e3))
                         else (Inr (netProfitOf res), emitAccount r True e2))))))"

text \<open>A guarded close: \<open>closing\<close> is set first and taken back when the close throws.\<close>

definition guardedClose :: "nat \<Rightarrow> nat \<Rightarrow> number \<Rightarrow> CloseReason \<Rightarrow> number option \<Rightarrow> nat option \<Rightarrow> EngineQuote option \<Rightarrow>
    bool \<Rightarrow> int \<Rightarrow> Engine \<Rightarrow> (db_error + number option) \<times> Engine" where
  "guardedClose r i price reason volume actorId q keep now e =
     (case closePositionInternal r i price reason volume actorId q keep now (onPos r i (\<lambda>p. p\<lparr>ep_closing := True\<rparr>) e) of
        (Inl err, e1) \<Rightarrow> (Inl err, onPos r i (\<lambda>p. p\<lparr>ep_closing := False\<rparr>) e1)
      | (Inr x, e1) \<Rightarrow> (Inr x, e1))"

section \<open>Breach\<close>

definition flushAccount :: "nat \<Rightarrow> Engine \<Rightarrow> (db_error + unit) \<times> Engine" where
  "flushAccount r e =
     (let a = eng_heap e r;
          marks = map (\<lambda>p. \<lparr>mk_positionId = ep_id p, mk_currentPrice = (case ep_currentPrice p of Some c \<Rightarrow> c | None \<Rightarrow> ep_entryPrice p),
             mk_floatingPnl = ep_floatingPnl p\<rparr>) (ea_positions a)
      in case dbCall (dbWrite (persistMarks marks [\<lparr>am_accountId = ea_id a, am_equity = ea_equity a, am_marginUsed = ea_marginUsed a\<rparr>])) e of
           (Inl err, e1) \<Rightarrow> (Inl err, e1)
         | (Inr _, e1) \<Rightarrow> (Inr (), onAcct r (\<lambda>a. a\<lparr>ea_positions := map (\<lambda>p. p\<lparr>ep_dirty := False\<rparr>) (ea_positions a), ea_dirty := False\<rparr>) e1))"

text \<open>Close every position that has a quote, whatever happens to the others.\<close>

fun closeAllLoop :: "nat \<Rightarrow> CloseReason \<Rightarrow> int \<Rightarrow> EnginePosition list \<Rightarrow> Engine \<Rightarrow> Engine" where
  "closeAllLoop r reason now [] e = e"
| "closeAllLoop r reason now (p # ps) e =
     (case eng_quotes e (ep_symbol p) of
        None \<Rightarrow> closeAllLoop r reason now ps e
      | Some q \<Rightarrow> closeAllLoop r reason now ps
          (snd (guardedClose r (ep_id p) (markPrice (ep_side p) q) reason None None (Some q) True now e)))"

definition breachName :: "FailureReason \<Rightarrow> string" where
  "breachName reason = (case reason of MAX_DRAWDOWN \<Rightarrow> ''MAX_DRAWDOWN'' | DAILY_LOSS \<Rightarrow> ''DAILY_LOSS'' | _ \<Rightarrow> ''EXPIRED'')"

definition executeBreach :: "nat \<Rightarrow> FailureReason \<Rightarrow> number \<Rightarrow> number \<Rightarrow> int \<Rightarrow> Engine \<Rightarrow> (db_error + unit) \<times> Engine" where
  "executeBreach r reason equity level now e =
     (case flushAccount r e of
        (Inl err, e1) \<Rightarrow> (Inl err, e1)
      | (Inr _, e1) \<Rightarrow>
         (let i = ea_id (eng_heap e1 r);
              e2 = closeAllLoop r CR_BREACH now (ea_positions (eng_heap e1 r)) e1;
              e3 = (case dbCall (txn (failAccountForBreach i reason equity now)) e2 of
                      (Inl _, e3) \<Rightarrow> e3
                    | (Inr after, e3) \<Rightarrow> onAcct r (\<lambda>a. a\<lparr>ea_status := acc_status after, ea_balance := acc_balance after,
                        ea_realizedPnl := acc_realizedPnl after\<rparr>) e3);
              (_, e4) = cancelPendingOrders r (''ACCOUNT_'' @ breachName reason) (\<lambda>_. True) e3
          in (Inr (), untrack i (emitAccount r True (recompute r e4)))))"

text \<open>\<open>closeAllAndUntrack\<close>'s task.\<close>

definition underscored :: "string \<Rightarrow> string" where
  "underscored s = map (\<lambda>c. if is_space c then CHR ''_'' else c) (toUpperCase s)"

definition closeAllTask :: "nat \<Rightarrow> string \<Rightarrow> int \<Rightarrow> Engine \<Rightarrow> Engine" where
  "closeAllTask r why now e =
     (let i = ea_id (eng_heap e r);
          e1 = closeAllLoop r CR_ADMIN now (ea_positions (eng_heap e r)) e;
          (_, e2) = cancelPendingOrders r (''ACCOUNT_'' @ underscored why) (\<lambda>_. True) e1
      in untrack i (emitAccount r True e2))"

section \<open>Holding rules and anchors\<close>

text \<open>
  The loop of \<open>flattenForRule\<close>: it returns how many positions it closed and how many it could not, and
  stops when a close has untracked the account.
\<close>

fun flattenLoop :: "nat \<Rightarrow> CloseReason \<Rightarrow> int \<Rightarrow> EnginePosition list \<Rightarrow> nat \<times> nat \<Rightarrow> Engine \<Rightarrow> (nat \<times> nat) \<times> Engine" where
  "flattenLoop r reason now [] counts e = (counts, e)"
| "flattenLoop r reason now (p # ps) (n, failures) e =
     (if ea_untracked (eng_heap e r) then ((n, failures), e)
      else let skip = (case instrumentOf (ep_symbol p) e of None \<Rightarrow> True | Some inst \<Rightarrow> ins_category inst = CRYPTO)
                 \<or> (case posOf r (ep_id p) e of Some p1 \<Rightarrow> ep_closing p1 | None \<Rightarrow> ep_closing p)
           in if skip then flattenLoop r reason now ps (n, failures) e
              else let q = eng_quotes e (ep_symbol p);
                       price = (case q of Some q \<Rightarrow> Some (markPrice (ep_side p) q)
                                 | None \<Rightarrow> (case posOf r (ep_id p) e of Some p1 \<Rightarrow> ep_currentPrice p1 | None \<Rightarrow> ep_currentPrice p))
                   in (case price of
                         None \<Rightarrow> flattenLoop r reason now ps (n, failures + 1) e
                       | Some price \<Rightarrow>
                          (case guardedClose r (ep_id p) price reason None None q False now e of
                             (Inl _, e1) \<Rightarrow> flattenLoop r reason now ps (n, failures + 1) e1
                           | (Inr _, e1) \<Rightarrow> flattenLoop r reason now ps (n + 1, failures) e1)))"

definition ruleReason :: "HoldingRule \<Rightarrow> CloseReason" where
  "ruleReason rule = (case rule of RULE_WEEKEND \<Rightarrow> CR_WEEKEND | RULE_OVERNIGHT \<Rightarrow> CR_OVERNIGHT)"

definition RULE_RETRY_MS :: int where "RULE_RETRY_MS = 60000"

definition ruleTitle :: "HoldingRule \<Rightarrow> string" where
  "ruleTitle rule = (case rule of RULE_WEEKEND \<Rightarrow> ''trading.notify.weekend.title'' | RULE_OVERNIGHT \<Rightarrow> ''trading.notify.overnight.title'')"

definition flattenForRule :: "nat \<Rightarrow> HoldingRule \<Rightarrow> int \<Rightarrow> Engine \<Rightarrow> Engine" where
  "flattenForRule r rule now e =
     (if ea_untracked (eng_heap e r) \<or> ea_breaching (eng_heap e r) then e
      else let ((n, failures), e1) = flattenLoop r (ruleReason rule) now (ea_positions (eng_heap e r)) (0, 0) e;
               (cancelled, e2) = (if rule = RULE_WEEKEND \<and> \<not> ea_untracked (eng_heap e1 r)
                 then cancelPendingOrders r ''WEEKEND_CLOSED''
                   (\<lambda>o1. case instrumentOf (eo_symbol o1) e1 of Some inst \<Rightarrow> ins_category inst \<noteq> CRYPTO | None \<Rightarrow> True) e1
                 else (0, e1));
               e3 = (if failures > 0 then onAcct r (\<lambda>a. a\<lparr>ea_ruleSweeps := (ea_ruleSweeps a)(rule := None),
                       ea_ruleRetryAt := now + RULE_RETRY_MS\<rparr>) e2 else e2)
           in if n = 0 \<and> cancelled = 0 then e3
              else snd (dbCall (dbWrite (notifyUser (ea_userId (eng_heap e3 r)) (ruleTitle rule))) e3))"

definition captureAnchorTask :: "nat \<Rightarrow> int \<Rightarrow> Engine \<Rightarrow> Engine" where
  "captureAnchorTask r boundary e =
     (if ea_untracked (eng_heap e r) then e
      else let e1 = recompute r e; equity = ea_equity (eng_heap e1 r) in
        (case dbCall (dbWrite (captureDailyAnchor (ea_id (eng_heap e1 r)) equity boundary)) e1 of
           (Inl _, e2) \<Rightarrow> e2
         | (Inr _, e2) \<Rightarrow> emitAccount r True (onAcct r (\<lambda>a. a\<lparr>ea_dailyAnchorBalance := equity, ea_dailyAnchorDate := boundary\<rparr>) e2)))"

end
