(* ===== verification/EngineOrders.thy ===== *)
theory EngineOrders
  imports EngineHandlers
begin

text \<open>
  \<open>src/trading/engine.ts\<close>: the handlers of client messages, the tick, the timers and the runner of the
  per-account queues. Reject details (the text after the code) are left out.
\<close>

section \<open>Placing orders\<close>

definition codeName :: "RejectCode \<Rightarrow> string" where
  "codeName c = (case c of INVALID_VOLUME \<Rightarrow> ''INVALID_VOLUME'' | INVALID_PRICE \<Rightarrow> ''INVALID_PRICE''
     | INVALID_STOP_LOSS \<Rightarrow> ''INVALID_STOP_LOSS'' | INVALID_TAKE_PROFIT \<Rightarrow> ''INVALID_TAKE_PROFIT''
     | MAX_POSITIONS \<Rightarrow> ''MAX_POSITIONS'' | MAX_POSITION_SIZE \<Rightarrow> ''MAX_POSITION_SIZE''
     | INSUFFICIENT_MARGIN \<Rightarrow> ''INSUFFICIENT_MARGIN'' | NO_FX_PATH \<Rightarrow> ''NO_FX_PATH'' | MARKET_HALTED \<Rightarrow> ''MARKET_HALTED''
     | WEEKEND_CLOSED \<Rightarrow> ''WEEKEND_CLOSED'' | OVERNIGHT_CLOSED \<Rightarrow> ''OVERNIGHT_CLOSED'' | NEWS_WINDOW \<Rightarrow> ''NEWS_WINDOW''
     | UNKNOWN_SYMBOL \<Rightarrow> ''UNKNOWN_SYMBOL'' | ACCOUNT_NOT_TRADABLE \<Rightarrow> ''ACCOUNT_NOT_TRADABLE'' | FORBIDDEN \<Rightarrow> ''FORBIDDEN''
     | NOT_FOUND \<Rightarrow> ''NOT_FOUND'' | INTERNAL \<Rightarrow> ''INTERNAL'')"

definition rejectReply :: "OrderPlace \<Rightarrow> RejectCode \<Rightarrow> OrderReply" where
  "rejectReply m c = \<lparr>rp_clientOrderId = op_clientOrderId m, rp_status = RS_REJECTED, rp_orderId = None, rp_positionId = None,
     rp_filledPrice = None, rp_reason = Some (codeName c)\<rparr>"

definition rejectInput :: "nat \<Rightarrow> OrderPlace \<Rightarrow> RejectCode \<Rightarrow> RejectInput" where
  "rejectInput accountId m c =
     \<lparr>ri_accountId = accountId, ri_symbol = op_symbol m, ri_side = op_side m,
      ri_volume = (if truthy (op_volume m) then op_volume m else lit 0), ri_type = op_orderType m, ri_price = op_price m,
      ri_clientOrderId = op_clientOrderId m, ri_reason = codeName c\<rparr>"

text \<open>\<open>reject\<close>: the order is recorded unless its symbol is unknown; a failing record is logged.\<close>

definition rejectOrder :: "nat \<Rightarrow> OrderPlace \<Rightarrow> RejectCode \<Rightarrow> Engine \<Rightarrow> OrderReply \<times> Engine" where
  "rejectOrder r m c e =
     (rejectReply m c,
      if c = UNKNOWN_SYMBOL then e
      else snd (dbCall (\<lambda>d. (let (o1, d') = recordRejectedOrder (rejectInput (ea_id (eng_heap e r)) m c) d in (Inr o1, d'))) e))"

text \<open>The guards every order passes, in the order of the code: the code of the first that fails.\<close>

definition orderGuards :: "(int \<Rightarrow> int) \<Rightarrow> nat \<Rightarrow> OrderPlace \<Rightarrow> int \<Rightarrow> Engine \<Rightarrow>
    RejectCode + Instrument \<times> EngineQuote \<times> number \<times> number" where
  "orderGuards zone r m now e =
     (let a = eng_heap e r; limits = rules (ea_snapshot a); volume = roundVolume (op_volume m) in
      if ea_breaching a \<or> \<not> TRADABLE (ea_status a) then Inl ACCOUNT_NOT_TRADABLE
      else case instrumentOf (op_symbol m) e of
        None \<Rightarrow> Inl UNKNOWN_SYMBOL
      | Some inst \<Rightarrow>
         if \<not> ins_enabled inst then Inl UNKNOWN_SYMBOL
         else case ruleRestriction zone a inst now e of
           Some c \<Rightarrow> Inl c
         | None \<Rightarrow>
            (case freshQuote (op_symbol m) e of
               None \<Rightarrow> Inl MARKET_HALTED
             | Some q \<Rightarrow>
                (case validateVolume (op_volume m) inst of
                   Some c \<Rightarrow> Inl c
                 | None \<Rightarrow>
                    if (case tpl_maxPositions limits of Some n \<Rightarrow> n > 0 \<and> int (length (ea_positions a) + length (ea_pending a)) \<ge> n
                        | None \<Rightarrow> False) then Inl MAX_POSITIONS
                    else if (case tpl_maxPositionSize limits of Some s \<Rightarrow> s > lit 0 \<and> volume > s + lit (1 / 10 ^ 9) | None \<Rightarrow> False)
                         then Inl MAX_POSITION_SIZE
                    else (case fx_rate (eng_fx e) (ins_quoteCurrency inst) of
                            None \<Rightarrow> Inl NO_FX_PATH
                          | Some rate \<Rightarrow> Inr (inst, q, volume, rate)))))"

text \<open>Stops and margin at a price: the margin required, or the reject code.\<close>

definition marginGuard :: "nat \<Rightarrow> OrderPlace \<Rightarrow> Instrument \<Rightarrow> number \<Rightarrow> number \<Rightarrow> number \<Rightarrow> Engine \<Rightarrow> RejectCode + number" where
  "marginGuard r m inst volume price rate e =
     (let a = eng_heap e r; free = roundCurrency (ea_equity a - ea_marginUsed a);
          margin = requiredMargin volume (ins_contractSize inst) price rate (tpl_leverage (rules (ea_snapshot a)))
      in case validateStops (op_side m) price (op_stopLoss m) (op_takeProfit m) of
           Some c \<Rightarrow> Inl c
         | None \<Rightarrow> if margin > free then Inl INSUFFICIENT_MARGIN else Inr margin)"

definition filledReply :: "OrderPlace \<Rightarrow> Order \<Rightarrow> OrderReply" where
  "filledReply m o1 = \<lparr>rp_clientOrderId = op_clientOrderId m, rp_status = RS_FILLED, rp_orderId = Some (ord_id o1),
     rp_positionId = ord_positionId o1, rp_filledPrice = ord_filledPrice o1, rp_reason = None\<rparr>"

definition knownReply :: "OrderPlace \<Rightarrow> Order \<Rightarrow> OrderReplyStatus \<Rightarrow> string option \<Rightarrow> OrderReply" where
  "knownReply m o1 status reason = \<lparr>rp_clientOrderId = op_clientOrderId m, rp_status = status, rp_orderId = Some (ord_id o1),
     rp_positionId = None, rp_filledPrice = None, rp_reason = reason\<rparr>"

text \<open>The answer to a client order id that is already recorded: for a market order, and for a resting one.\<close>

definition duplicateReply :: "OrderPlace \<Rightarrow> Order \<Rightarrow> OrderReply" where
  "duplicateReply m o1 =
     (if ord_status o1 = ORD_FILLED then filledReply m o1
      else knownReply m o1 (if ord_status o1 = ORD_PENDING then RS_PENDING else RS_REJECTED) (ord_rejectReason o1))"

definition existingReply :: "OrderPlace \<Rightarrow> Order \<Rightarrow> OrderReply" where
  "existingReply m o1 =
     (case ord_status o1 of
        ORD_FILLED \<Rightarrow> filledReply m o1
      | ORD_PENDING \<Rightarrow> knownReply m o1 RS_PENDING None
      | ORD_CANCELLED \<Rightarrow> knownReply m o1 RS_REJECTED (Some (case ord_rejectReason o1 of Some x \<Rightarrow> x | None \<Rightarrow> ''CANCELLED''))
      | ORD_REJECTED \<Rightarrow> knownReply m o1 RS_REJECTED (Some (case ord_rejectReason o1 of Some x \<Rightarrow> x | None \<Rightarrow> ''REJECTED'')))"

definition marketOpenInput :: "nat \<Rightarrow> OrderPlace \<Rightarrow> Instrument \<Rightarrow> EngineQuote \<Rightarrow> number \<Rightarrow> number \<Rightarrow> number \<Rightarrow> OpenInput" where
  "marketOpenInput accountId m inst q volume price margin =
     \<lparr>oi_accountId = accountId, oi_symbol = ins_symbol inst, oi_side = op_side m, oi_volume = volume, oi_entryPrice = price,
      oi_stopLoss = op_stopLoss m, oi_takeProfit = op_takeProfit m, oi_marginUsed = margin, oi_entryTickTs = Some (eq_ts q),
      oi_feedSource = Some (eq_source q), oi_clientOrderId = op_clientOrderId m, oi_type = MARKET, oi_price = None,
      oi_existingOrderId = None\<rparr>"

definition placeMarket :: "nat \<Rightarrow> OrderPlace \<Rightarrow> Instrument \<Rightarrow> EngineQuote \<Rightarrow> number \<Rightarrow> number \<Rightarrow> int \<Rightarrow> Engine \<Rightarrow> OrderReply \<times> Engine" where
  "placeMarket r m inst q volume rate now e =
     (let price = fillPrice (op_side m) q; i = ea_id (eng_heap e r) in
      case marginGuard r m inst volume price rate e of
        Inl c \<Rightarrow> rejectOrder r m c e
      | Inr margin \<Rightarrow>
         (case dbCall (txn (openPosition (marketOpenInput i m inst q volume price margin) now)) e of
            (Inl _, e1) \<Rightarrow> (rejectReply m INTERNAL, e1)
          | (Inr res, e1) \<Rightarrow>
             if or_duplicate res
             then (duplicateReply m (or_order res),
                   recompute r (case or_position res of
                     Some p \<Rightarrow> if posOf r (pos_id p) e1 = None \<and> pos_status p = POS_OPEN then addPosition r p e1 else e1
                   | None \<Rightarrow> e1))
             else (case or_position res of
                     None \<Rightarrow> (rejectReply m INTERNAL, e1)
                   | Some p \<Rightarrow>
                      (let e2 = recompute r (addPosition r p e1);
                           info = (case posOf r (pos_id p) e2 of Some x \<Rightarrow> positionInfo x | None \<Rightarrow> positionInfo (enginePosition p))
                       in (\<lparr>rp_clientOrderId = op_clientOrderId m, rp_status = RS_FILLED, rp_orderId = Some (ord_id (or_order res)),
                            rp_positionId = Some (pos_id p), rp_filledPrice = Some price, rp_reason = None\<rparr>,
                           emitAccount r True (emit (BusPosition i OPENED info None None) e2))))))"

text \<open>\<open>prisma.order.create\<close> of a resting order.\<close>

definition createOrder :: "nat \<Rightarrow> OrderPlace \<Rightarrow> Instrument \<Rightarrow> number \<Rightarrow> number \<Rightarrow> db \<Rightarrow> db_error + Order \<times> db" where
  "createOrder accountId m inst volume price d =
     (if orderByClientId accountId (op_clientOrderId m) d \<noteq> None then Inl (UniqueViolation ''clientOrderId'')
      else let o1 = \<lparr>ord_id = next_id d, ord_accountId = accountId, ord_symbol = ins_symbol inst,
             ord_clientOrderId = op_clientOrderId m, ord_side = op_side m, ord_type = op_orderType m, ord_volume = volume,
             ord_price = Some price, ord_stopLoss = op_stopLoss m, ord_takeProfit = op_takeProfit m, ord_status = ORD_PENDING,
             ord_rejectReason = None, ord_filledPrice = None, ord_filledAt = None, ord_positionId = None\<rparr>
           in Inr (o1, d\<lparr>orders_t := orders_t d @ [o1], next_id := next_id d + 1\<rparr>))"

definition placePending :: "nat \<Rightarrow> OrderPlace \<Rightarrow> Instrument \<Rightarrow> EngineQuote \<Rightarrow> number \<Rightarrow> number \<Rightarrow> Engine \<Rightarrow> OrderReply \<times> Engine" where
  "placePending r m inst q volume rate e =
     (let i = ea_id (eng_heap e r) in
      case validatePendingPrice (op_side m) (op_orderType m) (op_price m) q of
        Some c \<Rightarrow> rejectOrder r m c e
      | None \<Rightarrow>
         (let price = roundPrice (case op_price m of Some p \<Rightarrow> p | None \<Rightarrow> NaN) (ins_digits inst) in
          case marginGuard r m inst volume price rate e of
            Inl c \<Rightarrow> rejectOrder r m c e
          | Inr _ \<Rightarrow>
             (case dbCall (txn (createOrder i m inst volume price)) e of
                (Inr o1, e1) \<Rightarrow>
                  (\<lparr>rp_clientOrderId = op_clientOrderId m, rp_status = RS_PENDING, rp_orderId = Some (ord_id o1), rp_positionId = None,
                    rp_filledPrice = None, rp_reason = None\<rparr>, emitAccount r True (addPending r o1 e1))
              | (Inl err, e1) \<Rightarrow>
                  if err = UniqueViolation ''clientOrderId''
                  then (case dbCall (\<lambda>d. (Inr (orderByClientId i (op_clientOrderId m) d), d)) e1 of
                          (Inr (Some o1), e2) \<Rightarrow> (existingReply m o1, e2)
                        | (_, e2) \<Rightarrow> (rejectReply m INTERNAL, e2))
                  else (rejectReply m INTERNAL, e1))))"

definition placeOrder :: "(int \<Rightarrow> int) \<Rightarrow> Ctx \<Rightarrow> OrderPlace \<Rightarrow> int \<Rightarrow> Engine \<Rightarrow> (db_error + OrderReply) \<times> Engine" where
  "placeOrder zone ctx m now e =
     (case resolveAccount ctx (op_accountId m) now e of
        (Inl err, e1) \<Rightarrow> (Inl err, e1)
      | (Inr None, e1) \<Rightarrow> (Inr (rejectReply m ACCOUNT_NOT_TRADABLE), e1)
      | (Inr (Some r), e1) \<Rightarrow>
         (case orderGuards zone r m now e1 of
            Inl c \<Rightarrow> (let (reply, e2) = rejectOrder r m c e1 in (Inr reply, e2))
          | Inr (inst, q, volume, rate) \<Rightarrow>
             (let (reply, e2) = (if op_orderType m = MARKET then placeMarket r m inst q volume rate now e1
                                 else placePending r m inst q volume rate e1)
              in (Inr reply, e2))))"

section \<open>Triggering, closing, modifying\<close>

definition cancelReasonOf :: "nat \<Rightarrow> EnginePending \<Rightarrow> EngineQuote \<Rightarrow> Engine \<Rightarrow> RejectCode + number \<times> number" where
  "cancelReasonOf r o1 q e =
     (case instrumentOf (eo_symbol o1) e of
        None \<Rightarrow> Inl UNKNOWN_SYMBOL
      | Some inst \<Rightarrow>
         (case fx_rate (eng_fx e) (ins_quoteCurrency inst) of
            None \<Rightarrow> Inl NO_FX_PATH
          | Some rate \<Rightarrow>
             (let a = eng_heap e r;
                  price = roundPrice (pendingFillPrice (eo_side o1) (eo_type o1) (eo_price o1) q) (ins_digits inst);
                  margin = requiredMargin (eo_volume o1) (ins_contractSize inst) price rate (tpl_leverage (rules (ea_snapshot a)))
              in if margin > roundCurrency (ea_equity a - ea_marginUsed a) then Inl INSUFFICIENT_MARGIN else Inr (price, margin))))"

definition pendingOpenInput :: "nat \<Rightarrow> EnginePending \<Rightarrow> EngineQuote \<Rightarrow> number \<Rightarrow> number \<Rightarrow> OpenInput" where
  "pendingOpenInput accountId o1 q price margin =
     \<lparr>oi_accountId = accountId, oi_symbol = eo_symbol o1, oi_side = eo_side o1, oi_volume = eo_volume o1, oi_entryPrice = price,
      oi_stopLoss = eo_stopLoss o1, oi_takeProfit = eo_takeProfit o1, oi_marginUsed = margin, oi_entryTickTs = Some (eq_ts q),
      oi_feedSource = Some (eq_source q), oi_clientOrderId = eo_clientOrderId o1, oi_type = eo_type o1,
      oi_price = Some (eo_price o1), oi_existingOrderId = Some (eo_id o1)\<rparr>"

definition triggerReply :: "EnginePending \<Rightarrow> OrderReplyStatus \<Rightarrow> nat option \<Rightarrow> number option \<Rightarrow> string option \<Rightarrow> OrderReply" where
  "triggerReply o1 status positionId price reason =
     \<lparr>rp_clientOrderId = eo_clientOrderId o1, rp_status = status, rp_orderId = Some (eo_id o1), rp_positionId = positionId,
      rp_filledPrice = price, rp_reason = reason\<rparr>"

definition triggerPending :: "nat \<Rightarrow> nat \<Rightarrow> EngineQuote \<Rightarrow> int \<Rightarrow> Engine \<Rightarrow> (db_error + unit) \<times> Engine" where
  "triggerPending r i q now e =
     (case (if ea_untracked (eng_heap e r) then None else pendingOf r i e) of
        None \<Rightarrow> (Inr (), e)
      | Some o1 \<Rightarrow>
         (let acct = ea_id (eng_heap e r) in
          case cancelReasonOf r o1 q e of
            Inl c \<Rightarrow>
             (case dbCall (dbWrite (\<lambda>d. d\<lparr>orders_t := snd (updateMany (\<lambda>x. ord_id x = i \<and> ord_status x = ORD_PENDING)
                  (\<lambda>x. x\<lparr>ord_status := ORD_CANCELLED, ord_rejectReason := Some (codeName c)\<rparr>) (orders_t d))\<rparr>)) e of
                (Inl err, e1) \<Rightarrow> (Inl err, e1)
              | (Inr _, e1) \<Rightarrow> (Inr (), emit (BusOrderResult acct (triggerReply o1 RS_REJECTED None None (Some (codeName c))))
                  (removePending r o1 e1)))
          | Inr (price, margin) \<Rightarrow>
             (case dbCall (txn (openPosition (pendingOpenInput acct o1 q price margin) now)) e of
                (Inl err, e1) \<Rightarrow> (Inl err, onPending r i (\<lambda>x. x\<lparr>eo_triggering := False\<rparr>) e1)
              | (Inr res, e1) \<Rightarrow>
                 (let e2 = removePending r o1 e1;
                      e3 = (case or_position res of
                              Some p \<Rightarrow> if posOf r (pos_id p) e2 = None
                                then (let e3 = addPosition r p e2 in emit (BusPosition acct OPENED
                                  (case posOf r (pos_id p) e3 of Some x \<Rightarrow> positionInfo x | None \<Rightarrow> positionInfo (enginePosition p)) None None) e3)
                                else e2
                            | None \<Rightarrow> e2);
                      e4 = emit (BusOrderResult acct (triggerReply o1 RS_FILLED (map_option pos_id (or_position res)) (Some price) None))
                             (recompute r e3)
                  in (Inr (), emitAccount r True e4)))))"

text \<open>The volume of a close request: the whole position, a valid part of it, or a refusal.\<close>

definition closeVolumeRequest :: "Instrument option \<Rightarrow> EnginePosition \<Rightarrow> number option \<Rightarrow> number option" where
  "closeVolumeRequest inst p requested =
     (case requested of
        None \<Rightarrow> Some (ep_volume p)
      | Some v \<Rightarrow>
         if \<not> isFinite v \<or> v \<le> lit 0 \<or> v > ep_volume p + lit (1 / 10 ^ 9) then None
         else if v < ep_volume p - lit (1 / 10 ^ 9)
         then (case inst of
                 Some inst \<Rightarrow> if validateVolume v inst \<noteq> None \<or> validateVolume (ep_volume p - v) inst \<noteq> None then None
                   else Some (roundVolume v)
               | None \<Rightarrow> Some (roundVolume v))
         else Some (ep_volume p))"

definition closePositionRequest :: "Ctx \<Rightarrow> ClosePlace \<Rightarrow> int \<Rightarrow> Engine \<Rightarrow> (db_error + ServerMessage list) \<times> Engine" where
  "closePositionRequest ctx m now e =
     (let fail = (\<lambda>c. [ErrorMsg c (Some (cp_positionId m))]) in
      case resolveAccount ctx (cp_accountId m) now e of
        (Inl err, e1) \<Rightarrow> (Inl err, e1)
      | (Inr None, e1) \<Rightarrow> (Inr (fail ''NOT_FOUND''), e1)
      | (Inr (Some r), e1) \<Rightarrow>
         (case posOf r (cp_positionId m) e1 of
            None \<Rightarrow> (Inr (fail ''NOT_FOUND''), e1)
          | Some p \<Rightarrow>
             if ep_closing p \<or> ea_breaching (eng_heap e1 r) then (Inr (fail ''CONFLICT''), e1)
             else (case freshQuote (ep_symbol p) e1 of
                     None \<Rightarrow> (Inr (fail ''MARKET_HALTED''), e1)
                   | Some q \<Rightarrow>
                      (case closeVolumeRequest (instrumentOf (ep_symbol p) e1) p (cp_volume m) of
                         None \<Rightarrow> (Inr (fail ''INVALID_VOLUME''), e1)
                       | Some volume \<Rightarrow>
                          (case guardedClose r (ep_id p) (markPrice (ep_side p) q) CR_MANUAL (Some volume) (Some (cx_userId ctx)) (Some q)
                                  False now e1 of
                             (Inl _, e2) \<Rightarrow> (Inr (fail ''INTERNAL''), e2)
                           | (Inr _, e2) \<Rightarrow> (Inr [], e2))))))"

definition modifyPositionRequest :: "Ctx \<Rightarrow> ModifyPlace \<Rightarrow> int \<Rightarrow> Engine \<Rightarrow> (db_error + ServerMessage list) \<times> Engine" where
  "modifyPositionRequest ctx m now e =
     (let fail = (\<lambda>c. [ErrorMsg c (Some (mp_positionId m))]) in
      case resolveAccount ctx (mp_accountId m) now e of
        (Inl err, e1) \<Rightarrow> (Inl err, e1)
      | (Inr None, e1) \<Rightarrow> (Inr (fail ''NOT_FOUND''), e1)
      | (Inr (Some r), e1) \<Rightarrow>
         (case posOf r (mp_positionId m) e1 of
            None \<Rightarrow> (Inr (fail ''NOT_FOUND''), e1)
          | Some p \<Rightarrow>
             if ep_closing p then (Inr (fail ''CONFLICT''), e1)
             else let reference = (case eng_quotes e1 (ep_symbol p) of Some q \<Rightarrow> markPrice (ep_side p) q | None \<Rightarrow> ep_entryPrice p);
                      stopLoss = (case mp_stopLoss m of None \<Rightarrow> ep_stopLoss p | Some v \<Rightarrow> v);
                      takeProfit = (case mp_takeProfit m of None \<Rightarrow> ep_takeProfit p | Some v \<Rightarrow> v)
                  in (case validateStops (ep_side p) reference stopLoss takeProfit of
                        Some c \<Rightarrow> (Inr (fail (codeName c)), e1)
                      | None \<Rightarrow>
                         (case dbCall (txn (updatePositionRisk (ep_id p) (Some stopLoss) (Some takeProfit))) e1 of
                            (Inl _, e2) \<Rightarrow> (Inr (fail ''INTERNAL''), e2)
                          | (Inr row, e2) \<Rightarrow>
                             (let e3 = onPos r (ep_id p) (\<lambda>x. x\<lparr>ep_stopLoss := pos_stopLoss row, ep_takeProfit := pos_takeProfit row\<rparr>) e2;
                                  info = positionInfo (p\<lparr>ep_stopLoss := pos_stopLoss row, ep_takeProfit := pos_takeProfit row\<rparr>)
                              in (Inr [], emitAccount r True (emit (BusPosition (ea_id (eng_heap e3 r)) MODIFIED info None None) e3)))))))"

text \<open>\<open>handle\<close>: orders, closes and modifications go through the account's queue; a query answers at once.\<close>

definition handle :: "Ctx \<Rightarrow> ClientMessage \<Rightarrow> int \<Rightarrow> Engine \<Rightarrow> (db_error + ServerMessage list) \<times> Engine" where
  "handle ctx message now e =
     (case message of
        OrderPlaceMsg m \<Rightarrow> (Inr [], enqueue (op_accountId m) (TPlaceOrder ctx m) e)
      | PositionCloseMsg m \<Rightarrow> (Inr [], enqueue (cp_accountId m) (TClosePosition ctx m) e)
      | PositionModifyMsg m \<Rightarrow> (Inr [], enqueue (mp_accountId m) (TModifyPosition ctx m) e)
      | AccountGetMsg i \<Rightarrow>
         (case resolveAccount ctx i now e of
            (Inl err, e1) \<Rightarrow> (Inl err, e1)
          | (Inr None, e1) \<Rightarrow> (Inr [ErrorMsg ''NOT_FOUND'' None], e1)
          | (Inr (Some r), e1) \<Rightarrow> (Inr [AccountMsg (accountState e1 (eng_heap e1 r))], e1))
      | OtherMsg \<Rightarrow> (Inr [ErrorMsg ''BAD_REQUEST'' None], e))"

end
