(* ===== verification/EngineLoop.thy ===== *)
theory EngineLoop
  imports EngineOrders
begin

text \<open>
  \<open>src/trading/engine.ts\<close>: the tick, the one-second timer, the periodic persistence and reconciliation,
  and the runner of the per-account queues, with the step relation of the whole engine.
\<close>

section \<open>The tick\<close>

definition quoteOfTick :: "Instrument \<Rightarrow> Tick \<Rightarrow> int \<Rightarrow> EngineQuote" where
  "quoteOfTick inst tick now =
     (let eff = applyMarkup tick (ins_spreadMarkupPoints inst) (ins_digits inst) in
      \<lparr>bid = bid eff, ask = ask eff, eq_raw = \<lparr>bid = bid tick, ask = ask tick\<rparr>, eq_ts = tk_ts tick, eq_receivedAt = now,
       eq_source = tk_source tick\<rparr>)"

text \<open>One position of the tick's symbol: marked, and its stop put on the queue when it is hit.\<close>

definition tickPosition :: "EngineQuote \<Rightarrow> bool \<Rightarrow> string \<times> nat \<times> nat \<Rightarrow> Engine \<times> nat list \<Rightarrow> Engine \<times> nat list" where
  "tickPosition q open1 k st =
     (case k of (_, r, i) \<Rightarrow> case st of (e, touched) \<Rightarrow>
        (case posOf r i e of
           None \<Rightarrow> (e, touched)
         | Some p \<Rightarrow>
            (case refOf (ep_accountId p) e of
               None \<Rightarrow> (e, touched)
             | Some acct \<Rightarrow>
                (let e1 = markPosition r i q e;
                     touched1 = (if acct \<in> set touched then touched else touched @ [acct]);
                     e2 = (if open1 \<and> \<not> ep_closing p \<and> \<not> ea_breaching (eng_heap e1 acct)
                           then (case checkStops (ep_side p) q (ep_stopLoss p) (ep_takeProfit p) of
                                   None \<Rightarrow> e1
                                 | Some trigger \<Rightarrow>
                                    enqueue (ea_id (eng_heap e1 acct))
                                      (TStopClose acct i (case stopExitPrice trigger (ep_stopLoss p) (ep_takeProfit p) of Some x \<Rightarrow> x | None \<Rightarrow> NaN)
                                         trigger q)
                                      (onPos r i (\<lambda>p. p\<lparr>ep_closing := True\<rparr>) e1))
                           else e1)
                 in (e2, touched1)))))"

definition tickPending :: "(int \<Rightarrow> int) \<Rightarrow> EngineQuote \<Rightarrow> int \<Rightarrow> string \<times> nat \<times> nat \<Rightarrow> Engine \<Rightarrow> Engine" where
  "tickPending zone q now k e =
     (case k of (_, r, i) \<Rightarrow>
        (case pendingOf r i e of
           None \<Rightarrow> e
         | Some o1 \<Rightarrow>
            (case refOf (eo_accountId o1) e of
               None \<Rightarrow> e
             | Some acct \<Rightarrow>
                if eo_triggering o1 \<or> ea_breaching (eng_heap e acct)
                   \<or> \<not> pendingTriggered (eo_side o1) (eo_type o1) (eo_price o1) q
                   \<or> (case instrumentOf (eo_symbol o1) e of
                        Some inst \<Rightarrow> ruleRestriction zone (eng_heap e acct) inst now e \<noteq> None | None \<Rightarrow> False)
                then e
                else enqueue (ea_id (eng_heap e acct)) (TTriggerPending acct i q)
                  (onPending r i (\<lambda>x. x\<lparr>eo_triggering := True\<rparr>) e))))"

definition tickAccount :: "bool \<Rightarrow> nat \<Rightarrow> Engine \<Rightarrow> Engine" where
  "tickAccount open1 r e =
     (let e1 = recompute r e;
          e2 = (if open1 \<and> \<not> ea_breaching (eng_heap e1 r) \<and> \<not> holdsStaleSymbol r e1 then checkBreach r e1 else e1)
      in emitAccount r False e2)"

definition quoted :: "Instrument \<Rightarrow> Tick \<Rightarrow> int \<Rightarrow> Engine \<Rightarrow> Engine" where
  "quoted inst tick now e =
     (let e1 = e\<lparr>eng_quotes := (eng_quotes e)(tk_symbol tick \<mapsto> quoteOfTick inst tick now), eng_lastTickAt := Some now,
            eng_fx := updateMid (eng_fx e) (tk_symbol tick) ((bid tick + ask tick) / lit 2)\<rparr>
      in if ms_state (eng_marketState e1) = MS_HALTED \<or> tk_symbol tick \<in> set (eng_staleSymbols e1)
         then updateMarketState False now e1 else e1)"

definition onTick :: "(int \<Rightarrow> int) \<Rightarrow> Tick \<Rightarrow> int \<Rightarrow> Engine \<Rightarrow> Engine" where
  "onTick zone tick now e =
     (case instrumentOf (tk_symbol tick) e of
        None \<Rightarrow> e
      | Some inst \<Rightarrow>
         (let q = quoteOfTick inst tick now;
              e1 = quoted inst tick now e;
              open1 = (ms_state (eng_marketState e1) = MS_OPEN);
              (e2, touched) = fold (tickPosition q open1) (filter (\<lambda>k. fst k = tk_symbol tick) (eng_positionsBySymbol e1)) (e1, []);
              e3 = (if open1 then fold (tickPending zone q now) (filter (\<lambda>k. fst k = tk_symbol tick) (eng_pendingBySymbol e2)) e2 else e2)
          in fold (tickAccount open1) touched e3))"

section \<open>Timers\<close>

definition anchorDue :: "int \<Rightarrow> nat \<Rightarrow> Engine \<Rightarrow> Engine" where
  "anchorDue now r e =
     (let a = eng_heap e r in
      if now \<ge> ea_nextBoundary a \<and> \<not> ea_breaching a
      then enqueue (ea_id a) (TAnchor r (currentDayStart (ea_resetTime a) now))
             (onAcct r (\<lambda>a. a\<lparr>ea_nextBoundary := nextDayStart (ea_resetTime a) now\<rparr>) e)
      else e)"

definition holdingRuleFor :: "EngineAccount \<Rightarrow> bool \<Rightarrow> bool \<Rightarrow> int \<Rightarrow> int \<Rightarrow> (HoldingRule \<times> int) option" where
  "holdingRuleFor a weekend rollover weekendKey rolloverKey =
     (let r = rules (ea_snapshot a) in
      if weekend \<and> \<not> tpl_weekendHoldingAllowed r then Some (RULE_WEEKEND, weekendKey)
      else if rollover \<and> \<not> tpl_overnightHoldingAllowed r then Some (RULE_OVERNIGHT, rolloverKey) else None)"

definition ruleSweep :: "int \<Rightarrow> bool \<Rightarrow> bool \<Rightarrow> int \<Rightarrow> int \<Rightarrow> nat \<Rightarrow> Engine \<Rightarrow> Engine" where
  "ruleSweep now weekend rollover weekendKey rolloverKey r e =
     (let a = eng_heap e r in
      if ea_breaching a \<or> ea_untracked a \<or> now < ea_ruleRetryAt a then e
      else case holdingRuleFor a weekend rollover weekendKey rolloverKey of
        None \<Rightarrow> e
      | Some (rule, key) \<Rightarrow>
         if ea_ruleSweeps a rule = Some key then e
         else enqueue (ea_id a) (TFlatten r rule) (onAcct r (\<lambda>a. a\<lparr>ea_ruleSweeps := (ea_ruleSweeps a)(rule := Some key)\<rparr>) e))"

text \<open>\<open>dailyRolloverCutoff\<close> throws (\<open>None\<close>) where no cutoff exists; the whole call then does nothing.\<close>

definition enforceHoldingRules :: "(int \<Rightarrow> int) \<Rightarrow> int \<Rightarrow> Engine \<Rightarrow> Engine" where
  "enforceHoldingRules zone now e =
     (let weekend = isWeekendRestricted zone now; rollover = isRolloverWindow zone now in
      if \<not> weekend \<and> \<not> rollover then e
      else case (if rollover then dailyRolloverCutoff zone now else Some 0) of
        None \<Rightarrow> e
      | Some rolloverKey \<Rightarrow>
          fold (ruleSweep now weekend rollover (if weekend then weekendCutoff zone now else 0) rolloverKey) (map snd (eng_accounts e)) e)"

definition secondTick :: "(int \<Rightarrow> int) \<Rightarrow> int \<Rightarrow> Engine \<Rightarrow> Engine" where
  "secondTick zone now e =
     (let e1 = updateMarketState False now e;
          e2 = fold (anchorDue now) (map snd (eng_accounts e1)) e1
      in enforceHoldingRules zone now e2)"

section \<open>Persistence and reconciliation\<close>

definition SNAPSHOT_MAX_AGE_MS :: int where "SNAPSHOT_MAX_AGE_MS = 30000"

definition snapshotDue :: "int \<Rightarrow> EngineAccount \<Rightarrow> bool" where
  "snapshotDue now a \<longleftrightarrow>
     (if ea_lastSnapshotEquity a > lit 0
      then Math_abs (ea_equity a - ea_lastSnapshotEquity a) / ea_lastSnapshotEquity a \<ge> lit (1 / 1000)
      else \<not> js_eq (ea_equity a) (ea_lastSnapshotEquity a))
     \<or> ea_positions a \<noteq> [] \<and> now - ea_lastSnapshotAt a \<ge> SNAPSHOT_MAX_AGE_MS"

definition markOf :: "EnginePosition \<Rightarrow> Mark" where
  "markOf p = \<lparr>mk_positionId = ep_id p, mk_currentPrice = (case ep_currentPrice p of Some c \<Rightarrow> c | None \<Rightarrow> ep_entryPrice p),
     mk_floatingPnl = ep_floatingPnl p\<rparr>"

definition cleaned :: "EngineAccount \<Rightarrow> EngineAccount" where
  "cleaned a = a\<lparr>ea_positions := map (\<lambda>p. if ep_dirty p \<and> \<not> ep_closing p then p\<lparr>ep_dirty := False\<rparr> else p) (ea_positions a),
     ea_dirty := False\<rparr>"

text \<open>The dirty flags are cleared before the write: a write that throws loses those marks until the next change.\<close>

definition recordSnapshot :: "int \<Rightarrow> nat \<Rightarrow> Engine \<Rightarrow> Engine" where
  "recordSnapshot now r e =
     (let e1 = onAcct r (\<lambda>a. a\<lparr>ea_lastSnapshotEquity := ea_equity a, ea_lastSnapshotAt := now\<rparr>) e; a = eng_heap e1 r
      in snd (dbCall (dbWrite (recordEquitySnapshot (ea_id a) (ea_balance a) (ea_equity a) (ea_marginUsed a) now)) e1))"

definition flush :: "int \<Rightarrow> Engine \<Rightarrow> Engine" where
  "flush now e =
     (let refs = map snd (eng_accounts e);
          accts = map (eng_heap e) refs;
          marks = concat (map (\<lambda>a. map markOf (filter (\<lambda>p. ep_dirty p \<and> \<not> ep_closing p) (ea_positions a))) accts);
          rows = map (\<lambda>a. \<lparr>am_accountId = ea_id a, am_equity = ea_equity a, am_marginUsed = ea_marginUsed a\<rparr>) (filter ea_dirty accts);
          snapshots = filter (\<lambda>r. snapshotDue now (eng_heap e r)) refs;
          e1 = fold (\<lambda>r. onAcct r cleaned) refs e;
          (res, e2) = (if marks = [] \<and> rows = [] then (Inr (), e1) else dbCall (dbWrite (persistMarks marks rows)) e1)
      in (case res of Inl _ \<Rightarrow> e2 | Inr _ \<Rightarrow> fold (recordSnapshot now) snapshots e2))"

text \<open>\<open>reconcile\<close> in its two halves: statuses first (each close-all is awaited), then closed positions.\<close>

definition reconcileRow :: "TradingAccount \<Rightarrow> Engine \<Rightarrow> Engine" where
  "reconcileRow row e =
     (case refOf (acc_id row) e of
        None \<Rightarrow> e
      | Some r \<Rightarrow> if ea_breaching (eng_heap e r) \<or> TRADABLE (acc_status row) then e
          else closeAllAndUntrack r (''status '' @ statusName (acc_status row)) e)"

definition reconcileStatuses :: "Engine \<Rightarrow> Engine" where
  "reconcileStatuses e =
     (let ids = map fst (eng_accounts e) in
      case dbCall (\<lambda>d. (Inr (filter (\<lambda>r. acc_id r \<in> set ids) (accounts_t d)), d)) e of
        (Inl _, e1) \<Rightarrow> e1
      | (Inr rows, e1) \<Rightarrow> fold untrack (filter (\<lambda>i. i \<notin> acc_id ` set rows) ids) (fold reconcileRow rows e1))"

definition reconcileClosed :: "Position \<Rightarrow> Engine \<Rightarrow> Engine" where
  "reconcileClosed c e =
     (case refOf (pos_accountId c) e of
        None \<Rightarrow> e
      | Some r \<Rightarrow>
         (case posOf r (pos_id c) e of
            None \<Rightarrow> e
          | Some p \<Rightarrow> if ep_closing p then e else enqueue (ea_id (eng_heap e r)) (TDropClosed r (ep_id p)) e))"

definition reconcilePositions :: "Engine \<Rightarrow> Engine" where
  "reconcilePositions e =
     (let ids = concat (map (\<lambda>(_, r). map ep_id (filter (\<lambda>p. \<not> ep_closing p) (ea_positions (eng_heap e r)))) (eng_accounts e)) in
      if ids = [] then e
      else case dbCall (\<lambda>d. (Inr (filter (\<lambda>p. pos_id p \<in> set ids \<and> pos_status p = POS_CLOSED) (positions_t d)), d)) e of
        (Inl _, e1) \<Rightarrow> e1
      | (Inr closedRows, e1) \<Rightarrow> fold reconcileClosed closedRows e1)"

definition dropClosedTask :: "nat \<Rightarrow> nat \<Rightarrow> Engine \<Rightarrow> Engine" where
  "dropClosedTask r i e =
     (case posOf r i e of
        None \<Rightarrow> e
      | Some p \<Rightarrow>
         if ep_closing p then e
         else let e1 = removePosition r p e in
           (case dbCall (\<lambda>d. (Inr (loadEngineAccount (ea_id (eng_heap e1 r)) d), d)) e1 of
              (Inl _, e2) \<Rightarrow> e2
            | (Inr fresh, e2) \<Rightarrow>
               emitAccount r True (recompute r (case fresh of Some row \<Rightarrow> mergeRow r row e2 | None \<Rightarrow> e2))))"

text \<open>
  \<open>reloadAllAccounts\<close>: one task per tracked account (a load of the others). When the fresh row is no longer
  tradable the task waits for \<open>closeAllAndUntrack\<close>, which it has just put behind itself on the same queue.
\<close>

definition reloadRow :: "int \<Rightarrow> TradingAccount \<times> Position list \<Rightarrow> Engine \<Rightarrow> Engine" where
  "reloadRow now row e =
     (case refOf (acc_id (fst row)) e of
        Some r \<Rightarrow> if ea_breaching (eng_heap e r) then e else enqueue (ea_id (eng_heap e r)) (TReload r) e
      | None \<Rightarrow> snd (trackFromRow row now e))"

definition reloadAllAccounts :: "int \<Rightarrow> Engine \<Rightarrow> Engine" where
  "reloadAllAccounts now e =
     (case dbCall (\<lambda>d. (Inr (loadEngineAccounts d), d)) e of
        (Inl _, e1) \<Rightarrow> e1
      | (Inr rows, e1) \<Rightarrow> fold (reloadRow now) rows e1)"

definition reloadTask :: "nat \<Rightarrow> Engine \<Rightarrow> Engine" where
  "reloadTask r e =
     (if ea_untracked (eng_heap e r) then e
      else let i = ea_id (eng_heap e r) in
        (case dbCall (\<lambda>d. (Inr (loadEngineAccount i d), d)) e of
           (Inl _, e1) \<Rightarrow> e1
         | (Inr None, e1) \<Rightarrow> untrack i e1
         | (Inr (Some row), e1) \<Rightarrow>
             if TRADABLE (acc_status (fst row)) then emitAccount r False (mergeRow r row e1)
             else (closeAllAndUntrack r (''status '' @ statusName (acc_status (fst row))) e1)
                    \<lparr>eng_waiting := eng_waiting e1 @ [(i, eng_nextTicket e1)]\<rparr>))"

section \<open>The queues\<close>

definition stopReason :: "StopTrigger \<Rightarrow> CloseReason" where
  "stopReason t = (case t of STOP_LOSS \<Rightarrow> CR_STOP_LOSS | TAKE_PROFIT \<Rightarrow> CR_TAKE_PROFIT)"

definition runTask :: "(int \<Rightarrow> int) \<Rightarrow> EngineTask \<Rightarrow> int \<Rightarrow> Engine \<Rightarrow> (db_error + ServerMessage list) \<times> Engine" where
  "runTask zone task now e =
     (case task of
        TStopClose r i price trigger q \<Rightarrow>
          (case closePositionInternal r i price (stopReason trigger) None None (Some q) False now e of
             (Inl err, e1) \<Rightarrow> (Inl err, e1) | (Inr _, e1) \<Rightarrow> (Inr [], e1))
      | TTriggerPending r i q \<Rightarrow> (case triggerPending r i q now e of (Inl err, e1) \<Rightarrow> (Inl err, e1) | (Inr _, e1) \<Rightarrow> (Inr [], e1))
      | TBreach r reason equity level \<Rightarrow>
          (case executeBreach r reason equity level now e of (Inl err, e1) \<Rightarrow> (Inl err, e1) | (Inr _, e1) \<Rightarrow> (Inr [], e1))
      | TAnchor r boundary \<Rightarrow> (Inr [], captureAnchorTask r boundary e)
      | TFlatten r rule \<Rightarrow> (Inr [], flattenForRule r rule now e)
      | TPlaceOrder ctx m \<Rightarrow>
          (case placeOrder zone ctx m now e of (Inl err, e1) \<Rightarrow> (Inl err, e1) | (Inr reply, e1) \<Rightarrow> (Inr [OrderResultMsg reply], e1))
      | TClosePosition ctx m \<Rightarrow> closePositionRequest ctx m now e
      | TModifyPosition ctx m \<Rightarrow> modifyPositionRequest ctx m now e
      | TCloseAll r why \<Rightarrow> (Inr [], closeAllTask r why now e)
      | TDropClosed r i \<Rightarrow> (Inr [], dropClosedTask r i e)
      | TReload r \<Rightarrow> (Inr [], reloadTask r e))"

text \<open>
  A task of an account starts when the earlier ones have settled. A task that waits for another one of
  its own queue has not settled until that one has run.
\<close>

definition queueBlocked :: "nat \<Rightarrow> Engine \<Rightarrow> bool" where
  "queueBlocked i e \<longleftrightarrow> (\<exists>w\<in>set (eng_waiting e). fst w = i \<and> snd w \<in> qt_ticket ` set (eng_queue e))"

definition runNext :: "(int \<Rightarrow> int) \<Rightarrow> nat \<Rightarrow> int \<Rightarrow> Engine \<Rightarrow> (db_error + ServerMessage list) \<times> Engine" where
  "runNext zone i now e =
     (case List.find (\<lambda>t. qt_accountId t = i) (eng_queue e) of
        None \<Rightarrow> (Inr [], e)
      | Some t \<Rightarrow>
         if queueBlocked i e then (Inr [], e)
         else runTask zone (qt_task t) now (e\<lparr>eng_queue := filter (\<lambda>x. qt_ticket x \<noteq> qt_ticket t) (eng_queue e)\<rparr>))"

section \<open>Start\<close>

text \<open>The constructor; cells of the heap that hold no object yet are a fixed account without positions.\<close>

definition new_Engine :: "Converter \<Rightarrow> Engine" where
  "new_Engine c =
     \<lparr>eng_instruments = [], eng_heap = (\<lambda>_. newEngineAccount sampleAccount 0), eng_nextRef = 0, eng_accounts = [],
      eng_positionsBySymbol = [], eng_pendingBySymbol = [], eng_quotes = Map.empty, eng_queue = [], eng_nextTicket = 0,
      eng_waiting = [], eng_lastTickAt = None, eng_manualHalt = False, eng_manualHaltReason = None,
      eng_marketState = \<lparr>ms_state = MS_HALTED, ms_reason = Some NoFeedYet, ms_symbols = [], ms_news = None\<rparr>,
      eng_staleSymbols = [], eng_newsEvents = [], eng_newsWindowMs = 2 * MINUTE, eng_newsKey = (0, []), eng_started = False,
      eng_fx = c, eng_bus = [], eng_faults = [], eng_killSwitch = False, eng_db = emptyDb\<rparr>"

fun trackAll :: "int \<Rightarrow> (TradingAccount \<times> Position list) list \<Rightarrow> Engine \<Rightarrow> (db_error + unit) \<times> Engine" where
  "trackAll now [] e = (Inr (), e)"
| "trackAll now (row # rows) e =
     (case trackFromRow row now e of (Inl err, e1) \<Rightarrow> (Inl err, e1) | (Inr _, e1) \<Rightarrow> trackAll now rows e1)"

text \<open>\<open>start\<close>: instruments, kill switch, news (a failure is logged), accounts, market state.\<close>

definition startEngine :: "NewsEvent list \<Rightarrow> number \<Rightarrow> int \<Rightarrow> Engine \<Rightarrow> (db_error + unit) \<times> Engine" where
  "startEngine newsRows setting now e =
     (let e1 = reloadInstruments e;
          e2 = e1\<lparr>eng_manualHalt := eng_killSwitch e1, eng_manualHaltReason :=
            (if eng_killSwitch e1 then Some ''manual kill switch (SystemSetting trading.halted)'' else eng_manualHaltReason e1)\<rparr>;
          e3 = reloadNewsEvents newsRows setting now e2
      in case dbCall (\<lambda>d. (Inr (loadEngineAccounts d), d)) e3 of
           (Inl err, e4) \<Rightarrow> (Inl err, e4)
         | (Inr rows, e4) \<Rightarrow>
            (case trackAll now rows e4 of
               (Inl err, e5) \<Rightarrow> (Inl err, e5)
             | (Inr _, e5) \<Rightarrow> (Inr (), updateMarketState True now (e5\<lparr>eng_started := True\<rparr>))))"

end
