(* ===== verification/EngineGuarantee.thy ===== *)
theory EngineGuarantee
  imports EngineLoop
begin

text \<open>
  What every operation of the engine guarantees. A relation between engine states that holds for the few
  primitive changes of memory (a change of an account object that keeps its shape, a new object, a
  position or order entering or leaving with its index entry, a task entering or leaving a queue) holds
  for every handler, task, tick and timer; the locale proves that once and is used for several relations.
\<close>

section \<open>Primitive changes\<close>

text \<open>An update of an account object that keeps its identity, its owner, its starting balance and its
  positions and orders, never lowers the peak and never takes back \<open>untracked\<close> or \<open>breaching\<close>.\<close>

definition peak_le :: "number \<Rightarrow> number \<Rightarrow> bool" where
  "peak_le x y \<longleftrightarrow> y = NaN \<or> x \<le> y"

definition keeps_shape :: "(EngineAccount \<Rightarrow> EngineAccount) \<Rightarrow> bool" where
  "keeps_shape f \<longleftrightarrow> (\<forall>a. ea_id (f a) = ea_id a \<and> ea_userId (f a) = ea_userId a
     \<and> ea_startingBalance (f a) = ea_startingBalance a
     \<and> map (\<lambda>p. (ep_symbol p, ep_id p)) (ea_positions (f a)) = map (\<lambda>p. (ep_symbol p, ep_id p)) (ea_positions a)
     \<and> map (\<lambda>o1. (eo_symbol o1, eo_id o1)) (ea_pending (f a)) = map (\<lambda>o1. (eo_symbol o1, eo_id o1)) (ea_pending a)
     \<and> peak_le (ea_highWaterMark a) (ea_highWaterMark (f a))
     \<and> (ea_untracked a \<longrightarrow> ea_untracked (f a)) \<and> (ea_breaching a \<longrightarrow> ea_breaching (f a)))"

definition core :: "Engine \<Rightarrow> (nat \<Rightarrow> EngineAccount) \<times> nat \<times> (string \<times> nat \<times> nat) list \<times> (string \<times> nat \<times> nat) list
    \<times> QueuedTask list \<times> nat \<times> (nat \<times> nat) list" where
  "core e = (eng_heap e, eng_nextRef e, eng_positionsBySymbol e, eng_pendingBySymbol e, eng_queue e, eng_nextTicket e, eng_waiting e)"

lemma peak_refl [simp]: "peak_le x x"
  by (simp add: peak_le_def)

lemma peak_trans: "peak_le x y \<Longrightarrow> peak_le y z \<Longrightarrow> peak_le x z"
  by (cases x; cases y; cases z) (auto simp: peak_le_def less_eq_number_def)

lemma peak_max [simp]: "peak_le x (Math_max x y)"
  by (cases x; cases y) (auto simp: peak_le_def Math_max_def less_eq_number_def less_number_def)

lemma peak_if [simp]: "peak_le x (if y > x then y else x)"
  by (cases x; cases y) (auto simp: peak_le_def less_eq_number_def less_number_def)

lemma shape_trivial [intro]:
  assumes "\<And>a. ea_id (f a) = ea_id a" "\<And>a. ea_userId (f a) = ea_userId a"
    "\<And>a. ea_startingBalance (f a) = ea_startingBalance a" "\<And>a. ea_positions (f a) = ea_positions a" "\<And>a. ea_pending (f a) = ea_pending a"
    "\<And>a. peak_le (ea_highWaterMark a) (ea_highWaterMark (f a))" "\<And>a. ea_untracked a \<Longrightarrow> ea_untracked (f a)"
    "\<And>a. ea_breaching a \<Longrightarrow> ea_breaching (f a)"
  shows "keeps_shape f"
  using assms by (simp add: keeps_shape_def)

lemma shape_positions:
  assumes "\<And>p. ep_id (g p) = ep_id p \<and> ep_symbol (g p) = ep_symbol p"
  shows "keeps_shape (\<lambda>a. a\<lparr>ea_positions := map g (ea_positions a)\<rparr>)"
  using assms by (simp add: keeps_shape_def)

lemma shape_pending:
  assumes "\<And>p. eo_id (g p) = eo_id p \<and> eo_symbol (g p) = eo_symbol p"
  shows "keeps_shape (\<lambda>a. a\<lparr>ea_pending := map g (ea_pending a)\<rparr>)"
  using assms by (simp add: keeps_shape_def)

lemma shape_recomputed: "keeps_shape recomputed"
  by (rule shape_trivial) (simp_all add: recomputed_def Let_def)

lemma shape_row: "keeps_shape (applyAccountRow row)" "keeps_shape (mergedColumns row)"
  by (rule shape_trivial; simp add: applyAccountRow_def mergedColumns_def)+

lemma shape_cleaned: "keeps_shape cleaned"
  by (auto simp: keeps_shape_def cleaned_def)

lemma marked_ids [simp]: "ep_id (markedPosition e q p) = ep_id p" "ep_symbol (markedPosition e q p) = ep_symbol p"
  by (simp_all add: markedPosition_def Let_def split: option.splits)

section \<open>Guarantees\<close>

locale engine_guarantee =
  fixes R :: "Engine \<Rightarrow> Engine \<Rightarrow> bool"
  assumes R_core: "core e' = core e \<Longrightarrow> R e e'"
    and R_trans: "R e e1 \<Longrightarrow> R e1 e2 \<Longrightarrow> R e e2"
    and R_acct: "keeps_shape f \<Longrightarrow> R e (onAcct r f e)"
    and R_new: "ea_positions a = [] \<Longrightarrow> ea_pending a = []
      \<Longrightarrow> R e (onAcct (eng_nextRef e) (\<lambda>_. a) (e\<lparr>eng_nextRef := eng_nextRef e + 1\<rparr>))"
    and R_insertPosition: "R e (insertPosition r pos e)"
    and R_removePosition: "R e (removePosition r pos e)"
    and R_insertPending: "R e (insertPending r o1 e)"
    and R_removePending: "R e (removePending r o1 e)"
    and R_enqueue: "R e (enqueue i t e)"
    and R_wait: "R e (e\<lparr>eng_waiting := eng_waiting e @ [w]\<rparr>)"
    and R_pop: "first \<in> set (eng_queue e) \<Longrightarrow> \<not> queueBlocked (qt_accountId first) e
      \<Longrightarrow> R e (e\<lparr>eng_queue := filter (\<lambda>x. qt_ticket x \<noteq> qt_ticket first) (eng_queue e)\<rparr>)"
begin

lemma refl: "R e e"
  by (rule R_core) simp

text \<open>Rules that extend a guaranteed run by one more change.\<close>

lemma x_core: "R e0 e \<Longrightarrow> core e' = core e \<Longrightarrow> R e0 e'"
  using R_core R_trans by blast

lemma x_acct: "R e0 e \<Longrightarrow> keeps_shape f \<Longrightarrow> R e0 (onAcct r f e)"
  using R_acct R_trans by blast

lemma x_fold:
  assumes "\<And>x e. R e0 e \<Longrightarrow> R e0 (f x e)" "R e0 e"
  shows "R e0 (fold f xs e)"
  using assms(2) by (induction xs arbitrary: e) (auto intro: assms(1))

lemma x_pos: "R e0 e \<Longrightarrow> (\<And>p. ep_id (g p) = ep_id p \<and> ep_symbol (g p) = ep_symbol p) \<Longrightarrow> R e0 (onPos r i g e)"
  unfolding onPos_def by (rule x_acct) (auto intro: shape_positions)

lemma x_pending: "R e0 e \<Longrightarrow> (\<And>p. eo_id (g p) = eo_id p \<and> eo_symbol (g p) = eo_symbol p) \<Longrightarrow> R e0 (onPending r i g e)"
  unfolding onPending_def by (rule x_acct) (auto intro: shape_pending)

lemma x_mark: "R e0 e \<Longrightarrow> R e0 (markPosition r i q e)"
  unfolding markPosition_def by (rule x_pos) simp_all

lemma x_recompute: "R e0 e \<Longrightarrow> R e0 (recompute r e)"
  unfolding recompute_def using shape_recomputed by (rule x_acct [rotated])

lemma x_enqueue: "R e0 e \<Longrightarrow> R e0 (enqueue i t e)"
  using R_enqueue R_trans by blast

lemma x_emit: "R e0 e \<Longrightarrow> R e0 (emit ev e)"
  by (erule x_core) (simp add: emit_def core_def)

lemma x_dbCall: "R e0 e \<Longrightarrow> R e0 (snd (dbCall f e))"
  by (erule x_core) (auto simp: dbCall_def core_def split_beta split: list.splits bool.splits)

lemma x_dbCall': "R e0 e \<Longrightarrow> dbCall f e = (x, e1) \<Longrightarrow> R e0 e1"
  using x_dbCall [of e0 e f] by simp

lemma x_accounts: "R e0 e \<Longrightarrow> R e0 (e\<lparr>eng_accounts := as\<rparr>)"
  by (erule x_core) (simp add: core_def)

lemma x_emitAccount: "R e0 e \<Longrightarrow> R e0 (emitAccount r b e)"
  unfolding emitAccount_def by (cases b) (auto intro!: x_emit x_acct shape_trivial)

lemma x_removePosition: "R e0 e \<Longrightarrow> R e0 (removePosition r p e)"
  using R_removePosition R_trans by blast

lemma x_removePending: "R e0 e \<Longrightarrow> R e0 (removePending r p e)"
  using R_removePending R_trans by blast

lemma x_addPosition: "R e0 e \<Longrightarrow> R e0 (addPosition r p e)"
  unfolding addPosition_def Let_def using R_insertPosition R_trans by (auto intro!: x_mark split: option.splits)

lemma x_addPending: "R e0 e \<Longrightarrow> R e0 (addPending r p e)"
  unfolding addPending_def using R_insertPending R_trans by (auto split: option.splits)

lemmas x_basic = x_mark x_recompute x_enqueue x_emit x_dbCall x_emitAccount x_removePosition x_removePending x_addPosition
  x_addPending x_fold

lemma x_untrack: "R e0 e \<Longrightarrow> R e0 (untrack i e)"
  unfolding untrack_def Let_def
  by (auto intro!: x_accounts x_acct x_basic shape_trivial split: option.splits)

lemma x_refreshTradingDays: "R e0 e \<Longrightarrow> R e0 (refreshTradingDays r e)"
  unfolding refreshTradingDays_def Let_def
  by (auto intro: x_dbCall' intro!: x_acct shape_trivial split: prod.splits sum.splits)

lemma x_mergeRow: "R e0 e \<Longrightarrow> R e0 (mergeRow r row e)"
  unfolding mergeRow_def Let_def by (auto intro!: x_acct x_basic shape_row)

lemma x_closeAllAndUntrack: "R e0 e \<Longrightarrow> R e0 (closeAllAndUntrack r why e)"
  unfolding closeAllAndUntrack_def by (rule x_enqueue)

lemma x_reanchor: "R e0 e \<Longrightarrow> R e0 (snd (reanchorAtLoad r now e))"
  unfolding reanchorAtLoad_def Let_def
  by (auto intro: x_dbCall' intro!: x_acct x_basic x_untrack shape_trivial shape_row split: prod.splits sum.splits)

lemma x_reanchor': "R e0 e \<Longrightarrow> reanchorAtLoad r now e = (x, e1) \<Longrightarrow> R e0 e1"
  using x_reanchor [of e0 e r now] by simp

lemma x_new: "R e0 e \<Longrightarrow> R e0 (onAcct (eng_nextRef e) (\<lambda>_. newEngineAccount row now) (e\<lparr>eng_nextRef := Suc (eng_nextRef e)\<rparr>))"
  using R_new [of "newEngineAccount row now" e] R_trans by (simp add: newEngineAccount_def Let_def)

lemma x_trackFromRow: "R e0 e \<Longrightarrow> R e0 (snd (trackFromRow row now e))"
proof -
  assume e: "R e0 e"
  let ?r = "eng_nextRef e"
  let ?e2 = "fold (addPosition ?r) (snd row) (onAcct ?r (\<lambda>_. newEngineAccount (fst row) now) (e\<lparr>eng_nextRef := Suc ?r\<rparr>))"
  have 2: "R e0 ?e2" using x_new [OF e] by (auto intro!: x_basic)
  have 5: "R e0 (e4\<lparr>eng_accounts := as\<rparr>)" if "dbCall f ?e2 = (x, e3)" "e4 = fold (addPending ?r) os e3" for f x e3 e4 os as
    using x_dbCall' [OF 2 that(1)] that(2) by (auto intro!: x_accounts x_basic)
  show ?thesis
    unfolding trackFromRow_def Let_def using e 2
    by (auto intro: x_dbCall' 5 x_reanchor' intro!: x_closeAllAndUntrack x_mergeRow x_emitAccount x_recompute x_refreshTradingDays
        split: prod.splits sum.splits option.splits bool.splits)
qed

lemma x_reloadAccount: "R e0 e \<Longrightarrow> R e0 (snd (reloadAccount i now e))"
  unfolding reloadAccount_def
  by (auto intro: x_dbCall' intro!: x_untrack x_trackFromRow split: prod.splits sum.splits option.splits)

lemma x_resolveAccount: "R e0 e \<Longrightarrow> R e0 (snd (resolveAccount ctx i now e))"
  unfolding resolveAccount_def Let_def
  using x_reloadAccount [of e0 e i now] by (auto split: prod.splits sum.splits option.splits)

lemma x_resolveAccount': "R e0 e \<Longrightarrow> resolveAccount ctx i now e = (x, e1) \<Longrightarrow> R e0 e1"
  using x_resolveAccount [of e0 e ctx i now] by simp

lemma x_reloadInstruments: "R e0 e \<Longrightarrow> R e0 (reloadInstruments e)"
proof -
  assume "R e0 e"
  moreover have "R e0 (e1\<lparr>eng_instruments := is\<rparr>)" if "R e0 e1" for e1 "is" using that by (rule x_core) (simp add: core_def)
  ultimately show ?thesis unfolding reloadInstruments_def Let_def
    by (auto dest: x_dbCall' split: prod.splits sum.splits)
qed

lemma x_updateMarketState: "R e0 e \<Longrightarrow> R e0 (updateMarketState force now e)"
  by (erule x_core) (simp add: updateMarketState_def Let_def core_def emit_def split_beta)

lemma x_reloadNewsEvents: "R e0 e \<Longrightarrow> R e0 (reloadNewsEvents rows setting now e)"
  by (erule x_core) (simp add: reloadNewsEvents_def updateMarketState_def Let_def core_def emit_def split_beta)

lemma x_setManualHalt: "R e0 e \<Longrightarrow> R e0 (snd (setManualHalt halted reason now e))"
  by (erule x_core)
    (auto simp: setManualHalt_def updateMarketState_def Let_def core_def emit_def dbCall_def split_beta
      split: list.splits bool.splits sum.splits)

section \<open>Closing, breaches, rules\<close>

lemma x_cancelPendingOrders: "R e0 e \<Longrightarrow> R e0 (snd (cancelPendingOrders r reason keep e))"
  unfolding cancelPendingOrders_def Let_def
  by (auto intro: x_dbCall' intro!: x_fold x_emit x_removePending split: prod.splits)

lemma x_cancelPendingOrders': "R e0 e \<Longrightarrow> cancelPendingOrders r reason keep e = (n, e1) \<Longrightarrow> R e0 e1"
  using x_cancelPendingOrders [of e0 e r reason keep] by simp

lemma x_applyClose: "R e0 e \<Longrightarrow> R e0 (applyClose r p exit reason q res e)"
  unfolding applyClose_def Let_def
  by (auto intro!: x_basic x_acct x_pos shape_row split: option.splits)

lemma x_closed:
  "R e0 e \<Longrightarrow> dbCall f e = (x, e1) \<Longrightarrow> R e0 (refreshTradingDays r (recompute r (applyClose r p exit reason q res e1)))"
  by (intro x_refreshTradingDays x_recompute x_applyClose) (rule x_dbCall')

lemma x_close: "R e0 e \<Longrightarrow> R e0 (snd (closePositionInternal r i price reason volume actorId q keep now e))"
  unfolding closePositionInternal_def Let_def
  by (auto intro: x_dbCall' x_cancelPendingOrders' [OF x_closed] intro!: x_untrack x_emitAccount x_closed
      split: option.splits sum.splits prod.splits)

lemma x_guardedClose: "R e0 e \<Longrightarrow> R e0 (snd (guardedClose r i price reason volume actorId q keep now e))"
proof -
  assume "R e0 e"
  then have "R e0 (onPos r i (\<lambda>p. p\<lparr>ep_closing := True\<rparr>) e)" by (auto intro!: x_pos)
  from x_close [OF this, of r i price reason volume actorId q keep now] show ?thesis
    by (auto simp: guardedClose_def intro!: x_pos split: prod.splits sum.splits)
qed

lemma x_guardedClose': "R e0 e \<Longrightarrow> guardedClose r i price reason volume actorId q keep now e = (x, e1) \<Longrightarrow> R e0 e1"
  using x_guardedClose [of e0 e r i price reason volume actorId q keep now] by simp

lemma x_flushAccount: "R e0 e \<Longrightarrow> R e0 (snd (flushAccount r e))"
  unfolding flushAccount_def Let_def
  by (auto intro: x_dbCall' intro!: x_acct simp: keeps_shape_def split: prod.splits sum.splits)

lemma x_flushAccount': "R e0 e \<Longrightarrow> flushAccount r e = (x, e1) \<Longrightarrow> R e0 e1"
  using x_flushAccount [of e0 e r] by simp

lemma x_closeAllLoop: "R e0 e \<Longrightarrow> R e0 (closeAllLoop r reason now ps e)"
  by (induction ps arbitrary: e) (auto intro: x_guardedClose split: option.splits)

lemma x_failed:
  "R e0 e \<Longrightarrow> dbCall f e = (x, e1) \<Longrightarrow> R e0 (onAcct r (\<lambda>a. a\<lparr>ea_status := st, ea_balance := b, ea_realizedPnl := z\<rparr>) e1)"
  by (auto intro!: x_acct shape_trivial intro: x_dbCall')

lemma x_executeBreach: "R e0 e \<Longrightarrow> R e0 (snd (executeBreach r reason equity level now e))"
proof -
  assume e: "R e0 e"
  obtain x e1 where 1: "flushAccount r e = (x, e1)" by fastforce
  have e1: "R e0 e1" using x_flushAccount' [OF e 1] .
  show ?thesis
  proof (cases x)
    case (Inl err)
    then show ?thesis using e1 1 by (simp add: executeBreach_def)
  next
    case (Inr u)
    let ?i = "ea_id (eng_heap e1 r)" and ?e2 = "closeAllLoop r CR_BREACH now (ea_positions (eng_heap e1 r)) e1"
    obtain y e3 where 3: "dbCall (txn (failAccountForBreach ?i reason equity now)) ?e2 = (y, e3)" by fastforce
    have e3: "R e0 e3" using x_dbCall' [OF x_closeAllLoop [OF e1] 3] .
    define e3' where "e3' = (case y of Inl _ \<Rightarrow> e3 | Inr after \<Rightarrow> onAcct r (\<lambda>a. a\<lparr>ea_status := acc_status after,
      ea_balance := acc_balance after, ea_realizedPnl := acc_realizedPnl after\<rparr>) e3)"
    have "R e0 e3'" using e3 by (auto simp: e3'_def intro!: x_acct shape_trivial split: sum.splits)
    then have "R e0 (untrack ?i (emitAccount r True (recompute r (snd (cancelPendingOrders r why keep e3')))))" for why keep
      by (intro x_untrack x_emitAccount x_recompute x_cancelPendingOrders)
    then show ?thesis using Inr by (cases y) (simp_all add: executeBreach_def 1 3 Let_def split_beta e3'_def)
  qed
qed

lemma x_closeAllTask: "R e0 e \<Longrightarrow> R e0 (closeAllTask r why now e)"
  unfolding closeAllTask_def Let_def
  by (auto intro: x_cancelPendingOrders' [OF x_closeAllLoop] intro!: x_untrack x_emitAccount split: prod.splits)

lemma x_flattenLoop: "R e0 e \<Longrightarrow> R e0 (snd (flattenLoop r reason now ps counts e))"
proof (induction ps arbitrary: counts e)
  case (Cons p ps)
  obtain n k where c: "counts = (n, k)" by fastforce
  show ?case
    unfolding c flattenLoop.simps Let_def
    using Cons.prems by (auto intro: Cons.IH x_guardedClose' split: option.splits prod.splits sum.splits)
qed auto

lemma x_flattenLoop': "R e0 e \<Longrightarrow> flattenLoop r reason now ps counts e = (x, e1) \<Longrightarrow> R e0 e1"
  using x_flattenLoop [of e0 e r reason now ps counts] by simp

lemma x_flattenForRule: "R e0 e \<Longrightarrow> R e0 (flattenForRule r rule now e)"
proof -
  assume e: "R e0 e"
  show ?thesis
  proof (cases "ea_untracked (eng_heap e r) \<or> ea_breaching (eng_heap e r)")
    case False
    obtain n failures e1 where 1: "flattenLoop r (ruleReason rule) now (ea_positions (eng_heap e r)) (0, 0) e = ((n, failures), e1)"
      by (metis surj_pair)
    let ?c = "cancelPendingOrders r ''WEEKEND_CLOSED''
      (\<lambda>o1. case instrumentOf (eo_symbol o1) e1 of Some inst \<Rightarrow> ins_category inst \<noteq> CRYPTO | None \<Rightarrow> True) e1"
    have r1: "R e0 e1" using x_flattenLoop' [OF e 1] .
    then have r2: "R e0 (snd (if rule = RULE_WEEKEND \<and> \<not> ea_untracked (eng_heap e1 r) then ?c else (0, e1)))"
      by (simp add: x_cancelPendingOrders)
    then have r3: "R e0 (onAcct r (\<lambda>a. a\<lparr>ea_ruleSweeps := (ea_ruleSweeps a)(rule := None), ea_ruleRetryAt := t\<rparr>)
        (snd (if rule = RULE_WEEKEND \<and> \<not> ea_untracked (eng_heap e1 r) then ?c else (0, e1))))" for t
      by (rule x_acct) (auto intro!: shape_trivial)
    show ?thesis
      using False r2 r3 by (auto simp: flattenForRule_def 1 Let_def split_beta intro!: x_dbCall)
  qed (simp add: flattenForRule_def e)
qed

lemma x_captureAnchorTask: "R e0 e \<Longrightarrow> R e0 (captureAnchorTask r boundary e)"
  unfolding captureAnchorTask_def Let_def
  by (auto intro: x_dbCall' [OF x_recompute] intro!: x_emitAccount x_acct shape_trivial split: prod.splits sum.splits)

section \<open>Client messages\<close>

lemma x_rejectOrder: "R e0 e \<Longrightarrow> R e0 (snd (rejectOrder r m c e))"
  by (simp add: rejectOrder_def x_dbCall)

lemma x_placeMarket: "R e0 e \<Longrightarrow> R e0 (snd (placeMarket r m inst q volume rate now e))"
  unfolding placeMarket_def Let_def
  by (auto intro: x_dbCall' intro!: x_rejectOrder x_emitAccount x_emit x_recompute x_addPosition
      split: sum.splits prod.splits option.splits)

lemma x_placePending: "R e0 e \<Longrightarrow> R e0 (snd (placePending r m inst q volume rate e))"
proof -
  assume e: "R e0 e"
  have 2: "R e0 e2" if "dbCall f e = (x, e1)" "dbCall g e1 = (y, e2)" for f g x y e1 e2
    using x_dbCall' [OF x_dbCall' [OF e that(1)] that(2)] .
  show ?thesis
    unfolding placePending_def Let_def
    by (auto intro: 2 x_dbCall' [OF e] intro!: x_rejectOrder e x_emitAccount x_addPending
        split: sum.splits prod.splits option.splits)
qed

lemma x_placeOrder: "R e0 e \<Longrightarrow> R e0 (snd (placeOrder zone ctx m now e))"
proof -
  assume e: "R e0 e"
  obtain x e1 where 1: "resolveAccount ctx (op_accountId m) now e = (x, e1)" by fastforce
  have e1: "R e0 e1" using x_resolveAccount' [OF e 1] .
  show ?thesis
    unfolding placeOrder_def 1 using x_rejectOrder [OF e1] x_placeMarket [OF e1] x_placePending [OF e1] e1
    by (simp add: split_beta split: sum.split option.split prod.split)
qed

lemma x_triggerPending: "R e0 e \<Longrightarrow> R e0 (snd (triggerPending r i q now e))"
  unfolding triggerPending_def Let_def
  by (auto intro: x_dbCall' intro!: x_pending x_emitAccount x_emit x_recompute x_addPosition x_removePending
      split: sum.splits prod.splits option.splits)

lemma x_closePositionRequest: "R e0 e \<Longrightarrow> R e0 (snd (closePositionRequest ctx m now e))"
proof -
  assume e: "R e0 e"
  obtain x e1 where 1: "resolveAccount ctx (cp_accountId m) now e = (x, e1)" by fastforce
  have e1: "R e0 e1" using x_resolveAccount' [OF e 1] .
  show ?thesis
    unfolding closePositionRequest_def 1 Let_def using e1
    by (auto intro: x_guardedClose' [OF e1] split: sum.split option.split prod.split)
qed

lemma x_modifyPositionRequest: "R e0 e \<Longrightarrow> R e0 (snd (modifyPositionRequest ctx m now e))"
proof -
  assume e: "R e0 e"
  obtain x e1 where 1: "resolveAccount ctx (mp_accountId m) now e = (x, e1)" by fastforce
  have e1: "R e0 e1" using x_resolveAccount' [OF e 1] .
  show ?thesis
    unfolding modifyPositionRequest_def 1 Let_def using e1
    by (auto intro: x_dbCall' [OF e1] intro!: x_emitAccount x_emit x_pos split: sum.split option.split prod.split)
qed

lemma x_handle: "R e0 e \<Longrightarrow> R e0 (snd (handle ctx msg now e))"
  unfolding handle_def
  by (auto intro: x_resolveAccount' intro!: x_enqueue split: ClientMessage.split sum.split option.split prod.split)

section \<open>Ticks and timers\<close>

lemma x_checkBreach: "R e0 e \<Longrightarrow> R e0 (checkBreach r e)"
  unfolding checkBreach_def by (auto intro!: x_enqueue x_acct shape_trivial split: option.splits prod.splits)

lemma x_tickAccount: "R e0 e \<Longrightarrow> R e0 (tickAccount b r e)"
  unfolding tickAccount_def Let_def by (auto intro!: x_emitAccount x_checkBreach x_recompute)

lemma x_tickPosition: "R e0 (fst st) \<Longrightarrow> R e0 (fst (tickPosition q b k st))"
  unfolding tickPosition_def Let_def
  by (auto intro!: x_enqueue x_pos x_mark split: option.splits prod.splits)

lemma x_tickPositions: "R e0 (fst st) \<Longrightarrow> R e0 (fst (fold (tickPosition q b) ks st))"
  by (induction ks arbitrary: st) (simp_all add: x_tickPosition)

lemma x_tickPending: "R e0 e \<Longrightarrow> R e0 (tickPending zone q now k e)"
  unfolding tickPending_def by (auto intro!: x_enqueue x_pending split: option.splits prod.splits)

lemma x_quoted: "R e0 e \<Longrightarrow> R e0 (quoted inst tick now e)"
  by (erule x_core) (simp add: quoted_def updateMarketState_def Let_def core_def emit_def split_beta)

lemma x_onTick: "R e0 e \<Longrightarrow> R e0 (onTick zone tick now e)"
  unfolding onTick_def Let_def
  by (auto intro!: x_fold x_tickAccount x_tickPending x_tickPositions x_quoted simp: split_beta split: option.splits)

lemma x_anchorDue: "R e0 e \<Longrightarrow> R e0 (anchorDue now r e)"
  unfolding anchorDue_def Let_def by (auto intro!: x_enqueue x_acct shape_trivial)

lemma x_ruleSweep: "R e0 e \<Longrightarrow> R e0 (ruleSweep now w ro wk rk r e)"
  unfolding ruleSweep_def Let_def by (auto intro!: x_enqueue x_acct shape_trivial split: option.splits prod.splits)

lemma x_secondTick: "R e0 e \<Longrightarrow> R e0 (secondTick zone now e)"
  unfolding secondTick_def enforceHoldingRules_def Let_def
  by (auto intro!: x_fold x_ruleSweep x_anchorDue x_updateMarketState split: option.splits)

section \<open>Persistence and tasks\<close>

lemma x_recordSnapshot: "R e0 e \<Longrightarrow> R e0 (recordSnapshot now r e)"
  unfolding recordSnapshot_def Let_def by (auto intro!: x_dbCall x_acct shape_trivial)

lemma x_flush: "R e0 e \<Longrightarrow> R e0 (flush now e)"
proof -
  assume "R e0 e"
  then have 1: "R e0 (fold (\<lambda>r. onAcct r cleaned) rs e)" for rs by (auto intro!: x_fold x_acct shape_cleaned)
  show ?thesis
    unfolding flush_def Let_def
    by (auto intro: x_dbCall' [OF 1] intro!: x_fold x_recordSnapshot 1 split: prod.splits sum.splits if_splits)
qed

lemma x_reconcileStatuses: "R e0 e \<Longrightarrow> R e0 (reconcileStatuses e)"
  unfolding reconcileStatuses_def reconcileRow_def Let_def
  by (auto intro: x_dbCall' intro!: x_fold x_untrack x_closeAllAndUntrack split: prod.splits sum.splits option.splits)

lemma x_reconcilePositions: "R e0 e \<Longrightarrow> R e0 (reconcilePositions e)"
  unfolding reconcilePositions_def reconcileClosed_def Let_def
  by (auto intro: x_dbCall' intro!: x_fold x_enqueue split: prod.splits sum.splits option.splits)

lemma x_dropClosedTask: "R e0 e \<Longrightarrow> R e0 (dropClosedTask r i e)"
  unfolding dropClosedTask_def Let_def
  by (auto intro: x_dbCall' [OF x_removePosition] intro!: x_emitAccount x_recompute x_mergeRow
      split: prod.splits sum.splits option.splits)

lemma x_reloadRow: "R e0 e \<Longrightarrow> R e0 (reloadRow now row e)"
  unfolding reloadRow_def by (auto intro!: x_enqueue x_trackFromRow split: option.splits)

lemma x_reloadAllAccounts: "R e0 e \<Longrightarrow> R e0 (reloadAllAccounts now e)"
  unfolding reloadAllAccounts_def
  by (auto intro: x_dbCall' intro!: x_fold x_reloadRow split: prod.splits sum.splits)

lemma x_wait: "R e0 e \<Longrightarrow> R e0 ((closeAllAndUntrack r why e)\<lparr>eng_waiting := eng_waiting e @ [w]\<rparr>)"
  using R_wait [of "closeAllAndUntrack r why e" w] x_closeAllAndUntrack [of e0 e r why] R_trans
  by (simp add: closeAllAndUntrack_def enqueue_def)

lemma x_reloadTask: "R e0 e \<Longrightarrow> R e0 (reloadTask r e)"
  unfolding reloadTask_def Let_def
  by (auto intro: x_dbCall' intro!: x_untrack x_emitAccount x_mergeRow x_wait split: prod.splits sum.splits option.splits)

lemma x_result:
  "R e0 (snd p) \<Longrightarrow> R e0 (snd (case p of (Inl err, e1) \<Rightarrow> (Inl err, e1) | (Inr x, e1) \<Rightarrow> (Inr (g x), e1)))"
  by (cases p) (auto split: sum.split)

lemma x_runTask: "R e0 e \<Longrightarrow> R e0 (snd (runTask zone task now e))"
  by (cases task)
    (auto simp: runTask_def intro!: x_result x_close x_triggerPending x_executeBreach x_captureAnchorTask x_flattenForRule
      x_placeOrder x_closePositionRequest x_modifyPositionRequest x_closeAllTask x_dropClosedTask x_reloadTask)

lemma x_runNext: "R e0 e \<Longrightarrow> R e0 (snd (runNext zone i now e))"
proof -
  assume e: "R e0 e"
  have "R e0 (e\<lparr>eng_queue := filter (\<lambda>x. qt_ticket x \<noteq> qt_ticket q) (eng_queue e)\<rparr>)"
    if "List.find (\<lambda>t. qt_accountId t = i) (eng_queue e) = Some q" "\<not> queueBlocked i e" for q
  proof -
    have "q \<in> set (eng_queue e)" "qt_accountId q = i" using that(1) by (auto simp: find_Some_iff)
    with R_pop [of q e] that(2) e R_trans show ?thesis by blast
  qed
  with e show ?thesis unfolding runNext_def by (auto intro!: x_runTask split: option.split)
qed

lemma x_trackAll: "R e0 e \<Longrightarrow> R e0 (snd (trackAll now rows e))"
proof (induction rows arbitrary: e)
  case (Cons row rows)
  obtain x e1 where 1: "trackFromRow row now e = (x, e1)" by fastforce
  have "R e0 e1" using x_trackFromRow [OF Cons.prems, of row now] 1 by simp
  then show ?case using Cons.IH by (simp add: 1 split: sum.split)
qed simp

lemma x_trackAll': "R e0 e \<Longrightarrow> trackAll now rows e = (x, e1) \<Longrightarrow> R e0 e1"
  using x_trackAll [of e0 e now rows] by simp

lemma x_startEngine: "R e0 e \<Longrightarrow> R e0 (snd (startEngine newsRows setting now e))"
proof -
  assume "R e0 e"
  then have 1: "R e0 (reloadInstruments e)" by (rule x_reloadInstruments)
  define e2 where "e2 = (reloadInstruments e)\<lparr>eng_manualHalt := eng_killSwitch (reloadInstruments e), eng_manualHaltReason :=
    (if eng_killSwitch (reloadInstruments e) then Some ''manual kill switch (SystemSetting trading.halted)''
     else eng_manualHaltReason (reloadInstruments e))\<rparr>"
  have "R e0 e2" using 1 by (rule x_core) (simp add: e2_def core_def)
  then have 3: "R e0 (reloadNewsEvents newsRows setting now e2)" by (rule x_reloadNewsEvents)
  obtain x e4 where 4: "dbCall (\<lambda>d. (Inr (loadEngineAccounts d), d)) (reloadNewsEvents newsRows setting now e2) = (x, e4)" by fastforce
  have e4: "R e0 e4" using x_dbCall' [OF 3 4] .
  have "R e0 (updateMarketState True now (e5\<lparr>eng_started := True\<rparr>))" if "trackAll now rows e4 = (y, e5)" for rows y e5
    by (rule x_updateMarketState, rule x_core [OF x_trackAll' [OF e4 that]]) (simp add: core_def)
  then show ?thesis
    unfolding startEngine_def Let_def e2_def [symmetric] 4 using e4
    by (auto intro: x_trackAll' split: sum.split prod.split)
qed

lemma x_emitTimer: "R e0 e \<Longrightarrow> R e0 (emitTimerFires r e)"
  unfolding emitTimerFires_def Let_def by (auto intro!: x_emit x_acct shape_trivial)

end

section \<open>The engine as a transition system\<close>

text \<open>
  One step: a tick, a timer, a client message, a run of the first task of an account's queue, or a change
  of the database (and of which calls will fail) by the rest of the system. Instants are arbitrary.
\<close>

inductive engine_step :: "(int \<Rightarrow> int) \<Rightarrow> Engine \<Rightarrow> Engine \<Rightarrow> bool" for zone where
  tick: "engine_step zone e (onTick zone tick now e)"
| second: "engine_step zone e (secondTick zone now e)"
| message: "engine_step zone e (snd (handle ctx msg now e))"
| run: "engine_step zone e (snd (runNext zone i now e))"
| flushed: "engine_step zone e (flush now e)"
| statuses: "engine_step zone e (reconcileStatuses e)"
| positions: "engine_step zone e (reconcilePositions e)"
| reload: "engine_step zone e (reloadAllAccounts now e)"
| reload_one: "engine_step zone e (snd (reloadAccount i now e))"
| instruments: "engine_step zone e (reloadInstruments e)"
| news: "engine_step zone e (reloadNewsEvents rows setting now e)"
| halt: "engine_step zone e (snd (setManualHalt halted reason now e))"
| timer: "engine_step zone e (emitTimerFires r e)"
| started: "engine_step zone e (snd (startEngine newsRows setting now e))"
| fx: "engine_step zone e (e\<lparr>eng_fx := setUsdRate (eng_fx e) rate source\<rparr>)"
| database: "engine_step zone e (e\<lparr>eng_db := d, eng_faults := fs\<rparr>)"

inductive_cases engine_stepE: "engine_step zone e e'"

context engine_guarantee begin

lemma step: "engine_step zone e e' \<Longrightarrow> R e e'"
proof (erule engine_stepE, goal_cases)
  case (15 rate source)
  then show ?case by (intro R_core) (simp add: core_def)
next
  case (16 d fs)
  then show ?case by (intro R_core) (simp add: core_def)
qed (simp_all add: x_onTick x_secondTick x_handle x_runNext x_flush x_reconcileStatuses x_reconcilePositions x_reloadAllAccounts
    x_reloadAccount x_reloadInstruments x_reloadNewsEvents x_setManualHalt x_emitTimer x_startEngine refl)

lemma steps: "(engine_step zone)\<^sup>*\<^sup>* e e' \<Longrightarrow> R e e'"
  by (induction rule: rtranclp_induct) (auto intro: refl step R_trans)

end

end
