(* ===== verification/EngineProofs.thy ===== *)
theory EngineProofs
  imports EngineGuarantee LedgerProofs
begin

text \<open>Properties of the live engine: three guarantees of every step, and what single handlers do.\<close>

section \<open>Every position is watched\<close>

text \<open>Every position and pending order of an account object is in the index of its symbol.\<close>

definition watched :: "Engine \<Rightarrow> bool" where
  "watched e \<longleftrightarrow> (\<forall>r. (\<forall>p\<in>set (ea_positions (eng_heap e r)). (ep_symbol p, r, ep_id p) \<in> set (eng_positionsBySymbol e))
     \<and> (\<forall>p\<in>set (ea_pending (eng_heap e r)). (eo_symbol p, r, eo_id p) \<in> set (eng_pendingBySymbol e)))"

lemma watched_iff: "watched e \<longleftrightarrow> (\<forall>r k. k \<in> set (map (\<lambda>p. (ep_symbol p, ep_id p)) (ea_positions (eng_heap e r)))
     \<longrightarrow> (fst k, r, snd k) \<in> set (eng_positionsBySymbol e))
   \<and> (\<forall>r k. k \<in> set (map (\<lambda>p. (eo_symbol p, eo_id p)) (ea_pending (eng_heap e r)))
     \<longrightarrow> (fst k, r, snd k) \<in> set (eng_pendingBySymbol e))"
  unfolding watched_def by auto

lemma map_set_subset: "set (map_set key v xs) \<subseteq> insert v (set xs)"
  by (auto simp: map_set_def)

lemma watched_acct: "keeps_shape f \<Longrightarrow> watched e \<Longrightarrow> watched (onAcct r f e)"
  unfolding watched_iff keeps_shape_def onAcct_def by (auto simp del: set_map)

interpretation watch: engine_guarantee "\<lambda>e e'. watched e \<longrightarrow> watched e'"
proof (unfold_locales, goal_cases)
  case (1 e' e)
  then show ?case by (simp add: watched_def core_def)
next
  case (3 f e r)
  then show ?case by (simp add: watched_acct)
next
  case (4 a e)
  then show ?case by (simp add: watched_def onAcct_def)
next
  case (5 e r pos)
  then show ?case using map_set_subset [of ep_id pos "ea_positions (eng_heap e r)"]
    by (auto simp: watched_def insertPosition_def onAcct_def)
next
  case (7 e r o1)
  then show ?case using map_set_subset [of eo_id o1 "ea_pending (eng_heap e r)"]
    by (auto simp: watched_def insertPending_def onAcct_def)
qed (auto simp: watched_def removePosition_def removePending_def onAcct_def enqueue_def)

section \<open>Peaks and flags only grow\<close>

definition grown :: "EngineAccount \<Rightarrow> EngineAccount \<Rightarrow> bool" where
  "grown a b \<longleftrightarrow> ea_id b = ea_id a \<and> ea_userId b = ea_userId a \<and> ea_startingBalance b = ea_startingBalance a
     \<and> peak_le (ea_highWaterMark a) (ea_highWaterMark b)
     \<and> (ea_untracked a \<longrightarrow> ea_untracked b) \<and> (ea_breaching a \<longrightarrow> ea_breaching b)"

definition grows :: "Engine \<Rightarrow> Engine \<Rightarrow> bool" where
  "grows e e' \<longleftrightarrow> eng_nextRef e \<le> eng_nextRef e' \<and> (\<forall>r<eng_nextRef e. grown (eng_heap e r) (eng_heap e' r))"

lemma grown_trans: "grown a b \<Longrightarrow> grown b c \<Longrightarrow> grown a c"
  by (auto simp: grown_def intro: peak_trans)

lemma grown_refl [simp]: "grown a a"
  by (simp add: grown_def)

lemma grows_trans: "grows e e1 \<Longrightarrow> grows e1 e2 \<Longrightarrow> grows e e2"
  unfolding grows_def by (meson grown_trans order_less_le_trans order_trans)

interpretation peak: engine_guarantee grows
proof (unfold_locales, goal_cases)
  case 2
  then show ?case by (rule grows_trans)
next
  case 3
  then show ?case by (simp add: grows_def grown_def keeps_shape_def onAcct_def)
qed (auto simp: grows_def grown_def core_def onAcct_def insertPosition_def removePosition_def insertPending_def removePending_def enqueue_def)

section \<open>Queues\<close>

definition tickets_ok :: "Engine \<Rightarrow> bool" where
  "tickets_ok e \<longleftrightarrow> distinct (map qt_ticket (eng_queue e)) \<and> (\<forall>q\<in>set (eng_queue e). qt_ticket q < eng_nextTicket e)"

text \<open>The current task of an account waits for a task that stands behind it in the same queue.\<close>

definition stuck :: "nat \<Rightarrow> Engine \<Rightarrow> bool" where
  "stuck i e \<longleftrightarrow> (\<exists>k. (i, k) \<in> set (eng_waiting e) \<and> (\<exists>q\<in>set (eng_queue e). qt_ticket q = k \<and> qt_accountId q = i))"

definition stays_stuck :: "Engine \<Rightarrow> Engine \<Rightarrow> bool" where
  "stays_stuck e e' \<longleftrightarrow> (tickets_ok e \<longrightarrow> tickets_ok e' \<and> (\<forall>i. stuck i e \<longrightarrow> stuck i e'))"

lemma stuck_blocked: "stuck i e \<Longrightarrow> queueBlocked i e"
  by (force simp: stuck_def queueBlocked_def)

lemma stays_stuck_pop:
  assumes "first \<in> set (eng_queue e)" "\<not> queueBlocked (qt_accountId first) e"
  shows "stays_stuck e (e\<lparr>eng_queue := filter (\<lambda>x. qt_ticket x \<noteq> qt_ticket first) (eng_queue e)\<rparr>)"
proof -
  have "stuck i (e\<lparr>eng_queue := filter (\<lambda>x. qt_ticket x \<noteq> qt_ticket first) (eng_queue e)\<rparr>)"
    if ok: "tickets_ok e" and s: "stuck i e" for i
  proof -
    obtain k q where q: "(i, k) \<in> set (eng_waiting e)" "q \<in> set (eng_queue e)" "qt_ticket q = k" "qt_accountId q = i"
      using s by (auto simp: stuck_def)
    have "qt_ticket q \<noteq> qt_ticket first"
    proof
      assume "qt_ticket q = qt_ticket first"
      then have "q = first" using ok q(2) assms(1) by (auto simp: tickets_ok_def distinct_map inj_on_def)
      then show False using stuck_blocked [OF s] q(4) assms(2) by simp
    qed
    with q show ?thesis by (auto simp: stuck_def)
  qed
  then show ?thesis by (auto simp: stays_stuck_def tickets_ok_def distinct_map_filter)
qed

interpretation queue: engine_guarantee stays_stuck
proof (unfold_locales, goal_cases)
  case 11
  then show ?case by (rule stays_stuck_pop)
qed (auto simp: stays_stuck_def tickets_ok_def stuck_def core_def onAcct_def insertPosition_def removePosition_def insertPending_def
    removePending_def enqueue_def)

section \<open>Reachable engines\<close>

definition reachable :: "(int \<Rightarrow> int) \<Rightarrow> Converter \<Rightarrow> Engine \<Rightarrow> bool" where
  "reachable zone c e \<longleftrightarrow> (engine_step zone)\<^sup>*\<^sup>* (new_Engine c) e"

lemma reachable_watched: "reachable zone c e \<Longrightarrow> watched e"
proof -
  assume "reachable zone c e"
  moreover have "watched (new_Engine c)" by (simp add: watched_def new_Engine_def newEngineAccount_def Let_def)
  ultimately show ?thesis using watch.steps [of zone "new_Engine c" e] by (simp add: reachable_def)
qed

lemma reachable_tickets: "reachable zone c e \<Longrightarrow> tickets_ok e"
proof -
  assume "reachable zone c e"
  moreover have "tickets_ok (new_Engine c)" by (simp add: tickets_ok_def new_Engine_def)
  ultimately show ?thesis using queue.steps [of zone "new_Engine c" e] by (simp add: reachable_def stays_stuck_def)
qed

text \<open>
  C10: Once an account is breaching or untracked, its object stays so, the peak the engine uses for the
  trailing drawdown never decreases, and the account, the owner and the starting balance of the object
  never change, through any sequence of ticks, timers, messages, tasks, reloads and
  changes of the database by other parts of the system.
\<close>

theorem peaks_and_flags_only_grow:
  assumes "(engine_step zone)\<^sup>*\<^sup>* e e'" "r < eng_nextRef e"
  shows "(ea_highWaterMark (eng_heap e' r) = NaN \<or> ea_highWaterMark (eng_heap e r) \<le> ea_highWaterMark (eng_heap e' r))
    \<and> (ea_breaching (eng_heap e r) \<longrightarrow> ea_breaching (eng_heap e' r)) \<and> (ea_untracked (eng_heap e r) \<longrightarrow> ea_untracked (eng_heap e' r))
    \<and> ea_id (eng_heap e' r) = ea_id (eng_heap e r) \<and> ea_userId (eng_heap e' r) = ea_userId (eng_heap e r)
    \<and> ea_startingBalance (eng_heap e' r) = ea_startingBalance (eng_heap e r)"
  using peak.steps [OF assms(1)] assms(2) by (simp add: grows_def grown_def peak_le_def)

section \<open>The reload task and its own queue\<close>

lemma runNext_stuck: "stuck i e \<Longrightarrow> runNext zone i now e = (Inr [], e)"
  using stuck_blocked by (auto simp: runNext_def split: option.split)

text \<open>
  A periodic reload that finds its account no longer tradable waits, inside the account's queue, for a
  close-all task that it puts on that same queue: from then on no task of that account runs again, whatever
  else happens, so the close-all, later orders, closes and breaches of that account never execute.
  (Distinct tickets hold in every reachable engine: \<open>reachable_tickets\<close>.)
\<close>

theorem reload_blocks_its_queue:
  assumes "tickets_ok e" "List.find (\<lambda>q. qt_accountId q = i) (eng_queue e) = Some q" "qt_task q = TReload r"
    and "\<not> queueBlocked i e" "\<not> ea_untracked (eng_heap e r)" "ea_id (eng_heap e r) = i" "eng_faults e = []"
    and "accountRow i (eng_db e) = Some row" "\<not> TRADABLE (acc_status row)"
    and "(engine_step zone)\<^sup>*\<^sup>* (snd (runNext zone i now e)) later"
  shows "runNext zone i t later = (Inr [], later)"
proof -
  let ?e0 = "e\<lparr>eng_queue := filter (\<lambda>x. qt_ticket x \<noteq> qt_ticket q) (eng_queue e)\<rparr>"
  let ?e1 = "snd (runNext zone i now e)"
  have load: "loadEngineAccount i (eng_db ?e0) = Some (row, openPositionsOf (acc_id row) (eng_db e))"
    using assms(8) by (simp add: loadEngineAccount_def)
  have call: "dbCall (\<lambda>d. (Inr (loadEngineAccount i d), d)) ?e0 = (Inr (loadEngineAccount i (eng_db e)), ?e0\<lparr>eng_faults := []\<rparr>)"
    for f :: unit using assms(7) by (simp add: dbCall_def)
  have e1: "?e1 = (closeAllAndUntrack r (''status '' @ statusName (acc_status row)) (?e0\<lparr>eng_faults := []\<rparr>))
      \<lparr>eng_waiting := eng_waiting e @ [(i, eng_nextTicket e)]\<rparr>"
    using assms(2-6,9) load call by (simp add: runNext_def runTask_def reloadTask_def)
  have "stuck i ?e1"
    unfolding e1 using assms(6) by (auto simp: stuck_def closeAllAndUntrack_def enqueue_def)
  moreover have "tickets_ok ?e1"
    using queue.step [OF engine_step.run] assms(1) by (simp add: stays_stuck_def)
  ultimately have "stuck i later" using queue.steps [OF assms(10)] by (simp add: stays_stuck_def)
  then show ?thesis by (rule runNext_stuck)
qed

section \<open>Breaches and the challenge rules\<close>

text \<open>The account of the engine as the rules see it.\<close>

definition rulesInput :: "EngineAccount \<Rightarrow> int \<Rightarrow> bool \<Rightarrow> ConsistencyResult option \<Rightarrow> DecisionInput" where
  "rulesInput a tradingDays expired consistency =
     (let r = rules (ea_snapshot a) in
      \<lparr>i_status = ea_status a, i_phase = ea_phase a, i_startingBalance = ea_startingBalance a, i_netPnl = ea_realizedPnl a,
       i_equity = ea_equity a, i_highWaterMark = ea_highWaterMark a, i_dailyAnchorBalance = ea_dailyAnchorBalance a,
       i_tradingDays = tradingDays,
       i_snapshot = \<lparr>r_maxDrawdown = tpl_maxDrawdown r, r_dailyDrawdown = tpl_dailyDrawdown r, r_profitTarget = tpl_profitTarget r,
         r_minTradingDays = tpl_minTradingDays r, r_drawdownMode = (case tpl_drawdownMode r of None \<Rightarrow> Some STATIC | m \<Rightarrow> m)\<rparr>,
       i_expired = expired, i_consistency = consistency\<rparr>)"

text \<open>
  C6: The live engine and the challenge rules agree: for the same figures of a tradable account the engine
  detects a breach exactly when the rules fail the account for another reason than expiry (which only the
  evaluation looks for), and then with the same reason, drawdown before daily loss, and the same floor.
\<close>

theorem engine_breach_agrees_with_rules:
  assumes "TRADABLE (ea_status a)"
  shows "let d = determineChallengeTransition (rulesInput a tradingDays expired consistency) in
    breachOf a =
      (if nextStatus d = FAILED \<and> failureReason d = Some MAX_DRAWDOWN then Some (MAX_DRAWDOWN, d_maxDrawdownFloor d)
       else if nextStatus d = FAILED \<and> failureReason d = Some DAILY_LOSS then Some (DAILY_LOSS, d_dailyLossFloor d) else None)
    \<and> (breachOf a \<noteq> None) = (nextStatus d = FAILED \<and> failureReason d \<noteq> Some EXPIRED)
    \<and> map_option fst (breachOf a) = (if failureReason d = Some EXPIRED then None else failureReason d)"
proof -
  have "ea_status a \<notin> set AUTO_EVALUATION_TERMINAL_STATUSES" "ea_status a \<noteq> FAILED"
    using assms by (auto simp: TRADABLE_def AUTO_EVALUATION_TERMINAL_STATUSES_def)
  then show ?thesis
    by (simp add: breachOf_def floors_def determineChallengeTransition_def rulesInput_def Let_def split_beta split: option.split)
qed

text \<open>
  A payout that consumes the whole profit of a trailing-drawdown account fails it in the live engine.
  The payout lowers the stored peak with the balance, but the engine keeps its own higher peak when it
  merges the row; when that peak had locked the floor at the starting balance, the engine finds a maximum
  drawdown breach at once, although the floor of the stored figures lies below the balance.
\<close>

theorem payout_breaches_trailing_account:
  assumes "0 < S" "S \<le> 2 ^ 30" "0 < p" "p \<le> 100" "H \<le> 2 ^ 46" "100 * S + S * p \<le> H"
    and "ea_highWaterMark a = cents H" "ea_positions a = []" "ea_startingBalance a = cents (100 * S)"
    and "acc_snapshot row = snap" "tpl_drawdownMode (rules snap) = Some TRAILING" "tpl_maxDrawdown (rules snap) = Fin (of_int p)"
    and "acc_balance row = cents (100 * S)" "acc_highWaterMark row = cents (100 * S)"
  shows "breachOf (recomputed (mergedColumns row a)) = Some (MAX_DRAWDOWN, cents (100 * S))
    \<and> maxDrawdownFloor (cents (100 * S)) (acc_highWaterMark row) (tpl_maxDrawdown (rules snap)) (Some TRAILING) < acc_balance row"
proof -
  define q where "q = S * p"
  have P: "\<bar>S\<bar> \<le> 2 ^ 40" "\<bar>p\<bar> \<le> 2 ^ 40" "money_ok q" "money_ok (100 * S - q)" "money_ok (100 * S)"
    using percent_ok [of S p] assms(1-4) by (simp_all add: q_def)
  have q: "0 < q" "100 * S + q \<le> H" using assms(1,3,6) by (simp_all add: q_def)
  have ok: "money_ok H" "money_ok (H - q)" "money_ok (max H (100 * S) - q)" "money_ok (max (100 * S) (100 * S) - q)"
    using q assms(1,5) P(4) by (auto simp: money_ok_def)
  have le: "cents (100 * S) \<le> cents H" using q assms(1) by (intro cents_mono) simp
  let ?b = "recomputed (mergedColumns row a)"
  have hm: "Math_max (cents H) (cents (100 * S)) = cents H"
    using le by (auto simp: Math_max_def) (metis number_le_less_trans number_less_irrefl)
  have b: "ea_positions ?b = []" "ea_startingBalance ?b = cents (100 * S)" "ea_snapshot ?b = snap"
    using assms(8-10) by (simp_all add: recomputed_def mergedColumns_def Let_def)
  have fl: "roundCurrency (js_sum []) = cents 0" by (simp add: js_sum_def roundCurrency_cents [of 0, simplified])
  have eq: "ea_equity ?b = cents (100 * S)"
    using assms(8,13) P(5) fl roundCurrency_add [of "100 * S" 0]
    by (simp add: recomputed_def mergedColumns_def Let_def money_ok_def)
  have "\<not> cents (100 * S) > cents H" using le by (metis number_le_less_trans number_less_irrefl)
  then have hwm: "ea_highWaterMark ?b = cents H"
    using eq hm assms(7,14) by (simp add: recomputed_def mergedColumns_def Let_def)
  have "maxDrawdownFloor (cents (100 * S)) (cents H) (Fin (of_int p)) (Some TRAILING) = cents (100 * S)"
  proof -
    have "max H (100 * S) = H" "min (H - q) (100 * S) = 100 * S" using q by simp_all
    then show ?thesis
      using maxDrawdownFloor_trailing [OF P(1,2) _ ok(1)] P(3) ok(3) q(1) unfolding q_def [symmetric] by simp
  qed
  then have "breachOf ?b = Some (MAX_DRAWDOWN, cents (100 * S))"
    using b eq hwm assms(11,12) P(5) by (simp add: breachOf_def floors_def Let_def roundCurrency_cents)
  moreover have "maxDrawdownFloor (cents (100 * S)) (cents (100 * S)) (Fin (of_int p)) (Some TRAILING) = cents (100 * S - q)"
    using maxDrawdownFloor_trailing [OF P(1,2) _ P(5)] P(3) ok(4) q unfolding q_def [symmetric] by (simp add: min_def)
  moreover have "cents (100 * S - q) < cents (100 * S)" using P(4,5) q by (simp add: cents_less_iff)
  ultimately show ?thesis using assms(12-14) by simp
qed

section \<open>Sample engines\<close>

definition sampleInstrument :: Instrument where
  "sampleInstrument = \<lparr>minVolume = Fin (1 / 100), maxVolume = Fin 50, volumeStep = Fin (1 / 100), ins_symbol = ''ETBUSD'',
     ins_category = FOREX, ins_baseCurrency = ''USD'', ins_quoteCurrency = ''ETB'', ins_digits = 2, ins_contractSize = Fin 100,
     ins_spreadMarkupPoints = Fin 0, ins_commissionPerLot = Fin 0, ins_enabled = True, ins_sortOrder = 0\<rparr>"

definition samplePos :: EnginePosition where
  "samplePos = (enginePosition samplePosition)\<lparr>ep_symbol := ''ETBUSD'', ep_stopLoss := Some (Fin 90)\<rparr>"

definition sampleEngineAccount :: EngineAccount where
  "sampleEngineAccount = (newEngineAccount sampleAccount 0)\<lparr>ea_positions := [samplePos]\<rparr>"

definition sampleEngine :: Engine where
  "sampleEngine = (new_Engine (new_Converter ''ETB''))\<lparr>eng_instruments := [sampleInstrument],
     eng_heap := (\<lambda>_. sampleEngineAccount), eng_nextRef := 1, eng_accounts := [(7, 0)],
     eng_positionsBySymbol := [(''ETBUSD'', 0, 50)], eng_db := sampleTrading\<rparr>"

lemma sample_engine_simps:
  "eng_faults sampleEngine = []" "eng_queue sampleEngine = []" "eng_waiting sampleEngine = []" "eng_nextTicket sampleEngine = 0"
  "eng_heap sampleEngine r = sampleEngineAccount" "eng_db sampleEngine = sampleTrading" "eng_nextRef sampleEngine = 1"
  "refOf 7 sampleEngine = Some 0" "eng_accounts sampleEngine = [(7, 0)]" "eng_instruments sampleEngine = [sampleInstrument]"
  "eng_fx sampleEngine = new_Converter ''ETB''"
  by (simp_all add: sampleEngine_def new_Engine_def refOf_def)

lemma sample_account_simps:
  "ea_id sampleEngineAccount = 7" "ea_userId sampleEngineAccount = 3" "ea_status sampleEngineAccount = ACTIVE"
  "ea_untracked sampleEngineAccount = False" "ea_breaching sampleEngineAccount = False"
  "ea_positions sampleEngineAccount = [samplePos]" "ea_pending sampleEngineAccount = []"
  "ea_highWaterMark sampleEngineAccount = Fin 10000" "ea_snapshot sampleEngineAccount = sampleSnapshot"
  "ea_balance sampleEngineAccount = Fin 10000"
  by (simp_all add: sampleEngineAccount_def newEngineAccount_def sampleAccount_def Let_def)

lemma sample_pos_simps:
  "ep_id samplePos = 50" "ep_accountId samplePos = 7" "ep_symbol samplePos = ''ETBUSD''" "ep_side samplePos = BUY"
  "ep_volume samplePos = Fin 1" "ep_entryPrice samplePos = Fin 1" "ep_stopLoss samplePos = Some (Fin 90)"
  "ep_takeProfit samplePos = None" "ep_closing samplePos = False"
  by (simp_all add: samplePos_def enginePosition_def samplePosition_def)

lemmas sample_simps = sample_engine_simps sample_account_simps sample_pos_simps

theorem peaks_and_flags_only_grow_witness:
  "(ea_highWaterMark (eng_heap (emitTimerFires 0 (flush 5 sampleEngine)) 0) = NaN
    \<or> Fin 10000 \<le> ea_highWaterMark (eng_heap (emitTimerFires 0 (flush 5 sampleEngine)) 0))
    \<and> ea_userId (eng_heap (emitTimerFires 0 (flush 5 sampleEngine)) 0) = 3"
proof -
  have "(engine_step (\<lambda>_. 0))\<^sup>*\<^sup>* sampleEngine (emitTimerFires 0 (flush 5 sampleEngine))"
    by (meson converse_rtranclp_into_rtranclp engine_step.flushed engine_step.timer r_into_rtranclp)
  from peaks_and_flags_only_grow [OF this, of 0] show ?thesis by (simp add: sample_simps)
qed

theorem reload_blocks_its_queue_witness:
  "\<exists>e. runNext (\<lambda>_. 0) 7 9 (snd (runNext (\<lambda>_. 0) 7 5 e)) = (Inr [], snd (runNext (\<lambda>_. 0) 7 5 e))
    \<and> eng_queue (snd (runNext (\<lambda>_. 0) 7 5 e)) \<noteq> []"
proof -
  let ?row = "sampleAccount\<lparr>acc_status := SUSPENDED\<rparr>"
  let ?e = "enqueue 7 (TReload 0) (sampleEngine\<lparr>eng_db := sampleTrading\<lparr>accounts_t := [?row]\<rparr>\<rparr>)"
  have ok: "tickets_ok ?e" by (simp add: tickets_ok_def enqueue_def sample_simps)
  have f: "List.find (\<lambda>q. qt_accountId q = 7) (eng_queue ?e) = Some \<lparr>qt_ticket = 0, qt_accountId = 7, qt_task = TReload 0\<rparr>"
    by (simp add: enqueue_def sample_simps)
  have b: "\<not> queueBlocked 7 ?e" by (simp add: queueBlocked_def enqueue_def sample_simps)
  have row: "accountRow 7 (eng_db ?e) = Some ?row"
    by (simp add: enqueue_def accountRow_def findUnique_def sampleAccount_def)
  have st: "\<not> TRADABLE (acc_status ?row)" by (simp add: TRADABLE_def)
  have "eng_queue (snd (runNext (\<lambda>_. 0) 7 5 ?e)) \<noteq> []"
    using f b row st by (simp add: runNext_def runTask_def reloadTask_def dbCall_def loadEngineAccount_def closeAllAndUntrack_def
        enqueue_def sample_simps Let_def)
  moreover have "runNext (\<lambda>_. 0) 7 9 (snd (runNext (\<lambda>_. 0) 7 5 ?e)) = (Inr [], snd (runNext (\<lambda>_. 0) 7 5 ?e))"
    by (rule reload_blocks_its_queue [OF ok f _ b _ _ _ row st rtranclp.rtrancl_refl, of 0]) (simp_all add: enqueue_def sample_simps)
  ultimately show ?thesis by blast
qed

definition accountWithEquity :: "int \<Rightarrow> EngineAccount" where
  "accountWithEquity e = (newEngineAccount sampleAccount 0)\<lparr>ea_equity := cents e\<rparr>"

lemma accountWithEquity_decision:
  assumes "money_ok e"
  shows "(let d = determineChallengeTransition (rulesInput (accountWithEquity e) 0 True None) in
      (nextStatus d, failureReason d, d_maxDrawdownFloor d, d_dailyLossFloor d)) =
    (FAILED, Some (if e \<le> 900000 then MAX_DRAWDOWN else if e \<le> 950000 then DAILY_LOSS else EXPIRED), cents 900000, cents 950000)"
proof -
  have c: "Fin 10000 = cents (100 * 10000)" using cents_whole [of 10000] by simp
  have fl: "maxDrawdownFloor (Fin 10000) h (Fin 10) (Some STATIC) = cents 900000"
    "dailyLossFloor (Fin 10000) (Fin 5) = cents 950000" "targetAmount (Fin 10000) (Some (Fin 8)) = Some (cents 80000)" for h
    using maxDrawdownFloor_static [of 10000 10 "Some STATIC" h] dailyLossFloor_cents [of 10000 5] targetAmount_cents [of 10000 8]
    unfolding c by (simp_all add: floor_cents_def money_ok_def)
  have "roundCurrency (Fin 0) = cents 0" "cents 80000 \<le> cents 0 \<longleftrightarrow> False"
    using roundCurrency_cents [of 0] cents_le_iff [of 80000 0] by (simp_all add: money_ok_def)
  then show ?thesis using assms
    by (simp add: determineChallengeTransition_def rulesInput_def accountWithEquity_def newEngineAccount_def sampleAccount_def
        sample_simps sampleSnapshot_def sampleRules_def Let_def fl AUTO_EVALUATION_TERMINAL_STATUSES_def
        roundCurrency_cents cents_le_iff money_ok_def)
qed

theorem engine_breach_agrees_with_rules_witness:
  "breachOf (accountWithEquity 900000) = Some (MAX_DRAWDOWN, cents 900000)
   \<and> breachOf (accountWithEquity 900001) = Some (DAILY_LOSS, cents 950000)
   \<and> breachOf (accountWithEquity 950000) = Some (DAILY_LOSS, cents 950000)
   \<and> breachOf (accountWithEquity 950001) = None"
proof -
  have "TRADABLE (ea_status (accountWithEquity e))" for e
    by (simp add: accountWithEquity_def newEngineAccount_def sampleAccount_def TRADABLE_def Let_def)
  note t = engine_breach_agrees_with_rules [OF this, of _ 0 True None]
  have "breachOf (accountWithEquity e) = (if e \<le> 900000 then Some (MAX_DRAWDOWN, cents 900000)
      else if e \<le> 950000 then Some (DAILY_LOSS, cents 950000) else None)" if "money_ok e" for e
    using t [of e] accountWithEquity_decision [OF that] by (simp add: Let_def split: if_splits)
  then show ?thesis by (simp add: money_ok_def)
qed

theorem payout_breaches_trailing_account_witness:
  "\<exists>a row. acc_balance row = cents 1000000 \<and> breachOf (recomputed (mergedColumns row a)) = Some (MAX_DRAWDOWN, cents 1000000)"
proof -
  let ?snap = "Snapshot (sampleRules\<lparr>tpl_drawdownMode := Some TRAILING\<rparr>) None"
  let ?row = "sampleAccount\<lparr>acc_snapshot := ?snap, acc_balance := cents 1000000, acc_highWaterMark := cents 1000000\<rparr>"
  let ?a = "(newEngineAccount sampleAccount 0)\<lparr>ea_highWaterMark := cents 1200000\<rparr>"
  have c: "Fin 10000 = cents (100 * 10000)" using cents_whole [of 10000] by simp
  have "breachOf (recomputed (mergedColumns ?row ?a)) = Some (MAX_DRAWDOWN, cents (100 * 10000))"
    using payout_breaches_trailing_account [of 10000 10 1200000 ?a ?row ?snap] c
    by (simp add: newEngineAccount_def sampleAccount_def sampleRules_def Let_def)
  then show ?thesis by (intro exI [of _ ?a] exI [of _ ?row]) simp
qed

end
