(* ===== verification/Commerce.thy ===== *)
theory Commerce
  imports ChallengeEngine
begin

text \<open>
  The commercial tables (\<open>prisma/schema.prisma\<close>: User, Purchase, Coupon, ReferralReward, Payout,
  KycSubmission) beside the trading ones. A transaction is a function from the store to an error or a
  result with the new store, as in \<open>Database\<close>; ids come from the one counter \<open>next_id\<close>. The JSON value of
  the setting \<open>referral.commissionPercent\<close> is kept as the number the code reads from it. Free texts (notes,
  payout destinations) are left out.
\<close>

section \<open>Tables\<close>

datatype UserStatus = USER_ACTIVE | USER_DISABLED

record User =
  usr_id :: nat
  usr_name :: string
  usr_email :: "string option"
  usr_status :: UserStatus
  usr_referralCode :: "string option"
  usr_referredById :: "nat option"

datatype PurchaseStatus = PUR_PENDING | PUR_PAID | PUR_FAILED | PUR_REFUNDED | PUR_CANCELLED

record Purchase =
  pur_id :: nat
  pur_userId :: nat
  pur_templateId :: "nat option"
  pur_status :: PurchaseStatus
  pur_amount :: number
  pur_currency :: string
  pur_providerTxRef :: string
  pur_idempotencyKey :: "string option"
  pur_paymentDate :: "int option"
  pur_refundedAt :: "int option"
  pur_cancelledAt :: "int option"
  pur_snapshot :: TemplateSnapshot
  pur_couponId :: "nat option"
  pur_listPrice :: "number option"
  pur_discountAmount :: number
  pur_createdAt :: int

record Coupon =
  cpn_id :: nat
  cpn_code :: string
  cpn_description :: string
  cpn_percentOff :: "number option"
  cpn_amountOff :: "number option"
  cpn_currency :: string
  cpn_maxRedemptions :: "int option"
  cpn_perUserLimit :: int
  cpn_redeemedCount :: int
  cpn_templateIds :: "nat list"
  cpn_validFrom :: "int option"
  cpn_validUntil :: "int option"
  cpn_active :: bool

datatype ReferralRewardStatus = RWD_PENDING | RWD_APPROVED | RWD_PAID | RWD_VOID

record ReferralReward =
  rwd_id :: nat
  rwd_referrerId :: nat
  rwd_referredUserId :: nat
  rwd_purchaseId :: nat
  rwd_percent :: number
  rwd_amount :: number
  rwd_currency :: string
  rwd_status :: ReferralRewardStatus
  rwd_approvedById :: "nat option"
  rwd_approvedAt :: "int option"
  rwd_paidById :: "nat option"
  rwd_paidAt :: "int option"
  rwd_voidedAt :: "int option"

datatype PayoutStatus = PAY_PENDING | PAY_APPROVED | PAY_PAID | PAY_REJECTED

record Payout =
  pay_id :: nat
  pay_accountId :: nat
  pay_userId :: nat
  pay_amount :: number
  pay_currency :: string
  pay_status :: PayoutStatus
  pay_createdById :: "nat option"
  pay_approvedById :: "nat option"
  pay_approvedAt :: "int option"
  pay_paidById :: "nat option"
  pay_paidAt :: "int option"
  pay_rejectedById :: "nat option"
  pay_rejectedAt :: "int option"
  pay_rejectReason :: "string option"
  pay_providerRef :: "string option"
  pay_requestedAt :: int

datatype KycStatus = KYC_PENDING | KYC_APPROVED | KYC_REJECTED

record Store =
  st_db :: db
  st_users :: "User list"
  st_purchases :: "Purchase list"
  st_coupons :: "Coupon list"
  st_rewards :: "ReferralReward list"
  st_payouts :: "Payout list"
  st_kyc :: "(nat \<times> KycStatus) list"
  st_commissionSetting :: "number option"

section \<open>Operations shared by the services\<close>

definition onDb :: "(db \<Rightarrow> db) \<Rightarrow> Store \<Rightarrow> Store" where
  "onDb f s = s\<lparr>st_db := f (st_db s)\<rparr>"

definition newId :: "Store \<Rightarrow> nat" where
  "newId s = next_id (st_db s)"

definition takeId :: "Store \<Rightarrow> Store" where
  "takeId = onDb (\<lambda>d. d\<lparr>next_id := next_id d + 1\<rparr>)"

definition audit :: "nat option \<Rightarrow> string \<Rightarrow> string \<Rightarrow> nat \<Rightarrow> Store \<Rightarrow> Store" where
  "audit actor action targetType targetId = onDb (logAudit actor action targetType targetId)"

definition notify :: "nat \<Rightarrow> string \<Rightarrow> Store \<Rightarrow> Store" where
  "notify user title = onDb (notifyUser user title)"

text \<open>\<open>createMany({ skipDuplicates: true })\<close> of one row under a unique key: the number of rows created.\<close>

definition createUnlessKnown :: "('r \<Rightarrow> 'k) \<Rightarrow> 'r \<Rightarrow> 'r list \<Rightarrow> nat \<times> 'r list" where
  "createUnlessKnown key row rows = (if \<exists>r\<in>set rows. key r = key row then (0, rows) else (1, rows @ [row]))"

text \<open>The unique key of a ledger entry.\<close>

definition ledgerKey :: "LedgerEntry \<Rightarrow> LedgerEntryType \<times> string \<times> nat" where
  "ledgerKey l = (led_type l, led_refType l, led_refId l)"

definition recordEntry :: "LedgerEntry \<Rightarrow> Store \<Rightarrow> Store" where
  "recordEntry l = onDb (\<lambda>d. d\<lparr>ledger_t := snd (createUnlessKnown ledgerKey l (ledger_t d))\<rparr>)"

definition purchaseRow :: "nat \<Rightarrow> Store \<Rightarrow> Purchase option" where
  "purchaseRow i s = findUnique (\<lambda>p. pur_id p = i) (st_purchases s)"

definition couponRow :: "nat \<Rightarrow> Store \<Rightarrow> Coupon option" where
  "couponRow i s = findUnique (\<lambda>c. cpn_id c = i) (st_coupons s)"

definition couponByCode :: "string \<Rightarrow> Store \<Rightarrow> Coupon option" where
  "couponByCode k s = findUnique (\<lambda>c. cpn_code c = k) (st_coupons s)"

definition templateRow :: "nat \<Rightarrow> Store \<Rightarrow> Template option" where
  "templateRow i s = findUnique (\<lambda>t. tpl_id (tmpl_rules t) = i) (templates_t (st_db s))"

definition userRow :: "nat \<Rightarrow> Store \<Rightarrow> User option" where
  "userRow i s = findUnique (\<lambda>u. usr_id u = i) (st_users s)"

definition rewardOfPurchase :: "nat \<Rightarrow> Store \<Rightarrow> ReferralReward option" where
  "rewardOfPurchase i s = findUnique (\<lambda>r. rwd_purchaseId r = i) (st_rewards s)"

definition payoutRow :: "nat \<Rightarrow> Store \<Rightarrow> Payout option" where
  "payoutRow i s = findUnique (\<lambda>p. pay_id p = i) (st_payouts s)"

definition accountOfPurchase :: "nat \<Rightarrow> Store \<Rightarrow> TradingAccount option" where
  "accountOfPurchase i s = findUnique (\<lambda>a. acc_purchaseId a = Some i) (accounts_t (st_db s))"

lemma store_tables [simp]:
  "st_purchases (onDb f s) = st_purchases s" "st_coupons (onDb f s) = st_coupons s" "st_rewards (onDb f s) = st_rewards s"
  "st_payouts (onDb f s) = st_payouts s" "st_users (onDb f s) = st_users s" "st_kyc (onDb f s) = st_kyc s"
  "st_commissionSetting (onDb f s) = st_commissionSetting s" "st_db (onDb f s) = f (st_db s)"
  by (simp_all add: onDb_def)

lemma log_tables [simp]:
  "st_purchases (audit a b c i s) = st_purchases s" "st_coupons (audit a b c i s) = st_coupons s"
  "st_rewards (audit a b c i s) = st_rewards s" "st_payouts (audit a b c i s) = st_payouts s"
  "st_db (audit a b c i s) = logAudit a b c i (st_db s)" "st_users (audit a b c i s) = st_users s"
  "st_purchases (notify u t s) = st_purchases s" "st_coupons (notify u t s) = st_coupons s"
  "st_rewards (notify u t s) = st_rewards s" "st_payouts (notify u t s) = st_payouts s"
  "st_db (notify u t s) = notifyUser u t (st_db s)" "st_users (notify u t s) = st_users s"
  "st_purchases (recordEntry l s) = st_purchases s" "st_coupons (recordEntry l s) = st_coupons s"
  "st_rewards (recordEntry l s) = st_rewards s" "st_payouts (recordEntry l s) = st_payouts s"
  "accounts_t (st_db (recordEntry l s)) = accounts_t (st_db s)" "next_id (st_db (recordEntry l s)) = next_id (st_db s)"
  "st_purchases (takeId s) = st_purchases s" "st_coupons (takeId s) = st_coupons s"
  "st_rewards (takeId s) = st_rewards s" "st_payouts (takeId s) = st_payouts s"
  "next_id (st_db (takeId s)) = next_id (st_db s) + 1" "accounts_t (st_db (takeId s)) = accounts_t (st_db s)"
  "ledger_t (st_db (takeId s)) = ledger_t (st_db s)"
  by (simp_all add: audit_def notify_def recordEntry_def takeId_def)

lemma createUnlessKnown_set: "set (snd (createUnlessKnown key row rows)) \<subseteq> insert row (set rows)"
  by (auto simp: createUnlessKnown_def)

lemma createUnlessKnown_old: "set rows \<subseteq> set (snd (createUnlessKnown key row rows))"
  by (auto simp: createUnlessKnown_def)

lemma createUnlessKnown_distinct: "distinct (map key rows) \<Longrightarrow> distinct (map key (snd (createUnlessKnown key row rows)))"
  by (auto simp: createUnlessKnown_def)

end
