(* ===== verification/Coupons.thy ===== *)
theory Coupons
  imports Commerce
begin

text \<open>
  Coupons (\<open>src/lib/services/coupons.ts\<close>): code normalisation, the discount, validation, the redemption
  counter kept in the activation transaction, and the admin operations.
\<close>

section \<open>Codes and discounts\<close>

definition couponChar :: "char \<Rightarrow> bool" where
  "couponChar c \<longleftrightarrow> is_digit c \<or> (65 \<le> code c \<and> code c \<le> 90) \<or> c = CHR ''_'' \<or> c = CHR ''-''"

text \<open>\<open>/^[A-Z0-9_-]{3,32}$/\<close>\<close>

definition COUPON_CODE_PATTERN :: "string \<Rightarrow> bool" where
  "COUPON_CODE_PATTERN s \<longleftrightarrow> 3 \<le> length s \<and> length s \<le> 32 \<and> list_all couponChar s"

definition normalizeCouponCode :: "string \<Rightarrow> string option" where
  "normalizeCouponCode raw = (let k = toUpperCase (trim raw) in if COUPON_CODE_PATTERN k then Some k else None)"

definition computeDiscount :: "number \<Rightarrow> Coupon \<Rightarrow> number" where
  "computeDiscount price coupon =
     (if \<not> isFinite price \<or> price \<le> lit 0 then lit 0
      else let raw = (case cpn_percentOff coupon of
                        Some p \<Rightarrow> (price * p) / lit 100
                      | None \<Rightarrow> (case cpn_amountOff coupon of Some a \<Rightarrow> a | None \<Rightarrow> lit 0))
        in if \<not> isFinite raw \<or> raw \<le> lit 0 then lit 0 else roundCurrency (Math_min raw price))"

section \<open>Validation\<close>

datatype CouponRejectReason = COUPON_NOT_FOUND | COUPON_INACTIVE | NOT_STARTED | COUPON_EXPIRED | EXHAUSTED | USER_LIMIT | NOT_APPLICABLE

datatype shop_error = ShopError db_error | CouponError CouponRejectReason

datatype CouponValidation =
    CouponOk (cv_coupon: Coupon) (cv_listPrice: number) (cv_discount: number) (cv_finalAmount: number)
  | CouponRejected CouponRejectReason "number option"

definition PENDING_HOLD_MS :: int where "PENDING_HOLD_MS = 60 * 60 * 1000"

definition couponUses :: "nat \<Rightarrow> nat \<Rightarrow> nat option \<Rightarrow> int \<Rightarrow> Store \<Rightarrow> nat" where
  "couponUses userId couponId excludePurchaseId now s =
     length (filter (\<lambda>p. pur_userId p = userId \<and> pur_couponId p = Some couponId \<and> Some (pur_id p) \<noteq> excludePurchaseId
       \<and> (pur_status p = PUR_PAID \<or> pur_status p = PUR_PENDING \<and> pur_createdAt p \<ge> now - PENDING_HOLD_MS)) (st_purchases s))"

definition couponApplies :: "Coupon \<Rightarrow> Template option \<Rightarrow> bool" where
  "couponApplies coupon template =
     (case template of
        None \<Rightarrow> False
      | Some t \<Rightarrow> tmpl_status t = TPL_ACTIVE \<and> tpl_phase (tmpl_rules t) = PHASE_1 \<and> tpl_price (tmpl_rules t) > lit 0
          \<and> tpl_currency (tmpl_rules t) = cpn_currency coupon
          \<and> (cpn_templateIds coupon = [] \<or> tpl_id (tmpl_rules t) \<in> set (cpn_templateIds coupon)))"

definition validateCoupon :: "string \<Rightarrow> nat \<Rightarrow> nat \<Rightarrow> nat option \<Rightarrow> int \<Rightarrow> Store \<Rightarrow> CouponValidation" where
  "validateCoupon raw templateId userId excludePurchaseId now s =
     (let template = templateRow templateId s; listPrice = map_option (\<lambda>t. tpl_price (tmpl_rules t)) template in
      case Option.bind (normalizeCouponCode raw) (\<lambda>k. couponByCode k s) of
        None \<Rightarrow> CouponRejected COUPON_NOT_FOUND listPrice
      | Some coupon \<Rightarrow>
         if \<not> cpn_active coupon then CouponRejected COUPON_INACTIVE listPrice
         else if (case cpn_validFrom coupon of Some t \<Rightarrow> t > now | None \<Rightarrow> False) then CouponRejected NOT_STARTED listPrice
         else if (case cpn_validUntil coupon of Some t \<Rightarrow> t \<le> now | None \<Rightarrow> False) then CouponRejected COUPON_EXPIRED listPrice
         else if \<not> couponApplies coupon template then CouponRejected NOT_APPLICABLE listPrice
         else if (case cpn_maxRedemptions coupon of Some n \<Rightarrow> cpn_redeemedCount coupon \<ge> n | None \<Rightarrow> False)
              then CouponRejected EXHAUSTED listPrice
         else if int (couponUses userId (cpn_id coupon) excludePurchaseId now s) \<ge> cpn_perUserLimit coupon
              then CouponRejected USER_LIMIT listPrice
         else (case template of
                 None \<Rightarrow> CouponRejected NOT_APPLICABLE listPrice
               | Some t \<Rightarrow>
                  let price = tpl_price (tmpl_rules t); discount = computeDiscount price coupon
                  in CouponOk coupon price discount (roundCurrency (price - discount))))"

section \<open>Redemption\<close>

definition userRedemptions :: "nat \<Rightarrow> nat \<Rightarrow> Store \<Rightarrow> nat" where
  "userRedemptions userId couponId s =
     length (filter (\<lambda>p. pur_userId p = userId \<and> pur_couponId p = Some couponId \<and> pur_status p = PUR_PAID) (st_purchases s))"

definition countRedemption :: "nat \<Rightarrow> (Coupon \<Rightarrow> bool) \<Rightarrow> Store \<Rightarrow> nat \<times> Store" where
  "countRedemption i cond s =
     (let (n, rows) = updateMany (\<lambda>c. cpn_id c = i \<and> cond c) (\<lambda>c. c\<lparr>cpn_redeemedCount := cpn_redeemedCount c + 1\<rparr>) (st_coupons s)
      in (n, s\<lparr>st_coupons := rows\<rparr>))"

definition isFree :: "Purchase \<Rightarrow> bool" where
  "isFree p \<longleftrightarrow> pur_amount p \<le> lit 0"

text \<open>Only a free redemption of a limited coupon is conditional on the limit.\<close>

definition redeem :: "bool \<Rightarrow> Coupon \<Rightarrow> Store \<Rightarrow> nat \<times> Store" where
  "redeem free coupon s =
     countRedemption (cpn_id coupon)
       (\<lambda>c. case cpn_maxRedemptions coupon of Some m \<Rightarrow> free \<longrightarrow> cpn_redeemedCount c < m | None \<Rightarrow> True) s"

definition overTotal :: "Coupon \<Rightarrow> bool" where
  "overTotal c \<longleftrightarrow> (case cpn_maxRedemptions c of Some m \<Rightarrow> cpn_redeemedCount c > m | None \<Rightarrow> False)"

definition recordCouponRedemption :: "Purchase \<Rightarrow> Store \<Rightarrow> shop_error + Store" where
  "recordCouponRedemption purchase s =
     (case Option.bind (pur_couponId purchase) (\<lambda>i. couponRow i s) of
        None \<Rightarrow> Inr s
      | Some coupon \<Rightarrow>
         (let (n, s1) = redeem (isFree purchase) coupon s in
          if isFree purchase \<and> cpn_maxRedemptions coupon \<noteq> None \<and> n = 0 then Inl (CouponError EXHAUSTED)
          else case couponRow (cpn_id coupon) s1 of
            None \<Rightarrow> Inl (ShopError NotFoundError)
          | Some after \<Rightarrow>
             (let overUser = (int (userRedemptions (pur_userId purchase) (cpn_id coupon) s1) > cpn_perUserLimit after)
              in if isFree purchase \<and> overUser then Inl (CouponError USER_LIMIT)
                 else if overTotal after \<or> overUser then Inr (audit None ''COUPON_OVER_REDEEMED'' ''Coupon'' (cpn_id coupon) s1)
                 else Inr s1)))"

section \<open>Admin operations\<close>

record CouponInput =
  cin_code :: string
  cin_description :: string
  cin_percentOff :: "number option"
  cin_amountOff :: "number option"
  cin_maxRedemptions :: "int option"
  cin_perUserLimit :: int
  cin_templateIds :: "nat list"
  cin_validFrom :: "int option"
  cin_validUntil :: "int option"
  cin_active :: bool

definition assertCouponInvariants :: "CouponInput \<Rightarrow> Store \<Rightarrow> shop_error option" where
  "assertCouponInvariants input s =
     (if (cin_percentOff input = None) = (cin_amountOff input = None)
      then Some (ShopError (ConflictError ''Set either a percentage or a fixed ETB discount''))
      else if (case cin_percentOff input of Some p \<Rightarrow> \<not> (p > lit 0 \<and> p \<le> lit 100) | None \<Rightarrow> False)
      then Some (ShopError (ConflictError ''Percentage must be between 0 and 100''))
      else if (case cin_amountOff input of Some a \<Rightarrow> \<not> (a > lit 0) | None \<Rightarrow> False)
      then Some (ShopError (ConflictError ''Fixed discount must be greater than 0''))
      else if (case (cin_validFrom input, cin_validUntil input) of (Some a, Some b) \<Rightarrow> b \<le> a | _ \<Rightarrow> False)
      then Some (ShopError (ConflictError ''The end date must be after the start date''))
      else if cin_templateIds input \<noteq> []
           \<and> length (filter (\<lambda>t. tpl_id (tmpl_rules t) \<in> set (cin_templateIds input) \<and> tpl_phase (tmpl_rules t) = PHASE_1) (templates_t (st_db s)))
             \<noteq> card (set (cin_templateIds input))
      then Some (ShopError (ConflictError ''Coupons can only be restricted to existing Phase 1 challenges''))
      else None)"

text \<open>\<open>[...new Set(xs)]\<close>: duplicates removed, first occurrences kept.\<close>

definition uniqueIds :: "nat list \<Rightarrow> nat list" where
  "uniqueIds xs = rev (remdups (rev xs))"

definition couponOfInput :: "CouponInput \<Rightarrow> Coupon \<Rightarrow> Coupon" where
  "couponOfInput input c = c\<lparr>cpn_code := cin_code input, cpn_description := cin_description input, cpn_percentOff := cin_percentOff input,
     cpn_amountOff := cin_amountOff input, cpn_maxRedemptions := cin_maxRedemptions input, cpn_perUserLimit := cin_perUserLimit input,
     cpn_templateIds := cin_templateIds input, cpn_validFrom := cin_validFrom input, cpn_validUntil := cin_validUntil input,
     cpn_active := cin_active input\<rparr>"

definition createCoupon :: "CouponInput \<Rightarrow> nat \<Rightarrow> Store \<Rightarrow> shop_error + Coupon \<times> Store" where
  "createCoupon input actorId s =
     (case normalizeCouponCode (cin_code input) of
        None \<Rightarrow> Inl (ShopError (ConflictError ''Codes use 3-32 letters, digits, - or _''))
      | Some k \<Rightarrow>
         (let data = input\<lparr>cin_code := k, cin_templateIds := uniqueIds (cin_templateIds input),
                cin_amountOff := map_option roundCurrency (cin_amountOff input)\<rparr>
          in case assertCouponInvariants data s of
               Some err \<Rightarrow> Inl err
             | None \<Rightarrow>
                if couponByCode k s \<noteq> None then Inl (ShopError (ConflictError ''A coupon with this code already exists''))
                else (let row = couponOfInput data \<lparr>cpn_id = newId s, cpn_code = [], cpn_description = [], cpn_percentOff = None,
                            cpn_amountOff = None, cpn_currency = ''ETB'', cpn_maxRedemptions = None, cpn_perUserLimit = 1,
                            cpn_redeemedCount = 0, cpn_templateIds = [], cpn_validFrom = None, cpn_validUntil = None, cpn_active = True\<rparr>
                      in Inr (row, audit (Some actorId) ''COUPON_CREATED'' ''Coupon'' (cpn_id row)
                           ((takeId s)\<lparr>st_coupons := st_coupons s @ [row]\<rparr>)))))"

text \<open>A patch: \<open>None\<close> leaves a field as it is; for a nullable field \<open>Some None\<close> clears it.\<close>

record CouponPatch =
  cpt_code :: "string option"
  cpt_description :: "string option"
  cpt_percentOff :: "number option option"
  cpt_amountOff :: "number option option"
  cpt_maxRedemptions :: "int option option"
  cpt_perUserLimit :: "int option"
  cpt_templateIds :: "nat list option"
  cpt_validFrom :: "int option option"
  cpt_validUntil :: "int option option"
  cpt_active :: "bool option"

definition patched :: "'a option \<Rightarrow> 'a \<Rightarrow> 'a" where
  "patched new old = (case new of Some x \<Rightarrow> x | None \<Rightarrow> old)"

definition mergedInput :: "CouponPatch \<Rightarrow> string \<Rightarrow> Coupon \<Rightarrow> CouponInput" where
  "mergedInput patch k before =
     \<lparr>cin_code = k, cin_description = patched (cpt_description patch) (cpn_description before),
      cin_percentOff = patched (cpt_percentOff patch) (cpn_percentOff before),
      cin_amountOff = patched (map_option (map_option roundCurrency) (cpt_amountOff patch)) (cpn_amountOff before),
      cin_maxRedemptions = patched (cpt_maxRedemptions patch) (cpn_maxRedemptions before),
      cin_perUserLimit = patched (cpt_perUserLimit patch) (cpn_perUserLimit before),
      cin_templateIds = patched (map_option uniqueIds (cpt_templateIds patch)) (cpn_templateIds before),
      cin_validFrom = patched (cpt_validFrom patch) (cpn_validFrom before),
      cin_validUntil = patched (cpt_validUntil patch) (cpn_validUntil before),
      cin_active = patched (cpt_active patch) (cpn_active before)\<rparr>"

definition newCode :: "CouponPatch \<Rightarrow> Coupon \<Rightarrow> Store \<Rightarrow> shop_error + string" where
  "newCode patch before s =
     (case cpt_code patch of
        None \<Rightarrow> Inr (cpn_code before)
      | Some raw \<Rightarrow>
         (case normalizeCouponCode raw of
            None \<Rightarrow> Inl (ShopError (ConflictError ''Codes use 3-32 letters, digits, - or _''))
          | Some next \<Rightarrow>
             if next = cpn_code before then Inr (cpn_code before)
             else if cpn_redeemedCount before > 0 \<or> (\<exists>p\<in>set (st_purchases s). pur_couponId p = Some (cpn_id before))
             then Inl (ShopError (ConflictError ''The code cannot be changed after the coupon has been used''))
             else if couponByCode next s \<noteq> None then Inl (ShopError (ConflictError ''A coupon with this code already exists''))
             else Inr next))"

definition updateCoupon :: "nat \<Rightarrow> CouponPatch \<Rightarrow> nat \<Rightarrow> Store \<Rightarrow> shop_error + Coupon \<times> Store" where
  "updateCoupon i patch actorId s =
     (case couponRow i s of
        None \<Rightarrow> Inl (ShopError NotFoundError)
      | Some before \<Rightarrow>
         (case newCode patch before s of
            Inl err \<Rightarrow> Inl err
          | Inr k \<Rightarrow>
             (let merged = mergedInput patch k before in
              case assertCouponInvariants merged s of
                Some err \<Rightarrow> Inl err
              | None \<Rightarrow>
                 (let updated = couponOfInput merged before
                  in Inr (updated,
                       audit (Some actorId) (if cpn_active before \<and> \<not> cpn_active updated then ''COUPON_DEACTIVATED'' else ''COUPON_UPDATED'')
                         ''Coupon'' i (s\<lparr>st_coupons := snd (updateMany (\<lambda>c. cpn_id c = i) (couponOfInput merged) (st_coupons s))\<rparr>))))))"

end
