(* ===== verification/Referrals.thy ===== *)
theory Referrals
  imports Coupons
begin

text \<open>
  The referral programme (\<open>src/lib/services/referrals.ts\<close>): codes, attaching a new user to a referrer,
  the reward created with a paid purchase, its maker-checker payout and its voiding on a refund.
\<close>

section \<open>Codes\<close>

definition REFERRAL_CODE_ALPHABET :: string where
  "REFERRAL_CODE_ALPHABET = ''23456789ABCDEFGHJKMNPQRSTUVWXYZ''"

definition REFERRAL_CODE_LENGTH :: nat where "REFERRAL_CODE_LENGTH = 8"

text \<open>\<open>/^[2-9A-HJKMNP-Z]{8}$/\<close>\<close>

definition referralChar :: "char \<Rightarrow> bool" where
  "referralChar c \<longleftrightarrow> (50 \<le> code c \<and> code c \<le> 57) \<or> (65 \<le> code c \<and> code c \<le> 72) \<or> c = CHR ''J'' \<or> c = CHR ''K'' \<or> c = CHR ''M''
     \<or> c = CHR ''N'' \<or> (80 \<le> code c \<and> code c \<le> 90)"

definition REFERRAL_CODE_PATTERN :: "string \<Rightarrow> bool" where
  "REFERRAL_CODE_PATTERN s \<longleftrightarrow> length s = 8 \<and> list_all referralChar s"

definition normalizeReferralCode :: "string \<Rightarrow> string option" where
  "normalizeReferralCode raw = (let k = toUpperCase (trim raw) in if REFERRAL_CODE_PATTERN k then Some k else None)"

text \<open>
  \<open>generateReferralCode\<close>: bytes at or above \<open>limit\<close> are skipped (rejection sampling) until eight characters
  are there. The random source is a function from the number of the call to the bytes it returns.
\<close>

definition limit :: nat where
  "limit = 256 - 256 mod length REFERRAL_CODE_ALPHABET"

definition charOf :: "nat \<Rightarrow> char" where
  "charOf byte = REFERRAL_CODE_ALPHABET ! (byte mod length REFERRAL_CODE_ALPHABET)"

fun takeBytes :: "nat list \<Rightarrow> string \<Rightarrow> string" where
  "takeBytes [] out = out"
| "takeBytes (byte # bytes) out =
     (if byte \<ge> limit then takeBytes bytes out
      else let out1 = out @ [charOf byte] in if length out1 = REFERRAL_CODE_LENGTH then out1 else takeBytes bytes out1)"

partial_function (option) generateLoop :: "(nat \<Rightarrow> nat list) \<Rightarrow> nat \<Rightarrow> string \<Rightarrow> string option" where
  "generateLoop random calls out =
     (if length out < REFERRAL_CODE_LENGTH then generateLoop random (calls + 1) (takeBytes (random calls) out) else Some out)"

definition generateReferralCode :: "(nat \<Rightarrow> nat list) \<Rightarrow> string option" where
  "generateReferralCode random = generateLoop random 0 []"

text \<open>
  \<open>getOrCreateReferralCode\<close>: up to five attempts, each with a freshly generated code; an attempt whose code
  another user holds violates the unique column and is retried.
\<close>

fun codeAttempts :: "nat \<Rightarrow> string list \<Rightarrow> Store \<Rightarrow> (shop_error + string) \<times> Store" where
  "codeAttempts userId [] s = (Inl (ShopError (ServiceFault ''Could not allocate a referral code'')), s)"
| "codeAttempts userId (k # ks) s =
     (if (\<exists>u\<in>set (st_users s). usr_id u \<noteq> userId \<and> usr_referralCode u = Some k)
         \<and> (\<exists>u\<in>set (st_users s). usr_id u = userId \<and> usr_referralCode u = None)
      then codeAttempts userId ks s
      else let s1 = s\<lparr>st_users := snd (updateMany (\<lambda>u. usr_id u = userId \<and> usr_referralCode u = None)
                    (\<lambda>u. u\<lparr>usr_referralCode := Some k\<rparr>) (st_users s))\<rparr>
        in case userRow userId s1 of
             None \<Rightarrow> (Inl (ShopError NotFoundError), s1)
           | Some u \<Rightarrow> (case usr_referralCode u of Some c \<Rightarrow> (Inr c, s1) | None \<Rightarrow> codeAttempts userId ks s1))"

definition getOrCreateReferralCode :: "nat \<Rightarrow> string list \<Rightarrow> Store \<Rightarrow> (shop_error + string) \<times> Store" where
  "getOrCreateReferralCode userId codes s =
     (case userRow userId s of
        None \<Rightarrow> (Inl (ShopError NotFoundError), s)
      | Some u \<Rightarrow> (case usr_referralCode u of Some c \<Rightarrow> (Inr c, s) | None \<Rightarrow> codeAttempts userId (take 5 codes) s))"

section \<open>Attaching a referral\<close>

definition attachReferral :: "nat \<Rightarrow> string \<Rightarrow> Store \<Rightarrow> Store" where
  "attachReferral newUserId raw s =
     (case Option.bind (normalizeReferralCode raw) (\<lambda>k. findUnique (\<lambda>u. usr_referralCode u = Some k) (st_users s)) of
        None \<Rightarrow> s
      | Some referrer \<Rightarrow>
         if usr_id referrer = newUserId \<or> usr_status referrer \<noteq> USER_ACTIVE then s
         else (let (n, rows) = updateMany (\<lambda>u. usr_id u = newUserId \<and> usr_referredById u = None)
                     (\<lambda>u. u\<lparr>usr_referredById := Some (usr_id referrer)\<rparr>) (st_users s);
                   s1 = s\<lparr>st_users := rows\<rparr>
               in if n = 1 then audit (Some newUserId) ''REFERRAL_ATTACHED'' ''User'' newUserId s1 else s1))"

section \<open>Commission and rewards\<close>

definition DEFAULT_REFERRAL_COMMISSION_PERCENT :: number where "DEFAULT_REFERRAL_COMMISSION_PERCENT = lit 10"

definition MAX_REFERRAL_COMMISSION_PERCENT :: number where "MAX_REFERRAL_COMMISSION_PERCENT = lit 50"

definition getReferralCommissionPercent :: "Store \<Rightarrow> number" where
  "getReferralCommissionPercent s =
     (case st_commissionSetting s of
        None \<Rightarrow> DEFAULT_REFERRAL_COMMISSION_PERCENT
      | Some v \<Rightarrow> if \<not> isFinite v \<or> v < lit 0 \<or> v > MAX_REFERRAL_COMMISSION_PERCENT then DEFAULT_REFERRAL_COMMISSION_PERCENT else v)"

definition setReferralCommissionPercent :: "number \<Rightarrow> nat \<Rightarrow> Store \<Rightarrow> shop_error + number \<times> Store" where
  "setReferralCommissionPercent percent actorId s =
     (if \<not> isFinite percent \<or> percent < lit 0 \<or> percent > MAX_REFERRAL_COMMISSION_PERCENT
      then Inl (ShopError (ConflictError ''Commission must be between 0 and 50%''))
      else let s1 = audit (Some actorId) ''SETTING_UPDATED'' ''SystemSetting'' 0 (s\<lparr>st_commissionSetting := Some (roundCurrency percent)\<rparr>)
        in Inr (getReferralCommissionPercent s1, s1))"

definition newReward :: "nat \<Rightarrow> nat \<Rightarrow> Purchase \<Rightarrow> number \<Rightarrow> number \<Rightarrow> ReferralReward" where
  "newReward i referrer purchase percent amount =
     \<lparr>rwd_id = i, rwd_referrerId = referrer, rwd_referredUserId = pur_userId purchase, rwd_purchaseId = pur_id purchase,
      rwd_percent = percent, rwd_amount = amount, rwd_currency = pur_currency purchase, rwd_status = RWD_PENDING,
      rwd_approvedById = None, rwd_approvedAt = None, rwd_paidById = None, rwd_paidAt = None, rwd_voidedAt = None\<rparr>"

definition createReferralRewardForPurchase :: "Purchase \<Rightarrow> Store \<Rightarrow> Store" where
  "createReferralRewardForPurchase purchase s =
     (if \<not> (pur_amount purchase > lit 0) then s
      else case Option.bind (userRow (pur_userId purchase) s) usr_referredById of
        None \<Rightarrow> s
      | Some referrer \<Rightarrow>
         if referrer = pur_userId purchase then s
         else (let percent = getReferralCommissionPercent s; amount = roundCurrency ((pur_amount purchase * percent) / lit 100) in
               if \<not> (amount > lit 0) then s
               else let (n, rows) = createUnlessKnown rwd_purchaseId (newReward (newId s) referrer purchase percent amount) (st_rewards s);
                        s1 = (takeId s)\<lparr>st_rewards := rows\<rparr>
                 in if n = 0 then s1
                    else notify referrer ''Referral reward earned'' (audit None ''REFERRAL_REWARD_CREATED'' ''Purchase'' (pur_id purchase) s1)))"

definition claimReward :: "nat \<Rightarrow> ReferralRewardStatus set \<Rightarrow> (ReferralReward \<Rightarrow> ReferralReward) \<Rightarrow> Store \<Rightarrow> nat \<times> Store" where
  "claimReward i from f s =
     (let (n, rows) = updateMany (\<lambda>r. rwd_id r = i \<and> rwd_status r \<in> from) f (st_rewards s) in (n, s\<lparr>st_rewards := rows\<rparr>))"

definition voidReferralRewardForPurchase :: "nat \<Rightarrow> nat \<Rightarrow> int \<Rightarrow> Store \<Rightarrow> Store" where
  "voidReferralRewardForPurchase purchaseId actorId now s =
     (case rewardOfPurchase purchaseId s of
        None \<Rightarrow> s
      | Some reward \<Rightarrow>
         if rwd_status reward = RWD_VOID then s
         else if rwd_status reward = RWD_PAID
         then audit (Some actorId) ''REFERRAL_REWARD_PAID_BUT_PURCHASE_REVERSED'' ''ReferralReward'' (rwd_id reward) s
         else (let (n, s1) = claimReward (rwd_id reward) {RWD_PENDING, RWD_APPROVED}
                     (\<lambda>r. r\<lparr>rwd_status := RWD_VOID, rwd_voidedAt := Some now\<rparr>) s
               in if n = 1 then audit (Some actorId) ''REFERRAL_REWARD_VOIDED'' ''ReferralReward'' (rwd_id reward) s1 else s1))"

section \<open>Maker-checker payout of rewards\<close>

datatype ReferralRewardAction = APPROVE | PAY | VOID

definition rewardFrom :: "ReferralRewardAction \<Rightarrow> ReferralRewardStatus set" where
  "rewardFrom action = (case action of APPROVE \<Rightarrow> {RWD_PENDING} | PAY \<Rightarrow> {RWD_APPROVED} | VOID \<Rightarrow> {RWD_PENDING, RWD_APPROVED})"

definition rewardData :: "ReferralRewardAction \<Rightarrow> nat \<Rightarrow> int \<Rightarrow> ReferralReward \<Rightarrow> ReferralReward" where
  "rewardData action actorId now r =
     (case action of
        APPROVE \<Rightarrow> r\<lparr>rwd_status := RWD_APPROVED, rwd_approvedById := Some actorId, rwd_approvedAt := Some now\<rparr>
      | PAY \<Rightarrow> r\<lparr>rwd_status := RWD_PAID, rwd_paidById := Some actorId, rwd_paidAt := Some now\<rparr>
      | VOID \<Rightarrow> r\<lparr>rwd_status := RWD_VOID, rwd_voidedAt := Some now\<rparr>)"

definition rewardRefused :: "ReferralRewardAction \<Rightarrow> nat \<Rightarrow> string option \<Rightarrow> ReferralReward \<Rightarrow> db_error option" where
  "rewardRefused action actorId note before =
     (if rwd_referrerId before = actorId then Some (Forbidden ''You cannot decide your own referral reward'')
      else case action of
        PAY \<Rightarrow> if rwd_status before \<noteq> RWD_APPROVED then Some (ConflictError ''A reward must be approved before it is marked paid'')
               else if rwd_approvedById before = Some actorId then Some (Forbidden ''The admin who approved a reward cannot mark it paid'')
               else None
      | VOID \<Rightarrow> if (case note of Some n \<Rightarrow> trim n = [] | None \<Rightarrow> True) then Some (ConflictError ''A reason is required to void a reward'')
                else if rwd_status before \<notin> rewardFrom VOID then Some (ConflictError ''This reward is already decided'') else None
      | APPROVE \<Rightarrow> if rwd_status before \<notin> rewardFrom APPROVE then Some (ConflictError ''This reward is already decided'') else None)"

text \<open>The transaction after its first read; \<open>before\<close> is the row it read.\<close>

definition decideRewardFrom :: "ReferralReward \<Rightarrow> ReferralRewardAction \<Rightarrow> nat \<Rightarrow> string option \<Rightarrow> int \<Rightarrow> Store \<Rightarrow> shop_error + ReferralReward \<times> Store" where
  "decideRewardFrom before action actorId note now s =
     (case rewardRefused action actorId note before of
        Some err \<Rightarrow> Inl (ShopError err)
      | None \<Rightarrow>
         (let i = rwd_id before; (n, s1) = claimReward i (rewardFrom action) (rewardData action actorId now) s in
          if n = 0 then Inl (ShopError (ConflictError ''This reward was updated by someone else; refresh and try again''))
          else let s2 = (if action = PAY
                      then recordEntry \<lparr>led_userId = rwd_referrerId before, led_accountId = None, led_purchaseId = None,
                             led_type = LE_ADJUSTMENT, led_amount = - rwd_amount before, led_currency = rwd_currency before,
                             led_fxRate = None, led_refType = ''ReferralReward'', led_refId = i\<rparr> s1
                      else s1);
                   s3 = audit (Some actorId) (case action of APPROVE \<Rightarrow> ''REFERRAL_REWARD_APPROVED'' | PAY \<Rightarrow> ''REFERRAL_REWARD_PAID''
                          | VOID \<Rightarrow> ''REFERRAL_REWARD_VOID'') ''ReferralReward'' i s2;
                   s4 = (case action of VOID \<Rightarrow> s3 | PAY \<Rightarrow> notify (rwd_referrerId before) ''Referral reward paid'' s3
                          | APPROVE \<Rightarrow> notify (rwd_referrerId before) ''Referral reward approved'' s3)
            in case findUnique (\<lambda>r. rwd_id r = i) (st_rewards s4) of None \<Rightarrow> Inl (ShopError NotFoundError) | Some r \<Rightarrow> Inr (r, s4)))"

definition decideReferralReward :: "nat \<Rightarrow> ReferralRewardAction \<Rightarrow> nat \<Rightarrow> string option \<Rightarrow> int \<Rightarrow> Store \<Rightarrow> shop_error + ReferralReward \<times> Store" where
  "decideReferralReward i action actorId note now s =
     (case findUnique (\<lambda>r. rwd_id r = i) (st_rewards s) of
        None \<Rightarrow> Inl (ShopError NotFoundError)
      | Some before \<Rightarrow> decideRewardFrom before action actorId note now s)"

section \<open>The trader's overview\<close>

definition rewardSum :: "nat \<Rightarrow> ReferralRewardStatus \<Rightarrow> Store \<Rightarrow> number" where
  "rewardSum userId status s =
     roundCurrency (js_sum (map rwd_amount (filter (\<lambda>r. rwd_referrerId r = userId \<and> rwd_status r = status) (st_rewards s))))"

definition referralSignups :: "nat \<Rightarrow> Store \<Rightarrow> nat" where
  "referralSignups userId s = length (filter (\<lambda>u. usr_referredById u = Some userId) (st_users s))"

definition payingReferrals :: "nat \<Rightarrow> Store \<Rightarrow> nat" where
  "payingReferrals userId s = length (filter (\<lambda>u. usr_referredById u = Some userId
     \<and> (\<exists>p\<in>set (st_purchases s). pur_userId p = usr_id u \<and> pur_status p = PUR_PAID \<and> pur_amount p > lit 0)) (st_users s))"

end
