(* ===== verification/Purchases.thy ===== *)
theory Purchases
  imports Referrals
begin

text \<open>
  Purchases (\<open>src/lib/services/purchases.ts\<close>): checkout, activation, verification, refund and cancellation.
  The Chapa client is outside: what it answers (a checkout URL or a failure, a verification or a failure)
  and the random transaction reference are arguments. \<open>activatePurchase\<close> is split after its first read, so
  that a commit from a stale read, a lost race, is part of the model.
\<close>

section \<open>The frozen rules\<close>

text \<open>The chain of next phases, at most four long and without repetition.\<close>

fun chainLoop :: "nat \<Rightarrow> nat option \<Rightarrow> nat list \<Rightarrow> Store \<Rightarrow> Template list" where
  "chainLoop 0 nextId seen s = []"
| "chainLoop (Suc n) nextId seen s =
     (case nextId of
        None \<Rightarrow> []
      | Some i \<Rightarrow>
         if i \<in> set seen then []
         else case templateRow i s of
           None \<Rightarrow> []
         | Some t \<Rightarrow> t # chainLoop n (tpl_nextPhaseId (tmpl_rules t)) (i # seen) s)"

definition buildPurchaseSnapshot :: "Template \<Rightarrow> Store \<Rightarrow> TemplateSnapshot" where
  "buildPurchaseSnapshot template s =
     toTemplateSnapshot template
       (foldr (\<lambda>t nested. Some (toTemplateSnapshot t nested))
         (chainLoop 4 (tpl_nextPhaseId (tmpl_rules template)) [tpl_id (tmpl_rules template)] s) None)"

definition CHAPA_CURRENCY :: string where "CHAPA_CURRENCY = ''ETB''"

section \<open>Activation\<close>

datatype ActivationSource = SRC_CHAPA | SRC_ADMIN_TEST nat | SRC_COUPON nat

definition claimPurchase :: "nat \<Rightarrow> PurchaseStatus \<Rightarrow> (Purchase \<Rightarrow> Purchase) \<Rightarrow> Store \<Rightarrow> nat \<times> Store" where
  "claimPurchase i from f s =
     (let (n, rows) = updateMany (\<lambda>p. pur_id p = i \<and> pur_status p = from) f (st_purchases s) in (n, s\<lparr>st_purchases := rows\<rparr>))"

definition purchaseAccount :: "Purchase \<Rightarrow> int \<Rightarrow> Store \<Rightarrow> TradingAccount \<times> Store" where
  "purchaseAccount p now s =
     (case accountOfPurchase (pur_id p) s of
        Some a \<Rightarrow> (a, s)
      | None \<Rightarrow>
         (let row = (newAccountRow (newId s) (pur_userId p) (Some (pur_id p)) (pur_templateId p) None (pur_snapshot p) now)
                \<lparr>acc_status := ACTIVE, acc_fundedAt := None\<rparr>
          in (row, onDb (\<lambda>d. d\<lparr>accounts_t := accounts_t d @ [row]\<rparr>) (takeId s))))"

definition purchaseEntry :: "Purchase \<Rightarrow> LedgerEntry" where
  "purchaseEntry p = \<lparr>led_userId = pur_userId p, led_accountId = None, led_purchaseId = Some (pur_id p), led_type = LE_PURCHASE,
     led_amount = pur_amount p, led_currency = pur_currency p, led_fxRate = None, led_refType = ''Purchase'', led_refId = pur_id p\<rparr>"

definition activationAudit :: "ActivationSource \<Rightarrow> nat option \<times> string" where
  "activationAudit src = (case src of SRC_ADMIN_TEST admin \<Rightarrow> (Some admin, ''PURCHASE_MARKED_PAID_BY_ADMIN_TEST'')
     | SRC_COUPON user \<Rightarrow> (Some user, ''PURCHASE_ACTIVATED_BY_FREE_COUPON'') | SRC_CHAPA \<Rightarrow> (None, ''CHAPA_PAYMENT_VERIFIED''))"

text \<open>The claimed activation: redemption, reward, account, ledger, audit, notice.\<close>

definition activated :: "Purchase \<Rightarrow> TradingAccount option \<Rightarrow> ActivationSource \<Rightarrow> int \<Rightarrow> Store \<Rightarrow>
    shop_error + (Purchase \<times> TradingAccount option) \<times> Store" where
  "activated purchase account src now s1 =
     (case recordCouponRedemption purchase s1 of
        Inl err \<Rightarrow> Inl err
      | Inr s2 \<Rightarrow>
         (let s3 = (case src of SRC_ADMIN_TEST _ \<Rightarrow> s2 | _ \<Rightarrow> createReferralRewardForPurchase purchase s2);
              (a, s4) = (case account of Some a \<Rightarrow> (a, s3) | None \<Rightarrow> purchaseAccount purchase now s3);
              s5 = recordEntry (purchaseEntry purchase) s4;
              s6 = audit (fst (activationAudit src)) (snd (activationAudit src)) ''Purchase'' (pur_id purchase) s5;
              s7 = notify (pur_userId purchase) ''Challenge activated'' s6
          in case purchaseRow (pur_id purchase) s7 of
               None \<Rightarrow> Inl (ShopError NotFoundError)
             | Some updated \<Rightarrow> Inr ((updated, Some a), s7)))"

definition activateFrom :: "Purchase \<Rightarrow> TradingAccount option \<Rightarrow> ActivationSource \<Rightarrow> int \<Rightarrow> Store \<Rightarrow>
    shop_error + (Purchase \<times> TradingAccount option) \<times> Store" where
  "activateFrom purchase account src now s =
     (if pur_status purchase = PUR_PAID then Inr ((purchase, account), s)
      else if pur_status purchase = PUR_REFUNDED \<or> pur_status purchase = PUR_CANCELLED
      then Inl (ShopError (ConflictError ''Cannot activate a purchase with this status''))
      else let (n, s1) = claimPurchase (pur_id purchase) (pur_status purchase)
             (\<lambda>p. p\<lparr>pur_status := PUR_PAID, pur_paymentDate := Some now\<rparr>) s
        in if n = 0
           then (case purchaseRow (pur_id purchase) s of
                   None \<Rightarrow> Inl (ShopError NotFoundError)
                 | Some current \<Rightarrow> Inr ((current, accountOfPurchase (pur_id purchase) s), s))
           else activated purchase account src now s1)"

definition activatePurchase :: "nat \<Rightarrow> ActivationSource \<Rightarrow> int \<Rightarrow> Store \<Rightarrow> shop_error + (Purchase \<times> TradingAccount option) \<times> Store" where
  "activatePurchase i src now s =
     (case purchaseRow i s of
        None \<Rightarrow> Inl (ShopError NotFoundError)
      | Some purchase \<Rightarrow> activateFrom purchase (accountOfPurchase i s) src now s)"

definition markPurchaseFailed :: "nat \<Rightarrow> string \<Rightarrow> Store \<Rightarrow> Store" where
  "markPurchaseFailed i action s =
     (case purchaseRow i s of
        None \<Rightarrow> s
      | Some before \<Rightarrow>
         if pur_status before \<noteq> PUR_PENDING then s
         else (let (n, s1) = claimPurchase i PUR_PENDING (\<lambda>p. p\<lparr>pur_status := PUR_FAILED\<rparr>) s
               in if n = 1 then audit None action ''Purchase'' i s1 else s1))"

section \<open>Checkout\<close>

datatype PurchaseOutcome = REDIRECT nat string | ALREADY_PAID nat | ACTIVATED nat

text \<open>The functions of this section are not transactions: what they wrote before an error stays written.\<close>

definition activateFreePurchase :: "nat \<Rightarrow> nat \<Rightarrow> int \<Rightarrow> Store \<Rightarrow> (shop_error + PurchaseOutcome) \<times> Store" where
  "activateFreePurchase i userId now s =
     (case activatePurchase i (SRC_COUPON userId) now s of
        Inr (_, s1) \<Rightarrow> (Inr (ACTIVATED i), s1)
      | Inl err \<Rightarrow> (Inl err, case err of CouponError _ \<Rightarrow> markPurchaseFailed i ''COUPON_REDEMPTION_REFUSED'' s | ShopError _ \<Rightarrow> s))"

definition existingCoupon :: "Purchase \<Rightarrow> nat \<Rightarrow> int \<Rightarrow> Store \<Rightarrow> CouponRejectReason option" where
  "existingCoupon p userId now s =
     (case (pur_couponId p, pur_templateId p) of
        (Some c, Some t) \<Rightarrow>
          (case couponRow c s of
             None \<Rightarrow> Some COUPON_NOT_FOUND
           | Some coupon \<Rightarrow>
              (case validateCoupon (cpn_code coupon) t userId (Some (pur_id p)) now s of
                 CouponRejected reason _ \<Rightarrow> Some reason | CouponOk _ _ _ _ \<Rightarrow> None))
      | _ \<Rightarrow> None)"

text \<open>A retry with a known idempotency key; \<open>checkout\<close> is Chapa's answer to the initialisation.\<close>

definition resumePurchase :: "Purchase \<Rightarrow> nat \<Rightarrow> string option \<Rightarrow> int \<Rightarrow> Store \<Rightarrow> (shop_error + PurchaseOutcome) \<times> Store" where
  "resumePurchase existing userId checkout now s =
     (if pur_userId existing \<noteq> userId then (Inl (ShopError (ConflictError ''This request has already been processed'')), s)
      else if pur_status existing = PUR_PAID then (Inr (ALREADY_PAID (pur_id existing)), s)
      else if pur_status existing = PUR_REFUNDED \<or> pur_status existing = PUR_CANCELLED
      then (Inl (ShopError (ConflictError ''This purchase attempt is no longer available'')), s)
      else if pur_amount existing \<le> lit 0
      then (if pur_status existing \<noteq> PUR_PENDING
            then (Inl (ShopError (ConflictError ''This purchase attempt is no longer available'')), s)
            else activateFreePurchase (pur_id existing) userId now s)
      else case existingCoupon existing userId now s of
        Some reason \<Rightarrow> (Inl (CouponError reason), markPurchaseFailed (pur_id existing) ''COUPON_NO_LONGER_VALID'' s)
      | None \<Rightarrow>
         (let s1 = (if pur_status existing = PUR_FAILED
                    then snd (claimPurchase (pur_id existing) PUR_FAILED (\<lambda>p. p\<lparr>pur_status := PUR_PENDING\<rparr>) s) else s)
          in case checkout of
               None \<Rightarrow> (Inl (ShopError (ServiceFault ''Chapa initialize failed'')), s1)
             | Some url \<Rightarrow> (Inr (REDIRECT (pur_id existing) url), s1)))"

definition templateRefused :: "Template \<Rightarrow> db_error option" where
  "templateRefused t =
     (if tmpl_status t \<noteq> TPL_ACTIVE then Some (ServiceFault ''This challenge is no longer available for purchase'')
      else if tpl_phase (tmpl_rules t) \<noteq> PHASE_1 then Some (ServiceFault ''Only Phase 1 challenges can be purchased directly'')
      else if tpl_currency (tmpl_rules t) \<noteq> CHAPA_CURRENCY then Some (ServiceFault ''This challenge is not priced in ETB'')
      else if \<not> (tpl_price (tmpl_rules t) > lit 0) then Some (ServiceFault ''This challenge has no price configured'')
      else None)"

record Pricing =
  prc_amount :: number
  prc_listPrice :: number
  prc_discountAmount :: number
  prc_couponId :: "nat option"

definition priceOf :: "Template \<Rightarrow> nat \<Rightarrow> string option \<Rightarrow> int \<Rightarrow> Store \<Rightarrow> shop_error + Pricing" where
  "priceOf t userId couponCode now s =
     (let price = tpl_price (tmpl_rules t);
          full = Inr \<lparr>prc_amount = price, prc_listPrice = price, prc_discountAmount = lit 0, prc_couponId = None\<rparr>
      in case couponCode of
           None \<Rightarrow> full
         | Some raw \<Rightarrow>
            if raw = [] then full
            else case validateCoupon raw (tpl_id (tmpl_rules t)) userId None now s of
              CouponRejected reason _ \<Rightarrow> Inl (CouponError reason)
            | CouponOk coupon listPrice discount final \<Rightarrow>
                Inr \<lparr>prc_amount = final, prc_listPrice = listPrice, prc_discountAmount = discount, prc_couponId = Some (cpn_id coupon)\<rparr>)"

definition newPurchaseRow :: "nat \<Rightarrow> nat \<Rightarrow> Template \<Rightarrow> Pricing \<Rightarrow> TemplateSnapshot \<Rightarrow> string \<Rightarrow> string option \<Rightarrow> int \<Rightarrow> Purchase" where
  "newPurchaseRow i userId t pricing snapshot txRef key now =
     \<lparr>pur_id = i, pur_userId = userId, pur_templateId = Some (tpl_id (tmpl_rules t)), pur_status = PUR_PENDING,
      pur_amount = prc_amount pricing, pur_currency = CHAPA_CURRENCY, pur_providerTxRef = txRef, pur_idempotencyKey = key,
      pur_paymentDate = None, pur_refundedAt = None, pur_cancelledAt = None, pur_snapshot = snapshot,
      pur_couponId = prc_couponId pricing, pur_listPrice = Some (prc_listPrice pricing),
      pur_discountAmount = prc_discountAmount pricing, pur_createdAt = now\<rparr>"

text \<open>\<open>prisma.purchase.create\<close> under the unique transaction reference and idempotency key.\<close>

definition createPurchase :: "Purchase \<Rightarrow> Store \<Rightarrow> shop_error + Store" where
  "createPurchase row s =
     (if \<exists>p\<in>set (st_purchases s). pur_idempotencyKey row \<noteq> None \<and> pur_idempotencyKey p = pur_idempotencyKey row
      then Inl (ShopError (UniqueViolation ''idempotencyKey''))
      else if \<exists>p\<in>set (st_purchases s). pur_providerTxRef p = pur_providerTxRef row
      then Inl (ShopError (UniqueViolation ''providerTxRef''))
      else Inr ((takeId s)\<lparr>st_purchases := st_purchases s @ [row]\<rparr>))"

definition startPurchase :: "nat \<Rightarrow> nat \<Rightarrow> string option \<Rightarrow> string option \<Rightarrow> string \<Rightarrow> string option \<Rightarrow> int \<Rightarrow> Store \<Rightarrow>
    (shop_error + PurchaseOutcome) \<times> Store" where
  "startPurchase userId templateId key couponCode txRef checkout now s =
     (case templateRow templateId s of
        None \<Rightarrow> (Inl (ShopError (ServiceFault ''Template not found'')), s)
      | Some t \<Rightarrow>
         (case templateRefused t of
            Some err \<Rightarrow> (Inl (ShopError err), s)
          | None \<Rightarrow>
             (case priceOf t userId couponCode now s of
                Inl err \<Rightarrow> (Inl err, s)
              | Inr pricing \<Rightarrow>
                 (let row = newPurchaseRow (newId s) userId t pricing (buildPurchaseSnapshot t s) txRef key now in
                  case createPurchase row s of
                    Inl err \<Rightarrow> (Inl err, s)
                  | Inr s1 \<Rightarrow>
                     if prc_amount pricing \<le> lit 0 then activateFreePurchase (pur_id row) userId now s1
                     else case checkout of
                       None \<Rightarrow> (Inl (ShopError (ServiceFault ''Unable to start payment. Please try again.'')),
                                snd (claimPurchase (pur_id row) PUR_PENDING (\<lambda>p. p\<lparr>pur_status := PUR_FAILED\<rparr>) s1))
                     | Some url \<Rightarrow> (Inr (REDIRECT (pur_id row) url),
                                    audit (Some userId) ''CHAPA_PAYMENT_INITIATED'' ''Purchase'' (pur_id row) s1)))))"

text \<open>
  The lookup of the idempotency key, and the call that goes on from what it found: when another request with
  the same key was faster, the insertion violates the unique key and the whole call is retried, twice at most.
\<close>

definition lookupKey :: "string option \<Rightarrow> Store \<Rightarrow> Purchase option" where
  "lookupKey key s =
     (case key of None \<Rightarrow> None
      | Some k \<Rightarrow> if k = [] then None else findUnique (\<lambda>p. pur_idempotencyKey p = Some k) (st_purchases s))"

fun initiateFrom :: "nat \<Rightarrow> Purchase option \<Rightarrow> nat \<Rightarrow> nat \<Rightarrow> string option \<Rightarrow> string option \<Rightarrow> string \<Rightarrow> string option \<Rightarrow> int \<Rightarrow> Store \<Rightarrow>
    (shop_error + PurchaseOutcome) \<times> Store" where
  "initiateFrom attempts (Some existing) userId templateId key couponCode txRef checkout now s =
     resumePurchase existing userId checkout now s"
| "initiateFrom 0 None userId templateId key couponCode txRef checkout now s =
     startPurchase userId templateId key couponCode txRef checkout now s"
| "initiateFrom (Suc n) None userId templateId key couponCode txRef checkout now s =
     (case startPurchase userId templateId key couponCode txRef checkout now s of
        (Inl (ShopError (UniqueViolation f)), s1) \<Rightarrow>
          if f = ''idempotencyKey'' \<and> key \<noteq> None \<and> key \<noteq> Some []
          then initiateFrom n (lookupKey key s1) userId templateId key couponCode txRef checkout now s1
          else (Inl (ShopError (UniqueViolation f)), s1)
      | r \<Rightarrow> r)"

definition initiateChapaPurchase :: "nat \<Rightarrow> nat \<Rightarrow> string option \<Rightarrow> string option \<Rightarrow> string \<Rightarrow> string option \<Rightarrow> int \<Rightarrow> Store \<Rightarrow>
    (shop_error + PurchaseOutcome) \<times> Store" where
  "initiateChapaPurchase userId templateId key couponCode txRef checkout now s =
     initiateFrom 2 (lookupKey key s) userId templateId key couponCode txRef checkout now s"

section \<open>Verification\<close>

datatype ChapaPaymentStatus = CHAPA_SUCCESS | CHAPA_FAILED | CHAPA_PENDING | CHAPA_UNKNOWN

record ChapaVerification =
  cvf_paymentStatus :: ChapaPaymentStatus
  cvf_amount :: number
  cvf_currency :: string
  cvf_txRef :: string

datatype VerifyOutcome = V_PAID nat | V_ALREADY_PAID nat | V_PENDING nat | V_FAILED nat | V_TERMINAL nat | V_NOT_FOUND

definition verificationMatches :: "ChapaVerification \<Rightarrow> Purchase \<Rightarrow> bool" where
  "verificationMatches v p \<longleftrightarrow> js_eq (roundCurrency (cvf_amount v)) (roundCurrency (pur_amount p))
     \<and> cvf_currency v = pur_currency p \<and> cvf_txRef v = pur_providerTxRef p"

text \<open>\<open>answer\<close> is the answer of Chapa, \<open>None\<close> when the request failed.\<close>

definition verifyAndCompleteChapaPurchase :: "string \<Rightarrow> ChapaVerification option \<Rightarrow> int \<Rightarrow> Store \<Rightarrow> (shop_error + VerifyOutcome) \<times> Store" where
  "verifyAndCompleteChapaPurchase txRef answer now s =
     (case findUnique (\<lambda>p. pur_providerTxRef p = txRef) (st_purchases s) of
        None \<Rightarrow> (Inr V_NOT_FOUND, s)
      | Some purchase \<Rightarrow>
         (let i = pur_id purchase in
          if pur_status purchase = PUR_PAID then (Inr (V_ALREADY_PAID i), s)
          else if pur_status purchase = PUR_REFUNDED \<or> pur_status purchase = PUR_CANCELLED then (Inr (V_TERMINAL i), s)
          else case answer of
            None \<Rightarrow> (Inr (V_PENDING i), s)
          | Some v \<Rightarrow>
             if cvf_paymentStatus v = CHAPA_PENDING \<or> cvf_paymentStatus v = CHAPA_UNKNOWN then (Inr (V_PENDING i), s)
             else if cvf_paymentStatus v \<noteq> CHAPA_SUCCESS \<or> \<not> verificationMatches v purchase
             then (Inr (V_FAILED i), markPurchaseFailed i ''CHAPA_PAYMENT_FAILED'' s)
             else (case activatePurchase i SRC_CHAPA now s of
                     Inl err \<Rightarrow> (Inl err, s)
                   | Inr (_, s1) \<Rightarrow> (Inr (V_PAID i), s1))))"

section \<open>Refund and cancellation\<close>

text \<open>The account of the purchase and up to four accounts that progressed from it.\<close>

fun accountChain :: "nat \<Rightarrow> nat \<Rightarrow> Store \<Rightarrow> TradingAccount list" where
  "accountChain 0 current s = []"
| "accountChain (Suc n) current s =
     (case findUnique (\<lambda>a. acc_previousAccountId a = Some current) (accounts_t (st_db s)) of
        None \<Rightarrow> [] | Some next \<Rightarrow> next # accountChain n (acc_id next) s)"

definition suspendAccount :: "nat \<Rightarrow> string \<Rightarrow> int \<Rightarrow> TradingAccount \<Rightarrow> Store \<Rightarrow> Store" where
  "suspendAccount actorId reason now a s =
     (if acc_status a \<noteq> ACTIVE \<and> acc_status a \<noteq> FUNDED then s
      else audit (Some actorId) ''ACCOUNT_STATUS_MANUAL_CHANGE'' ''TradingAccount'' (acc_id a)
        (onDb (\<lambda>d. updateAccount (acc_id a) (\<lambda>r. r\<lparr>acc_status := SUSPENDED, acc_statusChangedAt := now,
             acc_failureReason := Some (ADMIN_REASON reason), acc_marginUsed := lit 0\<rparr>)
           (d\<lparr>positions_t := snd (updateMany (\<lambda>p. pos_accountId p = acc_id a \<and> pos_status p = POS_OPEN)
              (\<lambda>p. p\<lparr>pos_status := POS_CLOSED, pos_closedAt := Some now, pos_closeReason := Some CR_ADMIN, pos_floatingPnl := lit 0,
                pos_marginUsed := lit 0\<rparr>) (positions_t d))\<rparr>)) s))"

definition suspendPurchaseAccounts :: "nat \<Rightarrow> nat \<Rightarrow> string \<Rightarrow> int \<Rightarrow> Store \<Rightarrow> nat list \<times> Store" where
  "suspendPurchaseAccounts purchaseId actorId reason now s =
     (case accountOfPurchase purchaseId s of
        None \<Rightarrow> ([], s)
      | Some first \<Rightarrow>
         (let chain = first # accountChain 4 (acc_id first) s
          in (map acc_id chain, foldl (\<lambda>s1 a. suspendAccount actorId reason now a s1) s chain)))"

definition refundEntry :: "Purchase \<Rightarrow> LedgerEntry" where
  "refundEntry p = (purchaseEntry p)\<lparr>led_type := LE_REFUND, led_amount := - pur_amount p\<rparr>"

definition refundPurchase :: "nat \<Rightarrow> nat \<Rightarrow> int \<Rightarrow> Store \<Rightarrow> shop_error + Purchase \<times> Store" where
  "refundPurchase i actorId now s =
     (case purchaseRow i s of
        None \<Rightarrow> Inl (ShopError NotFoundError)
      | Some before \<Rightarrow>
         if pur_status before \<noteq> PUR_PAID then Inl (ShopError (ConflictError ''Cannot refund a purchase with this status''))
         else (let refunded = (\<lambda>p. p\<lparr>pur_status := PUR_REFUNDED, pur_refundedAt := Some now\<rparr>);
                   s1 = s\<lparr>st_purchases := snd (updateMany (\<lambda>p. pur_id p = i) refunded (st_purchases s))\<rparr>;
                   s2 = recordEntry (refundEntry before) s1;
                   (_, s3) = suspendPurchaseAccounts i actorId ''PURCHASE_REFUNDED'' now s2;
                   s4 = voidReferralRewardForPurchase i actorId now s3
               in Inr (refunded before, audit (Some actorId) ''PURCHASE_REFUNDED'' ''Purchase'' i s4)))"

definition cancelPurchase :: "nat \<Rightarrow> nat \<Rightarrow> int \<Rightarrow> Store \<Rightarrow> shop_error + Purchase \<times> Store" where
  "cancelPurchase i actorId now s =
     (case purchaseRow i s of
        None \<Rightarrow> Inl (ShopError NotFoundError)
      | Some before \<Rightarrow>
         if pur_status before \<noteq> PUR_PAID \<and> pur_status before \<noteq> PUR_PENDING
         then Inl (ShopError (ConflictError ''Cannot cancel a purchase with this status''))
         else (let cancelled = (\<lambda>p. p\<lparr>pur_status := PUR_CANCELLED, pur_cancelledAt := Some now\<rparr>);
                   s1 = s\<lparr>st_purchases := snd (updateMany (\<lambda>p. pur_id p = i) cancelled (st_purchases s))\<rparr>;
                   (_, s2) = suspendPurchaseAccounts i actorId ''PURCHASE_CANCELLED'' now s1;
                   s3 = voidReferralRewardForPurchase i actorId now s2
               in Inr (cancelled before, audit (Some actorId) ''PURCHASE_CANCELLED'' ''Purchase'' i s3)))"

definition findPurchaseByTxRefForUser :: "string \<Rightarrow> nat \<Rightarrow> Store \<Rightarrow> Purchase option" where
  "findPurchaseByTxRefForUser txRef userId s =
     (case findUnique (\<lambda>p. pur_providerTxRef p = txRef) (st_purchases s) of
        None \<Rightarrow> None | Some p \<Rightarrow> if pur_userId p = userId then Some p else None)"

end
