(* ===== verification/Payouts.thy ===== *)
theory Payouts
  imports Referrals
begin

text \<open>
  Payouts (\<open>src/lib/services/payouts.ts\<close>): what can still be paid out, the request, and the maker-checker
  state machine whose last step consumes the profit. \<open>decidePayout\<close> is split after its first read.
\<close>

definition MIN_PAYOUT_ETB :: number where "MIN_PAYOUT_ETB = lit 500"

definition MIN_FUNDED_DAYS_BEFORE_PAYOUT :: int where "MIN_FUNDED_DAYS_BEFORE_PAYOUT = 14"

section \<open>Availability\<close>

record Availability =
  av_account :: TradingAccount
  av_profit :: number
  av_traderShare :: number
  av_alreadyCommitted :: number
  av_available :: number
  av_kycApproved :: bool
  av_fundedDays :: int
  av_consistency :: ConsistencyResult
  av_eligible :: bool

definition splitOf :: "TradingAccount \<Rightarrow> number" where
  "splitOf a = tpl_profitSplit (rules (acc_snapshot a)) / lit 100"

definition committedPayouts :: "nat \<Rightarrow> Store \<Rightarrow> number list" where
  "committedPayouts accountId s =
     map pay_amount (filter (\<lambda>p. pay_accountId p = accountId \<and> pay_status p \<in> {PAY_PENDING, PAY_APPROVED}) (st_payouts s))"

definition computePayoutAvailability :: "nat \<Rightarrow> int \<Rightarrow> Store \<Rightarrow> Availability option" where
  "computePayoutAvailability accountId now s =
     (case accountRow accountId (st_db s) of
        None \<Rightarrow> None
      | Some account \<Rightarrow>
         (let profit = roundCurrency (acc_balance account - acc_startingBalance account);
              traderShare = roundCurrency (Math_max (lit 0) profit * splitOf account);
              alreadyCommitted = roundCurrency (js_sum (committedPayouts accountId s));
              available = roundCurrency (Math_max (lit 0) (traderShare - alreadyCommitted));
              kyc = (acc_userId account, KYC_APPROVED) \<in> set (st_kyc s);
              fundedDays = (case acc_fundedAt account of Some t \<Rightarrow> (now - t) div 86400000 | None \<Rightarrow> 0);
              consistency = computeConsistency account (st_db s)
          in Some \<lparr>av_account = account, av_profit = profit, av_traderShare = traderShare, av_alreadyCommitted = alreadyCommitted,
               av_available = available, av_kycApproved = kyc, av_fundedDays = fundedDays, av_consistency = consistency,
               av_eligible = (acc_status account = FUNDED \<and> kyc \<and> fundedDays \<ge> MIN_FUNDED_DAYS_BEFORE_PAYOUT
                 \<and> available \<ge> MIN_PAYOUT_ETB \<and> c_ok consistency)\<rparr>))"

section \<open>Requests\<close>

record PayoutInput =
  pin_accountId :: nat
  pin_amount :: number
  pin_requestedByUserId :: nat
  pin_byAdmin :: bool

definition payoutRefused :: "PayoutInput \<Rightarrow> number \<Rightarrow> Availability \<Rightarrow> db_error option" where
  "payoutRefused input amount av =
     (if \<not> pin_byAdmin input \<and> acc_userId (av_account av) \<noteq> pin_requestedByUserId input then Some NotFoundError
      else if acc_status (av_account av) \<noteq> FUNDED then Some (ConflictError ''Payouts are only available on funded accounts'')
      else if \<not> av_kycApproved av then Some (ConflictError ''Identity verification (KYC) must be approved before a payout'')
      else if av_fundedDays av < MIN_FUNDED_DAYS_BEFORE_PAYOUT then Some (ConflictError ''First payout is available 14 days after funding'')
      else if \<not> c_ok (av_consistency av) then Some (ConflictError ''Consistency rule not met'')
      else if amount > av_available av then Some (ConflictError ''Amount exceeds available profit share'')
      else None)"

definition newPayoutRow :: "nat \<Rightarrow> TradingAccount \<Rightarrow> number \<Rightarrow> nat \<Rightarrow> int \<Rightarrow> Payout" where
  "newPayoutRow i account amount requestedBy now =
     \<lparr>pay_id = i, pay_accountId = acc_id account, pay_userId = acc_userId account, pay_amount = amount, pay_currency = ''ETB'',
      pay_status = PAY_PENDING, pay_createdById = Some requestedBy, pay_approvedById = None, pay_approvedAt = None,
      pay_paidById = None, pay_paidAt = None, pay_rejectedById = None, pay_rejectedAt = None, pay_rejectReason = None,
      pay_providerRef = None, pay_requestedAt = now\<rparr>"

text \<open>The transaction of \<open>createPayout\<close>, and the request with the evaluation before it.\<close>

definition createPayoutTx :: "PayoutInput \<Rightarrow> number \<Rightarrow> int \<Rightarrow> Store \<Rightarrow> shop_error + Payout \<times> Store" where
  "createPayoutTx input amount now s =
     (case computePayoutAvailability (pin_accountId input) now s of
        None \<Rightarrow> Inl (ShopError NotFoundError)
      | Some av \<Rightarrow>
         (case payoutRefused input amount av of
            Some err \<Rightarrow> Inl (ShopError err)
          | None \<Rightarrow>
             (let row = newPayoutRow (newId s) (av_account av) amount (pin_requestedByUserId input) now
              in Inr (row, notify (acc_userId (av_account av)) ''Payout requested''
                   (audit (Some (pin_requestedByUserId input)) ''PAYOUT_REQUESTED'' ''Payout'' (pay_id row)
                     ((takeId s)\<lparr>st_payouts := st_payouts s @ [row]\<rparr>))))))"

definition createPayout :: "PayoutInput \<Rightarrow> int \<Rightarrow> Store \<Rightarrow> (shop_error + Payout) \<times> Store" where
  "createPayout input now s =
     (let amount = roundCurrency (pin_amount input) in
      if amount < MIN_PAYOUT_ETB then (Inl (ShopError (ConflictError ''Minimum payout is ETB 500'')), s)
      else case evaluateAccount (pin_accountId input) None now (st_db s) of
        (Inl err, d) \<Rightarrow> (Inl (ShopError err), s\<lparr>st_db := d\<rparr>)
      | (Inr _, d) \<Rightarrow>
         (case createPayoutTx input amount now (s\<lparr>st_db := d\<rparr>) of
            Inl err \<Rightarrow> (Inl err, s\<lparr>st_db := d\<rparr>)
          | Inr (row, s1) \<Rightarrow> (Inr row, s1)))"

section \<open>Decisions\<close>

datatype PayoutDecision = DECIDE_APPROVED | DECIDE_PAID | DECIDE_REJECTED

definition payoutFrom :: "PayoutDecision \<Rightarrow> PayoutStatus set" where
  "payoutFrom status = (case status of DECIDE_APPROVED \<Rightarrow> {PAY_PENDING} | DECIDE_PAID \<Rightarrow> {PAY_APPROVED}
     | DECIDE_REJECTED \<Rightarrow> {PAY_PENDING, PAY_APPROVED})"

definition payoutData :: "PayoutDecision \<Rightarrow> nat \<Rightarrow> string option \<Rightarrow> string option \<Rightarrow> int \<Rightarrow> Payout \<Rightarrow> Payout" where
  "payoutData status actorId reason providerRef now p =
     (case status of
        DECIDE_APPROVED \<Rightarrow> p\<lparr>pay_status := PAY_APPROVED, pay_approvedById := Some actorId, pay_approvedAt := Some now\<rparr>
      | DECIDE_PAID \<Rightarrow> p\<lparr>pay_status := PAY_PAID, pay_paidById := Some actorId, pay_paidAt := Some now, pay_providerRef := providerRef\<rparr>
      | DECIDE_REJECTED \<Rightarrow> p\<lparr>pay_status := PAY_REJECTED, pay_rejectedById := Some actorId, pay_rejectedAt := Some now,
          pay_rejectReason := reason\<rparr>)"

definition decisionRefused :: "PayoutDecision \<Rightarrow> nat \<Rightarrow> Payout \<Rightarrow> db_error option" where
  "decisionRefused status actorId before =
     (case status of
        DECIDE_APPROVED \<Rightarrow>
          if pay_createdById before = Some actorId then Some (Forbidden ''The admin who created a payout cannot approve it'')
          else if pay_status before \<notin> payoutFrom status then Some (ConflictError ''This payout is already decided'') else None
      | DECIDE_PAID \<Rightarrow>
          if pay_status before \<noteq> PAY_APPROVED then Some (ConflictError ''A payout must be approved before it is marked paid'')
          else if pay_approvedById before = Some actorId then Some (Forbidden ''The admin who approved a payout cannot mark it paid'')
          else if pay_createdById before = Some actorId then Some (Forbidden ''The admin who created a payout cannot mark it paid'')
          else None
      | DECIDE_REJECTED \<Rightarrow>
          if pay_status before \<notin> payoutFrom status then Some (ConflictError ''This payout is already decided'') else None)"

definition consumedOf :: "number \<Rightarrow> number \<Rightarrow> number" where
  "consumedOf amount split = roundCurrency (if split > lit 0 then amount / split else amount)"

definition payoutAccountRow :: "number \<Rightarrow> TradingAccount \<Rightarrow> TradingAccount" where
  "payoutAccountRow consumed a = a\<lparr>acc_balance := roundCurrency (acc_balance a - consumed), acc_equity := acc_equity a - consumed,
     acc_realizedPnl := acc_realizedPnl a - consumed, acc_highWaterMark := acc_highWaterMark a - consumed,
     acc_dailyAnchorBalance := acc_dailyAnchorBalance a - consumed\<rparr>"

definition payoutEntries :: "Payout \<Rightarrow> number \<Rightarrow> LedgerEntry list" where
  "payoutEntries before firmShare =
     (let entry = (\<lambda>type amount refType. \<lparr>led_userId = pay_userId before, led_accountId = Some (pay_accountId before), led_purchaseId = None,
        led_type = type, led_amount = amount, led_currency = pay_currency before, led_fxRate = None, led_refType = refType,
        led_refId = pay_id before\<rparr>)
      in entry LE_PAYOUT (- pay_amount before) ''Payout''
           # (if firmShare > lit 0 then [entry LE_ADJUSTMENT (- firmShare) ''PayoutFirmShare''] else []))"

text \<open>The effects of \<open>PAID\<close>: account columns, ledger, certificate.\<close>

definition payOut :: "Payout \<Rightarrow> Store \<Rightarrow> shop_error + Store" where
  "payOut before s =
     (case accountRow (pay_accountId before) (st_db s) of
        None \<Rightarrow> Inl (ShopError NotFoundError)
      | Some account \<Rightarrow>
         (let consumed = consumedOf (pay_amount before) (splitOf account);
              firmShare = roundCurrency (consumed - pay_amount before);
              s1 = onDb (updateAccount (pay_accountId before) (payoutAccountRow consumed)) s;
              s2 = foldl (\<lambda>x l. recordEntry l x) s1 (payoutEntries before firmShare)
          in case issueCertificate CERT_PAYOUT (pay_userId before) (Some (pay_accountId before)) (Some (pay_id before))
                  (Some (pay_amount before)) (st_db s2) of
               Inl err \<Rightarrow> Inl (ShopError err)
             | Inr (_, d) \<Rightarrow> Inr (s2\<lparr>st_db := d\<rparr>)))"

definition claimPayout :: "nat \<Rightarrow> PayoutStatus set \<Rightarrow> (Payout \<Rightarrow> Payout) \<Rightarrow> Store \<Rightarrow> nat \<times> Store" where
  "claimPayout i from f s =
     (let (n, rows) = updateMany (\<lambda>p. pay_id p = i \<and> pay_status p \<in> from) f (st_payouts s) in (n, s\<lparr>st_payouts := rows\<rparr>))"

definition decisionName :: "PayoutDecision \<Rightarrow> string" where
  "decisionName status = (case status of DECIDE_APPROVED \<Rightarrow> ''PAYOUT_APPROVED'' | DECIDE_PAID \<Rightarrow> ''PAYOUT_PAID'' | DECIDE_REJECTED \<Rightarrow> ''PAYOUT_REJECTED'')"

definition decisionTitle :: "PayoutDecision \<Rightarrow> string" where
  "decisionTitle status = (case status of DECIDE_APPROVED \<Rightarrow> ''Payout approved'' | DECIDE_PAID \<Rightarrow> ''Payout sent'' | DECIDE_REJECTED \<Rightarrow> ''Payout rejected'')"

definition decidePayoutFrom :: "Payout \<Rightarrow> PayoutDecision \<Rightarrow> nat \<Rightarrow> string option \<Rightarrow> string option \<Rightarrow> int \<Rightarrow> Store \<Rightarrow> shop_error + Payout \<times> Store" where
  "decidePayoutFrom before status actorId reason providerRef now s =
     (case decisionRefused status actorId before of
        Some err \<Rightarrow> Inl (ShopError err)
      | None \<Rightarrow>
         (let i = pay_id before; (n, s1) = claimPayout i (payoutFrom status) (payoutData status actorId reason providerRef now) s in
          if n = 0 then Inl (ShopError (ConflictError ''This payout was updated by someone else; refresh and try again''))
          else case (if status = DECIDE_PAID then payOut before s1 else Inr s1) of
            Inl err \<Rightarrow> Inl err
          | Inr s2 \<Rightarrow>
             (let s3 = notify (pay_userId before) (decisionTitle status) (audit (Some actorId) (decisionName status) ''Payout'' i s2)
              in case payoutRow i s3 of None \<Rightarrow> Inl (ShopError NotFoundError) | Some p \<Rightarrow> Inr (p, s3))))"

definition decidePayout :: "nat \<Rightarrow> PayoutDecision \<Rightarrow> nat \<Rightarrow> string option \<Rightarrow> string option \<Rightarrow> int \<Rightarrow> Store \<Rightarrow> shop_error + Payout \<times> Store" where
  "decidePayout i status actorId reason providerRef now s =
     (case payoutRow i s of
        None \<Rightarrow> Inl (ShopError NotFoundError)
      | Some before \<Rightarrow> decidePayoutFrom before status actorId reason providerRef now s)"

end
