(* ===== verification/MakerChecker.thy ===== *)
theory MakerChecker
  imports Database
begin

text \<open>
  The maker-checker discipline that payouts and referral rewards share: a decision is made on a row read
  earlier, checks the people recorded in it, and is then claimed by a compare-and-swap on the state alone.
  The clients conclude that the people are right in the row that is changed, too.
\<close>

datatype decision_state = UNDECIDED | AGREED | SETTLED | CLOSED_STATE

locale maker_checker =
  fixes key :: "'r \<Rightarrow> nat" and state :: "'r \<Rightarrow> decision_state"
    and maker :: "'r \<Rightarrow> nat option" and approver :: "'r \<Rightarrow> nat option" and payer :: "'r \<Rightarrow> nat option"
    and approve :: "'x \<Rightarrow> nat \<Rightarrow> 'r \<Rightarrow> 'r" and pay :: "'x \<Rightarrow> nat \<Rightarrow> 'r \<Rightarrow> 'r" and close :: "'x \<Rightarrow> nat \<Rightarrow> 'r \<Rightarrow> 'r"
  assumes keys: "key (approve x a r) = key r" "key (pay x a r) = key r" "key (close x a r) = key r"
    and makers: "maker (approve x a r) = maker r" "maker (pay x a r) = maker r" "maker (close x a r) = maker r"
    and states: "state (approve x a r) = AGREED" "state (pay x a r) = SETTLED" "state (close x a r) = CLOSED_STATE"
    and approvers: "approver (approve x a r) = Some a" "approver (pay x a r) = approver r" "approver (close x a r) = approver r"
    and payers: "payer (pay x a r) = Some a"
begin

definition eyes :: "'r \<Rightarrow> bool" where
  "eyes r \<longleftrightarrow> (state r = UNDECIDED \<longrightarrow> approver r = None)
     \<and> (state r = AGREED \<or> state r = SETTLED \<longrightarrow> approver r \<noteq> None \<and> approver r \<noteq> maker r)
     \<and> (state r = SETTLED \<longrightarrow> payer r \<noteq> None \<and> payer r \<noteq> maker r \<and> payer r \<noteq> approver r)"

definition rows_ok :: "'r list \<Rightarrow> bool" where
  "rows_ok rows \<longleftrightarrow> distinct (map key rows) \<and> (\<forall>r\<in>set rows. eyes r)"

definition later :: "'r list \<Rightarrow> 'r list \<Rightarrow> bool" where
  "later rows rows' \<longleftrightarrow> (\<forall>r\<in>set rows. \<exists>q\<in>set rows'. key q = key r \<and> maker q = maker r
     \<and> (approver r \<noteq> None \<longrightarrow> approver q = approver r))"

lemma later_refl: "later rows rows"
  by (auto simp: later_def)

lemma later_trans: "later a b \<Longrightarrow> later b c \<Longrightarrow> later a c"
  unfolding later_def by metis

lemma later_append: "later rows (rows @ xs)"
  by (auto simp: later_def)

text \<open>The row of the same key in a later table.\<close>

lemma later_row:
  assumes "later old rows" "before \<in> set old" "r \<in> set rows" "key r = key before" "distinct (map key rows)"
  shows "maker r = maker before \<and> (approver before \<noteq> None \<longrightarrow> approver r = approver before)"
  using assms unfolding later_def by (metis distinct_map inj_onD)

text \<open>A compare-and-swap that is right on every row it changes.\<close>

lemma swap:
  assumes ok: "rows_ok rows"
    and f: "\<And>r. key (f r) = key r" "\<And>r. maker (f r) = maker r"
    and good: "\<And>r. r \<in> set rows \<Longrightarrow> P r \<Longrightarrow> eyes (f r) \<and> (approver r \<noteq> None \<longrightarrow> approver (f r) = approver r)"
  shows "rows_ok (map (\<lambda>r. if P r then f r else r) rows) \<and> later rows (map (\<lambda>r. if P r then f r else r) rows)"
proof
  have "map key (map (\<lambda>r. if P r then f r else r) rows) = map key rows" by (simp add: f(1))
  moreover have "\<forall>r\<in>set (map (\<lambda>r. if P r then f r else r) rows). eyes r" using ok good unfolding rows_ok_def by auto
  ultimately show "rows_ok (map (\<lambda>r. if P r then f r else r) rows)" using ok unfolding rows_ok_def by presburger
  show "later rows (map (\<lambda>r. if P r then f r else r) rows)"
    unfolding later_def
  proof
    fix r assume "r \<in> set rows"
    then show "\<exists>q\<in>set (map (\<lambda>r. if P r then f r else r) rows). key q = key r \<and> maker q = maker r
        \<and> (approver r \<noteq> None \<longrightarrow> approver q = approver r)"
      using good [of r] by (intro bexI [of _ "if P r then f r else r"]) (auto simp: f)
  qed
qed

lemma approve_ok:
  assumes "rows_ok rows" "later old rows" "before \<in> set old" "maker before \<noteq> Some a"
    and P: "\<And>r. P r \<Longrightarrow> key r = key before \<and> state r = UNDECIDED"
  shows "rows_ok (map (\<lambda>r. if P r then approve x a r else r) rows) \<and> later rows (map (\<lambda>r. if P r then approve x a r else r) rows)"
proof (rule swap [OF assms(1)])
  fix r assume r: "r \<in> set rows" "P r"
  then have "maker r = maker before" using later_row [OF assms(2,3)] P assms(1) unfolding rows_ok_def by blast
  moreover have "approver r = None" using r P assms(1) unfolding rows_ok_def eyes_def by blast
  ultimately show "eyes (approve x a r) \<and> (approver r \<noteq> None \<longrightarrow> approver (approve x a r) = approver r)"
    using assms(4) by (simp add: eyes_def states approvers makers)
qed (simp_all add: keys makers)

lemma pay_ok:
  assumes "rows_ok rows" "later old rows" "before \<in> set old" "rows_ok old" "state before = AGREED"
    and "maker before \<noteq> Some a" "approver before \<noteq> Some a"
    and P: "\<And>r. P r \<Longrightarrow> key r = key before \<and> state r = AGREED"
  shows "rows_ok (map (\<lambda>r. if P r then pay x a r else r) rows) \<and> later rows (map (\<lambda>r. if P r then pay x a r else r) rows)"
proof (rule swap [OF assms(1)])
  fix r assume r: "r \<in> set rows" "P r"
  have "approver before \<noteq> None" using assms(3-5) unfolding rows_ok_def eyes_def by blast
  then have "maker r = maker before" "approver r = approver before"
    using later_row [OF assms(2,3)] r P assms(1) unfolding rows_ok_def by blast+
  moreover have "approver r \<noteq> None \<and> approver r \<noteq> maker r" using r P assms(1) unfolding rows_ok_def eyes_def by blast
  ultimately show "eyes (pay x a r) \<and> (approver r \<noteq> None \<longrightarrow> approver (pay x a r) = approver r)"
    using assms(6,7) by (simp add: eyes_def states approvers makers payers)
qed (simp_all add: keys makers)

lemma close_ok:
  assumes "rows_ok rows"
  shows "rows_ok (map (\<lambda>r. if P r then close x a r else r) rows) \<and> later rows (map (\<lambda>r. if P r then close x a r else r) rows)"
  by (rule swap [OF assms]) (simp_all add: eyes_def states approvers keys makers)

lemma new_ok:
  assumes "rows_ok rows" "\<forall>r\<in>set rows. key r \<noteq> key row" "state row = UNDECIDED" "approver row = None"
  shows "rows_ok (rows @ [row]) \<and> later rows (rows @ [row])"
  using assms by (auto simp: rows_ok_def later_append eyes_def)

lemma settled_by_three:
  assumes "rows_ok rows" "r \<in> set rows" "state r = SETTLED"
  shows "\<exists>a b. approver r = Some a \<and> payer r = Some b \<and> a \<noteq> b \<and> maker r \<noteq> Some a \<and> maker r \<noteq> Some b"
  using assms unfolding rows_ok_def eyes_def by (metis not_Some_eq)

end

end
