(* ===== verification/CommerceTables.thy ===== *)
theory CommerceTables
  imports Purchases Payouts MakerChecker LedgerProofs
begin

text \<open>
  What the operations of the commercial services do to the tables: the counter of a coupon against the paid
  purchases, and the people of payouts and rewards (the maker-checker interface, provided here).
\<close>

section \<open>Which tables an operation touches\<close>

lemma reward_tables [simp]:
  "st_purchases (createReferralRewardForPurchase p s) = st_purchases s"
  "st_coupons (createReferralRewardForPurchase p s) = st_coupons s"
  "st_payouts (createReferralRewardForPurchase p s) = st_payouts s"
  "next_id (st_db s) \<le> next_id (st_db (createReferralRewardForPurchase p s))"
  by (auto simp: createReferralRewardForPurchase_def Let_def split_beta split: option.split)

lemma void_tables [simp]:
  "st_purchases (voidReferralRewardForPurchase i a t s) = st_purchases s"
  "st_coupons (voidReferralRewardForPurchase i a t s) = st_coupons s"
  "st_payouts (voidReferralRewardForPurchase i a t s) = st_payouts s"
  "next_id (st_db (voidReferralRewardForPurchase i a t s)) = next_id (st_db s)"
  by (auto simp: voidReferralRewardForPurchase_def claimReward_def Let_def split_beta split: option.split)

lemma suspend_tables [simp]:
  "st_purchases (suspendAccount a r t x s) = st_purchases s" "st_coupons (suspendAccount a r t x s) = st_coupons s"
  "st_payouts (suspendAccount a r t x s) = st_payouts s" "st_rewards (suspendAccount a r t x s) = st_rewards s"
  "next_id (st_db (suspendAccount a r t x s)) = next_id (st_db s)" "ledger_t (st_db (suspendAccount a r t x s)) = ledger_t (st_db s)"
  by (simp_all add: suspendAccount_def updateAccount_def)

lemma suspend_fold [simp]:
  "st_purchases (foldl (\<lambda>s x. suspendAccount a r t x s) s xs) = st_purchases s"
  "st_coupons (foldl (\<lambda>s x. suspendAccount a r t x s) s xs) = st_coupons s"
  "st_payouts (foldl (\<lambda>s x. suspendAccount a r t x s) s xs) = st_payouts s"
  "st_rewards (foldl (\<lambda>s x. suspendAccount a r t x s) s xs) = st_rewards s"
  "next_id (st_db (foldl (\<lambda>s x. suspendAccount a r t x s) s xs)) = next_id (st_db s)"
  "ledger_t (st_db (foldl (\<lambda>s x. suspendAccount a r t x s) s xs)) = ledger_t (st_db s)"
  by (induction xs arbitrary: s) simp_all

lemma suspendPurchase_tables [simp]:
  "st_purchases (snd (suspendPurchaseAccounts i a r t s)) = st_purchases s"
  "st_coupons (snd (suspendPurchaseAccounts i a r t s)) = st_coupons s"
  "st_payouts (snd (suspendPurchaseAccounts i a r t s)) = st_payouts s"
  "st_rewards (snd (suspendPurchaseAccounts i a r t s)) = st_rewards s"
  "next_id (st_db (snd (suspendPurchaseAccounts i a r t s))) = next_id (st_db s)"
  "ledger_t (st_db (snd (suspendPurchaseAccounts i a r t s))) = ledger_t (st_db s)"
  by (simp_all add: suspendPurchaseAccounts_def Let_def split: option.split)

lemma purchaseAccount_tables [simp]:
  "st_purchases (snd (purchaseAccount p t s)) = st_purchases s" "st_coupons (snd (purchaseAccount p t s)) = st_coupons s"
  "st_payouts (snd (purchaseAccount p t s)) = st_payouts s" "st_rewards (snd (purchaseAccount p t s)) = st_rewards s"
  "next_id (st_db s) \<le> next_id (st_db (snd (purchaseAccount p t s)))"
  by (auto simp: purchaseAccount_def Let_def split: option.split)

section \<open>The coupon counter\<close>

definition payments :: "nat \<Rightarrow> Purchase list \<Rightarrow> nat" where
  "payments c rows = length (filter (\<lambda>p. pur_couponId p = Some c \<and> pur_paymentDate p \<noteq> None) rows)"

definition unpaid :: "PurchaseStatus \<Rightarrow> bool" where
  "unpaid st \<longleftrightarrow> st = PUR_PENDING \<or> st = PUR_FAILED"

lemma unpaid_simps [simp]:
  "unpaid PUR_PENDING" "unpaid PUR_FAILED" "\<not> unpaid PUR_PAID" "\<not> unpaid PUR_REFUNDED" "\<not> unpaid PUR_CANCELLED"
  by (simp_all add: unpaid_def)

definition counters_ok :: "Store \<Rightarrow> bool" where
  "counters_ok s \<longleftrightarrow> distinct (map pur_id (st_purchases s)) \<and> distinct (map cpn_id (st_coupons s))
     \<and> (\<forall>p\<in>set (st_purchases s). pur_id p < newId s \<and> (\<forall>c. pur_couponId p = Some c \<longrightarrow> c < newId s)
          \<and> (unpaid (pur_status p) \<longrightarrow> pur_paymentDate p = None))
     \<and> (\<forall>c\<in>set (st_coupons s). cpn_id c < newId s \<and> cpn_redeemedCount c = int (payments (cpn_id c) (st_purchases s)))"

lemma counters_cong:
  assumes "counters_ok s" "st_purchases s' = st_purchases s" "st_coupons s' = st_coupons s" "newId s \<le> newId s'"
  shows "counters_ok s'"
  using assms unfolding counters_ok_def by (simp, metis order_less_le_trans)

lemma payments_update:
  assumes "\<And>p. pur_couponId (f p) = pur_couponId p" "\<And>p. pur_paymentDate (f p) = pur_paymentDate p"
  shows "payments c (map (\<lambda>p. if P p then f p else p) rows) = payments c rows"
  using assms by (induction rows) (simp_all add: payments_def)

lemma counters_map:
  assumes ok: "counters_ok s" and p: "st_purchases s' = map g (st_purchases s)" and c: "st_coupons s' = map h (st_coupons s)"
    and n: "newId s \<le> newId s'"
    and g: "\<And>p. pur_id (g p) = pur_id p" "\<And>p. pur_couponId (g p) = pur_couponId p"
    and h: "\<And>c. cpn_id (h c) = cpn_id c"
    and unp: "\<And>p. p \<in> set (st_purchases s) \<Longrightarrow> unpaid (pur_status (g p)) \<Longrightarrow> pur_paymentDate (g p) = None"
    and cnt: "\<And>c. cpn_redeemedCount (h c) - cpn_redeemedCount c
        = int (payments (cpn_id c) (map g (st_purchases s))) - int (payments (cpn_id c) (st_purchases s))"
  shows "counters_ok s'"
proof -
  have "map pur_id (st_purchases s') = map pur_id (st_purchases s)" "map cpn_id (st_coupons s') = map cpn_id (st_coupons s)"
    by (simp_all add: p c g h)
  moreover have "pur_id x < newId s' \<and> (\<forall>c. pur_couponId x = Some c \<longrightarrow> c < newId s') \<and> (unpaid (pur_status x) \<longrightarrow> pur_paymentDate x = None)"
    if "x \<in> set (st_purchases s')" for x
  proof -
    obtain y where y: "y \<in> set (st_purchases s)" "x = g y" using \<open>x \<in> set (st_purchases s')\<close> p by auto
    then have "pur_id y < newId s" "\<forall>c. pur_couponId y = Some c \<longrightarrow> c < newId s" using ok unfolding counters_ok_def by blast+
    then show ?thesis using y n unp [OF y(1)] by (auto simp: g)
  qed
  moreover have "cpn_id x < newId s' \<and> cpn_redeemedCount x = int (payments (cpn_id x) (st_purchases s'))"
    if "x \<in> set (st_coupons s')" for x
  proof -
    obtain y where y: "y \<in> set (st_coupons s)" "x = h y" using \<open>x \<in> set (st_coupons s')\<close> c by auto
    then have "cpn_id y < newId s" "cpn_redeemedCount y = int (payments (cpn_id y) (st_purchases s))"
      using ok unfolding counters_ok_def by blast+
    then show ?thesis using y n cnt [of y] by (simp add: h p)
  qed
  ultimately show ?thesis using ok unfolding counters_ok_def by simp
qed

text \<open>A change of purchase rows that keeps payment dates.\<close>

lemma counters_status:
  assumes ok: "counters_ok s"
    and f: "\<And>p. pur_id (f p) = pur_id p" "\<And>p. pur_couponId (f p) = pur_couponId p" "\<And>p. pur_paymentDate (f p) = pur_paymentDate p"
    and st: "\<And>p. P p \<Longrightarrow> unpaid (pur_status (f p)) \<Longrightarrow> unpaid (pur_status p)"
  shows "counters_ok (s\<lparr>st_purchases := snd (updateMany P f (st_purchases s))\<rparr>)"
proof (rule counters_map [OF ok, of _ "\<lambda>p. if P p then f p else p" "\<lambda>c. c"])
  show "cpn_redeemedCount c - cpn_redeemedCount c
      = int (payments (cpn_id c) (map (\<lambda>p. if P p then f p else p) (st_purchases s))) - int (payments (cpn_id c) (st_purchases s))" for c
    using payments_update [OF f(2,3)] by simp
  show "pur_paymentDate (if P p then f p else p) = None"
    if "p \<in> set (st_purchases s)" "unpaid (pur_status (if P p then f p else p))" for p
    using that ok st [of p] f(3) [of p] unfolding counters_ok_def by (cases "P p") auto
qed (simp_all add: f updateMany_def newId_def)

lemma counters_create:
  assumes "counters_ok s" "pur_id row = newId s" "pur_paymentDate row = None" "\<And>c. pur_couponId row = Some c \<Longrightarrow> c < newId s"
    and "pur_status row = PUR_PENDING"
  shows "counters_ok ((takeId s)\<lparr>st_purchases := st_purchases s @ [row]\<rparr>)"
  using assms unfolding counters_ok_def newId_def by (auto simp: payments_def less_Suc_eq)

lemma payments_paid:
  assumes "distinct (map pur_id rows)" "q \<in> set rows" "pur_id q = i" "pur_status q = st" "pur_paymentDate q = None"
  shows "payments c (map (\<lambda>p. if pur_id p = i \<and> pur_status p = st then p\<lparr>pur_status := PUR_PAID, pur_paymentDate := Some now\<rparr> else p) rows)
    = payments c rows + (if pur_couponId q = Some c then 1 else 0)"
  using assms
proof (induction rows)
  case (Cons p rows)
  let ?f = "\<lambda>p. if pur_id p = i \<and> pur_status p = st then p\<lparr>pur_status := PUR_PAID, pur_paymentDate := Some now\<rparr> else p"
  show ?case
  proof (cases "p = q")
    case True
    then have "\<forall>x\<in>set rows. pur_id x \<noteq> i" using Cons.prems by (metis distinct.simps(2) image_eqI list.set_map list.simps(9))
    then have "map ?f rows = rows" by (intro map_idI) auto
    then show ?thesis using True Cons.prems by (simp add: payments_def)
  next
    case False
    then have "q \<in> set rows" using Cons.prems by simp
    moreover from this have "pur_id p \<noteq> i" using Cons.prems by (metis distinct.simps(2) image_eqI list.set_map list.simps(9))
    ultimately show ?thesis using Cons.IH Cons.prems by (simp add: payments_def)
  qed
qed simp

text \<open>A redemption that goes through adds one to the coupon of the purchase, and to no other.\<close>

lemma countRedemption_rows:
  assumes "distinct (map cpn_id (st_coupons s))" "fst (countRedemption i cond s) \<noteq> 0"
  shows "snd (countRedemption i cond s) =
    s\<lparr>st_coupons := map (\<lambda>c. if cpn_id c = i then c\<lparr>cpn_redeemedCount := cpn_redeemedCount c + 1\<rparr> else c) (st_coupons s)\<rparr>"
proof -
  obtain c where c: "c \<in> set (st_coupons s)" "cpn_id c = i" "cond c"
    using assms(2) by (auto simp: countRedemption_def updateMany_def filter_empty_conv)
  have "cpn_id x = i \<and> cond x \<longleftrightarrow> cpn_id x = i" if "x \<in> set (st_coupons s)" for x
    using that c assms(1) by (metis distinct_map inj_onD)
  then show ?thesis by (simp add: countRedemption_def updateMany_def cong: map_cong)
qed

lemma redemption_rows:
  assumes "recordCouponRedemption p s = Inr s'" "distinct (map cpn_id (st_coupons s))"
  shows "st_purchases s' = st_purchases s \<and> newId s' = newId s \<and> st_payouts s' = st_payouts s \<and> st_rewards s' = st_rewards s
    \<and> st_coupons s' = map (\<lambda>c. if pur_couponId p = Some (cpn_id c) then c\<lparr>cpn_redeemedCount := cpn_redeemedCount c + 1\<rparr> else c) (st_coupons s)"
proof (cases "Option.bind (pur_couponId p) (\<lambda>i. couponRow i s)")
  case None
  then have "\<forall>c\<in>set (st_coupons s). pur_couponId p \<noteq> Some (cpn_id c)"
    by (auto simp: couponRow_def findUnique_def find_None_iff split: bind_splits)
  then show ?thesis using assms(1) None by (auto simp: recordCouponRedemption_def intro!: map_idI [symmetric])
next
  case (Some coupon)
  let ?i = "cpn_id coupon" and ?r = "redeem (isFree p) coupon s"
  have c: "coupon \<in> set (st_coupons s)" "pur_couponId p = Some ?i"
    using Some by (auto simp: couponRow_def dest: findUnique_Some split: bind_splits)
  have "fst ?r \<noteq> 0"
  proof (cases "isFree p \<and> cpn_maxRedemptions coupon \<noteq> None")
    case True
    then show ?thesis using assms(1) Some by (intro notI) (simp add: recordCouponRedemption_def split_beta)
  next
    case False
    then show ?thesis using c(1) by (auto simp: redeem_def countRedemption_def updateMany_def filter_empty_conv split: option.split)
  qed
  then have r: "snd ?r = s\<lparr>st_coupons := map (\<lambda>c. if cpn_id c = ?i then c\<lparr>cpn_redeemedCount := cpn_redeemedCount c + 1\<rparr> else c) (st_coupons s)\<rparr>"
    unfolding redeem_def by (rule countRedemption_rows [OF assms(2)])
  have "s' = snd ?r \<or> s' = audit None ''COUPON_OVER_REDEEMED'' ''Coupon'' ?i (snd ?r)"
    using assms(1) Some by (auto simp: recordCouponRedemption_def Let_def split_beta split: if_splits option.splits)
  then show ?thesis using r c(2) by (auto simp: newId_def eq_commute)
qed

lemma counters_paid:
  assumes ok: "counters_ok s" and q: "q \<in> set (st_purchases s)" "pur_id q = i" "pur_status q = st" "unpaid st"
    and s1: "s1 = snd (claimPurchase i st (\<lambda>p. p\<lparr>pur_status := PUR_PAID, pur_paymentDate := Some now\<rparr>) s)"
    and r: "recordCouponRedemption p s1 = Inr s2" "pur_couponId p = pur_couponId q"
  shows "counters_ok s2"
proof -
  let ?g = "\<lambda>p. if pur_id p = i \<and> pur_status p = st then p\<lparr>pur_status := PUR_PAID, pur_paymentDate := Some now\<rparr> else p"
  have s1p: "st_purchases s1 = map ?g (st_purchases s)" "st_coupons s1 = st_coupons s" "newId s1 = newId s"
    by (simp_all add: s1 claimPurchase_def updateMany_def newId_def)
  have d: "distinct (map cpn_id (st_coupons s1))" "distinct (map pur_id (st_purchases s))" and none: "pur_paymentDate q = None"
    using ok q s1p unfolding counters_ok_def by auto
  note rows = redemption_rows [OF r(1) d(1)]
  have pay: "payments c (map ?g (st_purchases s)) = payments c (st_purchases s) + (if pur_couponId p = Some c then 1 else 0)" for c
    using payments_paid [OF d(2) q(1-3) none] r(2) by simp
  show ?thesis
  proof (rule counters_map [OF ok, of _ ?g "\<lambda>c. if pur_couponId p = Some (cpn_id c) then c\<lparr>cpn_redeemedCount := cpn_redeemedCount c + 1\<rparr> else c"])
    show "pur_paymentDate (?g x) = None" if "x \<in> set (st_purchases s)" "unpaid (pur_status (?g x))" for x
      using that ok unfolding counters_ok_def by (cases "pur_id x = i \<and> pur_status x = st") auto
    show "cpn_redeemedCount (if pur_couponId p = Some (cpn_id c) then c\<lparr>cpn_redeemedCount := cpn_redeemedCount c + 1\<rparr> else c) - cpn_redeemedCount c
        = int (payments (cpn_id c) (map ?g (st_purchases s))) - int (payments (cpn_id c) (st_purchases s))" for c
      unfolding pay by simp
  qed (use rows s1p in simp_all)
qed

section \<open>Payouts and rewards as maker-checker tables\<close>

definition payoutState :: "Payout \<Rightarrow> decision_state" where
  "payoutState p = (case pay_status p of PAY_PENDING \<Rightarrow> UNDECIDED | PAY_APPROVED \<Rightarrow> AGREED | PAY_PAID \<Rightarrow> SETTLED | PAY_REJECTED \<Rightarrow> CLOSED_STATE)"

definition rewardState :: "ReferralReward \<Rightarrow> decision_state" where
  "rewardState r = (case rwd_status r of RWD_PENDING \<Rightarrow> UNDECIDED | RWD_APPROVED \<Rightarrow> AGREED | RWD_PAID \<Rightarrow> SETTLED | RWD_VOID \<Rightarrow> CLOSED_STATE)"

interpretation payout: maker_checker pay_id payoutState pay_createdById pay_approvedById pay_paidById
  "\<lambda>(reason, ref, now) a. payoutData DECIDE_APPROVED a reason ref now" "\<lambda>(reason, ref, now) a. payoutData DECIDE_PAID a reason ref now"
  "\<lambda>(reason, ref, now) a. payoutData DECIDE_REJECTED a reason ref now"
  by unfold_locales (auto simp: payoutData_def payoutState_def)

interpretation reward: maker_checker rwd_id rewardState "\<lambda>r. Some (rwd_referrerId r)" rwd_approvedById rwd_paidById
  "\<lambda>now a. rewardData APPROVE a now" "\<lambda>now a. rewardData PAY a now" "\<lambda>now a. rewardData VOID a now"
  by unfold_locales (auto simp: rewardData_def rewardState_def)

lemma state_simps [simp]:
  "payoutState p = UNDECIDED \<longleftrightarrow> pay_status p = PAY_PENDING" "payoutState p = AGREED \<longleftrightarrow> pay_status p = PAY_APPROVED"
  "payoutState p = SETTLED \<longleftrightarrow> pay_status p = PAY_PAID"
  "rewardState r = UNDECIDED \<longleftrightarrow> rwd_status r = RWD_PENDING" "rewardState r = AGREED \<longleftrightarrow> rwd_status r = RWD_APPROVED"
  "rewardState r = SETTLED \<longleftrightarrow> rwd_status r = RWD_PAID"
  by (simp_all add: payoutState_def rewardState_def split: PayoutStatus.split ReferralRewardStatus.split)

section \<open>Decisions\<close>

lemma decidePayout_rows:
  assumes "decidePayoutFrom before status actor reason ref now s = Inr (p, s')"
  shows "decisionRefused status actor before = None
    \<and> st_payouts s' = map (\<lambda>r. if pay_id r = pay_id before \<and> pay_status r \<in> payoutFrom status then payoutData status actor reason ref now r else r) (st_payouts s)"
proof -
  have none: "decisionRefused status actor before = None"
    using assms by (cases "decisionRefused status actor before") (simp_all add: decidePayoutFrom_def)
  have pay: "st_payouts s2 = st_payouts s1" if "payOut before s1 = Inr s2" for s1 s2
  proof -
    have "st_payouts (foldl (\<lambda>x l. recordEntry l x) y ls) = st_payouts y" for y ls by (induction ls arbitrary: y) simp_all
    then show ?thesis using that by (auto simp: payOut_def Let_def split: option.splits sum.splits)
  qed
  show ?thesis
    using assms none pay
    by (auto simp: decidePayoutFrom_def claimPayout_def updateMany_def Let_def split: if_splits sum.splits option.splits)
qed

lemma payout_decided:
  assumes "decidePayoutFrom before status actor reason ref now s = Inr (p, s')"
    and "payout.rows_ok (st_payouts s)" "payout.rows_ok old" "payout.later old (st_payouts s)" "before \<in> set old"
  shows "payout.rows_ok (st_payouts s') \<and> payout.later (st_payouts s) (st_payouts s')"
proof -
  note r = decidePayout_rows [OF assms(1)]
  show ?thesis
  proof (cases status)
    case DECIDE_APPROVED
    then show ?thesis
      using r payout.approve_ok [OF assms(2,4,5), of actor _ "(reason, ref, now)"]
      by (auto simp: decisionRefused_def payoutFrom_def split: if_splits)
  next
    case DECIDE_PAID
    then show ?thesis
      using r payout.pay_ok [OF assms(2,4,5,3), of actor _ "(reason, ref, now)"]
      by (auto simp: decisionRefused_def payoutFrom_def split: if_splits)
  next
    case DECIDE_REJECTED
    then show ?thesis using r payout.close_ok [OF assms(2), where x = "(reason, ref, now)" and a = actor] by (auto simp: split_def)
  qed
qed

lemma decideReward_rows:
  assumes "decideRewardFrom before action actor note now s = Inr (p, s')"
  shows "rewardRefused action actor note before = None
    \<and> st_rewards s' = map (\<lambda>r. if rwd_id r = rwd_id before \<and> rwd_status r \<in> rewardFrom action then rewardData action actor now r else r) (st_rewards s)"
proof -
  have none: "rewardRefused action actor note before = None"
    using assms by (cases "rewardRefused action actor note before") (simp_all add: decideRewardFrom_def)
  show ?thesis
    using assms none
    by (cases action) (auto simp: decideRewardFrom_def claimReward_def updateMany_def Let_def split: if_splits option.splits)
qed

lemma reward_decided:
  assumes "decideRewardFrom before action actor note now s = Inr (p, s')"
    and "reward.rows_ok (st_rewards s)" "reward.rows_ok old" "reward.later old (st_rewards s)" "before \<in> set old"
  shows "reward.rows_ok (st_rewards s') \<and> reward.later (st_rewards s) (st_rewards s')"
proof -
  note r = decideReward_rows [OF assms(1)]
  show ?thesis
  proof (cases action)
    case APPROVE
    then show ?thesis
      using r reward.approve_ok [OF assms(2,4,5), of actor _ now]
      by (auto simp: rewardRefused_def rewardFrom_def split: if_splits)
  next
    case PAY
    then show ?thesis
      using r reward.pay_ok [OF assms(2,4,5,3), of actor _ now]
      by (auto simp: rewardRefused_def rewardFrom_def split: if_splits)
  next
    case VOID
    then show ?thesis using r reward.close_ok [OF assms(2), where x = now and a = actor] by auto
  qed
qed

end
