(* ===== verification/CommerceRun.thy ===== *)
theory CommerceRun
  imports CommerceTables
begin

text \<open>
  Runs of the store: any interleaving of the transactions of the commercial services. A step commits on the
  current store with rows read from any earlier store of the run, as in concurrent transactions whose first
  read is old. Every step keeps the invariants of the tables.
\<close>

section \<open>Ids only grow\<close>

lemma next_id_evaluate: "evaluateAccount i a now d = (res, d') \<Longrightarrow> next_id d \<le> next_id d'"
proof -
  assume e: "evaluateAccount i a now d = (res, d')"
  have adv: "next_id x \<le> next_id y" if "advanceToNextPhase k u sn n x = Inr (v, y)" for k u sn n x v y
    using that by (auto simp: advanceToNextPhase_def Let_def split: option.splits prod.splits if_splits sum.splits dest: issueCertificate_Inr(4))
  have ens: "next_id (snd (ensureAggregatesBackfilled r t x)) = next_id x" for r t x
    by (simp add: ensureAggregatesBackfilled_def Let_def updateAccount_def)
  have com: "next_id x \<le> next_id y" if "evaluateCommit p a x = (res, y)" for p x y
  proof (cases "nextStatus (ev_decision p) = acc_status (ev_account p)")
    case True
    then show ?thesis using that by (auto simp: evaluateCommit_def findAccountOrThrow_def updateAccount_def)
  next
    case False
    show ?thesis
    proof (cases "transitionTx p a x")
      case (Inl err)
      then show ?thesis using that False by (simp add: evaluateCommit_def)
    next
      case (Inr r)
      obtain v z where r: "r = (v, z)" by (cases r)
      have "next_id x \<le> next_id z"
        using Inr unfolding r by (cases rule: transitionTx_cases) (auto simp: updateAccount_def dest!: issueCertificate_Inr(4) adv)
      then show ?thesis using that False Inr r by (auto simp: evaluateCommit_def findAccountOrThrow_def)
    qed
  qed
  show ?thesis
  proof (cases "evaluateRead i now d")
    case (Inl err)
    then show ?thesis using e by (simp add: evaluateAccount_def)
  next
    case (Inr pd)
    obtain p d1 where pd: "pd = (p, d1)" by fastforce
    have "next_id d1 = next_id d" using Inr ens unfolding pd
      by (auto simp: evaluateRead_def split_beta split: option.splits)
    moreover have "evaluateCommit p a d1 = (res, d')" using e Inr pd by (simp add: evaluateAccount_def)
    ultimately show ?thesis using com by fastforce
  qed
qed

section \<open>The invariant\<close>

definition store_ok :: "Store \<Rightarrow> bool" where
  "store_ok s \<longleftrightarrow> counters_ok s
     \<and> payout.rows_ok (st_payouts s) \<and> (\<forall>p\<in>set (st_payouts s). pay_id p < newId s)
     \<and> reward.rows_ok (st_rewards s) \<and> (\<forall>r\<in>set (st_rewards s). rwd_id r < newId s)"

definition purchases_later :: "Purchase list \<Rightarrow> Purchase list \<Rightarrow> bool" where
  "purchases_later rows rows' \<longleftrightarrow> (\<forall>p\<in>set rows. \<exists>q\<in>set rows'. pur_id q = pur_id p \<and> pur_couponId q = pur_couponId p)"

definition evolves :: "Store \<Rightarrow> Store \<Rightarrow> bool" where
  "evolves s s' \<longleftrightarrow> newId s \<le> newId s' \<and> purchases_later (st_purchases s) (st_purchases s')
     \<and> payout.later (st_payouts s) (st_payouts s') \<and> reward.later (st_rewards s) (st_rewards s')"

lemma purchases_refl [simp]: "purchases_later rows rows"
  by (auto simp: purchases_later_def)

lemma purchases_trans: "purchases_later a b \<Longrightarrow> purchases_later b c \<Longrightarrow> purchases_later a c"
  unfolding purchases_later_def by metis

lemma purchases_map: "(\<And>p. pur_id (f p) = pur_id p) \<Longrightarrow> (\<And>p. pur_couponId (f p) = pur_couponId p) \<Longrightarrow>
    purchases_later rows (map (\<lambda>p. if P p then f p else p) rows)"
  unfolding purchases_later_def by (intro ballI, rule_tac x = "if P p then f p else p" in bexI) auto

lemma evolves_refl: "evolves s s"
  by (simp add: evolves_def payout.later_refl reward.later_refl)

lemma evolves_trans: "evolves a b \<Longrightarrow> evolves b c \<Longrightarrow> evolves a c"
  unfolding evolves_def using purchases_trans payout.later_trans reward.later_trans by (meson order_trans)

text \<open>A step that is good whenever the store is.\<close>

definition good :: "Store \<Rightarrow> Store \<Rightarrow> bool" where
  "good s s' \<longleftrightarrow> (store_ok s \<longrightarrow> store_ok s' \<and> evolves s s')"

lemma good_refl [simp]: "good s s"
  by (simp add: good_def evolves_refl)

lemma good_trans: "good a b \<Longrightarrow> good b c \<Longrightarrow> good a c"
  unfolding good_def using evolves_trans by blast

lemma good_same:
  assumes "st_purchases s' = st_purchases s" "st_coupons s' = st_coupons s" "st_payouts s' = st_payouts s"
    and "st_rewards s' = st_rewards s" "newId s \<le> newId s'"
  shows "good s s'"
proof -
  have "\<forall>p\<in>set (st_payouts s). pay_id p < newId s'" if "\<forall>p\<in>set (st_payouts s). pay_id p < newId s"
    using that assms(5) order_less_le_trans by blast
  moreover have "\<forall>r\<in>set (st_rewards s). rwd_id r < newId s'" if "\<forall>r\<in>set (st_rewards s). rwd_id r < newId s"
    using that assms(5) order_less_le_trans by blast
  ultimately show ?thesis
    using assms counters_cong [of s s'] by (simp add: good_def store_ok_def evolves_def payout.later_refl reward.later_refl)
qed

lemma good_logs [simp]: "good s (audit a b c i s)" "good s (notify u t s)" "good s (recordEntry l s)" "good s (takeId s)"
  by (auto intro!: good_same simp: newId_def)

lemma good_after:
  "good s x \<Longrightarrow> good s (audit a b c i x)" "good s x \<Longrightarrow> good s (notify u t x)" "good s x \<Longrightarrow> good s (recordEntry l x)"
  by (rule good_trans, assumption, simp)+

section \<open>Every operation is good\<close>

lemma good_purchases:
  assumes "\<And>p. pur_id (f p) = pur_id p" "\<And>p. pur_couponId (f p) = pur_couponId p" "\<And>p. pur_paymentDate (f p) = pur_paymentDate p"
    and "\<And>p. P p \<Longrightarrow> unpaid (pur_status (f p)) \<Longrightarrow> unpaid (pur_status p)"
  shows "good s (s\<lparr>st_purchases := snd (updateMany P f (st_purchases s))\<rparr>)"
  using counters_status [OF _ assms] purchases_map [where f = f and P = P] assms(1,2)
  by (auto simp: good_def store_ok_def evolves_def newId_def payout.later_refl reward.later_refl updateMany_def)

lemma good_claim:
  assumes "\<And>p. pur_id (f p) = pur_id p" "\<And>p. pur_couponId (f p) = pur_couponId p" "\<And>p. pur_paymentDate (f p) = pur_paymentDate p"
    and "\<And>p. pur_status p = st \<Longrightarrow> unpaid (pur_status (f p)) \<Longrightarrow> unpaid st"
  shows "good s (snd (claimPurchase i st f s))"
proof -
  have "good s (s\<lparr>st_purchases := snd (updateMany (\<lambda>p. pur_id p = i \<and> pur_status p = st) f (st_purchases s))\<rparr>)"
    by (rule good_purchases) (use assms in auto)
  then show ?thesis by (simp add: claimPurchase_def split_beta)
qed

lemma good_failed [simp]: "good s (markPurchaseFailed i action s)"
proof -
  have "good s (snd (claimPurchase i PUR_PENDING (\<lambda>p. p\<lparr>pur_status := PUR_FAILED\<rparr>) s))" by (rule good_claim) auto
  then show ?thesis by (auto simp: markPurchaseFailed_def split_beta intro!: good_after split: option.split)
qed

lemma good_rewards:
  assumes "reward.rows_ok (st_rewards s) \<Longrightarrow> reward.rows_ok rows \<and> reward.later (st_rewards s) rows"
    and "rwd_id ` set rows \<subseteq> rwd_id ` set (st_rewards s)"
  shows "good s (s\<lparr>st_rewards := rows\<rparr>)"
proof -
  have ids: "\<forall>r\<in>set rows. rwd_id r < newId s" if "\<forall>r\<in>set (st_rewards s). rwd_id r < newId s"
    using that assms(2) by (metis (no_types, lifting) image_iff subset_iff)
  have "counters_ok (s\<lparr>st_rewards := rows\<rparr>)" if "counters_ok s"
    using that counters_cong [of s] by (simp add: newId_def)
  then show ?thesis using assms(1) ids
    by (simp add: good_def store_ok_def evolves_def newId_def payout.later_refl)
qed

lemma good_voided [simp]: "good s (voidReferralRewardForPurchase i a t s)"
proof -
  have void: "(\<lambda>r. r\<lparr>rwd_status := RWD_VOID, rwd_voidedAt := Some t\<rparr>) = rewardData VOID a t"
    by (simp add: rewardData_def fun_eq_iff)
  have "good s (snd (claimReward k from (rewardData VOID a t) s))" for k "from"
    using reward.close_ok [where rows = "st_rewards s" and P = "\<lambda>r. rwd_id r = k \<and> rwd_status r \<in> from" and x = t and a = a]
    by (auto simp: claimReward_def split_beta updateMany_def reward.keys intro!: good_rewards)
  then show ?thesis
    by (auto simp: voidReferralRewardForPurchase_def void Let_def split_beta intro!: good_after split: option.split)
qed

lemma good_reward [simp]: "good s (createReferralRewardForPurchase p s)"
proof -
  have "good s ((takeId s)\<lparr>st_rewards := snd (createUnlessKnown rwd_purchaseId (newReward (newId s) u p c a) (st_rewards s))\<rparr>)" for u c a
  proof (cases "\<exists>r\<in>set (st_rewards s). rwd_purchaseId r = pur_id p")
    case True
    then show ?thesis by (auto simp: createUnlessKnown_def newReward_def newId_def intro: good_same)
  next
    case False
    let ?row = "newReward (newId s) u p c a"
    let ?s = "(takeId s)\<lparr>st_rewards := st_rewards s @ [?row]\<rparr>"
    have n: "newId ?s = newId s + 1" by (simp add: newId_def)
    have c: "counters_ok ?s" if "counters_ok s" using that counters_cong [of s ?s] n by simp
    have r: "reward.rows_ok (st_rewards ?s) \<and> reward.later (st_rewards s) (st_rewards ?s)"
      if "reward.rows_ok (st_rewards s)" "\<forall>r\<in>set (st_rewards s). rwd_id r < newId s"
    proof -
      have "\<forall>r\<in>set (st_rewards s). rwd_id r \<noteq> rwd_id ?row" "rewardState ?row = UNDECIDED" "rwd_approvedById ?row = None"
        using that(2) by (auto simp: newReward_def)
      with reward.new_ok [of "st_rewards s" ?row] that(1) show ?thesis by simp
    qed
    have "good s ?s" using c r n
      by (auto simp: good_def store_ok_def evolves_def payout.later_refl newReward_def less_Suc_eq)
    then show ?thesis using False by (simp add: createUnlessKnown_def newReward_def)
  qed
  then show ?thesis
    by (auto simp: createReferralRewardForPurchase_def Let_def split_beta intro!: good_after split: option.split)
qed

lemma good_suspended [simp]: "good s (snd (suspendPurchaseAccounts i a r t s))"
  by (rule good_same) (simp_all add: newId_def)

lemma good_account [simp]: "good s (snd (purchaseAccount p t s))"
  by (rule good_same) (simp_all add: newId_def)

lemma good_activated:
  assumes s1: "(n, s1) = claimPurchase (pur_id p) (pur_status p) (\<lambda>p. p\<lparr>pur_status := PUR_PAID, pur_paymentDate := Some now\<rparr>) s"
    and n: "n \<noteq> 0" "unpaid (pur_status p)" and old: "p \<in> set old" "purchases_later old (st_purchases s)"
    and run: "activated p acct src now s1 = Inr (r, s')"
  shows "good s s'"
proof -
  obtain s2 where s2: "recordCouponRedemption p s1 = Inr s2"
    using run by (cases "recordCouponRedemption p s1") (simp_all add: activated_def)
  have "good s s2"
    unfolding good_def
  proof
    assume ok: "store_ok s"
    obtain q where q: "q \<in> set (st_purchases s)" "pur_id q = pur_id p" "pur_status q = pur_status p"
      using s1 n(1) by (auto simp: claimPurchase_def updateMany_def filter_empty_conv)
    obtain q' where q': "q' \<in> set (st_purchases s)" "pur_id q' = pur_id p" "pur_couponId q' = pur_couponId p"
      using old unfolding purchases_later_def by blast
    have "distinct (map pur_id (st_purchases s))" using ok unfolding store_ok_def counters_ok_def by blast
    then have "q' = q" using q q' by (metis distinct_map inj_onD)
    then have coupon: "pur_couponId p = pur_couponId q" using q' by simp
    have s1': "s1 = snd (claimPurchase (pur_id p) (pur_status p) (\<lambda>p. p\<lparr>pur_status := PUR_PAID, pur_paymentDate := Some now\<rparr>) s)"
      using s1 by (metis snd_conv)
    have c: "counters_ok s2"
      using counters_paid [OF _ q _ s1' s2 coupon] ok n(2) unfolding store_ok_def by blast
    have "distinct (map cpn_id (st_coupons s1))" using ok s1' by (simp add: store_ok_def counters_ok_def claimPurchase_def split_beta)
    note rows = redemption_rows [OF s2 this]
    have "purchases_later (st_purchases s) (st_purchases s1)"
      using purchases_map [where f = "\<lambda>p. p\<lparr>pur_status := PUR_PAID, pur_paymentDate := Some now\<rparr>"] by (simp add: s1' claimPurchase_def updateMany_def)
    then show "store_ok s2 \<and> evolves s s2"
      using c rows ok s1'
      by (simp add: store_ok_def evolves_def claimPurchase_def split_beta newId_def payout.later_refl reward.later_refl)
  qed
  moreover have "good s2 s'"
  proof -
    define s3 where "s3 = (case src of SRC_ADMIN_TEST _ \<Rightarrow> s2 | _ \<Rightarrow> createReferralRewardForPurchase p s2)"
    define acc where "acc = (case acct of Some a \<Rightarrow> (a, s3) | None \<Rightarrow> purchaseAccount p now s3)"
    define s7 where "s7 = notify (pur_userId p) ''Challenge activated'' (audit (fst (activationAudit src)) (snd (activationAudit src)) ''Purchase'' (pur_id p)
        (recordEntry (purchaseEntry p) (snd acc)))"
    have "good s2 s3" by (simp add: s3_def split: ActivationSource.split)
    moreover have "good s3 (snd acc)" by (simp add: acc_def split: option.split)
    ultimately have "good s2 (snd acc)" by (rule good_trans)
    then have "good s2 s7" unfolding s7_def by (intro good_after)
    moreover have "activated p acct src now s1 = (case purchaseRow (pur_id p) s7 of
        None \<Rightarrow> Inl (ShopError NotFoundError) | Some u \<Rightarrow> Inr ((u, Some (fst acc)), s7))"
      unfolding activated_def s2 s7_def acc_def s3_def by (simp only: sum.case Let_def split_beta)
    then have "s' = s7" using run by (cases "purchaseRow (pur_id p) s7") simp_all
    ultimately show ?thesis by simp
  qed
  ultimately show ?thesis by (rule good_trans)
qed

lemma good_activateFrom:
  assumes "activateFrom p acct src now s = Inr (r, s')" "p \<in> set old" "purchases_later old (st_purchases s)"
  shows "good s s'"
proof (cases "pur_status p = PUR_PAID \<or> fst (claimPurchase (pur_id p) (pur_status p) (\<lambda>p. p\<lparr>pur_status := PUR_PAID, pur_paymentDate := Some now\<rparr>) s) = 0")
  case True
  then have "s' = s" using assms(1) by (auto simp: activateFrom_def split_beta split: if_splits option.splits)
  then show ?thesis by simp
next
  case False
  let ?c = "claimPurchase (pur_id p) (pur_status p) (\<lambda>p. p\<lparr>pur_status := PUR_PAID, pur_paymentDate := Some now\<rparr>) s"
  have "unpaid (pur_status p)" "activated p acct src now (snd ?c) = Inr (r, s')"
    using assms(1) False by (auto simp: activateFrom_def split_beta unpaid_def split: if_splits) (metis PurchaseStatus.exhaust)
  then show ?thesis using good_activated [of "fst ?c" "snd ?c" p now s old acct src r s'] False assms(2,3) by simp
qed

lemma good_activate:
  assumes "activatePurchase i src now s = Inr (r, s')"
  shows "good s s'"
proof -
  obtain p where p: "purchaseRow i s = Some p" "activateFrom p (accountOfPurchase i s) src now s = Inr (r, s')"
    using assms by (auto simp: activatePurchase_def split: option.splits)
  then have "p \<in> set (st_purchases s)" by (auto simp: purchaseRow_def dest: findUnique_Some)
  then show ?thesis using good_activateFrom p(2) purchases_refl by blast
qed

lemma good_free: "good s (snd (activateFreePurchase i u now s))"
  using good_activate [of i "SRC_COUPON u" now s]
  by (auto simp: activateFreePurchase_def split: sum.split shop_error.split prod.split)

lemma good_resume: "good s (snd (resumePurchase p u url now s))"
proof -
  have "good s (snd (claimPurchase (pur_id p) PUR_FAILED (\<lambda>p. p\<lparr>pur_status := PUR_PENDING\<rparr>) s))" by (rule good_claim) auto
  then show ?thesis
    using good_free by (auto simp: resumePurchase_def Let_def split: option.split)
qed

lemma validate_coupon: "validateCoupon k t u x now s = CouponOk c l d f \<Longrightarrow> c \<in> set (st_coupons s)"
  by (auto simp: validateCoupon_def couponByCode_def Let_def split: option.splits if_splits bind_splits dest: findUnique_Some)

lemma priceOf_coupon:
  assumes "priceOf t u k now s = Inr pricing" "prc_couponId pricing = Some c" "store_ok s"
  shows "c < newId s"
proof -
  obtain raw cp l d f where v: "validateCoupon raw (tpl_id (tmpl_rules t)) u None now s = CouponOk cp l d f" "cpn_id cp = c"
    using assms(1,2) by (auto simp: priceOf_def Let_def split: option.splits if_splits CouponValidation.splits)
  then show ?thesis using validate_coupon [OF v(1)] assms(3) unfolding store_ok_def counters_ok_def by blast
qed

lemma good_create:
  assumes "createPurchase (newPurchaseRow (newId s) u t pricing snap ref key now) s = Inr s1"
    and "\<And>c. store_ok s \<Longrightarrow> prc_couponId pricing = Some c \<Longrightarrow> c < newId s"
  shows "good s s1"
proof -
  let ?row = "newPurchaseRow (newId s) u t pricing snap ref key now"
  have s1: "s1 = (takeId s)\<lparr>st_purchases := st_purchases s @ [?row]\<rparr>"
    using assms(1) by (simp add: createPurchase_def split: if_splits)
  have n: "newId s1 = newId s + 1" by (simp add: s1 newId_def)
  show ?thesis
    unfolding good_def
  proof
    assume ok: "store_ok s"
    have row: "pur_id ?row = newId s" "pur_paymentDate ?row = None" "pur_couponId ?row = prc_couponId pricing" "pur_status ?row = PUR_PENDING"
      by (simp_all add: newPurchaseRow_def)
    have "counters_ok s" using ok by (simp add: store_ok_def)
    then have "counters_ok s1"
      unfolding s1 by (rule counters_create) (use row assms(2) [OF ok] in auto)
    moreover have "store_ok (takeId s) \<and> evolves s (takeId s)" using ok good_logs(4) unfolding good_def by blast
    moreover have "purchases_later (st_purchases s) (st_purchases s1)" by (auto simp: s1 purchases_later_def)
    ultimately show "store_ok s1 \<and> evolves s s1" by (simp add: store_ok_def evolves_def s1 newId_def)
  qed
qed

lemma good_start: "good s (snd (startPurchase u i key k ref url now s))"
proof (cases "templateRow i s")
  case (Some t)
  show ?thesis
  proof (cases "templateRefused t = None")
    case True
    show ?thesis
    proof (cases "priceOf t u k now s")
      case (Inr pricing)
      let ?row = "newPurchaseRow (newId s) u t pricing (buildPurchaseSnapshot t s) ref key now"
      show ?thesis
      proof (cases "createPurchase ?row s")
        case (Inr s1)
        have g: "good s s1" using good_create [OF Inr] priceOf_coupon [OF \<open>priceOf t u k now s = Inr pricing\<close>] by blast
        have "good s1 (snd (claimPurchase (newId s) PUR_PENDING (\<lambda>p. p\<lparr>pur_status := PUR_FAILED\<rparr>) s1))" by (rule good_claim) auto
        then have "good s (snd (claimPurchase (newId s) PUR_PENDING (\<lambda>p. p\<lparr>pur_status := PUR_FAILED\<rparr>) s1))" by (rule good_trans [OF g])
        moreover have "good s (snd (activateFreePurchase (newId s) u now s1))" using good_free good_trans [OF g] by blast
        moreover have "pur_id ?row = newId s" by (simp add: newPurchaseRow_def)
        ultimately show ?thesis
          using Some True \<open>priceOf t u k now s = Inr pricing\<close> Inr g good_after(1) [OF g]
          by (auto simp: startPurchase_def Let_def split: option.split)
      qed (use Some True Inr in \<open>simp add: startPurchase_def Let_def\<close>)
    qed (use Some True in \<open>simp add: startPurchase_def\<close>)
  qed (use Some in \<open>auto simp: startPurchase_def\<close>)
qed (simp add: startPurchase_def)

lemma good_initiate: "good s (snd (initiateFrom n look u i key k ref url now s))"
proof (induction n arbitrary: look s)
  case 0
  then show ?case by (cases look) (simp_all add: good_resume good_start)
next
  case (Suc n)
  show ?case
  proof (cases look)
    case None
    obtain r s1 where r: "startPurchase u i key k ref url now s = (r, s1)" by fastforce
    then have g: "good s s1" using good_start [of s u i key k ref url now] by simp
    then have "good s (snd (initiateFrom n (lookupKey key s1) u i key k ref url now s1))" using Suc.IH by (rule good_trans)
    then show ?thesis using None r g by (auto split: sum.split shop_error.split db_error.split)
  qed (simp add: good_resume)
qed

lemma good_verify: "good s (snd (verifyAndCompleteChapaPurchase ref answer now s))"
  using good_activate [of _ SRC_CHAPA now s]
  by (auto simp: verifyAndCompleteChapaPurchase_def Let_def split: option.split sum.split prod.split)

lemma good_reverse:
  assumes "\<And>p. pur_id (f p) = pur_id p" "\<And>p. pur_couponId (f p) = pur_couponId p" "\<And>p. pur_paymentDate (f p) = pur_paymentDate p"
    and "\<And>p. \<not> unpaid (pur_status (f p))"
    and "good (s\<lparr>st_purchases := snd (updateMany (\<lambda>p. pur_id p = i) f (st_purchases s))\<rparr>) s2"
  shows "good s (audit a x y i (voidReferralRewardForPurchase i b now (snd (suspendPurchaseAccounts i c r now s2))))"
proof -
  have "good s (s\<lparr>st_purchases := snd (updateMany (\<lambda>p. pur_id p = i) f (st_purchases s))\<rparr>)" by (rule good_purchases) (use assms in auto)
  then have "good s s2" using assms(5) by (rule good_trans)
  then have "good s (snd (suspendPurchaseAccounts i c r now s2))" by (rule good_trans) simp
  then have "good s (voidReferralRewardForPurchase i b now (snd (suspendPurchaseAccounts i c r now s2)))" by (rule good_trans) simp
  then show ?thesis by (rule good_after)
qed

lemma good_refund: "refundPurchase i a now s = Inr (p, s') \<Longrightarrow> good s s'"
  by (auto simp: refundPurchase_def Let_def split_beta split: option.splits if_splits
      intro!: good_reverse [where f = "\<lambda>p. p\<lparr>pur_status := PUR_REFUNDED, pur_refundedAt := Some now\<rparr>"])

lemma good_cancel: "cancelPurchase i a now s = Inr (p, s') \<Longrightarrow> good s s'"
  by (auto simp: cancelPurchase_def Let_def split_beta split: option.splits if_splits
      intro!: good_reverse [where f = "\<lambda>p. p\<lparr>pur_status := PUR_CANCELLED, pur_cancelledAt := Some now\<rparr>"])

section \<open>Coupons, payouts, rewards\<close>

lemma good_coupons:
  assumes "\<And>c. cpn_id (f c) = cpn_id c" "\<And>c. cpn_redeemedCount (f c) = cpn_redeemedCount c"
  shows "good s (s\<lparr>st_coupons := snd (updateMany P f (st_coupons s))\<rparr>)"
proof -
  let ?s = "s\<lparr>st_coupons := snd (updateMany P f (st_coupons s))\<rparr>"
  have "counters_ok ?s" if "counters_ok s"
    by (rule counters_map [OF that, of _ "\<lambda>p. p" "\<lambda>c. if P c then f c else c"])
      (use that assms in \<open>simp_all add: updateMany_def newId_def counters_ok_def\<close>)
  then show ?thesis
    by (simp add: good_def store_ok_def evolves_def newId_def payout.later_refl reward.later_refl)
qed

lemma good_updateCoupon: "updateCoupon i patch a s = Inr (c, s') \<Longrightarrow> good s s'"
  by (auto simp: updateCoupon_def Let_def split: option.splits sum.splits intro!: good_after good_coupons simp: couponOfInput_def)

lemma good_createCoupon:
  assumes "createCoupon input a s = Inr (c, s')"
  shows "good s s'"
proof -
  have row: "cpn_id c = newId s" "cpn_redeemedCount c = 0"
    and s': "s' = audit (Some a) ''COUPON_CREATED'' ''Coupon'' (cpn_id c) ((takeId s)\<lparr>st_coupons := st_coupons s @ [c]\<rparr>)"
    using assms by (auto simp: createCoupon_def Let_def couponOfInput_def split: option.splits if_splits)
  let ?s = "(takeId s)\<lparr>st_coupons := st_coupons s @ [c]\<rparr>"
  have "good s ?s"
    unfolding good_def
  proof
    assume ok: "store_ok s"
    then have co: "counters_ok s" by (simp add: store_ok_def)
    have "payments (newId s) (st_purchases s) = 0"
      using co by (auto simp: payments_def counters_ok_def filter_empty_conv)
    then have "counters_ok ?s" using co row by (auto simp: counters_ok_def newId_def less_Suc_eq)
    moreover have "store_ok (takeId s) \<and> evolves s (takeId s)" using ok good_logs(4) unfolding good_def by blast
    ultimately show "store_ok ?s \<and> evolves s ?s" by (simp add: store_ok_def evolves_def newId_def)
  qed
  then show ?thesis unfolding s' by (rule good_after)
qed

lemma good_payouts:
  assumes "st_purchases s' = st_purchases s" "st_coupons s' = st_coupons s" "st_rewards s' = st_rewards s" "newId s \<le> newId s'"
    and "payout.rows_ok (st_payouts s) \<Longrightarrow> \<forall>p\<in>set (st_payouts s). pay_id p < newId s \<Longrightarrow>
      payout.rows_ok (st_payouts s') \<and> payout.later (st_payouts s) (st_payouts s') \<and> (\<forall>p\<in>set (st_payouts s'). pay_id p < newId s')"
  shows "good s s'"
proof -
  have "good s (s'\<lparr>st_payouts := st_payouts s\<rparr>)" by (rule good_same) (use assms in \<open>simp_all add: newId_def\<close>)
  moreover have "counters_ok s' = counters_ok (s'\<lparr>st_payouts := st_payouts s\<rparr>)" by (simp add: counters_ok_def newId_def)
  ultimately show ?thesis using assms(5) by (auto simp: good_def store_ok_def evolves_def newId_def)
qed

lemma good_createPayout: "good s (snd (createPayout input now s))"
proof -
  have tx: "good x y" if c: "createPayoutTx input amount now x = Inr (p, y)" for x y amount p
  proof -
    have p: "pay_id p = newId x" "pay_status p = PAY_PENDING" "pay_approvedById p = None"
      and "\<exists>u. y = notify u ''Payout requested'' (audit (Some (pin_requestedByUserId input)) ''PAYOUT_REQUESTED'' ''Payout'' (pay_id p)
          ((takeId x)\<lparr>st_payouts := st_payouts x @ [p]\<rparr>))"
      using c by (auto simp: createPayoutTx_def newPayoutRow_def Let_def split: option.splits)
    then obtain u where y: "y = notify u ''Payout requested'' (audit (Some (pin_requestedByUserId input)) ''PAYOUT_REQUESTED'' ''Payout'' (pay_id p)
          ((takeId x)\<lparr>st_payouts := st_payouts x @ [p]\<rparr>))" by blast
    have "payoutState p = UNDECIDED" using p by simp
    with p have "good x ((takeId x)\<lparr>st_payouts := st_payouts x @ [p]\<rparr>)"
      using payout.new_ok [of "st_payouts x" p]
      by (intro good_payouts) (simp_all add: newId_def less_Suc_eq, fastforce)
    then show ?thesis unfolding y by (intro good_after)
  qed
  obtain r d where e: "evaluateAccount (pin_accountId input) None now (st_db s) = (r, d)" by fastforce
  have s1: "good s (s\<lparr>st_db := d\<rparr>)" by (rule good_same) (use next_id_evaluate [OF e] in \<open>simp_all add: newId_def\<close>)
  show ?thesis
  proof (cases "createPayoutTx input (roundCurrency (pin_amount input)) now (s\<lparr>st_db := d\<rparr>)")
    case (Inl err)
    then show ?thesis using s1 e by (simp add: createPayout_def Let_def split: sum.split)
  next
    case (Inr r)
    then have "good s (snd r)" using tx [of _ "s\<lparr>st_db := d\<rparr>" "fst r" "snd r"] good_trans [OF s1] by simp
    then show ?thesis using s1 e Inr by (auto simp: createPayout_def Let_def split: sum.split prod.split)
  qed
qed

lemma next_id_payOut: "payOut b s = Inr s' \<Longrightarrow> next_id (st_db s') = next_id (st_db s)
    \<and> st_purchases s' = st_purchases s \<and> st_coupons s' = st_coupons s \<and> st_rewards s' = st_rewards s"
proof -
  assume run: "payOut b s = Inr s'"
  have f: "next_id (st_db (foldl (\<lambda>x l. recordEntry l x) y ls)) = next_id (st_db y) \<and> st_purchases (foldl (\<lambda>x l. recordEntry l x) y ls) = st_purchases y
      \<and> st_coupons (foldl (\<lambda>x l. recordEntry l x) y ls) = st_coupons y \<and> st_rewards (foldl (\<lambda>x l. recordEntry l x) y ls) = st_rewards y" for y ls
    by (induction ls arbitrary: y) simp_all
  show ?thesis
    using run f by (auto simp: payOut_def Let_def updateAccount_def split: option.splits sum.splits prod.splits dest!: issueCertificate_Inr(4))
qed

lemma good_payoutDecided:
  assumes d: "decidePayoutFrom before status actor reason ref now s = Inr (p, s')"
    and old: "payout.rows_ok old" "payout.later old (st_payouts s)" "before \<in> set old"
  shows "good s s'"
proof (rule good_payouts)
  have "st_purchases s' = st_purchases s \<and> st_coupons s' = st_coupons s \<and> st_rewards s' = st_rewards s \<and> newId s' = newId s"
    using d next_id_payOut
    by (auto simp: decidePayoutFrom_def claimPayout_def newId_def Let_def split_beta split: option.splits if_splits sum.splits)
  then show "st_purchases s' = st_purchases s" "st_coupons s' = st_coupons s" "st_rewards s' = st_rewards s" "newId s \<le> newId s'" by simp_all
  then have ids: "\<forall>p\<in>set (st_payouts s'). pay_id p < newId s'" if "\<forall>p\<in>set (st_payouts s). pay_id p < newId s"
    using that decidePayout_rows [OF d] by (auto simp: payoutData_def split: PayoutDecision.split)
  assume "payout.rows_ok (st_payouts s)" "\<forall>p\<in>set (st_payouts s). pay_id p < newId s"
  then show "payout.rows_ok (st_payouts s') \<and> payout.later (st_payouts s) (st_payouts s') \<and> (\<forall>p\<in>set (st_payouts s'). pay_id p < newId s')"
    using payout_decided [OF d _ old] ids by blast
qed

lemma good_rewardDecided:
  assumes d: "decideRewardFrom before action actor note now s = Inr (p, s')"
    and old: "reward.rows_ok old" "reward.later old (st_rewards s)" "before \<in> set old"
  shows "good s s'"
proof -
  have same: "st_purchases s' = st_purchases s \<and> st_coupons s' = st_coupons s \<and> st_payouts s' = st_payouts s \<and> newId s' = newId s"
    using d by (cases action)
      (auto simp: decideRewardFrom_def claimReward_def newId_def Let_def split_beta split: option.splits if_splits)
  have ids: "rwd_id ` set (st_rewards s') \<subseteq> rwd_id ` set (st_rewards s)"
    using decideReward_rows [OF d] by (auto simp: rewardData_def split: ReferralRewardAction.split intro: rev_image_eqI)
  have "good s (s\<lparr>st_rewards := st_rewards s'\<rparr>)" by (rule good_rewards) (use reward_decided [OF d _ old] ids in auto)
  moreover have "good (s\<lparr>st_rewards := st_rewards s'\<rparr>) s'" by (rule good_same) (use same in \<open>simp_all add: newId_def\<close>)
  ultimately show ?thesis by (rule good_trans)
qed

section \<open>Runs\<close>

text \<open>\<open>shop_step past s s'\<close>: a step on the store \<open>s\<close> whose first read was of the store \<open>past\<close>.\<close>

inductive shop_step :: "Store \<Rightarrow> Store \<Rightarrow> Store \<Rightarrow> bool" where
  checkout: "shop_step past s (snd (initiateFrom 2 (lookupKey key past) userId templateId key couponCode ref url now s))"
| activate: "p \<in> set (st_purchases past) \<Longrightarrow> activateFrom p account src now s = Inr (r, s') \<Longrightarrow> shop_step past s s'"
| failed: "shop_step past s (markPurchaseFailed i action s)"
| verified: "shop_step past s (snd (verifyAndCompleteChapaPurchase ref answer now s))"
| refunded: "refundPurchase i actor now s = Inr (p, s') \<Longrightarrow> shop_step past s s'"
| cancelled: "cancelPurchase i actor now s = Inr (p, s') \<Longrightarrow> shop_step past s s'"
| coupon_created: "createCoupon input actor s = Inr (c, s') \<Longrightarrow> shop_step past s s'"
| coupon_updated: "updateCoupon i patch actor s = Inr (c, s') \<Longrightarrow> shop_step past s s'"
| reward_decided: "before \<in> set (st_rewards past) \<Longrightarrow> decideRewardFrom before action actor note now s = Inr (r, s') \<Longrightarrow> shop_step past s s'"
| payout_requested: "shop_step past s (snd (createPayout request now s))"
| payout_decided: "before \<in> set (st_payouts past) \<Longrightarrow> decidePayoutFrom before status actor reason ref now s = Inr (p, s') \<Longrightarrow> shop_step past s s'"
| elsewhere: "st_purchases s' = st_purchases s \<Longrightarrow> st_coupons s' = st_coupons s \<Longrightarrow> st_payouts s' = st_payouts s \<Longrightarrow>
    st_rewards s' = st_rewards s \<Longrightarrow> newId s \<le> newId s' \<Longrightarrow> shop_step past s s'"

inductive shop_run :: "Store \<Rightarrow> Store set \<Rightarrow> Store \<Rightarrow> bool" for start :: Store where
  begin_run: "shop_run start {start} start"
| next_step: "shop_run start seen s \<Longrightarrow> past \<in> seen \<Longrightarrow> shop_step past s s' \<Longrightarrow> shop_run start (insert s' seen) s'"

lemma good_step:
  assumes "shop_step past s s'" "store_ok past" "evolves past s"
  shows "good s s'"
  using assms
proof cases
  case (activate p account src now r)
  then show ?thesis using assms(3) good_activateFrom unfolding evolves_def by blast
next
  case (reward_decided b act actor text1 now r)
  then show ?thesis using assms(2,3) good_rewardDecided unfolding evolves_def store_ok_def by blast
next
  case (payout_decided b status actor reason code1 now p)
  then show ?thesis using assms(2,3) good_payoutDecided unfolding evolves_def store_ok_def by blast
next
  case elsewhere
  then show ?thesis by (rule good_same)
qed (simp_all add: good_initiate good_failed good_verify good_refund good_cancel good_createCoupon good_updateCoupon good_createPayout)

lemma run_ok: "shop_run start seen s \<Longrightarrow> store_ok start \<Longrightarrow> store_ok s \<and> (\<forall>past\<in>seen. store_ok past \<and> evolves past s)"
proof (induction rule: shop_run.induct)
  case begin_run
  then show ?case by (simp add: evolves_refl)
next
  case (next_step seen s past s')
  then have "good s s'" using good_step by blast
  then have "store_ok s' \<and> evolves s s'" using next_step unfolding good_def by blast
  then show ?case using next_step evolves_refl evolves_trans by blast
qed

end
