(* ===== verification/CommerceSamples.thy ===== *)
theory CommerceSamples
  imports CommerceRun
begin

text \<open>
  Concrete commerce for the examples: a shop with one template and one referred trader (user 3, referred by 5),
  a checkout, its activation with the reward it creates, and the two decisions that pay the reward.
\<close>

definition openStore :: "db \<Rightarrow> User list \<Rightarrow> Store" where
  "openStore d users = \<lparr>st_db = d, st_users = users, st_purchases = [], st_coupons = [], st_rewards = [], st_payouts = [],
     st_kyc = [], st_commissionSetting = None\<rparr>"

lemma open_ok: "store_ok (openStore d users)"
  by (simp add: store_ok_def openStore_def counters_ok_def payout.rows_ok_def reward.rows_ok_def)

lemma run_store_ok: "shop_run (openStore d users) seen s \<Longrightarrow> store_ok s"
  using run_ok open_ok by blast

definition sampleShop :: Store where
  "sampleShop = openStore (emptyDb\<lparr>templates_t := [\<lparr>tmpl_rules = sampleRules, tmpl_status = TPL_ACTIVE\<rparr>]\<rparr>)
     [\<lparr>usr_id = 3, usr_name = ''Abel'', usr_email = None, usr_status = USER_ACTIVE, usr_referralCode = None, usr_referredById = Some 5\<rparr>]"

definition samplePurchase :: Purchase where
  "samplePurchase = \<lparr>pur_id = 100, pur_userId = 3, pur_templateId = Some 1, pur_status = PUR_PENDING, pur_amount = Fin 1000,
     pur_currency = ''ETB'', pur_providerTxRef = ''tx-1'', pur_idempotencyKey = None, pur_paymentDate = None, pur_refundedAt = None,
     pur_cancelledAt = None, pur_snapshot = Snapshot sampleRules None, pur_couponId = None, pur_listPrice = Some (Fin 1000),
     pur_discountAmount = Fin 0, pur_createdAt = 5\<rparr>"

definition sampleReward :: ReferralReward where
  "sampleReward = newReward 101 5 samplePurchase (Fin 10) (cents 10000)"

definition sampleVerification :: ChapaVerification where
  "sampleVerification = \<lparr>cvf_paymentStatus = CHAPA_SUCCESS, cvf_amount = Fin 1000, cvf_currency = ''ETB'', cvf_txRef = ''tx-1''\<rparr>"

text \<open>The checkout writes the purchase.\<close>

definition shopOrdered :: Store where
  "shopOrdered = snd (initiateFrom 2 (lookupKey None sampleShop) 3 1 None None ''tx-1'' (Some ''https://checkout'') 5 sampleShop)"

lemma sample_template: "templateRow 1 sampleShop = Some \<lparr>tmpl_rules = sampleRules, tmpl_status = TPL_ACTIVE\<rparr>"
  by (simp add: templateRow_def findUnique_def sampleShop_def openStore_def sampleRules_def)

lemma sample_rules: "tpl_phase sampleRules = PHASE_1" "tpl_currency sampleRules = ''ETB''" "tpl_price sampleRules = Fin 1000"
  "tpl_id sampleRules = 1" "tpl_nextPhaseId sampleRules = None" "tpl_startingBalance sampleRules = Fin 10000"
  "tpl_durationDays sampleRules = None" "tpl_dailyLossResetTime sampleRules = Some ''00:00 UTC''"
  by (simp_all add: sampleRules_def)

lemma sampleShop_tables: "st_purchases sampleShop = []" "newId sampleShop = 100" "st_rewards sampleShop = []" "st_coupons sampleShop = []"
  "st_payouts sampleShop = []" "st_commissionSetting sampleShop = None" "next_id (st_db sampleShop) = 100"
  "accounts_t (st_db sampleShop) = []" "ledger_t (st_db sampleShop) = []"
  by (simp_all add: sampleShop_def openStore_def newId_def emptyDb_def)

lemma chain_ends: "chainLoop n None seen s = []"
  by (cases n) simp_all

lemma start_sample: "startPurchase 3 1 None None ''tx-1'' (Some url) 5 sampleShop = (Inr (REDIRECT 100 url),
    audit (Some 3) ''CHAPA_PAYMENT_INITIATED'' ''Purchase'' 100 ((takeId sampleShop)\<lparr>st_purchases := [samplePurchase]\<rparr>))"
  by (simp add: startPurchase_def sample_template templateRefused_def sample_rules priceOf_def Let_def CHAPA_CURRENCY_def
      createPurchase_def newPurchaseRow_def sampleShop_tables buildPurchaseSnapshot_def toTemplateSnapshot_def samplePurchase_def chain_ends del: One_nat_def)

lemma ordered_eq: "shopOrdered = audit (Some 3) ''CHAPA_PAYMENT_INITIATED'' ''Purchase'' 100 ((takeId sampleShop)\<lparr>st_purchases := [samplePurchase]\<rparr>)"
  by (simp add: shopOrdered_def numeral_2_eq_2 lookupKey_def start_sample del: One_nat_def)

lemma ordered: "st_purchases shopOrdered = [samplePurchase]" "st_rewards shopOrdered = []" "st_coupons shopOrdered = []"
  "st_payouts shopOrdered = []" "st_users shopOrdered = st_users sampleShop" "st_commissionSetting shopOrdered = None"
  "next_id (st_db shopOrdered) = 101" "accounts_t (st_db shopOrdered) = []" "ledger_t (st_db shopOrdered) = []"
  by (simp_all add: ordered_eq sampleShop_tables audit_def takeId_def onDb_def)

lemma ordered_run: "shop_run sampleShop {shopOrdered, sampleShop} shopOrdered"
  by (rule next_step [OF begin_run _ checkout [of sampleShop sampleShop None 3 1 None "''tx-1''" "Some ''https://checkout''" 5, folded shopOrdered_def]]) simp

text \<open>The payment activates it and earns the referrer ten percent.\<close>

definition samplePaid :: Purchase where
  "samplePaid = samplePurchase\<lparr>pur_status := PUR_PAID, pur_paymentDate := Some 9\<rparr>"

definition shopClaimed :: Store where
  "shopClaimed = shopOrdered\<lparr>st_purchases := [samplePaid]\<rparr>"

definition shopRewarded :: Store where
  "shopRewarded = createReferralRewardForPurchase samplePurchase shopClaimed"

definition newSampleAccount :: TradingAccount where
  "newSampleAccount = fst (purchaseAccount samplePurchase 9 shopRewarded)"

definition shopPaid :: Store where
  "shopPaid = notify 3 ''Challenge activated'' (audit None ''CHAPA_PAYMENT_VERIFIED'' ''Purchase'' 100
     (recordEntry (purchaseEntry samplePurchase) (snd (purchaseAccount samplePurchase 9 shopRewarded))))"

lemma sample_amount: "roundCurrency ((Fin 1000 * Fin 10) / Fin 100) = cents 10000" "Fin 0 < cents 10000"
proof -
  have c: "cents 10000 = Fin 100" using cents_whole [of 100] by simp
  have "rnd 10000 = Fin 10000" "rnd 100 = Fin 100" using rnd_of_int [of 10000] rnd_of_int [of 100] by simp_all
  then show "roundCurrency ((Fin 1000 * Fin 10) / Fin 100) = cents 10000"
    using roundCurrency_cents [of 10000] by (simp add: c money_ok_def)
  show "Fin 0 < cents 10000" by (simp add: c)
qed

lemma claimed: "st_purchases shopClaimed = [samplePaid]" "st_rewards shopClaimed = []" "newId shopClaimed = 101"
  "st_commissionSetting shopClaimed = None" "accounts_t (st_db shopClaimed) = []" "ledger_t (st_db shopClaimed) = []"
  "userRow 3 shopClaimed = Some \<lparr>usr_id = 3, usr_name = ''Abel'', usr_email = None, usr_status = USER_ACTIVE, usr_referralCode = None, usr_referredById = Some 5\<rparr>"
  by (simp_all add: shopClaimed_def ordered newId_def userRow_def findUnique_def sampleShop_def openStore_def)

lemma rewarded: "st_rewards shopRewarded = [sampleReward]" "st_purchases shopRewarded = [samplePaid]"
  "accounts_t (st_db shopRewarded) = []" "ledger_t (st_db shopRewarded) = []" "newId shopRewarded = 102"
proof -
  have p: "pur_userId samplePurchase = 3" "pur_amount samplePurchase = Fin 1000" "pur_id samplePurchase = 100"
    by (simp_all add: samplePurchase_def)
  have "getReferralCommissionPercent shopClaimed = Fin 10"
    by (simp add: getReferralCommissionPercent_def claimed DEFAULT_REFERRAL_COMMISSION_PERCENT_def lit_def)
  then have eq: "shopRewarded = notify 5 ''Referral reward earned'' (audit None ''REFERRAL_REWARD_CREATED'' ''Purchase'' 100
      ((takeId shopClaimed)\<lparr>st_rewards := [sampleReward]\<rparr>))"
    using sample_amount by (simp add: shopRewarded_def createReferralRewardForPurchase_def p claimed Let_def createUnlessKnown_def sampleReward_def)
  show "st_rewards shopRewarded = [sampleReward]" "st_purchases shopRewarded = [samplePaid]"
    "accounts_t (st_db shopRewarded) = []" "ledger_t (st_db shopRewarded) = []" "newId shopRewarded = 102"
    using claimed by (simp_all add: eq newId_def logAudit_def notifyUser_def)
qed

lemma paid: "activatePurchase 100 SRC_CHAPA 9 shopOrdered = Inr ((samplePaid, Some newSampleAccount), shopPaid)"
  "activateFrom samplePurchase None SRC_CHAPA 9 shopOrdered = Inr ((samplePaid, Some newSampleAccount), shopPaid)"
proof -
  have row: "purchaseRow 100 shopOrdered = Some samplePurchase" "accountOfPurchase 100 shopOrdered = None"
    by (simp_all add: purchaseRow_def accountOfPurchase_def findUnique_def ordered samplePurchase_def)
  have c: "claimPurchase 100 PUR_PENDING (\<lambda>p. p\<lparr>pur_status := PUR_PAID, pur_paymentDate := Some 9\<rparr>) shopOrdered = (1, shopClaimed)"
    by (simp add: claimPurchase_def updateMany_def ordered shopClaimed_def samplePaid_def samplePurchase_def)
  have p: "pur_id samplePurchase = 100" "pur_status samplePurchase = PUR_PENDING" "pur_userId samplePurchase = 3" "pur_couponId samplePurchase = None"
    by (simp_all add: samplePurchase_def)
  have "st_purchases shopPaid = [samplePaid]"
    by (simp add: shopPaid_def purchaseAccount_def accountOfPurchase_def findUnique_def rewarded Let_def)
  then have r: "purchaseRow 100 shopPaid = Some samplePaid" by (simp add: purchaseRow_def findUnique_def samplePaid_def p)
  have n: "accountOfPurchase 100 shopRewarded = None" by (simp add: accountOfPurchase_def findUnique_def rewarded)
  show "activateFrom samplePurchase None SRC_CHAPA 9 shopOrdered = Inr ((samplePaid, Some newSampleAccount), shopPaid)"
    using r by (simp add: activateFrom_def p c activated_def recordCouponRedemption_def Let_def split_beta shopRewarded_def [symmetric]
        activationAudit_def shopPaid_def newSampleAccount_def)
  then show "activatePurchase 100 SRC_CHAPA 9 shopOrdered = Inr ((samplePaid, Some newSampleAccount), shopPaid)"
    by (simp add: activatePurchase_def row)
qed

lemma shopPaid_tables: "st_rewards shopPaid = [sampleReward]" "st_purchases shopPaid = [samplePaid]" "st_payouts shopPaid = []"
    "accounts_t (st_db shopPaid) = [newSampleAccount]" "ledger_t (st_db shopPaid) = [purchaseEntry samplePurchase]"
proof -
  have n: "accountOfPurchase (pur_id samplePurchase) shopRewarded = None" by (simp add: accountOfPurchase_def findUnique_def rewarded)
  have pay: "st_payouts shopRewarded = []"
    by (simp add: shopRewarded_def createReferralRewardForPurchase_def Let_def split_beta shopClaimed_def ordered split: option.split)
  have e: "snd (purchaseAccount samplePurchase 9 shopRewarded) = onDb (\<lambda>d. d\<lparr>accounts_t := accounts_t d @ [newSampleAccount]\<rparr>) (takeId shopRewarded)"
    by (simp add: newSampleAccount_def purchaseAccount_def n Let_def)
  show "st_rewards shopPaid = [sampleReward]" "st_purchases shopPaid = [samplePaid]" "st_payouts shopPaid = []"
    "accounts_t (st_db shopPaid) = [newSampleAccount]" "ledger_t (st_db shopPaid) = [purchaseEntry samplePurchase]"
    by (simp_all add: shopPaid_def e rewarded pay logAudit_def notifyUser_def recordEntry_def createUnlessKnown_def)
qed

text \<open>Two administrators approve and pay the reward.\<close>

definition shopApproved :: Store where
  "shopApproved = (case decideRewardFrom sampleReward APPROVE 11 None 20 shopPaid of Inr (_, s) \<Rightarrow> s | Inl _ \<Rightarrow> shopPaid)"

definition sampleApproved :: ReferralReward where
  "sampleApproved = rewardData APPROVE 11 20 sampleReward"

definition shopSettled :: Store where
  "shopSettled = (case decideRewardFrom sampleApproved PAY 12 None 30 shopApproved of Inr (_, s) \<Rightarrow> s | Inl _ \<Rightarrow> shopApproved)"

definition sampleSettled :: ReferralReward where
  "sampleSettled = rewardData PAY 12 30 sampleApproved"

lemma settled:
  "\<exists>r. decideRewardFrom sampleReward APPROVE 11 None 20 shopPaid = Inr (r, shopApproved)" "st_rewards shopApproved = [sampleApproved]"
  "\<exists>r. decideRewardFrom sampleApproved PAY 12 None 30 shopApproved = Inr (r, shopSettled)" "st_rewards shopSettled = [sampleSettled]"
proof -
  have p: "rwd_status sampleReward = RWD_PENDING" "rwd_referrerId sampleReward = 5" "rwd_id sampleReward = 101"
    "rwd_status sampleApproved = RWD_APPROVED" "rwd_referrerId sampleApproved = 5" "rwd_id sampleApproved = 101" "rwd_approvedById sampleApproved = Some 11"
    by (simp_all add: sampleReward_def sampleApproved_def rewardData_def newReward_def)
  have 1: "\<exists>r s. decideRewardFrom sampleReward APPROVE 11 None 20 shopPaid = Inr (r, s) \<and> st_rewards s = [sampleApproved]"
    by (simp add: decideRewardFrom_def rewardRefused_def p rewardFrom_def Let_def claimReward_def updateMany_def shopPaid_tables
        findUnique_def split_beta sampleApproved_def [symmetric])
  then show "\<exists>r. decideRewardFrom sampleReward APPROVE 11 None 20 shopPaid = Inr (r, shopApproved)" "st_rewards shopApproved = [sampleApproved]"
    by (auto simp: shopApproved_def)
  have q: "rwd_id sampleSettled = 101" using p by (simp add: sampleSettled_def rewardData_def)
  have 2: "\<exists>r s. decideRewardFrom sampleApproved PAY 12 None 30 shopApproved = Inr (r, s) \<and> st_rewards s = [sampleSettled]"
    using \<open>st_rewards shopApproved = [sampleApproved]\<close>
    by (simp add: decideRewardFrom_def rewardRefused_def p q rewardFrom_def Let_def claimReward_def updateMany_def
        findUnique_def split_beta sampleSettled_def [symmetric])
  then show "\<exists>r. decideRewardFrom sampleApproved PAY 12 None 30 shopApproved = Inr (r, shopSettled)" "st_rewards shopSettled = [sampleSettled]"
    by (auto simp: shopSettled_def)
qed

lemma settled_run: "\<exists>seen. shop_run sampleShop seen shopSettled" "\<exists>seen. shop_run sampleShop seen shopPaid"
proof -
  have 1: "shop_run sampleShop {shopPaid, shopOrdered, sampleShop} shopPaid"
    by (rule next_step [OF ordered_run _ activate [OF _ paid(2)], of shopOrdered]) (simp_all add: ordered)
  obtain r where "decideRewardFrom sampleReward APPROVE 11 None 20 shopPaid = Inr (r, shopApproved)" using settled(1) by blast
  then have 2: "shop_run sampleShop {shopApproved, shopPaid, shopOrdered, sampleShop} shopApproved"
    by (intro next_step [OF 1 _ reward_decided, of shopPaid sampleReward]) (simp_all add: shopPaid_tables)
  obtain r where "decideRewardFrom sampleApproved PAY 12 None 30 shopApproved = Inr (r, shopSettled)" using settled(3) by blast
  then have "shop_run sampleShop {shopSettled, shopApproved, shopPaid, shopOrdered, sampleShop} shopSettled"
    by (intro next_step [OF 2 _ reward_decided, of shopApproved sampleApproved]) (simp_all add: settled)
  then show "\<exists>seen. shop_run sampleShop seen shopSettled" "\<exists>seen. shop_run sampleShop seen shopPaid" using 1 by blast+
qed

section \<open>A coupon\<close>

definition sampleCouponInput :: CouponInput where
  "sampleCouponInput = \<lparr>cin_code = '' save-10 '', cin_description = [], cin_percentOff = Some (Fin 10), cin_amountOff = None,
     cin_maxRedemptions = Some 5, cin_perUserLimit = 1, cin_templateIds = [], cin_validFrom = None, cin_validUntil = None, cin_active = True\<rparr>"

definition sampleCoupon :: "number \<Rightarrow> Coupon" where
  "sampleCoupon percent = \<lparr>cpn_id = 200, cpn_code = ''SAVE'', cpn_description = [], cpn_percentOff = Some percent, cpn_amountOff = None,
     cpn_currency = ''ETB'', cpn_maxRedemptions = None, cpn_perUserLimit = 1, cpn_redeemedCount = 0, cpn_templateIds = [],
     cpn_validFrom = None, cpn_validUntil = None, cpn_active = True\<rparr>"

lemma sample_code: "normalizeCouponCode '' save-10 '' = Some ''SAVE-10''"
  by code_simp

lemma sample_coupon: "\<exists>c s. createCoupon sampleCouponInput 1 sampleShop = Inr (c, s) \<and> c \<in> set (st_coupons s)"
  by (simp add: createCoupon_def sampleCouponInput_def sample_code Let_def assertCouponInvariants_def couponByCode_def findUnique_def
      sampleShop_tables uniqueIds_def)

end
