(* ===== verification/CommerceProofs.thy ===== *)
theory CommerceProofs
  imports CommerceSamples
begin

text \<open>Properties of the commercial services: counters, people, discounts, codes, activation, refunds, payouts.\<close>

section \<open>Counters and people\<close>

text \<open>
  C16: Through any interleaving of checkouts, activations (also from stale reads), refunds, cancellations and
  coupon edits, the redemption counter of a coupon is exactly the number of purchases with that coupon that
  were ever paid. (A refund or cancellation keeps the payment date, so it does not give a redemption back.)
\<close>

theorem coupon_counter_exact:
  assumes "shop_run (openStore d users) seen s" "c \<in> set (st_coupons s)"
  shows "cpn_redeemedCount c = int (length (filter (\<lambda>p. pur_couponId p = Some (cpn_id c) \<and> pur_paymentDate p \<noteq> None) (st_purchases s)))"
  using run_ok [OF assms(1) open_ok] assms(2) unfolding store_ok_def counters_ok_def payments_def by blast

text \<open>
  C11: Money leaves only through several hands. Through any interleaving of requests and decisions, also when a
  decision was prepared on a stale row, every paid payout was approved and paid by two different people, neither
  of them its creator, and every paid referral reward by two different people, neither of them the referrer.
\<close>

theorem paid_through_several_hands:
  assumes "shop_run (openStore d users) seen s"
  shows "(\<forall>p\<in>set (st_payouts s). pay_status p = PAY_PAID \<longrightarrow>
      (\<exists>a b. pay_approvedById p = Some a \<and> pay_paidById p = Some b \<and> a \<noteq> b \<and> pay_createdById p \<noteq> Some a \<and> pay_createdById p \<noteq> Some b))
    \<and> (\<forall>r\<in>set (st_rewards s). rwd_status r = RWD_PAID \<longrightarrow>
      (\<exists>a b. rwd_approvedById r = Some a \<and> rwd_paidById r = Some b \<and> a \<noteq> b \<and> rwd_referrerId r \<noteq> a \<and> rwd_referrerId r \<noteq> b))"
proof -
  have ok: "payout.rows_ok (st_payouts s)" "reward.rows_ok (st_rewards s)"
    using run_ok [OF assms open_ok] unfolding store_ok_def by blast+
  show ?thesis
    using payout.settled_by_three [OF ok(1)] reward.settled_by_three [OF ok(2)] by simp
qed

section \<open>Discounts\<close>

text \<open>
  For a price of whole cents every coupon takes off a whole number of cents between nothing and the price,
  the amount to pay is exactly the rest, and a coupon of 100 percent makes the purchase free.
\<close>

theorem discount_exact_in_cents:
  assumes "0 < n" "n \<le> 2 ^ 46"
  shows "\<exists>m. 0 \<le> m \<and> m \<le> n \<and> computeDiscount (cents n) c = cents m \<and> roundCurrency (cents n - computeDiscount (cents n) c) = cents (n - m)
    \<and> (cpn_percentOff c = Some (lit 100) \<longrightarrow> m = n)"
proof -
  have n: "money_ok n" using assms by (simp add: money_ok_def)
  obtain v where v: "cents n = Fin v" "\<bar>v - of_int n / 100\<bar> \<le> 1 / 2000" by (rule cents_near [OF n])
  have vpos: "0 < v" using cents_less_iff [of 0 n] assms n v(1) by simp
  have "(of_int n :: rat) \<le> 70368744177664" using assms(2) by simp
  then have vmax: "v \<le> 1000000000000" using v(2) by linarith
  have done1: ?thesis if "computeDiscount (cents n) c = cents m" "0 \<le> m" "m \<le> n" "cpn_percentOff c = Some (lit 100) \<longrightarrow> m = n" for m
  proof -
    have "money_ok m" "money_ok (n - m)" using that assms n by (auto simp: money_ok_def)
    then show ?thesis using that roundCurrency_diff [of n m] n by (intro exI [of _ m]) simp
  qed
  define raw where "raw = (case cpn_percentOff c of Some p \<Rightarrow> (cents n * p) / lit 100
      | None \<Rightarrow> (case cpn_amountOff c of Some a \<Rightarrow> a | None \<Rightarrow> lit 0))"
  have d: "computeDiscount (cents n) c = (if \<not> isFinite raw \<or> raw \<le> lit 0 then lit 0 else roundCurrency (Math_min raw (cents n)))"
  proof -
    have "isFinite (cents n)" "\<not> cents n \<le> lit 0" using vpos by (simp_all add: v(1))
    then show ?thesis unfolding computeDiscount_def Let_def raw_def [symmetric] by simp
  qed
  have whole: "\<exists>x. raw = Fin x \<and> 0 < x \<and> roundCurrency (Math_min raw (cents n)) = cents n" if "cpn_percentOff c = Some (lit 100)"
  proof -
    have b: "\<bar>v * 100\<bar> \<le> 100000000000000" using vpos vmax by (simp add: abs_of_pos)
    then have "\<bar>v * 100\<bar> \<le> 2 ^ 1000" by (elim order_trans) simp
    then obtain w where w: "rnd (v * 100) = Fin w" "w = rnd_rat (v * 100)" by (simp add: rnd_small)
    have "\<bar>v * 100\<bar> / 2 ^ 53 \<le> 100000000000000 / 2 ^ 53" by (intro divide_right_mono b) simp
    also have "\<dots> \<le> (1 / 64 :: rat)" by simp
    finally have e: "\<bar>w - v * 100\<bar> \<le> 1 / 64 + 1 / 100000" using rnd_rat_error [of "v * 100"] tiny w(2) by linarith
    then have "w \<le> 200000000000000" "- w \<le> 200000000000000" using vpos vmax by linarith+
    then have "\<bar>w / 100\<bar> \<le> 2 ^ 42" by (simp add: abs_le_iff)
    then obtain x where x: "rnd (w / 100) = Fin x" "\<bar>x - w / 100\<bar> \<le> 1 / 2000" by (rule rnd_money)
    have near: "\<bar>x - v\<bar> \<le> 1 / 1000" using e x(2) by linarith
    have "(1 :: rat) \<le> of_int n" using assms(1) by simp
    then have "1 / 200 \<le> v" using v(2) by linarith
    then have "0 < x" using near by linarith
    moreover have raw: "raw = Fin x" using that w(1) x(1) by (simp add: raw_def v(1) lit_100)
    moreover have "\<bar>x - of_int n / 100\<bar> \<le> 1 / 400" "\<bar>v - of_int n / 100\<bar> \<le> 1 / 400" using near v(2) by linarith+
    then have "\<bar>min x v - of_int n / 100\<bar> \<le> 1 / 400" by (simp add: min_def)
    then have "roundCurrency (Fin (min x v)) = cents n" using n by (intro roundCurrency_near) (simp_all add: money_ok_def)
    ultimately show ?thesis by (simp add: v(1))
  qed
  show ?thesis
  proof (cases "\<not> isFinite raw \<or> raw \<le> lit 0")
    case True
    then have "cpn_percentOff c \<noteq> Some (lit 100)" using whole by auto
    then show ?thesis using done1 [of 0] d True assms by simp
  next
    case False
    then obtain x where x: "raw = Fin x" "0 < x" by (cases raw) auto
    have "0 < min x v" "min x v \<le> v" using x vpos by simp_all
    then have "\<bar>min x v\<bar> \<le> 2 ^ 40" using vmax by simp
    then obtain m where m: "money_ok m" "roundCurrency (Fin (min x v)) = cents m" by (rule roundCurrency_is_cents)
    have "cents 0 \<le> cents m" using roundCurrency_sign [of "Fin (min x v)"] \<open>0 < min x v\<close> m(2) by simp
    moreover have "cents m \<le> cents n"
      using roundCurrency_mono [of "Fin (min x v)" "cents n"] roundCurrency_cents [OF n] v(1) m(2) by simp
    ultimately have b: "0 \<le> m" "m \<le> n" using cents_le_iff m(1) n money_ok_0 by blast+
    have "computeDiscount (cents n) c = cents m" using d False x m(2) v(1) by simp
    moreover have "m = n" if "cpn_percentOff c = Some (lit 100)" using whole [OF that] m x v(1) cents_inj [OF m(1) n] by simp
    ultimately show ?thesis using done1 b by blast
  qed
qed

section \<open>Referral codes\<close>

lemma alphabet: "length REFERRAL_CODE_ALPHABET = 31" "limit = 248" "distinct REFERRAL_CODE_ALPHABET"
  by (simp_all add: REFERRAL_CODE_ALPHABET_def limit_def)

lemma alphabet_list: "list_all referralChar REFERRAL_CODE_ALPHABET"
  by code_simp

lemma alphabet_chars: "c \<in> set REFERRAL_CODE_ALPHABET \<Longrightarrow> referralChar c"
  using alphabet_list by (simp add: list_all_iff)

lemma charOf_alphabet: "charOf b \<in> set REFERRAL_CODE_ALPHABET"
  by (simp add: charOf_def alphabet)

lemma takeBytes_ok:
  assumes "length out < 8" "set out \<subseteq> set REFERRAL_CODE_ALPHABET"
  shows "length out \<le> length (takeBytes bs out) \<and> length (takeBytes bs out) \<le> 8 \<and> set (takeBytes bs out) \<subseteq> set REFERRAL_CODE_ALPHABET
    \<and> ((\<exists>b\<in>set bs. b < limit) \<longrightarrow> length out < length (takeBytes bs out))"
  using assms
proof (induction bs arbitrary: out)
  case (Cons b bs)
  show ?case
  proof (cases "b < limit \<and> length out + 1 < 8")
    case True
    then show ?thesis using Cons.IH [of "out @ [charOf b]"] Cons.prems charOf_alphabet [of b]
      by (auto simp: REFERRAL_CODE_LENGTH_def Let_def)
  next
    case False
    then show ?thesis using Cons.IH [of out] Cons.prems charOf_alphabet [of b]
      by (auto simp: REFERRAL_CODE_LENGTH_def Let_def)
  qed
qed simp

lemma generateLoop_returns:
  assumes "\<forall>k. \<exists>b\<in>set (random k). b < limit" "length out \<le> 8" "set out \<subseteq> set REFERRAL_CODE_ALPHABET"
  shows "\<exists>c. generateLoop random k out = Some c \<and> length c = 8 \<and> set c \<subseteq> set REFERRAL_CODE_ALPHABET"
  using assms(2,3)
proof (induction "8 - length out" arbitrary: k out rule: less_induct)
  case less
  show ?case
  proof (cases "length out < 8")
    case True
    let ?o = "takeBytes (random k) out"
    have "length out < length ?o" "length ?o \<le> 8" "set ?o \<subseteq> set REFERRAL_CODE_ALPHABET"
      using takeBytes_ok [OF True less.prems(2), of "random k"] assms(1) by auto
    then show ?thesis using less.hyps [of ?o "k + 1"] True by (simp add: generateLoop.simps [of _ k] REFERRAL_CODE_LENGTH_def)
  next
    case False
    then show ?thesis using less.prems by (simp add: generateLoop.simps [of _ k] REFERRAL_CODE_LENGTH_def)
  qed
qed

lemma referral_range: "referralChar c \<Longrightarrow> 50 \<le> code c \<and> code c \<le> 90"
  unfolding referralChar_def by (elim disjE) (simp_all add: code_def)

lemma referral_clean: "referralChar c \<Longrightarrow> \<not> is_space c \<and> upper_char c = c"
  using referral_range [of c] by (simp add: is_space_def upper_char_def)

lemma referral_fair:
  assumes "c \<in> set REFERRAL_CODE_ALPHABET"
  shows "card {b. b < limit \<and> charOf b = c} = 8"
proof -
  obtain i where i: "i < 31" "REFERRAL_CODE_ALPHABET ! i = c" using assms by (auto simp: in_set_conv_nth alphabet)
  have "charOf b = c \<longleftrightarrow> b mod 31 = i" for b
    using i nth_eq_iff_index_eq [OF alphabet(3), of "b mod 31" i] alphabet(1) unfolding charOf_def by simp
  then have "{b. b < limit \<and> charOf b = c} = {b. b < 248 \<and> b mod 31 = i}" by (simp add: alphabet(2))
  also have "\<dots> = (\<lambda>k. 31 * k + i) ` {0..<8}"
  proof (intro set_eqI iffI)
    fix b assume "b \<in> {b. b < 248 \<and> b mod 31 = i}"
    then have b: "b mod 31 = i" "b < 8 * 31" by simp_all
    have "b = 31 * (b div 31) + i" using mult_div_mod_eq [of 31 b] b(1) by simp
    moreover have "b div 31 < 8" using b(2) by (rule less_mult_imp_div_less)
    ultimately show "b \<in> (\<lambda>k. 31 * k + i) ` {0..<8}" by auto
  qed (use i(1) in auto)
  finally have "{b. b < limit \<and> charOf b = c} = (\<lambda>k. 31 * k + i) ` {0..<8}" .
  moreover have "inj_on (\<lambda>k. 31 * k + i) {0..<8}" by (auto simp: inj_on_def)
  ultimately show ?thesis by (simp add: card_image)
qed

text \<open>
  C40: Generating a referral code ends as soon as the random source keeps delivering an acceptable byte now and
  then (here: one in each batch), the code has eight characters and normalises to itself, and among the
  acceptable bytes every character of the alphabet has the same share.
\<close>

theorem referral_code_generated:
  assumes "\<forall>k. \<exists>b\<in>set (random k). b < limit"
  shows "(\<exists>c. generateReferralCode random = Some c \<and> length c = 8 \<and> normalizeReferralCode c = Some c)
    \<and> (\<forall>c\<in>set REFERRAL_CODE_ALPHABET. card {b. b < limit \<and> charOf b = c} = 8)"
proof -
  obtain c where c: "generateReferralCode random = Some c" "length c = 8" "set c \<subseteq> set REFERRAL_CODE_ALPHABET"
    using generateLoop_returns [OF assms, of "[]" 0] by (auto simp: generateReferralCode_def)
  have r: "\<forall>x\<in>set c. referralChar x" using c(3) alphabet_chars by blast
  then have "trim c = c" using c(2) referral_clean by (intro trim_id) (metis hd_in_set last_in_set)
  moreover have "toUpperCase c = c" using r referral_clean by (simp add: toUpperCase_def map_idI)
  ultimately have "normalizeReferralCode c = Some c"
    using c(2) r by (simp add: normalizeReferralCode_def REFERRAL_CODE_PATTERN_def list_all_iff)
  then show ?thesis using c referral_fair by blast
qed

section \<open>Examples\<close>

theorem coupon_counter_exact_witness:
  "\<exists>c s. createCoupon sampleCouponInput 1 sampleShop = Inr (c, s) \<and> c \<in> set (st_coupons s)
    \<and> cpn_redeemedCount c = int (length (filter (\<lambda>p. pur_couponId p = Some (cpn_id c) \<and> pur_paymentDate p \<noteq> None) (st_purchases s)))"
proof -
  obtain c s where e: "createCoupon sampleCouponInput 1 sampleShop = Inr (c, s)" "c \<in> set (st_coupons s)" using sample_coupon by blast
  have "shop_run sampleShop {s, sampleShop} s" by (rule next_step [OF begin_run _ coupon_created [OF e(1)]]) simp
  then show ?thesis using coupon_counter_exact [OF _ e(2)] e unfolding sampleShop_def by blast
qed

theorem paid_through_several_hands_witness:
  "\<exists>seen r. shop_run sampleShop seen shopSettled \<and> r \<in> set (st_rewards shopSettled) \<and> rwd_status r = RWD_PAID
    \<and> (\<exists>a b. rwd_approvedById r = Some a \<and> rwd_paidById r = Some b \<and> a \<noteq> b \<and> rwd_referrerId r \<noteq> a \<and> rwd_referrerId r \<noteq> b)"
proof -
  obtain seen where run: "shop_run sampleShop seen shopSettled" using settled_run by blast
  have r: "sampleSettled \<in> set (st_rewards shopSettled)" "rwd_status sampleSettled = RWD_PAID"
    by (simp_all add: settled sampleSettled_def rewardData_def)
  then show ?thesis using paid_through_several_hands [OF run [unfolded sampleShop_def]] run by blast
qed

theorem discount_exact_in_cents_witness:
  "\<exists>m. 0 \<le> m \<and> m \<le> 1999 \<and> computeDiscount (cents 1999) (sampleCoupon (Fin 15)) = cents m
    \<and> roundCurrency (cents 1999 - computeDiscount (cents 1999) (sampleCoupon (Fin 15))) = cents (1999 - m)"
  using discount_exact_in_cents [of 1999 "sampleCoupon (Fin 15)"] by auto

theorem referral_code_generated_witness:
  "\<exists>c. generateReferralCode (\<lambda>_. [250, 0, 31, 7]) = Some c \<and> length c = 8 \<and> normalizeReferralCode c = Some c"
  using referral_code_generated [of "\<lambda>_. [250, 0, 31, 7]"] by (simp add: alphabet)

end
