(* ===== verification/PurchaseProofs.thy ===== *)
theory PurchaseProofs
  imports CommerceSamples
begin

text \<open>
  Properties of single commercial transactions: an activation happens once, a payment is verified before it
  activates, a refund takes back what the purchase gave, and a payout consumes profit exactly.
\<close>

section \<open>Activation\<close>

lemma find_unique_row:
  assumes "distinct (map key rows)" "r \<in> set rows" "key r = k"
  shows "findUnique (\<lambda>x. key x = k) rows = Some r"
  using assms
proof (induction rows)
  case (Cons x rows)
  show ?case
  proof (cases "key x = k")
    case True
    then have "r = x" using Cons.prems by (auto simp: image_iff)
    then show ?thesis using True by (simp add: findUnique_def)
  next
    case False
    then show ?thesis using Cons by (auto simp: findUnique_def)
  qed
qed simp

text \<open>The tables after a claimed activation.\<close>

lemma activated_result:
  assumes "activated p acct src now s1 = Inr ((q, a), s')" "distinct (map cpn_id (st_coupons s1))"
  shows "st_purchases s' = st_purchases s1 \<and> purchaseRow (pur_id p) s' = Some q
    \<and> (acct = None \<longrightarrow> a = accountOfPurchase (pur_id p) s' \<and> a \<noteq> None)
    \<and> (acct = Some x \<longrightarrow> a = Some x \<and> accounts_t (st_db s') = accounts_t (st_db s1))"
proof -
  obtain s2 where s2: "recordCouponRedemption p s1 = Inr s2"
    using assms(1) by (cases "recordCouponRedemption p s1") (simp_all add: activated_def)
  define s3 where "s3 = (case src of SRC_ADMIN_TEST _ \<Rightarrow> s2 | _ \<Rightarrow> createReferralRewardForPurchase p s2)"
  define acc where "acc = (case acct of Some a \<Rightarrow> (a, s3) | None \<Rightarrow> purchaseAccount p now s3)"
  define s7 where "s7 = notify (pur_userId p) ''Challenge activated'' (audit (fst (activationAudit src)) (snd (activationAudit src)) ''Purchase'' (pur_id p)
        (recordEntry (purchaseEntry p) (snd acc)))"
  have e: "activated p acct src now s1 = (case purchaseRow (pur_id p) s7 of
        None \<Rightarrow> Inl (ShopError NotFoundError) | Some u \<Rightarrow> Inr ((u, Some (fst acc)), s7))"
    unfolding activated_def s2 s7_def acc_def s3_def by (simp only: sum.case Let_def split_beta)
  then have s': "s' = s7" "purchaseRow (pur_id p) s7 = Some q" "a = Some (fst acc)"
    using assms(1) by (cases "purchaseRow (pur_id p) s7"; simp)+
  have reward: "st_purchases s3 = st_purchases s2" "accounts_t (st_db s3) = accounts_t (st_db s2)"
    by (auto simp: s3_def createReferralRewardForPurchase_def Let_def split_beta split: ActivationSource.split option.split)
  have red: "st_purchases s2 = st_purchases s1" using redemption_rows [OF s2 assms(2)] by simp
  have reda: "accounts_t (st_db s2) = accounts_t (st_db s1)"
    using s2 by (auto simp: recordCouponRedemption_def redeem_def countRedemption_def Let_def split_beta split: option.splits if_splits)
  have new: "accountOfPurchase (pur_id p) (snd (purchaseAccount p now s3)) = Some (fst (purchaseAccount p now s3))"
    by (auto simp: purchaseAccount_def accountOfPurchase_def findUnique_def find_append newAccountRow_def newAccountColumns_def Let_def
        split: option.split)
  have "accounts_t (st_db s7) = accounts_t (st_db (snd acc))" by (simp add: s7_def)
  then have "accountOfPurchase (pur_id p) s7 = accountOfPurchase (pur_id p) (snd acc)" by (simp add: accountOfPurchase_def)
  then have "acct = None \<longrightarrow> accountOfPurchase (pur_id p) s7 = Some (fst acc)" using new by (simp add: acc_def)
  moreover have "st_purchases (snd acc) = st_purchases s3" by (simp add: acc_def split: option.split)
  moreover have "acct = Some x \<longrightarrow> fst acc = x \<and> accounts_t (st_db s7) = accounts_t (st_db s1)"
    using reward(2) reda by (simp add: acc_def s7_def)
  ultimately show ?thesis using s' reward(1) red by (simp add: s7_def)
qed

text \<open>
  C12: A purchase is activated once. After an activation, every later one of the same purchase, whatever its
  source, and also one that was prepared while the purchase still looked unpaid, changes nothing and returns
  the paid purchase with the same account.
\<close>

theorem activation_happens_once:
  assumes "activatePurchase i src now s = Inr ((p, a), s')" "store_ok s"
    and "pur_id q = i" "unpaid (pur_status q)"
  shows "pur_status p = PUR_PAID \<and> a = accountOfPurchase i s' \<and> activatePurchase i src' now' s' = Inr ((p, a), s')
    \<and> activateFrom q acct' src' now' s' = Inr ((p, a), s')"
proof -
  obtain row where row: "purchaseRow i s = Some row" "activateFrom row (accountOfPurchase i s) src now s = Inr ((p, a), s')"
    using assms(1) by (auto simp: activatePurchase_def split: option.splits)
  have ri: "row \<in> set (st_purchases s)" "pur_id row = i" using row(1) by (auto simp: purchaseRow_def dest: findUnique_Some)
  let ?pay = "\<lambda>p. p\<lparr>pur_status := PUR_PAID, pur_paymentDate := Some now\<rparr>"
  have key: "purchaseRow i s' = Some p \<and> pur_status p = PUR_PAID \<and> a = accountOfPurchase i s' \<and> distinct (map pur_id (st_purchases s'))"
  proof (cases "pur_status row = PUR_PAID")
    case True
    then show ?thesis using row assms(2) by (auto simp: activateFrom_def store_ok_def counters_ok_def)
  next
    case False
    have live: "unpaid (pur_status row)"
      using row(2) False by (cases "pur_status row") (auto simp: activateFrom_def)
    define s1 where "s1 = snd (claimPurchase i (pur_status row) ?pay s)"
    have n: "fst (claimPurchase i (pur_status row) ?pay s) \<noteq> 0"
      using ri by (auto simp: claimPurchase_def updateMany_def filter_empty_conv)
    have run: "activated row (accountOfPurchase i s) src now s1 = Inr ((p, a), s')"
      using row(2) live n ri(2) by (cases "pur_status row") (simp_all add: activateFrom_def s1_def split_beta)
    have "map pur_id (st_purchases s1) = map pur_id (st_purchases s)" by (simp add: s1_def claimPurchase_def updateMany_def)
    then have d: "distinct (map cpn_id (st_coupons s1))" "distinct (map pur_id (st_purchases s1))" "accounts_t (st_db s1) = accounts_t (st_db s)"
      using assms(2) by (simp_all add: s1_def claimPurchase_def split_beta store_ok_def counters_ok_def)
    have "?pay row \<in> set (st_purchases s1)" "pur_id (?pay row) = i"
      using ri by (auto simp: s1_def claimPurchase_def updateMany_def image_iff)
    from find_unique_row [OF d(2) this] have "purchaseRow i s1 = Some (?pay row)" by (simp add: purchaseRow_def)
    moreover note res = activated_result [OF run d(1), of "the (accountOfPurchase i s)"]
    moreover have "purchaseRow i s' = purchaseRow i s1" using res by (simp add: purchaseRow_def)
    ultimately have "p = ?pay row" using ri(2) by (metis option.inject)
    moreover have "a = accountOfPurchase i s'"
    proof (cases "accountOfPurchase i s")
      case None
      then show ?thesis using res ri(2) by simp
    next
      case (Some x)
      then show ?thesis using res d(3) by (simp add: accountOfPurchase_def)
    qed
    ultimately show ?thesis using res d(2) ri(2) by simp
  qed
  have "fst (claimPurchase i (pur_status q) f s') = 0" for f
  proof -
    have "pur_id r = i \<longrightarrow> r = p" if "r \<in> set (st_purchases s')" for r
      using that key find_unique_row [of pur_id "st_purchases s'" r i] by (auto simp: purchaseRow_def)
    then have "\<forall>r\<in>set (st_purchases s'). \<not> (pur_id r = i \<and> pur_status r = pur_status q)" using key assms(4) by auto
    then show ?thesis by (simp add: claimPurchase_def split_beta updateMany_count_0)
  qed
  then show ?thesis
    using key assms(3,4) by (cases "pur_status q") (auto simp: activatePurchase_def activateFrom_def split_beta)
qed

section \<open>Verification\<close>

lemma activate_rows:
  assumes "activatePurchase i src now s = Inr (r, s')" "store_ok s" "x \<in> set (st_purchases s')" "pur_id x \<noteq> i"
  shows "x \<in> set (st_purchases s)"
proof -
  obtain row where row: "purchaseRow i s = Some row" "activateFrom row (accountOfPurchase i s) src now s = Inr (r, s')"
    using assms(1) by (auto simp: activatePurchase_def split: option.splits)
  have ri: "pur_id row = i" using row(1) by (auto simp: purchaseRow_def dest: findUnique_Some)
  let ?c = "claimPurchase i (pur_status row) (\<lambda>p. p\<lparr>pur_status := PUR_PAID, pur_paymentDate := Some now\<rparr>) s"
  show ?thesis
  proof (cases "s' = s")
    case False
    then have run: "activated row (accountOfPurchase i s) src now (snd ?c) = Inr (r, s')"
      using row(2) ri by (auto simp: activateFrom_def split_beta split: if_splits option.splits)
    have d: "distinct (map cpn_id (st_coupons (snd ?c)))"
      using assms(2) by (simp add: claimPurchase_def split_beta store_ok_def counters_ok_def)
    obtain q a where r: "r = (q, a)" by fastforce
    have "st_purchases s' = st_purchases (snd ?c)" using activated_result [OF run [unfolded r] d, of undefined] by simp
    then show ?thesis using assms(3,4) by (auto simp: claimPurchase_def updateMany_def split: if_splits)
  qed (use assms in simp)
qed

lemma failed_rows:
  assumes "x \<in> set (st_purchases (markPurchaseFailed i action s))" "pur_status x = PUR_PAID"
  shows "x \<in> set (st_purchases s)"
  using assms by (auto simp: markPurchaseFailed_def claimPurchase_def updateMany_def split: option.splits if_splits)

text \<open>
  C13: The verification of a Chapa payment makes a purchase paid only if Chapa itself answered, for exactly the
  transaction reference of that purchase, with a success whose currency and amount, to the cent, are the ones
  charged; a failed request, a pending or unknown status and any mismatch leave every purchase unpaid.
\<close>

theorem only_verified_payments_activate:
  assumes "verifyAndCompleteChapaPurchase txRef answer now s = (r, s')" "store_ok s"
    and "p \<in> set (st_purchases s)" "pur_status p \<noteq> PUR_PAID" "p' \<in> set (st_purchases s')" "pur_id p' = pur_id p" "pur_status p' = PUR_PAID"
  shows "\<exists>v. answer = Some v \<and> cvf_paymentStatus v = CHAPA_SUCCESS \<and> pur_providerTxRef p = txRef \<and> cvf_txRef v = txRef
    \<and> cvf_currency v = pur_currency p \<and> js_eq (roundCurrency (cvf_amount v)) (roundCurrency (pur_amount p))"
proof -
  have d: "distinct (map pur_id (st_purchases s))" using assms(2) by (simp add: store_ok_def counters_ok_def)
  have new: "p' \<notin> set (st_purchases s)" using assms(3-7) d by (metis distinct_map inj_onD)
  obtain q where q: "findUnique (\<lambda>p. pur_providerTxRef p = txRef) (st_purchases s) = Some q"
    using assms(1,5) new by (cases "findUnique (\<lambda>p. pur_providerTxRef p = txRef) (st_purchases s)")
      (auto simp: verifyAndCompleteChapaPurchase_def)
  have qs: "q \<in> set (st_purchases s)" "pur_providerTxRef q = txRef" using findUnique_Some [OF q] by auto
  have "s' \<noteq> s" using assms(5) new by blast
  moreover have "s' \<noteq> markPurchaseFailed (pur_id q) ''CHAPA_PAYMENT_FAILED'' s" using assms(5,7) new failed_rows by blast
  ultimately obtain v where v: "answer = Some v" "cvf_paymentStatus v = CHAPA_SUCCESS" "verificationMatches v q"
    and act: "\<exists>r. activatePurchase (pur_id q) SRC_CHAPA now s = Inr (r, s')"
    using assms(1) q by (auto simp: verifyAndCompleteChapaPurchase_def Let_def split: if_splits option.splits sum.splits)
  have "pur_id p' = pur_id q" using act activate_rows [OF _ assms(2,5)] new by blast
  then have "p = q" using assms(3,6) qs(1) d by (metis distinct_map inj_onD)
  then show ?thesis using v qs(2) by (auto simp: verificationMatches_def)
qed

section \<open>Refunds\<close>

definition live :: "AccountStatus \<Rightarrow> bool" where
  "live st \<longleftrightarrow> st = ACTIVE \<or> st = FUNDED"

lemma suspend_row:
  "accountRow k (st_db (suspendAccount actor reason now x s)) = map_option (\<lambda>row. if k = acc_id x \<and> live (acc_status x)
     then row\<lparr>acc_status := SUSPENDED, acc_statusChangedAt := now, acc_failureReason := Some (ADMIN_REASON reason), acc_marginUsed := lit 0\<rparr>
     else row) (accountRow k (st_db s))"
proof (cases "live (acc_status x)")
  case True
  have "accountRow k (logAudit a b c i d) = accountRow k d" for a b c i d by (rule accountRow_cong) simp
  moreover have "accountRow k (d\<lparr>positions_t := ps\<rparr>) = accountRow k d" for d ps by (rule accountRow_cong) simp
  ultimately show ?thesis using True by (cases "accountRow k (st_db s)") (auto simp: suspendAccount_def live_def accountRow_update)
next
  case False
  then show ?thesis by (cases "accountRow k (st_db s)") (simp_all add: suspendAccount_def live_def)
qed

lemma suspend_chain:
  assumes "accountRow k (st_db s) = Some row"
  shows "\<exists>row'. accountRow k (st_db (foldl (\<lambda>s x. suspendAccount actor reason now x s) s xs)) = Some row'
    \<and> (acc_status row' = acc_status row \<or> acc_status row' = SUSPENDED)
    \<and> ((\<exists>x\<in>set xs. acc_id x = k \<and> live (acc_status x)) \<longrightarrow> acc_status row' = SUSPENDED)"
  using assms
proof (induction xs arbitrary: s row)
  case (Cons x xs)
  let ?s = "suspendAccount actor reason now x s"
  obtain row1 where row1: "accountRow k (st_db ?s) = Some row1"
    "row1 = (if k = acc_id x \<and> live (acc_status x)
     then row\<lparr>acc_status := SUSPENDED, acc_statusChangedAt := now, acc_failureReason := Some (ADMIN_REASON reason), acc_marginUsed := lit 0\<rparr>
     else row)" using Cons.prems by (simp add: suspend_row)
  obtain row' where "accountRow k (st_db (foldl (\<lambda>s x. suspendAccount actor reason now x s) ?s xs)) = Some row'"
    "acc_status row' = acc_status row1 \<or> acc_status row' = SUSPENDED"
    "(\<exists>x\<in>set xs. acc_id x = k \<and> live (acc_status x)) \<longrightarrow> acc_status row' = SUSPENDED"
    using Cons.IH [OF row1(1)] by blast
  then show ?case using row1(2) by (intro exI [of _ row']) (auto split: if_splits)
qed simp

lemma accountChain_rows: "a \<in> set (accountChain n c s) \<Longrightarrow> a \<in> set (accounts_t (st_db s))"
proof (induction n arbitrary: c)
  case (Suc n)
  then obtain x where x: "findUnique (\<lambda>a. acc_previousAccountId a = Some c) (accounts_t (st_db s)) = Some x"
    "a = x \<or> a \<in> set (accountChain n (acc_id x) s)"
    by (cases "findUnique (\<lambda>a. acc_previousAccountId a = Some c) (accounts_t (st_db s))") auto
  then show ?case using Suc.IH findUnique_Some [OF x(1)] by blast
qed simp

lemma accountRow_member:
  assumes "distinct (map acc_id (accounts_t d))" "a \<in> set (accounts_t d)"
  shows "accountRow (acc_id a) d = Some a"
  using find_unique_row [OF assms, of "acc_id a"] by (simp add: accountRow_def)

text \<open>
  C14: A refund is final and complete: the purchase is refunded for good (it can be neither refunded nor
  activated again), its account and the accounts that progressed from it no longer trade, its referral reward is
  void unless it had been paid, and the ledger holds the refund of exactly the amount paid.
\<close>

theorem refund_takes_everything_back:
  assumes "refundPurchase i actor now s = Inr (p, s')" "store_ok s" "distinct (map acc_id (accounts_t (st_db s)))"
    and "\<forall>l\<in>set (ledger_t (st_db s)). ledgerKey l \<noteq> (LE_REFUND, ''Purchase'', i)"
  shows "(\<forall>a t src. (\<exists>e. refundPurchase i a t s' = Inl e) \<and> (\<exists>e. activatePurchase i src t s' = Inl e))
    \<and> (\<forall>x k. accountOfPurchase i s = Some x \<and> k \<in> acc_id ` set (x # accountChain 4 (acc_id x) s) \<longrightarrow>
        (\<exists>row. accountRow k (st_db s') = Some row \<and> acc_status row \<noteq> ACTIVE \<and> acc_status row \<noteq> FUNDED))
    \<and> (\<forall>r. rewardOfPurchase i s' = Some r \<longrightarrow> rwd_status r = RWD_VOID \<or> rwd_status r = RWD_PAID)
    \<and> ledger_t (st_db s') = ledger_t (st_db s) @ [refundEntry (p\<lparr>pur_status := PUR_PAID\<rparr>)]"
proof -
  let ?ref = "\<lambda>p. p\<lparr>pur_status := PUR_REFUNDED, pur_refundedAt := Some now\<rparr>"
  obtain b where b: "purchaseRow i s = Some b" "pur_status b = PUR_PAID" "p = ?ref b"
    using assms(1) by (auto simp: refundPurchase_def Let_def split_beta split: option.splits if_splits)
  define s1 where "s1 = s\<lparr>st_purchases := snd (updateMany (\<lambda>p. pur_id p = i) ?ref (st_purchases s))\<rparr>"
  define s2 where "s2 = recordEntry (refundEntry b) s1"
  define s3 where "s3 = snd (suspendPurchaseAccounts i actor ''PURCHASE_REFUNDED'' now s2)"
  have s': "s' = audit (Some actor) ''PURCHASE_REFUNDED'' ''Purchase'' i (voidReferralRewardForPurchase i actor now s3)"
    using assms(1) b by (simp add: refundPurchase_def Let_def split_beta s1_def s2_def s3_def)
  have bi: "pur_id b = i" using b(1) by (auto simp: purchaseRow_def dest: findUnique_Some)
  have rows: "st_purchases s' = map (\<lambda>p. if pur_id p = i then ?ref p else p) (st_purchases s)"
    by (simp add: s' s3_def s2_def s1_def updateMany_def)
  have "purchaseRow i s' = map_option (\<lambda>r. if pur_id r = i then ?ref r else r) (purchaseRow i s)"
    using find_map_key [of pur_id ?ref i i] by (simp add: purchaseRow_def rows findUnique_def)
  then have row: "purchaseRow i s' = Some p" using b bi by simp
  have final: "\<exists>e. refundPurchase i a t s' = Inl e" "\<exists>e. activatePurchase i src t s' = Inl e" for a t src
    using row b(3) by (simp_all add: refundPurchase_def activatePurchase_def activateFrom_def)
  have acc_s2: "accounts_t (st_db s2) = accounts_t (st_db s)" by (simp add: s2_def s1_def)
  have voids: "accounts_t (st_db (voidReferralRewardForPurchase i actor now y)) = accounts_t (st_db y)
      \<and> ledger_t (st_db (voidReferralRewardForPurchase i actor now y)) = ledger_t (st_db y)" for y
    by (auto simp: voidReferralRewardForPurchase_def claimReward_def Let_def split_beta audit_def split: option.split)
  have suspended: "\<exists>row. accountRow k (st_db s') = Some row \<and> acc_status row \<noteq> ACTIVE \<and> acc_status row \<noteq> FUNDED"
    if x: "accountOfPurchase i s = Some x" "k \<in> acc_id ` set (x # accountChain 4 (acc_id x) s)" for x k
  proof -
    have same: "accountOfPurchase i s2 = Some x" using x(1) acc_s2 by (simp add: accountOfPurchase_def)
    have ch: "accountChain n c s2 = accountChain n c s" for n c
      using acc_s2 by (induction n arbitrary: c) (simp_all split: option.split)
    obtain a where a: "a \<in> set (x # accountChain 4 (acc_id x) s)" "k = acc_id a" using x(2) by blast
    have "x \<in> set (accounts_t (st_db s))" using x(1) by (auto simp: accountOfPurchase_def dest: findUnique_Some)
    then have "a \<in> set (accounts_t (st_db s2))" using a(1) accountChain_rows acc_s2 by auto
    then have ak: "accountRow k (st_db s2) = Some a" using accountRow_member assms(3) acc_s2 a(2) by simp
    from suspend_chain [OF ak, of actor "''PURCHASE_REFUNDED''" now "x # accountChain 4 (acc_id x) s"]
    obtain row where row: "accountRow k (st_db s3) = Some row" "acc_status row = acc_status a \<or> acc_status row = SUSPENDED"
      "(\<exists>y\<in>set (x # accountChain 4 (acc_id x) s). acc_id y = k \<and> live (acc_status y)) \<longrightarrow> acc_status row = SUSPENDED"
      unfolding s3_def suspendPurchaseAccounts_def same Let_def ch by auto
    have "\<not> live (acc_status row)"
    proof (cases "live (acc_status a)")
      case True
      then have "acc_status row = SUSPENDED" using row(3) a by blast
      then show ?thesis by (simp add: live_def)
    next
      case False
      then show ?thesis using row(2) by (auto simp: live_def)
    qed
    moreover have "accountRow k (st_db s') = accountRow k (st_db s3)"
      by (rule accountRow_cong) (simp add: s' voids)
    ultimately show ?thesis using row(1) by (auto simp: live_def)
  qed
  have reward: "rwd_status r = RWD_VOID \<or> rwd_status r = RWD_PAID" if r: "rewardOfPurchase i s' = Some r" for r
  proof (rule ccontr)
    assume n: "\<not> ?thesis"
    let ?void = "\<lambda>r :: ReferralReward. r\<lparr>rwd_status := RWD_VOID, rwd_voidedAt := Some now\<rparr>"
    obtain q where q: "rewardOfPurchase i s3 = Some q" "rwd_status q \<noteq> RWD_VOID" "rwd_status q \<noteq> RWD_PAID"
      using r n by (cases "rewardOfPurchase i s3") (auto simp: s' voidReferralRewardForPurchase_def rewardOfPurchase_def split: if_splits)
    define P where "P r \<longleftrightarrow> rwd_id r = rwd_id q \<and> rwd_status r \<in> {RWD_PENDING, RWD_APPROVED}" for r :: ReferralReward
    have rows: "st_rewards s' = map (\<lambda>r. if P r then ?void r else r) (st_rewards s3)"
      using q by (simp add: s' voidReferralRewardForPurchase_def claimReward_def updateMany_def split_beta P_def)
    have "List.find (\<lambda>r. rwd_purchaseId r = i) (map (\<lambda>r. if P r then ?void r else r) rs)
        = map_option (\<lambda>r. if P r then ?void r else r) (List.find (\<lambda>r. rwd_purchaseId r = i) rs)" for rs
      by (induction rs) auto
    then have "rewardOfPurchase i s' = map_option (\<lambda>r. if P r then ?void r else r) (rewardOfPurchase i s3)"
      unfolding rewardOfPurchase_def findUnique_def rows by blast
    moreover have "P q" using q(2,3) by (cases "rwd_status q") (simp_all add: P_def)
    ultimately have "r = ?void q" using q(1) r by simp
    then show False using n by simp
  qed
  have "ledger_t (st_db s') = ledger_t (st_db s) @ [refundEntry b]"
    using assms(4) bi by (auto simp: s' voids s3_def s2_def s1_def recordEntry_def createUnlessKnown_def ledgerKey_def refundEntry_def purchaseEntry_def)
  moreover have "refundEntry (p\<lparr>pur_status := PUR_PAID\<rparr>) = refundEntry b" by (simp add: b(3) refundEntry_def purchaseEntry_def)
  ultimately show ?thesis using final suspended reward by auto
qed

section \<open>Examples\<close>

lemma ordered_ok: "store_ok shopOrdered" "store_ok shopPaid"
  using run_store_ok ordered_run settled_run(2) unfolding sampleShop_def by blast+

theorem activation_happens_once_witness:
  "activatePurchase 100 (SRC_ADMIN_TEST 1) 50 shopPaid = Inr ((samplePaid, Some newSampleAccount), shopPaid)
    \<and> activateFrom samplePurchase None SRC_CHAPA 60 shopPaid = Inr ((samplePaid, Some newSampleAccount), shopPaid)"
proof -
  have q: "pur_id samplePurchase = 100" "unpaid (pur_status samplePurchase)" by (simp_all add: samplePurchase_def)
  show ?thesis
    using activation_happens_once [OF paid(1) ordered_ok(1) q, where src' = "SRC_ADMIN_TEST 1" and now' = 50]
      activation_happens_once [OF paid(1) ordered_ok(1) q, where acct' = None and src' = SRC_CHAPA and now' = 60] by simp
qed

theorem only_verified_payments_activate_witness:
  "verifyAndCompleteChapaPurchase ''tx-1'' (Some sampleVerification) 9 shopOrdered = (Inr (V_PAID 100), shopPaid)
    \<and> (\<exists>v. Some sampleVerification = Some v \<and> cvf_paymentStatus v = CHAPA_SUCCESS \<and> cvf_txRef v = ''tx-1'')"
proof -
  have p: "samplePurchase \<in> set (st_purchases shopOrdered)" "pur_status samplePurchase \<noteq> PUR_PAID" "samplePaid \<in> set (st_purchases shopPaid)"
    "pur_id samplePaid = pur_id samplePurchase" "pur_status samplePaid = PUR_PAID"
    by (simp_all add: ordered shopPaid_tables samplePaid_def samplePurchase_def)
  have "cents 100000 = Fin 1000" using cents_whole [of 1000] by simp
  then have "js_eq (roundCurrency (Fin 1000)) (roundCurrency (Fin 1000))" using roundCurrency_cents [of 100000] by (simp add: money_ok_def js_eq_def)
  then have m: "verificationMatches sampleVerification samplePurchase"
    by (simp add: verificationMatches_def sampleVerification_def samplePurchase_def)
  have f: "findUnique (\<lambda>p. pur_providerTxRef p = ''tx-1'') (st_purchases shopOrdered) = Some samplePurchase"
    by (simp add: ordered findUnique_def samplePurchase_def)
  have s: "pur_status samplePurchase = PUR_PENDING" "pur_id samplePurchase = 100" "cvf_paymentStatus sampleVerification = CHAPA_SUCCESS"
    by (simp_all add: samplePurchase_def sampleVerification_def)
  have v: "verifyAndCompleteChapaPurchase ''tx-1'' (Some sampleVerification) 9 shopOrdered = (Inr (V_PAID 100), shopPaid)"
    using m by (simp add: verifyAndCompleteChapaPurchase_def f s Let_def paid)
  then show ?thesis using only_verified_payments_activate [OF v ordered_ok(1) p] by simp
qed

theorem refund_takes_everything_back_witness:
  "\<exists>p s'. refundPurchase 100 1 70 shopPaid = Inr (p, s') \<and> (\<forall>a t src. (\<exists>e. refundPurchase 100 a t s' = Inl e) \<and> (\<exists>e. activatePurchase 100 src t s' = Inl e))
    \<and> length (ledger_t (st_db s')) = 2"
proof -
  have "purchaseRow 100 shopPaid = Some samplePaid" "pur_status samplePaid = PUR_PAID"
    by (simp_all add: purchaseRow_def findUnique_def shopPaid_tables samplePaid_def samplePurchase_def)
  then obtain p s' where r: "refundPurchase 100 1 70 shopPaid = Inr (p, s')" by (simp add: refundPurchase_def Let_def split_beta)
  have "\<forall>l\<in>set (ledger_t (st_db shopPaid)). ledgerKey l \<noteq> (LE_REFUND, ''Purchase'', 100)"
    by (simp add: shopPaid_tables ledgerKey_def purchaseEntry_def)
  from refund_takes_everything_back [OF r ordered_ok(2) _ this] r show ?thesis
    by (intro exI [of _ p] exI [of _ s']) (simp add: shopPaid_tables)
qed

end
