(* ===== verification/PayoutProofs.thy ===== *)
theory PayoutProofs
  imports CommerceSamples
begin

text \<open>Marking a payout paid consumes profit exactly, in cents, in the account and in the ledger.\<close>

section \<open>Rounding a quotient to cents\<close>

text \<open>For amounts up to twenty million the rounding to cents is the nearest cent, up to a thousandth.\<close>

lemma rnd_tight:
  assumes "\<bar>x\<bar> \<le> 2147483648"
  obtains v where "rnd x = Fin v" "\<bar>v - x\<bar> \<le> 1 / 2097152"
proof -
  obtain v where "rnd x = Fin v" "\<bar>v - x\<bar> \<le> 1 / 2 ^ 21" by (rule rnd_err_small [OF assms])
  then show thesis using that [of v] by simp
qed

lemma roundCurrency_tight:
  assumes "0 \<le> x" "x \<le> 20000000"
  obtains n where "money_ok n" "0 \<le> n" "roundCurrency (Fin x) = cents n" "\<bar>x * 100 - of_int n\<bar> \<le> 501 / 1000"
proof -
  have b: "\<bar>x * 100\<bar> \<le> 2147483648" "0 \<le> x * 100" using assms by simp_all
  obtain v where v: "rnd (x * 100) = Fin v" "\<bar>v - x * 100\<bar> \<le> 1 / 2097152" by (rule rnd_tight [OF b(1)])
  let ?n = "\<lfloor>v + 1 / 2\<rfloor>"
  have f: "of_int ?n \<le> v + 1 / 2" "v + 1 / 2 < of_int ?n + 1" by linarith+
  have d: "\<bar>x * 100 - of_int ?n\<bar> \<le> 501 / 1000" using v(2) f by linarith
  have "(of_int (- 1) :: rat) < of_int ?n" using d assms(1) by linarith
  then have nn: "0 \<le> ?n" by (simp only: of_int_less_iff)
  have "(of_int ?n :: rat) \<le> of_int 2147483648" using d assms(2) by linarith
  then have nb: "?n \<le> 2147483648" by (simp only: of_int_le_iff)
  have m: "money_ok ?n" using nn nb by (simp add: money_ok_def)
  then have "rnd (of_int ?n) = Fin (of_int ?n)" by (intro rnd_of_int) (simp add: money_ok_def)
  then have "roundCurrency (Fin x) = cents ?n"
    using v(1) assms(1) by (simp add: roundCurrency_nonneg roundAbs_def cents_def)
  with m nn d show thesis using that by blast
qed

lemma split_near:
  assumes "50 \<le> p" "p \<le> 100"
  obtains q where "Fin (of_int p) / Fin 100 = Fin q" "\<bar>q - of_int p / 100\<bar> \<le> 1 / 1000000000000"
proof -
  have p: "(of_int p :: rat) \<le> 100" "50 \<le> (of_int p :: rat)" using assms by simp_all
  then have b: "\<bar>of_int p / 100 :: rat\<bar> \<le> 1" by simp
  then have "\<bar>of_int p / 100 :: rat\<bar> \<le> 2 ^ 1000" by (elim order_trans) simp
  then have 1: "rnd (of_int p / 100) = Fin (rnd_rat (of_int p / 100))" by (rule rnd_small)
  have "\<bar>of_int p / 100 :: rat\<bar> / 2 ^ 53 \<le> 1 / 2 ^ 53" by (intro divide_right_mono b) simp
  then have "\<bar>rnd_rat (of_int p / 100) - of_int p / 100\<bar> \<le> 1 / 2 ^ 53 + 1 / 2 ^ 1075"
    using rnd_rat_error [of "of_int p / 100"] by linarith
  also have "\<dots> \<le> (1 / 1000000000000 :: rat)" by simp
  finally show thesis using that 1 by simp
qed

lemma consumed_near:
  assumes m: "0 < m" "m \<le> 900000000" and p: "50 \<le> p" "p \<le> 100"
  obtains k where "consumedOf (cents m) (Fin (of_int p) / Fin 100) = cents k" "money_ok k" "m \<le> k" "\<bar>p * k - 100 * m\<bar> \<le> p"
proof -
  have P: "(50 :: rat) \<le> of_int p" "(of_int p :: rat) \<le> 100" using p by simp_all
  have M: "(1 :: rat) \<le> of_int m" "(of_int m :: rat) \<le> 900000000" using m by simp_all
  have "\<bar>of_int m / 100 :: rat\<bar> \<le> 2147483648" using M by simp
  then obtain c where c: "cents m = Fin c" "\<bar>c - of_int m / 100\<bar> \<le> 1 / 2097152" unfolding cents_def by (rule rnd_tight)
  obtain q where q: "Fin (of_int p) / Fin 100 = Fin q" "\<bar>q - of_int p / 100\<bar> \<le> 1 / 1000000000000" by (rule split_near [OF p])
  define r where "r = (of_int m / of_int p :: rat)"
  have r: "r * of_int p = of_int m" "0 \<le> r" using P M by (simp_all add: r_def)
  have rb: "r \<le> 18000000" using P M by (simp add: r_def pos_divide_le_eq)
  have cb: "0 < c" using c(2) M by linarith
  have qb: "499 / 1000 \<le> q" using q(2) P by linarith
  have "\<bar>r * (q - of_int p / 100)\<bar> \<le> 18000000 * (1 / 1000000000000)"
    unfolding abs_mult using rb r(2) q(2) by (intro mult_mono) simp_all
  moreover have "r * (q - of_int p / 100) = r * q - of_int m / 100" using r(1) by (simp add: right_diff_distrib)
  ultimately have near: "\<bar>c - r * q\<bar> \<le> 2 / 100000" using c(2) by linarith
  have "c \<le> r * q + q / 10000" "r * q - q / 10000 \<le> c" using abs_le_D1 [OF near] abs_le_D2 [OF near] qb by linarith+
  then have "c \<le> (r + 1 / 10000) * q" "(r - 1 / 10000) * q \<le> c" by (simp_all add: distrib_right left_diff_distrib)
  then have quot: "c / q \<le> r + 1 / 10000" "r - 1 / 10000 \<le> c / q" using qb by (simp_all add: pos_divide_le_eq pos_le_divide_eq)
  have "0 \<le> c / q" using cb qb by simp
  then have "\<bar>c / q\<bar> \<le> 2147483648" using quot rb by simp
  then obtain x where x: "rnd (c / q) = Fin x" "\<bar>x - c / q\<bar> \<le> 1 / 2097152" by (rule rnd_tight)
  have "of_int m / 100 \<le> r" using P M by (simp add: r_def pos_le_divide_eq pos_divide_le_eq)
  then have xr: "\<bar>x - r\<bar> \<le> 2 / 10000" "1 / 100 \<le> r" using x(2) quot M by linarith+
  have "0 \<le> x" "x \<le> 20000000" using xr rb by linarith+
  then obtain k where k: "money_ok k" "0 \<le> k" "roundCurrency (Fin x) = cents k" "\<bar>x * 100 - of_int k\<bar> \<le> 501 / 1000"
    by (rule roundCurrency_tight)
  have kr: "\<bar>of_int k - 100 * r\<bar> \<le> 6 / 10" using k(4) xr by linarith
  show thesis
  proof (rule that)
    show "consumedOf (cents m) (Fin (of_int p) / Fin 100) = cents k"
      using qb cb k(3) x(1) by (simp add: consumedOf_def q(1) c(1))
    have "of_int m - 1 < (of_int k :: rat)" using kr \<open>of_int m / 100 \<le> r\<close> by linarith
    then have "(of_int (m - 1) :: rat) < of_int k" by simp
    then show "m \<le> k" by (simp only: of_int_less_iff)
    have "of_int p * \<bar>of_int k - 100 * r\<bar> \<le> of_int p * 1" using kr P by (intro mult_left_mono) simp_all
    then have "\<bar>of_int p * (of_int k - 100 * r)\<bar> \<le> of_int p" using P by (simp add: abs_mult)
    moreover have "of_int p * (of_int k - 100 * r) = of_int (p * k - 100 * m)" using r(1) by (simp add: algebra_simps)
    ultimately have "(of_int \<bar>p * k - 100 * m\<bar> :: rat) \<le> of_int p" by simp
    then show "\<bar>p * k - 100 * m\<bar> \<le> p" by (simp only: of_int_le_iff)
  qed (rule k)
qed

section \<open>Paying out\<close>

lemma record_fresh:
  assumes "distinct (map ledgerKey ls)" "\<forall>l\<in>set ls. ledgerKey l \<notin> ledgerKey ` set (ledger_t (st_db s))"
  shows "ledger_t (st_db (foldl (\<lambda>x l. recordEntry l x) s ls)) = ledger_t (st_db s) @ ls"
  using assms
proof (induction ls arbitrary: s)
  case (Cons l ls)
  have "ledger_t (st_db (recordEntry l s)) = ledger_t (st_db s) @ [l]"
    using Cons.prems(2) by (simp add: recordEntry_def onDb_def createUnlessKnown_def image_iff) metis
  moreover have "\<forall>x\<in>set ls. ledgerKey x \<noteq> ledgerKey l" using Cons.prems(1) by (simp add: image_iff) metis
  ultimately show ?case using Cons.IH [of "recordEntry l s"] Cons.prems by auto
qed simp

lemma payout_keys:
  "map ledgerKey (payoutEntries before f) = (LE_PAYOUT, ''Payout'', pay_id before)
     # (if f > lit 0 then [(LE_ADJUSTMENT, ''PayoutFirmShare'', pay_id before)] else [])"
  by (simp add: payoutEntries_def Let_def ledgerKey_def)

lemma payOut_result:
  assumes "payOut before s = Inr s'" "accountRow (pay_accountId before) (st_db s) = Some a"
    and "consumed = consumedOf (pay_amount before) (splitOf a)" "firm = roundCurrency (consumed - pay_amount before)"
    and "\<forall>l\<in>set (ledger_t (st_db s)). led_refId l = pay_id before \<longrightarrow> led_refType l \<noteq> ''Payout'' \<and> led_refType l \<noteq> ''PayoutFirmShare''"
  shows "accountRow (pay_accountId before) (st_db s') = Some (payoutAccountRow consumed a)
    \<and> ledger_t (st_db s') = ledger_t (st_db s) @ payoutEntries before firm"
proof -
  define s1 where "s1 = onDb (updateAccount (pay_accountId before) (payoutAccountRow consumed)) s"
  define s2 where "s2 = foldl (\<lambda>x l. recordEntry l x) s1 (payoutEntries before firm)"
  obtain c d where c: "issueCertificate CERT_PAYOUT (pay_userId before) (Some (pay_accountId before)) (Some (pay_id before))
      (Some (pay_amount before)) (st_db s2) = Inr (c, d)" "s' = s2\<lparr>st_db := d\<rparr>"
    using assms(1,2) by (auto simp: payOut_def Let_def s1_def s2_def assms(3,4) split: sum.splits)
  have "ledger_t (st_db s1) = ledger_t (st_db s)" by (simp add: s1_def onDb_def updateAccount_def)
  moreover have sub: "ledgerKey ` set (payoutEntries before firm)
      \<subseteq> {(LE_PAYOUT, ''Payout'', pay_id before), (LE_ADJUSTMENT, ''PayoutFirmShare'', pay_id before)}"
    by (simp only: set_map [symmetric] payout_keys) auto
  have fresh: "(LE_PAYOUT, ''Payout'', pay_id before) \<notin> ledgerKey ` set (ledger_t (st_db s))"
    "(LE_ADJUSTMENT, ''PayoutFirmShare'', pay_id before) \<notin> ledgerKey ` set (ledger_t (st_db s))"
    using assms(5) by (auto simp: ledgerKey_def)
  have "\<forall>l\<in>set (payoutEntries before firm). ledgerKey l \<notin> ledgerKey ` set (ledger_t (st_db s))"
  proof
    fix l assume "l \<in> set (payoutEntries before firm)"
    then have "ledgerKey l \<in> {(LE_PAYOUT, ''Payout'', pay_id before), (LE_ADJUSTMENT, ''PayoutFirmShare'', pay_id before)}" using sub by fast
    then show "ledgerKey l \<notin> ledgerKey ` set (ledger_t (st_db s))" using fresh by (elim insertE) simp_all
  qed
  moreover have "distinct (map ledgerKey (payoutEntries before firm))" by (simp only: payout_keys) simp
  ultimately have l2: "ledger_t (st_db s2) = ledger_t (st_db s) @ payoutEntries before firm"
    unfolding s2_def using record_fresh [of "payoutEntries before firm" s1] by simp
  have "accountRow (pay_accountId before) (st_db s2) = accountRow (pay_accountId before) (st_db s1)"
    by (rule accountRow_cong) (simp add: s2_def payoutEntries_def Let_def)
  also have "\<dots> = Some (payoutAccountRow consumed a)"
    using assms(2) by (simp add: s1_def onDb_def accountRow_update payoutAccountRow_def)
  finally have "accountRow (pay_accountId before) (st_db s2) = Some (payoutAccountRow consumed a)" .
  moreover have "accountRow (pay_accountId before) d = accountRow (pay_accountId before) (st_db s2)"
    by (rule accountRow_cong) (rule issueCertificate_Inr(3) [OF c(1)])
  ultimately show ?thesis using l2 c(2) issueCertificate_ledger [OF c(1)] by simp
qed

lemma payOut_runs:
  assumes "accountRow (pay_accountId before) (st_db s) \<noteq> None"
  shows "\<exists>s'. payOut before s = Inr s' \<and> st_payouts s' = st_payouts s"
proof -
  have "st_payouts (foldl (\<lambda>x l. recordEntry l x) y ls) = st_payouts y" for y ls by (induction ls arbitrary: y) simp_all
  then show ?thesis
    using assms by (auto simp: payOut_def Let_def issueCertificate_def certificateDedupeKey_def split: option.split)
qed

text \<open>What the database holds after an approved payout has been marked paid.\<close>

lemma paid_payout:
  assumes "decidePayoutFrom before DECIDE_PAID actor reason ref now s = Inr (p, s')"
    and "accountRow (pay_accountId before) (st_db s) = Some a"
    and "tpl_profitSplit (rules (acc_snapshot a)) = Fin (of_int pct)" "50 \<le> pct" "pct \<le> 100"
    and "acc_balance a = cents b" "\<bar>b\<bar> \<le> 2 ^ 46"
    and "pay_amount before = cents m" "0 < m" "m \<le> 900000000"
    and "\<forall>l\<in>set (ledger_t (st_db s)). led_refId l = pay_id before \<longrightarrow> led_refType l \<noteq> ''Payout'' \<and> led_refType l \<noteq> ''PayoutFirmShare''"
  obtains k ls where "m \<le> k" "\<bar>pct * k - 100 * m\<bar> \<le> pct"
    "accountRow (pay_accountId before) (st_db s') = Some (payoutAccountRow (cents k) a)"
    "acc_balance (payoutAccountRow (cents k) a) = cents (b - k)"
    "ledger_t (st_db s') = ledger_t (st_db s) @ ls"
    "map led_amount ls = (if k = m then [cents (- m)] else [cents (- m), cents (- (k - m))])"
proof -
  let ?c = "snd (claimPayout (pay_id before) (payoutFrom DECIDE_PAID) (payoutData DECIDE_PAID actor reason ref now) s)"
  obtain s2 where s2: "payOut before ?c = Inr s2"
    "s' = notify (pay_userId before) (decisionTitle DECIDE_PAID) (audit (Some actor) (decisionName DECIDE_PAID) ''Payout'' (pay_id before) s2)"
    using assms(1) by (auto simp: decidePayoutFrom_def Let_def split_beta split: option.splits if_splits sum.splits)
  have same: "st_db ?c = st_db s" by (simp add: claimPayout_def split_beta)
  have split: "splitOf a = Fin (of_int pct) / Fin 100" using assms(3) by (simp add: splitOf_def lit_100)
  obtain k where k: "consumedOf (cents m) (splitOf a) = cents k" "money_ok k" "m \<le> k" "\<bar>pct * k - 100 * m\<bar> \<le> pct"
    unfolding split by (rule consumed_near [OF assms(9,10,4,5)])
  have m: "money_ok m" using assms(9,10) by (simp add: money_ok_def)
  have b: "money_ok b" using assms(7) by (simp add: money_ok_def)
  have firm: "roundCurrency (cents k - cents m) = cents (k - m)" using k(2) m by (rule roundCurrency_diff)
  have res: "accountRow (pay_accountId before) (st_db s2) = Some (payoutAccountRow (cents k) a)"
    "ledger_t (st_db s2) = ledger_t (st_db s) @ payoutEntries before (cents (k - m))"
    using payOut_result [OF s2(1), of a "cents k" "cents (k - m)"] assms(2,8,11) same k(1) firm by simp_all
  have "money_ok (k - m)" using k(2,3) assms(9) by (simp add: money_ok_def)
  then have pos: "lit 0 < cents (k - m) \<longleftrightarrow> k \<noteq> m" using cents_pos_iff(1) [of "k - m"] k(3) by auto
  have "accountRow (pay_accountId before) (st_db s') = accountRow (pay_accountId before) (st_db s2)"
    by (rule accountRow_cong) (simp add: s2(2))
  moreover have "acc_balance (payoutAccountRow (cents k) a) = cents (b - k)"
    using roundCurrency_diff [OF b k(2)] assms(6) by (simp add: payoutAccountRow_def)
  moreover have "ledger_t (st_db s') = ledger_t (st_db s2)" by (simp add: s2(2) audit_def notify_def onDb_def)
  moreover have "map led_amount (payoutEntries before (cents (k - m))) = (if k = m then [cents (- m)] else [cents (- m), cents (- (k - m))])"
    using pos assms(8) by (simp only: payoutEntries_def Let_def) (simp add: cents_minus [symmetric])
  ultimately show thesis using res k(3,4)
    by (intro that [of k "payoutEntries before (cents (k - m))"]) simp_all
qed

text \<open>
  C15: Marking an approved payout paid consumes profit to the cent: the consumed sum is the payout divided by the
  split, rounded, that is the share of the trader plus that of the firm; the balance falls by exactly that sum, and
  so do the equity, the realised profit, the peak and the daily anchor, so that the payout is no trading loss; the
  ledger gains entries for exactly that sum. When the payout is still within the trader's share of the profit at
  that moment, the starting balance stays on the account, up to the one cent the rounding may take; marking a
  payout paid does not check that again (\<open>lost_profit_is_still_paid\<close>).
\<close>

theorem payout_consumes_profit:
  assumes "decidePayoutFrom before DECIDE_PAID actor reason ref now s = Inr (p, s')"
    and "accountRow (pay_accountId before) (st_db s) = Some a"
    and "tpl_profitSplit (rules (acc_snapshot a)) = Fin (of_int pct)" "50 \<le> pct" "pct \<le> 100"
    and "acc_balance a = cents b" "\<bar>b\<bar> \<le> 2 ^ 46" "acc_startingBalance a = cents S"
    and "pay_amount before = cents m" "0 < m" "m \<le> 900000000"
    and "\<forall>l\<in>set (ledger_t (st_db s)). led_refId l = pay_id before \<longrightarrow> led_refType l \<noteq> ''Payout'' \<and> led_refType l \<noteq> ''PayoutFirmShare''"
  shows "\<exists>k a' ls. m \<le> k \<and> \<bar>pct * k - 100 * m\<bar> \<le> pct
    \<and> accountRow (pay_accountId before) (st_db s') = Some a' \<and> acc_balance a' = cents (b - k)
    \<and> acc_equity a' = acc_equity a - cents k \<and> acc_realizedPnl a' = acc_realizedPnl a - cents k
    \<and> acc_highWaterMark a' = acc_highWaterMark a - cents k \<and> acc_dailyAnchorBalance a' = acc_dailyAnchorBalance a - cents k
    \<and> ledger_t (st_db s') = ledger_t (st_db s) @ ls
    \<and> map led_amount ls = (if k = m then [cents (- m)] else [cents (- m), cents (- (k - m))])
    \<and> (100 * m \<le> pct * (b - S) \<longrightarrow> S - 1 \<le> b - k)"
proof -
  obtain k ls where r: "m \<le> k" "\<bar>pct * k - 100 * m\<bar> \<le> pct"
    "accountRow (pay_accountId before) (st_db s') = Some (payoutAccountRow (cents k) a)"
    "acc_balance (payoutAccountRow (cents k) a) = cents (b - k)" "ledger_t (st_db s') = ledger_t (st_db s) @ ls"
    "map led_amount ls = (if k = m then [cents (- m)] else [cents (- m), cents (- (k - m))])"
    by (rule paid_payout [OF assms(1-7,9-12)])
  have "S - 1 \<le> b - k" if "100 * m \<le> pct * (b - S)"
  proof -
    have "pct * k \<le> pct * (b - S + 1)" using r(2) that by (simp add: distrib_left)
    then have "k \<le> b - S + 1" using assms(4) by simp
    then show ?thesis by simp
  qed
  then show ?thesis using r
    by (intro exI [of _ k] exI [of _ "payoutAccountRow (cents k) a"] exI [of _ ls]) (simp add: payoutAccountRow_def)
qed

section \<open>Example\<close>

definition sampleFunded :: TradingAccount where
  "sampleFunded = sampleAccount\<lparr>acc_status := FUNDED, acc_balance := cents 1200000, acc_startingBalance := cents 1000000\<rparr>"

definition samplePayout :: Payout where
  "samplePayout = \<lparr>pay_id = 300, pay_accountId = 7, pay_userId = 3, pay_amount = cents 160000, pay_currency = ''ETB'',
     pay_status = PAY_APPROVED, pay_createdById = Some 3, pay_approvedById = Some 11, pay_approvedAt = Some 5, pay_paidById = None,
     pay_paidAt = None, pay_rejectedById = None, pay_rejectedAt = None, pay_rejectReason = None, pay_providerRef = None, pay_requestedAt = 1\<rparr>"

definition payoutStore :: "TradingAccount \<Rightarrow> Store" where
  "payoutStore a = (openStore (emptyDb\<lparr>accounts_t := [a]\<rparr>) [])\<lparr>st_payouts := [samplePayout]\<rparr>"

lemma samplePayout_paid:
  assumes "acc_id a = 7"
  obtains p s' where "decidePayoutFrom samplePayout DECIDE_PAID 12 None None 9 (payoutStore a) = Inr (p, s')"
    "accountRow 7 (st_db (payoutStore a)) = Some a" "pay_accountId samplePayout = 7" "ledger_t (st_db (payoutStore a)) = []"
proof -
  have row: "accountRow 7 (st_db (payoutStore a)) = Some a"
    by (simp add: payoutStore_def openStore_def accountRow_def findUnique_def assms)
  have r: "decisionRefused DECIDE_PAID 12 samplePayout = None" "pay_accountId samplePayout = 7" "pay_id samplePayout = 300" "pay_status samplePayout = PAY_APPROVED"
    by (simp_all add: decisionRefused_def samplePayout_def)
  let ?c = "claimPayout 300 (payoutFrom DECIDE_PAID) (payoutData DECIDE_PAID 12 None None 9) (payoutStore a)"
  have n: "fst ?c = 1" "st_db (snd ?c) = st_db (payoutStore a)" "st_payouts (snd ?c) = [payoutData DECIDE_PAID 12 None None 9 samplePayout]"
    by (simp_all add: claimPayout_def payoutStore_def updateMany_def r payoutFrom_def split_beta)
  obtain s2 where s2: "payOut samplePayout (snd ?c) = Inr s2" "st_payouts s2 = st_payouts (snd ?c)"
    using payOut_runs [of samplePayout "snd ?c"] row n(2) r(2) by auto
  have "\<exists>p s'. decidePayoutFrom samplePayout DECIDE_PAID 12 None None 9 (payoutStore a) = Inr (p, s')"
    using s2 n by (auto simp: decidePayoutFrom_def r split_beta Let_def payoutRow_def findUnique_def payoutData_def)
  then show thesis using that row r(2) by (auto simp: payoutStore_def openStore_def emptyDb_def)
qed

theorem payout_consumes_profit_witness:
  "\<exists>p s' k a'. decidePayoutFrom samplePayout DECIDE_PAID 12 None None 9 (payoutStore sampleFunded) = Inr (p, s')
    \<and> 160000 \<le> k \<and> accountRow 7 (st_db s') = Some a' \<and> acc_balance a' = cents (1200000 - k) \<and> 999999 \<le> 1200000 - k"
proof -
  have "acc_id sampleFunded = 7" by (simp add: sampleFunded_def sampleAccount_def)
  then obtain p s' where e: "decidePayoutFrom samplePayout DECIDE_PAID 12 None None 9 (payoutStore sampleFunded) = Inr (p, s')"
    "accountRow 7 (st_db (payoutStore sampleFunded)) = Some sampleFunded" "pay_accountId samplePayout = 7"
    "ledger_t (st_db (payoutStore sampleFunded)) = []" by (rule samplePayout_paid)
  show ?thesis
    using payout_consumes_profit [OF e(1), of sampleFunded 80 1200000 1000000 160000] e
    by (auto simp: sampleFunded_def samplePayout_def sampleAccount_def sampleSnapshot_def sampleRules_def)
qed

text \<open>
  An approved payout whose profit has been lost again in the meantime is still paid: here the account is back at its
  starting balance of 10,000, and paying 1,600 at a split of eighty percent takes 2,000 of it.
\<close>

lemma lost_profit_is_still_paid:
  "\<exists>p s' a' n. decidePayoutFrom samplePayout DECIDE_PAID 12 None None 9 (payoutStore (sampleFunded\<lparr>acc_balance := cents 1000000\<rparr>)) = Inr (p, s')
    \<and> accountRow 7 (st_db s') = Some a' \<and> acc_startingBalance a' = cents 1000000 \<and> acc_balance a' = cents n \<and> \<bar>n - 800000\<bar> \<le> 1"
proof -
  let ?a = "sampleFunded\<lparr>acc_balance := cents 1000000\<rparr>"
  have "acc_id ?a = 7" by (simp add: sampleFunded_def sampleAccount_def)
  then obtain p s' where e: "decidePayoutFrom samplePayout DECIDE_PAID 12 None None 9 (payoutStore ?a) = Inr (p, s')"
    "accountRow 7 (st_db (payoutStore ?a)) = Some ?a" "pay_accountId samplePayout = 7" "ledger_t (st_db (payoutStore ?a)) = []"
    by (rule samplePayout_paid)
  obtain k ls where k: "160000 \<le> k" "\<bar>80 * k - 100 * 160000\<bar> \<le> 80"
    "accountRow (pay_accountId samplePayout) (st_db s') = Some (payoutAccountRow (cents k) ?a)"
    "acc_balance (payoutAccountRow (cents k) ?a) = cents (1000000 - k)"
    by (rule paid_payout [OF e(1), of ?a 80 1000000 160000])
      (use e in \<open>simp_all add: sampleFunded_def samplePayout_def sampleAccount_def sampleSnapshot_def sampleRules_def\<close>)
  then show ?thesis using e
    by (intro exI [of _ p] exI [of _ s'] exI [of _ "payoutAccountRow (cents k) ?a"] exI [of _ "1000000 - k"])
      (auto simp: payoutAccountRow_def sampleFunded_def)
qed

end
