(* ===== verification/FeedRouter.thy ===== *)
theory FeedRouter
  imports EngineState "HOL-Library.AList"
begin

text \<open>
  Primary/backup selection of the price stream (\<open>src/trading/feeds/router.ts\<close>). A JavaScript \<open>Map\<close> is an
  association list in insertion order; the injected clock is the argument \<open>now\<close>, in whole milliseconds; what
  the listeners are called with is the list of outputs of an operation, in order.
\<close>

section \<open>State\<close>

record FeedRoute =
  fr_symbol :: string
  fr_primary :: string
  fr_backup :: "string option"

datatype FeedSwitchReason = PRIMARY_STALE | PRIMARY_RECOVERED | BACKUP_STALE

record FeedSwitchEvent =
  sw_symbol :: string
  sw_from :: string
  sw_to :: string
  sw_reason :: FeedSwitchReason
  sw_at :: int
  sw_primaryLastTickAt :: "int option"
  sw_backupLastTickAt :: "int option"

record SymbolState =
  sy_route :: FeedRoute
  sy_active :: string
  sy_activeSince :: int
  sy_since :: int
  sy_last :: "(string \<times> int \<times> Tick) list"
  sy_primaryHealthySince :: "int option"
  sy_switches :: nat
  sy_failbackDueBucket :: "int option"

record RouterOptions =
  ro_staleMs :: int
  ro_stableMs :: int
  ro_historySize :: nat
  ro_failbackAlignMs :: int

record FeedRouter =
  rt_options :: RouterOptions
  rt_symbols :: "(string \<times> SymbolState) list"
  rt_history :: "FeedSwitchEvent list"

datatype RouterOutput = Switched FeedSwitchEvent | Forwarded Tick

definition DEFAULT_FAILOVER_STALE_MS :: int where "DEFAULT_FAILOVER_STALE_MS = 3000"
definition DEFAULT_FAILBACK_STABLE_MS :: int where "DEFAULT_FAILBACK_STABLE_MS = 30000"

definition positive :: "int option \<Rightarrow> int \<Rightarrow> int" where
  "positive v fallback = (case v of Some x \<Rightarrow> if x > 0 then x else fallback | None \<Rightarrow> fallback)"

definition newFeedRouter :: "int option \<Rightarrow> int option \<Rightarrow> nat option \<Rightarrow> int option \<Rightarrow> FeedRouter" where
  "newFeedRouter staleMs stableMs historySize failbackAlignMs =
     \<lparr>rt_options = \<lparr>ro_staleMs = positive staleMs DEFAULT_FAILOVER_STALE_MS, ro_stableMs = positive stableMs DEFAULT_FAILBACK_STABLE_MS,
        ro_historySize = (case historySize of Some n \<Rightarrow> n | None \<Rightarrow> 50), ro_failbackAlignMs = positive failbackAlignMs 0\<rparr>,
      rt_symbols = [], rt_history = []\<rparr>"

section \<open>One symbol\<close>

definition lastAt :: "string \<Rightarrow> SymbolState \<Rightarrow> int option" where
  "lastAt source st = map_option fst (map_of (sy_last st) source)"

definition lastAtOf :: "string option \<Rightarrow> SymbolState \<Rightarrow> int option" where
  "lastAtOf source st = (case source of Some s \<Rightarrow> lastAt s st | None \<Rightarrow> None)"

definition fresh :: "RouterOptions \<Rightarrow> int \<Rightarrow> int option \<Rightarrow> bool" where
  "fresh o1 now seen = (case seen of Some t \<Rightarrow> now - t \<le> ro_staleMs o1 | None \<Rightarrow> False)"

definition switchTo :: "RouterOptions \<Rightarrow> string \<Rightarrow> FeedSwitchReason \<Rightarrow> int \<Rightarrow> SymbolState \<Rightarrow> RouterOutput list \<times> SymbolState" where
  "switchTo o1 target reason now st =
     (let ev = \<lparr>sw_symbol = fr_symbol (sy_route st), sw_from = sy_active st, sw_to = target, sw_reason = reason, sw_at = now,
           sw_primaryLastTickAt = lastAt (fr_primary (sy_route st)) st, sw_backupLastTickAt = lastAtOf (fr_backup (sy_route st)) st\<rparr>;
          handed = (case map_of (sy_last st) target of
             Some (t, tick) \<Rightarrow> if now - t \<le> ro_staleMs o1 then [Forwarded tick] else [] | None \<Rightarrow> [])
      in (Switched ev # handed,
          st\<lparr>sy_failbackDueBucket := None, sy_active := target, sy_activeSince := now, sy_switches := sy_switches st + 1\<rparr>))"

definition primaryStable :: "RouterOptions \<Rightarrow> int \<Rightarrow> SymbolState \<Rightarrow> bool" where
  "primaryStable o1 now st \<longleftrightarrow> fresh o1 now (lastAt (fr_primary (sy_route st)) st)
     \<and> (case sy_primaryHealthySince st of Some h \<Rightarrow> now - h \<ge> ro_stableMs o1 | None \<Rightarrow> False)"

text \<open>\<open>evaluateSymbol\<close> while the backup is active.\<close>

definition evaluateOnBackup :: "RouterOptions \<Rightarrow> int \<Rightarrow> bool \<Rightarrow> bool \<Rightarrow> SymbolState \<Rightarrow> RouterOutput list \<times> SymbolState" where
  "evaluateOnBackup o1 now primaryFresh backupFresh st =
     (let primary = fr_primary (sy_route st) in
      if primaryStable o1 now st
      then (if ro_failbackAlignMs o1 > 0
            then (let bucket = now div ro_failbackAlignMs o1;
                      due = (case sy_failbackDueBucket st of Some b \<Rightarrow> b | None \<Rightarrow> bucket);
                      st1 = st\<lparr>sy_failbackDueBucket := Some due\<rparr>
                  in if bucket \<le> due \<and> backupFresh then ([], st1) else switchTo o1 primary PRIMARY_RECOVERED now st1)
            else switchTo o1 primary PRIMARY_RECOVERED now st)
      else (let st1 = st\<lparr>sy_failbackDueBucket := None\<rparr> in
            if primaryFresh \<and> \<not> backupFresh then switchTo o1 primary BACKUP_STALE now st1 else ([], st1)))"

definition evaluateSymbol :: "RouterOptions \<Rightarrow> int \<Rightarrow> SymbolState \<Rightarrow> RouterOutput list \<times> SymbolState" where
  "evaluateSymbol o1 now st =
     (case fr_backup (sy_route st) of
        None \<Rightarrow> ([], st)
      | Some backup \<Rightarrow>
         (let primaryAt = lastAt (fr_primary (sy_route st)) st;
              primaryFresh = fresh o1 now primaryAt;
              backupFresh = fresh o1 now (lastAt backup st);
              st1 = (if primaryFresh then st else st\<lparr>sy_primaryHealthySince := None\<rparr>)
          in if sy_active st1 = fr_primary (sy_route st)
             then (let silentFor = now - (case primaryAt of Some t \<Rightarrow> t | None \<Rightarrow> sy_since st1)
                   in if silentFor > ro_staleMs o1 \<and> backupFresh then switchTo o1 backup PRIMARY_STALE now st1 else ([], st1))
             else evaluateOnBackup o1 now primaryFresh backupFresh st1))"

text \<open>The tick of a source is recorded before the symbol is evaluated.\<close>

definition recordTick :: "RouterOptions \<Rightarrow> string \<Rightarrow> Tick \<Rightarrow> int \<Rightarrow> SymbolState \<Rightarrow> SymbolState" where
  "recordTick o1 source tick now st =
     (let prev = lastAt source st;
          healthy = (if source = fr_primary (sy_route st)
                        \<and> (prev = None \<or> now - the prev > ro_staleMs o1 \<or> sy_primaryHealthySince st = None)
                     then Some now else sy_primaryHealthySince st)
      in st\<lparr>sy_primaryHealthySince := healthy, sy_last := AList.update source (now, tick) (sy_last st)\<rparr>)"

definition ingestSymbol :: "RouterOptions \<Rightarrow> string \<Rightarrow> Tick \<Rightarrow> int \<Rightarrow> SymbolState \<Rightarrow> bool \<times> RouterOutput list \<times> SymbolState" where
  "ingestSymbol o1 source tick now st =
     (if source \<noteq> fr_primary (sy_route st) \<and> Some source \<noteq> fr_backup (sy_route st) then (False, [], st)
      else let (out, st1) = evaluateSymbol o1 now (recordTick o1 source tick now st) in
        if source \<noteq> sy_active st1 then (False, out, st1)
        else if sy_active st1 \<noteq> sy_active st then (True, out, st1)
        else (True, out @ [Forwarded tick], st1))"

section \<open>The router\<close>

text \<open>Switch events enter the bounded history.\<close>

fun keepHistory :: "nat \<Rightarrow> RouterOutput list \<Rightarrow> FeedSwitchEvent list \<Rightarrow> FeedSwitchEvent list" where
  "keepHistory limit [] history = history"
| "keepHistory limit (Forwarded t # out) history = keepHistory limit out history"
| "keepHistory limit (Switched ev # out) history =
     (let longer = history @ [ev] in keepHistory limit out (if length longer > limit then tl longer else longer))"

definition symbolDone :: "string \<Rightarrow> RouterOutput list \<times> SymbolState \<Rightarrow> FeedRouter \<Rightarrow> FeedRouter" where
  "symbolDone symbol r router = router\<lparr>rt_symbols := AList.update symbol (snd r) (rt_symbols router),
     rt_history := keepHistory (ro_historySize (rt_options router)) (fst r) (rt_history router)\<rparr>"

definition ingest :: "string \<Rightarrow> Tick \<Rightarrow> int \<Rightarrow> FeedRouter \<Rightarrow> bool \<times> RouterOutput list \<times> FeedRouter" where
  "ingest source tick now router =
     (case map_of (rt_symbols router) (tk_symbol tick) of
        None \<Rightarrow> (False, [], router)
      | Some st \<Rightarrow>
         (let (forwarded, out, st1) = ingestSymbol (rt_options router) source tick now st
          in (forwarded, out, symbolDone (tk_symbol tick) (out, st1) router)))"

fun evaluateAll :: "string list \<Rightarrow> int \<Rightarrow> FeedRouter \<Rightarrow> RouterOutput list \<times> FeedRouter" where
  "evaluateAll [] now router = ([], router)"
| "evaluateAll (symbol # rest) now router =
     (case map_of (rt_symbols router) symbol of
        None \<Rightarrow> evaluateAll rest now router
      | Some st \<Rightarrow>
         (let r = evaluateSymbol (rt_options router) now st;
              (out, router1) = evaluateAll rest now (symbolDone symbol r router)
          in (fst r @ out, router1)))"

definition evaluate :: "int \<Rightarrow> FeedRouter \<Rightarrow> RouterOutput list \<times> FeedRouter" where
  "evaluate now router = evaluateAll (map fst (rt_symbols router)) now router"

text \<open>A blank backup, or one that equals the primary, is no backup.\<close>

definition cleanRoute :: "FeedRoute \<Rightarrow> FeedRoute" where
  "cleanRoute r = r\<lparr>fr_backup := (case fr_backup r of
     Some b \<Rightarrow> if b \<noteq> [] \<and> b \<noteq> fr_primary r then Some b else None | None \<Rightarrow> None)\<rparr>"

definition freshSymbol :: "RouterOptions \<Rightarrow> FeedRoute \<Rightarrow> SymbolState option \<Rightarrow> int \<Rightarrow> SymbolState" where
  "freshSymbol o1 route existing now =
     (let last = (case existing of
            Some e \<Rightarrow> filter (\<lambda>(src, _). src = fr_primary route \<or> Some src = fr_backup route) (sy_last e) | None \<Rightarrow> []);
          primaryLast = map_option fst (map_of last (fr_primary route))
      in \<lparr>sy_route = route, sy_active = fr_primary route, sy_activeSince = now, sy_since = now, sy_last = last,
          sy_primaryHealthySince = (if fresh o1 now primaryLast then primaryLast else None),
          sy_switches = (case existing of Some e \<Rightarrow> sy_switches e | None \<Rightarrow> 0), sy_failbackDueBucket = None\<rparr>)"

definition setRoute :: "int \<Rightarrow> FeedRouter \<Rightarrow> FeedRoute \<Rightarrow> FeedRouter" where
  "setRoute now router r =
     (let route = cleanRoute r; existing = map_of (rt_symbols router) (fr_symbol route) in
      if (case existing of
            Some e \<Rightarrow> fr_primary (sy_route e) = fr_primary route \<and> fr_backup (sy_route e) = fr_backup route | None \<Rightarrow> False)
      then router
      else router\<lparr>rt_symbols := AList.update (fr_symbol route) (freshSymbol (rt_options router) route existing now) (rt_symbols router)\<rparr>)"

definition setRoutes :: "FeedRoute list \<Rightarrow> int \<Rightarrow> FeedRouter \<Rightarrow> FeedRouter" where
  "setRoutes routes now router =
     (let router1 = foldl (setRoute now) router routes
      in router1\<lparr>rt_symbols := filter (\<lambda>(symbol, _). symbol \<in> fr_symbol ` set routes) (rt_symbols router1)\<rparr>)"

definition activeSource :: "string \<Rightarrow> FeedRouter \<Rightarrow> string option" where
  "activeSource symbol router = map_option sy_active (map_of (rt_symbols router) symbol)"

text \<open>\<open>state\<close>: what \<open>/status\<close> shows of every symbol.\<close>

record FeedSymbolState =
  fss_primary :: string
  fss_backup :: "string option"
  fss_active :: string
  fss_onBackup :: bool
  fss_primaryLastTickAt :: "int option"
  fss_backupLastTickAt :: "int option"
  fss_primaryHealthySince :: "int option"
  fss_activeSince :: int
  fss_switches :: nat

definition feedSymbolState :: "SymbolState \<Rightarrow> FeedSymbolState" where
  "feedSymbolState st = \<lparr>fss_primary = fr_primary (sy_route st), fss_backup = fr_backup (sy_route st), fss_active = sy_active st,
     fss_onBackup = (sy_active st \<noteq> fr_primary (sy_route st)), fss_primaryLastTickAt = lastAt (fr_primary (sy_route st)) st,
     fss_backupLastTickAt = lastAtOf (fr_backup (sy_route st)) st, fss_primaryHealthySince = sy_primaryHealthySince st,
     fss_activeSince = sy_activeSince st, fss_switches = sy_switches st\<rparr>"

definition feedState :: "FeedRouter \<Rightarrow> (string \<times> FeedSymbolState) list" where
  "feedState router = map (\<lambda>(symbol, st). (symbol, feedSymbolState st)) (rt_symbols router)"

definition recentSwitches :: "FeedRouter \<Rightarrow> FeedSwitchEvent list" where
  "recentSwitches router = rev (rt_history router)"

section \<open>What an evaluation does\<close>

lemma switchTo_simps [simp]:
  "snd (switchTo o1 target reason now st) =
    st\<lparr>sy_failbackDueBucket := None, sy_active := target, sy_activeSince := now, sy_switches := sy_switches st + 1\<rparr>"
  "lastAt s (sy_failbackDueBucket_update f st) = lastAt s st" "lastAt s (sy_active_update g st) = lastAt s st"
  "lastAt s (sy_activeSince_update h st) = lastAt s st" "lastAt s (sy_switches_update k st) = lastAt s st"
  "lastAt s (sy_primaryHealthySince_update l st) = lastAt s st"
  by (simp_all add: switchTo_def Let_def lastAt_def)

lemma evaluateSymbol_frame [simp]:
  "sy_route (snd (evaluateSymbol o1 now st)) = sy_route st" "sy_last (snd (evaluateSymbol o1 now st)) = sy_last st"
  "sy_since (snd (evaluateSymbol o1 now st)) = sy_since st"
  by (simp_all add: evaluateSymbol_def evaluateOnBackup_def Let_def split: option.split)

lemma lastAt_evaluate [simp]: "lastAt s (snd (evaluateSymbol o1 now st)) = lastAt s st"
  by (simp add: lastAt_def)

text \<open>A symbol is well-formed when its active source is one of the two of its route, which differ.\<close>

definition symbol_ok :: "SymbolState \<Rightarrow> bool" where
  "symbol_ok st \<longleftrightarrow> (case fr_backup (sy_route st) of
      None \<Rightarrow> sy_active st = fr_primary (sy_route st)
    | Some b \<Rightarrow> b \<noteq> fr_primary (sy_route st) \<and> (sy_active st = fr_primary (sy_route st) \<or> sy_active st = b))"

lemma symbol_ok_evaluate: "symbol_ok st \<Longrightarrow> symbol_ok (snd (evaluateSymbol o1 now st))"
  by (auto simp: symbol_ok_def evaluateSymbol_def evaluateOnBackup_def Let_def split: option.split)

lemma recordTick_frame [simp]:
  "sy_route (recordTick o1 source tick now st) = sy_route st" "sy_active (recordTick o1 source tick now st) = sy_active st"
  "sy_since (recordTick o1 source tick now st) = sy_since st"
  "sy_last (recordTick o1 source tick now st) = AList.update source (now, tick) (sy_last st)"
  by (simp_all add: recordTick_def Let_def)

lemma symbol_ok_record [simp]: "symbol_ok (recordTick o1 source tick now st) = symbol_ok st"
  by (cases "fr_backup (sy_route st)") (simp_all add: symbol_ok_def)

lemma symbol_ok_fresh: "symbol_ok (freshSymbol o1 (cleanRoute r) e now)"
  by (simp add: symbol_ok_def freshSymbol_def cleanRoute_def Let_def split: option.split)

text \<open>An evaluation forwards at most one tick, the latest one of the source that is active afterwards.\<close>

definition forwarded :: "RouterOutput list \<Rightarrow> Tick list" where
  "forwarded out = concat (map (\<lambda>r. case r of Forwarded t \<Rightarrow> [t] | Switched _ \<Rightarrow> []) out)"

lemma switchTo_forwards:
  "forwarded (fst (switchTo o1 target reason now st)) = (case map_of (sy_last st) target of
     Some (t, tick) \<Rightarrow> if now - t \<le> ro_staleMs o1 then [tick] else [] | None \<Rightarrow> [])"
  by (simp add: switchTo_def Let_def forwarded_def split: option.split)

lemma evaluate_forwards:
  assumes "evaluateSymbol o1 now st = (out, st')" "symbol_ok st"
  shows "(sy_active st' = sy_active st \<and> forwarded out = []) \<or> (sy_active st' \<noteq> sy_active st
    \<and> forwarded out = (case map_of (sy_last st') (sy_active st') of
       Some (t, tick) \<Rightarrow> if now - t \<le> ro_staleMs o1 then [tick] else [] | None \<Rightarrow> []))"
proof -
  have e: "out = fst (evaluateSymbol o1 now st)" "st' = snd (evaluateSymbol o1 now st)" using assms(1) by simp_all
  show ?thesis
    unfolding e evaluateSymbol_frame using assms(2)
    by (auto simp: symbol_ok_def evaluateSymbol_def evaluateOnBackup_def Let_def switchTo_forwards forwarded_def [of "[]"] split: option.split)
qed

end
