(* ===== verification/FeedProofs.thy ===== *)
theory FeedProofs
  imports FeedRouter
begin

text \<open>Properties of the feed router: one stream per symbol, no stuck source, and switches with a cause.\<close>

section \<open>One stream\<close>

lemma ingest_forwards:
  assumes "ingestSymbol o1 source tick now st = (f, out, st')" "0 \<le> ro_staleMs o1" "symbol_ok st"
  shows "(forwarded out = [] \<or> (\<exists>t tk. map_of (sy_last st') (sy_active st') = Some (t, tk) \<and> now - t \<le> ro_staleMs o1 \<and> forwarded out = [tk]))
    \<and> (f \<longrightarrow> forwarded out = [tick] \<and> sy_active st' = source) \<and> (\<not> f \<longrightarrow> forwarded out \<noteq> [] \<longrightarrow> sy_active st' \<noteq> source)"
proof (cases "source \<noteq> fr_primary (sy_route st) \<and> Some source \<noteq> fr_backup (sy_route st)")
  case True
  then show ?thesis using assms(1) by (simp add: ingestSymbol_def forwarded_def)
next
  case False
  obtain out1 st1 where e: "evaluateSymbol o1 now (recordTick o1 source tick now st) = (out1, st1)" by fastforce
  have fwd: "(sy_active st1 = sy_active st \<and> forwarded out1 = []) \<or> (sy_active st1 \<noteq> sy_active st
      \<and> forwarded out1 = (case map_of (sy_last st1) (sy_active st1) of
         Some (t, tick) \<Rightarrow> if now - t \<le> ro_staleMs o1 then [tick] else [] | None \<Rightarrow> []))"
    using evaluate_forwards [OF e] assms(3) by simp
  have "sy_last st1 = AList.update source (now, tick) (sy_last st)"
    using evaluateSymbol_frame(2) [of o1 now "recordTick o1 source tick now st"] e by simp
  then have own: "map_of (sy_last st1) source = Some (now, tick)" by (simp add: update_conv')
  have app: "forwarded (xs @ [Forwarded t]) = forwarded xs @ [t]" for xs t by (simp add: forwarded_def)
  have r: "f = (source = sy_active st1)" "st' = st1" "out = (if source = sy_active st1 \<and> sy_active st1 = sy_active st then out1 @ [Forwarded tick] else out1)"
    using False assms(1) e by (auto simp: ingestSymbol_def split: if_splits)
  show ?thesis
  proof (cases "source = sy_active st1")
    case True
    then show ?thesis using r fwd own app assms(2) by auto
  next
    case False
    then show ?thesis using r fwd by (auto split: option.splits if_splits)
  qed
qed

text \<open>Every operation keeps the symbols well-formed and the options.\<close>

definition router_ok :: "FeedRouter \<Rightarrow> bool" where
  "router_ok router \<longleftrightarrow> (\<forall>s st. map_of (rt_symbols router) s = Some st \<longrightarrow> symbol_ok st)
     \<and> distinct (map fst (rt_symbols router)) \<and> 0 \<le> ro_staleMs (rt_options router)"

lemma router_ok_put:
  "router_ok router \<Longrightarrow> symbol_ok st \<Longrightarrow> router_ok (router\<lparr>rt_symbols := AList.update s st (rt_symbols router)\<rparr>)"
  by (simp add: router_ok_def update_conv' distinct_update)

lemma router_ok_done: "router_ok router \<Longrightarrow> symbol_ok (snd r) \<Longrightarrow> router_ok (symbolDone s r router)"
  by (simp add: router_ok_def update_conv' symbolDone_def distinct_update)

lemma symbol_ok_ingest: "ingestSymbol o1 source tick now st = (f, out, st') \<Longrightarrow> symbol_ok st \<Longrightarrow> symbol_ok st'"
  using symbol_ok_evaluate [of "recordTick o1 source tick now st" o1 now]
  by (auto simp: ingestSymbol_def split: if_splits prod.splits)

lemma map_of_kept: "map_of (filter (\<lambda>(k, _). k \<in> K) xs) s = (if s \<in> K then map_of xs s else None)"
  by (induction xs) auto

inductive router_step :: "FeedRouter \<Rightarrow> RouterOutput list \<Rightarrow> FeedRouter \<Rightarrow> bool" where
  routes: "router_step router [] (setRoutes routes now router)"
| offered: "ingest source tick now router = (f, out, router') \<Longrightarrow> router_step router out router'"
| clocked: "FeedRouter.evaluate now router = (out, router') \<Longrightarrow> router_step router out router'"

inductive router_reach :: "FeedRouter \<Rightarrow> bool" where
  built: "router_reach (newFeedRouter staleMs stableMs historySize alignMs)"
| moved: "router_reach router \<Longrightarrow> router_step router out router' \<Longrightarrow> router_reach router'"

lemma router_ok_evaluate: "router_ok router \<Longrightarrow> router_ok (snd (evaluateAll ss now router))"
proof (induction ss arbitrary: router)
  case (Cons s ss)
  show ?case
  proof (cases "map_of (rt_symbols router) s")
    case (Some st)
    let ?r = "evaluateSymbol (rt_options router) now st"
    have "symbol_ok (snd ?r)" using Some Cons.prems symbol_ok_evaluate by (auto simp: router_ok_def)
    then have "router_ok (snd (evaluateAll ss now (symbolDone s ?r router)))" using Cons router_ok_done by blast
    then show ?thesis by (simp add: Some Let_def split_beta)
  qed (use Cons in simp)
qed simp

lemma router_ok_step: "router_step router out router' \<Longrightarrow> router_ok router \<Longrightarrow> router_ok router'"
proof (induction rule: router_step.induct)
  case (routes router routes now)
  have "router_ok (setRoute now r x)" if "router_ok r" for r x
    using that symbol_ok_fresh by (auto simp: setRoute_def Let_def router_ok_put)
  then have "router_ok (foldl (setRoute now) r routes)" if "router_ok r" for r routes
    using that by (induction routes arbitrary: r) auto
  then have ok: "router_ok (foldl (setRoute now) router routes)" using routes by blast
  have "distinct (map fst (filter P xs))" if "distinct (map fst xs)" for P :: "string \<times> SymbolState \<Rightarrow> bool" and xs
    using that by (induction xs) auto
  then show ?case using ok by (auto simp: setRoutes_def Let_def router_ok_def map_of_kept split: if_splits)
next
  case (offered source tick now router f out router')
  then show ?case using symbol_ok_ingest
    by (auto simp: ingest_def router_ok_def symbolDone_def update_conv' distinct_update split: option.splits prod.splits if_splits)
next
  case (clocked now router out router')
  then show ?case using router_ok_evaluate [of router "map fst (rt_symbols router)" now] by (simp add: FeedRouter.evaluate_def)
qed

lemma reach_ok: "router_reach router \<Longrightarrow> router_ok router"
proof (induction rule: router_reach.induct)
  case (built a b c d)
  then show ?case by (simp add: router_ok_def newFeedRouter_def positive_def DEFAULT_FAILOVER_STALE_MS_def split: option.split)
qed (rule router_ok_step)

text \<open>
  The engine sees one price stream per symbol. In every state the router can reach, offering a tick forwards
  at most one tick, which is the latest and fresh tick of the source that is active for the symbol afterwards,
  and it says that it forwarded the offered tick exactly when that is the one; symbols without a route forward
  nothing.
\<close>

theorem one_stream_per_symbol:
  assumes "router_reach router" "ingest source tick now router = (f, out, router')"
  shows "length (forwarded out) \<le> 1
    \<and> (\<forall>t\<in>set (forwarded out). \<exists>st t0. map_of (rt_symbols router') (tk_symbol tick) = Some st
        \<and> map_of (sy_last st) (sy_active st) = Some (t0, t) \<and> now - t0 \<le> ro_staleMs (rt_options router))
    \<and> (f \<longrightarrow> forwarded out = [tick] \<and> activeSource (tk_symbol tick) router' = Some source)
    \<and> (\<not> f \<and> forwarded out \<noteq> [] \<longrightarrow> activeSource (tk_symbol tick) router' \<noteq> Some source)
    \<and> (map_of (rt_symbols router) (tk_symbol tick) = None \<longrightarrow> out = [] \<and> router' = router)"
proof (cases "map_of (rt_symbols router) (tk_symbol tick)")
  case None
  then show ?thesis using assms(2) by (simp add: ingest_def forwarded_def)
next
  case (Some st)
  obtain st' where i: "ingestSymbol (rt_options router) source tick now st = (f, out, st')" "router' = symbolDone (tk_symbol tick) (out, st') router"
    using assms(2) Some by (auto simp: ingest_def split: prod.splits)
  have ok: "symbol_ok st" "0 \<le> ro_staleMs (rt_options router)" using reach_ok [OF assms(1)] Some by (auto simp: router_ok_def)
  have r: "map_of (rt_symbols router') (tk_symbol tick) = Some st'" by (simp add: i(2) symbolDone_def update_conv')
  show ?thesis using ingest_forwards [OF i(1) ok(2) ok(1)] r Some by (auto simp: activeSource_def)
qed

section \<open>No stuck source\<close>

lemma evaluateAll_each:
  assumes "distinct ss" "map_of (rt_symbols router) s = Some st"
  shows "map_of (rt_symbols (snd (evaluateAll ss now router))) s
    = Some (if s \<in> set ss then snd (evaluateSymbol (rt_options router) now st) else st)"
  using assms
proof (induction ss arbitrary: router st)
  case (Cons x ss)
  show ?case
  proof (cases "map_of (rt_symbols router) x")
    case None
    then show ?thesis using Cons by auto
  next
    case (Some sx)
    let ?r = "symbolDone x (evaluateSymbol (rt_options router) now sx) router"
    have opt: "rt_options ?r = rt_options router" by (simp add: symbolDone_def)
    have "map_of (rt_symbols ?r) s = Some (if s = x then snd (evaluateSymbol (rt_options router) now st) else st)"
      using Cons.prems(2) Some by (auto simp: symbolDone_def update_conv')
    from Cons.IH [OF _ this] Cons.prems(1) show ?thesis
      by (auto simp: Some Let_def split_beta opt)
  qed
qed simp

text \<open>
  C21: A live source takes over. Whenever the timer evaluates a reachable router, a symbol with a backup ends on the
  primary if only the primary ticked within the failover time, on the backup if only the backup did and the
  primary has been silent that long, and stays where it was if both are silent; a primary that is live is never
  left for a backup.
\<close>

theorem live_source_takes_over:
  assumes "router_reach router" "FeedRouter.evaluate now router = (out, router')"
    and "map_of (rt_symbols router) s = Some st" "fr_backup (sy_route st) = Some b" "primary = fr_primary (sy_route st)"
    and "pf = fresh (rt_options router) now (lastAt primary st)" "bf = fresh (rt_options router) now (lastAt b st)"
    and "silent = now - (case lastAt primary st of Some t \<Rightarrow> t | None \<Rightarrow> sy_since st)"
  shows "\<exists>st'. map_of (rt_symbols router') s = Some st'
    \<and> (pf \<and> \<not> bf \<longrightarrow> sy_active st' = primary)
    \<and> (\<not> pf \<and> bf \<and> silent > ro_staleMs (rt_options router) \<longrightarrow> sy_active st' = b)
    \<and> (\<not> pf \<and> \<not> bf \<longrightarrow> sy_active st' = sy_active st)
    \<and> (pf \<and> sy_active st = primary \<longrightarrow> sy_active st' = primary)"
proof -
  let ?st = "snd (evaluateSymbol (rt_options router) now st)"
  have ok: "router_ok router" by (rule reach_ok [OF assms(1)])
  then have sok: "symbol_ok st" using assms(3) by (simp add: router_ok_def)
  have "s \<in> set (map fst (rt_symbols router))" using map_of_SomeD [OF assms(3)] by force
  then have row: "map_of (rt_symbols router') s = Some ?st"
    using evaluateAll_each [OF _ assms(3), of "map fst (rt_symbols router)" now] ok assms(2)
    by (auto simp: router_ok_def FeedRouter.evaluate_def)
  define st1 where "st1 = (if pf then st else st\<lparr>sy_primaryHealthySince := None\<rparr>)"
  have st1: "sy_active st1 = sy_active st" "sy_since st1 = sy_since st" by (simp_all add: st1_def)
  have e: "evaluateSymbol (rt_options router) now st = (if sy_active st = primary
      then if silent > ro_staleMs (rt_options router) \<and> bf then switchTo (rt_options router) b PRIMARY_STALE now st1 else ([], st1)
      else evaluateOnBackup (rt_options router) now pf bf st1)"
    by (simp add: evaluateSymbol_def assms(4) assms(5-8) Let_def st1_def split: option.split)
  have route: "fr_primary (sy_route st1) = primary" by (simp add: st1_def assms(5))
  have stable: "\<not> pf \<Longrightarrow> \<not> primaryStable (rt_options router) now st1" by (simp add: primaryStable_def st1_def)
  have live: "pf \<Longrightarrow> silent \<le> ro_staleMs (rt_options router)" by (auto simp: assms(6,8) fresh_def split: option.splits)
  have backup: "sy_active st \<noteq> primary \<Longrightarrow> sy_active st = b" using sok assms(4,5) by (auto simp: symbol_ok_def)
  have "(pf \<and> \<not> bf \<longrightarrow> sy_active ?st = primary) \<and> (\<not> pf \<and> bf \<and> silent > ro_staleMs (rt_options router) \<longrightarrow> sy_active ?st = b)
    \<and> (\<not> pf \<and> \<not> bf \<longrightarrow> sy_active ?st = sy_active st) \<and> (pf \<and> sy_active st = primary \<longrightarrow> sy_active ?st = primary)"
  proof (cases "sy_active st = primary")
    case True
    then show ?thesis using live by (auto simp: e st1)
  next
    case False
    then have b: "sy_active st = b" by (rule backup)
    have on: "(pf \<and> \<not> bf \<longrightarrow> sy_active (snd (evaluateOnBackup (rt_options router) now pf bf st1)) = primary)
      \<and> (\<not> pf \<longrightarrow> sy_active (snd (evaluateOnBackup (rt_options router) now pf bf st1)) = sy_active st)"
      using stable by (auto simp: evaluateOnBackup_def Let_def route st1)
    then show ?thesis using False b by (cases pf; cases bf) (simp_all add: e)
  qed
  then show ?thesis using row by blast
qed

section \<open>Switches have a cause\<close>

text \<open>What reaches one symbol: ticks of its sources and evaluations by the timer, each at its time.\<close>

datatype SymbolOp = TickOp string Tick int | ClockOp int

fun opTime :: "SymbolOp \<Rightarrow> int" where
  "opTime (TickOp s tick now) = now"
| "opTime (ClockOp now) = now"

fun isTickOf :: "string \<Rightarrow> SymbolOp \<Rightarrow> bool" where
  "isTickOf s (TickOp s' tick now) = (s' = s)"
| "isTickOf s (ClockOp now) = False"

definition sourceTicks :: "string \<Rightarrow> SymbolOp list \<Rightarrow> int list" where
  "sourceTicks s ops = map opTime (filter (isTickOf s) ops)"

fun applySymbol :: "RouterOptions \<Rightarrow> SymbolOp \<Rightarrow> SymbolState \<Rightarrow> RouterOutput list \<times> SymbolState" where
  "applySymbol o1 (TickOp s tick now) st = snd (ingestSymbol o1 s tick now st)"
| "applySymbol o1 (ClockOp now) st = evaluateSymbol o1 now st"

definition runSymbol :: "RouterOptions \<Rightarrow> SymbolOp list \<Rightarrow> SymbolState \<Rightarrow> SymbolState" where
  "runSymbol o1 ops st = foldl (\<lambda>st x. snd (applySymbol o1 x st)) st ops"

text \<open>At every moment from \<open>a\<close> to \<open>b\<close> the last tick was at most \<open>k\<close> old.\<close>

definition gapFree :: "int \<Rightarrow> int set \<Rightarrow> int \<Rightarrow> int \<Rightarrow> bool" where
  "gapFree k T a b \<longleftrightarrow> (\<forall>u. a \<le> u \<and> u \<le> b \<longrightarrow> (\<exists>x\<in>T. x \<le> u \<and> u \<le> x + k))"

lemma gapFree_mono: "gapFree k T a b \<Longrightarrow> T \<subseteq> T' \<Longrightarrow> gapFree k T' a b"
  by (fastforce simp: gapFree_def)

lemma gapFree_extend: "gapFree k T a b \<Longrightarrow> b \<in> T \<Longrightarrow> c \<le> b + k \<Longrightarrow> gapFree k T a c"
  unfolding gapFree_def
proof (intro allI impI)
  fix u assume *: "\<forall>u. a \<le> u \<and> u \<le> b \<longrightarrow> (\<exists>x\<in>T. x \<le> u \<and> u \<le> x + k)" "b \<in> T" "c \<le> b + k" "a \<le> u \<and> u \<le> c"
  show "\<exists>x\<in>T. x \<le> u \<and> u \<le> x + k"
  proof (cases "u \<le> b")
    case False
    then show ?thesis using * by (intro bexI [of _ b]) simp_all
  qed (use * in blast)
qed

text \<open>The state remembers the last tick of each source, and a gap-free stretch of the primary.\<close>

definition lastTick :: "int list \<Rightarrow> int option" where
  "lastTick ts = (if ts = [] then None else Some (last ts))"

definition tracked :: "RouterOptions \<Rightarrow> FeedRoute \<Rightarrow> SymbolOp list \<Rightarrow> SymbolState \<Rightarrow> bool" where
  "tracked o1 route ops st \<longleftrightarrow> sy_route st = route \<and> symbol_ok st
     \<and> (\<forall>s. s = fr_primary route \<or> Some s = fr_backup route \<longrightarrow> lastAt s st = lastTick (sourceTicks s ops))
     \<and> (\<forall>h. sy_primaryHealthySince st = Some h \<longrightarrow> (\<exists>p. lastTick (sourceTicks (fr_primary route) ops) = Some p \<and> h \<le> p
          \<and> gapFree (ro_staleMs o1) (set (sourceTicks (fr_primary route) ops)) h p))"

lemma healthy_evaluate:
  "sy_primaryHealthySince (snd (evaluateSymbol o1 now st)) = sy_primaryHealthySince st \<or> sy_primaryHealthySince (snd (evaluateSymbol o1 now st)) = None"
  by (simp add: evaluateSymbol_def evaluateOnBackup_def Let_def split: option.split)

lemma tracked_evaluate: "tracked o1 route ops st \<Longrightarrow> tracked o1 route ops (snd (evaluateSymbol o1 now st))"
  using healthy_evaluate [of o1 now st] symbol_ok_evaluate [of st o1 now] by (auto simp: tracked_def)

lemma sourceTicks_snoc: "sourceTicks s (ops @ [x]) = sourceTicks s ops @ (if isTickOf s x then [opTime x] else [])"
  by (simp add: sourceTicks_def)

lemma lastTick_snoc [simp]: "lastTick (ts @ [t]) = Some t"
  by (simp add: lastTick_def)

lemma lastTick_member: "lastTick ts = Some t \<Longrightarrow> t \<in> set ts"
  by (auto simp: lastTick_def split: if_splits)

lemma tracked_record:
  assumes "tracked o1 route ops st" "s = fr_primary route \<or> Some s = fr_backup route" "0 \<le> ro_staleMs o1"
    and "\<forall>t\<in>set (sourceTicks (fr_primary route) ops). t \<le> now"
  shows "tracked o1 route (ops @ [TickOp s tick now]) (recordTick o1 s tick now st)"
proof -
  let ?P = "sourceTicks (fr_primary route) ops"
  have at_s: "lastAt x (recordTick o1 s tick now st) = (if x = s then Some now else lastAt x st)" for x
    by (simp add: lastAt_def update_conv')
  have route: "sy_route st = route" using assms(1) by (simp add: tracked_def)
  have last: "lastAt (fr_primary route) st = lastTick ?P" using assms(1) by (simp add: tracked_def)
  have "\<exists>p. lastTick (sourceTicks (fr_primary route) (ops @ [TickOp s tick now])) = Some p \<and> h \<le> p
      \<and> gapFree (ro_staleMs o1) (set (sourceTicks (fr_primary route) (ops @ [TickOp s tick now]))) h p"
    if h: "sy_primaryHealthySince (recordTick o1 s tick now st) = Some h" for h
  proof (cases "s = fr_primary route")
    case False
    then have "sy_primaryHealthySince st = Some h" using h route by (simp add: recordTick_def Let_def)
    then show ?thesis using assms(1) False by (simp add: tracked_def sourceTicks_snoc)
  next
    case True
    show ?thesis
    proof (cases "lastTick ?P = None \<or> now - the (lastTick ?P) > ro_staleMs o1 \<or> sy_primaryHealthySince st = None")
      case restart: True
      then have "h = now" using h route True last by (simp add: recordTick_def Let_def)
      moreover have "gapFree (ro_staleMs o1) (insert now (set ?P)) now now" using assms(3) by (auto simp: gapFree_def)
      ultimately show ?thesis using True by (simp add: sourceTicks_snoc)
    next
      case go: False
      then have st: "sy_primaryHealthySince st = Some h" using h route True last by (auto simp: recordTick_def Let_def split: if_splits)
      obtain p where p: "lastTick ?P = Some p" "h \<le> p" "gapFree (ro_staleMs o1) (set ?P) h p"
        using assms(1) st unfolding tracked_def by blast
      have "now \<le> p + ro_staleMs o1" "p \<le> now" using go p(1) lastTick_member [OF p(1)] assms(4) by auto
      then have "gapFree (ro_staleMs o1) (set ?P) h now" using gapFree_extend [OF p(3) lastTick_member [OF p(1)]] by blast
      then have "gapFree (ro_staleMs o1) (insert now (set ?P)) h now" by (rule gapFree_mono) auto
      then show ?thesis using True p(2) \<open>p \<le> now\<close> by (simp add: sourceTicks_snoc)
    qed
  qed
  then show ?thesis using assms(1,2) at_s by (auto simp: tracked_def sourceTicks_snoc)
qed

lemma tracked_apply:
  assumes "tracked o1 route ops st" "0 \<le> ro_staleMs o1" "\<forall>x\<in>set ops. opTime x \<le> opTime x1"
  shows "tracked o1 route (ops @ [x1]) (snd (applySymbol o1 x1 st))"
proof (cases x1)
  case (ClockOp now)
  then show ?thesis using tracked_evaluate [OF assms(1)] by (simp add: tracked_def sourceTicks_snoc)
next
  case (TickOp s tick now)
  have "\<forall>t\<in>set (sourceTicks (fr_primary route) ops). t \<le> now" using assms(3) TickOp by (auto simp: sourceTicks_def)
  note rec = tracked_record [OF assms(1) _ assms(2) this, of s tick]
  have route: "sy_route st = route" using assms(1) by (simp add: tracked_def)
  show ?thesis
  proof (cases "s = fr_primary route \<or> Some s = fr_backup route")
    case True
    from tracked_evaluate [OF rec [OF True], of now] True route show ?thesis
      by (auto simp: TickOp ingestSymbol_def split_beta)
  next
    case False
    then have "snd (applySymbol o1 x1 st) = st" by (auto simp: TickOp ingestSymbol_def route)
    moreover have "sourceTicks x (ops @ [x1]) = sourceTicks x ops" if "x = fr_primary route \<or> Some x = fr_backup route" for x
      using False that by (auto simp: sourceTicks_snoc TickOp)
    ultimately show ?thesis using assms(1) by (auto simp: tracked_def)
  qed
qed

lemma tracked_run:
  assumes "0 \<le> ro_staleMs o1" "sorted (map opTime ops)"
  shows "tracked o1 (cleanRoute r) ops (runSymbol o1 ops (freshSymbol o1 (cleanRoute r) None t0))"
  using assms(2)
proof (induction ops rule: rev_induct)
  case Nil
  have "symbol_ok (freshSymbol o1 (cleanRoute r) None t0)" by (rule symbol_ok_fresh)
  then show ?case by (simp add: tracked_def runSymbol_def sourceTicks_def lastTick_def freshSymbol_def Let_def fresh_def lastAt_def)
next
  case (snoc x ops)
  then have "sorted (map opTime ops)" "\<forall>y\<in>set ops. opTime y \<le> opTime x" by (simp_all add: sorted_append)
  then show ?case using tracked_apply [OF _ assms(1)] snoc.IH by (simp add: runSymbol_def)
qed

lemma evaluate_switch:
  assumes "Switched ev \<in> set (fst (evaluateSymbol o1 now st))"
  shows "sw_at ev = now \<and> (\<exists>b. fr_backup (sy_route st) = Some b \<and> (case sw_reason ev of
      PRIMARY_STALE \<Rightarrow> sw_to ev = b \<and> \<not> fresh o1 now (lastAt (fr_primary (sy_route st)) st) \<and> fresh o1 now (lastAt b st)
    | PRIMARY_RECOVERED \<Rightarrow> sw_to ev = fr_primary (sy_route st) \<and> primaryStable o1 now st
    | BACKUP_STALE \<Rightarrow> sw_to ev = fr_primary (sy_route st) \<and> fresh o1 now (lastAt (fr_primary (sy_route st)) st) \<and> \<not> fresh o1 now (lastAt b st)))"
proof -
  have sw: "Switched ev \<in> set (fst (switchTo o1 t re now x)) \<Longrightarrow> sw_at ev = now \<and> sw_to ev = t \<and> sw_reason ev = re" for t re x
    by (auto simp: switchTo_def Let_def split: option.splits if_splits)
  obtain b where b: "fr_backup (sy_route st) = Some b" using assms by (auto simp: evaluateSymbol_def split: option.splits)
  let ?p = "fr_primary (sy_route st)"
  let ?pf = "fresh o1 now (lastAt ?p st)" and ?bf = "fresh o1 now (lastAt b st)"
  define st1 where "st1 = (if ?pf then st else st\<lparr>sy_primaryHealthySince := None\<rparr>)"
  have st1: "sy_route st1 = sy_route st" "primaryStable o1 now st1 \<Longrightarrow> primaryStable o1 now st" by (auto simp: st1_def primaryStable_def split: if_splits)
  have stable: "primaryStable o1 now (st1\<lparr>sy_failbackDueBucket := z\<rparr>) = primaryStable o1 now st1" for z by (simp add: primaryStable_def)
  show ?thesis
  proof (cases "sy_active st = ?p")
    case True
    then have "Switched ev \<in> set (fst (switchTo o1 b PRIMARY_STALE now st1)) \<and> ?bf
        \<and> now - (case lastAt ?p st of Some t \<Rightarrow> t | None \<Rightarrow> sy_since st) > ro_staleMs o1"
      using assms by (auto simp: evaluateSymbol_def b Let_def st1_def split: if_splits option.splits)
    moreover then have "\<not> ?pf" by (auto simp: fresh_def split: option.splits)
    ultimately show ?thesis using sw b by auto
  next
    case False
    then have "Switched ev \<in> set (fst (evaluateOnBackup o1 now ?pf ?bf st1))"
      using assms by (auto simp: evaluateSymbol_def b Let_def st1_def split: if_splits)
    then consider (rec) x where "Switched ev \<in> set (fst (switchTo o1 ?p PRIMARY_RECOVERED now x))" "primaryStable o1 now st1"
      | (bs) x where "Switched ev \<in> set (fst (switchTo o1 ?p BACKUP_STALE now x))" "?pf" "\<not> ?bf"
      by (auto simp: evaluateOnBackup_def Let_def st1(1) split: if_splits)
    then show ?thesis
    proof cases
      case rec
      then show ?thesis using sw [OF rec(1)] st1(2) b by auto
    next
      case bs
      then show ?thesis using sw [OF bs(1)] b by auto
    qed
  qed
qed

lemma lastTick_sorted: "sorted ts \<Longrightarrow> lastTick ts = Some t \<Longrightarrow> x \<in> set ts \<Longrightarrow> x \<le> t"
  by (cases ts rule: rev_cases) (auto simp: lastTick_def sorted_append)

lemma fresh_ticks:
  assumes "sorted ts"
  shows "fresh o1 now (lastTick ts) \<longleftrightarrow> (\<exists>x\<in>set ts. now \<le> x + ro_staleMs o1)"
proof (cases "lastTick ts")
  case None
  then show ?thesis by (cases ts) (simp_all add: lastTick_def fresh_def)
next
  case (Some t)
  have "now - t \<le> ro_staleMs o1 \<longleftrightarrow> (\<exists>x\<in>set ts. now \<le> x + ro_staleMs o1)" (is "?l = ?r")
  proof
    assume ?l
    then show ?r using lastTick_member [OF Some] by (intro bexI [of _ t]) simp_all
  next
    assume ?r
    then obtain x where "x \<in> set ts" "now \<le> x + ro_staleMs o1" by blast
    then show ?l using lastTick_sorted [OF assms Some, of x] by simp
  qed
  then show ?thesis by (simp add: fresh_def Some)
qed

text \<open>
  C20: Every switch has its cause in the ticks that were offered. From a new route and with a clock that does not
  run backwards, the router leaves the primary only when no tick of the primary but one of the backup is at most
  the failover time old, goes back early only in the opposite case, and fails back otherwise only after the
  primary ticked without a gap longer than the failover time during the whole stability period.
\<close>

theorem switches_have_a_cause:
  assumes "sorted (map opTime (ops @ [x]))" "0 \<le> ro_staleMs o1"
    and "st = runSymbol o1 ops (freshSymbol o1 (cleanRoute r) None t0)"
    and "applySymbol o1 x st = (out, st')" "Switched ev \<in> set out"
    and "P = sourceTicks (fr_primary r) (ops @ [x])"
  shows "sw_at ev = opTime x \<and> (\<exists>b. fr_backup r = Some b \<and> (case sw_reason ev of
      PRIMARY_STALE \<Rightarrow> sw_to ev = b \<and> (\<forall>t\<in>set P. t + ro_staleMs o1 < opTime x)
        \<and> (\<exists>t\<in>set (sourceTicks b (ops @ [x])). opTime x \<le> t + ro_staleMs o1)
    | BACKUP_STALE \<Rightarrow> sw_to ev = fr_primary r \<and> (\<exists>t\<in>set P. opTime x \<le> t + ro_staleMs o1)
        \<and> (\<forall>t\<in>set (sourceTicks b (ops @ [x])). t + ro_staleMs o1 < opTime x)
    | PRIMARY_RECOVERED \<Rightarrow> sw_to ev = fr_primary r \<and> gapFree (ro_staleMs o1) (set P) (opTime x - ro_stableMs o1) (opTime x)))"
proof -
  have so: "sorted (map opTime ops)" "\<forall>y\<in>set ops. opTime y \<le> opTime x" using assms(1) by (simp_all add: sorted_append)
  have tr: "tracked o1 (cleanRoute r) ops st" unfolding assms(3) by (rule tracked_run [OF assms(2) so(1)])
  have ts: "sorted (sourceTicks s (ops @ [x]))" for s unfolding sourceTicks_def by (rule sorted_filter [OF assms(1)])
  obtain st1 where st1: "Switched ev \<in> set (fst (evaluateSymbol o1 (opTime x) st1))" "tracked o1 (cleanRoute r) (ops @ [x]) st1"
  proof (cases x)
    case (ClockOp now)
    then show ?thesis using that [of st] assms(4,5) tr by (simp add: tracked_def sourceTicks_snoc)
  next
    case (TickOp s tick now)
    let ?r = "recordTick o1 s tick now st"
    have src: "s = fr_primary (cleanRoute r) \<or> Some s = fr_backup (cleanRoute r)"
      using assms(4,5) tr by (auto simp: TickOp ingestSymbol_def tracked_def split: if_splits)
    have "\<forall>t\<in>set (sourceTicks (fr_primary (cleanRoute r)) ops). t \<le> now" using so(2) TickOp by (auto simp: sourceTicks_def)
    then have "tracked o1 (cleanRoute r) (ops @ [TickOp s tick now]) ?r" by (rule tracked_record [OF tr src assms(2)])
    moreover have "Switched ev \<in> set (fst (evaluateSymbol o1 now ?r))"
      using assms(4,5) by (auto simp: TickOp ingestSymbol_def split_beta split: if_splits)
    ultimately show ?thesis using that [of ?r] TickOp by simp
  qed
  have route: "sy_route st1 = cleanRoute r" "fr_primary (cleanRoute r) = fr_primary r"
    and last: "\<And>s. s = fr_primary r \<or> Some s = fr_backup (cleanRoute r) \<Longrightarrow> lastAt s st1 = lastTick (sourceTicks s (ops @ [x]))"
    using st1(2) by (auto simp: tracked_def cleanRoute_def)
  from evaluate_switch [OF st1(1), unfolded route] obtain b where b: "fr_backup (cleanRoute r) = Some b" and sw: "sw_at ev = opTime x"
    "case sw_reason ev of
      PRIMARY_STALE \<Rightarrow> sw_to ev = b \<and> \<not> fresh o1 (opTime x) (lastAt (fr_primary r) st1) \<and> fresh o1 (opTime x) (lastAt b st1)
    | PRIMARY_RECOVERED \<Rightarrow> sw_to ev = fr_primary r \<and> primaryStable o1 (opTime x) st1
    | BACKUP_STALE \<Rightarrow> sw_to ev = fr_primary r \<and> fresh o1 (opTime x) (lastAt (fr_primary r) st1) \<and> \<not> fresh o1 (opTime x) (lastAt b st1)"
    by auto
  have rb: "fr_backup r = Some b" using b by (auto simp: cleanRoute_def split: option.splits if_splits)
  have lp: "lastAt (fr_primary r) st1 = lastTick P" "lastAt b st1 = lastTick (sourceTicks b (ops @ [x]))" using last b by (simp_all add: assms(6))
  have fp: "fresh o1 (opTime x) (lastTick P) \<longleftrightarrow> (\<exists>t\<in>set P. opTime x \<le> t + ro_staleMs o1)" unfolding assms(6) by (rule fresh_ticks [OF ts])
  have fb: "fresh o1 (opTime x) (lastTick (sourceTicks b (ops @ [x]))) \<longleftrightarrow> (\<exists>t\<in>set (sourceTicks b (ops @ [x])). opTime x \<le> t + ro_staleMs o1)"
    by (rule fresh_ticks [OF ts])
  have gap: "gapFree (ro_staleMs o1) (set P) (opTime x - ro_stableMs o1) (opTime x)" if stable: "primaryStable o1 (opTime x) st1"
  proof -
    obtain h where h: "sy_primaryHealthySince st1 = Some h" "opTime x - h \<ge> ro_stableMs o1"
      using stable by (auto simp: primaryStable_def split: option.splits)
    then obtain p where p: "lastTick P = Some p" "h \<le> p" "gapFree (ro_staleMs o1) (set P) h p"
      using st1(2) route(2) unfolding tracked_def assms(6) by auto
    have "opTime x \<le> p + ro_staleMs o1" using stable p(1) lp(1) by (simp add: primaryStable_def fresh_def route)
    then have "gapFree (ro_staleMs o1) (set P) h (opTime x)" using gapFree_extend [OF p(3) lastTick_member [OF p(1)]] by blast
    then show ?thesis using h(2) by (simp add: gapFree_def)
  qed
  show ?thesis using sw rb gap unfolding lp fp fb by (cases "sw_reason ev") (auto simp: not_le)
qed

section \<open>Examples\<close>

definition sampleRoute :: FeedRoute where
  "sampleRoute = \<lparr>fr_symbol = ''EURUSD'', fr_primary = ''CTRADER'', fr_backup = Some ''TRADERMADE''\<rparr>"

definition sampleTick :: "int \<Rightarrow> Tick" where
  "sampleTick t = \<lparr>bid = Fin 1, ask = Fin 1, tk_symbol = ''EURUSD'', tk_ts = t, tk_source = ''CTRADER''\<rparr>"

definition sampleRouter :: FeedRouter where
  "sampleRouter = setRoutes [sampleRoute] 0 (newFeedRouter None None None None)"

definition sampleOptions :: RouterOptions where
  "sampleOptions = \<lparr>ro_staleMs = 3000, ro_stableMs = 30000, ro_historySize = 50, ro_failbackAlignMs = 0\<rparr>"

lemma sampleRouter_eq: "sampleRouter = \<lparr>rt_options = sampleOptions,
    rt_symbols = [(''EURUSD'', freshSymbol sampleOptions sampleRoute None 0)], rt_history = []\<rparr>"
  by (simp add: sampleRouter_def setRoutes_def setRoute_def newFeedRouter_def positive_def DEFAULT_FAILOVER_STALE_MS_def
      DEFAULT_FAILBACK_STABLE_MS_def sampleOptions_def sampleRoute_def cleanRoute_def Let_def)

lemma sample_reach: "router_reach sampleRouter"
  unfolding sampleRouter_def by (rule moved [OF built routes])

lemmas feed_eval = freshSymbol_def ingestSymbol_def recordTick_def evaluateSymbol_def evaluateOnBackup_def switchTo_def lastAt_def lastAtOf_def
  fresh_def primaryStable_def Let_def sampleOptions_def

theorem one_stream_per_symbol_witness:
  "\<exists>out router'. ingest ''CTRADER'' (sampleTick 5) 5 sampleRouter = (True, out, router') \<and> forwarded out = [sampleTick 5]
    \<and> activeSource ''EURUSD'' router' = Some ''CTRADER''"
proof -
  obtain out router' where i: "ingest ''CTRADER'' (sampleTick 5) 5 sampleRouter = (True, out, router')"
    by (simp add: sampleRouter_eq ingest_def sampleTick_def sampleRoute_def feed_eval)
  from one_stream_per_symbol [OF sample_reach i] i show ?thesis by (simp add: sampleTick_def)
qed

theorem live_source_takes_over_witness:
  "\<exists>out router' st'. FeedRouter.evaluate 9000 sampleRouter = (out, router') \<and> map_of (rt_symbols router') ''EURUSD'' = Some st'
    \<and> sy_active st' = ''CTRADER''"
proof -
  let ?st = "freshSymbol sampleOptions sampleRoute None 0"
  obtain out router' where e: "FeedRouter.evaluate 9000 sampleRouter = (out, router')" by fastforce
  have row: "map_of (rt_symbols sampleRouter) ''EURUSD'' = Some ?st" by (simp add: sampleRouter_eq)
  have st: "fr_backup (sy_route ?st) = Some ''TRADERMADE''" "\<not> fresh (rt_options sampleRouter) 9000 (lastAt (fr_primary (sy_route ?st)) ?st)"
    "\<not> fresh (rt_options sampleRouter) 9000 (lastAt ''TRADERMADE'' ?st)" "sy_active ?st = ''CTRADER''"
    by (simp_all add: sampleRoute_def feed_eval)
  show ?thesis using live_source_takes_over [OF sample_reach e row st(1) refl refl refl refl] st e by auto
qed

theorem switches_have_a_cause_witness:
  "\<exists>ev st'. applySymbol sampleOptions (TickOp ''TRADERMADE'' (sampleTick 4000) 4000) (runSymbol sampleOptions
      [TickOp ''CTRADER'' (sampleTick 500) 500] (freshSymbol sampleOptions (cleanRoute sampleRoute) None 0))
      = ([Switched ev, Forwarded (sampleTick 4000)], st')
    \<and> sw_at ev = 4000 \<and> sw_reason ev = PRIMARY_STALE \<and> sw_to ev = ''TRADERMADE''"
proof -
  let ?x = "TickOp ''TRADERMADE'' (sampleTick 4000) 4000" and ?ops = "[TickOp ''CTRADER'' (sampleTick 500) 500]"
  have "\<exists>ev st'. applySymbol sampleOptions ?x (runSymbol sampleOptions ?ops (freshSymbol sampleOptions (cleanRoute sampleRoute) None 0))
      = ([Switched ev, Forwarded (sampleTick 4000)], st') \<and> sw_reason ev = PRIMARY_STALE"
    by (simp add: runSymbol_def sampleRoute_def cleanRoute_def feed_eval)
  then obtain ev st' where a: "applySymbol sampleOptions ?x (runSymbol sampleOptions ?ops (freshSymbol sampleOptions (cleanRoute sampleRoute) None 0))
      = ([Switched ev, Forwarded (sampleTick 4000)], st')" "sw_reason ev = PRIMARY_STALE" by blast
  have s: "sorted (map opTime (?ops @ [?x]))" "0 \<le> ro_staleMs sampleOptions" "Switched ev \<in> set [Switched ev, Forwarded (sampleTick 4000)]"
    by (simp_all add: sampleOptions_def)
  from switches_have_a_cause [OF s(1,2) refl a(1) s(3) refl] a show ?thesis by (auto simp: sampleRoute_def)
qed

end
