(* ===== verification/Candles.thy ===== *)
theory Candles
  imports EngineState "HOL-Library.AList"
begin

text \<open>
  Candles: the builder (\<open>src/trading/candles.ts\<close>) and the persistence of one-minute bars
  (\<open>src/trading/candleStore.ts\<close>). Times are milliseconds; volumes count ticks. A JavaScript \<open>Map\<close> that is
  iterated is an association list in insertion order, one that is only looked up is a map. The table of bars
  is keyed by symbol and time (only one-minute bars are stored).
\<close>

section \<open>Bars\<close>

datatype Timeframe = TF_1m | TF_5m | TF_15m | TF_1h | TF_4h | TF_1d

definition TIMEFRAMES :: "Timeframe list" where
  "TIMEFRAMES = [TF_1m, TF_5m, TF_15m, TF_1h, TF_4h, TF_1d]"

fun TIMEFRAME_SECONDS :: "Timeframe \<Rightarrow> int" where
  "TIMEFRAME_SECONDS TF_1m = 60"
| "TIMEFRAME_SECONDS TF_5m = 300"
| "TIMEFRAME_SECONDS TF_15m = 900"
| "TIMEFRAME_SECONDS TF_1h = 3600"
| "TIMEFRAME_SECONDS TF_4h = 14400"
| "TIMEFRAME_SECONDS TF_1d = 86400"

record Bar =
  bar_time :: int
  bar_open :: number
  bar_high :: number
  bar_low :: number
  bar_close :: number
  bar_volume :: int

record BarEvent =
  bev_symbol :: string
  bev_tf :: Timeframe
  bev_bar :: Bar

definition bucketStart :: "int \<Rightarrow> Timeframe \<Rightarrow> int" where
  "bucketStart ts tf = (let ms = TIMEFRAME_SECONDS tf * 1000 in ts div ms * ms)"

definition midPrice :: "'a Quote_scheme \<Rightarrow> number" where
  "midPrice t = (bid t + ask t) / lit 2"

definition newBar :: "int \<Rightarrow> number \<Rightarrow> Bar" where
  "newBar time price = \<lparr>bar_time = time, bar_open = price, bar_high = price, bar_low = price, bar_close = price, bar_volume = 1\<rparr>"

definition mergeInto :: "Bar \<Rightarrow> number \<Rightarrow> int \<Rightarrow> Bar" where
  "mergeInto bar price volume =
     bar\<lparr>bar_high := (if price > bar_high bar then price else bar_high bar), bar_low := (if price < bar_low bar then price else bar_low bar),
         bar_close := price, bar_volume := bar_volume bar + volume\<rparr>"

definition mergeBar :: "Bar \<Rightarrow> Bar \<Rightarrow> Bar" where
  "mergeBar a b =
     a\<lparr>bar_high := (if bar_high b > bar_high a then bar_high b else bar_high a),
       bar_low := (if bar_low b < bar_low a then bar_low b else bar_low a),
       bar_close := bar_close b, bar_volume := bar_volume a + bar_volume b\<rparr>"

definition aggregateStep :: "Timeframe \<Rightarrow> Bar list \<Rightarrow> Bar \<Rightarrow> Bar list" where
  "aggregateStep tf out b =
     (let t = bucketStart (bar_time b) tf in
      if out \<noteq> [] \<and> bar_time (last out) = t then butlast out @ [mergeBar (last out) b] else out @ [b\<lparr>bar_time := t\<rparr>])"

definition aggregateBars :: "Bar list \<Rightarrow> Timeframe \<Rightarrow> Bar list" where
  "aggregateBars bars1m tf = foldl (aggregateStep tf) [] bars1m"

section \<open>The builder\<close>

record CandleBuilder =
  cb_timeframes :: "Timeframe list"
  cb_bars :: "string \<Rightarrow> (Timeframe \<Rightarrow> Bar option) option"
  cb_digits :: "string \<Rightarrow> int option"

definition newCandleBuilder :: "Timeframe list \<Rightarrow> CandleBuilder" where
  "newCandleBuilder timeframes = \<lparr>cb_timeframes = timeframes, cb_bars = (\<lambda>_. None), cb_digits = (\<lambda>_. None)\<rparr>"

definition setDigits :: "string \<Rightarrow> int \<Rightarrow> CandleBuilder \<Rightarrow> CandleBuilder" where
  "setDigits symbol digits cb = cb\<lparr>cb_digits := (cb_digits cb)(symbol \<mapsto> digits)\<rparr>"

definition restore :: "string \<Rightarrow> Bar list \<Rightarrow> CandleBuilder \<Rightarrow> CandleBuilder" where
  "restore symbol bars1m cb =
     (if bars1m = [] then cb
      else let ascending = sort_key bar_time bars1m;
               bars = foldl (\<lambda>m tf. let agg = aggregateBars ascending tf in if agg = [] then m else m(tf \<mapsto> last agg))
                 (\<lambda>_. None) (cb_timeframes cb)
           in cb\<lparr>cb_bars := (cb_bars cb)(symbol \<mapsto> bars)\<rparr>)"

definition current :: "string \<Rightarrow> Timeframe \<Rightarrow> CandleBuilder \<Rightarrow> Bar option" where
  "current symbol tf cb = (case cb_bars cb symbol of None \<Rightarrow> None | Some m \<Rightarrow> m tf)"

definition tickPrice :: "Tick \<Rightarrow> CandleBuilder \<Rightarrow> number" where
  "tickPrice tick cb = (let scale = pow10 (case cb_digits cb (tk_symbol tick) of Some d \<Rightarrow> d | None \<Rightarrow> 5)
     in Math_round (midPrice tick * scale) / scale)"

text \<open>One pass of the loop over the time frames: the new bar, or \<open>None\<close> for a tick that is out of order.\<close>

definition tickBar :: "Timeframe \<Rightarrow> int \<Rightarrow> number \<Rightarrow> Bar option \<Rightarrow> Bar option" where
  "tickBar tf ts price cur =
     (let t = bucketStart ts tf in
      case cur of
        None \<Rightarrow> Some (newBar t price)
      | Some c \<Rightarrow> if bar_time c = t then Some (mergeInto c price 1)
                 else if bar_time c > t then None else Some (newBar t price))"

definition closes1m :: "Timeframe \<Rightarrow> int \<Rightarrow> Bar option \<Rightarrow> Bar option" where
  "closes1m tf ts cur = (case cur of Some c \<Rightarrow> if tf = TF_1m \<and> bar_time c < bucketStart ts tf then Some c else None | None \<Rightarrow> None)"

fun tickLoop :: "Timeframe list \<Rightarrow> string \<Rightarrow> int \<Rightarrow> number \<Rightarrow> (Timeframe \<Rightarrow> Bar option) \<Rightarrow> Bar option \<Rightarrow>
    (Timeframe \<Rightarrow> Bar option) \<times> BarEvent list \<times> Bar option" where
  "tickLoop [] symbol ts price m cl = (m, [], cl)"
| "tickLoop (tf # tfs) symbol ts price m cl =
     (let cl' = (case closes1m tf ts (m tf) of Some c \<Rightarrow> Some c | None \<Rightarrow> cl) in
      case tickBar tf ts price (m tf) of
        None \<Rightarrow> tickLoop tfs symbol ts price m cl'
      | Some b \<Rightarrow>
         (let (m', updated, c) = tickLoop tfs symbol ts price (m(tf \<mapsto> b)) cl'
          in (m', \<lparr>bev_symbol = symbol, bev_tf = tf, bev_bar = b\<rparr> # updated, c)))"

definition builderOnTick :: "Tick \<Rightarrow> CandleBuilder \<Rightarrow> (BarEvent list \<times> Bar option) \<times> CandleBuilder" where
  "builderOnTick tick cb =
     (let m = (case cb_bars cb (tk_symbol tick) of Some m \<Rightarrow> m | None \<Rightarrow> (\<lambda>_. None));
          (m', updated, closed1m) = tickLoop (cb_timeframes cb) (tk_symbol tick) (tk_ts tick) (tickPrice tick cb) m None
      in ((updated, closed1m), cb\<lparr>cb_bars := (cb_bars cb)(tk_symbol tick \<mapsto> m')\<rparr>))"

section \<open>Persistence\<close>

type_synonym BarTable = "((string \<times> int) \<times> Bar) list"

definition upsertBars :: "(string \<times> Bar) list \<Rightarrow> BarTable \<Rightarrow> BarTable" where
  "upsertBars entries table = foldl (\<lambda>t (symbol, bar). AList.update (symbol, bar_time bar) bar t) table entries"

definition barsSince :: "string \<Rightarrow> int \<Rightarrow> BarTable \<Rightarrow> Bar list" where
  "barsSince symbol since table = sort_key bar_time (map snd (filter (\<lambda>((s, t), b). s = symbol \<and> t \<ge> since) table))"

definition loadLastBar :: "string \<Rightarrow> BarTable \<Rightarrow> Bar option" where
  "loadLastBar symbol table =
     (let bars = sort_key bar_time (map snd (filter (\<lambda>((s, t), b). s = symbol) table))
      in if bars = [] then None else Some (last bars))"

definition restoreSymbol :: "int \<Rightarrow> BarTable \<Rightarrow> CandleBuilder \<Rightarrow> string \<Rightarrow> CandleBuilder" where
  "restoreSymbol now table cb symbol =
     (let bars = barsSince symbol (bucketStart now TF_1d) table;
          used = (if bars = [] then (case loadLastBar symbol table of Some b \<Rightarrow> [b] | None \<Rightarrow> []) else bars)
      in restore symbol used cb)"

definition restoreBuilder :: "string list \<Rightarrow> int \<Rightarrow> BarTable \<Rightarrow> CandleBuilder \<Rightarrow> CandleBuilder" where
  "restoreBuilder symbols now table cb = foldl (restoreSymbol now table) cb symbols"

record CandlePersister =
  cp_dirty :: "(string \<times> Bar) list"
  cp_closed :: "(string \<times> Bar) list"

definition newPersister :: CandlePersister where
  "newPersister = \<lparr>cp_dirty = [], cp_closed = []\<rparr>"

definition track :: "string \<Rightarrow> Bar option \<Rightarrow> Bar option \<Rightarrow> CandlePersister \<Rightarrow> CandlePersister" where
  "track symbol current1m closed1m p =
     p\<lparr>cp_closed := cp_closed p @ (case closed1m of Some b \<Rightarrow> [(symbol, b)] | None \<Rightarrow> []),
       cp_dirty := (case current1m of Some b \<Rightarrow> AList.update symbol b (cp_dirty p) | None \<Rightarrow> cp_dirty p)\<rparr>"

text \<open>
  The batch leaves the memory before it is written: a failing write (\<open>ok\<close> false) is only logged.
  A flush is one step: while one is being written (\<open>flushing\<close>) another call returns at once and
  changes nothing, and the ticks that arrive meanwhile only touch the memory.
\<close>

definition flushBars :: "bool \<Rightarrow> CandlePersister \<Rightarrow> BarTable \<Rightarrow> CandlePersister \<times> BarTable" where
  "flushBars ok p table =
     (let batch = cp_closed p @ cp_dirty p
      in (p\<lparr>cp_closed := [], cp_dirty := []\<rparr>, if ok then upsertBars batch table else table))"

text \<open>The tick handler of the worker (\<open>src/worker/main.ts\<close>), as far as candles are concerned.\<close>

definition candleTick :: "Tick \<Rightarrow> CandleBuilder \<times> CandlePersister \<Rightarrow> CandleBuilder \<times> CandlePersister" where
  "candleTick tick s =
     (let ((updated, closed1m), cb) = builderOnTick tick (fst s);
          current1m = map_option bev_bar (List.find (\<lambda>u. bev_tf u = TF_1m) updated)
      in (cb, track (tk_symbol tick) current1m closed1m (snd s)))"

end
