(* ===== verification/CandleProofs.thy ===== *)
theory CandleProofs
  imports Candles
begin

text \<open>
  Properties of the candles: the bars that are built live on every time frame are the aggregation of the
  one-minute bars, and a restart from the stored minutes continues them.
\<close>

section \<open>Buckets\<close>

lemma seconds_pos: "0 < TIMEFRAME_SECONDS tf"
  by (cases tf) simp_all

lemma bucketStart_le: "bucketStart ts tf \<le> ts"
proof -
  have "0 \<le> ts mod (TIMEFRAME_SECONDS tf * 1000)" using seconds_pos [of tf] by simp
  then show ?thesis by (simp add: bucketStart_def Let_def minus_mod_eq_div_mult [symmetric])
qed

lemma bucketStart_idem [simp]: "bucketStart (bucketStart ts tf) tf = bucketStart ts tf"
  using seconds_pos [of tf] by (simp add: bucketStart_def Let_def)

lemma bucketStart_mono: "a \<le> b \<Longrightarrow> bucketStart a tf \<le> bucketStart b tf"
  using seconds_pos [of tf] by (simp add: bucketStart_def Let_def mult_right_mono zdiv_mono1)

lemma nested_div: "0 < (a::int) \<Longrightarrow> 0 \<le> k \<Longrightarrow> ts div a * a div (a * k) = ts div (a * k)"
  by (simp add: zdiv_zmult2_eq)

lemma bucketStart_minute [simp]: "bucketStart (bucketStart ts TF_1m) tf = bucketStart ts tf"
  using nested_div [of 60000 "TIMEFRAME_SECONDS tf div 60" ts] by (cases tf) (simp_all add: bucketStart_def)

lemma bucketStart_day [simp]: "bucketStart (bucketStart ts tf) TF_1d = bucketStart ts TF_1d"
  using nested_div [of "TIMEFRAME_SECONDS tf * 1000" "86400 div TIMEFRAME_SECONDS tf" ts] by (cases tf) (simp_all add: bucketStart_def)

lemma all_timeframes [simp]: "set TIMEFRAMES = UNIV" "distinct TIMEFRAMES" "hd TIMEFRAMES = TF_1m"
  using Timeframe.exhaust by (auto simp: TIMEFRAMES_def)

section \<open>Extremes\<close>

definition bar_ok :: "Bar \<Rightarrow> bool" where
  "bar_ok b \<longleftrightarrow> bar_high b \<noteq> NaN \<and> bar_low b \<noteq> NaN"

definition hi :: "number \<Rightarrow> number \<Rightarrow> number" where
  "hi x y = (if y > x then y else x)"

definition lo :: "number \<Rightarrow> number \<Rightarrow> number" where
  "lo x y = (if y < x then y else x)"

lemma hi_lo_assoc:
  assumes "x \<noteq> NaN" "y \<noteq> NaN" "z \<noteq> NaN"
  shows "hi x (hi y z) = hi (hi x y) z" and "lo x (lo y z) = lo (lo x y) z"
proof -
  have t: "a < b \<Longrightarrow> b < c \<Longrightarrow> a < c" for a b c :: number using number_less_le_trans number_less_imp_le by blast
  have n: "\<not> b < a \<Longrightarrow> \<not> c < b \<Longrightarrow> a \<noteq> NaN \<Longrightarrow> b \<noteq> NaN \<Longrightarrow> c \<noteq> NaN \<Longrightarrow> \<not> c < a" for a b c :: number
    using number_le_trans by (auto simp: number_not_less)
  have a: "x < y \<longrightarrow> y < z \<longrightarrow> x < z" "\<not> x < y \<longrightarrow> \<not> y < z \<longrightarrow> \<not> x < z" using t n assms by blast+
  have b: "z < y \<longrightarrow> y < x \<longrightarrow> z < x" "\<not> z < y \<longrightarrow> \<not> y < x \<longrightarrow> \<not> z < x" using t n assms by blast+
  show "hi x (hi y z) = hi (hi x y) z" using a unfolding hi_def by (cases "x < y"; cases "y < z"; cases "x < z") auto
  show "lo x (lo y z) = lo (lo x y) z" using b unfolding lo_def by (cases "y < x"; cases "z < y"; cases "z < x") auto
qed

lemma merge_extremes:
  "mergeInto b p n = b\<lparr>bar_high := hi (bar_high b) p, bar_low := lo (bar_low b) p, bar_close := p, bar_volume := bar_volume b + n\<rparr>"
  "mergeBar a b = a\<lparr>bar_high := hi (bar_high a) (bar_high b), bar_low := lo (bar_low a) (bar_low b), bar_close := bar_close b,
     bar_volume := bar_volume a + bar_volume b\<rparr>"
  by (simp_all add: mergeInto_def mergeBar_def hi_def lo_def)

lemma merge_merge:
  assumes "bar_ok a" "bar_ok b" "p \<noteq> NaN"
  shows "mergeBar a (mergeInto b p 1) = mergeInto (mergeBar a b) p 1"
  using hi_lo_assoc [of "bar_high a" "bar_high b" p] hi_lo_assoc [of "bar_low a" "bar_low b" p] assms
  by (simp add: merge_extremes bar_ok_def)

lemma bar_ok_simps [simp]:
  "bar_ok a \<Longrightarrow> p \<noteq> NaN \<Longrightarrow> bar_ok (mergeInto a p n)" "p \<noteq> NaN \<Longrightarrow> bar_ok (newBar t p)"
  "bar_ok a \<Longrightarrow> bar_ok b \<Longrightarrow> bar_ok (mergeBar a b)" "bar_ok (bar_time_update f a) = bar_ok a"
  "bar_time (mergeInto a p n) = bar_time a" "bar_time (newBar t p) = t" "bar_time (mergeBar a b) = bar_time a"
  by (simp_all add: bar_ok_def mergeInto_def mergeBar_def newBar_def)

section \<open>Aggregation\<close>

lemma aggregate_snoc: "aggregateBars (xs @ [b]) tf = aggregateStep tf (aggregateBars xs tf) b"
  by (simp add: aggregateBars_def)

lemma step_last: "last (aggregateStep tf out b) = (if out \<noteq> [] \<and> bar_time (last out) = bucketStart (bar_time b) tf
    then mergeBar (last out) b else b\<lparr>bar_time := bucketStart (bar_time b) tf\<rparr>)"
  by (simp add: aggregateStep_def Let_def)

lemma step_nonempty [simp]: "aggregateStep tf out b \<noteq> []"
  by (simp add: aggregateStep_def Let_def)

lemma step_time [simp]: "bar_time (last (aggregateStep tf out b)) = bucketStart (bar_time b) tf"
  by (simp add: step_last)

lemma aggregate_ok: "\<forall>b\<in>set xs. bar_ok b \<Longrightarrow> \<forall>b\<in>set (aggregateBars xs tf). bar_ok b"
proof (induction xs rule: rev_induct)
  case Nil
  then show ?case by (simp add: aggregateBars_def)
next
  case (snoc b xs)
  then have "\<forall>c\<in>set (aggregateBars xs tf). bar_ok c" "bar_ok b" by simp_all
  then show ?case using last_in_set [of "aggregateBars xs tf"]
    by (auto simp: aggregate_snoc aggregateStep_def Let_def dest: in_set_butlastD split: if_splits)
qed

text \<open>Another tick in the minute, and a tick in a later one.\<close>

lemma step_merge:
  assumes "\<forall>c\<in>set out. bar_ok c" "bar_ok b" "p \<noteq> NaN"
  shows "last (aggregateStep tf out (mergeInto b p 1)) = mergeInto (last (aggregateStep tf out b)) p 1"
proof (cases "out \<noteq> [] \<and> bar_time (last out) = bucketStart (bar_time b) tf")
  case True
  then show ?thesis using merge_merge [of "last out" b p] assms by (simp add: step_last)
next
  case False
  then show ?thesis by (auto simp: step_last mergeInto_def)
qed

lemma merge_new: "mergeBar a (newBar t p) = mergeInto a p 1"
  by (simp add: mergeBar_def newBar_def mergeInto_def)

lemma step_new:
  "last (aggregateStep tf out (newBar t p)) = (if out \<noteq> [] \<and> bar_time (last out) = bucketStart t tf
    then mergeInto (last out) p 1 else newBar (bucketStart t tf) p)"
  by (simp add: step_last merge_new) (simp add: newBar_def)

section \<open>The builder\<close>

lemma tickLoop_result:
  assumes "distinct tfs" "tickLoop tfs symbol ts price m cl = (m', updated, cl')"
  shows "m' tf = (if tf \<in> set tfs then (case tickBar tf ts price (m tf) of Some b \<Rightarrow> Some b | None \<Rightarrow> m tf) else m tf)
    \<and> map_option bev_bar (List.find (\<lambda>u. bev_tf u = tf) updated) = (if tf \<in> set tfs then tickBar tf ts price (m tf) else None)
    \<and> cl' = (if TF_1m \<in> set tfs then (case closes1m TF_1m ts (m TF_1m) of Some c \<Rightarrow> Some c | None \<Rightarrow> cl) else cl)"
  using assms
proof (induction tfs arbitrary: m cl m' updated cl')
  case (Cons x tfs)
  let ?cl = "case closes1m x ts (m x) of Some c \<Rightarrow> Some c | None \<Rightarrow> cl"
  define m1 where "m1 = (case tickBar x ts price (m x) of Some b \<Rightarrow> m(x \<mapsto> b) | None \<Rightarrow> m)"
  obtain m2 u2 c2 where r: "tickLoop tfs symbol ts price m1 ?cl = (m2, u2, c2)" by (metis prod_cases3)
  have other: "x \<noteq> TF_1m \<Longrightarrow> closes1m x ts y = None" for y by (simp add: closes1m_def split: option.split)
  have run: "tickLoop (x # tfs) symbol ts price m cl = (m2,
      (case tickBar x ts price (m x) of Some b \<Rightarrow> [\<lparr>bev_symbol = symbol, bev_tf = x, bev_bar = b\<rparr>] | None \<Rightarrow> []) @ u2, c2)"
    using r by (cases "tickBar x ts price (m x)") (simp_all add: Let_def m1_def)
  have d: "distinct tfs" "x \<notin> set tfs" "m' = m2" "updated = (case tickBar x ts price (m x) of
      Some b \<Rightarrow> [\<lparr>bev_symbol = symbol, bev_tf = x, bev_bar = b\<rparr>] | None \<Rightarrow> []) @ u2" "cl' = c2"
    using Cons.prems(1) Cons.prems(2) [unfolded run] by simp_all
  have o: "tf \<noteq> x \<Longrightarrow> m1 tf = m tf" "x \<noteq> TF_1m \<Longrightarrow> m1 TF_1m = m TF_1m" by (simp_all add: m1_def split: option.split)
  have xx: "m1 x = (case tickBar x ts price (m x) of Some b \<Rightarrow> Some b | None \<Rightarrow> m x)" by (simp add: m1_def split: option.split)
  note ih = Cons.IH [OF d(1) r]
  have "m2 tf = (if tf \<in> set (x # tfs) then (case tickBar tf ts price (m tf) of Some b \<Rightarrow> Some b | None \<Rightarrow> m tf) else m tf)"
    using conjunct1 [OF ih] d(2) o(1) xx by (cases "tf = x"; cases "tickBar tf ts price (m tf)") auto
  moreover have "map_option bev_bar (List.find (\<lambda>u. bev_tf u = tf) updated) = (if tf \<in> set (x # tfs) then tickBar tf ts price (m tf) else None)"
  proof (cases "tf = x")
    case True
    then show ?thesis using ih d(2) unfolding d(4) by (cases "tickBar x ts price (m x)") simp_all
  next
    case False
    then show ?thesis using ih o(1) unfolding d(4) by (cases "tickBar x ts price (m x)") simp_all
  qed
  moreover have "c2 = (if TF_1m \<in> set (x # tfs) then (case closes1m TF_1m ts (m TF_1m) of Some c \<Rightarrow> Some c | None \<Rightarrow> cl) else cl)"
  proof (cases "x = TF_1m")
    case True
    then show ?thesis using ih d(2) by simp
  next
    case False
    then show ?thesis using ih o(2) other [of "m x"] by (cases "closes1m TF_1m ts (m TF_1m)") simp_all
  qed
  ultimately show ?case unfolding d(3,5) by blast
qed simp

text \<open>What a tick does to the bars of its symbol.\<close>

lemma onTick_result:
  assumes "builderOnTick tick cb = ((updated, closed1m), cb')" "cb_timeframes cb = TIMEFRAMES"
  shows "current (tk_symbol tick) tf cb' = (case tickBar tf (tk_ts tick) (tickPrice tick cb) (current (tk_symbol tick) tf cb) of
      Some b \<Rightarrow> Some b | None \<Rightarrow> current (tk_symbol tick) tf cb)"
    and "map_option bev_bar (List.find (\<lambda>u. bev_tf u = tf) updated)
      = tickBar tf (tk_ts tick) (tickPrice tick cb) (current (tk_symbol tick) tf cb)"
    and "closed1m = closes1m TF_1m (tk_ts tick) (current (tk_symbol tick) TF_1m cb)"
    and "cb_timeframes cb' = TIMEFRAMES" "cb_digits cb' = cb_digits cb"
proof -
  define m where "m = (case cb_bars cb (tk_symbol tick) of Some m \<Rightarrow> m | None \<Rightarrow> (\<lambda>_. None))"
  obtain m' where r: "tickLoop TIMEFRAMES (tk_symbol tick) (tk_ts tick) (tickPrice tick cb) m None = (m', updated, closed1m)"
    "cb' = cb\<lparr>cb_bars := (cb_bars cb)(tk_symbol tick \<mapsto> m')\<rparr>"
    using assms by (auto simp: builderOnTick_def Let_def m_def split: prod.splits)
  have c: "current (tk_symbol tick) x cb = m x" for x by (simp add: current_def m_def split: option.split)
  have c': "current (tk_symbol tick) x cb' = m' x" for x by (simp add: current_def r(2))
  note res = tickLoop_result [OF all_timeframes(2) r(1), of tf]
  show "current (tk_symbol tick) tf cb' = (case tickBar tf (tk_ts tick) (tickPrice tick cb) (current (tk_symbol tick) tf cb) of
      Some b \<Rightarrow> Some b | None \<Rightarrow> current (tk_symbol tick) tf cb)" using res unfolding c c' by simp
  show "map_option bev_bar (List.find (\<lambda>u. bev_tf u = tf) updated)
      = tickBar tf (tk_ts tick) (tickPrice tick cb) (current (tk_symbol tick) tf cb)" using res unfolding c by simp
  have "closed1m = (case closes1m TF_1m (tk_ts tick) (m TF_1m) of Some c \<Rightarrow> Some c | None \<Rightarrow> None)" using res by simp
  then show "closed1m = closes1m TF_1m (tk_ts tick) (current (tk_symbol tick) TF_1m cb)" by (simp add: c split: option.split)
  show "cb_timeframes cb' = TIMEFRAMES" "cb_digits cb' = cb_digits cb" using r(2) assms(2) by simp_all
qed

text \<open>The builder holds, on every time frame, the last bar of the aggregated minutes.\<close>

definition built :: "string \<Rightarrow> Bar list \<Rightarrow> Bar \<Rightarrow> CandleBuilder \<Rightarrow> bool" where
  "built s closed1m m1 cb \<longleftrightarrow> cb_timeframes cb = TIMEFRAMES \<and> current s TF_1m cb = Some m1
     \<and> (\<forall>tf. current s tf cb = Some (last (aggregateBars (closed1m @ [m1]) tf)))
     \<and> bucketStart (bar_time m1) TF_1m = bar_time m1
     \<and> (\<forall>b\<in>set (closed1m @ [m1]). bar_ok b) \<and> sorted_wrt (<) (map bar_time (closed1m @ [m1]))"

definition optList :: "'a option \<Rightarrow> 'a list" where
  "optList x = (case x of Some a \<Rightarrow> [a] | None \<Rightarrow> [])"

lemma built_first:
  assumes "builderOnTick tick cb = ((updated, c), cb')" "cb_timeframes cb = TIMEFRAMES" "\<forall>tf. current (tk_symbol tick) tf cb = None"
    and "tickPrice tick cb \<noteq> NaN"
  shows "c = None \<and> built (tk_symbol tick) [] (newBar (bucketStart (tk_ts tick) TF_1m) (tickPrice tick cb)) cb'
    \<and> map_option bev_bar (List.find (\<lambda>u. bev_tf u = TF_1m) updated) = Some (newBar (bucketStart (tk_ts tick) TF_1m) (tickPrice tick cb))"
proof -
  note r = onTick_result [OF assms(1,2)]
  have "last (aggregateBars [newBar (bucketStart (tk_ts tick) TF_1m) p] tf) = newBar (bucketStart (tk_ts tick) tf) p" for p tf
    using step_new [of tf "[]" "bucketStart (tk_ts tick) TF_1m" p] by (simp add: aggregateBars_def)
  then show ?thesis using r(1,2) [of TF_1m] r(1,3-5) assms(3,4) by (simp add: built_def tickBar_def Let_def closes1m_def)
qed

lemma built_step:
  assumes "builderOnTick tick cb = ((updated, c), cb')" "built (tk_symbol tick) closed1m m1 cb" "tickPrice tick cb \<noteq> NaN"
    and "bar_time m1 \<le> bucketStart (tk_ts tick) TF_1m"
  shows "\<exists>m2. built (tk_symbol tick) (closed1m @ optList c) m2 cb' \<and> bar_time m2 = bucketStart (tk_ts tick) TF_1m
    \<and> map_option bev_bar (List.find (\<lambda>u. bev_tf u = TF_1m) updated) = Some m2
    \<and> (c = None \<and> bar_time m2 = bar_time m1 \<or> c = Some m1 \<and> bar_time m1 < bar_time m2)"
proof -
  let ?s = "tk_symbol tick" and ?p = "tickPrice tick cb" and ?t = "bucketStart (tk_ts tick) TF_1m"
  let ?agg = "aggregateBars closed1m"
  have tfs: "cb_timeframes cb = TIMEFRAMES" and cur1: "current ?s TF_1m cb = Some m1"
    and cur: "\<And>tf. current ?s tf cb = Some (last (aggregateStep tf (?agg tf) m1))"
    and ok: "\<forall>b\<in>set closed1m. bar_ok b" "bar_ok m1" and ord: "sorted_wrt (<) (map bar_time closed1m)" "\<forall>b\<in>set closed1m. bar_time b < bar_time m1"
    using assms(2) by (auto simp: built_def aggregate_snoc sorted_wrt_append)
  note r = onTick_result [OF assms(1) tfs]
  have aggok: "\<forall>b\<in>set (?agg tf). bar_ok b" for tf by (rule aggregate_ok [OF ok(1)])
  show ?thesis
  proof (cases "bar_time m1 = ?t")
    case True
    let ?m2 = "mergeInto m1 ?p 1"
    have bk: "bucketStart (bar_time m1) tf = bucketStart (tk_ts tick) tf" for tf using True by simp
    have "tickBar tf (tk_ts tick) ?p (current ?s tf cb) = Some (mergeInto (last (aggregateStep tf (?agg tf) m1)) ?p 1)" for tf
      by (simp add: cur tickBar_def Let_def bk)
    then have "current ?s tf cb' = Some (last (aggregateStep tf (?agg tf) ?m2))" for tf
      using r(1) [of tf] step_merge [OF aggok ok(2) assms(3), of tf] by simp
    moreover have m: "tickBar TF_1m (tk_ts tick) ?p (current ?s TF_1m cb) = Some ?m2" by (simp add: cur1 tickBar_def True)
    moreover have "c = None" using r(3) by (simp add: cur1 closes1m_def True)
    moreover have "current ?s TF_1m cb' = Some ?m2" using r(1) [of TF_1m] m by simp
    ultimately show ?thesis using r(2) [of TF_1m] r(4) ok ord assms(3) True
      by (intro exI [of _ ?m2]) (auto simp: built_def aggregate_snoc sorted_wrt_append optList_def)
  next
    case False
    then have lt: "bar_time m1 < ?t" using assms(4) by simp
    let ?m2 = "newBar ?t ?p"
    have c: "c = Some m1" using r(3) lt by (simp add: cur1 closes1m_def)
    have le: "bucketStart (bar_time m1) tf \<le> bucketStart (tk_ts tick) tf" for tf using bucketStart_mono [OF assms(4), of tf] by simp
    have "tickBar tf (tk_ts tick) ?p (current ?s tf cb) = Some (last (aggregateStep tf (aggregateStep tf (?agg tf) m1) ?m2))" for tf
      using le [of tf] by (auto simp: cur tickBar_def Let_def step_new)
    then have "current ?s tf cb' = Some (last (aggregateStep tf (aggregateStep tf (?agg tf) m1) ?m2))" for tf using r(1) [of tf] by simp
    moreover have m: "tickBar TF_1m (tk_ts tick) ?p (current ?s TF_1m cb) = Some ?m2" using lt by (simp add: cur1 tickBar_def)
    moreover have "current ?s TF_1m cb' = Some ?m2" using r(1) [of TF_1m] m by simp
    moreover have "sorted_wrt (<) (map bar_time (closed1m @ [m1] @ [?m2]))" using ord lt by (fastforce simp: sorted_wrt_append)
    ultimately show ?thesis using r(2) [of TF_1m] r(4) ok assms(3) lt c
      by (intro exI [of _ ?m2]) (simp add: built_def aggregate_snoc [symmetric] optList_def)
  qed
qed

section \<open>Stored minutes\<close>

text \<open>What happens to the candles of one symbol: ticks, and flushes that succeed.\<close>

datatype CandleOp = GotTick Tick | Flushed

fun candleStep :: "(CandleBuilder \<times> CandlePersister) \<times> BarTable \<Rightarrow> CandleOp \<Rightarrow> (CandleBuilder \<times> CandlePersister) \<times> BarTable" where
  "candleStep (s, table) (GotTick tick) = (candleTick tick s, table)"
| "candleStep ((cb, p), table) Flushed = (let (p', table') = flushBars True p table in ((cb, p'), table'))"

fun ticksOf :: "CandleOp list \<Rightarrow> Tick list" where
  "ticksOf [] = []"
| "ticksOf (GotTick t # ops) = t # ticksOf ops"
| "ticksOf (Flushed # ops) = ticksOf ops"

definition barMap :: "Bar list \<Rightarrow> int \<Rightarrow> Bar option" where
  "barMap bars = map_of (map (\<lambda>b. (bar_time b, b)) bars)"

definition stored :: "string \<Rightarrow> Bar list \<Rightarrow> BarTable \<Rightarrow> bool" where
  "stored s bars table \<longleftrightarrow> distinct (map fst table) \<and> (\<forall>s' t. map_of table (s', t) = (if s' = s then barMap bars t else None))"

lemma upsert_map: "map_of (upsertBars (es @ [(s, b)]) table) = (map_of (upsertBars es table))((s, bar_time b) \<mapsto> b)"
  by (simp add: upsertBars_def update_conv')

lemma upsert_distinct: "distinct (map fst table) \<Longrightarrow> distinct (map fst (upsertBars es table))"
  unfolding upsertBars_def by (induction es arbitrary: table) (auto simp: distinct_update split: prod.split)

lemma barMap_snoc: "bar_time b \<notin> bar_time ` set bars \<Longrightarrow> barMap (bars @ [b]) = (barMap bars)(bar_time b \<mapsto> b)"
  by (induction bars) (auto simp: barMap_def fun_upd_twist)

lemma barMap_time: "barMap bars t = Some b \<Longrightarrow> bar_time b = t \<and> b \<in> set bars"
  using map_of_SomeD by (fastforce simp: barMap_def)

lemma sort_unique:
  fixes f :: "'a \<Rightarrow> int"
  assumes "sorted_wrt (<) (map f xs)" "sorted (map f ys)" "distinct (map f ys)" "set xs = set ys"
  shows "xs = ys"
proof -
  have x: "sorted (map f xs)" "distinct (map f xs)" using assms(1) by (simp_all add: strict_sorted_iff)
  have "map f xs = map f ys" using sorted_distinct_set_unique [OF x assms(2,3)] assms(4) by simp
  moreover have "inj_on f (set xs \<union> set ys)" using x(2) assms(4) by (simp add: distinct_map)
  ultimately show ?thesis by (simp add: map_inj_on)
qed

lemma mem_snd: "b \<in> snd ` X \<longleftrightarrow> (\<exists>k. (k, b) \<in> X)"
  by force

lemma distinct_keyed: "distinct (map fst rs) \<Longrightarrow> \<forall>r\<in>set rs. fst r = (s, f (snd r)) \<Longrightarrow> distinct (map f (map snd rs))"
proof (induction rs)
  case (Cons r rs)
  have "f (snd r) \<noteq> f (snd r')" if "r' \<in> set rs" for r'
  proof
    assume "f (snd r) = f (snd r')"
    then have "fst r = fst r'" using Cons.prems(2) that by simp
    moreover have "fst r' \<in> fst ` set rs" using that by simp
    ultimately show False using Cons.prems(1) by simp
  qed
  then show ?case using Cons by auto
qed simp

text \<open>A stored symbol reads back as its bars.\<close>

lemma barsSince_stored:
  assumes "stored s bars table" "sorted_wrt (<) (map bar_time bars)"
  shows "barsSince s since table = filter (\<lambda>b. bar_time b \<ge> since) bars"
proof -
  let ?rows = "filter (\<lambda>((s', t), b). s' = s \<and> t \<ge> since) table"
  have d: "distinct (map fst table)" and m: "\<And>s' t. map_of table (s', t) = (if s' = s then barMap bars t else None)"
    using assms(1) by (auto simp: stored_def)
  have row: "((s', t), b) \<in> set table \<longleftrightarrow> s' = s \<and> barMap bars t = Some b" for s' t b
    using map_of_eq_Some_iff [OF d, of "(s', t)" b] m [of s' t] by (auto split: if_splits)
  have inb: "barMap bars t = Some b \<longleftrightarrow> bar_time b = t \<and> b \<in> set bars" for t b
  proof
    assume b: "bar_time b = t \<and> b \<in> set bars"
    have "distinct (map fst (map (\<lambda>b. (bar_time b, b)) bars))" using assms(2) by (simp add: comp_def strict_sorted_iff)
    then show "barMap bars t = Some b" using b map_of_eq_Some_iff by (fastforce simp: barMap_def)
  qed (rule barMap_time)
  have rows: "((s', t), b) \<in> set ?rows \<longleftrightarrow> s' = s \<and> bar_time b = t \<and> b \<in> set bars \<and> t \<ge> since" for s' t b
    using row inb by auto
  have "b \<in> set (map snd ?rows) \<longleftrightarrow> b \<in> set (filter (\<lambda>b. bar_time b \<ge> since) bars)" for b
  proof -
    have "b \<in> set (map snd ?rows) \<longleftrightarrow> (\<exists>k. (k, b) \<in> set ?rows)" unfolding set_map by (rule mem_snd)
    also have "\<dots> \<longleftrightarrow> (\<exists>s' t. ((s', t), b) \<in> set ?rows)" by (simp only: split_paired_Ex)
    also have "\<dots> \<longleftrightarrow> b \<in> set (filter (\<lambda>b. bar_time b \<ge> since) bars)" by (simp only: rows) simp
    finally show ?thesis .
  qed
  then have same: "set (map snd ?rows) = set (filter (\<lambda>b. bar_time b \<ge> since) bars)" by blast
  have "distinct (map bar_time (map snd ?rows))"
  proof -
    have "distinct (map fst ?rows)" using d by (rule distinct_map_filter)
    moreover have "\<forall>r\<in>set ?rows. fst r = (s, bar_time (snd r))"
    proof
      fix r assume r: "r \<in> set ?rows"
      obtain k b where "r = (k, b)" by (cases r)
      moreover obtain s' t where "k = (s', t)" by (cases k)
      ultimately have e: "r = ((s', t), b)" by simp
      have "s' = s \<and> bar_time b = t \<and> b \<in> set bars \<and> t \<ge> since" using r unfolding e by (rule iffD1 [OF rows])
      then show "fst r = (s, bar_time (snd r))" by (simp add: e)
    qed
    ultimately show ?thesis by (rule distinct_keyed)
  qed
  then have d2: "distinct (map bar_time (sort_key bar_time (map snd ?rows)))" by (simp only: distinct_map distinct_sort set_sort)
  have so: "sorted_wrt (<) (map bar_time (filter (\<lambda>b. bar_time b \<ge> since) bars))"
    using assms(2) by (simp add: sorted_wrt_map sorted_wrt_filter)
  have "set (filter (\<lambda>b. bar_time b \<ge> since) bars) = set (sort_key bar_time (map snd ?rows))" unfolding set_sort by (rule same [symmetric])
  from sort_unique [OF so sorted_sort_key d2 this] show ?thesis unfolding barsSince_def by (rule sym)
qed

text \<open>Bars of earlier days do not matter for the current bars.\<close>

lemma aggregate_times: "c \<in> set (aggregateBars xs tf) \<Longrightarrow> \<exists>b\<in>set xs. bar_time c = bucketStart (bar_time b) tf"
proof (induction xs arbitrary: c rule: rev_induct)
  case Nil
  then show ?case by (simp add: aggregateBars_def)
next
  case (snoc b xs)
  let ?o = "aggregateBars xs tf"
  have "c \<in> set (aggregateStep tf ?o b)" using snoc.prems by (simp add: aggregate_snoc)
  then have "c \<in> set ?o \<or> bar_time c = bucketStart (bar_time b) tf"
    by (auto simp: aggregateStep_def Let_def dest: in_set_butlastD split: if_splits)
  then show ?case using snoc.IH [of c] by auto
qed

lemma aggregate_day:
  assumes "\<forall>b\<in>set xs. bar_time b < day" "\<forall>b\<in>set ys. day \<le> bar_time b" "bucketStart day TF_1d = day"
  shows "aggregateBars (xs @ ys) tf = aggregateBars xs tf @ aggregateBars ys tf"
  using assms(2)
proof (induction ys rule: rev_induct)
  case Nil
  then show ?case by (simp add: aggregateBars_def)
next
  case (snoc b ys)
  have ih: "aggregateBars (xs @ ys) tf = aggregateBars xs tf @ aggregateBars ys tf" using snoc by simp
  have b: "day \<le> bucketStart (bar_time b) TF_1d" using bucketStart_mono [of day "bar_time b" TF_1d] snoc.prems assms(3) by simp
  have apart: "bar_time c \<noteq> bucketStart (bar_time b) tf" if c: "c \<in> set (aggregateBars xs tf)" for c
  proof
    assume e: "bar_time c = bucketStart (bar_time b) tf"
    obtain x where x: "x \<in> set xs" "bar_time c = bucketStart (bar_time x) tf" using aggregate_times [OF c] by blast
    have "bucketStart (bar_time x) TF_1d = bucketStart (bar_time b) TF_1d"
      using e x(2) bucketStart_day [of "bar_time x" tf] bucketStart_day [of "bar_time b" tf] by simp
    then show False using b bucketStart_le [of "bar_time x" TF_1d] assms(1) x(1) by fastforce
  qed
  have "aggregateStep tf (aggregateBars xs tf @ aggregateBars ys tf) b = aggregateBars xs tf @ aggregateStep tf (aggregateBars ys tf) b"
  proof (cases "aggregateBars ys tf = []")
    case True
    then show ?thesis using apart [OF last_in_set] by (auto simp: aggregateStep_def Let_def)
  next
    case False
    then show ?thesis by (simp add: aggregateStep_def Let_def butlast_append)
  qed
  then show ?case using ih aggregate_snoc [of "xs @ ys" b tf] aggregate_snoc [of ys b tf] by simp
qed

lemma restored:
  assumes "bars \<noteq> []" "sorted (map bar_time bars)"
  shows "current s tf (restore s bars (newCandleBuilder TIMEFRAMES)) = Some (last (aggregateBars bars tf))"
proof -
  have f: "foldl (\<lambda>m tf. if g tf = [] then m else m(tf \<mapsto> last (g tf))) m tfs tf
      = (if tf \<in> set tfs \<and> g tf \<noteq> [] then Some (last (g tf)) else m tf)" for g :: "Timeframe \<Rightarrow> Bar list" and m tfs
    by (induction tfs arbitrary: m) auto
  have "sort_key bar_time bars = bars" using assms(2) by (rule sort_key_id_if_sorted)
  moreover have "aggregateBars bars tf \<noteq> []" using assms(1) by (cases bars rule: rev_cases) (simp_all add: aggregate_snoc)
  ultimately show ?thesis using assms(1) f [of "aggregateBars bars"] by (simp add: restore_def Let_def current_def newCandleBuilder_def)
qed

section \<open>Live bars and stored minutes\<close>

lemma sorted_filter_split: "sorted (map f xs) \<Longrightarrow> xs = filter (\<lambda>b. \<not> d \<le> f b) xs @ filter (\<lambda>b. d \<le> f b) xs" for d :: int
proof (induction xs)
  case (Cons x xs)
  show ?case
  proof (cases "d \<le> f x")
    case True
    then have "filter (\<lambda>b. \<not> d \<le> f b) xs = []" using Cons.prems by (fastforce simp: filter_empty_conv)
    then show ?thesis using True Cons by simp
  qed (use Cons in simp)
qed simp

definition candles_ok :: "string \<Rightarrow> int \<Rightarrow> int \<Rightarrow> (CandleBuilder \<times> CandlePersister) \<times> BarTable \<Rightarrow> bool" where
  "candles_ok s since t st \<longleftrightarrow> (\<exists>bars m1. built s bars m1 (fst (fst st)) \<and> bar_time m1 = t
     \<and> stored s (bars @ [m1]) (upsertBars (cp_closed (snd (fst st)) @ cp_dirty (snd (fst st))) (snd st))
     \<and> distinct (map fst (snd st)) \<and> (cp_dirty (snd (fst st)) = [] \<or> cp_dirty (snd (fst st)) = [(s, m1)])
     \<and> (\<forall>b\<in>set (bars @ [m1]). since \<le> bar_time b))"

lemma stored_put:
  assumes "stored s (bars @ [m1]) (upsertBars (c @ d) table)" "d = [] \<or> d = [(s, m1)]" "distinct (map fst table)"
    and "sorted_wrt (<) (map bar_time (bars @ [m1]))" "bar_time m1 < bar_time m2"
  shows "stored s (bars @ [m1, m2]) (upsertBars ((c @ [(s, m1)]) @ [(s, m2)]) table)"
proof -
  have at_m1: "map_of (upsertBars (c @ d) table) (s, bar_time m1) = Some m1"
  proof -
    have "barMap (bars @ [m1]) (bar_time m1) = Some m1" using assms(4) by (subst barMap_snoc) (auto simp: sorted_wrt_append)
    then show ?thesis using assms(1) by (simp add: stored_def)
  qed
  have same: "map_of (upsertBars (c @ [(s, m1)]) table) = map_of (upsertBars (c @ d) table)"
    using assms(2) at_m1 upsert_map [of c s m1 table] by auto
  have "bar_time m2 \<notin> bar_time ` set (bars @ [m1])" using assms(4,5) by (fastforce simp: sorted_wrt_append)
  then have "barMap ((bars @ [m1]) @ [m2]) = (barMap (bars @ [m1]))(bar_time m2 \<mapsto> m2)" by (rule barMap_snoc)
  then have bm: "barMap (bars @ [m1, m2]) = (barMap (bars @ [m1]))(bar_time m2 \<mapsto> m2)" by simp
  have "map_of (upsertBars ((c @ [(s, m1)]) @ [(s, m2)]) table) = (map_of (upsertBars (c @ d) table))((s, bar_time m2) \<mapsto> m2)"
    unfolding upsert_map [of "c @ [(s, m1)]"] same by (rule refl)
  then show ?thesis using assms(1) upsert_distinct [OF assms(3)] unfolding stored_def bm by (metis fun_upd_apply prod.inject)
qed

lemma stored_replace:
  assumes "stored s (bars @ [m1]) (upsertBars (c @ d) table)" "d = [] \<or> d = [(s, m1)]" "distinct (map fst table)"
    and "sorted_wrt (<) (map bar_time (bars @ [m1]))" "bar_time m2 = bar_time m1"
  shows "stored s (bars @ [m2]) (upsertBars (c @ [(s, m2)]) table)"
proof -
  have new: "bar_time m1 \<notin> bar_time ` set bars" using assms(4) by (auto simp: sorted_wrt_append)
  have same: "(map_of (upsertBars c table))((s, bar_time m1) \<mapsto> m2) = (map_of (upsertBars (c @ d) table))((s, bar_time m1) \<mapsto> m2)"
    using assms(2) upsert_map [of c s m1 table] by auto
  have "barMap (bars @ [m2]) = (barMap (bars @ [m1]))(bar_time m1 \<mapsto> m2)" using barMap_snoc new assms(5) by simp
  moreover have "map_of (upsertBars (c @ [(s, m2)]) table) = (map_of (upsertBars (c @ d) table))((s, bar_time m1) \<mapsto> m2)"
    unfolding upsert_map [of c] assms(5) same by (rule refl)
  ultimately show ?thesis using assms(1) upsert_distinct [OF assms(3)] unfolding stored_def by (metis fun_upd_apply prod.inject)
qed

lemma candle_tick:
  assumes "candles_ok s since t ((cb, p), table)" "tk_symbol tick = s" "tickPrice tick cb \<noteq> NaN" "t \<le> bucketStart (tk_ts tick) TF_1m"
  shows "candles_ok s since (bucketStart (tk_ts tick) TF_1m) (candleTick tick (cb, p), table)"
proof -
  obtain bars m1 where b: "built s bars m1 cb" "bar_time m1 = t" "stored s (bars @ [m1]) (upsertBars (cp_closed p @ cp_dirty p) table)"
    "distinct (map fst table)" "cp_dirty p = [] \<or> cp_dirty p = [(s, m1)]" "\<forall>b\<in>set (bars @ [m1]). since \<le> bar_time b"
    using assms(1) by (auto simp: candles_ok_def)
  obtain updated c cb' where r: "builderOnTick tick cb = ((updated, c), cb')" by (metis prod_cases3 prod.collapse)
  obtain m2 where m2: "built s (bars @ optList c) m2 cb'" "bar_time m2 = bucketStart (tk_ts tick) TF_1m"
    "map_option bev_bar (List.find (\<lambda>u. bev_tf u = TF_1m) updated) = Some m2"
    "c = None \<and> bar_time m2 = bar_time m1 \<or> c = Some m1 \<and> bar_time m1 < bar_time m2"
    using built_step [OF r _ assms(3), of bars m1] b(1,2) assms(2,4) by auto
  have ord: "sorted_wrt (<) (map bar_time (bars @ [m1]))" using b(1) by (simp add: built_def)
  define p' where "p' = track s (Some m2) c p"
  have tick: "candleTick tick (cb, p) = (cb', p')" using r m2(3) assms(2) by (simp only: candleTick_def p'_def fst_conv snd_conv Let_def split_conv)
  have dirty: "cp_dirty p' = [(s, m2)]" using b(5) by (auto simp: p'_def track_def)
  have cl: "cp_closed p' = cp_closed p @ map (Pair s) (optList c)" by (simp add: p'_def track_def optList_def split: option.split)
  have "stored s ((bars @ optList c) @ [m2]) (upsertBars (cp_closed p' @ cp_dirty p') table)"
    using m2(4) stored_replace [OF b(3,5,4) ord, of m2] stored_put [OF b(3,5,4) ord, of m2] by (auto simp: dirty cl optList_def)
  moreover have "\<forall>b\<in>set ((bars @ optList c) @ [m2]). since \<le> bar_time b" using b(6) m2(4) by (auto simp: optList_def)
  ultimately show ?thesis using m2(1,2) b(4) dirty unfolding candles_ok_def tick
    by (intro exI [of _ "bars @ optList c"] exI [of _ m2]) simp
qed

lemma candle_flush: "candles_ok s since t ((cb, p), table) \<Longrightarrow> candles_ok s since t (candleStep ((cb, p), table) Flushed)"
  using upsert_distinct [of table "cp_closed p @ cp_dirty p"]
  by (simp add: candles_ok_def flushBars_def upsertBars_def [of "[]"]) blast

lemma tickPrice_cong: "cb_digits cb = cb_digits cb' \<Longrightarrow> tickPrice t cb = tickPrice t cb'"
  by (simp add: tickPrice_def)

lemma candleTick_digits:
  assumes "cb_timeframes cb = TIMEFRAMES"
  shows "cb_digits (fst (candleTick tick (cb, p))) = cb_digits cb"
proof -
  obtain updated c cb' where r: "builderOnTick tick cb = ((updated, c), cb')" by (metis prod_cases3 prod.collapse)
  then show ?thesis using onTick_result(5) [OF r assms] by (simp add: candleTick_def)
qed

definition minutes :: "Tick list \<Rightarrow> int list" where
  "minutes ticks = map (\<lambda>t. bucketStart (tk_ts t) TF_1m) ticks"

lemma candle_run:
  assumes "candles_ok s since t st" "cb_digits (fst (fst st)) = cb_digits cb0" "sorted (t # minutes (ticksOf ops))"
    and "\<forall>k\<in>set (ticksOf ops). tk_symbol k = s \<and> tickPrice k cb0 \<noteq> NaN"
  shows "candles_ok s since (last (t # minutes (ticksOf ops))) (foldl candleStep st ops)"
  using assms
proof (induction ops arbitrary: st t)
  case (Cons x ops)
  obtain cb p table where st: "st = ((cb, p), table)" by (metis prod.collapse)
  show ?case
  proof (cases x)
    case (GotTick tick)
    let ?t = "bucketStart (tk_ts tick) TF_1m"
    have tk: "tk_symbol tick = s" "tickPrice tick cb \<noteq> NaN" "t \<le> ?t" "sorted (?t # minutes (ticksOf ops))"
      using Cons.prems tickPrice_cong [of cb cb0 tick] by (auto simp: GotTick st minutes_def)
    have "cb_timeframes cb = TIMEFRAMES" using Cons.prems(1) by (auto simp: candles_ok_def built_def st)
    then have "cb_digits (fst (candleTick tick (cb, p))) = cb_digits cb0" using candleTick_digits Cons.prems(2) st by simp
    moreover have "candles_ok s since ?t (candleTick tick (cb, p), table)"
      by (rule candle_tick [OF Cons.prems(1) [unfolded st] tk(1-3)])
    ultimately show ?thesis using Cons.IH [of ?t "(candleTick tick (cb, p), table)"] tk(4) Cons.prems(4)
      by (simp add: GotTick st minutes_def)
  next
    case Flushed
    let ?st = "candleStep ((cb, p), table) Flushed"
    have "cb_digits (fst (fst ?st)) = cb_digits cb0" using Cons.prems(2) by (simp add: st flushBars_def)
    then show ?thesis using Cons.IH [of t ?st] candle_flush [OF Cons.prems(1) [unfolded st]] Cons.prems(3,4) by (simp add: Flushed st)
  qed
qed (simp add: minutes_def)

definition freshCandles :: "CandleBuilder \<Rightarrow> (CandleBuilder \<times> CandlePersister) \<times> BarTable" where
  "freshCandles cb = ((cb, newPersister), [])"

lemma candle_run_fresh:
  assumes "cb_timeframes cb = TIMEFRAMES" "\<forall>tf. current s tf cb = None" "ticksOf ops \<noteq> []" "sorted (minutes (ticksOf ops))"
    and "\<forall>k\<in>set (ticksOf ops). tk_symbol k = s \<and> tickPrice k cb \<noteq> NaN" "\<forall>m\<in>set (minutes (ticksOf ops)). since \<le> m"
  shows "candles_ok s since (last (minutes (ticksOf ops))) (foldl candleStep (freshCandles cb) ops)"
  using assms(3-6)
proof (induction ops)
  case (Cons x ops)
  show ?case
  proof (cases x)
    case Flushed
    have "candleStep (freshCandles cb) Flushed = freshCandles cb"
      by (simp add: freshCandles_def flushBars_def newPersister_def upsertBars_def)
    then show ?thesis using Cons by (simp add: Flushed)
  next
    case (GotTick tick)
    let ?t = "bucketStart (tk_ts tick) TF_1m" and ?b = "newBar (bucketStart (tk_ts tick) TF_1m) (tickPrice tick cb)"
    obtain updated c cb' where r: "builderOnTick tick cb = ((updated, c), cb')" by (metis prod_cases3 prod.collapse)
    have tk: "tk_symbol tick = s" "tickPrice tick cb \<noteq> NaN" "since \<le> ?t" "sorted (?t # minutes (ticksOf ops))"
      using Cons.prems by (auto simp: GotTick minutes_def)
    have f: "c = None" "built s [] ?b cb'" "map_option bev_bar (List.find (\<lambda>u. bev_tf u = TF_1m) updated) = Some ?b"
      using built_first [OF r assms(1)] assms(2) tk(1,2) by auto
    have step: "candleStep (freshCandles cb) x = ((cb', track s (Some ?b) None newPersister), [])"
      using r f(1,3) tk(1) by (simp only: GotTick freshCandles_def candleStep.simps candleTick_def fst_conv snd_conv Let_def split_conv)
    have "candles_ok s since ?t (candleStep (freshCandles cb) x)"
      unfolding step candles_ok_def using f(2) tk(3)
      by (intro exI [of _ "[]"] exI [of _ ?b]) (auto simp: track_def newPersister_def stored_def upsertBars_def barMap_def)
    moreover have "cb_digits (fst (fst (candleStep (freshCandles cb) x))) = cb_digits cb" unfolding step using onTick_result(5) [OF r assms(1)] by simp
    moreover have "\<forall>k\<in>set (ticksOf ops). tk_symbol k = s \<and> tickPrice k cb \<noteq> NaN" using Cons.prems(3) by (simp add: GotTick)
    ultimately have "candles_ok s since (last (?t # minutes (ticksOf ops))) (foldl candleStep (candleStep (freshCandles cb) x) ops)"
      using candle_run tk(4) by blast
    then show ?thesis by (simp add: GotTick minutes_def)
  qed
qed simp

text \<open>
  C22: The candles a trader sees live are those of the stored minutes. After any number of ticks in time order, with
  flushes at any moments in between and one at the end, the current bar on every time frame is the last bar of
  the aggregation of the minutes in the database.
\<close>

theorem live_bars_match_stored_minutes:
  assumes "cb_timeframes cb = TIMEFRAMES" "\<forall>tf. current s tf cb = None" "ticksOf ops \<noteq> []" "sorted (minutes (ticksOf ops))"
    and "\<forall>k\<in>set (ticksOf ops). tk_symbol k = s \<and> tickPrice k cb \<noteq> NaN" "\<forall>m\<in>set (minutes (ticksOf ops)). since \<le> m"
    and "foldl candleStep (freshCandles cb) (ops @ [Flushed]) = ((cb', p), table)"
  shows "current s tf cb' = Some (last (aggregateBars (barsSince s since table) tf))"
proof -
  have "candles_ok s since (last (minutes (ticksOf ops))) ((cb', p), table)" "cp_closed p = []" "cp_dirty p = []"
  proof -
    obtain cb1 p1 table1 where r: "foldl candleStep (freshCandles cb) ops = ((cb1, p1), table1)" by (metis prod.collapse)
    show "candles_ok s since (last (minutes (ticksOf ops))) ((cb', p), table)"
      using candle_flush [OF candle_run_fresh [OF assms(1-6), unfolded r]] assms(7) r by simp
    show "cp_closed p = []" "cp_dirty p = []" using assms(7) r by (auto simp: flushBars_def)
  qed
  then obtain bars m1 where b: "built s bars m1 cb'" "stored s (bars @ [m1]) table" "\<forall>b\<in>set (bars @ [m1]). since \<le> bar_time b"
    by (auto simp: candles_ok_def upsertBars_def)
  then have "barsSince s since table = bars @ [m1]"
    using barsSince_stored [OF b(2), of since] by (simp add: built_def filter_id_conv)
  then show ?thesis using b(1) by (simp add: built_def)
qed

text \<open>
  A restart continues the candles without a gap: a new builder that is restored from the database on the same
  day (UTC) has, on every time frame, exactly the current bar the old one had when it last flushed.
\<close>

theorem restart_continues_the_bars:
  assumes "cb_timeframes cb = TIMEFRAMES" "\<forall>tf. current s tf cb = None" "ticksOf ops \<noteq> []" "sorted (minutes (ticksOf ops))"
    and "\<forall>k\<in>set (ticksOf ops). tk_symbol k = s \<and> tickPrice k cb \<noteq> NaN"
    and "foldl candleStep (freshCandles cb) (ops @ [Flushed]) = ((cb', p), table)"
    and "bucketStart now TF_1d = bucketStart (last (minutes (ticksOf ops))) TF_1d"
  shows "current s tf (restoreBuilder [s] now table (newCandleBuilder TIMEFRAMES)) = current s tf cb'"
proof -
  let ?since = "Min (set (minutes (ticksOf ops)))" and ?day = "bucketStart now TF_1d"
  have ne: "minutes (ticksOf ops) \<noteq> []" using assms(3) by (simp add: minutes_def)
  then have since: "\<forall>m\<in>set (minutes (ticksOf ops)). ?since \<le> m" by simp
  obtain cb1 p1 table1 where r: "foldl candleStep (freshCandles cb) ops = ((cb1, p1), table1)" by (metis prod.collapse)
  have "candles_ok s ?since (last (minutes (ticksOf ops))) ((cb', p), table)"
    using candle_flush [OF candle_run_fresh [OF assms(1-5) since, unfolded r]] assms(6) r by simp
  moreover have "cp_closed p = []" "cp_dirty p = []" using assms(6) r by (auto simp: flushBars_def)
  ultimately obtain bars m1 where b: "built s bars m1 cb'" "stored s (bars @ [m1]) table" "bar_time m1 = last (minutes (ticksOf ops))"
    by (auto simp: candles_ok_def upsertBars_def)
  have ord: "sorted_wrt (<) (map bar_time (bars @ [m1]))" using b(1) by (simp add: built_def)
  define old where "old = filter (\<lambda>b. \<not> ?day \<le> bar_time b) (bars @ [m1])"
  define new where "new = filter (\<lambda>b. ?day \<le> bar_time b) (bars @ [m1])"
  have split: "bars @ [m1] = old @ new" unfolding old_def new_def
    using sorted_filter_split [of bar_time "bars @ [m1]" ?day] ord by (simp add: strict_sorted_iff)
  have "?day \<le> bar_time m1" using bucketStart_le [of "bar_time m1" TF_1d] assms(7) b(3) by simp
  then have new: "new \<noteq> []" by (simp add: new_def)
  have "aggregateBars (bars @ [m1]) tf = aggregateBars old tf @ aggregateBars new tf"
    unfolding split by (rule aggregate_day [of _ ?day]) (auto simp: old_def new_def)
  moreover have "aggregateBars new tf \<noteq> []" using new by (cases new rule: rev_cases) (simp_all add: aggregate_snoc)
  ultimately have last: "last (aggregateBars (bars @ [m1]) tf) = last (aggregateBars new tf)" by simp
  have "barsSince s ?day table = new" using barsSince_stored [OF b(2) ord] by (simp add: new_def)
  moreover have "sorted (map bar_time new)" using ord unfolding new_def by (intro sorted_filter) (simp add: strict_sorted_iff)
  ultimately have "current s tf (restoreBuilder [s] now table (newCandleBuilder TIMEFRAMES)) = Some (last (aggregateBars new tf))"
    using restored [OF new] new by (simp add: restoreBuilder_def restoreSymbol_def Let_def)
  then show ?thesis using b(1) last by (simp add: built_def)
qed

section \<open>Examples\<close>

definition sampleBuilder :: CandleBuilder where
  "sampleBuilder = setDigits ''EURUSD'' 0 (newCandleBuilder TIMEFRAMES)"

definition candleTickAt :: "int \<Rightarrow> Tick" where
  "candleTickAt t = \<lparr>bid = Fin 1, ask = Fin 1, tk_symbol = ''EURUSD'', tk_ts = t, tk_source = ''CTRADER''\<rparr>"

definition sampleOps :: "CandleOp list" where
  "sampleOps = [GotTick (candleTickAt 60000), Flushed, GotTick (candleTickAt 130000), GotTick (candleTickAt 130500)]"

lemma sample_candles:
  "cb_timeframes sampleBuilder = TIMEFRAMES" "\<forall>tf. current ''EURUSD'' tf sampleBuilder = None" "ticksOf sampleOps \<noteq> []"
  "sorted (minutes (ticksOf sampleOps))" "last (minutes (ticksOf sampleOps)) = 120000" "\<forall>m\<in>set (minutes (ticksOf sampleOps)). 0 \<le> m"
  by (simp_all add: sampleBuilder_def setDigits_def newCandleBuilder_def current_def sampleOps_def minutes_def candleTickAt_def bucketStart_def)

lemma sample_prices: "\<forall>k\<in>set (ticksOf sampleOps). tk_symbol k = ''EURUSD'' \<and> tickPrice k sampleBuilder \<noteq> NaN"
  by (simp add: sampleOps_def candleTickAt_def tickPrice_def sampleBuilder_def setDigits_def midPrice_def pow10_def Let_def lit_def)

theorem live_bars_match_stored_minutes_witness:
  "\<exists>cb' p table. foldl candleStep (freshCandles sampleBuilder) (sampleOps @ [Flushed]) = ((cb', p), table)
    \<and> current ''EURUSD'' TF_5m cb' = Some (last (aggregateBars (barsSince ''EURUSD'' 0 table) TF_5m))"
proof -
  obtain cb' p table where r: "foldl candleStep (freshCandles sampleBuilder) (sampleOps @ [Flushed]) = ((cb', p), table)" by (metis prod.collapse)
  from live_bars_match_stored_minutes [OF sample_candles(1-4) sample_prices sample_candles(6) r] r show ?thesis by blast
qed

theorem restart_continues_the_bars_witness:
  "\<exists>cb' p table. foldl candleStep (freshCandles sampleBuilder) (sampleOps @ [Flushed]) = ((cb', p), table)
    \<and> current ''EURUSD'' TF_4h (restoreBuilder [''EURUSD''] 200000 table (newCandleBuilder TIMEFRAMES)) = current ''EURUSD'' TF_4h cb'"
proof -
  obtain cb' p table where r: "foldl candleStep (freshCandles sampleBuilder) (sampleOps @ [Flushed]) = ((cb', p), table)" by (metis prod.collapse)
  have "bucketStart 200000 TF_1d = bucketStart (last (minutes (ticksOf sampleOps))) TF_1d" by (simp add: sample_candles(5) bucketStart_def)
  from restart_continues_the_bars [OF sample_candles(1-4) sample_prices r this] r show ?thesis by blast
qed

end
