(* ===== verification/GatewayMessages.thy ===== *)
theory GatewayMessages
  imports Candles JsString "HOL-Library.Monad_Syntax"
begin

text \<open>
  What clients send to the gateway (\<open>src/trading/gateway.ts\<close>, \<open>protocol.ts\<close>): frames are validated by a zod
  schema, modelled over decoded JSON with the checks of zod written out (object fields that the schema does not
  name are dropped), and channel names are parsed. Ids are strings here, as on the wire; the texts of validation
  errors are left out.
\<close>

section \<open>Decoded JSON\<close>

text \<open>The value of \<open>JSON.parse\<close>; an object has its last value for every key.\<close>

datatype Json = JNull | JBool bool | JNum number | JStr string | JArr "Json list" | JObj "(string \<times> Json) list"

datatype GatewayMessage =
    SubscribeMsg "string list"
  | UnsubscribeMsg "string list"
  | OrderPlaceReq (orq_accountId: string) (orq_clientOrderId: string) (orq_symbol: string) (orq_side: Side) (orq_kind: OrderKind)
      (orq_volume: number) (orq_price: "number option") (orq_stopLoss: "number option") (orq_takeProfit: "number option")
  | PositionCloseReq string string "number option"
  | PositionModifyReq string string "number option option" "number option option"
  | AccountGetReq string
  | Ping

definition MAX_CHANNELS :: nat where "MAX_CHANNELS = 50"

section \<open>The schema\<close>

definition sizedString :: "nat \<Rightarrow> Json \<Rightarrow> string option" where
  "sizedString limit j = (case j of JStr s \<Rightarrow> if s \<noteq> [] \<and> length s \<le> limit then Some s else None | _ \<Rightarrow> None)"

definition idSchema :: "Json \<Rightarrow> string option" where
  "idSchema = sizedString 64"

definition priceSchema :: "Json \<Rightarrow> number option" where
  "priceSchema j = (case j of JNum x \<Rightarrow> if isFinite x \<and> x > lit 0 then Some x else None | _ \<Rightarrow> None)"

definition sideSchema :: "Json \<Rightarrow> Side option" where
  "sideSchema j = (if j = JStr ''BUY'' then Some BUY else if j = JStr ''SELL'' then Some SELL else None)"

definition kindSchema :: "Json \<Rightarrow> OrderKind option" where
  "kindSchema j = (if j = JStr ''MARKET'' then Some MARKET else if j = JStr ''LIMIT'' then Some LIMIT
     else if j = JStr ''STOP'' then Some STOP else None)"

fun allOf :: "(Json \<Rightarrow> 'a option) \<Rightarrow> Json list \<Rightarrow> 'a list option" where
  "allOf p [] = Some []"
| "allOf p (j # js) = do { x \<leftarrow> p j; xs \<leftarrow> allOf p js; Some (x # xs) }"

definition channelsSchema :: "Json \<Rightarrow> string list option" where
  "channelsSchema j = (case j of
     JArr js \<Rightarrow> if length js \<le> MAX_CHANNELS then allOf (sizedString 80) js else None | _ \<Rightarrow> None)"

definition required :: "(Json \<Rightarrow> 'a option) \<Rightarrow> string \<Rightarrow> (string \<times> Json) list \<Rightarrow> 'a option" where
  "required p k obj = Option.bind (map_of obj k) p"

definition optional :: "(Json \<Rightarrow> 'a option) \<Rightarrow> string \<Rightarrow> (string \<times> Json) list \<Rightarrow> 'a option option" where
  "optional p k obj = (case map_of obj k of None \<Rightarrow> Some None | Some j \<Rightarrow> map_option Some (p j))"

definition nullable :: "(Json \<Rightarrow> 'a option) \<Rightarrow> Json \<Rightarrow> 'a option option" where
  "nullable p j = (if j = JNull then Some None else map_option Some (p j))"

definition orderPlaceSchema :: "(string \<times> Json) list \<Rightarrow> GatewayMessage option" where
  "orderPlaceSchema o1 = do {
     accountId \<leftarrow> required idSchema ''accountId'' o1;
     clientOrderId \<leftarrow> required idSchema ''clientOrderId'' o1;
     symbol \<leftarrow> required (sizedString 32) ''symbol'' o1;
     side \<leftarrow> required sideSchema ''side'' o1;
     kind \<leftarrow> required kindSchema ''orderType'' o1;
     volume \<leftarrow> required priceSchema ''volume'' o1;
     price \<leftarrow> optional priceSchema ''price'' o1;
     stopLoss \<leftarrow> optional priceSchema ''stopLoss'' o1;
     takeProfit \<leftarrow> optional priceSchema ''takeProfit'' o1;
     Some (OrderPlaceReq accountId clientOrderId symbol side kind volume price stopLoss takeProfit) }"

definition positionCloseSchema :: "(string \<times> Json) list \<Rightarrow> GatewayMessage option" where
  "positionCloseSchema o1 = do {
     accountId \<leftarrow> required idSchema ''accountId'' o1;
     positionId \<leftarrow> required idSchema ''positionId'' o1;
     volume \<leftarrow> optional priceSchema ''volume'' o1;
     Some (PositionCloseReq accountId positionId volume) }"

definition positionModifySchema :: "(string \<times> Json) list \<Rightarrow> GatewayMessage option" where
  "positionModifySchema o1 = do {
     accountId \<leftarrow> required idSchema ''accountId'' o1;
     positionId \<leftarrow> required idSchema ''positionId'' o1;
     stopLoss \<leftarrow> optional (nullable priceSchema) ''stopLoss'' o1;
     takeProfit \<leftarrow> optional (nullable priceSchema) ''takeProfit'' o1;
     Some (PositionModifyReq accountId positionId stopLoss takeProfit) }"

text \<open>The union is decided by the field \<open>type\<close>.\<close>

definition parseClientMessage :: "Json \<Rightarrow> GatewayMessage option" where
  "parseClientMessage raw =
     (case raw of
        JObj o1 \<Rightarrow>
         (case map_of o1 ''type'' of
            Some (JStr t) \<Rightarrow>
              if t = ''subscribe'' then map_option SubscribeMsg (required channelsSchema ''channels'' o1)
              else if t = ''unsubscribe'' then map_option UnsubscribeMsg (required channelsSchema ''channels'' o1)
              else if t = ''order.place'' then orderPlaceSchema o1
              else if t = ''position.close'' then positionCloseSchema o1
              else if t = ''position.modify'' then positionModifySchema o1
              else if t = ''account.get'' then map_option AccountGetReq (required idSchema ''accountId'' o1)
              else if t = ''ping'' then Some Ping
              else None
          | _ \<Rightarrow> None)
      | _ \<Rightarrow> None)"

section \<open>Channels\<close>

definition tfName :: "Timeframe \<Rightarrow> string" where
  "tfName tf = (case tf of TF_1m \<Rightarrow> ''1m'' | TF_5m \<Rightarrow> ''5m'' | TF_15m \<Rightarrow> ''15m'' | TF_1h \<Rightarrow> ''1h'' | TF_4h \<Rightarrow> ''4h'' | TF_1d \<Rightarrow> ''1d'')"

definition ticksChannel :: "string \<Rightarrow> string" where
  "ticksChannel symbol = ''ticks:'' @ symbol"

definition barsChannel :: "string \<Rightarrow> Timeframe \<Rightarrow> string" where
  "barsChannel symbol tf = ''bars:'' @ symbol @ '':'' @ tfName tf"

definition accountChannel :: "string \<Rightarrow> string" where
  "accountChannel accountId = ''account:'' @ accountId"

definition marketChannel :: string where
  "marketChannel = ''market''"

datatype ParsedChannel = ChTicks string | ChBars string Timeframe | ChAccount string | ChMarket

definition timeframeOf :: "string \<Rightarrow> Timeframe option" where
  "timeframeOf s = List.find (\<lambda>tf. tfName tf = s) TIMEFRAMES"

definition parseChannel :: "string \<Rightarrow> ParsedChannel option" where
  "parseChannel name =
     (if name = marketChannel then Some ChMarket
      else (case splitAt (CHR '':'') name of
         [kind, x] \<Rightarrow>
           if kind = ''ticks'' \<and> x \<noteq> [] then Some (ChTicks x)
           else if kind = ''account'' \<and> x \<noteq> [] then Some (ChAccount x) else None
       | [kind, x, tf] \<Rightarrow> if kind = ''bars'' \<and> x \<noteq> [] then map_option (ChBars x) (timeframeOf tf) else None
       | _ \<Rightarrow> None))"

definition channelName :: "ParsedChannel \<Rightarrow> string" where
  "channelName ch = (case ch of ChTicks s \<Rightarrow> ticksChannel s | ChBars s tf \<Rightarrow> barsChannel s tf
     | ChAccount i \<Rightarrow> accountChannel i | ChMarket \<Rightarrow> marketChannel)"

section \<open>Names and channels are the same thing\<close>

lemma tfName_simps [simp]:
  "tfName TF_1m = ''1m''" "tfName TF_5m = ''5m''" "tfName TF_15m = ''15m''" "tfName TF_1h = ''1h''" "tfName TF_4h = ''4h''" "tfName TF_1d = ''1d''"
  by (simp_all add: tfName_def)

lemma timeframeOf_iff: "timeframeOf s = Some tf \<longleftrightarrow> s = tfName tf"
  by (cases tf) (auto simp: timeframeOf_def TIMEFRAMES_def split: if_splits)

lemma tfName_plain [simp]: "CHR '':'' \<notin> set (tfName tf)"
  by (cases tf) simp_all

lemma parseChannel_name: "parseChannel name = Some ch \<Longrightarrow> name = channelName ch"
proof -
  assume ch: "parseChannel name = Some ch"
  have j: "joinWith (CHR '':'') (splitAt (CHR '':'') name) = name" by (rule join_split)
  show ?thesis
  proof (cases "name = marketChannel")
    case True
    then show ?thesis using ch by (simp add: parseChannel_def channelName_def)
  next
    case False
    then consider x where "splitAt (CHR '':'') name = [''ticks'', x]" "ch = ChTicks x"
      | x where "splitAt (CHR '':'') name = [''account'', x]" "ch = ChAccount x"
      | x tf where "splitAt (CHR '':'') name = [''bars'', x, tfName tf]" "ch = ChBars x tf"
      using ch by (auto simp: parseChannel_def timeframeOf_iff split: list.splits if_splits)
    then show ?thesis
      using j by cases (simp_all add: channelName_def ticksChannel_def accountChannel_def barsChannel_def)
  qed
qed

text \<open>
  A channel name means exactly one channel. Parsing a name and printing the channel gives the name back, so the
  name a client subscribes with is the very key events are published under; every channel whose symbol or
  account is a nonempty text without a colon is reached, and no two channels share a name.
\<close>

theorem channel_names_round_trip:
  "(parseChannel name = Some ch \<longrightarrow> channelName ch = name)
   \<and> (x \<noteq> [] \<and> CHR '':'' \<notin> set x \<longrightarrow> parseChannel (ticksChannel x) = Some (ChTicks x)
        \<and> parseChannel (barsChannel x tf) = Some (ChBars x tf) \<and> parseChannel (accountChannel x) = Some (ChAccount x))
   \<and> parseChannel marketChannel = Some ChMarket"
proof -
  have "parseChannel (ticksChannel x) = Some (ChTicks x) \<and> parseChannel (barsChannel x tf) = Some (ChBars x tf)
      \<and> parseChannel (accountChannel x) = Some (ChAccount x)" if x: "x \<noteq> []" "CHR '':'' \<notin> set x"
  proof -
    have "splitAt (CHR '':'') (x @ CHR '':'' # tfName tf) = [x, tfName tf]"
      using x by (simp add: split_append split_plain)
    then show ?thesis using x
      by (simp add: parseChannel_def ticksChannel_def barsChannel_def accountChannel_def marketChannel_def split_plain timeframeOf_iff)
  qed
  then show ?thesis using parseChannel_name [of name ch] by (auto simp: parseChannel_def)
qed

theorem channel_names_round_trip_witness:
  "parseChannel ''bars:EURUSD:15m'' = Some (ChBars ''EURUSD'' TF_15m) \<and> parseChannel (accountChannel ''a1'') = Some (ChAccount ''a1'')"
  using channel_names_round_trip [of "''market''" ChMarket "''EURUSD''" TF_15m] channel_names_round_trip [of "''market''" ChMarket "''a1''" TF_15m]
  by (simp add: barsChannel_def)

section \<open>What validation guarantees\<close>

definition price_ok :: "number \<Rightarrow> bool" where
  "price_ok x \<longleftrightarrow> isFinite x \<and> x > lit 0"

definition text_ok :: "nat \<Rightarrow> string \<Rightarrow> bool" where
  "text_ok limit s \<longleftrightarrow> s \<noteq> [] \<and> length s \<le> limit"

definition message_ok :: "GatewayMessage \<Rightarrow> bool" where
  "message_ok m = (case m of
     SubscribeMsg cs \<Rightarrow> length cs \<le> MAX_CHANNELS \<and> (\<forall>c\<in>set cs. text_ok 80 c)
   | UnsubscribeMsg cs \<Rightarrow> length cs \<le> MAX_CHANNELS \<and> (\<forall>c\<in>set cs. text_ok 80 c)
   | OrderPlaceReq a k s _ _ v p sl tp \<Rightarrow> text_ok 64 a \<and> text_ok 64 k \<and> text_ok 32 s \<and> price_ok v
       \<and> (\<forall>x\<in>set_option p \<union> set_option sl \<union> set_option tp. price_ok x)
   | PositionCloseReq a i v \<Rightarrow> text_ok 64 a \<and> text_ok 64 i \<and> (\<forall>x\<in>set_option v. price_ok x)
   | PositionModifyReq a i sl tp \<Rightarrow> text_ok 64 a \<and> text_ok 64 i \<and> (\<forall>y\<in>set_option sl \<union> set_option tp. \<forall>x\<in>set_option y. price_ok x)
   | AccountGetReq a \<Rightarrow> text_ok 64 a
   | Ping \<Rightarrow> True)"

lemma sizedString_ok: "sizedString n j = Some s \<Longrightarrow> text_ok n s"
  by (cases j) (auto simp: sizedString_def text_ok_def split: if_splits)

lemma idSchema_ok: "idSchema j = Some s \<Longrightarrow> text_ok 64 s"
  unfolding idSchema_def by (rule sizedString_ok)

lemma priceSchema_ok: "priceSchema j = Some x \<Longrightarrow> price_ok x"
  by (cases j) (auto simp: priceSchema_def price_ok_def split: if_splits)

lemma required_iff: "required p k o1 = Some x \<longleftrightarrow> (\<exists>j. map_of o1 k = Some j \<and> p j = Some x)"
  by (auto simp: required_def bind_eq_Some_conv)

lemma id_field_ok: "required idSchema k o1 = Some x \<Longrightarrow> text_ok 64 x"
  by (auto simp: required_iff intro: idSchema_ok)

lemma text_field_ok: "required (sizedString n) k o1 = Some x \<Longrightarrow> text_ok n x"
  by (auto simp: required_iff intro: sizedString_ok)

lemma price_field_ok: "required priceSchema k o1 = Some x \<Longrightarrow> price_ok x"
  by (auto simp: required_iff intro: priceSchema_ok)

lemma optional_price_ok: "optional priceSchema k o1 = Some r \<Longrightarrow> \<forall>x\<in>set_option r. price_ok x"
  by (auto simp: optional_def intro: priceSchema_ok split: option.splits)

lemma nullable_price_ok: "optional (nullable priceSchema) k o1 = Some r \<Longrightarrow> \<forall>y\<in>set_option r. \<forall>x\<in>set_option y. price_ok x"
  by (auto simp: optional_def nullable_def intro: priceSchema_ok split: option.splits if_splits)

lemmas field_ok = id_field_ok text_field_ok price_field_ok optional_price_ok nullable_price_ok

lemma allOf_ok: "allOf p js = Some xs \<Longrightarrow> (\<And>j x. p j = Some x \<Longrightarrow> Q x) \<Longrightarrow> length xs = length js \<and> (\<forall>x\<in>set xs. Q x)"
proof (induction js arbitrary: xs)
  case (Cons j js)
  then obtain y ys where "p j = Some y" "allOf p js = Some ys" "xs = y # ys" by (auto simp: bind_eq_Some_conv)
  with Cons show ?case by auto
qed simp

lemma channels_ok:
  assumes "required channelsSchema k o1 = Some cs"
  shows "length cs \<le> MAX_CHANNELS \<and> (\<forall>c\<in>set cs. text_ok 80 c)"
proof -
  obtain j where "channelsSchema j = Some cs" using assms by (auto simp: required_iff)
  then obtain js where js: "length js \<le> MAX_CHANNELS" "allOf (sizedString 80) js = Some cs"
    by (cases j) (auto simp: channelsSchema_def split: if_splits)
  have "length cs = length js \<and> (\<forall>c\<in>set cs. text_ok 80 c)" by (rule allOf_ok [OF js(2)]) (rule sizedString_ok)
  then show ?thesis using js(1) by simp
qed

lemma orderPlace_ok: "orderPlaceSchema o1 = Some m \<Longrightarrow> message_ok m"
  by (auto simp: orderPlaceSchema_def bind_eq_Some_conv message_ok_def dest!: field_ok)

lemma positionClose_ok: "positionCloseSchema o1 = Some m \<Longrightarrow> message_ok m"
  by (auto simp: positionCloseSchema_def bind_eq_Some_conv message_ok_def dest!: field_ok)

lemma positionModify_ok: "positionModifySchema o1 = Some m \<Longrightarrow> message_ok m"
  by (auto simp: positionModifySchema_def bind_eq_Some_conv message_ok_def dest!: field_ok)

text \<open>
  Whatever a client sends, a message that reaches the engine is well formed: ids and symbols are nonempty texts of
  bounded length, a subscription names at most 50 channels, and every volume and price is a finite number above
  zero (so no \<open>NaN\<close>, infinity, zero or negative amount enters an order).
\<close>

theorem accepted_messages_are_well_formed:
  assumes "parseClientMessage raw = Some m"
  shows "message_ok m"
proof -
  obtain o1 t where "raw = JObj o1" "map_of o1 ''type'' = Some (JStr t)"
    using assms by (auto simp: parseClientMessage_def split: Json.splits option.splits)
  with assms show ?thesis
    by (auto simp: parseClientMessage_def split: if_splits intro: orderPlace_ok positionClose_ok positionModify_ok)
      (auto simp: message_ok_def dest: channels_ok id_field_ok)
qed

theorem accepted_messages_are_well_formed_witness:
  "parseClientMessage (JObj [(''type'', JStr ''position.close''), (''accountId'', JStr ''a1''), (''positionId'', JStr ''p1''), (''volume'', JNum (Fin 2))])
     = Some (PositionCloseReq ''a1'' ''p1'' (Some (Fin 2)))
   \<and> message_ok (PositionCloseReq ''a1'' ''p1'' (Some (Fin 2)))"
proof -
  have p: "parseClientMessage (JObj [(''type'', JStr ''position.close''), (''accountId'', JStr ''a1''), (''positionId'', JStr ''p1''), (''volume'', JNum (Fin 2))])
     = Some (PositionCloseReq ''a1'' ''p1'' (Some (Fin 2)))"
    by (simp add: parseClientMessage_def positionCloseSchema_def required_def optional_def idSchema_def sizedString_def priceSchema_def lit_def less_number_def)
  from accepted_messages_are_well_formed [OF this] p show ?thesis by blast
qed

end
