(* ===== verification/Coalesce.thy ===== *)
theory Coalesce
  imports Prelude "HOL-Library.AList"
begin

text \<open>
  Outbound coalescing of one connection (\<open>src/trading/coalesce.ts\<close>): at most one frame per key and interval,
  always the latest value. A JavaScript \<open>Map\<close> is an association list in insertion order; the injected clock is
  the argument \<open>now\<close> in whole milliseconds.
\<close>

section \<open>The coalescer\<close>

record 'v Coalescer =
  co_lastSentAt :: "(string \<times> int) list"
  co_pending :: "(string \<times> 'v \<times> int) list"

definition newCoalescer :: "'v Coalescer" where
  "newCoalescer = \<lparr>co_lastSentAt = [], co_pending = []\<rparr>"

definition offer :: "int \<Rightarrow> string \<Rightarrow> 'v \<Rightarrow> int \<Rightarrow> 'v Coalescer \<Rightarrow> 'v option \<times> 'v Coalescer" where
  "offer now key v intervalMs co =
     (let due = (case map_of (co_lastSentAt co) key of None \<Rightarrow> True | Some t \<Rightarrow> now - t \<ge> intervalMs) in
      if due \<and> map_of (co_pending co) key = None
      then (Some v, co\<lparr>co_lastSentAt := AList.update key now (co_lastSentAt co)\<rparr>)
      else (None, co\<lparr>co_pending := AList.update key (v, intervalMs) (co_pending co)\<rparr>))"

text \<open>The loop of \<open>drain\<close> over the entries that were pending when it began.\<close>

fun drainLoop :: "int \<Rightarrow> (string \<times> 'v \<times> int) list \<Rightarrow> 'v Coalescer \<Rightarrow> (string \<times> 'v) list \<times> 'v Coalescer" where
  "drainLoop now [] co = ([], co)"
| "drainLoop now ((key, v, intervalMs) # entries) co =
     (let sentAt = (case map_of (co_lastSentAt co) key of Some t \<Rightarrow> t | None \<Rightarrow> 0) in
      if now - sentAt \<ge> intervalMs
      then (let (out, co1) = drainLoop now entries (co\<lparr>co_pending := AList.delete key (co_pending co),
                    co_lastSentAt := AList.update key now (co_lastSentAt co)\<rparr>)
            in ((key, v) # out, co1))
      else drainLoop now entries co)"

definition drain :: "int \<Rightarrow> 'v Coalescer \<Rightarrow> (string \<times> 'v) list \<times> 'v Coalescer" where
  "drain now co = drainLoop now (co_pending co) co"

definition pendingCount :: "'v Coalescer \<Rightarrow> nat" where
  "pendingCount co = length (co_pending co)"

definition forget :: "string \<Rightarrow> 'v Coalescer \<Rightarrow> 'v Coalescer" where
  "forget key co = co\<lparr>co_pending := AList.delete key (co_pending co), co_lastSentAt := AList.delete key (co_lastSentAt co)\<rparr>"

section \<open>What it promises\<close>

text \<open>A run: offers and drains, each at its time; the frames sent are (key, time, value).\<close>

datatype 'v CoalesceOp = Offered string 'v int | Drained

fun coStep :: "(string \<times> int \<times> 'v) list \<times> 'v Coalescer \<Rightarrow> int \<times> 'v CoalesceOp \<Rightarrow> (string \<times> int \<times> 'v) list \<times> 'v Coalescer" where
  "coStep (sent, co) (now, Offered key v intervalMs) =
     (let (out, co1) = offer now key v intervalMs co
      in (sent @ (case out of Some w \<Rightarrow> [(key, now, w)] | None \<Rightarrow> []), co1))"
| "coStep (sent, co) (now, Drained) =
     (let (out, co1) = drain now co in (sent @ map (\<lambda>(key, w). (key, now, w)) out, co1))"

definition sentOn :: "string \<Rightarrow> (string \<times> int \<times> 'v) list \<Rightarrow> (int \<times> 'v) list" where
  "sentOn key sent = map snd (filter (\<lambda>s. fst s = key) sent)"

fun offeredOn :: "string \<Rightarrow> (int \<times> 'v CoalesceOp) list \<Rightarrow> 'v list" where
  "offeredOn key [] = []"
| "offeredOn key ((now, Offered k v i) # ops) = (if k = key then v # offeredOn key ops else offeredOn key ops)"
| "offeredOn key ((now, Drained) # ops) = offeredOn key ops"

lemma sentOn_append [simp]: "sentOn key (xs @ ys) = sentOn key xs @ sentOn key ys"
  by (simp add: sentOn_def)

lemma sentOn_simps [simp]:
  "sentOn key [] = []" "sentOn key [(k, t, v)] = (if k = key then [(t, v)] else [])"
  by (simp_all add: sentOn_def)

lemma offeredOn_append [simp]: "offeredOn key (xs @ ys) = offeredOn key xs @ offeredOn key ys"
  by (induction key xs rule: offeredOn.induct) auto

text \<open>What a key sees of a drain.\<close>

definition due :: "int \<Rightarrow> string \<Rightarrow> (string \<times> 'v \<times> int) list \<Rightarrow> 'v Coalescer \<Rightarrow> bool" where
  "due now key entries co \<longleftrightarrow> (\<exists>v i. map_of entries key = Some (v, i)
     \<and> now - (case map_of (co_lastSentAt co) key of Some t \<Rightarrow> t | None \<Rightarrow> 0) \<ge> i)"

lemma drainLoop_key:
  assumes "distinct (map fst entries)" "drainLoop now entries co = (out, co')"
  shows "(due now key entries co \<longrightarrow> filter (\<lambda>s. fst s = key) out = [(key, fst (the (map_of entries key)))]
      \<and> map_of (co_lastSentAt co') key = Some now \<and> map_of (co_pending co') key = None)
    \<and> (\<not> due now key entries co \<longrightarrow> filter (\<lambda>s. fst s = key) out = []
      \<and> map_of (co_lastSentAt co') key = map_of (co_lastSentAt co) key \<and> map_of (co_pending co') key = map_of (co_pending co) key)
    \<and> (distinct (map fst (co_pending co)) \<longrightarrow> distinct (map fst (co_pending co')))"
  using assms
proof (induction entries arbitrary: co out)
  case Nil
  then show ?case by (simp add: due_def)
next
  case (Cons e entries)
  obtain k v i where e: "e = (k, v, i)" by (cases e)
  let ?at = "case map_of (co_lastSentAt co) k of Some t \<Rightarrow> t | None \<Rightarrow> 0"
  have d: "distinct (map fst entries)" "map_of entries k = None"
    using Cons.prems(1) e by (auto simp: map_of_eq_None_iff)
  show ?case
  proof (cases "now - ?at \<ge> i")
    case True
    define co1 where "co1 = co\<lparr>co_pending := AList.delete k (co_pending co), co_lastSentAt := AList.update k now (co_lastSentAt co)\<rparr>"
    obtain out1 where o: "drainLoop now entries co1 = (out1, co')" "out = (k, v) # out1"
      using Cons.prems(2) e True by (auto simp: co1_def Let_def split: prod.splits)
    have co1: "distinct (map fst (co_pending co)) \<longrightarrow> distinct (map fst (co_pending co1))" by (simp add: co1_def distinct_delete)
    show ?thesis
    proof (cases "k = key")
      case key: True
      then have "due now key (e # entries) co" "\<not> due now key entries co1" using e True d by (simp_all add: due_def)
      moreover have "map_of (co_lastSentAt co1) key = Some now" "map_of (co_pending co1) key = None"
        using key by (simp_all add: co1_def update_conv' delete_conv')
      ultimately show ?thesis using Cons.IH [OF d(1) o(1)] co1 o(2) e key by simp
    next
      case False
      then have "due now key (e # entries) co = due now key entries co1"
        "map_of (co_lastSentAt co1) key = map_of (co_lastSentAt co) key" "map_of (co_pending co1) key = map_of (co_pending co) key"
        using e by (simp_all add: due_def co1_def update_conv' delete_conv')
      then show ?thesis using Cons.IH [OF d(1) o(1)] co1 o(2) e False by simp
    qed
  next
    case False
    then have r: "drainLoop now entries co = (out, co')" using Cons.prems(2) e by simp
    have "due now key (e # entries) co = due now key entries co \<and> (due now key entries co \<longrightarrow> k \<noteq> key)"
      using e False d by (cases "k = key") (simp_all add: due_def)
    then show ?thesis using Cons.IH [OF d(1) r] e by auto
  qed
qed

lemma offer_distinct:
  "distinct (map fst (co_pending co)) \<Longrightarrow> distinct (map fst (co_pending (snd (offer now k v i co))))"
  by (simp add: offer_def Let_def distinct_update split: option.splits)

text \<open>The state of one key after any run.\<close>

definition key_ok :: "string \<Rightarrow> int \<Rightarrow> 'v list \<Rightarrow> (int \<times> 'v) list \<Rightarrow> 'v Coalescer \<Rightarrow> bool" where
  "key_ok key i offers sends co \<longleftrightarrow>
     map_of (co_lastSentAt co) key = (if sends = [] then None else Some (fst (last sends)))
     \<and> (case map_of (co_pending co) key of
          Some (v, j) \<Rightarrow> j = i \<and> offers \<noteq> [] \<and> v = last offers \<and> sends \<noteq> []
        | None \<Rightarrow> if offers = [] then sends = [] else sends \<noteq> [] \<and> snd (last sends) = last offers)
     \<and> sorted_wrt (\<lambda>a b. a + i \<le> b) (map fst sends)
     \<and> snd ` set sends \<subseteq> set offers"

lemma spaced_snoc:
  assumes "sorted_wrt (\<lambda>a b. a + i \<le> b) ts" "0 \<le> (i :: int)" "ts = [] \<or> last ts + i \<le> t"
  shows "sorted_wrt (\<lambda>a b. a + i \<le> b) (ts @ [t])"
proof -
  have "x + i \<le> t" if x: "x \<in> set ts" for x
  proof -
    have "x \<le> last ts" using assms(1,2) x
      by (induction ts rule: rev_induct) (auto simp: sorted_wrt_append)
    then show ?thesis using assms(3) x by auto
  qed
  with assms(1) show ?thesis by (simp add: sorted_wrt_append)
qed

lemma key_ok_offer:
  assumes "key_ok key i offers sends co" "0 \<le> i" "offer now key v i co = (out, co1)"
  shows "key_ok key i (offers @ [v]) (sends @ (case out of Some w \<Rightarrow> [(now, w)] | None \<Rightarrow> [])) co1"
  using assms spaced_snoc [of i "map fst sends" now]
  by (auto simp: key_ok_def offer_def Let_def update_conv' last_map split: option.splits if_splits prod.splits)

lemma key_ok_other:
  assumes "k \<noteq> key" "offer now k v j co = (out, co1)"
  shows "key_ok key i offers sends co1 = key_ok key i offers sends co"
  using assms by (auto simp: key_ok_def offer_def Let_def update_conv' split: if_splits)

lemma key_ok_drain:
  assumes "key_ok key i offers sends co" "0 \<le> i" "drain now co = (out, co1)" "distinct (map fst (co_pending co))"
  shows "key_ok key i offers (sends @ map (\<lambda>s. (now, snd s)) (filter (\<lambda>s. fst s = key) out)) co1"
proof -
  define mine where "mine = filter (\<lambda>s. fst s = key) out"
  note d = drainLoop_key [OF assms(4) assms(3) [unfolded drain_def], of key, folded mine_def]
  have "key_ok key i offers (sends @ map (\<lambda>s. (now, snd s)) mine) co1"
  proof (cases "due now key (co_pending co) co")
    case False
    then show ?thesis using d assms(1) by (simp add: key_ok_def)
  next
    case True
    then obtain v j where p: "map_of (co_pending co) key = Some (v, j)"
        "now - (case map_of (co_lastSentAt co) key of Some t \<Rightarrow> t | None \<Rightarrow> 0) \<ge> j" unfolding due_def by blast
    have "j = i" "offers \<noteq> []" "v = last offers" "sends \<noteq> []" "map_of (co_lastSentAt co) key = Some (fst (last sends))"
      using assms(1) p(1) by (auto simp: key_ok_def)
    then show ?thesis using assms(1,2) d True p spaced_snoc [of i "map fst sends" now] by (simp add: key_ok_def last_map)
  qed
  then show ?thesis by (simp add: mine_def)
qed

lemma sentOn_drained: "sentOn key (map (\<lambda>(k, w). (k, now, w)) out) = map (\<lambda>s. (now, snd s)) (filter (\<lambda>s. fst s = key) out)"
  by (induction out) (auto simp: sentOn_def)

lemma coalescer_run:
  assumes "\<forall>(t, op)\<in>set ops. \<forall>v j. op = Offered key v j \<longrightarrow> j = i" "0 \<le> i"
    and "foldl coStep ([], newCoalescer) ops = (sent, co)"
  shows "key_ok key i (offeredOn key ops) (sentOn key sent) co \<and> distinct (map fst (co_pending co))"
  using assms(1,3)
proof (induction ops arbitrary: sent co rule: rev_induct)
  case Nil
  then show ?case by (auto simp: key_ok_def newCoalescer_def)
next
  case (snoc x ops)
  obtain sent0 co0 where r: "foldl coStep ([], newCoalescer) ops = (sent0, co0)" by fastforce
  have ih: "key_ok key i (offeredOn key ops) (sentOn key sent0) co0" "distinct (map fst (co_pending co0))"
    using snoc.IH [OF _ r] snoc.prems(1) by auto
  obtain now op where x: "x = (now, op)" by (cases x)
  have step: "coStep (sent0, co0) (now, op) = (sent, co)" using snoc.prems(2) r x by simp
  show ?case
  proof (cases op)
    case (Offered k v j)
    obtain out co1 where o: "offer now k v j co0 = (out, co1)" by fastforce
    have s: "sent = sent0 @ (case out of Some w \<Rightarrow> [(k, now, w)] | None \<Rightarrow> [])" "co = co1"
      using step Offered o by auto
    have d: "distinct (map fst (co_pending co))" using offer_distinct [OF ih(2), of now k v j] o s by simp
    show ?thesis
    proof (cases "k = key")
      case True
      then have "j = i" using snoc.prems(1) x Offered by auto
      then show ?thesis using key_ok_offer [OF ih(1) assms(2), of now v out co1] o True x Offered s d by (cases out) simp_all
    next
      case False
      then show ?thesis using key_ok_other [OF False o] ih(1) x Offered s d by (auto split: option.splits)
    qed
  next
    case Drained
    obtain out co1 where o: "drain now co0 = (out, co1)" by fastforce
    have s: "sent = sent0 @ map (\<lambda>(k, w). (k, now, w)) out" "co = co1" using step Drained o by auto
    have "distinct (map fst (co_pending co))"
      using drainLoop_key [OF ih(2) o [unfolded drain_def], of key] ih(2) s by simp
    then show ?thesis using key_ok_drain [OF ih(1) assms(2) o ih(2)] x Drained s by (simp add: sentOn_drained)
  qed
qed

text \<open>
  Clients are never flooded and never left behind. For a key that is always offered with the same interval, any
  run of offers and drains sends frames at least that interval apart, only values that were offered, and at
  every moment the latest value offered is the one sent last or the one that is pending; a drain once the
  interval has passed sends it.
\<close>

theorem coalescing_keeps_the_latest:
  assumes "\<forall>(t, op)\<in>set ops. \<forall>v j. op = Offered key v j \<longrightarrow> j = i" "0 \<le> i" "offeredOn key ops \<noteq> []"
    and "foldl coStep ([], newCoalescer) ops = (sent, co)"
  shows "sorted_wrt (\<lambda>a b. a + i \<le> b) (map fst (sentOn key sent)) \<and> snd ` set (sentOn key sent) \<subseteq> set (offeredOn key ops)
    \<and> sentOn key sent \<noteq> []
    \<and> (case map_of (co_pending co) key of
         None \<Rightarrow> snd (last (sentOn key sent)) = last (offeredOn key ops)
       | Some (v, _) \<Rightarrow> v = last (offeredOn key ops))
    \<and> (fst (last (sentOn key sent)) + i \<le> now \<longrightarrow>
         snd (last (sentOn key (fst (coStep (sent, co) (now, Drained))))) = last (offeredOn key ops)
         \<and> map_of (co_pending (snd (coStep (sent, co) (now, Drained)))) key = None)"
proof -
  note ok = coalescer_run [OF assms(1,2,4)]
  obtain out co1 where o: "drain now co = (out, co1)" by fastforce
  note k = conjunct1 [OF ok, unfolded key_ok_def]
  note dr = key_ok_drain [OF conjunct1 [OF ok] assms(2) o conjunct2 [OF ok]]
  note d = drainLoop_key [OF conjunct2 [OF ok] o [unfolded drain_def], of key]
  have sent: "sentOn key sent \<noteq> []" using k assms(3) by (auto split: option.splits)
  moreover have "snd (last (sentOn key (fst (coStep (sent, co) (now, Drained))))) = last (offeredOn key ops)
      \<and> map_of (co_pending (snd (coStep (sent, co) (now, Drained)))) key = None"
    if after: "fst (last (sentOn key sent)) + i \<le> now"
  proof -
    have "map_of (co_pending co1) key = None"
    proof (cases "map_of (co_pending co) key")
      case None
      then show ?thesis using d by (cases "due now key (co_pending co) co") simp_all
    next
      case (Some p)
      then have "due now key (co_pending co) co" using k sent after by (cases p) (simp add: due_def)
      then show ?thesis using d by simp
    qed
    then show ?thesis using dr o assms(3) by (simp add: key_ok_def sentOn_drained)
  qed
  ultimately show ?thesis using k assms(3) by (auto split: option.splits)
qed

theorem coalescing_keeps_the_latest_witness:
  "\<exists>sent co. foldl coStep ([], newCoalescer) [(0, Offered ''tick'' (1::int) 100), (30, Offered ''tick'' 2 100), (60, Offered ''tick'' 3 100)]
      = (sent, co) \<and> snd (last (sentOn ''tick'' (fst (coStep (sent, co) (100, Drained))))) = 3"
proof -
  define ops :: "(int \<times> int CoalesceOp) list" where "ops = [(0, Offered ''tick'' 1 100), (30, Offered ''tick'' 2 100), (60, Offered ''tick'' 3 100)]"
  obtain sent co where r: "foldl coStep ([], newCoalescer) ops = (sent, co)" by fastforce
  have "sent = [(''tick'', 0, 1)]" using r by (auto simp: ops_def offer_def newCoalescer_def Let_def)
  then have "snd (last (sentOn ''tick'' (fst (coStep (sent, co) (100, Drained))))) = last (offeredOn ''tick'' ops)"
    using coalescing_keeps_the_latest [of ops "''tick''" 100 sent co 100] r by (simp add: ops_def)
  moreover have "last (offeredOn ''tick'' ops) = 3" by (simp add: ops_def)
  ultimately show ?thesis using r unfolding ops_def by metis
qed

end
