(* ===== verification/Gateway.thy ===== *)
theory Gateway
  imports GatewayMessages Coalesce EngineOrders
begin

text \<open>
  The WebSocket gateway (\<open>src/trading/gateway.ts\<close>). Client objects are referred to by their number: \<open>gw_heap\<close>
  holds every client ever accepted, \<open>gw_clients\<close> and \<open>gw_subscribers\<close> are the sets the code iterates, in insertion
  order. Ids of the database are texts on the wire; \<open>idText\<close>, an argument, is the text of an id. A handler stops
  where the code awaits another party: at the verification of the ticket, at the owner of an account, at an account
  the engine reloads and at the engine's answer; what remains of it is a value, resumed by a later step. Log lines,
  timers and the HTTP upgrade (path, connection limit) are left out; decoding by \<open>JSON.parse\<close> has happened.
\<close>

section \<open>Frames and state\<close>

datatype Frame =
    AuthOk nat int
  | ErrorFrame string "string option"
  | TickFrame string number number int
  | BarFrame string Timeframe Bar
  | AccountFrame AccountState
  | OrderResultFrame OrderReply
  | PositionFrame nat PositionEventKind PositionInfo "CloseReason option" "number option"
  | MarketStatusFrame MarketStatusEvent
  | Pong int

record GwClient =
  gc_userId :: nat
  gc_role :: string
  gc_subs :: "string list"
  gc_owned :: "(string \<times> bool) list"
  gc_coalescer :: "Frame Coalescer"
  gc_alive :: bool
  gc_windowStart :: int
  gc_windowCount :: nat
  gc_open :: bool
  gc_ended :: bool
  gc_buffered :: nat
  gc_sent :: "Frame list"

record Gateway =
  gw_heap :: "nat \<Rightarrow> GwClient"
  gw_clients :: "nat list"
  gw_subscribers :: "(string \<times> nat list) list"
  gw_nextId :: nat

text \<open>
  The socket of a client: \<open>gc_open\<close> is \<open>readyState === OPEN\<close>, \<open>gc_ended\<close> says that its \<open>close\<close> event has been emitted
  (so that no listener installed later runs), \<open>gc_buffered\<close> is \<open>bufferedAmount\<close>, \<open>gc_sent\<close> what was sent.
\<close>

definition newGateway :: Gateway where
  "newGateway = \<lparr>gw_heap = (\<lambda>_. \<lparr>gc_userId = 0, gc_role = [], gc_subs = [], gc_owned = [], gc_coalescer = newCoalescer,
      gc_alive = False, gc_windowStart = 0, gc_windowCount = 0, gc_open = False, gc_ended = True, gc_buffered = 0, gc_sent = []\<rparr>),
    gw_clients = [], gw_subscribers = [], gw_nextId = 1\<rparr>"

definition MAX_INBOUND_PER_SEC :: nat where "MAX_INBOUND_PER_SEC = 20"
definition MAX_BUFFERED_BYTES :: nat where "MAX_BUFFERED_BYTES = 1048576"
definition TICK_INTERVAL_MS :: int where "TICK_INTERVAL_MS = 1000 div 10"
definition BAR_INTERVAL_MS :: int where "BAR_INTERVAL_MS = TICK_INTERVAL_MS"
definition ACCOUNT_INTERVAL_MS :: int where "ACCOUNT_INTERVAL_MS = 250"

text \<open>What the gateway asks the engine without waiting.\<close>

record EngineView =
  vw_state :: "string \<Rightarrow> AccountState option"
  vw_quote :: "string \<Rightarrow> EngineQuote option"
  vw_instrument :: "string \<Rightarrow> Instrument option"
  vw_market :: MarketStatusEvent

definition engineView :: "(nat \<Rightarrow> string) \<Rightarrow> Engine \<Rightarrow> EngineView" where
  "engineView idText e =
     \<lparr>vw_state = (\<lambda>i. map_option (\<lambda>(_, r). accountState e (eng_heap e r)) (List.find (\<lambda>(k, _). idText k = i) (eng_accounts e))),
      vw_quote = eng_quotes e, vw_instrument = (\<lambda>s. instrumentOf s e), vw_market = eng_marketState e\<rparr>"

section \<open>Sending\<close>

definition onClient :: "nat \<Rightarrow> (GwClient \<Rightarrow> GwClient) \<Rightarrow> Gateway \<Rightarrow> Gateway" where
  "onClient c f g = g\<lparr>gw_heap := (gw_heap g)(c := f (gw_heap g c))\<rparr>"

definition sendTo :: "Frame \<Rightarrow> GwClient \<Rightarrow> GwClient" where
  "sendTo frame cl = (if gc_open cl then cl\<lparr>gc_sent := gc_sent cl @ [frame]\<rparr> else cl)"

definition send :: "nat \<Rightarrow> Frame \<Rightarrow> Gateway \<Rightarrow> Gateway" where
  "send c frame = onClient c (sendTo frame)"

definition offerTo :: "int \<Rightarrow> string \<Rightarrow> Frame \<Rightarrow> int \<Rightarrow> bool \<Rightarrow> GwClient \<Rightarrow> GwClient" where
  "offerTo now key frame intervalMs droppable cl =
     (if droppable \<and> gc_buffered cl > MAX_BUFFERED_BYTES then cl
      else let (out, co) = offer now key frame intervalMs (gc_coalescer cl); cl1 = cl\<lparr>gc_coalescer := co\<rparr>
        in (case out of Some f \<Rightarrow> sendTo f cl1 | None \<Rightarrow> cl1))"

definition sendCoalesced :: "int \<Rightarrow> string \<Rightarrow> Frame \<Rightarrow> int \<Rightarrow> bool \<Rightarrow> nat \<Rightarrow> Gateway \<Rightarrow> Gateway" where
  "sendCoalesced now key frame intervalMs droppable c = onClient c (offerTo now key frame intervalMs droppable)"

definition isTickOrBar :: "Frame \<Rightarrow> bool" where
  "isTickOrBar frame = (case frame of TickFrame _ _ _ _ \<Rightarrow> True | BarFrame _ _ _ \<Rightarrow> True | _ \<Rightarrow> False)"

definition sendDrained :: "bool \<Rightarrow> GwClient \<Rightarrow> string \<times> Frame \<Rightarrow> GwClient" where
  "sendDrained backpressured cl entry = (if backpressured \<and> isTickOrBar (snd entry) then cl else sendTo (snd entry) cl)"

definition flushClient :: "int \<Rightarrow> GwClient \<Rightarrow> GwClient" where
  "flushClient now cl =
     (if pendingCount (gc_coalescer cl) = 0 then cl
      else let backpressured = gc_buffered cl > MAX_BUFFERED_BYTES; (out, co) = drain now (gc_coalescer cl)
        in foldl (sendDrained backpressured) (cl\<lparr>gc_coalescer := co\<rparr>) out)"

definition flushAll :: "int \<Rightarrow> Gateway \<Rightarrow> Gateway" where
  "flushAll now g = fold (\<lambda>c. onClient c (flushClient now)) (gw_clients g) g"

section \<open>Events of the bus\<close>

definition subscribersOf :: "string \<Rightarrow> Gateway \<Rightarrow> nat list" where
  "subscribersOf name g = (case map_of (gw_subscribers g) name of Some cs \<Rightarrow> cs | None \<Rightarrow> [])"

definition publish :: "string \<Rightarrow> (nat \<Rightarrow> Gateway \<Rightarrow> Gateway) \<Rightarrow> Gateway \<Rightarrow> Gateway" where
  "publish name f g = fold f (subscribersOf name g) g"

definition tickEvent :: "EngineView \<Rightarrow> Tick \<Rightarrow> int \<Rightarrow> Gateway \<Rightarrow> Gateway" where
  "tickEvent v tick now g =
     (let q = (case vw_instrument v (tk_symbol tick) of
          Some inst \<Rightarrow> applyMarkup tick (ins_spreadMarkupPoints inst) (ins_digits inst) | None \<Rightarrow> \<lparr>bid = bid tick, ask = ask tick\<rparr>);
          frame = TickFrame (tk_symbol tick) (bid q) (ask q) (tk_ts tick)
      in publish (ticksChannel (tk_symbol tick)) (sendCoalesced now (''tick:'' @ tk_symbol tick) frame TICK_INTERVAL_MS True) g)"

text \<open>Bars carry seconds on the wire.\<close>

definition wireBar :: "Bar \<Rightarrow> Bar" where
  "wireBar bar = bar\<lparr>bar_time := (if bar_time bar > 100000000000 then bar_time bar div 1000 else bar_time bar)\<rparr>"

definition barEvent :: "BarEvent \<Rightarrow> int \<Rightarrow> Gateway \<Rightarrow> Gateway" where
  "barEvent ev now =
     publish (barsChannel (bev_symbol ev) (bev_tf ev))
       (sendCoalesced now (''bar:'' @ bev_symbol ev @ '':'' @ tfName (bev_tf ev)) (BarFrame (bev_symbol ev) (bev_tf ev) (wireBar (bev_bar ev)))
          BAR_INTERVAL_MS True)"

definition busEvent :: "(nat \<Rightarrow> string) \<Rightarrow> BusEvent \<Rightarrow> int \<Rightarrow> Gateway \<Rightarrow> Gateway" where
  "busEvent idText ev now g =
     (case ev of
        BusAccount st \<Rightarrow>
          publish (accountChannel (idText (as_accountId st)))
            (sendCoalesced now (''account:'' @ idText (as_accountId st)) (AccountFrame st) ACCOUNT_INTERVAL_MS False) g
      | BusPosition i kind info reason pnl \<Rightarrow>
          publish (accountChannel (idText i)) (\<lambda>c. send c (PositionFrame i kind info reason pnl)) g
      | BusOrderResult i reply \<Rightarrow> publish (accountChannel (idText i)) (\<lambda>c. send c (OrderResultFrame reply)) g
      | BusMarketStatus ms \<Rightarrow> fold (\<lambda>c. send c (MarketStatusFrame ms)) (gw_clients g) g)"

section \<open>Connections\<close>

text \<open>The claims of a verified JWT: its purpose, subject and role, where they are texts.\<close>

record Ticket =
  ti_purpose :: "string option"
  ti_subject :: "nat option"
  ti_role :: "string option"

definition verifyTicket :: "Ticket option \<Rightarrow> (nat \<times> string) option" where
  "verifyTicket payload =
     (case payload of
        None \<Rightarrow> None
      | Some t \<Rightarrow> if ti_purpose t \<noteq> Some ''ws'' then None
          else (case ti_subject t of None \<Rightarrow> None
            | Some u \<Rightarrow> Some (u, case ti_role t of Some r \<Rightarrow> r | None \<Rightarrow> ''TRADER'')))"

text \<open>
  The rest of \<open>onConnection\<close> once the ticket is verified. The socket may be gone by then: its \<open>close\<close> event has been
  emitted, the listener is installed all the same.
\<close>

definition onConnection :: "EngineView \<Rightarrow> Ticket option \<Rightarrow> bool \<Rightarrow> int \<Rightarrow> Gateway \<Rightarrow> Gateway" where
  "onConnection v payload gone now g =
     (case verifyTicket payload of
        None \<Rightarrow> g
      | Some (userId, role) \<Rightarrow>
         (let c = gw_nextId g;
              client = \<lparr>gc_userId = userId, gc_role = role, gc_subs = [], gc_owned = [], gc_coalescer = newCoalescer, gc_alive = True,
                 gc_windowStart = now, gc_windowCount = 0, gc_open = \<not> gone, gc_ended = gone, gc_buffered = 0, gc_sent = []\<rparr>;
              g1 = g\<lparr>gw_heap := (gw_heap g)(c := client), gw_clients := gw_clients g @ [c], gw_nextId := c + 1\<rparr>
          in send c (MarketStatusFrame (vw_market v)) (send c (AuthOk userId now) g1)))"

text \<open>The \<open>close\<close> listener.\<close>

definition closeEvent :: "nat \<Rightarrow> Gateway \<Rightarrow> Gateway" where
  "closeEvent c g =
     g\<lparr>gw_heap := (gw_heap g)(c := (gw_heap g c)\<lparr>gc_open := False, gc_ended := True\<rparr>),
       gw_clients := filter (\<lambda>d. d \<noteq> c) (gw_clients g),
       gw_subscribers := map (\<lambda>(name, cs). (name, if name \<in> set (gc_subs (gw_heap g c)) then filter (\<lambda>d. d \<noteq> c) cs else cs)) (gw_subscribers g)\<rparr>"

definition pongEvent :: "nat \<Rightarrow> Gateway \<Rightarrow> Gateway" where
  "pongEvent c = onClient c (\<lambda>cl. cl\<lparr>gc_alive := True\<rparr>)"

text \<open>The heartbeat: a client that did not answer the last ping is terminated, which closes its socket.\<close>

definition heartbeat :: "Gateway \<Rightarrow> Gateway" where
  "heartbeat g = fold (\<lambda>c. onClient c (\<lambda>cl. if \<not> gc_alive cl then cl\<lparr>gc_open := False\<rparr> else cl\<lparr>gc_alive := False\<rparr>)) (gw_clients g) g"

section \<open>Subscriptions\<close>

datatype SubscribeWait =
    WaitOwner nat string string "bool option" "string list"
  | WaitReload nat string string "string list"

definition knownOwner :: "GwClient \<Rightarrow> string \<Rightarrow> bool option" where
  "knownOwner cl accountId = (if gc_role cl = ''ADMIN'' then Some True else map_of (gc_owned cl) accountId)"

definition admit :: "nat \<Rightarrow> string \<Rightarrow> Gateway \<Rightarrow> Gateway" where
  "admit c name g =
     (let g1 = onClient c (\<lambda>cl. cl\<lparr>gc_subs := List.insert name (gc_subs cl)\<rparr>) g
      in g1\<lparr>gw_subscribers := AList.update name (let cs = subscribersOf name g1 in if c \<in> set cs then cs else cs @ [c]) (gw_subscribers g1)\<rparr>)"

definition greet :: "EngineView \<Rightarrow> nat \<Rightarrow> ParsedChannel \<Rightarrow> Gateway \<Rightarrow> Gateway" where
  "greet v c ch g =
     (case ch of
        ChTicks s \<Rightarrow> (case vw_quote v s of Some q \<Rightarrow> send c (TickFrame s (bid q) (ask q) (eq_ts q)) g | None \<Rightarrow> g)
      | ChMarket \<Rightarrow> send c (MarketStatusFrame (vw_market v)) g
      | _ \<Rightarrow> g)"

text \<open>The loop of \<open>subscribe\<close>, up to the next owner that has to be awaited.\<close>

fun subscribe :: "EngineView \<Rightarrow> nat \<Rightarrow> string list \<Rightarrow> Gateway \<Rightarrow> Gateway \<times> SubscribeWait option" where
  "subscribe v c [] g = (g, None)"
| "subscribe v c (name # rest) g =
     (case parseChannel name of
        None \<Rightarrow> subscribe v c rest (send c (ErrorFrame ''BAD_CHANNEL'' (Some name)) g)
      | Some ch \<Rightarrow>
         if name \<in> set (gc_subs (gw_heap g c)) then subscribe v c rest g
         else if length (gc_subs (gw_heap g c)) \<ge> MAX_CHANNELS then (send c (ErrorFrame ''TOO_MANY_CHANNELS'' (Some name)) g, None)
         else (case ch of
             ChAccount i \<Rightarrow> (g, Some (WaitOwner c name i (knownOwner (gw_heap g c) i) rest))
           | _ \<Rightarrow> subscribe v c rest (greet v c ch (admit c name g))))"

definition ownsRow :: "(nat \<Rightarrow> string) \<Rightarrow> TradingAccount list \<Rightarrow> nat \<Rightarrow> string \<Rightarrow> bool" where
  "ownsRow idText accounts userId accountId =
     (case List.find (\<lambda>r. idText (acc_id r) = accountId) accounts of Some r \<Rightarrow> acc_userId r = userId | None \<Rightarrow> False)"

text \<open>The owner has arrived: the row of the account is read unless the answer was known.\<close>

definition ownerArrived :: "(nat \<Rightarrow> string) \<Rightarrow> EngineView \<Rightarrow> TradingAccount list \<Rightarrow> nat \<Rightarrow> string \<Rightarrow> string \<Rightarrow> bool option \<Rightarrow> string list
    \<Rightarrow> Gateway \<Rightarrow> Gateway \<times> SubscribeWait option" where
  "ownerArrived idText v accounts c name i known rest g =
     (let owns = (case known of Some b \<Rightarrow> b | None \<Rightarrow> ownsRow idText accounts (gc_userId (gw_heap g c)) i);
          g1 = (if known = None then onClient c (\<lambda>cl. cl\<lparr>gc_owned := AList.update i owns (gc_owned cl)\<rparr>) g else g)
      in if \<not> owns then subscribe v c rest (send c (ErrorFrame ''FORBIDDEN'' (Some name)) g1)
         else let g2 = admit c name g1 in
           (case vw_state v i of
              Some st \<Rightarrow> subscribe v c rest (send c (AccountFrame st) g2)
            | None \<Rightarrow> (g2, Some (WaitReload c name i rest))))"

text \<open>The engine has reloaded the account, or has none.\<close>

definition accountArrived :: "EngineView \<Rightarrow> AccountState option \<Rightarrow> nat \<Rightarrow> string list \<Rightarrow> Gateway \<Rightarrow> Gateway \<times> SubscribeWait option" where
  "accountArrived v state c rest g =
     subscribe v c rest (case state of Some st \<Rightarrow> send c (AccountFrame st) g | None \<Rightarrow> g)"

definition unsubscribe :: "nat \<Rightarrow> string list \<Rightarrow> Gateway \<Rightarrow> Gateway" where
  "unsubscribe c channels g =
     fold (\<lambda>ch g. let g1 = onClient c (\<lambda>cl. cl\<lparr>gc_subs := removeAll ch (gc_subs cl), gc_coalescer := forget ch (gc_coalescer cl)\<rparr>) g
       in g1\<lparr>gw_subscribers := AList.map_entry ch (\<lambda>cs. removeAll c cs) (gw_subscribers g1)\<rparr>) channels g"

section \<open>Messages\<close>

datatype Inbound = NotJson | Decoded Json

datatype Request = CallEngine nat nat bool GatewayMessage | Subscribing SubscribeWait

definition inboundWindow :: "int \<Rightarrow> GwClient \<Rightarrow> GwClient" where
  "inboundWindow now cl =
     (let cl1 = (if now - gc_windowStart cl \<ge> 1000 then cl\<lparr>gc_windowStart := now, gc_windowCount := 0\<rparr> else cl)
      in cl1\<lparr>gc_windowCount := gc_windowCount cl1 + 1\<rparr>)"

definition refOfJson :: "Json \<Rightarrow> string option" where
  "refOfJson j = (case j of JObj obj \<Rightarrow> (case map_of obj ''clientOrderId'' of Some (JStr s) \<Rightarrow> Some s | _ \<Rightarrow> None) | _ \<Rightarrow> None)"

definition onMessage :: "EngineView \<Rightarrow> nat \<Rightarrow> Inbound \<Rightarrow> int \<Rightarrow> Gateway \<Rightarrow> Gateway \<times> Request option" where
  "onMessage v c raw now g0 =
     (let g = onClient c (inboundWindow now) g0 in
      if gc_windowCount (gw_heap g c) > MAX_INBOUND_PER_SEC
      then (onClient c (\<lambda>cl. cl\<lparr>gc_open := False\<rparr>) (send c (ErrorFrame ''RATE_LIMITED'' None) g), None)
      else (case raw of
          NotJson \<Rightarrow> (send c (ErrorFrame ''BAD_JSON'' None) g, None)
        | Decoded json \<Rightarrow>
           (case parseClientMessage json of
              None \<Rightarrow> (send c (ErrorFrame ''BAD_REQUEST'' (refOfJson json)) g, None)
            | Some Ping \<Rightarrow> (send c (Pong now) g, None)
            | Some (SubscribeMsg channels) \<Rightarrow> (let (g1, w) = subscribe v c channels g in (g1, map_option Subscribing w))
            | Some (UnsubscribeMsg channels) \<Rightarrow> (unsubscribe c channels g, None)
            | Some m \<Rightarrow> (g, Some (CallEngine c (gc_userId (gw_heap g c)) (gc_role (gw_heap g c) = ''ADMIN'') m)))))"

definition messageRef :: "GatewayMessage \<Rightarrow> string option" where
  "messageRef m = (case m of OrderPlaceReq _ k _ _ _ _ _ _ _ \<Rightarrow> Some k | PositionCloseReq _ p _ \<Rightarrow> Some p
     | PositionModifyReq _ p _ _ \<Rightarrow> Some p | _ \<Rightarrow> None)"

text \<open>The engine has answered, or its handler has thrown.\<close>

definition engineAnswered :: "nat \<Rightarrow> GatewayMessage \<Rightarrow> Frame list option \<Rightarrow> Gateway \<Rightarrow> Gateway" where
  "engineAnswered c m replies g =
     (case replies of
        Some frames \<Rightarrow> fold (send c) frames g
      | None \<Rightarrow> send c (ErrorFrame ''INTERNAL'' (messageRef m)) g)"

end
