(* ===== verification/GatewayEngine.thy ===== *)
theory GatewayEngine
  imports Gateway EngineProofs
begin

text \<open>
  The gateway with the engine behind it: which call of the engine a client message becomes (\<open>gateway.ts\<close>,
  \<open>handleMessage\<close>; \<open>engine.ts\<close>, \<open>handle\<close>), who the engine takes the caller for, and which frames come back. Ids are
  texts on the wire and numbers in the engine; \<open>idText\<close> and \<open>idOf\<close> translate.
\<close>

section \<open>Calls and answers\<close>

definition callerOf :: "GwClient \<Rightarrow> Ctx" where
  "callerOf cl = \<lparr>cx_userId = gc_userId cl, cx_admin = (gc_role cl = ''ADMIN'')\<rparr>"

definition engineMessage :: "(string \<Rightarrow> nat) \<Rightarrow> GatewayMessage \<Rightarrow> ClientMessage" where
  "engineMessage idOf m =
     (case m of
        OrderPlaceReq a k s side kind v p sl tp \<Rightarrow> OrderPlaceMsg \<lparr>op_accountId = idOf a, op_clientOrderId = k, op_symbol = s,
          op_side = side, op_orderType = kind, op_volume = v, op_price = p, op_stopLoss = sl, op_takeProfit = tp\<rparr>
      | PositionCloseReq a p v \<Rightarrow> PositionCloseMsg \<lparr>cp_accountId = idOf a, cp_positionId = idOf p, cp_volume = v\<rparr>
      | PositionModifyReq a p sl tp \<Rightarrow>
          PositionModifyMsg \<lparr>mp_accountId = idOf a, mp_positionId = idOf p, mp_stopLoss = sl, mp_takeProfit = tp\<rparr>
      | AccountGetReq a \<Rightarrow> AccountGetMsg (idOf a)
      | _ \<Rightarrow> OtherMsg)"

definition frameOf :: "(nat \<Rightarrow> string) \<Rightarrow> ServerMessage \<Rightarrow> Frame" where
  "frameOf idText msg = (case msg of ErrorMsg why ref \<Rightarrow> ErrorFrame why (map_option idText ref)
     | AccountMsg st \<Rightarrow> AccountFrame st | OrderResultMsg reply \<Rightarrow> OrderResultFrame reply)"

text \<open>
  What \<open>await engine.handle\<close> gives in the end: an order, a close or a modification when its task has run on the queue of
  the account, in whatever state \<open>e\<close> the engine then is; the other messages at once. A rejected promise is \<open>None\<close>.
\<close>

definition engineReplies :: "(int \<Rightarrow> int) \<Rightarrow> (nat \<Rightarrow> string) \<Rightarrow> Ctx \<Rightarrow> ClientMessage \<Rightarrow> int \<Rightarrow> Engine \<Rightarrow> Frame list option" where
  "engineReplies zone idText ctx msg now e =
     (case fst (case msg of
          OrderPlaceMsg m \<Rightarrow> runTask zone (TPlaceOrder ctx m) now e
        | PositionCloseMsg m \<Rightarrow> runTask zone (TClosePosition ctx m) now e
        | PositionModifyMsg m \<Rightarrow> runTask zone (TModifyPosition ctx m) now e
        | _ \<Rightarrow> handle ctx msg now e) of
        Inl _ \<Rightarrow> None
      | Inr ms \<Rightarrow> Some (map (frameOf idText) ms))"

text \<open>The account that \<open>subscribe\<close> shows when it was not loaded: a failing reload counts as no account.\<close>

definition reloadedState :: "nat \<Rightarrow> int \<Rightarrow> Engine \<Rightarrow> AccountState option" where
  "reloadedState i now e =
     (case reloadAccount i now e of (Inr (Some r), e1) \<Rightarrow> Some (accountState e1 (eng_heap e1 r)) | _ \<Rightarrow> None)"

section \<open>Whom an account belongs to\<close>

text \<open>
  \<open>owner\<close> is the user an account belongs to. The rows of the database agree with it, and so do the account objects of the
  engine, which were made from such rows: an object takes its user from its row (\<open>track_owner\<close>) and never changes it
  (\<open>grown\<close>).
\<close>

definition rows_ok :: "(nat \<Rightarrow> string) \<Rightarrow> (string \<Rightarrow> nat option) \<Rightarrow> TradingAccount list \<Rightarrow> bool" where
  "rows_ok idText owner accounts \<longleftrightarrow> (\<forall>r\<in>set accounts. owner (idText (acc_id r)) = Some (acc_userId r))"

definition engine_people :: "(nat \<Rightarrow> string) \<Rightarrow> (string \<Rightarrow> nat option) \<Rightarrow> Engine \<Rightarrow> bool" where
  "engine_people idText owner e \<longleftrightarrow> rows_ok idText owner (accounts_t (eng_db e))
     \<and> (\<forall>(i, r)\<in>set (eng_accounts e). r < eng_nextRef e \<and> ea_id (eng_heap e r) = i \<and> owner (idText i) = Some (ea_userId (eng_heap e r)))"

lemma accountState_id [simp]: "as_accountId (accountState e a) = ea_id a"
  by (simp add: accountState_def Let_def split_beta)

lemma track_owner:
  assumes "refOf (acc_id (fst row)) e = None" "trackFromRow row now e = (Inr (Some r), e1)"
  shows "ea_id (eng_heap e1 r) = acc_id (fst row) \<and> ea_userId (eng_heap e1 r) = acc_userId (fst row)"
proof -
  let ?r = "eng_nextRef e"
  let ?e0 = "onAcct ?r (\<lambda>_. newEngineAccount (fst row) now) (e\<lparr>eng_nextRef := Suc ?r\<rparr>)"
  let ?e2 = "fold (addPosition ?r) (snd row) ?e0"
  have 2: "grows ?e0 ?e2" by (auto intro!: peak.x_basic peak.refl)
  obtain x e3 where 3: "dbCall (\<lambda>d. (Inr (pendingRows (acc_id (fst row)) d), d)) ?e2 = (x, e3)" by fastforce
  have "TRADABLE (acc_status (fst row))" using assms(2) by (auto simp: trackFromRow_def Let_def split: if_splits)
  then obtain os where os: "x = Inr os" using assms 3 by (cases x) (auto simp: trackFromRow_def Let_def)
  let ?e5 = "(fold (addPending ?r) os e3)\<lparr>eng_accounts := eng_accounts (fold (addPending ?r) os e3) @ [(acc_id (fst row), ?r)]\<rparr>"
  obtain y e6 where 6: "reanchorAtLoad ?r now ?e5 = (y, e6)" by fastforce
  have "grows ?e0 ?e5" by (intro peak.x_accounts peak.x_fold peak.x_addPending peak.x_dbCall' [OF 2 3])
  then have "grows ?e0 e6" using 6 by (rule peak.x_reanchor')
  then have "grows ?e0 (emitAccount ?r True (recompute ?r (refreshTradingDays ?r e6)))"
    by (intro peak.x_emitAccount peak.x_recompute peak.x_refreshTradingDays)
  moreover have "r = ?r" "e1 = emitAccount ?r True (recompute ?r (refreshTradingDays ?r e6))"
    using assms \<open>TRADABLE _\<close> 3 os 6 by (auto simp: trackFromRow_def Let_def split: sum.splits bool.splits if_splits)
  ultimately show ?thesis by (simp add: grows_def grown_def onAcct_def newEngineAccount_def Let_def)
qed

lemma load_row:
  assumes "dbCall (\<lambda>d. (Inr (loadEngineAccount i d), d)) e = (Inr (Some row), e1)"
  shows "fst row \<in> set (accounts_t (eng_db e)) \<and> acc_id (fst row) = i \<and> eng_accounts e1 = eng_accounts e"
  using assms unfolding dbCall_def
  by (auto simp: loadEngineAccount_def accountRow_def findUnique_def find_Some_iff split: list.splits bool.splits)

lemma tracked_owner:
  "engine_people idText owner e \<Longrightarrow> refOf i e = Some r \<Longrightarrow> ea_id (eng_heap e r) = i \<and> owner (idText i) = Some (ea_userId (eng_heap e r))"
  unfolding engine_people_def refOf_def by (auto dest: map_of_SomeD)

lemma reload_owner:
  assumes "engine_people idText owner e" "reloadAccount i now e = (Inr (Some r), e1)"
  shows "ea_id (eng_heap e1 r) = i \<and> owner (idText i) = Some (ea_userId (eng_heap e1 r))"
proof -
  obtain row e0 where l: "dbCall (\<lambda>d. (Inr (loadEngineAccount i d), d)) e = (Inr (Some row), e0)" "trackFromRow row now e0 = (Inr (Some r), e1)"
    using assms(2) by (auto simp: reloadAccount_def split: prod.splits sum.splits option.splits)
  have row: "fst row \<in> set (accounts_t (eng_db e))" "acc_id (fst row) = i" "refOf i e0 = refOf i e"
    using load_row [OF l(1)] by (simp_all add: refOf_def)
  show ?thesis
  proof (cases "refOf i e")
    case None
    then show ?thesis using track_owner [OF _ l(2)] row assms(1) by (auto simp: engine_people_def rows_ok_def)
  next
    case (Some y)
    then have "r = y" "e1 = mergeRow y row e0" using l(2) row(2,3) by (auto simp: trackFromRow_def Let_def split: if_splits)
    moreover have "grows e (mergeRow y row e0)" by (intro peak.x_mergeRow peak.x_dbCall' [OF peak.refl l(1)])
    moreover have "y < eng_nextRef e" using assms(1) Some by (auto simp: engine_people_def refOf_def dest: map_of_SomeD)
    ultimately show ?thesis using tracked_owner [OF assms(1) Some] by (simp add: grows_def grown_def)
  qed
qed

text \<open>The engine finds an account only for its owner or an administrator.\<close>

lemma resolve_owner:
  assumes "engine_people idText owner e" "resolveAccount ctx i now e = (Inr (Some r), e1)"
  shows "ea_id (eng_heap e1 r) = i \<and> (owner (idText i) = Some (cx_userId ctx) \<or> cx_admin ctx)"
proof (cases "refOf i e")
  case None
  then have y: "reloadAccount i now e = (Inr (Some r), e1)" "ea_userId (eng_heap e1 r) = cx_userId ctx \<or> cx_admin ctx"
    using assms(2) by (auto simp: resolveAccount_def Let_def split: prod.splits sum.splits option.splits if_splits)
  then show ?thesis using reload_owner [OF assms(1) y(1)] by auto
next
  case (Some y)
  then have "r = y" "e1 = e" "ea_userId (eng_heap e1 r) = cx_userId ctx \<or> cx_admin ctx"
    using assms(2) by (auto simp: resolveAccount_def Let_def split: if_splits)
  then show ?thesis using tracked_owner [OF assms(1) Some] by auto
qed

text \<open>An account that the engine tells of belongs to the caller, or the caller is an administrator.\<close>

lemma replies_owner:
  assumes "engine_people idText owner e" "engineReplies zone idText ctx msg now e = Some fs" "AccountFrame st \<in> set fs"
  shows "owner (idText (as_accountId st)) = Some (cx_userId ctx) \<or> cx_admin ctx"
proof (cases msg)
  case (AccountGetMsg i)
  have "\<exists>r e1. resolveAccount ctx i now e = (Inr (Some r), e1) \<and> st = accountState e1 (eng_heap e1 r)"
    using assms(2,3) AccountGetMsg
    by (auto simp: engineReplies_def handle_def frameOf_def split: sum.splits prod.splits option.splits)
  then show ?thesis using resolve_owner [OF assms(1)] by fastforce
next
  case (PositionCloseMsg m)
  have "\<forall>x. Inr ms = fst (closePositionRequest ctx m now e) \<longrightarrow> AccountMsg x \<notin> set ms" for ms
    by (auto simp: closePositionRequest_def Let_def split: prod.splits sum.splits option.splits if_splits)
  then show ?thesis using assms(2,3) PositionCloseMsg
    by (auto simp: engineReplies_def runTask_def frameOf_def split: sum.splits ServerMessage.splits)
next
  case (PositionModifyMsg m)
  have "\<forall>x. Inr ms = fst (modifyPositionRequest ctx m now e) \<longrightarrow> AccountMsg x \<notin> set ms" for ms
    by (auto simp: modifyPositionRequest_def Let_def split: prod.splits sum.splits option.splits if_splits)
  then show ?thesis using assms(2,3) PositionModifyMsg
    by (auto simp: engineReplies_def runTask_def frameOf_def split: sum.splits ServerMessage.splits)
next
  case (OrderPlaceMsg m)
  then show ?thesis using assms(2,3)
    by (auto simp: engineReplies_def runTask_def frameOf_def split: sum.splits prod.splits)
next
  case OtherMsg
  then show ?thesis using assms(2,3) by (auto simp: engineReplies_def handle_def frameOf_def)
qed

lemma replies_no_position: "engineReplies zone idText ctx msg now e = Some fs \<Longrightarrow> PositionFrame i kind info why pnl \<notin> set fs"
  by (auto simp: engineReplies_def frameOf_def split: sum.splits ServerMessage.splits)

text \<open>
  Whatever a client asks of an account that is not his, the answer tells nothing of it: it is not found, or the order is
  rejected as for an account that cannot be traded, unless the database failed.
\<close>

lemma foreign_requests_tell_nothing:
  assumes "engine_people idText owner e" "\<not> cx_admin ctx" "owner (idText i) \<noteq> Some (cx_userId ctx)"
    and "msg = AccountGetMsg i \<or> (\<exists>m. msg = OrderPlaceMsg m \<and> op_accountId m = i) \<or> (\<exists>m. msg = PositionCloseMsg m \<and> cp_accountId m = i)
      \<or> (\<exists>m. msg = PositionModifyMsg m \<and> mp_accountId m = i)"
  shows "engineReplies zone idText ctx msg now e = None
    \<or> (\<exists>ref. engineReplies zone idText ctx msg now e = Some [ErrorFrame ''NOT_FOUND'' ref])
    \<or> (\<exists>m. msg = OrderPlaceMsg m \<and> engineReplies zone idText ctx msg now e = Some [OrderResultFrame (rejectReply m ACCOUNT_NOT_TRADABLE)])"
proof -
  obtain x e1 where x: "resolveAccount ctx i now e = (x, e1)" by fastforce
  have none: "x = Inr None \<or> (\<exists>err. x = Inl err)"
  proof (cases x)
    case (Inr y)
    then show ?thesis using resolve_owner [OF assms(1), of ctx i now _ e1] x assms(2,3) by (cases y) auto
  qed simp
  from assms(4) none x show ?thesis
    by (elim disjE exE conjE)
      (simp_all add: engineReplies_def handle_def runTask_def placeOrder_def closePositionRequest_def modifyPositionRequest_def frameOf_def)
qed

lemma engineView_state:
  assumes "engine_people idText owner e" "vw_state (engineView idText e) i = Some st"
  shows "idText (as_accountId st) = i"
proof -
  obtain k r where k: "List.find (\<lambda>(k, _). idText k = i) (eng_accounts e) = Some (k, r)" "st = accountState e (eng_heap e r)"
    using assms(2) by (auto simp: engineView_def)
  then have "(k, r) \<in> set (eng_accounts e)" "idText k = i" by (auto simp: find_Some_iff) (metis nth_mem)
  then show ?thesis using assms(1) k(2) by (auto simp: engine_people_def)
qed

lemma reloadedState_id:
  assumes "reloadedState i now e = Some st" "engine_people idText owner e"
  shows "as_accountId st = i"
  using assms reload_owner [OF assms(2)] by (auto simp: reloadedState_def split: prod.splits sum.splits option.splits)

end
