(* ===== verification/GatewayProofs.thy ===== *)
theory GatewayProofs
  imports GatewayEngine
begin

text \<open>
  Properties of the gateway: what an account is doing is told to its owner and to administrators only, whatever
  subscriptions, awaited answers and events interleave; what a vanished socket and an unsubscription leave behind.
\<close>

section \<open>Runs\<close>

text \<open>
  A state of a run is the gateway with the handlers that are waiting. \<open>owner\<close> is the user an account belongs to. Where a
  handler goes on with what the database or the engine has given, the step takes it from an engine state \<open>e\<close> at that
  moment, whatever the engine has done in between: the row of an account, the state that the engine shows, the account it
  reloads, and its answer to the message of a client, with its own check of whose account it is. Of these states it is only
  supposed that rows and account objects carry the user the account belongs to (\<open>engine_people\<close>).
\<close>

type_synonym GatewayRun = "Gateway \<times> SubscribeWait list"

definition frameAccount :: "Frame \<Rightarrow> nat option" where
  "frameAccount frame = (case frame of AccountFrame st \<Rightarrow> Some (as_accountId st) | PositionFrame i _ _ _ _ \<Rightarrow> Some i | _ \<Rightarrow> None)"

definition authorised :: "(string \<Rightarrow> nat option) \<Rightarrow> GwClient \<Rightarrow> string \<Rightarrow> bool" where
  "authorised owner cl i \<longleftrightarrow> gc_role cl = ''ADMIN'' \<or> owner i = Some (gc_userId cl)"

definition allowed :: "(nat \<Rightarrow> string) \<Rightarrow> (string \<Rightarrow> nat option) \<Rightarrow> GwClient \<Rightarrow> Frame \<Rightarrow> bool" where
  "allowed idText owner cl frame \<longleftrightarrow> (\<forall>i. frameAccount frame = Some i \<longrightarrow> authorised owner cl (idText i))"

definition waiting :: "SubscribeWait option \<Rightarrow> SubscribeWait list" where
  "waiting w = (case w of Some x \<Rightarrow> [x] | None \<Rightarrow> [])"

definition requestWait :: "Request option \<Rightarrow> SubscribeWait list" where
  "requestWait r = (case r of Some (Subscribing w) \<Rightarrow> [w] | _ \<Rightarrow> [])"

inductive gateway_step :: "(nat \<Rightarrow> string) \<Rightarrow> (string \<Rightarrow> nat option) \<Rightarrow> GatewayRun \<Rightarrow> GatewayRun \<Rightarrow> bool" for idText owner where
  connects: "gateway_step idText owner (g, ws) (onConnection v payload gone now g, ws)"
| message: "c \<in> set (gw_clients g) \<Longrightarrow> onMessage v c raw now g = (g', r)
    \<Longrightarrow> gateway_step idText owner (g, ws) (g', ws @ requestWait r)"
| owner_arrives: "ws = us @ WaitOwner c name i known rest # vs \<Longrightarrow> engine_people idText owner e
    \<Longrightarrow> ownerArrived idText (engineView idText e) (accounts_t (eng_db e)) c name i known rest g = (g', w)
    \<Longrightarrow> gateway_step idText owner (g, ws) (g', us @ vs @ waiting w)"
| account_arrives: "ws = us @ WaitReload c name (idText i) rest # vs \<Longrightarrow> engine_people idText owner e
    \<Longrightarrow> accountArrived v (reloadedState i now e) c rest g = (g', w)
    \<Longrightarrow> gateway_step idText owner (g, ws) (g', us @ vs @ waiting w)"
| no_account_arrives: "ws = us @ WaitReload c name i rest # vs \<Longrightarrow> i \<notin> range idText \<Longrightarrow> accountArrived v None c rest g = (g', w)
    \<Longrightarrow> gateway_step idText owner (g, ws) (g', us @ vs @ waiting w)"
| answered: "c < gw_nextId g \<Longrightarrow> engine_people idText owner e
    \<Longrightarrow> gateway_step idText owner (g, ws)
      (engineAnswered c m (engineReplies zone idText (callerOf (gw_heap g c)) (engineMessage idOf m) now e) g, ws)"
| tick: "gateway_step idText owner (g, ws) (tickEvent v t now g, ws)"
| bar: "gateway_step idText owner (g, ws) (barEvent b now g, ws)"
| event: "gateway_step idText owner (g, ws) (busEvent idText ev now g, ws)"
| flushes: "gateway_step idText owner (g, ws) (flushAll now g, ws)"
| beats: "gateway_step idText owner (g, ws) (heartbeat g, ws)"
| pong: "c < gw_nextId g \<Longrightarrow> gateway_step idText owner (g, ws) (pongEvent c g, ws)"
| drains: "c < gw_nextId g \<Longrightarrow> gateway_step idText owner (g, ws) (onClient c (\<lambda>cl. cl\<lparr>gc_buffered := n\<rparr>) g, ws)"
| closes: "c < gw_nextId g \<Longrightarrow> \<not> gc_ended (gw_heap g c) \<Longrightarrow> gateway_step idText owner (g, ws) (closeEvent c g, ws)"

inductive gateway_run :: "(nat \<Rightarrow> string) \<Rightarrow> (string \<Rightarrow> nat option) \<Rightarrow> GatewayRun \<Rightarrow> bool" for idText owner where
  starts: "gateway_run idText owner (newGateway, [])"
| continues: "gateway_run idText owner s \<Longrightarrow> gateway_step idText owner s s' \<Longrightarrow> gateway_run idText owner s'"

section \<open>The invariant\<close>

definition client_ok :: "(nat \<Rightarrow> string) \<Rightarrow> (string \<Rightarrow> nat option) \<Rightarrow> GwClient \<Rightarrow> bool" where
  "client_ok idText owner cl \<longleftrightarrow>
     (\<forall>f\<in>set (gc_sent cl). allowed idText owner cl f)
     \<and> (\<forall>(k, f, n)\<in>set (co_pending (gc_coalescer cl)). allowed idText owner cl f)
     \<and> (\<forall>i. map_of (gc_owned cl) i = Some True \<longrightarrow> owner i = Some (gc_userId cl))"

definition subscribers_ok :: "(string \<Rightarrow> nat option) \<Rightarrow> Gateway \<Rightarrow> bool" where
  "subscribers_ok owner g \<longleftrightarrow> (\<forall>name. \<forall>c\<in>set (subscribersOf name g).
     c < gw_nextId g \<and> (\<forall>i. name = accountChannel i \<longrightarrow> authorised owner (gw_heap g c) i))"

definition wait_ok :: "(string \<Rightarrow> nat option) \<Rightarrow> Gateway \<Rightarrow> SubscribeWait \<Rightarrow> bool" where
  "wait_ok owner g w \<longleftrightarrow> (case w of
     WaitOwner c name i known rest \<Rightarrow> c < gw_nextId g \<and> name = accountChannel i \<and> (known = Some True \<longrightarrow> authorised owner (gw_heap g c) i)
   | WaitReload c name i rest \<Rightarrow> c < gw_nextId g \<and> authorised owner (gw_heap g c) i)"

definition gateway_ok :: "(nat \<Rightarrow> string) \<Rightarrow> (string \<Rightarrow> nat option) \<Rightarrow> Gateway \<Rightarrow> bool" where
  "gateway_ok idText owner g \<longleftrightarrow> (\<forall>c. client_ok idText owner (gw_heap g c)) \<and> subscribers_ok owner g
     \<and> (\<forall>c\<in>set (gw_clients g). c < gw_nextId g)"

text \<open>Who a client is never changes once its number is given, and a client whose socket has ended is never removed.\<close>

definition same_people :: "Gateway \<Rightarrow> Gateway \<Rightarrow> bool" where
  "same_people g g' \<longleftrightarrow> gw_nextId g \<le> gw_nextId g'
     \<and> (\<forall>c<gw_nextId g. gc_userId (gw_heap g' c) = gc_userId (gw_heap g c) \<and> gc_role (gw_heap g' c) = gc_role (gw_heap g c)
         \<and> (gc_ended (gw_heap g c) \<longrightarrow> gc_ended (gw_heap g' c) \<and> (c \<in> set (gw_clients g) \<longrightarrow> c \<in> set (gw_clients g'))))"

lemma same_people_refl [simp]: "same_people g g"
  by (simp add: same_people_def)

lemma same_people_trans: "same_people g1 g2 \<Longrightarrow> same_people g2 g3 \<Longrightarrow> same_people g1 g3"
  by (auto simp: same_people_def)

lemma authorised_same: "same_people g g' \<Longrightarrow> c < gw_nextId g \<Longrightarrow> authorised owner (gw_heap g' c) i = authorised owner (gw_heap g c) i"
  by (simp add: same_people_def authorised_def)

lemma wait_same: "same_people g g' \<Longrightarrow> wait_ok owner g w \<Longrightarrow> wait_ok owner g' w"
  by (auto simp: wait_ok_def authorised_same split: SubscribeWait.splits) (auto simp: same_people_def)

text \<open>A change of one client that keeps who it is and what it may know.\<close>

definition harmless :: "(nat \<Rightarrow> string) \<Rightarrow> (string \<Rightarrow> nat option) \<Rightarrow> (GwClient \<Rightarrow> GwClient) \<Rightarrow> GwClient \<Rightarrow> bool" where
  "harmless idText owner f cl \<longleftrightarrow> gc_userId (f cl) = gc_userId cl \<and> gc_role (f cl) = gc_role cl \<and> (gc_ended cl \<longrightarrow> gc_ended (f cl))
     \<and> (client_ok idText owner cl \<longrightarrow> client_ok idText owner (f cl))"

definition step_ok :: "(nat \<Rightarrow> string) \<Rightarrow> (string \<Rightarrow> nat option) \<Rightarrow> Gateway \<Rightarrow> Gateway \<Rightarrow> bool" where
  "step_ok idText owner g g' \<longleftrightarrow> (gateway_ok idText owner g \<longrightarrow> same_people g g' \<and> gateway_ok idText owner g')"

lemma step_ok_refl [simp]: "step_ok idText owner g g"
  by (simp add: step_ok_def)

lemma step_ok_trans: "step_ok idText owner g1 g2 \<Longrightarrow> step_ok idText owner g2 g3 \<Longrightarrow> step_ok idText owner g1 g3"
  unfolding step_ok_def using same_people_trans by blast

lemma subscribersOf_onClient [simp]: "subscribersOf name (onClient c f g) = subscribersOf name g"
  by (simp add: onClient_def subscribersOf_def)

lemma onClient_simps [simp]:
  "gw_clients (onClient c f g) = gw_clients g" "gw_nextId (onClient c f g) = gw_nextId g"
  "gw_subscribers (onClient c f g) = gw_subscribers g"
  "gw_heap (onClient c f g) d = (if d = c then f (gw_heap g c) else gw_heap g d)"
  by (simp_all add: onClient_def)

lemma authorised_cong: "gc_userId cl' = gc_userId cl \<Longrightarrow> gc_role cl' = gc_role cl \<Longrightarrow> authorised owner cl' = authorised owner cl"
  by (intro ext) (simp add: authorised_def)

lemma allowed_cong: "gc_userId cl' = gc_userId cl \<Longrightarrow> gc_role cl' = gc_role cl \<Longrightarrow> allowed idText owner cl' = allowed idText owner cl"
  by (intro ext) (simp add: allowed_def authorised_def)

lemma step_onClient:
  assumes "harmless idText owner f (gw_heap g c)"
  shows "step_ok idText owner g (onClient c f g)"
  using assms by (auto simp: step_ok_def same_people_def gateway_ok_def harmless_def subscribers_ok_def authorised_def)

lemma harmless_send: "allowed idText owner cl frame \<Longrightarrow> harmless idText owner (sendTo frame) cl"
  by (auto simp: harmless_def sendTo_def client_ok_def allowed_def authorised_def)

lemma step_send: "allowed idText owner (gw_heap g c) frame \<Longrightarrow> step_ok idText owner g (send c frame g)"
  unfolding send_def by (rule step_onClient) (rule harmless_send)

lemma allowed_plain: "frameAccount frame = None \<Longrightarrow> allowed idText owner cl frame"
  by (simp add: allowed_def)

lemma frameAccount_simps [simp]:
  "frameAccount (AuthOk u t) = None" "frameAccount (ErrorFrame er r) = None" "frameAccount (TickFrame s b a t) = None"
  "frameAccount (BarFrame s tf bar) = None" "frameAccount (AccountFrame st) = Some (as_accountId st)"
  "frameAccount (OrderResultFrame rep) = None" "frameAccount (PositionFrame i kind info re pnl) = Some i"
  "frameAccount (MarketStatusFrame ms) = None" "frameAccount (Pong t) = None"
  by (simp_all add: frameAccount_def)


lemma step_fold:
  assumes "\<And>c g'. c \<in> set cs \<Longrightarrow> same_people g g' \<Longrightarrow> gateway_ok idText owner g' \<Longrightarrow> step_ok idText owner g' (F c g')"
  shows "step_ok idText owner g (fold F cs g)"
  using assms
proof (induction cs arbitrary: g)
  case (Cons c cs)
  show ?case
  proof (cases "gateway_ok idText owner g")
    case True
    have one: "step_ok idText owner g (F c g)" using Cons.prems [of c g] True by simp
    then have "same_people g (F c g)" using True by (simp add: step_ok_def)
    then have "step_ok idText owner (F c g) (fold F cs (F c g))"
      by (intro Cons.IH) (auto intro: Cons.prems same_people_trans)
    with one show ?thesis by (auto intro: step_ok_trans)
  qed (simp add: step_ok_def)
qed simp

lemma step_publish:
  assumes "\<And>c g'. c \<in> set (subscribersOf name g) \<Longrightarrow> same_people g g' \<Longrightarrow> gateway_ok idText owner g' \<Longrightarrow> step_ok idText owner g' (f c g')"
  shows "step_ok idText owner g (publish name f g)"
  unfolding publish_def by (rule step_fold) (rule assms)

section \<open>Coalesced frames\<close>

lemma offer_pending:
  assumes "offer now key f i co = (out, co')"
  shows "set_option out \<subseteq> {f} \<and> (\<forall>(k, x, n)\<in>set (co_pending co'). x = f \<or> (k, x, n) \<in> set (co_pending co))"
proof -
  have "(k, x, n) \<in> set (AList.update key (f, i) ys) \<Longrightarrow> x \<noteq> f \<Longrightarrow> (k, x, n) \<in> set ys" for k x n ys
    by (induction ys) (auto split: if_splits)
  note upd = this
  show ?thesis using assms by (auto simp: offer_def Let_def split: if_splits dest: upd)
qed

lemma drain_pending:
  assumes "drainLoop now entries co = (out, co')"
  shows "snd ` set out \<subseteq> (fst \<circ> snd) ` set entries \<and> set (co_pending co') \<subseteq> set (co_pending co)"
  using assms
proof (induction entries arbitrary: co out)
  case (Cons e entries)
  obtain k v i where e: "e = (k, v, i)" by (cases e)
  show ?case
  proof (cases "now - (case map_of (co_lastSentAt co) k of Some t \<Rightarrow> t | None \<Rightarrow> 0) \<ge> i")
    case True
    then obtain out1 where "drainLoop now entries (co\<lparr>co_pending := AList.delete k (co_pending co),
        co_lastSentAt := AList.update k now (co_lastSentAt co)\<rparr>) = (out1, co')" "out = (k, v) # out1"
      using Cons.prems e by (auto simp: Let_def split: prod.splits)
    with Cons.IH [OF this(1)] e show ?thesis by (auto simp: AList.delete_eq)
  next
    case False
    then show ?thesis using Cons.IH [of co out] Cons.prems e by auto
  qed
qed auto

lemma allowed_same [simp]:
  "allowed idText owner (cl\<lparr>gc_coalescer := co\<rparr>) = allowed idText owner cl"
  "allowed idText owner (cl\<lparr>gc_sent := fs\<rparr>) = allowed idText owner cl"
  by (auto intro: allowed_cong)

lemma harmless_offer:
  assumes "allowed idText owner cl frame"
  shows "harmless idText owner (offerTo now key frame i droppable) cl"
proof -
  obtain out co where o: "offer now key frame i (gc_coalescer cl) = (out, co)" by fastforce
  have "client_ok idText owner cl \<Longrightarrow> client_ok idText owner (cl\<lparr>gc_coalescer := co\<rparr>)"
    using offer_pending [OF o] assms by (auto simp: client_ok_def)
  moreover have "harmless idText owner (sendTo f) (cl\<lparr>gc_coalescer := co\<rparr>)" if "out = Some f" for f
    using offer_pending [OF o] that assms by (auto intro: harmless_send)
  ultimately show ?thesis using o by (cases out) (simp_all add: harmless_def offerTo_def Let_def)
qed

lemma step_coalesced: "allowed idText owner (gw_heap g c) frame \<Longrightarrow> step_ok idText owner g (sendCoalesced now key frame i dr c g)"
  unfolding sendCoalesced_def by (intro step_onClient harmless_offer)

lemma sendDrained_fold:
  "gc_userId (foldl (sendDrained bp) cl fs) = gc_userId cl \<and> gc_role (foldl (sendDrained bp) cl fs) = gc_role cl
   \<and> gc_ended (foldl (sendDrained bp) cl fs) = gc_ended cl
   \<and> ((\<forall>f\<in>snd ` set fs. allowed idText owner cl f) \<longrightarrow> client_ok idText owner cl \<longrightarrow> client_ok idText owner (foldl (sendDrained bp) cl fs))"
proof (induction fs arbitrary: cl)
  case (Cons p fs)
  let ?cl = "sendDrained bp cl p"
  have same: "gc_userId ?cl = gc_userId cl" "gc_role ?cl = gc_role cl" "gc_ended ?cl = gc_ended cl"
    by (simp_all add: sendDrained_def sendTo_def)
  then have al: "allowed idText owner ?cl = allowed idText owner cl" by (intro allowed_cong)
  have "allowed idText owner cl (snd p) \<Longrightarrow> client_ok idText owner cl \<Longrightarrow> client_ok idText owner ?cl"
    using harmless_send [of idText owner cl "snd p"] by (auto simp: sendDrained_def harmless_def)
  then show ?case using Cons.IH [of ?cl] same al by auto
qed simp

lemma harmless_flush: "harmless idText owner (flushClient now) cl"
proof -
  obtain out co where d: "drain now (gc_coalescer cl) = (out, co)" by fastforce
  note dp = drain_pending [OF d [unfolded drain_def]]
  have "client_ok idText owner cl \<Longrightarrow> \<forall>f\<in>snd ` set out. allowed idText owner cl f"
    using dp by (fastforce simp: client_ok_def)
  moreover have "client_ok idText owner cl \<Longrightarrow> client_ok idText owner (cl\<lparr>gc_coalescer := co\<rparr>)"
    using dp by (auto simp: client_ok_def)
  ultimately show ?thesis using d sendDrained_fold [of _ "cl\<lparr>gc_coalescer := co\<rparr>" out idText owner]
    by (auto simp: harmless_def flushClient_def Let_def)
qed

section \<open>Every step keeps the invariant\<close>

lemma harmless_keep:
  assumes "gc_userId (f cl) = gc_userId cl" "gc_role (f cl) = gc_role cl" "gc_sent (f cl) = gc_sent cl"
    "set (co_pending (gc_coalescer (f cl))) \<subseteq> set (co_pending (gc_coalescer cl))" "gc_owned (f cl) = gc_owned cl"
    "gc_ended cl \<longrightarrow> gc_ended (f cl)"
  shows "harmless idText owner f cl"
proof -
  have "allowed idText owner (f cl) = allowed idText owner cl" using assms(1,2) by (rule allowed_cong)
  with assms show ?thesis by (fastforce simp: harmless_def client_ok_def)
qed

lemma step_tick: "step_ok idText owner g (tickEvent v t now g)"
  unfolding tickEvent_def Let_def by (intro step_publish step_coalesced allowed_plain) simp

lemma step_bar: "step_ok idText owner g (barEvent b now g)"
  unfolding barEvent_def by (intro step_publish step_coalesced allowed_plain) simp

lemma subscriber_authorised:
  assumes "gateway_ok idText owner g" "c \<in> set (subscribersOf (accountChannel i) g)" "same_people g g'"
  shows "authorised owner (gw_heap g' c) i"
  using assms authorised_same [OF assms(3)] by (auto simp: gateway_ok_def subscribers_ok_def)

lemma step_event: "step_ok idText owner g (busEvent idText ev now g)"
proof (cases "gateway_ok idText owner g")
  case True
  show ?thesis
  proof (cases ev)
    case (BusAccount st)
    then show ?thesis using subscriber_authorised [OF True]
      by (simp add: busEvent_def, intro step_publish step_coalesced) (auto simp: allowed_def)
  next
    case (BusPosition i kind info reason pnl)
    then show ?thesis using subscriber_authorised [OF True]
      by (simp add: busEvent_def, intro step_publish step_send) (auto simp: allowed_def)
  next
    case (BusOrderResult i reply)
    then show ?thesis by (simp add: busEvent_def, intro step_publish step_send allowed_plain) simp
  next
    case (BusMarketStatus ms)
    then show ?thesis by (simp add: busEvent_def, intro step_fold step_send allowed_plain) simp
  qed
qed (simp add: step_ok_def)

lemma step_flush: "step_ok idText owner g (flushAll now g)"
  unfolding flushAll_def by (intro step_fold step_onClient harmless_flush)

lemma step_beat: "step_ok idText owner g (heartbeat g)"
  unfolding heartbeat_def by (intro step_fold step_onClient harmless_keep) auto

lemma step_pong: "step_ok idText owner g (pongEvent c g)"
  unfolding pongEvent_def by (intro step_onClient harmless_keep) auto

lemma client_ok_new: "client_ok idText owner \<lparr>gc_userId = u, gc_role = r, gc_subs = [], gc_owned = [], gc_coalescer = newCoalescer, gc_alive = True,
    gc_windowStart = now, gc_windowCount = n, gc_open = op, gc_ended = en, gc_buffered = 0, gc_sent = []\<rparr>"
  by (simp add: client_ok_def newCoalescer_def)

lemma step_connect: "step_ok idText owner g (onConnection v payload gone now g)"
proof (cases "verifyTicket payload")
  case (Some p)
  obtain u r where p: "p = (u, r)" by (cases p)
  let ?cl = "\<lparr>gc_userId = u, gc_role = r, gc_subs = [], gc_owned = [], gc_coalescer = newCoalescer, gc_alive = True,
    gc_windowStart = now, gc_windowCount = 0, gc_open = \<not> gone, gc_ended = gone, gc_buffered = 0, gc_sent = []\<rparr>"
  let ?c = "gw_nextId g"
  let ?g = "g\<lparr>gw_heap := (gw_heap g)(?c := ?cl), gw_clients := gw_clients g @ [?c], gw_nextId := ?c + 1\<rparr>"
  have "step_ok idText owner g ?g"
    using client_ok_new by (fastforce simp: step_ok_def same_people_def gateway_ok_def subscribers_ok_def subscribersOf_def)
  moreover have "step_ok idText owner ?g (send ?c (AuthOk u now) ?g)" by (intro step_send allowed_plain) simp
  moreover have "step_ok idText owner (send ?c (AuthOk u now) ?g) (send ?c (MarketStatusFrame (vw_market v)) (send ?c (AuthOk u now) ?g))"
    by (intro step_send allowed_plain) simp
  ultimately show ?thesis using Some p by (auto simp: onConnection_def Let_def intro: step_ok_trans)
qed (simp add: onConnection_def)

lemma map_of_rows: "map_of (map (\<lambda>(n, cs). (n, F n cs)) xs) name = map_option (F name) (map_of xs name)"
  by (induction xs) auto

lemma step_close:
  assumes "\<not> gc_ended (gw_heap g c)"
  shows "step_ok idText owner g (closeEvent c g)"
proof -
  let ?xs = "map (\<lambda>(name, cs). (name, if name \<in> set (gc_subs (gw_heap g c)) then filter (\<lambda>d. d \<noteq> c) cs else cs)) (gw_subscribers g)"
  have "map_of ?xs name = map_option (\<lambda>cs. if name \<in> set (gc_subs (gw_heap g c)) then filter (\<lambda>d. d \<noteq> c) cs else cs)
      (map_of (gw_subscribers g) name)" for name
    by (rule map_of_rows)
  then have "set (subscribersOf name (closeEvent c g)) \<subseteq> set (subscribersOf name g)" for name
    by (auto simp: closeEvent_def subscribersOf_def split: option.splits if_splits)
  moreover have "harmless idText owner (\<lambda>cl. cl\<lparr>gc_open := False, gc_ended := True\<rparr>) (gw_heap g c)" by (rule harmless_keep) auto
  ultimately show ?thesis using assms
    by (fastforce simp: closeEvent_def step_ok_def same_people_def gateway_ok_def subscribers_ok_def harmless_def authorised_def)
qed

lemma accountChannel_inj [simp]: "accountChannel i = accountChannel j \<longleftrightarrow> i = j"
  by (simp add: accountChannel_def)

lemma other_channel:
  assumes "parseChannel name = Some ch" "\<And>i. ch \<noteq> ChAccount i"
  shows "name \<noteq> accountChannel i"
  using parseChannel_name [OF assms(1)] assms(2)
  by (cases ch) (auto simp: channelName_def ticksChannel_def barsChannel_def marketChannel_def accountChannel_def)

lemma step_admit:
  assumes "c < gw_nextId g" "\<And>i. name = accountChannel i \<Longrightarrow> authorised owner (gw_heap g c) i"
  shows "step_ok idText owner g (admit c name g)"
proof -
  let ?f = "\<lambda>cl. cl\<lparr>gc_subs := List.insert name (gc_subs cl)\<rparr>"
  have h: "step_ok idText owner g (onClient c ?f g)" by (intro step_onClient harmless_keep) auto
  have subs: "subscribersOf n (admit c name g) =
      (if n = name then (if c \<in> set (subscribersOf name g) then subscribersOf name g else subscribersOf name g @ [c]) else subscribersOf n g)" for n
    by (auto simp: admit_def Let_def subscribersOf_def update_conv' onClient_def split: option.splits)
  have rest: "gw_heap (admit c name g) = gw_heap (onClient c ?f g)" "gw_clients (admit c name g) = gw_clients g"
    "gw_nextId (admit c name g) = gw_nextId g"
    by (simp_all add: admit_def Let_def)
  show ?thesis
    using h assms by (fastforce simp: step_ok_def same_people_def gateway_ok_def subscribers_ok_def subs rest authorised_def split: if_splits)
qed

lemma step_greet: "step_ok idText owner g (greet v c ch g)"
  by (cases ch) (auto simp: greet_def intro!: step_send allowed_plain split: option.split)

lemma known_owner:
  assumes "gateway_ok idText owner g" "knownOwner (gw_heap g c) i = Some True"
  shows "authorised owner (gw_heap g c) i"
  using assms by (auto simp: knownOwner_def authorised_def gateway_ok_def client_ok_def split: if_splits)

text \<open>What a handler that may wait leaves.\<close>

definition left_ok :: "(nat \<Rightarrow> string) \<Rightarrow> (string \<Rightarrow> nat option) \<Rightarrow> Gateway \<Rightarrow> Gateway \<times> SubscribeWait list \<Rightarrow> bool" where
  "left_ok idText owner g r \<longleftrightarrow> (gateway_ok idText owner g \<longrightarrow> same_people g (fst r) \<and> gateway_ok idText owner (fst r)
     \<and> (\<forall>w\<in>set (snd r). wait_ok owner (fst r) w))"

lemma left_after: "step_ok idText owner g g1 \<Longrightarrow> left_ok idText owner g1 r \<Longrightarrow> left_ok idText owner g r"
  unfolding left_ok_def step_ok_def using same_people_trans by blast

lemma left_step: "step_ok idText owner g g1 \<Longrightarrow> left_ok idText owner g (g1, [])"
  by (simp add: left_ok_def step_ok_def)

lemma nextId_steps [simp]:
  "gw_nextId (send c f g) = gw_nextId g" "gw_nextId (admit c name g) = gw_nextId g" "gw_nextId (greet v c ch g) = gw_nextId g"
  by (simp_all add: send_def admit_def Let_def greet_def split: ParsedChannel.split option.split)

lemma left_subscribe:
  assumes "c < gw_nextId g"
  shows "left_ok idText owner g (fst (subscribe v c names g), waiting (snd (subscribe v c names g)))"
  using assms
proof (induction names arbitrary: g)
  case Nil
  then show ?case by (simp add: left_ok_def waiting_def)
next
  case (Cons name rest)
  have err: "step_ok idText owner g (send c (ErrorFrame k ref) g)" for k ref by (intro step_send allowed_plain) simp
  show ?case
  proof (cases "parseChannel name")
    case None
    then show ?thesis using left_after [OF err Cons.IH] Cons.prems by simp
  next
    case (Some ch)
    consider (seen) "name \<in> set (gc_subs (gw_heap g c))"
      | (full) "name \<notin> set (gc_subs (gw_heap g c))" "length (gc_subs (gw_heap g c)) \<ge> MAX_CHANNELS"
      | (owned) i where "name \<notin> set (gc_subs (gw_heap g c))" "\<not> length (gc_subs (gw_heap g c)) \<ge> MAX_CHANNELS" "ch = ChAccount i"
      | (plain) "name \<notin> set (gc_subs (gw_heap g c))" "\<not> length (gc_subs (gw_heap g c)) \<ge> MAX_CHANNELS" "\<forall>i. ch \<noteq> ChAccount i"
      by blast
    then show ?thesis
    proof cases
      case seen
      then show ?thesis using Some Cons by simp
    next
      case full
      then show ?thesis using Some err by (simp add: waiting_def left_step)
    next
      case owned
      then show ?thesis using Some Cons.prems known_owner parseChannel_name [OF Some]
        by (auto simp: left_ok_def waiting_def wait_ok_def channelName_def)
    next
      case plain
      have one: "step_ok idText owner g (greet v c ch (admit c name g))"
        using step_admit [OF Cons.prems, of name owner idText] other_channel [OF Some] plain(3) step_greet
        by (blast intro: step_ok_trans)
      have "subscribe v c (name # rest) g = subscribe v c rest (greet v c ch (admit c name g))"
        using Some plain by (cases ch) simp_all
      then show ?thesis using left_after [OF one Cons.IH] Cons.prems by simp
    qed
  qed
qed

lemma owns_row: "rows_ok idText owner accounts \<Longrightarrow> ownsRow idText accounts u i \<Longrightarrow> owner i = Some u"
  by (auto simp: ownsRow_def rows_ok_def find_Some_iff split: option.splits)

lemma step_owned:
  assumes "owns \<Longrightarrow> owner i = Some (gc_userId (gw_heap g c))"
  shows "step_ok idText owner g (onClient c (\<lambda>cl. cl\<lparr>gc_owned := AList.update i owns (gc_owned cl)\<rparr>) g)"
  using assms by (intro step_onClient) (auto simp: harmless_def client_ok_def update_conv' allowed_def authorised_def)

lemma left_owner:
  assumes "wait_ok owner g (WaitOwner c name i known rest)" "\<And>st. vw_state v i = Some st \<Longrightarrow> idText (as_accountId st) = i" "rows_ok idText owner accounts"
    and "ownerArrived idText v accounts c name i known rest g = (g', w)"
  shows "left_ok idText owner g (g', waiting w)"
proof -
  have c: "c < gw_nextId g" "name = accountChannel i" "known = Some True \<Longrightarrow> authorised owner (gw_heap g c) i"
    using assms(1) by (simp_all add: wait_ok_def)
  define owns where "owns = (case known of Some b \<Rightarrow> b | None \<Rightarrow> ownsRow idText accounts (gc_userId (gw_heap g c)) i)"
  define g1 where "g1 = (if known = None then onClient c (\<lambda>cl. cl\<lparr>gc_owned := AList.update i owns (gc_owned cl)\<rparr>) g else g)"
  have g1: "step_ok idText owner g g1" "gw_nextId g1 = gw_nextId g"
    using owns_row [OF assms(3)] by (auto simp: g1_def owns_def intro!: step_owned)
  have who: "gc_userId (gw_heap g1 c) = gc_userId (gw_heap g c)" "gc_role (gw_heap g1 c) = gc_role (gw_heap g c)"
    by (simp_all add: g1_def)
  have res: "(g', w) = (if \<not> owns then subscribe v c rest (send c (ErrorFrame ''FORBIDDEN'' (Some name)) g1)
      else (case vw_state v i of Some st \<Rightarrow> subscribe v c rest (send c (AccountFrame st) (admit c name g1))
        | None \<Rightarrow> (admit c name g1, Some (WaitReload c name i rest))))"
    unfolding assms(4) [symmetric] ownerArrived_def Let_def owns_def g1_def by (rule refl)
  show ?thesis
  proof (cases owns)
    case False
    have "step_ok idText owner g (send c (ErrorFrame ''FORBIDDEN'' (Some name)) g1)"
      by (rule step_ok_trans [OF g1(1)]) (intro step_send allowed_plain, simp)
    from left_after [OF this left_subscribe] res False c g1(2) show ?thesis
      by (metis fst_conv snd_conv nextId_steps(1))
  next
    case True
    have auth: "authorised owner (gw_heap g1 c) i"
      using True c(3) owns_row [OF assms(3)] who by (auto simp: owns_def authorised_def split: option.splits)
    have adm: "step_ok idText owner g (admit c name g1)"
      using c auth g1(2) by (intro step_ok_trans [OF g1(1)] step_admit) auto
    have heap: "authorised owner (gw_heap (admit c name g1) c) = authorised owner (gw_heap g1 c)"
      by (intro authorised_cong) (simp_all add: admit_def Let_def)
    show ?thesis
    proof (cases "vw_state v i")
      case (Some st)
      have "allowed idText owner (gw_heap (admit c name g1) c) (AccountFrame st)"
        using assms(2) Some auth by (simp add: allowed_def heap)
      then have "step_ok idText owner g (send c (AccountFrame st) (admit c name g1))"
        by (intro step_ok_trans [OF adm] step_send)
      from left_after [OF this left_subscribe] res True Some c g1(2) show ?thesis
        by (metis (no_types, lifting) fst_conv snd_conv nextId_steps(1,2) option.case(2))
    next
      case None
      then show ?thesis using res True adm auth heap c(1) g1(2)
        by (auto simp: left_ok_def step_ok_def waiting_def wait_ok_def)
    qed
  qed
qed

lemma left_account:
  assumes "wait_ok owner g (WaitReload c name i rest)" "\<And>st. state = Some st \<Longrightarrow> idText (as_accountId st) = i"
    and "accountArrived v state c rest g = (g', w)"
  shows "left_ok idText owner g (g', waiting w)"
proof -
  define g1 where "g1 = (case state of Some st \<Rightarrow> send c (AccountFrame st) g | None \<Rightarrow> g)"
  have "step_ok idText owner g g1"
    using assms(1,2) by (auto simp: g1_def wait_ok_def allowed_def intro!: step_send split: option.split)
  from left_after [OF this left_subscribe [of c g1 idText owner v rest]] assms(1,3) show ?thesis
    by (simp add: accountArrived_def g1_def wait_ok_def split: option.splits)
qed

lemma fewer_subscribers:
  assumes "gateway_ok idText owner g" "\<And>n. set (subscribersOf n (g\<lparr>gw_subscribers := xs\<rparr>)) \<subseteq> set (subscribersOf n g)"
  shows "gateway_ok idText owner (g\<lparr>gw_subscribers := xs\<rparr>)"
  unfolding gateway_ok_def subscribers_ok_def
proof (intro conjI allI ballI)
  fix n c assume "c \<in> set (subscribersOf n (g\<lparr>gw_subscribers := xs\<rparr>))"
  then have c: "c \<in> set (subscribersOf n g)" using assms(2) by blast
  then show "c < gw_nextId (g\<lparr>gw_subscribers := xs\<rparr>)" using assms(1) by (simp add: gateway_ok_def subscribers_ok_def)
  show "n = accountChannel i \<longrightarrow> authorised owner (gw_heap (g\<lparr>gw_subscribers := xs\<rparr>) c) i" for i
    using assms(1) c by (simp add: gateway_ok_def subscribers_ok_def)
qed (use assms(1) in \<open>simp_all add: gateway_ok_def\<close>)

lemma step_unsubscribe: "step_ok idText owner g (unsubscribe c channels g)"
proof -
  let ?f = "\<lambda>ch cl. cl\<lparr>gc_subs := removeAll ch (gc_subs cl), gc_coalescer := forget ch (gc_coalescer cl)\<rparr>"
  have one: "step_ok idText owner g
      (let g1 = onClient c (?f ch) g in g1\<lparr>gw_subscribers := AList.map_entry ch (\<lambda>cs. removeAll c cs) (gw_subscribers g1)\<rparr>)" for ch g
  proof -
    have h: "step_ok idText owner g (onClient c (?f ch) g)"
      by (intro step_onClient harmless_keep) (auto simp: forget_def AList.delete_eq)
    let ?g = "(onClient c (?f ch) g)\<lparr>gw_subscribers := AList.map_entry ch (\<lambda>cs. removeAll c cs) (gw_subscribers g)\<rparr>"
    have subs: "subscribersOf n ?g = (if n = ch then removeAll c (subscribersOf n g) else subscribersOf n g)" for n
      by (simp add: subscribersOf_def map_of_map_entry split: option.split)
    have "gateway_ok idText owner (onClient c (?f ch) g) \<Longrightarrow> gateway_ok idText owner ?g"
      by (rule fewer_subscribers) (auto simp: subs)
    with h show ?thesis by (simp add: Let_def step_ok_def same_people_def)
  qed
  show ?thesis unfolding unsubscribe_def by (rule step_fold) (rule one)
qed

lemma step_inbound: "step_ok idText owner g (onClient c (inboundWindow now) g)"
  by (intro step_onClient harmless_keep) (auto simp: inboundWindow_def Let_def)

lemma left_message:
  assumes "c < gw_nextId g" "onMessage v c raw now g = (g', r)"
  shows "left_ok idText owner g (g', requestWait r)"
proof -
  define g1 where "g1 = onClient c (inboundWindow now) g"
  have g1: "step_ok idText owner g g1" "c < gw_nextId g1" using assms(1) step_inbound by (simp_all add: g1_def)
  have say: "step_ok idText owner g (send c frame g1)" if "frameAccount frame = None" for frame
    by (rule step_ok_trans [OF g1(1)]) (intro step_send allowed_plain that)
  have closed: "step_ok idText owner g (onClient c (\<lambda>cl. cl\<lparr>gc_open := False\<rparr>) (send c (ErrorFrame ''RATE_LIMITED'' None) g1))"
    by (rule step_ok_trans [OF say [of "ErrorFrame ''RATE_LIMITED'' None"]]) (auto intro!: step_onClient harmless_keep)
  note m = assms(2) [unfolded onMessage_def Let_def, folded g1_def]
  show ?thesis
  proof (cases "gc_windowCount (gw_heap g1 c) > MAX_INBOUND_PER_SEC")
    case True
    then show ?thesis using m closed by (auto simp: requestWait_def intro: left_step)
  next
    case limit: False
    show ?thesis
    proof (cases raw)
      case NotJson
      then show ?thesis using m limit say by (auto simp: requestWait_def intro: left_step)
    next
      case (Decoded json)
      have unsub: "step_ok idText owner g (unsubscribe c cs g1)" for cs by (rule step_ok_trans [OF g1(1) step_unsubscribe])
      show ?thesis
      proof (cases "parseClientMessage json")
        case None
        then show ?thesis using m limit Decoded say by (auto simp: requestWait_def intro: left_step)
      next
        case (Some msg)
        have "left_ok idText owner g (g', requestWait r)" if "msg = SubscribeMsg cs" for cs
        proof -
          obtain g2 w where s: "subscribe v c cs g1 = (g2, w)" by fastforce
          then have "g' = g2" "requestWait r = waiting w"
            using m limit Decoded Some that by (auto simp: requestWait_def waiting_def split: option.splits)
          then show ?thesis using left_after [OF g1(1) left_subscribe [OF g1(2)], of v cs] s by simp
        qed
        then show ?thesis using m limit Decoded Some say g1(1) unsub
          by (cases msg) (auto simp: requestWait_def intro: left_step)
      qed
    qed
  qed
qed

lemma replies_allowed:
  assumes "engine_people idText owner e" "engineReplies zone idText (callerOf cl) msg now e = Some fs" "f \<in> set fs"
  shows "allowed idText owner cl f"
proof (cases f)
  case (AccountFrame st)
  then show ?thesis using replies_owner [OF assms(1,2)] assms(3) by (auto simp: allowed_def authorised_def callerOf_def)
next
  case (PositionFrame i kind info why pnl)
  then show ?thesis using replies_no_position [OF assms(2)] assms(3) by blast
qed (simp_all add: allowed_def)

lemma step_answered:
  assumes "c < gw_nextId g" "engine_people idText owner e"
  shows "step_ok idText owner g (engineAnswered c m (engineReplies zone idText (callerOf (gw_heap g c)) msg now e) g)"
proof (cases "engineReplies zone idText (callerOf (gw_heap g c)) msg now e")
  case None
  then show ?thesis by (simp add: engineAnswered_def) (intro step_send allowed_plain, simp)
next
  case (Some fs)
  have "step_ok idText owner g' (send c f g')" if "f \<in> set fs" "same_people g g'" for f g'
    using replies_allowed [OF assms(2) Some that(1)] authorised_same [OF that(2) assms(1)] by (intro step_send) (simp add: allowed_def)
  then show ?thesis using Some by (simp add: engineAnswered_def) (rule step_fold)
qed

section \<open>Who learns what\<close>

definition run_ok :: "(nat \<Rightarrow> string) \<Rightarrow> (string \<Rightarrow> nat option) \<Rightarrow> GatewayRun \<Rightarrow> bool" where
  "run_ok idText owner s \<longleftrightarrow> gateway_ok idText owner (fst s) \<and> (\<forall>w\<in>set (snd s). wait_ok owner (fst s) w)"

definition follows :: "(nat \<Rightarrow> string) \<Rightarrow> (string \<Rightarrow> nat option) \<Rightarrow> GatewayRun \<Rightarrow> GatewayRun \<Rightarrow> bool" where
  "follows idText owner s s' \<longleftrightarrow> (run_ok idText owner s \<longrightarrow> same_people (fst s) (fst s') \<and> run_ok idText owner s')"

lemma follows_left:
  assumes "run_ok idText owner (g, ws) \<Longrightarrow> left_ok idText owner g (g', vs)" "set us \<subseteq> set ws"
  shows "follows idText owner (g, ws) (g', us @ vs)"
  using assms by (auto simp: follows_def run_ok_def left_ok_def intro: wait_same)

lemma follows_step: "step_ok idText owner g g' \<Longrightarrow> follows idText owner (g, ws) (g', ws)"
  using follows_left [OF left_step, of idText owner g ws g' ws] by simp

lemma gateway_step_follows: "gateway_step idText owner s s' \<Longrightarrow> follows idText owner s s'"
proof (induction rule: gateway_step.induct)
  case (message c g v raw now g' r ws)
  then show ?case by (intro follows_left left_message) (auto simp: run_ok_def gateway_ok_def)
next
  case (owner_arrives ws us c name i known rest vs e g g' w)
  have "rows_ok idText owner (accounts_t (eng_db e))" using owner_arrives(2) by (simp add: engine_people_def)
  with owner_arrives have "follows idText owner (g, ws) (g', (us @ vs) @ waiting w)"
    by (intro follows_left left_owner [OF _ engineView_state]) (auto simp: run_ok_def)
  then show ?case by simp
next
  case (account_arrives ws us c name i rest vs e v now g g' w)
  then have "follows idText owner (g, ws) (g', (us @ vs) @ waiting w)"
    by (intro follows_left left_account [of owner g c name "idText i" rest]) (auto simp: run_ok_def dest: reloadedState_id)
  then show ?case by simp
next
  case (no_account_arrives ws us c name i rest vs v g g' w)
  then have "follows idText owner (g, ws) (g', (us @ vs) @ waiting w)" by (intro follows_left left_account) (auto simp: run_ok_def)
  then show ?case by simp
next
  case (answered c g e ws m zone idOf now)
  then show ?case by (blast intro: follows_step step_answered)
next
  case (drains c g ws n)
  then show ?case by (intro follows_step step_onClient) (auto intro: harmless_keep)
qed (blast intro: follows_step step_connect step_tick step_bar step_event step_flush step_beat step_pong step_close)+

lemma gateway_run_ok: "gateway_run idText owner s \<Longrightarrow> run_ok idText owner s"
proof (induction rule: gateway_run.induct)
  case starts
  show ?case by (simp add: run_ok_def gateway_ok_def newGateway_def client_ok_def newCoalescer_def subscribers_ok_def subscribersOf_def)
next
  case (continues s s')
  then show ?case using gateway_step_follows by (auto simp: follows_def)
qed

lemma fold_send_sent:
  "gc_sent (gw_heap (fold (\<lambda>c. send c frame) cs g) d) \<noteq> gc_sent (gw_heap g d) \<Longrightarrow> d \<in> set cs"
proof (induction cs arbitrary: g)
  case (Cons c cs)
  show ?case
  proof (cases "d = c")
    case False
    then have "gc_sent (gw_heap (send c frame g) d) = gc_sent (gw_heap g d)" by (simp add: send_def)
    then show ?thesis using Cons.IH [of "send c frame g"] Cons.prems by simp
  qed simp
qed simp

text \<open>
  C17: An account is shown to its owner and to administrators only. Whatever connections, subscriptions (also those
  still waiting for the owner of an account or for a reload), cancellations, requests to the engine with their
  answers, ticks, events, flushes and disconnections interleave, every frame that was ever sent about an account went to a client who is an
  administrator or to whom the account belongs; and the next order result of an account goes to such clients only.
\<close>

theorem accounts_are_private:
  assumes "gateway_run idText owner (g, ws)"
  shows "(\<forall>c. \<forall>f\<in>set (gc_sent (gw_heap g c)). \<forall>i. frameAccount f = Some i \<longrightarrow>
      gc_role (gw_heap g c) = ''ADMIN'' \<or> owner (idText i) = Some (gc_userId (gw_heap g c)))
    \<and> (\<forall>c. gc_sent (gw_heap (busEvent idText (BusOrderResult i reply) now g) c) \<noteq> gc_sent (gw_heap g c) \<longrightarrow>
      gc_role (gw_heap g c) = ''ADMIN'' \<or> owner (idText i) = Some (gc_userId (gw_heap g c)))"
proof -
  have ok: "gateway_ok idText owner g" using gateway_run_ok [OF assms] by (simp add: run_ok_def)
  then have "\<forall>c. client_ok idText owner (gw_heap g c)" by (simp add: gateway_ok_def)
  moreover have "authorised owner (gw_heap g c) (idText i)"
    if "gc_sent (gw_heap (busEvent idText (BusOrderResult i reply) now g) c) \<noteq> gc_sent (gw_heap g c)" for c
    using that fold_send_sent subscriber_authorised [OF ok _ same_people_refl]
    by (auto simp: busEvent_def publish_def)
  ultimately show ?thesis by (auto simp: client_ok_def allowed_def authorised_def)
qed

section \<open>What is left behind\<close>

lemma later_people:
  assumes "(gateway_step idText owner)\<^sup>*\<^sup>* s s'" "run_ok idText owner s"
  shows "same_people (fst s) (fst s') \<and> run_ok idText owner s'"
  using assms
proof (induction rule: rtranclp_induct)
  case (step s1 s2)
  then show ?case using gateway_step_follows [OF step.hyps(2)] same_people_trans by (auto simp: follows_def)
qed simp

text \<open>
  A socket that is gone when its ticket has been verified keeps its place among the connections for ever: its
  \<open>close\<close> event was emitted before the listener that would remove it was installed.
\<close>

lemma vanished_socket_keeps_its_place:
  assumes "gateway_run idText owner (g, ws)" "verifyTicket payload = Some (u, r)"
    and "(gateway_step idText owner)\<^sup>*\<^sup>* (onConnection v payload True now g, ws) (g', ws')"
  shows "gw_nextId g \<in> set (gw_clients g')"
proof -
  let ?g = "onConnection v payload True now g"
  have "gateway_run idText owner (?g, ws)" using assms(1) by (blast intro: gateway_run.continues gateway_step.connects)
  then have "same_people ?g g'" using later_people [OF assms(3)] gateway_run_ok by auto
  moreover have "gw_nextId g < gw_nextId ?g" "gw_nextId g \<in> set (gw_clients ?g)" "gc_ended (gw_heap ?g (gw_nextId g))"
    using assms(2) by (simp_all add: onConnection_def Let_def send_def sendTo_def)
  ultimately show ?thesis by (simp add: same_people_def)
qed

text \<open>
  Leaving a price channel does not withdraw the frame that is still pending: the coalescer keeps it under
  \<open>tick:<symbol>\<close>, the cancellation forgets \<open>ticks:<symbol>\<close>, and the next flush sends it.
\<close>

lemma cancelled_tick_is_still_sent:
  assumes "map_of (co_pending (gc_coalescer cl)) (''tick:'' @ s) = Some (f, i)" "distinct (map fst (co_pending (gc_coalescer cl)))"
    and "map_of (co_lastSentAt (gc_coalescer cl)) (''tick:'' @ s) = Some t" "t + i \<le> now" "gc_open cl" "gc_buffered cl \<le> MAX_BUFFERED_BYTES"
    and "cl = gw_heap g c" "gw_clients g = [c]"
  shows "f \<in> set (gc_sent (gw_heap (flushAll now (unsubscribe c [ticksChannel s] g)) c))"
proof -
  let ?cl = "gw_heap (unsubscribe c [ticksChannel s] g) c"
  let ?co = "gc_coalescer ?cl"
  have k: "''tick:'' @ s \<noteq> ticksChannel s" by (simp add: ticksChannel_def)
  have co: "?co = forget (ticksChannel s) (gc_coalescer cl)" and cl: "gc_open ?cl" "gc_buffered ?cl = gc_buffered cl"
    using assms(5,7) by (simp_all add: unsubscribe_def Let_def)
  have d: "due now (''tick:'' @ s) (co_pending ?co) ?co"
    using assms(1,3,4) k by (simp add: due_def co forget_def delete_conv')
  have ds: "distinct (map fst (co_pending ?co))" using assms(2) by (simp add: co forget_def distinct_delete)
  obtain out co' where dr: "drain now ?co = (out, co')" by fastforce
  have "filter (\<lambda>e. fst e = ''tick:'' @ s) out = [(''tick:'' @ s, f)]"
    using drainLoop_key [OF ds dr [unfolded drain_def], of "''tick:'' @ s"] d assms(1) k
    by (simp add: co forget_def delete_conv')
  then have "(''tick:'' @ s, f) \<in> set (filter (\<lambda>e. fst e = ''tick:'' @ s) out)" by simp
  then have f: "f \<in> snd ` set out" by (auto intro: rev_image_eqI)
  have sent: "snd ` set fs \<subseteq> set (gc_sent (foldl (sendDrained False) cl0 fs)) \<and> set (gc_sent cl0) \<subseteq> set (gc_sent (foldl (sendDrained False) cl0 fs))"
    if "gc_open cl0" for fs cl0
    using that
  proof (induction fs arbitrary: cl0)
    case (Cons e fs)
    then show ?case using Cons.IH [of "sendDrained False cl0 e"] by (auto simp: sendDrained_def sendTo_def)
  qed simp
  have "co_pending ?co \<noteq> []" using d by (auto simp: due_def)
  then have "gw_heap (flushAll now (unsubscribe c [ticksChannel s] g)) c = foldl (sendDrained False) (?cl\<lparr>gc_coalescer := co'\<rparr>) out"
    using dr assms(6,8) cl by (simp add: flushAll_def flushClient_def pendingCount_def unsubscribe_def Let_def)
  then show ?thesis using f sent [of "?cl\<lparr>gc_coalescer := co'\<rparr>" out] cl(1) by auto
qed

section \<open>A run\<close>

text \<open>User 3 connects, subscribes to the account 7 that is his, the row of the account arrives, and the engine shows it to him.\<close>

definition sampleIdText :: "nat \<Rightarrow> string" where
  "sampleIdText n = replicate n (CHR ''a'')"

definition sampleView :: EngineView where
  "sampleView = \<lparr>vw_state = (\<lambda>_. None), vw_quote = (\<lambda>_. None), vw_instrument = (\<lambda>_. None),
     vw_market = \<lparr>ms_state = MS_OPEN, ms_reason = None, ms_symbols = [], ms_news = None\<rparr>\<rparr>"

definition sampleOwner :: "string \<Rightarrow> nat option" where
  "sampleOwner i = (if i = sampleIdText 7 then Some 3 else None)"

definition sampleGateway :: Gateway where
  "sampleGateway = onConnection sampleView (Some \<lparr>ti_purpose = Some ''ws'', ti_subject = Some 3, ti_role = None\<rparr>) False 0 newGateway"

definition subscribeJson :: Json where
  "subscribeJson = JObj [(''type'', JStr ''subscribe''), (''channels'', JArr [JStr (accountChannel (sampleIdText 7))])]"

lemma sample_subscribes:
  "parseClientMessage subscribeJson = Some (SubscribeMsg [accountChannel (sampleIdText 7)])"
  "parseChannel (accountChannel (sampleIdText 7)) = Some (ChAccount (sampleIdText 7))"
  by (simp_all add: subscribeJson_def parseClientMessage_def required_def channelsSchema_def sizedString_def MAX_CHANNELS_def
      accountChannel_def sampleIdText_def parseChannel_def marketChannel_def eval_nat_numeral)

lemma sample_run:
  "\<exists>g w. gateway_run sampleIdText sampleOwner (g, w)
     \<and> subscribersOf (accountChannel (sampleIdText 7)) g = [1] \<and> gc_open (gw_heap g 1)
     \<and> AccountFrame (accountState sampleEngine sampleEngineAccount) \<in> set (gc_sent (gw_heap g 1))"
proof -
  note [simp del] = One_nat_def
  let ?name = "accountChannel (sampleIdText 7)"
  have r0: "gateway_run sampleIdText sampleOwner (sampleGateway, [])"
    unfolding sampleGateway_def by (intro gateway_run.continues [OF gateway_run.starts] gateway_step.connects)
  have c: "1 \<in> set (gw_clients sampleGateway)" "gc_role (gw_heap sampleGateway 1) = ''TRADER''" "gc_owned (gw_heap sampleGateway 1) = []"
    "gc_subs (gw_heap sampleGateway 1) = []" "gc_userId (gw_heap sampleGateway 1) = 3" "gc_open (gw_heap sampleGateway 1)"
    "gc_windowCount (gw_heap sampleGateway 1) = 0" "gw_subscribers sampleGateway = []" "gc_windowStart (gw_heap sampleGateway 1) = 0"
    by (simp_all add: sampleGateway_def onConnection_def verifyTicket_def newGateway_def send_def sendTo_def Let_def sampleView_def)
  let ?g = "onClient 1 (inboundWindow 5) sampleGateway"
  have m: "onMessage sampleView 1 (Decoded subscribeJson) 5 sampleGateway = (?g, Some (Subscribing (WaitOwner 1 ?name (sampleIdText 7) None [])))"
    by (simp add: onMessage_def Let_def sample_subscribes c inboundWindow_def MAX_INBOUND_PER_SEC_def MAX_CHANNELS_def knownOwner_def)
  have r1: "gateway_run sampleIdText sampleOwner (?g, [WaitOwner 1 ?name (sampleIdText 7) None []])"
    using gateway_run.continues [OF r0 gateway_step.message [OF c(1) m]] by (simp add: requestWait_def)
  have people: "engine_people sampleIdText sampleOwner sampleEngine"
    by (simp add: engine_people_def rows_ok_def sample_simps sampleTrading_def sampleAccount_def sampleOwner_def)
  have owns: "ownsRow sampleIdText (accounts_t sampleTrading) 3 (sampleIdText 7)"
    by (simp add: ownsRow_def sampleTrading_def sampleAccount_def)
  let ?g2 = "admit 1 ?name (onClient 1 (\<lambda>cl. cl\<lparr>gc_owned := AList.update (sampleIdText 7) True (gc_owned cl)\<rparr>) ?g)"
  let ?st = "accountState sampleEngine sampleEngineAccount"
  have v: "vw_state (engineView sampleIdText sampleEngine) (sampleIdText 7) = Some ?st"
    by (simp add: engineView_def sample_simps)
  have o: "ownerArrived sampleIdText (engineView sampleIdText sampleEngine) (accounts_t (eng_db sampleEngine)) 1 ?name (sampleIdText 7) None [] ?g
      = (send 1 (AccountFrame ?st) ?g2, None)"
    by (simp add: ownerArrived_def Let_def c owns v inboundWindow_def sample_simps)
  have "gateway_run sampleIdText sampleOwner (send 1 (AccountFrame ?st) ?g2, [] @ [] @ waiting None)"
    by (rule gateway_run.continues [OF r1 gateway_step.owner_arrives [OF _ people o]]) simp
  moreover have "subscribersOf ?name ?g2 = [1]" by (simp add: subscribersOf_def admit_def Let_def update_conv' onClient_def c)
  then have "subscribersOf ?name (send 1 (AccountFrame ?st) ?g2) = [1]" by (simp add: send_def)
  moreover have op: "gc_open (gw_heap ?g2 1)" by (simp add: admit_def Let_def inboundWindow_def c)
  then have "gc_open (gw_heap (send 1 (AccountFrame ?st) ?g2) 1)" "AccountFrame ?st \<in> set (gc_sent (gw_heap (send 1 (AccountFrame ?st) ?g2) 1))"
    by (simp_all add: send_def sendTo_def)
  ultimately show ?thesis by blast
qed

definition sampleReply :: OrderReply where
  "sampleReply = \<lparr>rp_clientOrderId = ''k'', rp_status = RS_FILLED, rp_orderId = Some 8, rp_positionId = Some 9, rp_filledPrice = None, rp_reason = None\<rparr>"

theorem accounts_are_private_witness:
  "\<exists>g w. gateway_run sampleIdText sampleOwner (g, w)
     \<and> AccountFrame (accountState sampleEngine sampleEngineAccount) \<in> set (gc_sent (gw_heap g 1))
     \<and> gc_sent (gw_heap (busEvent sampleIdText (BusOrderResult 7 sampleReply) 9 g) 1) \<noteq> gc_sent (gw_heap g 1)
     \<and> (gc_role (gw_heap g 1) = ''ADMIN'' \<or> sampleOwner (sampleIdText 7) = Some (gc_userId (gw_heap g 1)))"
proof -
  obtain g w where g: "gateway_run sampleIdText sampleOwner (g, w)" "subscribersOf (accountChannel (sampleIdText 7)) g = [1]"
    "gc_open (gw_heap g 1)" "AccountFrame (accountState sampleEngine sampleEngineAccount) \<in> set (gc_sent (gw_heap g 1))"
    using sample_run by (elim exE conjE)
  have sent: "gc_sent (gw_heap (busEvent sampleIdText (BusOrderResult 7 sampleReply) 9 g) 1) \<noteq> gc_sent (gw_heap g 1)"
    using g(2,3) by (simp add: busEvent_def publish_def send_def sendTo_def)
  have "gc_role (gw_heap g 1) = ''ADMIN'' \<or> sampleOwner (sampleIdText 7) = Some (gc_userId (gw_heap g 1))"
    by (rule mp [OF spec [OF conjunct2 [OF accounts_are_private [OF g(1)]]] sent])
  with g(1,4) sent show ?thesis by (intro exI [of _ g] exI [of _ w] conjI)
qed

text \<open>
  A stranger, user 4, who asks for the account 7 is not told of it, while its owner is.
\<close>

lemma sample_people: "engine_people sampleIdText sampleOwner sampleEngine"
  by (simp add: engine_people_def rows_ok_def sample_simps sampleTrading_def sampleAccount_def sampleOwner_def)

lemma strangers_are_refused:
  "engineReplies zone sampleIdText \<lparr>cx_userId = 4, cx_admin = False\<rparr> (AccountGetMsg 7) now sampleEngine = Some [ErrorFrame ''NOT_FOUND'' None]
   \<and> engineReplies zone sampleIdText \<lparr>cx_userId = 3, cx_admin = False\<rparr> (AccountGetMsg 7) now sampleEngine
      = Some [AccountFrame (accountState sampleEngine sampleEngineAccount)]"
  by (simp add: engineReplies_def handle_def resolveAccount_def frameOf_def sample_simps)

end
