(* ===== verification/Phone.thy ===== *)
theory Phone
  imports JsString
begin

text \<open>
  Phone numbers (\<open>src/lib/phone.ts\<close>): whatever people type is stored and compared in E.164. The regular
  expressions are written as predicates on ASCII strings.
\<close>

section \<open>Normalisation\<close>

definition separator :: "char \<Rightarrow> bool" where
  "separator c \<longleftrightarrow> is_space c \<or> c \<in> {CHR ''-'', CHR ''.'', CHR ''('', CHR '')''}"

definition phoneChar :: "char \<Rightarrow> bool" where
  "phoneChar c \<longleftrightarrow> is_digit c \<or> separator c \<or> c = CHR ''+''"

definition stripSeparators :: "string \<Rightarrow> string" where
  "stripSeparators s = filter (\<lambda>c. \<not> separator c) s"

text \<open>\<open>[79]\d{8}\<close>, the nine digits of a mobile number.\<close>

definition mobileDigits :: "string \<Rightarrow> bool" where
  "mobileDigits d \<longleftrightarrow> length d = 9 \<and> hd d \<in> {CHR ''7'', CHR ''9''} \<and> list_all is_digit (tl d)"

definition ET_MOBILE :: "string \<Rightarrow> bool" where
  "ET_MOBILE s \<longleftrightarrow> take 4 s = ''+251'' \<and> mobileDigits (drop 4 s)"

definition E164 :: "string \<Rightarrow> bool" where
  "E164 s \<longleftrightarrow> (case s of c # d # ds \<Rightarrow> c = CHR ''+'' \<and> is_digit d \<and> d \<noteq> CHR ''0'' \<and> list_all is_digit ds \<and> 7 \<le> length ds \<and> length ds \<le> 14
     | _ \<Rightarrow> False)"

text \<open>The international form of the digits, before the country is checked.\<close>

definition toE164 :: "string \<Rightarrow> string option" where
  "toE164 digits =
     (if take 1 digits = ''+'' then Some digits
      else if take 1 digits = ''0'' \<and> mobileDigits (drop 1 digits) then Some (''+251'' @ drop 1 digits)
      else if mobileDigits digits then Some (''+251'' @ digits)
      else if take 3 digits = ''251'' \<and> (mobileDigits (drop 3 digits) \<or> (take 4 digits = ''2510'' \<and> mobileDigits (drop 4 digits)))
      then Some (''+'' @ digits)
      else None)"

text \<open>Ethiopian numbers must be mobile; a trunk zero after the country code is dropped.\<close>

definition checkCountry :: "string \<Rightarrow> string option" where
  "checkCountry e164 =
     (if take 4 e164 = ''+251''
      then (let e = (if take 5 e164 = ''+2510'' \<and> mobileDigits (drop 5 e164) then ''+251'' @ drop 5 e164 else e164)
            in if ET_MOBILE e then Some e else None)
      else if E164 e164 then Some e164 else None)"

definition normalizePhone :: "string \<Rightarrow> string option" where
  "normalizePhone input =
     (let trimmed = trim input in
      if trimmed = [] \<or> length trimmed > 32 \<or> \<not> list_all phoneChar trimmed then None
      else let digits = stripSeparators trimmed in
        if CHR ''+'' \<in> set (tl digits) then None
        else Option.bind (toE164 (if take 2 digits = ''00'' then CHR ''+'' # drop 2 digits else digits)) checkCountry)"

section \<open>Display\<close>

definition isEthiopianMobile :: "string \<Rightarrow> bool" where
  "isEthiopianMobile e164 = ET_MOBILE e164"

definition formatPhone :: "string \<Rightarrow> string" where
  "formatPhone e164 =
     (if \<not> ET_MOBILE e164 then e164
      else ''+251 '' @ take 3 (drop 4 e164) @ '' '' @ take 3 (drop 7 e164) @ '' '' @ drop 10 e164)"

text \<open>A masked text has characters and bullets.\<close>

datatype MaskChar = Shown char | Bullet

definition lastChars :: "nat \<Rightarrow> string \<Rightarrow> string" where
  "lastChars n s = drop (length s - n) s"

definition maskPhone :: "string \<Rightarrow> MaskChar list" where
  "maskPhone e164 =
     (if ET_MOBILE e164
      then map Shown (''+251 '' @ [e164 ! 4]) @ [Bullet, Bullet, Shown (CHR '' ''), Bullet, Bullet, Bullet, Shown (CHR '' '')]
        @ map Shown (lastChars 3 e164)
      else if length e164 < 8 then replicate (length e164) Bullet
      else map Shown (take 3 e164 @ '' '') @ replicate (length e164 - 6) Bullet @ map Shown ('' '' @ lastChars 3 e164))"

section \<open>One number, one spelling\<close>

lemma digit_not_separator: "is_digit c \<Longrightarrow> \<not> separator c \<and> c \<noteq> CHR ''+'' \<and> \<not> is_space c \<and> phoneChar c"
  by (auto simp: separator_def is_digit_def is_space_def code_def phoneChar_def)

lemma plus_not_separator [simp]: "\<not> separator (CHR ''+'')" "phoneChar (CHR ''+'')" "\<not> is_space (CHR ''+'')"
  by (simp_all add: separator_def is_space_def code_def phoneChar_def)

lemma digit_chars [simp]:
  "is_digit (CHR ''0'')" "is_digit (CHR ''1'')" "is_digit (CHR ''2'')" "is_digit (CHR ''5'')" "is_digit (CHR ''7'')" "is_digit (CHR ''9'')"
  "\<not> is_digit (CHR ''+'')"
  by (simp_all add: is_digit_def code_def)

lemma mobile_digits: "mobileDigits d \<Longrightarrow> list_all is_digit d \<and> d \<noteq> []"
  by (cases d) (auto simp: mobileDigits_def)

lemma strip_digits: "list_all is_digit d \<Longrightarrow> stripSeparators d = d"
  by (induction d) (auto simp: stripSeparators_def dest: digit_not_separator)

lemma strip_append: "stripSeparators (s @ t) = stripSeparators s @ stripSeparators t"
  by (simp add: stripSeparators_def)

lemma strip_trim: "stripSeparators (trim s) = stripSeparators s"
proof -
  have d: "stripSeparators (dropWhile is_space t) = stripSeparators t" for t
    by (induction t) (auto simp: stripSeparators_def separator_def)
  have r: "stripSeparators (rev t) = rev (stripSeparators t)" for t by (simp add: stripSeparators_def rev_filter)
  show ?thesis by (simp add: trim_def r d)
qed

lemma trim_set: "set (trim s) \<subseteq> set s"
  unfolding trim_def by (metis set_dropWhileD set_rev subsetI)

lemma trim_length: "length (trim s) \<le> length s"
  unfolding trim_def by (metis length_dropWhile_le length_rev le_trans)

lemma trim_nonempty: "stripSeparators s \<noteq> [] \<Longrightarrow> trim s \<noteq> []"
  using strip_trim [of s] by (auto simp: stripSeparators_def)

text \<open>What is computed from the digits alone.\<close>

definition fromDigits :: "string \<Rightarrow> string option" where
  "fromDigits digits =
     (if CHR ''+'' \<in> set (tl digits) then None
      else Option.bind (toE164 (if take 2 digits = ''00'' then CHR ''+'' # drop 2 digits else digits)) checkCountry)"

lemma normalize_from_digits:
  assumes "list_all phoneChar s" "length s \<le> 32" "stripSeparators s \<noteq> []"
  shows "normalizePhone s = fromDigits (stripSeparators s)"
  using assms trim_set [of s] trim_length [of s] trim_nonempty [of s]
  by (auto simp: normalizePhone_def fromDigits_def Let_def strip_trim list_all_iff)

lemma mobile_parts:
  assumes "mobileDigits d"
  obtains c ds where "d = c # ds" "c = CHR ''7'' \<or> c = CHR ''9''" "list_all is_digit ds" "length ds = 8"
  using assms by (cases d) (auto simp: mobileDigits_def)

lemma no_plus: "list_all is_digit ds \<Longrightarrow> CHR ''+'' \<notin> set ds"
  by (auto simp: list_all_iff)

lemma spellings:
  assumes "mobileDigits d"
  shows "\<forall>digits\<in>{d, ''0'' @ d, ''251'' @ d, ''+251'' @ d, ''00251'' @ d, ''2510'' @ d, ''+2510'' @ d}. fromDigits digits = Some (''+251'' @ d)"
proof -
  obtain c ds where d: "d = c # ds" "c = CHR ''7'' \<or> c = CHR ''9''" "list_all is_digit ds" "length ds = 8"
    using assms by (rule mobile_parts)
  show ?thesis using d no_plus [OF d(3)]
    by (auto simp: fromDigits_def toE164_def checkCountry_def ET_MOBILE_def mobileDigits_def Let_def)
qed

lemma mobile_prefix: "ET_MOBILE s \<Longrightarrow> \<exists>d. s = ''+251'' @ d \<and> mobileDigits d"
  unfolding ET_MOBILE_def by (metis append_take_drop_id)

lemma E164_parts: "E164 s \<Longrightarrow> \<exists>ds. s = CHR ''+'' # ds \<and> list_all is_digit ds \<and> 8 \<le> length ds \<and> length ds \<le> 15 \<and> hd ds \<noteq> CHR ''0''"
  by (auto simp: E164_def split: list.splits)

lemma mobile_E164:
  assumes "ET_MOBILE s"
  shows "E164 s"
proof -
  obtain d where d: "s = ''+251'' @ d" "mobileDigits d" using mobile_prefix [OF assms] by blast
  then have "length d = 9" "list_all is_digit d" using mobile_digits by (auto simp: mobileDigits_def)
  then show ?thesis using d(1) by (simp add: E164_def)
qed

lemma checked: "checkCountry e = Some p \<Longrightarrow> E164 p \<and> (take 4 p = ''+251'' \<longrightarrow> ET_MOBILE p)"
  by (auto simp: checkCountry_def Let_def mobile_E164 split: if_splits)

lemma canonical:
  assumes "E164 p" "take 4 p = ''+251'' \<longrightarrow> ET_MOBILE p"
  shows "fromDigits p = Some p"
proof (cases "take 4 p = ''+251''")
  case True
  then obtain d where "p = ''+251'' @ d" "mobileDigits d" using assms(2) mobile_prefix by blast
  then show ?thesis using spellings by simp
next
  case False
  obtain ds where ds: "p = CHR ''+'' # ds" "list_all is_digit ds" using E164_parts [OF assms(1)] by blast
  then show ?thesis using False assms(1) no_plus [OF ds(2)] by (simp add: fromDigits_def toE164_def checkCountry_def)
qed

text \<open>
  A phone number has one stored form. A number that is accepted is E.164 with 8 to 15 digits, an Ethiopian one a
  mobile; normalising the stored form, or the form it is displayed in, gives it back; and every way of writing the
  nine digits of an Ethiopian mobile (with or without trunk zero, country code, plus or 00, and with spaces, dashes,
  dots and parentheses anywhere) is stored as the same number.
\<close>

theorem phone_numbers_have_one_form:
  "(normalizePhone s = Some p \<longrightarrow>
      E164 p \<and> (take 4 p = ''+251'' \<longrightarrow> ET_MOBILE p) \<and> normalizePhone p = Some p \<and> normalizePhone (formatPhone p) = Some p)
   \<and> (mobileDigits d \<and> list_all phoneChar s \<and> length s \<le> 32
        \<and> stripSeparators s \<in> {d, ''0'' @ d, ''251'' @ d, ''+251'' @ d, ''00251'' @ d, ''2510'' @ d, ''+2510'' @ d}
      \<longrightarrow> normalizePhone s = Some (''+251'' @ d))"
proof (intro conjI impI)
  assume n: "normalizePhone s = Some p"
  then obtain e where "checkCountry e = Some p" by (auto simp: normalizePhone_def Let_def bind_eq_Some_conv split: if_splits)
  from checked [OF this] show p: "E164 p" and mob: "take 4 p = ''+251'' \<Longrightarrow> ET_MOBILE p" by simp_all
  obtain ds where ds: "p = CHR ''+'' # ds" "list_all is_digit ds" "8 \<le> length ds" "length ds \<le> 15"
    using E164_parts [OF p] by blast
  have strip: "stripSeparators p = p" using ds strip_digits by (simp add: stripSeparators_def)
  have chars: "list_all phoneChar p" using ds digit_not_separator by (auto simp: list_all_iff)
  show "normalizePhone p = Some p"
    using normalize_from_digits [OF chars] ds canonical [OF p] mob strip by simp
  show "normalizePhone (formatPhone p) = Some p"
  proof (cases "ET_MOBILE p")
    case True
    then obtain m where m: "p = ''+251'' @ m" "mobileDigits m" using mobile_prefix by blast
    have md: "list_all is_digit m" "length m = 9" using m(2) mobile_digits by (auto simp: mobileDigits_def)
    let ?f = "formatPhone p"
    have f: "?f = ''+251 '' @ take 3 m @ '' '' @ take 3 (drop 3 m) @ '' '' @ drop 6 m"
      using True m(1) by (simp add: formatPhone_def)
    have parts: "list_all is_digit (take 3 m)" "list_all is_digit (take 3 (drop 3 m))" "list_all is_digit (drop 6 m)"
      using md(1) by (auto simp: list_all_iff dest: in_set_takeD in_set_dropD)
    have "stripSeparators ?f = ''+251'' @ take 3 m @ take 3 (drop 3 m) @ drop 6 m"
      unfolding f by (simp only: strip_append strip_digits [OF parts(1)] strip_digits [OF parts(2)] strip_digits [OF parts(3)])
        (simp add: stripSeparators_def digit_not_separator separator_def is_space_def code_def)
    also have "\<dots> = p" using m(1) append_take_drop_id [of 3 m] append_take_drop_id [of 3 "drop 3 m"] by (simp del: append_take_drop_id)
    finally have "stripSeparators ?f = p" .
    moreover have "list_all phoneChar ?f"
      unfolding f using parts digit_not_separator
      by (auto simp: list_all_iff phoneChar_def separator_def is_space_def code_def)
    moreover have "length ?f \<le> 32" unfolding f using md(2) by simp
    ultimately show ?thesis using normalize_from_digits [of ?f] ds(1) canonical [OF p] mob by simp
  next
    case False
    then show ?thesis using \<open>normalizePhone p = Some p\<close> by (simp add: formatPhone_def)
  qed
next
  assume "mobileDigits d \<and> list_all phoneChar s \<and> length s \<le> 32
      \<and> stripSeparators s \<in> {d, ''0'' @ d, ''251'' @ d, ''+251'' @ d, ''00251'' @ d, ''2510'' @ d, ''+2510'' @ d}"
  then have d: "mobileDigits d" and s: "list_all phoneChar s" "length s \<le> 32"
    and f: "stripSeparators s \<in> {d, ''0'' @ d, ''251'' @ d, ''+251'' @ d, ''00251'' @ d, ''2510'' @ d, ''+2510'' @ d}" by simp_all
  have "stripSeparators s \<noteq> []" using f mobile_digits [OF d] by auto
  then show "normalizePhone s = Some (''+251'' @ d)"
    using normalize_from_digits [OF s] bspec [OF spellings [OF d] f] by simp
qed

theorem phone_numbers_have_one_form_witness:
  "normalizePhone ''(0911) 23-45.67'' = Some ''+251911234567'' \<and> normalizePhone ''+251 911 234 567'' = Some ''+251911234567''"
proof -
  have d: "mobileDigits ''911234567''" by (simp add: mobileDigits_def is_digit_def code_def)
  have "normalizePhone ''(0911) 23-45.67'' = Some (''+251'' @ ''911234567'')"
    using conjunct2 [OF phone_numbers_have_one_form [of "''(0911) 23-45.67''" "[]" "''911234567''"]] d
    by (simp add: phoneChar_def is_digit_def separator_def is_space_def code_def stripSeparators_def)
  moreover from this conjunct1 [OF phone_numbers_have_one_form [of "''(0911) 23-45.67''" "''+251911234567''" d]]
  have "normalizePhone (formatPhone ''+251911234567'') = Some ''+251911234567''" by simp
  ultimately show ?thesis by (simp add: formatPhone_def ET_MOBILE_def mobileDigits_def is_digit_def code_def)
qed

end
