(* ===== verification/Otp.thy ===== *)
theory Otp
  imports Phone Database
begin

text \<open>
  SMS one-time codes (\<open>src/lib/services/phoneOtp.ts\<close>). The HMAC of the crypto library is the argument \<open>hmac\<close>, a
  function of the message (its key is fixed); the random number of a code and what became of the SMS are
  arguments, too. Verification is split where it awaits: the row is read, an attempt is spent, the code is claimed.
  The instants are milliseconds; \<open>createdAt\<close> is given by the database.
\<close>

section \<open>Codes\<close>

datatype OtpPurpose = OTP_LOGIN | OTP_CHANGE_PHONE | OTP_SET_PASSWORD

definition purposeName :: "OtpPurpose \<Rightarrow> string" where
  "purposeName p = (case p of OTP_LOGIN \<Rightarrow> ''LOGIN'' | OTP_CHANGE_PHONE \<Rightarrow> ''CHANGE_PHONE'' | OTP_SET_PASSWORD \<Rightarrow> ''SET_PASSWORD'')"

definition OTP_TTL_SEC :: int where "OTP_TTL_SEC = 5 * 60"
definition OTP_RESEND_COOLDOWN_SEC :: int where "OTP_RESEND_COOLDOWN_SEC = 60"
definition OTP_MAX_PER_HOUR :: nat where "OTP_MAX_PER_HOUR = 5"
definition OTP_MAX_ATTEMPTS :: nat where "OTP_MAX_ATTEMPTS = 5"

record PhoneOtp =
  otp_id :: nat
  otp_phone :: string
  otp_codeHash :: string
  otp_purpose :: OtpPurpose
  otp_attempts :: nat
  otp_expiresAt :: int
  otp_consumedAt :: "int option"
  otp_createdAt :: int

record OtpTable =
  ot_rows :: "PhoneOtp list"
  ot_nextId :: nat

definition generateOtpCode :: "nat \<Rightarrow> string" where
  "generateOtpCode n = map (\<lambda>k. dig (n div 10 ^ k)) [5, 4, 3, 2, 1, 0]"

definition otpText :: "OtpPurpose \<Rightarrow> string \<Rightarrow> string \<Rightarrow> string" where
  "otpText purpose phone k = purposeName purpose @ '':'' @ phone @ '':'' @ k"

definition hashOtp :: "(string \<Rightarrow> string) \<Rightarrow> OtpPurpose \<Rightarrow> string \<Rightarrow> string \<Rightarrow> string" where
  "hashOtp hmac purpose phone k = hmac (otpText purpose phone k)"

definition otpMatches :: "(string \<Rightarrow> string) \<Rightarrow> string \<Rightarrow> OtpPurpose \<Rightarrow> string \<Rightarrow> string \<Rightarrow> bool" where
  "otpMatches hmac storedHash purpose phone k \<longleftrightarrow> storedHash = hashOtp hmac purpose phone k"

section \<open>Requesting a code\<close>

datatype RequestOtpResult = OtpSent string int int | InvalidPhone | SmsUnavailable | SendFailed | Cooldown int | HourlyLimit int

definition recentOtps :: "string \<Rightarrow> int \<Rightarrow> OtpTable \<Rightarrow> int list" where
  "recentOtps phone now t = sort (map otp_createdAt (filter (\<lambda>r. otp_phone r = phone \<and> otp_createdAt r > now - 60 * 60000) (ot_rows t)))"

text \<open>The transaction, serialised per phone: throttled, or the row that was created.\<close>

definition issueOtp :: "(string \<Rightarrow> string) \<Rightarrow> string \<Rightarrow> OtpPurpose \<Rightarrow> string \<Rightarrow> int \<Rightarrow> int \<Rightarrow> OtpTable \<Rightarrow> (RequestOtpResult + nat) \<times> OtpTable" where
  "issueOtp hmac phone purpose k now createdAt t =
     (let recent = recentOtps phone now t in
      if recent \<noteq> [] \<and> now - last recent < OTP_RESEND_COOLDOWN_SEC * 1000
      then (Inl (Cooldown (ceilSeconds (last recent + OTP_RESEND_COOLDOWN_SEC * 1000 - now))), t)
      else if length recent \<ge> OTP_MAX_PER_HOUR
      then (Inl (HourlyLimit (max 1 (ceilSeconds (recent ! (length recent - OTP_MAX_PER_HOUR) + 60 * 60000 - now)))), t)
      else let rows = snd (updateMany (\<lambda>r. otp_phone r = phone \<and> otp_purpose r = purpose \<and> otp_consumedAt r = None)
                 (\<lambda>r. r\<lparr>otp_consumedAt := Some now\<rparr>) (ot_rows t));
               row = \<lparr>otp_id = ot_nextId t, otp_phone = phone, otp_codeHash = hashOtp hmac purpose phone k, otp_purpose = purpose,
                 otp_attempts = 0, otp_expiresAt = now + OTP_TTL_SEC * 1000, otp_consumedAt = None, otp_createdAt = createdAt\<rparr>
           in (Inr (ot_nextId t), \<lparr>ot_rows = rows @ [row], ot_nextId = ot_nextId t + 1\<rparr>))"

text \<open>What happens before the transaction, and after the SMS was handed over.\<close>

definition requestChecks :: "string \<Rightarrow> bool \<Rightarrow> RequestOtpResult + string" where
  "requestChecks rawPhone unavailable =
     (case normalizePhone rawPhone of
        None \<Rightarrow> Inl InvalidPhone
      | Some phone \<Rightarrow> if unavailable then Inl SmsUnavailable else Inr phone)"

definition smsDone :: "string \<Rightarrow> nat \<Rightarrow> bool \<Rightarrow> bool \<Rightarrow> OtpTable \<Rightarrow> RequestOtpResult \<times> OtpTable" where
  "smsDone phone i delivered console t =
     (if \<not> delivered \<and> \<not> console then (SendFailed, t\<lparr>ot_rows := filter (\<lambda>r. otp_id r \<noteq> i) (ot_rows t)\<rparr>)
      else (OtpSent phone OTP_TTL_SEC OTP_RESEND_COOLDOWN_SEC, t))"

definition requestPhoneOtp :: "(string \<Rightarrow> string) \<Rightarrow> string \<Rightarrow> OtpPurpose \<Rightarrow> bool \<Rightarrow> nat \<Rightarrow> int \<Rightarrow> int \<Rightarrow> bool \<Rightarrow> bool \<Rightarrow> OtpTable
    \<Rightarrow> RequestOtpResult \<times> OtpTable" where
  "requestPhoneOtp hmac rawPhone purpose unavailable random now createdAt delivered console t =
     (case requestChecks rawPhone unavailable of
        Inl r \<Rightarrow> (r, t)
      | Inr phone \<Rightarrow>
         (case issueOtp hmac phone purpose (generateOtpCode random) now createdAt t of
            (Inl r, t1) \<Rightarrow> (r, t1)
          | (Inr i, t1) \<Rightarrow> smsDone phone i delivered console t1))"

section \<open>Checking a code\<close>

definition cleanCode :: "string \<Rightarrow> string" where
  "cleanCode k = filter (\<lambda>c. \<not> is_space c) k"

definition otpLive :: "int \<Rightarrow> string \<Rightarrow> OtpPurpose \<Rightarrow> PhoneOtp \<Rightarrow> bool" where
  "otpLive now phone purpose r \<longleftrightarrow> otp_phone r = phone \<and> otp_purpose r = purpose \<and> otp_consumedAt r = None
     \<and> otp_expiresAt r > now \<and> otp_attempts r < OTP_MAX_ATTEMPTS"

text \<open>A check that waits carries the phone, the code, the purpose and the row it read.\<close>

record OtpCheck =
  oc_phone :: string
  oc_code :: string
  oc_purpose :: OtpPurpose
  oc_row :: PhoneOtp

definition verifyRead :: "string \<Rightarrow> string \<Rightarrow> OtpPurpose \<Rightarrow> int \<Rightarrow> OtpTable \<Rightarrow> OtpCheck option" where
  "verifyRead rawPhone rawCode purpose now t =
     (case normalizePhone rawPhone of
        None \<Rightarrow> None
      | Some phone \<Rightarrow>
         (let k = cleanCode rawCode in
          if length k \<noteq> 6 \<or> \<not> list_all is_digit k then None
          else let live = sort_key otp_createdAt (filter (otpLive now phone purpose) (ot_rows t)) in
            if live = [] then None else Some \<lparr>oc_phone = phone, oc_code = k, oc_purpose = purpose, oc_row = last live\<rparr>))"

definition spendAttempt :: "nat \<Rightarrow> OtpTable \<Rightarrow> nat \<times> OtpTable" where
  "spendAttempt i t =
     (let (n, rows) = updateMany (\<lambda>r. otp_id r = i \<and> otp_consumedAt r = None \<and> otp_attempts r < OTP_MAX_ATTEMPTS)
            (\<lambda>r. r\<lparr>otp_attempts := otp_attempts r + 1\<rparr>) (ot_rows t)
      in (n, t\<lparr>ot_rows := rows\<rparr>))"

definition verifySpend :: "(string \<Rightarrow> string) \<Rightarrow> OtpCheck \<Rightarrow> OtpTable \<Rightarrow> bool \<times> OtpTable" where
  "verifySpend hmac c t =
     (let (n, t1) = spendAttempt (otp_id (oc_row c)) t
      in (n \<noteq> 0 \<and> otpMatches hmac (otp_codeHash (oc_row c)) (oc_purpose c) (oc_phone c) (oc_code c), t1))"

definition claimOtp :: "int \<Rightarrow> nat \<Rightarrow> PhoneOtp list \<Rightarrow> nat \<times> PhoneOtp list" where
  "claimOtp now i = updateMany (\<lambda>r. otp_id r = i \<and> otp_consumedAt r = None) (\<lambda>r. r\<lparr>otp_consumedAt := Some now\<rparr>)"

definition verifyClaim :: "int \<Rightarrow> OtpCheck \<Rightarrow> OtpTable \<Rightarrow> string option \<times> OtpTable" where
  "verifyClaim now c t =
     (let (n, rows) = claimOtp now (otp_id (oc_row c)) (ot_rows t)
      in (if n = 0 then None else Some (oc_phone c), t\<lparr>ot_rows := rows\<rparr>))"

text \<open>The whole check, when nothing interrupts it.\<close>

definition verifyPhoneOtp :: "(string \<Rightarrow> string) \<Rightarrow> string \<Rightarrow> string \<Rightarrow> OtpPurpose \<Rightarrow> int \<Rightarrow> OtpTable \<Rightarrow> string option \<times> OtpTable" where
  "verifyPhoneOtp hmac rawPhone rawCode purpose now t =
     (case verifyRead rawPhone rawCode purpose now t of
        None \<Rightarrow> (None, t)
      | Some c \<Rightarrow>
         (case verifySpend hmac c t of
            (False, t1) \<Rightarrow> (None, t1)
          | (True, t1) \<Rightarrow> verifyClaim now c t1))"

text \<open>A job of the worker (\<open>worker/jobs.ts\<close>) removes codes that expired a day ago.\<close>

definition cleanupOtps :: "int \<Rightarrow> OtpTable \<Rightarrow> OtpTable" where
  "cleanupOtps now t = t\<lparr>ot_rows := filter (\<lambda>r. \<not> otp_expiresAt r < now - 86400000) (ot_rows t)\<rparr>"

interpretation otp_claim: claims "claimOtp now" "\<lambda>i rows. \<exists>r\<in>set rows. otp_id r = i \<and> otp_consumedAt r = None"
  unfolding claimOtp_def by (rule updateMany_claims) simp

end
