(* ===== verification/OtpProofs.thy ===== *)
theory OtpProofs
  imports Otp
begin

text \<open>
  One-time codes under any interleaving of requests and checks: the budget of attempts, single use, and the limits
  on how many codes a phone is sent.
\<close>

section \<open>Runs\<close>

text \<open>
  A run carries the checks that wait after reading (\<open>xr_checks\<close>) and after a match (\<open>xr_matched\<close>), and records the
  codes issued (id, phone, purpose, code), the id of every comparison made, and the checks accepted.
\<close>

record OtpRun =
  xr_table :: OtpTable
  xr_checks :: "OtpCheck list"
  xr_matched :: "OtpCheck list"
  xr_issued :: "(nat \<times> string \<times> OtpPurpose \<times> string) list"
  xr_compared :: "nat list"
  xr_accepted :: "OtpCheck list"

inductive otp_step :: "(string \<Rightarrow> string) \<Rightarrow> OtpRun \<Rightarrow> OtpRun \<Rightarrow> bool" for hmac where
  issues: "issueOtp hmac phone purpose k now createdAt (xr_table s) = (Inr i, t) \<Longrightarrow> now \<le> createdAt
    \<Longrightarrow> otp_step hmac s (s\<lparr>xr_table := t, xr_issued := xr_issued s @ [(i, phone, purpose, k)]\<rparr>)"
| sms: "smsDone phone i delivered console (xr_table s) = (r, t) \<Longrightarrow> otp_step hmac s (s\<lparr>xr_table := t\<rparr>)"
| reads: "verifyRead rawPhone rawCode purpose now (xr_table s) = Some c
    \<Longrightarrow> otp_step hmac s (s\<lparr>xr_checks := xr_checks s @ [c]\<rparr>)"
| spends: "xr_checks s = us @ c # vs \<Longrightarrow> verifySpend hmac c (xr_table s) = (ok, t)
    \<Longrightarrow> otp_step hmac s (s\<lparr>xr_table := t, xr_checks := us @ vs, xr_matched := xr_matched s @ (if ok then [c] else []),
          xr_compared := xr_compared s @ (if fst (spendAttempt (otp_id (oc_row c)) (xr_table s)) \<noteq> 0 then [otp_id (oc_row c)] else [])\<rparr>)"
| claims: "xr_matched s = us @ c # vs \<Longrightarrow> verifyClaim now c (xr_table s) = (r, t)
    \<Longrightarrow> otp_step hmac s (s\<lparr>xr_table := t, xr_matched := us @ vs, xr_accepted := xr_accepted s @ (if r \<noteq> None then [c] else [])\<rparr>)"
| cleans: "otp_step hmac s (s\<lparr>xr_table := cleanupOtps now (xr_table s)\<rparr>)"

definition emptyOtpRun :: OtpRun where
  "emptyOtpRun = \<lparr>xr_table = \<lparr>ot_rows = [], ot_nextId = 1\<rparr>, xr_checks = [], xr_matched = [], xr_issued = [], xr_compared = [], xr_accepted = []\<rparr>"

inductive otp_run :: "(string \<Rightarrow> string) \<Rightarrow> OtpRun \<Rightarrow> bool" for hmac where
  starts: "otp_run hmac emptyOtpRun"
| continues: "otp_run hmac s \<Longrightarrow> otp_step hmac s s' \<Longrightarrow> otp_run hmac s'"

section \<open>The budget of a code\<close>

definition row_ok :: "(string \<Rightarrow> string) \<Rightarrow> OtpRun \<Rightarrow> PhoneOtp \<Rightarrow> bool" where
  "row_ok hmac s r \<longleftrightarrow> otp_id r < ot_nextId (xr_table s)
     \<and> (\<exists>k. (otp_id r, otp_phone r, otp_purpose r, k) \<in> set (xr_issued s) \<and> otp_codeHash r = hashOtp hmac (otp_purpose r) (otp_phone r) k)
     \<and> otp_attempts r = count_list (xr_compared s) (otp_id r)
     \<and> (otp_id r \<in> (otp_id \<circ> oc_row) ` set (xr_accepted s) \<longrightarrow> otp_consumedAt r \<noteq> None)"

definition check_ok :: "(string \<Rightarrow> string) \<Rightarrow> OtpRun \<Rightarrow> OtpCheck \<Rightarrow> bool" where
  "check_ok hmac s c \<longleftrightarrow> otp_id (oc_row c) < ot_nextId (xr_table s)
     \<and> (\<exists>k. (otp_id (oc_row c), oc_phone c, oc_purpose c, k) \<in> set (xr_issued s)
        \<and> otp_codeHash (oc_row c) = hashOtp hmac (oc_purpose c) (oc_phone c) k)"

definition matched_ok :: "(string \<Rightarrow> string) \<Rightarrow> OtpRun \<Rightarrow> OtpCheck \<Rightarrow> bool" where
  "matched_ok hmac s c \<longleftrightarrow> check_ok hmac s c \<and> otpMatches hmac (otp_codeHash (oc_row c)) (oc_purpose c) (oc_phone c) (oc_code c)"

definition otp_ok :: "(string \<Rightarrow> string) \<Rightarrow> OtpRun \<Rightarrow> bool" where
  "otp_ok hmac s \<longleftrightarrow> distinct (map otp_id (ot_rows (xr_table s)))
     \<and> (\<forall>r\<in>set (ot_rows (xr_table s)). row_ok hmac s r)
     \<and> (\<forall>i. count_list (xr_compared s) i \<le> OTP_MAX_ATTEMPTS) \<and> (\<forall>i\<in>set (xr_compared s). i < ot_nextId (xr_table s))
     \<and> (\<forall>c\<in>set (xr_checks s). check_ok hmac s c) \<and> (\<forall>c\<in>set (xr_matched s). matched_ok hmac s c)
     \<and> (\<forall>c\<in>set (xr_accepted s). matched_ok hmac s c) \<and> distinct (map (otp_id \<circ> oc_row) (xr_accepted s))"

lemma otp_okI:
  assumes "distinct (map otp_id (ot_rows (xr_table s)))" "\<forall>r\<in>set (ot_rows (xr_table s)). row_ok hmac s r"
    "\<forall>i. count_list (xr_compared s) i \<le> OTP_MAX_ATTEMPTS" "\<forall>i\<in>set (xr_compared s). i < ot_nextId (xr_table s)"
    "\<forall>c\<in>set (xr_checks s). check_ok hmac s c" "\<forall>c\<in>set (xr_matched s). matched_ok hmac s c"
    "\<forall>c\<in>set (xr_accepted s). matched_ok hmac s c" "distinct (map (otp_id \<circ> oc_row) (xr_accepted s))"
  shows "otp_ok hmac s"
  using assms by (simp add: otp_ok_def)

lemma otp_ok_rows:
  assumes "otp_ok hmac s" "ot_nextId t = ot_nextId (xr_table s)" "distinct (map otp_id (ot_rows t))" "\<forall>r\<in>set (ot_rows t). row_ok hmac s r"
  shows "otp_ok hmac (s\<lparr>xr_table := t\<rparr>)"
  using assms by (simp add: otp_ok_def row_ok_def check_ok_def matched_ok_def)

lemma distinct_filter_ids: "distinct (map otp_id rs) \<Longrightarrow> distinct (map otp_id (filter P rs))"
  by (simp add: distinct_map_filter)

text \<open>An update by id keeps the ids; it reaches at most one row.\<close>

lemma ids_update:
  assumes "\<And>r. otp_id (f r) = otp_id r"
  shows "map otp_id (snd (updateMany p f rs)) = map otp_id rs"
  by (induction rs) (auto simp: updateMany_def assms)

lemma otp_ok_issue:
  assumes "otp_ok hmac s" "issueOtp hmac phone purpose k now createdAt (xr_table s) = (Inr i, t)"
  shows "otp_ok hmac (s\<lparr>xr_table := t, xr_issued := xr_issued s @ [(i, phone, purpose, k)]\<rparr>)"
proof -
  let ?t = "xr_table s"
  let ?p = "\<lambda>r. otp_phone r = phone \<and> otp_purpose r = purpose \<and> otp_consumedAt r = None"
  let ?f = "\<lambda>r. r\<lparr>otp_consumedAt := Some now\<rparr>"
  let ?rows = "snd (updateMany ?p ?f (ot_rows ?t))"
  let ?row = "\<lparr>otp_id = ot_nextId ?t, otp_phone = phone, otp_codeHash = hashOtp hmac purpose phone k, otp_purpose = purpose,
    otp_attempts = 0, otp_expiresAt = now + OTP_TTL_SEC * 1000, otp_consumedAt = None, otp_createdAt = createdAt\<rparr>"
  let ?s = "s\<lparr>xr_table := t, xr_issued := xr_issued s @ [(i, phone, purpose, k)]\<rparr>"
  have t: "t = \<lparr>ot_rows = ?rows @ [?row], ot_nextId = ot_nextId ?t + 1\<rparr>" "i = ot_nextId ?t"
    using assms(2) by (auto simp: issueOtp_def Let_def split: if_splits)
  have ok: "row_ok hmac s r" if "r \<in> set (ot_rows ?t)" for r using assms(1) that by (simp add: otp_ok_def)
  have fresh: "ot_nextId ?t \<notin> set (xr_compared s)" "ot_nextId ?t \<notin> (otp_id \<circ> oc_row) ` set (xr_accepted s)"
    using assms(1) by (auto simp: otp_ok_def matched_ok_def check_ok_def)
  have ids: "map otp_id ?rows = map otp_id (ot_rows ?t)" by (rule ids_update) simp
  have "ot_nextId ?t \<notin> set (map otp_id (ot_rows ?t))" using ok by (fastforce simp: row_ok_def)
  then have "distinct (map otp_id (ot_rows t))" using assms(1) unfolding t by (simp add: ids otp_ok_def del: set_map)
  moreover have "row_ok hmac ?s r" if "r \<in> set (ot_rows t)" for r
  proof (cases "r = ?row")
    case True
    then show ?thesis using fresh by (auto simp: row_ok_def t count_list_0_iff)
  next
    case False
    then have "r \<in> set ?rows" using that t by simp
    then obtain r0 where "r0 \<in> set (ot_rows ?t)" "r = (if ?p r0 then ?f r0 else r0)" by (auto simp: updateMany_def)
    then show ?thesis using ok [of r0] by (auto simp: row_ok_def t)
  qed
  ultimately show ?thesis using assms(1) by (fastforce simp: otp_ok_def t check_ok_def matched_ok_def)
qed

lemma otp_ok_read:
  assumes "otp_ok hmac s" "verifyRead rawPhone rawCode purpose now (xr_table s) = Some c"
  shows "otp_ok hmac (s\<lparr>xr_checks := xr_checks s @ [c]\<rparr>)"
proof -
  obtain phone where n: "normalizePhone rawPhone = Some phone" using assms(2) by (auto simp: verifyRead_def split: option.splits)
  let ?live = "sort_key otp_createdAt (filter (otpLive now phone purpose) (ot_rows (xr_table s)))"
  have c: "?live \<noteq> []" "oc_phone c = phone" "oc_purpose c = purpose" "oc_row c = last ?live"
    using assms(2) n by (auto simp: verifyRead_def Let_def split: if_splits)
  have "oc_row c \<in> set ?live" using c last_in_set by metis
  then have r: "oc_row c \<in> set (ot_rows (xr_table s))" "otp_phone (oc_row c) = phone" "otp_purpose (oc_row c) = purpose"
    by (auto simp: otpLive_def)
  have "row_ok hmac s (oc_row c)" using assms(1) r(1) by (simp add: otp_ok_def)
  then have "check_ok hmac s c" using r c by (simp add: check_ok_def row_ok_def)
  then show ?thesis using assms(1) by (auto simp: otp_ok_def row_ok_def check_ok_def matched_ok_def)
qed

lemma one_row:
  assumes "distinct (map otp_id rs)" "r \<in> set rs" "otp_id r = i" "length (filter (\<lambda>r. otp_id r = i \<and> Q r) rs) \<noteq> 0"
  shows "Q r"
proof -
  obtain r' where r': "r' \<in> set rs" "otp_id r' = i" "Q r'" using assms(4) by (auto simp: filter_empty_conv)
  then have "r' = r" using assms(1,2,3) by (auto simp: distinct_map inj_on_def)
  with r'(3) show ?thesis by simp
qed

lemma otp_ok_spend:
  assumes "otp_ok hmac s" "xr_checks s = us @ c # vs" "verifySpend hmac c (xr_table s) = (ok, t)"
  shows "otp_ok hmac (s\<lparr>xr_table := t, xr_checks := us @ vs, xr_matched := xr_matched s @ (if ok then [c] else []),
          xr_compared := xr_compared s @ (if fst (spendAttempt (otp_id (oc_row c)) (xr_table s)) \<noteq> 0 then [otp_id (oc_row c)] else [])\<rparr>)"
    (is "otp_ok hmac ?s")
proof -
  let ?i = "otp_id (oc_row c)" and ?rs = "ot_rows (xr_table s)"
  let ?Q = "\<lambda>r. otp_consumedAt r = None \<and> otp_attempts r < OTP_MAX_ATTEMPTS"
  let ?p = "\<lambda>r. otp_id r = ?i \<and> ?Q r" and ?f = "\<lambda>r. r\<lparr>otp_attempts := otp_attempts r + 1\<rparr>"
  define n where "n = length (filter ?p ?rs)"
  have sp: "spendAttempt ?i (xr_table s) = (n, (xr_table s)\<lparr>ot_rows := map (\<lambda>r. if ?p r then ?f r else r) ?rs\<rparr>)"
    by (simp add: spendAttempt_def updateMany_def n_def)
  have t: "t = (xr_table s)\<lparr>ot_rows := map (\<lambda>r. if ?p r then ?f r else r) ?rs\<rparr>"
    and ok: "ok \<longleftrightarrow> n \<noteq> 0 \<and> otpMatches hmac (otp_codeHash (oc_row c)) (oc_purpose c) (oc_phone c) (oc_code c)"
    using assms(3) by (simp_all add: verifySpend_def sp)
  have d: "distinct (map otp_id ?rs)" and rows: "\<And>r. r \<in> set ?rs \<Longrightarrow> row_ok hmac s r"
    and budget: "\<And>i. count_list (xr_compared s) i \<le> OTP_MAX_ATTEMPTS"
    and "check_ok hmac s c" using assms(1,2) by (auto simp: otp_ok_def)
  have ids: "map otp_id (ot_rows t) = map otp_id ?rs" by (auto simp: t)
  have cmp: "xr_compared ?s = xr_compared s @ (if n \<noteq> 0 then [?i] else [])" by (simp add: sp)
  have room: "count_list (xr_compared s) ?i < OTP_MAX_ATTEMPTS" if n0: "n \<noteq> 0"
  proof -
    obtain r where r: "r \<in> set ?rs" "?p r" using n0 by (auto simp: n_def filter_empty_conv)
    then show ?thesis using rows [OF r(1)] by (simp add: row_ok_def)
  qed
  have old: "check_ok hmac ?s c' = check_ok hmac s c'" "matched_ok hmac ?s c' = matched_ok hmac s c'" for c'
    by (simp_all add: check_ok_def matched_ok_def t)
  have row: "row_ok hmac ?s r" if mem: "r \<in> set (ot_rows t)" for r
  proof -
    obtain r0 where r0: "r0 \<in> set ?rs" "r = (if ?p r0 then ?f r0 else r0)" using mem t by auto
    have "?Q r0" if "otp_id r0 = ?i" "n \<noteq> 0" using one_row [OF d r0(1) that(1), of ?Q] that(2) by (simp add: n_def)
    moreover have "n \<noteq> 0" if "?p r0" using r0(1) that by (auto simp: n_def filter_empty_conv)
    ultimately have hit: "?p r0 \<longleftrightarrow> otp_id r0 = ?i \<and> n \<noteq> 0" by blast
    show ?thesis
    proof (cases "?p r0")
      case True
      then have "r = ?f r0" "n \<noteq> 0" "otp_id r0 = ?i" using r0(2) hit by auto
      then show ?thesis using rows [OF r0(1)] unfolding row_ok_def cmp by (simp add: t)
    next
      case False
      then have "r = r0" using r0(2) by auto
      moreover have "count_list (xr_compared ?s) (otp_id r0) = count_list (xr_compared s) (otp_id r0)"
        using False hit unfolding cmp by (cases "n = 0") auto
      ultimately show ?thesis using rows [OF r0(1)] unfolding row_ok_def by (simp add: t)
    qed
  qed
  have cok: "otp_ok hmac s" "check_ok hmac s c" by fact+
  show ?thesis
  proof (rule otp_okI)
    show "distinct (map otp_id (ot_rows (xr_table ?s)))" using d ids by simp
    show "\<forall>r\<in>set (ot_rows (xr_table ?s)). row_ok hmac ?s r" using row by simp
    show "\<forall>i. count_list (xr_compared ?s) i \<le> OTP_MAX_ATTEMPTS" using budget room unfolding cmp by (auto simp: Suc_le_eq)
    show "\<forall>i\<in>set (xr_compared ?s). i < ot_nextId (xr_table ?s)" using cok unfolding cmp by (auto simp: t otp_ok_def check_ok_def)
    show "\<forall>c\<in>set (xr_checks ?s). check_ok hmac ?s c" using cok(1) assms(2) unfolding old by (simp add: otp_ok_def)
    show "\<forall>c\<in>set (xr_matched ?s). matched_ok hmac ?s c" using cok ok unfolding old by (auto simp: otp_ok_def matched_ok_def)
    show "\<forall>c\<in>set (xr_accepted ?s). matched_ok hmac ?s c" using cok(1) unfolding old by (simp add: otp_ok_def)
    show "distinct (map (otp_id \<circ> oc_row) (xr_accepted ?s))" using cok(1) by (simp add: otp_ok_def)
  qed
qed

lemma otp_ok_claim:
  assumes "otp_ok hmac s" "xr_matched s = us @ c # vs" "verifyClaim now c (xr_table s) = (r, t)"
  shows "otp_ok hmac (s\<lparr>xr_table := t, xr_matched := us @ vs, xr_accepted := xr_accepted s @ (if r \<noteq> None then [c] else [])\<rparr>)"
    (is "otp_ok hmac ?s")
proof -
  let ?i = "otp_id (oc_row c)" and ?rs = "ot_rows (xr_table s)"
  let ?p = "\<lambda>r. otp_id r = ?i \<and> otp_consumedAt r = None" and ?f = "\<lambda>r. r\<lparr>otp_consumedAt := Some now\<rparr>"
  have t: "t = (xr_table s)\<lparr>ot_rows := map (\<lambda>r. if ?p r then ?f r else r) ?rs\<rparr>"
    and r: "r \<noteq> None \<longleftrightarrow> (\<exists>x\<in>set ?rs. ?p x)"
    using assms(3) by (auto simp: verifyClaim_def claimOtp_def updateMany_def filter_empty_conv split: if_splits)
  have d: "distinct (map otp_id ?rs)" and rows: "\<And>r. r \<in> set ?rs \<Longrightarrow> row_ok hmac s r"
    and c: "matched_ok hmac s c" using assms(1,2) by (auto simp: otp_ok_def)
  have ids: "map otp_id (ot_rows t) = map otp_id ?rs" by (auto simp: t)
  have new: "?i \<notin> (otp_id \<circ> oc_row) ` set (xr_accepted s)" if acc: "r \<noteq> None"
  proof
    obtain x where x: "x \<in> set ?rs" "?p x" using acc r by auto
    assume "?i \<in> (otp_id \<circ> oc_row) ` set (xr_accepted s)"
    then have "otp_id x \<in> (otp_id \<circ> oc_row) ` set (xr_accepted s)" using x(2) by metis
    then have "otp_consumedAt x \<noteq> None" using rows [OF x(1)] unfolding row_ok_def by blast
    with x(2) show False by simp
  qed
  have old: "check_ok hmac ?s c' = check_ok hmac s c'" "matched_ok hmac ?s c' = matched_ok hmac s c'" for c'
    by (simp_all add: check_ok_def matched_ok_def t)
  have row: "row_ok hmac ?s x" if mem: "x \<in> set (ot_rows t)" for x
  proof -
    obtain x0 where x0: "x0 \<in> set ?rs" "x = (if ?p x0 then ?f x0 else x0)" using mem t by auto
    have "otp_consumedAt x \<noteq> None" if "otp_id x = ?i" using that x0(2) by (auto split: if_splits)
    moreover have "otp_id x = otp_id x0" "otp_attempts x = otp_attempts x0" "otp_phone x = otp_phone x0" "otp_purpose x = otp_purpose x0"
      "otp_codeHash x = otp_codeHash x0" "otp_consumedAt x0 \<noteq> None \<Longrightarrow> otp_consumedAt x \<noteq> None" using x0(2) by auto
    ultimately show ?thesis using rows [OF x0(1)] by (auto simp: row_ok_def t)
  qed
  show ?thesis
  proof (rule otp_okI)
    show "distinct (map otp_id (ot_rows (xr_table ?s)))" using d ids by simp
    show "\<forall>r\<in>set (ot_rows (xr_table ?s)). row_ok hmac ?s r" using row by simp
    show "\<forall>i. count_list (xr_compared ?s) i \<le> OTP_MAX_ATTEMPTS" using assms(1) by (simp add: otp_ok_def)
    show "\<forall>i\<in>set (xr_compared ?s). i < ot_nextId (xr_table ?s)" using assms(1) by (simp add: t otp_ok_def)
    show "\<forall>c\<in>set (xr_checks ?s). check_ok hmac ?s c" using assms(1) unfolding old by (simp add: otp_ok_def)
    show "\<forall>c\<in>set (xr_matched ?s). matched_ok hmac ?s c" using assms(1,2) unfolding old by (simp add: otp_ok_def)
    show "\<forall>c\<in>set (xr_accepted ?s). matched_ok hmac ?s c" using assms(1) c unfolding old by (auto simp: otp_ok_def)
    show "distinct (map (otp_id \<circ> oc_row) (xr_accepted ?s))" using assms(1) new by (auto simp: otp_ok_def)
  qed
qed

lemma otp_run_ok: "otp_run hmac s \<Longrightarrow> otp_ok hmac s"
proof (induction rule: otp_run.induct)
  case starts
  show ?case by (simp add: otp_ok_def emptyOtpRun_def)
next
  case (continues s s')
  from continues.hyps(2) continues.IH show ?case
  proof cases
    case (sms phone i delivered console r t)
    have "otp_ok hmac (s\<lparr>xr_table := t\<rparr>)"
    proof (rule otp_ok_rows [OF continues.IH])
      show "ot_nextId t = ot_nextId (xr_table s)" using sms(2) by (auto simp: smsDone_def split: if_splits)
      show "distinct (map otp_id (ot_rows t))"
        using sms(2) continues.IH by (auto simp: smsDone_def distinct_filter_ids otp_ok_def split: if_splits)
      show "\<forall>r\<in>set (ot_rows t). row_ok hmac s r"
        using sms(2) continues.IH by (auto simp: smsDone_def otp_ok_def split: if_splits)
    qed
    then show ?thesis using sms(1) by simp
  next
    case (cleans now)
    then show ?thesis using otp_ok_rows [OF continues.IH, of "cleanupOtps now (xr_table s)"] continues.IH
      by (simp add: cleanupOtps_def otp_ok_def distinct_filter_ids)
  next
    case (issues phone purpose k now createdAt i t)
    show ?thesis unfolding issues(1) by (rule otp_ok_issue [OF continues.IH issues(2)])
  next
    case (reads rawPhone rawCode purpose now c)
    show ?thesis unfolding reads(1) by (rule otp_ok_read [OF continues.IH reads(2)])
  next
    case (spends us c vs ok t)
    show ?thesis unfolding spends(1) by (rule otp_ok_spend [OF continues.IH spends(2,3)])
  next
    case (claims us c vs now r t)
    show ?thesis unfolding claims(1) by (rule otp_ok_claim [OF continues.IH claims(2,3)])
  qed
qed

section \<open>Properties\<close>

text \<open>
  C36: However requests, deliveries, checks and the cleaning job interleave, a code is compared with at most five
  guesses, it is accepted at most once, and an accepted check was made with the very code that was issued for that
  row, by the same phone and for the same purpose. The HMAC is assumed to have no collision.
\<close>

theorem otp_attempts_are_bounded:
  assumes "otp_run hmac s" "inj hmac"
  shows "(\<forall>i. count_list (xr_compared s) i \<le> 5) \<and> distinct (map (otp_id \<circ> oc_row) (xr_accepted s))
    \<and> (\<forall>c\<in>set (xr_accepted s). (otp_id (oc_row c), oc_phone c, oc_purpose c, oc_code c) \<in> set (xr_issued s))"
proof (intro conjI ballI)
  note ok = otp_run_ok [OF assms(1)]
  show "\<forall>i. count_list (xr_compared s) i \<le> 5" "distinct (map (otp_id \<circ> oc_row) (xr_accepted s))"
    using ok by (simp_all add: otp_ok_def OTP_MAX_ATTEMPTS_def)
  fix c assume "c \<in> set (xr_accepted s)"
  then have "matched_ok hmac s c" using ok by (simp add: otp_ok_def)
  then obtain k where "(otp_id (oc_row c), oc_phone c, oc_purpose c, k) \<in> set (xr_issued s)"
    "hashOtp hmac (oc_purpose c) (oc_phone c) k = hashOtp hmac (oc_purpose c) (oc_phone c) (oc_code c)"
    by (auto simp: matched_ok_def check_ok_def otpMatches_def)
  then show "(otp_id (oc_row c), oc_phone c, oc_purpose c, oc_code c) \<in> set (xr_issued s)"
    using assms(2) by (auto simp: hashOtp_def otpText_def dest: injD)
qed

text \<open>A code that is asked for, checked and accepted.\<close>

definition sampleRow :: "nat \<Rightarrow> int option \<Rightarrow> PhoneOtp" where
  "sampleRow n consumed = \<lparr>otp_id = 1, otp_phone = ''+251911000000'', otp_codeHash = ''LOGIN:+251911000000:123456'', otp_purpose = OTP_LOGIN,
     otp_attempts = n, otp_expiresAt = 300000, otp_consumedAt = consumed, otp_createdAt = 0\<rparr>"

definition sampleCheck :: OtpCheck where
  "sampleCheck = \<lparr>oc_phone = ''+251911000000'', oc_code = ''123456'', oc_purpose = OTP_LOGIN, oc_row = sampleRow 0 None\<rparr>"

definition sampleTable :: "nat \<Rightarrow> int option \<Rightarrow> OtpTable" where
  "sampleTable n consumed = \<lparr>ot_rows = [sampleRow n consumed], ot_nextId = 2\<rparr>"

definition sampleOtpRun :: "OtpTable \<Rightarrow> OtpCheck list \<Rightarrow> OtpCheck list \<Rightarrow> nat list \<Rightarrow> OtpCheck list \<Rightarrow> OtpRun" where
  "sampleOtpRun t checks matched compared accepted = \<lparr>xr_table = t, xr_checks = checks, xr_matched = matched,
     xr_issued = [(1, ''+251911000000'', OTP_LOGIN, ''123456'')], xr_compared = compared, xr_accepted = accepted\<rparr>"

lemmas otp_sample_defs = sampleTable_def sampleRow_def sampleCheck_def updateMany_def Let_def

lemma otp_sample_issue: "issueOtp id ''+251911000000'' OTP_LOGIN ''123456'' 0 0 (xr_table emptyOtpRun) = (Inr 1, sampleTable 0 None)"
  by (simp add: issueOtp_def recentOtps_def emptyOtpRun_def hashOtp_def otpText_def purposeName_def OTP_TTL_SEC_def
      OTP_MAX_PER_HOUR_def otp_sample_defs)

lemma otp_sample_live: "filter (otpLive 1000 ''+251911000000'' OTP_LOGIN) (ot_rows (sampleTable 0 None)) = [sampleRow 0 None]"
  by (simp add: otpLive_def OTP_MAX_ATTEMPTS_def otp_sample_defs)

lemma otp_sample_phone: "normalizePhone ''0911000000'' = Some ''+251911000000''"
  by (simp add: normalize_from_digits phoneChar_def is_digit_def separator_def is_space_def code_def stripSeparators_def fromDigits_def
      checkCountry_def E164_def toE164_def ET_MOBILE_def mobileDigits_def)

lemma otp_sample_code: "cleanCode ''123 456'' = ''123456''" "list_all is_digit ''123456''"
  by (simp_all add: cleanCode_def is_space_def is_digit_def code_def)

lemma otp_sample_read: "verifyRead ''0911000000'' ''123 456'' OTP_LOGIN 1000 (sampleTable 0 None) = Some sampleCheck"
proof -
  have live: "(let live = sort_key otp_createdAt [sampleRow 0 None] in if live = [] then None
      else Some \<lparr>oc_phone = p, oc_code = k, oc_purpose = OTP_LOGIN, oc_row = last live\<rparr>)
    = Some \<lparr>oc_phone = p, oc_code = k, oc_purpose = OTP_LOGIN, oc_row = sampleRow 0 None\<rparr>" for p k by simp
  show ?thesis unfolding verifyRead_def otp_sample_phone option.case otp_sample_code(1) Let_def [of "''123456''"] otp_sample_live live
    using otp_sample_code(2) by (simp add: sampleCheck_def)
qed

lemma otp_sample_spend: "verifySpend id sampleCheck (sampleTable 0 None) = (True, sampleTable 1 None)"
  "fst (spendAttempt (otp_id (oc_row sampleCheck)) (sampleTable 0 None)) = 1"
  by (simp_all add: verifySpend_def spendAttempt_def otpMatches_def hashOtp_def otpText_def purposeName_def OTP_MAX_ATTEMPTS_def otp_sample_defs)

lemma otp_sample_claim: "verifyClaim 1000 sampleCheck (sampleTable 1 None) = (Some ''+251911000000'', sampleTable 1 (Some 1000))"
  by (simp add: verifyClaim_def claimOtp_def otp_sample_defs)

lemma otp_sample_run: "otp_run id (sampleOtpRun (sampleTable 1 (Some 1000)) [] [] [1] [sampleCheck])"
proof -
  have "otp_run id (sampleOtpRun (sampleTable 0 None) [] [] [] [])"
    using continues [OF starts issues [OF otp_sample_issue]] by (simp add: emptyOtpRun_def sampleOtpRun_def)
  from continues [OF this reads [of "''0911000000''" "''123 456''" OTP_LOGIN 1000 _ sampleCheck]] otp_sample_read
  have "otp_run id (sampleOtpRun (sampleTable 0 None) [sampleCheck] [] [] [])" by (simp add: sampleOtpRun_def)
  from continues [OF this spends [of _ "[]" sampleCheck "[]" id True "sampleTable 1 None"]] otp_sample_spend
  have "otp_run id (sampleOtpRun (sampleTable 1 None) [] [sampleCheck] [1] [])"
    by (simp add: sampleOtpRun_def sampleCheck_def sampleRow_def)
  from continues [OF this claims [of _ "[]" sampleCheck "[]" 1000 "Some ''+251911000000''" "sampleTable 1 (Some 1000)"]] otp_sample_claim
  show ?thesis by (simp add: sampleOtpRun_def)
qed

theorem otp_attempts_are_bounded_witness:
  "(1, ''+251911000000'', OTP_LOGIN, ''123456'') \<in> set (xr_issued (sampleOtpRun (sampleTable 1 (Some 1000)) [] [] [1] [sampleCheck]))"
  using otp_attempts_are_bounded [OF otp_sample_run inj_on_id] by (simp add: sampleOtpRun_def sampleCheck_def sampleRow_def)

section \<open>How many codes a phone is sent\<close>

definition sentTo :: "string \<Rightarrow> OtpTable \<Rightarrow> int list" where
  "sentTo phone t = map otp_createdAt (filter (\<lambda>r. otp_phone r = phone) (ot_rows t))"

definition rates_ok :: "OtpTable \<Rightarrow> bool" where
  "rates_ok t \<longleftrightarrow> (\<forall>phone. sorted_wrt (\<lambda>a b. a + 60000 \<le> b) (sentTo phone t)
     \<and> (\<forall>w. length (filter (\<lambda>m. w \<le> m \<and> m < w + 3600000) (sentTo phone t)) \<le> 5))"

lemma length_filter_mono: "(\<And>x. Q x \<Longrightarrow> R x) \<Longrightarrow> length (filter Q xs) \<le> length (filter R xs)"
  by (induction xs) (auto intro: le_SucI)

lemma sorted_le_last: "sorted xs \<Longrightarrow> (m::int) \<in> set xs \<Longrightarrow> m \<le> last xs"
  by (induction xs) auto

lemma rates_ok_filter:
  assumes "rates_ok t"
  shows "rates_ok (t\<lparr>ot_rows := filter p (ot_rows t)\<rparr>)"
proof -
  have sent: "sentTo phone (t\<lparr>ot_rows := filter p (ot_rows t)\<rparr>) = map otp_createdAt (filter p (filter (\<lambda>r. otp_phone r = phone) (ot_rows t)))" for phone
    by (simp add: sentTo_def conj_commute)
  have fewer: "length (filter Q (map otp_createdAt (filter p xs))) \<le> length (filter Q (map otp_createdAt xs))" for Q xs
    by (induction xs) auto
  have gaps: "sorted_wrt R (map otp_createdAt (filter p xs))" if "sorted_wrt R (map otp_createdAt xs)" for R xs
    using that by (induction xs) auto
  show ?thesis unfolding rates_ok_def sent
  proof (intro allI conjI)
    fix phone and w :: int
    show "sorted_wrt (\<lambda>a b. a + 60000 \<le> b) (map otp_createdAt (filter p (filter (\<lambda>r. otp_phone r = phone) (ot_rows t))))"
      by (rule gaps) (use assms in \<open>simp add: rates_ok_def sentTo_def\<close>)
    show "length (filter (\<lambda>m. w \<le> m \<and> m < w + 3600000) (map otp_createdAt (filter p (filter (\<lambda>r. otp_phone r = phone) (ot_rows t))))) \<le> 5"
      by (rule order_trans [OF fewer]) (use assms in \<open>simp add: rates_ok_def sentTo_def del: filter_map\<close>)
  qed
qed

lemma rates_ok_issue:
  assumes "rates_ok t" "issueOtp hmac phone purpose k now createdAt t = (Inr i, t')" "now \<le> createdAt"
  shows "rates_ok t'"
proof -
  let ?recent = "recentOtps phone now t"
  have pass: "?recent = [] \<or> last ?recent + 60000 \<le> now" "length ?recent < 5"
    and rows: "ot_rows t' = snd (updateMany (\<lambda>r. otp_phone r = phone \<and> otp_purpose r = purpose \<and> otp_consumedAt r = None)
                 (\<lambda>r. r\<lparr>otp_consumedAt := Some now\<rparr>) (ot_rows t)) @ [\<lparr>otp_id = ot_nextId t, otp_phone = phone,
                 otp_codeHash = hashOtp hmac purpose phone k, otp_purpose = purpose, otp_attempts = 0,
                 otp_expiresAt = now + OTP_TTL_SEC * 1000, otp_consumedAt = None, otp_createdAt = createdAt\<rparr>]"
    using assms(2) by (auto simp: issueOtp_def Let_def OTP_RESEND_COOLDOWN_SEC_def OTP_MAX_PER_HOUR_def split: if_splits)
  have keep: "map otp_createdAt (filter (\<lambda>r. otp_phone r = q) (snd (updateMany p (\<lambda>r. r\<lparr>otp_consumedAt := Some now\<rparr>) rs)))
      = map otp_createdAt (filter (\<lambda>r. otp_phone r = q) rs)" for p q rs
    by (induction rs) (auto simp: updateMany_def)
  have sent: "sentTo q t' = sentTo q t @ (if q = phone then [createdAt] else [])" for q
    by (simp add: sentTo_def rows keep)
  have recent: "?recent = sort (filter (\<lambda>m. now - 3600000 < m) (sentTo phone t))"
    by (simp add: recentOtps_def sentTo_def filter_map comp_def conj_commute)
  have gap: "m + 60000 \<le> createdAt" if "m \<in> set (sentTo phone t)" for m
  proof (cases "now - 3600000 < m")
    case True
    then have "m \<in> set ?recent" using that by (simp add: recent)
    then have "m \<le> last ?recent" using sorted_le_last [of ?recent m] by (simp add: recent)
    then show ?thesis using pass(1) \<open>m \<in> set ?recent\<close> assms(3) by auto
  qed (use assms(3) in auto)
  have full: "length (filter (\<lambda>m. w \<le> m \<and> m < w + 3600000) (sentTo phone t)) < 5" if "w \<le> createdAt" "createdAt < w + 3600000" for w
  proof -
    have "length (filter (\<lambda>m. w \<le> m \<and> m < w + 3600000) (sentTo phone t)) \<le> length (filter (\<lambda>m. now - 3600000 < m) (sentTo phone t))"
      by (rule length_filter_mono) (use that assms(3) in auto)
    then show ?thesis using pass(2) by (simp add: recent)
  qed
  show ?thesis using assms(1) gap full unfolding rates_ok_def sent
    by (auto simp: sorted_wrt_append Suc_le_eq)
qed

lemma rates_ok_same:
  assumes "ot_rows t' = snd (updateMany p f (ot_rows t))" "\<And>r. otp_phone (f r) = otp_phone r \<and> otp_createdAt (f r) = otp_createdAt r"
  shows "rates_ok t' = rates_ok t"
proof -
  have "map otp_createdAt (filter (\<lambda>r. otp_phone r = q) (snd (updateMany p f rs))) = map otp_createdAt (filter (\<lambda>r. otp_phone r = q) rs)" for q rs
    by (induction rs) (auto simp: updateMany_def assms(2))
  then show ?thesis by (simp add: rates_ok_def sentTo_def assms(1))
qed

text \<open>
  Whatever is requested, checked and cleaned, the codes on record for one phone, over all purposes, were sent at
  least a minute apart, and no hour has more than five of them.
\<close>

theorem otp_rates_hold:
  assumes "otp_run hmac s"
  shows "sorted_wrt (\<lambda>a b. a + 60000 \<le> b) (sentTo phone (xr_table s))
    \<and> length (filter (\<lambda>m. w \<le> m \<and> m < w + 3600000) (sentTo phone (xr_table s))) \<le> 5"
proof -
  have "rates_ok (xr_table s)" using assms
  proof (induction rule: otp_run.induct)
    case starts
    show ?case by (simp add: rates_ok_def sentTo_def emptyOtpRun_def)
  next
    case (continues s s')
    from continues.hyps(2) show ?case
    proof cases
      case (issues phone purpose k now createdAt i t)
      then show ?thesis using rates_ok_issue [OF continues.IH] by simp
    next
      case (sms phone i delivered console r t)
      then show ?thesis using continues.IH rates_ok_filter [OF continues.IH, of "\<lambda>r. otp_id r \<noteq> i"]
        by (auto simp: smsDone_def split: if_splits)
    next
      case (spends us c vs ok t)
      have "ot_rows t = snd (updateMany (\<lambda>r. otp_id r = otp_id (oc_row c) \<and> otp_consumedAt r = None \<and> otp_attempts r < OTP_MAX_ATTEMPTS)
          (\<lambda>r. r\<lparr>otp_attempts := otp_attempts r + 1\<rparr>) (ot_rows (xr_table s)))"
        using spends(3) by (auto simp: verifySpend_def spendAttempt_def updateMany_def)
      from rates_ok_same [OF this] show ?thesis using spends(1) continues.IH by simp
    next
      case (claims us c vs now r t)
      have "ot_rows t = snd (updateMany (\<lambda>r. otp_id r = otp_id (oc_row c) \<and> otp_consumedAt r = None)
          (\<lambda>r. r\<lparr>otp_consumedAt := Some now\<rparr>) (ot_rows (xr_table s)))"
        using claims(3) by (auto simp: verifyClaim_def claimOtp_def updateMany_def split: if_splits)
      from rates_ok_same [OF this] show ?thesis using claims(1) continues.IH by simp
    next
      case (cleans now)
      then show ?thesis using rates_ok_filter [OF continues.IH] by (simp add: cleanupOtps_def)
    qed (use continues.IH in simp)
  qed
  then show ?thesis by (simp add: rates_ok_def)
qed

theorem otp_rates_hold_witness:
  "length (filter (\<lambda>m. 0 \<le> m \<and> m < 3600000)
     (sentTo ''+251911000000'' (xr_table (sampleOtpRun (sampleTable 1 (Some 1000)) [] [] [1] [sampleCheck])))) \<le> 5"
  using otp_rates_hold [OF otp_sample_run, of "''+251911000000''" 0] by simp

end
