(* ===== verification/RateLimit.thy ===== *)
theory RateLimit
  imports JsString JsNumber "HOL-Library.AList"
begin

text \<open>
  The fixed-window rate limiter and the client address it counts by (\<open>src/lib/auth/rateLimit.ts\<close>). Instants are
  milliseconds. What the Lua script of a Redis server answers is an argument (\<open>None\<close>: no server, or the call
  failed); otherwise the counters are the process's own map, an association list in insertion order.
\<close>

section \<open>The limiter\<close>

record Entry =
  re_count :: int
  re_resetAt :: int

type_synonym Memory = "(string \<times> Entry) list"

record RateResult =
  rr_allowed :: bool
  rr_remaining :: int
  rr_retryAfterSec :: int

definition redisResult :: "int \<Rightarrow> int \<times> int \<Rightarrow> RateResult" where
  "redisResult limit a = \<lparr>rr_allowed = fst a \<le> limit, rr_remaining = max 0 (limit - fst a), rr_retryAfterSec = max 1 (snd a)\<rparr>"

text \<open>Expired entries are swept when the map has grown beyond fifty thousand.\<close>

definition sweepExpired :: "int \<Rightarrow> Memory \<Rightarrow> Memory" where
  "sweepExpired now m = (if length m > 50000 then filter (\<lambda>(k, v). \<not> re_resetAt v \<le> now) m else m)"

definition newWindow :: "string \<Rightarrow> int \<Rightarrow> int \<Rightarrow> Memory \<Rightarrow> Memory" where
  "newWindow key windowSec now m = sweepExpired now (AList.update key \<lparr>re_count = 1, re_resetAt = now + windowSec * 1000\<rparr> m)"

definition rateLimitMemory :: "string \<Rightarrow> int \<Rightarrow> int \<Rightarrow> int \<Rightarrow> Memory \<Rightarrow> RateResult \<times> Memory" where
  "rateLimitMemory key limit windowSec now m =
     (let fresh = (\<lparr>rr_allowed = True, rr_remaining = limit - 1, rr_retryAfterSec = windowSec\<rparr>, newWindow key windowSec now m) in
      case map_of m key of
        None \<Rightarrow> fresh
      | Some entry \<Rightarrow>
          if re_resetAt entry \<le> now then fresh
          else let count = re_count entry + 1 in
            (\<lparr>rr_allowed = count \<le> limit, rr_remaining = max 0 (limit - count), rr_retryAfterSec = max 1 (ceilSeconds (re_resetAt entry - now))\<rparr>,
             AList.update key (entry\<lparr>re_count := count\<rparr>) m))"

definition rateLimit :: "(int \<times> int) option \<Rightarrow> string \<Rightarrow> int \<Rightarrow> int \<Rightarrow> int \<Rightarrow> Memory \<Rightarrow> RateResult \<times> Memory" where
  "rateLimit answer key limit windowSec now m =
     (case answer of Some a \<Rightarrow> (redisResult limit a, m) | None \<Rightarrow> rateLimitMemory key limit windowSec now m)"

section \<open>The address of the client\<close>

text \<open>\<open>Math.max(1, Math.floor(Number(hops)) || 1)\<close>; \<open>None\<close> is infinity.\<close>

fun hopsOf :: "number \<Rightarrow> int option" where
  "hopsOf (Fin r) = Some (max 1 \<lfloor>r\<rfloor>)"
| "hopsOf PInf = None"
| "hopsOf NInf = Some 1"
| "hopsOf NaN = Some 1"

definition forwardedIp :: "number \<Rightarrow> string \<Rightarrow> string" where
  "forwardedIp hops value =
     (let chain = filter (\<lambda>s. s \<noteq> []) (map trim (splitAt (CHR '','') value));
          first = (case chain of [] \<Rightarrow> ''unknown'' | c # cs \<Rightarrow> c)
      in case hopsOf hops of
           None \<Rightarrow> first
         | Some h \<Rightarrow> if h \<le> int (length chain) then chain ! nat (int (length chain) - h) else first)"

text \<open>\<open>headers\<close> reads a request header, \<open>env\<close> a variable of the environment, \<open>toNumber\<close> is \<open>Number\<close> on strings.\<close>

definition clientIpFromHeaders :: "(string \<Rightarrow> string option) \<Rightarrow> (string \<Rightarrow> string option) \<Rightarrow> (string option \<Rightarrow> number) \<Rightarrow> string" where
  "clientIpFromHeaders headers env toNumber =
     (let header = toLowerCase (trim (case env ''CLIENT_IP_HEADER'' of Some h \<Rightarrow> if h = [] then ''x-forwarded-for'' else h | None \<Rightarrow> ''x-forwarded-for'')) in
      if header = ''x-forwarded-for''
      then forwardedIp (toNumber (env ''TRUSTED_PROXY_HOPS'')) (case headers ''x-forwarded-for'' of Some v \<Rightarrow> v | None \<Rightarrow> [])
      else (case headers header of Some v \<Rightarrow> if trim v = [] then ''unknown'' else trim v | None \<Rightarrow> ''unknown''))"

definition nullIfUnknown :: "string \<Rightarrow> string option" where
  "nullIfUnknown ip = (if ip = ''unknown'' then None else Some ip)"

section \<open>Limits hold in every window\<close>

text \<open>A caller sees the map through its own key only; a sweep removes nothing that still counts.\<close>

lemma filter_entry:
  "distinct (map fst m) \<Longrightarrow>
     map_of (filter (\<lambda>(k, v). P v) m) key = (case map_of m key of Some v \<Rightarrow> if P v then Some v else None | None \<Rightarrow> None)"
proof (induction m)
  case (Cons x m)
  have "key \<notin> fst ` set m \<Longrightarrow> map_of (filter (\<lambda>(k, v). P v) m) key = None" by (auto simp: map_of_eq_None_iff)
  then show ?case using Cons by (cases x) (auto split: option.splits)
qed simp

lemma distinct_sweep: "distinct (map fst m) \<Longrightarrow> distinct (map fst (sweepExpired now m))"
  by (simp add: sweepExpired_def distinct_map_filter)

definition live :: "int \<Rightarrow> string \<Rightarrow> Memory \<Rightarrow> Entry option" where
  "live now key m = (case map_of m key of Some e \<Rightarrow> if re_resetAt e \<le> now then None else Some e | None \<Rightarrow> None)"

lemma live_sweep:
  assumes "distinct (map fst m)" "now \<le> now'"
  shows "live now' key (sweepExpired now m) = live now' key m"
  using assms(2) by (auto simp: live_def sweepExpired_def filter_entry [OF assms(1), of "\<lambda>v. \<not> re_resetAt v \<le> now"] split: option.splits)

lemma live_later: "now \<le> now' \<Longrightarrow> live now key m = None \<Longrightarrow> live now' key m = None"
  by (auto simp: live_def split: option.splits if_splits)

lemma rateLimitMemory_live:
  "rateLimitMemory key limit windowSec now m =
     (case live now key m of
        None \<Rightarrow> (\<lparr>rr_allowed = True, rr_remaining = limit - 1, rr_retryAfterSec = windowSec\<rparr>, newWindow key windowSec now m)
      | Some e \<Rightarrow> (\<lparr>rr_allowed = re_count e + 1 \<le> limit, rr_remaining = max 0 (limit - (re_count e + 1)),
                    rr_retryAfterSec = max 1 (ceilSeconds (re_resetAt e - now))\<rparr>,
                  AList.update key (e\<lparr>re_count := re_count e + 1\<rparr>) m))"
  by (simp add: rateLimitMemory_def live_def Let_def split: option.split)

record Call =
  ca_key :: string
  ca_limit :: int
  ca_window :: int
  ca_now :: int

definition callLimit :: "Call \<Rightarrow> Memory \<Rightarrow> RateResult \<times> Memory" where
  "callLimit c m = rateLimitMemory (ca_key c) (ca_limit c) (ca_window c) (ca_now c) m"

text \<open>The instants at which calls for a key were allowed, in a run of calls for any keys.\<close>

fun allowedAt :: "string \<Rightarrow> Call list \<Rightarrow> Memory \<Rightarrow> int list" where
  "allowedAt key [] m = []"
| "allowedAt key (c # cs) m =
     (let (r, m') = callLimit c m
      in (if ca_key c = key \<and> rr_allowed r then [ca_now c] else []) @ allowedAt key cs m')"

lemma callLimit_distinct: "distinct (map fst m) \<Longrightarrow> distinct (map fst (snd (callLimit c m)))"
  by (auto simp: callLimit_def rateLimitMemory_live newWindow_def distinct_sweep distinct_update split: option.split)

lemma callLimit_other:
  assumes "distinct (map fst m)" "ca_key c \<noteq> key" "ca_now c \<le> t"
  shows "live t key (snd (callLimit c m)) = live t key m"
proof -
  have upd: "live t key (AList.update (ca_key c) e m) = live t key m" for e
    using assms(2) by (simp add: live_def update_conv)
  have "distinct (map fst (AList.update (ca_key c) e m))" for e using assms(1) by (rule distinct_update)
  from live_sweep [OF this assms(3)] upd show ?thesis
    by (simp add: callLimit_def rateLimitMemory_live newWindow_def split: option.split)
qed

text \<open>How many instants of a list fall into an interval, closed on the left and open on the right.\<close>

definition cnt :: "int list \<Rightarrow> int \<Rightarrow> int \<Rightarrow> int" where
  "cnt A lo hi = int (length (filter (\<lambda>a. lo \<le> a \<and> a < hi) A))"

lemma cnt_snoc [simp]: "cnt (A @ [t]) lo hi = cnt A lo hi + (if lo \<le> t \<and> t < hi then 1 else 0)"
  by (simp add: cnt_def)

lemma cnt_mono: "lo' \<le> lo \<Longrightarrow> hi \<le> hi' \<Longrightarrow> cnt A lo hi \<le> cnt A lo' hi'"
  unfolding cnt_def by (induction A) auto

lemma cnt_split: "lo \<le> mid \<Longrightarrow> mid \<le> hi \<Longrightarrow> cnt A lo hi = cnt A lo mid + cnt A mid hi"
  unfolding cnt_def by (induction A) auto

lemma cnt_empty: "\<forall>a\<in>set A. a < lo \<Longrightarrow> cnt A lo hi = 0"
  unfolding cnt_def by (auto simp: filter_empty_conv)

lemma cnt_upto: "\<forall>a\<in>set A. a < g \<Longrightarrow> cnt A lo hi \<le> cnt A lo g"
  unfolding cnt_def by (induction A) auto

text \<open>\<open>g\<close> is the end of the current window, of length \<open>V\<close>, and \<open>c\<close> its counter.\<close>

definition windowOk :: "int \<Rightarrow> int \<Rightarrow> int list \<Rightarrow> int \<Rightarrow> int \<Rightarrow> bool" where
  "windowOk L V A g c \<longleftrightarrow> (\<forall>w. cnt A w (w + V) \<le> 2 * L) \<and> (\<forall>w. g - 2 * V < w \<longrightarrow> cnt A w (g - V) \<le> L)
     \<and> (\<forall>a\<in>set A. a < g) \<and> cnt A (g - V) g \<le> min c L"

lemma window_refused: "windowOk L V A g c \<Longrightarrow> windowOk L V A g (c + 1)"
  by (auto simp: windowOk_def)

lemma window_starts:
  assumes ok: "windowOk L V A g c" and "g \<le> t" "1 \<le> L" "0 < V"
  shows "windowOk L V (A @ [t]) (t + V) 1"
proof -
  have before: "\<forall>a\<in>set A. a < t" using ok assms(2) by (auto simp: windowOk_def)
  have recent: "cnt A w hi \<le> L" if "t - V < w" for w hi
  proof -
    have "cnt A w hi \<le> cnt A w g" using ok by (intro cnt_upto) (simp add: windowOk_def)
    also have "\<dots> \<le> cnt A (g - V) g" using that assms(2) by (intro cnt_mono) auto
    finally show ?thesis using ok by (simp add: windowOk_def)
  qed
  have all: "cnt A w (w + V) \<le> 2 * L" for w using ok by (simp add: windowOk_def)
  have "cnt (A @ [t]) w (w + V) \<le> 2 * L" for w using recent [of w "w + V"] all [of w] assms(3) by auto
  moreover have "cnt (A @ [t]) w t \<le> L" if "t - V < w" for w using recent [OF that, of t] by simp
  moreover have "cnt (A @ [t]) t (t + V) \<le> 1" using cnt_empty [OF before, of "t + V"] by simp
  moreover have "\<forall>a\<in>set (A @ [t]). a < t + V" using before assms(4) by auto
  ultimately show ?thesis using assms(3) by (simp add: windowOk_def)
qed

lemma window_goes_on:
  assumes ok: "windowOk L V A g c" and "g - V \<le> t" "t < g" "c + 1 \<le> L" "0 < V"
  shows "windowOk L V (A @ [t]) g (c + 1)"
proof -
  have cur: "cnt A (g - V) g \<le> c" using ok by (simp add: windowOk_def)
  have all: "cnt A w (w + V) \<le> 2 * L" for w using ok by (simp add: windowOk_def)
  have up: "cnt A lo hi \<le> cnt A lo g" for lo hi using ok by (intro cnt_upto) (simp add: windowOk_def)
  have old: "cnt A w (g - V) \<le> L" if "g - 2 * V < w" for w using ok that by (simp add: windowOk_def)
  have "cnt A w (w + V) + 1 \<le> 2 * L" if "w \<le> t" "t < w + V" for w
  proof (cases "g - V \<le> w")
    case True
    then have "cnt A w g \<le> cnt A (g - V) g" by (intro cnt_mono) auto
    moreover have "0 \<le> cnt A (g - V) g" by (simp add: cnt_def)
    ultimately show ?thesis using cur up [of w "w + V"] assms(4) by linarith
  next
    case False
    then have "cnt A w (w + V) = cnt A w (g - V) + cnt A (g - V) (w + V)" using that assms(2) by (intro cnt_split) auto
    moreover have "cnt A w (g - V) \<le> L" using that assms(2) by (intro old) auto
    ultimately show ?thesis using cur up [of "g - V" "w + V"] assms(4) by auto
  qed
  then have "cnt (A @ [t]) w (w + V) \<le> 2 * L" for w using all [of w] by auto
  moreover have "cnt (A @ [t]) w (g - V) \<le> L" if "g - 2 * V < w" for w using old [OF that] assms(2) by simp
  moreover have "cnt (A @ [t]) (g - V) g \<le> c + 1" using cur assms(2,3) by simp
  ultimately show ?thesis using ok assms(3,4) by (simp add: windowOk_def)
qed

definition limiterOk :: "int \<Rightarrow> int \<Rightarrow> int list \<Rightarrow> string \<Rightarrow> Memory \<Rightarrow> int \<Rightarrow> bool" where
  "limiterOk L V A key m t \<longleftrightarrow> (\<exists>g c. windowOk L V A g c \<and>
     (live t key m = None \<and> g \<le> t \<or> live t key m = Some \<lparr>re_count = c, re_resetAt = g\<rparr> \<and> g - V \<le> t))"

lemma limiter_waits:
  assumes "limiterOk L V A key m t" "t \<le> t'"
  shows "limiterOk L V A key m t'"
proof -
  obtain g c where g: "windowOk L V A g c"
    "live t key m = None \<and> g \<le> t \<or> live t key m = Some \<lparr>re_count = c, re_resetAt = g\<rparr> \<and> g - V \<le> t"
    using assms(1) by (auto simp: limiterOk_def)
  from g(2) have "live t' key m = None \<and> g \<le> t' \<or> live t' key m = Some \<lparr>re_count = c, re_resetAt = g\<rparr> \<and> g - V \<le> t'"
    using assms(2) by (auto simp: live_def split: option.splits if_splits)
  with g(1) show ?thesis unfolding limiterOk_def by blast
qed

lemma limiter_other:
  "limiterOk L V A key m (ca_now c) \<Longrightarrow> distinct (map fst m) \<Longrightarrow> ca_key c \<noteq> key \<Longrightarrow> limiterOk L V A key (snd (callLimit c m)) (ca_now c)"
  by (simp add: limiterOk_def callLimit_other)

lemma limiter_call:
  assumes ok: "limiterOk L V A (ca_key c) m (ca_now c)" and "distinct (map fst m)" "ca_limit c = L" "V = ca_window c * 1000" "1 \<le> L" "0 < V"
  shows "limiterOk L V (A @ (if rr_allowed (fst (callLimit c m)) then [ca_now c] else [])) (ca_key c) (snd (callLimit c m)) (ca_now c)"
proof -
  let ?t = "ca_now c" and ?k = "ca_key c"
  obtain g n where g: "windowOk L V A g n"
    "live ?t ?k m = None \<and> g \<le> ?t \<or> live ?t ?k m = Some \<lparr>re_count = n, re_resetAt = g\<rparr> \<and> g - V \<le> ?t"
    using ok by (auto simp: limiterOk_def)
  note call = callLimit_def rateLimitMemory_live
  from g(2) show ?thesis
  proof
    assume l: "live ?t ?k m = None \<and> g \<le> ?t"
    let ?m = "AList.update ?k \<lparr>re_count = 1, re_resetAt = ?t + V\<rparr> m"
    have "distinct (map fst ?m)" using assms(2) by (rule distinct_update)
    then have "live ?t ?k (snd (callLimit c m)) = live ?t ?k ?m"
      using l live_sweep [of ?m ?t ?t ?k] by (simp add: call newWindow_def assms(4))
    also have "\<dots> = Some \<lparr>re_count = 1, re_resetAt = ?t + V\<rparr>" using assms(6) by (simp add: live_def update_conv)
    finally show ?thesis using window_starts [OF g(1) conjunct2 [OF l] assms(5,6)] l
      by (auto simp: limiterOk_def call)
  next
    assume l: "live ?t ?k m = Some \<lparr>re_count = n, re_resetAt = g\<rparr> \<and> g - V \<le> ?t"
    have "?t < g" using l by (auto simp: live_def split: option.splits if_splits)
    then have "live ?t ?k (snd (callLimit c m)) = Some \<lparr>re_count = n + 1, re_resetAt = g\<rparr>"
      using l by (simp add: call live_def [of _ _ "AList.update _ _ _"] update_conv)
    moreover have "windowOk L V (A @ (if rr_allowed (fst (callLimit c m)) then [?t] else [])) g (n + 1)"
      using l window_refused [OF g(1)] window_goes_on [OF g(1) _ \<open>?t < g\<close> _ assms(6)] by (auto simp: call assms(3))
    ultimately show ?thesis using l unfolding limiterOk_def by blast
  qed
qed

lemma allowed_run:
  assumes "limiterOk L V A key m t" "distinct (map fst m)" "sorted (map ca_now calls)" "\<forall>c\<in>set calls. t \<le> ca_now c"
    "\<forall>c\<in>set calls. ca_key c = key \<longrightarrow> ca_limit c = L \<and> ca_window c * 1000 = V" "1 \<le> L" "0 < V"
  shows "cnt (A @ allowedAt key calls m) w (w + V) \<le> 2 * L"
  using assms
proof (induction calls arbitrary: A m t)
  case Nil
  then show ?case by (auto simp: limiterOk_def windowOk_def)
next
  case (Cons c cs)
  let ?m = "snd (callLimit c m)" and ?new = "if ca_key c = key \<and> rr_allowed (fst (callLimit c m)) then [ca_now c] else []"
  have ok: "limiterOk L V A key m (ca_now c)" using limiter_waits [OF Cons.prems(1), of "ca_now c"] Cons.prems(4) by simp
  have "limiterOk L V (A @ ?new) key ?m (ca_now c)"
  proof (cases "ca_key c = key")
    case True
    with Cons.prems(5) have "ca_limit c = L" "V = ca_window c * 1000" by simp_all
    from limiter_call [OF _ Cons.prems(2) this Cons.prems(6,7), of A] ok True show ?thesis by simp
  next
    case False
    from limiter_other [OF ok Cons.prems(2) False] False show ?thesis by simp
  qed
  then have "cnt ((A @ ?new) @ allowedAt key cs ?m) w (w + V) \<le> 2 * L"
    by (rule Cons.IH) (use Cons.prems callLimit_distinct in auto)
  then show ?case by (simp add: case_prod_beta)
qed

text \<open>
  C34: As long as all calls for a key use one limit and one window, at most twice the limit is let through in any
  interval of the length of the window, whatever is asked for other keys and however often the map is swept.
\<close>

theorem rate_limit_bounds:
  assumes "sorted (map ca_now calls)" "\<forall>c\<in>set calls. ca_key c = key \<longrightarrow> ca_limit c = L \<and> ca_window c = W" "1 \<le> L" "0 < W"
  shows "length (filter (\<lambda>t. w \<le> t \<and> t < w + 1000 * W) (allowedAt key calls [])) \<le> 2 * nat L"
proof (cases calls)
  case (Cons c cs)
  have "windowOk L (1000 * W) [] (ca_now c) 1" using assms(3) by (simp add: windowOk_def cnt_def)
  then have "limiterOk L (1000 * W) [] key [] (ca_now c)" by (auto simp: limiterOk_def live_def)
  from allowed_run [OF this _ assms(1) _ _ assms(3), of w] assms Cons show ?thesis by (simp add: cnt_def)
qed simp

definition sampleCalls :: "Call list" where
  "sampleCalls = map (\<lambda>t. \<lparr>ca_key = ''login:1'', ca_limit = 2, ca_window = 60, ca_now = t\<rparr>) [0, 59000, 59500, 60000, 60500, 60900]"

theorem rate_limit_bounds_witness:
  "allowedAt ''login:1'' sampleCalls [] = [0, 59000, 60000, 60500] \<and>
   length (filter (\<lambda>t. 1000 \<le> t \<and> t < 61000) (allowedAt ''login:1'' sampleCalls [])) \<le> 4"
proof
  show "allowedAt ''login:1'' sampleCalls [] = [0, 59000, 60000, 60500]"
    by (simp add: sampleCalls_def callLimit_def rateLimitMemory_def newWindow_def sweepExpired_def)
  show "length (filter (\<lambda>t. 1000 \<le> t \<and> t < 61000) (allowedAt ''login:1'' sampleCalls [])) \<le> 4"
    using rate_limit_bounds [of sampleCalls "''login:1''" 2 60 1000] by (simp add: sampleCalls_def)
qed

section \<open>Waiting long enough\<close>

lemma waiting_helps:
  assumes "\<not> rr_allowed (fst (rateLimitMemory key limit windowSec now m))" "now + 1000 * rr_retryAfterSec (fst (rateLimitMemory key limit windowSec now m)) \<le> now'"
  shows "rr_allowed (fst (rateLimitMemory key limit' windowSec' now' (snd (rateLimitMemory key limit windowSec now m))))"
proof -
  obtain e where e: "live now key m = Some e" using assms(1) by (auto simp: rateLimitMemory_live split: option.splits)
  have "re_resetAt e - now \<le> 1000 * ceilSeconds (re_resetAt e - now)" by (rule ceilSeconds_bound)
  then have "re_resetAt e \<le> now'" using assms(2) by (auto simp: rateLimitMemory_live e)
  then have "live now' key (snd (rateLimitMemory key limit windowSec now m)) = None"
    by (simp add: rateLimitMemory_live e live_def [of _ _ "AList.update _ _ _"] update_conv)
  then show ?thesis by (simp add: rateLimitMemory_live)
qed

section \<open>The address cannot be chosen by the client\<close>

text \<open>Every trusted proxy appends the address it saw to the list it was given.\<close>

lemma split_snoc_parts: "CHR '','' \<notin> set p \<Longrightarrow> splitAt (CHR '','') (s @ CHR '','' # p) = splitAt (CHR '','') s @ [p]"
proof (induction s)
  case Nil
  then show ?case by (simp add: split_plain)
next
  case (Cons c s)
  obtain q qs where "splitAt (CHR '','') s = q # qs" by (cases "splitAt (CHR '','') s") auto
  with Cons show ?case by auto
qed

definition plainAddress :: "string \<Rightarrow> bool" where
  "plainAddress p \<longleftrightarrow> p \<noteq> [] \<and> CHR '','' \<notin> set p \<and> trim p = p"

fun appended :: "string \<Rightarrow> string list \<Rightarrow> string" where
  "appended s [] = s"
| "appended s (p # ps) = appended (s @ '','' @ p) ps"

lemma chain_appended:
  "\<forall>p\<in>set ps. plainAddress p \<Longrightarrow>
     filter (\<lambda>s. s \<noteq> []) (map trim (splitAt (CHR '','') (appended s ps))) = filter (\<lambda>s. s \<noteq> []) (map trim (splitAt (CHR '','') s)) @ ps"
  by (induction ps arbitrary: s) (simp_all add: plainAddress_def split_snoc_parts)

text \<open>
  With \<open>h\<close> trusted proxies that each append the address they saw, the address used for limits is the one the
  outermost of them saw, whatever list of addresses the client sent along.
\<close>

theorem client_ip_not_forgeable:
  assumes "\<forall>p\<in>set ps. plainAddress p" "ps \<noteq> []" "headers ''x-forwarded-for'' = Some (appended sent ps)"
    "env ''CLIENT_IP_HEADER'' = None" "hopsOf (toNumber (env ''TRUSTED_PROXY_HOPS'')) = Some (int (length ps))"
  shows "clientIpFromHeaders headers env toNumber = hd ps"
proof -
  let ?old = "filter (\<lambda>s. s \<noteq> []) (map trim (splitAt (CHR '','') sent))"
  have "toLowerCase (trim ''x-forwarded-for'') = ''x-forwarded-for''"
    by (simp add: toLowerCase_def trim_def lower_char_def is_space_def code_def)
  then have "clientIpFromHeaders headers env toNumber = forwardedIp (toNumber (env ''TRUSTED_PROXY_HOPS'')) (appended sent ps)"
    using assms(3,4) by (simp add: clientIpFromHeaders_def)
  also have "\<dots> = (?old @ ps) ! length ?old"
    unfolding forwardedIp_def chain_appended [OF assms(1)] assms(5) by (simp add: Let_def)
  also have "\<dots> = hd ps" using assms(2) by (simp add: nth_append hd_conv_nth)
  finally show ?thesis .
qed

theorem client_ip_not_forgeable_witness:
  "clientIpFromHeaders (\<lambda>h. if h = ''x-forwarded-for'' then Some (''6.6.6.6, 7.7.7.7'' @ '','' @ ''10.1.2.3'') else None) (\<lambda>_. None) (\<lambda>_. NaN) = ''10.1.2.3''"
  using client_ip_not_forgeable [of "[''10.1.2.3'']" "\<lambda>h. if h = ''x-forwarded-for'' then Some (''6.6.6.6, 7.7.7.7'' @ '','' @ ''10.1.2.3'') else None"
      "''6.6.6.6, 7.7.7.7''" "\<lambda>_. None" "\<lambda>_. NaN"]
  by (simp add: plainAddress_def trim_def is_space_def code_def)

end
