(* ===== verification/Proxy.thy ===== *)
theory Proxy
  imports RateLimit
begin

text \<open>
  The boundary every request passes (\<open>src/proxy.ts\<close>): limits per path and client address, the origin check of
  state-changing API calls, and the content type of their bodies. Which requests the framework hands to the proxy at
  all is the matcher of the same file (\<open>incoming\<close>); the others go straight to their page or handler. The URL parser is the argument \<open>urlHost\<close>, the host
  of a URL or nothing where the parser throws. Security headers and the content security policy are texts and left out.
\<close>

section \<open>Rules\<close>

record Rule =
  rl_match :: "string \<Rightarrow> string \<Rightarrow> bool"
  rl_limit :: int
  rl_windowSec :: int

definition WEBHOOK_PATHS :: "string list" where
  "WEBHOOK_PATHS = [''/api/payments/chapa/webhook'', ''/api/kyc/dojah/webhook'']"

definition postTo :: "string \<Rightarrow> int \<Rightarrow> int \<Rightarrow> Rule" where
  "postTo p limit windowSec = \<lparr>rl_match = \<lambda>path m. path = p \<and> m = ''POST'', rl_limit = limit, rl_windowSec = windowSec\<rparr>"

definition RULES :: "Rule list" where
  "RULES =
     [postTo ''/api/auth/login'' 10 60,
      postTo ''/api/auth/register'' 5 3600,
      postTo ''/api/auth/forgot-password'' 5 3600,
      postTo ''/api/auth/reset-password'' 10 3600,
      postTo ''/api/auth/verify-email'' 10 3600,
      \<lparr>rl_match = \<lambda>p m. startsWith p ''/api/auth/mfa/'' \<and> m = ''POST'', rl_limit = 15, rl_windowSec = 60\<rparr>,
      postTo ''/api/account/change-password'' 5 3600,
      postTo ''/api/trader/purchases'' 10 60,
      \<lparr>rl_match = \<lambda>p m. p \<in> set WEBHOOK_PATHS, rl_limit = 120, rl_windowSec = 60\<rparr>,
      \<lparr>rl_match = \<lambda>p m. p = ''/api/payments/chapa/callback'', rl_limit = 30, rl_windowSec = 60\<rparr>,
      postTo ''/api/auth/otp/request'' 5 600,
      postTo ''/api/auth/otp/verify'' 15 600,
      postTo ''/api/auth/otp/complete'' 10 3600,
      postTo ''/api/account/otp/request'' 5 600,
      postTo ''/api/account/phone'' 15 600,
      postTo ''/api/account/password'' 10 3600,
      postTo ''/api/account/email'' 5 3600,
      postTo ''/api/trader/coupons/validate'' 20 60,
      postTo ''/api/locale'' 30 60,
      \<lparr>rl_match = \<lambda>p m. startsWith p ''/api/'', rl_limit = 300, rl_windowSec = 60\<rparr>]"

section \<open>Requests\<close>

record ProxyRequest =
  px_pathname :: string
  px_method :: string
  px_header :: "string \<Rightarrow> string option"

record Environment =
  en_var :: "string \<Rightarrow> string option"
  en_toNumber :: "string option \<Rightarrow> number"
  en_urlHost :: "string \<Rightarrow> string option"

datatype ProxyAnswer = Forwarded | TooManyRequests int | CrossSiteBlocked | UnsupportedContent

definition hostOf :: "Environment \<Rightarrow> string option \<Rightarrow> string option" where
  "hostOf env value = (case value of None \<Rightarrow> None | Some v \<Rightarrow> if v = [] then None else en_urlHost env v)"

definition limitKey :: "Environment \<Rightarrow> ProxyRequest \<Rightarrow> string" where
  "limitKey env req = px_pathname req @ '':'' @ clientIpFromHeaders (px_header req) (en_var env) (en_toNumber env)"

text \<open>The first matching rule wins; the number of seconds to wait when it refuses.\<close>

definition checkLimit :: "Environment \<Rightarrow> ProxyRequest \<Rightarrow> (int \<times> int) option \<Rightarrow> int \<Rightarrow> Memory \<Rightarrow> int option \<times> Memory" where
  "checkLimit env req answer now m =
     (case List.find (\<lambda>rule. rl_match rule (px_pathname req) (toUpperCase (px_method req))) RULES of
        None \<Rightarrow> (None, m)
      | Some rule \<Rightarrow>
          (let (r, m') = rateLimit answer (limitKey env req) (rl_limit rule) (rl_windowSec rule) now m
           in (if rr_allowed r then None else Some (rr_retryAfterSec r), m')))"

definition originHost :: "Environment \<Rightarrow> ProxyRequest \<Rightarrow> string option" where
  "originHost env req =
     (case hostOf env (px_header req ''origin'') of Some h \<Rightarrow> Some h | None \<Rightarrow> hostOf env (px_header req ''referer''))"

definition ownHosts :: "Environment \<Rightarrow> ProxyRequest \<Rightarrow> string list" where
  "ownHosts env req = filter (\<lambda>h. h \<noteq> []) (List.map_filter id [px_header req ''host'', hostOf env (en_var env ''APP_URL'')])"

definition crossSite :: "Environment \<Rightarrow> ProxyRequest \<Rightarrow> bool" where
  "crossSite env req \<longleftrightarrow> px_header req ''sec-fetch-site'' = Some ''cross-site''
     \<or> (case originHost env req of None \<Rightarrow> False | Some h \<Rightarrow> h \<notin> set (ownHosts env req))"

definition contentRefused :: "ProxyRequest \<Rightarrow> bool" where
  "contentRefused req \<longleftrightarrow>
     (let contentType = (case px_header req ''content-type'' of Some v \<Rightarrow> v | None \<Rightarrow> []);
          hasBody = px_header req ''content-length'' \<noteq> Some ''0'' \<and> contentType \<noteq> []
      in hasBody \<and> \<not> startsWith (toLowerCase contentType) ''application/json'')"

definition changesState :: "ProxyRequest \<Rightarrow> bool" where
  "changesState req \<longleftrightarrow> toUpperCase (px_method req) \<notin> {''GET'', ''HEAD'', ''OPTIONS''}"

definition proxy :: "Environment \<Rightarrow> ProxyRequest \<Rightarrow> (int \<times> int) option \<Rightarrow> int \<Rightarrow> Memory \<Rightarrow> ProxyAnswer \<times> Memory" where
  "proxy env req answer now m =
     (if \<not> startsWith (px_pathname req) ''/api/'' then (Forwarded, m)
      else case checkLimit env req answer now m of
          (Some wait, m') \<Rightarrow> (TooManyRequests wait, m')
        | (None, m') \<Rightarrow>
            if changesState req \<and> px_pathname req \<notin> set WEBHOOK_PATHS
            then if crossSite env req then (CrossSiteBlocked, m')
                 else if contentRefused req then (UnsupportedContent, m')
                 else (Forwarded, m')
            else (Forwarded, m'))"

section \<open>The matcher\<close>

text \<open>
  \<open>config.matcher\<close>: the path after its slash may not start as an asset of the framework or the icon (whose dot stands
  for any character), nor end in a dot and an extension of an asset; the header \<open>next-router-prefetch\<close> must be missing
  (or empty, which the framework takes for missing), and \<open>purpose\<close> must not be \<open>prefetch\<close>.
\<close>

definition ASSET_EXTENSIONS :: "string list" where
  "ASSET_EXTENSIONS = [''svg'', ''png'', ''jpg'', ''jpeg'', ''gif'', ''webp'', ''ico'', ''woff'', ''woff2'']"

definition assetPath :: "string \<Rightarrow> bool" where
  "assetPath rest \<longleftrightarrow> startsWith rest ''_next/static'' \<or> startsWith rest ''_next/image''
     \<or> startsWith rest ''favicon'' \<and> startsWith (drop 8 rest) ''ico''
     \<or> list_ex (\<lambda>e. startsWith (rev rest) (rev (CHR ''.'' # e))) ASSET_EXTENSIONS"

definition matched :: "ProxyRequest \<Rightarrow> bool" where
  "matched req \<longleftrightarrow> startsWith (px_pathname req) ''/'' \<and> \<not> assetPath (tl (px_pathname req))
     \<and> px_header req ''next-router-prefetch'' \<in> {None, Some []} \<and> px_header req ''purpose'' \<noteq> Some ''prefetch''"

text \<open>What becomes of a request: the framework runs the proxy for matched requests only.\<close>

definition incoming :: "Environment \<Rightarrow> ProxyRequest \<Rightarrow> (int \<times> int) option \<Rightarrow> int \<Rightarrow> Memory \<Rightarrow> ProxyAnswer \<times> Memory" where
  "incoming env req answer now m = (if matched req then proxy env req answer now m else (Forwarded, m))"

section \<open>What is refused\<close>

lemma rateLimit_other:
  assumes "distinct (map fst m)" "k \<noteq> key" "now \<le> t"
  shows "live t key (snd (rateLimit answer k limit windowSec now m)) = live t key m"
  using callLimit_other [of m "\<lparr>ca_key = k, ca_limit = limit, ca_window = windowSec, ca_now = now\<rparr>" key t] assms
  by (simp add: rateLimit_def callLimit_def split: option.split)

lemma checkLimit_other:
  assumes "distinct (map fst m)" "key \<noteq> limitKey env req" "now \<le> t"
  shows "live t key (snd (checkLimit env req answer now m)) = live t key m"
  using rateLimit_other [OF assms(1) _ assms(3), of "limitKey env req" key] assms(2)
  by (simp add: checkLimit_def case_prod_beta split: option.split)

lemma proxy_memory:
  "snd (proxy env req answer now m) = (if startsWith (px_pathname req) ''/api/'' then snd (checkLimit env req answer now m) else m)"
  by (simp add: proxy_def case_prod_beta split: option.split)

text \<open>
  C35: Whatever the counters, a state-changing API request that is not a webhook and that the matcher hands to the proxy
  never reaches its handler when the browser marks it as cross-site, when its Origin (or its Referer, where the Origin
  names no host) names a foreign host, or when it has a body that is not JSON, as the body of a plain HTML form. Reads and
  webhooks are refused for their rate only, pages never, and nothing but the counter of the request's own path and
  address changes. A request that the matcher leaves out is never looked at: it always passes, and counts nowhere.
\<close>

theorem forged_requests_are_refused:
  assumes "incoming env req answer now m = (a, m')"
  shows "(matched req \<and> startsWith (px_pathname req) ''/api/'' \<and> changesState req \<and> px_pathname req \<notin> set WEBHOOK_PATHS
      \<and> (px_header req ''sec-fetch-site'' = Some ''cross-site'' \<or> (\<exists>h. originHost env req = Some h \<and> h \<notin> set (ownHosts env req))
         \<or> contentRefused req) \<longrightarrow> a \<noteq> Forwarded)
    \<and> (\<not> changesState req \<or> px_pathname req \<in> set WEBHOOK_PATHS \<longrightarrow> a = Forwarded \<or> (\<exists>s. a = TooManyRequests s))
    \<and> (\<not> startsWith (px_pathname req) ''/api/'' \<or> \<not> matched req \<longrightarrow> a = Forwarded \<and> m' = m)
    \<and> (\<forall>key t. key \<noteq> limitKey env req \<and> now \<le> t \<and> distinct (map fst m) \<longrightarrow> live t key m' = live t key m)"
proof (intro conjI allI impI)
  have a: "a = (if matched req then fst (proxy env req answer now m) else Forwarded)"
    and m: "m' = (if matched req then snd (proxy env req answer now m) else m)"
    using assms by (auto simp: incoming_def split: if_splits)
  show "a \<noteq> Forwarded" if "matched req \<and> startsWith (px_pathname req) ''/api/'' \<and> changesState req \<and> px_pathname req \<notin> set WEBHOOK_PATHS
      \<and> (px_header req ''sec-fetch-site'' = Some ''cross-site'' \<or> (\<exists>h. originHost env req = Some h \<and> h \<notin> set (ownHosts env req))
         \<or> contentRefused req)"
    using that by (auto simp: a proxy_def crossSite_def case_prod_beta split: option.split)
  show "a = Forwarded \<or> (\<exists>s. a = TooManyRequests s)" if "\<not> changesState req \<or> px_pathname req \<in> set WEBHOOK_PATHS"
    using that by (auto simp: a proxy_def case_prod_beta split: option.split)
  show "a = Forwarded" "m' = m" if "\<not> startsWith (px_pathname req) ''/api/'' \<or> \<not> matched req"
    using that by (auto simp: a m proxy_def)
  show "live t key m' = live t key m" if "key \<noteq> limitKey env req \<and> now \<le> t \<and> distinct (map fst m)" for key t
    using that checkLimit_other [of m key env req now t answer] by (simp add: m proxy_memory)
qed

definition sampleEnv :: Environment where
  "sampleEnv = \<lparr>en_var = \<lambda>_. None, en_toNumber = \<lambda>_. NaN,
     en_urlHost = \<lambda>u. if startsWith u ''https://'' then Some (drop 8 u) else None\<rparr>"

definition forgedRequest :: ProxyRequest where
  "forgedRequest = \<lparr>px_pathname = ''/api/account/email'', px_method = ''post'',
     px_header = \<lambda>h. if h = ''origin'' then Some ''https://evil.example'' else if h = ''host'' then Some ''mella.example'' else None\<rparr>"

lemma upper_methods:
  "toUpperCase ''post'' = ''POST''" "toUpperCase ''POST'' = ''POST''" "toUpperCase ''GET'' = ''GET''"
  by code_simp+

lemma forged_is_foreign:
  "matched forgedRequest" "startsWith (px_pathname forgedRequest) ''/api/''" "changesState forgedRequest" "px_pathname forgedRequest \<notin> set WEBHOOK_PATHS"
  "originHost sampleEnv forgedRequest = Some ''evil.example''" "''evil.example'' \<notin> set (ownHosts sampleEnv forgedRequest)"
  by (simp_all add: forgedRequest_def sampleEnv_def startsWith_def changesState_def WEBHOOK_PATHS_def originHost_def hostOf_def
      ownHosts_def map_filter_def upper_methods matched_def assetPath_def ASSET_EXTENSIONS_def)

theorem forged_requests_are_refused_witness:
  "fst (incoming sampleEnv forgedRequest None 0 []) \<noteq> Forwarded"
proof -
  obtain a m where p: "incoming sampleEnv forgedRequest None 0 [] = (a, m)" by fastforce
  from forged_requests_are_refused [OF this] forged_is_foreign have "a \<noteq> Forwarded" by blast
  with p show ?thesis by simp
qed

section \<open>Three gaps\<close>

text \<open>
  The exceptions of the matcher are meant for prefetches and assets, but hold for every method and path: a request that
  carries \<open>purpose: prefetch\<close> (as any client may send it), or whose path ends in the name of a picture, reaches its API
  handler without the origin check, the content check and the rate limit, however often it comes.
\<close>

definition asPrefetch :: "ProxyRequest \<Rightarrow> ProxyRequest" where
  "asPrefetch req = req\<lparr>px_header := (px_header req)(''purpose'' \<mapsto> ''prefetch'')\<rparr>"

lemma prefetch_header_skips_the_checks: "incoming env (asPrefetch req) answer now m = (Forwarded, m)"
  by (simp add: incoming_def matched_def asPrefetch_def)

lemma asset_names_skip_the_checks:
  "px_pathname req = ''/api/'' @ p @ ''.png'' \<Longrightarrow> incoming env req answer now m = (Forwarded, m)"
  by (simp add: incoming_def matched_def assetPath_def ASSET_EXTENSIONS_def startsWith_def)

text \<open>An opaque origin has no host: without a Referer and without Sec-Fetch-Site the check lets it pass.\<close>

lemma opaque_origin_passes:
  assumes "px_header req ''origin'' = Some ''null''" "en_urlHost env ''null'' = None" "px_header req ''referer'' = None"
    "px_header req ''sec-fetch-site'' = None"
  shows "\<not> crossSite env req"
  using assms by (simp add: crossSite_def originHost_def hostOf_def)

text \<open>
  The counter is kept per path and address, not per rule: a read of the same path opens a window of one minute, and
  the requests of the strict rule are counted in it.
\<close>

definition registration :: "(string \<Rightarrow> string option) \<Rightarrow> string \<Rightarrow> ProxyRequest" where
  "registration header method = \<lparr>px_pathname = ''/api/auth/register'', px_method = method, px_header = header\<rparr>"

text \<open>One read and four registrations, all at the same instant.\<close>

definition floodRound :: "(string \<Rightarrow> string option) \<Rightarrow> int \<Rightarrow> (ProxyRequest \<times> int) list" where
  "floodRound header t = (registration header ''GET'', t) # replicate 4 (registration header ''POST'', t)"

fun proxyRun :: "Environment \<Rightarrow> (ProxyRequest \<times> int) list \<Rightarrow> Memory \<Rightarrow> ProxyAnswer list \<times> Memory" where
  "proxyRun env [] m = ([], m)"
| "proxyRun env ((req, t) # rs) m =
     (let (a, m1) = proxy env req None t m; (as, m2) = proxyRun env rs m1 in (a # as, m2))"

lemma proxyRun_append:
  "proxyRun env (rs @ rs') m = (let (as, m1) = proxyRun env rs m; (as', m2) = proxyRun env rs' m1 in (as @ as', m2))"
  by (induction rs arbitrary: m) (auto simp: case_prod_beta Let_def)

lemma registration_rules:
  "List.find (\<lambda>rule. rl_match rule ''/api/auth/register'' ''POST'') RULES = Some (postTo ''/api/auth/register'' 5 3600)"
  "map_option rl_limit (List.find (\<lambda>rule. rl_match rule ''/api/auth/register'' ''GET'') RULES) = Some 300"
  "map_option rl_windowSec (List.find (\<lambda>rule. rl_match rule ''/api/auth/register'' ''GET'') RULES) = Some 60"
  by (simp_all add: RULES_def postTo_def WEBHOOK_PATHS_def startsWith_def)

definition registrationKey :: "Environment \<Rightarrow> (string \<Rightarrow> string option) \<Rightarrow> string" where
  "registrationKey env header = limitKey env (registration header [])"

lemma registration_proxy:
  "proxy env (registration header ''GET'') None t m =
     (let (r, m') = rateLimitMemory (registrationKey env header) 300 60 t m in (if rr_allowed r then Forwarded else TooManyRequests (rr_retryAfterSec r), m'))"
  "\<not> crossSite env (registration header ''POST'') \<Longrightarrow> \<not> contentRefused (registration header ''POST'') \<Longrightarrow>
   proxy env (registration header ''POST'') None t m =
     (let (r, m') = rateLimitMemory (registrationKey env header) 5 3600 t m in (if rr_allowed r then Forwarded else TooManyRequests (rr_retryAfterSec r), m'))"
proof -
  have p: "px_pathname (registration header x) = ''/api/auth/register''" "px_method (registration header x) = x"
    "limitKey env (registration header x) = registrationKey env header" for x
    by (simp_all add: registration_def registrationKey_def limitKey_def)
  have api: "startsWith ''/api/auth/register'' ''/api/''" by (simp add: startsWith_def)
  have w: "''/api/auth/register'' \<notin> set WEBHOOK_PATHS" by (simp add: WEBHOOK_PATHS_def)
  obtain g where g: "List.find (\<lambda>rule. rl_match rule ''/api/auth/register'' ''GET'') RULES = Some g" "rl_limit g = 300" "rl_windowSec g = 60"
    using registration_rules(2,3) by auto
  show "proxy env (registration header ''GET'') None t m =
     (let (r, m') = rateLimitMemory (registrationKey env header) 300 60 t m in (if rr_allowed r then Forwarded else TooManyRequests (rr_retryAfterSec r), m'))"
    unfolding proxy_def checkLimit_def p upper_methods changesState_def g(1) using api g(2,3)
    by (simp add: rateLimit_def case_prod_beta)
  show "proxy env (registration header ''POST'') None t m =
     (let (r, m') = rateLimitMemory (registrationKey env header) 5 3600 t m in (if rr_allowed r then Forwarded else TooManyRequests (rr_retryAfterSec r), m'))"
    if "\<not> crossSite env (registration header ''POST'')" "\<not> contentRefused (registration header ''POST'')"
    unfolding proxy_def checkLimit_def p upper_methods changesState_def registration_rules(1) using api w that
    by (simp add: rateLimit_def postTo_def case_prod_beta)
qed

lemma read_opens:
  assumes "m = [] \<or> (\<exists>n. m = [(registrationKey env header, \<lparr>re_count = n, re_resetAt = t\<rparr>)])"
  shows "proxy env (registration header ''GET'') None t m = (Forwarded, [(registrationKey env header, \<lparr>re_count = 1, re_resetAt = t + 60000\<rparr>)])"
  using assms by (auto simp: registration_proxy(1) rateLimitMemory_def newWindow_def sweepExpired_def)

lemma write_counts:
  assumes "\<not> crossSite env (registration header ''POST'')" "\<not> contentRefused (registration header ''POST'')" "n < 5"
  shows "proxy env (registration header ''POST'') None t [(registrationKey env header, \<lparr>re_count = n, re_resetAt = t + 60000\<rparr>)]
    = (Forwarded, [(registrationKey env header, \<lparr>re_count = n + 1, re_resetAt = t + 60000\<rparr>)])"
  using assms(3) by (simp add: registration_proxy(2) [OF assms(1,2)] rateLimitMemory_def)

lemma flood_round:
  assumes "\<not> crossSite env (registration header ''POST'')" "\<not> contentRefused (registration header ''POST'')"
    "m = [] \<or> (\<exists>n. m = [(registrationKey env header, \<lparr>re_count = n, re_resetAt = t\<rparr>)])"
  shows "proxyRun env (floodRound header t) m = (replicate 5 Forwarded, [(registrationKey env header, \<lparr>re_count = 5, re_resetAt = t + 60000\<rparr>)])"
  by (simp add: floodRound_def numeral_eq_Suc read_opens [OF assms(3)] write_counts [OF assms(1,2)])

text \<open>
  One read of the registration path per minute defeats its limit of five an hour: four registrations follow it in
  every minute, and each of them reaches the handler, for as many minutes as one likes.
\<close>

theorem mixed_methods_defeat_the_limit:
  assumes "\<not> crossSite env (registration header ''POST'')" "\<not> contentRefused (registration header ''POST'')"
  shows "fst (proxyRun env (concat (map (\<lambda>i. floodRound header (60000 * int i)) [0..<n])) []) = replicate (5 * n) Forwarded"
proof -
  let ?key = "registrationKey env header" and ?run = "\<lambda>n. proxyRun env (concat (map (\<lambda>i. floodRound header (60000 * int i)) [0..<n])) []"
  have "?run n = (replicate (5 * n) Forwarded, if n = 0 then [] else [(?key, \<lparr>re_count = 5, re_resetAt = 60000 * int n\<rparr>)])"
  proof (induction n)
    case (Suc n)
    let ?m = "if n = 0 then [] else [(?key, \<lparr>re_count = 5, re_resetAt = 60000 * int n\<rparr>)]"
    have "proxyRun env (floodRound header (60000 * int n)) ?m
        = (replicate 5 Forwarded, [(?key, \<lparr>re_count = 5, re_resetAt = 60000 * int n + 60000\<rparr>)])"
      by (rule flood_round [OF assms]) simp
    then show ?case using Suc.IH by (simp add: proxyRun_append replicate_add [symmetric] add.commute)
  qed simp
  then show ?thesis by simp
qed

theorem mixed_methods_defeat_the_limit_witness:
  "fst (proxyRun sampleEnv (concat (map (\<lambda>i. floodRound (\<lambda>_. None) (60000 * int i)) [0..<60])) []) = replicate 300 Forwarded"
  using mixed_methods_defeat_the_limit [of sampleEnv "\<lambda>_. None" 60]
  by (simp add: crossSite_def originHost_def hostOf_def contentRefused_def registration_def)

end
