(* ===== verification/AuthDb.thy ===== *)
theory AuthDb
  imports Otp Referrals
begin

text \<open>
  Users, sessions and tokens (\<open>src/lib/auth/session.ts\<close>, \<open>tokens.ts\<close>, \<open>mfa.ts\<close>, \<open>guards.ts\<close>). The
  cryptographic libraries are the fields of \<open>Crypto\<close>. What a signed cookie says is a \<open>Payload\<close>; an operation that
  reads a cookie takes the payload that \<open>jwtVerify\<close> accepted, if any, and one that sets a cookie returns the payload
  it signs. Instants are milliseconds, the expiry of a payload is in seconds.
\<close>

section \<open>Tables\<close>

datatype Role = ADMIN | TRADER

record Login = User +
  lg_phone :: "string option"
  lg_passwordHash :: "string option"
  lg_role :: Role
  lg_lastActivityAt :: "int option"
  lg_phoneVerifiedAt :: "int option"
  lg_emailVerifiedAt :: "int option"
  lg_failedLoginCount :: int
  lg_lockedUntil :: "int option"
  lg_mfaEnabled :: bool
  lg_mfaSecretEnc :: "string option"
  lg_mfaBackupCodes :: "string list"
  lg_passwordChangedAt :: "int option"
  lg_locale :: string

record Session =
  ses_id :: nat
  ses_userId :: nat
  ses_expiresAt :: int
  ses_revokedAt :: "int option"
  ses_lastSeenAt :: int

datatype VerificationTokenType = EMAIL_VERIFY | PASSWORD_RESET | PHONE_OTP

record VerificationToken =
  vt_id :: nat
  vt_userId :: nat
  vt_type :: VerificationTokenType
  vt_tokenHash :: string
  vt_expiresAt :: int
  vt_usedAt :: "int option"

record AuthAudit =
  aa_actorId :: "nat option"
  aa_action :: string
  aa_targetId :: "nat option"

text \<open>\<open>au_store\<close> holds the other tables; the users of the referral programme are a view of \<open>au_users\<close>.\<close>

record AuthDb =
  au_users :: "Login list"
  au_sessions :: "Session list"
  au_tokens :: "VerificationToken list"
  au_otps :: OtpTable
  au_audit :: "AuthAudit list"
  au_store :: Store
  au_nextId :: nat

datatype auth_error = AuthError string int "string option" | ConflictErr string | RecordMissing | UniqueField string

text \<open>bcrypt, TOTP validation of an encrypted secret (label, token, instant), SHA-256 and the keyed hash.\<close>

record Crypto =
  cr_compare :: "string \<Rightarrow> string \<Rightarrow> bool"
  cr_validate :: "string \<Rightarrow> string \<Rightarrow> string \<Rightarrow> int \<Rightarrow> bool"
  cr_sha256 :: "string \<Rightarrow> string"
  cr_hmac :: "string \<Rightarrow> string"

definition auditAuth :: "nat option \<Rightarrow> string \<Rightarrow> nat option \<Rightarrow> AuthDb \<Rightarrow> AuthDb" where
  "auditAuth actor action target db = db\<lparr>au_audit := au_audit db @ [\<lparr>aa_actorId = actor, aa_action = action, aa_targetId = target\<rparr>]\<rparr>"

definition auditUser :: "nat \<Rightarrow> string \<Rightarrow> AuthDb \<Rightarrow> AuthDb" where
  "auditUser i action = auditAuth (Some i) action (Some i)"

definition userWhere :: "(Login \<Rightarrow> bool) \<Rightarrow> AuthDb \<Rightarrow> Login option" where
  "userWhere p db = findUnique p (au_users db)"

definition userById :: "nat \<Rightarrow> AuthDb \<Rightarrow> Login option" where
  "userById i = userWhere (\<lambda>u. usr_id u = i)"

definition userByEmail :: "string \<Rightarrow> AuthDb \<Rightarrow> Login option" where
  "userByEmail e = userWhere (\<lambda>u. usr_email u = Some e)"

definition userByPhone :: "string \<Rightarrow> AuthDb \<Rightarrow> Login option" where
  "userByPhone p = userWhere (\<lambda>u. lg_phone u = Some p)"

text \<open>\<open>user.update\<close> by id, of columns that no unique constraint covers.\<close>

definition setUser :: "nat \<Rightarrow> (Login \<Rightarrow> Login) \<Rightarrow> AuthDb \<Rightarrow> AuthDb" where
  "setUser i f db = db\<lparr>au_users := snd (updateMany (\<lambda>u. usr_id u = i) f (au_users db))\<rparr>"

text \<open>The unique constraints on email and phone, for a row that is written under the id.\<close>

definition uniqueUser :: "Login \<Rightarrow> AuthDb \<Rightarrow> auth_error option" where
  "uniqueUser row db =
     (if \<exists>u\<in>set (au_users db). usr_id u \<noteq> usr_id row \<and> usr_email u \<noteq> None \<and> usr_email u = usr_email row then Some (UniqueField ''email'')
      else if \<exists>u\<in>set (au_users db). usr_id u \<noteq> usr_id row \<and> lg_phone u \<noteq> None \<and> lg_phone u = lg_phone row then Some (UniqueField ''phone'')
      else None)"

text \<open>\<open>user.create\<close> with the defaults of the schema.\<close>

definition newLogin :: "nat \<Rightarrow> string \<Rightarrow> string option \<Rightarrow> string option \<Rightarrow> string option \<Rightarrow> Role \<Rightarrow> int option \<Rightarrow> string option \<Rightarrow> Login" where
  "newLogin i name email phone passwordHash role phoneVerifiedAt locale =
     \<lparr>usr_id = i, usr_name = name, usr_email = email, usr_status = USER_ACTIVE, usr_referralCode = None, usr_referredById = None,
      lg_phone = phone, lg_passwordHash = passwordHash, lg_role = role, lg_lastActivityAt = None, lg_phoneVerifiedAt = phoneVerifiedAt,
      lg_emailVerifiedAt = None, lg_failedLoginCount = 0, lg_lockedUntil = None, lg_mfaEnabled = False, lg_mfaSecretEnc = None,
      lg_mfaBackupCodes = [], lg_passwordChangedAt = None, lg_locale = (case locale of None \<Rightarrow> ''en'' | Some l \<Rightarrow> l)\<rparr>"

definition createUserRow :: "(nat \<Rightarrow> Login) \<Rightarrow> AuthDb \<Rightarrow> auth_error + Login \<times> AuthDb" where
  "createUserRow row db =
     (let u = row (au_nextId db) in
      case uniqueUser u db of
        Some e \<Rightarrow> Inl e
      | None \<Rightarrow> Inr (u, db\<lparr>au_users := au_users db @ [u], au_nextId := au_nextId db + 1\<rparr>))"

section \<open>Signed cookies\<close>

record Payload =
  pl_sid :: "nat option"
  pl_sub :: "nat option"
  pl_purpose :: "string option"
  pl_phone :: "string option"
  pl_exp :: int

text \<open>\<open>jwtVerify\<close> rejects a payload from its expiry on.\<close>

definition unexpired :: "int \<Rightarrow> Payload \<Rightarrow> bool" where
  "unexpired now p \<longleftrightarrow> now div 1000 < pl_exp p"

definition createMfaChallenge :: "nat \<Rightarrow> int \<Rightarrow> Payload" where
  "createMfaChallenge userId now =
     \<lparr>pl_sid = None, pl_sub = Some userId, pl_purpose = Some ''mfa'', pl_phone = None, pl_exp = now div 1000 + 5 * 60\<rparr>"

definition readMfaChallenge :: "Payload option \<Rightarrow> nat option" where
  "readMfaChallenge cookie =
     (case cookie of None \<Rightarrow> None | Some p \<Rightarrow> if pl_purpose p = Some ''mfa'' then pl_sub p else None)"

definition PHONE_SIGNUP_TTL_SEC :: int where "PHONE_SIGNUP_TTL_SEC = 15 * 60"

definition createPhoneSignupProof :: "string \<Rightarrow> int \<Rightarrow> Payload" where
  "createPhoneSignupProof phone now =
     \<lparr>pl_sid = None, pl_sub = None, pl_purpose = Some ''phone-signup'', pl_phone = Some phone, pl_exp = now div 1000 + PHONE_SIGNUP_TTL_SEC\<rparr>"

definition readPhoneSignupProof :: "Payload option \<Rightarrow> string option" where
  "readPhoneSignupProof cookie =
     (case cookie of None \<Rightarrow> None | Some p \<Rightarrow> if pl_purpose p = Some ''phone-signup'' then pl_phone p else None)"

section \<open>Sessions\<close>

definition SESSION_TTL_MS :: "Role \<Rightarrow> int" where
  "SESSION_TTL_MS role = (case role of ADMIN \<Rightarrow> 12 * 60 * 60 * 1000 | TRADER \<Rightarrow> 7 * 24 * 60 * 60 * 1000)"

definition IDLE_TIMEOUT_MS :: "Role \<Rightarrow> int" where
  "IDLE_TIMEOUT_MS role = (case role of ADMIN \<Rightarrow> 30 * 60 * 1000 | TRADER \<Rightarrow> 12 * 60 * 60 * 1000)"

definition LAST_SEEN_WRITE_INTERVAL_MS :: int where "LAST_SEEN_WRITE_INTERVAL_MS = 5 * 60 * 1000"

definition createSession :: "nat \<Rightarrow> Role \<Rightarrow> int \<Rightarrow> AuthDb \<Rightarrow> Payload \<times> AuthDb" where
  "createSession userId role now db =
     (let expiresAt = now + SESSION_TTL_MS role; i = au_nextId db
      in (\<lparr>pl_sid = Some i, pl_sub = None, pl_purpose = None, pl_phone = None, pl_exp = expiresAt div 1000\<rparr>,
          db\<lparr>au_sessions := au_sessions db @ [\<lparr>ses_id = i, ses_userId = userId, ses_expiresAt = expiresAt, ses_revokedAt = None,
               ses_lastSeenAt = now\<rparr>], au_nextId := i + 1\<rparr>))"

definition revokeSession :: "nat \<Rightarrow> int \<Rightarrow> AuthDb \<Rightarrow> AuthDb" where
  "revokeSession sid now db =
     db\<lparr>au_sessions := snd (updateMany (\<lambda>s. ses_id s = sid \<and> ses_revokedAt s = None) (\<lambda>s. s\<lparr>ses_revokedAt := Some now\<rparr>) (au_sessions db))\<rparr>"

definition destroySession :: "Payload option \<Rightarrow> int \<Rightarrow> AuthDb \<Rightarrow> AuthDb" where
  "destroySession cookie now db = (case Option.bind cookie pl_sid of None \<Rightarrow> db | Some sid \<Rightarrow> revokeSession sid now db)"

record SessionUser =
  su_id :: nat
  su_role :: Role
  su_status :: UserStatus
  su_mfaEnabled :: bool
  su_emailVerifiedAt :: "int option"
  su_phoneVerifiedAt :: "int option"
  su_sessionId :: nat

text \<open>The user of a request; the second component tells whether the throttled write of \<open>touchSession\<close> follows.\<close>

definition getSessionUser :: "Payload option \<Rightarrow> int \<Rightarrow> AuthDb \<Rightarrow> SessionUser option \<times> bool \<times> AuthDb" where
  "getSessionUser cookie now db =
     (case Option.bind cookie pl_sid of
        None \<Rightarrow> (None, False, db)
      | Some sid \<Rightarrow>
         (case findUnique (\<lambda>s. ses_id s = sid) (au_sessions db) of
            None \<Rightarrow> (None, False, db)
          | Some s \<Rightarrow>
             (case userById (ses_userId s) db of
                None \<Rightarrow> (None, False, db)
              | Some u \<Rightarrow>
                 if ses_revokedAt s \<noteq> None \<or> ses_expiresAt s < now \<or> usr_status u \<noteq> USER_ACTIVE then (None, False, db)
                 else let idle = now - ses_lastSeenAt s in
                   if idle > IDLE_TIMEOUT_MS (lg_role u) then (None, False, revokeSession sid now db)
                   else (Some \<lparr>su_id = usr_id u, su_role = lg_role u, su_status = usr_status u, su_mfaEnabled = lg_mfaEnabled u,
                      su_emailVerifiedAt = lg_emailVerifiedAt u, su_phoneVerifiedAt = lg_phoneVerifiedAt u, su_sessionId = ses_id s\<rparr>,
                      idle > LAST_SEEN_WRITE_INTERVAL_MS, db))))"

text \<open>The transaction that runs behind the request; it changes nothing when one of the rows is gone.\<close>

definition touchSession :: "nat \<Rightarrow> nat \<Rightarrow> int \<Rightarrow> AuthDb \<Rightarrow> AuthDb" where
  "touchSession sid userId now db =
     (if (\<exists>s\<in>set (au_sessions db). ses_id s = sid) \<and> userById userId db \<noteq> None
      then setUser userId (\<lambda>u. u\<lparr>lg_lastActivityAt := Some now\<rparr>)
        (db\<lparr>au_sessions := snd (updateMany (\<lambda>s. ses_id s = sid) (\<lambda>s. s\<lparr>ses_lastSeenAt := now\<rparr>) (au_sessions db))\<rparr>)
      else db)"

definition revokeAllSessionsForUser :: "nat \<Rightarrow> nat option \<Rightarrow> int \<Rightarrow> AuthDb \<Rightarrow> AuthDb" where
  "revokeAllSessionsForUser userId exceptSessionId now db =
     db\<lparr>au_sessions := snd (updateMany (\<lambda>s. ses_userId s = userId \<and> ses_revokedAt s = None \<and> exceptSessionId \<noteq> Some (ses_id s))
        (\<lambda>s. s\<lparr>ses_revokedAt := Some now\<rparr>) (au_sessions db))\<rparr>"

definition cleanupExpiredSessions :: "int \<Rightarrow> AuthDb \<Rightarrow> AuthDb" where
  "cleanupExpiredSessions now db =
     db\<lparr>au_sessions := filter (\<lambda>s. \<not> (ses_expiresAt s < now \<or> (case ses_revokedAt s of None \<Rightarrow> False | Some r \<Rightarrow> r < now - 7 * 24 * 60 * 60 * 1000)))
        (au_sessions db)\<rparr>"

section \<open>Single-use tokens\<close>

text \<open>\<open>raw\<close> is the random text that is sent to the user; no caller asks for the numeric form.\<close>

definition createVerificationToken :: "Crypto \<Rightarrow> nat \<Rightarrow> VerificationTokenType \<Rightarrow> int \<Rightarrow> string \<Rightarrow> int \<Rightarrow> AuthDb \<Rightarrow> AuthDb" where
  "createVerificationToken cr userId type ttlMinutes raw now db =
     db\<lparr>au_tokens := snd (updateMany (\<lambda>t. vt_userId t = userId \<and> vt_type t = type \<and> vt_usedAt t = None) (\<lambda>t. t\<lparr>vt_usedAt := Some now\<rparr>) (au_tokens db))
          @ [\<lparr>vt_id = au_nextId db, vt_userId = userId, vt_type = type, vt_tokenHash = cr_sha256 cr raw,
              vt_expiresAt = now + ttlMinutes * 60000, vt_usedAt = None\<rparr>],
        au_nextId := au_nextId db + 1\<rparr>"

text \<open>Consuming: the row is read and checked, then claimed.\<close>

definition readToken :: "Crypto \<Rightarrow> string \<Rightarrow> VerificationTokenType \<Rightarrow> int \<Rightarrow> AuthDb \<Rightarrow> VerificationToken option" where
  "readToken cr raw type now db =
     (case findUnique (\<lambda>t. vt_tokenHash t = cr_sha256 cr raw) (au_tokens db) of
        None \<Rightarrow> None
      | Some t \<Rightarrow> if vt_type t \<noteq> type \<or> vt_usedAt t \<noteq> None \<or> vt_expiresAt t < now then None else Some t)"

definition claimTokenRow :: "int \<Rightarrow> nat \<Rightarrow> VerificationToken list \<Rightarrow> nat \<times> VerificationToken list" where
  "claimTokenRow now i = updateMany (\<lambda>t. vt_id t = i \<and> vt_usedAt t = None) (\<lambda>t. t\<lparr>vt_usedAt := Some now\<rparr>)"

definition claimToken :: "VerificationToken \<Rightarrow> int \<Rightarrow> AuthDb \<Rightarrow> nat option \<times> AuthDb" where
  "claimToken t now db =
     (let (n, rows) = claimTokenRow now (vt_id t) (au_tokens db)
      in (if n = 0 then None else Some (vt_userId t), db\<lparr>au_tokens := rows\<rparr>))"

definition consumeVerificationToken :: "Crypto \<Rightarrow> string \<Rightarrow> VerificationTokenType \<Rightarrow> int \<Rightarrow> AuthDb \<Rightarrow> nat option \<times> AuthDb" where
  "consumeVerificationToken cr raw type now db =
     (case readToken cr raw type now db of None \<Rightarrow> (None, db) | Some t \<Rightarrow> claimToken t now db)"

interpretation token_claim: claims "claimTokenRow now" "\<lambda>i rows. \<exists>t\<in>set rows. vt_id t = i \<and> vt_usedAt t = None"
  unfolding claimTokenRow_def by (rule updateMany_claims) simp

section \<open>Second factor\<close>

definition verifyTotp :: "Crypto \<Rightarrow> string \<Rightarrow> string \<Rightarrow> string \<Rightarrow> int \<Rightarrow> bool" where
  "verifyTotp cr secretEnc k label now =
     (let normalized = cleanCode k in length normalized = 6 \<and> list_all is_digit normalized \<and> cr_validate cr secretEnc label normalized now)"

fun backupIndex :: "Crypto \<Rightarrow> string \<Rightarrow> nat \<Rightarrow> string list \<Rightarrow> nat option" where
  "backupIndex cr normalized i [] = None"
| "backupIndex cr normalized i (h # hs) = (if h \<noteq> [] \<and> cr_compare cr normalized h then Some i else backupIndex cr normalized (i + 1) hs)"

definition matchBackupCode :: "Crypto \<Rightarrow> string list \<Rightarrow> string \<Rightarrow> nat option" where
  "matchBackupCode cr hashes k = backupIndex cr (toUpperCase (filter (\<lambda>c. \<not> is_space c \<and> c \<noteq> CHR ''-'') k)) 0 hashes"

definition enableMfaForUser :: "nat \<Rightarrow> string list \<Rightarrow> AuthDb \<Rightarrow> AuthDb" where
  "enableMfaForUser userId hashes = setUser userId (\<lambda>u. u\<lparr>lg_mfaEnabled := True, lg_mfaBackupCodes := hashes\<rparr>)"

section \<open>Guards\<close>

definition requireUser :: "SessionUser option \<Rightarrow> auth_error + SessionUser" where
  "requireUser user = (case user of None \<Rightarrow> Inl (AuthError ''Not authenticated'' 401 None) | Some u \<Rightarrow> Inr u)"

definition adminMfaRequired :: "string option \<Rightarrow> bool \<Rightarrow> bool" where
  "adminMfaRequired setting production = (if setting = Some ''false'' then False else production \<or> setting = Some ''true'')"

definition requireAdmin :: "bool \<Rightarrow> SessionUser option \<Rightarrow> auth_error + SessionUser" where
  "requireAdmin mfaRequired user =
     (case requireUser user of
        Inl e \<Rightarrow> Inl e
      | Inr u \<Rightarrow>
         if su_role u \<noteq> ADMIN then Inl (AuthError ''Forbidden'' 403 None)
         else if mfaRequired \<and> \<not> su_mfaEnabled u
         then Inl (AuthError ''Multi-factor authentication must be enabled for admin access'' 403 (Some ''MFA_REQUIRED''))
         else Inr u)"

definition requireTrader :: "SessionUser option \<Rightarrow> auth_error + SessionUser" where
  "requireTrader user =
     (case requireUser user of
        Inl e \<Rightarrow> Inl e
      | Inr u \<Rightarrow> if su_role u \<noteq> TRADER then Inl (AuthError ''Forbidden'' 403 None) else Inr u)"

definition assertOwnsResource :: "nat option \<Rightarrow> nat \<Rightarrow> auth_error + unit" where
  "assertOwnsResource owner user =
     (if owner \<noteq> Some user then Inl (AuthError ''The requested resource was not found'' 404 None) else Inr ())"

end
