(* ===== verification/Auth.thy ===== *)
theory Auth
  imports AuthDb
begin

text \<open>
  Sign-in with a password, registration, passwords and the second factor (\<open>src/lib/services/auth.ts\<close>). A login reads
  the user and decides later, so it is split there. Random values (hashes, tokens, secrets) are arguments; e-mails are
  left out. A session or challenge that is created is the payload of its cookie.
\<close>

definition MAX_FAILED_LOGINS :: int where "MAX_FAILED_LOGINS = 10"
definition LOCKOUT_MINUTES :: int where "LOCKOUT_MINUTES = 15"

datatype LoginOutcome = SessionFor Login Payload | MfaRequired Payload | InvalidLogin | DisabledLogin

text \<open>\<open>idText\<close> prints an id.\<close>

definition mfaLabel :: "(nat \<Rightarrow> string) \<Rightarrow> Login \<Rightarrow> string" where
  "mfaLabel idText u = (case usr_email u of Some e \<Rightarrow> e | None \<Rightarrow> (case lg_phone u of Some p \<Rightarrow> p | None \<Rightarrow> idText (usr_id u)))"

section \<open>Password login\<close>

definition loginRead :: "string \<Rightarrow> AuthDb \<Rightarrow> Login option" where
  "loginRead identifier db =
     (if CHR ''@'' \<in> set identifier then userByEmail (toLowerCase (trim identifier)) db
      else Option.bind (normalizePhone identifier) (\<lambda>phone. userByPhone phone db))"

definition isLocked :: "int \<Rightarrow> Login \<Rightarrow> bool" where
  "isLocked now u = (case lg_lockedUntil u of None \<Rightarrow> False | Some t \<Rightarrow> t > now)"

definition passwordValid :: "Crypto \<Rightarrow> string \<Rightarrow> Login \<Rightarrow> bool" where
  "passwordValid cr password u = (case lg_passwordHash u of None \<Rightarrow> False | Some h \<Rightarrow> cr_compare cr password h)"

definition countFailure :: "Login \<Rightarrow> int \<Rightarrow> AuthDb \<Rightarrow> AuthDb" where
  "countFailure u now db =
     (let failed = lg_failedLoginCount u + 1; lock = failed \<ge> MAX_FAILED_LOGINS
      in auditUser (usr_id u) ''LOGIN_FAILED''
           (setUser (usr_id u) (\<lambda>r. r\<lparr>lg_failedLoginCount := if lock then 0 else failed,
              lg_lockedUntil := if lock then Some (now + LOCKOUT_MINUTES * 60000) else None\<rparr>) db))"

text \<open>What the login does with the row it read.\<close>

definition loginDecide :: "Crypto \<Rightarrow> Login option \<Rightarrow> string \<Rightarrow> int \<Rightarrow> AuthDb \<Rightarrow> LoginOutcome \<times> AuthDb" where
  "loginDecide cr user password now db =
     (case user of
        None \<Rightarrow> (InvalidLogin, auditAuth None ''LOGIN_FAILED'' None db)
      | Some u \<Rightarrow>
          let i = usr_id u in
          if isLocked now u then (InvalidLogin, auditUser i ''LOGIN_FAILED'' db)
          else if \<not> passwordValid cr password u then (InvalidLogin, countFailure u now db)
          else if usr_status u = USER_DISABLED then (DisabledLogin, auditUser i ''LOGIN_FAILED'' db)
          else let db1 = (if lg_failedLoginCount u > 0 \<or> lg_lockedUntil u \<noteq> None
                    then setUser i (\<lambda>r. r\<lparr>lg_failedLoginCount := 0, lg_lockedUntil := None\<rparr>) db else db)
            in if lg_mfaEnabled u then (MfaRequired (createMfaChallenge i now), auditUser i ''LOGIN_MFA_CHALLENGE'' db1)
               else let (p, db2) = createSession i (lg_role u) now db1
                 in (SessionFor u p, auditUser i ''LOGIN_SUCCESS'' db2))"

definition loginWithPassword :: "Crypto \<Rightarrow> string \<Rightarrow> string \<Rightarrow> int \<Rightarrow> AuthDb \<Rightarrow> LoginOutcome \<times> AuthDb" where
  "loginWithPassword cr identifier password now db = loginDecide cr (loginRead identifier db) password now db"

section \<open>The second step\<close>

definition useBackupCode :: "nat \<Rightarrow> string list \<Rightarrow> nat \<Rightarrow> AuthDb \<Rightarrow> AuthDb" where
  "useBackupCode i hashes idx db =
     auditUser i ''MFA_BACKUP_CODE_USED'' (setUser i (\<lambda>r. r\<lparr>lg_mfaBackupCodes := take idx hashes @ drop (idx + 1) hashes\<rparr>) db)"

definition mfaReady :: "Login option \<Rightarrow> bool" where
  "mfaReady user = (case user of None \<Rightarrow> False
     | Some u \<Rightarrow> usr_status u = USER_ACTIVE \<and> lg_mfaEnabled u \<and> (case lg_mfaSecretEnc u of None \<Rightarrow> False | Some s \<Rightarrow> s \<noteq> []))"

definition mfaDecide :: "Crypto \<Rightarrow> (nat \<Rightarrow> string) \<Rightarrow> Login option \<Rightarrow> string \<Rightarrow> int \<Rightarrow> AuthDb \<Rightarrow> LoginOutcome \<times> AuthDb" where
  "mfaDecide cr idText user k now db =
     (if \<not> mfaReady user then (InvalidLogin, db)
      else let u = the user; i = usr_id u; signIn = (\<lambda>db. let (p, db1) = createSession i (lg_role u) now db in (SessionFor u p, auditUser i ''LOGIN_SUCCESS'' db1))
        in if verifyTotp cr (the (lg_mfaSecretEnc u)) k (mfaLabel idText u) now then signIn db
           else case matchBackupCode cr (lg_mfaBackupCodes u) k of
               None \<Rightarrow> (InvalidLogin, auditUser i ''LOGIN_FAILED'' db)
             | Some idx \<Rightarrow> signIn (useBackupCode i (lg_mfaBackupCodes u) idx db))"

definition completeMfaLogin :: "Crypto \<Rightarrow> (nat \<Rightarrow> string) \<Rightarrow> nat \<Rightarrow> string \<Rightarrow> int \<Rightarrow> AuthDb \<Rightarrow> LoginOutcome \<times> AuthDb" where
  "completeMfaLogin cr idText userId k now db = mfaDecide cr idText (userById userId db) k now db"

section \<open>Registration and e-mail\<close>

definition sendEmailVerification :: "Crypto \<Rightarrow> nat \<Rightarrow> string \<Rightarrow> int \<Rightarrow> AuthDb \<Rightarrow> auth_error + AuthDb" where
  "sendEmailVerification cr userId raw now db =
     (case userById userId db of
        None \<Rightarrow> Inl RecordMissing
      | Some u \<Rightarrow> if lg_emailVerifiedAt u \<noteq> None \<or> usr_email u \<in> {None, Some []} then Inr db
          else Inr (createVerificationToken cr userId EMAIL_VERIFY (24 * 60) raw now db))"

text \<open>The user that was created, with its session; nothing when the address is known.\<close>

definition registerUser :: "Crypto \<Rightarrow> string \<Rightarrow> string \<Rightarrow> string \<Rightarrow> string option \<Rightarrow> string \<Rightarrow> int \<Rightarrow> AuthDb \<Rightarrow> auth_error + (Login \<times> Payload) option \<times> AuthDb" where
  "registerUser cr name email passwordHash locale raw now db =
     (if userByEmail email db \<noteq> None then Inr (None, db)
      else case createUserRow (\<lambda>i. newLogin i name (Some email) None (Some passwordHash) TRADER None locale) db of
          Inl e \<Rightarrow> Inl e
        | Inr (u, db1) \<Rightarrow>
           (case sendEmailVerification cr (usr_id u) raw now (auditUser (usr_id u) ''USER_REGISTERED'' db1) of
              Inl e \<Rightarrow> Inl e
            | Inr db2 \<Rightarrow> let (p, db3) = createSession (usr_id u) (lg_role u) now db2 in Inr (Some (u, p), db3)))"

definition verifyEmail :: "Crypto \<Rightarrow> string \<Rightarrow> int \<Rightarrow> AuthDb \<Rightarrow> bool \<times> AuthDb" where
  "verifyEmail cr token now db =
     (case consumeVerificationToken cr token EMAIL_VERIFY now db of
        (None, db1) \<Rightarrow> (False, db1)
      | (Some i, db1) \<Rightarrow> (True, auditUser i ''EMAIL_VERIFIED'' (setUser i (\<lambda>u. u\<lparr>lg_emailVerifiedAt := Some now\<rparr>) db1)))"

section \<open>Passwords\<close>

definition requestPasswordReset :: "Crypto \<Rightarrow> string \<Rightarrow> string \<Rightarrow> int \<Rightarrow> AuthDb \<Rightarrow> AuthDb" where
  "requestPasswordReset cr email raw now db =
     (case userByEmail email db of
        None \<Rightarrow> db
      | Some u \<Rightarrow> auditUser (usr_id u) ''PASSWORD_RESET_REQUESTED'' (createVerificationToken cr (usr_id u) PASSWORD_RESET 15 raw now db))"

definition resetPassword :: "Crypto \<Rightarrow> string \<Rightarrow> string \<Rightarrow> int \<Rightarrow> AuthDb \<Rightarrow> bool \<times> AuthDb" where
  "resetPassword cr token passwordHash now db =
     (case consumeVerificationToken cr token PASSWORD_RESET now db of
        (None, db1) \<Rightarrow> (False, db1)
      | (Some i, db1) \<Rightarrow>
          let db2 = setUser i (\<lambda>u. u\<lparr>lg_passwordHash := Some passwordHash, lg_passwordChangedAt := Some now, lg_failedLoginCount := 0,
                lg_lockedUntil := None\<rparr>) db1
          in (True, auditUser i ''SESSIONS_REVOKED'' (auditUser i ''PASSWORD_RESET'' (revokeAllSessionsForUser i None now db2))))"

definition changePassword :: "Crypto \<Rightarrow> nat \<Rightarrow> nat \<Rightarrow> string \<Rightarrow> string \<Rightarrow> int \<Rightarrow> AuthDb \<Rightarrow> auth_error + AuthDb" where
  "changePassword cr userId sessionId currentPassword passwordHash now db =
     (case userById userId db of
        None \<Rightarrow> Inl RecordMissing
      | Some u \<Rightarrow>
         if \<not> passwordValid cr currentPassword u then Inl (AuthError ''Current password is incorrect'' 400 None)
         else let db1 = setUser userId (\<lambda>u. u\<lparr>lg_passwordHash := Some passwordHash, lg_passwordChangedAt := Some now\<rparr>) db
           in Inr (auditUser userId ''SESSIONS_REVOKED'' (auditUser userId ''PASSWORD_CHANGED''
                (revokeAllSessionsForUser userId (Some sessionId) now db1))))"

section \<open>Enrolment of the second factor\<close>

definition beginMfaEnrolment :: "nat \<Rightarrow> string \<Rightarrow> AuthDb \<Rightarrow> auth_error + AuthDb" where
  "beginMfaEnrolment userId secretEnc db =
     (case userById userId db of
        None \<Rightarrow> Inl RecordMissing
      | Some u \<Rightarrow> if lg_mfaEnabled u then Inl (ConflictErr ''MFA is already enabled'')
          else Inr (setUser userId (\<lambda>u. u\<lparr>lg_mfaSecretEnc := Some secretEnc\<rparr>) db))"

definition confirmMfaEnrolment :: "Crypto \<Rightarrow> (nat \<Rightarrow> string) \<Rightarrow> nat \<Rightarrow> string \<Rightarrow> string list \<Rightarrow> int \<Rightarrow> AuthDb \<Rightarrow> auth_error + AuthDb" where
  "confirmMfaEnrolment cr idText userId k hashes now db =
     (case userById userId db of
        None \<Rightarrow> Inl RecordMissing
      | Some u \<Rightarrow>
         if lg_mfaEnabled u then Inl (ConflictErr ''MFA is already enabled'')
         else if lg_mfaSecretEnc u \<in> {None, Some []} then Inl (ConflictErr ''Start MFA setup first'')
         else if \<not> verifyTotp cr (the (lg_mfaSecretEnc u)) k (mfaLabel idText u) now
         then Inl (AuthError ''Invalid authentication code'' 400 None)
         else Inr (auditUser userId ''MFA_ENABLED'' (enableMfaForUser userId hashes db)))"

definition disableMfa :: "Crypto \<Rightarrow> (nat \<Rightarrow> string) \<Rightarrow> nat \<Rightarrow> string \<Rightarrow> string \<Rightarrow> bool \<Rightarrow> int \<Rightarrow> AuthDb \<Rightarrow> auth_error + AuthDb" where
  "disableMfa cr idText userId password k allowForAdmins now db =
     (case userById userId db of
        None \<Rightarrow> Inl RecordMissing
      | Some u \<Rightarrow>
         if \<not> lg_mfaEnabled u \<or> lg_mfaSecretEnc u \<in> {None, Some []} then Inl (ConflictErr ''MFA is not enabled'')
         else if lg_role u = ADMIN \<and> \<not> allowForAdmins then Inl (AuthError ''Admins cannot disable MFA'' 403 None)
         else if \<not> passwordValid cr password u \<or> \<not> verifyTotp cr (the (lg_mfaSecretEnc u)) k (mfaLabel idText u) now
         then Inl (AuthError ''Invalid password or code'' 400 None)
         else Inr (auditUser userId ''MFA_DISABLED''
           (setUser userId (\<lambda>u. u\<lparr>lg_mfaEnabled := False, lg_mfaSecretEnc := None, lg_mfaBackupCodes := []\<rparr>) db)))"

end
