(* ===== verification/PhoneAuth.thy ===== *)
theory PhoneAuth
  imports Auth
begin

text \<open>
  What a verified one-time code is allowed to do (\<open>src/lib/services/phoneAuth.ts\<close>), and the administration of users
  (\<open>users.ts\<close>). The code itself is checked by \<open>Otp\<close>, against the database as it is then.
\<close>

section \<open>Login and sign-up\<close>

datatype PhoneLoginOutcome = LoginAs LoginOutcome | NeedsProfile Payload

definition checkOtp :: "Crypto \<Rightarrow> string \<Rightarrow> string \<Rightarrow> OtpPurpose \<Rightarrow> int \<Rightarrow> AuthDb \<Rightarrow> bool \<times> AuthDb" where
  "checkOtp cr phone k purpose now db =
     (let (r, t) = verifyPhoneOtp (cr_hmac cr) phone k purpose now (au_otps db) in (r \<noteq> None, db\<lparr>au_otps := t\<rparr>))"

definition loginWithPhoneOtp :: "Crypto \<Rightarrow> string \<Rightarrow> string \<Rightarrow> int \<Rightarrow> AuthDb \<Rightarrow> PhoneLoginOutcome \<times> AuthDb" where
  "loginWithPhoneOtp cr phoneInput k now db =
     (case normalizePhone phoneInput of
        None \<Rightarrow> (LoginAs InvalidLogin, db)
      | Some phone \<Rightarrow>
         (let (ok, db1) = checkOtp cr phone k OTP_LOGIN now db; user = userByPhone phone db1 in
          if \<not> ok then (LoginAs InvalidLogin, auditAuth (map_option usr_id user) ''LOGIN_FAILED'' (map_option usr_id user) db1)
          else case user of
              None \<Rightarrow> (NeedsProfile (createPhoneSignupProof phone now), db1)
            | Some u \<Rightarrow>
                let i = usr_id u in
                if usr_status u = USER_DISABLED then (LoginAs DisabledLogin, auditUser i ''LOGIN_FAILED'' db1)
                else let f = (\<lambda>r. r\<lparr>lg_failedLoginCount := 0, lg_lockedUntil := None,
                           lg_phoneVerifiedAt := (if lg_phoneVerifiedAt u = None then Some now else lg_phoneVerifiedAt r)\<rparr>);
                         db2 = setUser i f db1
                  in if lg_mfaEnabled u then (LoginAs (MfaRequired (createMfaChallenge i now)), auditUser i ''LOGIN_MFA_CHALLENGE'' db2)
                     else let (p, db3) = createSession i (lg_role u) now db2
                       in (LoginAs (SessionFor (f u) p), auditUser i ''LOGIN_SUCCESS'' db3)))"

datatype PhoneSignupOutcome = SignupExpired | PhoneTaken | Created Login Payload bool

text \<open>The referral columns of the users, seen and written back by the referral service.\<close>

definition toUser :: "Login \<Rightarrow> User" where
  "toUser u = \<lparr>usr_id = usr_id u, usr_name = usr_name u, usr_email = usr_email u, usr_status = usr_status u,
     usr_referralCode = usr_referralCode u, usr_referredById = usr_referredById u\<rparr>"

definition attachTo :: "nat \<Rightarrow> string \<Rightarrow> AuthDb \<Rightarrow> AuthDb" where
  "attachTo userId k db =
     (let s = attachReferral userId k ((au_store db)\<lparr>st_users := map toUser (au_users db)\<rparr>)
      in db\<lparr>au_store := s, au_users := map (\<lambda>(u, v). u\<lparr>usr_referredById := usr_referredById v\<rparr>) (zip (au_users db) (st_users s))\<rparr>)"

text \<open>The row is created with the address, or without it when another account took it in between.\<close>

definition createPhoneUser :: "string \<Rightarrow> string option \<Rightarrow> string \<Rightarrow> string \<Rightarrow> int \<Rightarrow> AuthDb \<Rightarrow> auth_error + Login \<times> string option \<times> AuthDb" where
  "createPhoneUser name email phone locale now db =
     (let create = (\<lambda>e. createUserRow (\<lambda>i. newLogin i name e (Some phone) None TRADER (Some now) (Some locale)) db) in
      case create email of
        Inr (u, db1) \<Rightarrow> Inr (u, email, db1)
      | Inl e \<Rightarrow>
         if e \<noteq> UniqueField ''email'' then Inl e
         else (case create None of Inl e' \<Rightarrow> Inl e' | Inr (u, db1) \<Rightarrow> Inr (u, None, db1)))"

definition completePhoneSignup :: "Crypto \<Rightarrow> Payload option \<Rightarrow> string \<Rightarrow> string option \<Rightarrow> string \<Rightarrow> string \<Rightarrow> string \<Rightarrow> int \<Rightarrow> AuthDb
    \<Rightarrow> auth_error + PhoneSignupOutcome \<times> AuthDb" where
  "completePhoneSignup cr cookie name email locale referralCode raw now db =
     (case readPhoneSignupProof cookie of
        None \<Rightarrow> Inr (SignupExpired, db)
      | Some phone \<Rightarrow>
         if phone = [] then Inr (SignupExpired, db)
         else let free = (case email of None \<Rightarrow> None | Some e \<Rightarrow> if e \<noteq> [] \<and> userByEmail e db \<noteq> None then None else Some e) in
          case createPhoneUser name free phone locale now db of
            Inl e \<Rightarrow> if e = UniqueField ''phone'' then Inr (PhoneTaken, db) else Inl e
          | Inr (u, attached, db1) \<Rightarrow>
              let i = usr_id u; db2 = attachTo i referralCode (auditUser i ''USER_REGISTERED'' db1) in
              case (if attached \<in> {None, Some []} then Inr db2 else sendEmailVerification cr i raw now db2) of
                Inl e \<Rightarrow> Inl e
              | Inr db3 \<Rightarrow> let (p, db4) = createSession i (lg_role u) now db3 in Inr (Created u p (attached \<notin> {None, Some []}), db4))"

section \<open>The account page\<close>

datatype AccountOtpRequest = ForNewPhone string | ForPassword

text \<open>The phone and purpose a code is requested for.\<close>

definition requestAccountOtp :: "nat \<Rightarrow> AccountOtpRequest \<Rightarrow> AuthDb \<Rightarrow> auth_error + string \<times> OtpPurpose" where
  "requestAccountOtp userId input db =
     (case userById userId db of
        None \<Rightarrow> Inl RecordMissing
      | Some u \<Rightarrow>
         (case input of
            ForNewPhone raw \<Rightarrow>
              (case normalizePhone raw of
                 Some phone \<Rightarrow> if Some phone = lg_phone u \<and> lg_phoneVerifiedAt u \<noteq> None
                   then Inl (ConflictErr ''This is already your verified phone number'') else Inr (raw, OTP_CHANGE_PHONE)
               | None \<Rightarrow> Inr (raw, OTP_CHANGE_PHONE))
          | ForPassword \<Rightarrow>
              if lg_passwordHash u \<noteq> None then Inl (ConflictErr ''Your account already has a password. Use Change password instead.'')
              else (case lg_phone u of
                  Some p \<Rightarrow> if p = [] \<or> lg_phoneVerifiedAt u = None then Inl (ConflictErr ''Verify a phone number first'') else Inr (p, OTP_SET_PASSWORD)
                | None \<Rightarrow> Inl (ConflictErr ''Verify a phone number first''))))"

definition PHONE_UNAVAILABLE :: string where
  "PHONE_UNAVAILABLE = ''This phone number can't be used for your account. Contact support if you think this is a mistake.''"

text \<open>The transaction after the code was accepted; a violated constraint aborts it.\<close>

definition writePhone :: "Login \<Rightarrow> nat \<Rightarrow> string \<Rightarrow> int \<Rightarrow> AuthDb \<Rightarrow> auth_error + AuthDb" where
  "writePhone before sessionId phone now db =
     (let i = usr_id before; f = (\<lambda>u. u\<lparr>lg_phone := Some phone, lg_phoneVerifiedAt := Some now\<rparr>); changed = lg_phone before \<noteq> Some phone in
      case userById i db of
        None \<Rightarrow> Inl RecordMissing
      | Some u \<Rightarrow>
         (case uniqueUser (f u) db of
            Some e \<Rightarrow> if e = UniqueField ''phone'' then Inl (ConflictErr PHONE_UNAVAILABLE) else Inl e
          | None \<Rightarrow>
              let db1 = auditUser i (if changed then ''PHONE_CHANGED'' else ''PHONE_VERIFIED'') (setUser i f db)
              in Inr (if changed then auditUser i ''SESSIONS_REVOKED'' (revokeAllSessionsForUser i (Some sessionId) now db1) else db1)))"

definition changePhone :: "Crypto \<Rightarrow> nat \<Rightarrow> nat \<Rightarrow> string \<Rightarrow> string \<Rightarrow> int \<Rightarrow> AuthDb \<Rightarrow> (auth_error + string) \<times> AuthDb" where
  "changePhone cr userId sessionId phoneInput k now db =
     (case normalizePhone phoneInput of
        None \<Rightarrow> (Inl (AuthError ''Enter a valid phone number'' 400 None), db)
      | Some phone \<Rightarrow>
         (case userById userId db of
            None \<Rightarrow> (Inl RecordMissing, db)
          | Some before \<Rightarrow>
             (let (ok, db1) = checkOtp cr phone k OTP_CHANGE_PHONE now db in
              if \<not> ok then (Inl (AuthError ''Invalid or expired code'' 400 (Some ''INVALID_CODE'')), db1)
              else case userByPhone phone db1 of
                  Some owner \<Rightarrow>
                    if usr_id owner \<noteq> userId then (Inl (ConflictErr PHONE_UNAVAILABLE), auditUser userId ''PHONE_CHANGE_REJECTED'' db1)
                    else (case writePhone before sessionId phone now db1 of Inl e \<Rightarrow> (Inl e, db1) | Inr db2 \<Rightarrow> (Inr phone, db2))
                | None \<Rightarrow> (case writePhone before sessionId phone now db1 of Inl e \<Rightarrow> (Inl e, db1) | Inr db2 \<Rightarrow> (Inr phone, db2)))))"

definition addEmail :: "Crypto \<Rightarrow> nat \<Rightarrow> string \<Rightarrow> string \<Rightarrow> int \<Rightarrow> AuthDb \<Rightarrow> auth_error + bool \<times> AuthDb" where
  "addEmail cr userId email raw now db =
     (case userById userId db of
        None \<Rightarrow> Inl RecordMissing
      | Some u \<Rightarrow>
         if usr_email u \<notin> {None, Some []} then Inl (ConflictErr ''Your account already has an email address'')
         else if userByEmail email db \<noteq> None then Inr (False, db)
         else let (n, rows) = updateMany (\<lambda>r. usr_id r = userId \<and> usr_email r = None) (\<lambda>r. r\<lparr>usr_email := Some email, lg_emailVerifiedAt := None\<rparr>) (au_users db)
           in if n = 0 then Inl (ConflictErr ''Your account already has an email address'')
              else map_sum id (Pair True) (sendEmailVerification cr userId raw now (auditUser userId ''EMAIL_ADDED'' (db\<lparr>au_users := rows\<rparr>))))"

definition setInitialPassword :: "Crypto \<Rightarrow> nat \<Rightarrow> nat \<Rightarrow> string \<Rightarrow> string \<Rightarrow> int \<Rightarrow> AuthDb \<Rightarrow> (auth_error + unit) \<times> AuthDb" where
  "setInitialPassword cr userId sessionId k passwordHash now db =
     (case requestAccountOtp userId ForPassword db of
        Inl e \<Rightarrow> (Inl e, db)
      | Inr (phone, _) \<Rightarrow>
         (let (ok, db1) = checkOtp cr phone k OTP_SET_PASSWORD now db in
          if \<not> ok then (Inl (AuthError ''Invalid or expired code'' 400 (Some ''INVALID_CODE'')), db1)
          else let (n, rows) = updateMany (\<lambda>u. usr_id u = userId \<and> lg_passwordHash u = None)
                     (\<lambda>u. u\<lparr>lg_passwordHash := Some passwordHash, lg_passwordChangedAt := Some now\<rparr>) (au_users db1)
            in if n = 0 then (Inl (ConflictErr ''Your account already has a password. Use Change password instead.''), db1)
               else (Inr (), auditUser userId ''SESSIONS_REVOKED'' (auditUser userId ''PASSWORD_SET''
                      (revokeAllSessionsForUser userId (Some sessionId) now (db1\<lparr>au_users := rows\<rparr>))))))"

section \<open>Administration\<close>

definition createUser :: "string \<Rightarrow> string \<Rightarrow> string \<Rightarrow> Role \<Rightarrow> nat \<Rightarrow> AuthDb \<Rightarrow> auth_error + Login \<times> AuthDb" where
  "createUser name email passwordHash role actorId db =
     (if userByEmail email db \<noteq> None then Inl (ConflictErr ''A user with this email already exists'')
      else map_sum id (\<lambda>(u, db1). (u, auditAuth (Some actorId) ''USER_CREATED'' (Some (usr_id u)) db1))
        (createUserRow (\<lambda>i. newLogin i name (Some email) None (Some passwordHash) role None None) db))"

record UserChange =
  uc_name :: "string option"
  uc_email :: "string option"
  uc_role :: "Role option"
  uc_status :: "UserStatus option"

definition changedUser :: "UserChange \<Rightarrow> Login \<Rightarrow> Login" where
  "changedUser c u =
     u\<lparr>usr_name := (case uc_name c of None \<Rightarrow> usr_name u | Some n \<Rightarrow> n), usr_email := (case uc_email c of None \<Rightarrow> usr_email u | e \<Rightarrow> e),
       lg_role := (case uc_role c of None \<Rightarrow> lg_role u | Some r \<Rightarrow> r), usr_status := (case uc_status c of None \<Rightarrow> usr_status u | Some s \<Rightarrow> s)\<rparr>"

definition demoting :: "UserChange \<Rightarrow> Login \<Rightarrow> bool" where
  "demoting c before \<longleftrightarrow> (uc_role c \<notin> {None, Some ADMIN} \<and> lg_role before = ADMIN) \<or> (uc_status c = Some USER_DISABLED \<and> lg_role before = ADMIN)"

definition otherActiveAdmins :: "nat \<Rightarrow> AuthDb \<Rightarrow> nat" where
  "otherActiveAdmins i db = length (filter (\<lambda>u. lg_role u = ADMIN \<and> usr_status u = USER_ACTIVE \<and> usr_id u \<noteq> i) (au_users db))"

text \<open>The checks of the transaction, and what it writes for the row it read.\<close>

definition updateRefused :: "nat \<Rightarrow> UserChange \<Rightarrow> nat \<Rightarrow> Login \<Rightarrow> AuthDb \<Rightarrow> auth_error option" where
  "updateRefused i c actorId before db =
     (if i = actorId \<and> (demoting c before \<or> uc_status c = Some USER_DISABLED)
      then Some (ConflictErr ''You cannot demote or disable your own admin account'')
      else if demoting c before \<and> otherActiveAdmins i db = 0 then Some (ConflictErr ''At least one active admin must remain'')
      else uniqueUser (changedUser c before) db)"

definition writeUser :: "nat \<Rightarrow> UserChange \<Rightarrow> nat \<Rightarrow> Login \<Rightarrow> int \<Rightarrow> AuthDb \<Rightarrow> AuthDb" where
  "writeUser i c actorId before now db =
     (let db1 = auditAuth (Some actorId) ''USER_UPDATED'' (Some i) (setUser i (changedUser c) db)
      in if uc_status c = Some USER_DISABLED \<and> usr_status before \<noteq> USER_DISABLED then revokeAllSessionsForUser i None now db1 else db1)"

definition updateUser :: "nat \<Rightarrow> UserChange \<Rightarrow> nat \<Rightarrow> int \<Rightarrow> AuthDb \<Rightarrow> auth_error + AuthDb" where
  "updateUser i c actorId now db =
     (case userById i db of
        None \<Rightarrow> Inl RecordMissing
      | Some before \<Rightarrow> (case updateRefused i c actorId before db of Some e \<Rightarrow> Inl e | None \<Rightarrow> Inr (writeUser i c actorId before now db)))"

end
