(* ===== verification/AuthRun.thy ===== *)
theory AuthRun
  imports PhoneAuth
begin

text \<open>
  Sign-in under any interleaving of requests. First what each operation leaves alone: sessions that ended stay ended,
  ids are fresh, and most operations keep every user's id, phone and proof of it. Then runs: a run keeps the cookies
  that were signed and logs what was proven: a first factor (with the second one due or not), a second factor, a
  registration, a phone number.
\<close>

section \<open>Sessions that ended\<close>

definition dead :: "nat \<Rightarrow> AuthDb \<Rightarrow> bool" where
  "dead sid db \<longleftrightarrow> (\<forall>s\<in>set (au_sessions db). ses_id s = sid \<longrightarrow> ses_revokedAt s \<noteq> None)"

definition later :: "AuthDb \<Rightarrow> AuthDb \<Rightarrow> bool" where
  "later db db' \<longleftrightarrow> au_nextId db \<le> au_nextId db' \<and> (\<forall>sid < au_nextId db. dead sid db \<longrightarrow> dead sid db')"

named_theorems later_rules

lemma session_later_refl [later_rules]: "later db db"
  by (simp add: later_def)

lemma session_later_trans: "later a b \<Longrightarrow> later b c \<Longrightarrow> later a c"
  by (auto simp: later_def)

lemma later_step: "later b c \<Longrightarrow> later a b \<Longrightarrow> later a c"
  by (rule session_later_trans)

lemma later_same:
  "au_sessions d' = au_sessions d \<Longrightarrow> au_nextId d \<le> au_nextId d' \<Longrightarrow> later db d \<Longrightarrow> later db d'"
  by (auto simp: later_def dead_def)

lemma later_audit [later_rules]:
  "later db d \<Longrightarrow> later db (auditAuth a b c d)" "later db d \<Longrightarrow> later db (auditUser i b d)"
  by (erule later_same [rotated -1], simp_all add: auditAuth_def auditUser_def)+

lemma later_user [later_rules]:
  "later db d \<Longrightarrow> later db (setUser i f d)" "later db d \<Longrightarrow> later db (d\<lparr>au_users := us\<rparr>)"
  by (erule later_same [rotated -1], simp_all add: setUser_def)+

lemma later_otps [later_rules]: "later db d \<Longrightarrow> later db (d\<lparr>au_otps := t\<rparr>)"
  by (erule later_same [rotated -1]) simp_all

lemma later_tokens [later_rules]:
  "later db d \<Longrightarrow> later db (d\<lparr>au_tokens := t\<rparr>)" "later db d \<Longrightarrow> later db (createVerificationToken cr i ty ttl raw now d)"
  by (erule later_same [rotated -1], simp_all add: createVerificationToken_def)+

lemma later_sessions:
  assumes "later db d" "\<And>s. ses_id (f s) = ses_id s" "\<And>s. ses_revokedAt s \<noteq> None \<Longrightarrow> ses_revokedAt (f s) \<noteq> None"
  shows "later db (d\<lparr>au_sessions := snd (updateMany p f (au_sessions d))\<rparr>)"
  using assms by (auto simp: later_def dead_def updateMany_def)

lemma later_revokeAll [later_rules]: "later db d \<Longrightarrow> later db (revokeAllSessionsForUser i k now d)"
  unfolding revokeAllSessionsForUser_def by (erule later_sessions) simp_all

lemma later_revoke [later_rules]: "later db d \<Longrightarrow> later db (revokeSession sid now d)"
  unfolding revokeSession_def by (erule later_sessions) simp_all

lemma later_touch [later_rules]: "later db d \<Longrightarrow> later db (touchSession sid i now d)"
  by (auto simp: touchSession_def intro!: later_rules later_sessions)

lemma later_cleanup [later_rules]: "later db d \<Longrightarrow> later db (cleanupExpiredSessions now d)"
  by (auto simp: cleanupExpiredSessions_def later_def dead_def)

lemma later_create [later_rules]: "later db d \<Longrightarrow> later db (snd (createSession i r now d))"
  by (auto simp: createSession_def Let_def later_def dead_def)

lemma later_destroy [later_rules]: "later db d \<Longrightarrow> later db (destroySession c now d)"
  by (auto simp: destroySession_def intro: later_rules split: option.split)

lemma later_request [later_rules]: "later db d \<Longrightarrow> later db (snd (snd (getSessionUser c now d)))"
  by (auto simp: getSessionUser_def Let_def intro: later_rules split: option.split)

lemma later_consume [later_rules]: "later db d \<Longrightarrow> later db (snd (consumeVerificationToken cr raw ty now d))"
  by (auto simp: consumeVerificationToken_def claimToken_def case_prod_beta Let_def intro: later_rules split: option.split)

lemma later_createRow: "createUserRow row d = Inr (u, d') \<Longrightarrow> later db d \<Longrightarrow> later db d'"
  by (auto simp: createUserRow_def Let_def later_def dead_def split: option.splits)

lemma later_verification: "sendEmailVerification cr i raw now d = Inr d' \<Longrightarrow> later db d \<Longrightarrow> later db d'"
  by (auto simp: sendEmailVerification_def intro: later_rules split: option.splits if_splits)

lemma later_checkOtp [later_rules]: "later db d \<Longrightarrow> later db (snd (checkOtp cr p k purpose now d))"
  by (auto simp: checkOtp_def case_prod_beta Let_def intro: later_rules)

text \<open>The operations of \<open>auth.ts\<close>.\<close>

lemma later_login [later_rules]: "later db d \<Longrightarrow> later db (snd (loginDecide cr u pw now d))"
  by (auto simp: loginDecide_def countFailure_def Let_def case_prod_beta intro!: later_rules split: option.split)

lemma later_mfa [later_rules]: "later db d \<Longrightarrow> later db (snd (mfaDecide cr idText u k now d))"
  by (auto simp: mfaDecide_def useBackupCode_def Let_def case_prod_beta intro!: later_rules split: option.split)

lemma later_verifyEmail [later_rules]: "later db d \<Longrightarrow> later db (snd (verifyEmail cr token now d))"
  using later_consume [of db d cr token EMAIL_VERIFY now]
  by (auto simp: verifyEmail_def case_prod_beta intro!: later_rules split: option.split prod.split)

lemma later_requestReset [later_rules]: "later db d \<Longrightarrow> later db (requestPasswordReset cr e raw now d)"
  by (auto simp: requestPasswordReset_def intro!: later_rules split: option.split)

lemma later_reset [later_rules]: "later db d \<Longrightarrow> later db (snd (resetPassword cr token h now d))"
  using later_consume [of db d cr token PASSWORD_RESET now]
  by (auto simp: resetPassword_def Let_def intro!: later_rules split: option.split prod.split)

lemma later_register: "registerUser cr name e h l raw now d = Inr (x, d') \<Longrightarrow> later db d \<Longrightarrow> later db d'"
  by (auto simp: registerUser_def Let_def case_prod_beta split: if_splits sum.splits prod.splits
      intro!: later_rules elim!: later_verification later_createRow)

lemma later_account:
  "changePassword cr i sid cur h now d = Inr d' \<Longrightarrow> later db d \<Longrightarrow> later db d'"
  "beginMfaEnrolment i sec d = Inr d' \<Longrightarrow> later db d \<Longrightarrow> later db d'"
  "confirmMfaEnrolment cr idText i k hs now d = Inr d' \<Longrightarrow> later db d \<Longrightarrow> later db d'"
  "disableMfa cr idText i pw k allow now d = Inr d' \<Longrightarrow> later db d \<Longrightarrow> later db d'"
  by (auto simp: changePassword_def beginMfaEnrolment_def confirmMfaEnrolment_def disableMfa_def enableMfaForUser_def Let_def
      split: option.splits if_splits intro!: later_rules)

text \<open>The operations of \<open>phoneAuth.ts\<close> and \<open>users.ts\<close>.\<close>

lemma later_phoneLogin [later_rules]: "later db d \<Longrightarrow> later db (snd (loginWithPhoneOtp cr p k now d))"
  by (auto simp: loginWithPhoneOtp_def Let_def case_prod_beta intro!: later_rules split: option.split)

lemma later_attach [later_rules]: "later db d \<Longrightarrow> later db (attachTo i k d)"
  by (erule later_same [rotated -1]) (simp_all add: attachTo_def Let_def)

lemma later_createPhoneUser: "createPhoneUser name e p l now d = Inr (u, a, d') \<Longrightarrow> later db d \<Longrightarrow> later db d'"
  by (auto simp: createPhoneUser_def Let_def split: sum.splits if_splits prod.splits elim: later_createRow)

lemma later_signup: "completePhoneSignup cr c name e l k raw now d = Inr (x, d') \<Longrightarrow> later db d \<Longrightarrow> later db d'"
  by (auto simp: completePhoneSignup_def Let_def case_prod_beta split: if_splits option.splits sum.splits prod.splits
      intro!: later_rules elim!: later_verification later_createPhoneUser)

lemma later_writePhone: "writePhone b sid p now d = Inr d' \<Longrightarrow> later db d \<Longrightarrow> later db d'"
  by (auto simp: writePhone_def Let_def split: if_splits option.splits intro!: later_rules)

lemma later_changePhone [later_rules]: "later db d \<Longrightarrow> later db (snd (changePhone cr i sid p k now d))"
  by (auto simp: changePhone_def Let_def case_prod_beta split: option.split sum.split intro!: later_rules elim!: later_writePhone)

lemma later_addEmail: "addEmail cr i e raw now d = Inr (b, d') \<Longrightarrow> later db d \<Longrightarrow> later db d'"
  by (auto simp: addEmail_def Let_def case_prod_beta map_sum_def split: if_splits option.splits sum.splits elim!: later_verification
      intro!: later_rules)

lemma later_setPassword [later_rules]: "later db d \<Longrightarrow> later db (snd (setInitialPassword cr i sid k h now d))"
  by (auto simp: setInitialPassword_def Let_def case_prod_beta split: sum.split intro!: later_rules)

lemma later_admin:
  "createUser name e h r actor d = Inr (u, d') \<Longrightarrow> later db d \<Longrightarrow> later db d'"
  "updateUser i c actor now d = Inr d' \<Longrightarrow> later db d \<Longrightarrow> later db d'"
  by (auto simp: createUser_def updateUser_def writeUser_def Let_def map_sum_def split: if_splits option.splits sum.splits intro!: later_rules
      elim!: later_createRow)

section \<open>Runs\<close>

datatype AuthEvent = FirstFactor nat int bool | SecondFactor nat int | Registered nat | PhoneProven string int

record AuthRun =
  ar_db :: AuthDb
  ar_reads :: "Login option list"
  ar_issued :: "Payload list"
  ar_log :: "AuthEvent list"

definition cookiesOf :: "LoginOutcome \<Rightarrow> Payload list" where
  "cookiesOf out = (case out of SessionFor u p \<Rightarrow> [p] | MfaRequired p \<Rightarrow> [p] | InvalidLogin \<Rightarrow> [] | DisabledLogin \<Rightarrow> [])"

definition phoneCookies :: "PhoneLoginOutcome \<Rightarrow> Payload list" where
  "phoneCookies out = (case out of LoginAs o1 \<Rightarrow> cookiesOf o1 | NeedsProfile p \<Rightarrow> [p])"

definition signupCookies :: "PhoneSignupOutcome \<Rightarrow> Payload list" where
  "signupCookies out = (case out of Created u p b \<Rightarrow> [p] | SignupExpired \<Rightarrow> [] | PhoneTaken \<Rightarrow> [])"

text \<open>What a request proves, whatever it is answered.\<close>

definition passwordEvents :: "Crypto \<Rightarrow> Login option \<Rightarrow> string \<Rightarrow> int \<Rightarrow> AuthEvent list" where
  "passwordEvents cr user password now =
     (case user of None \<Rightarrow> []
      | Some u \<Rightarrow> if \<not> isLocked now u \<and> passwordValid cr password u then [FirstFactor (usr_id u) now (lg_mfaEnabled u)] else [])"

definition otpEvents :: "Crypto \<Rightarrow> string \<Rightarrow> string \<Rightarrow> OtpPurpose \<Rightarrow> int \<Rightarrow> AuthDb \<Rightarrow> AuthEvent list" where
  "otpEvents cr phoneInput k purpose now db =
     (case normalizePhone phoneInput of None \<Rightarrow> []
      | Some phone \<Rightarrow> if fst (checkOtp cr phone k purpose now db) then [PhoneProven phone now] else [])"

definition phoneEvents :: "Crypto \<Rightarrow> string \<Rightarrow> string \<Rightarrow> int \<Rightarrow> AuthDb \<Rightarrow> AuthEvent list" where
  "phoneEvents cr phoneInput k now db =
     otpEvents cr phoneInput k OTP_LOGIN now db
     @ (case normalizePhone phoneInput of None \<Rightarrow> []
        | Some phone \<Rightarrow>
           (case userByPhone phone db of
              None \<Rightarrow> []
            | Some u \<Rightarrow> if fst (checkOtp cr phone k OTP_LOGIN now db) then [FirstFactor (usr_id u) now (lg_mfaEnabled u)] else []))"

definition secondEvents :: "Crypto \<Rightarrow> (nat \<Rightarrow> string) \<Rightarrow> Login option \<Rightarrow> string \<Rightarrow> int \<Rightarrow> AuthEvent list" where
  "secondEvents cr idText user k now =
     (case user of None \<Rightarrow> []
      | Some u \<Rightarrow>
         if mfaReady user \<and> (verifyTotp cr (the (lg_mfaSecretEnc u)) k (mfaLabel idText u) now \<or> matchBackupCode cr (lg_mfaBackupCodes u) k \<noteq> None)
         then [SecondFactor (usr_id u) now] else [])"

definition proceed :: "AuthRun \<Rightarrow> AuthDb \<Rightarrow> Payload list \<Rightarrow> AuthEvent list \<Rightarrow> AuthRun" where
  "proceed s db cookies events = s\<lparr>ar_db := db, ar_issued := ar_issued s @ cookies, ar_log := ar_log s @ events\<rparr>"

text \<open>
  A cookie is presented as it was signed and before it expires. The id and session of an authenticated request are
  arbitrary here, so that the results do not depend on who calls.
\<close>

inductive auth_step :: "Crypto \<Rightarrow> (nat \<Rightarrow> string) \<Rightarrow> AuthRun \<Rightarrow> AuthRun \<Rightarrow> bool" for cr idText where
  reads: "auth_step cr idText s (s\<lparr>ar_reads := ar_reads s @ [loginRead identifier (ar_db s)]\<rparr>)"
| decides: "ar_reads s = us @ u # vs \<Longrightarrow> loginDecide cr u password now (ar_db s) = (out, db)
    \<Longrightarrow> auth_step cr idText s (proceed (s\<lparr>ar_reads := us @ vs\<rparr>) db (cookiesOf out) (passwordEvents cr u password now))"
| second: "cookie \<in> set (ar_issued s) \<Longrightarrow> unexpired now cookie \<Longrightarrow> readMfaChallenge (Some cookie) = Some i
    \<Longrightarrow> completeMfaLogin cr idText i k now (ar_db s) = (out, db)
    \<Longrightarrow> auth_step cr idText s (proceed s db (cookiesOf out) (secondEvents cr idText (userById i (ar_db s)) k now))"
| registers: "registerUser cr name email h locale raw now (ar_db s) = Inr (Some (u, p), db)
    \<Longrightarrow> auth_step cr idText s (proceed s db [p] [Registered (usr_id u)])"
| resends: "sendEmailVerification cr i raw now (ar_db s) = Inr db \<Longrightarrow> auth_step cr idText s (proceed s db [] [])"
| verifies: "auth_step cr idText s (proceed s (snd (verifyEmail cr token now (ar_db s))) [] [])"
| asks_reset: "auth_step cr idText s (proceed s (requestPasswordReset cr email raw now (ar_db s)) [] [])"
| resets: "auth_step cr idText s (proceed s (snd (resetPassword cr token h now (ar_db s))) [] [])"
| changes: "changePassword cr i sid current h now (ar_db s) = Inr db \<Longrightarrow> auth_step cr idText s (proceed s db [] [])"
| enrols: "beginMfaEnrolment i secret (ar_db s) = Inr db \<Longrightarrow> auth_step cr idText s (proceed s db [] [])"
| confirms: "confirmMfaEnrolment cr idText i k hashes now (ar_db s) = Inr db \<Longrightarrow> auth_step cr idText s (proceed s db [] [])"
| disables: "disableMfa cr idText i password k allow now (ar_db s) = Inr db \<Longrightarrow> auth_step cr idText s (proceed s db [] [])"
| sends_code: "requestPhoneOtp (cr_hmac cr) raw purpose unavailable random now createdAt delivered console (au_otps (ar_db s)) = (r, t)
    \<Longrightarrow> auth_step cr idText s (proceed s ((ar_db s)\<lparr>au_otps := t\<rparr>) [] [])"
| phone_login: "loginWithPhoneOtp cr phone k now (ar_db s) = (out, db)
    \<Longrightarrow> auth_step cr idText s (proceed s db (phoneCookies out) (phoneEvents cr phone k now (ar_db s)))"
| signs_up: "cookie \<in> set (ar_issued s) \<Longrightarrow> unexpired now cookie
    \<Longrightarrow> completePhoneSignup cr (Some cookie) name email locale code1 raw now (ar_db s) = Inr (out, db)
    \<Longrightarrow> auth_step cr idText s (proceed s db (signupCookies out)
          (case out of Created u p b \<Rightarrow> [Registered (usr_id u)] | SignupExpired \<Rightarrow> [] | PhoneTaken \<Rightarrow> []))"
| changes_phone: "auth_step cr idText s (proceed s (snd (changePhone cr i sid phone k now (ar_db s))) []
          (otpEvents cr phone k OTP_CHANGE_PHONE now (ar_db s)))"
| adds_email: "addEmail cr i email raw now (ar_db s) = Inr (b, db) \<Longrightarrow> auth_step cr idText s (proceed s db [] [])"
| sets_password: "auth_step cr idText s (proceed s (snd (setInitialPassword cr i sid k h now (ar_db s))) [] [])"
| admin_creates: "createUser name email h role actor (ar_db s) = Inr (u, db) \<Longrightarrow> auth_step cr idText s (proceed s db [] [])"
| admin_updates: "updateUser i c actor now (ar_db s) = Inr db \<Longrightarrow> auth_step cr idText s (proceed s db [] [])"
| requests: "cookie \<in> set (ar_issued s) \<Longrightarrow> auth_step cr idText s (proceed s (snd (snd (getSessionUser (Some cookie) now (ar_db s)))) [] [])"
| touches: "auth_step cr idText s (proceed s (touchSession sid i now (ar_db s)) [] [])"
| leaves: "cookie \<in> set (ar_issued s) \<Longrightarrow> auth_step cr idText s (proceed s (destroySession (Some cookie) now (ar_db s)) [] [])"
| cleans_up: "auth_step cr idText s (proceed s (cleanupExpiredSessions now (ar_db s)) [] [])"

abbreviation auth_steps :: "Crypto \<Rightarrow> (nat \<Rightarrow> string) \<Rightarrow> AuthRun \<Rightarrow> AuthRun \<Rightarrow> bool" where
  "auth_steps cr idText \<equiv> (auth_step cr idText)\<^sup>*\<^sup>*"

lemma proceed_simps [simp]:
  "ar_db (proceed s db c e) = db" "ar_issued (proceed s db c e) = ar_issued s @ c" "ar_log (proceed s db c e) = ar_log s @ e"
  by (simp_all add: proceed_def)

section \<open>Ended sessions stay ended\<close>

lemma step_later: "auth_step cr idText s s' \<Longrightarrow> later (ar_db s) (ar_db s')"
proof (induction rule: auth_step.induct)
  case (decides s us u vs password now out db)
  then show ?case using later_login [OF session_later_refl, of "ar_db s" cr u password now] by simp
next
  case (second cookie s now i k out db)
  then show ?case using later_mfa [OF session_later_refl, of "ar_db s" cr idText "userById i (ar_db s)" k now] by (simp add: completeMfaLogin_def)
next
  case (phone_login phone k now s out db)
  then show ?case using later_phoneLogin [OF session_later_refl, of "ar_db s" cr phone k now] by simp
qed (auto intro: later_rules later_account later_register later_verification later_signup later_addEmail later_admin)

lemma steps_later: "auth_steps cr idText s s' \<Longrightarrow> later (ar_db s) (ar_db s')"
  by (induction rule: rtranclp_induct) (auto intro: session_later_refl session_later_trans step_later)

text \<open>What ends the sessions of a user: \<open>kept\<close> is the session that stays.\<close>

inductive ends_sessions :: "Crypto \<Rightarrow> nat \<Rightarrow> nat option \<Rightarrow> AuthDb \<Rightarrow> AuthDb \<Rightarrow> bool" for cr where
  by_reset: "consumeVerificationToken cr token PASSWORD_RESET now db = (Some i, d) \<Longrightarrow> resetPassword cr token h now db = (True, db')
    \<Longrightarrow> ends_sessions cr i None db db'"
| by_change: "changePassword cr i sid current h now db = Inr db' \<Longrightarrow> ends_sessions cr i (Some sid) db db'"
| by_setting: "setInitialPassword cr i sid k h now db = (Inr (), db') \<Longrightarrow> ends_sessions cr i (Some sid) db db'"
| by_phone: "changePhone cr i sid phone k now db = (Inr p, db') \<Longrightarrow> userById i db = Some u \<Longrightarrow> lg_phone u \<noteq> Some p
    \<Longrightarrow> ends_sessions cr i (Some sid) db db'"
| by_disabling: "updateUser i c actor now db = Inr db' \<Longrightarrow> uc_status c = Some USER_DISABLED \<Longrightarrow> userById i db = Some u
    \<Longrightarrow> usr_status u = USER_ACTIVE \<Longrightarrow> ends_sessions cr i None db db'"

lemma userById_id: "userById i d = Some u \<Longrightarrow> usr_id u = i"
  by (auto simp: userById_def userWhere_def dest: findUnique_Some)

lemma dead_audit [simp]: "dead sid (auditAuth a b c d) = dead sid d" "dead sid (auditUser i b d) = dead sid d"
  by (simp_all add: dead_def auditAuth_def auditUser_def)

lemma dead_revokeAll:
  assumes "\<forall>s\<in>set (au_sessions d). ses_id s = sid \<longrightarrow> ses_userId s = i" "kept \<noteq> Some sid"
  shows "dead sid (revokeAllSessionsForUser i kept now d)"
  using assms by (auto simp: dead_def revokeAllSessionsForUser_def updateMany_def)

lemma same_sessions [simp]:
  "au_sessions (setUser i f d) = au_sessions d" "au_sessions (auditUser i a d) = au_sessions d"
  "au_sessions (snd (consumeVerificationToken cr raw ty now d)) = au_sessions d" "au_sessions (snd (checkOtp cr p k purpose now d)) = au_sessions d"
  "au_sessions (auditAuth x a t d) = au_sessions d"
  by (auto simp: setUser_def auditUser_def auditAuth_def consumeVerificationToken_def claimToken_def checkOtp_def case_prod_beta Let_def
      split: option.split)

lemma ends_dead:
  assumes "ends_sessions cr i kept db db'" "\<forall>s\<in>set (au_sessions db). ses_id s = sid \<longrightarrow> ses_userId s = i" "kept \<noteq> Some sid"
  shows "dead sid db'"
  using assms
proof (induction rule: ends_sessions.induct)
  case (by_reset token now db i d h db')
  have "au_sessions d = au_sessions db" using same_sessions(3) [of cr token PASSWORD_RESET now db] by_reset(1) by simp
  then show ?case using by_reset by (auto simp: resetPassword_def Let_def intro!: dead_revokeAll)
next
  case (by_change i sid current h now db db')
  then show ?case by (auto simp: changePassword_def Let_def split: option.splits if_splits intro!: dead_revokeAll)
next
  case (by_setting i sid k h now db db')
  then show ?case
    by (auto simp: setInitialPassword_def Let_def case_prod_beta split: sum.splits if_splits intro!: dead_revokeAll)
next
  case (by_phone i sid phone k now db p db' u)
  then show ?case using userById_id [OF by_phone(2)]
    by (auto simp: changePhone_def writePhone_def Let_def case_prod_beta split: option.splits sum.splits if_splits intro!: dead_revokeAll)
next
  case (by_disabling i c actor now db db' u)
  then show ?case by (auto simp: updateUser_def writeUser_def Let_def split: option.splits intro!: dead_revokeAll)
qed

lemma dead_refused:
  assumes "dead sid db" "pl_sid p = Some sid"
  shows "fst (getSessionUser (Some p) now db) = None"
proof (cases "findUnique (\<lambda>s. ses_id s = sid) (au_sessions db)")
  case (Some s)
  then have "ses_revokedAt s \<noteq> None" using assms(1) findUnique_Some [OF Some] by (auto simp: dead_def)
  then show ?thesis using assms(2) Some by (auto simp: getSessionUser_def split: option.split)
qed (simp add: getSessionUser_def assms(2))

end
