(* ===== verification/AuthProofs.thy ===== *)
theory AuthProofs
  imports AuthRun
begin

text \<open>
  What the log of a run justifies: every verified phone, every session and every signed cookie.
\<close>

section \<open>Users and sessions that are accounted for\<close>

definition proven :: "AuthEvent list \<Rightarrow> Login \<Rightarrow> bool" where
  "proven evs u \<longleftrightarrow> (lg_phoneVerifiedAt u \<noteq> None \<longrightarrow> (\<exists>p t. lg_phone u = Some p \<and> PhoneProven p t \<in> set evs))"

text \<open>
  A database is accounted for by a log when every verified phone was proven, ids are unique, and \<open>Q\<close> holds of the id and
  the user of every session; what creates a session has to show \<open>Q\<close> for its user, whatever the new id.
\<close>

definition safe :: "AuthEvent list \<Rightarrow> (nat \<Rightarrow> nat \<Rightarrow> bool) \<Rightarrow> AuthDb \<Rightarrow> bool" where
  "safe evs Q db \<longleftrightarrow> distinct (map usr_id (au_users db)) \<and> (\<forall>u\<in>set (au_users db). usr_id u < au_nextId db \<and> proven evs u)
     \<and> (\<forall>s\<in>set (au_sessions db). Q (ses_id s) (ses_userId s))"

named_theorems safe_rules

lemma safe_more: "safe evs Q db \<Longrightarrow> set evs \<subseteq> set evs' \<Longrightarrow> \<forall>s\<in>set (au_sessions db). Q' (ses_id s) (ses_userId s) \<Longrightarrow> safe evs' Q' db"
  unfolding safe_def proven_def by (elim conjE, intro conjI) (fast, fast, blast)

lemma safe_same:
  "au_users d' = au_users d \<Longrightarrow> au_sessions d' = au_sessions d \<Longrightarrow> au_nextId d \<le> au_nextId d' \<Longrightarrow> safe evs Q d \<Longrightarrow> safe evs Q d'"
  by (auto simp: safe_def)

lemma safe_frame [safe_rules]:
  "safe evs Q d \<Longrightarrow> safe evs Q (auditAuth a b c d)" "safe evs Q d \<Longrightarrow> safe evs Q (auditUser i b d)"
  "safe evs Q d \<Longrightarrow> safe evs Q (d\<lparr>au_otps := t\<rparr>)" "safe evs Q d \<Longrightarrow> safe evs Q (d\<lparr>au_tokens := ts\<rparr>)"
  "safe evs Q d \<Longrightarrow> safe evs Q (createVerificationToken cr i ty ttl raw now d)"
  by (erule safe_same [rotated -1], simp_all add: auditAuth_def auditUser_def createVerificationToken_def)+

definition userKey :: "Login \<Rightarrow> nat \<times> string option \<times> bool" where
  "userKey u = (usr_id u, lg_phone u, lg_phoneVerifiedAt u \<noteq> None)"

lemma safe_keys:
  assumes "safe evs Q d" "map userKey us = map userKey (au_users d)"
  shows "safe evs Q (d\<lparr>au_users := us\<rparr>)"
proof -
  have ids: "map usr_id us = map usr_id (au_users d)"
    using arg_cong [OF assms(2), of "map fst"] by (simp add: comp_def userKey_def)
  have "\<exists>v\<in>set (au_users d). userKey v = userKey u" if "u \<in> set us" for u
  proof -
    have "userKey u \<in> userKey ` set (au_users d)" using that arg_cong [OF assms(2), of set] imageI [of u "set us" userKey] by simp
    then show ?thesis by auto
  qed
  then have all: "\<forall>u\<in>set us. \<exists>v\<in>set (au_users d). userKey v = userKey u" by blast
  have "usr_id u < au_nextId d \<and> proven evs u" if mem: "u \<in> set us" for u
  proof -
    obtain v where v: "v \<in> set (au_users d)" "userKey v = userKey u" using all mem by blast
    then have "usr_id v < au_nextId d" "proven evs v" using assms(1) by (simp_all add: safe_def)
    then show ?thesis using v(2) by (simp add: proven_def userKey_def)
  qed
  then show ?thesis using assms(1) ids by (simp add: safe_def)
qed

lemma safe_update:
  assumes "safe evs Q d" "\<And>u. p u \<Longrightarrow> userKey (f u) = userKey u"
  shows "safe evs Q (d\<lparr>au_users := snd (updateMany p f (au_users d))\<rparr>)"
  by (rule safe_keys [OF assms(1)]) (simp add: updateMany_def assms(2))

lemma safe_setUser [safe_rules]: "safe evs Q d \<Longrightarrow> (\<And>u. userKey (f u) = userKey u) \<Longrightarrow> safe evs Q (setUser i f d)"
  unfolding setUser_def by (rule safe_update)

lemma safe_setProven:
  assumes "safe evs Q d" "\<And>u. usr_id (f u) = usr_id u" "\<And>u. u \<in> set (au_users d) \<Longrightarrow> usr_id u = i \<Longrightarrow> proven evs (f u)"
  shows "safe evs Q (setUser i f d)"
proof -
  have "map usr_id (snd (updateMany (\<lambda>u. usr_id u = i) f (au_users d))) = map usr_id (au_users d)"
    by (simp add: updateMany_def assms(2))
  moreover have "usr_id u < au_nextId d \<and> proven evs u" if "u \<in> set (snd (updateMany (\<lambda>u. usr_id u = i) f (au_users d)))" for u
    using that assms by (auto simp: updateMany_def safe_def split: if_splits)
  ultimately show ?thesis using assms(1) by (simp add: safe_def setUser_def)
qed

lemma safe_sessions:
  "safe evs Q d \<Longrightarrow> (\<And>s. ses_id (f s) = ses_id s \<and> ses_userId (f s) = ses_userId s) \<Longrightarrow> safe evs Q (d\<lparr>au_sessions := snd (updateMany p f (au_sessions d))\<rparr>)"
  by (auto simp: safe_def updateMany_def)

lemma safe_revoke [safe_rules]:
  "safe evs Q d \<Longrightarrow> safe evs Q (revokeSession sid now d)" "safe evs Q d \<Longrightarrow> safe evs Q (revokeAllSessionsForUser i kept now d)"
  unfolding revokeSession_def revokeAllSessionsForUser_def by (erule safe_sessions, simp)+

lemma safe_touch [safe_rules]: "safe evs Q d \<Longrightarrow> safe evs Q (touchSession sid i now d)"
  by (auto simp: touchSession_def userKey_def intro!: safe_setUser safe_sessions)

lemma safe_create [safe_rules]: "safe evs Q d \<Longrightarrow> (\<And>sid. Q sid i) \<Longrightarrow> safe evs Q (snd (createSession i r now d))"
  by (auto simp: createSession_def Let_def safe_def less_SucI)

lemma safe_access [safe_rules]:
  "safe evs Q d \<Longrightarrow> safe evs Q (cleanupExpiredSessions now d)" "safe evs Q d \<Longrightarrow> safe evs Q (destroySession c now d)"
  "safe evs Q d \<Longrightarrow> safe evs Q (snd (snd (getSessionUser c now d)))"
  by (auto simp: cleanupExpiredSessions_def safe_def destroySession_def getSessionUser_def Let_def revokeSession_def updateMany_def
      split: option.split)

lemma safe_consume [safe_rules]: "safe evs Q d \<Longrightarrow> safe evs Q (snd (consumeVerificationToken cr raw ty now d))"
  by (auto simp: consumeVerificationToken_def claimToken_def case_prod_beta Let_def intro: safe_rules split: option.split)

lemma safe_checkOtp [safe_rules]: "safe evs Q d \<Longrightarrow> safe evs Q (snd (checkOtp cr p k purpose now d))"
  by (auto simp: checkOtp_def case_prod_beta Let_def intro: safe_rules)

lemma safe_createRow:
  assumes "createUserRow row d = Inr (u, d')" "safe evs Q d" "\<And>i. usr_id (row i) = i" "\<And>i. proven evs (row i)"
  shows "safe evs Q d'"
proof -
  have d': "d' = d\<lparr>au_users := au_users d @ [row (au_nextId d)], au_nextId := au_nextId d + 1\<rparr>"
    using assms(1) by (auto simp: createUserRow_def Let_def split: option.splits)
  have "au_nextId d \<notin> usr_id ` set (au_users d)" using assms(2) by (auto simp: safe_def)
  then show ?thesis using assms(2-4) unfolding safe_def d' by (auto simp: less_SucI)
qed

lemma safe_verification: "sendEmailVerification cr i raw now d = Inr d' \<Longrightarrow> safe evs Q d \<Longrightarrow> safe evs Q d'"
  by (auto simp: sendEmailVerification_def intro: safe_rules split: option.splits if_splits)

section \<open>The operations\<close>

lemma safe_login [safe_rules]:
  "safe evs Q d \<Longrightarrow> (\<And>x. u = Some x \<Longrightarrow> \<not> isLocked now x \<Longrightarrow> passwordValid cr pw x \<Longrightarrow> \<not> lg_mfaEnabled x \<Longrightarrow> \<forall>sid. Q sid (usr_id x))
    \<Longrightarrow> safe evs Q (snd (loginDecide cr u pw now d))"
  by (auto simp: loginDecide_def countFailure_def Let_def case_prod_beta userKey_def intro!: safe_rules split: option.split)

lemma safe_mfa [safe_rules]:
  "safe evs Q d \<Longrightarrow> (\<And>x. u = Some x \<Longrightarrow> secondEvents cr idText u k now \<noteq> [] \<Longrightarrow> \<forall>sid. Q sid (usr_id x))
    \<Longrightarrow> safe evs Q (snd (mfaDecide cr idText u k now d))"
  by (auto simp: mfaDecide_def useBackupCode_def secondEvents_def Let_def case_prod_beta userKey_def mfaReady_def
      intro!: safe_rules split: option.splits)

lemma safe_email [safe_rules]:
  "safe evs Q d \<Longrightarrow> safe evs Q (snd (verifyEmail cr token now d))" "safe evs Q d \<Longrightarrow> safe evs Q (requestPasswordReset cr e raw now d)"
  "safe evs Q d \<Longrightarrow> safe evs Q (snd (resetPassword cr token h now d))"
  using safe_consume [of evs _ d cr token EMAIL_VERIFY now] safe_consume [of evs _ d cr token PASSWORD_RESET now]
  by (auto simp: verifyEmail_def requestPasswordReset_def resetPassword_def userKey_def Let_def intro!: safe_rules split: option.split prod.split)

lemma safe_account:
  "changePassword cr i sid cur h now d = Inr d' \<Longrightarrow> safe evs Q d \<Longrightarrow> safe evs Q d'"
  "beginMfaEnrolment i sec d = Inr d' \<Longrightarrow> safe evs Q d \<Longrightarrow> safe evs Q d'"
  "confirmMfaEnrolment cr idText i k hs now d = Inr d' \<Longrightarrow> safe evs Q d \<Longrightarrow> safe evs Q d'"
  "disableMfa cr idText i pw k allow now d = Inr d' \<Longrightarrow> safe evs Q d \<Longrightarrow> safe evs Q d'"
  by (auto simp: changePassword_def beginMfaEnrolment_def confirmMfaEnrolment_def disableMfa_def enableMfaForUser_def userKey_def Let_def
      split: option.splits if_splits intro!: safe_rules)

lemma safe_register:
  assumes "registerUser cr name e h l raw now d = Inr (Some (u, p), d')" "safe evs Q d" "\<And>sid. Q sid (usr_id u)"
  shows "safe evs Q d'"
proof -
  let ?row = "\<lambda>i. newLogin i name (Some e) None (Some h) TRADER None l"
  obtain d1 d2 where d1: "createUserRow ?row d = Inr (u, d1)"
    and d2: "sendEmailVerification cr (usr_id u) raw now (auditUser (usr_id u) ''USER_REGISTERED'' d1) = Inr d2"
    and d': "d' = snd (createSession (usr_id u) (lg_role u) now d2)"
    using assms(1) by (auto simp: registerUser_def Let_def case_prod_beta split: if_splits sum.splits prod.splits)
  have "safe evs Q d1" by (rule safe_createRow [OF d1 assms(2)]) (simp_all add: newLogin_def proven_def)
  then have "safe evs Q d2" using safe_verification [OF d2] by (simp add: safe_rules)
  then show ?thesis unfolding d' by (rule safe_create) (rule assms(3))
qed

lemma safe_phoneLogin:
  assumes "safe evs Q d" "set (phoneEvents cr ph k now d) \<subseteq> set evs"
    "\<And>i t sid. FirstFactor i t False \<in> set (phoneEvents cr ph k now d) \<Longrightarrow> Q sid i"
  shows "safe evs Q (snd (loginWithPhoneOtp cr ph k now d))"
proof (cases "normalizePhone ph")
  case (Some phone)
  let ?d = "snd (checkOtp cr phone k OTP_LOGIN now d)"
  have users: "au_users ?d = au_users d" by (simp add: checkOtp_def case_prod_beta Let_def)
  have byPhone: "userByPhone phone ?d = userByPhone phone d" by (simp add: userByPhone_def userWhere_def users)
  have ok: "safe evs Q ?d" by (rule safe_checkOtp [OF assms(1)])
  show ?thesis
  proof (cases "fst (checkOtp cr phone k OTP_LOGIN now d) \<and> (\<exists>u. userByPhone phone d = Some u \<and> usr_status u \<noteq> USER_DISABLED)")
    case True
    then obtain u where u: "userByPhone phone d = Some u" "usr_status u \<noteq> USER_DISABLED" and c: "fst (checkOtp cr phone k OTP_LOGIN now d)" by auto
    let ?f = "\<lambda>r. r\<lparr>lg_failedLoginCount := 0, lg_lockedUntil := None,
        lg_phoneVerifiedAt := (if lg_phoneVerifiedAt u = None then Some now else lg_phoneVerifiedAt r)\<rparr>"
    have mem: "u \<in> set (au_users d)" "lg_phone u = Some phone"
      using u(1) findUnique_Some by (auto simp: userByPhone_def userWhere_def dest: findUnique_Some)
    have ev: "PhoneProven phone now \<in> set evs" "FirstFactor (usr_id u) now (lg_mfaEnabled u) \<in> set (phoneEvents cr ph k now d)"
      using assms(2) Some u(1) c by (auto simp: phoneEvents_def otpEvents_def)
    have earned: "Q sid (usr_id u)" if "\<not> lg_mfaEnabled u" for sid using ev(2) assms(3) that by simp
    have "safe evs Q (setUser (usr_id u) ?f ?d)"
    proof (rule safe_setProven [OF ok])
      fix r assume "r \<in> set (au_users ?d)" "usr_id r = usr_id u"
      then have "r = u" using assms(1) mem(1) users by (auto simp: safe_def distinct_map inj_on_def)
      then show "proven evs (?f r)" using mem(2) ev(1) by (auto simp: proven_def)
    qed simp
    then show ?thesis using Some u c ev byPhone
      by (auto simp: loginWithPhoneOtp_def Let_def case_prod_beta intro!: safe_rules earned)
  next
    case False
    then show ?thesis using Some ok byPhone
      by (auto simp: loginWithPhoneOtp_def Let_def case_prod_beta intro!: safe_rules split: option.split)
  qed
qed (use assms(1) in \<open>simp add: loginWithPhoneOtp_def\<close>)

lemma attach_keys: "map userKey (au_users (attachTo i k d)) = map userKey (au_users d)"
proof -
  let ?s = "attachReferral i k ((au_store d)\<lparr>st_users := map toUser (au_users d)\<rparr>)"
  have len: "length (st_users ?s) = length (au_users d)"
    by (auto simp: attachReferral_def updateMany_def Let_def split: option.split)
  have "map userKey (au_users (attachTo i k d)) = map (userKey \<circ> fst) (zip (au_users d) (st_users ?s))"
    by (auto simp: attachTo_def Let_def userKey_def)
  also have "\<dots> = map userKey (au_users d)" using map_fst_zip [of "au_users d" "st_users ?s"] len by (simp flip: map_map)
  finally show ?thesis .
qed

lemma safe_attach [safe_rules]: "safe evs Q d \<Longrightarrow> safe evs Q (attachTo i k d)"
  by (rule safe_same [of _ "d\<lparr>au_users := au_users (attachTo i k d)\<rparr>"])
    (auto simp: attachTo_def Let_def intro!: safe_keys attach_keys [unfolded attachTo_def Let_def, simplified])

lemma safe_createPhoneUser:
  assumes "createPhoneUser name e p l now d = Inr (u, a, d')" "safe evs Q d" "PhoneProven p t \<in> set evs"
  shows "safe evs Q d'"
proof -
  have new: "proven evs (newLogin i name e' (Some p) None TRADER (Some now) (Some l))" for i e'
    using assms(3) by (auto simp: newLogin_def proven_def)
  have id: "usr_id (newLogin i name e' (Some p) None TRADER (Some now) (Some l)) = i" for i e' by (simp add: newLogin_def)
  obtain e' where "createUserRow (\<lambda>i. newLogin i name e' (Some p) None TRADER (Some now) (Some l)) d = Inr (u, d')"
    using assms(1) by (auto simp: createPhoneUser_def Let_def split: sum.splits if_splits prod.splits)
  from safe_createRow [OF this assms(2) id new] show ?thesis .
qed

lemma safe_signup:
  assumes "completePhoneSignup cr (Some c) name e l k raw now d = Inr (out, d')" "safe evs Q d"
    "\<And>p. readPhoneSignupProof (Some c) = Some p \<Longrightarrow> \<exists>t. PhoneProven p t \<in> set evs" "\<And>u p b sid. out = Created u p b \<Longrightarrow> Q sid (usr_id u)"
  shows "safe evs Q d'"
proof (cases "\<exists>u p b. out = Created u p b")
  case False
  then show ?thesis using assms(1,2)
    by (auto simp: completePhoneSignup_def Let_def case_prod_beta split: option.splits if_splits sum.splits prod.splits)
next
  case True
  then obtain u p b where out: "out = Created u p b" by blast
  obtain phone e' a d1 d2 where phone: "readPhoneSignupProof (Some c) = Some phone" and d1: "createPhoneUser name e' phone l now d = Inr (u, a, d1)"
    and d2: "(if a \<in> {None, Some []} then Inr (attachTo (usr_id u) k (auditUser (usr_id u) ''USER_REGISTERED'' d1))
        else sendEmailVerification cr (usr_id u) raw now (attachTo (usr_id u) k (auditUser (usr_id u) ''USER_REGISTERED'' d1))) = Inr d2"
    and d': "d' = snd (createSession (usr_id u) (lg_role u) now d2)"
    using assms(1) out by (auto simp: completePhoneSignup_def Let_def case_prod_beta split: option.splits if_splits sum.splits prod.splits)
  have "safe evs Q d1" using safe_createPhoneUser [OF d1 assms(2)] assms(3) [OF phone] by blast
  then have "safe evs Q (attachTo (usr_id u) k (auditUser (usr_id u) ''USER_REGISTERED'' d1))" by (intro safe_rules)
  then have "safe evs Q d2" using d2 safe_verification by (auto split: if_splits)
  then show ?thesis unfolding d' by (rule safe_create) (rule assms(4) [OF out])
qed

lemma safe_writePhone:
  assumes "writePhone b sid p now d = Inr d'" "safe evs Q d" "PhoneProven p now \<in> set evs"
  shows "safe evs Q d'"
proof -
  have "safe evs Q (setUser (usr_id b) (\<lambda>u. u\<lparr>lg_phone := Some p, lg_phoneVerifiedAt := Some now\<rparr>) d)"
    by (rule safe_setProven [OF assms(2)]) (use assms(3) in \<open>auto simp: proven_def\<close>)
  then show ?thesis using assms(1) by (auto simp: writePhone_def Let_def split: if_splits option.splits intro!: safe_rules)
qed

lemma safe_changePhone:
  assumes "safe evs Q d" "set (otpEvents cr ph k OTP_CHANGE_PHONE now d) \<subseteq> set evs"
  shows "safe evs Q (snd (changePhone cr i sid ph k now d))"
  using assms by (auto simp: changePhone_def otpEvents_def Let_def case_prod_beta split: option.split sum.split
      intro!: safe_rules elim!: safe_writePhone)

lemma safe_addEmail: "addEmail cr i e raw now d = Inr (b, d') \<Longrightarrow> safe evs Q d \<Longrightarrow> safe evs Q d'"
  by (auto simp: addEmail_def Let_def case_prod_beta map_sum_def split: if_splits option.splits sum.splits elim!: safe_verification
      intro!: safe_rules safe_update simp: userKey_def)

lemma safe_setPassword [safe_rules]: "safe evs Q d \<Longrightarrow> safe evs Q (snd (setInitialPassword cr i sid k h now d))"
  by (auto simp: setInitialPassword_def Let_def case_prod_beta split: sum.split intro!: safe_rules safe_update simp: userKey_def)

lemma safe_createUser: "createUser name e h r actor d = Inr (u, d') \<Longrightarrow> safe evs Q d \<Longrightarrow> safe evs Q d'"
  by (auto simp: createUser_def map_sum_def split: if_splits sum.splits intro!: safe_rules elim!: safe_createRow
      simp: newLogin_def proven_def)

lemma safe_updateUser: "updateUser i c actor now d = Inr d' \<Longrightarrow> safe evs Q d \<Longrightarrow> safe evs Q d'"
  by (auto simp: updateUser_def writeUser_def Let_def changedUser_def userKey_def split: option.splits intro!: safe_rules)

end
