(* ===== verification/AuthGuarantee.thy ===== *)
theory AuthGuarantee
  imports AuthProofs
begin

text \<open>
  The guarantees of sign-in over every reachable run: cookies, sessions and verified phones are earned; administrators,
  lockouts and their gaps.
\<close>

section \<open>Reachable runs\<close>

definition cookie_ok :: "AuthEvent list \<Rightarrow> Payload \<Rightarrow> bool" where
  "cookie_ok evs p \<longleftrightarrow>
     (pl_purpose p = Some ''mfa'' \<longrightarrow>
        pl_sid p = None \<and> (\<exists>i t. pl_sub p = Some i \<and> FirstFactor i t True \<in> set evs \<and> pl_exp p = t div 1000 + 300))
     \<and> (pl_purpose p = Some ''phone-signup'' \<longrightarrow>
        pl_sid p = None \<and> (\<exists>ph t. pl_phone p = Some ph \<and> PhoneProven ph t \<in> set evs \<and> pl_exp p = t div 1000 + 900))"

definition run_ok :: "AuthRun \<Rightarrow> bool" where
  "run_ok s \<longleftrightarrow> safe (ar_log s) (\<lambda>_ _. True) (ar_db s) \<and> (\<forall>p\<in>set (ar_issued s). cookie_ok (ar_log s) p)"

lemma cookie_more: "cookie_ok evs p \<Longrightarrow> set evs \<subseteq> set evs' \<Longrightarrow> cookie_ok evs' p"
  unfolding cookie_ok_def by blast

text \<open>
  What a request that opens a session must have shown itself: that it registered the user, that it checked the password or
  code of a user without a second factor, or that it checked the second factor of a user whose first one had been checked
  less than five minutes before.
\<close>

definition grounds :: "AuthEvent list \<Rightarrow> AuthEvent list \<Rightarrow> nat \<Rightarrow> bool" where
  "grounds past evs i \<longleftrightarrow> Registered i \<in> set evs \<or> (\<exists>t. FirstFactor i t False \<in> set evs)
     \<or> (\<exists>t t'. FirstFactor i t True \<in> set past \<and> SecondFactor i t' \<in> set evs \<and> t' div 1000 < t div 1000 + 300)"

definition hadSession :: "AuthDb \<Rightarrow> nat \<Rightarrow> nat \<Rightarrow> bool" where
  "hadSession db sid i \<longleftrightarrow> (\<exists>x\<in>set (au_sessions db). ses_id x = sid \<and> ses_userId x = i)"

definition accounted :: "AuthRun \<Rightarrow> AuthEvent list \<Rightarrow> AuthDb \<Rightarrow> bool" where
  "accounted s evs = safe (ar_log s @ evs) (\<lambda>sid i. hadSession (ar_db s) sid i \<or> grounds (ar_log s) evs i)"

definition step_good :: "AuthRun \<Rightarrow> AuthRun \<Rightarrow> bool" where
  "step_good s s' \<longleftrightarrow> run_ok s' \<and> (\<exists>evs. ar_log s' = ar_log s @ evs
     \<and> (\<forall>x\<in>set (au_sessions (ar_db s')). hadSession (ar_db s) (ses_id x) (ses_userId x) \<or> grounds (ar_log s) evs (ses_userId x)))"

lemma accounted_start: "run_ok s \<Longrightarrow> accounted s evs (ar_db s)"
  unfolding run_ok_def accounted_def by (elim conjE safe_more) (auto simp: hadSession_def)

lemma run_okI:
  assumes "run_ok s" "accounted s evs db" "\<And>p. p \<in> set cookies \<Longrightarrow> cookie_ok (ar_log s @ evs) p"
  shows "step_good s (proceed s db cookies evs)"
proof -
  have "safe (ar_log s @ evs) (\<lambda>_ _. True) db" using assms(2) unfolding accounted_def by (rule safe_more) simp_all
  then have "run_ok (proceed s db cookies evs)"
    using assms cookie_more [of "ar_log s" _ "ar_log s @ evs"] by (auto simp: run_ok_def)
  then show ?thesis using assms(2) by (simp add: step_good_def accounted_def safe_def)
qed

text \<open>A request that issues no cookie and leaves no event.\<close>

lemma quiet_step:
  assumes "run_ok s" "\<And>evs Q. safe evs Q (ar_db s) \<Longrightarrow> safe evs Q db"
  shows "step_good s (proceed s db [] [])"
  using accounted_start [OF assms(1), of "[]"] assms(2) by (intro run_okI [OF assms(1)]) (simp_all add: accounted_def)

lemma challenge_ok: "FirstFactor i now True \<in> set evs \<Longrightarrow> cookie_ok evs (createMfaChallenge i now)"
  by (auto simp: cookie_ok_def createMfaChallenge_def)

lemma proof_ok: "PhoneProven ph now \<in> set evs \<Longrightarrow> cookie_ok evs (createPhoneSignupProof ph now)"
  by (auto simp: cookie_ok_def createPhoneSignupProof_def PHONE_SIGNUP_TTL_SEC_def)

lemma session_cookie_ok: "cookie_ok evs (fst (createSession i r now d))"
  by (simp add: cookie_ok_def createSession_def Let_def)

lemma login_cookies:
  assumes "p \<in> set (cookiesOf (fst (loginDecide cr u pw now d)))" "set (passwordEvents cr u pw now) \<subseteq> set evs"
  shows "cookie_ok evs p"
  using assms by (auto simp: loginDecide_def cookiesOf_def passwordEvents_def Let_def case_prod_beta session_cookie_ok
      split: option.splits if_splits intro!: challenge_ok)

lemma mfa_cookies: "p \<in> set (cookiesOf (fst (mfaDecide cr idText u k now d))) \<Longrightarrow> cookie_ok evs p"
  by (auto simp: mfaDecide_def cookiesOf_def Let_def case_prod_beta session_cookie_ok split: option.splits if_splits)

lemma phone_cookies:
  assumes "p \<in> set (phoneCookies (fst (loginWithPhoneOtp cr ph k now d)))" "set (phoneEvents cr ph k now d) \<subseteq> set evs"
  shows "cookie_ok evs p"
proof -
  have "userByPhone phone (snd (checkOtp cr phone k OTP_LOGIN now d)) = userByPhone phone d" for phone
    by (simp add: userByPhone_def userWhere_def checkOtp_def case_prod_beta Let_def)
  then show ?thesis using assms
    by (auto simp: loginWithPhoneOtp_def phoneCookies_def cookiesOf_def phoneEvents_def otpEvents_def Let_def case_prod_beta session_cookie_ok
        split: option.splits if_splits intro!: challenge_ok proof_ok)
qed

lemma signup_cookies:
  "completePhoneSignup cr c name e l k raw now d = Inr (out, d') \<Longrightarrow> p \<in> set (signupCookies out) \<Longrightarrow> cookie_ok evs p"
  by (auto simp: completePhoneSignup_def signupCookies_def Let_def case_prod_beta session_cookie_ok
      split: option.splits if_splits sum.splits prod.splits)

lemma register_cookies: "registerUser cr name e h l raw now d = Inr (Some (u, p), d') \<Longrightarrow> cookie_ok evs p"
  by (auto simp: registerUser_def Let_def case_prod_beta session_cookie_ok split: if_splits sum.splits prod.splits)

lemma step_accounted: "auth_step cr idText s s' \<Longrightarrow> run_ok s \<Longrightarrow> step_good s s'"
proof (induction rule: auth_step.induct)
  case (reads s ident)
  then show ?case by (auto simp: run_ok_def step_good_def hadSession_def)
next
  case (decides s us u vs password now out db)
  let ?evs = "passwordEvents cr u password now" and ?s = "s\<lparr>ar_reads := us @ vs\<rparr>"
  have ok: "run_ok ?s" using decides.prems by (simp add: run_ok_def)
  have "accounted ?s ?evs (snd (loginDecide cr u password now (ar_db s)))"
    using accounted_start [OF ok, of ?evs] unfolding accounted_def AuthRun.select_convs AuthRun.update_convs
    by (simp, elim safe_login) (auto simp: passwordEvents_def grounds_def)
  then have "step_good ?s (proceed ?s db (cookiesOf out) ?evs)"
    using decides ok by (intro run_okI) (auto intro!: login_cookies [of _ cr u password now "ar_db s"])
  then show ?case by (simp add: step_good_def)
next
  case (second cookie s now i k out db)
  let ?u = "userById i (ar_db s)"
  let ?evs = "secondEvents cr idText ?u k now"
  have c: "cookie_ok (ar_log s) cookie" using second by (simp add: run_ok_def)
  then obtain t where t: "FirstFactor i t True \<in> set (ar_log s)" "now div 1000 < t div 1000 + 300"
    using second(2,3) by (auto simp: readMfaChallenge_def cookie_ok_def unexpired_def split: if_splits)
  have "accounted s ?evs (snd (mfaDecide cr idText ?u k now (ar_db s)))"
    unfolding accounted_def
  proof (rule safe_mfa [OF accounted_start [OF second.prems, unfolded accounted_def]])
    fix x assume x: "?u = Some x" "?evs \<noteq> []"
    then have "SecondFactor i now \<in> set ?evs" using userById_id [OF x(1)] by (auto simp: secondEvents_def split: if_splits)
    then show "\<forall>sid. hadSession (ar_db s) sid (usr_id x) \<or> grounds (ar_log s) ?evs (usr_id x)"
      using t userById_id [OF x(1)] by (auto simp: grounds_def)
  qed
  then show ?case using second by (intro run_okI) (auto simp: completeMfaLogin_def intro!: mfa_cookies [of _ cr idText ?u k now "ar_db s"])
next
  case (registers name email h l raw now s u p db)
  have "accounted s [Registered (usr_id u)] db" unfolding accounted_def
    by (rule safe_register [OF registers(1) accounted_start [OF registers.prems, unfolded accounted_def]]) (simp add: grounds_def)
  then show ?case using registers by (intro run_okI) (auto intro: register_cookies)
next
  case (phone_login phone k now s out db)
  let ?evs = "phoneEvents cr phone k now (ar_db s)"
  have "accounted s ?evs (snd (loginWithPhoneOtp cr phone k now (ar_db s)))" unfolding accounted_def
    by (rule safe_phoneLogin [OF accounted_start [OF phone_login.prems, unfolded accounted_def]]) (auto simp: grounds_def)
  then show ?case using phone_login by (intro run_okI) (auto intro!: phone_cookies [of _ cr phone k now "ar_db s"])
next
  case (signs_up cookie s now name email l k raw out db)
  let ?ev = "case out of Created u p b \<Rightarrow> [Registered (usr_id u)] | SignupExpired \<Rightarrow> [] | PhoneTaken \<Rightarrow> []"
  have "cookie_ok (ar_log s) cookie" using signs_up by (simp add: run_ok_def)
  then have ph: "\<exists>t. PhoneProven p t \<in> set (ar_log s @ ?ev)" if "readPhoneSignupProof (Some cookie) = Some p" for p
    using that by (auto simp: readPhoneSignupProof_def cookie_ok_def split: if_splits)
  have "accounted s ?ev db" unfolding accounted_def
    by (rule safe_signup [OF signs_up(3) accounted_start [OF signs_up.prems, unfolded accounted_def] ph]) (auto simp: grounds_def)
  then show ?case using signs_up by (intro run_okI) (auto elim: signup_cookies)
next
  case (changes_phone s i sid phone k now)
  have "accounted s (otpEvents cr phone k OTP_CHANGE_PHONE now (ar_db s)) (snd (changePhone cr i sid phone k now (ar_db s)))"
    unfolding accounted_def by (rule safe_changePhone [OF accounted_start [OF changes_phone.prems, unfolded accounted_def]]) simp
  then show ?case using changes_phone by (intro run_okI) auto
qed (rule quiet_step, assumption, auto intro: safe_rules safe_account safe_verification safe_addEmail safe_createUser safe_updateUser)+

lemma step_ok: "auth_step cr idText s s' \<Longrightarrow> run_ok s \<Longrightarrow> run_ok s'"
  using step_accounted by (simp add: step_good_def)

definition startRun :: "Store \<Rightarrow> AuthRun" where
  "startRun store = \<lparr>ar_db = \<lparr>au_users = [], au_sessions = [], au_tokens = [], au_otps = \<lparr>ot_rows = [], ot_nextId = 1\<rparr>, au_audit = [],
     au_store = store, au_nextId = 1\<rparr>, ar_reads = [], ar_issued = [], ar_log = []\<rparr>"

lemma steps_ok: "auth_steps cr idText (startRun store) s \<Longrightarrow> run_ok s"
  by (induction rule: rtranclp_induct) (simp add: startRun_def run_ok_def safe_def, rule step_ok)



text \<open>
  C32: In every reachable run the ids of users are distinct, and a phone number that counts as verified was proven by a
  correct one-time code for that very number.
\<close>

theorem verified_phones_were_proven:
  assumes "auth_steps cr idText (startRun store) s"
  shows "distinct (map usr_id (au_users (ar_db s)))
    \<and> (\<forall>u\<in>set (au_users (ar_db s)). lg_phoneVerifiedAt u \<noteq> None \<longrightarrow> (\<exists>p t. lg_phone u = Some p \<and> PhoneProven p t \<in> set (ar_log s)))"
  using steps_ok [OF assms] by (simp add: run_ok_def safe_def proven_def)

section \<open>Ended sessions\<close>

text \<open>
  C31: A password reset, a password change, a first password, a change of phone and the disabling of a user end every
  session of that user at once (the caller's own excepted where one is kept), and whatever requests follow in any
  order, the cookie of an ended session never gives a user again.
\<close>

theorem ended_sessions_stay_ended:
  assumes "ends_sessions cr i kept (ar_db s0) (ar_db s)" "auth_steps cr idText s s'"
    "\<forall>x\<in>set (au_sessions (ar_db s0)). ses_id x = sid \<longrightarrow> ses_userId x = i" "kept \<noteq> Some sid" "sid < au_nextId (ar_db s)"
    "pl_sid cookie = Some sid"
  shows "fst (getSessionUser (Some cookie) now (ar_db s')) = None"
  using ends_dead [OF assms(1,3,4)] steps_later [OF assms(2)] assms(5,6) dead_refused by (auto simp: later_def)

definition sampleLogin :: Login where
  "sampleLogin = newLogin 1 ''Abebe'' (Some ''a@b.et'') None (Some ''right'') TRADER None None"

definition noStore :: Store where
  "noStore = \<lparr>st_db = emptyDb, st_users = [], st_purchases = [], st_coupons = [], st_rewards = [], st_payouts = [], st_kyc = [], st_commissionSetting = None\<rparr>"

definition sampleCrypto :: Crypto where
  "sampleCrypto = \<lparr>cr_compare = \<lambda>p h. p = h, cr_validate = \<lambda>secret label token now. token = ''123456'', cr_sha256 = \<lambda>s. s, cr_hmac = \<lambda>s. s\<rparr>"

definition twoSessions :: AuthDb where
  "twoSessions = \<lparr>au_users = [sampleLogin],
     au_sessions = [\<lparr>ses_id = 5, ses_userId = 1, ses_expiresAt = 9000000, ses_revokedAt = None, ses_lastSeenAt = 0\<rparr>,
       \<lparr>ses_id = 6, ses_userId = 1, ses_expiresAt = 9000000, ses_revokedAt = None, ses_lastSeenAt = 0\<rparr>],
     au_tokens = [], au_otps = \<lparr>ot_rows = [], ot_nextId = 1\<rparr>, au_audit = [], au_store = noStore, au_nextId = 7\<rparr>"

definition cookieOf :: "nat \<Rightarrow> Payload" where
  "cookieOf sid = \<lparr>pl_sid = Some sid, pl_sub = None, pl_purpose = None, pl_phone = None, pl_exp = 9000\<rparr>"

theorem ended_sessions_stay_ended_witness:
  "\<exists>db. changePassword sampleCrypto 1 6 ''right'' ''new'' 1000 twoSessions = Inr db \<and> fst (getSessionUser (Some (cookieOf 5)) 2000 twoSessions) \<noteq> None
     \<and> fst (getSessionUser (Some (cookieOf 5)) 2000 db) = None"
proof -
  let ?run = "\<lambda>d. \<lparr>ar_db = d, ar_reads = [], ar_issued = [], ar_log = []\<rparr>"
  have "\<exists>db. changePassword sampleCrypto 1 6 ''right'' ''new'' 1000 twoSessions = Inr db \<and> au_nextId db = 7"
    by (simp add: changePassword_def userById_def userWhere_def findUnique_def twoSessions_def sampleLogin_def newLogin_def passwordValid_def
        sampleCrypto_def Let_def setUser_def revokeAllSessionsForUser_def auditUser_def auditAuth_def)
  then obtain db where db: "changePassword sampleCrypto 1 6 ''right'' ''new'' 1000 twoSessions = Inr db" "au_nextId db = 7" by blast
  have e: "ends_sessions sampleCrypto 1 (Some 6) (ar_db (?run twoSessions)) (ar_db (?run db))" using by_change [OF db(1)] by simp
  have u: "\<forall>x\<in>set (au_sessions (ar_db (?run twoSessions))). ses_id x = 5 \<longrightarrow> ses_userId x = 1" by (simp add: twoSessions_def)
  have "fst (getSessionUser (Some (cookieOf 5)) 2000 (ar_db (?run db))) = None"
    by (rule ended_sessions_stay_ended [OF e rtranclp.rtrancl_refl u]) (simp_all add: db(2) cookieOf_def)
  moreover have "fst (getSessionUser (Some (cookieOf 5)) 2000 twoSessions) \<noteq> None"
    by (simp add: getSessionUser_def cookieOf_def twoSessions_def findUnique_def userById_def userWhere_def sampleLogin_def newLogin_def
        IDLE_TIMEOUT_MS_def Let_def)
  ultimately show ?thesis using db(1) by auto
qed

section \<open>Lockout\<close>

lemma find_setUser:
  assumes "\<And>u. p (f u) = p u"
  shows "userWhere p (setUser i f db) = map_option (\<lambda>u. if usr_id u = i then f u else u) (userWhere p db)"
proof -
  have "List.find p (map (\<lambda>u. if usr_id u = i then f u else u) us) = map_option (\<lambda>u. if usr_id u = i then f u else u) (List.find p us)" for us
    using assms by (induction us) auto
  then show ?thesis by (simp add: userWhere_def setUser_def updateMany_def findUnique_def)
qed

lemma where_audit [simp]: "userWhere p (auditUser i a db) = userWhere p db" "userWhere p (auditAuth x a t db) = userWhere p db"
  by (simp_all add: userWhere_def auditUser_def auditAuth_def)

lemma loginRead_failure:
  assumes "loginRead ident db = Some v" "usr_id v = usr_id u"
  shows "loginRead ident (countFailure u now db) = Some (v\<lparr>lg_failedLoginCount := (if lg_failedLoginCount u + 1 \<ge> 10 then 0 else lg_failedLoginCount u + 1),
      lg_lockedUntil := (if lg_failedLoginCount u + 1 \<ge> 10 then Some (now + 15 * 60000) else None)\<rparr>)"
proof -
  note step = countFailure_def find_setUser Let_def MAX_FAILED_LOGINS_def LOCKOUT_MINUTES_def
  show ?thesis
  proof (cases "CHR ''@'' \<in> set ident")
    case True
    with assms show ?thesis by (simp add: loginRead_def userByEmail_def step)
  next
    case False
    then obtain phone where "normalizePhone ident = Some phone" "userByPhone phone db = Some v"
      using assms by (auto simp: loginRead_def bind_eq_Some_conv)
    with False assms(2) show ?thesis by (simp add: loginRead_def userByPhone_def step)
  qed
qed

text \<open>Attempts one after the other, each with its password and instant.\<close>

fun attempts :: "Crypto \<Rightarrow> string \<Rightarrow> (string \<times> int) list \<Rightarrow> AuthDb \<Rightarrow> AuthDb" where
  "attempts cr ident [] db = db"
| "attempts cr ident ((pw, t) # as) db = attempts cr ident as (snd (loginWithPassword cr ident pw t db))"

lemma attempts_append: "attempts cr ident (as @ bs) db = attempts cr ident bs (attempts cr ident as db)"
  by (induction as arbitrary: db) auto

lemma attempts_counted:
  assumes "loginRead ident db = Some u" "lg_lockedUntil u = None" "\<forall>(pw, t)\<in>set as. \<not> passwordValid cr pw u"
    "lg_failedLoginCount u + int (length as) < 10"
  shows "loginRead ident (attempts cr ident as db) = Some (u\<lparr>lg_failedLoginCount := lg_failedLoginCount u + int (length as)\<rparr>)"
  using assms
proof (induction as arbitrary: db u)
  case (Cons a as)
  obtain pw t where a: "a = (pw, t)" by (cases a)
  let ?u = "u\<lparr>lg_failedLoginCount := lg_failedLoginCount u + 1\<rparr>"
  have "snd (loginWithPassword cr ident pw t db) = countFailure u t db"
    using Cons.prems(1-3) by (simp add: a loginWithPassword_def loginDecide_def isLocked_def)
  then have "loginRead ident (snd (loginWithPassword cr ident pw t db)) = Some ?u"
    using loginRead_failure [OF Cons.prems(1) refl, of t] Cons.prems(2,4) by simp
  from Cons.IH [OF this] Cons.prems(2-4) show ?case by (simp add: a passwordValid_def add.assoc)
qed simp

text \<open>
  Nine wrong passwords in a row do not lock an account out: the right one then signs in. After the tenth, for
  fifteen minutes every attempt is answered as invalid, the right password included, and changes no user and no
  session; when the time is over the count starts from nothing.
\<close>

theorem ten_failures_lock:
  assumes "loginRead ident db = Some u" "lg_lockedUntil u = None" "lg_failedLoginCount u = 0" "usr_status u = USER_ACTIVE"
    "\<forall>(pw, t)\<in>set as. \<not> passwordValid cr pw u" "length as = 9" "\<not> passwordValid cr wrong u" "passwordValid cr right u"
  shows "fst (loginWithPassword cr ident right t (attempts cr ident as db)) \<noteq> InvalidLogin
    \<and> (let locked = attempts cr ident (as @ [(wrong, t)]) db in
       (\<forall>pw t'. t' < t + 15 * 60000 \<longrightarrow> fst (loginWithPassword cr ident pw t' locked) = InvalidLogin
          \<and> au_users (snd (loginWithPassword cr ident pw t' locked)) = au_users locked
          \<and> au_sessions (snd (loginWithPassword cr ident pw t' locked)) = au_sessions locked)
       \<and> (\<forall>t' \<ge> t + 15 * 60000. fst (loginWithPassword cr ident right t' locked) \<noteq> InvalidLogin))"
proof -
  let ?u = "u\<lparr>lg_failedLoginCount := 9\<rparr>" and ?l = "u\<lparr>lg_failedLoginCount := 0, lg_lockedUntil := Some (t + 15 * 60000)\<rparr>"
  have nine: "loginRead ident (attempts cr ident as db) = Some ?u"
    using attempts_counted [OF assms(1,2,5)] assms(3,6) by simp
  have decide: "loginWithPassword cr ident pw x d = loginDecide cr (Some v) pw x d" if "loginRead ident d = Some v" for pw x d v
    using that by (simp add: loginWithPassword_def)
  have pw: "passwordValid cr p ?u = passwordValid cr p u" "passwordValid cr p ?l = passwordValid cr p u" for p by (simp_all add: passwordValid_def)
  have "attempts cr ident (as @ [(wrong, t)]) db = countFailure ?u t (attempts cr ident as db)"
    using assms(2,7) by (simp add: attempts_append decide [OF nine] loginDecide_def isLocked_def pw)
  then have ten: "loginRead ident (attempts cr ident (as @ [(wrong, t)]) db) = Some ?l"
    using loginRead_failure [OF nine refl, of t] by simp
  have in1: "fst (loginDecide cr (Some ?u) right t d) \<noteq> InvalidLogin" for d
    using assms(2,4,8) by (simp add: loginDecide_def isLocked_def pw Let_def case_prod_beta)
  have out1: "loginDecide cr (Some ?l) p x d = (InvalidLogin, auditUser (usr_id u) ''LOGIN_FAILED'' d)" if "x < t + 15 * 60000" for p x d
    using that by (simp add: loginDecide_def isLocked_def Let_def)
  have in2: "fst (loginDecide cr (Some ?l) right x d) \<noteq> InvalidLogin" if "x \<ge> t + 15 * 60000" for x d
    using that assms(4,8) by (simp add: loginDecide_def isLocked_def passwordValid_def Let_def case_prod_beta)
  have frame: "au_users (auditUser i a d) = au_users d" "au_sessions (auditUser i a d) = au_sessions d" for i a d
    by (simp_all add: auditUser_def auditAuth_def)
  show ?thesis unfolding Let_def decide [OF nine] decide [OF ten] using in1 out1 in2 frame by simp
qed

definition sampleAuthDb :: "Store \<Rightarrow> AuthDb" where
  "sampleAuthDb store = \<lparr>au_users = [sampleLogin], au_sessions = [], au_tokens = [], au_otps = \<lparr>ot_rows = [], ot_nextId = 1\<rparr>, au_audit = [],
     au_store = store, au_nextId = 2\<rparr>"

lemma sample_identifier: "toLowerCase (trim ''a@b.et'') = ''a@b.et''"
  by (simp add: toLowerCase_def lower_char_def trim_def is_space_def code_def)

theorem ten_failures_lock_witness:
  "fst (loginWithPassword sampleCrypto ''a@b.et'' ''right'' 60000
     (attempts sampleCrypto ''a@b.et'' (replicate 9 (''guess'', 0) @ [(''guess'', 0)]) (sampleAuthDb noStore))) = InvalidLogin"
proof -
  have u: "loginRead ''a@b.et'' (sampleAuthDb noStore) = Some sampleLogin" unfolding loginRead_def sample_identifier
    by (simp add: userByEmail_def userWhere_def findUnique_def sampleAuthDb_def sampleLogin_def newLogin_def)
  have v: "passwordValid sampleCrypto p sampleLogin = (p = ''right'')" for p
    by (simp add: passwordValid_def sampleCrypto_def sampleLogin_def newLogin_def)
  have l: "lg_lockedUntil sampleLogin = None" "lg_failedLoginCount sampleLogin = 0" "usr_status sampleLogin = USER_ACTIVE"
    by (simp_all add: sampleLogin_def newLogin_def)
  have "\<forall>(pw, t)\<in>set (replicate 9 (''guess'', 0::int)). \<not> passwordValid sampleCrypto pw sampleLogin" by (simp add: v)
  from ten_failures_lock [OF u l this, of "''guess''" "''right''" 0] show ?thesis by (simp add: v Let_def)
qed

text \<open>
  The count and the lock are computed from the row that was read before the password was checked. Guesses that are
  sent together therefore count once, and one that was read before the lock removes it.
\<close>

lemma parallel_guesses_count_once:
  assumes "\<forall>pw\<in>set guesses. \<not> passwordValid cr pw u" "lg_lockedUntil u = None" "lg_failedLoginCount u + 1 < 10"
    "loginRead ident db = Some v" "usr_id v = usr_id u" "guesses \<noteq> []"
  shows "loginRead ident (fold (\<lambda>pw d. snd (loginDecide cr (Some u) pw now d)) guesses db)
    = Some (v\<lparr>lg_failedLoginCount := lg_failedLoginCount u + 1, lg_lockedUntil := None\<rparr>)"
proof -
  have step: "snd (loginDecide cr (Some u) pw now d) = countFailure u now d" if "pw \<in> set guesses" for pw d
    using assms(1,2) that by (simp add: loginDecide_def isLocked_def)
  have "loginRead ident (fold (\<lambda>pw d. countFailure u now d) gs db) = Some (v\<lparr>lg_failedLoginCount := lg_failedLoginCount u + 1, lg_lockedUntil := None\<rparr>)"
    if "gs \<noteq> []" for gs :: "string list"
    using that assms(4,5)
  proof (induction gs arbitrary: db v)
    case (Cons g gs)
    have "loginRead ident (countFailure u now db) = Some (v\<lparr>lg_failedLoginCount := lg_failedLoginCount u + 1, lg_lockedUntil := None\<rparr>)"
      using loginRead_failure [OF Cons.prems(2,3), of now] assms(3) by simp
    with Cons.IH [OF _ this] Cons.prems(3) show ?case by (cases gs) auto
  qed simp
  moreover have "fold (\<lambda>pw d. snd (loginDecide cr (Some u) pw now d)) guesses db = fold (\<lambda>pw d. countFailure u now d) guesses db"
    using step by (intro fold_cong) auto
  ultimately show ?thesis using assms(6) by simp
qed

end
