(* ===== verification/AuthAdmins.thy ===== *)
theory AuthAdmins
  imports AuthGuarantee
begin

text \<open>
  There is always an active administrator; what two concurrent changes can do instead; and a sample run of sign-in.
\<close>

section \<open>Administrators\<close>

definition hasAdmin :: "AuthDb \<Rightarrow> bool" where
  "hasAdmin db \<longleftrightarrow> (\<exists>u\<in>set (au_users db). lg_role u = ADMIN \<and> usr_status u = USER_ACTIVE)"

named_theorems admin_rules

lemma admin_same: "au_users d' = au_users d \<Longrightarrow> hasAdmin d \<Longrightarrow> hasAdmin d'"
  by (simp add: hasAdmin_def)

lemma updateMany_mem: "u \<in> set rows \<Longrightarrow> (if p u then f u else u) \<in> set (snd (updateMany p f rows))"
  by (auto simp: updateMany_def)

lemma admin_update:
  "hasAdmin d \<Longrightarrow> (\<And>u. lg_role (f u) = lg_role u \<and> usr_status (f u) = usr_status u) \<Longrightarrow> hasAdmin (d\<lparr>au_users := snd (updateMany p f (au_users d))\<rparr>)"
  by (auto simp: hasAdmin_def) (metis updateMany_mem)

lemma admin_setUser [admin_rules]:
  "hasAdmin d \<Longrightarrow> (\<And>u. lg_role (f u) = lg_role u \<and> usr_status (f u) = usr_status u) \<Longrightarrow> hasAdmin (setUser i f d)"
  unfolding setUser_def by (rule admin_update)

lemma admin_frame [admin_rules]:
  "hasAdmin d \<Longrightarrow> hasAdmin (auditAuth a b c d)" "hasAdmin d \<Longrightarrow> hasAdmin (auditUser i b d)" "hasAdmin d \<Longrightarrow> hasAdmin (d\<lparr>au_otps := t\<rparr>)"
  "hasAdmin d \<Longrightarrow> hasAdmin (createVerificationToken cr i ty ttl raw now d)" "hasAdmin d \<Longrightarrow> hasAdmin (revokeSession sid now d)"
  "hasAdmin d \<Longrightarrow> hasAdmin (revokeAllSessionsForUser i kept now d)" "hasAdmin d \<Longrightarrow> hasAdmin (snd (createSession i r now d))"
  "hasAdmin d \<Longrightarrow> hasAdmin (d\<lparr>au_sessions := ss\<rparr>)" "hasAdmin d \<Longrightarrow> hasAdmin (cleanupExpiredSessions now d)"
  by (erule admin_same [rotated], simp add: auditAuth_def auditUser_def createVerificationToken_def revokeSession_def
      revokeAllSessionsForUser_def createSession_def cleanupExpiredSessions_def Let_def)+

lemma admin_access [admin_rules]:
  "hasAdmin d \<Longrightarrow> hasAdmin (destroySession c now d)" "hasAdmin d \<Longrightarrow> hasAdmin (snd (snd (getSessionUser c now d)))"
  "hasAdmin d \<Longrightarrow> hasAdmin (snd (consumeVerificationToken cr raw ty now d))" "hasAdmin d \<Longrightarrow> hasAdmin (snd (checkOtp cr p k purpose now d))"
  "hasAdmin d \<Longrightarrow> hasAdmin (touchSession sid i now d)"
  by (auto simp: destroySession_def getSessionUser_def Let_def consumeVerificationToken_def claimToken_def checkOtp_def touchSession_def
      case_prod_beta intro!: admin_rules intro: admin_same [rotated] split: option.split)

lemma admin_createRow: "createUserRow row d = Inr (u, d') \<Longrightarrow> hasAdmin d \<Longrightarrow> hasAdmin d'"
  by (auto simp: createUserRow_def Let_def hasAdmin_def split: option.splits)

lemma admin_verification: "sendEmailVerification cr i raw now d = Inr d' \<Longrightarrow> hasAdmin d \<Longrightarrow> hasAdmin d'"
  by (auto simp: sendEmailVerification_def intro: admin_rules split: option.splits if_splits)

lemma admin_logins [admin_rules]:
  "hasAdmin d \<Longrightarrow> hasAdmin (snd (loginDecide cr u pw now d))" "hasAdmin d \<Longrightarrow> hasAdmin (snd (mfaDecide cr idText u k now d))"
  "hasAdmin d \<Longrightarrow> hasAdmin (snd (loginWithPhoneOtp cr ph k now d))"
  by (auto simp: loginDecide_def countFailure_def mfaDecide_def useBackupCode_def loginWithPhoneOtp_def Let_def case_prod_beta
      intro!: admin_rules split: option.split)

lemma admin_mail [admin_rules]:
  "hasAdmin d \<Longrightarrow> hasAdmin (snd (verifyEmail cr token now d))" "hasAdmin d \<Longrightarrow> hasAdmin (requestPasswordReset cr e raw now d)"
  "hasAdmin d \<Longrightarrow> hasAdmin (snd (resetPassword cr token h now d))"
  using admin_access(3) [of d cr token EMAIL_VERIFY now] admin_access(3) [of d cr token PASSWORD_RESET now]
  by (auto simp: verifyEmail_def requestPasswordReset_def resetPassword_def Let_def intro!: admin_rules split: option.split prod.split)

lemma admin_account:
  "changePassword cr i sid cur h now d = Inr d' \<Longrightarrow> hasAdmin d \<Longrightarrow> hasAdmin d'"
  "beginMfaEnrolment i sec d = Inr d' \<Longrightarrow> hasAdmin d \<Longrightarrow> hasAdmin d'"
  "confirmMfaEnrolment cr idText i k hs now d = Inr d' \<Longrightarrow> hasAdmin d \<Longrightarrow> hasAdmin d'"
  "disableMfa cr idText i pw k allow now d = Inr d' \<Longrightarrow> hasAdmin d \<Longrightarrow> hasAdmin d'"
  by (auto simp: changePassword_def beginMfaEnrolment_def confirmMfaEnrolment_def disableMfa_def enableMfaForUser_def Let_def
      split: option.splits if_splits intro!: admin_rules)

lemma admin_register: "registerUser cr name e h l raw now d = Inr (x, d') \<Longrightarrow> hasAdmin d \<Longrightarrow> hasAdmin d'"
  by (auto simp: registerUser_def Let_def case_prod_beta split: if_splits sum.splits prod.splits
      intro!: admin_rules elim!: admin_verification admin_createRow)

lemma admin_attach [admin_rules]: "hasAdmin d \<Longrightarrow> hasAdmin (attachTo i k d)"
proof -
  assume h: "hasAdmin d"
  let ?s = "attachReferral i k ((au_store d)\<lparr>st_users := map toUser (au_users d)\<rparr>)"
  have len: "length (st_users ?s) = length (au_users d)"
    by (auto simp: attachReferral_def updateMany_def Let_def split: option.split)
  obtain n where n: "n < length (au_users d)" "lg_role (au_users d ! n) = ADMIN" "usr_status (au_users d ! n) = USER_ACTIVE"
    using h by (auto simp: hasAdmin_def in_set_conv_nth)
  then have "lg_role (au_users (attachTo i k d) ! n) = ADMIN \<and> usr_status (au_users (attachTo i k d) ! n) = USER_ACTIVE
      \<and> n < length (au_users (attachTo i k d))" using len by (simp add: attachTo_def Let_def)
  then show "hasAdmin (attachTo i k d)" unfolding hasAdmin_def using nth_mem by blast
qed

lemma admin_signup: "completePhoneSignup cr c name e l k raw now d = Inr (x, d') \<Longrightarrow> hasAdmin d \<Longrightarrow> hasAdmin d'"
  by (auto simp: completePhoneSignup_def createPhoneUser_def Let_def case_prod_beta split: if_splits option.splits sum.splits prod.splits
      intro!: admin_rules elim!: admin_verification admin_createRow)

lemma admin_phone [admin_rules]: "hasAdmin d \<Longrightarrow> hasAdmin (snd (changePhone cr i sid p k now d))"
  by (auto simp: changePhone_def writePhone_def Let_def case_prod_beta split: option.splits sum.splits if_splits intro!: admin_rules)

lemma admin_email: "addEmail cr i e raw now d = Inr (b, d') \<Longrightarrow> hasAdmin d \<Longrightarrow> hasAdmin d'"
  by (auto simp: addEmail_def Let_def case_prod_beta map_sum_def split: if_splits option.splits sum.splits elim!: admin_verification
      intro!: admin_rules admin_update)

lemma admin_setPassword [admin_rules]: "hasAdmin d \<Longrightarrow> hasAdmin (snd (setInitialPassword cr i sid k h now d))"
  by (auto simp: setInitialPassword_def Let_def case_prod_beta split: sum.split intro!: admin_rules admin_update)

lemma admin_createUser: "createUser name e h r actor d = Inr (u, d') \<Longrightarrow> hasAdmin d \<Longrightarrow> hasAdmin d'"
  by (auto simp: createUser_def map_sum_def split: if_splits sum.splits intro!: admin_rules elim!: admin_createRow)

text \<open>The one operation that can take the role or the status away keeps another administrator.\<close>

lemma writeUser_users: "au_users (writeUser i c actor before now d) = snd (updateMany (\<lambda>u. usr_id u = i) (changedUser c) (au_users d))"
  by (simp add: writeUser_def revokeAllSessionsForUser_def auditAuth_def setUser_def Let_def)

lemma admin_updateUser:
  assumes "updateUser i c actor now d = Inr d'" "hasAdmin d" "distinct (map usr_id (au_users d))"
  shows "hasAdmin d'"
proof -
  obtain before where before: "userById i d = Some before" "updateRefused i c actor before d = None" and d': "d' = writeUser i c actor before now d"
    using assms(1) by (auto simp: updateUser_def split: option.splits)
  obtain w where w: "w \<in> set (au_users d)" "lg_role w = ADMIN" "usr_status w = USER_ACTIVE" using assms(2) by (auto simp: hasAdmin_def)
  have keep: "hasAdmin d'" if "v \<in> set (au_users d)" "lg_role v = ADMIN" "usr_status v = USER_ACTIVE" "usr_id v \<noteq> i" for v
    unfolding hasAdmin_def d' writeUser_users using that by (auto simp: updateMany_def intro!: bexI [of _ v])
  show ?thesis
  proof (cases "demoting c before")
    case True
    then have "otherActiveAdmins i d \<noteq> 0" using before(2) by (auto simp: updateRefused_def split: if_splits)
    then show ?thesis using keep by (auto simp: otherActiveAdmins_def filter_empty_conv)
  next
    case False
    show ?thesis
    proof (cases "usr_id w = i")
      case True
      have "before \<in> set (au_users d)" "usr_id before = i"
        using before(1) by (auto simp: userById_def userWhere_def dest: findUnique_Some)
      then have "before = w" using True w(1) assms(3) by (auto simp: distinct_map inj_on_def)
      then have "lg_role (changedUser c w) = ADMIN \<and> usr_status (changedUser c w) = USER_ACTIVE"
        using False w(2,3) by (cases "uc_status c"; cases "the (uc_status c)") (auto simp: demoting_def changedUser_def split: option.split)
      then show ?thesis unfolding hasAdmin_def d' writeUser_users
        using updateMany_mem [OF w(1), of "\<lambda>u. usr_id u = i" "changedUser c"] True by auto
    qed (rule keep [OF w])
  qed
qed

lemma step_admin: "auth_step cr idText s s' \<Longrightarrow> run_ok s \<Longrightarrow> hasAdmin (ar_db s) \<Longrightarrow> hasAdmin (ar_db s')"
proof (induction rule: auth_step.induct)
  case (decides s us u vs password now out db)
  then show ?case using admin_logins(1) [of "ar_db s" cr u password now] by simp
next
  case (second cookie s now i k out db)
  then show ?case using admin_logins(2) [of "ar_db s" cr idText "userById i (ar_db s)" k now] by (simp add: completeMfaLogin_def)
next
  case (phone_login phone k now s out db)
  then show ?case using admin_logins(3) [of "ar_db s" cr phone k now] by simp
next
  case (admin_updates i c actor now s db)
  then show ?case by (auto simp: run_ok_def safe_def intro: admin_updateUser)
qed (auto intro: admin_rules admin_account admin_register admin_verification admin_signup admin_email admin_createUser)

text \<open>
  C33: Once there is an active administrator there always is one: in every continuation of a reachable run, whoever
  changes roles and disables users, as long as each of these changes runs alone.
\<close>

theorem an_admin_remains:
  assumes "auth_steps cr idText (startRun store) s" "hasAdmin (ar_db s)" "auth_steps cr idText s s'"
  shows "hasAdmin (ar_db s')"
proof -
  have "hasAdmin (ar_db s') \<and> run_ok s'" using assms(3)
    by (induction rule: rtranclp_induct) (use assms(2) steps_ok [OF assms(1)] step_admin step_ok in blast)+
  then show ?thesis ..
qed

text \<open>The check and the write are not atomic between transactions: two administrators can demote each other.\<close>

definition demote :: UserChange where
  "demote = \<lparr>uc_name = None, uc_email = None, uc_role = Some TRADER, uc_status = None\<rparr>"

definition adminA :: Login where "adminA = newLogin 1 ''A'' (Some ''a@x.et'') None None ADMIN None None"
definition adminB :: Login where "adminB = newLogin 2 ''B'' (Some ''b@x.et'') None None ADMIN None None"

definition twoAdmins :: "Store \<Rightarrow> AuthDb" where
  "twoAdmins store = \<lparr>au_users = [adminA, adminB],
     au_sessions = [], au_tokens = [], au_otps = \<lparr>ot_rows = [], ot_nextId = 1\<rparr>, au_audit = [], au_store = store, au_nextId = 3\<rparr>"

lemma concurrent_demotions_leave_none:
  "userById 1 (twoAdmins store) = Some adminA" "userById 2 (twoAdmins store) = Some adminB"
  "updateRefused 2 demote 1 adminB (twoAdmins store) = None" "updateRefused 1 demote 2 adminA (twoAdmins store) = None"
  "\<not> hasAdmin (writeUser 1 demote 2 adminA now (writeUser 2 demote 1 adminB now (twoAdmins store)))"
proof -
  show "userById 1 (twoAdmins store) = Some adminA" "userById 2 (twoAdmins store) = Some adminB"
    by (simp_all add: userById_def userWhere_def findUnique_def twoAdmins_def adminA_def adminB_def newLogin_def)
  show "updateRefused 2 demote 1 adminB (twoAdmins store) = None" "updateRefused 1 demote 2 adminA (twoAdmins store) = None"
    by (simp_all add: adminA_def adminB_def updateRefused_def demoting_def demote_def otherActiveAdmins_def twoAdmins_def newLogin_def uniqueUser_def changedUser_def)
  show "\<not> hasAdmin (writeUser 1 demote 2 adminA now (writeUser 2 demote 1 adminB now (twoAdmins store)))"
    unfolding hasAdmin_def writeUser_users by (simp add: updateMany_def twoAdmins_def adminA_def adminB_def newLogin_def changedUser_def demote_def)
qed

section \<open>A sample run\<close>

text \<open>An administrator is created, enrols a second factor, and signs in up to the challenge.\<close>

definition enrolled :: "string option \<Rightarrow> bool \<Rightarrow> string list \<Rightarrow> Login" where
  "enrolled secret mfa hashes = (newLogin 1 ''A'' (Some ''a@b.et'') None (Some ''right'') ADMIN None None)\<lparr>lg_mfaSecretEnc := secret, lg_mfaEnabled := mfa,
     lg_mfaBackupCodes := hashes\<rparr>"

definition dbWith :: "Store \<Rightarrow> Login \<Rightarrow> AuthAudit list \<Rightarrow> AuthDb" where
  "dbWith store u audits = \<lparr>au_users = [u], au_sessions = [], au_tokens = [], au_otps = \<lparr>ot_rows = [], ot_nextId = 1\<rparr>, au_audit = audits,
     au_store = store, au_nextId = 2\<rparr>"

definition runWith :: "AuthDb \<Rightarrow> Login option list \<Rightarrow> Payload list \<Rightarrow> AuthEvent list \<Rightarrow> AuthRun" where
  "runWith db rs cookies evs = \<lparr>ar_db = db, ar_reads = rs, ar_issued = cookies, ar_log = evs\<rparr>"

lemmas run_defs = runWith_def proceed_def dbWith_def enrolled_def newLogin_def auditAuth_def auditUser_def setUser_def updateMany_def

definition audits :: "nat \<Rightarrow> AuthAudit list" where
  "audits n = take n [\<lparr>aa_actorId = Some 0, aa_action = ''USER_CREATED'', aa_targetId = Some 1\<rparr>,
     \<lparr>aa_actorId = Some 1, aa_action = ''MFA_ENABLED'', aa_targetId = Some 1\<rparr>,
     \<lparr>aa_actorId = Some 1, aa_action = ''LOGIN_MFA_CHALLENGE'', aa_targetId = Some 1\<rparr>]"

lemma run_create: "auth_step sampleCrypto idText (startRun store) (runWith (dbWith store (enrolled None False []) (audits 1)) [] [] [])"
proof -
  have "createUser ''A'' ''a@b.et'' ''right'' ADMIN 0 (ar_db (startRun store)) = Inr (enrolled None False [], dbWith store (enrolled None False []) (audits 1))"
    by (simp add: createUser_def userByEmail_def userWhere_def findUnique_def startRun_def createUserRow_def Let_def uniqueUser_def run_defs audits_def)
  from auth_step.admin_creates [OF this] show ?thesis by (simp add: run_defs startRun_def)
qed

lemma run_enrol: "auth_step sampleCrypto idText (runWith (dbWith store (enrolled None False []) a) [] [] []) (runWith (dbWith store (enrolled (Some ''s'') False []) a) [] [] [])"
proof -
  have "beginMfaEnrolment 1 ''s'' (dbWith store (enrolled None False []) a) = Inr (dbWith store (enrolled (Some ''s'') False []) a)"
    by (simp add: beginMfaEnrolment_def userById_def userWhere_def findUnique_def run_defs)
  from auth_step.enrols [of 1 "''s''" "runWith (dbWith store (enrolled None False []) a) [] [] []"] this show ?thesis by (simp add: runWith_def proceed_def)
qed

lemma sample_totp: "verifyTotp sampleCrypto s ''123456'' l now"
  by (simp add: verifyTotp_def Let_def sampleCrypto_def cleanCode_def is_space_def is_digit_def code_def)

lemma run_confirm:
  "auth_step sampleCrypto idText (runWith (dbWith store (enrolled (Some ''s'') False []) (audits 1)) [] [] [])
     (runWith (dbWith store (enrolled (Some ''s'') True []) (audits 2)) [] [] [])"
proof -
  have "confirmMfaEnrolment sampleCrypto idText 1 ''123456'' [] 0 (dbWith store (enrolled (Some ''s'') False []) (audits 1))
      = Inr (dbWith store (enrolled (Some ''s'') True []) (audits 2))"
    by (simp add: confirmMfaEnrolment_def sample_totp enableMfaForUser_def userById_def userWhere_def findUnique_def run_defs audits_def)
  from auth_step.confirms [of sampleCrypto idText 1 "''123456''" "[]" 0 "runWith (dbWith store (enrolled (Some ''s'') False []) (audits 1)) [] [] []"] this
  show ?thesis by (simp add: runWith_def proceed_def)
qed

lemma run_read:
  "auth_step sampleCrypto idText (runWith (dbWith store (enrolled (Some ''s'') True []) a) [] [] [])
     (runWith (dbWith store (enrolled (Some ''s'') True []) a) [Some (enrolled (Some ''s'') True [])] [] [])"
proof -
  have "loginRead ''a@b.et'' (dbWith store (enrolled (Some ''s'') True []) a) = Some (enrolled (Some ''s'') True [])"
    unfolding loginRead_def sample_identifier by (simp add: userByEmail_def userWhere_def findUnique_def run_defs)
  then show ?thesis using auth_step.reads [of sampleCrypto idText "runWith (dbWith store (enrolled (Some ''s'') True []) a) [] [] []" "''a@b.et''"]
    by (simp add: runWith_def)
qed

definition challenged :: "Store \<Rightarrow> AuthRun" where
  "challenged store = runWith (dbWith store (enrolled (Some ''s'') True []) (audits 3)) [] [createMfaChallenge 1 7000] [FirstFactor 1 7000 True]"

lemma run_decide:
  "auth_step sampleCrypto idText (runWith (dbWith store (enrolled (Some ''s'') True []) (audits 2)) [Some (enrolled (Some ''s'') True [])] [] []) (challenged store)"
proof -
  let ?u = "enrolled (Some ''s'') True []"
  have valid: "passwordValid sampleCrypto ''right'' ?u" "\<not> isLocked 7000 ?u" "usr_id ?u = 1" "lg_mfaEnabled ?u"
    by (simp_all add: passwordValid_def sampleCrypto_def isLocked_def run_defs)
  have "loginDecide sampleCrypto (Some ?u) ''right'' 7000 (dbWith store ?u (audits 2)) = (MfaRequired (createMfaChallenge 1 7000), dbWith store ?u (audits 3))"
    using valid by (simp add: loginDecide_def Let_def) (simp add: run_defs audits_def)
  then show ?thesis
    using auth_step.decides [of "runWith (dbWith store ?u (audits 2)) [Some ?u] [] []" "[]" "Some ?u" "[]" sampleCrypto "''right''" 7000
        "MfaRequired (createMfaChallenge 1 7000)" "dbWith store ?u (audits 3)" idText] valid
    by (simp add: runWith_def proceed_def challenged_def cookiesOf_def passwordEvents_def)
qed

lemma run_challenged: "auth_steps sampleCrypto idText (startRun store) (challenged store)"
  using run_create run_enrol run_confirm run_read run_decide by (meson converse_rtranclp_into_rtranclp rtranclp.rtrancl_refl)



theorem verified_phones_were_proven_witness: "distinct (map usr_id (au_users (ar_db (challenged noStore))))"
  using verified_phones_were_proven [OF run_challenged] by simp

theorem an_admin_remains_witness: "hasAdmin (ar_db (challenged noStore))"
proof -
  have "hasAdmin (ar_db (runWith (dbWith noStore (enrolled None False []) (audits 1)) [] [] []))" by (simp add: hasAdmin_def run_defs)
  moreover have "auth_steps sampleCrypto (\<lambda>_. []) (runWith (dbWith noStore (enrolled None False []) (audits 1)) [] [] []) (challenged noStore)"
    using run_enrol run_confirm run_read run_decide by (meson converse_rtranclp_into_rtranclp rtranclp.rtrancl_refl)
  moreover have "auth_steps sampleCrypto (\<lambda>_. []) (startRun noStore) (runWith (dbWith noStore (enrolled None False []) (audits 1)) [] [] [])"
    using run_create by (rule r_into_rtranclp)
  ultimately show ?thesis using an_admin_remains by blast
qed

end
