(* ===== verification/Kyc.thy ===== *)
theory Kyc
  imports Commerce JsString
begin

text \<open>
  Identity verification: the provider's answers (\<open>src/lib/services/dojahKycProvider.ts\<close>), the state machine of
  submissions (\<open>kycVerification.ts\<close>, \<open>kyc.ts\<close>), the replay protection of webhooks (\<open>webhooks.ts\<close>) and the webhook
  route (\<open>app/api/kyc/dojah/webhook\<close>). The keyed hash is the argument \<open>hmac\<close>, \<open>sha256\<close> and \<open>parse\<close> (\<open>JSON.parse\<close>
  of a payload) are arguments, too. Free texts and notifications are left out.
\<close>

section \<open>The provider\<close>

datatype KycVerificationOutcome = KV_PENDING | KV_VERIFIED | KV_FAILED

record NormalizedKycResult =
  kr_outcome :: KycVerificationOutcome
  kr_failureReason :: "string option"

text \<open>A webhook payload: fields of another type than expected are missing; \<open>data\<close> maps a step to its status.\<close>

record DojahWebhookPayload =
  dj_reference_id :: "string option"
  dj_verification_status :: "string option"
  dj_status :: "bool option"
  dj_data :: "(string \<times> bool option) list option"

definition pendingResult :: NormalizedKycResult where
  "pendingResult = \<lparr>kr_outcome = KV_PENDING, kr_failureReason = None\<rparr>"

definition failedWith :: "string \<Rightarrow> NormalizedKycResult" where
  "failedWith reason = \<lparr>kr_outcome = KV_FAILED, kr_failureReason = Some reason\<rparr>"

definition normalizeOutcome :: "DojahWebhookPayload \<Rightarrow> NormalizedKycResult" where
  "normalizeOutcome payload =
     (let verificationStatus = (case dj_verification_status payload of None \<Rightarrow> [] | Some s \<Rightarrow> s);
          overallPassed = (dj_status payload = Some True)
      in if verificationStatus = ''Ongoing'' \<or> verificationStatus = ''Pending'' then pendingResult
         else if verificationStatus = ''Completed'' \<and> overallPassed then \<lparr>kr_outcome = KV_VERIFIED, kr_failureReason = None\<rparr>
         else if verificationStatus = ''Completed'' \<and> \<not> overallPassed
         then failedWith (case Option.bind (dj_data payload) (List.find (\<lambda>(step, s). s = Some False)) of
                  Some (step, _) \<Rightarrow> if step = [] then ''verification_failed'' else step @ ''_verification_failed''
                | None \<Rightarrow> ''verification_failed'')
         else if verificationStatus = ''Failed'' then failedWith ''provider_reported_failed''
         else if verificationStatus = ''Abandoned'' then failedWith ''abandoned_by_user''
         else pendingResult)"

definition verifyWebhookSignature :: "(string \<Rightarrow> string) \<Rightarrow> string \<Rightarrow> string option \<Rightarrow> bool" where
  "verifyWebhookSignature hmac rawBody signature = (case signature of None \<Rightarrow> False | Some s \<Rightarrow> s \<noteq> [] \<and> hmac rawBody = s)"

definition parseWebhookPayload :: "(string \<Rightarrow> DojahWebhookPayload option) \<Rightarrow> string \<Rightarrow> (string \<times> NormalizedKycResult) option" where
  "parseWebhookPayload parse rawBody =
     (case parse rawBody of
        None \<Rightarrow> None
      | Some payload \<Rightarrow>
         (case dj_reference_id payload of
            None \<Rightarrow> None
          | Some r \<Rightarrow> if r = [] then None else Some (r, normalizeOutcome payload)))"

section \<open>Tables\<close>

record KycSubmission =
  ks_id :: nat
  ks_userId :: nat
  ks_status :: KycStatus
  ks_provider :: string
  ks_providerReference :: "string option"
  ks_failureReason :: "string option"
  ks_reviewedAt :: "int option"
  ks_reviewerId :: "nat option"
  ks_submittedAt :: int

record KycAudit =
  ka_actorId :: "nat option"
  ka_action :: string
  ka_targetId :: nat

record KycDb =
  kd_rows :: "KycSubmission list"
  kd_deliveries :: "(string \<times> string) list"
  kd_audit :: "KycAudit list"
  kd_nextId :: nat

datatype kyc_error = KycMissing | KycConflict string | KycUnavailable

definition kycAudit :: "nat option \<Rightarrow> string \<Rightarrow> nat \<Rightarrow> KycDb \<Rightarrow> KycDb" where
  "kycAudit actor action i d = d\<lparr>kd_audit := kd_audit d @ [\<lparr>ka_actorId = actor, ka_action = action, ka_targetId = i\<rparr>]\<rparr>"

definition kycRow :: "nat \<Rightarrow> KycDb \<Rightarrow> KycSubmission option" where
  "kycRow i d = findUnique (\<lambda>r. ks_id r = i) (kd_rows d)"

definition hasApprovedKyc :: "nat \<Rightarrow> KycDb \<Rightarrow> bool" where
  "hasApprovedKyc userId d \<longleftrightarrow> (\<exists>r\<in>set (kd_rows d). ks_userId r = userId \<and> ks_status r = KYC_APPROVED)"

section \<open>Starting a verification\<close>

definition PROVIDER :: string where "PROVIDER = ''DOJAH''"

definition newSubmission :: "nat \<Rightarrow> string \<Rightarrow> int \<Rightarrow> nat \<Rightarrow> KycSubmission" where
  "newSubmission userId reference now i =
     \<lparr>ks_id = i, ks_userId = userId, ks_status = KYC_PENDING, ks_provider = PROVIDER, ks_providerReference = Some reference,
      ks_failureReason = None, ks_reviewedAt = None, ks_reviewerId = None, ks_submittedAt = now\<rparr>"

definition submit :: "nat \<Rightarrow> KycSubmission \<Rightarrow> KycDb \<Rightarrow> KycDb" where
  "submit userId row d = kycAudit (Some userId) ''KYC_SUBMITTED'' (ks_id row) (d\<lparr>kd_rows := kd_rows d @ [row], kd_nextId := kd_nextId d + 1\<rparr>)"

text \<open>
  The serializable transaction: the pending submission of the user is reused; the newest one is the last by
  \<open>submittedAt\<close>. A clash of the random reference aborts it.
\<close>

definition startTx :: "nat \<Rightarrow> string \<Rightarrow> int \<Rightarrow> KycDb \<Rightarrow> (nat \<times> string \<times> bool \<times> KycDb) option" where
  "startTx userId reference now d =
     (let pending = sort_key ks_submittedAt (filter (\<lambda>r. ks_userId r = userId \<and> ks_provider r = PROVIDER \<and> ks_status r = KYC_PENDING) (kd_rows d));
          create = (if \<exists>r\<in>set (kd_rows d). ks_providerReference r = Some reference then None
            else let row = newSubmission userId reference now (kd_nextId d) in Some (ks_id row, reference, True, submit userId row d))
      in if pending = [] then create
         else case ks_providerReference (last pending) of
             Some ref \<Rightarrow> if ref = [] then create else Some (ks_id (last pending), ref, False, d)
           | None \<Rightarrow> create)"

text \<open>At most three retries, each with its own random reference.\<close>

fun startAttempts :: "nat \<Rightarrow> nat \<Rightarrow> string list \<Rightarrow> int \<Rightarrow> KycDb \<Rightarrow> (nat \<times> string \<times> bool \<times> KycDb) option" where
  "startAttempts n userId [] now d = None"
| "startAttempts n userId (r # rs) now d =
     (case startTx userId r now d of
        Some out \<Rightarrow> Some out
      | None \<Rightarrow> if n < 3 then startAttempts (n + 1) userId rs now d else None)"

text \<open>\<open>configured\<close>: a session can be created; otherwise a submission that was created is removed again.\<close>

definition startProviderVerification :: "nat \<Rightarrow> string list \<Rightarrow> bool \<Rightarrow> int \<Rightarrow> KycDb \<Rightarrow> (kyc_error + nat \<times> string) \<times> KycDb" where
  "startProviderVerification userId references configured now d =
     (case startAttempts 0 userId references now d of
        None \<Rightarrow> (Inl KycUnavailable, d)
      | Some (i, ref, isNew, d1) \<Rightarrow>
          if configured then (Inr (i, ref), d1)
          else (Inl KycUnavailable, if isNew then d1\<lparr>kd_rows := filter (\<lambda>r. ks_id r \<noteq> i) (kd_rows d1)\<rparr> else d1))"

section \<open>The provider's decision\<close>

datatype HandleWebhookOutcome = HW_VERIFIED nat | HW_FAILED nat | HW_PENDING nat | HW_IGNORED

text \<open>What the handler does first: it is done, or a transition is to be claimed.\<close>

definition webhookRead :: "string \<times> NormalizedKycResult \<Rightarrow> KycDb \<Rightarrow> HandleWebhookOutcome + nat \<times> NormalizedKycResult" where
  "webhookRead parsed d =
     (case findUnique (\<lambda>r. ks_providerReference r = Some (fst parsed)) (kd_rows d) of
        None \<Rightarrow> Inl HW_IGNORED
      | Some s \<Rightarrow>
          if ks_status s \<noteq> KYC_PENDING then Inl (if ks_status s = KYC_APPROVED then HW_VERIFIED (ks_id s) else HW_FAILED (ks_id s))
          else if kr_outcome (snd parsed) = KV_PENDING then Inl (HW_PENDING (ks_id s))
          else Inr (ks_id s, snd parsed))"

definition claimKyc :: "(KycSubmission \<Rightarrow> KycSubmission) \<Rightarrow> nat \<Rightarrow> KycSubmission list \<Rightarrow> nat \<times> KycSubmission list" where
  "claimKyc f i = updateMany (\<lambda>r. ks_id r = i \<and> ks_status r = KYC_PENDING) f"

text \<open>What the provider, and what a reviewer, makes of a row.\<close>

definition providerResolves :: "NormalizedKycResult \<Rightarrow> int \<Rightarrow> KycSubmission \<Rightarrow> KycSubmission" where
  "providerResolves result now r =
     r\<lparr>ks_status := if kr_outcome result = KV_VERIFIED then KYC_APPROVED else KYC_REJECTED, ks_reviewedAt := Some now,
       ks_failureReason := kr_failureReason result\<rparr>"

definition reviewerResolves :: "bool \<Rightarrow> nat \<Rightarrow> int \<Rightarrow> KycSubmission \<Rightarrow> KycSubmission" where
  "reviewerResolves approve reviewerId now r =
     r\<lparr>ks_status := if approve then KYC_APPROVED else KYC_REJECTED, ks_reviewedAt := Some now, ks_reviewerId := Some reviewerId\<rparr>"

definition webhookDecide :: "nat \<times> NormalizedKycResult \<Rightarrow> int \<Rightarrow> KycDb \<Rightarrow> HandleWebhookOutcome \<times> KycDb" where
  "webhookDecide x now d =
     (let (i, result) = x; approved = (kr_outcome result = KV_VERIFIED);
          (n, rows) = claimKyc (providerResolves result now) i (kd_rows d);
          d1 = d\<lparr>kd_rows := rows\<rparr>
      in (if approved then HW_VERIFIED i else HW_FAILED i,
          if n = 1 then kycAudit None (if approved then ''KYC_VERIFIED'' else ''KYC_FAILED'') i d1 else d1))"

definition handleVerifiedProviderWebhook :: "(string \<Rightarrow> DojahWebhookPayload option) \<Rightarrow> string \<Rightarrow> int \<Rightarrow> KycDb \<Rightarrow> HandleWebhookOutcome \<times> KycDb" where
  "handleVerifiedProviderWebhook parse rawBody now d =
     (case parseWebhookPayload parse rawBody of
        None \<Rightarrow> (HW_IGNORED, d)
      | Some parsed \<Rightarrow> (case webhookRead parsed d of Inl out \<Rightarrow> (out, d) | Inr x \<Rightarrow> webhookDecide x now d))"

section \<open>Deliveries and the route\<close>

definition claimWebhookDelivery :: "(string \<Rightarrow> string) \<Rightarrow> string \<Rightarrow> string \<Rightarrow> string option \<Rightarrow> KycDb \<Rightarrow> bool \<times> KycDb" where
  "claimWebhookDelivery sha256 prov rawBody eventId d =
     (let i = (case eventId of None \<Rightarrow> sha256 rawBody | Some e \<Rightarrow> if e = [] then sha256 rawBody else e)
      in if (prov, i) \<in> set (kd_deliveries d) then (False, d) else (True, d\<lparr>kd_deliveries := kd_deliveries d @ [(prov, i)]\<rparr>))"

datatype WebhookAnswer = InvalidSignature | DuplicateDelivery | Received

text \<open>The route; \<open>fault\<close> tells that processing fails after the delivery was recorded: the error is logged and dropped.\<close>

definition dojahWebhook :: "(string \<Rightarrow> string) \<Rightarrow> (string \<Rightarrow> string) \<Rightarrow> (string \<Rightarrow> DojahWebhookPayload option) \<Rightarrow> string \<Rightarrow> string option \<Rightarrow> bool
    \<Rightarrow> int \<Rightarrow> KycDb \<Rightarrow> WebhookAnswer \<times> KycDb" where
  "dojahWebhook hmac sha256 parse rawBody signature fault now d =
     (if \<not> verifyWebhookSignature hmac rawBody signature then (InvalidSignature, d)
      else case claimWebhookDelivery sha256 ''DOJAH'' rawBody None d of
          (False, d1) \<Rightarrow> (DuplicateDelivery, d1)
        | (True, d1) \<Rightarrow> (Received, if fault then d1 else snd (handleVerifiedProviderWebhook parse rawBody now d1)))"

section \<open>Decisions by people\<close>

definition decidedError :: "KycStatus \<Rightarrow> kyc_error" where
  "decidedError s = KycConflict (''This submission has already been '' @ (case s of KYC_APPROVED \<Rightarrow> ''approved'' | KYC_REJECTED \<Rightarrow> ''rejected'' | KYC_PENDING \<Rightarrow> ''pending''))"

text \<open>The decision is split after the read.\<close>

definition decideRead :: "nat \<Rightarrow> KycDb \<Rightarrow> kyc_error + KycSubmission" where
  "decideRead i d =
     (case kycRow i d of
        None \<Rightarrow> Inl KycMissing
      | Some before \<Rightarrow> if ks_status before \<noteq> KYC_PENDING then Inl (decidedError (ks_status before)) else Inr before)"

definition decideClaim :: "nat \<Rightarrow> bool \<Rightarrow> nat \<Rightarrow> int \<Rightarrow> KycDb \<Rightarrow> kyc_error + KycDb" where
  "decideClaim i approve reviewerId now d =
     (let (n, rows) = claimKyc (reviewerResolves approve reviewerId now) i (kd_rows d)
      in if n = 0 then Inl (KycConflict ''This submission was decided by another reviewer'')
         else Inr (kycAudit (Some reviewerId) (if approve then ''KYC_APPROVED'' else ''KYC_REJECTED'') i (d\<lparr>kd_rows := rows\<rparr>)))"

definition decideKyc :: "nat \<Rightarrow> bool \<Rightarrow> nat \<Rightarrow> int \<Rightarrow> KycDb \<Rightarrow> kyc_error + KycDb" where
  "decideKyc i approve reviewerId now d = (case decideRead i d of Inl e \<Rightarrow> Inl e | Inr before \<Rightarrow> decideClaim i approve reviewerId now d)"

text \<open>The override of development builds.\<close>

definition adminOverrideKycStatus :: "nat \<Rightarrow> KycStatus \<Rightarrow> nat \<Rightarrow> string option \<Rightarrow> int \<Rightarrow> KycDb \<Rightarrow> kyc_error + KycDb" where
  "adminOverrideKycStatus i newStatus adminId reason now d =
     (case kycRow i d of
        None \<Rightarrow> Inl KycMissing
      | Some before \<Rightarrow>
         if ks_status before = newStatus then Inr d
         else let (n, rows) = updateMany (\<lambda>r. ks_id r = i \<and> ks_status r = ks_status before)
                    (\<lambda>r. r\<lparr>ks_status := newStatus, ks_reviewedAt := if newStatus = KYC_PENDING then None else Some now,
                       ks_reviewerId := if newStatus = KYC_PENDING then None else Some adminId,
                       ks_failureReason := if newStatus = KYC_REJECTED then Some (case reason of None \<Rightarrow> ''manual_admin_override'' | Some s \<Rightarrow> s) else None\<rparr>)
                    (kd_rows d)
           in if n = 0 then Inr d else Inr (kycAudit (Some adminId) ''KYC_ADMIN_OVERRIDE'' i (d\<lparr>kd_rows := rows\<rparr>)))"

interpretation by_provider: claims "claimKyc (providerResolves result now)" "\<lambda>i rows. \<exists>r\<in>set rows. ks_id r = i \<and> ks_status r = KYC_PENDING"
  unfolding claimKyc_def by (rule updateMany_claims) (simp add: providerResolves_def)

interpretation by_reviewer: claims "claimKyc (reviewerResolves approve reviewer now)" "\<lambda>i rows. \<exists>r\<in>set rows. ks_id r = i \<and> ks_status r = KYC_PENDING"
  unfolding claimKyc_def by (rule updateMany_claims) (simp add: reviewerResolves_def)

end
