(* ===== verification/KycProofs.thy ===== *)
theory KycProofs
  imports Kyc
begin

text \<open>
  Identity verification under any interleaving of starts, webhooks and reviewers: every submission is decided once, and
  what is approved was approved by the provider or by a reviewer.
\<close>

section \<open>Runs\<close>

text \<open>The log: results that arrived with a valid signature, and decisions of reviewers.\<close>

datatype KycEvent = Signed string NormalizedKycResult | Reviewed nat bool nat

record KycRun =
  kx_db :: KycDb
  kx_hooks :: "(nat \<times> NormalizedKycResult) list"
  kx_reviews :: "nat list"
  kx_log :: "KycEvent list"

inductive kyc_step :: "(string \<Rightarrow> string) \<Rightarrow> (string \<Rightarrow> string) \<Rightarrow> (string \<Rightarrow> DojahWebhookPayload option) \<Rightarrow> KycRun \<Rightarrow> KycRun \<Rightarrow> bool"
  for hmac sha256 parse where
  starts: "startProviderVerification userId refs configured now (kx_db s) = (out, d)
    \<Longrightarrow> kyc_step hmac sha256 parse s (s\<lparr>kx_db := d\<rparr>)"
| arrives: "verifyWebhookSignature hmac body signature \<Longrightarrow> claimWebhookDelivery sha256 ''DOJAH'' body None (kx_db s) = (True, d)
    \<Longrightarrow> parseWebhookPayload parse body = Some parsed
    \<Longrightarrow> kyc_step hmac sha256 parse s (s\<lparr>kx_db := d, kx_log := kx_log s @ [Signed (fst parsed) (snd parsed)],
          kx_hooks := kx_hooks s @ (case webhookRead parsed d of Inl out \<Rightarrow> [] | Inr x \<Rightarrow> [x])\<rparr>)"
| resolves: "kx_hooks s = us @ x # vs \<Longrightarrow> webhookDecide x now (kx_db s) = (out, d)
    \<Longrightarrow> kyc_step hmac sha256 parse s (s\<lparr>kx_db := d, kx_hooks := us @ vs\<rparr>)"
| opens: "decideRead i (kx_db s) = Inr before \<Longrightarrow> kyc_step hmac sha256 parse s (s\<lparr>kx_reviews := kx_reviews s @ [i]\<rparr>)"
| reviews: "kx_reviews s = us @ i # vs \<Longrightarrow> decideClaim i approve reviewer now (kx_db s) = Inr d
    \<Longrightarrow> kyc_step hmac sha256 parse s (s\<lparr>kx_db := d, kx_reviews := us @ vs, kx_log := kx_log s @ [Reviewed i approve reviewer]\<rparr>)"
| gives_up: "kx_reviews s = us @ i # vs \<Longrightarrow> decideClaim i approve reviewer now (kx_db s) = Inl e
    \<Longrightarrow> kyc_step hmac sha256 parse s (s\<lparr>kx_reviews := us @ vs\<rparr>)"

definition emptyKycRun :: KycRun where
  "emptyKycRun = \<lparr>kx_db = \<lparr>kd_rows = [], kd_deliveries = [], kd_audit = [], kd_nextId = 1\<rparr>, kx_hooks = [], kx_reviews = [], kx_log = []\<rparr>"

section \<open>The invariant\<close>

definition decision :: "KycAudit \<Rightarrow> bool" where
  "decision a \<longleftrightarrow> ka_action a \<in> {''KYC_VERIFIED'', ''KYC_FAILED'', ''KYC_APPROVED'', ''KYC_REJECTED''}"

definition decisions :: "nat \<Rightarrow> KycDb \<Rightarrow> nat" where
  "decisions i d = length (filter (\<lambda>a. decision a \<and> ka_targetId a = i) (kd_audit d))"

definition justified :: "KycEvent list \<Rightarrow> KycSubmission \<Rightarrow> bool" where
  "justified evs r \<longleftrightarrow> (ks_status r = KYC_APPROVED \<longrightarrow>
     (\<exists>ref result. ks_providerReference r = Some ref \<and> Signed ref result \<in> set evs \<and> kr_outcome result = KV_VERIFIED)
     \<or> (\<exists>reviewer. ks_reviewerId r = Some reviewer \<and> Reviewed (ks_id r) True reviewer \<in> set evs))"

definition kyc_rows_ok :: "KycEvent list \<Rightarrow> KycDb \<Rightarrow> bool" where
  "kyc_rows_ok evs d \<longleftrightarrow> distinct (map ks_id (kd_rows d))
     \<and> (\<forall>r\<in>set (kd_rows d). ks_id r < kd_nextId d \<and> justified evs r \<and> decisions (ks_id r) d = (if ks_status r = KYC_PENDING then 0 else 1))
     \<and> (\<forall>a\<in>set (kd_audit d). ka_targetId a < kd_nextId d)"

definition hook_ok :: "KycEvent list \<Rightarrow> KycDb \<Rightarrow> nat \<times> NormalizedKycResult \<Rightarrow> bool" where
  "hook_ok evs d x \<longleftrightarrow> fst x < kd_nextId d \<and> (\<exists>ref. Signed ref (snd x) \<in> set evs
     \<and> (\<forall>r\<in>set (kd_rows d). ks_id r = fst x \<longrightarrow> ks_providerReference r = Some ref))"

definition kyc_ok :: "KycRun \<Rightarrow> bool" where
  "kyc_ok s \<longleftrightarrow> kyc_rows_ok (kx_log s) (kx_db s) \<and> (\<forall>x\<in>set (kx_hooks s). hook_ok (kx_log s) (kx_db s) x)"

lemma justified_more: "justified evs r \<Longrightarrow> set evs \<subseteq> set evs' \<Longrightarrow> justified evs' r"
  unfolding justified_def by blast

lemma rows_more: "kyc_rows_ok evs d \<Longrightarrow> set evs \<subseteq> set evs' \<Longrightarrow> kyc_rows_ok evs' d"
  unfolding kyc_rows_ok_def using justified_more by blast

lemma hook_more: "hook_ok evs d x \<Longrightarrow> set evs \<subseteq> set evs' \<Longrightarrow> hook_ok evs' d x"
  unfolding hook_ok_def by blast

text \<open>A claimed row: exactly one decision is added, for a row that had none.\<close>

lemma claim_ok:
  assumes ok: "kyc_rows_ok evs d" and "\<And>r. ks_id (f r) = ks_id r \<and> ks_status (f r) \<noteq> KYC_PENDING"
    and "\<And>r. r \<in> set (kd_rows d) \<Longrightarrow> ks_id r = i \<Longrightarrow> justified evs (f r)" and "claimKyc f i (kd_rows d) = (n, rows)" "decision \<lparr>ka_actorId = actor, ka_action = action, ka_targetId = i\<rparr>"
  shows "kyc_rows_ok evs (if n \<noteq> 0 then kycAudit actor action i (d\<lparr>kd_rows := rows\<rparr>) else d\<lparr>kd_rows := rows\<rparr>)"
proof -
  let ?p = "\<lambda>r. ks_id r = i \<and> ks_status r = KYC_PENDING"
  have rows: "rows = map (\<lambda>r. if ?p r then f r else r) (kd_rows d)" and n: "n = length (filter ?p (kd_rows d))"
    using assms(4) by (auto simp: claimKyc_def updateMany_def)
  show ?thesis
  proof (cases "n = 0")
    case True
    then have "rows = kd_rows d" unfolding rows using n by (intro map_idI) (auto simp: filter_empty_conv)
    with ok True show ?thesis by simp
  next
    case False
    then obtain r0 where r0: "r0 \<in> set (kd_rows d)" "?p r0" using n by (auto simp: filter_empty_conv)
    have dist: "distinct (map ks_id (kd_rows d))" using ok by (simp add: kyc_rows_ok_def)
    let ?d = "kycAudit actor action i (d\<lparr>kd_rows := rows\<rparr>)"
    have dec: "decisions j ?d = decisions j d + (if j = i then 1 else 0)" for j
      using assms(5) by (simp add: decisions_def kycAudit_def decision_def)
    have ids: "map ks_id rows = map ks_id (kd_rows d)" using assms(2) by (simp add: rows)
    have "ks_id r < kd_nextId d \<and> justified evs r \<and> decisions (ks_id r) ?d = (if ks_status r = KYC_PENDING then 0 else 1)" if mem: "r \<in> set rows" for r
    proof -
      obtain r1 where r1: "r1 \<in> set (kd_rows d)" "r = (if ?p r1 then f r1 else r1)" using mem by (auto simp: rows)
      have same: "r1 = r0" if "ks_id r1 = i" using dist r0 r1(1) that by (auto simp: distinct_map inj_on_def)
      show ?thesis
      proof (cases "ks_id r1 = i")
        case True
        have "r = f r0" using same [OF True] r0 r1(2) by simp
        moreover have "ks_id r0 < kd_nextId d \<and> decisions (ks_id r0) d = (if ks_status r0 = KYC_PENDING then 0 else 1)"
          using ok r0(1) unfolding kyc_rows_ok_def by blast
        ultimately show ?thesis using r0 assms(2,3) dec by simp
      next
        case False
        then show ?thesis using r1 ok dec by (auto simp: kyc_rows_ok_def)
      qed
    qed
    moreover have "i < kd_nextId d" using r0 ok by (auto simp: kyc_rows_ok_def)
    ultimately show ?thesis using False dist ids ok by (auto simp: kyc_rows_ok_def kycAudit_def)
  qed
qed

text \<open>A start creates a pending row, changes nothing, or takes its own new row back.\<close>

lemma startAttempts_tx: "startAttempts n userId refs now d = Some out \<Longrightarrow> \<exists>ref. startTx userId ref now d = Some out"
  by (induction n userId refs now d rule: startAttempts.induct) (auto split: option.splits if_splits)

lemma start_cases:
  assumes "startProviderVerification userId refs configured now d = (out, d')"
  obtains "d' = d" | row where "ks_id row = kd_nextId d" "ks_status row = KYC_PENDING" "d' = submit userId row d"
  | row where "ks_id row = kd_nextId d" "d' = (submit userId row d)\<lparr>kd_rows := filter (\<lambda>r. ks_id r \<noteq> kd_nextId d) (kd_rows d @ [row])\<rparr>"
proof (cases "startAttempts 0 userId refs now d")
  case None
  with assms that(1) show thesis by (auto simp: startProviderVerification_def)
next
  case (Some x)
  obtain i ref isNew d1 where x: "x = (i, ref, isNew, d1)" by (cases x)
  obtain ref0 where tx: "startTx userId ref0 now d = Some (i, ref, isNew, d1)" using startAttempts_tx [OF Some] x by blast
  let ?row = "newSubmission userId ref0 now (kd_nextId d)"
  have sub: "ks_id ?row = kd_nextId d" "ks_status ?row = KYC_PENDING" by (simp_all add: newSubmission_def)
  have new: "isNew \<Longrightarrow> d1 = submit userId ?row d \<and> i = kd_nextId d" and old: "\<not> isNew \<Longrightarrow> d1 = d"
    using tx sub(1) by (auto simp: startTx_def Let_def split: if_splits option.splits)
  show thesis
  proof (cases isNew)
    case False
    then show thesis using assms that(1) old Some x by (auto simp: startProviderVerification_def split: if_splits)
  next
    case True
    then have row: "ks_id ?row = kd_nextId d" "ks_status ?row = KYC_PENDING" "d1 = submit userId ?row d" "i = kd_nextId d" using new sub by auto
    show thesis
    proof (cases configured)
      case True
      then show thesis using assms that(2) [OF row(1,2)] row(3) Some x by (auto simp: startProviderVerification_def)
    next
      case False
      then show thesis using assms that(3) [OF row(1)] row Some x \<open>isNew\<close>
        by (auto simp: startProviderVerification_def submit_def kycAudit_def)
    qed
  qed
qed

lemma start_ok:
  assumes "startProviderVerification userId refs configured now d = (out, d')" "kyc_rows_ok evs d"
  shows "kyc_rows_ok evs d'" and "hook_ok evs d x \<Longrightarrow> hook_ok evs d' x"
proof -
  have fresh: "kd_nextId d \<notin> ks_id ` set (kd_rows d)" "decisions (kd_nextId d) d = 0"
    using assms(2) by (auto simp: kyc_rows_ok_def decisions_def filter_empty_conv)
  have dec: "decisions j (submit userId row d) = decisions j d" for j row by (simp add: decisions_def submit_def kycAudit_def decision_def)
  have sub: "kyc_rows_ok evs (submit userId row d)" if "ks_id row = kd_nextId d" "ks_status row = KYC_PENDING" for row
  proof -
    have "kd_rows (submit userId row d) = kd_rows d @ [row]" "kd_nextId (submit userId row d) = kd_nextId d + 1"
      "kd_audit (submit userId row d) = kd_audit d @ [\<lparr>ka_actorId = Some userId, ka_action = ''KYC_SUBMITTED'', ka_targetId = kd_nextId d\<rparr>]"
      using that(1) by (simp_all add: submit_def kycAudit_def)
    then show ?thesis using assms(2) that fresh dec by (auto simp: kyc_rows_ok_def justified_def less_SucI)
  qed
  show "kyc_rows_ok evs d'"
    using assms(1)
  proof (cases rule: start_cases)
    case (3 row)
    have "filter (\<lambda>r. ks_id r \<noteq> kd_nextId d) (kd_rows d) = kd_rows d" using fresh(1) by (simp add: filter_id_conv) (metis imageI)
    then show ?thesis using assms(2) 3 by (auto simp: kyc_rows_ok_def submit_def kycAudit_def decisions_def decision_def less_SucI)
  qed (use assms(2) sub in auto)
  show "hook_ok evs d' x" if h: "hook_ok evs d x"
    using assms(1)
    by (cases rule: start_cases) (use h in \<open>auto simp: hook_ok_def submit_def kycAudit_def\<close>)
qed

section \<open>Every step keeps it\<close>

lemma hook_claim:
  assumes "hook_ok evs d x" "claimKyc f i (kd_rows d) = (n, rs)" "\<And>r. ks_id (f r) = ks_id r \<and> ks_providerReference (f r) = ks_providerReference r"
    "kd_rows d' = rs" "kd_nextId d' = kd_nextId d"
  shows "hook_ok evs d' x"
proof -
  obtain ref where ref: "Signed ref (snd x) \<in> set evs" "\<forall>r\<in>set (kd_rows d). ks_id r = fst x \<longrightarrow> ks_providerReference r = Some ref"
    using assms(1) by (auto simp: hook_ok_def)
  have "ks_providerReference r = Some ref" if mem: "r \<in> set rs" "ks_id r = fst x" for r
  proof -
    obtain r0 where "r0 \<in> set (kd_rows d)" "r = f r0 \<or> r = r0" using assms(2) mem(1) by (auto simp: claimKyc_def updateMany_def)
    then show ?thesis using ref(2) assms(3) mem(2) by auto
  qed
  then show ?thesis using assms(1,4,5) ref(1) by (auto simp: hook_ok_def)
qed

lemma step_kyc_ok: "kyc_step hmac sha256 parse s s' \<Longrightarrow> kyc_ok s \<Longrightarrow> kyc_ok s'"
proof (induction rule: kyc_step.induct)
  case (starts userId refs configured now s out d)
  then show ?case using start_ok [OF starts(1)] by (simp add: kyc_ok_def)
next
  case (arrives body signature s d parsed)
  let ?evs = "kx_log s @ [Signed (fst parsed) (snd parsed)]"
  have d: "kd_rows d = kd_rows (kx_db s)" "kd_nextId d = kd_nextId (kx_db s)" "kd_audit d = kd_audit (kx_db s)"
    using arrives(2) by (auto simp: claimWebhookDelivery_def Let_def split: if_splits)
  have rows: "kyc_rows_ok (kx_log s) d" using arrives.prems d by (simp add: kyc_ok_def kyc_rows_ok_def decisions_def)
  have old: "hook_ok ?evs d x" if "x \<in> set (kx_hooks s)" for x
    using that arrives.prems d by (auto simp: kyc_ok_def hook_ok_def)
  have new: "hook_ok ?evs d x" if read: "webhookRead parsed d = Inr x" for x
  proof -
    obtain r where r: "r \<in> set (kd_rows d)" "ks_providerReference r = Some (fst parsed)" "x = (ks_id r, snd parsed)"
      using read by (auto simp: webhookRead_def dest!: findUnique_Some split: option.splits if_splits)
    have "r' = r" if "r' \<in> set (kd_rows d)" "ks_id r' = ks_id r" for r'
      using that r(1) rows by (auto simp: kyc_rows_ok_def distinct_map inj_on_def)
    moreover have "ks_id r < kd_nextId d" using r(1) rows unfolding kyc_rows_ok_def by blast
    ultimately show ?thesis using r by (auto simp: hook_ok_def)
  qed
  show ?case using rows_more [OF rows, of ?evs] old new by (auto simp: kyc_ok_def split: sum.splits)
next
  case (resolves s us x vs now out d)
  obtain i result where x: "x = (i, result)" by (cases x)
  have rows: "kyc_rows_ok (kx_log s) (kx_db s)" and hook: "hook_ok (kx_log s) (kx_db s) x" using resolves by (simp_all add: kyc_ok_def)
  obtain n rs where c: "claimKyc (providerResolves result now) i (kd_rows (kx_db s)) = (n, rs)" by fastforce
  let ?f = "providerResolves result now" and ?act = "if kr_outcome result = KV_VERIFIED then ''KYC_VERIFIED'' else ''KYC_FAILED''"
  have one: "n = 0 \<or> n = 1"
  proof -
    have "distinct (map ks_id (filter (\<lambda>r. ks_id r = i \<and> ks_status r = KYC_PENDING) (kd_rows (kx_db s))))"
      using rows by (simp add: kyc_rows_ok_def distinct_map_filter)
    moreover have "set (map ks_id (filter (\<lambda>r. ks_id r = i \<and> ks_status r = KYC_PENDING) (kd_rows (kx_db s)))) \<subseteq> {i}" by auto
    ultimately have "length (map ks_id (filter (\<lambda>r. ks_id r = i \<and> ks_status r = KYC_PENDING) (kd_rows (kx_db s)))) \<le> card {i}"
      by (metis card_mono distinct_card finite.emptyI finite.insertI)
    then have "n \<le> 1" using c by (auto simp: claimKyc_def updateMany_def)
    then show ?thesis by linarith
  qed
  have d: "d = (if n \<noteq> 0 then kycAudit None ?act i ((kx_db s)\<lparr>kd_rows := rs\<rparr>) else (kx_db s)\<lparr>kd_rows := rs\<rparr>)"
    using resolves(2) one by (auto simp: webhookDecide_def x c Let_def)
  have "kyc_rows_ok (kx_log s) d" unfolding d
  proof (rule claim_ok [OF rows _ _ c])
    fix r show "ks_id (?f r) = ks_id r \<and> ks_status (?f r) \<noteq> KYC_PENDING" by (simp add: providerResolves_def)
    assume "r \<in> set (kd_rows (kx_db s))" "ks_id r = i"
    then show "justified (kx_log s) (?f r)" using hook x by (auto simp: hook_ok_def justified_def providerResolves_def)
  qed (simp add: decision_def)
  moreover have "hook_ok (kx_log s) d y" if "hook_ok (kx_log s) (kx_db s) y" for y
    by (rule hook_claim [OF that c]) (simp_all add: d kycAudit_def providerResolves_def)
  ultimately show ?case using resolves by (simp add: kyc_ok_def)
next
  case (reviews s us i vs approve reviewer now d)
  let ?f = "reviewerResolves approve reviewer now" and ?evs = "kx_log s @ [Reviewed i approve reviewer]"
  obtain n rs where c: "claimKyc ?f i (kd_rows (kx_db s)) = (n, rs)" by fastforce
  have n: "n \<noteq> 0" and d: "d = kycAudit (Some reviewer) (if approve then ''KYC_APPROVED'' else ''KYC_REJECTED'') i ((kx_db s)\<lparr>kd_rows := rs\<rparr>)"
    using reviews(2) by (auto simp: decideClaim_def c split: if_splits)
  have "kyc_rows_ok ?evs (kx_db s)" using reviews.prems rows_more [of "kx_log s" "kx_db s" ?evs] unfolding kyc_ok_def by auto
  from claim_ok [OF this _ _ c] have "kyc_rows_ok ?evs d" using n
    by (auto simp: d reviewerResolves_def justified_def decision_def)
  moreover have "hook_ok ?evs d y" if "hook_ok (kx_log s) (kx_db s) y" for y
    by (rule hook_claim [OF hook_more [OF that] c]) (auto simp: d kycAudit_def reviewerResolves_def)
  ultimately show ?case using reviews.prems by (simp add: kyc_ok_def)
qed (simp_all add: kyc_ok_def)

lemma kyc_run_ok: "(kyc_step hmac sha256 parse)\<^sup>*\<^sup>* emptyKycRun s \<Longrightarrow> kyc_ok s"
proof (induction rule: rtranclp_induct)
  case base
  show ?case by (simp add: kyc_ok_def emptyKycRun_def kyc_rows_ok_def)
qed (rule step_kyc_ok)

text \<open>
  C39: However starts, signed webhooks and reviewers interleave, each submission on record that is decided was decided
  exactly once, one that is pending not at all; an approved one carries the reference of a result that arrived with a
  valid signature and said verified, or was approved by the reviewer it names.
\<close>

theorem kyc_decided_once:
  assumes "(kyc_step hmac sha256 parse)\<^sup>*\<^sup>* emptyKycRun s" "r \<in> set (kd_rows (kx_db s))"
  shows "decisions (ks_id r) (kx_db s) = (if ks_status r = KYC_PENDING then 0 else 1)
    \<and> (ks_status r = KYC_APPROVED \<longrightarrow>
        (\<exists>ref result. ks_providerReference r = Some ref \<and> Signed ref result \<in> set (kx_log s) \<and> kr_outcome result = KV_VERIFIED)
        \<or> (\<exists>reviewer. ks_reviewerId r = Some reviewer \<and> Reviewed (ks_id r) True reviewer \<in> set (kx_log s)))"
proof -
  have "kyc_rows_ok (kx_log s) (kx_db s)" using kyc_run_ok [OF assms(1)] by (simp add: kyc_ok_def)
  then have "justified (kx_log s) r \<and> decisions (ks_id r) (kx_db s) = (if ks_status r = KYC_PENDING then 0 else 1)"
    using assms(2) unfolding kyc_rows_ok_def by blast
  then show ?thesis by (simp add: justified_def)
qed

definition sampleKyc :: "KycStatus \<Rightarrow> KycSubmission" where
  "sampleKyc status = (newSubmission 7 ''ref'' 0 1)\<lparr>ks_status := status\<rparr>"

definition sampleKycRun :: "KycSubmission \<Rightarrow> KycAudit list \<Rightarrow> nat list \<Rightarrow> KycEvent list \<Rightarrow> KycRun" where
  "sampleKycRun row audits rs evs = \<lparr>kx_db = \<lparr>kd_rows = [row], kd_deliveries = [],
     kd_audit = \<lparr>ka_actorId = Some 7, ka_action = ''KYC_SUBMITTED'', ka_targetId = 1\<rparr> # audits, kd_nextId = 2\<rparr>, kx_hooks = [], kx_reviews = rs, kx_log = evs\<rparr>"

definition approvedRow :: KycSubmission where
  "approvedRow = (sampleKyc KYC_APPROVED)\<lparr>ks_reviewedAt := Some 5, ks_reviewerId := Some 3\<rparr>"

definition approvedRun :: KycRun where
  "approvedRun = sampleKycRun approvedRow [\<lparr>ka_actorId = Some 3, ka_action = ''KYC_APPROVED'', ka_targetId = 1\<rparr>] [] [Reviewed 1 True 3]"

lemma approved_run: "(kyc_step hmac sha256 parse)\<^sup>*\<^sup>* emptyKycRun approvedRun"
proof -
  let ?row = "sampleKyc KYC_PENDING"
  note sample = sampleKycRun_def sampleKyc_def newSubmission_def kycAudit_def
  have "startProviderVerification 7 [''ref''] True 0 (kx_db emptyKycRun) = (Inr (1, ''ref''), kx_db (sampleKycRun ?row [] [] []))"
    by (simp add: startProviderVerification_def startTx_def emptyKycRun_def submit_def Let_def sample)
  from starts [OF this] have "kyc_step hmac sha256 parse emptyKycRun (sampleKycRun ?row [] [] [])" by (simp add: sampleKycRun_def emptyKycRun_def)
  moreover have "decideRead 1 (kx_db (sampleKycRun ?row [] [] [])) = Inr ?row" by (simp add: decideRead_def kycRow_def findUnique_def sample)
  from opens [OF this] have "kyc_step hmac sha256 parse (sampleKycRun ?row [] [] []) (sampleKycRun ?row [] [1] [])" by (simp add: sampleKycRun_def)
  moreover have "decideClaim 1 True 3 5 (kx_db (sampleKycRun ?row [] [1] [])) = Inr (kx_db approvedRun)"
    by (simp add: decideClaim_def claimKyc_def updateMany_def reviewerResolves_def approvedRun_def approvedRow_def Let_def sample)
  from reviews [OF _ this, of "[]" "[]"] have "kyc_step hmac sha256 parse (sampleKycRun ?row [] [1] []) approvedRun"
    by (simp add: sampleKycRun_def approvedRun_def)
  ultimately show ?thesis by (meson converse_rtranclp_into_rtranclp rtranclp.rtrancl_refl)
qed

theorem kyc_decided_once_witness: "decisions (ks_id approvedRow) (kx_db approvedRun) = 1 \<and> Reviewed 1 True 3 \<in> set (kx_log approvedRun)"
  using kyc_decided_once [OF approved_run, of approvedRow]
  by (simp add: approvedRun_def sampleKycRun_def approvedRow_def sampleKyc_def newSubmission_def)

section \<open>A failed delivery\<close>

text \<open>
  The delivery is recorded before it is processed: when processing fails, the answer is still that it was received,
  and the provider's retry of the same body is taken for a duplicate and changes nothing.
\<close>

lemma failed_delivery_is_lost:
  assumes "verifyWebhookSignature hmac body signature" "dojahWebhook hmac sha256 parse body signature True now d = (Received, d')"
  shows "kd_rows d' = kd_rows d" "dojahWebhook hmac sha256 parse body signature False now' d' = (DuplicateDelivery, d')"
  using assms by (auto simp: dojahWebhook_def claimWebhookDelivery_def Let_def split: if_splits)

end
