(* ===== verification/FeedPlan.thy ===== *)
theory FeedPlan
  imports FeedRouter JsString "HOL-Library.List_Lexorder" "HOL-Library.Char_ord"
begin

text \<open>
  Which provider serves which instrument (\<open>src/trading/feeds/plan.ts\<close>, \<open>feeds/index.ts\<close>), and how the worker starts,
  restarts and stops providers so that they follow the plan (\<open>startProviders\<close> of \<open>src/worker/main.ts\<close>). That function
  awaits, and it is called by a timer and by an HTTP request: it is a task of steps, each up to the next await.
\<close>

section \<open>The plan\<close>

record FeedInstrument =
  fi_symbol :: string
  fi_feedSource :: string
  fi_feedSymbol :: string
  fi_backupFeedSource :: "string option"
  fi_backupFeedSymbol :: "string option"
  fi_digits :: int
  fi_category :: "string option"

record FeedSymbol =
  fs_symbol :: string
  fs_feedSymbol :: string
  fs_digits :: int

definition STUB_LIKE :: "string \<Rightarrow> bool" where
  "STUB_LIKE s \<longleftrightarrow> startsWith s ''STUB'' \<and> (\<forall>c\<in>set (drop 4 s). is_digit c)"

definition FX_ONLY_SOURCES :: "string list" where
  "FX_ONLY_SOURCES = [''CTRADER'', ''TRADERMADE'']"

definition effectiveFeedSource :: "FeedInstrument \<Rightarrow> string" where
  "effectiveFeedSource inst = toUpperCase (trim (fi_feedSource inst))"

definition effectiveBackupSource :: "FeedInstrument \<Rightarrow> string option" where
  "effectiveBackupSource inst =
     (case fi_backupFeedSource inst of
        None \<Rightarrow> None
      | Some s \<Rightarrow>
         (let backup = toUpperCase (trim s) in
          if trim s = [] then None
          else if fi_category inst = Some ''CRYPTO'' \<and> backup \<in> set FX_ONLY_SOURCES then None
          else if backup = effectiveFeedSource inst then None else Some backup))"

text \<open>\<open>a || b\<close> on strings.\<close>

definition orElse :: "string \<Rightarrow> string \<Rightarrow> string" where
  "orElse a b = (if a = [] then b else a)"

definition feedSymbolFor :: "string \<Rightarrow> FeedInstrument \<Rightarrow> bool \<Rightarrow> string" where
  "feedSymbolFor source inst backup =
     (if STUB_LIKE source then fi_symbol inst
      else if backup then orElse (case fi_backupFeedSymbol inst of Some s \<Rightarrow> trim s | None \<Rightarrow> []) (orElse (fi_feedSymbol inst) (fi_symbol inst))
      else orElse (fi_feedSymbol inst) (fi_symbol inst))"

definition addToGroup :: "string \<Rightarrow> FeedSymbol \<Rightarrow> (string \<times> FeedSymbol list) list \<Rightarrow> (string \<times> FeedSymbol list) list" where
  "addToGroup source s groups = AList.update source ((case map_of groups source of Some l \<Rightarrow> l | None \<Rightarrow> []) @ [s]) groups"

definition feedSymbolOf :: "string \<Rightarrow> FeedInstrument \<Rightarrow> bool \<Rightarrow> FeedSymbol" where
  "feedSymbolOf source inst backup =
     \<lparr>fs_symbol = fi_symbol inst, fs_feedSymbol = feedSymbolFor source inst backup, fs_digits = fi_digits inst\<rparr>"

definition routeOf :: "FeedInstrument \<Rightarrow> FeedRoute" where
  "routeOf inst = \<lparr>fr_symbol = fi_symbol inst, fr_primary = effectiveFeedSource inst, fr_backup = effectiveBackupSource inst\<rparr>"

definition planInstrument :: "FeedRoute list \<times> (string \<times> FeedSymbol list) list \<Rightarrow> FeedInstrument \<Rightarrow> FeedRoute list \<times> (string \<times> FeedSymbol list) list" where
  "planInstrument plan inst =
     (let primary = effectiveFeedSource inst;
          groups = addToGroup primary (feedSymbolOf primary inst False) (snd plan)
      in (fst plan @ [routeOf inst],
          case effectiveBackupSource inst of Some backup \<Rightarrow> addToGroup backup (feedSymbolOf backup inst True) groups | None \<Rightarrow> groups))"

definition planFeeds :: "FeedInstrument list \<Rightarrow> FeedRoute list \<times> (string \<times> FeedSymbol list) list" where
  "planFeeds instruments = foldl planInstrument ([], []) instruments"

text \<open>Sorting compares code units, here characters.\<close>

definition subscriptionKey :: "FeedSymbol list \<Rightarrow> string" where
  "subscriptionKey symbols = joinWith (CHR '','') (sort (map (\<lambda>s. fs_symbol s @ CHR ''='' # fs_feedSymbol s) symbols))"

datatype ProviderKind = StubFeed string | BinanceFeed | CTraderFeed | TraderMadeFeed

definition createProvider :: "string \<Rightarrow> ProviderKind option" where
  "createProvider source =
     (let name = toUpperCase source in
      if STUB_LIKE name then Some (StubFeed name)
      else if name = ''BINANCE'' then Some BinanceFeed
      else if name = ''CTRADER'' then Some CTraderFeed
      else if name = ''TRADERMADE'' then Some TraderMadeFeed
      else None)"

section \<open>The providers of the worker\<close>

text \<open>
  \<open>wf_providers\<close> is the map of the worker, \<open>wf_running\<close> the providers that were started and not stopped, whether
  the map still knows them or not: each of them delivers ticks to the router.
\<close>

record FeedEntry =
  fe_id :: nat
  fe_key :: string

record RunningProvider =
  rp_id :: nat
  rp_source :: string
  rp_symbols :: "FeedSymbol list"

record WorkerFeeds =
  wf_router :: FeedRouter
  wf_providers :: "(string \<times> FeedEntry) list"
  wf_running :: "RunningProvider list"
  wf_nextId :: nat

datatype SyncStage = NextGroup | AfterStop | AfterStart nat | Removing | AfterRemove string

record SyncTask =
  sk_plan :: "string list"
  sk_groups :: "(string \<times> FeedSymbol list) list"
  sk_stage :: SyncStage

datatype SyncOutcome = SyncThrows | SyncDone | SyncAwaits SyncTask

definition stopProvider :: "nat \<Rightarrow> WorkerFeeds \<Rightarrow> WorkerFeeds" where
  "stopProvider i w = w\<lparr>wf_running := filter (\<lambda>p. rp_id p \<noteq> i) (wf_running w)\<rparr>"

text \<open>The configured address is a valid URL: the constructor of the socket does not throw.\<close>

definition startProvider :: "string \<Rightarrow> FeedSymbol list \<Rightarrow> SyncTask \<Rightarrow> WorkerFeeds \<Rightarrow> SyncOutcome \<times> WorkerFeeds" where
  "startProvider source symbols t w =
     (if createProvider source = None then (SyncThrows, w)
      else (SyncAwaits (t\<lparr>sk_stage := AfterStart (wf_nextId w)\<rparr>),
        w\<lparr>wf_running := wf_running w @ [\<lparr>rp_id = wf_nextId w, rp_source = source, rp_symbols = symbols\<rparr>], wf_nextId := wf_nextId w + 1\<rparr>))"

definition syncGroup :: "SyncTask \<Rightarrow> WorkerFeeds \<Rightarrow> SyncOutcome \<times> WorkerFeeds" where
  "syncGroup t w =
     (case sk_groups t of
        [] \<Rightarrow> (SyncAwaits (t\<lparr>sk_stage := Removing\<rparr>), w)
      | (source, symbols) # rest \<Rightarrow>
         (case map_of (wf_providers w) source of
            None \<Rightarrow> startProvider source symbols t w
          | Some e \<Rightarrow> if fe_key e = subscriptionKey symbols then (SyncAwaits (t\<lparr>sk_groups := rest\<rparr>), w)
              else (SyncAwaits (t\<lparr>sk_stage := AfterStop\<rparr>), stopProvider (fe_id e) w)))"

definition syncStarted :: "nat \<Rightarrow> SyncTask \<Rightarrow> WorkerFeeds \<Rightarrow> SyncOutcome \<times> WorkerFeeds" where
  "syncStarted i t w =
     (case sk_groups t of
        [] \<Rightarrow> (SyncDone, w)
      | (source, symbols) # rest \<Rightarrow> (SyncAwaits (t\<lparr>sk_groups := rest, sk_stage := NextGroup\<rparr>),
          w\<lparr>wf_providers := AList.update source \<lparr>fe_id = i, fe_key = subscriptionKey symbols\<rparr> (wf_providers w)\<rparr>))"

definition syncRemove :: "SyncTask \<Rightarrow> WorkerFeeds \<Rightarrow> SyncOutcome \<times> WorkerFeeds" where
  "syncRemove t w =
     (case List.find (\<lambda>(source, e). source \<notin> set (sk_plan t)) (wf_providers w) of
        None \<Rightarrow> (SyncDone, w)
      | Some (source, e) \<Rightarrow> (SyncAwaits (t\<lparr>sk_stage := AfterRemove source\<rparr>), stopProvider (fe_id e) w))"

definition syncStep :: "SyncTask \<Rightarrow> WorkerFeeds \<Rightarrow> SyncOutcome \<times> WorkerFeeds" where
  "syncStep t w =
     (case sk_stage t of
        NextGroup \<Rightarrow> syncGroup t w
      | AfterStop \<Rightarrow> (case sk_groups t of [] \<Rightarrow> (SyncDone, w) | (source, symbols) # rest \<Rightarrow> startProvider source symbols t w)
      | AfterStart i \<Rightarrow> syncStarted i t w
      | Removing \<Rightarrow> syncRemove t w
      | AfterRemove source \<Rightarrow> (SyncAwaits (t\<lparr>sk_stage := Removing\<rparr>), w\<lparr>wf_providers := AList.delete source (wf_providers w)\<rparr>))"

definition syncStart :: "FeedInstrument list \<Rightarrow> int \<Rightarrow> WorkerFeeds \<Rightarrow> SyncTask \<times> WorkerFeeds" where
  "syncStart instruments now w =
     (let (routes, groups) = planFeeds instruments
      in (\<lparr>sk_plan = map fst groups, sk_groups = groups, sk_stage = NextGroup\<rparr>, w\<lparr>wf_router := setRoutes routes now (wf_router w)\<rparr>))"

text \<open>A task that nothing interrupts.\<close>

definition unplanned :: "string list \<Rightarrow> (string \<times> FeedEntry) list \<Rightarrow> nat" where
  "unplanned plan entries = length (filter (\<lambda>x. fst x \<notin> set plan) entries)"

definition groupRank :: "SyncTask \<Rightarrow> nat" where
  "groupRank t = (case sk_stage t of NextGroup \<Rightarrow> 4 * length (sk_groups t) + 4 | AfterStop \<Rightarrow> 4 * length (sk_groups t) + 3
     | AfterStart i \<Rightarrow> 4 * length (sk_groups t) + 2 | Removing \<Rightarrow> 0 | AfterRemove source \<Rightarrow> 0)"

definition removeRank :: "SyncTask \<Rightarrow> WorkerFeeds \<Rightarrow> nat" where
  "removeRank t w = (case sk_stage t of
     AfterRemove source \<Rightarrow> 2 * unplanned (sk_plan t) (AList.delete source (wf_providers w)) + 1
   | _ \<Rightarrow> 2 * unplanned (sk_plan t) (wf_providers w))"

lemma unplanned_delete:
  assumes "(source, e) \<in> set entries" "source \<notin> set plan"
  shows "unplanned plan (AList.delete source entries) < unplanned plan entries"
proof -
  have "filter (\<lambda>x. fst x \<notin> set plan) (AList.delete source entries) = filter (\<lambda>x. fst x \<noteq> source) (filter (\<lambda>x. fst x \<notin> set plan) entries)"
    by (auto simp: AList.delete_eq intro!: filter_cong)
  moreover have "(source, e) \<in> set (filter (\<lambda>x. fst x \<notin> set plan) entries)" using assms by simp
  moreover have "length (filter (\<lambda>x. fst x \<noteq> source) (filter (\<lambda>x. fst x \<notin> set plan) entries)) < length (filter (\<lambda>x. fst x \<notin> set plan) entries)"
    by (rule length_filter_less [OF calculation(2)]) simp
  ultimately show ?thesis by (simp add: unplanned_def del: filter_filter)
qed

lemma syncStep_rank:
  assumes "syncStep t w = (SyncAwaits t1, w1)"
  shows "groupRank t1 < groupRank t \<or> groupRank t1 = groupRank t \<and> removeRank t1 w1 < removeRank t w"
proof (cases "sk_stage t")
  case Removing
  then obtain source e where "List.find (\<lambda>(source, e). source \<notin> set (sk_plan t)) (wf_providers w) = Some (source, e)"
    "t1 = t\<lparr>sk_stage := AfterRemove source\<rparr>" "w1 = stopProvider (fe_id e) w"
    using assms by (auto simp: syncStep_def syncRemove_def split: option.splits)
  moreover from this(1) have "(source, e) \<in> set (wf_providers w)" "source \<notin> set (sk_plan t)"
    by (auto simp: find_Some_iff) (metis nth_mem)
  ultimately show ?thesis using Removing unplanned_delete by (fastforce simp: groupRank_def removeRank_def stopProvider_def)
qed (use assms in \<open>auto simp: syncStep_def syncGroup_def startProvider_def syncStarted_def groupRank_def removeRank_def stopProvider_def
       split: list.splits option.splits if_splits\<close>)

function runSync :: "SyncTask \<Rightarrow> WorkerFeeds \<Rightarrow> bool \<times> WorkerFeeds" where
  "runSync t w = (case syncStep t w of
     (SyncThrows, w1) \<Rightarrow> (False, w1) | (SyncDone, w1) \<Rightarrow> (True, w1) | (SyncAwaits t1, w1) \<Rightarrow> runSync t1 w1)"
  by pat_completeness auto

termination
  by (relation "measures [\<lambda>(t, w). groupRank t, \<lambda>(t, w). removeRank t w]") (use syncStep_rank in \<open>auto dest!: sym\<close>)

declare runSync.simps [simp del]

definition startProviders :: "FeedInstrument list \<Rightarrow> int \<Rightarrow> WorkerFeeds \<Rightarrow> bool \<times> WorkerFeeds" where
  "startProviders instruments now w = (let (t, w1) = syncStart instruments now w in runSync t w1)"

end
