(* ===== verification/FeedPlanProofs.thy ===== *)
theory FeedPlanProofs
  imports FeedPlan "HOL-Library.Multiset"
begin

text \<open>
  The plan gives each source exactly the symbols that are routed to it, and after a synchronisation the running providers
  are the plan; what the subscription key does not see, and what two synchronisations at the same time do.
\<close>

section \<open>The plan\<close>

definition served :: "string \<Rightarrow> FeedInstrument \<Rightarrow> FeedSymbol list" where
  "served source inst = (if effectiveFeedSource inst = source then [feedSymbolOf source inst False]
     else if effectiveBackupSource inst = Some source then [feedSymbolOf source inst True] else [])"

definition groupOf :: "FeedInstrument list \<Rightarrow> string \<Rightarrow> FeedSymbol list option" where
  "groupOf instruments source = (let l = concat (map (served source) instruments) in if l = [] then None else Some l)"

lemma backup_differs: "effectiveBackupSource inst \<noteq> Some (effectiveFeedSource inst)" "effectiveBackupSource inst \<noteq> Some []"
  by (auto simp: effectiveBackupSource_def Let_def toUpperCase_def split: option.splits)

lemma map_of_update [simp]: "map_of (AList.update k v xs) = (map_of xs)(k \<mapsto> v)"
  by (rule AList.update_conv')

lemma groups_snoc: "groupOf (instruments @ [inst]) source = (if served source inst = [] then groupOf instruments source
    else Some ((case groupOf instruments source of Some l \<Rightarrow> l | None \<Rightarrow> []) @ served source inst))"
  by (simp add: groupOf_def Let_def)

lemma plan_snoc: "planFeeds (instruments @ [inst]) = planInstrument (planFeeds instruments) inst"
  by (simp add: planFeeds_def)

lemma map_of_add: "map_of (addToGroup source s groups) = (map_of groups)(source \<mapsto> (case map_of groups source of Some l \<Rightarrow> l | None \<Rightarrow> []) @ [s])"
  by (simp add: addToGroup_def)

lemma plan_groups: "map_of (snd (planFeeds instruments)) = groupOf instruments"
proof (induction instruments rule: rev_induct)
  case Nil
  show ?case by (auto simp: planFeeds_def groupOf_def)
next
  case (snoc inst instruments)
  show ?case
    unfolding plan_snoc planInstrument_def Let_def
    using backup_differs(1) [of inst]
    by (rule_tac ext) (cases "effectiveBackupSource inst"; auto simp: map_of_add snoc.IH groups_snoc served_def)
qed

lemma plan_routes: "fst (planFeeds instruments) = map routeOf instruments"
  by (induction instruments rule: rev_induct) (simp_all add: planFeeds_def planInstrument_def Let_def)

lemma plan_distinct: "distinct (map fst (snd (planFeeds instruments)))"
proof (induction instruments rule: rev_induct)
  case (snoc inst instruments)
  then show ?case
    by (cases "effectiveBackupSource inst") (simp_all add: plan_snoc planInstrument_def Let_def addToGroup_def distinct_update)
qed (simp add: planFeeds_def)

lemma clean_planned: "cleanRoute (routeOf inst) = routeOf inst"
  using backup_differs [of inst] by (auto simp: cleanRoute_def routeOf_def split: option.split)

section \<open>Synchronisation\<close>

definition subscribed :: "WorkerFeeds \<Rightarrow> string \<Rightarrow> FeedSymbol list option" where
  "subscribed w = map_of (map (\<lambda>p. (rp_source p, rp_symbols p)) (wf_running w))"

text \<open>The map of the worker and the running providers agree.\<close>

definition feeds_ok :: "WorkerFeeds \<Rightarrow> bool" where
  "feeds_ok w \<longleftrightarrow> distinct (map fst (wf_providers w)) \<and> distinct (map rp_source (wf_running w)) \<and> distinct (map rp_id (wf_running w))
     \<and> fst ` set (wf_providers w) = rp_source ` set (wf_running w)
     \<and> (\<forall>p\<in>set (wf_running w). rp_id p < wf_nextId w
          \<and> map_of (wf_providers w) (rp_source p) = Some \<lparr>fe_id = rp_id p, fe_key = subscriptionKey (rp_symbols p)\<rparr>)"

lemma ok_entry:
  assumes "feeds_ok w" "map_of (wf_providers w) source = Some e"
  obtains p where "p \<in> set (wf_running w)" "rp_source p = source" "e = \<lparr>fe_id = rp_id p, fe_key = subscriptionKey (rp_symbols p)\<rparr>"
    "subscribed w source = Some (rp_symbols p)" "wf_running (stopProvider (fe_id e) w) = filter (\<lambda>q. rp_source q \<noteq> source) (wf_running w)"
proof -
  have "source \<in> fst ` set (wf_providers w)" using assms(2) by (metis map_of_eq_None_iff option.distinct(1))
  then obtain p where p: "p \<in> set (wf_running w)" "rp_source p = source" using assms(1) by (auto simp: feeds_ok_def)
  then have e: "e = \<lparr>fe_id = rp_id p, fe_key = subscriptionKey (rp_symbols p)\<rparr>" using assms by (auto simp: feeds_ok_def)
  have "inj_on rp_id (set (wf_running w))" "inj_on rp_source (set (wf_running w))" using assms(1) by (simp_all add: feeds_ok_def distinct_map)
  then have "rp_id q = rp_id p \<longleftrightarrow> rp_source q = source" if "q \<in> set (wf_running w)" for q
    using p that by (metis inj_on_eq_iff)
  then have "rp_id q \<noteq> fe_id e \<longleftrightarrow> rp_source q \<noteq> source" if "q \<in> set (wf_running w)" for q using that e by simp
  then have "wf_running (stopProvider (fe_id e) w) = filter (\<lambda>q. rp_source q \<noteq> source) (wf_running w)"
    by (auto simp: stopProvider_def intro!: filter_cong)
  moreover have "subscribed w source = Some (rp_symbols p)"
    unfolding subscribed_def using assms(1) p by (intro map_of_is_SomeI) (auto simp: feeds_ok_def comp_def)
  ultimately show thesis using that p e by blast
qed

lemma ok_none:
  assumes "feeds_ok w" "map_of (wf_providers w) source = None"
  shows "subscribed w source = None" "filter (\<lambda>q. rp_source q \<noteq> source) (wf_running w) = wf_running w"
proof -
  have "source \<notin> rp_source ` set (wf_running w)" using assms by (simp add: feeds_ok_def map_of_eq_None_iff)
  then show "subscribed w source = None" "filter (\<lambda>q. rp_source q \<noteq> source) (wf_running w) = wf_running w"
    by (auto simp: subscribed_def map_of_eq_None_iff filter_id_conv)
qed

text \<open>A provider that is stopped and forgotten, and one that is started in place of another.\<close>

definition without :: "string \<Rightarrow> WorkerFeeds \<Rightarrow> WorkerFeeds" where
  "without source w = w\<lparr>wf_running := filter (\<lambda>q. rp_source q \<noteq> source) (wf_running w), wf_providers := AList.delete source (wf_providers w)\<rparr>"

definition restarted :: "string \<Rightarrow> FeedSymbol list \<Rightarrow> WorkerFeeds \<Rightarrow> WorkerFeeds" where
  "restarted source symbols w = w\<lparr>wf_running := filter (\<lambda>q. rp_source q \<noteq> source) (wf_running w)
       @ [\<lparr>rp_id = wf_nextId w, rp_source = source, rp_symbols = symbols\<rparr>], wf_nextId := wf_nextId w + 1,
     wf_providers := AList.update source \<lparr>fe_id = wf_nextId w, fe_key = subscriptionKey symbols\<rparr> (wf_providers w)\<rparr>"

lemma map_of_running_filter:
  "map_of (map (\<lambda>p. (rp_source p, rp_symbols p)) (filter (\<lambda>q. rp_source q \<noteq> source) ps))
    = (map_of (map (\<lambda>p. (rp_source p, rp_symbols p)) ps))(source := None)"
  by (induction ps) auto

lemma keys_delete [simp]: "fst ` set (AList.delete k al) = fst ` set al - {k}"
  using AList.delete_keys [of k al] by (metis list.set_map set_removeAll)

lemma without_ok: "feeds_ok w \<Longrightarrow> feeds_ok (without source w) \<and> subscribed (without source w) = (subscribed w)(source := None)"
  by (auto simp: feeds_ok_def without_def subscribed_def map_of_running_filter AList.delete_conv' distinct_delete distinct_map_filter distinct_removeAll AList.delete_keys)

lemma restarted_ok:
  assumes "feeds_ok w"
  shows "feeds_ok (restarted source symbols w) \<and> subscribed (restarted source symbols w) = (subscribed w)(source \<mapsto> symbols)"
proof -
  have "rp_id p \<noteq> wf_nextId w" if "p \<in> set (wf_running w)" for p using assms that by (auto simp: feeds_ok_def)
  then show ?thesis using assms
    by (auto simp: feeds_ok_def restarted_def subscribed_def map_of_running_filter AList.dom_update distinct_update
        distinct_map_filter less_SucI map_add_def split: option.splits)
qed

text \<open>One group, and then all of them.\<close>

definition settled :: "string \<times> FeedSymbol list \<Rightarrow> WorkerFeeds \<Rightarrow> WorkerFeeds" where
  "settled g w = (case map_of (wf_providers w) (fst g) of
     Some e \<Rightarrow> if fe_key e = subscriptionKey (snd g) then w else restarted (fst g) (snd g) w
   | None \<Rightarrow> restarted (fst g) (snd g) w)"

lemma run_group:
  assumes "feeds_ok w" "createProvider source \<noteq> None" "sk_stage t = NextGroup" "sk_groups t = (source, symbols) # rest"
  shows "runSync t w = runSync (t\<lparr>sk_groups := rest\<rparr>) (settled (source, symbols) w)"
proof -
  have t: "t\<lparr>sk_groups := rest, sk_stage := NextGroup\<rparr> = t\<lparr>sk_groups := rest\<rparr>" "t\<lparr>sk_stage := NextGroup, sk_groups := rest\<rparr> = t\<lparr>sk_groups := rest\<rparr>"
    using assms(3) by simp_all
  obtain kind where kind: "createProvider source = Some kind" using assms(2) by auto
  note step = runSync.simps [of t] runSync.simps [of "t\<lparr>sk_stage := AfterStop\<rparr>"] runSync.simps [of "t\<lparr>sk_stage := AfterStart (wf_nextId w)\<rparr>"]
  show ?thesis
  proof (cases "map_of (wf_providers w) source")
    case None
    then show ?thesis using assms(3,4) kind None ok_none [OF assms(1) None]
      by (simp add: step syncStep_def syncGroup_def startProvider_def syncStarted_def settled_def restarted_def t)
  next
    case (Some e)
    from ok_entry [OF assms(1) Some] have run: "wf_running (stopProvider (fe_id e) w) = filter (\<lambda>q. rp_source q \<noteq> source) (wf_running w)" by blast
    then show ?thesis using assms(3,4) kind Some
      by (simp add: step syncStep_def syncGroup_def startProvider_def syncStarted_def settled_def restarted_def stopProvider_def t)
  qed
qed

definition kept :: "FeedSymbol list option \<Rightarrow> FeedSymbol list \<Rightarrow> FeedSymbol list" where
  "kept old new = (case old of Some l \<Rightarrow> if subscriptionKey l = subscriptionKey new then l else new | None \<Rightarrow> new)"

lemma settled_ok:
  assumes "feeds_ok w"
  shows "feeds_ok (settled (source, symbols) w)"
    "subscribed (settled (source, symbols) w) = (subscribed w)(source \<mapsto> kept (subscribed w source) symbols)"
proof -
  have "feeds_ok (settled (source, symbols) w) \<and> subscribed (settled (source, symbols) w) = (subscribed w)(source \<mapsto> kept (subscribed w source) symbols)"
  proof (cases "map_of (wf_providers w) source")
    case None
    then show ?thesis using restarted_ok [OF assms] ok_none [OF assms None] by (simp add: settled_def kept_def)
  next
    case (Some e)
    obtain p :: RunningProvider where p: "fe_key e = subscriptionKey (rp_symbols p)" "subscribed w source = Some (rp_symbols p)"
      by (rule ok_entry [OF assms Some]) auto
    show ?thesis
    proof (cases "fe_key e = subscriptionKey symbols")
      case True
      then show ?thesis using Some p assms by (simp add: settled_def kept_def fun_upd_idem)
    next
      case False
      then show ?thesis using Some p restarted_ok [OF assms, of source symbols] by (simp add: settled_def kept_def)
    qed
  qed
  then show "feeds_ok (settled (source, symbols) w)"
    "subscribed (settled (source, symbols) w) = (subscribed w)(source \<mapsto> kept (subscribed w source) symbols)" by simp_all
qed

lemma settled_router [simp]: "wf_router (settled g w) = wf_router w"
  by (auto simp: settled_def restarted_def split: option.split)

lemma run_groups:
  assumes "feeds_ok w" "\<forall>g\<in>set gs. createProvider (fst g) \<noteq> None" "distinct (map fst gs)" "sk_stage t = NextGroup" "sk_groups t = gs"
  shows "\<exists>w1. runSync t w = runSync (t\<lparr>sk_groups := [], sk_stage := Removing\<rparr>) w1 \<and> feeds_ok w1 \<and> wf_router w1 = wf_router w
    \<and> subscribed w1 = (\<lambda>source. case map_of gs source of Some l \<Rightarrow> Some (kept (subscribed w source) l) | None \<Rightarrow> subscribed w source)"
  using assms
proof (induction gs arbitrary: t w)
  case Nil
  have "runSync t w = runSync (t\<lparr>sk_stage := Removing\<rparr>) w" using Nil by (subst runSync.simps) (simp add: syncStep_def syncGroup_def)
  moreover have "t\<lparr>sk_stage := Removing\<rparr> = t\<lparr>sk_groups := [], sk_stage := Removing\<rparr>" using Nil by (cases t) simp
  ultimately show ?case using Nil by auto
next
  case (Cons g gs)
  obtain source symbols where g: "g = (source, symbols)" by (cases g)
  let ?w = "settled (source, symbols) w"
  have run: "runSync t w = runSync (t\<lparr>sk_groups := gs\<rparr>) ?w" using run_group [OF Cons.prems(1) _ Cons.prems(4)] Cons.prems g by simp
  note ok = settled_ok [OF Cons.prems(1), of source symbols]
  from Cons.IH [of ?w "t\<lparr>sk_groups := gs\<rparr>"] obtain w1 where
    "runSync (t\<lparr>sk_groups := gs\<rparr>) ?w = runSync (t\<lparr>sk_groups := [], sk_stage := Removing\<rparr>) w1" "feeds_ok w1" "wf_router w1 = wf_router w"
    and s: "subscribed w1 = (\<lambda>source. case map_of gs source of Some l \<Rightarrow> Some (kept (subscribed ?w source) l) | None \<Rightarrow> subscribed ?w source)"
    using Cons.prems ok by auto
  moreover have "map_of gs source = None" using Cons.prems(3) by (simp add: g map_of_eq_None_iff)
  moreover from this have "subscribed w1 x = (case map_of (g # gs) x of Some l \<Rightarrow> Some (kept (subscribed w x) l) | None \<Rightarrow> subscribed w x)" for x
    unfolding s ok(2) g by (cases "x = source") (auto split: option.split)
  ultimately show ?case using run by (intro exI [of _ w1]) auto
qed

lemma without_entry: "feeds_ok w \<Longrightarrow> map_of (wf_providers w) source = Some e
  \<Longrightarrow> (stopProvider (fe_id e) w)\<lparr>wf_providers := AList.delete source (wf_providers w)\<rparr> = without source w"
  by (erule (1) ok_entry) (simp add: without_def stopProvider_def)

lemma run_removals:
  assumes "feeds_ok w" "sk_stage t = Removing"
  shows "\<exists>w1. runSync t w = (True, w1) \<and> feeds_ok w1 \<and> wf_router w1 = wf_router w
    \<and> subscribed w1 = (\<lambda>source. if source \<in> set (sk_plan t) then subscribed w source else None)"
  using assms(1)
proof (induction "unplanned (sk_plan t) (wf_providers w)" arbitrary: w rule: less_induct)
  case less
  have same: "t\<lparr>sk_stage := Removing\<rparr> = t" using assms(2) by simp
  show ?case
  proof (cases "List.find (\<lambda>(source, e). source \<notin> set (sk_plan t)) (wf_providers w)")
    case None
    then have "fst ` set (wf_providers w) \<subseteq> set (sk_plan t)" by (auto simp: find_None_iff)
    then have "subscribed w source = None" if "source \<notin> set (sk_plan t)" for source
      using less.prems that by (auto simp: subscribed_def map_of_eq_None_iff feeds_ok_def)
    moreover have "runSync t w = (True, w)" using None assms(2) by (subst runSync.simps) (simp add: syncStep_def syncRemove_def)
    ultimately show ?thesis using less.prems by (intro exI [of _ w]) auto
  next
    case (Some x)
    obtain source e where x: "x = (source, e)" by (cases x)
    then have mem: "(source, e) \<in> set (wf_providers w)" "source \<notin> set (sk_plan t)" using Some by (auto simp: find_Some_iff) (metis nth_mem)
    have e: "map_of (wf_providers w) source = Some e" using mem(1) less.prems by (simp add: feeds_ok_def)
    have run: "runSync t w = runSync t (without source w)"
      unfolding without_entry [OF less.prems e, symmetric]
      using Some assms(2) by (subst runSync.simps, simp add: syncStep_def syncRemove_def x, subst runSync.simps)
        (simp add: syncStep_def same stopProvider_def)
    have "unplanned (sk_plan t) (wf_providers (without source w)) < unplanned (sk_plan t) (wf_providers w)"
      using unplanned_delete [OF mem] by (simp add: without_def)
    from less.hyps [OF this] without_ok [OF less.prems, of source] obtain w1 where
      "runSync t (without source w) = (True, w1)" "feeds_ok w1" "wf_router w1 = wf_router (without source w)"
      and s: "subscribed w1 = (\<lambda>s. if s \<in> set (sk_plan t) then subscribed (without source w) s else None)" by blast
    moreover have "subscribed w1 = (\<lambda>s. if s \<in> set (sk_plan t) then subscribed w s else None)"
      unfolding s using without_ok [OF less.prems, of source] mem(2) by auto
    ultimately show ?thesis using run by (intro exI [of _ w1]) (simp add: without_def)
  qed
qed

section \<open>What the key determines\<close>

text \<open>Names without the separators of the key.\<close>

definition plainNames :: "FeedSymbol list \<Rightarrow> bool" where
  "plainNames l \<longleftrightarrow> (\<forall>s\<in>set l. CHR '','' \<notin> set (fs_symbol s) \<and> CHR '','' \<notin> set (fs_feedSymbol s) \<and> CHR ''='' \<notin> set (fs_symbol s))"

definition asked :: "FeedSymbol \<Rightarrow> string \<times> string" where
  "asked s = (fs_symbol s, fs_feedSymbol s)"

lemma split_join: "ps \<noteq> [] \<Longrightarrow> \<forall>p\<in>set ps. sep \<notin> set p \<Longrightarrow> splitAt sep (joinWith sep ps) = ps"
  by (induction sep ps rule: joinWith.induct) (simp_all add: split_plain split_append)

lemma key_determines:
  assumes "subscriptionKey a = subscriptionKey b" "plainNames a" "plainNames b"
  shows "mset (map asked a) = mset (map asked b)"
proof -
  let ?f = "\<lambda>s. fs_symbol s @ CHR ''='' # fs_feedSymbol s"
  have part: "CHR '','' \<notin> set p \<and> p \<noteq> []" if "p \<in> set (sort (map ?f l))" "plainNames l" for p l
    using that by (auto simp: plainNames_def)
  have join: "splitAt (CHR '','') (subscriptionKey l) = (if l = [] then [[]] else sort (map ?f l))" if "plainNames l" for l
  proof (cases "l = []")
    case False
    then have "sort (map ?f l) \<noteq> []" by (metis length_0_conv length_map length_sort)
    then show ?thesis using part [OF _ that] False by (simp add: subscriptionKey_def split_join del: set_sort)
  qed (simp add: subscriptionKey_def)
  have empty: "l = []" if "plainNames l" "splitAt (CHR '','') (subscriptionKey l) = [[]]" for l
  proof (rule ccontr)
    assume "l \<noteq> []"
    then have "sort (map ?f l) = [[]]" using join [OF that(1)] that(2) by simp
    then have "[] \<in> set (sort (map ?f l))" by simp
    then show False using part [OF _ that(1)] by blast
  qed
  have "sort (map ?f a) = sort (map ?f b)"
    using join [OF assms(2)] join [OF assms(3)] assms(1) empty [OF assms(2)] empty [OF assms(3)] by (cases "a = []"; cases "b = []") auto
  then have "mset (sort (map ?f a)) = mset (sort (map ?f b))" by (rule arg_cong)
  then have m: "mset (map ?f a) = mset (map ?f b)" by (simp only: mset_sort)
  define g where "g p = (takeWhile (\<lambda>c. c \<noteq> CHR ''='') p, tl (dropWhile (\<lambda>c. c \<noteq> CHR ''='') p))" for p :: string
  have g: "g (?f s) = asked s" if "s \<in> set l" "plainNames l" for s l
  proof -
    have "\<forall>c\<in>set (fs_symbol s). c \<noteq> CHR ''=''" using that by (auto simp: plainNames_def)
    then show ?thesis by (simp add: g_def asked_def takeWhile_append2 dropWhile_append2)
  qed
  have map: "mset (map asked l) = image_mset g (mset (map ?f l))" if "plainNames l" for l
  proof -
    have "map g (map ?f l) = map asked l" using g [OF _ that] by simp
    then show ?thesis by (metis mset_map)
  qed
  show ?thesis unfolding map [OF assms(2)] map [OF assms(3)] m ..
qed

section \<open>The whole synchronisation\<close>

lemma map_of_filter_keys: "map_of (filter (\<lambda>(k, v). k \<in> A) xs) k = (if k \<in> A then map_of xs k else None)"
  by (induction xs) auto

definition routed :: "FeedRouter \<Rightarrow> string \<Rightarrow> (string \<times> string option) option" where
  "routed router symbol = map_option (\<lambda>st. (fr_primary (sy_route st), fr_backup (sy_route st))) (map_of (rt_symbols router) symbol)"

lemma routed_setRoute:
  "routed (setRoute now router r) = (routed router)(fr_symbol r \<mapsto> (fr_primary r, fr_backup (cleanRoute r)))"
proof -
  have c: "fr_symbol (cleanRoute r) = fr_symbol r" "fr_primary (cleanRoute r) = fr_primary r" by (simp_all add: cleanRoute_def)
  show ?thesis
    by (rule ext) (auto simp: setRoute_def Let_def routed_def c freshSymbol_def split: option.splits)
qed

lemma routed_foldl:
  assumes "distinct (map fr_symbol rs)" "r \<in> set rs"
  shows "routed (foldl (setRoute now) router rs) (fr_symbol r) = Some (fr_primary r, fr_backup (cleanRoute r))"
  using assms by (induction rs rule: rev_induct) (auto simp: routed_setRoute image_iff)

lemma routed_setRoutes:
  assumes "distinct (map fr_symbol rs)" "r \<in> set rs"
  shows "routed (setRoutes rs now router) (fr_symbol r) = Some (fr_primary r, fr_backup (cleanRoute r))"
  using routed_foldl [OF assms] assms(2) by (simp add: routed_def setRoutes_def Let_def map_of_filter_keys)

lemma sync_result:
  assumes "feeds_ok w" "\<forall>source. groupOf instruments source \<noteq> None \<longrightarrow> createProvider source \<noteq> None"
  obtains w' where "startProviders instruments now w = (True, w')" "feeds_ok w'"
    "wf_router w' = setRoutes (map routeOf instruments) now (wf_router w)"
    "subscribed w' = (\<lambda>source. map_option (kept (subscribed w source)) (groupOf instruments source))"
proof -
  obtain routes groups where plan: "planFeeds instruments = (routes, groups)" by fastforce
  have r: "routes = map routeOf instruments" and g: "map_of groups = groupOf instruments" and d: "distinct (map fst groups)"
    using plan_routes [of instruments] plan_groups [of instruments] plan_distinct [of instruments] by (simp_all add: plan)
  let ?t = "\<lparr>sk_plan = map fst groups, sk_groups = groups, sk_stage = NextGroup\<rparr>" and ?w = "w\<lparr>wf_router := setRoutes routes now (wf_router w)\<rparr>"
  have ok: "feeds_ok ?w" "subscribed ?w = subscribed w" using assms(1) by (simp_all add: feeds_ok_def subscribed_def)
  have dom: "source \<in> fst ` set groups \<longleftrightarrow> groupOf instruments source \<noteq> None" for source using g by (metis map_of_eq_None_iff)
  have known: "\<forall>x\<in>set groups. createProvider (fst x) \<noteq> None" using assms(2) dom by (metis image_eqI)
  obtain w1 where w1: "runSync ?t ?w = runSync (?t\<lparr>sk_groups := [], sk_stage := Removing\<rparr>) w1" "feeds_ok w1" "wf_router w1 = wf_router ?w"
    "subscribed w1 = (\<lambda>source. case map_of groups source of Some l \<Rightarrow> Some (kept (subscribed ?w source) l) | None \<Rightarrow> subscribed ?w source)"
    using run_groups [OF ok(1) known d, of ?t] by auto
  obtain w' where w': "runSync (?t\<lparr>sk_groups := [], sk_stage := Removing\<rparr>) w1 = (True, w')" "feeds_ok w'" "wf_router w' = wf_router w1"
    "subscribed w' = (\<lambda>source. if source \<in> set (map fst groups) then subscribed w1 source else None)"
    using run_removals [OF w1(2), of "?t\<lparr>sk_groups := [], sk_stage := Removing\<rparr>"] by auto
  have "startProviders instruments now w = (True, w')" using w1(1) w'(1) by (simp add: startProviders_def syncStart_def plan)
  moreover have "subscribed w' = (\<lambda>source. map_option (kept (subscribed w source)) (groupOf instruments source))"
    unfolding w'(4) w1(4) ok(2) g using dom by (auto split: option.split)
  ultimately show thesis using that w'(2,3) w1(3) r by simp
qed

definition sourcesOf :: "FeedInstrument \<Rightarrow> string list" where
  "sourcesOf inst = effectiveFeedSource inst # (case effectiveBackupSource inst of Some b \<Rightarrow> [b] | None \<Rightarrow> [])"

definition wanted :: "string \<Rightarrow> FeedInstrument \<Rightarrow> string \<times> string" where
  "wanted source inst = (fi_symbol inst, feedSymbolFor source inst (effectiveBackupSource inst = Some source))"

lemma asked_served: "asked ` set (served source inst) = (if source \<in> set (sourcesOf inst) then {wanted source inst} else {})"
  using backup_differs(1) [of inst] by (auto simp: served_def sourcesOf_def wanted_def asked_def feedSymbolOf_def split: option.splits)

lemma asked_group:
  "asked ` set (case groupOf instruments source of Some l \<Rightarrow> l | None \<Rightarrow> []) = {wanted source inst |inst. inst \<in> set instruments \<and> source \<in> set (sourcesOf inst)}"
proof -
  have "set (case groupOf instruments source of Some l \<Rightarrow> l | None \<Rightarrow> []) = (\<Union>inst\<in>set instruments. set (served source inst))"
    by (auto simp: groupOf_def Let_def)
  then have "asked ` set (case groupOf instruments source of Some l \<Rightarrow> l | None \<Rightarrow> []) = (\<Union>inst\<in>set instruments. asked ` set (served source inst))"
    by (simp add: image_UN)
  then show ?thesis by (auto simp: asked_served)
qed

text \<open>
  C24: A synchronisation of the feeds that nothing interrupts ends with one running provider for each source of the
  plan and no other; a provider asks for exactly the instruments it is a primary or backup of, under their names for
  it; one whose subscription is unchanged is not restarted; and the router follows the same plan.
\<close>

theorem feeds_follow_the_plan:
  assumes "feeds_ok w" "distinct (map fi_symbol instruments)"
    and "\<forall>inst\<in>set instruments. \<forall>source\<in>set (sourcesOf inst). createProvider source \<noteq> None"
    and "\<forall>source l. groupOf instruments source = Some l \<or> subscribed w source = Some l \<longrightarrow> plainNames l"
  shows "\<exists>w'. startProviders instruments now w = (True, w') \<and> feeds_ok w'
    \<and> rp_source ` set (wf_running w') = (\<Union>inst\<in>set instruments. set (sourcesOf inst))
    \<and> (\<forall>p\<in>set (wf_running w'). asked ` set (rp_symbols p) = {wanted (rp_source p) inst |inst. inst \<in> set instruments \<and> rp_source p \<in> set (sourcesOf inst)})
    \<and> (\<forall>source l l'. subscribed w source = Some l \<and> groupOf instruments source = Some l' \<and> subscriptionKey l = subscriptionKey l' \<longrightarrow> subscribed w' source = Some l)
    \<and> (\<forall>inst\<in>set instruments. routed (wf_router w') (fi_symbol inst) = Some (effectiveFeedSource inst, effectiveBackupSource inst))"
proof -
  have dom: "groupOf instruments source \<noteq> None \<longleftrightarrow> (\<exists>inst\<in>set instruments. source \<in> set (sourcesOf inst))" for source
  proof -
    have "groupOf instruments source \<noteq> None \<longleftrightarrow> asked ` set (case groupOf instruments source of Some l \<Rightarrow> l | None \<Rightarrow> []) \<noteq> {}"
      by (auto simp: groupOf_def Let_def) (metis last_in_set)
    then show ?thesis unfolding asked_group by blast
  qed
  then have "\<forall>source. groupOf instruments source \<noteq> None \<longrightarrow> createProvider source \<noteq> None" using assms(3) by blast
  from sync_result [OF assms(1) this] obtain w' where w': "startProviders instruments now w = (True, w')" "feeds_ok w'"
    "wf_router w' = setRoutes (map routeOf instruments) now (wf_router w)"
    and sub: "subscribed w' = (\<lambda>source. map_option (kept (subscribed w source)) (groupOf instruments source))" .
  have asks: "asked ` set (kept (subscribed w source) l) = asked ` set l" if "groupOf instruments source = Some l" for source l
  proof -
    have "mset (map asked (kept (subscribed w source) l)) = mset (map asked l)"
    proof (cases "subscribed w source")
      case (Some old)
      then have "plainNames old" "plainNames l" using assms(4) that by blast+
      then show ?thesis using key_determines [of old l] Some by (simp add: kept_def)
    qed (simp add: kept_def)
    then have "set (map asked (kept (subscribed w source) l)) = set (map asked l)" by (rule mset_eq_setD)
    then show ?thesis by simp
  qed
  have run: "subscribed w' (rp_source p) = Some (rp_symbols p)" if "p \<in> set (wf_running w')" for p
    unfolding subscribed_def using w'(2) that by (intro map_of_is_SomeI) (auto simp: feeds_ok_def comp_def)
  have "rp_source ` set (wf_running w') = dom (subscribed w')" by (force simp: subscribed_def dom_map_of_conv_image_fst)
  also have "\<dots> = (\<Union>inst\<in>set instruments. set (sourcesOf inst))" using dom by (auto simp: sub)
  finally have sources: "rp_source ` set (wf_running w') = (\<Union>inst\<in>set instruments. set (sourcesOf inst))" .
  have "asked ` set (rp_symbols p) = {wanted (rp_source p) inst |inst. inst \<in> set instruments \<and> rp_source p \<in> set (sourcesOf inst)}"
    if mem: "p \<in> set (wf_running w')" for p
  proof -
    obtain l where l: "groupOf instruments (rp_source p) = Some l" "rp_symbols p = kept (subscribed w (rp_source p)) l"
      using run [OF mem] by (auto simp: sub)
    then show ?thesis using asks [OF l(1)] asked_group [of instruments "rp_source p"] by simp
  qed
  moreover have "subscribed w' source = Some l" if "subscribed w source = Some l" "groupOf instruments source = Some l'" "subscriptionKey l = subscriptionKey l'" for source l l'
    using that by (simp add: sub kept_def)
  moreover have "routed (wf_router w') (fi_symbol inst) = Some (effectiveFeedSource inst, effectiveBackupSource inst)" if "inst \<in> set instruments" for inst
  proof -
    have d: "distinct (map fr_symbol (map routeOf instruments))" using assms(2) by (simp add: routeOf_def comp_def)
    from routed_setRoutes [OF d, of "routeOf inst"] that show ?thesis
      unfolding w'(3) clean_planned by (simp add: routeOf_def)
  qed
  ultimately show ?thesis using w'(1,2) sources by blast
qed

definition emptyFeeds :: WorkerFeeds where
  "emptyFeeds = \<lparr>wf_router = newFeedRouter None None None None, wf_providers = [], wf_running = [], wf_nextId = 0\<rparr>"

definition sampleFeedInstrument :: FeedInstrument where
  "sampleFeedInstrument = \<lparr>fi_symbol = ''EURUSD'', fi_feedSource = ''ctrader '', fi_feedSymbol = ''EUR/USD'',
     fi_backupFeedSource = Some ''TRADERMADE'', fi_backupFeedSymbol = None, fi_digits = 5, fi_category = Some ''FOREX''\<rparr>"

lemma sample_sources: "effectiveFeedSource sampleFeedInstrument = ''CTRADER''" "effectiveBackupSource sampleFeedInstrument = Some ''TRADERMADE''"
  by code_simp+

theorem feeds_follow_the_plan_witness:
  "\<exists>w'. startProviders [sampleFeedInstrument] 0 emptyFeeds = (True, w') \<and> rp_source ` set (wf_running w') = {''CTRADER'', ''TRADERMADE''}
     \<and> routed (wf_router w') ''EURUSD'' = Some (''CTRADER'', Some ''TRADERMADE'')"
proof -
  have "feeds_ok emptyFeeds" "subscribed emptyFeeds source = None" for source by (simp_all add: feeds_ok_def emptyFeeds_def subscribed_def)
  moreover have known: "createProvider ''CTRADER'' \<noteq> None" "createProvider ''TRADERMADE'' \<noteq> None" by code_simp+
  moreover have symbol: "fi_symbol sampleFeedInstrument = ''EURUSD''" by (simp add: sampleFeedInstrument_def)
  moreover have "plainNames l" if "groupOf [sampleFeedInstrument] source = Some l" for source l
  proof -
    have "feedSymbolFor ''CTRADER'' sampleFeedInstrument False = ''EUR/USD''" "feedSymbolFor ''TRADERMADE'' sampleFeedInstrument True = ''EUR/USD''"
      by code_simp+
    then show ?thesis using that
      by (auto simp: groupOf_def Let_def served_def sample_sources plainNames_def feedSymbolOf_def symbol split: if_splits)
  qed
  ultimately show ?thesis
    using feeds_follow_the_plan [of emptyFeeds "[sampleFeedInstrument]" 0] by (auto simp: sourcesOf_def sample_sources)
qed

section \<open>What the synchronisation misses\<close>

text \<open>The key has no digits: a provider whose instruments only changed their digits goes on rounding to the old ones.\<close>

lemma digits_change_is_missed:
  assumes "feeds_ok w" "\<forall>source. groupOf instruments source \<noteq> None \<longrightarrow> createProvider source \<noteq> None"
    and "subscribed w source = Some old" "groupOf instruments source = Some new" "map asked old = map asked new"
  shows "\<exists>w'. startProviders instruments now w = (True, w') \<and> subscribed w' source = Some old"
proof -
  have key: "subscriptionKey l = joinWith (CHR '','') (sort (map (\<lambda>x. fst x @ CHR ''='' # snd x) (map asked l)))" for l
    by (simp add: subscriptionKey_def asked_def comp_def)
  have "subscriptionKey old = subscriptionKey new" unfolding key assms(5) ..
  moreover obtain w' where "startProviders instruments now w = (True, w')"
    "subscribed w' = (\<lambda>source. map_option (kept (subscribed w source)) (groupOf instruments source))"
    by (rule sync_result [OF assms(1,2)])
  ultimately show ?thesis using assms(3,4) by (simp add: kept_def)
qed

text \<open>Two synchronisations at the same time: both start the provider, the map keeps one, and the other is never stopped.\<close>

lemma parallel_syncs_leak:
  assumes "sk_stage t = NextGroup" "sk_groups t = (source, symbols) # rest" "map_of (wf_providers w) source = None" "createProvider source \<noteq> None"
    and "syncStep t w = (SyncAwaits t1, w1)" "syncStep t w1 = (SyncAwaits t2, w2)"
    and "syncStep t1 w2 = (SyncAwaits t3, w3)" "syncStep t2 w3 = (SyncAwaits t4, w4)"
  shows "map rp_source (wf_running w4) = map rp_source (wf_running w) @ [source, source]"
    and "wf_nextId w \<in> rp_id ` set (wf_running w4) \<and> map_of (wf_providers w4) source = Some \<lparr>fe_id = wf_nextId w + 1, fe_key = subscriptionKey symbols\<rparr>"
  using assms by (auto simp: syncStep_def syncGroup_def startProvider_def syncStarted_def)

end
