(* ===== verification/FeedCodec.thy ===== *)
theory FeedCodec
  imports FeedPlan GatewayMessages
begin

text \<open>
  What the market data providers read from the wire: cTrader (\<open>src/trading/feeds/ctrader.ts\<close>), TraderMade
  (\<open>tradermade.ts\<close>) and Binance (\<open>binance.ts\<close>), over decoded JSON as in \<open>GatewayMessages\<close>. The instants and volumes
  of a tick or a bar are whole numbers, the integer part of what the wire carries. Feed symbols have no line breaks.
\<close>

section \<open>Number(string)\<close>

definition baseDigit :: "int \<Rightarrow> char \<Rightarrow> int option" where
  "baseDigit base c = (let d = (if is_digit c then digit_val c else if is_letter c then int (code (upper_char c)) - 55 else base)
     in if d < base then Some d else None)"

definition baseValue :: "int \<Rightarrow> string \<Rightarrow> rat option" where
  "baseValue base s = (if s = [] \<or> None \<in> set (map (baseDigit base) s) then None
     else Some (of_int (foldl (\<lambda>n c. base * n + the (baseDigit base c)) 0 s)))"

definition digitsOnly :: "string \<Rightarrow> bool" where
  "digitsOnly s \<longleftrightarrow> s \<noteq> [] \<and> (\<forall>c\<in>set s. is_digit c)"

definition exponentOf :: "string \<Rightarrow> int option" where
  "exponentOf s = (case s of
     [] \<Rightarrow> Some 0
   | e # rest \<Rightarrow>
       if e \<noteq> CHR ''e'' \<and> e \<noteq> CHR ''E'' then None
       else if startsWith rest ''-'' then (if digitsOnly (tl rest) then Some (- digits_val (tl rest)) else None)
       else if startsWith rest ''+'' then (if digitsOnly (tl rest) then Some (digits_val (tl rest)) else None)
       else if digitsOnly rest then Some (digits_val rest) else None)"

definition unsignedDecimal :: "string \<Rightarrow> number option" where
  "unsignedDecimal s =
     (if s = ''Infinity'' then Some PInf
      else let whole = takeWhile is_digit s; rest = dropWhile is_digit s;
               frac = (if startsWith rest ''.'' then takeWhile is_digit (tl rest) else []);
               rest2 = (if startsWith rest ''.'' then dropWhile is_digit (tl rest) else rest)
           in if whole = [] \<and> frac = [] then None
              else map_option (\<lambda>e. rnd (of_int (digits_val (whole @ frac)) * 10 powi (e - int (length frac)))) (exponentOf rest2))"

definition Number_of :: "string \<Rightarrow> number" where
  "Number_of raw =
     (let s = trim raw; or_nan = (\<lambda>x. case x of Some v \<Rightarrow> v | None \<Rightarrow> NaN) in
      if s = [] then Fin 0
      else if startsWith s ''0x'' \<or> startsWith s ''0X'' then or_nan (map_option rnd (baseValue 16 (drop 2 s)))
      else if startsWith s ''0o'' \<or> startsWith s ''0O'' then or_nan (map_option rnd (baseValue 8 (drop 2 s)))
      else if startsWith s ''0b'' \<or> startsWith s ''0B'' then or_nan (map_option rnd (baseValue 2 (drop 2 s)))
      else if startsWith s ''-'' then or_nan (map_option uminus (unsignedDecimal (tl s)))
      else if startsWith s ''+'' then or_nan (unsignedDecimal (tl s))
      else or_nan (unsignedDecimal s))"

text \<open>The integer part of a finite number.\<close>

fun wholeOf :: "number \<Rightarrow> int" where
  "wholeOf (Fin a) = \<lfloor>a\<rfloor>"
| "wholeOf x = 0"

section \<open>JSON fields\<close>

definition fieldsOf :: "Json \<Rightarrow> (string \<times> Json) list" where
  "fieldsOf j = (case j of JObj o1 \<Rightarrow> o1 | _ \<Rightarrow> [])"

definition elementsOf :: "Json option \<Rightarrow> Json list" where
  "elementsOf j = (case j of Some (JArr l) \<Rightarrow> l | _ \<Rightarrow> [])"

fun jsonTruthy :: "Json \<Rightarrow> bool" where
  "jsonTruthy JNull = False"
| "jsonTruthy (JBool b) = b"
| "jsonTruthy (JNum x) = truthy x"
| "jsonTruthy (JStr s) = (s \<noteq> [])"
| "jsonTruthy _ = True"

definition toInt :: "Json option \<Rightarrow> number option" where
  "toInt v = (case v of
     Some (JNum x) \<Rightarrow> if isFinite x then Some x else None
   | Some (JStr s) \<Rightarrow> if trim s \<noteq> [] \<and> isFinite (Number_of s) then Some (Number_of s) else None
   | _ \<Rightarrow> None)"

section \<open>cTrader\<close>

definition PROTO_ERROR_RES :: number where "PROTO_ERROR_RES = Fin 50"
definition HEARTBEAT_EVENT :: number where "HEARTBEAT_EVENT = Fin 51"
definition SPOT_EVENT :: number where "SPOT_EVENT = Fin 2131"
definition ERROR_RES :: number where "ERROR_RES = Fin 2142"
definition ACCOUNTS_TOKEN_INVALIDATED_EVENT :: number where "ACCOUNTS_TOKEN_INVALIDATED_EVENT = Fin 2147"
definition CLIENT_DISCONNECT_EVENT :: number where "CLIENT_DISCONNECT_EVENT = Fin 2148"
definition ACCOUNT_DISCONNECT_EVENT :: number where "ACCOUNT_DISCONNECT_EVENT = Fin 2164"
definition CTRADER_PRICE_SCALE :: number where "CTRADER_PRICE_SCALE = Fin 100000"

record CTraderEnvelope =
  ce_clientMsgId :: "string option"
  ce_payloadType :: number
  ce_payload :: "(string \<times> Json) list"

text \<open>\<open>None\<close>: the text is no JSON. Only a text can be the id of a request.\<close>

definition decodeEnvelope :: "Json option \<Rightarrow> CTraderEnvelope option" where
  "decodeEnvelope parsed =
     (case parsed of
        Some (JObj o1) \<Rightarrow>
          map_option (\<lambda>t. \<lparr>ce_clientMsgId = (case map_of o1 ''clientMsgId'' of Some (JStr s) \<Rightarrow> Some s | _ \<Rightarrow> None),
             ce_payloadType = t, ce_payload = (case map_of o1 ''payload'' of Some j \<Rightarrow> fieldsOf j | None \<Rightarrow> [])\<rparr>) (toInt (map_of o1 ''payloadType''))
      | _ \<Rightarrow> None)"

definition is_separator :: "char \<Rightarrow> bool" where
  "is_separator c \<longleftrightarrow> is_space c \<or> c = CHR ''/'' \<or> c = CHR ''_'' \<or> c = CHR ''-''"

definition normalizeSymbolName :: "string \<Rightarrow> string" where
  "normalizeSymbolName name = toUpperCase (filter (\<lambda>c. \<not> is_separator c) name)"

record LightSymbol =
  ls_symbolId :: number
  ls_symbolName :: string
  ls_enabled :: "bool option"

definition decodeLightSymbol :: "Json \<Rightarrow> LightSymbol option" where
  "decodeLightSymbol s =
     (case (toInt (map_of (fieldsOf s) ''symbolId''), map_of (fieldsOf s) ''symbolName'') of
        (Some i, Some (JStr name)) \<Rightarrow> Some \<lparr>ls_symbolId = i, ls_symbolName = name, ls_enabled = map_option jsonTruthy (map_of (fieldsOf s) ''enabled'')\<rparr>
      | _ \<Rightarrow> None)"

text \<open>Reading a field of \<open>null\<close> throws.\<close>

definition decodeSymbolsList :: "(string \<times> Json) list \<Rightarrow> LightSymbol list option" where
  "decodeSymbolsList payload =
     (let list = elementsOf (map_of payload ''symbol'') in
      if JNull \<in> set list then None else Some (List.map_filter decodeLightSymbol list))"

definition byName :: "LightSymbol list \<Rightarrow> string \<Rightarrow> LightSymbol option" where
  "byName list name = map_of (rev (map (\<lambda>s. (normalizeSymbolName (ls_symbolName s), s)) (filter (\<lambda>s. ls_enabled s \<noteq> Some False) list))) name"

definition matchOne :: "LightSymbol list \<Rightarrow> (number \<times> FeedSymbol) list \<times> string list \<Rightarrow> FeedSymbol \<Rightarrow> (number \<times> FeedSymbol) list \<times> string list" where
  "matchOne list out w =
     (case (case byName list (normalizeSymbolName (fs_feedSymbol w)) of Some hit \<Rightarrow> Some hit | None \<Rightarrow> byName list (normalizeSymbolName (fs_symbol w))) of
        Some hit \<Rightarrow> (AList.update (ls_symbolId hit) w (fst out), snd out)
      | None \<Rightarrow> (fst out, snd out @ [fs_symbol w]))"

definition matchSymbols :: "LightSymbol list \<Rightarrow> FeedSymbol list \<Rightarrow> (number \<times> FeedSymbol) list \<times> string list" where
  "matchSymbols list wanted = foldl (matchOne list) ([], []) wanted"

text \<open>The sides of a symbol, each as last seen.\<close>

type_synonym QuoteCache = "number \<Rightarrow> number option \<times> number option"

definition decodeSpotEvent :: "(string \<times> Json) list \<Rightarrow> (number \<times> FeedSymbol) list \<Rightarrow> int \<Rightarrow> QuoteCache \<Rightarrow> Tick option \<times> QuoteCache" where
  "decodeSpotEvent payload symbols now cache =
     (case toInt (map_of payload ''symbolId'') of
        None \<Rightarrow> (None, cache)
      | Some symbolId \<Rightarrow>
         (case map_of symbols symbolId of
            None \<Rightarrow> (None, cache)
          | Some s \<Rightarrow>
             (let bid = (case toInt (map_of payload ''bid'') of Some raw \<Rightarrow> Some (raw / CTRADER_PRICE_SCALE) | None \<Rightarrow> fst (cache symbolId));
                  ask = (case toInt (map_of payload ''ask'') of Some raw \<Rightarrow> Some (raw / CTRADER_PRICE_SCALE) | None \<Rightarrow> snd (cache symbolId));
                  ts = (case toInt (map_of payload ''timestamp'') of Some t \<Rightarrow> if t > Fin 1000000000000 then wholeOf t else now | None \<Rightarrow> now)
              in (case (bid, ask) of
                    (Some b, Some a) \<Rightarrow> Some \<lparr>bid = roundPrice b (fs_digits s), ask = roundPrice a (fs_digits s), tk_symbol = fs_symbol s, tk_ts = ts, tk_source = ''CTRADER''\<rparr>
                  | _ \<Rightarrow> None,
                  cache(symbolId := (bid, ask))))))"

definition decodeTrendbar :: "int \<Rightarrow> Json \<Rightarrow> Bar option" where
  "decodeTrendbar digits tb =
     (let field = (\<lambda>k. toInt (map_of (fieldsOf tb) k)); delta = (\<lambda>k. case field k of Some d \<Rightarrow> d | None \<Rightarrow> Fin 0);
          price = (\<lambda>x. roundPrice (x / CTRADER_PRICE_SCALE) digits)
      in case (field ''low'', field ''utcTimestampInMinutes'') of
           (Some low, Some minutes) \<Rightarrow>
             Some \<lparr>bar_time = wholeOf (minutes * Fin 60000), bar_open = price (low + delta ''deltaOpen''), bar_high = price (low + delta ''deltaHigh''),
               bar_low = price low, bar_close = price (low + delta ''deltaClose''), bar_volume = wholeOf (delta ''volume'')\<rparr>
         | _ \<Rightarrow> None)"

definition decodeTrendbars :: "(string \<times> Json) list \<Rightarrow> int \<Rightarrow> Bar list option" where
  "decodeTrendbars payload digits =
     (let list = elementsOf (map_of payload ''trendbar'') in
      if JNull \<in> set list then None else Some (sort_key bar_time (List.map_filter (decodeTrendbar digits) list)))"

section \<open>TraderMade\<close>

definition normalizeTmSymbol :: "string \<Rightarrow> string" where
  "normalizeTmSymbol s = toUpperCase (filter (\<lambda>c. \<not> is_separator c) (takeWhile (\<lambda>c. c \<noteq> CHR '':'') s))"

datatype TraderMadeMessage = TmTick Tick | TmConnected | TmLoginOk "number option" | TmSubAck "string list" "string list" | TmError string | TmIgnored

definition num :: "Json option \<Rightarrow> number option" where
  "num v = (case v of
     Some (JNum x) \<Rightarrow> if isFinite x then Some x else None
   | Some (JStr s) \<Rightarrow> if trim s \<noteq> [] \<and> isFinite (Number_of s) then Some (Number_of s) else None
   | _ \<Rightarrow> None)"

definition strings :: "Json option \<Rightarrow> string list" where
  "strings v = List.map_filter (\<lambda>j. case j of JStr s \<Rightarrow> Some s | _ \<Rightarrow> None) (elementsOf v)"

text \<open>\<open>Date.UTC\<close>: days from the civil date (months are rolled over, two-digit years are of the 1900s).\<close>

definition daysFromCivil :: "int \<Rightarrow> int \<Rightarrow> int" where
  "daysFromCivil y m =
     (let y1 = (if m \<le> 2 then y - 1 else y); era = y1 div 400; yoe = y1 mod 400;
          doy = (153 * (if m > 2 then m - 3 else m + 9) + 2) div 5
      in era * 146097 + (yoe * 365 + yoe div 4 - yoe div 100 + doy) - 719468)"

definition DateUTC :: "int \<Rightarrow> int \<Rightarrow> int \<Rightarrow> int \<Rightarrow> int \<Rightarrow> int \<Rightarrow> int \<Rightarrow> int" where
  "DateUTC y0 month0 d h mi s ms =
     (let y = (if 0 \<le> y0 \<and> y0 \<le> 99 then 1900 + y0 else y0)
      in (((daysFromCivil (y + month0 div 12) (month0 mod 12 + 1) + d - 1) * 24 + h) * 60 + mi) * 60000 + s * 1000 + ms)"

text \<open>The pattern \<open>YYYYMMDD-HH:mm:ss\<close> with up to three digits of a second.\<close>

definition stampFields :: "string \<Rightarrow> (string \<times> string \<times> string \<times> string \<times> string \<times> string \<times> string) option" where
  "stampFields v =
     (let frac = drop 18 v in
      if length v \<ge> 17 \<and> digitsOnly (take 8 v) \<and> v ! 8 = CHR ''-'' \<and> digitsOnly (take 2 (drop 9 v)) \<and> v ! 11 = CHR '':''
         \<and> digitsOnly (take 2 (drop 12 v)) \<and> v ! 14 = CHR '':'' \<and> digitsOnly (take 2 (drop 15 v))
         \<and> (length v = 17 \<or> v ! 17 = CHR ''.'' \<and> digitsOnly frac \<and> length frac \<le> 3)
      then Some (take 4 v, take 2 (drop 4 v), take 2 (drop 6 v), take 2 (drop 9 v), take 2 (drop 12 v), take 2 (drop 15 v), frac)
      else None)"

definition parseTmTimestamp :: "Json option \<Rightarrow> int option" where
  "parseTmTimestamp v =
     (let epoch = (case num v of
            Some n \<Rightarrow> if n \<le> Fin 0 then None else Some (wholeOf (Math_round (if n < Fin 100000000000 then n * Fin 1000 else n)))
          | None \<Rightarrow> None)
      in case v of
           Some (JStr s) \<Rightarrow>
             (case stampFields s of
                Some (y, mo, d, h, mi, sec, part) \<Rightarrow>
                  Some (DateUTC (digits_val y) (digits_val mo - 1) (digits_val d) (digits_val h) (digits_val mi) (digits_val sec)
                    (digits_val (take 3 (part @ ''000''))))
              | None \<Rightarrow> epoch)
         | _ \<Rightarrow> epoch)"

definition MAX_TS_SKEW_MS :: int where "MAX_TS_SKEW_MS = 60000"

definition tmQuote :: "(string \<times> Json) list \<Rightarrow> (string \<Rightarrow> FeedSymbol option) \<Rightarrow> int \<Rightarrow> TraderMadeMessage" where
  "tmQuote msg bySymbol now =
     (let isV2 = (case map_of msg ''s'' of Some (JStr s) \<Rightarrow> True | _ \<Rightarrow> False);
          kind = map_of msg ''t''
      in if isV2 \<and> kind \<noteq> None \<and> kind \<noteq> Some (JStr ''QUOTE'') \<and> kind \<noteq> Some (JStr ''LAST_QUOTE'') then TmIgnored
         else case map_of msg (if isV2 then ''s'' else ''symbol'') of
             Some (JStr rawSymbol) \<Rightarrow>
              (case (bySymbol (normalizeTmSymbol rawSymbol), num (map_of msg (if isV2 then ''b'' else ''bid'')), num (map_of msg (if isV2 then ''a'' else ''ask''))) of
                 (Some sy, Some b, Some a) \<Rightarrow>
                   if b \<le> Fin 0 \<or> a \<le> Fin 0 \<or> b > a then TmIgnored
                   else TmTick \<lparr>bid = roundPrice b (fs_digits sy), ask = roundPrice a (fs_digits sy), tk_symbol = fs_symbol sy,
                     tk_ts = (case parseTmTimestamp (map_of msg ''ts'') of Some t \<Rightarrow> if \<bar>t - now\<bar> \<le> MAX_TS_SKEW_MS then t else now | None \<Rightarrow> now),
                     tk_source = ''TRADERMADE''\<rparr>
               | _ \<Rightarrow> TmIgnored)
           | _ \<Rightarrow> TmIgnored)"

definition parseTraderMadeMessage :: "(string \<Rightarrow> Json option) \<Rightarrow> string \<Rightarrow> (string \<Rightarrow> FeedSymbol option) \<Rightarrow> int \<Rightarrow> TraderMadeMessage" where
  "parseTraderMadeMessage parse raw bySymbol now =
     (let text = trim raw in
      if \<not> startsWith text ''{'' then (if startsWith (toLowerCase text) ''connected'' then TmConnected else TmIgnored)
      else case parse text of
          Some (JObj msg) \<Rightarrow>
            (let kind = map_of msg ''type'' in
             if kind = Some (JStr ''login_ok'') then TmLoginOk (num (map_of msg ''symbol_limit''))
             else if kind = Some (JStr ''sub_ack'')
             then TmSubAck (strings (map_of msg ''accepted'')) (strings (map_of msg ''denied'') @ strings (map_of msg ''invalid''))
             else if kind = Some (JStr ''error'') then TmError (case map_of msg ''reason'' of Some (JStr r) \<Rightarrow> r | _ \<Rightarrow> ''unknown'')
             else tmQuote msg bySymbol now)
        | _ \<Rightarrow> TmIgnored)"

text \<open>\<open>new Map(symbols.map(...))\<close>: a later entry with the same key wins.\<close>

definition tmBySymbol :: "FeedSymbol list \<Rightarrow> string \<Rightarrow> FeedSymbol option" where
  "tmBySymbol symbols = map_of (rev (map (\<lambda>s. (normalizeTmSymbol (fs_feedSymbol s), s)) symbols))"

section \<open>Binance\<close>

definition parseBookTicker :: "Json option \<Rightarrow> (string \<Rightarrow> FeedSymbol option) \<Rightarrow> int \<Rightarrow> Tick option" where
  "parseBookTicker parsed byFeedSymbol now =
     (let data = (case parsed of Some frame \<Rightarrow> (case map_of (fieldsOf frame) ''data'' of Some d \<Rightarrow> fieldsOf d | None \<Rightarrow> []) | None \<Rightarrow> [])
      in case (map_of data ''s'', map_of data ''b'', map_of data ''a'') of
           (Some (JStr s), Some (JStr b), Some (JStr a)) \<Rightarrow>
             (case byFeedSymbol (toUpperCase s) of
                None \<Rightarrow> None
              | Some sy \<Rightarrow>
                 if \<not> isFinite (Number_of b) \<or> \<not> isFinite (Number_of a) \<or> Number_of b \<le> Fin 0 \<or> Number_of a \<le> Fin 0 then None
                 else Some \<lparr>bid = Number_of b, ask = Number_of a, tk_symbol = fs_symbol sy, tk_ts = now, tk_source = ''BINANCE''\<rparr>)
         | _ \<Rightarrow> None)"

definition binanceByFeedSymbol :: "FeedSymbol list \<Rightarrow> string \<Rightarrow> FeedSymbol option" where
  "binanceByFeedSymbol symbols = map_of (rev (map (\<lambda>s. (toUpperCase (fs_feedSymbol s), s)) symbols))"

section \<open>Backoff\<close>

text \<open>The draw of \<open>Math.random()\<close> is the argument \<open>rand\<close>, at least 0 and below 1.\<close>

definition backoffDelay :: "nat \<Rightarrow> rat \<Rightarrow> int" where
  "backoffDelay attempt rand = (let x = min 30000 (1000 * 2 ^ attempt) :: rat in \<lfloor>x / 2 + rand * (x / 2) + 1 / 2\<rfloor>)"

end
