(* ===== verification/FeedProviders.thy ===== *)
theory FeedProviders
  imports FeedCodec
begin

text \<open>
  The connections of the market data providers (\<open>src/trading/feeds/ctrader.ts\<close>, \<open>tradermade.ts\<close>, \<open>binance.ts\<close>).
  A WebSocket is a number with its phase, kept beside the provider; its events, the timers and the answers of awaited
  calls are operations. Each provider emits ticks, the second component of an operation that can.
\<close>

section \<open>Sockets\<close>

datatype SocketPhase = SocketConnecting | SocketOpen | SocketClosing

type_synonym Sockets = "(nat \<times> SocketPhase) list"

definition setPhase :: "nat \<Rightarrow> SocketPhase \<Rightarrow> Sockets \<Rightarrow> Sockets" where
  "setPhase s phase socks = map (\<lambda>(n, ph). (n, if n = s then phase else ph)) socks"

definition gone :: "nat \<Rightarrow> Sockets \<Rightarrow> Sockets" where
  "gone s socks = filter (\<lambda>(n, ph). n \<noteq> s) socks"

section \<open>cTrader\<close>

record CTraderConfig =
  cf_clientId :: string
  cf_clientSecret :: string
  cf_accessToken :: string
  cf_accountId :: number
  cf_host :: "string option"

datatype SetupStep = ApplicationAuth | AccountAuth | SymbolsList | SubscribeSpots

datatype CtRequest = SetupRequest (rq_step: SetupStep) (rq_session: nat) | TrendbarsRequest

text \<open>What was sent on a socket, and which steps of its session were accepted.\<close>

datatype CtEvent = SentStep nat SetupStep | AcceptedStep nat SetupStep

datatype CtLoad = StartLoad | ConfigLoad

record CTraderProvider =
  ct_symbols :: "FeedSymbol list"
  ct_cfg :: "CTraderConfig option"
  ct_hasLoader :: bool
  ct_hasMaintenance :: bool
  ct_started :: bool
  ct_socket :: "nat option"
  ct_sockets :: Sockets
  ct_nextSocket :: nat
  ct_connected :: bool
  ct_authenticated :: bool
  ct_stopping :: bool
  ct_attempt :: nat
  ct_msgSeq :: nat
  ct_pending :: "(string \<times> CtRequest) list"
  ct_heartbeat :: bool
  ct_reconnectTimer :: bool
  ct_configTimer :: bool
  ct_tokenTimer :: bool
  ct_symbolIds :: "(number \<times> FeedSymbol) list"
  ct_quoteCache :: QuoteCache
  ct_lastTickAt :: "(string \<times> int) list"
  ct_loads :: "CtLoad list"
  ct_maintenance :: "bool list"
  ct_log :: "CtEvent list"

text \<open>\<open>readCTraderConfigFromEnv\<close>: an unset variable is \<open>None\<close>; \<open>Number(undefined)\<close> is no number.\<close>

definition readCTraderConfigFromEnv :: "(string \<Rightarrow> string option) \<Rightarrow> CTraderConfig option" where
  "readCTraderConfigFromEnv env =
     (let get = (\<lambda>k. case env k of Some v \<Rightarrow> v | None \<Rightarrow> []);
          accountId = (case env ''CTRADER_ACCOUNT_ID'' of Some v \<Rightarrow> Number_of v | None \<Rightarrow> NaN)
      in if get ''CTRADER_CLIENT_ID'' = [] \<or> get ''CTRADER_CLIENT_SECRET'' = [] \<or> get ''CTRADER_ACCESS_TOKEN'' = []
            \<or> \<not> isFinite accountId \<or> accountId \<le> Fin 0 then None
         else Some \<lparr>cf_clientId = get ''CTRADER_CLIENT_ID'', cf_clientSecret = get ''CTRADER_CLIENT_SECRET'', cf_accessToken = get ''CTRADER_ACCESS_TOKEN'',
           cf_accountId = accountId, cf_host = Some (orElse (get ''CTRADER_HOST'') ''demo.ctraderapi.com'')\<rparr>)"

definition newCTraderProvider :: "CTraderConfig option \<Rightarrow> bool \<Rightarrow> bool \<Rightarrow> CTraderProvider" where
  "newCTraderProvider cfg loader maintain =
     \<lparr>ct_symbols = [], ct_cfg = cfg, ct_hasLoader = loader, ct_hasMaintenance = maintain, ct_started = False, ct_socket = None, ct_sockets = [],
      ct_nextSocket = 0, ct_connected = False, ct_authenticated = False, ct_stopping = False, ct_attempt = 0, ct_msgSeq = 0, ct_pending = [],
      ct_heartbeat = False, ct_reconnectTimer = False, ct_configTimer = False, ct_tokenTimer = False, ct_symbolIds = [],
      ct_quoteCache = (\<lambda>_. (None, None)), ct_lastTickAt = [], ct_loads = [], ct_maintenance = [], ct_log = []\<rparr>"

definition ctTerminate :: "nat \<Rightarrow> CTraderProvider \<Rightarrow> CTraderProvider" where
  "ctTerminate s p = p\<lparr>ct_sockets := setPhase s SocketClosing (ct_sockets p)\<rparr>"

definition ctConnect :: "CTraderProvider \<Rightarrow> CTraderProvider" where
  "ctConnect p = (if ct_stopping p \<or> ct_cfg p = None then p
     else p\<lparr>ct_socket := Some (ct_nextSocket p), ct_sockets := ct_sockets p @ [(ct_nextSocket p, SocketConnecting)], ct_nextSocket := ct_nextSocket p + 1\<rparr>)"

text \<open>\<open>runTokenMaintenance\<close> and \<open>syncConfig\<close> up to their first await.\<close>

definition beginMaintenance :: "bool \<Rightarrow> CTraderProvider \<Rightarrow> CTraderProvider" where
  "beginMaintenance force p = (if \<not> ct_hasMaintenance p \<or> ct_stopping p then p else p\<lparr>ct_maintenance := ct_maintenance p @ [force]\<rparr>)"

definition beginSync :: "CTraderProvider \<Rightarrow> CTraderProvider" where
  "beginSync p = (if \<not> ct_hasLoader p \<or> ct_stopping p then p else p\<lparr>ct_loads := ct_loads p @ [ConfigLoad]\<rparr>)"

definition configChanged :: "CTraderConfig option \<Rightarrow> CTraderConfig option \<Rightarrow> bool" where
  "configChanged prev next = (case (prev, next) of
     (None, None) \<Rightarrow> False
   | (Some a, Some b) \<Rightarrow> cf_accessToken a \<noteq> cf_accessToken b \<or> \<not> js_eq (cf_accountId a) (cf_accountId b) \<or> cf_host a \<noteq> cf_host b
   | _ \<Rightarrow> True)"

text \<open>\<open>syncConfig\<close> after the credentials were loaded.\<close>

definition applyConfig :: "CTraderConfig option \<Rightarrow> CTraderProvider \<Rightarrow> CTraderProvider" where
  "applyConfig next p =
     (if \<not> configChanged (ct_cfg p) next then p
      else let p1 = p\<lparr>ct_cfg := next\<rparr> in
        if next = None then p1
        else case ct_socket p1 of
            Some s \<Rightarrow> ctTerminate s p1
          | None \<Rightarrow> if ct_reconnectTimer p1 then p1 else ctConnect p1)"

text \<open>\<open>start\<close>, before and after it awaits the credentials.\<close>

definition startRest :: "CTraderProvider \<Rightarrow> CTraderProvider" where
  "startRest p =
     (let p1 = (if ct_hasMaintenance p then (beginMaintenance False p)\<lparr>ct_tokenTimer := True\<rparr> else p)
      in if ct_cfg p1 = None then p1 else if ct_socket p1 = None then ctConnect p1 else p1)"

definition ctStart :: "FeedSymbol list \<Rightarrow> CTraderProvider \<Rightarrow> CTraderProvider" where
  "ctStart symbols p =
     (let p1 = p\<lparr>ct_symbols := symbols, ct_stopping := False, ct_started := True\<rparr>
      in if symbols = [] then p1
         else if ct_hasLoader p1 then p1\<lparr>ct_loads := ct_loads p1 @ [StartLoad]\<rparr>
         else startRest p1)"

text \<open>\<open>None\<close>: the credentials could not be loaded.\<close>

definition loadDone :: "CtLoad \<Rightarrow> CTraderConfig option option \<Rightarrow> CTraderProvider \<Rightarrow> CTraderProvider" where
  "loadDone load result p =
     (let p1 = (case result of None \<Rightarrow> p | Some next \<Rightarrow> applyConfig next p)
      in if load = StartLoad then startRest (p1\<lparr>ct_configTimer := True\<rparr>) else p1)"

text \<open>The maintenance call ends: \<open>Some True\<close> when a new token was stored.\<close>

definition maintenanceDone :: "bool option \<Rightarrow> CTraderProvider \<Rightarrow> CTraderProvider" where
  "maintenanceDone result p = (if result = Some True then beginSync p else p)"

definition sessionsOf :: "(string \<times> CtRequest) list \<Rightarrow> nat list" where
  "sessionsOf pending = List.map_filter (\<lambda>(k, r). case r of SetupRequest step s \<Rightarrow> Some s | TrendbarsRequest \<Rightarrow> None) pending"

text \<open>Rejecting a request of a session makes the session give up its socket.\<close>

definition ctStop :: "CTraderProvider \<Rightarrow> CTraderProvider" where
  "ctStop p =
     (let p1 = p\<lparr>ct_stopping := True, ct_heartbeat := False, ct_reconnectTimer := False, ct_configTimer := False, ct_tokenTimer := False,
           ct_pending := [], ct_socket := None, ct_connected := False, ct_authenticated := False\<rparr>;
          p2 = (case ct_socket p of Some s \<Rightarrow> ctTerminate s p1 | None \<Rightarrow> p1)
      in foldr ctTerminate (sessionsOf (ct_pending p)) p2)"

section \<open>The session of cTrader\<close>

fun showNat :: "nat \<Rightarrow> string" where
  "showNat n = (if n < 10 then [dig n] else showNat (n div 10) @ [dig n])"

definition nextId :: "int \<Rightarrow> CTraderProvider \<Rightarrow> string \<times> CTraderProvider" where
  "nextId now p = (let n = ct_msgSeq p + 1 in (''mfx-'' @ showNat (nat now) @ ''-'' @ showNat n, p\<lparr>ct_msgSeq := n\<rparr>))"

definition socketReady :: "CTraderProvider \<Rightarrow> nat option" where
  "socketReady p = (case ct_socket p of Some s \<Rightarrow> if (s, SocketOpen) \<in> set (ct_sockets p) then Some s else None | None \<Rightarrow> None)"

text \<open>A failed step: \<open>reason\<close> is the text of the error. Both texts are looked for as \<open>RegExp.test\<close> does.\<close>

definition containsText :: "string \<Rightarrow> string \<Rightarrow> bool" where
  "containsText s t = list_ex (\<lambda>k. startsWith (drop k s) t) [0..<length s + 1]"

definition setupFailed :: "string \<Rightarrow> nat \<Rightarrow> CTraderProvider \<Rightarrow> CTraderProvider" where
  "setupFailed reason s p =
     (let p1 = (if containsText reason ''account auth failed'' \<and> containsText (toUpperCase reason) ''TOKEN'' then beginMaintenance True p else p)
      in ctTerminate s p1)"

text \<open>A step of the session sends its request, or fails because the socket is not open.\<close>

definition requestStep :: "SetupStep \<Rightarrow> nat \<Rightarrow> int \<Rightarrow> CTraderProvider \<Rightarrow> CTraderProvider" where
  "requestStep step s now p =
     (let (i, p1) = nextId now p in
      case socketReady p1 of
        Some cur \<Rightarrow> p1\<lparr>ct_pending := AList.update i (SetupRequest step s) (ct_pending p1), ct_log := ct_log p1 @ [SentStep cur step]\<rparr>
      | None \<Rightarrow> setupFailed ''ctrader: socket not open'' s p1)"

definition stepName :: "SetupStep \<Rightarrow> string" where
  "stepName step = (case step of ApplicationAuth \<Rightarrow> ''application auth'' | AccountAuth \<Rightarrow> ''account auth'' | SymbolsList \<Rightarrow> ''symbols list'' | SubscribeSpots \<Rightarrow> ''subscribe spots'')"

definition textField :: "string \<Rightarrow> (string \<times> Json) list \<Rightarrow> string" where
  "textField k payload = (case map_of payload k of Some (JStr s) \<Rightarrow> s | _ \<Rightarrow> [])"

definition assertOk :: "CTraderEnvelope \<Rightarrow> SetupStep \<Rightarrow> string option" where
  "assertOk env step = (if ce_payloadType env = ERROR_RES \<or> ce_payloadType env = PROTO_ERROR_RES
     then Some (''ctrader: '' @ stepName step @ '' failed: '' @ textField ''errorCode'' (ce_payload env) @ '' '' @ textField ''description'' (ce_payload env)) else None)"

text \<open>\<open>authenticateAndSubscribe\<close> after the answer to a step.\<close>

definition setupAnswered :: "CTraderEnvelope \<Rightarrow> SetupStep \<Rightarrow> nat \<Rightarrow> int \<Rightarrow> CTraderProvider \<Rightarrow> CTraderProvider" where
  "setupAnswered env step s now p =
     (case assertOk env step of
        Some reason \<Rightarrow> setupFailed reason s p
      | None \<Rightarrow>
         (let p1 = p\<lparr>ct_log := ct_log p @ [AcceptedStep s step]\<rparr> in
          case step of
            ApplicationAuth \<Rightarrow> requestStep AccountAuth s now p1
          | AccountAuth \<Rightarrow> requestStep SymbolsList s now (p1\<lparr>ct_authenticated := True\<rparr>)
          | SymbolsList \<Rightarrow>
             (case decodeSymbolsList (ce_payload env) of
                None \<Rightarrow> setupFailed ''null symbol'' s p1
              | Some list \<Rightarrow>
                 (let (m, missing) = matchSymbols list (ct_symbols p1);
                      p2 = p1\<lparr>ct_symbolIds := m, ct_quoteCache := (\<lambda>_. (None, None))\<rparr>
                  in if m = [] then setupFailed ''ctrader: none of the configured symbols exist on the account'' s p2
                     else requestStep SubscribeSpots s now p2))
          | SubscribeSpots \<Rightarrow> p1))"

text \<open>Events of a socket. Without credentials the session cannot even build its first request.\<close>

definition ctOpened :: "nat \<Rightarrow> int \<Rightarrow> CTraderProvider \<Rightarrow> CTraderProvider" where
  "ctOpened s now p =
     (let p1 = p\<lparr>ct_sockets := setPhase s SocketOpen (ct_sockets p), ct_connected := True, ct_attempt := 0, ct_heartbeat := True\<rparr>
      in if ct_cfg p1 = None then setupFailed ''no credentials'' s (snd (nextId now p1)) else requestStep ApplicationAuth s now p1)"

definition ctClosed :: "nat \<Rightarrow> CTraderProvider \<Rightarrow> CTraderProvider" where
  "ctClosed s p =
     (let p1 = p\<lparr>ct_sockets := gone s (ct_sockets p), ct_connected := False, ct_authenticated := False, ct_heartbeat := False,
           ct_socket := (if ct_socket p = Some s then None else ct_socket p)\<rparr>
      in if ct_stopping p1 then p1 else p1\<lparr>ct_attempt := ct_attempt p1 + 1, ct_reconnectTimer := True\<rparr>)"

definition reconnectFires :: "CTraderProvider \<Rightarrow> CTraderProvider" where
  "reconnectFires p = ctConnect (p\<lparr>ct_reconnectTimer := False\<rparr>)"

definition requestTimesOut :: "string \<Rightarrow> CTraderProvider \<Rightarrow> CTraderProvider" where
  "requestTimesOut i p =
     (let p1 = p\<lparr>ct_pending := AList.delete i (ct_pending p)\<rparr> in
      case map_of (ct_pending p) i of
        Some (SetupRequest step s) \<Rightarrow> setupFailed (''ctrader: request '' @ i @ '' timed out'') s p1
      | _ \<Rightarrow> p1)"

definition terminateCurrent :: "CTraderProvider \<Rightarrow> CTraderProvider" where
  "terminateCurrent p = (case ct_socket p of Some s \<Rightarrow> ctTerminate s p | None \<Rightarrow> p)"

definition handleFrame :: "Json option \<Rightarrow> int \<Rightarrow> CTraderProvider \<Rightarrow> CTraderProvider \<times> Tick list" where
  "handleFrame parsed now p =
     (case decodeEnvelope parsed of
        None \<Rightarrow> (p, [])
      | Some env \<Rightarrow>
         (case Option.bind (ce_clientMsgId env) (\<lambda>i. if i = [] then None else map_option (Pair i) (map_of (ct_pending p) i)) of
            Some (i, r) \<Rightarrow>
             (let p1 = p\<lparr>ct_pending := AList.delete i (ct_pending p)\<rparr>
              in (case r of SetupRequest step s \<Rightarrow> setupAnswered env step s now p1 | TrendbarsRequest \<Rightarrow> p1, []))
          | None \<Rightarrow>
             if ce_payloadType env = SPOT_EVENT
             then (case decodeSpotEvent (ce_payload env) (ct_symbolIds p) now (ct_quoteCache p) of
                 (None, cache) \<Rightarrow> (p\<lparr>ct_quoteCache := cache\<rparr>, [])
               | (Some tick, cache) \<Rightarrow> (p\<lparr>ct_quoteCache := cache, ct_lastTickAt := AList.update (tk_symbol tick) (tk_ts tick) (ct_lastTickAt p)\<rparr>, [tick]))
             else if ce_payloadType env = ACCOUNTS_TOKEN_INVALIDATED_EVENT then (terminateCurrent (beginMaintenance True p), [])
             else if ce_payloadType env = ACCOUNT_DISCONNECT_EVENT \<or> ce_payloadType env = CLIENT_DISCONNECT_EVENT then (terminateCurrent p, [])
             else (p, [])))"

text \<open>\<open>getBars\<close>: the request for bars, or the error when the symbol is unknown.\<close>

definition symbolFor :: "string \<Rightarrow> CTraderProvider \<Rightarrow> (number \<times> int) option" where
  "symbolFor feedSymbol p = map_option (\<lambda>(i, s). (i, fs_digits s)) (List.find (\<lambda>(i, s). normalizeSymbolName (fs_feedSymbol s) = normalizeSymbolName feedSymbol
      \<or> normalizeSymbolName (fs_symbol s) = normalizeSymbolName feedSymbol) (ct_symbolIds p))"

definition getBars :: "string \<Rightarrow> int \<Rightarrow> CTraderProvider \<Rightarrow> bool \<times> CTraderProvider" where
  "getBars feedSymbol now p =
     (if ct_cfg p = None \<or> symbolFor feedSymbol p = None then (False, p)
      else let (i, p1) = nextId now p in
        if socketReady p1 = None then (False, p1) else (True, p1\<lparr>ct_pending := AList.update i TrendbarsRequest (ct_pending p1)\<rparr>))"

record FeedHealth =
  fh_connected :: bool
  fh_lastTickAt :: "int option"
  fh_symbols :: "(string \<times> int option) list"

definition latestOf :: "int option list \<Rightarrow> int option" where
  "latestOf ats = foldl (\<lambda>latest seen. case seen of Some a \<Rightarrow>
     if a \<noteq> 0 \<and> (case latest of None \<Rightarrow> True | Some l \<Rightarrow> l = 0 \<or> a > l) then Some a else latest | None \<Rightarrow> latest) None ats"

definition healthOf :: "bool \<Rightarrow> FeedSymbol list \<Rightarrow> (string \<times> int) list \<Rightarrow> FeedHealth" where
  "healthOf up symbols lastTickAt = \<lparr>fh_connected = up, fh_lastTickAt = latestOf (map (\<lambda>s. map_of lastTickAt (fs_symbol s)) symbols),
     fh_symbols = map (\<lambda>s. (fs_symbol s, map_of lastTickAt (fs_symbol s))) symbols\<rparr>"

definition ctHealth :: "CTraderProvider \<Rightarrow> FeedHealth" where
  "ctHealth p = healthOf (ct_connected p \<and> ct_authenticated p) (ct_symbols p) (ct_lastTickAt p)"

section \<open>TraderMade\<close>

text \<open>The frames that are sent, with their fields that vary.\<close>

datatype TmFrame = LoginFrame string | SubscribeFrame "string list" | LegacySubscribeFrame string string

definition tmSubscribe :: "string list \<Rightarrow> TmFrame" where
  "tmSubscribe feedSymbols = SubscribeFrame (map (\<lambda>s. normalizeTmSymbol s @ '':QUOTE'') feedSymbols)"

definition tmLegacySubscribe :: "string \<Rightarrow> string list \<Rightarrow> TmFrame" where
  "tmLegacySubscribe key feedSymbols = LegacySubscribeFrame key (joinWith (CHR '','') (map normalizeTmSymbol feedSymbols))"

text \<open>The old host speaks the legacy protocol.\<close>

definition traderMadeLegacy :: "string \<Rightarrow> bool" where
  "traderMadeLegacy url = containsText (toLowerCase url) ''marketdata.tradermade.com''"

record TraderMadeProvider =
  tm_symbols :: "FeedSymbol list"
  tm_apiKey :: "string option"
  tm_legacy :: bool
  tm_started :: bool
  tm_socket :: "nat option"
  tm_sockets :: Sockets
  tm_nextSocket :: nat
  tm_lastTickAt :: "(string \<times> int) list"
  tm_connected :: bool
  tm_subscribed :: bool
  tm_stopping :: bool
  tm_attempt :: nat
  tm_reconnectTimer :: bool
  tm_watchdog :: "nat option"
  tm_lastMessageAt :: int
  tm_sent :: "TmFrame list"

definition newTraderMadeProvider :: "string option \<Rightarrow> string \<Rightarrow> TraderMadeProvider" where
  "newTraderMadeProvider key url = \<lparr>tm_symbols = [], tm_apiKey = key, tm_legacy = traderMadeLegacy url, tm_started = False, tm_socket = None, tm_sockets = [],
     tm_nextSocket = 0, tm_lastTickAt = [], tm_connected = False, tm_subscribed = False, tm_stopping = False, tm_attempt = 0, tm_reconnectTimer = False,
     tm_watchdog = None, tm_lastMessageAt = 0, tm_sent = []\<rparr>"

definition apiKey :: "TraderMadeProvider \<Rightarrow> string" where
  "apiKey p = (case tm_apiKey p of Some k \<Rightarrow> k | None \<Rightarrow> [])"

definition hasKey :: "TraderMadeProvider \<Rightarrow> bool" where
  "hasKey p \<longleftrightarrow> (case tm_apiKey p of Some k \<Rightarrow> k \<noteq> [] | None \<Rightarrow> False)"

definition tmConnect :: "TraderMadeProvider \<Rightarrow> TraderMadeProvider" where
  "tmConnect p = (if tm_stopping p \<or> \<not> hasKey p then p
     else p\<lparr>tm_socket := Some (tm_nextSocket p), tm_sockets := tm_sockets p @ [(tm_nextSocket p, SocketConnecting)], tm_nextSocket := tm_nextSocket p + 1\<rparr>)"

definition tmStart :: "FeedSymbol list \<Rightarrow> TraderMadeProvider \<Rightarrow> TraderMadeProvider" where
  "tmStart symbols p =
     (let p1 = p\<lparr>tm_symbols := symbols, tm_stopping := False, tm_started := True\<rparr>
      in if \<not> hasKey p1 \<or> symbols = [] then p1 else tmConnect p1)"

definition tmStop :: "TraderMadeProvider \<Rightarrow> TraderMadeProvider" where
  "tmStop p = p\<lparr>tm_stopping := True, tm_reconnectTimer := False, tm_watchdog := None, tm_socket := None,
     tm_sockets := (case tm_socket p of Some s \<Rightarrow> setPhase s SocketClosing (tm_sockets p) | None \<Rightarrow> tm_sockets p),
     tm_connected := False, tm_subscribed := False\<rparr>"

text \<open>A frame is sent only on an open socket.\<close>

definition tmSend :: "nat \<Rightarrow> TmFrame \<Rightarrow> TraderMadeProvider \<Rightarrow> TraderMadeProvider" where
  "tmSend s frame p = (if (s, SocketOpen) \<in> set (tm_sockets p) then p\<lparr>tm_sent := tm_sent p @ [frame]\<rparr> else p)"

definition tmOpened :: "nat \<Rightarrow> int \<Rightarrow> TraderMadeProvider \<Rightarrow> TraderMadeProvider" where
  "tmOpened s now p =
     (let p1 = p\<lparr>tm_sockets := setPhase s SocketOpen (tm_sockets p), tm_connected := True, tm_lastMessageAt := now\<rparr>;
          p2 = (if tm_legacy p1 then p1 else tmSend s (LoginFrame (apiKey p1)) p1)
      in p2\<lparr>tm_watchdog := Some s\<rparr>)"

definition tmMessage :: "(string \<Rightarrow> Json option) \<Rightarrow> nat \<Rightarrow> string \<Rightarrow> int \<Rightarrow> TraderMadeProvider \<Rightarrow> TraderMadeProvider \<times> Tick list" where
  "tmMessage parse s data now p =
     (let p1 = p\<lparr>tm_lastMessageAt := now\<rparr> in
      case parseTraderMadeMessage parse data (tmBySymbol (tm_symbols p1)) now of
        TmTick tick \<Rightarrow> (p1\<lparr>tm_attempt := 0, tm_lastTickAt := AList.update (tk_symbol tick) (tk_ts tick) (tm_lastTickAt p1)\<rparr>, [tick])
      | TmConnected \<Rightarrow> (if tm_legacy p1 then (tmSend s (tmLegacySubscribe (apiKey p1) (map fs_feedSymbol (tm_symbols p1))) p1)\<lparr>tm_subscribed := True\<rparr> else p1, [])
      | TmLoginOk limit \<Rightarrow> (tmSend s (tmSubscribe (map fs_feedSymbol (tm_symbols p1))) p1, [])
      | TmSubAck accepted rejected \<Rightarrow> (p1\<lparr>tm_subscribed := (accepted \<noteq> [])\<rparr>, [])
      | TmError reason \<Rightarrow> (p1, [])
      | TmIgnored \<Rightarrow> (p1, []))"

text \<open>The watchdog of a socket runs every five seconds and terminates a socket that is silent for \<open>idle\<close>.\<close>

definition tmWatchdog :: "int \<Rightarrow> int \<Rightarrow> TraderMadeProvider \<Rightarrow> TraderMadeProvider" where
  "tmWatchdog idle now p =
     (case tm_watchdog p of
        Some s \<Rightarrow> if now - tm_lastMessageAt p > idle then p\<lparr>tm_sockets := setPhase s SocketClosing (tm_sockets p)\<rparr> else p
      | None \<Rightarrow> p)"

definition tmClosed :: "nat \<Rightarrow> TraderMadeProvider \<Rightarrow> TraderMadeProvider" where
  "tmClosed s p =
     (let p1 = p\<lparr>tm_sockets := gone s (tm_sockets p), tm_connected := False, tm_subscribed := False, tm_watchdog := None,
           tm_socket := (if tm_socket p = Some s then None else tm_socket p)\<rparr>
      in if tm_stopping p1 then p1 else p1\<lparr>tm_attempt := tm_attempt p1 + 1, tm_reconnectTimer := True\<rparr>)"

definition tmHealth :: "TraderMadeProvider \<Rightarrow> FeedHealth" where
  "tmHealth p = healthOf (tm_connected p \<and> tm_subscribed p) (tm_symbols p) (tm_lastTickAt p)"

section \<open>Binance\<close>

definition binanceStreamUrl :: "string list \<Rightarrow> string \<Rightarrow> string" where
  "binanceStreamUrl feedSymbols base = base @ ''?streams='' @ joinWith (CHR ''/'') (map (\<lambda>s. toLowerCase s @ ''@bookTicker'') feedSymbols)"

record BinanceProvider =
  bn_symbols :: "FeedSymbol list"
  bn_started :: bool
  bn_socket :: "nat option"
  bn_sockets :: Sockets
  bn_nextSocket :: nat
  bn_lastTickAt :: "(string \<times> int) list"
  bn_connected :: bool
  bn_stopping :: bool
  bn_attempt :: nat
  bn_reconnectTimer :: bool
  bn_watchdog :: "nat option"
  bn_lastMessageAt :: int

definition newBinanceProvider :: BinanceProvider where
  "newBinanceProvider = \<lparr>bn_symbols = [], bn_started = False, bn_socket = None, bn_sockets = [], bn_nextSocket = 0, bn_lastTickAt = [],
     bn_connected = False, bn_stopping = False, bn_attempt = 0, bn_reconnectTimer = False, bn_watchdog = None, bn_lastMessageAt = 0\<rparr>"

definition bnConnect :: "BinanceProvider \<Rightarrow> BinanceProvider" where
  "bnConnect p = (if bn_stopping p then p
     else p\<lparr>bn_socket := Some (bn_nextSocket p), bn_sockets := bn_sockets p @ [(bn_nextSocket p, SocketConnecting)], bn_nextSocket := bn_nextSocket p + 1\<rparr>)"

definition bnStart :: "FeedSymbol list \<Rightarrow> BinanceProvider \<Rightarrow> BinanceProvider" where
  "bnStart symbols p =
     (let p1 = p\<lparr>bn_symbols := symbols, bn_stopping := False, bn_started := True\<rparr> in if symbols = [] then p1 else bnConnect p1)"

definition bnStop :: "BinanceProvider \<Rightarrow> BinanceProvider" where
  "bnStop p = p\<lparr>bn_stopping := True, bn_reconnectTimer := False, bn_watchdog := None, bn_socket := None,
     bn_sockets := (case bn_socket p of Some s \<Rightarrow> setPhase s SocketClosing (bn_sockets p) | None \<Rightarrow> bn_sockets p), bn_connected := False\<rparr>"

definition bnOpened :: "nat \<Rightarrow> int \<Rightarrow> BinanceProvider \<Rightarrow> BinanceProvider" where
  "bnOpened s now p = p\<lparr>bn_sockets := setPhase s SocketOpen (bn_sockets p), bn_connected := True, bn_attempt := 0, bn_lastMessageAt := now, bn_watchdog := Some s\<rparr>"

definition bnMessage :: "Json option \<Rightarrow> int \<Rightarrow> BinanceProvider \<Rightarrow> BinanceProvider \<times> Tick list" where
  "bnMessage parsed now p =
     (let p1 = p\<lparr>bn_lastMessageAt := now\<rparr> in
      case parseBookTicker parsed (binanceByFeedSymbol (bn_symbols p1)) now of
        None \<Rightarrow> (p1, [])
      | Some tick \<Rightarrow> (p1\<lparr>bn_lastTickAt := AList.update (tk_symbol tick) (tk_ts tick) (bn_lastTickAt p1)\<rparr>, [tick]))"

definition bnWatchdog :: "int \<Rightarrow> int \<Rightarrow> BinanceProvider \<Rightarrow> BinanceProvider" where
  "bnWatchdog idle now p =
     (case bn_watchdog p of
        Some s \<Rightarrow> if now - bn_lastMessageAt p > idle then p\<lparr>bn_sockets := setPhase s SocketClosing (bn_sockets p)\<rparr> else p
      | None \<Rightarrow> p)"

definition bnClosed :: "nat \<Rightarrow> BinanceProvider \<Rightarrow> BinanceProvider" where
  "bnClosed s p =
     (let p1 = p\<lparr>bn_sockets := gone s (bn_sockets p), bn_connected := False, bn_watchdog := None,
           bn_socket := (if bn_socket p = Some s then None else bn_socket p)\<rparr>
      in if bn_stopping p1 then p1 else p1\<lparr>bn_attempt := bn_attempt p1 + 1, bn_reconnectTimer := True\<rparr>)"

definition bnHealth :: "BinanceProvider \<Rightarrow> FeedHealth" where
  "bnHealth p = healthOf (bn_connected p) (bn_symbols p) (bn_lastTickAt p)"

end
