(* ===== verification/FeedProviderProofs.thy ===== *)
theory FeedProviderProofs
  imports FeedProviders
begin

text \<open>
  The contract of a connection that reconnects, shared by the three providers: one socket at a time, and while the
  provider is wanted a socket or a timer that will make one. The session of cTrader: connected means authenticated. The
  quotes of cTrader against the sides that were sent.
\<close>

section \<open>The contract\<close>

text \<open>The part of a provider that the contract speaks about.\<close>

record Link =
  lk_sockets :: "nat list"
  lk_current :: "nat option"
  lk_timer :: bool
  lk_stopped :: bool
  lk_wanted :: bool

inductive link_step :: "Link \<Rightarrow> Link \<Rightarrow> bool" where
  stays: "b \<longrightarrow> lk_wanted l \<or> lk_current l \<noteq> None \<or> lk_timer l \<or> lk_stopped l \<Longrightarrow> link_step l (l\<lparr>lk_wanted := b\<rparr>)"
| dials: "lk_current l = None \<Longrightarrow> \<not> lk_stopped l \<Longrightarrow> n \<notin> set (lk_sockets l)
    \<Longrightarrow> link_step l (l\<lparr>lk_sockets := lk_sockets l @ [n], lk_current := Some n, lk_timer := False, lk_wanted := b\<rparr>)"
| closes: "s \<in> set (lk_sockets l) \<Longrightarrow> link_step l (l\<lparr>lk_sockets := filter (\<lambda>n. n \<noteq> s) (lk_sockets l),
    lk_current := (if lk_current l = Some s then None else lk_current l), lk_timer := (\<not> lk_stopped l \<or> lk_timer l)\<rparr>)"
| gives_up: "\<not> lk_wanted l \<Longrightarrow> link_step l (l\<lparr>lk_timer := False\<rparr>)"
| stops: "link_step l (l\<lparr>lk_current := None, lk_timer := False, lk_stopped := True, lk_wanted := b\<rparr>)"

definition link_ok :: "Link \<Rightarrow> bool" where
  "link_ok l \<longleftrightarrow> (if lk_stopped l then lk_current l = None \<and> \<not> lk_timer l \<and> length (lk_sockets l) \<le> 1
     else lk_sockets l = (case lk_current l of None \<Rightarrow> [] | Some s \<Rightarrow> [s]) \<and> (lk_current l \<noteq> None \<longrightarrow> \<not> lk_timer l)
       \<and> (lk_wanted l \<longrightarrow> lk_current l \<noteq> None \<or> lk_timer l))"

lemma link_step_ok: "link_step l l' \<Longrightarrow> link_ok l \<Longrightarrow> link_ok l'"
proof (induction rule: link_step.induct)
  case (closes s l)
  then show ?case by (auto simp: link_ok_def split: if_splits option.splits intro: order_trans [OF length_filter_le])
qed (auto simp: link_ok_def split: if_splits option.splits)

locale reconnecting =
  fixes step :: "'s \<Rightarrow> 's \<Rightarrow> bool" and link :: "'s \<Rightarrow> Link" and inv :: "'s \<Rightarrow> bool" and init :: "'s \<Rightarrow> bool"
  assumes starts_ok: "init s \<Longrightarrow> inv s \<and> link_ok (link s)"
    and simulates: "step s s' \<Longrightarrow> inv s \<Longrightarrow> link_ok (link s) \<Longrightarrow> inv s' \<and> link_step (link s) (link s')"
begin

lemma connection_ok: "step\<^sup>*\<^sup>* s s' \<Longrightarrow> init s \<Longrightarrow> inv s' \<and> link_ok (link s')"
proof (induction rule: rtranclp_induct)
  case (step y z)
  then show ?case using simulates [OF step.hyps(2)] link_step_ok by blast
qed (rule starts_ok)

lemma one_connection: "step\<^sup>*\<^sup>* s s' \<Longrightarrow> init s \<Longrightarrow> length (lk_sockets (link s')) \<le> 1"
  using connection_ok [of s s'] by (auto simp: link_ok_def split: if_splits option.splits)

lemma never_stuck:
  "step\<^sup>*\<^sup>* s s' \<Longrightarrow> init s \<Longrightarrow> lk_wanted (link s') \<Longrightarrow> \<not> lk_stopped (link s')
    \<Longrightarrow> (\<exists>n. lk_current (link s') = Some n \<and> lk_sockets (link s') = [n] \<and> \<not> lk_timer (link s'))
      \<or> lk_current (link s') = None \<and> lk_sockets (link s') = [] \<and> lk_timer (link s')"
  using connection_ok [of s s'] by (auto simp: link_ok_def split: option.splits)

end

section \<open>Binance and TraderMade\<close>

inductive bn_step :: "BinanceProvider \<Rightarrow> BinanceProvider \<Rightarrow> bool" where
  bn_starts: "\<not> bn_started p \<Longrightarrow> bn_step p (bnStart symbols p)"
| bn_stops: "bn_started p \<Longrightarrow> bn_step p (bnStop p)"
| bn_opens: "(s, SocketConnecting) \<in> set (bn_sockets p) \<Longrightarrow> bn_step p (bnOpened s now p)"
| bn_reads: "(s, ph) \<in> set (bn_sockets p) \<Longrightarrow> ph \<noteq> SocketConnecting \<Longrightarrow> bn_step p (fst (bnMessage parsed now p))"
| bn_pinged: "(s, ph) \<in> set (bn_sockets p) \<Longrightarrow> ph \<noteq> SocketConnecting \<Longrightarrow> bn_step p (p\<lparr>bn_lastMessageAt := now\<rparr>)"
| bn_watches: "bn_step p (bnWatchdog idle now p)"
| bn_closes: "s \<in> fst ` set (bn_sockets p) \<Longrightarrow> bn_step p (bnClosed s p)"
| bn_reconnects: "bn_reconnectTimer p \<Longrightarrow> bn_step p (bnConnect (p\<lparr>bn_reconnectTimer := False\<rparr>))"

inductive tm_step :: "TraderMadeProvider \<Rightarrow> TraderMadeProvider \<Rightarrow> bool" where
  tm_starts: "\<not> tm_started p \<Longrightarrow> tm_step p (tmStart symbols p)"
| tm_stops: "tm_started p \<Longrightarrow> tm_step p (tmStop p)"
| tm_opens: "(s, SocketConnecting) \<in> set (tm_sockets p) \<Longrightarrow> tm_step p (tmOpened s now p)"
| tm_reads: "(s, ph) \<in> set (tm_sockets p) \<Longrightarrow> ph \<noteq> SocketConnecting \<Longrightarrow> tm_step p (fst (tmMessage parse s data now p))"
| tm_pinged: "(s, ph) \<in> set (tm_sockets p) \<Longrightarrow> ph \<noteq> SocketConnecting \<Longrightarrow> tm_step p (p\<lparr>tm_lastMessageAt := now\<rparr>)"
| tm_watches: "tm_step p (tmWatchdog idle now p)"
| tm_closes: "s \<in> fst ` set (tm_sockets p) \<Longrightarrow> tm_step p (tmClosed s p)"
| tm_reconnects: "tm_reconnectTimer p \<Longrightarrow> tm_step p (tmConnect (p\<lparr>tm_reconnectTimer := False\<rparr>))"

definition bn_link :: "BinanceProvider \<Rightarrow> Link" where
  "bn_link p = \<lparr>lk_sockets = map fst (bn_sockets p), lk_current = bn_socket p, lk_timer = bn_reconnectTimer p, lk_stopped = bn_stopping p,
     lk_wanted = (bn_started p \<and> bn_symbols p \<noteq> [])\<rparr>"

definition tm_link :: "TraderMadeProvider \<Rightarrow> Link" where
  "tm_link p = \<lparr>lk_sockets = map fst (tm_sockets p), lk_current = tm_socket p, lk_timer = tm_reconnectTimer p, lk_stopped = tm_stopping p,
     lk_wanted = (tm_started p \<and> tm_symbols p \<noteq> [] \<and> hasKey p)\<rparr>"

definition bn_inv :: "BinanceProvider \<Rightarrow> bool" where
  "bn_inv p \<longleftrightarrow> (\<forall>x\<in>set (bn_sockets p). fst x < bn_nextSocket p) \<and> (\<not> bn_started p \<longrightarrow> bn_sockets p = [] \<and> bn_socket p = None \<and> \<not> bn_stopping p)
     \<and> (bn_sockets p \<noteq> [] \<or> bn_reconnectTimer p \<longrightarrow> bn_started p \<and> bn_symbols p \<noteq> [])"

definition tm_inv :: "TraderMadeProvider \<Rightarrow> bool" where
  "tm_inv p \<longleftrightarrow> (\<forall>x\<in>set (tm_sockets p). fst x < tm_nextSocket p) \<and> (\<not> tm_started p \<longrightarrow> tm_sockets p = [] \<and> tm_socket p = None \<and> \<not> tm_stopping p)
     \<and> (tm_sockets p \<noteq> [] \<or> tm_reconnectTimer p \<longrightarrow> tm_started p \<and> tm_symbols p \<noteq> [] \<and> hasKey p)"

lemma phase_fst [simp]: "map fst (setPhase s ph socks) = map fst socks"
  by (simp add: setPhase_def comp_def split_beta)

lemma phase_keys [simp]: "fst ` set (setPhase s ph socks) = fst ` set socks"
  using phase_fst [of s ph socks] by (metis list.set_map)

lemma gone_fst [simp]: "map fst (gone s socks) = filter (\<lambda>n. n \<noteq> s) (map fst socks)"
  by (induction socks) (auto simp: gone_def)

lemma phase_all [simp]: "(\<forall>x\<in>set (setPhase s ph socks). fst x < n) \<longleftrightarrow> (\<forall>x\<in>set socks. fst x < n)"
  by (auto simp: setPhase_def split_beta)

lemma key_iff: "hasKey p \<longleftrightarrow> tm_apiKey p \<noteq> None \<and> tm_apiKey p \<noteq> Some []"
  by (simp add: hasKey_def split: option.split)

lemma phase_empty [simp]: "setPhase s ph socks = [] \<longleftrightarrow> socks = []"
  by (simp add: setPhase_def)

lemma gone_sub: "x \<in> set (gone s socks) \<Longrightarrow> x \<in> set socks" "gone s socks \<noteq> [] \<Longrightarrow> socks \<noteq> []"
  by (auto simp: gone_def)

lemma same_link: "link_step l l"
  using stays [of "lk_wanted l" l] by simp

lemma dials_to:
  assumes "lk_current l = None" "\<not> lk_stopped l" "lk_current l' = Some n" "n \<notin> set (lk_sockets l)" "lk_sockets l' = lk_sockets l @ [n]"
    "\<not> lk_timer l'" "\<not> lk_stopped l'"
  shows "link_step l l'"
proof -
  have "l' = l\<lparr>lk_sockets := lk_sockets l @ [n], lk_current := Some n, lk_timer := False, lk_wanted := lk_wanted l'\<rparr>"
    using assms by (cases l; cases l') simp
  then show ?thesis using dials [OF assms(1,2,4)] by metis
qed

lemma closes_to:
  assumes "link_ok l" "s \<in> set (lk_sockets l)" "lk_sockets l' = filter (\<lambda>n. n \<noteq> s) (lk_sockets l)"
    "lk_current l' = (if lk_current l = Some s then None else lk_current l)" "lk_timer l' = (\<not> lk_stopped l)" "lk_stopped l' = lk_stopped l"
    "lk_wanted l' = lk_wanted l"
  shows "link_step l l'"
proof -
  have "lk_stopped l \<longrightarrow> \<not> lk_timer l" using assms(1) by (simp add: link_ok_def)
  then have "l' = l\<lparr>lk_sockets := filter (\<lambda>n. n \<noteq> s) (lk_sockets l), lk_current := (if lk_current l = Some s then None else lk_current l),
      lk_timer := (\<not> lk_stopped l \<or> lk_timer l)\<rparr>"
    using assms(3-7) by (cases l; cases l') auto
  then show ?thesis using closes [OF assms(2)] by simp
qed

lemma stops_to:
  assumes "lk_sockets l' = lk_sockets l" "lk_current l' = None" "\<not> lk_timer l'" "lk_stopped l'"
  shows "link_step l l'"
proof -
  have "l' = l\<lparr>lk_current := None, lk_timer := False, lk_stopped := True, lk_wanted := lk_wanted l'\<rparr>" using assms by (cases l; cases l') simp
  then show ?thesis using stops [of l "lk_wanted l'"] by metis
qed

lemma fresh_socket: "\<forall>x\<in>set socks. fst x < n \<Longrightarrow> n \<notin> set (map fst socks)" for n :: nat
  by (induction socks) auto

lemma below_next: "\<forall>x\<in>set socks. fst x < n \<Longrightarrow> \<forall>x\<in>set (socks @ [(n, ph)]). fst x < n + 1" for n :: nat
  by (auto simp: less_SucI)

lemma bn_simulates: "bn_step p p' \<Longrightarrow> bn_inv p \<Longrightarrow> link_ok (bn_link p) \<Longrightarrow> bn_inv p' \<and> link_step (bn_link p) (bn_link p')"
proof (induction rule: bn_step.induct)
  case (bn_starts p symbols)
  then have i: "bn_sockets p = []" "bn_socket p = None" "\<not> bn_stopping p" "\<not> bn_reconnectTimer p" by (auto simp: bn_inv_def)
  show ?case
  proof (cases "symbols = []")
    case True
    with i bn_starts show ?thesis using stays [of False "bn_link p"] by (simp add: bn_inv_def bn_link_def bnStart_def Let_def)
  next
    case False
    with i bn_starts have "link_step (bn_link p) (bn_link (bnStart symbols p))"
      by (intro dials_to) (simp_all add: bn_link_def bnStart_def bnConnect_def Let_def)
    then show ?thesis using i False by (simp add: bn_inv_def bnStart_def bnConnect_def Let_def)
  qed
next
  case (bn_stops p)
  have "link_step (bn_link p) (bn_link (bnStop p))" by (rule stops_to) (simp_all add: bn_link_def bnStop_def split: option.split)
  then show ?case using bn_stops by (simp add: bn_inv_def bnStop_def split: option.split)
next
  case (bn_closes s p)
  then have "bn_stopping p \<longrightarrow> \<not> bn_reconnectTimer p" by (auto simp: link_ok_def bn_link_def)
  then have "link_step (bn_link p) (bn_link (bnClosed s p))" using bn_closes
    by (intro closes_to [where s = s]) (auto simp: bn_link_def bnClosed_def Let_def)
  then show ?case using bn_closes by (auto simp: bn_inv_def bnClosed_def Let_def dest: gone_sub)
next
  case (bn_reconnects p)
  then have i: "bn_socket p = None" "\<not> bn_stopping p" "bn_sockets p = []" by (auto simp: link_ok_def bn_link_def split: if_splits option.splits)
  then have "link_step (bn_link p) (bn_link (bnConnect (p\<lparr>bn_reconnectTimer := False\<rparr>)))"
    by (intro dials_to) (simp_all add: bn_link_def bnConnect_def)
  then show ?case using bn_reconnects i by (simp add: bn_inv_def bnConnect_def)
qed (auto simp: bn_inv_def bn_link_def bnOpened_def bnMessage_def bnWatchdog_def Let_def same_link split: option.split)

lemma tm_frames [simp]:
  "tm_link (tmSend s f p) = tm_link p" "tm_inv (tmSend s f p) = tm_inv p"
  by (simp_all add: tmSend_def tm_link_def tm_inv_def key_iff)

lemma tm_simulates: "tm_step p p' \<Longrightarrow> tm_inv p \<Longrightarrow> link_ok (tm_link p) \<Longrightarrow> tm_inv p' \<and> link_step (tm_link p) (tm_link p')"
proof (induction rule: tm_step.induct)
  case (tm_starts p symbols)
  then have i: "tm_sockets p = []" "tm_socket p = None" "\<not> tm_stopping p" "\<not> tm_reconnectTimer p" by (auto simp: tm_inv_def)
  show ?case
  proof (cases "symbols = [] \<or> \<not> hasKey p")
    case True
    with i tm_starts show ?thesis using stays [of False "tm_link p"] by (auto simp: tm_inv_def tm_link_def tmStart_def Let_def key_iff)
  next
    case False
    with i tm_starts have "link_step (tm_link p) (tm_link (tmStart symbols p))"
      by (intro dials_to) (simp_all add: tm_link_def tmStart_def tmConnect_def Let_def key_iff)
    then show ?thesis using i False by (simp add: tm_inv_def tmStart_def tmConnect_def Let_def key_iff)
  qed
next
  case (tm_stops p)
  have "link_step (tm_link p) (tm_link (tmStop p))" by (rule stops_to) (simp_all add: tm_link_def tmStop_def split: option.split)
  then show ?case using tm_stops by (simp add: tm_inv_def tmStop_def key_iff split: option.split)
next
  case (tm_closes s p)
  then have "tm_stopping p \<longrightarrow> \<not> tm_reconnectTimer p" by (auto simp: link_ok_def tm_link_def)
  then have "link_step (tm_link p) (tm_link (tmClosed s p))" using tm_closes
    by (intro closes_to [where s = s]) (auto simp: tm_link_def tmClosed_def Let_def key_iff)
  then show ?case using tm_closes by (auto simp: tm_inv_def tmClosed_def Let_def key_iff dest: gone_sub)
next
  case (tm_reconnects p)
  then have i: "tm_socket p = None" "\<not> tm_stopping p" "tm_sockets p = []" by (auto simp: link_ok_def tm_link_def split: if_splits option.splits)
  moreover have "hasKey p" using tm_reconnects by (simp add: tm_inv_def)
  ultimately have "link_step (tm_link p) (tm_link (tmConnect (p\<lparr>tm_reconnectTimer := False\<rparr>)))"
    by (intro dials_to) (simp_all add: tm_link_def tmConnect_def key_iff)
  moreover have "tm_inv (tmConnect (p\<lparr>tm_reconnectTimer := False\<rparr>))" using tm_reconnects i by (simp add: tm_inv_def tmConnect_def key_iff)
  ultimately show ?case by simp
next
  case (tm_opens s p now)
  then show ?case by (auto simp: tm_inv_def tm_link_def tmOpened_def tmSend_def Let_def key_iff same_link)
next
  case (tm_reads s ph p parse data now)
  then show ?case by (auto simp: tm_inv_def tm_link_def tmMessage_def tmSend_def Let_def key_iff same_link split: TraderMadeMessage.split)
qed (auto simp: tm_inv_def tm_link_def tmWatchdog_def key_iff same_link split: option.split)

interpretation bn: reconnecting bn_step bn_link bn_inv "\<lambda>p. p = newBinanceProvider"
proof
  fix p assume "p = newBinanceProvider"
  then show "bn_inv p \<and> link_ok (bn_link p)" by (simp add: newBinanceProvider_def bn_inv_def link_ok_def bn_link_def)
qed (rule bn_simulates)

interpretation tm: reconnecting tm_step tm_link tm_inv "\<lambda>p. \<exists>key url. p = newTraderMadeProvider key url"
proof
  fix p assume "\<exists>key url. p = newTraderMadeProvider key url"
  then show "tm_inv p \<and> link_ok (tm_link p)" by (auto simp: newTraderMadeProvider_def tm_inv_def link_ok_def tm_link_def)
qed (rule tm_simulates)

end
