(* ===== verification/CTraderProofs.thy ===== *)
theory CTraderProofs
  imports FeedProviderProofs
begin

text \<open>
  The cTrader provider: it keeps the contract of a connection that reconnects, its session sends each request only after
  the steps before it were accepted on the same connection, and its quotes are the last sides that were sent.
\<close>

section \<open>Runs\<close>

text \<open>A server answers a request on the connection the request came by.\<close>

definition answersOwn :: "Json option \<Rightarrow> nat \<Rightarrow> CTraderProvider \<Rightarrow> bool" where
  "answersOwn parsed s p \<longleftrightarrow> (\<forall>env i step s'. decodeEnvelope parsed = Some env \<longrightarrow> ce_clientMsgId env = Some i
     \<longrightarrow> map_of (ct_pending p) i = Some (SetupRequest step s') \<longrightarrow> s' = s)"

inductive ct_step :: "CTraderProvider \<Rightarrow> CTraderProvider \<Rightarrow> bool" where
  ct_starts: "\<not> ct_started p \<Longrightarrow> ct_step p (ctStart symbols p)"
| ct_stops: "ct_started p \<Longrightarrow> ct_step p (ctStop p)"
| ct_loaded: "ct_loads p = us @ load # vs \<Longrightarrow> ct_step p (loadDone load result (p\<lparr>ct_loads := us @ vs\<rparr>))"
| ct_maintained: "ct_maintenance p = us @ force # vs \<Longrightarrow> ct_step p (maintenanceDone result (p\<lparr>ct_maintenance := us @ vs\<rparr>))"
| ct_polls: "ct_configTimer p \<Longrightarrow> ct_step p (beginSync p)"
| ct_maintains: "ct_tokenTimer p \<Longrightarrow> ct_step p (beginMaintenance False p)"
| ct_opens: "(s, SocketConnecting) \<in> set (ct_sockets p) \<Longrightarrow> ct_step p (ctOpened s now p)"
| ct_reads: "(s, ph) \<in> set (ct_sockets p) \<Longrightarrow> ph \<noteq> SocketConnecting \<Longrightarrow> answersOwn parsed s p
    \<Longrightarrow> ct_step p (fst (handleFrame parsed now p))"
| ct_closes: "s \<in> fst ` set (ct_sockets p) \<Longrightarrow> ct_step p (ctClosed s p)"
| ct_reconnects: "ct_reconnectTimer p \<Longrightarrow> ct_step p (reconnectFires p)"
| ct_times_out: "map_of (ct_pending p) i \<noteq> None \<Longrightarrow> ct_step p (requestTimesOut i p)"
| ct_asks: "ct_step p (snd (getBars feedSymbol now p))"

section \<open>The connection\<close>

text \<open>Before \<open>start\<close> has got its credentials, and when there is nothing to subscribe, the provider does nothing.\<close>

definition asleep :: "CTraderProvider \<Rightarrow> bool" where
  "asleep p \<longleftrightarrow> \<not> ct_started p \<or> ct_symbols p = [] \<or> StartLoad \<in> set (ct_loads p)"

definition quiet :: "CTraderProvider \<Rightarrow> bool" where
  "quiet p \<longleftrightarrow> ct_sockets p = [] \<and> ct_socket p = None \<and> \<not> ct_reconnectTimer p \<and> \<not> ct_configTimer p \<and> \<not> ct_tokenTimer p
     \<and> ct_maintenance p = [] \<and> ct_pending p = [] \<and> (ct_loads p = [] \<or> ct_loads p = [StartLoad])"

definition ct_link :: "CTraderProvider \<Rightarrow> Link" where
  "ct_link p = \<lparr>lk_sockets = map fst (ct_sockets p), lk_current = ct_socket p, lk_timer = ct_reconnectTimer p, lk_stopped = ct_stopping p,
     lk_wanted = (\<not> asleep p \<and> ct_cfg p \<noteq> None)\<rparr>"

definition ct_inv :: "CTraderProvider \<Rightarrow> bool" where
  "ct_inv p \<longleftrightarrow> (\<forall>x\<in>set (ct_sockets p). fst x < ct_nextSocket p) \<and> (asleep p \<longrightarrow> quiet p) \<and> (\<not> ct_started p \<longrightarrow> \<not> ct_stopping p)
     \<and> (StartLoad \<in> set (ct_loads p) \<longrightarrow> ct_started p \<and> ct_symbols p \<noteq> [])"

text \<open>What the session, a frame or a timeout leaves alone.\<close>

definition calm :: "CTraderProvider \<Rightarrow> CTraderProvider \<Rightarrow> bool" where
  "calm p p' \<longleftrightarrow> map fst (ct_sockets p') = map fst (ct_sockets p) \<and> ct_socket p' = ct_socket p \<and> ct_reconnectTimer p' = ct_reconnectTimer p
     \<and> ct_stopping p' = ct_stopping p \<and> ct_cfg p' = ct_cfg p \<and> ct_started p' = ct_started p \<and> ct_symbols p' = ct_symbols p
     \<and> ct_loads p' = ct_loads p \<and> ct_nextSocket p' = ct_nextSocket p"

named_theorems calm_rules

lemma calm_terminate [calm_rules]: "calm p q \<Longrightarrow> calm p (ctTerminate s q)"
  by (simp add: calm_def ctTerminate_def)

lemma calm_maintenance [calm_rules]: "calm p q \<Longrightarrow> calm p (beginMaintenance f q)"
  by (simp add: calm_def beginMaintenance_def)

lemma calm_failed [calm_rules]: "calm p q \<Longrightarrow> calm p (setupFailed r s q)"
  by (simp add: setupFailed_def calm_rules)

lemma calm_nextId [calm_rules]: "calm p q \<Longrightarrow> calm p (snd (nextId now q))"
  by (simp add: calm_def nextId_def Let_def)

lemma calm_request [calm_rules]: "calm p q \<Longrightarrow> calm p (requestStep step s now q)"
proof -
  assume "calm p q"
  then have "calm p (snd (nextId now q))" by (rule calm_nextId)
  then show ?thesis by (auto simp: requestStep_def split_beta intro!: calm_failed split: option.split) (simp add: calm_def)
qed

lemma calm_answered [calm_rules]: "calm p q \<Longrightarrow> calm p (setupAnswered env step s now q)"
  unfolding setupAnswered_def
  by (auto simp: Let_def split_beta intro!: calm_rules split: option.split SetupStep.split) (simp_all add: calm_def)

lemma calm_frame: "calm p (fst (handleFrame parsed now p))"
proof -
  have "calm p (p\<lparr>ct_pending := x\<rparr>)" "calm p (p\<lparr>ct_quoteCache := c\<rparr>)" "calm p (p\<lparr>ct_quoteCache := c, ct_lastTickAt := l\<rparr>)" "calm p p" for x c l
    by (simp_all add: calm_def)
  then show ?thesis unfolding handleFrame_def terminateCurrent_def
    by (auto simp: Let_def intro!: calm_rules split: option.split CtRequest.split prod.split)
qed

lemma calm_bars: "calm p (snd (getBars f now p))"
proof -
  have "calm p p" by (simp add: calm_def)
  from calm_nextId [OF this] have "calm p (snd (nextId now p))" .
  then show ?thesis by (auto simp: getBars_def split_beta Let_def calm_def)
qed

lemma calm_timeout: "calm p (requestTimesOut i p)"
proof -
  have "calm p (p\<lparr>ct_pending := x\<rparr>)" for x by (simp add: calm_def)
  then show ?thesis by (auto simp: requestTimesOut_def Let_def intro!: calm_rules split: option.split CtRequest.split)
qed

lemma calm_opened: "calm p (ctOpened s now p)"
proof -
  have "calm p (p\<lparr>ct_sockets := setPhase s SocketOpen (ct_sockets p), ct_connected := True, ct_attempt := 0, ct_heartbeat := True\<rparr>)" by (simp add: calm_def)
  then show ?thesis by (auto simp: ctOpened_def Let_def intro!: calm_rules)
qed

lemma calm_keeps: "calm p p' \<Longrightarrow> \<not> asleep p \<Longrightarrow> ct_inv p \<Longrightarrow> ct_inv p' \<and> link_step (ct_link p) (ct_link p')"
proof -
  assume c: "calm p p'" and a: "\<not> asleep p" and i: "ct_inv p"
  have "asleep p' = asleep p" using c by (simp add: asleep_def calm_def)
  moreover have "ct_link p' = ct_link p" using c by (simp add: calm_def ct_link_def asleep_def)
  moreover have "fst ` set (ct_sockets p') = fst ` set (ct_sockets p)" using c by (metis calm_def list.set_map)
  then have "\<forall>n\<in>fst ` set (ct_sockets p'). n < ct_nextSocket p" using i by (simp add: ct_inv_def)
  moreover have "ct_nextSocket p' = ct_nextSocket p" using c by (simp add: calm_def)
  ultimately show ?thesis using a same_link [of "ct_link p"] by (simp add: ct_inv_def asleep_def)
qed

lemma connect_link:
  assumes "ct_inv p" "link_ok (ct_link p)" "ct_socket p = None" "q = p\<lparr>ct_loads := l, ct_cfg := c, ct_configTimer := t, ct_tokenTimer := k, ct_maintenance := m\<rparr>"
    "\<not> asleep q" "c \<noteq> None" "\<not> ct_reconnectTimer p"
  shows "ct_inv (ctConnect q) \<and> link_step (ct_link p) (ct_link (ctConnect q))"
proof (cases "ct_stopping p")
  case True
  have "ctConnect q = q" "ct_inv q" using assms True by (auto simp: ctConnect_def ct_inv_def asleep_def)
  moreover have "ct_link q = (ct_link p)\<lparr>lk_wanted := True\<rparr>" using assms by (simp add: ct_link_def)
  ultimately show ?thesis using stays [of True "ct_link p"] True by (simp add: ct_link_def)
next
  case False
  have "\<forall>x\<in>set (ct_sockets p). fst x < ct_nextSocket p" using assms(1) by (simp add: ct_inv_def)
  then have "ct_nextSocket p \<notin> set (map fst (ct_sockets p))" by (rule fresh_socket)
  then have "link_step (ct_link p) (ct_link (ctConnect q))"
    using assms False by (intro dials_to [where n = "ct_nextSocket p"]) (simp_all add: ctConnect_def ct_link_def)
  moreover have "\<not> asleep (ctConnect q)" using assms(5) by (simp add: asleep_def ctConnect_def)
  ultimately show ?thesis using assms(1,4,5) by (auto simp: ct_inv_def ctConnect_def asleep_def less_SucI)
qed

text \<open>New credentials, while the provider is awake.\<close>

lemma apply_link:
  assumes "ct_inv p" "link_ok (ct_link p)" "\<not> asleep p" "q = p\<lparr>ct_loads := l\<rparr>" "StartLoad \<notin> set l"
  shows "ct_inv (applyConfig next q) \<and> link_step (ct_link p) (ct_link (applyConfig next q))"
proof -
  have awake: "\<not> asleep (q\<lparr>ct_cfg := c\<rparr>)" "\<not> asleep q" for c using assms(3-5) by (simp_all add: asleep_def)
  have inv: "ct_inv (q\<lparr>ct_cfg := c\<rparr>)" "ct_inv q" for c using assms(1,3,4) awake by (simp_all add: ct_inv_def asleep_def)
  have link: "ct_link (q\<lparr>ct_cfg := c\<rparr>) = (ct_link p)\<lparr>lk_wanted := (c \<noteq> None)\<rparr>" for c using awake assms(4) by (simp add: ct_link_def)
  show ?thesis
  proof (cases "\<not> configChanged (ct_cfg p) next \<or> next = None")
    case True
    have "ct_link q = ct_link p" using assms(3,4) awake by (simp add: ct_link_def)
    then show ?thesis using True inv link [of None] stays [of False "ct_link p"] same_link assms(4) by (auto simp: applyConfig_def Let_def)
  next
    case False
    then obtain c where c: "next = Some c" "configChanged (ct_cfg p) (Some c)" by auto
    have keep: "ct_inv (q\<lparr>ct_cfg := Some c\<rparr>) \<and> link_step (ct_link p) (ct_link (q\<lparr>ct_cfg := Some c\<rparr>))" if "ct_socket p \<noteq> None \<or> ct_reconnectTimer p"
    proof -
      have "link_step (ct_link p) ((ct_link p)\<lparr>lk_wanted := True\<rparr>)" by (rule stays) (use that in \<open>auto simp: ct_link_def\<close>)
      then show ?thesis using inv link [of "Some c"] by simp
    qed
    show ?thesis
    proof (cases "ct_socket p")
      case None
      have q: "q\<lparr>ct_cfg := Some c\<rparr> = p\<lparr>ct_loads := l, ct_cfg := Some c, ct_configTimer := ct_configTimer p, ct_tokenTimer := ct_tokenTimer p, ct_maintenance := ct_maintenance p\<rparr>"
        using assms(4) by simp
      show ?thesis using keep connect_link [OF assms(1,2) None q awake(1)] None c assms(4)
        by (cases "ct_reconnectTimer p") (simp_all add: applyConfig_def)
    next
      case (Some s)
      have "ct_link (ctTerminate s (q\<lparr>ct_cfg := Some c\<rparr>)) = ct_link (q\<lparr>ct_cfg := Some c\<rparr>)" by (simp add: ct_link_def ctTerminate_def asleep_def)
      moreover have "ct_inv (ctTerminate s (q\<lparr>ct_cfg := Some c\<rparr>)) = ct_inv (q\<lparr>ct_cfg := Some c\<rparr>)"
        by (simp add: ct_inv_def ctTerminate_def asleep_def quiet_def)
      ultimately show ?thesis using keep Some c assms(4) by (simp add: applyConfig_def)
    qed
  qed
qed

text \<open>The credentials that \<open>start\<close> waits for: the provider wakes up, and dials when it has any.\<close>

lemma start_rest_shape:
  "startRest p = (let q = p\<lparr>ct_tokenTimer := (ct_tokenTimer p \<or> ct_hasMaintenance p), ct_maintenance := ct_maintenance (if ct_hasMaintenance p then beginMaintenance False p else p)\<rparr>
     in if ct_cfg p = None \<or> ct_socket p \<noteq> None then q else ctConnect q)"
  by (cases p; cases "ct_hasMaintenance p"; cases "ct_stopping p") (simp_all add: startRest_def beginMaintenance_def Let_def)

lemma wake_link:
  assumes "ct_inv p" "link_ok (ct_link p)" "asleep p" "ct_started q" "ct_symbols q \<noteq> []" "StartLoad \<notin> set (ct_loads q)"
    "q = p\<lparr>ct_symbols := y, ct_started := True, ct_loads := l, ct_cfg := c, ct_configTimer := t\<rparr>"
  shows "ct_inv (startRest q) \<and> link_step (ct_link p) (ct_link (startRest q))"
proof -
  have quiet: "quiet p" using assms(1,3) by (simp add: ct_inv_def)
  let ?r = "q\<lparr>ct_tokenTimer := (ct_tokenTimer q \<or> ct_hasMaintenance q), ct_maintenance := ct_maintenance (if ct_hasMaintenance q then beginMaintenance False q else q)\<rparr>"
  have awake: "\<not> asleep ?r" using assms(4-6) by (simp add: asleep_def)
  have l: "\<not> lk_wanted (ct_link p)" "ct_socket p = None" "\<not> ct_reconnectTimer p" "ct_sockets p = []" using assms(3) quiet by (simp_all add: ct_link_def quiet_def)
  have inv: "ct_inv ?r" using l assms(4-7) awake by (simp add: ct_inv_def)
  show ?thesis
  proof (cases "c = None \<or> ct_stopping p")
    case True
    have "ct_link ?r = (ct_link p)\<lparr>lk_wanted := (c \<noteq> None)\<rparr>" using awake assms(7) by (simp add: ct_link_def)
    moreover have "startRest q = ?r" using True l assms(7) by (auto simp: start_rest_shape ctConnect_def Let_def)
    ultimately show ?thesis using True inv stays [of "c \<noteq> None" "ct_link p"] by (auto simp: ct_link_def)
  next
    case False
    then obtain c0 where c0: "c = Some c0" by auto
    have r: "startRest q = ctConnect ?r" using c0 l assms(7) by (simp add: start_rest_shape Let_def)
    have "link_step (ct_link p) (ct_link (ctConnect ?r))"
      using False l assms(7) by (intro dials_to [where n = "ct_nextSocket p"]) (simp_all add: ctConnect_def ct_link_def)
    moreover have "ct_inv (ctConnect ?r)" using inv awake l assms(7) False by (simp add: ctConnect_def ct_inv_def asleep_def)
    ultimately show ?thesis using r by simp
  qed
qed

lemma apply_asleep:
  assumes "quiet p" "c = (if configChanged (ct_cfg p) next then next else ct_cfg p)"
  shows "startRest ((applyConfig next (p\<lparr>ct_loads := l\<rparr>))\<lparr>ct_configTimer := True\<rparr>) = startRest (p\<lparr>ct_loads := l, ct_cfg := c, ct_configTimer := True\<rparr>)"
proof (cases "configChanged (ct_cfg p) next")
  case False
  then have "applyConfig next (p\<lparr>ct_loads := l\<rparr>) = p\<lparr>ct_loads := l, ct_cfg := c\<rparr>" using assms(2) by (cases p) (simp add: applyConfig_def)
  then show ?thesis by simp
next
  case True
  then show ?thesis using assms
    by (cases "next"; cases "ct_stopping p"; cases "ct_hasMaintenance p")
      (simp_all add: applyConfig_def start_rest_shape ctConnect_def beginMaintenance_def quiet_def Let_def)
qed

lemma ct_simulates: "ct_step p p' \<Longrightarrow> ct_inv p \<Longrightarrow> link_ok (ct_link p) \<Longrightarrow> ct_inv p' \<and> link_step (ct_link p) (ct_link p')"
proof (induction rule: ct_step.induct)
  case (ct_starts p symbols)
  have asleep: "asleep p" using ct_starts(1) by (simp add: asleep_def)
  then have quiet: "quiet p" "ct_loads p = []" "\<not> ct_stopping p" using ct_starts by (auto simp: ct_inv_def quiet_def)
  show ?case
  proof (cases "symbols = [] \<or> ct_hasLoader p")
    case True
    let ?q = "ctStart symbols p"
    have "asleep ?q" "quiet ?q" "ct_started ?q" "StartLoad \<in> set (ct_loads ?q) \<longrightarrow> ct_symbols ?q \<noteq> []" using True quiet by (auto simp: ctStart_def Let_def asleep_def quiet_def)
    moreover from this have "ct_sockets ?q = []" by (simp add: quiet_def)
    ultimately have "ct_inv ?q" by (simp add: ct_inv_def)
    moreover have "ct_link ?q = ct_link p" using \<open>asleep ?q\<close> asleep quiet True by (simp add: ct_link_def) (auto simp: ctStart_def Let_def quiet_def)
    ultimately show ?thesis using same_link [of "ct_link p"] by simp
  next
    case False
    let ?q = "p\<lparr>ct_symbols := symbols, ct_started := True, ct_loads := ct_loads p, ct_cfg := ct_cfg p, ct_configTimer := ct_configTimer p\<rparr>"
    have "ctStart symbols p = startRest ?q" using False quiet(3) by (cases p) (simp add: ctStart_def)
    then show ?thesis using wake_link [OF ct_starts(2,3) asleep, where y = symbols and l = "ct_loads p" and c = "ct_cfg p" and t = "ct_configTimer p", OF _ _ _ refl] False quiet by simp
  qed
next
  case (ct_stops p)
  have fst_foldr: "map fst (ct_sockets (foldr ctTerminate ss q)) = map fst (ct_sockets q)" for ss q by (induction ss) (simp_all add: ctTerminate_def)
  have frame: "ct_socket (foldr ctTerminate ss q) = ct_socket q" "ct_reconnectTimer (foldr ctTerminate ss q) = ct_reconnectTimer q"
    "ct_stopping (foldr ctTerminate ss q) = ct_stopping q" "ct_started (foldr ctTerminate ss q) = ct_started q" "ct_symbols (foldr ctTerminate ss q) = ct_symbols q"
    "ct_loads (foldr ctTerminate ss q) = ct_loads q" "ct_nextSocket (foldr ctTerminate ss q) = ct_nextSocket q" "ct_configTimer (foldr ctTerminate ss q) = ct_configTimer q"
    "ct_tokenTimer (foldr ctTerminate ss q) = ct_tokenTimer q" "ct_maintenance (foldr ctTerminate ss q) = ct_maintenance q" "ct_pending (foldr ctTerminate ss q) = ct_pending q"
    for ss q by (induction ss; simp add: ctTerminate_def)+
  have s: "map fst (ct_sockets (ctStop p)) = map fst (ct_sockets p)" by (simp add: ctStop_def Let_def fst_foldr) (simp add: ctTerminate_def split: option.split)
  have "link_step (ct_link p) (ct_link (ctStop p))"
    by (rule stops_to) (simp_all add: ct_link_def s, simp_all add: ctStop_def Let_def frame ctTerminate_def split: option.split)
  moreover have "asleep (ctStop p) = asleep p" by (simp add: asleep_def ctStop_def Let_def frame) (simp add: ctTerminate_def split: option.split)
  moreover have "fst ` set (ct_sockets (ctStop p)) = fst ` set (ct_sockets p)" using s by (metis list.set_map)
  then have "\<forall>n\<in>fst ` set (ct_sockets (ctStop p)). n < ct_nextSocket p" using ct_stops by (simp add: ct_inv_def)
  moreover have "StartLoad \<in> set (ct_loads p) \<longrightarrow> ct_symbols p \<noteq> []" using ct_stops by (simp add: ct_inv_def)
  moreover have "ct_nextSocket (ctStop p) = ct_nextSocket p" "ct_started (ctStop p)" "ct_loads (ctStop p) = ct_loads p" "ct_symbols (ctStop p) = ct_symbols p"
    using ct_stops by (simp_all add: ctStop_def Let_def frame ctTerminate_def split: option.split)
  moreover have "quiet (ctStop p)" if "asleep p"
  proof -
    have "quiet p" using ct_stops that by (simp add: ct_inv_def)
    then show ?thesis by (simp add: quiet_def ctStop_def Let_def sessionsOf_def List.map_filter_def)
  qed
  ultimately show ?case by (simp add: ct_inv_def)
next
  case (ct_loaded p us load vs result)
  show ?case
  proof (cases "asleep p")
    case True
    then have quiet: "quiet p" using ct_loaded by (simp add: ct_inv_def)
    then have load: "load = StartLoad" "us @ vs = []" using ct_loaded(1) by (cases us; auto simp: quiet_def)+
    then have start: "ct_started p" using ct_loaded by (auto simp: ct_inv_def)
    let ?c = "case result of None \<Rightarrow> ct_cfg p | Some next \<Rightarrow> (if configChanged (ct_cfg p) next then next else ct_cfg p)"
    let ?q = "p\<lparr>ct_symbols := ct_symbols p, ct_started := True, ct_loads := [], ct_cfg := ?c, ct_configTimer := True\<rparr>"
    have "loadDone load result (p\<lparr>ct_loads := us @ vs\<rparr>) = startRest ?q"
      using load start apply_asleep [OF quiet refl, of _ "[]"] by (cases p) (auto simp: loadDone_def split: option.split)
    moreover have "ct_symbols p \<noteq> []" using ct_loaded load by (simp add: ct_inv_def)
    ultimately show ?thesis using wake_link [OF ct_loaded(2,3) True, where y = "ct_symbols p" and l = "[]" and c = ?c and t = True, OF _ _ _ refl] by simp
  next
    case False
    then have load: "load = ConfigLoad" "StartLoad \<notin> set (us @ vs)" using ct_loaded(1) by (cases load; auto simp: asleep_def)+
    let ?q = "p\<lparr>ct_loads := us @ vs\<rparr>"
    have "\<not> asleep ?q" using False load by (simp add: asleep_def)
    then have "ct_inv ?q \<and> ct_link ?q = ct_link p" using ct_loaded(2) False load by (simp add: ct_inv_def ct_link_def)
    then show ?thesis using apply_link [OF ct_loaded(2,3) False refl load(2)] same_link [of "ct_link p"] load
      by (cases result) (simp_all add: loadDone_def)
  qed
next
  case (ct_maintained p us force vs result)
  then have "\<not> asleep p" by (auto simp: ct_inv_def quiet_def)
  then show ?case using ct_maintained same_link [of "ct_link p"]
    by (auto simp: maintenanceDone_def beginSync_def ct_inv_def ct_link_def asleep_def)
next
  case (ct_polls p)
  then have "\<not> asleep p" by (auto simp: ct_inv_def quiet_def)
  then show ?case using ct_polls same_link [of "ct_link p"] by (auto simp: beginSync_def ct_inv_def ct_link_def asleep_def)
next
  case (ct_maintains p)
  then have "\<not> asleep p" by (auto simp: ct_inv_def quiet_def)
  then show ?case using ct_maintains same_link [of "ct_link p"] by (auto simp: beginMaintenance_def ct_inv_def ct_link_def asleep_def)
next
  case (ct_opens s p now)
  then have "\<not> asleep p" by (auto simp: ct_inv_def quiet_def)
  then show ?case using calm_keeps [OF calm_opened] ct_opens by blast
next
  case (ct_reads s ph p parsed now)
  then have "\<not> asleep p" by (auto simp: ct_inv_def quiet_def)
  then show ?case using calm_keeps [OF calm_frame] ct_reads by blast
next
  case (ct_times_out p i)
  then have "\<not> asleep p" by (auto simp: ct_inv_def quiet_def)
  then show ?case using calm_keeps [OF calm_timeout] ct_times_out by blast
next
  case (ct_closes s p)
  then have awake: "\<not> asleep p" by (auto simp: ct_inv_def quiet_def)
  moreover have "ct_stopping p \<longrightarrow> \<not> ct_reconnectTimer p" using ct_closes by (auto simp: link_ok_def ct_link_def)
  ultimately have "link_step (ct_link p) (ct_link (ctClosed s p))" using ct_closes
    by (intro closes_to [where s = s]) (auto simp: ct_link_def ctClosed_def Let_def asleep_def)
  then show ?case using ct_closes awake by (auto simp: ct_inv_def ctClosed_def Let_def asleep_def dest: gone_sub)
next
  case (ct_reconnects p)
  then have awake: "\<not> asleep p" by (auto simp: ct_inv_def quiet_def)
  have i: "ct_socket p = None" "\<not> ct_stopping p" "ct_sockets p = []" using ct_reconnects by (auto simp: link_ok_def ct_link_def split: if_splits option.splits)
  have "ct_inv (reconnectFires p)" using ct_reconnects awake i by (simp add: ct_inv_def reconnectFires_def ctConnect_def asleep_def)
  moreover have "link_step (ct_link p) (ct_link (reconnectFires p))"
  proof (cases "ct_cfg p")
    case None
    then show ?thesis using gives_up [of "ct_link p"] by (simp add: ct_link_def reconnectFires_def ctConnect_def asleep_def)
  next
    case (Some c)
    then show ?thesis using i by (intro dials_to [where n = "ct_nextSocket p"]) (simp_all add: ct_link_def reconnectFires_def ctConnect_def)
  qed
  ultimately show ?case by simp
next
  case (ct_asks p feedSymbol now)
  show ?case
  proof (cases "asleep p")
    case True
    then have "snd (getBars feedSymbol now p) = p \<or> snd (getBars feedSymbol now p) = snd (nextId now p)"
      using ct_asks by (auto simp: getBars_def split_beta Let_def ct_inv_def quiet_def socketReady_def nextId_def)
    moreover have "ct_inv (snd (nextId now p)) = ct_inv p" "ct_link (snd (nextId now p)) = ct_link p"
      by (simp_all add: nextId_def Let_def ct_inv_def ct_link_def asleep_def quiet_def)
    ultimately show ?thesis using ct_asks same_link [of "ct_link p"] by auto
  next
    case False
    then show ?thesis using calm_keeps [OF calm_bars] ct_asks by blast
  qed
qed

interpretation ct: reconnecting ct_step ct_link ct_inv "\<lambda>p. \<exists>cfg loader maintain. p = newCTraderProvider cfg loader maintain"
proof
  fix p assume "\<exists>cfg loader maintain. p = newCTraderProvider cfg loader maintain"
  then show "ct_inv p \<and> link_ok (ct_link p)" by (auto simp: newCTraderProvider_def ct_inv_def link_ok_def ct_link_def asleep_def quiet_def)
qed (rule ct_simulates)

end
