(* ===== verification/CTraderSession.thy ===== *)
theory CTraderSession
  imports CTraderProofs
begin

text \<open>
  The session of cTrader and its quotes, and the properties of the providers.
\<close>

section \<open>The order of a session\<close>

fun earlier :: "SetupStep \<Rightarrow> SetupStep list" where
  "earlier ApplicationAuth = []"
| "earlier AccountAuth = [ApplicationAuth]"
| "earlier SymbolsList = [ApplicationAuth, AccountAuth]"
| "earlier SubscribeSpots = [ApplicationAuth, AccountAuth, SymbolsList]"

definition accepted :: "CtEvent list \<Rightarrow> nat \<Rightarrow> SetupStep \<Rightarrow> bool" where
  "accepted evs s step \<longleftrightarrow> (\<forall>k\<in>set (earlier step). AcceptedStep s k \<in> set evs)"

definition orderly :: "CtEvent list \<Rightarrow> bool" where
  "orderly evs \<longleftrightarrow> (\<forall>pre s step post. evs = pre @ SentStep s step # post \<longrightarrow> accepted pre s step)"

lemma accepted_more: "accepted evs s step \<Longrightarrow> accepted (evs @ evs') s step"
  by (simp add: accepted_def)

lemma orderly_accept: "orderly evs \<Longrightarrow> orderly (evs @ [AcceptedStep s step])"
  by (auto simp: orderly_def append_eq_append_conv2 append_eq_Cons_conv Cons_eq_append_conv)

lemma orderly_send: "orderly evs \<Longrightarrow> accepted evs s step \<Longrightarrow> orderly (evs @ [SentStep s step])"
  unfolding orderly_def
proof (intro allI impI)
  fix pre s' step' post
  assume o: "\<forall>pre s step post. evs = pre @ SentStep s step # post \<longrightarrow> accepted pre s step" "accepted evs s step"
    and e: "evs @ [SentStep s step] = pre @ SentStep s' step' # post"
  show "accepted pre s' step'"
  proof (cases post rule: rev_cases)
    case Nil
    then show ?thesis using e o(2) by simp
  next
    case (snoc post' x)
    then have "evs = pre @ SentStep s' step' # post'" using e by (metis append.assoc append_Cons butlast_snoc)
    then show ?thesis using o(1) by blast
  qed
qed

definition sess_ok :: "CTraderProvider \<Rightarrow> bool" where
  "sess_ok p \<longleftrightarrow> orderly (ct_log p)
     \<and> (\<forall>x\<in>set (ct_pending p). \<forall>step s. snd x = SetupRequest step s \<longrightarrow> accepted (ct_log p) s step)
     \<and> (ct_connected p \<longrightarrow> (\<exists>s ph. ct_socket p = Some s \<and> (s, ph) \<in> set (ct_sockets p) \<and> ph \<noteq> SocketConnecting))
     \<and> (ct_authenticated p \<longrightarrow> (\<exists>s. ct_socket p = Some s \<and> AcceptedStep s ApplicationAuth \<in> set (ct_log p) \<and> AcceptedStep s AccountAuth \<in> set (ct_log p)))
     \<and> (ct_stopping p \<longrightarrow> ct_socket p = None \<and> ct_pending p = [] \<and> (\<forall>x\<in>set (ct_sockets p). snd x = SocketClosing))"

text \<open>Changes that the invariant does not see, and those it allows anywhere.\<close>

definition same_session :: "CTraderProvider \<Rightarrow> CTraderProvider \<Rightarrow> bool" where
  "same_session p q \<longleftrightarrow> ct_log q = ct_log p \<and> ct_pending q = ct_pending p \<and> ct_connected q = ct_connected p \<and> ct_socket q = ct_socket p
     \<and> ct_sockets q = ct_sockets p \<and> ct_authenticated q = ct_authenticated p \<and> ct_stopping q = ct_stopping p"

lemma same_session_ok: "same_session p q \<Longrightarrow> sess_ok p \<Longrightarrow> sess_ok q"
  by (simp add: same_session_def sess_ok_def)

named_theorems sess_rules

lemma closing_mem: "(n, ph) \<in> set socks \<Longrightarrow> ph \<noteq> SocketConnecting \<Longrightarrow> \<exists>ph'. (n, ph') \<in> set (setPhase s SocketClosing socks) \<and> ph' \<noteq> SocketConnecting"
  by (induction socks) (auto simp: setPhase_def)

lemma closing_all: "\<forall>x\<in>set socks. snd x = SocketClosing \<Longrightarrow> \<forall>x\<in>set (setPhase s SocketClosing socks). snd x = SocketClosing"
  by (auto simp: setPhase_def)

lemma sess_terminate [sess_rules]: "sess_ok p \<Longrightarrow> sess_ok (ctTerminate s p)"
proof -
  assume p: "sess_ok p"
  have "\<exists>n ph. ct_socket p = Some n \<and> (n, ph) \<in> set (setPhase s SocketClosing (ct_sockets p)) \<and> ph \<noteq> SocketConnecting" if "ct_connected p"
    using p that closing_mem unfolding sess_ok_def by meson
  moreover have "\<forall>x\<in>set (setPhase s SocketClosing (ct_sockets p)). snd x = SocketClosing" if "ct_stopping p"
    using p that closing_all unfolding sess_ok_def by meson
  ultimately show ?thesis using p by (simp add: sess_ok_def ctTerminate_def)
qed

lemma sess_maintenance [sess_rules]: "sess_ok p \<Longrightarrow> sess_ok (beginMaintenance f p)"
  by (erule same_session_ok [rotated]) (simp add: same_session_def beginMaintenance_def)

lemma sess_failed [sess_rules]: "sess_ok p \<Longrightarrow> sess_ok (setupFailed r s p)"
  by (simp add: setupFailed_def sess_rules)

lemma sess_nextId [sess_rules]: "sess_ok p \<Longrightarrow> sess_ok (snd (nextId now p))"
  by (erule same_session_ok [rotated]) (simp add: same_session_def nextId_def Let_def)

lemma sess_current [sess_rules]: "sess_ok p \<Longrightarrow> sess_ok (terminateCurrent p)"
  by (simp add: terminateCurrent_def sess_rules split: option.split)

lemma sess_forget [sess_rules]: "sess_ok p \<Longrightarrow> sess_ok (p\<lparr>ct_pending := AList.delete i (ct_pending p)\<rparr>)"
  by (auto simp: sess_ok_def AList.delete_eq)

lemma sess_connect [sess_rules]: "sess_ok p \<Longrightarrow> ct_socket p = None \<Longrightarrow> sess_ok (ctConnect p)"
  by (auto simp: sess_ok_def ctConnect_def)

lemma in_update: "(k, v) \<in> set (AList.update i r al) \<Longrightarrow> (k, v) \<in> set al \<or> v = r"
  by (induction al) (auto split: if_splits)

lemma sess_request:
  assumes "sess_ok p" "accepted (ct_log p) s step" "ct_socket p = Some s"
  shows "sess_ok (requestStep step s now p)"
proof (cases "socketReady (snd (nextId now p))")
  case None
  then show ?thesis using sess_failed [OF sess_nextId [OF assms(1)]] by (simp add: requestStep_def split_beta)
next
  case (Some cur)
  have cur: "cur = s" using Some assms(3) by (auto simp: socketReady_def nextId_def Let_def split: option.splits if_splits)
  have old: "accepted (ct_log p) s' step'" if "(k, SetupRequest step' s') \<in> set (ct_pending p)" for k step' s'
    using assms(1) that unfolding sess_ok_def by (metis snd_conv)
  have ok: "\<forall>x\<in>set (AList.update i (SetupRequest step s) (ct_pending p)). \<forall>step' s'. snd x = SetupRequest step' s' \<longrightarrow> accepted (ct_log p @ [SentStep s step]) s' step'" for i
    using in_update old assms(2) accepted_more by (metis CtRequest.inject(1) prod.collapse)
  have "\<not> ct_stopping p" using assms(1,3) by (auto simp: sess_ok_def)
  moreover have "orderly (ct_log p @ [SentStep s step])" using assms(1,2) orderly_send by (simp add: sess_ok_def)
  moreover have "requestStep step s now p = (snd (nextId now p))\<lparr>ct_pending := AList.update (fst (nextId now p)) (SetupRequest step s) (ct_pending p),
      ct_log := ct_log p @ [SentStep s step]\<rparr>"
    using Some cur by (simp add: requestStep_def split_beta) (simp add: nextId_def Let_def)
  ultimately show ?thesis using sess_nextId [OF assms(1), of now] ok by (auto simp: sess_ok_def nextId_def Let_def)
qed

lemma sess_answered:
  assumes "sess_ok p" "accepted (ct_log p) s step" "ct_socket p = Some s"
  shows "sess_ok (setupAnswered env step s now p)"
proof (cases "assertOk env step")
  case (Some reason)
  then show ?thesis using assms by (simp add: setupAnswered_def sess_rules)
next
  case None
  let ?p = "p\<lparr>ct_log := ct_log p @ [AcceptedStep s step]\<rparr>"
  have ok: "sess_ok ?p" using assms(1) orderly_accept [of "ct_log p" s step] accepted_more by (auto simp: sess_ok_def)
  have acc: "\<forall>k\<in>set (earlier step). AcceptedStep s k \<in> set (ct_log ?p)" "AcceptedStep s step \<in> set (ct_log ?p)" using assms(2) by (auto simp: accepted_def)
  show ?thesis
  proof (cases step)
    case ApplicationAuth
    then show ?thesis using None sess_request [OF ok] acc assms(3) by (simp add: setupAnswered_def accepted_def)
  next
    case AccountAuth
    have "sess_ok (?p\<lparr>ct_authenticated := True\<rparr>)" using ok acc assms(3) AccountAuth by (simp add: sess_ok_def)
    then show ?thesis using None sess_request AccountAuth acc assms(3) by (simp add: setupAnswered_def accepted_def)
  next
    case SymbolsList
    show ?thesis
    proof (cases "decodeSymbolsList (ce_payload env)")
      case (Some list)
      let ?q = "?p\<lparr>ct_symbolIds := fst (matchSymbols list (ct_symbols p)), ct_quoteCache := \<lambda>_. (None, None)\<rparr>"
      have "sess_ok ?q" by (rule same_session_ok [OF _ ok]) (simp add: same_session_def)
      then show ?thesis using None Some SymbolsList sess_request [of ?q s SubscribeSpots] acc assms(3)
        by (cases "fst (matchSymbols list (ct_symbols p)) = []") (simp_all add: setupAnswered_def accepted_def split_beta Let_def sess_rules)
    qed (use None SymbolsList ok in \<open>simp add: setupAnswered_def sess_rules\<close>)
  next
    case SubscribeSpots
    then show ?thesis using None ok by (simp add: setupAnswered_def)
  qed
qed

lemma current_of:
  assumes "link_ok (ct_link p)" "(s, ph) \<in> set (ct_sockets p)" "\<not> ct_stopping p"
  shows "ct_socket p = Some s"
proof -
  have "map fst (ct_sockets p) = (case ct_socket p of None \<Rightarrow> [] | Some n \<Rightarrow> [n])" using assms(1,3) by (simp add: link_ok_def ct_link_def)
  moreover have "s \<in> set (map fst (ct_sockets p))" using assms(2) by force
  ultimately show ?thesis by (auto split: option.splits)
qed

lemma sess_frame:
  assumes "sess_ok p" "link_ok (ct_link p)" "(s, ph) \<in> set (ct_sockets p)" "answersOwn parsed s p"
  shows "sess_ok (fst (handleFrame parsed now p))"
proof (cases "decodeEnvelope parsed")
  case None
  with assms show ?thesis by (simp add: handleFrame_def)
next
  case (Some env)
  have quote: "sess_ok (p\<lparr>ct_quoteCache := c\<rparr>)" "sess_ok (p\<lparr>ct_quoteCache := c, ct_lastTickAt := l\<rparr>)" for c l
    by (rule same_session_ok [OF _ assms(1)], simp add: same_session_def)+
  show ?thesis
  proof (cases "Option.bind (ce_clientMsgId env) (\<lambda>i. if i = [] then None else map_option (Pair i) (map_of (ct_pending p) i))")
    case None
    then show ?thesis using Some assms(1) quote by (auto simp: handleFrame_def sess_rules split: option.split prod.split)
  next
    case found: (Some x)
    obtain i r where x: "x = (i, r)" and i: "ce_clientMsgId env = Some i" "map_of (ct_pending p) i = Some r"
      using found by (auto split: option.splits if_splits simp: bind_eq_Some_conv)
    let ?p = "p\<lparr>ct_pending := AList.delete i (ct_pending p)\<rparr>"
    have ok: "sess_ok ?p" using assms(1) by (rule sess_forget)
    show ?thesis
    proof (cases r)
      case (SetupRequest step s')
      have mem: "(i, SetupRequest step s') \<in> set (ct_pending p)" using i(2) SetupRequest by (simp add: map_of_SomeD)
      have "s' = s" using assms(4) Some i SetupRequest by (simp add: answersOwn_def)
      moreover have "accepted (ct_log p) s' step" using assms(1) mem unfolding sess_ok_def by (metis snd_conv)
      moreover have "\<not> ct_stopping p" using assms(1) mem by (auto simp: sess_ok_def)
      then have "ct_socket p = Some s" by (rule current_of [OF assms(2,3)])
      ultimately show ?thesis using sess_answered [OF ok, of s step env now] Some found x SetupRequest by (simp add: handleFrame_def)
    next
      case TrendbarsRequest
      then show ?thesis using ok Some found x by (simp add: handleFrame_def)
    qed
  qed
qed

lemma sess_rest: "sess_ok p \<Longrightarrow> sess_ok (startRest p)"
proof -
  assume p: "sess_ok p"
  let ?q = "p\<lparr>ct_tokenTimer := (ct_tokenTimer p \<or> ct_hasMaintenance p), ct_maintenance := ct_maintenance (if ct_hasMaintenance p then beginMaintenance False p else p)\<rparr>"
  have "sess_ok ?q" by (rule same_session_ok [OF _ p]) (simp add: same_session_def)
  then show ?thesis using sess_connect [of ?q] by (auto simp: start_rest_shape Let_def)
qed

lemma sess_apply: "sess_ok p \<Longrightarrow> sess_ok (applyConfig next p)"
proof -
  assume p: "sess_ok p"
  have q: "sess_ok (p\<lparr>ct_cfg := c\<rparr>)" for c by (rule same_session_ok [OF _ p]) (simp add: same_session_def)
  show ?thesis using p q by (auto simp: applyConfig_def Let_def sess_rules split: option.split)
qed

lemma sess_stop:
  assumes "sess_ok p" "link_ok (ct_link p)"
  shows "sess_ok (ctStop p)"
proof -
  let ?p1 = "p\<lparr>ct_stopping := True, ct_heartbeat := False, ct_reconnectTimer := False, ct_configTimer := False, ct_tokenTimer := False,
     ct_pending := [], ct_socket := None, ct_connected := False, ct_authenticated := False\<rparr>"
  have "sess_ok (case ct_socket p of Some s \<Rightarrow> ctTerminate s ?p1 | None \<Rightarrow> ?p1)"
  proof (cases "ct_stopping p")
    case True
    then show ?thesis using assms(1) by (simp add: sess_ok_def)
  next
    case False
    have "map fst (ct_sockets p) = (case ct_socket p of None \<Rightarrow> [] | Some n \<Rightarrow> [n])" using assms(2) False by (simp add: link_ok_def ct_link_def)
    then show ?thesis using assms(1) by (auto simp: sess_ok_def ctTerminate_def setPhase_def split: option.splits)
  qed
  moreover have "sess_ok q \<Longrightarrow> sess_ok (foldr ctTerminate ss q)" for ss q by (induction ss) (simp_all add: sess_rules)
  ultimately show ?thesis by (simp add: ctStop_def Let_def)
qed

lemma sess_step: "ct_step p p' \<Longrightarrow> ct_inv p \<Longrightarrow> link_ok (ct_link p) \<Longrightarrow> sess_ok p \<Longrightarrow> sess_ok p'"
proof (induction rule: ct_step.induct)
  case (ct_starts p symbols)
  have q: "sess_ok (p\<lparr>ct_symbols := symbols, ct_stopping := False, ct_started := True\<rparr>)" using ct_starts by (simp add: sess_ok_def)
  then have "sess_ok (p\<lparr>ct_symbols := symbols, ct_stopping := False, ct_started := True, ct_loads := l\<rparr>)" for l
    by (rule same_session_ok [rotated]) (simp add: same_session_def)
  then show ?case using q sess_rest by (auto simp: ctStart_def Let_def)
next
  case (ct_loaded p us load vs result)
  have "sess_ok (p\<lparr>ct_loads := us @ vs\<rparr>)" by (rule same_session_ok [OF _ ct_loaded(4)]) (simp add: same_session_def)
  then have q: "sess_ok (case result of None \<Rightarrow> p\<lparr>ct_loads := us @ vs\<rparr> | Some next \<Rightarrow> applyConfig next (p\<lparr>ct_loads := us @ vs\<rparr>))"
    using sess_apply by (simp split: option.split)
  have "sess_ok (r\<lparr>ct_configTimer := True\<rparr>)" if "sess_ok r" for r by (rule same_session_ok [OF _ that]) (simp add: same_session_def)
  with q show ?case by (auto simp: loadDone_def Let_def intro: sess_rest)
next
  case (ct_maintained p us force vs result)
  show ?case by (rule same_session_ok [OF _ ct_maintained(4)]) (simp add: same_session_def maintenanceDone_def beginSync_def)
next
  case (ct_polls p)
  show ?case by (rule same_session_ok [OF _ ct_polls(4)]) (simp add: same_session_def beginSync_def)
next
  case (ct_opens s p now)
  have run: "\<not> ct_stopping p" using ct_opens by (auto simp: sess_ok_def)
  have cur: "ct_socket p = Some s" by (rule current_of [OF ct_opens(3,1) run])
  let ?p = "p\<lparr>ct_sockets := setPhase s SocketOpen (ct_sockets p), ct_connected := True, ct_attempt := 0, ct_heartbeat := True\<rparr>"
  have "(s, SocketOpen) \<in> set (setPhase s SocketOpen (ct_sockets p))" using ct_opens(1) by (force simp: setPhase_def)
  then have "sess_ok ?p" using ct_opens(4) cur run by (auto simp: sess_ok_def)
  then show ?case using cur sess_request [of ?p s ApplicationAuth] by (simp add: ctOpened_def Let_def accepted_def sess_rules)
next
  case (ct_closes s p)
  then show ?case by (auto simp: sess_ok_def ctClosed_def Let_def gone_def)
next
  case (ct_reconnects p)
  have "ct_socket p = None" using ct_reconnects by (auto simp: link_ok_def ct_link_def split: if_splits)
  moreover have "sess_ok (p\<lparr>ct_reconnectTimer := False\<rparr>)" by (rule same_session_ok [OF _ ct_reconnects(4)]) (simp add: same_session_def)
  ultimately show ?case by (simp add: reconnectFires_def sess_connect)
next
  case (ct_times_out p i)
  then show ?case by (auto simp: requestTimesOut_def Let_def sess_rules split: option.split CtRequest.split)
next
  case (ct_asks p feedSymbol now)
  have "sess_ok ((snd (nextId now p))\<lparr>ct_pending := AList.update i TrendbarsRequest (ct_pending (snd (nextId now p)))\<rparr>)"
    if "socketReady (snd (nextId now p)) \<noteq> None" for i
  proof -
    have ok: "sess_ok (snd (nextId now p))" using ct_asks(3) by (rule sess_nextId)
    then have "\<not> ct_stopping (snd (nextId now p))" using that by (auto simp: sess_ok_def socketReady_def)
    then show ?thesis using ok by (auto simp: sess_ok_def dest!: in_update) 
  qed
  then show ?case using ct_asks(3) sess_nextId [OF ct_asks(3), of now] by (auto simp: getBars_def split_beta Let_def)
qed (use sess_stop sess_frame sess_maintenance in blast)+

section \<open>Runs of a provider\<close>

lemma ct_run:
  "ct_step\<^sup>*\<^sup>* p p' \<Longrightarrow> p = newCTraderProvider cfg loader maintain \<Longrightarrow> ct_inv p' \<and> link_ok (ct_link p') \<and> sess_ok p'"
proof (induction rule: rtranclp_induct)
  case base
  then show ?case using ct.connection_ok [of p p] by (auto simp: newCTraderProvider_def sess_ok_def orderly_def)
next
  case (step q r)
  have "ct_step\<^sup>*\<^sup>* p r" using step.hyps by simp
  then show ?case using ct.connection_ok [of p r] step sess_step by blast
qed

text \<open>At most one socket; while the provider is wanted, that socket or the timer that makes the next one, and after
  \<open>stop\<close> neither.\<close>

definition one_link :: "Sockets \<Rightarrow> nat option \<Rightarrow> bool \<Rightarrow> bool \<Rightarrow> bool \<Rightarrow> bool" where
  "one_link socks cur timer stopped wanted \<longleftrightarrow> length socks \<le> 1
     \<and> (wanted \<and> \<not> stopped \<longrightarrow> (cur = None \<and> socks = [] \<and> timer) \<or> (map fst socks = (case cur of Some s \<Rightarrow> [s] | None \<Rightarrow> []) \<and> cur \<noteq> None \<and> \<not> timer))
     \<and> (stopped \<longrightarrow> cur = None \<and> \<not> timer)"

lemma link_one: "link_ok l \<Longrightarrow> map fst socks = lk_sockets l \<Longrightarrow> lk_wanted l = w \<Longrightarrow> one_link socks (lk_current l) (lk_timer l) (lk_stopped l) w"
  using length_map [of fst socks] by (auto simp: one_link_def link_ok_def split: if_splits option.splits)

text \<open>C28: Whatever the server, the clock and the operator do, a market data provider never holds two sockets; while it
  has credentials and symbols and is not stopped it holds its socket or a timer that will open the next one, never
  neither; after \<open>stop\<close> it never connects again by itself.\<close>

theorem providers_connect_once:
  assumes "bn_step\<^sup>*\<^sup>* newBinanceProvider b" "tm_step\<^sup>*\<^sup>* (newTraderMadeProvider key url) t" "ct_step\<^sup>*\<^sup>* (newCTraderProvider cfg loader maintain) c"
  shows "one_link (bn_sockets b) (bn_socket b) (bn_reconnectTimer b) (bn_stopping b) (bn_started b \<and> bn_symbols b \<noteq> [])
     \<and> one_link (tm_sockets t) (tm_socket t) (tm_reconnectTimer t) (tm_stopping t) (tm_started t \<and> tm_symbols t \<noteq> [] \<and> hasKey t)
     \<and> one_link (ct_sockets c) (ct_socket c) (ct_reconnectTimer c) (ct_stopping c)
         (ct_started c \<and> ct_symbols c \<noteq> [] \<and> StartLoad \<notin> set (ct_loads c) \<and> ct_cfg c \<noteq> None)"
proof (intro conjI)
  have "link_ok (bn_link b)" using bn.connection_ok [OF assms(1)] by simp
  from link_one [OF this, of "bn_sockets b"] show "one_link (bn_sockets b) (bn_socket b) (bn_reconnectTimer b) (bn_stopping b) (bn_started b \<and> bn_symbols b \<noteq> [])"
    by (simp add: bn_link_def)
  have "link_ok (tm_link t)" using tm.connection_ok [OF assms(2)] by blast
  from link_one [OF this, of "tm_sockets t"]
  show "one_link (tm_sockets t) (tm_socket t) (tm_reconnectTimer t) (tm_stopping t) (tm_started t \<and> tm_symbols t \<noteq> [] \<and> hasKey t)" by (simp add: tm_link_def)
  have "link_ok (ct_link c)" using ct.connection_ok [OF assms(3)] by blast
  from link_one [OF this, of "ct_sockets c"]
  show "one_link (ct_sockets c) (ct_socket c) (ct_reconnectTimer c) (ct_stopping c) (ct_started c \<and> ct_symbols c \<noteq> [] \<and> StartLoad \<notin> set (ct_loads c) \<and> ct_cfg c \<noteq> None)"
    by (simp add: ct_link_def asleep_def conj_ac)
qed

text \<open>A session of cTrader: the socket opens, the application and then the account are accepted.\<close>

definition ct_answer :: "string \<Rightarrow> Json option" where
  "ct_answer i = Some (JObj [(''clientMsgId'', JStr i), (''payloadType'', JNum (Fin 2101)), (''payload'', JObj [])])"

definition ct_dialled :: CTraderProvider where
  "ct_dialled = ctStart [\<lparr>fs_symbol = ''EURUSD'', fs_feedSymbol = ''EUR/USD'', fs_digits = 5\<rparr>] (newCTraderProvider
     (Some \<lparr>cf_clientId = ''id'', cf_clientSecret = ''secret'', cf_accessToken = ''token'', cf_accountId = Fin 7, cf_host = None\<rparr>) False False)"

definition ct_asked :: CTraderProvider where "ct_asked = ctOpened 0 0 ct_dialled"
definition ct_known :: CTraderProvider where "ct_known = fst (handleFrame (ct_answer ''mfx-0-1'') 0 ct_asked)"
definition ct_signedIn :: CTraderProvider where "ct_signedIn = fst (handleFrame (ct_answer ''mfx-0-2'') 0 ct_known)"


lemma ct_sample:
  "(0, SocketConnecting) \<in> set (ct_sockets ct_dialled)" "ct_sockets ct_asked = [(0, SocketOpen)]" "ct_sockets ct_known = [(0, SocketOpen)]"
  "ct_pending ct_asked = [(''mfx-0-1'', SetupRequest ApplicationAuth 0)]" "ct_pending ct_known = [(''mfx-0-2'', SetupRequest AccountAuth 0)]"
  "ct_log ct_signedIn = [SentStep 0 ApplicationAuth, AcceptedStep 0 ApplicationAuth, SentStep 0 AccountAuth, AcceptedStep 0 AccountAuth, SentStep 0 SymbolsList]"
  "fh_connected (ctHealth ct_signedIn)"
  by code_simp+

lemma ct_answer_own: "ct_pending p = [(i, SetupRequest step 0)] \<Longrightarrow> answersOwn (ct_answer i) 0 p"
  by (auto simp: answersOwn_def ct_answer_def decodeEnvelope_def toInt_def)

definition ct_new :: CTraderProvider where
  "ct_new = newCTraderProvider (Some \<lparr>cf_clientId = ''id'', cf_clientSecret = ''secret'', cf_accessToken = ''token'', cf_accountId = Fin 7, cf_host = None\<rparr>) False False"

lemma ct_sample_run: "ct_step\<^sup>*\<^sup>* ct_new ct_signedIn"
proof -
  have "ct_step ct_new ct_dialled" unfolding ct_dialled_def ct_new_def [symmetric] by (rule ct_starts) (simp add: ct_new_def newCTraderProvider_def)
  moreover have "ct_step ct_dialled ct_asked" unfolding ct_asked_def by (rule ct_opens) (rule ct_sample)
  moreover have "ct_step ct_asked ct_known" unfolding ct_known_def
    by (rule ct_reads [where s = 0 and ph = SocketOpen]) (simp_all add: ct_sample ct_answer_own)
  moreover have "ct_step ct_known ct_signedIn" unfolding ct_signedIn_def
    by (rule ct_reads [where s = 0 and ph = SocketOpen]) (simp_all add: ct_sample ct_answer_own)
  ultimately show ?thesis by (meson converse_rtranclp_into_rtranclp rtranclp.rtrancl_refl)
qed

theorem providers_connect_once_witness:
  "one_link (ct_sockets ct_signedIn) (ct_socket ct_signedIn) (ct_reconnectTimer ct_signedIn) (ct_stopping ct_signedIn)
     (ct_started ct_signedIn \<and> ct_symbols ct_signedIn \<noteq> [] \<and> StartLoad \<notin> set (ct_loads ct_signedIn) \<and> ct_cfg ct_signedIn \<noteq> None) \<and> ct_socket ct_signedIn = Some 0"
proof -
  have "ct_socket ct_signedIn = Some 0" by code_simp
  then show ?thesis
    using providers_connect_once [OF rtranclp.rtrancl_refl rtranclp.rtrancl_refl ct_sample_run [unfolded ct_new_def], where key = None and url = "[]"] by simp
qed

text \<open>C29: cTrader is reported connected only while its socket exists and both the application and the account were
  accepted on it, and on no socket is a request of the session sent before all the steps that precede it were accepted
  there; a provider that was stopped holds no request and no live socket.\<close>

theorem ctrader_session:
  assumes "ct_step\<^sup>*\<^sup>* (newCTraderProvider cfg loader maintain) p"
  shows "(fh_connected (ctHealth p) \<longrightarrow> (\<exists>s ph. ct_socket p = Some s \<and> (s, ph) \<in> set (ct_sockets p) \<and> ph \<noteq> SocketConnecting
       \<and> AcceptedStep s ApplicationAuth \<in> set (ct_log p) \<and> AcceptedStep s AccountAuth \<in> set (ct_log p)))
     \<and> (\<forall>pre s step post k. ct_log p = pre @ SentStep s step # post \<longrightarrow> k \<in> set (earlier step) \<longrightarrow> AcceptedStep s k \<in> set pre)
     \<and> (ct_stopping p \<longrightarrow> ct_pending p = [] \<and> (\<forall>x\<in>set (ct_sockets p). snd x = SocketClosing))"
proof (intro conjI)
  have ok: "sess_ok p" using ct_run [OF assms] by blast
  then show "\<forall>pre s step post k. ct_log p = pre @ SentStep s step # post \<longrightarrow> k \<in> set (earlier step) \<longrightarrow> AcceptedStep s k \<in> set pre"
    by (simp add: sess_ok_def orderly_def accepted_def)
  show "fh_connected (ctHealth p) \<longrightarrow> (\<exists>s ph. ct_socket p = Some s \<and> (s, ph) \<in> set (ct_sockets p) \<and> ph \<noteq> SocketConnecting
       \<and> AcceptedStep s ApplicationAuth \<in> set (ct_log p) \<and> AcceptedStep s AccountAuth \<in> set (ct_log p))"
    using ok by (auto simp: sess_ok_def ctHealth_def healthOf_def)
  show "ct_stopping p \<longrightarrow> ct_pending p = [] \<and> (\<forall>x\<in>set (ct_sockets p). snd x = SocketClosing)" using ok by (simp add: sess_ok_def)
qed

theorem ctrader_session_witness:
  "AcceptedStep 0 AccountAuth \<in> set (ct_log ct_signedIn) \<and> AcceptedStep 0 ApplicationAuth \<in> set [SentStep 0 ApplicationAuth, AcceptedStep 0 ApplicationAuth]"
proof -
  note sess = ctrader_session [OF ct_sample_run [unfolded ct_new_def]]
  have "ct_socket ct_signedIn = Some 0" by code_simp
  then have "AcceptedStep 0 AccountAuth \<in> set (ct_log ct_signedIn)" using sess ct_sample(7) by auto
  moreover have "ct_log ct_signedIn = [SentStep 0 ApplicationAuth, AcceptedStep 0 ApplicationAuth] @ SentStep 0 AccountAuth # [AcceptedStep 0 AccountAuth, SentStep 0 SymbolsList]"
    by (simp add: ct_sample)
  moreover have "ApplicationAuth \<in> set (earlier AccountAuth)" by simp
  ultimately show ?thesis using sess by blast
qed

section \<open>Quotes\<close>

text \<open>What a quote should be: of each side the last price that a spot event of the symbol carried.\<close>

definition lastSide :: "string \<Rightarrow> number \<Rightarrow> (string \<times> Json) list list \<Rightarrow> number option" where
  "lastSide side i events = (case List.map_filter (\<lambda>e. if toInt (map_of e ''symbolId'') = Some i then map_option (\<lambda>x. x / CTRADER_PRICE_SCALE) (toInt (map_of e side)) else None) (rev events) of
     [] \<Rightarrow> None | x # _ \<Rightarrow> Some x)"

definition feedSpots :: "(number \<times> FeedSymbol) list \<Rightarrow> ((string \<times> Json) list \<times> int) list \<Rightarrow> QuoteCache" where
  "feedSpots symbols events = foldl (\<lambda>cache (e, now). snd (decodeSpotEvent e symbols now cache)) (\<lambda>_. (None, None)) events"

lemma lastSide_snoc: "lastSide side i (events @ [e]) =
  (if toInt (map_of e ''symbolId'') = Some i \<and> toInt (map_of e side) \<noteq> None then map_option (\<lambda>x. x / CTRADER_PRICE_SCALE) (toInt (map_of e side)) else lastSide side i events)"
  by (auto simp: lastSide_def List.map_filter_simps split: option.splits)

lemma cache_is_last: "map_of symbols i \<noteq> None \<Longrightarrow> feedSpots symbols events i = (lastSide ''bid'' i (map fst events), lastSide ''ask'' i (map fst events))"
proof (induction events rule: rev_induct)
  case Nil
  then show ?case by (simp add: feedSpots_def lastSide_def List.map_filter_simps)
next
  case (snoc x events)
  have "feedSpots symbols (events @ [x]) i = snd (decodeSpotEvent (fst x) symbols (snd x) (feedSpots symbols events)) i" by (simp add: feedSpots_def split_beta)
  also have "\<dots> = (lastSide ''bid'' i (map fst events @ [fst x]), lastSide ''ask'' i (map fst events @ [fst x]))"
    using snoc by (auto simp: decodeSpotEvent_def lastSide_snoc Let_def split: option.split)
  finally show ?case by simp
qed

text \<open>A spot event of cTrader carries the sides that changed; the tick it makes has the last bid and the last ask
  that any event of the symbol carried since the session began, rounded to the symbol's digits, and there is no tick
  before both sides were seen.\<close>

theorem spot_quotes_are_latest:
  assumes "toInt (map_of e ''symbolId'') = Some i" "map_of symbols i = Some s"
  shows "map_option (\<lambda>t. (tk_symbol t, bid t, ask t)) (fst (decodeSpotEvent e symbols now (feedSpots symbols events)))
     = (case (lastSide ''bid'' i (map fst events @ [e]), lastSide ''ask'' i (map fst events @ [e])) of
         (Some b, Some a) \<Rightarrow> Some (fs_symbol s, roundPrice b (fs_digits s), roundPrice a (fs_digits s))
       | _ \<Rightarrow> None)"
  using assms cache_is_last [of symbols i events] by (auto simp: decodeSpotEvent_def lastSide_snoc Let_def split: option.split)

definition gold :: FeedSymbol where
  "gold = \<lparr>fs_symbol = ''XAUUSD'', fs_feedSymbol = ''XAU/USD'', fs_digits = 0\<rparr>"

theorem spot_quotes_are_latest_witness:
  "map_option (\<lambda>t. (tk_symbol t, bid t, ask t)) (fst (decodeSpotEvent [(''symbolId'', JNum (Fin 1)), (''ask'', JNum (Fin 200100000))] [(Fin 1, gold)] 0
      (feedSpots [(Fin 1, gold)] [([(''symbolId'', JNum (Fin 1)), (''bid'', JNum (Fin 200000000))], 0)]))) = Some (''XAUUSD'', Fin 2000, Fin 2001)"
  (is "?tick = _")
proof -
  let ?e = "[(''symbolId'', JNum (Fin 1)), (''ask'', JNum (Fin 200100000))]"
  let ?h = "[([(''symbolId'', JNum (Fin 1)), (''bid'', JNum (Fin 200000000))], 0 :: int)]"
  have side: "lastSide ''bid'' (Fin 1) (map fst ?h @ [?e]) = Some (Fin 2000)" "lastSide ''ask'' (Fin 1) (map fst ?h @ [?e]) = Some (Fin 2001)"
    by (simp_all add: lastSide_def List.map_filter_simps toInt_def CTRADER_PRICE_SCALE_def)
  have "?tick = (case (lastSide ''bid'' (Fin 1) (map fst ?h @ [?e]), lastSide ''ask'' (Fin 1) (map fst ?h @ [?e])) of
         (Some b, Some a) \<Rightarrow> Some (fs_symbol gold, roundPrice b (fs_digits gold), roundPrice a (fs_digits gold)) | _ \<Rightarrow> None)"
    by (rule spot_quotes_are_latest) (simp_all add: toInt_def)
  then show ?thesis unfolding side by (simp add: gold_def roundPrice_def pow10_def)
qed

text \<open>Two instruments that name the same symbol of the broker: the first is neither quoted nor reported missing.\<close>

lemma shared_feed_symbol_is_lost:
  "matchSymbols [\<lparr>ls_symbolId = Fin 1, ls_symbolName = ''EURUSD'', ls_enabled = None\<rparr>]
     [\<lparr>fs_symbol = ''EURUSD'', fs_feedSymbol = ''EUR/USD'', fs_digits = 5\<rparr>, \<lparr>fs_symbol = ''EURUSD.m'', fs_feedSymbol = ''EUR/USD'', fs_digits = 3\<rparr>]
   = ([(Fin 1, \<lparr>fs_symbol = ''EURUSD.m'', fs_feedSymbol = ''EUR/USD'', fs_digits = 3\<rparr>)], [])"
  by code_simp

text \<open>A provider that is stopped while it awaits its credentials sets its two intervals afterwards.\<close>

lemma stop_during_start_leaves_intervals:
  "(let p = loadDone StartLoad None (ctStop (ctStart [\<lparr>fs_symbol = ''EURUSD'', fs_feedSymbol = ''EUR/USD'', fs_digits = 5\<rparr>] (newCTraderProvider None True True)))
    in ct_stopping p \<and> ct_configTimer p \<and> ct_tokenTimer p)"
  by code_simp

end
