(* ===== verification/AccountViews.thy ===== *)
theory AccountViews
  imports EngineState Payouts
begin

text \<open>
  The account state that pages render from the database (\<open>src/lib/services/accountState.ts\<close>), in the shape the
  worker streams. \<open>orderBy\<close> is a stable sort of the rows. Frozen rules are total, so the defaults for missing fields of
  old snapshots do not occur.
\<close>

definition ACCOUNT_CURRENCY :: string where "ACCOUNT_CURRENCY = ''ETB''"

definition TRADABLE_STATUSES :: "AccountStatus list" where "TRADABLE_STATUSES = [ACTIVE, FUNDED]"

record AccountRules =
  ar_weekendHoldingAllowed :: bool
  ar_overnightHoldingAllowed :: bool
  ar_newsTradingAllowed :: bool
  ar_consistencyLimitPercent :: "number option"

record AccountMeta =
  am_id :: nat
  am_name :: string
  am_phase :: TemplatePhase
  am_status :: AccountStatus
  am_startingBalance :: number
  am_leverage :: number
  am_createdAt :: int
  am_expiresAt :: "int option"
  am_failureReason :: "FailureReason option"
  am_tradable :: bool
  am_rules :: AccountRules

record AccountStateEntry =
  en_meta :: AccountMeta
  en_state :: AccountState
  en_consistency :: "ConsistencyResult option"

definition toPositionInfo :: "Position \<Rightarrow> PositionInfo" where
  "toPositionInfo p =
     \<lparr>pi_id = pos_id p, pi_accountId = pos_accountId p, pi_symbol = pos_symbol p, pi_side = pos_side p, pi_volume = pos_volume p,
      pi_entryPrice = pos_entryPrice p, pi_currentPrice = pos_currentPrice p, pi_stopLoss = pos_stopLoss p,
      pi_takeProfit = pos_takeProfit p, pi_floatingPnl = pos_floatingPnl p, pi_marginUsed = pos_marginUsed p,
      pi_openedAt = pos_openedAt p\<rparr>"

definition rulesOf :: "TemplateRules \<Rightarrow> AccountRules" where
  "rulesOf snap =
     \<lparr>ar_weekendHoldingAllowed = tpl_weekendHoldingAllowed snap, ar_overnightHoldingAllowed = tpl_overnightHoldingAllowed snap,
      ar_newsTradingAllowed = tpl_newsTradingAllowed snap,
      ar_consistencyLimitPercent = (case tpl_consistencyRequirement snap of Some l \<Rightarrow> if l > lit 0 then Some l else None | None \<Rightarrow> None)\<rparr>"

definition toAccountMeta :: "TradingAccount \<Rightarrow> AccountMeta" where
  "toAccountMeta row =
     (let snap = rules (acc_snapshot row)
      in \<lparr>am_id = acc_id row, am_name = tpl_name snap, am_phase = acc_phase row, am_status = acc_status row,
          am_startingBalance = acc_startingBalance row,
          am_leverage = (if truthy (tpl_leverage snap) \<and> tpl_leverage snap > lit 0 then tpl_leverage snap else lit 100),
          am_createdAt = acc_createdAt row, am_expiresAt = acc_expiresAt row, am_failureReason = acc_failureReason row,
          am_tradable = (acc_status row \<in> set TRADABLE_STATUSES), am_rules = rulesOf snap\<rparr>)"

definition consistencyForRow :: "TradingAccount \<Rightarrow> db \<Rightarrow> ConsistencyResult option" where
  "consistencyForRow row d =
     (if ar_consistencyLimitPercent (rulesOf (rules (acc_snapshot row))) = None then None else Some (computeConsistency row d))"

definition openPositions :: "nat \<Rightarrow> db \<Rightarrow> Position list" where
  "openPositions accountId d = sort_key pos_openedAt (filter (\<lambda>p. pos_accountId p = accountId \<and> pos_status p = POS_OPEN) (positions_t d))"

definition stateForRow :: "TradingAccount \<Rightarrow> db \<Rightarrow> AccountState" where
  "stateForRow row d =
     (let snap = rules (acc_snapshot row);
          metrics = computeAccountMetricsFromDb row d;
          opened = openPositions (acc_id row) d;
          equity = m_equity metrics;
          marginUsed = roundCurrency (js_sum (map pos_marginUsed opened));
          dailyAnchor = roundCurrency (acc_dailyAnchorBalance row);
          rawFloor = maxDrawdownFloor (acc_startingBalance row) (acc_highWaterMark row) (tpl_maxDrawdown snap) (tpl_drawdownMode snap);
          drawdownFloor = (if isFinite rawFloor then rawFloor else lit 0);
          profitTarget = (case tpl_profitTarget snap of
             Some t \<Rightarrow> if t > lit 0 then Some (roundCurrency (acc_startingBalance row * (t / lit 100))) else None
           | None \<Rightarrow> None)
      in \<lparr>as_accountId = acc_id row, as_status = acc_status row, as_currency = ACCOUNT_CURRENCY,
          as_balance = m_balance metrics, as_equity = equity, as_marginUsed = marginUsed, as_freeMargin = roundCurrency (equity - marginUsed),
          as_realizedPnl = m_realizedPnl metrics, as_floatingPnl = m_unrealizedPnl metrics, as_dailyAnchor = dailyAnchor,
          as_dailyLossUsed = Math_max (lit 0) (roundCurrency (dailyAnchor - equity)),
          as_dailyLossLimit = roundCurrency (dailyAnchor * (tpl_dailyDrawdown snap / lit 100)),
          as_drawdownFloor = drawdownFloor, as_drawdownRemaining = roundCurrency (equity - drawdownFloor),
          as_profitTarget = profitTarget,
          as_profitProgress = (case profitTarget of
             Some t \<Rightarrow> if truthy t then Some (Math_min (lit 100) (Math_max (lit 0) (m_realizedPnl metrics / t * lit 100))) else None
           | None \<Rightarrow> None),
          as_tradingDays = m_tradingDays metrics, as_minTradingDays = tpl_minTradingDays snap, as_positions = map toPositionInfo opened\<rparr>)"

definition computeAccountState :: "nat \<Rightarrow> db \<Rightarrow> AccountState option" where
  "computeAccountState accountId d = map_option (\<lambda>row. stateForRow row d) (accountRow accountId d)"

definition entryForRow :: "TradingAccount \<Rightarrow> db \<Rightarrow> AccountStateEntry" where
  "entryForRow row d = \<lparr>en_meta = toAccountMeta row, en_state = stateForRow row d, en_consistency = consistencyForRow row d\<rparr>"

definition getAccountStateEntry :: "nat \<Rightarrow> db \<Rightarrow> AccountStateEntry option" where
  "getAccountStateEntry accountId d = map_option (\<lambda>row. entryForRow row d) (accountRow accountId d)"

definition listUserAccountStates :: "nat \<Rightarrow> db \<Rightarrow> AccountStateEntry list" where
  "listUserAccountStates userId d = map (\<lambda>row. entryForRow row d) (sort_key (\<lambda>row. - acc_createdAt row) (filter (\<lambda>row. acc_userId row = userId) (accounts_t d)))"

definition listTradableAccounts :: "nat \<Rightarrow> db \<Rightarrow> AccountMeta list" where
  "listTradableAccounts userId d = map toAccountMeta (sort_key (\<lambda>row. - acc_createdAt row)
     (filter (\<lambda>row. acc_userId row = userId \<and> acc_status row \<in> set TRADABLE_STATUSES) (accounts_t d)))"

definition listOpenPositions :: "nat \<Rightarrow> db \<Rightarrow> PositionInfo list" where
  "listOpenPositions accountId d = map toPositionInfo (openPositions accountId d)"

record ClosedTradeInfo =
  cti_id :: nat
  cti_symbol :: string
  cti_side :: Side
  cti_volume :: number
  cti_entryPrice :: number
  cti_exitPrice :: "number option"
  cti_netProfit :: number
  cti_closeReason :: "CloseReason option"
  cti_closeTime :: int

record ClosedTrades =
  cl_since :: int
  cl_count :: nat
  cl_wins :: nat
  cl_losses :: nat
  cl_netPnl :: number
  cl_items :: "ClosedTradeInfo list"

definition toClosedTrade :: "int \<Rightarrow> Trade \<Rightarrow> ClosedTradeInfo" where
  "toClosedTrade now t =
     \<lparr>cti_id = trd_id t, cti_symbol = trd_symbol t, cti_side = trd_side t, cti_volume = trd_volume t, cti_entryPrice = trd_entryPrice t,
      cti_exitPrice = trd_exitPrice t, cti_netProfit = trd_netProfit t, cti_closeReason = trd_closeReason t,
      cti_closeTime = (case trd_closeTime t of Some c \<Rightarrow> c | None \<Rightarrow> now)\<rparr>"

definition closedSince :: "nat \<Rightarrow> int \<Rightarrow> Trade \<Rightarrow> bool" where
  "closedSince accountId since t \<longleftrightarrow> trd_accountId t = accountId \<and> trd_status t = TRD_CLOSED \<and> trd_archivedAt t = None
     \<and> (case trd_closeTime t of Some c \<Rightarrow> c \<ge> since | None \<Rightarrow> False)"

definition listClosedTradesSince :: "nat \<Rightarrow> int \<Rightarrow> int \<Rightarrow> db \<Rightarrow> ClosedTrades" where
  "listClosedTradesSince accountId since now d =
     (let rows = take 100 (sort_key (\<lambda>t. - (case trd_closeTime t of Some c \<Rightarrow> c | None \<Rightarrow> 0)) (filter (closedSince accountId since) (trades_t d)));
          items = map (toClosedTrade now) rows
      in \<lparr>cl_since = since, cl_count = length items, cl_wins = length (filter (\<lambda>t. cti_netProfit t > lit 0) items),
          cl_losses = length (filter (\<lambda>t. cti_netProfit t < lit 0) items), cl_netPnl = roundCurrency (js_sum (map cti_netProfit items)),
          cl_items = items\<rparr>)"

end
