(* ===== verification/AccountViewProofs.thy ===== *)
theory AccountViewProofs
  imports AccountViews EngineOps "HOL-Library.Multiset"
begin

text \<open>
  The account state of the pages against the one the worker streams: for an account whose row mirrors the object of the
  engine they are the same record, to the cent; and a payout, which only the row knows, makes them differ.
\<close>

section \<open>An object and its row\<close>

text \<open>The engine has saved the object: the columns, and the marks of the positions.\<close>

definition mirrors :: "db \<Rightarrow> TradingAccount \<Rightarrow> EngineAccount \<Rightarrow> bool" where
  "mirrors d row a \<longleftrightarrow> ea_id a = acc_id row \<and> ea_status a = acc_status row \<and> ea_snapshot a = acc_snapshot row
     \<and> ea_startingBalance a = acc_startingBalance row \<and> ea_highWaterMark a = acc_highWaterMark row
     \<and> ea_dailyAnchorBalance a = acc_dailyAnchorBalance row
     \<and> ea_tradingDays a = countTradingDays (acc_id row) (parseResetTime (tpl_dailyLossResetTime (rules (acc_snapshot row)))) d
     \<and> map positionInfo (ea_positions a) = listOpenPositions (acc_id row) d
     \<and> ea_floating a = roundCurrency (js_sum (map ep_floatingPnl (ea_positions a)))
     \<and> ea_marginUsed a = roundCurrency (js_sum (map ep_marginUsed (ea_positions a)))
     \<and> ea_equity a = roundCurrency (ea_balance a + ea_floating a)"

text \<open>Amounts in whole cents, few and small enough for an exact sum.\<close>

definition in_cents :: "number list \<Rightarrow> int list \<Rightarrow> bool" where
  "in_cents xs ns \<longleftrightarrow> xs = map cents ns \<and> (\<Sum>n\<leftarrow>ns. \<bar>n\<bar>) \<le> 2 ^ 37 \<and> length ns \<le> 2048"

lemma in_cents_sum: "in_cents xs ns \<Longrightarrow> roundCurrency (js_sum xs) = cents (sum_list ns)"
  by (simp add: in_cents_def roundCurrency_sum)

lemma in_cents_small: "in_cents xs ns \<Longrightarrow> \<bar>sum_list ns\<bar> \<le> 2 ^ 37"
  using sum_list_abs_le [of ns] by (simp add: in_cents_def)

lemma mset_map_inverse: "mset ys = mset (map f ns) \<Longrightarrow> \<exists>ms. ys = map f ms \<and> mset ms = mset ns"
proof (induction ys arbitrary: ns)
  case (Cons y ys)
  then have "y \<in> set (map f ns)" by (metis list.set_intros(1) set_mset_mset)
  then obtain n us vs where n: "f n = y" "ns = us @ n # vs" by (metis image_iff list.set_map split_list)
  then have "mset ys = mset (map f (us @ vs))" using Cons.prems by simp
  then obtain ms where "ys = map f ms" "mset ms = mset (us @ vs)" using Cons.IH by blast
  then show ?case using n by (intro exI [of _ "n # ms"]) simp
qed simp

lemma in_cents_perm:
  assumes "in_cents xs ns" "mset ys = mset xs"
  shows "roundCurrency (js_sum ys) = cents (sum_list ns)"
proof -
  obtain ms where ms: "ys = map cents ms" "mset ms = mset ns" using assms mset_map_inverse [of ys cents ns] by (auto simp: in_cents_def)
  then have "sum_mset (image_mset abs (mset ms)) = sum_mset (image_mset abs (mset ns))" "sum_mset (mset ms) = sum_mset (mset ns)" "size (mset ms) = size (mset ns)" by simp_all
  then have "(\<Sum>n\<leftarrow>ms. \<bar>n\<bar>) = (\<Sum>n\<leftarrow>ns. \<bar>n\<bar>)" "sum_list ms = sum_list ns" "length ms = length ns"
    by (simp_all flip: mset_map add: sum_mset_sum_list)
  then show ?thesis using in_cents_sum [of ys ms] assms(1) ms(1) by (simp add: in_cents_def)
qed

lemma info_floating: "map ep_floatingPnl ps = map pi_floatingPnl (map positionInfo ps)" "map ep_marginUsed ps = map pi_marginUsed (map positionInfo ps)"
  by (simp_all add: positionInfo_def)

lemma open_floating:
  "map pi_floatingPnl (listOpenPositions i d) = map pos_floatingPnl (openPositions i d)"
  "map pi_marginUsed (listOpenPositions i d) = map pos_marginUsed (openPositions i d)"
  by (simp_all add: listOpenPositions_def toPositionInfo_def)

lemma open_rows: "mset (openPositions i d) = mset (filter (\<lambda>p. pos_accountId p = i \<and> pos_status p = POS_OPEN) (positions_t d))"
  by (simp add: openPositions_def)

lemma js_sum_double: "js_sum xs = Fin v \<Longrightarrow> rnd v = Fin v"
proof (induction xs rule: rev_induct)
  case (snoc x xs)
  then show ?case by (cases "js_sum xs"; cases x) (auto simp: js_sum_snoc plus_number_def intro: Fin_rnd_fixed)
qed simp

lemma zero_plus_sum [simp]: "Fin 0 + js_sum xs = js_sum xs"
  using js_sum_double [of xs] by (cases "js_sum xs") (simp_all add: plus_number_def)

lemma round_max: "x \<noteq> NaN \<Longrightarrow> roundCurrency (Math_max (Fin 0) x) = Math_max (Fin 0) (roundCurrency x)"
proof -
  assume x: "x \<noteq> NaN"
  have 0: "roundCurrency (Fin 0) = Fin 0" using roundCurrency_cents [of 0] by (simp add: cents_def)
  show ?thesis
  proof (cases "Fin 0 < x")
    case True
    then have "Fin 0 \<le> roundCurrency x" by (intro roundCurrency_sign) (rule number_less_imp_le)
    then have "Math_max (Fin 0) (roundCurrency x) = roundCurrency x" "Math_max (Fin 0) x = x"
      using True x by (cases "roundCurrency x"; cases x; auto simp: Math_max_def)+
    then show ?thesis by simp
  next
    case False
    then have "x \<le> Fin 0" using x by (cases x) auto
    then have "roundCurrency x \<le> Fin 0" using roundCurrency_mono [of x "Fin 0"] 0 by simp
    then show ?thesis using 0 False x by (cases "roundCurrency x"; cases x) (auto simp: Math_max_def)
  qed
qed

text \<open>A share of an amount is an amount in cents.\<close>

lemma share_in_cents:
  assumes "0 \<le> k" "k \<le> 2 ^ 37" "Fin 0 \<le> pct" "pct \<le> Fin 100"
  obtains n where "money_ok n" "roundCurrency (cents k * (pct / lit 100)) = cents n" "0 \<le> n"
proof -
  obtain q where q: "pct = Fin q" "0 \<le> q" "q \<le> 100" using assms(3,4) by (cases pct) auto
  have "rnd 0 \<le> rnd (q / 100)" "rnd (q / 100) \<le> rnd 1" using q by (intro rnd_mono; simp)+
  then obtain r where r: "rnd (q / 100) = Fin r" "0 \<le> r" "r \<le> 1" by (cases "rnd (q / 100)") auto
  have "cents 0 \<le> cents k" "cents k \<le> cents (2 ^ 37)" using assms(1,2) by (intro cents_mono; simp)+
  moreover have "cents (2 ^ 37) \<le> rnd (2 ^ 36)" unfolding cents_def by (rule rnd_mono) simp
  moreover have "rnd (2 ^ 36) = Fin (2 ^ 36)" using rnd_of_int [of "2 ^ 36"] by simp
  moreover have "cents 0 = Fin 0" by (simp add: cents_def)
  ultimately have "Fin 0 \<le> cents k" "cents k \<le> Fin (2 ^ 36)" by (metis, metis number_le_trans)
  then obtain c where c: "cents k = Fin c" "0 \<le> c" "c \<le> 2 ^ 36" by (cases "cents k") auto
  have "c * r \<le> c" using c r by (simp add: mult_left_le)
  then have "rnd 0 \<le> rnd (c * r)" "rnd (c * r) \<le> rnd (2 ^ 36)" using c r by (intro rnd_mono; simp)+
  then obtain x where x: "rnd (c * r) = Fin x" "0 \<le> x" "x \<le> 2 ^ 36" using \<open>rnd (2 ^ 36) = Fin (2 ^ 36)\<close> by (cases "rnd (c * r)") auto
  then have "\<bar>x\<bar> \<le> 2 ^ 40" by simp
  then obtain n where n: "money_ok n" "roundCurrency (Fin x) = cents n" "\<bar>x * 100 - of_int n\<bar> \<le> 3 / 4" by (rule roundCurrency_is_cents)
  then have "- 1 < (of_int n :: rat)" using x(2) by linarith
  then have "0 \<le> n" by linarith
  moreover have "cents k * (pct / lit 100) = Fin x" using c q r x by (simp add: times_number_def divide_number_def)
  ultimately show ?thesis using that n by simp
qed

lemma daily_limit:
  assumes "money_ok k" "0 \<le> k" "k \<le> 2 ^ 37" "Fin 0 \<le> pct" "pct \<le> Fin 100"
  shows "(if isFinite (dailyLossFloor (cents k) pct) then roundCurrency (cents k - dailyLossFloor (cents k) pct) else lit 0)
    = roundCurrency (cents k * (pct / lit 100))"
proof -
  obtain n where n: "money_ok n" "roundCurrency (cents k * (pct / lit 100)) = cents n" "0 \<le> n"
    using share_in_cents assms by blast
  have diff: "money_ok (k - n)" using n assms by (simp add: money_ok_def)
  show ?thesis
  proof (cases "n = 0")
    case True
    then show ?thesis using n by (simp add: dailyLossFloor_def cents_def)
  next
    case False
    then have "\<not> cents n \<le> lit 0" using n by (simp add: cents_pos_iff)
    then have "dailyLossFloor (cents k) pct = cents (k - n)" using n assms by (simp add: dailyLossFloor_def roundCurrency_diff)
    moreover have "isFinite (cents (k - n))" using diff by (elim cents_near) simp
    ultimately show ?thesis using n assms diff by (simp add: roundCurrency_diff)
  qed
qed

section \<open>The same state\<close>

text \<open>
  C7: A page that renders an account from the database shows what the worker would stream: when the saved row mirrors
  the object of the engine, no payout was taken and the figures are whole cents, both build the same account state in
  every field but the progress bar, which the engine rounds and the page clamps.
\<close>

theorem pages_show_the_engine_state:
  assumes "mirrors d row a" "tpl_accountCurrency (rules (acc_snapshot row)) = ''ETB''"
    and "acc_startingBalance row = cents s" "\<bar>s\<bar> \<le> 2 ^ 37"
    and "in_cents (map trd_netProfit (filter closed (liveTrades (acc_id row) d))) ns" "filter (\<lambda>t. \<not> closed t) (liveTrades (acc_id row) d) = []"
    and "ea_balance a = cents (s + sum_list ns)" "ea_realizedPnl a = cents (sum_list ns)"
    and "in_cents (map pos_floatingPnl (openPositions (acc_id row) d)) fs" "in_cents (map pos_marginUsed (openPositions (acc_id row) d)) ms"
    and "acc_dailyAnchorBalance row = cents k" "0 \<le> k" "k \<le> 2 ^ 37"
    and "Fin 0 \<le> tpl_dailyDrawdown (rules (acc_snapshot row))" "tpl_dailyDrawdown (rules (acc_snapshot row)) \<le> Fin 100"
  shows "stateForRow row d = (accountState e a)\<lparr>as_profitProgress := as_profitProgress (stateForRow row d)\<rparr>"
proof -
  let ?r = "sum_list ns" and ?f = "sum_list fs" and ?m = "sum_list ms"
  have small: "\<bar>?r\<bar> \<le> 2 ^ 37" "\<bar>?f\<bar> \<le> 2 ^ 37" "\<bar>?m\<bar> \<le> 2 ^ 37" using assms(5,9,10) in_cents_small by blast+
  have ok: "money_ok s" "money_ok ?r" "money_ok (s + ?r)" "money_ok ?f" "money_ok (s + ?r + ?f)" "money_ok ?m" "money_ok k"
    using small assms(4,12,13) by (simp_all add: money_ok_def abs_le_iff)
  have agg: "roundCurrency (ag_realized (aggregateTrades (acc_id row) rt d)) = cents ?r" "ag_unrealizedLegacy (aggregateTrades (acc_id row) rt d) = Fin 0" for rt
    using in_cents_sum [OF assms(5)] assms(6) by (simp_all add: aggregateTrades_def Let_def js_sum_def)
  have "mset (map pos_floatingPnl (filter (\<lambda>p. pos_accountId p = acc_id row \<and> pos_status p = POS_OPEN) (positions_t d))) = mset (map pos_floatingPnl (openPositions (acc_id row) d))"
    by (simp add: open_rows)
  then have "roundCurrency (sumOpenPositionFloating (acc_id row) d) = cents ?f"
    unfolding sumOpenPositionFloating_def by (rule in_cents_perm [OF assms(9)])
  then have unreal: "roundCurrency (Fin 0 + sumOpenPositionFloating (acc_id row) d) = cents ?f" by (simp add: sumOpenPositionFloating_def)
  have engine: "ea_floating a = cents ?f" "ea_marginUsed a = cents ?m" "ea_equity a = cents (s + ?r + ?f)"
    using assms(1,7) in_cents_sum [OF assms(9)] in_cents_sum [OF assms(10)] ok
    by (simp_all add: mirrors_def info_floating open_floating roundCurrency_add del: map_map)
  have page: "m_balance (computeAccountMetricsFromDb row d) = cents (s + ?r)" "m_equity (computeAccountMetricsFromDb row d) = cents (s + ?r + ?f)"
    "m_realizedPnl (computeAccountMetricsFromDb row d) = cents ?r" "m_unrealizedPnl (computeAccountMetricsFromDb row d) = cents ?f"
    using agg unreal ok assms(3) by (simp_all add: computeAccountMetricsFromDb_def Let_def roundCurrency_add)
  have days: "m_tradingDays (computeAccountMetricsFromDb row d) = ea_tradingDays a"
    using assms(1) by (simp add: computeAccountMetricsFromDb_def countTradingDays_def mirrors_def Let_def)
  have margin: "roundCurrency (js_sum (map pos_marginUsed (openPositions (acc_id row) d))) = cents ?m" using assms(10) by (rule in_cents_sum)
  have pos: "map toPositionInfo (openPositions (acc_id row) d) = map positionInfo (ea_positions a)" using assms(1) by (simp add: mirrors_def listOpenPositions_def)
  have ddFloor: "fst (floors a) = maxDrawdownFloor (acc_startingBalance row) (acc_highWaterMark row) (tpl_maxDrawdown (rules (acc_snapshot row))) (tpl_drawdownMode (rules (acc_snapshot row)))"
    using assms(1) by (auto simp: floors_def mirrors_def maxDrawdownFloor_def Let_def split: option.split)
  have dlFloor: "snd (floors a) = dailyLossFloor (cents k) (tpl_dailyDrawdown (rules (acc_snapshot row)))" using assms(1,11) by (simp add: floors_def mirrors_def)
  have limit: "isFinite (dailyLossFloor (cents k) (tpl_dailyDrawdown (rules (acc_snapshot row))))
      \<Longrightarrow> roundCurrency (cents k - dailyLossFloor (cents k) (tpl_dailyDrawdown (rules (acc_snapshot row)))) = roundCurrency (cents k * (tpl_dailyDrawdown (rules (acc_snapshot row)) / lit 100))"
    "\<not> isFinite (dailyLossFloor (cents k) (tpl_dailyDrawdown (rules (acc_snapshot row)))) \<Longrightarrow> roundCurrency (cents k * (tpl_dailyDrawdown (rules (acc_snapshot row)) / lit 100)) = lit 0"
    using daily_limit [OF ok(7) assms(12-15)] by (simp_all split: if_splits)
  have same: "ea_id a = acc_id row" "ea_status a = acc_status row" "ea_snapshot a = acc_snapshot row" "ea_startingBalance a = acc_startingBalance row"
    "ea_dailyAnchorBalance a = cents k"
    using assms(1,11) by (simp_all add: mirrors_def)
  obtain x y where "cents k = Fin x" "cents (s + ?r + ?f) = Fin y" using cents_near [OF ok(7)] cents_near [OF ok(5)] by metis
  then have raw: "cents k - cents (s + ?r + ?f) \<noteq> NaN" by (simp add: minus_number_def uminus_number_def)
  have used: "roundCurrency (Math_max (Fin 0) (cents k - cents (s + ?r + ?f))) = Math_max (Fin 0) (roundCurrency (cents k - cents (s + ?r + ?f)))"
    by (rule round_max [OF raw])
  have remaining: "roundCurrency (cents (s + ?r + ?f) - Fin 0) = cents (s + ?r + ?f)" using roundCurrency_diff [OF ok(5) money_ok_0] by (simp add: cents_def)
  note round = ok [THEN roundCurrency_cents]
  show ?thesis
    by (simp add: stateForRow_def accountState_def Let_def split_beta ACCOUNT_CURRENCY_def targetAmount_def assms(2,7,8,11) same page engine
        days margin pos ddFloor dlFloor limit [unfolded lit_100 lit_numeral] used remaining round del: map_map)
qed

definition viewRow :: TradingAccount where "viewRow = sampleAccount\<lparr>acc_balance := Fin 10120, acc_equity := Fin 10120, acc_highWaterMark := Fin 10120, acc_realizedPnl := Fin 120\<rparr>"

definition viewDb :: db where "viewDb = emptyDb\<lparr>accounts_t := [viewRow], trades_t := [sampleTrade 9 (Fin 120)]\<rparr>"

definition viewAccount :: EngineAccount where "viewAccount = recomputed (newEngineAccount viewRow 0)\<lparr>ea_tradingDays := 1\<rparr>"

lemma view_trades: "liveTrades 7 viewDb = [sampleTrade 9 (Fin 120)]" "openPositions 7 viewDb = []" "acc_id viewRow = 7" "acc_snapshot viewRow = sampleSnapshot"
  by (simp_all add: liveTrades_def viewDb_def sampleTrade_def openPositions_def emptyDb_def viewRow_def sampleAccount_def)

theorem pages_show_the_engine_state_witness:
  "\<forall>e. as_drawdownRemaining (accountState e viewAccount) = as_drawdownRemaining (stateForRow viewRow viewDb) \<and> as_balance (stateForRow viewRow viewDb) = Fin 10120"
proof
  fix e
  have c: "cents 12000 = Fin 120" "cents 1000000 = Fin 10000" "cents 1012000 = Fin 10120" by (simp_all add: cents_def)
  have closed: "AccountMetrics.closed (sampleTrade 9 (Fin 120))" "trd_netProfit (sampleTrade 9 (Fin 120)) = Fin 120" by (simp_all add: AccountMetrics.closed_def sampleTrade_def)
  have days: "countTradingDays 7 rt viewDb = 1" for rt by (simp add: countTradingDays_def aggregateTrades_def Let_def view_trades closed)
  have round: "roundCurrency (Fin 0) = Fin 0" "roundCurrency (Fin 10120) = Fin 10120" by (simp_all add: roundCurrency_def js_eval)
  have fields: "ea_positions viewAccount = []" "ea_floating viewAccount = Fin 0" "ea_marginUsed viewAccount = Fin 0" "ea_equity viewAccount = Fin 10120"
    "ea_balance viewAccount = Fin 10120" "ea_realizedPnl viewAccount = Fin 120" "ea_tradingDays viewAccount = 1"
    by (simp_all add: viewAccount_def recomputed_def newEngineAccount_def viewRow_def Let_def round)
  have m: "mirrors viewDb viewRow viewAccount"
    by (simp add: mirrors_def fields days view_trades listOpenPositions_def)
      (simp add: viewAccount_def recomputed_def newEngineAccount_def viewRow_def sampleAccount_def Let_def round)
  have rules: "rules sampleSnapshot = sampleRules" by (simp add: sampleSnapshot_def)
  note view = pages_show_the_engine_state [OF m, where s = 1000000 and ns = "[12000]" and fs = "[]" and ms = "[]" and k = 1000000 and e = e]
  have "stateForRow viewRow viewDb = (accountState e viewAccount)\<lparr>as_profitProgress := as_profitProgress (stateForRow viewRow viewDb)\<rparr>"
    by (rule view) (simp_all add: view_trades closed c in_cents_def fields rules, simp_all add: viewRow_def sampleAccount_def sampleRules_def sampleTrade_def AccountMetrics.closed_def)
  moreover have "as_balance (accountState e viewAccount) = Fin 10120" using fields round by (simp add: accountState_def Let_def split_beta)
  ultimately show "as_drawdownRemaining (accountState e viewAccount) = as_drawdownRemaining (stateForRow viewRow viewDb) \<and> as_balance (stateForRow viewRow viewDb) = Fin 10120"
    by (metis AccountState.select_convs(4,14) AccountState.surjective AccountState.update_convs(16))
qed

section \<open>What the pages miss\<close>

text \<open>A payout lowers the balance of the row; the page adds up the trades and goes on showing the balance from before.\<close>

lemma payOut_keeps_trades: "payOut before s = Inr s' \<Longrightarrow> trades_t (st_db s') = trades_t (st_db s) \<and> positions_t (st_db s') = positions_t (st_db s)"
proof -
  assume p: "payOut before s = Inr s'"
  have entry: "trades_t (st_db (foldl (\<lambda>x l. recordEntry l x) y ls)) = trades_t (st_db y)" "positions_t (st_db (foldl (\<lambda>x l. recordEntry l x) y ls)) = positions_t (st_db y)" for y ls
    by (induction ls arbitrary: y) (simp_all add: recordEntry_def onDb_def)
  have cert: "issueCertificate t u a i am d = Inr (c, d') \<Longrightarrow> trades_t d' = trades_t d \<and> positions_t d' = positions_t d" for t u a i am d c d'
    by (auto simp: issueCertificate_def Let_def split: sum.splits option.splits)
  show ?thesis using p
    by (auto simp: payOut_def Let_def entry split: option.splits sum.splits dest!: cert) (simp_all add: onDb_def updateAccount_def)
qed

lemma pages_ignore_payouts:
  assumes "payOut before s = Inr s'" "accountRow (pay_accountId before) (st_db s) = Some row"
  shows "as_balance (stateForRow (payoutAccountRow consumed row) (st_db s')) = as_balance (stateForRow row (st_db s))
    \<and> as_equity (stateForRow (payoutAccountRow consumed row) (st_db s')) = as_equity (stateForRow row (st_db s))
    \<and> acc_balance (payoutAccountRow consumed row) = roundCurrency (acc_balance row - consumed)"
  using payOut_keeps_trades [OF assms(1)]
  by (simp add: stateForRow_def Let_def computeAccountMetricsFromDb_def aggregateTrades_def sumOpenPositionFloating_def liveTrades_def payoutAccountRow_def)

end
