(* ===== verification/Leaderboard.thy ===== *)
theory Leaderboard
  imports Commerce AuthDb
begin

text \<open>
  The public ranking of traders (\<open>src/lib/services/leaderboard.ts\<close>). The collation behind \<open>localeCompare\<close> is a
  parameter: \<open>collate a b\<close> for aliases, \<open>collateIds\<close> for the texts of ids. The process-wide cache is a state.
\<close>

datatype LeaderboardPeriod = Days30 | AllTime

definition LEADERBOARD_LIMIT :: nat where "LEADERBOARD_LIMIT = 50"
definition LEADERBOARD_MIN_TRADES :: nat where "LEADERBOARD_MIN_TRADES = 5"
definition CACHE_TTL_MS :: int where "CACHE_TTL_MS = 60000"

record LeaderboardSourceRow =
  lr_userId :: nat
  lr_alias :: string
  lr_accountId :: nat
  lr_phase :: TemplatePhase
  lr_startingBalance :: number
  lr_netProfit :: number
  lr_trades :: nat
  lr_wins :: nat

record LeaderboardEntry =
  le_rank :: nat
  le_userId :: nat
  le_alias :: string
  le_phase :: TemplatePhase
  le_returnPct :: number
  le_trades :: nat
  le_winRate :: number

section \<open>Ranking\<close>

definition numOf :: "nat \<Rightarrow> number" where
  "numOf n = num_of_int (int n)"

definition qualifies :: "nat \<Rightarrow> LeaderboardSourceRow \<Rightarrow> bool" where
  "qualifies minTrades r \<longleftrightarrow> \<not> (lr_trades r < minTrades \<or> \<not> (lr_startingBalance r > lit 0))"

definition entryOf :: "LeaderboardSourceRow \<Rightarrow> LeaderboardEntry" where
  "entryOf r =
     \<lparr>le_rank = 0, le_userId = lr_userId r, le_alias = lr_alias r, le_phase = lr_phase r,
      le_returnPct = Math_round (lr_netProfit r / lr_startingBalance r * lit 10000) / lit 100, le_trades = lr_trades r,
      le_winRate = Math_round (numOf (lr_wins r) / numOf (lr_trades r) * lit 1000) / lit 10\<rparr>"

definition improves :: "LeaderboardEntry \<Rightarrow> LeaderboardEntry \<Rightarrow> bool" where
  "improves e cur \<longleftrightarrow> le_returnPct e > le_returnPct cur \<or> js_eq (le_returnPct e) (le_returnPct cur) \<and> le_trades e > le_trades cur"

definition bestStep :: "nat \<Rightarrow> (nat \<times> LeaderboardEntry) list \<Rightarrow> LeaderboardSourceRow \<Rightarrow> (nat \<times> LeaderboardEntry) list" where
  "bestStep minTrades best r =
     (if \<not> qualifies minTrades r then best
      else if (case map_of best (lr_userId r) of None \<Rightarrow> True | Some cur \<Rightarrow> improves (entryOf r) cur)
      then AList.update (lr_userId r) (entryOf r) best else best)"

text \<open>The comparator of \<open>sort\<close>: the first truthy difference. A stable sort puts the first of two equals first.\<close>

definition compareEntries :: "(string \<Rightarrow> string \<Rightarrow> int) \<Rightarrow> (nat \<Rightarrow> nat \<Rightarrow> int) \<Rightarrow> LeaderboardEntry \<Rightarrow> LeaderboardEntry \<Rightarrow> number" where
  "compareEntries collate collateIds a b =
     (let byReturn = le_returnPct b - le_returnPct a; byTrades = numOf (le_trades b) - numOf (le_trades a);
          byAlias = num_of_int (collate (le_alias a) (le_alias b))
      in if truthy byReturn then byReturn else if truthy byTrades then byTrades else if truthy byAlias then byAlias
         else num_of_int (collateIds (le_userId a) (le_userId b)))"

fun insertBy :: "('a \<Rightarrow> 'a \<Rightarrow> number) \<Rightarrow> 'a \<Rightarrow> 'a list \<Rightarrow> 'a list" where
  "insertBy cmp x [] = [x]"
| "insertBy cmp x (y # ys) = (if cmp x y > Fin 0 then y # insertBy cmp x ys else x # y # ys)"

definition sortBy :: "('a \<Rightarrow> 'a \<Rightarrow> number) \<Rightarrow> 'a list \<Rightarrow> 'a list" where
  "sortBy cmp xs = foldr (insertBy cmp) xs []"

text \<open>\<open>prev\<close> is the entry before, already ranked, and \<open>i\<close> the index of the next one.\<close>

fun assignRanks :: "nat \<Rightarrow> LeaderboardEntry option \<Rightarrow> LeaderboardEntry list \<Rightarrow> LeaderboardEntry list" where
  "assignRanks i prev [] = []"
| "assignRanks i prev (e # es) =
     (let e1 = e\<lparr>le_rank := (case prev of Some p \<Rightarrow> if js_eq (le_returnPct e) (le_returnPct p) then le_rank p else i + 1 | None \<Rightarrow> i + 1)\<rparr>
      in e1 # assignRanks (i + 1) (Some e1) es)"

definition rankLeaderboard :: "(string \<Rightarrow> string \<Rightarrow> int) \<Rightarrow> (nat \<Rightarrow> nat \<Rightarrow> int) \<Rightarrow> nat \<Rightarrow> LeaderboardSourceRow list \<Rightarrow> LeaderboardEntry list" where
  "rankLeaderboard collate collateIds minTrades rows =
     assignRanks 0 None (sortBy (compareEntries collate collateIds) (map snd (foldl (bestStep minTrades) [] rows)))"

section \<open>The source rows\<close>

text \<open>The columns of a user that the ranking reads.\<close>

record Trader = User +
  tr_role :: Role
  tr_leaderboardOptIn :: bool
  tr_publicAlias :: "string option"

definition countedTrades :: "LeaderboardPeriod \<Rightarrow> int \<Rightarrow> nat \<Rightarrow> db \<Rightarrow> Trade list" where
  "countedTrades period now accountId d =
     filter (\<lambda>t. trd_accountId t = accountId \<and> trd_status t = TRD_CLOSED \<and> trd_archivedAt t = None
       \<and> (period = AllTime \<or> (case trd_closeTime t of Some c \<Rightarrow> c \<ge> now - 30 * 86400000 | None \<Rightarrow> False))) (trades_t d)"

definition listedTrader :: "Trader \<Rightarrow> bool" where
  "listedTrader u \<longleftrightarrow> tr_leaderboardOptIn u \<and> tr_publicAlias u \<noteq> None \<and> usr_status u = USER_ACTIVE \<and> tr_role u = TRADER"

definition perAccount :: "LeaderboardPeriod \<Rightarrow> int \<Rightarrow> Trader \<Rightarrow> db \<Rightarrow> LeaderboardSourceRow list" where
  "perAccount period now u d =
     List.map_filter (\<lambda>a. let ts = countedTrades period now (acc_id a) d in
        if acc_userId a = usr_id u \<and> acc_status a \<in> {ACTIVE, PASSED, FUNDED} \<and> acc_startingBalance a > lit 0 \<and> length ts \<ge> LEADERBOARD_MIN_TRADES
        then Some \<lparr>lr_userId = usr_id u, lr_alias = (case tr_publicAlias u of Some al \<Rightarrow> al | None \<Rightarrow> []), lr_accountId = acc_id a, lr_phase = acc_phase a,
          lr_startingBalance = acc_startingBalance a, lr_netProfit = js_sum (map trd_netProfit ts), lr_trades = length ts,
          lr_wins = length (filter (\<lambda>t. trd_netProfit t > Fin 0) ts)\<rparr>
        else None) (accounts_t d)"

text \<open>\<open>DISTINCT ON\<close> the user, ordered by return and trades: the first row of each user.\<close>

definition sqlBetter :: "LeaderboardSourceRow \<Rightarrow> LeaderboardSourceRow \<Rightarrow> bool" where
  "sqlBetter r r' \<longleftrightarrow> lr_netProfit r / lr_startingBalance r > lr_netProfit r' / lr_startingBalance r'
     \<or> lr_netProfit r / lr_startingBalance r = lr_netProfit r' / lr_startingBalance r' \<and> lr_trades r > lr_trades r'"

definition firstRow :: "LeaderboardSourceRow list \<Rightarrow> LeaderboardSourceRow option" where
  "firstRow rows = (case rows of [] \<Rightarrow> None | r # rs \<Rightarrow> Some (foldl (\<lambda>b x. if sqlBetter x b then x else b) r rs))"

definition loadSourceRows :: "LeaderboardPeriod \<Rightarrow> int \<Rightarrow> Trader list \<Rightarrow> db \<Rightarrow> LeaderboardSourceRow list" where
  "loadSourceRows period now users d = List.map_filter (\<lambda>u. firstRow (perAccount period now u d)) (filter listedTrader users)"

section \<open>The cache and the public view\<close>

type_synonym LeaderboardCache = "LeaderboardPeriod \<Rightarrow> (int \<times> LeaderboardEntry list) option"

definition rankedEntries :: "(LeaderboardSourceRow list \<Rightarrow> LeaderboardEntry list) \<Rightarrow> LeaderboardPeriod \<Rightarrow> int \<Rightarrow> Trader list \<Rightarrow> db \<Rightarrow> LeaderboardCache
    \<Rightarrow> LeaderboardEntry list \<times> LeaderboardCache" where
  "rankedEntries ranked period now users d cache =
     (let fresh = (let entries = ranked (loadSourceRows period now users d) in (entries, cache(period \<mapsto> (now, entries)))) in
      case cache period of Some (at1, entries) \<Rightarrow> if now - at1 < CACHE_TTL_MS then (entries, cache) else fresh | None \<Rightarrow> fresh)"

definition invalidateLeaderboardCache :: LeaderboardCache where
  "invalidateLeaderboardCache = (\<lambda>_. None)"

record PublicRow =
  pr_rank :: nat
  pr_alias :: string
  pr_phase :: TemplatePhase
  pr_returnPct :: number
  pr_trades :: nat
  pr_winRate :: number
  pr_isMe :: bool

definition stripEntry :: "nat option \<Rightarrow> LeaderboardEntry \<Rightarrow> PublicRow" where
  "stripEntry viewer e = \<lparr>pr_rank = le_rank e, pr_alias = le_alias e, pr_phase = le_phase e, pr_returnPct = le_returnPct e, pr_trades = le_trades e,
     pr_winRate = le_winRate e, pr_isMe = (viewer = Some (le_userId e))\<rparr>"

definition getLeaderboard :: "LeaderboardEntry list \<Rightarrow> nat option \<Rightarrow> PublicRow list \<times> PublicRow option \<times> nat" where
  "getLeaderboard entries viewer =
     (map (stripEntry viewer) (take LEADERBOARD_LIMIT entries),
      map_option (stripEntry viewer) (Option.bind viewer (\<lambda>v. List.find (\<lambda>e. le_userId e = v) entries)), length entries)"

section \<open>The profile\<close>

fun collapseFrom :: "bool \<Rightarrow> string \<Rightarrow> string" where
  "collapseFrom space [] = []"
| "collapseFrom space (c # cs) =
     (if is_space c then (if space then collapseFrom True cs else CHR '' '' # collapseFrom True cs) else c # collapseFrom False cs)"

definition collapseSpaces :: "string \<Rightarrow> string" where
  "collapseSpaces s = collapseFrom False s"

definition alias_char :: "char \<Rightarrow> bool" where
  "alias_char c \<longleftrightarrow> 65 \<le> code c \<and> code c \<le> 90 \<or> 97 \<le> code c \<and> code c \<le> 122 \<or> is_digit c \<or> c = CHR ''_'' \<or> c = CHR '' ''"

definition ALIAS_PATTERN :: "string \<Rightarrow> bool" where
  "ALIAS_PATTERN s \<longleftrightarrow> 3 \<le> length s \<and> length s \<le> 20 \<and> (\<forall>c\<in>set s. alias_char c)"

definition normalizeAlias :: "string \<Rightarrow> string option" where
  "normalizeAlias raw = (let al = collapseSpaces (trim raw) in if ALIAS_PATTERN al then Some al else None)"

text \<open>\<open>updateLeaderboardProfile\<close> up to the write: the row as read, the alias to write, and the check that nobody has it.\<close>

definition aliasTaken :: "nat \<Rightarrow> string \<Rightarrow> Trader list \<Rightarrow> bool" where
  "aliasTaken userId al users = list_ex (\<lambda>u. usr_id u \<noteq> userId \<and> map_option toLowerCase (tr_publicAlias u) = Some (toLowerCase al)) users"

definition profileChecked :: "nat \<Rightarrow> bool \<Rightarrow> string option \<Rightarrow> Trader list \<Rightarrow> db_error + string option" where
  "profileChecked userId optIn input users =
     (case List.find (\<lambda>u. usr_id u = userId) users of
        None \<Rightarrow> Inl NotFoundError
      | Some cur \<Rightarrow>
         (case (case input of None \<Rightarrow> Some (tr_publicAlias cur) | Some raw \<Rightarrow> map_option Some (normalizeAlias raw)) of
            None \<Rightarrow> Inl (ConflictError ''Alias must be 3-20 letters, digits, spaces or underscores'')
          | Some al \<Rightarrow>
             if optIn \<and> (al = None \<or> al = Some []) then Inl (ConflictError ''Choose an alias to join the leaderboard'')
             else if al \<noteq> None \<and> al \<noteq> Some [] \<and> al \<noteq> tr_publicAlias cur \<and> aliasTaken userId (the al) users then Inl (ConflictError ''This alias is already taken'')
             else Inr al))"

definition writeProfile :: "nat \<Rightarrow> bool \<Rightarrow> string option \<Rightarrow> Trader list \<Rightarrow> Trader list" where
  "writeProfile userId optIn al users = map (\<lambda>u. if usr_id u = userId then u\<lparr>tr_leaderboardOptIn := optIn, tr_publicAlias := al\<rparr> else u) users"

definition updateLeaderboardProfile :: "nat \<Rightarrow> bool \<Rightarrow> string option \<Rightarrow> Trader list \<Rightarrow> db_error + Trader list" where
  "updateLeaderboardProfile userId optIn input users =
     (case profileChecked userId optIn input users of Inl err \<Rightarrow> Inl err | Inr al \<Rightarrow> Inr (writeProfile userId optIn al users))"

end
