(* ===== verification/LeaderboardProofs.thy ===== *)
theory LeaderboardProofs
  imports Leaderboard
begin

text \<open>
  The ranking is a competition ranking of each trader's best account; aliases stay distinct as long as changes run one
  after the other.
\<close>

section \<open>Returns as hundredths\<close>

text \<open>A return in a sane range is a whole number of hundredths, so that differences tell values apart.\<close>

definition sane_row :: "LeaderboardSourceRow \<Rightarrow> bool" where
  "sane_row r \<longleftrightarrow> (\<exists>s p. lr_startingBalance r = Fin s \<and> 0 < s \<and> lr_netProfit r = Fin p \<and> \<bar>p\<bar> \<le> 2 ^ 30 * s)"

lemma sane_return:
  assumes "sane_row r"
  obtains n where "money_ok n" "le_returnPct (entryOf r) = cents n"
proof -
  obtain s p where sp: "lr_startingBalance r = Fin s" "0 < s" "lr_netProfit r = Fin p" "\<bar>p\<bar> \<le> 2 ^ 30 * s" using assms by (auto simp: sane_row_def)
  have "p / s \<le> 2 ^ 30" "- (2 ^ 30) \<le> p / s" using sp by (simp_all add: pos_divide_le_eq pos_le_divide_eq abs_le_iff)
  then have "rnd (p / s) \<le> rnd (2 ^ 30)" "rnd (- (2 ^ 30)) \<le> rnd (p / s)" by (simp_all only: rnd_mono)
  moreover have pow: "rnd (2 ^ 30) = Fin (2 ^ 30)" "rnd (- (2 ^ 30)) = Fin (- (2 ^ 30))" using rnd_of_int [of "2 ^ 30"] rnd_of_int [of "- (2 ^ 30)"] by simp_all
  ultimately obtain x where x: "rnd (p / s) = Fin x" "- (2 ^ 30) \<le> x" "x \<le> 2 ^ 30" by (cases "rnd (p / s)") auto
  have "rnd (x * 10000) \<le> rnd (10000 * 2 ^ 30)" "rnd (- (10000 * 2 ^ 30)) \<le> rnd (x * 10000)" using x by (intro rnd_mono; simp)+
  moreover have "rnd (10000 * 2 ^ 30) = Fin (10000 * 2 ^ 30)" "rnd (- (10000 * 2 ^ 30)) = Fin (- (10000 * 2 ^ 30))"
    using rnd_of_int [of "10000 * 2 ^ 30"] rnd_of_int [of "- (10000 * 2 ^ 30)"] by simp_all
  ultimately obtain y where y: "rnd (x * 10000) = Fin y" "- (10000 * 2 ^ 30) \<le> y" "y \<le> 10000 * 2 ^ 30" by (cases "rnd (x * 10000)") auto
  let ?n = "\<lfloor>y + 1 / 2\<rfloor>"
  have "\<bar>?n\<bar> \<le> 2 ^ 47" using y(2,3) by (simp add: abs_le_iff) linarith
  then have "money_ok ?n" by (simp add: money_ok_def)
  moreover have "le_returnPct (entryOf r) = cents ?n"
    using sp(1-3) x y by (simp add: entryOf_def cents_def divide_number_def times_number_def)
  ultimately show ?thesis by (rule that)
qed

definition ranked_entry :: "LeaderboardEntry \<Rightarrow> bool" where
  "ranked_entry e \<longleftrightarrow> (\<exists>n. money_ok n \<and> le_returnPct e = cents n)"

lemma diff_sign:
  assumes "money_ok a" "money_ok b"
  shows "(cents a - cents b > Fin 0) = (b < a)" "truthy (cents a - cents b) = (a \<noteq> b)"
proof -
  obtain v where v: "cents a + cents (- b) = Fin v" "\<bar>v - of_int (a + - b) / 100\<bar> \<le> 3 / 2000"
    using assms cents_add_near [of a "- b"] by auto
  have d: "cents a - cents b = Fin v" using v(1) by (simp add: number_diff_eq cents_minus)
  define t :: rat where "t = of_int (a - b)"
  have "\<bar>v - t / 100\<bar> \<le> 3 / 2000" using v(2) by (simp add: t_def)
  then have near: "v - t / 100 \<le> 3 / 2000" "t / 100 - v \<le> 3 / 2000" by linarith+
  have "0 < v" if "b < a"
  proof -
    have "1 \<le> t" using that by (simp add: t_def)
    then show ?thesis using near by linarith
  qed
  moreover have "v < 0" if "a < b"
  proof -
    have "t \<le> - 1" using that by (simp add: t_def)
    then show ?thesis using near by linarith
  qed
  moreover have "v = 0" if "a = b"
  proof -
    obtain c where "cents a = Fin c" using cents_near [OF assms(1)] by blast
    then have "cents a - cents b = Fin 0" using that by (simp add: minus_number_def uminus_number_def)
    then show ?thesis using d by simp
  qed
  ultimately show "(cents a - cents b > Fin 0) = (b < a)" "truthy (cents a - cents b) = (a \<noteq> b)"
    using d by (cases a b rule: linorder_cases; simp add: truthy_def)+
qed

lemma count_sign:
  "(numOf m - numOf n > Fin 0) = (n < m)" "truthy (numOf m - numOf n) = (m \<noteq> n)" if "int m \<le> 2 ^ 50" "int n \<le> 2 ^ 50"
proof -
  have "(2 :: int) ^ 50 \<le> 2 ^ 53" "0 \<le> int m" "0 \<le> int n" by simp_all
  then have "\<bar>int m\<bar> \<le> 2 ^ 53" "\<bar>int n\<bar> \<le> 2 ^ 53" "\<bar>int m - int n\<bar> \<le> 2 ^ 53" using that by linarith+
  note r = this [THEN rnd_of_int]
  have "numOf m = Fin (of_int (int m))" "numOf n = Fin (of_int (int n))" unfolding numOf_def num_of_int_def by (rule r)+
  then have "numOf m - numOf n = Fin (of_int (int m - int n))" using r(3) by (simp add: minus_number_def uminus_number_def)
  then show "(numOf m - numOf n > Fin 0) = (n < m)" "truthy (numOf m - numOf n) = (m \<noteq> n)" by (simp_all add: truthy_def)
qed

section \<open>Order\<close>

text \<open>The return and then the number of trades decide; the collation only breaks ties.\<close>

definition usable :: "LeaderboardEntry \<Rightarrow> bool" where
  "usable e \<longleftrightarrow> (\<exists>n. money_ok n \<and> le_returnPct e = cents n) \<and> int (le_trades e) \<le> 2 ^ 50"

definition ahead :: "LeaderboardEntry \<Rightarrow> LeaderboardEntry \<Rightarrow> bool" where
  "ahead a b \<longleftrightarrow> le_returnPct b < le_returnPct a \<or> le_returnPct a = le_returnPct b \<and> le_trades b \<le> le_trades a"

lemma compare_ahead:
  assumes "usable a" "usable b"
  shows "compareEntries col ids a b > Fin 0 \<Longrightarrow> ahead b a" "\<not> compareEntries col ids a b > Fin 0 \<Longrightarrow> ahead a b"
proof -
  obtain n m where nm: "money_ok n" "le_returnPct a = cents n" "money_ok m" "le_returnPct b = cents m" using assms by (auto simp: usable_def)
  have t: "int (le_trades a) \<le> 2 ^ 50" "int (le_trades b) \<le> 2 ^ 50" using assms by (simp_all add: usable_def)
  note rules = diff_sign [OF nm(3,1)] count_sign [OF t(2,1)] cents_less_iff [OF nm(1,3)] cents_less_iff [OF nm(3,1)] cents_inj [OF nm(1,3)]
  show "compareEntries col ids a b > Fin 0 \<Longrightarrow> ahead b a"
    using rules nm(2,4) by (auto simp: compareEntries_def ahead_def Let_def split: if_splits)
  show "\<not> compareEntries col ids a b > Fin 0 \<Longrightarrow> ahead a b"
    using rules nm(2,4) by (auto simp: compareEntries_def ahead_def Let_def split: if_splits)
qed

lemma ahead_trans: "usable a \<Longrightarrow> usable b \<Longrightarrow> usable c \<Longrightarrow> ahead a b \<Longrightarrow> ahead b c \<Longrightarrow> ahead a c"
  by (auto simp: usable_def ahead_def cents_less_iff)

lemma insert_set: "set (insertBy cmp x xs) = insert x (set xs)"
  by (induction xs) auto

lemma insert_sorted:
  assumes "sorted_wrt ahead xs" "\<forall>y\<in>insert x (set xs). usable y"
  shows "sorted_wrt ahead (insertBy (compareEntries col ids) x xs)"
  using assms
proof (induction xs)
  case (Cons y ys)
  have us: "usable x" "usable y" using Cons.prems(2) by simp_all
  show ?case
  proof (cases "compareEntries col ids x y > Fin 0")
    case True
    then have "ahead y x" using compare_ahead(1) [OF us] by blast
    then show ?thesis using Cons True by (simp add: insert_set)
  next
    case False
    then have "ahead x y" using compare_ahead(2) [OF us] by blast
    then have "\<forall>z\<in>set ys. ahead x z" using Cons.prems us ahead_trans [of x y] by simp
    then show ?thesis using Cons.prems(1) False \<open>ahead x y\<close> by simp
  qed
qed simp

lemma sort_set: "set (sortBy cmp xs) = set xs" "length (sortBy cmp xs) = length xs"
proof -
  have "length (insertBy cmp x ys) = Suc (length ys)" for x ys by (induction ys) auto
  then show "length (sortBy cmp xs) = length xs" unfolding sortBy_def by (induction xs) auto
  show "set (sortBy cmp xs) = set xs" unfolding sortBy_def by (induction xs) (auto simp: insert_set)
qed

lemma sort_distinct: "distinct (map f xs) \<Longrightarrow> distinct (map f (sortBy cmp xs))"
proof -
  have ins: "distinct (map f ys) \<Longrightarrow> f x \<notin> f ` set ys \<Longrightarrow> distinct (map f (insertBy cmp x ys))" for x ys
    by (induction ys) (auto simp: insert_set)
  show "distinct (map f xs) \<Longrightarrow> distinct (map f (sortBy cmp xs))"
  proof (induction xs)
    case (Cons x xs)
    then show ?case using ins [of "sortBy cmp xs" x] sort_set(1) [of cmp xs] by (simp add: sortBy_def)
  qed (simp add: sortBy_def)
qed

lemma sort_sorted: "\<forall>y\<in>set xs. usable y \<Longrightarrow> sorted_wrt ahead (sortBy (compareEntries col ids) xs)"
proof (induction xs)
  case (Cons x xs)
  have "set (sortBy (compareEntries col ids) xs) = set xs" by (rule sort_set)
  then have "sorted_wrt ahead (insertBy (compareEntries col ids) x (sortBy (compareEntries col ids) xs))" using Cons by (intro insert_sorted) auto
  then show ?case by (simp add: sortBy_def)
qed (simp add: sortBy_def)

section \<open>Ranks\<close>

definition aheadOf :: "LeaderboardEntry list \<Rightarrow> LeaderboardEntry \<Rightarrow> nat" where
  "aheadOf es e = length (filter (\<lambda>x. le_returnPct e < le_returnPct x) es)"

lemma ahead_order: "usable a \<Longrightarrow> usable b \<Longrightarrow> ahead a b \<Longrightarrow> \<not> le_returnPct a < le_returnPct b \<and> (le_returnPct a = le_returnPct b \<or> le_returnPct b < le_returnPct a)"
  by (auto simp: usable_def ahead_def cents_less_iff)

lemma usable_irrefl: "usable a \<Longrightarrow> \<not> le_returnPct a < le_returnPct a \<and> le_returnPct a \<noteq> NaN"
  by (elim usable_def [THEN iffD1, THEN conjE] exE conjE) (simp add: cents_less_iff)

lemma usable_less: "usable a \<Longrightarrow> usable b \<Longrightarrow> usable c \<Longrightarrow> \<not> le_returnPct a < le_returnPct b \<Longrightarrow> le_returnPct c < le_returnPct b \<Longrightarrow> le_returnPct c < le_returnPct a"
  by (auto simp: usable_def cents_less_iff)

lemma rank_frame [simp]:
  "ahead y (e\<lparr>le_rank := k\<rparr>) = ahead y e" "ahead (e\<lparr>le_rank := k\<rparr>) y = ahead e y" "usable (e\<lparr>le_rank := k\<rparr>) = usable e"
  "aheadOf es (e\<lparr>le_rank := k\<rparr>) = aheadOf es e" "aheadOf (ds @ e\<lparr>le_rank := k\<rparr> # es) x = aheadOf (ds @ e # es) x"
  by (simp_all add: ahead_def usable_def aheadOf_def)

lemma ranks_frame: "map le_userId (assignRanks i prev es) = map le_userId es" "length (assignRanks i prev es) = length es"
  "map le_returnPct (assignRanks i prev es) = map le_returnPct es"
  by (induction es arbitrary: i prev) (simp_all add: Let_def)

lemma ranks_same: "x \<in> set (assignRanks i prev es) \<Longrightarrow> \<exists>e\<in>set es. x = e\<lparr>le_rank := le_rank x\<rparr>"
  by (induction es arbitrary: i prev) (auto simp: Let_def)

lemma ranks_pointwise: "list_all2 (\<lambda>x e. x = e\<lparr>le_rank := le_rank x\<rparr>) (assignRanks i prev es) es"
  by (induction es arbitrary: i prev) (simp_all add: Let_def)

lemma ranks_sorted: "sorted_wrt ahead es \<Longrightarrow> sorted_wrt ahead (assignRanks i prev es)"
proof -
  assume s: "sorted_wrt ahead es"
  have nth: "assignRanks i prev es ! k = (es ! k)\<lparr>le_rank := le_rank (assignRanks i prev es ! k)\<rparr>" if "k < length es" for k
    using list_all2_nthD2 [OF ranks_pointwise that] .
  show ?thesis unfolding sorted_wrt_iff_nth_less
  proof (intro allI impI)
    fix k l assume kl: "k < l" "l < length (assignRanks i prev es)"
    then have "ahead (es ! k) (es ! l)" using s by (simp add: sorted_wrt_iff_nth_less ranks_frame)
    then show "ahead (assignRanks i prev es ! k) (assignRanks i prev es ! l)"
      using nth [of k] nth [of l] kl rank_frame(1,2) by (metis dual_order.strict_trans ranks_frame(2))
  qed
qed

lemma aheadOf_values: "aheadOf es e = length (filter (\<lambda>v. le_returnPct e < v) (map le_returnPct es))"
  by (simp add: aheadOf_def filter_map comp_def)

text \<open>After the sorted entries \<open>done\<close>, of which \<open>prev\<close> is the last.\<close>

lemma ranks_count:
  assumes "sorted_wrt ahead (done @ es)" "\<forall>e\<in>set (done @ es). usable e" "i = length done"
    and "prev = (if done = [] then None else Some (last done))" "done \<noteq> [] \<longrightarrow> le_rank (last done) = 1 + aheadOf (done @ es) (last done)"
  shows "\<forall>x\<in>set (assignRanks i prev es). le_rank x = 1 + aheadOf (done @ es) x"
  using assms
proof (induction es arbitrary: "done" i prev)
  case (Cons e es)
  let ?rank = "case prev of Some p \<Rightarrow> if js_eq (le_returnPct e) (le_returnPct p) then le_rank p else i + 1 | None \<Rightarrow> i + 1"
  let ?e = "e\<lparr>le_rank := ?rank\<rparr>"
  have us: "usable e" "\<forall>x\<in>set es. usable x" "\<forall>x\<in>set done. usable x" using Cons.prems(2) by simp_all
  have later: "\<not> le_returnPct e < le_returnPct x" if "x \<in> set (e # es)" for x
  proof (cases "x = e")
    case False
    then have "ahead e x" "usable x" using that Cons.prems(1) us by (simp_all add: sorted_wrt_append)
    then show ?thesis using ahead_order us by blast
  qed (use usable_irrefl us in simp)
  then have none: "filter (\<lambda>x. le_returnPct e < le_returnPct x) (e # es) = []" by (simp add: filter_empty_conv)
  have rank: "?rank = 1 + aheadOf (done @ e # es) e"
  proof (cases "done" rule: rev_cases)
    case Nil
    then show ?thesis using Cons.prems(3,4) none by (simp add: aheadOf_def)
  next
    case (snoc ds p)
    have p: "prev = Some p" "le_rank p = 1 + aheadOf (done @ e # es) p" "usable p" "ahead p e" using snoc Cons.prems us by (simp_all add: sorted_wrt_append)
    show ?thesis
    proof (cases "js_eq (le_returnPct e) (le_returnPct p)")
      case True
      then have "aheadOf (done @ e # es) e = aheadOf (done @ e # es) p" by (simp add: aheadOf_def js_eq_def)
      then show ?thesis using True p by simp
    next
      case False
      then have less: "le_returnPct e < le_returnPct p" using ahead_order [OF p(3) us(1) p(4)] usable_irrefl [OF us(1)] by (auto simp: js_eq_def)
      have "\<not> le_returnPct x < le_returnPct p" if "x \<in> set done" for x
      proof (cases "x = p")
        case False
        then have "ahead x p" "usable x" using that snoc Cons.prems(1) us by (auto simp: sorted_wrt_append)
        then show ?thesis using ahead_order p(3) by blast
      qed (use usable_irrefl p in simp)
      then have "\<forall>x\<in>set done. le_returnPct e < le_returnPct x" using usable_less us p(3) less by blast
      then have "aheadOf (done @ e # es) e = length done" using none by (simp add: aheadOf_def)
      then show ?thesis using False p Cons.prems(3) by simp
    qed
  qed
  have "\<forall>x\<in>set (assignRanks (i + 1) (Some ?e) es). le_rank x = 1 + aheadOf ((done @ [?e]) @ es) x"
    using Cons.prems rank by (intro Cons.IH) (simp_all add: sorted_wrt_append)
  then show ?case using rank by (simp add: Let_def)
qed simp

section \<open>The best account of each trader\<close>

definition best_ok :: "nat \<Rightarrow> LeaderboardSourceRow list \<Rightarrow> (nat \<times> LeaderboardEntry) list \<Rightarrow> bool" where
  "best_ok m seen best \<longleftrightarrow> distinct (map fst best)
     \<and> (\<forall>u e. map_of best u = Some e \<longrightarrow> (\<exists>r\<in>set seen. qualifies m r \<and> lr_userId r = u \<and> e = entryOf r))
     \<and> (\<forall>r\<in>set seen. qualifies m r \<longrightarrow> (\<exists>e. map_of best (lr_userId r) = Some e \<and> ahead e (entryOf r)))"

definition sane_rows :: "nat \<Rightarrow> LeaderboardSourceRow list \<Rightarrow> bool" where
  "sane_rows m rows \<longleftrightarrow> (\<forall>r\<in>set rows. qualifies m r \<longrightarrow> sane_row r \<and> int (lr_trades r) \<le> 2 ^ 50)"

lemma entry_usable: "sane_rows m rows \<Longrightarrow> r \<in> set rows \<Longrightarrow> qualifies m r \<Longrightarrow> usable (entryOf r)"
  using sane_return [of r] by (simp add: sane_rows_def usable_def) (metis LeaderboardEntry.select_convs(6) entryOf_def)

lemma improves_ahead:
  assumes "usable e" "usable c"
  shows "improves e c \<Longrightarrow> ahead e c" "\<not> improves e c \<Longrightarrow> ahead c e"
proof -
  obtain n k where n: "money_ok n" "le_returnPct e = cents n" "money_ok k" "le_returnPct c = cents k" using assms by (auto simp: usable_def)
  have "js_eq (cents n) (cents k) = (n = k)" by (simp add: js_eq_def cents_inj n cents_not_NaN [of n])
  then show "improves e c \<Longrightarrow> ahead e c" "\<not> improves e c \<Longrightarrow> ahead c e"
    unfolding improves_def ahead_def n(2,4) by (auto simp: cents_less_iff cents_inj n(1,3))
qed

lemma best_step: "best_ok m seen best \<Longrightarrow> sane_rows m (seen @ [r]) \<Longrightarrow> best_ok m (seen @ [r]) (bestStep m best r)"
proof (cases "qualifies m r")
  case True
  assume ok: "best_ok m seen best" and sane: "sane_rows m (seen @ [r])"
  have us: "usable (entryOf x)" if "x \<in> set (seen @ [r])" "qualifies m x" for x using entry_usable [OF sane that] .
  show ?thesis
  proof (cases "map_of best (lr_userId r)")
    case None
    then show ?thesis using ok True by (auto simp: best_ok_def bestStep_def update_conv' distinct_update ahead_def)
  next
    case (Some c)
    then obtain q where q: "q \<in> set seen" "qualifies m q" "lr_userId q = lr_userId r" "c = entryOf q" using ok unfolding best_ok_def by metis
    have ur: "usable (entryOf r)" "usable c" using us q True by auto
    show ?thesis
    proof (cases "improves (entryOf r) c")
      case imp: True
      have "ahead (entryOf r) (entryOf x)" if "x \<in> set seen" "qualifies m x" "lr_userId x = lr_userId r" for x
      proof -
        have "ahead c (entryOf x)" using ok that Some by (auto simp: best_ok_def)
        then show ?thesis using ahead_trans [OF ur(1) ur(2)] improves_ahead(1) [OF ur imp] us that by simp
      qed
      moreover have "ahead (entryOf r) (entryOf r)" by (simp add: ahead_def)
      ultimately show ?thesis using ok True Some imp by (auto simp: best_ok_def bestStep_def update_conv' distinct_update)
    next
      case False
      then have "ahead c (entryOf r)" using improves_ahead(2) [OF ur] by blast
      then show ?thesis using ok True Some False by (auto simp: best_ok_def bestStep_def)
    qed
  qed
qed (auto simp: best_ok_def bestStep_def)

lemma best_all: "sane_rows m rows \<Longrightarrow> best_ok m rows (foldl (bestStep m) [] rows)"
proof (induction rows rule: rev_induct)
  case (snoc r rows)
  then have "sane_rows m rows" by (simp add: sane_rows_def)
  with snoc show ?case using best_step by simp
qed (simp add: best_ok_def)

section \<open>The ranking\<close>

text \<open>
  C25: The leaderboard ranks every trader with a qualifying account exactly once, by the best of his qualifying accounts
  (return, then number of trades), in descending order of return, and the rank of a trader is one more than the number
  of traders with a strictly greater return.
\<close>

theorem leaderboard_is_a_ranking:
  assumes "sane_rows m rows" "entries = rankLeaderboard collate collateIds m rows"
  shows "distinct (map le_userId entries) \<and> le_userId ` set entries = lr_userId ` {r \<in> set rows. qualifies m r}
    \<and> sorted_wrt ahead entries
    \<and> (\<forall>e\<in>set entries. le_rank e = 1 + length (filter (\<lambda>x. le_returnPct e < le_returnPct x) entries)
       \<and> (\<exists>r\<in>set rows. qualifies m r \<and> e = (entryOf r)\<lparr>le_rank := le_rank e\<rparr>)
       \<and> (\<forall>r\<in>set rows. qualifies m r \<and> lr_userId r = le_userId e \<longrightarrow> ahead e (entryOf r)))"
proof -
  let ?best = "foldl (bestStep m) [] rows" and ?cmp = "compareEntries collate collateIds"
  have best: "best_ok m rows ?best" using assms(1) by (rule best_all)
  let ?sorted = "sortBy ?cmp (map snd ?best)"
  have member: "\<exists>r\<in>set rows. qualifies m r \<and> u = lr_userId r \<and> e = entryOf r" if "(u, e) \<in> set ?best" for u e
    using best that by (auto simp: best_ok_def dest!: map_of_is_SomeI)
  have key: "le_userId e = u" if "(u, e) \<in> set ?best" for u e using member [OF that] by (auto simp: entryOf_def)
  have usable: "\<forall>e\<in>set ?sorted. usable e" using member entry_usable [OF assms(1)] by (fastforce simp: sort_set)
  have sorted: "sorted_wrt ahead ?sorted" by (rule sort_sorted) (use usable in \<open>simp add: sort_set\<close>)
  have ids: "map le_userId (map snd ?best) = map fst ?best" using key by auto
  have "distinct (map le_userId (map snd ?best))" unfolding ids using best by (simp add: best_ok_def)
  then have users: "distinct (map le_userId ?sorted)" by (rule sort_distinct)
  have e: "entries = assignRanks 0 None ?sorted" by (simp add: assms(2) rankLeaderboard_def)
  have "set (map fst ?best) = lr_userId ` {r \<in> set rows. qualifies m r}"
  proof
    show "set (map fst ?best) \<subseteq> lr_userId ` {r \<in> set rows. qualifies m r}" using member by fastforce
    show "lr_userId ` {r \<in> set rows. qualifies m r} \<subseteq> set (map fst ?best)" using best by (auto simp: best_ok_def dest!: map_of_SomeD) force
  qed
  then have "set (map le_userId (map snd ?best)) = lr_userId ` {r \<in> set rows. qualifies m r}" unfolding ids .
  moreover have "le_userId ` set entries = set (map le_userId (map snd ?best))" unfolding e using ranks_frame(1) [of 0 None ?sorted] by (metis list.set_map sort_set(1))
  moreover have "distinct (map le_userId entries)" unfolding e ranks_frame by (rule users)
  moreover have "sorted_wrt ahead entries" unfolding e by (rule ranks_sorted [OF sorted])
  moreover have "le_rank x = 1 + length (filter (\<lambda>y. le_returnPct x < le_returnPct y) entries)" if "x \<in> set entries" for x
  proof -
    have "le_rank x = 1 + aheadOf ?sorted x"
      using ranks_count [of "[]" ?sorted 0 None] sorted usable that by (simp add: e)
    also have "aheadOf ?sorted x = aheadOf entries x" unfolding aheadOf_values e ranks_frame ..
    finally show ?thesis by (simp add: aheadOf_def)
  qed
  moreover have "(\<exists>r\<in>set rows. qualifies m r \<and> x = (entryOf r)\<lparr>le_rank := le_rank x\<rparr>)
       \<and> (\<forall>r\<in>set rows. qualifies m r \<and> lr_userId r = le_userId x \<longrightarrow> ahead x (entryOf r))" if mem: "x \<in> set entries" for x
  proof -
    obtain y where y: "y \<in> set ?sorted" "x = y\<lparr>le_rank := le_rank x\<rparr>" using ranks_same mem unfolding e by blast
    then obtain u where u: "(u, y) \<in> set ?best" by (auto simp: sort_set)
    then have "map_of ?best u = Some y" using best by (simp add: best_ok_def)
    moreover have "le_userId x = u" using key [OF u] y(2) by (metis LeaderboardEntry.select_convs(2) LeaderboardEntry.surjective LeaderboardEntry.update_convs(1))
    ultimately have "ahead y (entryOf r)" if "r \<in> set rows" "qualifies m r" "lr_userId r = le_userId x" for r
      using best that by (fastforce simp: best_ok_def)
    then show ?thesis using member [OF u] y(2) rank_frame(2) by metis
  qed
  ultimately show ?thesis by blast
qed

definition sampleLeaderboard :: "LeaderboardSourceRow list" where
  "sampleLeaderboard = map (\<lambda>(u, net). \<lparr>lr_userId = u, lr_alias = ''Alpha'', lr_accountId = u, lr_phase = PHASE_1, lr_startingBalance = Fin 100,
     lr_netProfit = Fin net, lr_trades = 10, lr_wins = 5\<rparr>) [(21, 9), (22, 5), (23, 5), (24, 1)]"

theorem leaderboard_is_a_ranking_witness:
  "\<exists>e\<in>set (rankLeaderboard (\<lambda>_ _. 0) (\<lambda>_ _. 0) 5 sampleLeaderboard). le_userId e = 24
     \<and> le_rank e = 1 + length (filter (\<lambda>x. le_returnPct e < le_returnPct x) (rankLeaderboard (\<lambda>_ _. 0) (\<lambda>_ _. 0) 5 sampleLeaderboard))"
proof -
  have q: "{r \<in> set sampleLeaderboard. qualifies 5 r} = set sampleLeaderboard" by (auto simp: sampleLeaderboard_def qualifies_def)
  have "sane_rows 5 sampleLeaderboard" by (auto simp: sane_rows_def sane_row_def sampleLeaderboard_def)
  from leaderboard_is_a_ranking [OF this refl, of "\<lambda>_ _. 0" "\<lambda>_ _. 0", unfolded q]
  have l: "le_userId ` set (rankLeaderboard (\<lambda>_ _. 0) (\<lambda>_ _. 0) 5 sampleLeaderboard) = lr_userId ` set sampleLeaderboard"
    "\<forall>e\<in>set (rankLeaderboard (\<lambda>_ _. 0) (\<lambda>_ _. 0) 5 sampleLeaderboard). le_rank e
       = 1 + length (filter (\<lambda>x. le_returnPct e < le_returnPct x) (rankLeaderboard (\<lambda>_ _. 0) (\<lambda>_ _. 0) 5 sampleLeaderboard))" by blast+
  have "24 \<in> lr_userId ` set sampleLeaderboard" by (simp add: sampleLeaderboard_def)
  then show ?thesis using l by (metis (no_types, lifting) image_iff)
qed

section \<open>Aliases\<close>

definition aliases_ok :: "Trader list \<Rightarrow> bool" where
  "aliases_ok users \<longleftrightarrow> distinct (map usr_id users) \<and> (\<forall>u\<in>set users. \<forall>v\<in>set users. usr_id u \<noteq> usr_id v \<longrightarrow>
     (\<forall>a b. tr_publicAlias u = Some a \<and> tr_publicAlias v = Some b \<and> a \<noteq> [] \<longrightarrow> toLowerCase a \<noteq> toLowerCase b))"

lemma alias_update_ok:
  assumes "aliases_ok users" "updateLeaderboardProfile i optIn input users = Inr users'"
  shows "aliases_ok users'"
proof -
  obtain cur al where c: "List.find (\<lambda>u. usr_id u = i) users = Some cur" "users' = writeProfile i optIn al users"
    "al = tr_publicAlias cur \<or> al = None \<or> al = Some [] \<or> \<not> aliasTaken i (the al) users"
    using assms(2) by (auto simp: updateLeaderboardProfile_def profileChecked_def split: option.splits sum.splits if_splits)
  have cur: "cur \<in> set users" "usr_id cur = i" using c(1) by (auto simp: find_Some_iff)
  have other: "toLowerCase a \<noteq> toLowerCase b" if "al = Some a" "v \<in> set users" "usr_id v \<noteq> i" "tr_publicAlias v = Some b" "a \<noteq> []" for a b v
    using c(3) that assms(1) cur by (auto simp: aliases_ok_def aliasTaken_def list_ex_iff)
  have empty: "toLowerCase a = toLowerCase [] \<Longrightarrow> a = []" for a by (simp add: toLowerCase_def)
  have "toLowerCase a \<noteq> toLowerCase b" if mem: "u \<in> set users'" "v \<in> set users'" and that: "usr_id u \<noteq> usr_id v" "tr_publicAlias u = Some a" "tr_publicAlias v = Some b" "a \<noteq> []" for u v a b
  proof -
    obtain u0 v0 where "u0 \<in> set users" "v0 \<in> set users" and
      u0: "u = (if usr_id u0 = i then u0\<lparr>tr_leaderboardOptIn := optIn, tr_publicAlias := al\<rparr> else u0)" and
      v0: "v = (if usr_id v0 = i then v0\<lparr>tr_leaderboardOptIn := optIn, tr_publicAlias := al\<rparr> else v0)"
      using mem by (auto simp: c(2) writeProfile_def)
    then show ?thesis
    proof (cases "usr_id u0 = i"; cases "usr_id v0 = i")
      assume "usr_id u0 \<noteq> i" "usr_id v0 = i"
      then show ?thesis using other [of b u0 a] that \<open>u0 \<in> set users\<close> u0 v0 empty [of a] by (cases "b = []") auto
    next
      assume "usr_id u0 \<noteq> i" "usr_id v0 \<noteq> i"
      then show ?thesis using that \<open>u0 \<in> set users\<close> \<open>v0 \<in> set users\<close> u0 v0 assms(1) by (simp add: aliases_ok_def)
    next
      assume "usr_id u0 = i" "usr_id v0 \<noteq> i"
      then show ?thesis using other [of a v0 b] that \<open>v0 \<in> set users\<close> u0 v0 by simp
    qed (use that u0 v0 in simp)
  qed
  moreover have "map usr_id users' = map usr_id users" by (simp add: c(2) writeProfile_def)
  ultimately show ?thesis using assms(1) unfolding aliases_ok_def by metis
qed

lemma written_profile:
  "w \<in> set users \<Longrightarrow> \<exists>w'\<in>set (writeProfile k opt al users). usr_id w' = usr_id w \<and> tr_publicAlias w' = (if usr_id w = k then al else tr_publicAlias w)"
  by (rule bexI [of _ "if usr_id w = k then w\<lparr>tr_leaderboardOptIn := opt, tr_publicAlias := al\<rparr> else w"]) (auto simp: writeProfile_def)

text \<open>Two changes whose checks both ran before either write give two traders the same alias.\<close>

lemma parallel_changes_share_an_alias:
  assumes "profileChecked i True (Some raw) users = Inr (Some al)" "profileChecked j True (Some raw) users = Inr (Some al)" "i \<noteq> j"
  shows "\<not> aliases_ok (writeProfile j True (Some al) (writeProfile i True (Some al) users))"
proof -
  have found: "\<exists>u\<in>set users. usr_id u = k" if "profileChecked k True (Some raw) users = Inr (Some al)" for k
    using that by (auto simp: profileChecked_def find_Some_iff split: option.splits)
  obtain u v where uv: "u \<in> set users" "usr_id u = i" "v \<in> set users" "usr_id v = j" using found assms(1,2) by metis
  have "al \<noteq> []" using assms(1) by (auto simp: profileChecked_def split: option.splits if_splits)
  obtain a b where "a \<in> set (writeProfile i True (Some al) users)" "usr_id a = i" "tr_publicAlias a = Some al"
    "b \<in> set (writeProfile i True (Some al) users)" "usr_id b = j"
    using written_profile [OF uv(1), of i True "Some al"] written_profile [OF uv(3), of i True "Some al"] uv by metis
  then obtain c d where "c \<in> set (writeProfile j True (Some al) (writeProfile i True (Some al) users))" "usr_id c = i" "tr_publicAlias c = Some al"
    "d \<in> set (writeProfile j True (Some al) (writeProfile i True (Some al) users))" "usr_id d = j" "tr_publicAlias d = Some al"
    using written_profile [of a _ j True "Some al"] written_profile [of b _ j True "Some al"] assms(3) by metis
  then show ?thesis using assms(3) \<open>al \<noteq> []\<close> unfolding aliases_ok_def by metis
qed

end
