(* ===== verification/TradingSocket.thy ===== *)
theory TradingSocket
  imports Gateway FeedProviders
begin

text \<open>
  The browser's connection to the worker (\<open>src/lib/hooks/useTradingSocket.ts\<close>): the refs and states of the hook as one
  record, its callbacks, the events of sockets and timers, and the awaited ticket as operations. Sockets are numbered and
  keep a phase; \<open>tw_sent\<close> is what was sent on each. A state that is always set together with its ref is one field.
\<close>

datatype SocketStatus = StatusConnecting | StatusOpen | StatusClosed | StatusError

text \<open>A frame of the server, as far as the hook looks at it.\<close>

datatype ServerFrame = AuthOkMsg | ErrorText string | TickMsg string number number int | MarketMsg MarketStatusEvent | OtherMsg Frame

datatype RequestOutcome = Resolved ServerFrame | Rejected string

text \<open>The three ways the answer to a ticket request goes: no ticket, a URL that \<open>new WebSocket\<close> refuses, a socket.\<close>

datatype TicketResult = TicketFails string | SocketRefused string | SocketMade

record TradingSocket =
  tw_enabled :: bool
  tw_mounted :: bool
  tw_status :: SocketStatus
  tw_market :: "(MarketStatusEvent \<times> int) option"
  tw_lastTick :: "(string \<times> Tick) list"
  tw_lastError :: "string option"
  tw_attempt :: nat
  tw_ws :: "nat option"
  tw_sockets :: Sockets
  tw_nextSocket :: nat
  tw_authed :: bool
  tw_stopped :: bool
  tw_generation :: nat
  tw_fetches :: "nat list"
  tw_reconnectTimer :: bool
  tw_pingTimer :: bool
  tw_subs :: "string list"
  tw_handlers :: "nat list"
  tw_seen :: "(nat \<times> ServerFrame) list"
  tw_pending :: "(nat \<times> (ServerFrame \<Rightarrow> bool)) list"
  tw_nextRequest :: nat
  tw_settled :: "(nat \<times> RequestOutcome) list"
  tw_tickBuffer :: "(string \<times> Tick) list"
  tw_tickDirty :: bool
  tw_flushTimer :: bool
  tw_lowData :: bool
  tw_storedLowData :: "bool option"
  tw_sent :: "(nat \<times> GatewayMessage) list"

definition newTradingSocket :: "bool \<Rightarrow> TradingSocket" where
  "newTradingSocket enabled =
     \<lparr>tw_enabled = enabled, tw_mounted = False, tw_status = StatusConnecting, tw_market = None, tw_lastTick = [], tw_lastError = None, tw_attempt = 0,
      tw_ws = None, tw_sockets = [], tw_nextSocket = 0, tw_authed = False, tw_stopped = (\<not> enabled), tw_generation = 0, tw_fetches = [],
      tw_reconnectTimer = False, tw_pingTimer = False, tw_subs = [], tw_handlers = [], tw_seen = [], tw_pending = [], tw_nextRequest = 0, tw_settled = [],
      tw_tickBuffer = [], tw_tickDirty = False, tw_flushTimer = False, tw_lowData = False, tw_storedLowData = None, tw_sent = []\<rparr>"

definition shownStatus :: "TradingSocket \<Rightarrow> SocketStatus" where
  "shownStatus h = (if tw_enabled h then tw_status h else StatusClosed)"

section \<open>Low-data mode and the throttled ticks\<close>

definition NORMAL_FLUSH_MS :: int where "NORMAL_FLUSH_MS = 100"
definition LOW_DATA_FLUSH_MS :: int where "LOW_DATA_FLUSH_MS = 500"

definition getLowDataSnapshot :: "bool \<Rightarrow> TradingSocket \<Rightarrow> bool" where
  "getLowDataSnapshot saveData h = (case tw_storedLowData h of Some b \<Rightarrow> b | None \<Rightarrow> saveData)"

text \<open>\<open>stores\<close>: whether the storage of the browser works.\<close>

definition setLowData :: "bool \<Rightarrow> bool \<Rightarrow> TradingSocket \<Rightarrow> TradingSocket" where
  "setLowData stores b h = h\<lparr>tw_lowData := b, tw_storedLowData := (if stores then Some b else tw_storedLowData h)\<rparr>"

definition flushDelay :: "TradingSocket \<Rightarrow> int" where
  "flushDelay h = (if tw_lowData h then LOW_DATA_FLUSH_MS else NORMAL_FLUSH_MS)"

definition scheduleTickFlush :: "TradingSocket \<Rightarrow> TradingSocket" where
  "scheduleTickFlush h = h\<lparr>tw_flushTimer := True\<rparr>"

definition flushFires :: "TradingSocket \<Rightarrow> TradingSocket" where
  "flushFires h =
     (let h1 = h\<lparr>tw_flushTimer := False\<rparr> in
      if \<not> tw_tickDirty h1 then h1 else h1\<lparr>tw_tickDirty := False, tw_lastTick := tw_tickBuffer h1\<rparr>)"

section \<open>Sending and dispatching\<close>

definition rejectAllPending :: "string \<Rightarrow> TradingSocket \<Rightarrow> TradingSocket" where
  "rejectAllPending reason h = h\<lparr>tw_settled := tw_settled h @ map (\<lambda>(i, m). (i, Rejected reason)) (tw_pending h), tw_pending := []\<rparr>"

definition clearSocketTimers :: "TradingSocket \<Rightarrow> TradingSocket" where
  "clearSocketTimers h = h\<lparr>tw_reconnectTimer := False, tw_pingTimer := False\<rparr>"

definition openSocket :: "TradingSocket \<Rightarrow> nat option" where
  "openSocket h = (case tw_ws h of Some s \<Rightarrow> if (s, SocketOpen) \<in> set (tw_sockets h) then Some s else None | None \<Rightarrow> None)"

definition rawSend :: "GatewayMessage \<Rightarrow> TradingSocket \<Rightarrow> bool \<times> TradingSocket" where
  "rawSend msg h = (case openSocket h of None \<Rightarrow> (False, h) | Some s \<Rightarrow> (True, h\<lparr>tw_sent := tw_sent h @ [(s, msg)]\<rparr>))"

text \<open>Waiting requests come before handlers; a matcher that throws does not match.\<close>

definition dispatch :: "ServerFrame \<Rightarrow> TradingSocket \<Rightarrow> TradingSocket" where
  "dispatch msg h = h\<lparr>tw_settled := tw_settled h @ map (\<lambda>(i, m). (i, Resolved msg)) (filter (\<lambda>(i, m). m msg) (tw_pending h)),
     tw_pending := filter (\<lambda>(i, m). \<not> m msg) (tw_pending h), tw_seen := tw_seen h @ map (\<lambda>k. (k, msg)) (tw_handlers h)\<rparr>"

section \<open>Connecting\<close>

definition MAX_BACKOFF_MS :: int where "MAX_BACKOFF_MS = 30000"

text \<open>The draw of \<open>Math.random()\<close> is \<open>rand\<close>.\<close>

definition reconnectDelay :: "nat \<Rightarrow> rat \<Rightarrow> int" where
  "reconnectDelay attempt rand = min MAX_BACKOFF_MS (1000 * 2 ^ (attempt - 1)) + \<lfloor>rand * 500\<rfloor>"

definition scheduleReconnect :: "TradingSocket \<Rightarrow> TradingSocket" where
  "scheduleReconnect h = (if tw_stopped h \<or> tw_reconnectTimer h then h else h\<lparr>tw_attempt := tw_attempt h + 1, tw_reconnectTimer := True\<rparr>)"

definition closeSocket :: "nat option \<Rightarrow> TradingSocket \<Rightarrow> TradingSocket" where
  "closeSocket ws h = (case ws of Some s \<Rightarrow> h\<lparr>tw_sockets := setPhase s SocketClosing (tw_sockets h)\<rparr> | None \<Rightarrow> h)"

text \<open>\<open>connect\<close> up to the ticket.\<close>

definition twConnect :: "TradingSocket \<Rightarrow> TradingSocket" where
  "twConnect h =
     (if tw_stopped h then h
      else (closeSocket (tw_ws h) h)\<lparr>tw_generation := tw_generation h + 1, tw_ws := None, tw_authed := False, tw_status := StatusConnecting,
        tw_fetches := tw_fetches h @ [tw_generation h + 1]\<rparr>)"

definition ticketDone :: "nat \<Rightarrow> TicketResult \<Rightarrow> TradingSocket \<Rightarrow> TradingSocket" where
  "ticketDone generation result h =
     (if generation \<noteq> tw_generation h \<or> tw_stopped h then h
      else case result of
          TicketFails err \<Rightarrow> scheduleReconnect (h\<lparr>tw_lastError := Some err, tw_status := StatusError\<rparr>)
        | SocketRefused err \<Rightarrow> scheduleReconnect (h\<lparr>tw_lastError := Some err, tw_status := StatusError\<rparr>)
        | SocketMade \<Rightarrow> h\<lparr>tw_ws := Some (tw_nextSocket h), tw_sockets := tw_sockets h @ [(tw_nextSocket h, SocketConnecting)], tw_nextSocket := tw_nextSocket h + 1\<rparr>)"

text \<open>\<open>onmessage\<close>, \<open>onerror\<close>, \<open>onclose\<close> of a socket; \<open>None\<close> is a frame that does not parse.\<close>

definition authOk :: "TradingSocket \<Rightarrow> TradingSocket" where
  "authOk h =
     (let h1 = h\<lparr>tw_authed := True, tw_attempt := 0, tw_lastError := None, tw_status := StatusOpen\<rparr>;
          h2 = (if tw_subs h1 \<noteq> [] then snd (rawSend (SubscribeMsg (tw_subs h1)) h1) else h1)
      in h2\<lparr>tw_pingTimer := True\<rparr>)"

definition socketMessage :: "nat \<Rightarrow> ServerFrame option \<Rightarrow> int \<Rightarrow> TradingSocket \<Rightarrow> TradingSocket" where
  "socketMessage s parsed now h =
     (if tw_ws h \<noteq> Some s then h
      else case parsed of
          None \<Rightarrow> h
        | Some msg \<Rightarrow>
           dispatch msg (case msg of
               AuthOkMsg \<Rightarrow> authOk h
             | ErrorText m \<Rightarrow> if tw_authed h then h else h\<lparr>tw_lastError := Some (if m = [] then ''The trading server rejected the connection'' else m)\<rparr>
             | TickMsg symbol b a ts \<Rightarrow> scheduleTickFlush (h\<lparr>tw_tickBuffer := AList.update symbol \<lparr>bid = b, ask = a, tk_symbol = symbol, tk_ts = ts, tk_source = ''ws''\<rparr> (tw_tickBuffer h),
                 tw_tickDirty := True\<rparr>)
             | MarketMsg m \<Rightarrow> h\<lparr>tw_market := Some (m, now)\<rparr>
             | OtherMsg f \<Rightarrow> h))"

definition socketErrors :: "nat \<Rightarrow> TradingSocket \<Rightarrow> TradingSocket" where
  "socketErrors s h = (if tw_ws h \<noteq> Some s then h
     else h\<lparr>tw_lastError := Some (case tw_lastError h of Some e \<Rightarrow> e | None \<Rightarrow> ''Trading connection error''), tw_status := StatusError\<rparr>)"

definition socketCloses :: "nat \<Rightarrow> nat \<Rightarrow> string \<Rightarrow> TradingSocket \<Rightarrow> TradingSocket" where
  "socketCloses s closeCode reason h0 =
     (let h = h0\<lparr>tw_sockets := gone s (tw_sockets h0)\<rparr> in
      if tw_ws h \<noteq> Some s then h
      else let h1 = rejectAllPending ''Trading connection closed'' (h\<lparr>tw_ws := None, tw_authed := False, tw_pingTimer := False\<rparr>) in
        if tw_stopped h1 then h1
        else scheduleReconnect (h1\<lparr>tw_lastError := (if reason \<noteq> [] then Some reason else tw_lastError h1),
               tw_status := (if closeCode = 1000 then StatusClosed else StatusError)\<rparr>))"

definition twReconnectFires :: "TradingSocket \<Rightarrow> TradingSocket" where
  "twReconnectFires h = twConnect (h\<lparr>tw_reconnectTimer := False\<rparr>)"

section \<open>The life of the page\<close>

definition teardown :: "TradingSocket \<Rightarrow> TradingSocket" where
  "teardown h =
     (let h1 = rejectAllPending ''Trading connection closed'' ((clearSocketTimers (h\<lparr>tw_stopped := True, tw_mounted := False\<rparr>))\<lparr>tw_flushTimer := False\<rparr>)
      in closeSocket (tw_ws h1) (h1\<lparr>tw_ws := None, tw_generation := tw_generation h1 + 1\<rparr>))"

text \<open>The effect on \<open>enabled\<close>, when the page is mounted and when the option changes.\<close>

definition runEffect :: "TradingSocket \<Rightarrow> TradingSocket" where
  "runEffect h = (if \<not> tw_enabled h then h\<lparr>tw_stopped := True\<rparr> else twConnect (h\<lparr>tw_stopped := False, tw_mounted := True\<rparr>))"

definition setEnabled :: "bool \<Rightarrow> TradingSocket \<Rightarrow> TradingSocket" where
  "setEnabled b h = (if b = tw_enabled h then h else runEffect ((if tw_mounted h then teardown h else h)\<lparr>tw_enabled := b\<rparr>))"

definition onVisible :: "TradingSocket \<Rightarrow> TradingSocket" where
  "onVisible h =
     (if tw_stopped h then h
      else if (case tw_ws h of None \<Rightarrow> True | Some s \<Rightarrow> (s, SocketClosing) \<in> set (tw_sockets h))
      then twConnect (h\<lparr>tw_reconnectTimer := False\<rparr>) else h)"

definition reconnect :: "TradingSocket \<Rightarrow> TradingSocket" where
  "reconnect h = twConnect (h\<lparr>tw_reconnectTimer := False, tw_attempt := 0, tw_stopped := False\<rparr>)"

section \<open>What the page calls\<close>

definition addSub :: "string list \<Rightarrow> string \<Rightarrow> string list" where
  "addSub subs c = (if c \<in> set subs then subs else subs @ [c])"

definition twSubscribe :: "string list \<Rightarrow> TradingSocket \<Rightarrow> TradingSocket" where
  "twSubscribe channelList h =
     (let fresh = filter (\<lambda>c. c \<notin> set (tw_subs h)) channelList; h1 = h\<lparr>tw_subs := foldl addSub (tw_subs h) fresh\<rparr>
      in if fresh \<noteq> [] \<and> tw_authed h1 then snd (rawSend (SubscribeMsg fresh) h1) else h1)"

definition twUnsubscribe :: "string list \<Rightarrow> TradingSocket \<Rightarrow> TradingSocket" where
  "twUnsubscribe channelList h =
     (let present = filter (\<lambda>c. c \<in> set (tw_subs h)) channelList; h1 = h\<lparr>tw_subs := filter (\<lambda>c. c \<notin> set present) (tw_subs h)\<rparr>
      in if present \<noteq> [] \<and> tw_authed h1 then snd (rawSend (UnsubscribeMsg present) h1) else h1)"

definition twSend :: "GatewayMessage \<Rightarrow> TradingSocket \<Rightarrow> bool \<times> TradingSocket" where
  "twSend msg h = (if tw_authed h then rawSend msg h else (False, h))"

definition pingFires :: "TradingSocket \<Rightarrow> TradingSocket" where
  "pingFires h = snd (rawSend Ping h)"

definition twOnMessage :: "nat \<Rightarrow> TradingSocket \<Rightarrow> TradingSocket" where
  "twOnMessage k h = h\<lparr>tw_handlers := (if k \<in> set (tw_handlers h) then tw_handlers h else tw_handlers h @ [k])\<rparr>"

definition twOffMessage :: "nat \<Rightarrow> TradingSocket \<Rightarrow> TradingSocket" where
  "twOffMessage k h = h\<lparr>tw_handlers := filter (\<lambda>x. x \<noteq> k) (tw_handlers h)\<rparr>"

definition settle :: "nat \<Rightarrow> RequestOutcome \<Rightarrow> TradingSocket \<Rightarrow> TradingSocket" where
  "settle i outcome h = h\<lparr>tw_settled := tw_settled h @ [(i, outcome)]\<rparr>"

definition request :: "GatewayMessage \<Rightarrow> (ServerFrame \<Rightarrow> bool) \<Rightarrow> TradingSocket \<Rightarrow> TradingSocket" where
  "request msg matcher h0 =
     (let i = tw_nextRequest h0; h = h0\<lparr>tw_nextRequest := i + 1\<rparr> in
      if openSocket h = None \<or> \<not> tw_authed h then settle i (Rejected ''Not connected to the trading server'') h
      else let (ok, h1) = rawSend msg (h\<lparr>tw_pending := tw_pending h @ [(i, matcher)]\<rparr>) in
        if ok then h1
        else settle i (Rejected ''Could not send to the trading server'') (h1\<lparr>tw_pending := filter (\<lambda>(k, m). k \<noteq> i) (tw_pending h1)\<rparr>))"

definition waitTimesOut :: "nat \<Rightarrow> TradingSocket \<Rightarrow> TradingSocket" where
  "waitTimesOut i h = settle i (Rejected ''The trading server did not respond in time'') (h\<lparr>tw_pending := filter (\<lambda>(k, m). k \<noteq> i) (tw_pending h)\<rparr>)"

section \<open>The text of a message\<close>

text \<open>A number that is not finite becomes \<open>null\<close>.\<close>

definition jsonNum :: "number \<Rightarrow> Json" where
  "jsonNum x = (if isFinite x then JNum x else JNull)"

definition optField :: "string \<Rightarrow> number option \<Rightarrow> (string \<times> Json) list" where
  "optField k x = (case x of Some v \<Rightarrow> [(k, jsonNum v)] | None \<Rightarrow> [])"

definition nullField :: "string \<Rightarrow> number option option \<Rightarrow> (string \<times> Json) list" where
  "nullField k x = (case x of Some (Some v) \<Rightarrow> [(k, jsonNum v)] | Some None \<Rightarrow> [(k, JNull)] | None \<Rightarrow> [])"

definition sideText :: "Side \<Rightarrow> string" where
  "sideText s = (case s of BUY \<Rightarrow> ''BUY'' | SELL \<Rightarrow> ''SELL'')"

definition kindText :: "OrderKind \<Rightarrow> string" where
  "kindText k = (case k of MARKET \<Rightarrow> ''MARKET'' | LIMIT \<Rightarrow> ''LIMIT'' | STOP \<Rightarrow> ''STOP'')"

text \<open>\<open>JSON.stringify\<close> of a \<open>ClientMessage\<close>, as the value that the text stands for; absent fields are left out.\<close>

definition stringifyMessage :: "GatewayMessage \<Rightarrow> Json" where
  "stringifyMessage msg = JObj (case msg of
     SubscribeMsg cs \<Rightarrow> [(''type'', JStr ''subscribe''), (''channels'', JArr (map JStr cs))]
   | UnsubscribeMsg cs \<Rightarrow> [(''type'', JStr ''unsubscribe''), (''channels'', JArr (map JStr cs))]
   | OrderPlaceReq accountId clientOrderId symbol side kind volume price stopLoss takeProfit \<Rightarrow>
       [(''type'', JStr ''order.place''), (''accountId'', JStr accountId), (''clientOrderId'', JStr clientOrderId), (''symbol'', JStr symbol),
        (''side'', JStr (sideText side)), (''orderType'', JStr (kindText kind)), (''volume'', jsonNum volume)]
       @ optField ''price'' price @ optField ''stopLoss'' stopLoss @ optField ''takeProfit'' takeProfit
   | PositionCloseReq accountId positionId volume \<Rightarrow>
       [(''type'', JStr ''position.close''), (''accountId'', JStr accountId), (''positionId'', JStr positionId)] @ optField ''volume'' volume
   | PositionModifyReq accountId positionId stopLoss takeProfit \<Rightarrow>
       [(''type'', JStr ''position.modify''), (''accountId'', JStr accountId), (''positionId'', JStr positionId)]
       @ nullField ''stopLoss'' stopLoss @ nullField ''takeProfit'' takeProfit
   | AccountGetReq accountId \<Rightarrow> [(''type'', JStr ''account.get''), (''accountId'', JStr accountId)]
   | Ping \<Rightarrow> [(''type'', JStr ''ping'')])"

end
