(* ===== verification/TradingSocketProofs.thy ===== *)
theory TradingSocketProofs
  imports TradingSocket FeedProviderProofs "HOL-Library.Multiset"
begin

text \<open>
  The browser's connection over every interleaving of its events: it is never stuck, holds one live socket, the server
  knows exactly the channels the page holds, every request settles once; and what it sends is what the gateway parses.
\<close>

section \<open>Messages\<close>

lemma text_parses: "text_ok n s \<Longrightarrow> sizedString n (JStr s) = Some s"
  by (simp add: sizedString_def text_ok_def)

lemma price_parses: "price_ok x \<Longrightarrow> priceSchema (jsonNum x) = Some x" "price_ok x \<Longrightarrow> jsonNum x \<noteq> JNull"
  by (auto simp: priceSchema_def jsonNum_def price_ok_def)

lemma names_parse: "sideSchema (JStr (sideText s)) = Some s" "kindSchema (JStr (kindText k)) = Some k"
  by (cases s; simp add: sideSchema_def sideText_def) (cases k; simp add: kindSchema_def kindText_def)

lemma allOf_texts: "(\<forall>c\<in>set cs. text_ok 80 c) \<Longrightarrow> allOf (sizedString 80) (map JStr cs) = Some cs"
  by (induction cs) (auto simp: text_parses)

lemmas message_fields = parseClientMessage_def stringifyMessage_def required_def optional_def nullable_def channelsSchema_def orderPlaceSchema_def
  positionCloseSchema_def positionModifySchema_def idSchema_def message_ok_def optField_def nullField_def

text \<open>
  C19: The gateway understands its client: whatever well-formed message the page sends, parsing its JSON text under the
  schema of the gateway gives back the very same message, for every kind of message and every choice of optional fields.
\<close>

theorem client_messages_round_trip:
  assumes "message_ok m"
  shows "parseClientMessage (stringifyMessage m) = Some m"
proof (cases m)
  case (OrderPlaceReq a c s sd k v p sl tp)
  then show ?thesis using assms by (cases p; cases sl; cases tp) (simp_all add: message_fields text_parses price_parses names_parse)
next
  case (PositionModifyReq a p sl tp)
  then show ?thesis using assms
    by (cases sl; cases tp; cases "the sl"; cases "the tp") (simp_all add: message_fields text_parses price_parses)
qed (use assms in \<open>auto simp: message_fields text_parses price_parses allOf_texts split: option.split\<close>)

theorem client_messages_round_trip_witness:
  "parseClientMessage (stringifyMessage (OrderPlaceReq ''a1'' ''c1'' ''EURUSD'' BUY LIMIT (Fin 1) (Some (Fin 2)) None (Some (Fin 3))))
     = Some (OrderPlaceReq ''a1'' ''c1'' ''EURUSD'' BUY LIMIT (Fin 1) (Some (Fin 2)) None (Some (Fin 3)))"
  by (rule client_messages_round_trip) (simp add: message_ok_def text_ok_def price_ok_def)

text \<open>A new stop that is not a number reaches the gateway as \<open>null\<close>, which removes the stop.\<close>

lemma broken_stop_removes_it:
  "text_ok 64 a \<Longrightarrow> text_ok 64 p \<Longrightarrow> parseClientMessage (stringifyMessage (PositionModifyReq a p (Some (Some NaN)) None)) = Some (PositionModifyReq a p (Some None) None)"
  by (simp add: message_fields text_parses jsonNum_def)

text \<open>After a reconnect the page sends all its channels in one message, which the gateway drops when there are more than its limit.\<close>

lemma large_resubscription_is_dropped: "length cs > MAX_CHANNELS \<Longrightarrow> parseClientMessage (stringifyMessage (SubscribeMsg cs)) = None"
  by (simp add: message_fields)

section \<open>Runs\<close>

inductive tw_step :: "TradingSocket \<Rightarrow> TradingSocket \<Rightarrow> bool" where
  tw_enables: "tw_step h (setEnabled b h)"
| tw_unmounts: "tw_mounted h \<Longrightarrow> tw_step h (teardown h)"
| tw_ticket: "g \<in> set (tw_fetches h) \<Longrightarrow> tw_step h (ticketDone g result (h\<lparr>tw_fetches := remove1 g (tw_fetches h)\<rparr>))"
| tw_opens: "(s, SocketConnecting) \<in> set (tw_sockets h) \<Longrightarrow> tw_step h (h\<lparr>tw_sockets := setPhase s SocketOpen (tw_sockets h)\<rparr>)"
| tw_reads: "(s, SocketOpen) \<in> set (tw_sockets h) \<Longrightarrow> tw_step h (socketMessage s parsed now h)"
| tw_fails: "tw_step h (socketErrors s h)"
| tw_closing: "s \<in> fst ` set (tw_sockets h) \<Longrightarrow> tw_step h (h\<lparr>tw_sockets := setPhase s SocketClosing (tw_sockets h)\<rparr>)"
| tw_closes: "s \<in> fst ` set (tw_sockets h) \<Longrightarrow> tw_step h (socketCloses s closeCode reason h)"
| tw_retries: "tw_reconnectTimer h \<Longrightarrow> tw_step h (twReconnectFires h)"
| tw_pings: "tw_pingTimer h \<Longrightarrow> tw_step h (pingFires h)"
| tw_flushes: "tw_flushTimer h \<Longrightarrow> tw_step h (flushFires h)"
| tw_shows: "tw_mounted h \<Longrightarrow> tw_step h (onVisible h)"
| tw_subscribes: "tw_step h (twSubscribe cs h)"
| tw_unsubscribes: "tw_step h (twUnsubscribe cs h)"
| tw_asks: "(\<forall>cs. msg \<noteq> SubscribeMsg cs \<and> msg \<noteq> UnsubscribeMsg cs) \<Longrightarrow> tw_step h (request msg matcher h)"
| tw_sends: "(\<forall>cs. msg \<noteq> SubscribeMsg cs \<and> msg \<noteq> UnsubscribeMsg cs) \<Longrightarrow> tw_step h (snd (twSend msg h))"
| tw_waits: "i \<in> fst ` set (tw_pending h) \<Longrightarrow> tw_step h (waitTimesOut i h)"
| tw_reconnects: "tw_mounted h \<Longrightarrow> tw_step h (reconnect h)"
| tw_listens: "tw_step h (twOnMessage k h)"
| tw_ignores: "tw_step h (twOffMessage k h)"
| tw_saves: "tw_step h (setLowData stores b h)"

text \<open>
  The channels that the messages sent on a socket ask for, and those that the gateway reads from the same messages: it
  drops the ones that its schema refuses. (Which of the channels it then admits is the matter of \<open>Gateway\<close>.)
\<close>

definition asked :: "string set \<Rightarrow> GatewayMessage \<Rightarrow> string set" where
  "asked S msg = (case msg of SubscribeMsg cs \<Rightarrow> S \<union> set cs | UnsubscribeMsg cs \<Rightarrow> S - set cs | _ \<Rightarrow> S)"

definition askedChannels :: "nat \<Rightarrow> TradingSocket \<Rightarrow> string set" where
  "askedChannels s h = foldl asked {} (map snd (filter (\<lambda>x. fst x = s) (tw_sent h)))"

definition readChannels :: "nat \<Rightarrow> TradingSocket \<Rightarrow> string set" where
  "readChannels s h = foldl asked {} (List.map_filter (\<lambda>x. parseClientMessage (stringifyMessage (snd x))) (filter (\<lambda>x. fst x = s) (tw_sent h)))"

lemma readChannels_asked:
  "(\<forall>m. (s, m) \<in> set (tw_sent h) \<longrightarrow> parseClientMessage (stringifyMessage m) = Some m) \<Longrightarrow> readChannels s h = askedChannels s h"
proof -
  assume ok: "\<forall>m. (s, m) \<in> set (tw_sent h) \<longrightarrow> parseClientMessage (stringifyMessage m) = Some m"
  have "List.map_filter (\<lambda>x. parseClientMessage (stringifyMessage (snd x))) xs = map snd xs"
    if "\<forall>x\<in>set xs. parseClientMessage (stringifyMessage (snd x)) = Some (snd x)" for xs :: "(nat \<times> GatewayMessage) list"
    using that by (induction xs) (simp_all add: map_filter_simps)
  then show ?thesis using ok by (simp add: readChannels_def askedChannels_def)
qed

definition sockets_ok :: "TradingSocket \<Rightarrow> bool" where
  "sockets_ok h \<longleftrightarrow> (\<forall>x\<in>set (tw_sockets h). fst x < tw_nextSocket h \<and> (tw_ws h \<noteq> Some (fst x) \<longrightarrow> snd x = SocketClosing))
     \<and> (\<forall>s. tw_ws h = Some s \<longrightarrow> s \<in> fst ` set (tw_sockets h))
     \<and> distinct (map fst (tw_sockets h)) \<and> distinct (tw_fetches h) \<and> (\<forall>g\<in>set (tw_fetches h). g \<le> tw_generation h)"

text \<open>Exactly one of: a ticket on its way, a socket, a timer; none of them when the page is stopped.\<close>

definition busy_ok :: "TradingSocket \<Rightarrow> bool" where
  "busy_ok h \<longleftrightarrow> tw_stopped h = (\<not> tw_mounted h)
     \<and> (if tw_stopped h then tw_ws h = None \<and> \<not> tw_reconnectTimer h \<and> tw_generation h \<notin> set (tw_fetches h)
        else if tw_generation h \<in> set (tw_fetches h) then tw_ws h = None \<and> \<not> tw_reconnectTimer h
        else (tw_ws h = None) = tw_reconnectTimer h)"

definition view_ok :: "TradingSocket \<Rightarrow> bool" where
  "view_ok h \<longleftrightarrow> (\<forall>x\<in>set (tw_sent h). fst x < tw_nextSocket h)
     \<and> (\<forall>s. tw_ws h = Some s \<longrightarrow> (if tw_authed h then (s, SocketOpen) \<in> set (tw_sockets h) \<longrightarrow> askedChannels s h = set (tw_subs h) else askedChannels s h = {})
       \<and> (tw_authed h \<longrightarrow> (s, SocketConnecting) \<notin> set (tw_sockets h)))
     \<and> (tw_ws h = None \<and> \<not> tw_stopped h \<longrightarrow> \<not> tw_authed h)"

definition requests_ok :: "TradingSocket \<Rightarrow> bool" where
  "requests_ok h \<longleftrightarrow> mset (map fst (tw_pending h) @ map fst (tw_settled h)) = mset [0..<tw_nextRequest h]"

section \<open>The connection\<close>

lemma sockets_phase: "sockets_ok h \<Longrightarrow> tw_ws h = Some s \<or> ph = SocketClosing \<Longrightarrow> sockets_ok (h\<lparr>tw_sockets := setPhase s ph (tw_sockets h)\<rparr>)"
  unfolding sockets_ok_def by (auto simp: setPhase_def split_beta comp_def image_iff)

lemma sockets_drop: "sockets_ok h \<Longrightarrow> sockets_ok (closeSocket (tw_ws h) h\<lparr>tw_ws := None\<rparr>)"
  unfolding sockets_ok_def closeSocket_def by (auto simp: setPhase_def split_beta comp_def split: option.splits)

lemma connect_ok:
  assumes "sockets_ok h" "\<not> tw_stopped h" "tw_mounted h" "\<not> tw_reconnectTimer h"
  shows "sockets_ok (twConnect h) \<and> busy_ok (twConnect h)"
proof -
  have "sockets_ok (closeSocket (tw_ws h) h\<lparr>tw_ws := None\<rparr>)" using assms(1) by (rule sockets_drop)
  moreover have "tw_generation h + 1 \<notin> set (tw_fetches h)" using assms(1) by (auto simp: sockets_ok_def)
  ultimately show ?thesis using assms
    by (auto simp: twConnect_def sockets_ok_def busy_ok_def closeSocket_def split: option.splits)
qed

text \<open>Operations that leave the connection alone.\<close>

definition same_line :: "TradingSocket \<Rightarrow> TradingSocket \<Rightarrow> bool" where
  "same_line h h' \<longleftrightarrow> tw_sockets h' = tw_sockets h \<and> tw_ws h' = tw_ws h \<and> tw_nextSocket h' = tw_nextSocket h \<and> tw_fetches h' = tw_fetches h
     \<and> tw_generation h' = tw_generation h \<and> tw_reconnectTimer h' = tw_reconnectTimer h \<and> tw_stopped h' = tw_stopped h \<and> tw_mounted h' = tw_mounted h"

lemma line_send: "same_line h (snd (rawSend msg h))"
  by (simp add: same_line_def rawSend_def split: option.split)

lemma line_trans: "same_line h h' \<Longrightarrow> same_line h' h'' \<Longrightarrow> same_line h h''"
  by (simp add: same_line_def)

lemma line_auth: "same_line h (authOk h)"
proof -
  let ?h = "h\<lparr>tw_authed := True, tw_attempt := 0, tw_lastError := None, tw_status := StatusOpen\<rparr>"
  have "same_line h ?h" by (simp add: same_line_def)
  then have "same_line h (if tw_subs ?h \<noteq> [] then snd (rawSend (SubscribeMsg (tw_subs ?h)) ?h) else ?h)" using line_send line_trans by auto
  then show ?thesis unfolding authOk_def Let_def by (simp add: same_line_def)
qed

lemma line_message: "same_line h (socketMessage s parsed now h)"
proof -
  have "same_line h (dispatch msg h') = same_line h h'" for msg h' by (simp add: dispatch_def same_line_def)
  moreover have "same_line h h" by (simp add: same_line_def)
  moreover have "same_line h (h\<lparr>tw_lastError := x\<rparr>)" "same_line h (h\<lparr>tw_market := y\<rparr>)" "same_line h (scheduleTickFlush (h\<lparr>tw_tickBuffer := z, tw_tickDirty := True\<rparr>))" for x y z
    by (simp_all add: same_line_def scheduleTickFlush_def)
  ultimately show ?thesis using line_auth [of h] by (auto simp: socketMessage_def split: option.split ServerFrame.split)
qed

lemma line_subs: "same_line h (twSubscribe cs h)" "same_line h (twUnsubscribe cs h)"
proof -
  have "same_line h (h\<lparr>tw_subs := x\<rparr>)" for x by (simp add: same_line_def)
  then show "same_line h (twSubscribe cs h)" "same_line h (twUnsubscribe cs h)"
    using line_trans line_send unfolding twSubscribe_def twUnsubscribe_def Let_def by (auto intro: line_trans [OF _ line_send])
qed

lemma line_request: "same_line h (request msg m h)"
proof -
  have "same_line h (h\<lparr>tw_nextRequest := n, tw_pending := x\<rparr>)" "same_line h (h\<lparr>tw_nextRequest := n\<rparr>)" for n x by (simp_all add: same_line_def)
  moreover have "same_line h (settle i out h') = same_line h h'" "same_line h (h'\<lparr>tw_pending := x\<rparr>) = same_line h h'" for i out h' x by (simp_all add: settle_def same_line_def)
  ultimately show ?thesis unfolding request_def Let_def by (auto simp: split_beta intro: line_trans [OF _ line_send])
qed

lemma line_plain:
  "same_line h (socketErrors s h)" "same_line h (flushFires h)" "same_line h (waitTimesOut i h)" "same_line h (twOnMessage k h)" "same_line h (twOffMessage k h)"
  "same_line h (setLowData st b h)"
  by (simp_all add: same_line_def socketErrors_def flushFires_def Let_def waitTimesOut_def settle_def twOnMessage_def twOffMessage_def setLowData_def)

lemma line_ok: "same_line h h' \<Longrightarrow> sockets_ok h \<Longrightarrow> busy_ok h \<Longrightarrow> sockets_ok h' \<and> busy_ok h'"
  by (simp add: same_line_def sockets_ok_def busy_ok_def)

lemma schedule_ok:
  assumes "sockets_ok h" "\<not> tw_stopped h" "tw_mounted h" "tw_ws h = None" "tw_generation h \<notin> set (tw_fetches h)"
  shows "sockets_ok (scheduleReconnect h) \<and> busy_ok (scheduleReconnect h)"
  using assms by (simp add: scheduleReconnect_def sockets_ok_def busy_ok_def)

lemma teardown_ok: "sockets_ok h \<Longrightarrow> sockets_ok (teardown h) \<and> busy_ok (teardown h)"
proof -
  assume h: "sockets_ok h"
  then have "sockets_ok (closeSocket (tw_ws h) h\<lparr>tw_ws := None\<rparr>)" by (rule sockets_drop)
  moreover have "tw_generation h + 1 \<notin> set (tw_fetches h)" using h by (auto simp: sockets_ok_def)
  ultimately show ?thesis using h
    by (auto simp: teardown_def Let_def rejectAllPending_def clearSocketTimers_def sockets_ok_def busy_ok_def closeSocket_def split: option.splits)
qed

lemma effect_ok:
  assumes "sockets_ok h" "busy_ok h" "tw_stopped h"
  shows "sockets_ok (runEffect h) \<and> busy_ok (runEffect h)"
proof (cases "tw_enabled h")
  case True
  have "sockets_ok (h\<lparr>tw_stopped := False, tw_mounted := True\<rparr>)" using assms(1) by (simp add: sockets_ok_def)
  then show ?thesis using connect_ok [of "h\<lparr>tw_stopped := False, tw_mounted := True\<rparr>"] assms True by (simp add: runEffect_def busy_ok_def)
next
  case False
  then show ?thesis using assms by (simp add: runEffect_def sockets_ok_def busy_ok_def)
qed

lemma ticket_ok:
  assumes "sockets_ok h" "busy_ok h" "g \<in> set (tw_fetches h)"
  shows "sockets_ok (ticketDone g result (h\<lparr>tw_fetches := remove1 g (tw_fetches h)\<rparr>)) \<and> busy_ok (ticketDone g result (h\<lparr>tw_fetches := remove1 g (tw_fetches h)\<rparr>))"
proof -
  let ?h = "h\<lparr>tw_fetches := remove1 g (tw_fetches h)\<rparr>"
  have d: "set (remove1 g (tw_fetches h)) = set (tw_fetches h) - {g}" using assms(1) by (simp add: sockets_ok_def)
  have ok: "sockets_ok ?h" using assms(1) d by (simp add: sockets_ok_def distinct_remove1)
  show ?thesis
  proof (cases "g \<noteq> tw_generation h \<or> tw_stopped h")
    case True
    then have "tw_generation h \<in> set (remove1 g (tw_fetches h)) \<longleftrightarrow> tw_generation h \<in> set (tw_fetches h)"
      using assms(2) unfolding d by (cases "tw_stopped h") (simp_all add: busy_ok_def)
    then have "busy_ok ?h" using assms(2) by (simp add: busy_ok_def)
    then show ?thesis using ok True by (simp add: ticketDone_def)
  next
    case False
    then have h: "tw_ws h = None" "\<not> tw_reconnectTimer h" "tw_mounted h" "tw_generation h \<notin> set (tw_fetches ?h)" using assms(2,3) d by (auto simp: busy_ok_def)
    have "sockets_ok (?h\<lparr>tw_lastError := e, tw_status := st\<rparr>)" for e st using ok by (simp add: sockets_ok_def)
    from schedule_ok [OF this] have failed: "sockets_ok (scheduleReconnect (?h\<lparr>tw_lastError := e, tw_status := st\<rparr>)) \<and> busy_ok (scheduleReconnect (?h\<lparr>tw_lastError := e, tw_status := st\<rparr>))" for e st
      using False h by simp
    show ?thesis
    proof (cases result)
      case SocketMade
      have "tw_nextSocket h \<notin> fst ` set (tw_sockets h)" using assms(1) by (auto simp: sockets_ok_def)
      then show ?thesis using False h ok SocketMade by (auto simp: ticketDone_def sockets_ok_def busy_ok_def less_SucI)
    qed (use False failed in \<open>simp_all add: ticketDone_def\<close>)
  qed
qed

lemma hook_close_ok:
  assumes "sockets_ok h" "busy_ok h"
  shows "sockets_ok (socketCloses s c r h) \<and> busy_ok (socketCloses s c r h)"
proof -
  let ?h = "h\<lparr>tw_sockets := gone s (tw_sockets h)\<rparr>"
  have sub: "x \<in> set (gone s (tw_sockets h)) \<longleftrightarrow> x \<in> set (tw_sockets h) \<and> fst x \<noteq> s" for x by (auto simp: gone_def)
  have "fst ` set (gone s (tw_sockets h)) = set (filter (\<lambda>n. n \<noteq> s) (map fst (tw_sockets h)))" using gone_fst by (metis list.set_map)
  then have keys: "fst ` set (gone s (tw_sockets h)) = fst ` set (tw_sockets h) - {s}" by auto
  have dist: "distinct (map fst (gone s (tw_sockets h)))" using assms(1) by (simp add: sockets_ok_def)
  show ?thesis
  proof (cases "tw_ws h = Some s")
    case False
    then have "sockets_ok ?h" using assms(1) dist sub keys unfolding sockets_ok_def by simp blast
    then show ?thesis using False assms(2) by (simp add: socketCloses_def Let_def busy_ok_def)
  next
    case True
    let ?r = "rejectAllPending ''Trading connection closed'' (?h\<lparr>tw_ws := None, tw_authed := False, tw_pingTimer := False\<rparr>)"
    have run: "\<not> tw_stopped h" "tw_mounted h" "tw_generation h \<notin> set (tw_fetches h)" using assms(2) True by (auto simp: busy_ok_def split: if_splits)
    have "sockets_ok (?r\<lparr>tw_lastError := e, tw_status := st\<rparr>)" for e st
      using assms(1) dist sub True unfolding sockets_ok_def rejectAllPending_def by auto
    from schedule_ok [OF this] show ?thesis using True run by (simp add: socketCloses_def Let_def rejectAllPending_def)
  qed
qed

lemma busy_sockets [simp]: "busy_ok (h\<lparr>tw_sockets := x\<rparr>) = busy_ok h"
  by (simp add: busy_ok_def)

lemma line_step: "tw_step h h' \<Longrightarrow> sockets_ok h \<Longrightarrow> busy_ok h \<Longrightarrow> sockets_ok h' \<and> busy_ok h'"
proof (induction rule: tw_step.induct)
  case (tw_enables h b)
  let ?h = "(if tw_mounted h then teardown h else h)\<lparr>tw_enabled := b\<rparr>"
  have "sockets_ok ?h" "busy_ok ?h" using tw_enables teardown_ok [of h] by (auto simp: sockets_ok_def busy_ok_def)
  moreover have "tw_stopped ?h" using tw_enables by (auto simp: busy_ok_def teardown_def Let_def rejectAllPending_def clearSocketTimers_def closeSocket_def split: option.split)
  ultimately show ?case using effect_ok [of ?h] tw_enables
    by (cases "b = tw_enabled h") (simp_all only: setEnabled_def if_True if_False simp_thms)
next
  case (tw_opens s h)
  then have "tw_ws h = Some s" unfolding sockets_ok_def by fastforce
  then show ?case using tw_opens sockets_phase [of h s SocketOpen] by simp
next
  case (tw_closing s h)
  then show ?case using sockets_phase [of h s SocketClosing] by simp
next
  case (tw_retries h)
  have "\<not> tw_stopped h" "tw_mounted h" using tw_retries by (auto simp: busy_ok_def)
  moreover have "sockets_ok (h\<lparr>tw_reconnectTimer := False\<rparr>)" using tw_retries by (simp add: sockets_ok_def)
  ultimately show ?case using connect_ok [of "h\<lparr>tw_reconnectTimer := False\<rparr>"] by (simp add: twReconnectFires_def)
next
  case (tw_shows h)
  have "sockets_ok (h\<lparr>tw_reconnectTimer := False\<rparr>)" using tw_shows by (simp add: sockets_ok_def)
  then show ?case using connect_ok [of "h\<lparr>tw_reconnectTimer := False\<rparr>"] tw_shows by (simp add: onVisible_def)
next
  case (tw_reconnects h)
  have "sockets_ok (h\<lparr>tw_reconnectTimer := False, tw_attempt := 0, tw_stopped := False\<rparr>)" using tw_reconnects by (simp add: sockets_ok_def)
  then show ?case using connect_ok [of "h\<lparr>tw_reconnectTimer := False, tw_attempt := 0, tw_stopped := False\<rparr>"] tw_reconnects by (simp add: reconnect_def)
next
  case (tw_reads s h parsed now)
  then show ?case using line_ok [OF line_message] by blast
next
  case (tw_subscribes h cs)
  then show ?case using line_ok [OF line_subs(1)] by blast
next
  case (tw_unsubscribes h cs)
  then show ?case using line_ok [OF line_subs(2)] by blast
next
  case (tw_asks msg h matcher)
  then show ?case using line_ok [OF line_request] by blast
next
  case (tw_pings h)
  then show ?case using line_ok [OF line_send] by (simp add: pingFires_def)
next
  case (tw_sends msg h)
  then show ?case using line_ok [OF line_send] by (simp add: twSend_def)
next
  case (tw_unmounts h)
  then show ?case using teardown_ok by blast
next
  case (tw_ticket g h result)
  then show ?case using ticket_ok by blast
next
  case (tw_closes s h closeCode reason)
  then show ?case using hook_close_ok by blast
qed (rule line_ok [OF line_plain(1)] line_ok [OF line_plain(2)] line_ok [OF line_plain(3)] line_ok [OF line_plain(4)] line_ok [OF line_plain(5)]
    line_ok [OF line_plain(6)]; assumption)+

section \<open>What the server holds\<close>

lemma view_send: "askedChannels s (snd (rawSend msg h)) = (if openSocket h = Some s then asked (askedChannels s h) msg else askedChannels s h)"
  by (auto simp: rawSend_def askedChannels_def split: option.split)

lemma send_fields [simp]:
  "tw_ws (snd (rawSend msg h)) = tw_ws h" "tw_authed (snd (rawSend msg h)) = tw_authed h" "tw_sockets (snd (rawSend msg h)) = tw_sockets h"
  "tw_subs (snd (rawSend msg h)) = tw_subs h" "tw_stopped (snd (rawSend msg h)) = tw_stopped h" "tw_nextSocket (snd (rawSend msg h)) = tw_nextSocket h"
  by (simp_all add: rawSend_def split: option.split)

lemma open_is_ws: "openSocket h = Some s \<longleftrightarrow> tw_ws h = Some s \<and> (s, SocketOpen) \<in> set (tw_sockets h)"
  by (auto simp: openSocket_def split: option.splits if_splits)

lemma view_frames [simp]:
  "askedChannels s (h\<lparr>tw_stopped := b\<rparr>) = askedChannels s h" "askedChannels s (h\<lparr>tw_pingTimer := b\<rparr>) = askedChannels s h" "askedChannels s (h\<lparr>tw_subs := x\<rparr>) = askedChannels s h"
  "askedChannels s (h\<lparr>tw_sockets := k\<rparr>) = askedChannels s h"
  "askedChannels s (h\<lparr>tw_authed := b, tw_attempt := n, tw_lastError := e, tw_status := st\<rparr>) = askedChannels s h"
  by (simp_all add: askedChannels_def)

lemma send_sent: "sockets_ok h \<Longrightarrow> \<forall>x\<in>set (tw_sent h). fst x < tw_nextSocket h \<Longrightarrow> \<forall>x\<in>set (tw_sent (snd (rawSend msg h))). fst x < tw_nextSocket h"
  by (auto simp: rawSend_def open_is_ws sockets_ok_def split: option.split)

definition same_view :: "TradingSocket \<Rightarrow> TradingSocket \<Rightarrow> bool" where
  "same_view h h' \<longleftrightarrow> tw_sent h' = tw_sent h \<and> tw_nextSocket h' = tw_nextSocket h \<and> tw_ws h' = tw_ws h \<and> tw_authed h' = tw_authed h
     \<and> tw_sockets h' = tw_sockets h \<and> tw_subs h' = tw_subs h \<and> tw_stopped h' = tw_stopped h"

lemma same_view_ok: "same_view h h' \<Longrightarrow> view_ok h = view_ok h'"
  by (simp add: same_view_def view_ok_def askedChannels_def)

lemma view_other: "view_ok h \<Longrightarrow> sockets_ok h \<Longrightarrow> (\<forall>S. asked S msg = S) \<Longrightarrow> view_ok (snd (rawSend msg h))"
  using send_sent [of h msg] by (simp add: view_ok_def view_send)

lemma view_connect: "view_ok h \<Longrightarrow> \<not> tw_stopped h \<Longrightarrow> view_ok (twConnect h)"
  by (simp add: view_ok_def twConnect_def askedChannels_def closeSocket_def split: option.splits)

lemma view_teardown: "view_ok h \<Longrightarrow> view_ok (teardown h)"
  by (simp add: view_ok_def teardown_def Let_def closeSocket_def rejectAllPending_def clearSocketTimers_def split: option.splits)

lemma view_effect: "view_ok h \<Longrightarrow> view_ok (runEffect h)"
proof -
  assume h: "view_ok h"
  then have "view_ok (h\<lparr>tw_stopped := True\<rparr>)" by (simp add: view_ok_def)
  moreover have "view_ok (twConnect (h\<lparr>tw_stopped := False, tw_mounted := True\<rparr>))"
    using h by (simp add: view_ok_def twConnect_def askedChannels_def closeSocket_def split: option.splits)
  ultimately show ?thesis by (simp add: runEffect_def)
qed

lemma view_auth:
  assumes "view_ok h" "sockets_ok h" "(s, SocketOpen) \<in> set (tw_sockets h)" "tw_ws h = Some s"
  shows "view_ok (authOk h)"
proof -
  let ?h = "h\<lparr>tw_authed := True, tw_attempt := 0, tw_lastError := None, tw_status := StatusOpen\<rparr>"
  have open1: "openSocket ?h = Some s" using assms(3,4) by (simp add: open_is_ws)
  have "(s, SocketConnecting) \<notin> set (tw_sockets h)"
    using assms(2,3) unfolding sockets_ok_def by (metis SocketPhase.distinct(1) eq_key_imp_eq_value)
  moreover have "askedChannels s h = {} \<or> askedChannels s h = set (tw_subs h)" using assms by (auto simp: view_ok_def split: if_splits)
  moreover have "sockets_ok ?h" using assms(2) by (simp add: sockets_ok_def)
  then have "\<forall>x\<in>set (tw_sent (snd (rawSend (SubscribeMsg (tw_subs h)) ?h))). fst x < tw_nextSocket h" using send_sent [of ?h] assms(1) by (simp add: view_ok_def)
  moreover have "\<forall>x\<in>set (tw_sent h). fst x < tw_nextSocket h" using assms(1) by (simp add: view_ok_def)
  ultimately have "view_ok (snd (rawSend (SubscribeMsg (tw_subs h)) ?h))" "tw_subs h = [] \<Longrightarrow> view_ok ?h"
    using assms(4) open1 by (simp_all add: view_ok_def view_send asked_def) blast+
  then have "view_ok (if tw_subs ?h \<noteq> [] then snd (rawSend (SubscribeMsg (tw_subs ?h)) ?h) else ?h)" by simp
  moreover have ping: "view_ok (g\<lparr>tw_pingTimer := True\<rparr>) = view_ok g" for g by (rule same_view_ok [symmetric]) (simp add: same_view_def)
  ultimately show ?thesis unfolding authOk_def Let_def by (simp only: ping)
qed

lemma view_dispatch: "view_ok (dispatch msg h) = view_ok h"
  by (rule same_view_ok [symmetric]) (simp add: same_view_def dispatch_def)

lemma view_message:
  assumes "view_ok h" "sockets_ok h" "(s, SocketOpen) \<in> set (tw_sockets h)"
  shows "view_ok (socketMessage s parsed now h)"
proof -
  have "same_view h (h\<lparr>tw_lastError := x\<rparr>)" "same_view h (h\<lparr>tw_market := y\<rparr>)" "same_view h (scheduleTickFlush (h\<lparr>tw_tickBuffer := z, tw_tickDirty := True\<rparr>))" for x y z
    by (simp_all add: same_view_def scheduleTickFlush_def)
  then have "view_ok (h\<lparr>tw_lastError := x\<rparr>)" "view_ok (h\<lparr>tw_market := y\<rparr>)" "view_ok (scheduleTickFlush (h\<lparr>tw_tickBuffer := z, tw_tickDirty := True\<rparr>))" for x y z
    using same_view_ok assms(1) by blast+
  then show ?thesis using view_auth [OF assms] assms(1) by (simp add: socketMessage_def view_dispatch split: option.split ServerFrame.split)
qed

lemma view_ticket:
  assumes "view_ok h" "busy_ok h" "g \<in> set (tw_fetches h)"
  shows "view_ok (ticketDone g result (h\<lparr>tw_fetches := remove1 g (tw_fetches h)\<rparr>))"
proof -
  let ?h = "h\<lparr>tw_fetches := remove1 g (tw_fetches h)\<rparr>"
  have same: "same_view h ?h" "same_view h (scheduleReconnect (?h\<lparr>tw_lastError := e, tw_status := st\<rparr>))" for e st
    by (simp_all add: same_view_def scheduleReconnect_def)
  then have ok: "view_ok ?h" "view_ok (scheduleReconnect (?h\<lparr>tw_lastError := e, tw_status := st\<rparr>))" for e st using same_view_ok assms(1) by blast+
  show ?thesis
  proof (cases "g \<noteq> tw_generation h \<or> tw_stopped h")
    case False
    then have "\<not> tw_authed h" using assms by (auto simp: busy_ok_def view_ok_def)
    moreover have none: "filter (\<lambda>x. fst x = tw_nextSocket h) (tw_sent h) = []" using assms(1) by (auto simp: view_ok_def filter_empty_conv)
    ultimately have "view_ok (?h\<lparr>tw_ws := Some (tw_nextSocket h), tw_sockets := k, tw_nextSocket := tw_nextSocket h + 1\<rparr>)" for k
      using assms(1) by (auto simp: view_ok_def askedChannels_def less_SucI)
    then show ?thesis using False ok by (cases result) (simp_all add: ticketDone_def)
  qed (use ok in \<open>simp add: ticketDone_def\<close>)
qed

lemma subs_added: "set (foldl addSub subs cs) = set subs \<union> set cs"
  by (induction cs arbitrary: subs) (auto simp: addSub_def)

lemma view_subs:
  assumes "view_ok h" "sockets_ok h"
  shows "view_ok (twSubscribe cs h)" "view_ok (twUnsubscribe cs h)"
proof -
  have sent: "\<forall>x\<in>set (tw_sent (snd (rawSend msg (h\<lparr>tw_subs := y\<rparr>)))). fst x < tw_nextSocket h" for msg y
    using send_sent [of "h\<lparr>tw_subs := y\<rparr>"] assms by (simp add: view_ok_def sockets_ok_def)
  have op: "openSocket (h\<lparr>tw_subs := y\<rparr>) = openSocket h" for y by (cases "tw_ws h") (simp_all add: openSocket_def)
  show "view_ok (twSubscribe cs h)" using assms(1) sent
    by (auto simp: twSubscribe_def Let_def view_ok_def view_send op open_is_ws asked_def subs_added filter_empty_conv)
  show "view_ok (twUnsubscribe cs h)" using assms(1) sent
    by (auto simp: twUnsubscribe_def Let_def view_ok_def view_send op open_is_ws asked_def filter_empty_conv)
qed

lemma view_phase:
  assumes "view_ok h" "sockets_ok h" "ph = SocketClosing \<or> ph = SocketOpen \<and> (s, SocketConnecting) \<in> set (tw_sockets h)"
  shows "view_ok (h\<lparr>tw_sockets := setPhase s ph (tw_sockets h)\<rparr>)"
proof -
  have other: "(n, x) \<in> set (setPhase s ph (tw_sockets h)) \<longleftrightarrow> (n, x) \<in> set (tw_sockets h)" if "n \<noteq> s" for n x
    using that by (force simp: setPhase_def split_beta image_iff)
  have own: "(s, x) \<in> set (setPhase s ph (tw_sockets h)) \<Longrightarrow> x = ph" for x by (auto simp: setPhase_def split_beta split: if_splits)
  have signed: "ph = SocketOpen \<Longrightarrow> tw_ws h = Some s \<Longrightarrow> \<not> tw_authed h" using assms(1,3) by (auto simp: view_ok_def)
  show ?thesis
  proof (cases "tw_ws h")
    case None
    then show ?thesis using assms(1) by (simp add: view_ok_def)
  next
    case (Some n)
    show ?thesis
    proof (cases "n = s")
      case False
      then show ?thesis using assms(1) Some other [of n] by (simp add: view_ok_def)
    next
      case True
      then have "tw_authed h \<Longrightarrow> (s, SocketOpen) \<notin> set (setPhase s ph (tw_sockets h)) \<and> (s, SocketConnecting) \<notin> set (setPhase s ph (tw_sockets h))"
        using signed own assms(3) Some by blast
      then show ?thesis using assms(1) Some True by (simp add: view_ok_def)
    qed
  qed
qed

lemma view_close: "view_ok h \<Longrightarrow> view_ok (socketCloses s c r h)"
proof -
  assume h: "view_ok h"
  have sub: "(n, x) \<in> set (gone s (tw_sockets h)) \<Longrightarrow> (n, x) \<in> set (tw_sockets h)" for n x by (auto simp: gone_def)
  have "view_ok (h\<lparr>tw_sockets := gone s (tw_sockets h)\<rparr>)" using h sub unfolding view_ok_def by simp blast
  moreover have "view_ok (scheduleReconnect (rejectAllPending t (h\<lparr>tw_sockets := k, tw_ws := None, tw_authed := False, tw_pingTimer := False\<rparr>)\<lparr>tw_lastError := e, tw_status := st\<rparr>))"
    "view_ok (rejectAllPending t (h\<lparr>tw_sockets := k, tw_ws := None, tw_authed := False, tw_pingTimer := False\<rparr>))" for t k e st
    using h by (simp_all add: view_ok_def scheduleReconnect_def rejectAllPending_def)
  ultimately show ?thesis by (simp add: socketCloses_def Let_def)
qed

lemma view_request:
  assumes "view_ok h" "sockets_ok h" "\<forall>S. asked S msg = S"
  shows "view_ok (request msg m h)"
proof -
  have same: "view_ok (h\<lparr>tw_nextRequest := n\<rparr>)" "view_ok (h\<lparr>tw_nextRequest := n, tw_pending := x\<rparr>)" for n x
    using assms(1) same_view_ok [of h "h\<lparr>tw_nextRequest := n\<rparr>"] same_view_ok [of h "h\<lparr>tw_nextRequest := n, tw_pending := x\<rparr>"] by (simp_all add: same_view_def)
  have "sockets_ok (h\<lparr>tw_nextRequest := n, tw_pending := x\<rparr>)" for n x using assms(2) by (simp add: sockets_ok_def)
  then have sent: "view_ok (snd (rawSend msg (h\<lparr>tw_nextRequest := n, tw_pending := x\<rparr>)))" for n x using same view_other assms(3) by blast
  have "view_ok (settle i out g) = view_ok g" "view_ok (g\<lparr>tw_pending := x\<rparr>) = view_ok g" for i out g x
    using same_view_ok [of g "settle i out g"] same_view_ok [of g "g\<lparr>tw_pending := x\<rparr>"] by (simp_all add: same_view_def settle_def)
  then show ?thesis using same sent by (simp add: request_def Let_def split_beta)
qed

lemma asked_other: "\<forall>cs. msg \<noteq> SubscribeMsg cs \<and> msg \<noteq> UnsubscribeMsg cs \<Longrightarrow> \<forall>S. asked S msg = S"
  by (cases msg) (auto simp: asked_def)

lemma view_plain:
  "same_view h (socketErrors s h)" "same_view h (flushFires h)" "same_view h (waitTimesOut i h)" "same_view h (twOnMessage k h)" "same_view h (twOffMessage k h)"
  "same_view h (setLowData st b h)" "same_view h (h\<lparr>tw_reconnectTimer := False\<rparr>)" "same_view h (h\<lparr>tw_enabled := b\<rparr>)"
  by (simp_all add: same_view_def socketErrors_def flushFires_def Let_def waitTimesOut_def settle_def twOnMessage_def twOffMessage_def setLowData_def)

lemma view_step: "tw_step h h' \<Longrightarrow> sockets_ok h \<Longrightarrow> busy_ok h \<Longrightarrow> view_ok h \<Longrightarrow> view_ok h'"
proof (induction rule: tw_step.induct)
  case (tw_enables h b)
  then show ?case using view_effect view_teardown same_view_ok [OF view_plain(8)] by (simp add: setEnabled_def)
next
  case (tw_ticket g h result)
  then show ?case using view_ticket by blast
next
  case (tw_opens s h)
  then show ?case using view_phase by blast
next
  case (tw_closing s h)
  then show ?case using view_phase by blast
next
  case (tw_reads s h parsed now)
  then show ?case using view_message by blast
next
  case (tw_retries h)
  then have "\<not> tw_stopped h" by (auto simp: busy_ok_def)
  then show ?case using view_connect [of "h\<lparr>tw_reconnectTimer := False\<rparr>"] tw_retries(4) same_view_ok [OF view_plain(7)] by (simp add: twReconnectFires_def)
next
  case (tw_shows h)
  then show ?case using view_connect [of "h\<lparr>tw_reconnectTimer := False\<rparr>"] same_view_ok [OF view_plain(7)] by (simp add: onVisible_def)
next
  case (tw_reconnects h)
  then have "\<not> tw_stopped h" by (simp add: busy_ok_def)
  then have "same_view h (h\<lparr>tw_reconnectTimer := False, tw_attempt := 0, tw_stopped := False\<rparr>)" by (simp add: same_view_def)
  then show ?case using view_connect [of "h\<lparr>tw_reconnectTimer := False, tw_attempt := 0, tw_stopped := False\<rparr>"] tw_reconnects(4) same_view_ok by (simp add: reconnect_def)
next
  case (tw_pings h)
  then show ?case using view_other [of h Ping] by (simp add: pingFires_def asked_def)
next
  case (tw_sends msg h)
  then show ?case using view_other asked_other by (simp add: twSend_def)
next
  case (tw_asks msg h matcher)
  then show ?case using view_request asked_other by blast
next
  case (tw_closes s h closeCode reason)
  then show ?case using view_close by blast
next
  case (tw_unmounts h)
  then show ?case using view_teardown by blast
next
  case (tw_subscribes h cs)
  then show ?case using view_subs by blast
next
  case (tw_unsubscribes h cs)
  then show ?case using view_subs by blast
qed (simp_all flip: same_view_ok [OF view_plain(1)] same_view_ok [OF view_plain(2)] same_view_ok [OF view_plain(3)] same_view_ok [OF view_plain(4)]
    same_view_ok [OF view_plain(5)] same_view_ok [OF view_plain(6)])

section \<open>Requests\<close>

text \<open>Operations that keep the set of requests, waiting or settled.\<close>

definition same_requests :: "TradingSocket \<Rightarrow> TradingSocket \<Rightarrow> bool" where
  "same_requests h h' \<longleftrightarrow> tw_nextRequest h' = tw_nextRequest h
     \<and> mset (map fst (tw_pending h') @ map fst (tw_settled h')) = mset (map fst (tw_pending h) @ map fst (tw_settled h))"

lemma same_requests_ok: "same_requests h h' \<Longrightarrow> requests_ok h \<Longrightarrow> requests_ok h'"
  by (simp add: same_requests_def requests_ok_def)

lemma requests_refl: "same_requests h h"
  by (simp add: same_requests_def)

lemma requests_trans: "same_requests h h' \<Longrightarrow> same_requests h' h'' \<Longrightarrow> same_requests h h''"
  by (simp add: same_requests_def)

lemma requests_reject: "same_requests h (rejectAllPending r h)"
  by (simp add: same_requests_def rejectAllPending_def split_beta comp_def)

lemma requests_dispatch: "same_requests h (dispatch msg h)"
proof -
  have "mset (map fst xs) = mset (map fst (filter f xs)) + mset (map fst (filter (\<lambda>x. \<not> f x) xs))" for f and xs :: "(nat \<times> (ServerFrame \<Rightarrow> bool)) list"
    by (induction xs) auto
  from this [of "tw_pending h" "\<lambda>(i, m). m msg"] show ?thesis
    by (simp add: same_requests_def dispatch_def split_beta comp_def)
qed

lemma requests_frame:
  "tw_pending h' = tw_pending h \<Longrightarrow> tw_settled h' = tw_settled h \<Longrightarrow> tw_nextRequest h' = tw_nextRequest h \<Longrightarrow> same_requests h h'"
  by (simp add: same_requests_def)

lemma pending_frames [simp]:
  "tw_pending (snd (rawSend msg h)) = tw_pending h" "tw_settled (snd (rawSend msg h)) = tw_settled h" "tw_nextRequest (snd (rawSend msg h)) = tw_nextRequest h"
  "tw_pending (closeSocket w h) = tw_pending h" "tw_settled (closeSocket w h) = tw_settled h" "tw_nextRequest (closeSocket w h) = tw_nextRequest h"
  "tw_pending (twConnect h) = tw_pending h" "tw_settled (twConnect h) = tw_settled h" "tw_nextRequest (twConnect h) = tw_nextRequest h"
  "tw_pending (scheduleReconnect h) = tw_pending h" "tw_settled (scheduleReconnect h) = tw_settled h" "tw_nextRequest (scheduleReconnect h) = tw_nextRequest h"
  "tw_pending (authOk h) = tw_pending h" "tw_settled (authOk h) = tw_settled h" "tw_nextRequest (authOk h) = tw_nextRequest h"
  by (simp_all add: rawSend_def closeSocket_def twConnect_def scheduleReconnect_def authOk_def Let_def split: option.split)

lemma requests_message: "same_requests h (socketMessage s parsed now h)"
proof -
  have "same_requests h (dispatch msg h') = same_requests h h'" for h' msg using requests_dispatch [of h' msg] by (simp add: same_requests_def)
  then show ?thesis
    by (simp add: socketMessage_def scheduleTickFlush_def requests_refl split: option.split ServerFrame.split) (simp add: same_requests_def)
qed

lemma requests_teardown: "same_requests h (teardown h)"
proof -
  let ?h = "(clearSocketTimers (h\<lparr>tw_stopped := True, tw_mounted := False\<rparr>))\<lparr>tw_flushTimer := False\<rparr>"
  have "same_requests h ?h" by (rule requests_frame) (simp_all add: clearSocketTimers_def)
  then have "same_requests h (rejectAllPending ''Trading connection closed'' ?h)" using requests_reject requests_trans by blast
  then show ?thesis by (simp add: teardown_def Let_def same_requests_def)
qed

lemma requests_close: "same_requests h (socketCloses s c r h)"
proof -
  let ?h = "h\<lparr>tw_sockets := gone s (tw_sockets h)\<rparr>"
  let ?g = "?h\<lparr>tw_ws := None, tw_authed := False, tw_pingTimer := False\<rparr>"
  have "same_requests h ?h" "same_requests h ?g" by (simp_all add: same_requests_def)
  moreover have "same_requests h (rejectAllPending ''Trading connection closed'' ?g)" using calculation(2) requests_reject requests_trans by blast
  ultimately show ?thesis by (simp add: socketCloses_def Let_def same_requests_def)
qed

lemma requests_ticket: "same_requests h (ticketDone g result (h\<lparr>tw_fetches := x\<rparr>))"
  by (rule requests_frame) (simp_all add: ticketDone_def split: TicketResult.split)

lemma requests_enable: "same_requests h (setEnabled b h)"
proof -
  have "same_requests h ((if tw_mounted h then teardown h else h)\<lparr>tw_enabled := b\<rparr>)" using requests_teardown [of h] by (simp add: same_requests_def)
  moreover have "same_requests g (runEffect g)" for g by (rule requests_frame) (simp_all add: runEffect_def)
  ultimately have "same_requests h (runEffect ((if tw_mounted h then teardown h else h)\<lparr>tw_enabled := b\<rparr>))" using requests_trans by blast
  then show ?thesis using requests_refl unfolding setEnabled_def by (cases "b = tw_enabled h") (simp_all only: if_True if_False simp_thms)
qed

lemma requests_plain:
  "same_requests h (socketErrors s h)" "same_requests h (flushFires h)" "same_requests h (twOnMessage k h)" "same_requests h (twOffMessage k h)"
  "same_requests h (setLowData st b h)" "same_requests h (twReconnectFires h)" "same_requests h (reconnect h)" "same_requests h (onVisible h)"
  "same_requests h (twSubscribe cs h)" "same_requests h (twUnsubscribe cs h)" "same_requests h (pingFires h)" "same_requests h (snd (twSend msg h))"
  "same_requests h (h\<lparr>tw_sockets := y\<rparr>)"
  by (rule requests_frame; simp add: socketErrors_def flushFires_def Let_def twOnMessage_def twOffMessage_def setLowData_def twReconnectFires_def reconnect_def onVisible_def
    twSubscribe_def twUnsubscribe_def pingFires_def twSend_def)+

lemma drop_key: "distinct (map fst xs) \<Longrightarrow> (i, m) \<in> set xs \<Longrightarrow> mset (map fst xs) = add_mset i (mset (map fst (filter (\<lambda>(k, x). k \<noteq> i) xs)))"
proof (induction xs)
  case (Cons x xs)
  then show ?case
  proof (cases "fst x = i")
    case True
    then have "filter (\<lambda>x. fst x \<noteq> i) xs = xs" using Cons.prems(1) by (intro filter_True) (auto simp: image_iff)
    from arg_cong [OF this, of mset] show ?thesis using True by (simp add: split_beta)
  qed (auto simp: split_beta)
qed simp

lemma requests_distinct: "requests_ok h \<Longrightarrow> distinct (map fst (tw_pending h) @ map fst (tw_settled h))"
  unfolding requests_ok_def by (metis mset_eq_imp_distinct_iff distinct_upt)

lemma requests_wait:
  assumes "requests_ok h" "i \<in> fst ` set (tw_pending h)"
  shows "requests_ok (waitTimesOut i h)"
proof -
  obtain m where "(i, m) \<in> set (tw_pending h)" using assms(2) by auto
  then have "mset (map fst (tw_pending h)) = add_mset i (mset (map fst (filter (\<lambda>(k, x). k \<noteq> i) (tw_pending h))))"
    using drop_key requests_distinct [OF assms(1)] by (metis distinct_append)
  then show ?thesis using assms(1) by (simp add: requests_ok_def waitTimesOut_def settle_def)
qed

lemma requests_request: "requests_ok h \<Longrightarrow> requests_ok (request msg m h)"
proof -
  assume h: "requests_ok h"
  have sent: "openSocket g \<noteq> None \<Longrightarrow> fst (rawSend msg g)" for g by (auto simp: rawSend_def)
  have op: "openSocket (h\<lparr>tw_nextRequest := n\<rparr>) = openSocket h" "openSocket (h\<lparr>tw_nextRequest := n, tw_pending := x\<rparr>) = openSocket h" for n x
    by (cases "tw_ws h"; simp add: openSocket_def)+
  show ?thesis
  proof (cases "openSocket h = None \<or> \<not> tw_authed h")
    case True
    then show ?thesis using h by (auto simp: request_def Let_def op settle_def requests_ok_def atLeast0_lessThan_Suc)
  next
    case False
    then obtain s where "openSocket h = Some s" "tw_authed h" by auto
    then show ?thesis using h sent [of "h\<lparr>tw_nextRequest := Suc (tw_nextRequest h), tw_pending := tw_pending h @ [(tw_nextRequest h, m)]\<rparr>"]
      by (simp add: request_def Let_def op split_beta requests_ok_def atLeast0_lessThan_Suc)
  qed
qed

lemma requests_step: "tw_step h h' \<Longrightarrow> requests_ok h \<Longrightarrow> requests_ok h'"
proof (induction rule: tw_step.induct)
  case (tw_waits i h)
  then show ?case using requests_wait by blast
next
  case (tw_asks msg h matcher)
  then show ?case using requests_request by blast
qed (erule same_requests_ok [rotated], rule requests_enable requests_teardown requests_ticket requests_message requests_close requests_plain)+

section \<open>The whole page\<close>

inductive tw_run :: "TradingSocket \<Rightarrow> TradingSocket \<Rightarrow> bool" where
  tw_start: "tw_run h h"
| tw_next: "tw_run h h' \<Longrightarrow> tw_step h' h'' \<Longrightarrow> tw_run h h''"

lemma mount_ok: "sockets_ok (runEffect (newTradingSocket b)) \<and> busy_ok (runEffect (newTradingSocket b)) \<and> view_ok (runEffect (newTradingSocket b)) \<and> requests_ok (runEffect (newTradingSocket b))"
  by (cases b) (simp_all add: runEffect_def newTradingSocket_def twConnect_def closeSocket_def sockets_ok_def busy_ok_def view_ok_def requests_ok_def)

lemma hook_run_ok: "tw_run (runEffect (newTradingSocket b)) h \<Longrightarrow> sockets_ok h \<and> busy_ok h \<and> view_ok h \<and> requests_ok h"
  by (induction "runEffect (newTradingSocket b)" h rule: tw_run.induct) (use mount_ok line_step view_step requests_step in blast)+

text \<open>
  C18: The page never loses its server: after any interleaving of ticket answers, socket events, timers, visibility changes,
  subscriptions and requests, a page that is running has exactly one of a ticket on its way, a socket and a retry timer (so
  it is never stuck and never connects twice), every older socket is closing, a page that is gone keeps none of them; over
  an open and signed-in socket it has asked for exactly the channels that it holds, and these are the channels that the
  gateway has read whenever the gateway's schema took all messages sent on that socket (it drops a subscription to more than
  fifty channels at once, \<open>large_resubscription_is_dropped\<close>, and may refuse single channels after reading them); and every
  request made is either waiting or settled, exactly once.
\<close>

theorem page_stays_connected:
  assumes "tw_run (runEffect (newTradingSocket b)) h"
  shows "of_bool (tw_generation h \<in> set (tw_fetches h)) + of_bool (tw_ws h \<noteq> None) + of_bool (tw_reconnectTimer h) = (if tw_mounted h then 1 else 0::nat)
    \<and> (\<forall>(s, ph)\<in>set (tw_sockets h). tw_ws h = Some s \<or> ph = SocketClosing)
    \<and> (tw_authed h \<longrightarrow> (\<forall>s. openSocket h = Some s \<longrightarrow> askedChannels s h = set (tw_subs h)
         \<and> ((\<forall>m. (s, m) \<in> set (tw_sent h) \<longrightarrow> parseClientMessage (stringifyMessage m) = Some m) \<longrightarrow> readChannels s h = set (tw_subs h))))
    \<and> distinct (map fst (tw_pending h) @ map fst (tw_settled h))
    \<and> fst ` set (tw_pending h) \<union> fst ` set (tw_settled h) = {..<tw_nextRequest h}"
proof -
  have h: "sockets_ok h" "busy_ok h" "view_ok h" "requests_ok h" using hook_run_ok [OF assms] by blast+
  have ask: "tw_authed h \<longrightarrow> (\<forall>s. openSocket h = Some s \<longrightarrow> askedChannels s h = set (tw_subs h))" using h(3) by (auto simp: view_ok_def open_is_ws)
  have "of_bool (tw_generation h \<in> set (tw_fetches h)) + of_bool (tw_ws h \<noteq> None) + of_bool (tw_reconnectTimer h) = (if tw_mounted h then 1 else 0::nat)"
    using h(2) by (cases "tw_mounted h") (simp_all add: busy_ok_def split: if_splits)
  moreover have "\<forall>(s, ph)\<in>set (tw_sockets h). tw_ws h = Some s \<or> ph = SocketClosing" using h(1) by (auto simp: sockets_ok_def)
  moreover have "tw_authed h \<longrightarrow> (\<forall>s. openSocket h = Some s \<longrightarrow> askedChannels s h = set (tw_subs h)
      \<and> ((\<forall>m. (s, m) \<in> set (tw_sent h) \<longrightarrow> parseClientMessage (stringifyMessage m) = Some m) \<longrightarrow> readChannels s h = set (tw_subs h)))"
    using ask readChannels_asked [of _ h] by metis
  moreover have "set (map fst (tw_pending h) @ map fst (tw_settled h)) = set [0..<tw_nextRequest h]" using h(4) unfolding requests_ok_def by (metis set_mset_mset)
  ultimately show ?thesis using requests_distinct [OF h(4)] by (simp add: atLeast0LessThan)
qed

text \<open>A page that subscribes, connects and signs in.\<close>

definition samplePage :: TradingSocket where
  "samplePage =
     (let h0 = twSubscribe [''ticks:EURUSD''] (runEffect (newTradingSocket True));
          h1 = ticketDone 1 SocketMade (h0\<lparr>tw_fetches := remove1 1 (tw_fetches h0)\<rparr>)
      in socketMessage 0 (Some AuthOkMsg) 0 (h1\<lparr>tw_sockets := setPhase 0 SocketOpen (tw_sockets h1)\<rparr>))"

lemma samplePage_runs: "tw_run (runEffect (newTradingSocket True)) samplePage"
proof -
  let ?h0 = "twSubscribe [''ticks:EURUSD''] (runEffect (newTradingSocket True))"
  let ?h1 = "ticketDone 1 SocketMade (?h0\<lparr>tw_fetches := remove1 1 (tw_fetches ?h0)\<rparr>)"
  let ?h2 = "?h1\<lparr>tw_sockets := setPhase 0 SocketOpen (tw_sockets ?h1)\<rparr>"
  have "tw_step (runEffect (newTradingSocket True)) ?h0" by (rule tw_subscribes)
  moreover have "tw_step ?h0 ?h1" by (rule tw_ticket) (code_simp)
  moreover have "tw_step ?h1 ?h2" by (rule tw_opens) (code_simp)
  moreover have "tw_step ?h2 samplePage" unfolding samplePage_def Let_def by (rule tw_reads) (code_simp)
  ultimately show ?thesis using tw_start tw_next by blast
qed

theorem page_stays_connected_witness:
  "\<not> tw_reconnectTimer samplePage \<and> tw_ws samplePage = Some 0 \<and> askedChannels 0 samplePage = {''ticks:EURUSD''}
   \<and> readChannels 0 samplePage = {''ticks:EURUSD''}"
proof -
  have page: "(0, SocketOpen) \<in> set (tw_sockets samplePage)" "openSocket samplePage = Some 0" "tw_authed samplePage" "tw_subs samplePage = [''ticks:EURUSD'']" "tw_mounted samplePage"
    by code_simp+
  note all = page_stays_connected [OF samplePage_runs]
  have ws: "tw_ws samplePage = Some 0" using conjunct1 [OF conjunct2 [OF all]] page(1) by blast
  have "\<forall>x\<in>set (tw_sent samplePage). parseClientMessage (stringifyMessage (snd x)) = Some (snd x)" by code_simp
  then have "askedChannels 0 samplePage = set (tw_subs samplePage) \<and> readChannels 0 samplePage = set (tw_subs samplePage)"
    using conjunct1 [OF conjunct2 [OF conjunct2 [OF all]]] page(2,3) by fastforce
  moreover have "\<not> tw_reconnectTimer samplePage"
    using conjunct1 [OF all] page(5) ws by (cases "tw_reconnectTimer samplePage") simp_all
  ultimately show ?thesis using ws by (simp only: page(4)) simp
qed

end
