(* ===== verification/Terminal.thy ===== *)
theory Terminal
  imports AccountViews TradingSocket
begin

text \<open>
  The order entry of the terminal: \<open>rules.ts\<close> (the mirror of the engine's rule checks and the banners), \<open>tradingMath.ts\<close>
  (estimates and validators), the checks of \<open>OrderTicket.tsx\<close> up to the draft it submits, and from \<open>TradeTerminal.tsx\<close>
  the message of a draft and the list of positions. Texts are constructors; an option that a function returns with the
  time zone as argument is \<open>None\<close> where the search for a rollover throws.
\<close>

section \<open>Rules\<close>

datatype RuleRestriction = WeekendClosedUntil int | OvernightClosedUntil int | NewsWindowUntil int NewsEvent

type_synonym MarketNews = "number \<times> NewsEvent list"

text \<open>The payload of \<open>market.status\<close>: the window in minutes. The terminal turns it back into milliseconds.\<close>

definition newsPayload :: "int \<times> NewsEvent list \<Rightarrow> MarketNews" where
  "newsPayload n = (num_of_int (fst n) / lit 60000, snd n)"

definition newsWindowMs :: "MarketNews \<Rightarrow> int" where
  "newsWindowMs news = (case fst news * lit 60000 of Fin x \<Rightarrow> \<lfloor>x\<rfloor> | _ \<Rightarrow> 0)"

definition terminalRestriction :: "(int \<Rightarrow> int) \<Rightarrow> AccountRules \<Rightarrow> Instrument \<Rightarrow> MarketNews option \<Rightarrow> int \<Rightarrow> RuleRestriction option option" where
  "terminalRestriction zone ar inst news now =
     (if ins_category inst \<noteq> CRYPTO \<and> \<not> ar_weekendHoldingAllowed ar \<and> isWeekendRestricted zone now
      then Some (Some (WeekendClosedUntil (weekendReopen zone now)))
      else if ins_category inst \<noteq> CRYPTO \<and> \<not> ar_overnightHoldingAllowed ar \<and> isRolloverWindow zone now
      then map_option (\<lambda>r. Some (OvernightClosedUntil r)) (dailyRollover zone now)
      else case news of
          None \<Rightarrow> Some None
        | Some n \<Rightarrow> if ar_newsTradingAllowed ar then Some None
            else Some (map_option (\<lambda>w. NewsWindowUntil (nw_end w) (nw_event w))
              (activeNewsWindow (snd n) (ins_baseCurrency inst) (ins_quoteCurrency inst) now (newsWindowMs n))))"

datatype RuleNotice =
    NewsNotice (no_active: bool) NewsEvent int int "string list"
  | WeekendNotice (no_active: bool) int int
  | OvernightNotice (no_active: bool) int int

definition NEWS_HEADS_UP_MS :: int where "NEWS_HEADS_UP_MS = 60 * 60000"
definition WEEKEND_HEADS_UP_MS :: int where "WEEKEND_HEADS_UP_MS = 3 * 60 * 60000"
definition OVERNIGHT_HEADS_UP_MS :: int where "OVERNIGHT_HEADS_UP_MS = 60 * 60000"

definition weekendNotices :: "(int \<Rightarrow> int) \<Rightarrow> AccountRules \<Rightarrow> int \<Rightarrow> RuleNotice list" where
  "weekendNotices zone ar now =
     (if ar_weekendHoldingAllowed ar then []
      else let cutoff = weekendCutoff zone now; active = isWeekendRestricted zone now in
        if active \<or> cutoff > now \<and> cutoff - now \<le> WEEKEND_HEADS_UP_MS then [WeekendNotice active cutoff (weekendReopen zone now)] else [])"

definition overnightNotices :: "(int \<Rightarrow> int) \<Rightarrow> AccountRules \<Rightarrow> int \<Rightarrow> RuleNotice list option" where
  "overnightNotices zone ar now =
     (if ar_overnightHoldingAllowed ar \<or> (case weekendNotices zone ar now of n # _ \<Rightarrow> no_active n | [] \<Rightarrow> False) then Some []
      else if isRolloverWindow zone now
      then Option.bind (dailyRolloverCutoff zone now) (\<lambda>c. map_option (\<lambda>r. [OvernightNotice True c r]) (dailyRollover zone now))
      else Option.bind (dailyRolloverCutoff zone (now + OVERNIGHT_HEADS_UP_MS)) (\<lambda>following.
        if following > now then map_option (\<lambda>r. [OvernightNotice False following r]) (dailyRollover zone following) else Some []))"

text \<open>The preferred symbol comes first.\<close>

definition affectedSymbols :: "NewsWindow \<Rightarrow> Instrument list \<Rightarrow> string option \<Rightarrow> string list" where
  "affectedSymbols w instruments preferred =
     (let symbols = map ins_symbol (filter (\<lambda>i. affectsInstrument (nw_event w) (ins_baseCurrency i) (ins_quoteCurrency i)) instruments)
      in case preferred of
          Some p \<Rightarrow> if p \<noteq> [] \<and> p \<in> set symbols then filter (\<lambda>s. s = p) symbols @ filter (\<lambda>s. s \<noteq> p) symbols else symbols
        | None \<Rightarrow> symbols)"

definition newsNotices :: "AccountRules \<Rightarrow> Instrument list \<Rightarrow> MarketNews option \<Rightarrow> int \<Rightarrow> string option \<Rightarrow> RuleNotice list" where
  "newsNotices ar instruments news now preferred =
     (case news of
        None \<Rightarrow> []
      | Some n \<Rightarrow> if ar_newsTradingAllowed ar then []
          else List.map_filter (\<lambda>w. let symbols = affectedSymbols w instruments preferred in
              if symbols = [] then None else Some (NewsNotice (now \<ge> nw_start w) (nw_event w) (nw_start w) (nw_end w) symbols))
            (upcomingNewsWindows (snd n) now (newsWindowMs n) NEWS_HEADS_UP_MS))"

definition ruleNotices :: "(int \<Rightarrow> int) \<Rightarrow> AccountRules \<Rightarrow> Instrument list \<Rightarrow> MarketNews option \<Rightarrow> int \<Rightarrow> string option \<Rightarrow> RuleNotice list option" where
  "ruleNotices zone ar instruments news now preferred =
     map_option (\<lambda>overnight. weekendNotices zone ar now @ overnight @ newsNotices ar instruments news now preferred) (overnightNotices zone ar now)"

section \<open>Estimates\<close>

definition pointSize :: "int \<Rightarrow> number" where
  "pointSize digits = rnd (10 powi (- max 0 digits))"

definition pipSize :: "int \<Rightarrow> number" where
  "pipSize digits = rnd (10 powi (- (max 1 digits - 1)))"

definition spreadPoints :: "number \<Rightarrow> number \<Rightarrow> int \<Rightarrow> number" where
  "spreadPoints bidPrice askPrice digits = Math_max (lit 0) (Math_round ((askPrice - bidPrice) / pointSize digits))"

text \<open>
  \<open>Number(x.toFixed(d))\<close>: the nearest decimal with \<open>d\<close> places (the larger of two, in absolute value), as a double; above
  \<open>10 ^ 21\<close> the text is that of the number itself.
\<close>

definition nearestDecimal :: "nat \<Rightarrow> rat \<Rightarrow> rat" where
  "nearestDecimal d a = of_int \<lfloor>a * 10 ^ d + 1 / 2\<rfloor> / 10 ^ d"

definition toFixedNumber :: "number \<Rightarrow> nat \<Rightarrow> number" where
  "toFixedNumber x d =
     (case x of Fin a \<Rightarrow> if 10 ^ 21 \<le> \<bar>a\<bar> then x else if a < 0 then - rnd (nearestDecimal d (- a)) else rnd (nearestDecimal d a) | _ \<Rightarrow> x)"

text \<open>
  The places after the point in the text of a number below 1: the text is the shortest decimal that rounds to the number,
  below \<open>10 ^ -6\<close> with an exponent, of which the code reads the digits after \<open>e-\<close>.
\<close>

definition stepDecimals :: "number \<Rightarrow> nat" where
  "stepDecimals step =
     (case step of
        Fin s \<Rightarrow>
          (if step \<ge> lit 1 \<or> s = 0 then 0
           else if \<bar>s\<bar> < rnd_rat (1 / 10 ^ 6)
           then (case find (\<lambda>e. rnd_rat (1 / 10 ^ e) \<le> \<bar>s\<bar>) [7..<400] of Some e \<Rightarrow> e | None \<Rightarrow> 0)
           else (case find (\<lambda>d. rnd_rat (nearestDecimal d \<bar>s\<bar>) = \<bar>s\<bar>) [0..<25] of Some d \<Rightarrow> d | None \<Rightarrow> 0))
      | _ \<Rightarrow> 0)"

definition roundToStep :: "number \<Rightarrow> number \<Rightarrow> number" where
  "roundToStep value step = toFixedNumber (Math_round (value / step) * step) (stepDecimals step)"

definition clampVolume :: "number \<Rightarrow> 'a VolumeLimits_scheme \<Rightarrow> number" where
  "clampVolume value inst =
     (if \<not> isFinite value then minVolume inst
      else Math_min (maxVolume inst) (Math_max (minVolume inst) (roundToStep value (volumeStep inst))))"

definition pipValue :: "Instrument \<Rightarrow> number \<Rightarrow> number \<Rightarrow> number" where
  "pipValue inst volume rate = volume * ins_contractSize inst * pipSize (ins_digits inst) * rate"

definition estimateMargin :: "Instrument \<Rightarrow> number \<Rightarrow> number \<Rightarrow> number \<Rightarrow> number \<Rightarrow> number" where
  "estimateMargin inst volume price leverage rate =
     (if \<not> isFinite price \<or> price \<le> lit 0 \<or> leverage \<le> lit 0 then Fin 0
      else volume * ins_contractSize inst * price * rate / leverage)"

definition estimateCommission :: "Instrument \<Rightarrow> number \<Rightarrow> number" where
  "estimateCommission inst volume = volume * ins_commissionPerLot inst"

definition marketFillPrice :: "Side \<Rightarrow> number \<Rightarrow> number \<Rightarrow> number" where
  "marketFillPrice side bidPrice askPrice = (if side = BUY then askPrice else bidPrice)"

section \<open>Validators\<close>

datatype TicketKey =
    EnterPrice | BuyLimitBelowAsk | SellLimitAboveBid | BuyStopAboveAsk | SellStopBelowBid
  | InvalidStopLoss | InvalidTakeProfit | SlBelowEntryBuy | SlAboveEntrySell | TpAboveEntryBuy | TpBelowEntrySell

definition ticketPendingPrice :: "OrderKind \<Rightarrow> Side \<Rightarrow> number option \<Rightarrow> number option \<Rightarrow> number option \<Rightarrow> TicketKey option" where
  "ticketPendingPrice kind side price bidPrice askPrice =
     (if kind = MARKET then None
      else case price of
          None \<Rightarrow> Some EnterPrice
        | Some p \<Rightarrow>
           if \<not> isFinite p \<or> p \<le> lit 0 then Some EnterPrice
           else (case (bidPrice, askPrice) of
               (Some b, Some a) \<Rightarrow>
                 (let reference = (if side = BUY then a else b) in
                  if kind = LIMIT then
                    (if side = BUY \<and> p \<ge> reference then Some BuyLimitBelowAsk
                     else if side = SELL \<and> p \<le> reference then Some SellLimitAboveBid else None)
                  else (if side = BUY \<and> p \<le> reference then Some BuyStopAboveAsk
                     else if side = SELL \<and> p \<ge> reference then Some SellStopBelowBid else None))
             | _ \<Rightarrow> None))"

definition levelInvalid :: "number option \<Rightarrow> bool" where
  "levelInvalid level = (case level of Some l \<Rightarrow> \<not> isFinite l \<or> l \<le> lit 0 | None \<Rightarrow> False)"

definition validateProtectiveLevels :: "Side \<Rightarrow> number option \<Rightarrow> number option \<Rightarrow> number option \<Rightarrow> TicketKey option \<times> TicketKey option" where
  "validateProtectiveLevels side entry stopLoss takeProfit =
     (let known = (case entry of Some e \<Rightarrow> isFinite e | None \<Rightarrow> False); e = (case entry of Some e \<Rightarrow> e | None \<Rightarrow> NaN) in
      (if levelInvalid stopLoss then Some InvalidStopLoss
       else if \<not> known then None
       else case stopLoss of
           Some sl \<Rightarrow> if side = BUY \<and> sl \<ge> e then Some SlBelowEntryBuy else if side = SELL \<and> sl \<le> e then Some SlAboveEntrySell else None
         | None \<Rightarrow> None,
       if levelInvalid takeProfit then Some InvalidTakeProfit
       else if \<not> known then None
       else case takeProfit of
           Some tp \<Rightarrow> if side = BUY \<and> tp \<le> e then Some TpAboveEntryBuy else if side = SELL \<and> tp \<ge> e then Some TpBelowEntrySell else None
         | None \<Rightarrow> None))"

definition parseNumberField :: "string \<Rightarrow> number option" where
  "parseNumberField text = (if trim text = [] then None else Some (let n = Number_of (trim text) in if isFinite n then n else NaN))"

definition signedText :: "number \<Rightarrow> string \<Rightarrow> string" where
  "signedText value formatted =
     (if value > lit 0 then CHR ''+'' # formatted
      else if value < lit 0 then (if startsWith formatted ''-'' then formatted else CHR ''-'' # formatted) else formatted)"

section \<open>The ticket\<close>

record OrderForm =
  fo_side :: Side
  fo_orderType :: OrderKind
  fo_volumeText :: string
  fo_priceText :: string
  fo_slText :: string
  fo_tpText :: string
  fo_submitting :: bool

record OrderDraft =
  dr_symbol :: string
  dr_side :: Side
  dr_orderType :: OrderKind
  dr_volume :: number
  dr_price :: "number option"
  dr_stopLoss :: "number option"
  dr_takeProfit :: "number option"

text \<open>What the page shows to the ticket.\<close>

record TicketProps =
  tp_tradable :: bool
  tp_instrument :: "Instrument option"
  tp_tick :: "Tick option"
  tp_market :: "MarketState option"
  tp_socketStatus :: SocketStatus
  tp_restriction :: "RuleRestriction option"

definition referencePrice :: "OrderForm \<Rightarrow> TicketProps \<Rightarrow> number option" where
  "referencePrice f p =
     (if fo_orderType f = MARKET then map_option (\<lambda>q. marketFillPrice (fo_side f) (bid q) (ask q)) (tp_tick p) else parseNumberField (fo_priceText f))"

datatype VolumeProblem = NoInstrument | EnterVolume | BelowMinimum | AboveMaximum | OffStep

definition volumeError :: "Instrument option \<Rightarrow> number option \<Rightarrow> VolumeProblem option" where
  "volumeError inst volume =
     (case inst of
        None \<Rightarrow> Some NoInstrument
      | Some i \<Rightarrow>
         (case volume of
            None \<Rightarrow> Some EnterVolume
          | Some v \<Rightarrow>
             if v = NaN \<or> v \<le> lit 0 then Some EnterVolume
             else if v < minVolume i then Some BelowMinimum
             else if v > maxVolume i then Some AboveMaximum
             else if Math_abs (roundToStep v (volumeStep i) - v) > lit (1 / 10 ^ 9) then Some OffStep
             else None))"

datatype BlockReason = Connecting | Disconnected | MarketHalted | NotTradable | RuleBlock RuleRestriction | WaitingPrice

definition blockReason :: "OrderForm \<Rightarrow> TicketProps \<Rightarrow> BlockReason option" where
  "blockReason f p =
     (if tp_socketStatus p \<noteq> StatusOpen then Some (if tp_socketStatus p = StatusConnecting then Connecting else Disconnected)
      else if tp_market p = Some MS_HALTED then Some MarketHalted
      else if \<not> tp_tradable p then Some NotTradable
      else case tp_restriction p of
          Some r \<Rightarrow> Some (RuleBlock r)
        | None \<Rightarrow> if fo_orderType f = MARKET \<and> tp_tick p = None then Some WaitingPrice else None)"

definition ticketLevels :: "OrderForm \<Rightarrow> TicketProps \<Rightarrow> TicketKey option \<times> TicketKey option" where
  "ticketLevels f p = validateProtectiveLevels (fo_side f) (case referencePrice f p of Some NaN \<Rightarrow> None | r \<Rightarrow> r)
     (parseNumberField (fo_slText f)) (parseNumberField (fo_tpText f))"

definition ticketPriceError :: "OrderForm \<Rightarrow> TicketProps \<Rightarrow> TicketKey option" where
  "ticketPriceError f p = ticketPendingPrice (fo_orderType f) (fo_side f) (parseNumberField (fo_priceText f)) (map_option bid (tp_tick p)) (map_option ask (tp_tick p))"

definition canSubmit :: "OrderForm \<Rightarrow> TicketProps \<Rightarrow> bool" where
  "canSubmit f p \<longleftrightarrow> \<not> fo_submitting f \<and> blockReason f p = None \<and> volumeError (tp_instrument p) (parseNumberField (fo_volumeText f)) = None
     \<and> ticketPriceError f p = None \<and> ticketLevels f p = (None, None) \<and> tp_instrument p \<noteq> None"

definition levelField :: "string \<Rightarrow> number option" where
  "levelField text = (case parseNumberField text of Some NaN \<Rightarrow> None | l \<Rightarrow> l)"

definition handleSubmit :: "OrderForm \<Rightarrow> TicketProps \<Rightarrow> OrderDraft option" where
  "handleSubmit f p =
     (case (tp_instrument p, parseNumberField (fo_volumeText f)) of
        (Some i, Some v) \<Rightarrow>
          if canSubmit f p
          then Some \<lparr>dr_symbol = ins_symbol i, dr_side = fo_side f, dr_orderType = fo_orderType f, dr_volume = clampVolume v i,
            dr_price = (if fo_orderType f \<noteq> MARKET then parseNumberField (fo_priceText f) else None),
            dr_stopLoss = levelField (fo_slText f), dr_takeProfit = levelField (fo_tpText f)\<rparr>
          else None
      | _ \<Rightarrow> None)"

definition bumpVolume :: "int \<Rightarrow> OrderForm \<Rightarrow> Instrument \<Rightarrow> number" where
  "bumpVolume dir f i =
     (let cur = (case parseNumberField (fo_volumeText f) of Some v \<Rightarrow> if v = NaN then minVolume i else v | None \<Rightarrow> minVolume i)
      in clampVolume (cur + num_of_int dir * volumeStep i) i)"

text \<open>The request that \<open>placeOrder\<close> sends for a draft.\<close>

definition placeOrderMessage :: "string \<Rightarrow> string \<Rightarrow> OrderDraft \<Rightarrow> GatewayMessage" where
  "placeOrderMessage accountId clientOrderId d =
     OrderPlaceReq accountId clientOrderId (dr_symbol d) (dr_side d) (dr_orderType d) (dr_volume d) (dr_price d) (dr_stopLoss d) (dr_takeProfit d)"

section \<open>The list of positions\<close>

definition applyPositionEvent :: "PositionInfo list \<Rightarrow> PositionEventKind \<Rightarrow> PositionInfo \<Rightarrow> PositionInfo list" where
  "applyPositionEvent positions event p =
     (case event of
        OPENED \<Rightarrow> if \<exists>x\<in>set positions. pi_id x = pi_id p then map (\<lambda>x. if pi_id x = pi_id p then p else x) positions else positions @ [p]
      | MODIFIED \<Rightarrow> map (\<lambda>x. if pi_id x = pi_id p then p else x) positions
      | CLOSED_EVENT \<Rightarrow> filter (\<lambda>x. pi_id x \<noteq> pi_id p) positions)"

end
