(* ===== verification/TerminalProofs.thy ===== *)
theory TerminalProofs
  imports Terminal EngineProofs
begin

text \<open>
  The terminal against the engine: its rule checks give the engine's answer, every rule that blocks has its banner, and
  what the ticket lets through passes the engine's checks of volume, price and stops.
\<close>

section \<open>Rules\<close>

definition restrictionCode :: "RuleRestriction \<Rightarrow> RejectCode" where
  "restrictionCode r = (case r of WeekendClosedUntil _ \<Rightarrow> WEEKEND_CLOSED | OvernightClosedUntil _ \<Rightarrow> OVERNIGHT_CLOSED | NewsWindowUntil _ _ \<Rightarrow> NEWS_WINDOW)"

text \<open>A window of whole minutes survives the way through \<open>windowMinutes\<close>.\<close>

lemma window_survives:
  assumes "0 \<le> m" "m \<le> 120"
  shows "newsWindowMs (newsPayload (60000 * m, es)) = 60000 * m"
proof -
  have l: "lit 60000 = Fin 60000" using rnd_of_int [of 60000] by (simp add: lit_def)
  have a: "rnd (of_int (60000 * m)) = Fin (of_int (60000 * m))" by (rule rnd_of_int) (use assms in simp)
  have b: "rnd (of_int m) = Fin (of_int m)" by (rule rnd_of_int) (use assms in simp)
  have d: "of_int (60000 * m) / 60000 = (of_int m :: rat)" by simp
  have e: "of_int m * 60000 = (of_int (60000 * m) :: rat)" by simp
  have "num_of_int (60000 * m) / Fin 60000 * Fin 60000 = Fin (of_int (60000 * m))"
    unfolding num_of_int_def a by (simp add: b a d e del: of_int_mult)
  moreover have "\<lfloor>of_int (60000 * m) :: rat\<rfloor> = 60000 * m" by (rule floor_of_int)
  ultimately show ?thesis by (simp add: newsWindowMs_def newsPayload_def l del: of_int_mult)
qed

lemma news_seen:
  assumes "eng_newsWindowMs e = 60000 * m" "0 \<le> m" "m \<le> 120" "t0 \<le> now" "now + eng_newsWindowMs e \<le> t0 + DAY_MS"
  shows "(activeNewsWindow (snd (newsPayload (marketNews t0 e))) base qte now (newsWindowMs (newsPayload (marketNews t0 e))) = None)
       = (activeNewsWindow (eng_newsEvents e) base qte now (eng_newsWindowMs e) = None)"
proof -
  have w: "newsWindowMs (newsPayload (marketNews t0 e)) = eng_newsWindowMs e" using window_survives [OF assms(2,3)] assms(1) by (simp add: marketNews_def)
  have "(\<exists>x\<in>set (snd (marketNews t0 e)). covers base qte now (eng_newsWindowMs e) x) = (\<exists>x\<in>set (eng_newsEvents e). covers base qte now (eng_newsWindowMs e) x)"
    using assms(4,5) by (fastforce simp: marketNews_def covers_def abs_le_iff)
  moreover have "snd (newsPayload n) = snd n" for n by (simp add: newsPayload_def)
  ultimately show ?thesis by (simp only: w activeNewsWindow_exact)
qed

lemma rollover_known: "ny_zone zone \<Longrightarrow> \<exists>c r. dailyRolloverCutoff zone t = Some c \<and> dailyRollover zone t = Some r"
  using rollover_window_agrees by blast

text \<open>
  C8: The terminal explains the engine: for an account and an instrument, with the news that the engine sent at \<open>t0\<close> and
  that reach a day ahead, the terminal's rule check gives exactly the engine's answer, and whenever it blocks the
  instrument a banner in force says so, with the same end (for news: the same event, naming the symbol).
\<close>

theorem terminal_mirrors_engine:
  assumes "ny_zone zone" "eng_newsWindowMs e = 60000 * m" "0 \<le> m" "m \<le> 120" "t0 \<le> now" "now + eng_newsWindowMs e \<le> t0 + DAY_MS"
    and "ar = rulesOf (rules (ea_snapshot a))" "news = Some (newsPayload (marketNews t0 e))"
  shows "(\<exists>r. terminalRestriction zone ar inst news now = Some r \<and> map_option restrictionCode r = ruleRestriction zone a inst now e)
    \<and> (\<forall>r instruments. terminalRestriction zone ar inst news now = Some (Some r) \<and> inst \<in> set instruments \<longrightarrow>
       (\<exists>ns. ruleNotices zone ar instruments news now preferred = Some ns
         \<and> (case r of WeekendClosedUntil until \<Rightarrow> WeekendNotice True (weekendCutoff zone now) until \<in> set ns
            | OvernightClosedUntil until \<Rightarrow> \<exists>c. OvernightNotice True c until \<in> set ns
            | NewsWindowUntil until ev \<Rightarrow> \<exists>start symbols. NewsNotice True ev start until symbols \<in> set ns \<and> ins_symbol inst \<in> set symbols)))"
proof -
  obtain c0 r0 where roll: "dailyRolloverCutoff zone now = Some c0" "dailyRollover zone now = Some r0" using rollover_known [OF assms(1)] by blast
  have same: "\<exists>r. terminalRestriction zone ar inst news now = Some r \<and> map_option restrictionCode r = ruleRestriction zone a inst now e"
    using news_seen [OF assms(2-6), of "ins_baseCurrency inst" "ins_quoteCurrency inst"] roll
    by (auto simp: terminalRestriction_def ruleRestriction_def Let_def assms(7,8) rulesOf_def restrictionCode_def split: option.split)
  have "\<exists>ns. ruleNotices zone ar instruments news now preferred = Some ns
         \<and> (case r of WeekendClosedUntil until \<Rightarrow> WeekendNotice True (weekendCutoff zone now) until \<in> set ns
            | OvernightClosedUntil until \<Rightarrow> \<exists>c. OvernightNotice True c until \<in> set ns
            | NewsWindowUntil until ev \<Rightarrow> \<exists>start symbols. NewsNotice True ev start until symbols \<in> set ns \<and> ins_symbol inst \<in> set symbols)"
    if r: "terminalRestriction zone ar inst news now = Some (Some r)" and inst: "inst \<in> set instruments" for r instruments
  proof -
  obtain c1 where c1: "dailyRolloverCutoff zone (now + OVERNIGHT_HEADS_UP_MS) = Some c1" using rollover_known [OF assms(1)] by blast
  obtain r1 where r1: "dailyRollover zone c1 = Some r1" using rollover_known [OF assms(1)] by blast
  have "overnightNotices zone ar now \<noteq> None" using roll c1 r1 by (simp add: overnightNotices_def)
  then obtain ov where ov: "overnightNotices zone ar now = Some ov" by blast
  let ?ns = "weekendNotices zone ar now @ ov @ newsNotices ar instruments news now preferred"
  have "case r of WeekendClosedUntil until \<Rightarrow> WeekendNotice True (weekendCutoff zone now) until \<in> set ?ns
            | OvernightClosedUntil until \<Rightarrow> \<exists>c. OvernightNotice True c until \<in> set ?ns
            | NewsWindowUntil until ev \<Rightarrow> \<exists>start symbols. NewsNotice True ev start until symbols \<in> set ?ns \<and> ins_symbol inst \<in> set symbols"
  proof (cases r)
    case (WeekendClosedUntil u)
    then show ?thesis using r roll by (auto simp: terminalRestriction_def weekendNotices_def Let_def assms(8) split: if_splits)
  next
    case (OvernightClosedUntil u)
    then have "\<not> ar_overnightHoldingAllowed ar" "isRolloverWindow zone now" "u = r0" "ar_weekendHoldingAllowed ar \<or> \<not> isWeekendRestricted zone now"
      using r roll by (auto simp: terminalRestriction_def assms(8) split: if_splits)
    then have "ov = [OvernightNotice True c0 u]" using ov roll by (auto simp: overnightNotices_def weekendNotices_def Let_def split: if_splits)
    then show ?thesis using OvernightClosedUntil by auto
  next
    case (NewsWindowUntil u ev)
    then obtain n w where w: "news = Some n" "\<not> ar_newsTradingAllowed ar" "u = nw_end w" "ev = nw_event w"
      "activeNewsWindow (snd n) (ins_baseCurrency inst) (ins_quoteCurrency inst) now (newsWindowMs n) = Some w"
      using r roll by (auto simp: terminalRestriction_def split: if_splits option.splits)
    then have "0 < newsWindowMs n" "\<exists>x\<in>set (snd n). covers (ins_baseCurrency inst) (ins_quoteCurrency inst) now (newsWindowMs n) x \<and> w = windowOf x (newsWindowMs n)"
      using activeNewsWindow_exact [of "snd n" "ins_baseCurrency inst" "ins_quoteCurrency inst" now "newsWindowMs n"] by (auto simp: not_le)
    then obtain x where x: "x \<in> set (snd n)" "covers (ins_baseCurrency inst) (ins_quoteCurrency inst) now (newsWindowMs n) x" "w = windowOf x (newsWindowMs n)" by blast
    have up: "w \<in> set (upcomingNewsWindows (snd n) now (newsWindowMs n) NEWS_HEADS_UP_MS)" "nw_start w \<le> now"
      using x \<open>0 < newsWindowMs n\<close> by (auto simp: upcomingNewsWindows_def covers_def windowOf_def NEWS_HEADS_UP_MS_def)
    have "ins_symbol inst \<in> set (affectedSymbols w instruments preferred)"
      using inst x by (auto simp: affectedSymbols_def Let_def covers_def windowOf_def split: option.split)
    then have "NewsNotice True (nw_event w) (nw_start w) (nw_end w) (affectedSymbols w instruments preferred) \<in> set (newsNotices ar instruments news now preferred)"
      using up w(1,2) by (force simp: newsNotices_def List.map_filter_def Let_def)
    then show ?thesis using NewsWindowUntil w(3,4) \<open>ins_symbol inst \<in> _\<close> by auto
  qed
  then show ?thesis using ov by (simp add: ruleNotices_def)
  qed
  with same show ?thesis by blast
qed

text \<open>An account without news trading, two minutes around an event.\<close>

definition newsEngine :: Engine where
  "newsEngine = sampleEngine\<lparr>eng_newsEvents := [cpi], eng_newsWindowMs := 120000\<rparr>"

definition quietAccount :: EngineAccount where
  "quietAccount = sampleEngineAccount\<lparr>ea_snapshot := Snapshot (sampleRules\<lparr>tpl_newsTradingAllowed := False, tpl_weekendHoldingAllowed := True, tpl_overnightHoldingAllowed := True\<rparr>) None\<rparr>"

theorem terminal_mirrors_engine_witness:
  "\<exists>until ev. terminalRestriction ny2026 (rulesOf (rules (ea_snapshot quietAccount))) sampleInstrument (Some (newsPayload (marketNews 900000 newsEngine))) 1000000
     = Some (Some (NewsWindowUntil until ev))"
proof -
  have w: "eng_newsWindowMs newsEngine = 60000 * 2" by (simp add: newsEngine_def)
  have "activeNewsWindow [cpi] ''USD'' ''ETB'' 1000000 120000 \<noteq> None" by code_simp
  then have r: "ruleRestriction ny2026 quietAccount sampleInstrument 1000000 newsEngine = Some NEWS_WINDOW"
    by (simp add: ruleRestriction_def newsEngine_def quietAccount_def sampleInstrument_def)
  obtain x where x: "terminalRestriction ny2026 (rulesOf (rules (ea_snapshot quietAccount))) sampleInstrument (Some (newsPayload (marketNews 900000 newsEngine))) 1000000 = Some x"
    "map_option restrictionCode x = ruleRestriction ny2026 quietAccount sampleInstrument 1000000 newsEngine"
    using conjunct1 [OF terminal_mirrors_engine [OF ny_zone_2026 w, of 900000 1000000 _ quietAccount, OF _ _ _ _ refl refl]] by (auto simp: w DAY_MS_def)
  then obtain y where "x = Some y" "restrictionCode y = NEWS_WINDOW" using r by auto
  then show ?thesis using x(1) by (cases y) (simp_all add: restrictionCode_def)
qed

section \<open>The ticket\<close>

lemma levels_agree:
  "isFinite x \<Longrightarrow> validateProtectiveLevels side (Some x) sl tp = (None, None) \<longleftrightarrow> validateStops side x sl tp = None"
  by (cases side; cases sl; cases tp)
    (auto simp: validateProtectiveLevels_def validateStops_def stopLossInvalid_def takeProfitInvalid_def levelInvalid_def Let_def)

lemma pending_agrees:
  "kind \<noteq> MARKET \<Longrightarrow> ticketPendingPrice kind side price (Some (bid q)) (Some (ask q)) = None \<longleftrightarrow> validatePendingPrice side kind price q = None"
  by (cases side; cases kind; cases price) (auto simp: ticketPendingPrice_def validatePendingPrice_def Let_def)

lemma step_cent: obtains s where "cents 1 = Fin s" "\<bar>s - 1 / 100\<bar> \<le> 1 / 2 ^ 59" "rnd_rat (1 / 100) = s" "99 / 10000 < s" "s < 101 / 10000"
proof -
  let ?s = "rnd_rat (1 / 100)"
  have "\<bar>?s - 1 / 100\<bar> \<le> \<bar>1 / 100\<bar> / 2 ^ 53 + 1 / 2 ^ 1075" by (rule rnd_rat_error)
  moreover have "\<bar>1 / 100 :: rat\<bar> / 2 ^ 53 + 1 / 2 ^ 1075 \<le> 1 / 2 ^ 59" by simp
  ultimately have err: "\<bar>?s - 1 / 100\<bar> \<le> 1 / 2 ^ 59" by (rule order_trans)
  moreover have "(1 / 2 ^ 59 :: rat) \<le> 1 / 1000000" by simp
  ultimately have "\<bar>?s - 1 / 100\<bar> \<le> 1 / 1000000" by (rule order_trans)
  then have "99 / 10000 < ?s" "?s < 101 / 10000" unfolding abs_le_iff by linarith+
  moreover have "cents 1 = Fin ?s" unfolding cents_def using rnd_small [of "1 / 100"] by simp
  ultimately show thesis using that err by blast
qed

text \<open>Rounding to a step of a hundredth gives whole hundredths.\<close>

lemma step_is_two_decimals: "stepDecimals (cents 1) = 2"
proof -
  obtain s where s: "cents 1 = Fin s" "rnd_rat (1 / 100) = s" and near: "99 / 10000 < s" "s < 101 / 10000" by (rule step_cent)
  have "\<lfloor>s * 10 ^ 0 + 1 / 2\<rfloor> = 0" "\<lfloor>s * 10 ^ 1 + 1 / 2\<rfloor> = 0" "\<lfloor>s * 10 ^ 2 + 1 / 2\<rfloor> = 1" using near by (simp_all add: floor_eq_iff)
  then have n: "nearestDecimal 0 s = 0" "nearestDecimal 1 s = 0" "nearestDecimal 2 s = 1 / 100" by (simp_all add: nearestDecimal_def)
  have "rnd_rat (1 / 10 ^ 6) \<le> rnd_rat (1 / 100)" by (rule rnd_rat_mono) simp
  then have big: "\<not> \<bar>s\<bar> < rnd_rat (1 / 10 ^ 6)" using s(2) near by simp
  have "find (\<lambda>d. rnd_rat (nearestDecimal d s) = s) (0 # 1 # 2 # [3..<25]) = Some 2" using near s(2) by (simp only: find.simps n rnd_rat_0) simp
  moreover have "[0..<25] = 0 # 1 # 2 # [3..<25]" by (simp add: upt_rec numeral_eq_Suc)
  ultimately have "find (\<lambda>d. rnd_rat (nearestDecimal d \<bar>s\<bar>) = \<bar>s\<bar>) [0..<25] = Some 2" using near by simp
  moreover have "\<not> cents 1 \<ge> lit 1" using near s(1) by simp
  ultimately show ?thesis unfolding stepDecimals_def s(1) using near big by simp
qed

lemma fixed_near_cent:
  assumes "\<bar>z - of_int k / 100\<bar> \<le> 1 / 1000" "\<bar>z\<bar> < 10 ^ 21"
  shows "toFixedNumber (Fin z) 2 = cents k"
proof -
  have pos: "nearestDecimal 2 y = of_int j / 100" if "\<bar>y - of_int j / 100\<bar> \<le> 1 / 1000" for y j
  proof -
    have "y * 10 ^ 2 = y * 100" by simp
    then have "\<lfloor>y * 10 ^ 2 + 1 / 2\<rfloor> = j" using that by (intro floor_unique) linarith+
    then show ?thesis by (simp add: nearestDecimal_def)
  qed
  show ?thesis
  proof (cases "z < 0")
    case True
    have "\<bar>- z - of_int (- k) / 100\<bar> \<le> 1 / 1000" using assms(1) unfolding of_int_minus by linarith
    from pos [OF this] have "- rnd (nearestDecimal 2 (- z)) = - cents (- k)" by (simp add: cents_def)
    then show ?thesis using True assms(2) by (simp add: toFixedNumber_def cents_minus)
  next
    case False
    then show ?thesis using assms(2) by (simp only: toFixedNumber_def number.case if_False pos [OF assms(1)] cents_def not_True_eq_False flip: not_less)
  qed
qed

lemma round_to_cent:
  assumes "\<bar>v\<bar> \<le> 10 ^ 6"
  obtains k where "roundToStep (Fin v) (cents 1) = cents k" "\<bar>k\<bar> \<le> 200000000" "\<bar>v - of_int k / 100\<bar> \<le> 6 / 1000"
proof -
  obtain s where s: "cents 1 = Fin s" "\<bar>s - 1 / 100\<bar> \<le> 1 / 2 ^ 59" and near: "99 / 10000 < s" "s < 101 / 10000" by (rule step_cent)
  have "\<bar>v / s\<bar> \<le> 102000000"
  proof -
    have "\<bar>v\<bar> \<le> 102000000 * (99 / 10000)" using assms by simp
    also have "\<dots> \<le> 102000000 * s" using near by simp
    finally have "\<bar>v\<bar> \<le> 102000000 * s" .
    then show ?thesis using near by (simp add: abs_divide pos_divide_le_eq)
  qed
  then have "\<bar>v / s\<bar> \<le> 2147483648" by linarith
  then obtain y where y: "rnd (v / s) = Fin y" "\<bar>y - v / s\<bar> \<le> 1 / 2 ^ 21" by (rule rnd_err_small)
  define k where "k = \<lfloor>y + 1 / 2\<rfloor>"
  have "(1 / 2 ^ 21 :: rat) \<le> 1" by simp
  then have "\<bar>y - v / s\<bar> \<le> 1" using y(2) by (rule order_trans [rotated])
  then have ybound: "\<bar>y\<bar> \<le> 103000000" using \<open>\<bar>v / s\<bar> \<le> 102000000\<close> by linarith
  have kb: "\<bar>of_int k\<bar> \<le> (104000000 :: rat)" using ybound of_int_floor_le [of "y + 1 / 2"] floor_correct [of "y + 1 / 2"] unfolding k_def by linarith
  then have "\<bar>k\<bar> \<le> 200000000" by linarith
  have prod: "\<bar>of_int k * s - of_int k / 100\<bar> \<le> 1 / 10000"
  proof -
    have "\<bar>of_int k * s - of_int k / 100\<bar> = \<bar>of_int k\<bar> * \<bar>s - 1 / 100\<bar>" by (simp add: abs_mult [symmetric] algebra_simps)
    also have "\<dots> \<le> 104000000 * (1 / 2 ^ 59)" using kb s(2) by (intro mult_mono) simp_all
    also have "\<dots> \<le> 1 / 10000" by simp
    finally show ?thesis .
  qed
  have "\<bar>of_int k * s\<bar> \<le> 2147483648" using prod kb by linarith
  then obtain z where z: "rnd (of_int k * s) = Fin z" "\<bar>z - of_int k * s\<bar> \<le> 1 / 2 ^ 21" by (rule rnd_err_small)
  have "(1 / 2 ^ 21 :: rat) \<le> 1 / 10000" by simp
  then have zk: "\<bar>z - of_int k / 100\<bar> \<le> 1 / 1000" using z(2) prod by linarith
  then have "\<bar>z\<bar> \<le> 2000000" using kb by linarith
  then have "\<bar>z\<bar> < 10 ^ 21" by (rule le_less_trans) simp
  then have "toFixedNumber (Fin z) 2 = cents k" by (rule fixed_near_cent [OF zk])
  moreover have "Math_round (Fin v / cents 1) * cents 1 = Fin z" using y(1) z(1) near by (simp add: s(1) k_def)
  ultimately have "roundToStep (Fin v) (cents 1) = cents k" by (simp add: roundToStep_def step_is_two_decimals)
  moreover have "\<bar>v - of_int k / 100\<bar> \<le> 6 / 1000"
  proof -
    have "\<bar>y - of_int k\<bar> \<le> 1 / 2" using floor_correct [of "y + 1 / 2"] unfolding k_def by linarith
    moreover have "(1 / 2 ^ 21 :: rat) \<le> 1 / 1000" by simp
    ultimately have "\<bar>v / s - of_int k\<bar> \<le> 501 / 1000" using y(2) by linarith
    then have "\<bar>v / s - of_int k\<bar> * s \<le> 501 / 1000 * s" using near by (intro mult_right_mono) simp_all
    moreover have "\<bar>v / s - of_int k\<bar> * s = \<bar>v - of_int k * s\<bar>"
    proof -
      have "\<bar>v / s - of_int k\<bar> * s = \<bar>(v / s - of_int k) * s\<bar>" using near by (simp add: abs_mult)
      also have "(v / s - of_int k) * s = v - of_int k * s" using near by (simp add: left_diff_distrib)
      finally show ?thesis .
    qed
    ultimately show ?thesis using prod near by linarith
  qed
  ultimately show thesis using that \<open>\<bar>k\<bar> \<le> 200000000\<close> by blast
qed

lemma lots_Fin:
  assumes "0 \<le> n" "n \<le> 10000000"
  obtains c where "cents n = Fin c" "\<bar>c - of_int n / 100\<bar> \<le> 1 / 2 ^ 35" "rnd c = Fin c"
proof -
  have n: "\<bar>of_int n / 100 :: rat\<bar> \<le> 100000" using assms by simp
  then have "\<bar>of_int n / 100 :: rat\<bar> \<le> 2 ^ 1000" by (rule order_trans) simp
  then have c: "cents n = Fin (rnd_rat (of_int n / 100))" unfolding cents_def by (rule rnd_small)
  have "\<bar>of_int n / 100 :: rat\<bar> / 2 ^ 53 \<le> 100000 / 2 ^ 53" using n by (rule divide_right_mono) simp
  moreover have "100000 / 2 ^ 53 + 1 / 2 ^ 1075 \<le> (1 / 2 ^ 35 :: rat)" by simp
  ultimately have err: "\<bar>rnd_rat (of_int n / 100) - of_int n / 100\<bar> \<le> 1 / 2 ^ 35" using rnd_rat_error [of "of_int n / 100"] by linarith
  have "(1 / 2 ^ 35 :: rat) \<le> 1" by simp
  then have "\<bar>rnd_rat (of_int n / 100)\<bar> \<le> (100001 :: rat)" using err n by linarith
  then have "\<bar>rnd_rat (of_int n / 100)\<bar> \<le> (2 ^ 1000 :: rat)" by (rule order_trans) simp
  then have "rnd (rnd_rat (of_int n / 100)) = Fin (rnd_rat (of_int n / 100))" by (simp add: rnd_small)
  with c err show thesis by (rule that)
qed

lemma clamp_cents:
  assumes "volumeStep i = cents 1" "minVolume i = cents a" "maxVolume i = cents b" "1 \<le> a" "a \<le> b" "b \<le> 10000000" "\<bar>v\<bar> \<le> 10 ^ 6"
  shows "\<exists>k. clampVolume (Fin v) i = cents k \<and> a \<le> k \<and> k \<le> b"
proof -
  obtain k where k: "roundToStep (Fin v) (cents 1) = cents k" "\<bar>k\<bar> \<le> 200000000" using round_to_cent [OF assms(7)] by blast
  obtain ca where ca: "cents a = Fin ca" using lots_Fin [of a] assms by auto
  obtain cb where cb: "cents b = Fin cb" using lots_Fin [of b] assms by auto
  obtain ck where ck: "cents k = Fin ck" using cents_near [of k] k(2) by (auto simp: money_ok_def)
  have mono: "a \<le> k \<Longrightarrow> ca \<le> ck" "k \<le> a \<Longrightarrow> ck \<le> ca" "b \<le> k \<Longrightarrow> cb \<le> ck" "k \<le> b \<Longrightarrow> ck \<le> cb" "ca \<le> cb"
    using cents_mono [of a k] cents_mono [of k a] cents_mono [of b k] cents_mono [of k b] cents_mono [of a b] assms(5) by (simp_all add: ca cb ck)
  have "clampVolume (Fin v) i = Fin (min cb (max ca ck))" by (simp add: clampVolume_def assms(1-3) k(1) ca cb ck)
  also have "\<dots> = cents (min b (max a k))"
  proof (cases "k \<le> a")
    case True
    then show ?thesis using mono assms(5) ca by (simp add: max_absorb1 min_absorb2)
  next
    case False
    then show ?thesis using mono cb ck by (cases "k \<le> b") (simp_all add: max_absorb2 min_absorb1 min_absorb2)
  qed
  finally show ?thesis using assms(5) by (intro exI [of _ "min b (max a k)"]) auto
qed

lemma whole_lots_accepted:
  assumes "volumeStep i = cents 1" "minVolume i = cents a" "maxVolume i = cents b" "1 \<le> a" "a \<le> k" "k \<le> b" "b \<le> 10000000"
  shows "validateVolume (cents k) i = None"
proof -
  obtain s where s: "cents 1 = Fin s" "\<bar>s - 1 / 100\<bar> \<le> 1 / 2 ^ 59" and near: "99 / 10000 < s" "s < 101 / 10000" by (rule step_cent)
  obtain ca where ca: "cents a = Fin ca" "rnd ca = Fin ca" using lots_Fin [of a] assms by auto
  obtain cb where cb: "cents b = Fin cb" "rnd cb = Fin cb" using lots_Fin [of b] assms by auto
  obtain c where c: "cents k = Fin c" "\<bar>c - of_int k / 100\<bar> \<le> 1 / 2 ^ 35" using lots_Fin [of k] assms by auto
  have order: "ca \<le> c" "c \<le> cb" using cents_mono [OF assms(5)] cents_mono [OF assms(6)] by (simp_all add: ca cb c)
  have k: "1 \<le> k" "of_int k \<le> (10000000 :: rat)" using assms by linarith+
  obtain l where l: "lit (1 / 10 ^ 9) = Fin l" "0 \<le> l"
    using that [of "rnd_rat (1 / 10 ^ 9)"] rnd_small [of "1 / 10 ^ 9"] by (simp add: lit_def rnd_rat_nonneg)
  have low: "rnd (ca - l) \<le> Fin c" using rnd_mono [of "ca - l" ca] l(2) order(1) ca(2) by (simp add: number_le_trans)
  have high: "Fin c \<le> rnd (cb + l)" using number_le_trans [of "Fin c" "Fin cb" "rnd (cb + l)"] rnd_mono [of cb "cb + l"] l(2) order(2) cb(2) by simp
  have close: "\<bar>c / s - of_int k\<bar> \<le> 1 / 10 ^ 7"
  proof -
    have "\<bar>of_int k * s - of_int k / 100\<bar> = \<bar>of_int k * (s - 1 / 100)\<bar>" by (simp add: algebra_simps)
    also have "\<dots> = of_int k * \<bar>s - 1 / 100\<bar>" using k(1) by (simp only: abs_mult)
    also have "\<dots> \<le> 10000000 * (1 / 2 ^ 59)" using k(2) s(2) by (intro mult_mono) simp_all
    finally have "\<bar>c - of_int k * s\<bar> \<le> 1 / 2 ^ 35 + 10000000 * (1 / 2 ^ 59)" using c(2) by linarith
    also have "\<dots> \<le> (1 / 10 ^ 7) * (99 / 10000)" by simp
    also have "\<dots> \<le> (1 / 10 ^ 7) * s" using near by simp
    finally have "\<bar>c - of_int k * s\<bar> / s \<le> 1 / 10 ^ 7" using near by (simp add: pos_divide_le_eq)
    moreover have "c / s - of_int k = (c - of_int k * s) / s" using near by (simp add: diff_divide_distrib)
    ultimately show ?thesis using near by (simp add: abs_divide)
  qed
  have "(1 / 10 ^ 7 :: rat) \<le> 1" "(1 :: rat) \<le> of_int k" using k(1) by simp_all
  then have kb: "\<bar>c / s\<bar> \<le> 2147483648" using close k(2) by linarith
  obtain y where y: "rnd (c / s) = Fin y" "\<bar>y - c / s\<bar> \<le> 1 / 2 ^ 21" using kb by (rule rnd_err_small)
  have "1 / 2 ^ 21 + 1 / 10 ^ 7 \<le> (1 / 10 ^ 6 :: rat)" by simp
  then have d: "\<bar>y - of_int k\<bar> \<le> 1 / 10 ^ 6" using y(2) close by linarith
  then have "\<bar>y - of_int k\<bar> < 1 / 2" by (rule le_less_trans) simp
  then have r: "\<lfloor>y + 1 / 2\<rfloor> = k" by (intro floor_unique) linarith+
  have "rnd (y - of_int k) \<le> lit (1 / 10 ^ 6)" "- rnd (y - of_int k) \<le> lit (1 / 10 ^ 6)"
    using rnd_mono [of "y - of_int k" "1 / 10 ^ 6"] rnd_mono [of "- (y - of_int k)" "1 / 10 ^ 6"] d
    unfolding lit_def rnd_minus [symmetric] by linarith+
  then have "Math_abs (rnd (y - of_int k)) \<le> lit (1 / 10 ^ 6)" by (cases "rnd (y - of_int k)") (auto simp: abs_if uminus_number_def)
  moreover have "(1 / 2 ^ 35 :: rat) \<le> 1 / 1000" by simp
  then have "0 < c" using c(2) \<open>1 \<le> of_int k\<close> by linarith
  moreover have less: "x \<le> y \<Longrightarrow> \<not> y < x" for x y :: number using number_le_less_trans number_less_irrefl by blast
  moreover have "lit (1 / 1000000000) = Fin l" using l(1) by simp
  ultimately show ?thesis using less [OF low] less [OF high] near y(1) r
    by (simp add: validateVolume_def assms(1-3) c(1) ca(1) cb(1) s(1) Let_def)
qed

lemma submitted_levels:
  assumes "ticketLevels f p = (None, None)" "referencePrice f p = Some x" "isFinite x"
  shows "validateStops (fo_side f) x (levelField (fo_slText f)) (levelField (fo_tpText f)) = None"
proof -
  have field: "levelField w = parseNumberField w" if "\<not> levelInvalid (parseNumberField w)" for w
    using that by (auto simp: levelField_def levelInvalid_def split: option.split number.split)
  have x: "(case referencePrice f p of Some NaN \<Rightarrow> None | r \<Rightarrow> r) = Some x" using assms(2,3) by (cases x) simp_all
  have ok: "validateProtectiveLevels (fo_side f) (Some x) (parseNumberField (fo_slText f)) (parseNumberField (fo_tpText f)) = (None, None)"
    using assms(1) by (simp only: ticketLevels_def x)
  then have "\<not> levelInvalid (parseNumberField (fo_slText f))" "\<not> levelInvalid (parseNumberField (fo_tpText f))"
    by (auto simp: validateProtectiveLevels_def Let_def)
  then show ?thesis using ok assms(3) field by (simp add: levels_agree)
qed

lemma whole_text:
  assumes "trim s = s" "takeWhile is_digit s = s" "dropWhile is_digit s = []" "s \<noteq> []" "digits_val s = n" "\<bar>n\<bar> \<le> 2 ^ 53" "s \<noteq> ''Infinity''"
    and "\<not> startsWith s ''0x'' \<and> \<not> startsWith s ''0X'' \<and> \<not> startsWith s ''0o'' \<and> \<not> startsWith s ''0O'' \<and> \<not> startsWith s ''0b'' \<and> \<not> startsWith s ''0B''
      \<and> \<not> startsWith s ''-'' \<and> \<not> startsWith s ''+''"
  shows "parseNumberField s = Some (Fin (of_int n))"
proof -
  have "\<not> startsWith [] ''.''" by (simp add: startsWith_def)
  then have "unsignedDecimal s = Some (Fin (of_int n))"
    unfolding unsignedDecimal_def Let_def assms(2,3) using assms(4,5,7) rnd_of_int [OF assms(6)] by (simp add: exponentOf_def)
  then show ?thesis using assms by (simp add: parseNumberField_def Number_of_def Let_def)
qed

lemma stops_between:
  assumes "validateStops side x sl tp = None" "isFinite x"
  shows "validateStops side y sl tp = None \<or> (\<exists>l. (sl = Some l \<or> tp = Some l) \<and> (y \<le> l \<and> l < x \<or> x < l \<and> l \<le> y))"
proof (cases "validateStops side y sl tp = None")
  case False
  have fin: "isFinite l \<Longrightarrow> l \<noteq> NaN" for l by auto
  have "(\<exists>l. sl = Some l \<and> stopLossInvalid side y l \<and> \<not> stopLossInvalid side x l)
      \<or> (\<exists>l. tp = Some l \<and> takeProfitInvalid side y l \<and> \<not> takeProfitInvalid side x l)"
    using False assms(1) by (cases sl; cases tp) (auto simp: validateStops_def split: if_splits)
  then show ?thesis
    using fin [OF assms(2)] fin
    by (auto simp: stopLossInvalid_def takeProfitInvalid_def number_not_le split: if_splits)
qed simp

text \<open>
  C9: An order that the ticket lets through is not refused by the engine for anything that the page could have known: for
  an instrument with the default volume step of 0.01 lots and the same finite quote, its volume is valid, a market order's
  stops are valid for the price that the engine fills at, a pending order's price is on the right side of the quote, its
  stops are valid for the price as the engine rounds it to the digits of the instrument unless that rounding itself moves
  the price onto or past a stop (so always for a price with no more digits than the instrument), and neither a rule nor a
  halt nor the status of the account stood against it.
\<close>

theorem ticket_orders_are_acceptable:
  assumes "handleSubmit f p = Some d" "tp_instrument p = Some i" "tp_tick p = Some q" "isFinite (bid q)" "isFinite (ask q)"
    and "volumeStep i = cents 1" "minVolume i = cents a" "maxVolume i = cents b" "1 \<le> a" "a \<le> b" "b \<le> 10000000"
  shows "validateVolume (dr_volume d) i = None
    \<and> (dr_orderType d = MARKET \<longrightarrow> validateStops (dr_side d) (fillPrice (dr_side d) q) (dr_stopLoss d) (dr_takeProfit d) = None)
    \<and> (dr_orderType d \<noteq> MARKET \<longrightarrow> validatePendingPrice (dr_side d) (dr_orderType d) (dr_price d) q = None
        \<and> (\<exists>x. dr_price d = Some x \<and> (let y = roundPrice x (ins_digits i) in
             validateStops (dr_side d) y (dr_stopLoss d) (dr_takeProfit d) = None
             \<or> (\<exists>l. (dr_stopLoss d = Some l \<or> dr_takeProfit d = Some l) \<and> (y \<le> l \<and> l < x \<or> x < l \<and> l \<le> y)))))
    \<and> tp_tradable p \<and> tp_restriction p = None \<and> tp_market p \<noteq> Some MS_HALTED"
proof -
  obtain v where v: "parseNumberField (fo_volumeText f) = Some v" and can: "canSubmit f p"
    and d: "dr_volume d = clampVolume v i" "dr_side d = fo_side f" "dr_orderType d = fo_orderType f"
      "dr_price d = (if fo_orderType f \<noteq> MARKET then parseNumberField (fo_priceText f) else None)"
      "dr_stopLoss d = levelField (fo_slText f)" "dr_takeProfit d = levelField (fo_tpText f)"
    using assms(1,2) by (auto simp: handleSubmit_def split: option.splits if_splits)
  have block: "tp_tradable p" "tp_restriction p = None" "tp_market p \<noteq> Some MS_HALTED"
    using can by (auto simp: canSubmit_def blockReason_def split: if_splits option.splits)
  have levels: "ticketLevels f p = (None, None)" and price: "ticketPriceError f p = None" using can by (simp_all add: canSubmit_def)
  have volume: "v \<noteq> NaN" "\<not> v \<le> Fin 0" "\<not> v > cents b"
    using can by (auto simp: canSubmit_def volumeError_def assms(2,8) v split: if_splits)
  obtain cb where cb: "cents b = Fin cb" "\<bar>cb - of_int b / 100\<bar> \<le> 1 / 2 ^ 35" using lots_Fin [of b] assms by auto
  have "v \<noteq> PInf" using v by (auto simp: parseNumberField_def Let_def split: if_splits)
  then obtain r where r: "v = Fin r" "0 < r" "r \<le> cb" using volume cb(1) by (cases v) simp_all
  have "(1 / 2 ^ 35 :: rat) \<le> 1" "of_int b / 100 \<le> (100000 :: rat)" using assms(11) by simp_all
  then have "\<bar>r\<bar> \<le> 1000000" using r cb(2) by linarith
  then have "\<bar>r\<bar> \<le> 10 ^ 6" by simp
  from clamp_cents [OF assms(6-11) this] obtain k where "dr_volume d = cents k" "a \<le> k" "k \<le> b" unfolding d r(1) by blast
  then have "validateVolume (dr_volume d) i = None" using whole_lots_accepted assms(6-11) by metis
  moreover have "validateStops (dr_side d) (fillPrice (dr_side d) q) (dr_stopLoss d) (dr_takeProfit d) = None" if "dr_orderType d = MARKET"
    using submitted_levels [OF levels, of "fillPrice (fo_side f) q"] that assms(3-5)
    by (simp add: d referencePrice_def marketFillPrice_def fillPrice_def split: if_splits)
  moreover have "validatePendingPrice (dr_side d) (dr_orderType d) (dr_price d) q = None
      \<and> (\<exists>x. dr_price d = Some x \<and> (let y = roundPrice x (ins_digits i) in
             validateStops (dr_side d) y (dr_stopLoss d) (dr_takeProfit d) = None
             \<or> (\<exists>l. (dr_stopLoss d = Some l \<or> dr_takeProfit d = Some l) \<and> (y \<le> l \<and> l < x \<or> x < l \<and> l \<le> y))))"
    if "dr_orderType d \<noteq> MARKET"
  proof -
    have ok: "validatePendingPrice (fo_side f) (fo_orderType f) (parseNumberField (fo_priceText f)) q = None"
      using price that pending_agrees [of "fo_orderType f" "fo_side f" "parseNumberField (fo_priceText f)" q] by (simp add: ticketPriceError_def assms(3) d)
    then obtain x where x: "parseNumberField (fo_priceText f) = Some x" "isFinite x" by (auto simp: validatePendingPrice_def split: option.splits if_splits)
    then have "validateStops (dr_side d) x (dr_stopLoss d) (dr_takeProfit d) = None"
      using submitted_levels [OF levels, of x] that by (simp add: d referencePrice_def)
    from stops_between [OF this x(2), of "roundPrice x (ins_digits i)"] show ?thesis
      using ok that x(1) unfolding Let_def by (simp add: d)
  qed
  ultimately show ?thesis using block by blast
qed

definition sampleForm :: OrderForm where
  "sampleForm = \<lparr>fo_side = BUY, fo_orderType = LIMIT, fo_volumeText = ''1'', fo_priceText = ''99'', fo_slText = ''98'', fo_tpText = [], fo_submitting = False\<rparr>"

definition sampleProps :: TicketProps where
  "sampleProps = \<lparr>tp_tradable = True, tp_instrument = Some (sampleInstrument\<lparr>minVolume := cents 1, maxVolume := cents 5000, volumeStep := cents 1\<rparr>),
     tp_tick = Some \<lparr>bid = Fin 100, ask = Fin 101, tk_symbol = ''ETBUSD'', tk_ts = 0, tk_source = ''ws''\<rparr>, tp_market = Some MS_OPEN,
     tp_socketStatus = StatusOpen, tp_restriction = None\<rparr>"

theorem ticket_orders_are_acceptable_witness:
  "\<exists>d. handleSubmit sampleForm sampleProps = Some d \<and> validatePendingPrice BUY LIMIT (dr_price d) \<lparr>bid = Fin 100, ask = Fin 101, tk_symbol = ''ETBUSD'', tk_ts = 0, tk_source = ''ws''\<rparr> = None"
proof -
  have n: "parseNumberField ''1'' = Some (Fin (of_int 1))" "parseNumberField ''99'' = Some (Fin (of_int 99))" "parseNumberField ''98'' = Some (Fin (of_int 98))"
    "parseNumberField [] = None"
    by (rule whole_text; code_simp)+ code_simp
  obtain k where k: "roundToStep (Fin 1) (cents 1) = cents k" "\<bar>1 - of_int k / 100 :: rat\<bar> \<le> 6 / 1000" using round_to_cent [of 1] by auto
  have "k = 100" using k(2) by linarith
  then have step: "roundToStep (Fin 1) (cents 1) = Fin 1" using k(1) rnd_of_int [of 1] by (simp add: cents_def)
  have one: "cents 100 = Fin 1" using rnd_of_int [of 1] by (simp add: cents_def)
  have less: "x \<le> y \<Longrightarrow> \<not> y < x" for x y :: number using number_le_less_trans number_less_irrefl by blast
  have "\<not> Fin 1 < cents 1" "\<not> cents 5000 < Fin 1" "\<not> lit (1 / 1000000000) < Fin 0"
    using less cents_mono [of 1 100] cents_mono [of 100 5000] one rnd_mono [of 0 "1 / 1000000000"] by (simp_all add: lit_def)
  then have "handleSubmit sampleForm sampleProps \<noteq> None"
    by (simp add: handleSubmit_def canSubmit_def sampleForm_def sampleProps_def n blockReason_def volumeError_def step ticketPriceError_def ticketPendingPrice_def
      ticketLevels_def referencePrice_def validateProtectiveLevels_def levelInvalid_def Let_def)
  then obtain d where d: "handleSubmit sampleForm sampleProps = Some d" by blast
  then have "dr_side d = BUY" "dr_orderType d = LIMIT" by (auto simp: handleSubmit_def sampleForm_def sampleProps_def split: option.splits if_splits)
  then show ?thesis
    using ticket_orders_are_acceptable [OF d, of "sampleInstrument\<lparr>minVolume := cents 1, maxVolume := cents 5000, volumeStep := cents 1\<rparr>" _ 1 5000] d
    by (simp add: sampleProps_def)
qed

section \<open>The list of positions\<close>

text \<open>The list that the page keeps, as a map from ids: events insert, replace and remove, and no id is shown twice.\<close>

definition shownPositions :: "PositionInfo list \<Rightarrow> nat \<Rightarrow> PositionInfo option" where
  "shownPositions ps = map_of (map (\<lambda>x. (pi_id x, x)) ps)"

lemma shown_none: "shownPositions ps i = None \<longleftrightarrow> (\<forall>x\<in>set ps. pi_id x \<noteq> i)"
  unfolding shownPositions_def map_of_eq_None_iff by force

lemma shown_replaced: "shownPositions (map (\<lambda>x. if pi_id x = pi_id p then p else x) ps) = (if shownPositions ps (pi_id p) = None then shownPositions ps else (shownPositions ps)(pi_id p \<mapsto> p))"
  by (induction ps) (auto simp: shownPositions_def fun_eq_iff)

lemma ids_replaced: "map pi_id (map (\<lambda>x. if pi_id x = pi_id p then p else x) ps) = map pi_id ps"
  by (induction ps) auto

lemma positions_follow_events:
  "shownPositions (applyPositionEvent ps event p) = (case event of
     OPENED \<Rightarrow> (shownPositions ps)(pi_id p \<mapsto> p)
   | MODIFIED \<Rightarrow> if shownPositions ps (pi_id p) = None then shownPositions ps else (shownPositions ps)(pi_id p \<mapsto> p)
   | CLOSED_EVENT \<Rightarrow> (shownPositions ps)(pi_id p := None))"
  "distinct (map pi_id ps) \<Longrightarrow> distinct (map pi_id (applyPositionEvent ps event p))"
proof -
  have fresh: "shownPositions (ps @ [p]) = (shownPositions ps)(pi_id p \<mapsto> p)" if "shownPositions ps (pi_id p) = None"
    using that by (auto simp: shownPositions_def fun_eq_iff map_add_def split: option.split)
  have gone: "shownPositions (filter (\<lambda>x. pi_id x \<noteq> pi_id p) ps) = (shownPositions ps)(pi_id p := None)"
    by (induction ps) (auto simp: shownPositions_def fun_eq_iff)
  show "shownPositions (applyPositionEvent ps event p) = (case event of
     OPENED \<Rightarrow> (shownPositions ps)(pi_id p \<mapsto> p)
   | MODIFIED \<Rightarrow> if shownPositions ps (pi_id p) = None then shownPositions ps else (shownPositions ps)(pi_id p \<mapsto> p)
   | CLOSED_EVENT \<Rightarrow> (shownPositions ps)(pi_id p := None))"
    using fresh gone shown_replaced [of p ps] shown_none [of ps "pi_id p"] by (cases event) (auto simp: applyPositionEvent_def)
  show "distinct (map pi_id ps) \<Longrightarrow> distinct (map pi_id (applyPositionEvent ps event p))"
    using ids_replaced [of p ps] by (cases event) (auto simp: applyPositionEvent_def distinct_map_filter simp del: map_map)
qed

end
