(* ===== verification/Market.thy ===== *)
theory Market
  imports Candles
begin

text \<open>
  The market data that pages read (\<open>src/lib/services/market.ts\<close>): the catalogue, the latest rates and the history of
  candles, whose SQL aggregation over the stored minutes is written out over the table of \<open>Candles\<close>. Instants are
  milliseconds, the times of the bars that go to a chart are seconds.
\<close>

section \<open>Catalogue and rates\<close>

text \<open>The columns that \<open>toInstrumentInfo\<close> copies are fields of the row.\<close>

definition listInstruments :: "Instrument list \<Rightarrow> Instrument list" where
  "listInstruments rows = sort_key ins_sortOrder (sort_key ins_symbol (filter ins_enabled rows))"

record FxRateRow =
  fxr_base :: string
  fxr_quote :: string
  fxr_rate :: number
  fxr_effectiveAt :: int

text \<open>\<open>distinct\<close> keeps the first row of every base, which is the latest.\<close>

definition firstOfBase :: "FxRateRow list \<Rightarrow> FxRateRow list" where
  "firstOfBase rows = foldl (\<lambda>kept r. if \<exists>k\<in>set kept. fxr_base k = fxr_base r then kept else kept @ [r]) [] rows"

definition latestFxRates :: "string \<Rightarrow> FxRateRow list \<Rightarrow> (string \<rightharpoonup> number)" where
  "latestFxRates acctCurrency rows =
     foldl (\<lambda>m r. m(fxr_base r \<mapsto> fxr_rate r)) [acctCurrency \<mapsto> lit 1]
       (firstOfBase (sort_key fxr_base (sort_key (\<lambda>r. - fxr_effectiveAt r) (filter (\<lambda>r. fxr_quote r = acctCurrency) rows))))"

section \<open>Candles\<close>

text \<open>\<open>bucketStart\<close> of \<open>market.ts\<close>, in seconds.\<close>

definition bucketStartSeconds :: "int \<Rightarrow> Timeframe \<Rightarrow> int" where
  "bucketStartSeconds ts tf = (let size = TIMEFRAME_SECONDS tf in ts div size * size)"

definition toSeconds :: "Bar \<Rightarrow> Bar" where
  "toSeconds b = b\<lparr>bar_time := bar_time b div 1000\<rparr>"

definition storedMinutes :: "string \<Rightarrow> int option \<Rightarrow> BarTable \<Rightarrow> Bar list" where
  "storedMinutes symbol before table =
     map snd (filter (\<lambda>((s, t), b). s = symbol \<and> (case before of Some c \<Rightarrow> t < c | None \<Rightarrow> True)) table)"

text \<open>One group of the query: first open, highest high, lowest low, last close, sum of the volumes. Prices are numbers: SQL and the fold order \<open>NaN\<close> differently.\<close>

definition groupBar :: "int \<Rightarrow> Bar list \<Rightarrow> Bar" where
  "groupBar t rows =
     (let bs = sort_key bar_time rows in
      \<lparr>bar_time = t, bar_open = bar_open (hd bs),
       bar_high = foldl (\<lambda>x b. if bar_high b > x then bar_high b else x) (bar_high (hd bs)) (tl bs),
       bar_low = foldl (\<lambda>x b. if bar_low b < x then bar_low b else x) (bar_low (hd bs)) (tl bs),
       bar_close = bar_close (last bs), bar_volume = sum_list (map bar_volume bs)\<rparr>)"

definition groupRows :: "Timeframe \<Rightarrow> nat \<Rightarrow> Bar list \<Rightarrow> Bar list" where
  "groupRows tf limit rows =
     (let buckets = sort (remdups (map (\<lambda>b. bucketStart (bar_time b) tf) rows));
          page = take limit (rev buckets)
      in map (\<lambda>t. groupBar t (filter (\<lambda>b. bucketStart (bar_time b) tf = t) rows)) (rev page))"

text \<open>\<open>None\<close> stands for an option that is not given; a limit is a whole number.\<close>

definition barLimit :: "int option \<Rightarrow> nat" where
  "barLimit n = nat (max 1 (min 1500 (case n of Some k \<Rightarrow> k | None \<Rightarrow> 500)))"

definition getMarketBars :: "string \<Rightarrow> Timeframe \<Rightarrow> int option \<Rightarrow> int option \<Rightarrow> BarTable \<Rightarrow> Bar list" where
  "getMarketBars symbol tf n before table =
     (let limit = barLimit n in
      if tf = TF_1m then map toSeconds (rev (take limit (rev (sort_key bar_time (storedMinutes symbol before table)))))
      else let cutoff = map_option (\<lambda>b. bucketStartSeconds (b div 1000) tf * 1000) before
           in map toSeconds (groupRows tf limit (storedMinutes symbol cutoff table)))"

end
