(* ===== verification/MarketProofs.thy ===== *)
theory MarketProofs
  imports Market CandleProofs
begin

text \<open>
  The history that a chart reads is the aggregation of the stored minutes that also builds the live bars, and pages of it
  fit together.
\<close>

section \<open>Groups\<close>

abbreviation bucket :: "Timeframe \<Rightarrow> Bar \<Rightarrow> int" where
  "bucket tf b \<equiv> bucketStart (bar_time b) tf"

definition mergeAll :: "Bar list \<Rightarrow> Bar" where
  "mergeAll bs = foldl mergeBar (hd bs) (tl bs)"

lemma merge_fields:
  "bar_time (foldl mergeBar a bs) = bar_time a" "bar_open (foldl mergeBar a bs) = bar_open a"
  "bar_high (foldl mergeBar a bs) = foldl (\<lambda>x b. if bar_high b > x then bar_high b else x) (bar_high a) bs"
  "bar_low (foldl mergeBar a bs) = foldl (\<lambda>x b. if bar_low b < x then bar_low b else x) (bar_low a) bs"
  "bar_close (foldl mergeBar a bs) = bar_close (last (a # bs))"
  "bar_volume (foldl mergeBar a bs) = bar_volume a + sum_list (map bar_volume bs)"
  by (induction bs arbitrary: a) (simp_all add: mergeBar_def)

lemma group_merges: "sorted (map bar_time bs) \<Longrightarrow> bs \<noteq> [] \<Longrightarrow> groupBar t bs = (mergeAll bs)\<lparr>bar_time := t\<rparr>"
proof -
  assume s: "sorted (map bar_time bs)" and ne: "bs \<noteq> []"
  have "sort_key bar_time bs = bs" using s by (rule sort_key_id_if_sorted)
  then show ?thesis using ne unfolding groupBar_def Let_def by (cases bs) (simp_all add: mergeAll_def merge_fields)
qed

lemma merge_snoc: "bs \<noteq> [] \<Longrightarrow> mergeAll (bs @ [b]) = mergeBar (mergeAll bs) b"
  by (cases bs) (simp_all add: mergeAll_def)

text \<open>The ascending buckets of ascending rows.\<close>

definition buckets :: "Timeframe \<Rightarrow> Bar list \<Rightarrow> int list" where
  "buckets tf bs = sort (remdups (map (bucket tf) bs))"

lemma buckets_set: "set (buckets tf bs) = bucket tf ` set bs" "sorted (buckets tf bs)" "distinct (buckets tf bs)"
  by (simp_all add: buckets_def)

lemma buckets_snoc:
  assumes "\<forall>x\<in>set bs. bucket tf x \<le> bucket tf b"
  shows "buckets tf (bs @ [b]) = (if bucket tf b \<in> bucket tf ` set bs then buckets tf bs else buckets tf bs @ [bucket tf b])"
proof -
  have eq: "xs = ys" if "sorted xs" "distinct xs" "sorted ys" "distinct ys" "set xs = set ys" for xs ys :: "int list"
    using that by (metis sorted_distinct_set_unique)
  show ?thesis using assms by (intro eq) (auto simp: buckets_set sorted_append insert_absorb)
qed

definition groupAll :: "Timeframe \<Rightarrow> Bar list \<Rightarrow> Bar list" where
  "groupAll tf bs = map (\<lambda>t. groupBar t (filter (\<lambda>b. bucket tf b = t) bs)) (buckets tf bs)"

lemma last_bucket: "bs \<noteq> [] \<Longrightarrow> sorted (map bar_time bs) \<Longrightarrow> buckets tf bs \<noteq> [] \<and> last (buckets tf bs) = bucket tf (last bs)"
proof (induction bs rule: rev_induct)
  case (snoc b bs)
  have le: "\<forall>x\<in>set bs. bucket tf x \<le> bucket tf b" using snoc.prems(2) by (auto simp: sorted_append intro: bucketStart_mono)
  show ?case
  proof (cases "bucket tf b \<in> bucket tf ` set bs")
    case True
    then have ne: "bs \<noteq> []" by auto
    then have ih: "buckets tf bs \<noteq> []" "last (buckets tf bs) = bucket tf (last bs)" using snoc by (simp_all add: sorted_append)
    obtain x where x: "x \<in> set bs" "bucket tf b = bucket tf x" using True by auto
    have "bar_time x \<le> bar_time (last bs)" using snoc.prems(2) x(1) ne by (cases bs rule: rev_cases) (auto simp: sorted_append)
    then have "bucket tf b \<le> bucket tf (last bs)" using x(2) by (simp add: bucketStart_mono)
    moreover have "bucket tf (last bs) \<le> bucket tf b" using le ne by simp
    ultimately show ?thesis using True ih by (simp add: buckets_snoc [OF le])
  qed (simp add: buckets_snoc [OF le])
qed simp

text \<open>The query and the aggregation in memory agree.\<close>

lemma groups_aggregate: "sorted (map bar_time bs) \<Longrightarrow> groupAll tf bs = aggregateBars bs tf"
proof (induction bs rule: rev_induct)
  case Nil
  then show ?case by (simp add: groupAll_def buckets_def aggregateBars_def)
next
  case (snoc b bs)
  have le: "\<forall>x\<in>set bs. bucket tf x \<le> bucket tf b" and srt: "sorted (map bar_time bs)" using snoc.prems by (auto simp: sorted_append intro: bucketStart_mono)
  have ih: "groupAll tf bs = aggregateBars bs tf" using snoc.IH srt by blast
  have sub: "sorted (map bar_time (filter p xs))" if "sorted (map bar_time xs)" for p and xs :: "Bar list"
    using that by (rule sorted_filter)
  show ?case
  proof (cases "bucket tf b \<in> bucket tf ` set bs")
    case True
    then have ne: "bs \<noteq> []" by auto
    obtain B where B: "buckets tf bs = B @ [bucket tf b]"
    proof -
      have l: "buckets tf bs \<noteq> []" "last (buckets tf bs) = bucket tf (last bs)" using last_bucket [OF ne srt] by blast+
      obtain x where x: "x \<in> set bs" "bucket tf b = bucket tf x" using True by auto
      have "bar_time x \<le> bar_time (last bs)" using srt x(1) ne by (cases bs rule: rev_cases) (auto simp: sorted_append)
      then have "bucket tf b \<le> bucket tf (last bs)" using x(2) by (simp add: bucketStart_mono)
      moreover have "bucket tf (last bs) \<le> bucket tf b" using le ne by simp
      ultimately show thesis using that [of "butlast (buckets tf bs)"] l append_butlast_last_id by fastforce
    qed
    have out: "bucket tf b \<notin> set B" using buckets_set(3) [of tf bs] by (simp add: B)
    let ?grp = "filter (\<lambda>x. bucket tf x = bucket tf b) bs"
    have grp: "?grp \<noteq> []" using True by (auto simp: filter_empty_conv)
    have new: "groupBar (bucket tf b) (?grp @ [b]) = mergeBar (groupBar (bucket tf b) ?grp) b"
    proof -
      have s: "sorted (map bar_time (?grp @ [b]))" using sub [OF snoc.prems, of "\<lambda>x. bucket tf x = bucket tf b"] by simp
      have "groupBar (bucket tf b) (?grp @ [b]) = (mergeBar (mergeAll ?grp) b)\<lparr>bar_time := bucket tf b\<rparr>"
        using group_merges [OF s] merge_snoc [OF grp] by simp
      also have "\<dots> = mergeBar ((mergeAll ?grp)\<lparr>bar_time := bucket tf b\<rparr>) b" by (simp add: mergeBar_def)
      also have "(mergeAll ?grp)\<lparr>bar_time := bucket tf b\<rparr> = groupBar (bucket tf b) ?grp" using group_merges [OF sub [OF srt] grp] by simp
      finally show ?thesis .
    qed
    have same: "map (\<lambda>t. groupBar t (filter (\<lambda>x. bucket tf x = t) (bs @ [b]))) B = map (\<lambda>t. groupBar t (filter (\<lambda>x. bucket tf x = t) bs)) B"
      using out by auto
    have time: "bar_time (groupBar t g) = t" for t g by (simp add: groupBar_def Let_def)
    have old: "aggregateBars bs tf = map (\<lambda>t. groupBar t (filter (\<lambda>x. bucket tf x = t) bs)) B @ [groupBar (bucket tf b) ?grp]"
      using ih by (simp add: groupAll_def B)
    have "groupAll tf (bs @ [b]) = map (\<lambda>t. groupBar t (filter (\<lambda>x. bucket tf x = t) bs)) B @ [groupBar (bucket tf b) (?grp @ [b])]"
      using True same by (simp add: groupAll_def buckets_snoc [OF le] B)
    then show ?thesis by (simp add: aggregate_snoc aggregateStep_def Let_def old new time)
  next
    case False
    have keep: "map (\<lambda>t. groupBar t (filter (\<lambda>x. bucket tf x = t) (bs @ [b]))) (buckets tf bs) = groupAll tf bs"
      using False buckets_set(1) [of tf bs] by (auto simp: groupAll_def)
    have fresh: "filter (\<lambda>x. bucket tf x = bucket tf b) (bs @ [b]) = [b]"
    proof -
      have "\<forall>x\<in>set bs. bucket tf x \<noteq> bucket tf b" using False by (metis image_eqI)
      then show ?thesis by (simp add: filter_empty_conv)
    qed
    have "groupAll tf (bs @ [b]) = aggregateBars bs tf @ [groupBar (bucket tf b) [b]]"
      unfolding groupAll_def [of tf "bs @ [b]"] using False by (simp only: buckets_snoc [OF le] if_False map_append list.map keep fresh ih)
    moreover have "groupBar (bucket tf b) [b] = b\<lparr>bar_time := bucket tf b\<rparr>" by (simp add: groupBar_def)
    moreover have "aggregateBars bs tf \<noteq> [] \<Longrightarrow> bar_time (last (aggregateBars bs tf)) \<noteq> bucket tf b"
      using aggregate_times [OF last_in_set, of bs tf] False by fastforce
    ultimately show ?thesis by (auto simp: aggregate_snoc aggregateStep_def Let_def)
  qed
qed

lemma aggregate_buckets: "sorted (map bar_time bs) \<Longrightarrow> map bar_time (aggregateBars bs tf) = buckets tf bs"
proof -
  assume "sorted (map bar_time bs)"
  then have "map bar_time (aggregateBars bs tf) = map bar_time (groupAll tf bs)" by (simp add: groups_aggregate)
  also have "\<dots> = buckets tf bs" by (simp add: groupAll_def groupBar_def Let_def comp_def)
  finally show ?thesis .
qed

section \<open>Pages\<close>

definition latestOf :: "nat \<Rightarrow> 'a list \<Rightarrow> 'a list" where
  "latestOf n xs = drop (length xs - n) xs"

lemma latest_take: "rev (take n (rev xs)) = latestOf n xs"
  by (simp add: latestOf_def take_rev)

lemma latest_map: "map f (latestOf n xs) = latestOf n (map f xs)"
  by (simp add: latestOf_def drop_map)

lemma latest_split: "\<exists>old. xs = old @ latestOf n xs"
  unfolding latestOf_def by (metis append_take_drop_id)

lemma latest_empty: "0 < n \<Longrightarrow> latestOf n xs = [] \<longleftrightarrow> xs = []"
  by (cases xs) (auto simp: latestOf_def)

text \<open>The query over rows in any order is the end of the aggregation of the ascending rows.\<close>

lemma rows_aggregate: "groupRows tf n rows = latestOf n (aggregateBars (sort_key bar_time rows) tf)"
proof -
  have grp: "groupBar t (filter P rows) = groupBar t (filter P (sort_key bar_time rows))" for t P
    by (simp add: groupBar_def filter_sort sort_key_id_if_sorted)
  have b: "sort (remdups (map (bucket tf) rows)) = buckets tf (sort_key bar_time rows)"
    by (rule sorted_distinct_set_unique) (simp_all add: buckets_set)
  have "groupRows tf n rows = map (\<lambda>t. groupBar t (filter (\<lambda>b. bucket tf b = t) (sort_key bar_time rows))) (latestOf n (buckets tf (sort_key bar_time rows)))"
    by (simp add: groupRows_def Let_def latest_take b grp [symmetric])
  also have "\<dots> = latestOf n (groupAll tf (sort_key bar_time rows))" by (simp add: groupAll_def latest_map)
  finally show ?thesis by (simp add: groups_aggregate)
qed

definition table_ok :: "BarTable \<Rightarrow> bool" where
  "table_ok table \<longleftrightarrow> distinct (map fst table) \<and> (\<forall>((s, t), b)\<in>set table. bar_time b = t \<and> bucketStart t TF_1m = t)"

lemma minutes_stay: "sorted (map bar_time bs) \<Longrightarrow> distinct (map bar_time bs) \<Longrightarrow> \<forall>b\<in>set bs. bucketStart (bar_time b) TF_1m = bar_time b \<Longrightarrow> aggregateBars bs TF_1m = bs"
proof (induction bs rule: rev_induct)
  case Nil
  then show ?case by (simp add: aggregateBars_def)
next
  case (snoc b bs)
  then have "aggregateBars bs TF_1m = bs" by (simp add: sorted_append)
  have "bar_time b \<notin> bar_time ` set bs" using snoc.prems(2) by simp
  then have "bs \<noteq> [] \<Longrightarrow> bar_time (last bs) \<noteq> bar_time b" by (metis image_eqI last_in_set)
  then show ?case using snoc.prems(3) \<open>aggregateBars bs TF_1m = bs\<close> by (auto simp: aggregate_snoc aggregateStep_def Let_def)
qed

lemma minutes_ok:
  assumes "table_ok table"
  shows "distinct (map bar_time (storedMinutes symbol c table))" "b \<in> set (storedMinutes symbol c table) \<Longrightarrow> bucketStart (bar_time b) TF_1m = bar_time b"
    "storedMinutes symbol (Some t) table = filter (\<lambda>b. bar_time b < t) (storedMinutes symbol None table)"
proof -
  have key: "r \<in> set table \<Longrightarrow> bar_time (snd r) = snd (fst r) \<and> bucketStart (snd (fst r)) TF_1m = snd (fst r)" for r
    using assms by (cases r) (auto simp: table_ok_def split_beta)
  show "b \<in> set (storedMinutes symbol c table) \<Longrightarrow> bucketStart (bar_time b) TF_1m = bar_time b" using key by (force simp: storedMinutes_def)
  have "distinct (map bar_time (map snd (filter (\<lambda>((s, t), b). s = symbol \<and> (case c of Some k \<Rightarrow> t < k | None \<Rightarrow> True)) table)))"
    by (rule distinct_keyed [where s = symbol]) (use assms key in \<open>auto simp: table_ok_def distinct_map_filter\<close>)
  then show "distinct (map bar_time (storedMinutes symbol c table))" by (simp only: storedMinutes_def)
  show "storedMinutes symbol (Some t) table = filter (\<lambda>b. bar_time b < t) (storedMinutes symbol None table)"
    using assms unfolding table_ok_def by (induction table) (auto simp: storedMinutes_def)
qed

text \<open>The whole history before an instant, as the aggregation of the stored minutes.\<close>

definition history :: "string \<Rightarrow> Timeframe \<Rightarrow> int option \<Rightarrow> BarTable \<Rightarrow> Bar list" where
  "history symbol tf before table = map toSeconds (aggregateBars (sort_key bar_time (storedMinutes symbol
     (if tf = TF_1m then before else map_option (\<lambda>b. bucketStartSeconds (b div 1000) tf * 1000) before) table)) tf)"

lemma bars_are_history: "table_ok table \<Longrightarrow> getMarketBars symbol tf n before table = latestOf (barLimit n) (history symbol tf before table)"
proof (cases "tf = TF_1m")
  case True
  assume ok: "table_ok table"
  have "aggregateBars (sort_key bar_time (storedMinutes symbol before table)) TF_1m = sort_key bar_time (storedMinutes symbol before table)"
    by (rule minutes_stay) (use minutes_ok(1,2) [OF ok] in \<open>auto simp: distinct_map\<close>)
  then show ?thesis using True by (simp add: getMarketBars_def history_def Let_def latest_take latest_map)
qed (simp add: getMarketBars_def history_def Let_def rows_aggregate latest_map)

text \<open>History before a bucket is the part of the history with earlier buckets.\<close>

lemma aggregate_before:
  assumes "sorted (map bar_time bs)" "bucketStart t tf = t"
  shows "aggregateBars (filter (\<lambda>b. bar_time b < t) bs) tf = filter (\<lambda>c. bar_time c < t) (aggregateBars bs tf)"
proof -
  have earlier: "bar_time b < t \<longleftrightarrow> bucket tf b < t" for b
    using bucketStart_le [of "bar_time b" tf] bucketStart_mono [of t "bar_time b" tf] assms(2) by linarith
  let ?old = "filter (\<lambda>b. bar_time b < t) bs"
  have s: "sorted (map bar_time ?old)" using assms(1) by (rule sorted_filter)
  have b: "buckets tf ?old = filter (\<lambda>k. k < t) (buckets tf bs)"
    by (rule sorted_distinct_set_unique) (auto simp: buckets_set earlier sorted_filter [of "\<lambda>x. x", simplified])
  have g: "groupBar k (filter (\<lambda>b. bucket tf b = k) ?old) = groupBar k (filter (\<lambda>b. bucket tf b = k) bs)" if "k < t" for k
  proof -
    have "filter (\<lambda>b. bucket tf b = k) ?old = filter (\<lambda>b. bucket tf b = k) bs"
      unfolding filter_filter by (rule filter_cong) (use that earlier in auto)
    then show ?thesis by simp
  qed
  have time: "bar_time (groupBar k x) = k" for k x by (simp add: groupBar_def Let_def)
  have "groupAll tf ?old = map (\<lambda>k. groupBar k (filter (\<lambda>b. bucket tf b = k) bs)) (filter (\<lambda>k. k < t) (buckets tf bs))"
    unfolding groupAll_def b by (intro map_cong refl g) simp
  also have "\<dots> = filter (\<lambda>c. bar_time c < t) (groupAll tf bs)" by (simp add: groupAll_def filter_map comp_def time)
  finally show ?thesis using s assms(1) by (simp add: groups_aggregate)
qed

lemma whole_seconds: "bucketStart t tf = t \<Longrightarrow> t div 1000 * 1000 = t \<and> bucketStartSeconds (t div 1000) tf * 1000 = t"
proof -
  assume "bucketStart t tf = t"
  then have b: "t div (TIMEFRAME_SECONDS tf * 1000) * (TIMEFRAME_SECONDS tf * 1000) = t" by (simp add: bucketStart_def Let_def)
  then have "(t div (TIMEFRAME_SECONDS tf * 1000) * TIMEFRAME_SECONDS tf) * 1000 = t" by (simp add: mult.assoc)
  then have s: "t div 1000 * 1000 = t" by (metis nonzero_mult_div_cancel_right zero_neq_numeral)
  have "t div 1000 div TIMEFRAME_SECONDS tf = t div (TIMEFRAME_SECONDS tf * 1000)" using zdiv_zmult2_eq [of "TIMEFRAME_SECONDS tf" t 1000] seconds_pos [of tf] by (simp add: mult.commute)
  then show ?thesis using s b by (simp add: bucketStartSeconds_def Let_def mult.assoc)
qed

lemma latest_before:
  fixes f :: "'a \<Rightarrow> int"
  assumes "sorted (map f xs)" "distinct (map f xs)" "latestOf n xs \<noteq> []"
  shows "filter (\<lambda>x. f x < f (hd (latestOf n xs))) xs @ latestOf n xs = xs"
proof -
  obtain old where old: "xs = old @ latestOf n xs" using latest_split by blast
  obtain y ys where y: "latestOf n xs = y # ys" using assms(3) by (cases "latestOf n xs") auto
  have xs: "xs = old @ y # ys" using old y by simp
  have "f y \<notin> f ` set old" "\<forall>x\<in>set old. f x \<le> f y" using assms(1,2) unfolding xs by (auto simp: sorted_append)
  then have "\<forall>x\<in>set old. f x < f y" by (metis image_eqI order_less_le)
  moreover have "\<forall>x\<in>set (y # ys). \<not> f x < f y" using assms(1) unfolding xs by (auto simp: sorted_append)
  ultimately have "filter (\<lambda>x. f x < f y) xs = old" unfolding xs by simp
  then show ?thesis using y xs by simp
qed

text \<open>
  C23: The candles of a chart are one history read in pages: a request gives the latest bars, up to its limit, of the
  aggregation of the stored minutes that also makes the live bars; and when the next page is asked for with the time of
  the oldest bar, what lies before it is exactly the rest of the history, so that pages neither repeat nor skip a bar and
  never show a bucket that was built in part.
\<close>

theorem history_pages_fit:
  assumes "table_ok table" "bars = getMarketBars symbol tf n before table"
  shows "bars = latestOf (barLimit n) (history symbol tf before table)
    \<and> (bars \<noteq> [] \<longrightarrow> history symbol tf (Some (bar_time (hd bars) * 1000)) table @ bars = history symbol tf before table)
    \<and> (bars = [] \<longleftrightarrow> history symbol tf before table = [])"
proof -
  let ?cut = "if tf = TF_1m then before else map_option (\<lambda>b. bucketStartSeconds (b div 1000) tf * 1000) before"
  let ?rows = "sort_key bar_time (storedMinutes symbol ?cut table)"
  let ?agg = "aggregateBars ?rows tf"
  have bars: "bars = latestOf (barLimit n) (history symbol tf before table)" using assms bars_are_history by simp
  have limit: "0 < barLimit n" by (simp add: barLimit_def)
  have times: "map bar_time ?agg = buckets tf ?rows" by (rule aggregate_buckets) simp
  then have order: "sorted (map bar_time ?agg)" "distinct (map bar_time ?agg)" by (simp_all add: buckets_set)
  have "history symbol tf (Some (bar_time (hd bars) * 1000)) table @ bars = history symbol tf before table" if ne: "bars \<noteq> []"
  proof -
    let ?page = "latestOf (barLimit n) ?agg"
    have page: "bars = map toSeconds ?page" using bars by (simp only: history_def latest_map)
    then have some: "?page \<noteq> []" using ne by fastforce
    define k where "k = bar_time (hd ?page)"
    have "set ?page \<subseteq> set ?agg" by (simp only: latestOf_def set_drop_subset)
    then have "hd ?page \<in> set ?agg" using hd_in_set [OF some] by blast
    then obtain b where b: "b \<in> set ?rows" "k = bucket tf b" using aggregate_times unfolding k_def by blast
    then have t: "bucketStart k tf = k" by simp
    have "bar_time (hd bars) * 1000 = k" using whole_seconds [OF t] some unfolding page by (simp add: hd_map toSeconds_def k_def)
    moreover have "(if tf = TF_1m then Some k else map_option (\<lambda>b. bucketStartSeconds (b div 1000) tf * 1000) (Some k)) = Some k"
      using whole_seconds [OF t] by simp
    moreover have "sort_key bar_time (storedMinutes symbol (Some k) table) = filter (\<lambda>b. bar_time b < k) ?rows"
    proof (cases ?cut)
      case None
      then show ?thesis using minutes_ok(3) [OF assms(1)] by (simp add: filter_sort)
    next
      case (Some c)
      have "bar_time b < c" using b(1) Some minutes_ok(3) [OF assms(1)] by simp
      then have "k < c" using b(2) bucketStart_le [of "bar_time b" tf] by simp
      then have "storedMinutes symbol (Some k) table = filter (\<lambda>b. bar_time b < k) (storedMinutes symbol (Some c) table)"
        using minutes_ok(3) [OF assms(1)] by (auto intro!: filter_cong)
      then show ?thesis using Some by (simp add: filter_sort)
    qed
    ultimately have "history symbol tf (Some (bar_time (hd bars) * 1000)) table = map toSeconds (filter (\<lambda>c. bar_time c < k) ?agg)"
      using aggregate_before [of ?rows k tf] t by (simp add: history_def del: map_option_eq_Some)
    then show ?thesis using latest_before [OF order some] page unfolding k_def by (simp add: history_def flip: map_append)
  qed
  moreover have "bars = [] \<longleftrightarrow> history symbol tf before table = []" using bars latest_empty [OF limit] by simp
  ultimately show ?thesis using bars by blast
qed

definition threeMinutes :: BarTable where
  "threeMinutes = [((''EURUSD'', 0), newBar 0 (Fin 1)), ((''EURUSD'', 240000), newBar 240000 (Fin 3)), ((''EURUSD'', 300000), newBar 300000 (Fin 2))]"

theorem history_pages_fit_witness:
  "history ''EURUSD'' TF_5m (Some 300000) threeMinutes @ getMarketBars ''EURUSD'' TF_5m (Some 1) None threeMinutes = history ''EURUSD'' TF_5m None threeMinutes"
proof -
  have ok: "table_ok threeMinutes" by (simp add: table_ok_def threeMinutes_def newBar_def bucketStart_def)
  let ?page = "getMarketBars ''EURUSD'' TF_5m (Some 1) None threeMinutes"
  have page: "getMarketBars ''EURUSD'' TF_5m (Some 1) None threeMinutes \<noteq> []" "bar_time (hd (getMarketBars ''EURUSD'' TF_5m (Some 1) None threeMinutes)) = 300" by code_simp+
  have "?page \<noteq> [] \<longrightarrow> history ''EURUSD'' TF_5m (Some (bar_time (hd ?page) * 1000)) threeMinutes @ ?page = history ''EURUSD'' TF_5m None threeMinutes"
    using history_pages_fit [OF ok refl, of "''EURUSD''" TF_5m "Some 1" None] by blast
  then show ?thesis using page by simp
qed

end
