(* ===== verification/NewsCalendar.thy ===== *)
theory NewsCalendar
  imports News FeedCodec
begin

text \<open>
  The economic calendar (\<open>src/lib/services/newsCalendar.ts\<close>): the parsers of its two import formats and the table of
  events. An \<open>externalId\<close> is kept as its parts (prefix, currency, UTC day, slug), whose text separates them by colons
  that occur in none of them. Audit entries and the poke of the worker are left out; changes of case are those of ASCII and
  a byte order mark has no place.
\<close>

datatype NewsImpact = LOW_IMPACT | MEDIUM_IMPACT | HIGH_IMPACT

datatype ExternalId = ExternalId string string int string

record EventInput =
  ei_title :: string
  ei_currency :: string
  ei_impact :: NewsImpact
  ei_scheduledAt :: int
  ei_externalId :: "ExternalId option"
  ei_source :: "string option"

section \<open>Fields\<close>

definition parseImpact :: "Json \<Rightarrow> NewsImpact option" where
  "parseImpact value = (case value of
     JStr s \<Rightarrow> (let v = toUpperCase (trim s) in
       if v = ''MED'' then Some MEDIUM_IMPACT else if v = ''LOW'' then Some LOW_IMPACT
       else if v = ''MEDIUM'' then Some MEDIUM_IMPACT else if v = ''HIGH'' then Some HIGH_IMPACT else None)
   | _ \<Rightarrow> None)"

text \<open>
  \<open>ISO_WITH_OFFSET\<close>: the date and time to the minute, then optional seconds with an optional fraction, then the zone.
  \<open>isoSeconds\<close> gives the milliseconds after the minute and what follows them, \<open>isoZone\<close> the minutes east of UTC;
  \<open>new Date\<close> refuses what the format of the standard has out of range.
\<close>

definition isoSeconds :: "string \<Rightarrow> (int \<times> string) option" where
  "isoSeconds rest =
     (if startsWith rest '':'' then
        (if length rest \<ge> 3 \<and> digitsOnly (take 2 (tl rest)) then
           (let s = digits_val (take 2 (tl rest)); after = drop 3 rest; frac = takeWhile is_digit (tl after) in
            if startsWith after ''.'' \<and> 1 \<le> length frac \<and> length frac \<le> 3
            then (if s < 60 then Some (s * 1000 + digits_val (take 3 (frac @ ''000'')), drop (1 + length frac) after) else None)
            else if startsWith after ''.'' then None
            else if s < 60 then Some (s * 1000, after) else None)
         else None)
      else Some (0, rest))"

definition isoZone :: "string \<Rightarrow> int option" where
  "isoZone z =
     (if z = ''Z'' then Some 0
      else (case z of
          [] \<Rightarrow> None
        | c0 # hm \<Rightarrow>
           (let d = (if length hm = 5 \<and> hm ! 2 = CHR '':'' then take 2 hm @ drop 3 hm else hm);
                h = digits_val (take 2 d); mi = digits_val (drop 2 d)
            in if (c0 = CHR ''+'' \<or> c0 = CHR ''-'') \<and> length d = 4 \<and> digitsOnly d \<and> h < 24 \<and> mi < 60
               then Some ((if c0 = CHR ''-'' then - 1 else 1) * (h * 60 + mi)) else None)))"

definition daysInMonth :: "int \<Rightarrow> int \<Rightarrow> int" where
  "daysInMonth y m = (if m = 12 then daysFromCivil (y + 1) 1 else daysFromCivil y (m + 1)) - daysFromCivil y m"

definition parseEventTime :: "Json \<Rightarrow> int option" where
  "parseEventTime value = (case value of
     JStr raw \<Rightarrow>
       (let v = trim raw; y = digits_val (take 4 v); m = digits_val (take 2 (drop 5 v)); d = digits_val (take 2 (drop 8 v));
            h = digits_val (take 2 (drop 11 v)); mi = digits_val (take 2 (drop 14 v)); civil = (if y \<le> 99 then 1900 + y else y)
        in if length v > 16 \<and> digitsOnly (take 4 v) \<and> v ! 4 = CHR ''-'' \<and> digitsOnly (take 2 (drop 5 v)) \<and> v ! 7 = CHR ''-'' \<and> digitsOnly (take 2 (drop 8 v))
              \<and> v ! 10 = CHR ''T'' \<and> digitsOnly (take 2 (drop 11 v)) \<and> v ! 13 = CHR '':'' \<and> digitsOnly (take 2 (drop 14 v))
           then (case isoSeconds (drop 16 v) of
               Some (ms, z) \<Rightarrow>
                 (case isoZone z of
                    Some off \<Rightarrow>
                      if m < 1 \<or> m > 12 \<or> d < 1 \<or> d > daysInMonth civil m then None
                      else if mi > 59 \<or> h > 24 \<or> h = 24 \<and> (mi > 0 \<or> ms > 0) then None
                      else Some ((daysFromCivil y m + d - 1) * DAY_MS + (h * 60 + mi) * 60000 + ms - off * 60000)
                  | None \<Rightarrow> None)
             | None \<Rightarrow> None)
           else None)
   | _ \<Rightarrow> None)"

definition normalizeCurrency :: "Json \<Rightarrow> string option" where
  "normalizeCurrency value = (case value of
     JStr s \<Rightarrow> (let c = toUpperCase (trim s) in if length c = 3 \<and> (\<forall>x\<in>set c. 65 \<le> code x \<and> code x \<le> 90) \<and> c \<noteq> ''ALL'' then Some c else None)
   | _ \<Rightarrow> None)"

text \<open>\<open>slug\<close>: every run of other characters is one dash, dashes at the ends go, 80 characters stay.\<close>

definition slugChar :: "char \<Rightarrow> bool" where
  "slugChar c \<longleftrightarrow> is_digit c \<or> (97 \<le> code c \<and> code c \<le> 122)"

fun dashRuns :: "bool \<Rightarrow> string \<Rightarrow> string" where
  "dashRuns inRun [] = []"
| "dashRuns inRun (c # cs) = (if slugChar c then c # dashRuns False cs else if inRun then dashRuns True cs else CHR ''-'' # dashRuns True cs)"

definition slug :: "string \<Rightarrow> string" where
  "slug s = (let dash = (\<lambda>c. c = CHR ''-'') in take 80 (rev (dropWhile dash (rev (dropWhile dash (dashRuns False (toLowerCase s)))))))"

definition eventExternalId :: "string \<Rightarrow> string \<Rightarrow> string \<Rightarrow> int \<Rightarrow> ExternalId" where
  "eventExternalId prefix cur title t = ExternalId prefix cur (utcDate t) (slug title)"

section \<open>CSV\<close>

text \<open>The loop of \<open>splitCsvLine\<close>: \<open>quoted\<close>, \<open>cur\<close> and \<open>out\<close> are its variables.\<close>

fun csvLoop :: "bool \<Rightarrow> string \<Rightarrow> string list \<Rightarrow> string \<Rightarrow> string list" where
  "csvLoop quoted cur out [] = out @ [cur]"
| "csvLoop True cur out (ch # rest) =
     (if ch = CHR 0x22 then
        (case rest of
           c2 # rest2 \<Rightarrow> if c2 = CHR 0x22 then csvLoop True (cur @ [CHR 0x22]) out rest2 else csvLoop False cur out rest
         | [] \<Rightarrow> csvLoop False cur out rest)
      else csvLoop True (cur @ [ch]) out rest)"
| "csvLoop False cur out (ch # rest) =
     (if ch = CHR 0x22 \<and> trim cur = [] then csvLoop True [] out rest
      else if ch = CHR '','' then csvLoop False [] (out @ [cur]) rest
      else csvLoop False (cur @ [ch]) out rest)"

definition splitCsvLine :: "string \<Rightarrow> string list" where
  "splitCsvLine line = map trim (csvLoop False [] [] line)"

datatype CsvProblem = TooFewColumns | BadTitle | BadCurrency | BadImpact | BadTime

text \<open>The first four columns, then one line with its number: nothing, a row or a problem.\<close>

definition csvColumns :: "string \<Rightarrow> string \<Rightarrow> string \<Rightarrow> string \<Rightarrow> EventInput + CsvProblem" where
  "csvColumns title currencyRaw impactRaw when =
     (if title = [] \<or> length title > 200 then Inr BadTitle
      else case normalizeCurrency (JStr currencyRaw) of
          None \<Rightarrow> Inr BadCurrency
        | Some cur \<Rightarrow> (case parseImpact (JStr impactRaw) of
            None \<Rightarrow> Inr BadImpact
          | Some impact \<Rightarrow> (case parseEventTime (JStr when) of
              None \<Rightarrow> Inr BadTime
            | Some t \<Rightarrow> Inl \<lparr>ei_title = title, ei_currency = cur, ei_impact = impact, ei_scheduledAt = t,
                ei_externalId = Some (eventExternalId ''csv'' cur title t), ei_source = Some ''CSV''\<rparr>)))"

definition csvLine :: "nat \<Rightarrow> string \<Rightarrow> (EventInput + CsvProblem) option" where
  "csvLine index raw =
     (let cols = splitCsvLine raw in
      if trim raw = [] \<or> startsWith (trim raw) ''#'' then None
      else if index = 0 \<and> toLowerCase (hd cols) = ''title'' then None
      else if length cols < 4 then Some (Inr TooFewColumns)
      else Some (csvColumns (cols ! 0) (cols ! 1) (cols ! 2) (cols ! 3)))"

definition stripReturn :: "string \<Rightarrow> string" where
  "stripReturn s = (if s \<noteq> [] \<and> last s = CHR 0x0D then butlast s else s)"

definition csvLines :: "string \<Rightarrow> string list" where
  "csvLines csv = (let parts = splitAt (CHR 0x0A) csv in map stripReturn (butlast parts) @ [last parts])"

definition parseEventsCsv :: "string \<Rightarrow> EventInput list \<times> (nat \<times> CsvProblem) list" where
  "parseEventsCsv csv =
     (let results = List.map_filter (\<lambda>(i, raw). map_option (\<lambda>r. (i, r)) (csvLine i raw)) (List.enumerate 0 (csvLines csv))
      in (List.map_filter (\<lambda>(i, r). case r of Inl row \<Rightarrow> Some row | Inr _ \<Rightarrow> None) results,
          List.map_filter (\<lambda>(i, r). case r of Inr p \<Rightarrow> Some (i + 1, p) | Inl _ \<Rightarrow> None) results))"

section \<open>The weekly feed\<close>

definition feedItem :: "Json \<Rightarrow> EventInput option" where
  "feedItem item = (case item of
     JObj r \<Rightarrow>
       (let title = (case map_of r ''title'' of Some (JStr s) \<Rightarrow> take 200 (trim s) | _ \<Rightarrow> []); field = (\<lambda>k. case map_of r k of Some j \<Rightarrow> j | None \<Rightarrow> JNull) in
        case (normalizeCurrency (field ''country''), parseImpact (field ''impact''), parseEventTime (field ''date'')) of
          (Some cur, Some impact, Some t) \<Rightarrow>
            if title = [] then None
            else Some \<lparr>ei_title = title, ei_currency = cur, ei_impact = impact, ei_scheduledAt = t,
              ei_externalId = Some (eventExternalId ''ff'' cur title t), ei_source = Some ''FOREX_FACTORY''\<rparr>
        | _ \<Rightarrow> None)
   | _ \<Rightarrow> None)"

definition parseForexFactoryCalendar :: "Json \<Rightarrow> EventInput list" where
  "parseForexFactoryCalendar json = (case json of JArr items \<Rightarrow> List.map_filter feedItem items | _ \<Rightarrow> [])"

section \<open>The table\<close>

record EconomicEvent =
  ev_id :: nat
  ev_title :: string
  ev_currency :: string
  ev_impact :: NewsImpact
  ev_scheduledAt :: int
  ev_source :: string
  ev_externalId :: "ExternalId option"

record Calendar =
  cal_events :: "EconomicEvent list"
  cal_next :: nat
  cal_window :: "number option"

definition eventRow :: "nat \<Rightarrow> EventInput \<Rightarrow> EconomicEvent" where
  "eventRow i r = \<lparr>ev_id = i, ev_title = ei_title r, ev_currency = ei_currency r, ev_impact = ei_impact r, ev_scheduledAt = ei_scheduledAt r,
     ev_source = (case ei_source r of Some x \<Rightarrow> x | None \<Rightarrow> ''IMPORT''), ev_externalId = ei_externalId r\<rparr>"

definition addEvent :: "EventInput \<Rightarrow> Calendar \<Rightarrow> Calendar" where
  "addEvent r c = c\<lparr>cal_events := cal_events c @ [eventRow (cal_next c) r], cal_next := cal_next c + 1\<rparr>"

text \<open>\<open>upsert\<close> by the unique \<open>externalId\<close>.\<close>

definition hasExternal :: "ExternalId option \<Rightarrow> EconomicEvent \<Rightarrow> bool" where
  "hasExternal x e \<longleftrightarrow> x \<noteq> None \<and> ev_externalId e = x"

definition updateEvent :: "EventInput \<Rightarrow> Calendar \<Rightarrow> Calendar" where
  "updateEvent r c = c\<lparr>cal_events := map (\<lambda>e. if hasExternal (ei_externalId r) e then eventRow (ev_id e) r else e) (cal_events c)\<rparr>"

definition upsertOne :: "EventInput \<Rightarrow> (nat \<times> nat) \<times> Calendar \<Rightarrow> (nat \<times> nat) \<times> Calendar" where
  "upsertOne r s =
     (let ((created, updated), c) = s in
      if \<exists>e\<in>set (cal_events c). hasExternal (ei_externalId r) e then ((created, updated + 1), updateEvent r c)
      else ((created + 1, updated), addEvent r c))"

definition upsertEconomicEvents :: "EventInput list \<Rightarrow> Calendar \<Rightarrow> (nat \<times> nat) \<times> Calendar" where
  "upsertEconomicEvents rows c = foldl (\<lambda>s r. upsertOne r s) ((0, 0), c) rows"

definition createEconomicEvent :: "string \<Rightarrow> string \<Rightarrow> NewsImpact \<Rightarrow> int \<Rightarrow> Calendar \<Rightarrow> string + Calendar" where
  "createEconomicEvent title cur impact t c =
     (case normalizeCurrency (JStr cur) of
        None \<Rightarrow> Inl ''Currency must be a 3-letter ISO code''
      | Some cur1 \<Rightarrow> Inr (addEvent \<lparr>ei_title = take 200 (trim title), ei_currency = cur1, ei_impact = impact, ei_scheduledAt = t,
          ei_externalId = None, ei_source = Some ''MANUAL''\<rparr> c))"

definition deleteEconomicEvent :: "nat \<Rightarrow> Calendar \<Rightarrow> string + Calendar" where
  "deleteEconomicEvent i c =
     (if \<exists>e\<in>set (cal_events c). ev_id e = i then Inr (c\<lparr>cal_events := filter (\<lambda>e. ev_id e \<noteq> i) (cal_events c)\<rparr>) else Inl ''not found'')"

definition importEventsCsv :: "string \<Rightarrow> Calendar \<Rightarrow> string + ((nat \<times> nat) \<times> (nat \<times> CsvProblem) list) \<times> Calendar" where
  "importEventsCsv csv c =
     (let (rows, errors) = parseEventsCsv csv in
      if rows = [] then Inl (if errors \<noteq> [] then ''No valid rows'' else ''The CSV contains no rows'')
      else let (counts, c1) = upsertEconomicEvents rows c in Inr ((counts, errors), c1))"

text \<open>The answer to the request: \<open>None\<close> when it failed.\<close>

definition importCalendarFromUrl :: "Json option \<Rightarrow> Calendar \<Rightarrow> string + (nat \<times> (nat \<times> nat)) \<times> Calendar" where
  "importCalendarFromUrl answer c =
     (case answer of
        None \<Rightarrow> Inl ''calendar fetch failed''
      | Some json \<Rightarrow> (let rows = parseForexFactoryCalendar json; (counts, c1) = upsertEconomicEvents rows c in Inr ((length rows, counts), c1)))"

definition listEconomicEvents :: "bool \<Rightarrow> nat \<Rightarrow> nat \<Rightarrow> int \<Rightarrow> Calendar \<Rightarrow> EconomicEvent list \<times> nat \<times> nat" where
  "listEconomicEvents upcoming page pageSize now c =
     (let boundary = now - 2 * 3600000;
          items = filter (\<lambda>e. if upcoming then ev_scheduledAt e \<ge> boundary else ev_scheduledAt e < boundary) (cal_events c);
          ordered = (if upcoming then sort_key ev_scheduledAt items else sort_key (\<lambda>e. - ev_scheduledAt e) items)
      in (take pageSize (drop ((page - 1) * pageSize) ordered), length items, max 1 ((length items + pageSize - 1) div pageSize)))"

definition getNewsWindowMinutes :: "Calendar \<Rightarrow> number" where
  "getNewsWindowMinutes c = normalizeNewsWindowMinutes (case cal_window c of Some m \<Rightarrow> m | None \<Rightarrow> Fin 2)"

definition setNewsWindowMinutes :: "number \<Rightarrow> Calendar \<Rightarrow> string + Calendar" where
  "setNewsWindowMinutes minutes c =
     (if \<not> isFinite minutes \<or> minutes < lit 0 \<or> minutes > lit 120 then Inl ''The news window must be between 0 and 120 minutes''
      else Inr (c\<lparr>cal_window := Some minutes\<rparr>))"

end
