(* ===== verification/NewsCalendarProofs.thy ===== *)
theory NewsCalendarProofs
  imports NewsCalendar FeedPlanProofs
begin

text \<open>
  The importers of the calendar: a file written with quoted cells is read back as its rows, and an import that is repeated
  changes nothing.
\<close>

section \<open>Cells\<close>

definition escapeCell :: "string \<Rightarrow> string" where
  "escapeCell c = concat (map (\<lambda>x. if x = CHR 0x22 then [x, x] else [x]) c)"

definition quoteCell :: "string \<Rightarrow> string" where
  "quoteCell c = CHR 0x22 # escapeCell c @ [CHR 0x22]"

definition csvRow :: "string list \<Rightarrow> string" where
  "csvRow cells = joinWith (CHR '','') (map quoteCell cells)"

lemma csv_quoted: "rest = [] \<or> hd rest \<noteq> CHR 0x22 \<Longrightarrow> csvLoop True cur out (escapeCell c @ CHR 0x22 # rest) = csvLoop False (cur @ c) out rest"
proof (induction c arbitrary: cur)
  case Nil
  then show ?case by (cases rest) (simp_all add: escapeCell_def)
next
  case (Cons x c)
  then show ?case by (simp add: escapeCell_def)
qed

lemma csv_cell: "rest = [] \<or> hd rest \<noteq> CHR 0x22 \<Longrightarrow> csvLoop False [] out (quoteCell c @ rest) = csvLoop False c out rest"
  using csv_quoted [of rest "[]" out c] by (simp add: quoteCell_def trim_def)

lemma csv_cells: "cells \<noteq> [] \<Longrightarrow> csvLoop False [] out (csvRow cells) = out @ cells"
proof (induction cells arbitrary: out rule: induct_list012)
  case (2 c)
  then show ?case using csv_cell [of "[]" out c] by (simp add: csvRow_def)
next
  case (3 c d cells)
  have "csvLoop False [] out (csvRow (c # d # cells)) = csvLoop False c out (CHR '','' # csvRow (d # cells))"
    using csv_cell [of "CHR '','' # csvRow (d # cells)" out c] by (simp add: csvRow_def)
  then show ?case using 3 by simp
qed simp

lemma split_cells: "cells \<noteq> [] \<Longrightarrow> splitCsvLine (csvRow cells) = map trim cells"
  using csv_cells [of cells "[]"] by (simp add: splitCsvLine_def)

lemma row_ends: "cells \<noteq> [] \<Longrightarrow> \<exists>mid. csvRow cells = CHR 0x22 # mid \<and> last (CHR 0x22 # mid) = CHR 0x22"
proof (induction cells rule: induct_list012)
  case (3 c d cells)
  then obtain mid where "csvRow (d # cells) = CHR 0x22 # mid" "last (CHR 0x22 # mid) = CHR 0x22" by auto
  then show ?case by (simp add: csvRow_def quoteCell_def)
qed (simp_all add: csvRow_def quoteCell_def)

lemma row_trimmed: "cells \<noteq> [] \<Longrightarrow> trim (csvRow cells) = csvRow cells"
  using row_ends [of cells] by (auto simp: is_space_def code_def intro!: trim_id)

lemma escape_chars: "set (escapeCell c) = set c"
  by (induction c) (auto simp: escapeCell_def)

lemma row_chars: "set (csvRow cells) \<subseteq> {CHR 0x22, CHR '',''} \<union> \<Union> (set ` set cells)"
  by (induction cells rule: induct_list012) (auto simp: csvRow_def quoteCell_def escape_chars)

section \<open>Files\<close>

definition impactText :: "NewsImpact \<Rightarrow> string" where
  "impactText i = (case i of LOW_IMPACT \<Rightarrow> ''LOW'' | MEDIUM_IMPACT \<Rightarrow> ''MEDIUM'' | HIGH_IMPACT \<Rightarrow> ''HIGH'')"

text \<open>An event with the text of its time, as one row of a file.\<close>

definition exportCells :: "EventInput \<times> string \<Rightarrow> string list" where
  "exportCells p = [ei_title (fst p), ei_currency (fst p), impactText (ei_impact (fst p)), snd p]"

definition exportCsv :: "(EventInput \<times> string) list \<Rightarrow> string" where
  "exportCsv ps = joinWith (CHR 0x0A) (''title,currency,impact,datetime'' # map (\<lambda>p. csvRow (exportCells p)) ps)"

definition exportable :: "EventInput \<times> string \<Rightarrow> bool" where
  "exportable p \<longleftrightarrow>
     (let (e, w) = p in
      trim (ei_title e) = ei_title e \<and> ei_title e \<noteq> [] \<and> length (ei_title e) \<le> 200 \<and> CHR 0x0A \<notin> set (ei_title e)
      \<and> normalizeCurrency (JStr (ei_currency e)) = Some (ei_currency e)
      \<and> trim w = w \<and> CHR 0x0A \<notin> set w \<and> parseEventTime (JStr w) = Some (ei_scheduledAt e)
      \<and> ei_externalId e = Some (eventExternalId ''csv'' (ei_currency e) (ei_title e) (ei_scheduledAt e)) \<and> ei_source e = Some ''CSV'')"

lemma currency_plain: "normalizeCurrency (JStr c) = Some c \<Longrightarrow> trim c = c \<and> CHR 0x0A \<notin> set c"
proof -
  assume "normalizeCurrency (JStr c) = Some c"
  then have l: "\<forall>x\<in>set c. 65 \<le> code x \<and> code x \<le> 90" by (auto simp: normalizeCurrency_def Let_def split: if_splits)
  then have "\<forall>x\<in>set c. \<not> is_space x" by (auto simp: is_space_def)
  then have "trim c = c" by (intro trim_id) auto
  then show ?thesis using l by (auto simp: code_def)
qed

lemma impact_plain: "trim (impactText i) = impactText i \<and> CHR 0x0A \<notin> set (impactText i) \<and> parseImpact (JStr (impactText i)) = Some i"
  by (cases i) (simp_all add: impactText_def trim_def is_space_def parseImpact_def toUpperCase_def upper_char_def code_def)

lemma export_line: "exportable p \<Longrightarrow> 0 < i \<Longrightarrow> csvLine i (csvRow (exportCells p)) = Some (Inl (fst p))"
proof -
  assume p: "exportable p" and i: "0 < i"
  obtain e w where ew: "p = (e, w)" by (cases p)
  have cols: "splitCsvLine (csvRow (exportCells p)) = exportCells p"
    using p currency_plain [of "ei_currency e"] impact_plain [of "ei_impact e"] split_cells [of "exportCells p"]
    by (auto simp: exportCells_def exportable_def ew)
  have "trim (csvRow (exportCells p)) = csvRow (exportCells p)" by (rule row_trimmed) (simp add: exportCells_def)
  moreover obtain mid where "csvRow (exportCells p) = CHR 0x22 # mid" using row_ends [of "exportCells p"] by (auto simp: exportCells_def)
  ultimately have plain: "trim (csvRow (exportCells p)) \<noteq> []" "\<not> startsWith (trim (csvRow (exportCells p))) ''#''" by (simp_all add: startsWith_def)
  have same: "fst p = \<lparr>ei_title = ei_title e, ei_currency = ei_currency e, ei_impact = ei_impact e, ei_scheduledAt = ei_scheduledAt e,
      ei_externalId = Some (eventExternalId ''csv'' (ei_currency e) (ei_title e) (ei_scheduledAt e)), ei_source = Some ''CSV''\<rparr>"
    using p by (simp add: exportable_def ew)
  show ?thesis using p i plain impact_plain [of "ei_impact e"] unfolding same
    by (simp add: csvLine_def cols Let_def) (simp add: exportCells_def exportable_def csvColumns_def ew)
qed

lemma export_lines: "csvLines (exportCsv ps) = ''title,currency,impact,datetime'' # map (\<lambda>p. csvRow (exportCells p)) ps" if ok: "\<forall>p\<in>set ps. exportable p"
proof -
  let ?ls = "''title,currency,impact,datetime'' # map (\<lambda>p. csvRow (exportCells p)) ps"
  have clean: "CHR 0x0A \<notin> set (csvRow (exportCells p))" if "exportable p" for p
    using that row_chars [of "exportCells p"] currency_plain [of "ei_currency (fst p)"] impact_plain [of "ei_impact (fst p)"]
    by (auto simp: exportCells_def exportable_def split: prod.splits)
  have parts: "splitAt (CHR 0x0A) (exportCsv ps) = ?ls"
    unfolding exportCsv_def by (rule split_join) (use ok clean in auto)
  have strip: "stripReturn l = l" if l: "l \<in> set ?ls" for l
  proof (cases "l = ''title,currency,impact,datetime''")
    case False
    then obtain p where "l = csvRow (exportCells p)" using l by auto
    then show ?thesis using row_ends [of "exportCells p"] by (auto simp: stripReturn_def exportCells_def)
  qed (simp add: stripReturn_def)
  have "map stripReturn (butlast ?ls) = butlast ?ls" by (rule map_idI) (use strip in_set_butlastD in fast)
  then show ?thesis by (simp only: csvLines_def Let_def parts append_butlast_last_id list.distinct(2) not_False_eq_True)
qed

lemma enumerate_rows:
  assumes "\<forall>l\<in>set ps. exportable l" "0 < n"
  shows "List.map_filter (\<lambda>(i, raw). map_option (Pair i) (csvLine i raw)) (List.enumerate n (map (\<lambda>p. csvRow (exportCells p)) ps))
    = List.enumerate n (map (\<lambda>p. Inl (fst p)) ps)"
  using assms by (induction ps arbitrary: n) (simp_all add: List.map_filter_simps export_line)

text \<open>
  C27: The file format is unambiguous: events written as quoted cells (with doubled quotes, so that titles may hold commas
  and quotes) under a header line are read back as exactly those events, in order, each with the identity of an imported
  event, and no line is rejected.
\<close>

theorem csv_export_import:
  assumes "\<forall>p\<in>set ps. exportable p"
  shows "parseEventsCsv (exportCsv ps) = (map fst ps, [])"
proof -
  have head: "csvLine 0 ''title,currency,impact,datetime'' = None" by code_simp
  let ?results = "List.enumerate 1 (map (\<lambda>p. Inl (fst p) :: EventInput + CsvProblem) ps)"
  have rows: "List.map_filter (\<lambda>(i, r). case r of Inl row \<Rightarrow> Some row | Inr _ \<Rightarrow> None) (List.enumerate n (map (\<lambda>p. Inl (fst p) :: EventInput + CsvProblem) ps)) = map fst ps"
    and none: "List.map_filter (\<lambda>(i, r). case r of Inr p \<Rightarrow> Some (i + 1, p) | Inl _ \<Rightarrow> None) (List.enumerate n (map (\<lambda>p. Inl (fst p) :: EventInput + CsvProblem) ps)) = []" for n
    by (induction ps arbitrary: n) (simp_all add: List.map_filter_simps)
  have "List.map_filter (\<lambda>(i, raw). map_option (Pair i) (csvLine i raw)) (List.enumerate 0 (csvLines (exportCsv ps))) = ?results"
    using enumerate_rows [OF assms, of 1] by (simp add: export_lines [OF assms] head List.map_filter_simps)
  then show ?thesis unfolding parseEventsCsv_def Let_def by (simp only: rows none)
qed

definition twoReleases :: "(EventInput \<times> string) list" where
  "twoReleases = [(\<lparr>ei_title = ''CPI, core'', ei_currency = ''USD'', ei_impact = HIGH_IMPACT, ei_scheduledAt = 45000000,
     ei_externalId = Some (ExternalId ''csv'' ''USD'' 0 ''cpi-core''), ei_source = Some ''CSV''\<rparr>, ''1970-01-01T08:30:00-04:00'')]"

theorem csv_export_import_witness: "parseEventsCsv (exportCsv twoReleases) = (map fst twoReleases, [])"
proof -
  have "\<forall>p\<in>set twoReleases. exportable p" by code_simp
  then show ?thesis by (rule csv_export_import)
qed

section \<open>Imports\<close>

text \<open>What a row of the import leaves of an event: the last row of the same identity.\<close>

definition latestRow :: "EventInput list \<Rightarrow> EconomicEvent \<Rightarrow> EconomicEvent" where
  "latestRow rows e = (let ms = filter (\<lambda>r. hasExternal (ei_externalId r) e) rows in if ms = [] then e else eventRow (ev_id e) (last ms))"

lemma row_fields [simp]: "ev_id (eventRow i r) = i" "ev_externalId (eventRow i r) = ei_externalId r"
  by (simp_all add: eventRow_def)

lemma upsert_snoc: "upsertEconomicEvents (rows @ [r]) c = upsertOne r (upsertEconomicEvents rows c)"
  by (simp add: upsertEconomicEvents_def)

lemma latest_external [simp]: "ev_externalId (latestRow rows e) = ev_externalId e" "ev_id (latestRow rows e) = ev_id e"
proof -
  have "\<forall>r\<in>set (filter (\<lambda>r. hasExternal (ei_externalId r) e) rows). ei_externalId r = ev_externalId e" by (simp add: hasExternal_def)
  then show "ev_externalId (latestRow rows e) = ev_externalId e" using last_in_set by (fastforce simp: latestRow_def Let_def)
  show "ev_id (latestRow rows e) = ev_id e" by (simp add: latestRow_def Let_def)
qed

lemma has_latest [simp]: "hasExternal x (latestRow rows e) = hasExternal x e"
  by (simp add: hasExternal_def)

definition known :: "EventInput \<Rightarrow> Calendar \<Rightarrow> bool" where
  "known r c \<longleftrightarrow> (\<exists>e\<in>set (cal_events c). hasExternal (ei_externalId r) e)"

lemma known_ids: "known r c \<longleftrightarrow> ei_externalId r \<noteq> None \<and> ei_externalId r \<in> set (map ev_externalId (cal_events c))"
  unfolding known_def hasExternal_def by (metis (mono_tags, lifting) imageE image_eqI set_map)

lemma update_ids: "map ev_externalId (cal_events (updateEvent r c)) = map ev_externalId (cal_events c)"
  by (simp add: updateEvent_def hasExternal_def)

text \<open>Rows that are all known only update.\<close>

lemma upsert_known: "\<forall>r\<in>set rows. known r c \<Longrightarrow> upsertEconomicEvents rows c = ((0, length rows), c\<lparr>cal_events := map (latestRow rows) (cal_events c)\<rparr>)"
proof (induction rows rule: rev_induct)
  case Nil
  then show ?case by (simp add: upsertEconomicEvents_def latestRow_def)
next
  case (snoc r rows)
  let ?c = "c\<lparr>cal_events := map (latestRow rows) (cal_events c)\<rparr>"
  have "known r ?c" using snoc.prems by (simp add: known_def)
  moreover have "(if hasExternal (ei_externalId r) (latestRow rows e) then eventRow (ev_id (latestRow rows e)) r else latestRow rows e) = latestRow (rows @ [r]) e" for e
    unfolding has_latest latest_external by (simp add: latestRow_def)
  ultimately show ?case using snoc by (simp add: upsert_snoc upsertOne_def known_def updateEvent_def)
qed

text \<open>What one row and a whole import do to the table.\<close>

definition settled :: "EventInput list \<Rightarrow> Calendar \<Rightarrow> bool" where
  "settled rows c \<longleftrightarrow> (\<forall>r\<in>set rows. known r c) \<and> map (latestRow rows) (cal_events c) = cal_events c"

lemma latest_idle: "\<not> hasExternal (ei_externalId r) e \<Longrightarrow> latestRow (rows @ [r]) e = latestRow rows e"
  by (simp add: latestRow_def)

lemma one_settles:
  assumes "settled rows c" "ei_externalId r \<noteq> None"
  shows "settled (rows @ [r]) (snd (upsertOne r (n, c)))"
proof -
  have same: "latestRow rows e = e" if "e \<in> set (cal_events c)" for e using assms(1) that map_eq_conv [of "latestRow rows" _ "\<lambda>x. x"] by (simp add: settled_def)
  show ?thesis
  proof (cases "known r c")
    case True
    have step: "snd (upsertOne r (n, c)) = updateEvent r c" using True by (simp add: upsertOne_def known_def split: prod.split)
    have kn: "known q (updateEvent r c) \<longleftrightarrow> known q c" for q
      by (simp only: known_ids update_ids)
    have "latestRow (rows @ [r]) (if hasExternal (ei_externalId r) e then eventRow (ev_id e) r else e)
        = (if hasExternal (ei_externalId r) e then eventRow (ev_id e) r else e)" if "e \<in> set (cal_events c)" for e
    proof (cases "hasExternal (ei_externalId r) e")
      case True
      then have "hasExternal (ei_externalId r) (eventRow (ev_id e) r)" by (simp add: hasExternal_def)
      then show ?thesis using True by (simp add: latestRow_def)
    qed (simp add: latest_idle same [OF that])
    then show ?thesis using assms(1) True unfolding step settled_def by (simp add: kn) (simp add: updateEvent_def)
  next
    case False
    have step: "snd (upsertOne r (n, c)) = addEvent r c" using False by (simp add: upsertOne_def known_def split: prod.split)
    have old: "latestRow (rows @ [r]) e = e" if e: "e \<in> set (cal_events c)" for e
      using False e same [OF e] latest_idle [of r e rows] by (auto simp: known_def)
    have new: "latestRow (rows @ [r]) (eventRow (cal_next c) r) = eventRow (cal_next c) r"
      using assms(2) by (simp add: latestRow_def hasExternal_def)
    have kn: "known q (addEvent r c) \<longleftrightarrow> known q c \<or> hasExternal (ei_externalId q) (eventRow (cal_next c) r)" for q
      by (auto simp: known_def addEvent_def)
    have "map (latestRow (rows @ [r])) (cal_events c) = cal_events c" by (rule map_idI) (rule old)
    then show ?thesis using assms new unfolding step settled_def by (simp add: kn) (simp add: addEvent_def hasExternal_def)
  qed
qed

text \<open>Identities stay unique, the counts are those of the rows and of the new events.\<close>

definition uniqueEvents :: "Calendar \<Rightarrow> bool" where
  "uniqueEvents c \<longleftrightarrow> distinct (filter (\<lambda>x. x \<noteq> None) (map ev_externalId (cal_events c)))"

lemma one_counts:
  assumes "upsertOne r ((n, u), c) = ((n1, u1), c1)"
  shows "n1 + u1 = n + u + 1" "length (cal_events c1) + n = length (cal_events c) + n1" "uniqueEvents c \<Longrightarrow> uniqueEvents c1"
proof -
  show "n1 + u1 = n + u + 1" "length (cal_events c1) + n = length (cal_events c) + n1"
    using assms by (auto simp: upsertOne_def updateEvent_def addEvent_def split: if_splits)
  show "uniqueEvents c1" if "uniqueEvents c"
  proof (cases "known r c")
    case True
    then have "c1 = updateEvent r c" using assms by (simp add: upsertOne_def known_def)
    then show ?thesis using that by (simp only: uniqueEvents_def update_ids)
  next
    case False
    then have "c1 = addEvent r c" using assms by (simp add: upsertOne_def known_def)
    then show ?thesis using that False by (auto simp: uniqueEvents_def addEvent_def known_def hasExternal_def)
  qed
qed

lemma import_effect:
  assumes "upsertEconomicEvents rows c = ((n, u), c1)" "\<forall>r\<in>set rows. ei_externalId r \<noteq> None"
  shows "settled rows c1 \<and> n + u = length rows \<and> length (cal_events c1) = length (cal_events c) + n \<and> (uniqueEvents c \<longrightarrow> uniqueEvents c1)"
  using assms
proof (induction rows arbitrary: n u c1 rule: rev_induct)
  case Nil
  have "map (latestRow []) es = es" for es by (rule map_idI) (simp add: latestRow_def)
  then show ?case using Nil by (auto simp: upsertEconomicEvents_def settled_def)
next
  case (snoc r rows)
  obtain n0 u0 c0 where before: "upsertEconomicEvents rows c = ((n0, u0), c0)" by (metis prod.collapse)
  have step: "upsertOne r ((n0, u0), c0) = ((n, u), c1)" using snoc.prems(1) by (simp add: upsert_snoc before)
  have ih: "settled rows c0 \<and> n0 + u0 = length rows \<and> length (cal_events c0) = length (cal_events c) + n0 \<and> (uniqueEvents c \<longrightarrow> uniqueEvents c0)"
    using snoc.IH [OF before] snoc.prems(2) by simp
  have "settled (rows @ [r]) c1" using one_settles [of rows c0 r "(n0, u0)"] ih snoc.prems(2) step by simp
  then show ?case using ih one_counts [OF step] by auto
qed

lemma again: "settled rows c \<Longrightarrow> upsertEconomicEvents rows c = ((0, length rows), c)"
  by (simp add: settled_def upsert_known)

lemma columns_identity: "csvColumns title cur impact when = Inl r \<Longrightarrow> ei_externalId r \<noteq> None"
  unfolding csvColumns_def by (auto split: if_split_asm option.split_asm)

lemma line_identity: "csvLine i raw = Some (Inl r) \<Longrightarrow> ei_externalId r \<noteq> None"
  unfolding csvLine_def Let_def by (simp only: split: if_split_asm) (simp_all add: columns_identity)

lemma mapped_source: "x \<in> set (List.map_filter f xs) \<Longrightarrow> \<exists>y\<in>set xs. f y = Some x"
  by (induction xs) (auto simp: List.map_filter_simps split: option.split_asm)

lemma csv_identities: "r \<in> set (fst (parseEventsCsv csv)) \<Longrightarrow> ei_externalId r \<noteq> None"
  unfolding parseEventsCsv_def Let_def fst_conv by (auto dest!: mapped_source dest: line_identity split: sum.split_asm)

lemma item_identity: "feedItem item = Some r \<Longrightarrow> ei_externalId r \<noteq> None"
  by (cases item) (auto simp: feedItem_def Let_def split: option.split_asm if_split_asm)

lemma feed_identities: "r \<in> set (parseForexFactoryCalendar json) \<Longrightarrow> ei_externalId r \<noteq> None"
  by (cases json) (auto simp: parseForexFactoryCalendar_def dest!: mapped_source dest: item_identity)

text \<open>
  C26: Importing the same file again never duplicates events: after an import of a file that succeeded, importing it again
  creates nothing, counts every row as an update, reports the same rejected lines and leaves the table exactly as it is;
  the first import counts every row once, adds exactly the events it says it created, and keeps identities unique. The
  same holds of the feed.
\<close>

theorem reimport_changes_nothing:
  assumes "importEventsCsv csv c = Inr (((n, u), errs), c1)" "importCalendarFromUrl answer d = Inr ((k, (m, v)), d1)"
  shows "importEventsCsv csv c1 = Inr (((0, n + u), errs), c1) \<and> length (cal_events c1) = length (cal_events c) + n
    \<and> n + u = length (fst (parseEventsCsv csv)) \<and> (uniqueEvents c \<longrightarrow> uniqueEvents c1)
    \<and> importCalendarFromUrl answer d1 = Inr ((k, (0, k)), d1) \<and> m + v = k \<and> length (cal_events d1) = length (cal_events d) + m
    \<and> (uniqueEvents d \<longrightarrow> uniqueEvents d1)"
proof -
  obtain rows where rows: "parseEventsCsv csv = (rows, errs)" "rows \<noteq> []" and ups: "upsertEconomicEvents rows c = ((n, u), c1)"
    using assms(1) by (auto simp: importEventsCsv_def Let_def split: prod.splits if_splits)
  obtain json where json: "answer = Some json" "k = length (parseForexFactoryCalendar json)"
    and feed: "upsertEconomicEvents (parseForexFactoryCalendar json) d = ((m, v), d1)"
    using assms(2) by (auto simp: importCalendarFromUrl_def Let_def split: option.splits prod.splits)
  have a: "\<forall>r\<in>set rows. ei_externalId r \<noteq> None" using csv_identities [of _ csv] rows(1) by simp
  have b: "\<forall>r\<in>set (parseForexFactoryCalendar json). ei_externalId r \<noteq> None" using feed_identities by blast
  have x: "importEventsCsv csv c1 = Inr (((0, n + u), errs), c1)" using import_effect [OF ups a] rows by (simp add: importEventsCsv_def again)
  have y: "importCalendarFromUrl answer d1 = Inr ((k, (0, k)), d1)"
    using import_effect [OF feed b] json by (simp add: importCalendarFromUrl_def again Let_def)
  show ?thesis using import_effect [OF ups a] import_effect [OF feed b] rows(1) json(2) x y by (simp only: fst_conv) blast
qed

theorem reimport_changes_nothing_witness:
  "\<exists>c1 d1. importEventsCsv (exportCsv twoReleases) (Calendar.make [] 0 None) = Inr (((1, 0), []), c1)
    \<and> importEventsCsv (exportCsv twoReleases) c1 = Inr (((0, 1), []), c1)
    \<and> importCalendarFromUrl (Some (JArr [])) c1 = Inr ((0, (0, 0)), d1)"
proof -
  let ?c = "Calendar.make [] 0 None"
  let ?c1 = "addEvent (fst (hd twoReleases)) ?c"
  have "parseEventsCsv (exportCsv twoReleases) = (map fst twoReleases, [])" by code_simp
  then have one: "importEventsCsv (exportCsv twoReleases) ?c = Inr (((1, 0), []), ?c1)"
    by (simp add: importEventsCsv_def upsertEconomicEvents_def upsertOne_def twoReleases_def Calendar.make_def)
  have two: "importCalendarFromUrl (Some (JArr [])) ?c1 = Inr ((0, (0, 0)), ?c1)"
    by (simp add: importCalendarFromUrl_def parseForexFactoryCalendar_def upsertEconomicEvents_def List.map_filter_simps)
  show ?thesis using one two reimport_changes_nothing [OF one two] by auto
qed

text \<open>
  The identity of an imported event is its currency, day and slug: two speeches of one person on one day are one event, and
  the window of the earlier is lost.
\<close>

definition speech :: "int \<Rightarrow> EventInput" where
  "speech t = \<lparr>ei_title = ''Fed Chair Speaks'', ei_currency = ''USD'', ei_impact = HIGH_IMPACT, ei_scheduledAt = t,
     ei_externalId = Some (eventExternalId ''ff'' ''USD'' ''Fed Chair Speaks'' t), ei_source = Some ''FOREX_FACTORY''\<rparr>"

lemma same_day_speeches_merge:
  "map ev_scheduledAt (cal_events (snd (upsertEconomicEvents [speech 32400000, speech 68400000] (Calendar.make [] 0 None)))) = [68400000]"
  by code_simp

end
