(* ===== verification/Jobs.thy ===== *)
theory Jobs
  imports AuthDb Otp Market
begin

text \<open>
  The periodic jobs of the worker (\<open>src/worker/jobs.ts\<close>): their schedule, the advisory lock around each run as a state
  machine over the transactions and bodies of all replicas, and what the clean-up jobs delete. Instants are milliseconds.
\<close>

section \<open>Schedule\<close>

datatype JobName = RiskSweep | SessionCleanup | BarRetention | NewsImport

fun LOCK_KEYS :: "JobName \<Rightarrow> int" where
  "LOCK_KEYS RiskSweep = 0x4d465801"
| "LOCK_KEYS SessionCleanup = 0x4d465802"
| "LOCK_KEYS BarRetention = 0x4d465803"
| "LOCK_KEYS NewsImport = 0x4d465804"

fun jobTimeout :: "JobName \<Rightarrow> int" where
  "jobTimeout RiskSweep = 10 * 60000"
| "jobTimeout SessionCleanup = 5 * 60000"
| "jobTimeout BarRetention = 30 * 60000"
| "jobTimeout NewsImport = 2 * 60000"

text \<open>The delay of the first run and the interval; the import of the calendar needs its address.\<close>

definition jobTimers :: "string option \<Rightarrow> (JobName \<times> int \<times> int) list" where
  "jobTimers calendarUrl =
     [(RiskSweep, 10000, 60000), (SessionCleanup, 30000, 60 * 60000), (BarRetention, 60000, 24 * 60 * 60000)]
     @ (if map_option trim calendarUrl \<in> {None, Some []} then [] else [(NewsImport, 90000, 6 * 60 * 60000)])"

section \<open>The lock\<close>

text \<open>
  A run is the body of a job that some replica has started; \<open>jr_lock\<close> tells what became of its transaction, which holds
  the lock on a connection of its own: it is open, or the database ended it at its timeout, or it lost its connection at
  some instant. Neither end stops the body, which runs on another client.
\<close>

datatype LockState = LockHeld | LockTimedOut | LockLost int

record JobRun =
  jr_id :: nat
  jr_job :: JobName
  jr_started :: int
  jr_lock :: LockState

datatype JobOutcome = JobDone | JobSkipped | JobFailed

record Jobs =
  jb_runs :: "JobRun list"
  jb_next :: nat
  jb_now :: int
  jb_log :: "(JobName \<times> JobOutcome) list"

definition lockHeld :: "JobName \<Rightarrow> Jobs \<Rightarrow> bool" where
  "lockHeld job s \<longleftrightarrow> (\<exists>r\<in>set (jb_runs s). jr_lock r = LockHeld \<and> LOCK_KEYS (jr_job r) = LOCK_KEYS job)"

definition logJob :: "JobName \<Rightarrow> JobOutcome \<Rightarrow> Jobs \<Rightarrow> Jobs" where
  "logJob job outcome s = s\<lparr>jb_log := jb_log s @ [(job, outcome)]\<rparr>"

text \<open>The start of \<open>withAdvisoryLock\<close> under \<open>guard\<close>, and its end when the body returns or throws.\<close>

definition startJob :: "JobName \<Rightarrow> Jobs \<Rightarrow> Jobs" where
  "startJob job s =
     (if lockHeld job s then logJob job JobSkipped s
      else s\<lparr>jb_runs := jb_runs s @ [\<lparr>jr_id = jb_next s, jr_job = job, jr_started = jb_now s, jr_lock = LockHeld\<rparr>], jb_next := jb_next s + 1\<rparr>)"

definition endJob :: "JobRun \<Rightarrow> bool \<Rightarrow> Jobs \<Rightarrow> Jobs" where
  "endJob r returned s =
     logJob (jr_job r) (if returned \<and> jr_lock r = LockHeld then JobDone else JobFailed)
       (s\<lparr>jb_runs := filter (\<lambda>q. jr_id q \<noteq> jr_id r) (jb_runs s)\<rparr>)"

text \<open>
  The \<open>timeout\<close> of the transaction: the database ends it when the clock gets there, so no time passes beyond it with the
  lock still held. A lost connection ends it at once.
\<close>

definition expireLock :: "int \<Rightarrow> JobRun \<Rightarrow> JobRun" where
  "expireLock now r = (if jr_lock r = LockHeld \<and> jr_started r + jobTimeout (jr_job r) \<le> now then r\<lparr>jr_lock := LockTimedOut\<rparr> else r)"

definition passTime :: "int \<Rightarrow> Jobs \<Rightarrow> Jobs" where
  "passTime t s = s\<lparr>jb_now := t, jb_runs := map (expireLock t) (jb_runs s)\<rparr>"

definition loseConnection :: "nat \<Rightarrow> Jobs \<Rightarrow> Jobs" where
  "loseConnection i s =
     s\<lparr>jb_runs := map (\<lambda>q. if jr_id q = i \<and> jr_lock q = LockHeld then q\<lparr>jr_lock := LockLost (jb_now s)\<rparr> else q) (jb_runs s)\<rparr>"

inductive job_step :: "Jobs \<Rightarrow> Jobs \<Rightarrow> bool" where
  fires: "job_step s (startJob job s)"
| no_connection: "job_step s (logJob job JobFailed s)"
| ends: "r \<in> set (jb_runs s) \<Longrightarrow> job_step s (endJob r returned s)"
| loses: "job_step s (loseConnection i s)"
| passes: "jb_now s \<le> t \<Longrightarrow> job_step s (passTime t s)"

inductive jobs_reach :: "Jobs \<Rightarrow> bool" where
  begins: "jobs_reach \<lparr>jb_runs = [], jb_next = 0, jb_now = t, jb_log = []\<rparr>"
| continues: "jobs_reach s \<Longrightarrow> job_step s s1 \<Longrightarrow> jobs_reach s1"

inductive_cases job_stepE: "job_step s s1"

section \<open>What the jobs delete\<close>

text \<open>\<open>cleanupOtps\<close> is the other half of the clean-up of sessions.\<close>

definition cleanupSessions :: "int \<Rightarrow> AuthDb \<Rightarrow> AuthDb" where
  "cleanupSessions now db = db\<lparr>au_sessions := filter (\<lambda>s. \<not> (ses_expiresAt s < now
     \<or> (case ses_revokedAt s of Some t \<Rightarrow> t < now - 7 * 86400000 | None \<Rightarrow> False))) (au_sessions db)\<rparr>"

definition retainBars :: "int \<Rightarrow> int option \<Rightarrow> BarTable \<Rightarrow> BarTable" where
  "retainBars now retentionDays table =
     (let cutoff = now - (case retentionDays of Some d \<Rightarrow> d | None \<Rightarrow> 400) * 86400000
      in filter (\<lambda>((s, t), b). \<not> t < cutoff) table)"

end
