(* ===== verification/JobProofs.thy ===== *)
theory JobProofs
  imports Jobs MarketProofs
begin

text \<open>
  A job runs once at a time unless a run outlasts its lock, a hanging run never blocks its job beyond its timeout, and no user
  and no chart sees what the clean-up deletes.
\<close>

section \<open>The lock\<close>

lemma lock_keys_differ: "LOCK_KEYS j = LOCK_KEYS k \<longleftrightarrow> j = k"
  by (cases j; cases k) simp_all

text \<open>Why a later run may exist beside an earlier one of the same job: its lock had ended before the later one began.\<close>

definition outlasted :: "JobRun \<Rightarrow> JobRun \<Rightarrow> bool" where
  "outlasted r q \<longleftrightarrow> (case jr_lock r of LockHeld \<Rightarrow> False
     | LockTimedOut \<Rightarrow> jr_started r + jobTimeout (jr_job r) \<le> jr_started q
     | LockLost t \<Rightarrow> jr_started r \<le> t \<and> t \<le> jr_started q)"

definition run_ok :: "int \<Rightarrow> JobRun \<Rightarrow> bool" where
  "run_ok now r \<longleftrightarrow> jr_started r \<le> now \<and> (case jr_lock r of LockHeld \<Rightarrow> now < jr_started r + jobTimeout (jr_job r)
     | LockTimedOut \<Rightarrow> jr_started r + jobTimeout (jr_job r) \<le> now | LockLost t \<Rightarrow> jr_started r \<le> t \<and> t \<le> now)"

definition jobs_ok :: "Jobs \<Rightarrow> bool" where
  "jobs_ok s \<longleftrightarrow> distinct (map jr_id (jb_runs s)) \<and> (\<forall>r\<in>set (jb_runs s). jr_id r < jb_next s \<and> run_ok (jb_now s) r)
     \<and> (\<forall>r\<in>set (jb_runs s). \<forall>q\<in>set (jb_runs s). jr_job r = jr_job q \<and> jr_id r < jr_id q \<longrightarrow> outlasted r q)"

lemma timeout_pos: "0 < jobTimeout j"
  by (cases j) simp_all

lemma ok_start: "jobs_ok s \<Longrightarrow> jobs_ok (startJob job s)"
proof (cases "lockHeld job s")
  case True
  then show "jobs_ok s \<Longrightarrow> ?thesis" by (simp add: startJob_def logJob_def jobs_ok_def)
next
  case False
  assume ok: "jobs_ok s"
  let ?q = "\<lparr>jr_id = jb_next s, jr_job = job, jr_started = jb_now s, jr_lock = LockHeld\<rparr>"
  have free: "jr_lock r \<noteq> LockHeld" if "r \<in> set (jb_runs s)" "jr_job r = job" for r using False that by (auto simp: lockHeld_def)
  have over: "outlasted r ?q" if r: "r \<in> set (jb_runs s)" "jr_job r = job" for r
    using free [OF r] ok r(1) by (auto simp: jobs_ok_def run_ok_def outlasted_def split: LockState.splits)
  have new: "jb_next s \<notin> jr_id ` set (jb_runs s)" using ok by (auto simp: jobs_ok_def)
  have "run_ok (jb_now s) ?q" using timeout_pos [of job] by (simp add: run_ok_def)
  then show ?thesis using ok False over new by (auto simp: startJob_def jobs_ok_def)
qed

text \<open>Time and lost connections change a run only in its lock, and end the lock for good.\<close>

lemma ok_map:
  assumes "jobs_ok s" "\<And>r. r \<in> set (jb_runs s) \<Longrightarrow> jr_id (f r) = jr_id r \<and> jr_job (f r) = jr_job r \<and> jr_started (f r) = jr_started r
      \<and> (jr_lock r = LockHeld \<or> jr_lock (f r) = jr_lock r) \<and> run_ok t (f r)"
  shows "jobs_ok (s\<lparr>jb_now := t, jb_runs := map f (jb_runs s)\<rparr>)"
proof -
  have ids: "map jr_id (map f (jb_runs s)) = map jr_id (jb_runs s)" using assms(2) by simp
  have "outlasted (f r) (f q)" if "outlasted r q" "r \<in> set (jb_runs s)" "q \<in> set (jb_runs s)" for r q
    using that(1) assms(2) [OF that(2)] assms(2) [OF that(3)] by (auto simp: outlasted_def split: LockState.splits)
  then show ?thesis using assms ids by (auto simp: jobs_ok_def simp del: map_map)
qed

lemma ok_pass: "jobs_ok s \<Longrightarrow> jb_now s \<le> t \<Longrightarrow> jobs_ok (passTime t s)"
  unfolding passTime_def
  by (rule ok_map) (auto simp: expireLock_def jobs_ok_def run_ok_def split: LockState.splits)

lemma ok_lose: "jobs_ok s \<Longrightarrow> jobs_ok (loseConnection i s)"
proof -
  assume ok: "jobs_ok s"
  let ?f = "\<lambda>q. if jr_id q = i \<and> jr_lock q = LockHeld then q\<lparr>jr_lock := LockLost (jb_now s)\<rparr> else q"
  have "run_ok (jb_now s) r" if "r \<in> set (jb_runs s)" for r using ok that by (simp add: jobs_ok_def)
  then have "run_ok (jb_now s) (?f r)" if "r \<in> set (jb_runs s)" for r using that by (simp add: run_ok_def)
  then have "jobs_ok (s\<lparr>jb_now := jb_now s, jb_runs := map ?f (jb_runs s)\<rparr>)" by (intro ok_map [OF ok]) simp
  then show ?thesis by (simp add: loseConnection_def)
qed

lemma ok_end: "jobs_ok s \<Longrightarrow> jobs_ok (endJob r returned s)"
  by (auto simp: jobs_ok_def endJob_def logJob_def distinct_map_filter)

lemma jobs_reach_ok: "jobs_reach s \<Longrightarrow> jobs_ok s"
proof (induction rule: jobs_reach.induct)
  case (continues s s1)
  from continues(2,3) show ?case
    by (auto elim!: job_stepE intro: ok_start ok_lose ok_end ok_pass simp: logJob_def) (simp add: jobs_ok_def)
qed (simp add: jobs_ok_def)

text \<open>
  C37: In every reachable state of all replicas, with runs that hang, fail, return, outlast their timeout or lose the
  connection of their lock, two runs of one job exist together only when the lock of the earlier one had ended before the
  later one began, at its timeout or with its connection; at most one run holds the lock of a job, and while it does, no
  other starts; no lock is held at or beyond the timeout, so that once the timeout of every present run of a job has passed
  the next firing starts a run, however many of them hang.
\<close>

theorem jobs_overlap_only_after_timeout:
  assumes "jobs_reach s" "r \<in> set (jb_runs s)"
  shows "(\<forall>q\<in>set (jb_runs s). jr_job q = jr_job r \<and> jr_id r < jr_id q
        \<longrightarrow> jr_lock r = LockTimedOut \<and> jr_started r + jobTimeout (jr_job r) \<le> jr_started q
          \<or> (\<exists>t. jr_lock r = LockLost t \<and> jr_started r \<le> t \<and> t \<le> jr_started q))
    \<and> (\<forall>q\<in>set (jb_runs s). jr_job q = jr_job r \<and> jr_lock r = LockHeld \<and> jr_lock q = LockHeld \<longrightarrow> q = r)
    \<and> (jr_lock r = LockHeld \<longrightarrow> jb_now s < jr_started r + jobTimeout (jr_job r) \<and> startJob (jr_job r) s = logJob (jr_job r) JobSkipped s)
    \<and> ((\<forall>q\<in>set (jb_runs s). jr_job q = jr_job r \<longrightarrow> jr_started q + jobTimeout (jr_job r) \<le> jb_now s)
        \<longrightarrow> (\<exists>q. jb_runs (startJob (jr_job r) s) = jb_runs s @ [q] \<and> jr_job q = jr_job r \<and> jr_lock q = LockHeld))"
proof -
  have ok: "jobs_ok s" using assms(1) by (rule jobs_reach_ok)
  have over: "outlasted p q" if "p \<in> set (jb_runs s)" "q \<in> set (jb_runs s)" "jr_job p = jr_job q" "jr_id p < jr_id q" for p q
    using ok that unfolding jobs_ok_def by blast
  have held: "jb_now s < jr_started q + jobTimeout (jr_job q)" if "q \<in> set (jb_runs s)" "jr_lock q = LockHeld" for q
    using ok that by (auto simp: jobs_ok_def run_ok_def split: LockState.splits)
  have "q = r" if q: "q \<in> set (jb_runs s)" "jr_job q = jr_job r" "jr_lock r = LockHeld" "jr_lock q = LockHeld" for q
  proof (rule ccontr)
    assume "q \<noteq> r"
    then have "jr_id q \<noteq> jr_id r" using ok q(1) assms(2) unfolding jobs_ok_def by (metis distinct_map inj_onD)
    then consider "jr_id q < jr_id r" | "jr_id r < jr_id q" by linarith
    then show False using over [of q r] over [of r q] q assms(2) by cases (auto simp: outlasted_def)
  qed
  moreover have "startJob (jr_job r) s = logJob (jr_job r) JobSkipped s" if "jr_lock r = LockHeld"
    using that assms(2) by (auto simp: startJob_def lockHeld_def)
  moreover have "\<exists>q. jb_runs (startJob (jr_job r) s) = jb_runs s @ [q] \<and> jr_job q = jr_job r \<and> jr_lock q = LockHeld"
    if "\<forall>q\<in>set (jb_runs s). jr_job q = jr_job r \<longrightarrow> jr_started q + jobTimeout (jr_job r) \<le> jb_now s"
  proof -
    have "\<not> lockHeld (jr_job r) s" using that held by (force simp: lockHeld_def lock_keys_differ)
    then show ?thesis by (simp add: startJob_def)
  qed
  moreover have "jr_lock r = LockTimedOut \<and> jr_started r + jobTimeout (jr_job r) \<le> jr_started q
      \<or> (\<exists>t. jr_lock r = LockLost t \<and> jr_started r \<le> t \<and> t \<le> jr_started q)"
    if "q \<in> set (jb_runs s)" "jr_job q = jr_job r" "jr_id r < jr_id q" for q
    using over [OF assms(2) that(1) that(2) [symmetric] that(3)] by (auto simp: outlasted_def split: LockState.splits)
  ultimately show ?thesis using held [OF assms(2)] by blast
qed

text \<open>
  The comment of the file promises that only one replica runs each job and that the lock is held for the duration of the
  job. A sweep that takes longer than ten minutes is joined by a second one, and one whose lock loses its connection at once.
\<close>

definition noJobs :: Jobs where
  "noJobs = \<lparr>jb_runs = [], jb_next = 0, jb_now = 0, jb_log = []\<rparr>"

definition slowSweep :: Jobs where
  "slowSweep = startJob RiskSweep (passTime 600000 (startJob RiskSweep noJobs))"

definition droppedSweep :: Jobs where
  "droppedSweep = startJob RiskSweep (loseConnection 0 (startJob RiskSweep noJobs))"

lemma slow_reach: "jobs_reach slowSweep"
  unfolding slowSweep_def noJobs_def
  by (rule continues [OF continues [OF continues [OF begins fires] passes] fires]) (simp add: startJob_def lockHeld_def)

lemma dropped_reach: "jobs_reach droppedSweep"
  unfolding droppedSweep_def noJobs_def
  by (rule continues [OF continues [OF continues [OF begins fires] loses] fires])

lemma sweeps_run_twice:
  "jobs_reach slowSweep \<and> map jr_job (jb_runs slowSweep) = [RiskSweep, RiskSweep]"
  "jobs_reach droppedSweep \<and> map jr_job (jb_runs droppedSweep) = [RiskSweep, RiskSweep] \<and> jb_now droppedSweep = 0"
  using slow_reach dropped_reach by (simp_all, code_simp+)

theorem jobs_overlap_only_after_timeout_witness:
  "jr_lock (hd (jb_runs slowSweep)) = LockTimedOut \<and> startJob RiskSweep slowSweep = logJob RiskSweep JobSkipped slowSweep"
proof -
  let ?r = "jb_runs slowSweep ! 0" and ?q = "jb_runs slowSweep ! 1"
  have runs: "?r \<in> set (jb_runs slowSweep)" "?q \<in> set (jb_runs slowSweep)" "jr_job ?q = jr_job ?r" "jr_id ?r < jr_id ?q"
    "jr_lock ?q = LockHeld" "jr_job ?q = RiskSweep" "hd (jb_runs slowSweep) = ?r" "case jr_lock ?r of LockLost _ \<Rightarrow> False | _ \<Rightarrow> True"
    by code_simp+
  note first = jobs_overlap_only_after_timeout [OF slow_reach runs(1), THEN conjunct1, rule_format, OF runs(2) conjI, OF runs(3,4)]
  note second = jobs_overlap_only_after_timeout [OF slow_reach runs(2), THEN conjunct2, THEN conjunct2, THEN conjunct1, rule_format, OF runs(5)]
  have "jr_lock ?r = LockTimedOut" using first runs(8) by (cases "jr_lock ?r") simp_all
  then show ?thesis using second unfolding runs(6,7) by blast
qed

section \<open>Clean-up\<close>

text \<open>Which answer a request gets does not depend on the sessions that were removed.\<close>

definition expired :: "int \<Rightarrow> Session \<Rightarrow> bool" where
  "expired now s \<longleftrightarrow> ses_expiresAt s < now \<or> (case ses_revokedAt s of Some t \<Rightarrow> t < now - 7 * 86400000 | None \<Rightarrow> False)"

lemma find_kept:
  assumes "distinct (map ses_id xs)"
  shows "findUnique (\<lambda>s. ses_id s = i) (filter P xs) = (case findUnique (\<lambda>s. ses_id s = i) xs of Some s \<Rightarrow> if P s then Some s else None | None \<Rightarrow> None)"
  using assms
proof (induction xs)
  case (Cons x xs)
  have "findUnique (\<lambda>s. ses_id s = i) (filter P xs) = None" if "i = ses_id x"
  proof -
    have "\<forall>s\<in>set (filter P xs). ses_id s \<noteq> i" using Cons.prems that by (auto simp: image_iff)
    then show ?thesis by (simp add: findUnique_def find_None_iff)
  qed
  then show ?case using Cons by (cases "ses_id x = i") (simp_all add: findUnique_def)
qed (simp add: findUnique_def)

lemma sessions_kept: "au_sessions (cleanupSessions now db) = filter (\<lambda>s. \<not> expired now s) (au_sessions db)"
  by (simp add: cleanupSessions_def expired_def)

lemma session_answer:
  assumes "distinct (map ses_id (au_sessions db))" "now \<le> later"
  shows "fst (getSessionUser cookie later (cleanupSessions now db)) = fst (getSessionUser cookie later db)
    \<and> fst (snd (getSessionUser cookie later (cleanupSessions now db))) = fst (snd (getSessionUser cookie later db))"
proof (cases "Option.bind cookie pl_sid")
  case (Some sid)
  have users: "userById i (cleanupSessions now db) = userById i db" for i by (simp add: userById_def userWhere_def cleanupSessions_def)
  show ?thesis
  proof (cases "findUnique (\<lambda>s. ses_id s = sid) (au_sessions db)")
    case None
    then show ?thesis using Some find_kept [OF assms(1), of sid] by (simp add: getSessionUser_def sessions_kept)
  next
    case f: (Some s)
    show ?thesis
    proof (cases "expired now s")
      case True
      then have "ses_revokedAt s \<noteq> None \<or> ses_expiresAt s < later" using assms(2) by (auto simp: expired_def split: option.split_asm)
      then show ?thesis using Some f True find_kept [OF assms(1), of sid] by (auto simp: getSessionUser_def sessions_kept split: option.split)
    next
      case False
      then show ?thesis using Some f find_kept [OF assms(1), of sid]
        by (auto simp: getSessionUser_def sessions_kept users Let_def split: option.split)
    qed
  qed
qed (simp add: getSessionUser_def)

text \<open>Neither the limits of a phone nor the check of a code see the codes that were removed.\<close>

lemma recent_kept:
  assumes "\<forall>r\<in>set (ot_rows t). otp_createdAt r \<le> otp_expiresAt r + 23 * 3600000" "now \<le> later"
  shows "recentOtps phone later (cleanupOtps now t) = recentOtps phone later t"
proof -
  have "filter (\<lambda>r. otp_phone r = phone \<and> otp_createdAt r > later - 60 * 60000) (filter (\<lambda>r. \<not> otp_expiresAt r < now - 86400000) (ot_rows t))
      = filter (\<lambda>r. otp_phone r = phone \<and> otp_createdAt r > later - 60 * 60000) (ot_rows t)"
    unfolding filter_filter by (rule filter_cong [OF refl]) (use assms in force)
  then show ?thesis by (simp add: recentOtps_def cleanupOtps_def)
qed

lemma issue_kept:
  assumes "\<forall>r\<in>set (ot_rows t). otp_createdAt r \<le> otp_expiresAt r + 23 * 3600000" "now \<le> later"
  shows "fst (issueOtp hmac phone purpose k later createdAt (cleanupOtps now t)) = fst (issueOtp hmac phone purpose k later createdAt t)"
  using recent_kept [OF assms, of phone] by (simp add: issueOtp_def Let_def cleanupOtps_def)

lemma request_kept:
  assumes "\<forall>r\<in>set (ot_rows t). otp_createdAt r \<le> otp_expiresAt r + 23 * 3600000" "now \<le> later"
  shows "fst (requestPhoneOtp hmac rawPhone purpose u n later createdAt delivered console (cleanupOtps now t))
    = fst (requestPhoneOtp hmac rawPhone purpose u n later createdAt delivered console t)"
proof (cases "requestChecks rawPhone u")
  case (Inr phone)
  obtain x t1 where a: "issueOtp hmac phone purpose (generateOtpCode n) later createdAt (cleanupOtps now t) = (x, t1)" by fastforce
  obtain y t2 where b: "issueOtp hmac phone purpose (generateOtpCode n) later createdAt t = (y, t2)" by fastforce
  have "x = y" using issue_kept [OF assms, of hmac phone purpose "generateOtpCode n" createdAt] a b by simp
  then show ?thesis using Inr a b by (cases y) (auto simp: requestPhoneOtp_def smsDone_def)
qed (simp add: requestPhoneOtp_def)

lemma live_kept: "now \<le> later \<Longrightarrow> filter (otpLive later phone purpose) (ot_rows (cleanupOtps now t)) = filter (otpLive later phone purpose) (ot_rows t)"
  unfolding cleanupOtps_def by (auto simp: otpLive_def intro!: filter_cong)

lemma read_kept: "now \<le> later \<Longrightarrow> verifyRead rawPhone rawCode purpose later (cleanupOtps now t) = verifyRead rawPhone rawCode purpose later t"
  by (simp add: verifyRead_def Let_def live_kept split: option.split)

text \<open>A check that nothing interrupts accepts exactly when the code matches the row it read.\<close>

lemma check_answer:
  "fst (verifyPhoneOtp hmac rawPhone rawCode purpose now t) = (case verifyRead rawPhone rawCode purpose now t of
     None \<Rightarrow> None
   | Some c \<Rightarrow> if otpMatches hmac (otp_codeHash (oc_row c)) (oc_purpose c) (oc_phone c) (oc_code c) then Some (oc_phone c) else None)"
proof (cases "verifyRead rawPhone rawCode purpose now t")
  case (Some c)
  have "oc_row c \<in> set (filter (otpLive now (oc_phone c) purpose) (ot_rows t))"
    using Some by (auto simp: verifyRead_def Let_def split: option.split_asm if_split_asm dest: last_in_set)
  then have row: "oc_row c \<in> set (ot_rows t)" "otp_consumedAt (oc_row c) = None" "otp_attempts (oc_row c) < OTP_MAX_ATTEMPTS" by (auto simp: otpLive_def)
  let ?i = "otp_id (oc_row c)"
  obtain n t1 where s: "spendAttempt ?i t = (n, t1)" by fastforce
  have "oc_row c \<in> set (filter (\<lambda>r. otp_id r = ?i \<and> otp_consumedAt r = None \<and> otp_attempts r < OTP_MAX_ATTEMPTS) (ot_rows t))" using row by simp
  moreover have "n = length (filter (\<lambda>r. otp_id r = ?i \<and> otp_consumedAt r = None \<and> otp_attempts r < OTP_MAX_ATTEMPTS) (ot_rows t))"
    using s by (simp add: spendAttempt_def updateMany_def)
  ultimately have n: "n \<noteq> 0" by (metis length_0_conv length_pos_if_in_set less_numeral_extra(3))
  have "(oc_row c)\<lparr>otp_attempts := otp_attempts (oc_row c) + 1\<rparr> \<in> set (ot_rows t1)"
    using s row by (force simp: spendAttempt_def updateMany_def image_iff)
  then have "\<exists>x\<in>set (ot_rows t1). otp_id x = ?i \<and> otp_consumedAt x = None" by (rule bexI [rotated]) (simp add: row(2))
  then have "fst (claimOtp now ?i (ot_rows t1)) \<noteq> 0" by (auto simp: claimOtp_def updateMany_def filter_empty_conv)
  then have "fst (verifyClaim now c t1) = Some (oc_phone c)" by (cases "claimOtp now ?i (ot_rows t1)") (simp add: verifyClaim_def)
  then show ?thesis using Some s n by (simp add: verifyPhoneOtp_def verifySpend_def)
qed (simp add: verifyPhoneOtp_def)

text \<open>Candles after the cut are whole.\<close>

lemma aggregate_after:
  assumes "sorted (map bar_time bs)" "bucketStart t tf = t"
  shows "aggregateBars (filter (\<lambda>b. t \<le> bar_time b) bs) tf = filter (\<lambda>c. t \<le> bar_time c) (aggregateBars bs tf)"
proof -
  have later: "t \<le> bar_time b \<longleftrightarrow> t \<le> bucket tf b" for b
    using bucketStart_le [of "bar_time b" tf] bucketStart_mono [of t "bar_time b" tf] assms(2) by linarith
  let ?new = "filter (\<lambda>b. t \<le> bar_time b) bs"
  have s: "sorted (map bar_time ?new)" using assms(1) by (rule sorted_filter)
  have b: "buckets tf ?new = filter (\<lambda>k. t \<le> k) (buckets tf bs)"
    by (rule sorted_distinct_set_unique) (auto simp: buckets_set later sorted_filter [of "\<lambda>x. x", simplified])
  have g: "groupBar k (filter (\<lambda>b. bucket tf b = k) ?new) = groupBar k (filter (\<lambda>b. bucket tf b = k) bs)" if "t \<le> k" for k
  proof -
    have "filter (\<lambda>b. bucket tf b = k) ?new = filter (\<lambda>b. bucket tf b = k) bs"
      unfolding filter_filter by (rule filter_cong) (use that later in auto)
    then show ?thesis by simp
  qed
  have time: "bar_time (groupBar k x) = k" for k x by (simp add: groupBar_def Let_def)
  have "groupAll tf ?new = map (\<lambda>k. groupBar k (filter (\<lambda>b. bucket tf b = k) bs)) (filter (\<lambda>k. t \<le> k) (buckets tf bs))"
    unfolding groupAll_def b by (intro map_cong refl g) simp
  also have "\<dots> = filter (\<lambda>c. t \<le> bar_time c) (groupAll tf bs)" by (simp add: groupAll_def filter_map comp_def time)
  finally show ?thesis using s assms(1) by (simp add: groups_aggregate)
qed

text \<open>The candles from a bucket that starts after the cut are those of all minutes.\<close>

lemma stored_retained:
  assumes "table_ok table"
  shows "storedMinutes symbol c0 (filter (\<lambda>((s, t), b). \<not> t < c) table) = filter (\<lambda>b. c \<le> bar_time b) (storedMinutes symbol c0 table)"
  using assms unfolding table_ok_def by (induction table) (auto simp: storedMinutes_def)

lemma retained_history:
  assumes "table_ok table" "bucketStart start tf = start" "c \<le> start"
  shows "filter (\<lambda>b. start div 1000 \<le> bar_time b) (history symbol tf before (filter (\<lambda>((s, t), b). \<not> t < c) table))
    = filter (\<lambda>b. start div 1000 \<le> bar_time b) (history symbol tf before table)"
proof -
  let ?cut = "if tf = TF_1m then before else map_option (\<lambda>b. bucketStartSeconds (b div 1000) tf * 1000) before"
  have seconds: "start div 1000 \<le> bar_time (toSeconds b) \<longleftrightarrow> start \<le> bar_time b" for b
  proof -
    have "k \<le> x div 1000 \<longleftrightarrow> k * 1000 \<le> x" for k x :: int by linarith
    from this [of "start div 1000" "bar_time b"] have "start div 1000 \<le> bar_time b div 1000 \<longleftrightarrow> start \<le> bar_time b"
      by (simp only: conjunct1 [OF whole_seconds [OF assms(2)]])
    then show ?thesis by (simp add: toSeconds_def)
  qed
  have parts: "filter (\<lambda>b. start div 1000 \<le> bar_time b) (map toSeconds (aggregateBars xs tf))
      = map toSeconds (aggregateBars (filter (\<lambda>b. start \<le> bar_time b) xs) tf)" if "sorted (map bar_time xs)" for xs
    using aggregate_after [OF that assms(2)] by (simp add: filter_map comp_def seconds)
  have "filter (\<lambda>b. start \<le> bar_time b) (sort_key bar_time (filter (\<lambda>b. c \<le> bar_time b) (storedMinutes symbol ?cut table)))
      = filter (\<lambda>b. start \<le> bar_time b) (sort_key bar_time (storedMinutes symbol ?cut table))"
  proof -
    have "filter (\<lambda>b. start \<le> bar_time b) (filter (\<lambda>b. c \<le> bar_time b) xs) = filter (\<lambda>b. start \<le> bar_time b) xs" for xs :: "Bar list"
      unfolding filter_filter by (rule filter_cong [OF refl]) (use assms(3) in auto)
    then show ?thesis by (simp only: filter_sort)
  qed
  then show ?thesis by (simp only: history_def stored_retained [OF assms(1)] parts sorted_sort_key)
qed

text \<open>
  C38: What the clean-up jobs delete is never missed: at every later time a request with any cookie gets the same user, a
  phone gets the same answer to a request for a code, a code is accepted or refused as before, and every candle whose bucket
  starts after the cut is the one that all stored minutes give (rows are unique, and no code was created more than 23 hours
  after its expiry).
\<close>

theorem cleanup_is_invisible:
  assumes "distinct (map ses_id (au_sessions db))" "\<forall>r\<in>set (ot_rows t). otp_createdAt r \<le> otp_expiresAt r + 23 * 3600000"
    "table_ok table" "bucketStart start tf = start" "now - (case days of Some d \<Rightarrow> d | None \<Rightarrow> 400) * 86400000 \<le> start" "now \<le> later"
  shows "fst (getSessionUser cookie later (cleanupSessions now db)) = fst (getSessionUser cookie later db)
    \<and> fst (requestPhoneOtp hmac rawPhone purpose u n later createdAt delivered console (cleanupOtps now t))
        = fst (requestPhoneOtp hmac rawPhone purpose u n later createdAt delivered console t)
    \<and> fst (verifyPhoneOtp hmac rawPhone rawCode purpose later (cleanupOtps now t)) = fst (verifyPhoneOtp hmac rawPhone rawCode purpose later t)
    \<and> filter (\<lambda>b. start div 1000 \<le> bar_time b) (history symbol tf before (retainBars now days table))
        = filter (\<lambda>b. start div 1000 \<le> bar_time b) (history symbol tf before table)"
  using session_answer [OF assms(1,6)] request_kept [OF assms(2,6)] retained_history [OF assms(3-5), of symbol before]
  by (simp add: check_answer read_kept [OF assms(6)] retainBars_def)

definition oldSessions :: AuthDb where
  "oldSessions = \<lparr>au_users = [], au_sessions = [\<lparr>ses_id = 1, ses_userId = 1, ses_expiresAt = 5, ses_revokedAt = None, ses_lastSeenAt = 0\<rparr>],
     au_tokens = [], au_otps = \<lparr>ot_rows = [], ot_nextId = 1\<rparr>, au_audit = [], 
     au_store = \<lparr>st_db = emptyDb, st_users = [], st_purchases = [], st_coupons = [], st_rewards = [], st_payouts = [], st_kyc = [], st_commissionSetting = None\<rparr>, au_nextId = 2\<rparr>"

definition oldCodes :: OtpTable where
  "oldCodes = \<lparr>ot_rows = [\<lparr>otp_id = 1, otp_phone = ''+251911000000'', otp_codeHash = [], otp_purpose = OTP_LOGIN, otp_attempts = 0,
     otp_expiresAt = 300000, otp_consumedAt = None, otp_createdAt = 0\<rparr>], ot_nextId = 2\<rparr>"

theorem cleanup_is_invisible_witness:
  "au_sessions (cleanupSessions 90000000 oldSessions) = [] \<and> ot_rows (cleanupOtps 90000000 oldCodes) = []
    \<and> fst (getSessionUser (Some \<lparr>pl_sid = Some 1, pl_sub = None, pl_purpose = None, pl_phone = None, pl_exp = 0\<rparr>) 90000000 (cleanupSessions 90000000 oldSessions))
      = fst (getSessionUser (Some \<lparr>pl_sid = Some 1, pl_sub = None, pl_purpose = None, pl_phone = None, pl_exp = 0\<rparr>) 90000000 oldSessions)
    \<and> filter (\<lambda>b. 90000000 div 1000 \<le> bar_time b) (history ''EURUSD'' TF_5m None (retainBars 90000000 (Some 1) threeMinutes))
      = filter (\<lambda>b. 90000000 div 1000 \<le> bar_time b) (history ''EURUSD'' TF_5m None threeMinutes)"
proof -
  have a: "distinct (map ses_id (au_sessions oldSessions))" by (simp add: oldSessions_def)
  have b: "\<forall>r\<in>set (ot_rows oldCodes). otp_createdAt r \<le> otp_expiresAt r + 23 * 3600000" by (simp add: oldCodes_def)
  have c: "table_ok threeMinutes" by (simp add: table_ok_def threeMinutes_def newBar_def bucketStart_def)
  have d: "bucketStart 90000000 TF_5m = 90000000" by (simp add: bucketStart_def)
  have e: "(90000000 :: int) - (case Some 1 of Some d \<Rightarrow> d | None \<Rightarrow> 400) * 86400000 \<le> 90000000" by simp
  have gone: "au_sessions (cleanupSessions 90000000 oldSessions) = []" "ot_rows (cleanupOtps 90000000 oldCodes) = []"
    by (simp_all add: cleanupSessions_def cleanupOtps_def oldSessions_def oldCodes_def)
  show ?thesis using cleanup_is_invisible [OF a b c d e order_refl] gone by blast
qed

end
