(* ===== verification/Spec2Isabelle.thy ===== *)
theory Spec2Isabelle
  imports LedgerProofs EngineProofs CommerceProofs PurchaseProofs PayoutProofs FeedProofs CandleProofs GatewayProofs OtpProofs Proxy AuthAdmins KycProofs FeedPlanProofs CTraderSession AccountViewProofs LeaderboardProofs TradingSocketProofs TerminalProofs MarketProofs NewsCalendarProofs JobProofs
begin

text \<open>
  \<^bold>\<open>Mella Dashboard: a verification library\<close>

  The repository is a prop-trading platform: traders buy a challenge, trade a simulated account under its rules,
  pass or fail, are funded, and are paid out. A web application (services under \<open>src/lib/services\<close>) owns the
  database; a worker (\<open>src/trading\<close>) owns the live prices, the open positions and the orders. Both write the same
  tables, so most of what can go wrong is arithmetic in binary floating point, rows read before another
  transaction changed them, and the order of ticks, timers and tasks. This library models those parts from the
  TypeScript sources and proves what makes them correct.

  \<^bold>\<open>Ground\<close>
  \<^item> \<open>Prelude\<close>: shared collections and list facts. \<open>JsNumber\<close>: the JavaScript number, IEEE-754 binary64 with
    round-to-nearest-even, where a finite value is the rational it denotes and each operation rounds once. The two
    zeros are one value (the code never tells them apart), overflow gives the infinities, and \<open>NaN\<close> compares false.
    \<open>JsString\<close>: ASCII strings. \<open>Money\<close>: \<open>roundCurrency\<close> with its error bounds, by which sums of cents are exact.
  \<^item> \<open>Database\<close>: the tables of \<open>prisma/schema.prisma\<close> the worker and the rule engine use, as lists of records,
    with \<open>findUnique\<close> and \<open>updateMany\<close>. A transaction is a function to an error or a result with the new database,
    so that a failed transaction changes nothing. The locale \<open>claims\<close> is the compare-and-swap
    (\<open>updateMany WHERE status = s\<close>, count tested) by which the services decide who wins.

  \<^bold>\<open>Rule engine\<close>
  \<^item> \<open>ChallengeRules\<close> (\<open>challengeRules.ts\<close>): floors, targets, the automatic decision, consistency, manual
    transitions. \<open>Clock\<close> (\<open>dailyReset.ts\<close>): the daily boundary in whole milliseconds.
  \<^item> \<open>AccountMetrics\<close> (\<open>calculations.ts\<close>, \<open>accountMetrics.ts\<close>): the metrics in memory and by SQL aggregates, and
    that they agree.
  \<^item> \<open>ChallengeEngine\<close> (\<open>challengeEngine.ts\<close>, \<open>certificates.ts\<close>): evaluation, split into the read and the commit
    so that two can interleave, phase progression, breaches, manual changes, resets and the risk sweep.
    \<open>ChallengeProofs\<close>: any interleaving keeps the chain of accounts; a transition happens once.
  \<^item> \<open>TradeLedger\<close> (\<open>tradeLedger.ts\<close>) and \<open>LedgerProofs\<close>: fills and closes are idempotent and exact to the cent, and
    balance and ledger agree after any run.

  \<^bold>\<open>Live engine\<close>
  \<^item> \<open>Fx\<close>, \<open>Sessions\<close>, \<open>News\<close>, \<open>TradingMath\<close> (\<open>fx.ts\<close>, \<open>sessions.ts\<close>, \<open>news.ts\<close>, \<open>math.ts\<close>): rates, the FX week in
    New York wall time (the zone data is a parameter with its documented laws), news windows, price arithmetic.
  \<^item> \<open>EngineState\<close>, \<open>EngineOps\<close>, \<open>EngineHandlers\<close>, \<open>EngineOrders\<close>, \<open>EngineLoop\<close> (\<open>engine.ts\<close>): account objects on an
    explicit heap, positions, pending orders, the queue of tasks of each account, handlers, the tick, timers,
    persistence and reconciliation. A task runs without interruption except where the model splits it at an await
    that hands over to the queue; the database calls that fail are a list the state carries.
    \<open>EngineGuarantee\<close> has the locale \<open>engine_guarantee\<close>: a relation kept by the primitive changes of memory is kept
    by every step; \<open>EngineProofs\<close> interprets it three times.
  \<^item> \<open>FeedRouter\<close>, \<open>FeedProofs\<close> (\<open>feeds/router.ts\<close>): failover between price sources. \<open>Candles\<close>, \<open>CandleProofs\<close>
    (\<open>candles.ts\<close>, \<open>candleStore.ts\<close>): bars on every time frame against the stored minutes.

  \<^bold>\<open>Commerce\<close>
  \<^item> \<open>Commerce\<close> adds the commercial tables. \<open>Coupons\<close>, \<open>Referrals\<close>, \<open>Purchases\<close>, \<open>Payouts\<close> model the services of
    these names. \<open>MakerChecker\<close> is the locale of decisions that need several people; \<open>CommerceTables\<close> interprets
    it for payouts and rewards. \<open>CommerceRun\<close> is the relation of runs in which each operation may act on rows read
    earlier; \<open>CommerceProofs\<close>, \<open>PurchaseProofs\<close>, \<open>PayoutProofs\<close> are the properties and \<open>CommerceSamples\<close> the
    concrete shop of their witnesses.
  \<^bold>\<open>Gateway\<close>
  \<^item> \<open>Coalesce\<close> (\<open>coalesce.ts\<close>): at most one frame per key and interval, always the latest. \<open>GatewayMessages\<close>: the
    schema of client messages and the names of channels. \<open>Gateway\<close> (\<open>gateway.ts\<close>): connections, subscriptions,
    fan-out; a handler that awaits leaves a value that a later step resumes. \<open>GatewayEngine\<close>: the calls of the engine
    behind it, and that its answers about an account are for the owner. \<open>GatewayProofs\<close>: over every
    interleaving, what an account does is shown to its owner and to administrators only.

  \<^bold>\<open>Sign-in\<close>
  \<^item> \<open>Phone\<close> (\<open>lib/phone.ts\<close>) and \<open>Otp\<close> (\<open>phoneOtp.ts\<close>): numbers in E.164; one-time codes with their budget of
    attempts and their sending limits. \<open>OtpProofs\<close>: under any interleaving of requests and checks no code gets more
    than five guesses or is accepted twice, and no phone is sent too many codes.
  \<^item> \<open>AuthDb\<close> (\<open>session.ts\<close>, \<open>tokens.ts\<close>, \<open>mfa.ts\<close>, \<open>guards.ts\<close>), \<open>Auth\<close> (\<open>auth.ts\<close>) and \<open>PhoneAuth\<close>
    (\<open>phoneAuth.ts\<close>, \<open>users.ts\<close>): users with their login columns, sessions, single-use tokens, signed cookies as
    payloads, and every operation on them; cryptographic libraries are the fields of \<open>Crypto\<close>.
    \<open>AuthRun\<close>: what operations leave alone, runs of interleaved requests with a log of what was proven.
    \<open>AuthProofs\<close>, \<open>AuthGuarantee\<close>, \<open>AuthAdmins\<close>: sessions and cookies are earned, ended sessions stay ended,
    verified phones were proven, lockout, and an active administrator remains.

  \<^bold>\<open>Request boundary\<close>
  \<^item> \<open>RateLimit\<close> (\<open>rateLimit.ts\<close>): the fixed-window limiter with its sweeps, and the client address behind trusted
    proxies. \<open>Proxy\<close> (\<open>proxy.ts\<close>): its matcher, its rules, its decision on every request, and what passes by it.

  \<^bold>\<open>Identity verification\<close>
  \<^item> \<open>Kyc\<close> (\<open>kycVerification.ts\<close>, \<open>kyc.ts\<close>, \<open>dojahKycProvider.ts\<close>, \<open>webhooks.ts\<close> and the webhook route):
    submissions and who decides them. \<open>KycProofs\<close>: in every interleaving a submission is decided once, and approval
    needs a signed result or a reviewer.

  \<^bold>\<open>Market data\<close>
  \<^item> \<open>FeedPlan\<close> (\<open>feeds/plan.ts\<close>, \<open>feeds/index.ts\<close>, \<open>startProviders\<close> of \<open>worker/main.ts\<close>): which source serves
    which instrument, and the synchronisation of the running providers as a task with its awaits. \<open>FeedPlanProofs\<close>: it
    ends with exactly the planned providers; what concurrent runs and changed digits do.
  \<^item> \<open>FeedCodec\<close> (\<open>ctrader.ts\<close>, \<open>tradermade.ts\<close>, \<open>binance.ts\<close>): the frames of the three vendors, from parsed JSON.
    \<open>FeedProviders\<close>: the clients over numbered sockets with a phase. \<open>FeedProviderProofs\<close> has the locale
    \<open>reconnecting\<close> (one socket at a time, never neither socket nor timer), interpreted there for Binance and
    TraderMade and in \<open>CTraderProofs\<close> for cTrader. \<open>CTraderSession\<close>: the order of a session and its quotes.

  \<^bold>\<open>What traders see\<close>
  \<^item> \<open>AccountViews\<close> (\<open>accountState.ts\<close>): the state of an account as a page builds it. \<open>AccountViewProofs\<close>: it is what
    the engine streams, until a payout. \<open>Leaderboard\<close> (\<open>leaderboard.ts\<close>) and \<open>LeaderboardProofs\<close>: the public
    ranking with its cache and aliases.
  \<^item> \<open>TradingSocket\<close> (\<open>hooks/useTradingSocket.ts\<close>): the browser's side of the gateway, a record of the refs of the
    hook and its callbacks over tickets, numbered sockets and timers. \<open>TradingSocketProofs\<close>: over every run it is
    never stuck, never connects twice, and has asked for its channels; its messages are what the gateway parses.
  \<^item> \<open>Terminal\<close> (\<open>rules.ts\<close>, \<open>tradingMath.ts\<close>, \<open>OrderTicket.tsx\<close>, parts of \<open>TradeTerminal.tsx\<close>): the rule checks and
    banners of the page, its validators and the order that it sends. \<open>TerminalProofs\<close>: its rule checks are those of
    the engine, and what the ticket submits passes the engine's checks.
  \<^item> \<open>Market\<close> (\<open>market.ts\<close>): the catalogue, the latest rates and the candles of a chart, with the SQL aggregation
    written out. \<open>MarketProofs\<close>: the query is the aggregation of the stored minutes, and its pages fit together.
  \<^item> \<open>NewsCalendar\<close> (\<open>newsCalendar.ts\<close>): the parsers of the CSV file and of the weekly feed, and the table of
    events. \<open>NewsCalendarProofs\<close>: quoted files are read back, and a repeated import changes nothing.
  \<^item> \<open>Jobs\<close> (\<open>worker/jobs.ts\<close>): the periodic jobs of all replicas under their advisory locks, and what they delete.
    \<open>JobProofs\<close>: runs overlap only after the lock ended early, and the clean-up is never seen.

  \<^bold>\<open>Conventions\<close>
  \<^item> Ids are natural numbers from one counter, instants are integers in milliseconds, money and prices are
    \<open>number\<close>s. Every \<open>throw\<close> is an \<open>Inl\<close>, every early return a branch.
  \<^item> Loops are recursion on the list they run over. The two searches that have no such list carry a bound: the
    rollover search of \<open>Sessions\<close> looks at the last seven days, and is proved to succeed within them; the generator of
    referral codes of \<open>Referrals\<close> reads a stream of random batches, and is proved to stop when an acceptable byte
    keeps arriving.
  \<^item> A property with a hypothesis has a witness, \<open><name>_witness\<close>, that applies it to a concrete input.

  \<^bold>\<open>Not modelled\<close>
  \<^item> The sockets themselves, the stub price generator, HTTP routes and process life cycle of the worker; password hashing, JWTs and
    TOTP (library calls); HTTP clients of Chapa, Dojah and the calendars; React components, routes, translations
    and message texts; seed data and migrations.
  \<^item> Inside the modelled services: log lines, latency samples, operational alerts, free texts and notes, JSON
    payloads of audit entries, paginated lists. Refund and cancellation run as one serial transaction.
\<close>

end
